(* ===== verification/Prelude.thy ===== *)
theory Prelude
  imports Main
begin

text \<open>
  Shared vocabulary of the development: identifiers and instants, results that are an
  exception or a value, transaction bodies over a database state, tables as lists of rows with
  the handful of queries the services issue (find, count, sum, conditional update), and the
  generic lemmas about them. The collections \<open>result_simps\<close>, \<open>table_simps\<close> and
  \<open>frame_simps\<close> gather the facts the component proofs pass to \<open>simp\<close> and
  \<open>auto\<close>.
\<close>

type_synonym id = nat
type_synonym time = int

named_theorems result_simps "case analysis of results and transaction bodies"
named_theorems table_simps "queries against updated tables"
named_theorems frame_simps "tables an operation leaves alone"

section \<open>Results\<close>

text \<open>\<open>Inl\<close> is a thrown exception, \<open>Inr\<close> a returned value.\<close>

definition bind_r :: "'e + 'a \<Rightarrow> ('a \<Rightarrow> 'e + 'b) \<Rightarrow> 'e + 'b" where
  "bind_r m f = (case m of Inl e \<Rightarrow> Inl e | Inr x \<Rightarrow> f x)"

definition require :: "bool \<Rightarrow> 'e \<Rightarrow> 'e + unit" where
  "require ok e = (if ok then Inr () else Inl e)"

lemma bind_r_simps [simp]:
  "bind_r (Inl e) f = Inl e"
  "bind_r (Inr x) f' = f' x"
  by (simp_all add: bind_r_def)

lemma bind_r_Inr_iff [result_simps]:
  "bind_r m f = Inr y \<longleftrightarrow> (\<exists>x. m = Inr x \<and> f x = Inr y)"
  by (cases m) auto

lemma bind_r_Inl_iff [result_simps]:
  "bind_r m f = Inl e \<longleftrightarrow> m = Inl e \<or> (\<exists>x. m = Inr x \<and> f x = Inl e)"
  by (cases m) auto

lemma require_Inr_iff [result_simps]: "require ok e = Inr u \<longleftrightarrow> ok"
  by (simp add: require_def)

lemma require_Inl_iff [result_simps]: "require ok e = Inl e' \<longleftrightarrow> \<not> ok \<and> e' = e"
  by (auto simp: require_def)

lemma require_simps [simp]: "require True e = Inr ()" "require False e = Inl e"
  by (simp_all add: require_def)

lemma bind_r_cong [fundef_cong]:
  "m = m' \<Longrightarrow> (\<And>x. m' = Inr x \<Longrightarrow> f x = g x) \<Longrightarrow> bind_r m f = bind_r m' g"
  by (cases m') auto

text \<open>A loop over a list that stops at the first exception.\<close>

fun map_r :: "('a \<Rightarrow> 'e + 'b) \<Rightarrow> 'a list \<Rightarrow> 'e + 'b list" where
  "map_r f [] = Inr []"
| "map_r f (x # xs) = bind_r (f x) (\<lambda>y. bind_r (map_r f xs) (\<lambda>ys. Inr (y # ys)))"

lemma map_r_total: "(\<And>x. x \<in> set xs \<Longrightarrow> f x = Inr (g x)) \<Longrightarrow> map_r f xs = Inr (map g xs)"
  by (induction xs) auto

lemma map_r_Inr_iff: "map_r f xs = Inr ys \<longleftrightarrow> list_all2 (\<lambda>x y. f x = Inr y) xs ys"
  by (induction xs arbitrary: ys) (auto simp: bind_r_Inr_iff list_all2_Cons1)

section \<open>Transaction bodies\<close>

text \<open>
  A transaction body reads and writes the database state. A thrown exception rolls the whole
  body back, so an error carries no state: the database is the one before the transaction.
\<close>

type_synonym ('s, 'e, 'a) tx = "'s \<Rightarrow> 'e + ('a \<times> 's)"

definition ret_tx :: "'a \<Rightarrow> ('s, 'e, 'a) tx" where
  "ret_tx x = (\<lambda>s. Inr (x, s))"

definition throw_tx :: "'e \<Rightarrow> ('s, 'e, 'a) tx" where
  "throw_tx e = (\<lambda>s. Inl e)"

definition bind_tx :: "('s, 'e, 'a) tx \<Rightarrow> ('a \<Rightarrow> ('s, 'e, 'b) tx) \<Rightarrow> ('s, 'e, 'b) tx" where
  "bind_tx m f = (\<lambda>s. case m s of Inl e \<Rightarrow> Inl e | Inr (x, s') \<Rightarrow> f x s')"

definition lift_tx :: "'e + 'a \<Rightarrow> ('s, 'e, 'a) tx" where
  "lift_tx r = (\<lambda>s. case r of Inl e \<Rightarrow> Inl e | Inr x \<Rightarrow> Inr (x, s))"

definition get_tx :: "('s \<Rightarrow> 'a) \<Rightarrow> ('s, 'e, 'a) tx" where
  "get_tx q = (\<lambda>s. Inr (q s, s))"

definition modify_tx :: "('s \<Rightarrow> 's) \<Rightarrow> ('s, 'e, unit) tx" where
  "modify_tx f = (\<lambda>s. Inr ((), f s))"

definition require_tx :: "bool \<Rightarrow> 'e \<Rightarrow> ('s, 'e, unit) tx" where
  "require_tx ok e = (\<lambda>s. if ok then Inr ((), s) else Inl e)"

lemma tx_simps [simp]:
  "ret_tx x s = Inr (x, s)"
  "throw_tx e s = Inl e"
  "get_tx q s = Inr (q s, s)"
  "modify_tx f s = Inr ((), f s)"
  by (simp_all add: ret_tx_def throw_tx_def get_tx_def modify_tx_def)

lemma lift_tx_simps [simp]:
  "lift_tx (Inl e) s = Inl e"
  "lift_tx (Inr x) s = Inr (x, s)"
  by (simp_all add: lift_tx_def)

lemma require_tx_simps [simp]:
  "require_tx True e s = Inr ((), s)"
  "require_tx False e s = Inl e"
  by (simp_all add: require_tx_def)

lemma require_tx_Inr_iff [result_simps]:
  "require_tx ok e s = Inr (u, s') \<longleftrightarrow> ok \<and> s' = s"
  by (auto simp: require_tx_def)

lemma lift_tx_Inr_iff [result_simps]:
  "lift_tx r s = Inr (x, s') \<longleftrightarrow> r = Inr x \<and> s' = s"
  by (cases r) auto

lemma bind_tx_Inr_iff [result_simps]:
  "bind_tx m f s = Inr r \<longleftrightarrow> (\<exists>x s'. m s = Inr (x, s') \<and> f x s' = Inr r)"
  by (auto simp: bind_tx_def split: sum.splits)

lemma bind_tx_Inl_iff [result_simps]:
  "bind_tx m f s = Inl e \<longleftrightarrow> m s = Inl e \<or> (\<exists>x s'. m s = Inr (x, s') \<and> f x s' = Inl e)"
  by (auto simp: bind_tx_def split: sum.splits)

lemma bind_tx_step:
  "m s = Inr (x, s') \<Longrightarrow> bind_tx m f s = f x s'"
  by (simp add: bind_tx_def)

lemma bind_tx_simps [simp]:
  "bind_tx (ret_tx x1) f1 = f1 x1"
  "bind_tx (throw_tx e2) f2 = throw_tx e2"
  "bind_tx (get_tx q) f3 s3 = f3 (q s3) s3"
  "bind_tx (modify_tx g) f4 s4 = f4 () (g s4)"
  "bind_tx (lift_tx (Inl e5)) f5 = throw_tx e5"
  "bind_tx (lift_tx (Inr x6)) f6 = f6 x6"
  "bind_tx (require_tx True e7) f7 = f7 ()"
  "bind_tx (require_tx False e8) f8 = throw_tx e8"
  by (auto simp: bind_tx_def fun_eq_iff throw_tx_def lift_tx_def require_tx_def)

lemma bind_tx_assoc [simp]: "bind_tx (bind_tx m f) g = bind_tx m (\<lambda>x. bind_tx (f x) g)"
  by (auto simp: bind_tx_def fun_eq_iff split: sum.splits)

lemma bind_require: "bind_tx (require_tx ok e) f s = (if ok then f () s else Inl e)"
  by simp

fun each_tx :: "('a \<Rightarrow> ('s, 'e, unit) tx) \<Rightarrow> 'a list \<Rightarrow> ('s, 'e, unit) tx" where
  "each_tx f [] = ret_tx ()"
| "each_tx f (x # xs) = bind_tx (f x) (\<lambda>_. each_tx f xs)"

lemma each_tx_invariant:
  assumes "each_tx f xs s = Inr (u, t)" "Q s"
    and "\<And>x s t. x \<in> set xs \<Longrightarrow> f x s = Inr ((), t) \<Longrightarrow> Q s \<Longrightarrow> Q t"
  shows "Q t"
  using assms
proof (induction xs arbitrary: s)
  case (Cons x xs)
  from Cons.prems(1) obtain s' where "f x s = Inr ((), s')" "each_tx f xs s' = Inr (u, t)"
    by (auto simp: result_simps)
  with Cons show ?case by (meson list.set_intros)
qed simp

section \<open>Tables\<close>

text \<open>
  A table is the list of its rows in insertion order. \<open>upd_where\<close> is an
  \<open>updateMany\<close>: every row that satisfies the condition is rewritten.
\<close>

definition upd_where :: "('r \<Rightarrow> bool) \<Rightarrow> ('r \<Rightarrow> 'r) \<Rightarrow> 'r list \<Rightarrow> 'r list" where
  "upd_where p f rows = map (\<lambda>r. if p r then f r else r) rows"

definition count_where :: "('r \<Rightarrow> bool) \<Rightarrow> 'r list \<Rightarrow> nat" where
  "count_where p rows = length (filter p rows)"

definition sum_where :: "('r \<Rightarrow> bool) \<Rightarrow> ('r \<Rightarrow> int) \<Rightarrow> 'r list \<Rightarrow> int" where
  "sum_where p v rows = sum_list (map v (filter p rows))"

definition find_by :: "('r \<Rightarrow> 'k) \<Rightarrow> 'k \<Rightarrow> 'r list \<Rightarrow> 'r option" where
  "find_by key k rows = List.find (\<lambda>r. key r = k) rows"

text \<open>A unique index: at most one row per key.\<close>

definition unique_on :: "('r \<Rightarrow> 'k) \<Rightarrow> 'r list \<Rightarrow> bool" where
  "unique_on key rows \<longleftrightarrow> distinct (map key rows)"

lemma upd_where_Nil [simp]: "upd_where p f [] = []"
  and upd_where_Cons: "upd_where p f (r # rs) = (if p r then f r else r) # upd_where p f rs"
  and upd_where_append [table_simps]: "upd_where p f (xs @ ys) = upd_where p f xs @ upd_where p f ys"
  and length_upd_where [simp]: "length (upd_where p f rows) = length rows"
  by (simp_all add: upd_where_def)

lemma set_upd_where:
  "set (upd_where p f rows) = {r \<in> set rows. \<not> p r} \<union> f ` {r \<in> set rows. p r}"
  by (auto simp: upd_where_def)

lemma upd_where_elem: "y \<in> set (upd_where p f rows) \<Longrightarrow> \<exists>w \<in> set rows. y = (if p w then f w else w)"
  by (auto simp: upd_where_def)

lemma count_where_simps [simp]:
  "count_where p [] = 0"
  "count_where p (r # rs) = (if p r then Suc (count_where p rs) else count_where p rs)"
  by (simp_all add: count_where_def)

lemma count_where_append [table_simps]:
  "count_where p (xs @ ys) = count_where p xs + count_where p ys"
  by (simp add: count_where_def)

lemma count_where_0_iff: "count_where p rows = 0 \<longleftrightarrow> (\<forall>r \<in> set rows. \<not> p r)"
  by (induction rows) auto

lemma sum_where_simps [simp]:
  "sum_where p v [] = 0"
  "sum_where p v (r # rs) = (if p r then v r + sum_where p v rs else sum_where p v rs)"
  by (simp_all add: sum_where_def)

lemma sum_where_append [table_simps]:
  "sum_where p v (xs @ ys) = sum_where p v xs + sum_where p v ys"
  by (simp add: sum_where_def)

lemma sum_where_nonneg:
  "(\<And>r. r \<in> set rows \<Longrightarrow> p r \<Longrightarrow> 0 \<le> v r) \<Longrightarrow> 0 \<le> sum_where p v rows"
  by (induction rows) auto

lemma sum_where_cong:
  "(\<And>r. r \<in> set rows \<Longrightarrow> p r = q r) \<Longrightarrow> (\<And>r. r \<in> set rows \<Longrightarrow> q r \<Longrightarrow> v r = w r) \<Longrightarrow>
   sum_where p v rows = sum_where q w rows"
  by (induction rows) auto

lemma sum_where_upd_where:
  "(\<And>r. r \<in> set rows \<Longrightarrow> q (f r) = q r) \<Longrightarrow> (\<And>r. r \<in> set rows \<Longrightarrow> v (f r) = v r) \<Longrightarrow>
   sum_where q v (upd_where p f rows) = sum_where q v rows"
  by (induction rows) (auto simp: upd_where_Cons)

lemma find_by_simps [simp]:
  "find_by key k [] = None"
  "find_by key k (r # rs) = (if key r = k then Some r else find_by key k rs)"
  by (simp_all add: find_by_def)

lemma find_by_append [table_simps]:
  "find_by key k (xs @ ys) = (case find_by key k xs of None \<Rightarrow> find_by key k ys | Some r \<Rightarrow> Some r)"
  by (induction xs) auto

lemma find_by_Some: "find_by key k rows = Some r \<Longrightarrow> r \<in> set rows \<and> key r = k"
  by (induction rows) (auto split: if_splits)

lemma find_by_None_iff: "find_by key k rows = None \<longleftrightarrow> (\<forall>r \<in> set rows. key r \<noteq> k)"
  by (induction rows) auto

lemma find_Some: "List.find p rows = Some r \<Longrightarrow> r \<in> set rows \<and> p r"
  by (induction rows) (auto split: if_splits)

lemma find_None_iff: "List.find p rows = None \<longleftrightarrow> (\<forall>r \<in> set rows. \<not> p r)"
  by (induction rows) auto

lemma find_by_upd_other:
  "(\<And>r. p r \<Longrightarrow> key r \<noteq> k \<and> key (f r) \<noteq> k) \<Longrightarrow> find_by key k (upd_where p f rows) = find_by key k rows"
  by (induction rows) (auto simp: upd_where_Cons)

lemma upd_where_none: "(\<And>r. r \<in> set rows \<Longrightarrow> \<not> p r) \<Longrightarrow> upd_where p f rows = rows"
  by (induction rows) (auto simp: upd_where_Cons)

text \<open>A row that may not be there and satisfies a condition.\<close>

definition holds_some :: "('r \<Rightarrow> bool) \<Rightarrow> 'r option \<Rightarrow> bool" where
  "holds_some p r = (case r of None \<Rightarrow> False | Some x \<Rightarrow> p x)"

lemma holds_some_iff [simp]: "holds_some p r \<longleftrightarrow> (\<exists>x. r = Some x \<and> p x)"
  by (cases r) (simp_all add: holds_some_def)

lemma unique_onD: "unique_on key rows \<Longrightarrow> r \<in> set rows \<Longrightarrow> q \<in> set rows \<Longrightarrow> key r = key q \<Longrightarrow> r = q"
  by (auto simp: unique_on_def distinct_map inj_on_def)

lemma unique_on_simps [simp]:
  "unique_on key []"
  "unique_on key (r # rs) \<longleftrightarrow> key r \<notin> key ` set rs \<and> unique_on key rs"
  by (simp_all add: unique_on_def)

lemma unique_on_append1 [table_simps]:
  "unique_on key (rs @ [r]) \<longleftrightarrow> key r \<notin> key ` set rs \<and> unique_on key rs"
  by (auto simp: unique_on_def)

lemma filter_eq_single: "distinct xs \<Longrightarrow> x \<in> set xs \<Longrightarrow> filter (\<lambda>y. y = x) xs = [x]"
  by (induction xs) (auto simp: filter_empty_conv)

lemma find_by_unique:
  "unique_on key rows \<Longrightarrow> r \<in> set rows \<Longrightarrow> find_by key (key r) rows = Some r"
  by (induction rows) auto

section \<open>Interface: an update that keeps the key of a table\<close>

text \<open>
  A column update never changes the column a row is looked up by. Every update of that kind
  keeps the unique index, and what a later lookup returns is the updated row exactly when the
  update's condition held for it.
\<close>

locale keyed_update =
  fixes key :: "'r \<Rightarrow> 'k"
    and f :: "'r \<Rightarrow> 'r"
  assumes key_kept: "key (f r) = key r"
begin

lemma find_upd:
  "find_by key k (upd_where p f rows)
     = map_option (\<lambda>r. if p r then f r else r) (find_by key k rows)"
  by (induction rows) (auto simp: upd_where_Cons key_kept)

lemma map_key_upd: "map key (upd_where p f rows) = map key rows"
  by (induction rows) (auto simp: upd_where_Cons key_kept)

lemma unique_upd [simp]: "unique_on key (upd_where p f rows) = unique_on key rows"
  by (simp add: unique_on_def map_key_upd)

end

section \<open>Interface: a system with an inductive invariant\<close>

text \<open>
  Several components are verified as machines: a set of start states, a step relation with one
  rule per operation, and an invariant every step keeps. The invariant then holds after any
  sequence of steps, in whatever order the operations are interleaved.
\<close>

locale invariant_system =
  fixes start :: "'s \<Rightarrow> bool"
    and step :: "'s \<Rightarrow> 's \<Rightarrow> bool"
    and inv :: "'s \<Rightarrow> bool"
  assumes inv_start: "start s \<Longrightarrow> inv s"
    and inv_step: "inv s \<Longrightarrow> step s t \<Longrightarrow> inv t"
begin

lemma inv_steps: "step\<^sup>*\<^sup>* s t \<Longrightarrow> inv s \<Longrightarrow> inv t"
  by (induction rule: rtranclp_induct) (auto intro: inv_step)

lemma inv_reachable: "start s \<Longrightarrow> step\<^sup>*\<^sup>* s t \<Longrightarrow> inv t"
  using inv_steps inv_start by blast

end

end
