(* ===== verification/Errors.thy ===== *)
theory Errors
  imports Prelude
begin

text \<open>
  The error contract (\<open>common/errors/error-codes.ts\<close>, \<open>common/errors/app.exception.ts\<close>,
  \<open>common/filters/all-exceptions.filter.ts\<close>) and the pagination envelope
  (\<open>common/types/api-response.ts\<close>). An exception is a value of \<open>exn\<close>; the global
  filter maps every exception to an HTTP status, a code of the contract and field errors.
  Developer messages, request ids and log output are not modelled.
\<close>

section \<open>Error codes\<close>

datatype (plugins only: code) error_code =
    SERVER_ERROR
  | UNKNOWN
  | VALIDATION_ERROR
  | RATE_LIMITED
  | MAINTENANCE
  | APP_UPDATE_REQUIRED
  | INVALID_CREDENTIALS
  | UNAUTHORIZED
  | SESSION_EXPIRED
  | ACCOUNT_DISABLED
  | ACCOUNT_PENDING
  | ACCOUNT_DELETION_PENDING
  | PHONE_ALREADY_REGISTERED
  | DEVICE_NOT_AUTHORIZED
  | DEVICE_LIMIT_REACHED
  | DEVICE_CHANGE_PENDING
  | DEVICE_INTEGRITY_FAILED
  | FORBIDDEN
  | NOT_FOUND
  | COURSE_NOT_AVAILABLE
  | COURSE_ARCHIVED
  | COURSE_NOT_TARGETED
  | LIBRARY_NOT_AVAILABLE
  | LIBRARY_ENTITLEMENT_REVOKED
  | ACCESS_EXPIRED
  | NOT_ENROLLED
  | ENROLLMENT_PENDING
  | PAYMENT_REQUIRED
  | PAYMENT_FAILED
  | INVALID_CODE
  | CODE_ALREADY_USED
  | INSUFFICIENT_CREDIT
  | WALLET_LOCKED
  | AMOUNT_BELOW_MINIMUM
  | CODE_NOT_RECHARGEABLE
  | AUDIENCE_RULE_INVALID
  | AUDIENCE_TOO_LARGE
  | ANNOUNCEMENT_NOT_EDITABLE
  | PLAYBACK_DENIED
  | PLAYBACK_TICKET_EXPIRED
  | CONCURRENT_STREAM_LIMIT
  | VIDEO_NOT_READY
  | VIDEO_UNAVAILABLE
  | CAPTURE_DETECTED
  | VIDEO_WATCH_LIMIT_REACHED
  | VIDEO_PROCESSING_FAILED
  | CONFLICT
  | ALREADY_ENROLLED
  | INVALID_STATE
  | UPLOAD_FAILED
  | PROCESSING_FAILED
  | STORAGE_UNAVAILABLE
  | QUEUE_UNAVAILABLE
  | MASTER_ALREADY_EXISTS
  | CANNOT_MODIFY_MASTER
  | INSUFFICIENT_ROLE
  | NOT_COURSE_TEACHER

definition error_status :: "error_code \<Rightarrow> nat" where
  "error_status c = (case c of
     SERVER_ERROR \<Rightarrow> 500
   | UNKNOWN \<Rightarrow> 500
   | VALIDATION_ERROR \<Rightarrow> 422
   | RATE_LIMITED \<Rightarrow> 429
   | MAINTENANCE \<Rightarrow> 503
   | APP_UPDATE_REQUIRED \<Rightarrow> 426
   | INVALID_CREDENTIALS \<Rightarrow> 401
   | UNAUTHORIZED \<Rightarrow> 401
   | SESSION_EXPIRED \<Rightarrow> 401
   | ACCOUNT_DISABLED \<Rightarrow> 403
   | ACCOUNT_PENDING \<Rightarrow> 403
   | ACCOUNT_DELETION_PENDING \<Rightarrow> 403
   | PHONE_ALREADY_REGISTERED \<Rightarrow> 409
   | DEVICE_NOT_AUTHORIZED \<Rightarrow> 403
   | DEVICE_LIMIT_REACHED \<Rightarrow> 403
   | DEVICE_CHANGE_PENDING \<Rightarrow> 403
   | DEVICE_INTEGRITY_FAILED \<Rightarrow> 403
   | FORBIDDEN \<Rightarrow> 403
   | NOT_FOUND \<Rightarrow> 404
   | COURSE_NOT_AVAILABLE \<Rightarrow> 404
   | COURSE_ARCHIVED \<Rightarrow> 410
   | COURSE_NOT_TARGETED \<Rightarrow> 403
   | LIBRARY_NOT_AVAILABLE \<Rightarrow> 403
   | LIBRARY_ENTITLEMENT_REVOKED \<Rightarrow> 403
   | ACCESS_EXPIRED \<Rightarrow> 410
   | NOT_ENROLLED \<Rightarrow> 403
   | ENROLLMENT_PENDING \<Rightarrow> 409
   | PAYMENT_REQUIRED \<Rightarrow> 402
   | PAYMENT_FAILED \<Rightarrow> 402
   | INVALID_CODE \<Rightarrow> 400
   | CODE_ALREADY_USED \<Rightarrow> 409
   | INSUFFICIENT_CREDIT \<Rightarrow> 402
   | WALLET_LOCKED \<Rightarrow> 403
   | AMOUNT_BELOW_MINIMUM \<Rightarrow> 422
   | CODE_NOT_RECHARGEABLE \<Rightarrow> 400
   | AUDIENCE_RULE_INVALID \<Rightarrow> 422
   | AUDIENCE_TOO_LARGE \<Rightarrow> 422
   | ANNOUNCEMENT_NOT_EDITABLE \<Rightarrow> 409
   | PLAYBACK_DENIED \<Rightarrow> 403
   | PLAYBACK_TICKET_EXPIRED \<Rightarrow> 401
   | CONCURRENT_STREAM_LIMIT \<Rightarrow> 429
   | VIDEO_NOT_READY \<Rightarrow> 409
   | VIDEO_UNAVAILABLE \<Rightarrow> 404
   | CAPTURE_DETECTED \<Rightarrow> 403
   | VIDEO_WATCH_LIMIT_REACHED \<Rightarrow> 403
   | VIDEO_PROCESSING_FAILED \<Rightarrow> 409
   | CONFLICT \<Rightarrow> 409
   | ALREADY_ENROLLED \<Rightarrow> 409
   | INVALID_STATE \<Rightarrow> 409
   | UPLOAD_FAILED \<Rightarrow> 400
   | PROCESSING_FAILED \<Rightarrow> 500
   | STORAGE_UNAVAILABLE \<Rightarrow> 503
   | QUEUE_UNAVAILABLE \<Rightarrow> 503
   | MASTER_ALREADY_EXISTS \<Rightarrow> 409
   | CANNOT_MODIFY_MASTER \<Rightarrow> 403
   | INSUFFICIENT_ROLE \<Rightarrow> 403
   | NOT_COURSE_TEACHER \<Rightarrow> 403)"

definition session_ending_codes :: "error_code set" where
  "session_ending_codes = {SESSION_EXPIRED, ACCOUNT_DISABLED}"

section \<open>Exceptions\<close>

text \<open>
  \<open>AppEx\<close> is an \<open>AppException\<close> with its code and its field errors (an absent
  \<open>fields\<close> is the empty list; no throw in the program passes an empty one or overrides the
  status). \<open>HttpEx\<close> is any other Nest \<open>HttpException\<close>: its status and the lines of
  an array payload. \<open>PrismaKnown\<close> is a known request error: its code and the target columns.
  \<open>MoneyEx\<close> is the bare \<open>MoneyError\<close> of \<open>wallet/money.ts\<close>.
\<close>

datatype exn =
    AppEx error_code "(string \<times> string list) list"
  | HttpEx nat "string list"
  | PrismaKnown string "string list"
  | PrismaValidation
  | PrismaUnavailable
  | MoneyEx string string
  | OtherEx

definition app_error :: "error_code \<Rightarrow> exn" where
  "app_error c = AppEx c []"

definition not_found :: exn where
  "not_found = AppEx NOT_FOUND []"

definition validation :: "(string \<times> string list) list \<Rightarrow> exn" where
  "validation fields = AppEx VALIDATION_ERROR fields"

definition conflict :: exn where
  "conflict = AppEx CONFLICT []"

abbreviation write_conflict :: exn where
  "write_conflict \<equiv> PrismaKnown ''P2034'' []"

definition unique_violation :: "string \<Rightarrow> exn" where
  "unique_violation column = PrismaKnown ''P2002'' [column]"

lemmas exn_defs = app_error_def not_found_def validation_def conflict_def unique_violation_def

text \<open>Exceptions the application threw deliberately, as \<open>instanceof AppException\<close> tests.\<close>

fun is_app_exception :: "exn \<Rightarrow> bool" where
  "is_app_exception (AppEx c fs) = True"
| "is_app_exception e = False"

section \<open>The global exception filter\<close>

record http_error =
  he_status :: nat
  he_code :: error_code
  he_fields :: "(string \<times> string list) list"

definition code_for_status :: "nat \<Rightarrow> error_code" where
  "code_for_status s =
     (if s = 400 then VALIDATION_ERROR
      else if s = 401 then UNAUTHORIZED
      else if s = 402 then PAYMENT_REQUIRED
      else if s = 403 then FORBIDDEN
      else if s = 404 then NOT_FOUND
      else if s = 409 then CONFLICT
      else if s = 410 then ACCESS_EXPIRED
      else if s = 422 then VALIDATION_ERROR
      else if s = 426 then APP_UPDATE_REQUIRED
      else if s = 429 then RATE_LIMITED
      else if s = 503 then MAINTENANCE
      else if 500 \<le> s then SERVER_ERROR else UNKNOWN)"

text \<open>
  The first word of each line of an array payload names the field; lines of one field are
  collected in order.
\<close>

definition first_word :: "string \<Rightarrow> string" where
  "first_word line = takeWhile (\<lambda>c. c \<noteq> CHR '' '') line"

fun add_field :: "string \<Rightarrow> string \<Rightarrow> (string \<times> string list) list \<Rightarrow> (string \<times> string list) list" where
  "add_field f line [] = [(f, [line])]"
| "add_field f line ((g, ls) # rest) =
     (if f = g then (g, ls @ [line]) # rest else (g, ls) # add_field f line rest)"

definition fields_from_payload :: "string list \<Rightarrow> (string \<times> string list) list" where
  "fields_from_payload lines = fold (\<lambda>line acc. add_field (first_word line) line acc) lines []"

definition from_prisma :: "string \<Rightarrow> string list \<Rightarrow> http_error" where
  "from_prisma code target =
     (if code = ''P2002'' then
        (let field = (case target of [] \<Rightarrow> ''value'' | f # _ \<Rightarrow> f)
         in \<lparr>he_status = error_status CONFLICT, he_code = CONFLICT,
             he_fields = [(field, [''already exists''])]\<rparr>)
      else if code = ''P2003'' then \<lparr>he_status = 409, he_code = CONFLICT, he_fields = []\<rparr>
      else if code = ''P2025'' then \<lparr>he_status = 404, he_code = NOT_FOUND, he_fields = []\<rparr>
      else if code = ''P2014'' then \<lparr>he_status = 409, he_code = CONFLICT, he_fields = []\<rparr>
      else \<lparr>he_status = 500, he_code = SERVER_ERROR, he_fields = []\<rparr>)"

fun resolve_exn :: "exn \<Rightarrow> http_error" where
  "resolve_exn (AppEx c fs) = \<lparr>he_status = error_status c, he_code = c, he_fields = fs\<rparr>"
| "resolve_exn (HttpEx s lines) =
     \<lparr>he_status = s, he_code = code_for_status s, he_fields = fields_from_payload lines\<rparr>"
| "resolve_exn (PrismaKnown code target) = from_prisma code target"
| "resolve_exn PrismaValidation = \<lparr>he_status = 422, he_code = VALIDATION_ERROR, he_fields = []\<rparr>"
| "resolve_exn PrismaUnavailable = \<lparr>he_status = 503, he_code = MAINTENANCE, he_fields = []\<rparr>"
| "resolve_exn (MoneyEx f p) = \<lparr>he_status = 500, he_code = SERVER_ERROR, he_fields = []\<rparr>"
| "resolve_exn OtherEx = \<lparr>he_status = 500, he_code = SERVER_ERROR, he_fields = []\<rparr>"

lemma error_status_range: "400 \<le> error_status c \<and> error_status c < 600"
  by (cases c) (simp_all add: error_status_def)

text \<open>Only four codes of the contract are answered with a server-side status.\<close>

lemma error_status_server:
  "500 \<le> error_status c \<longleftrightarrow>
     c \<in> {SERVER_ERROR, UNKNOWN, MAINTENANCE, PROCESSING_FAILED, STORAGE_UNAVAILABLE, QUEUE_UNAVAILABLE}"
  by (cases c) (simp_all add: error_status_def)

lemma set_add_field: "fst ` set (add_field f line fs) = insert f (fst ` set fs)"
  by (induction f line fs rule: add_field.induct) auto

lemma distinct_add_field:
  "distinct (map fst fs) \<Longrightarrow> distinct (map fst (add_field f line fs))"
proof (induction f line fs rule: add_field.induct)
  case (2 f line g ls rest)
  then show ?case
    using set_add_field [of f line rest] by (auto simp: image_iff) 
qed simp

lemma distinct_fields_from_payload: "distinct (map fst (fields_from_payload lines))"
proof -
  have "distinct (map fst acc) \<Longrightarrow>
    distinct (map fst (fold (\<lambda>line acc. add_field (first_word line) line acc) lines acc))" for acc
    by (induction lines arbitrary: acc) (simp_all add: distinct_add_field)
  from this [of "[]"] show ?thesis by (simp add: fields_from_payload_def)
qed

section \<open>Pagination\<close>

record page_meta =
  pm_page :: nat
  pm_pageSize :: nat
  pm_total :: nat
  pm_totalPages :: nat
  pm_hasNext :: bool
  pm_hasPrevious :: bool

text \<open>\<open>Math.ceil(a / b)\<close> on non-negative integers.\<close>

definition ceil_div :: "nat \<Rightarrow> nat \<Rightarrow> nat" where
  "ceil_div a b = (a + b - 1) div b"

definition paginated :: "nat \<Rightarrow> nat \<Rightarrow> nat \<Rightarrow> page_meta" where
  "paginated n page pageSize =
     (let totalPages = max 1 (ceil_div n (max 1 pageSize))
      in \<lparr>pm_page = page, pm_pageSize = pageSize, pm_total = n, pm_totalPages = totalPages,
          pm_hasNext = page < totalPages, pm_hasPrevious = 1 < page\<rparr>)"

text \<open>The rows a page query returns: \<open>skip (page - 1) * pageSize\<close>, then \<open>take pageSize\<close>.\<close>

definition page_rows :: "nat \<Rightarrow> nat \<Rightarrow> 'r list \<Rightarrow> 'r list" where
  "page_rows page pageSize rows = take pageSize (drop ((page - 1) * pageSize) rows)"

lemma ceil_div_le_iff: "0 < b \<Longrightarrow> ceil_div a b \<le> k \<longleftrightarrow> a \<le> k * b"
proof -
  assume b: "0 < b"
  have "ceil_div a b \<le> k \<longleftrightarrow> (a + b - 1) div b < Suc k"
    by (simp add: ceil_div_def less_Suc_eq_le)
  also have "\<dots> \<longleftrightarrow> a + b - 1 < Suc k * b"
    using b by (simp add: div_less_iff_less_mult)
  also have "\<dots> \<longleftrightarrow> a \<le> k * b"
    using b by auto
  finally show ?thesis .
qed

lemma hasNext_iff:
  "0 < pageSize \<Longrightarrow> 0 < page \<Longrightarrow>
   pm_hasNext (paginated n page pageSize) \<longleftrightarrow> page * pageSize < n"
  using ceil_div_le_iff [of pageSize n page] by (auto simp: paginated_def Let_def)

end
