(* ===== verification/Schema.thy ===== *)
theory Schema
  imports Errors
begin

text \<open>
  The database the services read and write (\<open>prisma/schema.prisma\<close>): the enumerations with the
  schema's constructors (one prefix per enumeration), one record per row type with the columns the
  modelled code reads or writes, and \<open>db\<close>, the record of the tables. A table is the list of its
  rows in insertion order. Identifiers are numbers drawn from a counter, amounts are piastres (a
  \<open>Decimal(12, 2)\<close> column holds whole piastres), percentages are basis points, instants are
  milliseconds. Display columns (translated titles, thumbnails, notes of the audit payload) are
  left out. A template string used as an idempotency key is the constructor of \<open>idem_key\<close> that
  holds its parts, since distinct identifiers give distinct texts.
\<close>

section \<open>Enumerations\<close>

datatype (plugins only: code) user_role =
    R_MASTER | R_ADMIN | R_TEACHER | R_STUDENT

datatype (plugins only: code) account_status =
    AS_ACTIVE | AS_PENDING | AS_SUSPENDED | AS_DISABLED

datatype (plugins only: code) course_status =
    CS_DRAFT | CS_PUBLISHED | CS_SUSPENDED | CS_ARCHIVED
  | CS_HIDDEN

datatype (plugins only: code) content_status =
    CT_DRAFT | CT_PUBLISHED | CT_HIDDEN | CT_ARCHIVED

datatype (plugins only: code) enrollment_method =
    M_FREE | M_PAYMENT | M_CODE | M_ADMIN_APPROVAL

datatype (plugins only: code) enrollment_state =
    ES_PENDING_APPROVAL | ES_PENDING_PAYMENT | ES_ACTIVE | ES_EXPIRED
  | ES_REVOKED | ES_ARCHIVED

datatype (plugins only: code) duration_type =
    LIFETIME | FIXED_DAYS | UNTIL_DATE

datatype (plugins only: code) payment_status =
    PS_PENDING | PS_AUTHORIZED | PS_PAID | PS_FAILED
  | PS_CANCELLED | PS_REFUNDED | PS_PARTIALLY_REFUNDED

datatype (plugins only: code) payment_provider =
    PP_MANUAL | PP_PAYMOB | PP_STRIPE | PP_CODE
  | PP_FREE

datatype (plugins only: code) code_status =
    KS_ACTIVE | KS_EXHAUSTED | KS_EXPIRED | KS_REVOKED

datatype (plugins only: code) code_target =
    T_COURSE | T_SECTION | T_TEACHER | T_PART

datatype (plugins only: code) code_kind =
    K_ACCESS | K_RECHARGE

datatype (plugins only: code) discount_type =
    D_NONE | D_PERCENTAGE | D_FIXED

datatype (plugins only: code) wallet_tx_type =
    WT_CREDIT_RECHARGE | WT_PURCHASE | WT_REFUND | WT_ADMIN_ADJUSTMENT
  | WT_REVERSAL

datatype (plugins only: code) wallet_tx_direction =
    W_CREDIT | W_DEBIT

datatype (plugins only: code) wallet_tx_source =
    WS_PAYMENT_CODE | WS_COURSE_PART | WS_LIBRARY_PART | WS_LIBRARY_PACKAGE
  | WS_ADMIN | WS_SYSTEM

datatype (plugins only: code) section_grant_source =
    G_CODE | G_PAYMENT | G_ADMIN | G_PART_PURCHASE

datatype (plugins only: code) part_pricing_model =
    PERCENTAGE | FIXED

datatype (plugins only: code) library_purchase_kind =
    LK_PART | LK_PACKAGE

datatype (plugins only: code) library_entitlement_source =
    LS_PURCHASE | LS_PACKAGE | LS_ADMIN

datatype (plugins only: code) library_department_scope =
    DS_FACULTY | DS_DEPARTMENTS

datatype (plugins only: code) part_entitlement_source =
    PE_PURCHASE | PE_CODE | PE_ADMIN | PE_MIGRATION

datatype (plugins only: code) playback_ticket_status =
    TS_ACTIVE | TS_EXPIRED | TS_RELEASED | TS_REVOKED

datatype (plugins only: code) session_status =
    SS_ACTIVE | SS_EXPIRED | SS_REVOKED

datatype (plugins only: code) device_status =
    DV_ACTIVE | DV_PENDING_APPROVAL | DV_REVOKED | DV_BLOCKED

datatype (plugins only: code) device_change_status =
    DC_PENDING | DC_APPROVED | DC_REJECTED | DC_CANCELLED

datatype (plugins only: code) deletion_status =
    DL_PENDING | DL_PROCESSING | DL_CANCELLED | DL_COMPLETED

datatype (plugins only: code) video_status =
    VS_UPLOADING | VS_QUEUED | VS_PROCESSING | VS_READY
  | VS_FAILED | VS_ARCHIVED

datatype (plugins only: code) completion_rule =
    WATCH_PERCENT | WATCH_FULL | MANUAL

datatype (plugins only: code) structure_kind =
    SK_YEAR | SK_LEVEL

datatype (plugins only: code) study_type =
    STY_GENERAL | STY_PROGRAMS

section \<open>Rows\<close>

datatype idem_key =
    RechargeKey id id
  | PartCodeKey id id
  | LibPartKey id id
  | LibPkgKey id id
  | RefundKey id string
  | PayKey id id nat
  | ClientKey string

record user_row =
  u_id :: id
  u_role :: user_role
  u_status :: account_status
  u_full_name :: string
  u_phone :: string
  u_password :: string
  u_failed_logins :: nat
  u_locked_until :: "time option"
  u_credentials_changed :: time
  u_last_login :: "time option"
  u_deleted_at :: "time option"

record profile_row =
  sp_user :: id
  sp_university :: "id option"
  sp_faculty :: "id option"
  sp_department :: "id option"
  sp_year :: "id option"

record course_row =
  c_id :: id
  c_title :: string
  c_status :: course_status
  c_university :: "id option"
  c_faculty :: "id option"
  c_departments :: "id list"
  c_methods :: "enrollment_method list"
  c_is_free :: bool
  c_duration_type :: duration_type
  c_duration_days :: "int option"
  c_access_ends :: "time option"
  c_student_count :: nat
  c_section_count :: nat
  c_lesson_count :: nat
  c_total_duration :: int
  c_rule :: completion_rule
  c_threshold :: int
  c_contiguous :: bool
  c_deleted_at :: "time option"

record price_row =
  cp_id :: id
  cp_course :: id
  cp_amount :: int
  cp_currency :: string
  cp_version :: nat
  cp_current :: bool

record teacher_row =
  ct_course :: id
  ct_teacher :: id
  ct_lead :: bool
  ct_share :: "int option"
  ct_profile_share :: "int option"
  ct_can_content :: bool
  ct_can_pricing :: bool
  ct_can_publish :: bool
  ct_can_students :: bool
  ct_can_revenue :: bool

record section_row =
  s_id :: id
  s_course :: id
  s_part :: "id option"
  s_sort :: int
  s_status :: content_status
  s_unlocks_at :: "time option"
  s_deleted_at :: "time option"

record lesson_row =
  ls_id :: id
  ls_section :: id
  ls_course :: id
  ls_status :: content_status
  ls_sort :: int
  ls_preview :: bool
  ls_duration :: int
  ls_rule :: "completion_rule option"
  ls_threshold :: "int option"
  ls_contiguous :: "bool option"
  ls_deleted_at :: "time option"

record attachment_row =
  at_id :: id
  at_course :: id
  at_lesson :: "id option"
  at_section :: "id option"
  at_preview :: bool
  at_protected :: bool
  at_deleted_at :: "time option"

record enrollment_row =
  e_id :: id
  e_user :: id
  e_course :: id
  e_state :: enrollment_state
  e_method :: enrollment_method
  e_starts :: time
  e_ends :: "time option"
  e_approved_by :: "id option"
  e_approved_at :: "time option"
  e_revoked_by :: "id option"
  e_revoked_at :: "time option"
  e_revoked_reason :: "string option"
  e_covers_all :: bool
  e_completed_lessons :: nat
  e_last_lesson :: "id option"
  e_last_accessed :: "time option"
  e_created :: time

record grant_row =
  g_enrollment :: id
  g_section :: id
  g_source :: section_grant_source
  g_code :: "id option"
  g_part :: "id option"

record payment_row =
  p_id :: id
  p_user :: id
  p_course :: id
  p_enrollment :: "id option"
  p_price :: "id option"
  p_amount :: int
  p_currency :: string
  p_status :: payment_status
  p_provider :: payment_provider
  p_reference :: "string option"
  p_key :: idem_key
  p_paid_at :: "time option"
  p_failed_at :: "time option"
  p_failure :: "string option"
  p_refunded :: int
  p_refunded_at :: "time option"
  p_created :: time
  p_updated :: time

text \<open>The \<open>rawPayload\<close> of the refund rows of the payment log, field by field.\<close>

datatype (plugins only: code) completion_method =
    ADMIN_CONFIRMED_MANUAL | ADMIN_CONFIRMED_EXTERNAL
  | PROVIDER_CONFIRMED | UNRECORDED

record refund_payload =
  rp_reason :: "string option"
  rp_actor :: id
  rp_key :: "string option"
  rp_fingerprint :: "string option"
  rp_request :: "id option"
  rp_completion :: "completion_method option"

record payment_tx_row =
  pt_id :: id
  pt_payment :: id
  pt_type :: string
  pt_status :: string
  pt_amount :: "int option"
  pt_reference :: "string option"
  pt_payload :: "refund_payload option"
  pt_created :: time

record revenue_row =
  rl_payment :: id
  rl_course :: id
  rl_teacher :: "id option"
  rl_gross :: int
  rl_teacher_amount :: int
  rl_platform :: int
  rl_share :: int
  rl_recognized :: time

record code_row =
  k_id :: id
  k_text :: string
  k_kind :: code_kind
  k_target :: code_target
  k_status :: code_status
  k_course :: "id option"
  k_section :: "id option"
  k_teacher :: "id option"
  k_part :: "id option"
  k_sections :: "id list"
  k_courses :: "id list"
  k_reserved_for :: "id option"
  k_max :: nat
  k_count :: nat
  k_duration_type :: "duration_type option"
  k_duration_days :: "int option"
  k_access_ends :: "time option"
  k_expires :: "time option"
  k_batch :: "id option"
  k_price :: "int option"
  k_face :: "int option"
  k_actual_paid :: "int option"
  k_credit :: "int option"
  k_discount :: "int option"
  k_discount_type :: discount_type
  k_discount_percent :: "int option"
  k_redeemed_at :: "time option"
  k_redeemed_by :: "id option"
  k_revoked_at :: "time option"
  k_revoked_by :: "id option"

record batch_row =
  b_id :: id
  b_name :: "string option"
  b_target :: code_target
  b_kind :: code_kind
  b_quantity :: int
  b_price :: "int option"
  b_face :: "int option"
  b_actual_paid :: "int option"
  b_credit :: "int option"
  b_discount :: "int option"
  b_discount_type :: discount_type
  b_discount_percent :: "int option"
  b_created_by :: id

record redemption_row =
  rd_code :: id
  rd_user :: id
  rd_enrollment :: "id option"
  rd_course :: "id option"
  rd_at :: time
  rd_wallet_tx :: "id option"
  rd_credited :: "int option"

record wallet_row =
  w_id :: id
  w_user :: id
  w_balance :: int
  w_recharged :: int
  w_spent :: int
  w_version :: nat

record wallet_tx_row =
  wt_id :: id
  wt_wallet :: id
  wt_user :: id
  wt_type :: wallet_tx_type
  wt_direction :: wallet_tx_direction
  wt_source :: wallet_tx_source
  wt_amount :: int
  wt_before :: int
  wt_after :: int
  wt_code :: "id option"
  wt_reference :: "(string \<times> id) option"
  wt_admin :: "id option"
  wt_key :: "idem_key option"
  wt_created :: time

record recharge_row =
  rr_code :: id
  rr_batch :: "id option"
  rr_user :: id
  rr_face :: int
  rr_discount :: int
  rr_actual_paid :: int
  rr_credit :: int
  rr_discount_type :: discount_type
  rr_discount_percent :: "int option"
  rr_code_text :: string
  rr_recognized :: time

record part_row =
  cpt_id :: id
  cpt_course :: id
  cpt_title :: string
  cpt_sort :: int
  cpt_status :: content_status
  cpt_active :: bool
  cpt_pricing :: part_pricing_model
  cpt_percent :: "int option"
  cpt_amount :: "int option"
  cpt_thumbnail :: "string option"
  cpt_deleted_at :: "time option"

record entitlement_row =
  pe_id :: id
  pe_user :: id
  pe_part :: id
  pe_course :: id
  pe_source :: part_entitlement_source
  pe_purchase :: "id option"
  pe_granted :: time
  pe_revoked_at :: "time option"
  pe_revoked_by :: "id option"
  pe_revoked_reason :: "string option"

record part_purchase_row =
  pp_id :: id
  pp_user :: id
  pp_course :: id
  pp_part :: id
  pp_price :: int
  pp_model :: part_pricing_model
  pp_percent :: "int option"
  pp_course_price :: "int option"
  pp_teacher :: "id option"
  pp_share :: "int option"
  pp_teacher_amount :: int
  pp_platform :: int
  pp_sections :: "id list"
  pp_wallet_tx :: "id option"
  pp_code :: "id option"
  pp_key :: idem_key
  pp_at :: time

record material_row =
  lm_id :: id
  lm_title :: string
  lm_status :: content_status
  lm_active :: bool
  lm_university :: "id option"
  lm_faculty :: "id option"
  lm_year :: "id option"
  lm_subject :: "id option"
  lm_scope :: library_department_scope
  lm_departments :: "id list"
  lm_sort :: int
  lm_published_at :: "time option"
  lm_deleted_at :: "time option"

record lib_part_row =
  lp_id :: id
  lp_material :: id
  lp_title :: string
  lp_status :: content_status
  lp_active :: bool
  lp_sort :: int
  lp_price :: int
  lp_preview :: bool
  lp_key :: string
  lp_size :: "int option"
  lp_deleted_at :: "time option"

record lib_package_row =
  lk_id :: id
  lk_material :: id
  lk_title :: string
  lk_status :: content_status
  lk_active :: bool
  lk_sort :: int
  lk_price :: int
  lk_items :: "(id \<times> int) list"
  lk_deleted_at :: "time option"

record lib_purchase_row =
  lu_id :: id
  lu_user :: id
  lu_kind :: library_purchase_kind
  lu_part :: "id option"
  lu_package :: "id option"
  lu_price :: int
  lu_parts :: "id list"
  lu_wallet_tx :: id
  lu_key :: idem_key
  lu_at :: time

record lib_entitlement_row =
  le_user :: id
  le_part :: id
  le_source :: library_entitlement_source
  le_purchase :: "id option"
  le_granted :: time
  le_revoked_at :: "time option"

record ticket_row =
  tk_id :: id
  tk_user :: id
  tk_video :: id
  tk_lesson :: id
  tk_course :: id
  tk_session :: "id option"
  tk_device :: "id option"
  tk_play :: "id option"
  tk_status :: playback_ticket_status
  tk_issued :: time
  tk_expires :: time
  tk_heartbeat :: time
  tk_start :: int
  tk_position :: int
  tk_watched :: int
  tk_captures :: nat
  tk_rotated_from :: "id option"
  tk_released_at :: "time option"
  tk_revoked_at :: "time option"
  tk_revoked_reason :: "string option"

record play_row =
  vp_id :: id
  vp_user :: id
  vp_video :: id
  vp_attempt :: nat
  vp_started :: time
  vp_activity :: time
  vp_watched :: int
  vp_closed :: "time option"

record video_row =
  vd_id :: id
  vd_course :: id
  vd_lesson :: "id option"
  vd_status :: video_status
  vd_source :: "string option"
  vd_source_size :: "int option"
  vd_playlist :: "string option"
  vd_duration :: int
  vd_width :: "int option"
  vd_height :: "int option"
  vd_provider :: "string option"
  vd_asset :: "id option"
  vd_workspace :: "string option"
  vd_gumlet_status :: "string option"
  vd_gumlet_error :: "string option"
  vd_gumlet_updated :: "time option"
  vd_verified_at :: "time option"
  vd_blocked :: "string option"
  vd_requested :: bool
  vd_checked_at :: "time option"
  vd_job :: "id option"
  vd_error :: "string option"
  vd_started :: "time option"
  vd_processed :: "time option"
  vd_uploaded_by :: "id option"
  vd_updated :: time
  vd_deleted_at :: "time option"

text \<open>A video row as it is created: every column that is not given has its default.\<close>

definition blank_video :: "id \<Rightarrow> id \<Rightarrow> id option \<Rightarrow> time \<Rightarrow> video_row" where
  "blank_video i course lesson now =
     \<lparr>vd_id = i, vd_course = course, vd_lesson = lesson, vd_status = VS_UPLOADING, vd_source = None,
      vd_source_size = None, vd_playlist = None, vd_duration = 0, vd_width = None, vd_height = None,
      vd_provider = None, vd_asset = None, vd_workspace = None,
      vd_gumlet_status = None, vd_gumlet_error = None, vd_gumlet_updated = None, vd_verified_at = None,
      vd_blocked = None, vd_requested = False, vd_checked_at = None, vd_job = None, vd_error = None,
      vd_started = None, vd_processed = None, vd_uploaded_by = None, vd_updated = now,
      vd_deleted_at = None\<rparr>"

record rendition_row =
  rd_video :: id
  rd_height :: int
  rd_width :: int
  rd_bitrate :: int
  rd_playlist :: string

record caption_row =
  cap_video :: id
  cap_language :: string
  cap_label :: string
  cap_key :: string
  cap_default :: bool

datatype (plugins only: code) watch_event_type =
    WE_STARTED | WE_PROGRESS | WE_PAUSED | WE_COMPLETED | WE_SEEKED | WE_ENDED

record watch_event_row =
  we_user :: id
  we_lesson :: id
  we_course :: id
  we_video :: "id option"
  we_type :: watch_event_type
  we_position :: int

record lesson_video_row =
  lv_lesson :: id
  lv_video :: id
  lv_sort :: int
  lv_created_by :: "id option"
  lv_created :: time

record progress_row =
  wp_user :: id
  wp_lesson :: id
  wp_course :: id
  wp_position :: int
  wp_duration :: int
  wp_percent :: int
  wp_watched :: int
  wp_completed :: bool
  wp_completed_at :: "time option"
  wp_last :: time

record session_row =
  ss_id :: id
  ss_user :: id
  ss_device :: "id option"
  ss_status :: session_status
  ss_created :: time
  ss_last_seen :: time
  ss_expires :: time
  ss_revoked_at :: "time option"
  ss_revoked_reason :: "string option"

record refresh_row =
  rt_id :: id
  rt_user :: id
  rt_session :: id
  rt_hash :: string
  rt_family :: string
  rt_replaced_by :: "id option"
  rt_used_at :: "time option"
  rt_revoked_at :: "time option"
  rt_revoked_reason :: "string option"
  rt_created :: time
  rt_expires :: time

record device_row =
  dv_id :: id
  dv_user :: id
  dv_key :: string
  dv_name :: string
  dv_status :: device_status
  dv_suspect :: bool
  dv_last_seen :: time
  dv_approved_at :: "time option"
  dv_approved_by :: "id option"
  dv_revoked_at :: "time option"
  dv_revoked_reason :: "string option"

record device_change_row =
  dc_id :: id
  dc_user :: id
  dc_device :: "id option"
  dc_key :: string
  dc_name :: string
  dc_reason :: "string option"
  dc_status :: device_change_status
  dc_reviewed_by :: "id option"
  dc_reviewed_at :: "time option"
  dc_note :: "string option"

record push_row =
  ph_user :: id
  ph_token :: string
  ph_device_key :: "string option"
  ph_active :: bool

record deletion_row =
  dr_user :: id
  dr_status :: deletion_status
  dr_scheduled :: time

record idem_row =
  ir_key :: idem_key
  ir_fingerprint :: string
  ir_refund :: id
  ir_expires :: time

record university_row =
  un_id :: id
  un_active :: bool
  un_name :: string
  un_code :: "string option"
  un_system :: structure_kind
  un_deleted_at :: "time option"

record faculty_row =
  fa_id :: id
  fa_university :: id
  fa_name :: string
  fa_active :: bool
  fa_system :: "structure_kind option"
  fa_deleted_at :: "time option"

record department_row =
  de_id :: id
  de_faculty :: id
  de_name :: string
  de_study :: study_type
  de_active :: bool
  de_deleted_at :: "time option"

text \<open>The key of a ladder's owner, which the program stores as a text.\<close>

datatype (plugins only: code) scope_key =
    PlatformScope | UniversityScope id | FacultyScope id | DepartmentScope id

record structure_row =
  sr_id :: id
  sr_kind :: structure_kind
  sr_scope :: scope_key
  sr_active :: bool
  sr_created :: time

record pin_row =
  fp_structure :: id
  fp_faculty :: id

record year_row =
  ay_id :: id
  ay_structure :: id
  ay_order :: int
  ay_name :: string
  ay_active :: bool

record audit_row =
  au_actor :: "id option"
  au_action :: string
  au_entity :: string
  au_entity_id :: id
  au_note :: string

section \<open>The database\<close>

record db =
  db_next :: id
  users :: "user_row list"
  profiles :: "profile_row list"
  courses :: "course_row list"
  prices :: "price_row list"
  teachers :: "teacher_row list"
  sections :: "section_row list"
  lessons :: "lesson_row list"
  attachments :: "attachment_row list"
  enrollments :: "enrollment_row list"
  grants :: "grant_row list"
  payments :: "payment_row list"
  payment_txs :: "payment_tx_row list"
  revenue :: "revenue_row list"
  codes :: "code_row list"
  batches :: "batch_row list"
  redemptions :: "redemption_row list"
  wallets :: "wallet_row list"
  wallet_txs :: "wallet_tx_row list"
  recharges :: "recharge_row list"
  parts :: "part_row list"
  entitlements :: "entitlement_row list"
  part_purchases :: "part_purchase_row list"
  materials :: "material_row list"
  lib_parts :: "lib_part_row list"
  lib_packages :: "lib_package_row list"
  lib_purchases :: "lib_purchase_row list"
  lib_entitlements :: "lib_entitlement_row list"
  tickets :: "ticket_row list"
  plays :: "play_row list"
  videos :: "video_row list"
  renditions :: "rendition_row list"
  captions :: "caption_row list"
  watch_events :: "watch_event_row list"
  lesson_videos :: "lesson_video_row list"
  progress :: "progress_row list"
  sessions :: "session_row list"
  refresh_tokens :: "refresh_row list"
  devices :: "device_row list"
  device_changes :: "device_change_row list"
  push_tokens :: "push_row list"
  deletion_requests :: "deletion_row list"
  idem_records :: "idem_row list"
  audit :: "audit_row list"
  universities :: "university_row list"
  faculties :: "faculty_row list"
  departments :: "department_row list"
  structures :: "structure_row list"
  pins :: "pin_row list"
  years :: "year_row list"

type_synonym 'a dbtx = "(db, exn, 'a) tx"

definition empty_db :: db where
  "empty_db = \<lparr>db_next = 0, users = [], profiles = [], courses = [], prices = [], teachers = [],
     sections = [], lessons = [], attachments = [], enrollments = [], grants = [], payments = [], payment_txs = [], revenue = [],
     codes = [], batches = [], redemptions = [], wallets = [], wallet_txs = [], recharges = [],
     parts = [], entitlements = [], part_purchases = [], materials = [], lib_parts = [],
     lib_packages = [], lib_purchases = [], lib_entitlements = [], tickets = [], plays = [],
     videos = [], renditions = [], captions = [], watch_events = [], lesson_videos = [], progress = [], sessions = [], refresh_tokens = [], devices = [],
     device_changes = [], push_tokens = [], deletion_requests = [],
     idem_records = [], audit = [],
     universities = [], faculties = [], departments = [], structures = [], pins = [], years = []\<rparr>"

text \<open>A new identifier; a row that may not be there.\<close>

definition fresh_id :: "id dbtx" where
  "fresh_id = (\<lambda>s. Inr (db_next s, s\<lparr>db_next := Suc (db_next s)\<rparr>))"

definition the_or :: "exn \<Rightarrow> 'a option \<Rightarrow> 'a dbtx" where
  "the_or e r = (\<lambda>s. case r of None \<Rightarrow> Inl e | Some x \<Rightarrow> Inr (x, s))"

lemma fresh_id_simp [simp]: "fresh_id s = Inr (db_next s, s\<lparr>db_next := Suc (db_next s)\<rparr>)"
  by (simp add: fresh_id_def)

lemma bind_fresh_id [simp]:
  "bind_tx fresh_id f s = f (db_next s) (s\<lparr>db_next := Suc (db_next s)\<rparr>)"
  by (simp add: bind_tx_def)

lemma the_or_simps [simp]:
  "the_or e None s = Inl e"
  "the_or e (Some x) s = Inr (x, s)"
  by (simp_all add: the_or_def)

lemma the_or_Inr_iff [result_simps]: "the_or e r s = Inr (x, s') \<longleftrightarrow> r = Some x \<and> s' = s"
  by (cases r) auto

lemma the_or_Inl_iff [result_simps]: "the_or e r s = Inl e' \<longleftrightarrow> r = None \<and> e' = e"
  by (cases r) auto

lemma bind_the_or [simp]:
  "bind_tx (the_or e None) f s = Inl e"
  "bind_tx (the_or e (Some x)) f s = f x s"
  by (simp_all add: bind_tx_def)

section \<open>Publication\<close>

text \<open>\<open>common/publication.ts\<close>: only published, active and undeleted content may be newly acquired.\<close>

definition is_acquirable_content :: "content_status \<Rightarrow> bool" where
  "is_acquirable_content st \<longleftrightarrow> st = CT_PUBLISHED"

definition is_acquirable_course :: "course_status \<Rightarrow> bool" where
  "is_acquirable_course st \<longleftrightarrow> st = CS_PUBLISHED"

definition is_on_sale :: "content_status \<Rightarrow> bool \<Rightarrow> time option \<Rightarrow> bool" where
  "is_on_sale st active deleted \<longleftrightarrow> active \<and> deleted = None \<and> is_acquirable_content st"

definition is_course_acquirable :: "course_status \<Rightarrow> time option \<Rightarrow> bool" where
  "is_course_acquirable st deleted \<longleftrightarrow> deleted = None \<and> is_acquirable_course st"

definition assert_course_acquirable :: "course_status \<Rightarrow> time option \<Rightarrow> unit dbtx" where
  "assert_course_acquirable st deleted =
     require_tx (is_course_acquirable st deleted) (app_error COURSE_NOT_AVAILABLE)"

definition assert_part_on_sale :: "content_status \<Rightarrow> bool \<Rightarrow> time option \<Rightarrow> unit dbtx" where
  "assert_part_on_sale st active deleted =
     require_tx (is_on_sale st active deleted) (app_error INVALID_STATE)"

definition assert_library_item_on_sale :: "content_status \<Rightarrow> bool \<Rightarrow> time option \<Rightarrow> unit dbtx" where
  "assert_library_item_on_sale st active deleted =
     require_tx (is_on_sale st active deleted) (app_error INVALID_STATE)"

definition assert_material_on_sale :: "material_row \<Rightarrow> unit dbtx" where
  "assert_material_on_sale m =
     require_tx (is_on_sale (lm_status m) (lm_active m) (lm_deleted_at m)) (app_error INVALID_STATE)"

lemma assert_sale_Inr_iff [result_simps]:
  "assert_course_acquirable cs d s = Inr (u, s') \<longleftrightarrow> is_course_acquirable cs d \<and> s' = s"
  "assert_part_on_sale st a d s = Inr (u, s') \<longleftrightarrow> is_on_sale st a d \<and> s' = s"
  "assert_library_item_on_sale st a d s = Inr (u, s') \<longleftrightarrow> is_on_sale st a d \<and> s' = s"
  "assert_material_on_sale m s = Inr (u, s')
     \<longleftrightarrow> is_on_sale (lm_status m) (lm_active m) (lm_deleted_at m) \<and> s' = s"
  by (simp_all add: assert_course_acquirable_def assert_part_on_sale_def
      assert_library_item_on_sale_def assert_material_on_sale_def result_simps)

end
