(* ===== verification/Money.thy ===== *)
theory Money
  imports Complex_Main Errors
begin

text \<open>
  Exact money arithmetic (\<open>modules/wallet/money.ts\<close>). Amounts are integer piastres
  (1 EGP = 100 piastres); decimal text appears only at the boundary. The parser works on text,
  as the code does: a JavaScript number is carried as the text its \<open>toString\<close> renders, a
  decimal column as the text of its decimal object. Strings are lists of code points below 256.
  JavaScript numbers are used here on integers below \<open>2^53\<close> only, where their arithmetic is
  exact, so they are integers; the safe-integer tests of the code are kept.
\<close>

section \<open>Digits\<close>

definition digit_char :: "nat \<Rightarrow> char" where
  "digit_char n = char_of (48 + n)"

definition is_digit :: "char \<Rightarrow> bool" where
  "is_digit c \<longleftrightarrow> 48 \<le> (of_char c :: nat) \<and> (of_char c :: nat) \<le> 57"

definition digit_val :: "char \<Rightarrow> nat" where
  "digit_val c = of_char c - 48"

definition number_of_digits :: "string \<Rightarrow> nat" where
  "number_of_digits s = foldl (\<lambda>n c. 10 * n + digit_val c) 0 s"

fun show_nat :: "nat \<Rightarrow> string" where
  "show_nat n = (if n < 10 then [digit_char n] else show_nat (n div 10) @ [digit_char (n mod 10)])"

declare show_nat.simps [simp del]

lemma digit_char_props [simp]:
  assumes "n < 10"
  shows "is_digit (digit_char n)" "digit_val (digit_char n) = n"
proof -
  have "(of_char (char_of (48 + n) :: char) :: nat) = 48 + n"
    using assms by simp
  then show "is_digit (digit_char n)" "digit_val (digit_char n) = n"
    using assms by (simp_all add: is_digit_def digit_val_def digit_char_def)
qed

lemma is_digit_neq: "is_digit c \<Longrightarrow> c \<noteq> CHR ''.''" "is_digit c \<Longrightarrow> c \<noteq> CHR ''-''"
  by (auto simp: is_digit_def)

lemma number_of_digits_snoc: "number_of_digits (s @ [c]) = 10 * number_of_digits s + digit_val c"
  by (simp add: number_of_digits_def)

lemma show_nat_digits: "c \<in> set (show_nat n) \<Longrightarrow> is_digit c"
proof (induction n rule: show_nat.induct)
  case (1 n)
  then show ?case
    by (subst (asm) show_nat.simps) (auto split: if_splits)
qed

lemma show_nat_nonempty [simp]: "show_nat n \<noteq> []"
  by (subst show_nat.simps) simp

lemma number_of_show_nat [simp]: "number_of_digits (show_nat n) = n"
proof (induction n rule: show_nat.induct)
  case (1 n)
  show ?case
  proof (cases "n < 10")
    case True
    then show ?thesis
      by (subst show_nat.simps) (simp add: number_of_digits_def)
  next
    case False
    with 1 have "number_of_digits (show_nat (n div 10)) = n div 10" by simp
    with False show ?thesis
      by (subst show_nat.simps) (simp add: number_of_digits_snoc)
  qed
qed

section \<open>Reading an amount\<close>

text \<open>
  What a caller hands over: a finite number (its text), a non-finite number, a string, an object
  with a \<open>toString\<close> (its text; a decimal column is one), or nothing.
\<close>

datatype money_value = MNum string | MNonFinite | MStr string | MObj string | MNull

definition is_ws :: "char \<Rightarrow> bool" where
  "is_ws c \<longleftrightarrow> (of_char c :: nat) \<in> {9, 10, 11, 12, 13, 32, 160}"

definition js_trim :: "string \<Rightarrow> string" where
  "js_trim s = rev (dropWhile is_ws (rev (dropWhile is_ws s)))"

definition max_money_egp :: int where "max_money_egp = 1000000"
definition max_piastres :: int where "max_piastres = max_money_egp * 100"

definition is_safe_integer :: "int \<Rightarrow> bool" where
  "is_safe_integer n \<longleftrightarrow> \<bar>n\<bar> \<le> 2 ^ 53 - 1"

text \<open>The pattern \<^verbatim>\<open>/^\d+(\.\d{1,2})?$/\<close>, and the split at the dot it allows.\<close>

definition whole_part :: "string \<Rightarrow> string" where
  "whole_part text = takeWhile is_digit text"

definition fraction_part :: "string \<Rightarrow> string" where
  "fraction_part text = (case dropWhile is_digit text of [] \<Rightarrow> [] | c # f \<Rightarrow> f)"

definition is_amount_text :: "string \<Rightarrow> bool" where
  "is_amount_text text \<longleftrightarrow>
     whole_part text \<noteq> [] \<and>
     (case dropWhile is_digit text of
        [] \<Rightarrow> True
      | c # f \<Rightarrow> c = CHR ''.'' \<and> list_all is_digit f \<and> (length f = 1 \<or> length f = 2))"

definition pad_end2 :: "string \<Rightarrow> string" where
  "pad_end2 f = f @ replicate (2 - length f) (CHR ''0'')"

definition amount_of_text :: "string \<Rightarrow> int" where
  "amount_of_text text =
     int (number_of_digits (whole_part text)) * 100
     + int (number_of_digits (pad_end2 (fraction_part text)))"

definition amount_text :: "money_value \<Rightarrow> string" where
  "amount_text v = (case v of MNum t \<Rightarrow> t | MNonFinite \<Rightarrow> [] | MStr s \<Rightarrow> js_trim s | MObj t \<Rightarrow> t | MNull \<Rightarrow> [])"

definition to_piastres :: "money_value \<Rightarrow> string \<Rightarrow> exn + int" where
  "to_piastres value field =
     (let text = amount_text value in
      if \<not> is_amount_text text
      then Inl (MoneyEx field ''must be a non-negative amount with at most 2 decimal places'')
      else
        (let piastres = amount_of_text text in
         if \<not> is_safe_integer piastres \<or> piastres > max_piastres
         then Inl (MoneyEx field ''must not exceed 1000000'')
         else Inr piastres))"

text \<open>\<open>parseAmount\<close>: a bad amount from a caller is a field validation error.\<close>

definition as_validation :: "exn + 'a \<Rightarrow> exn + 'a" where
  "as_validation r = (case r of
      Inl (MoneyEx field problem) \<Rightarrow> Inl (validation [(field, [problem])])
    | other \<Rightarrow> other)"

definition parse_amount :: "money_value \<Rightarrow> string \<Rightarrow> exn + int" where
  "parse_amount value field = as_validation (to_piastres value field)"

section \<open>Rendering an amount\<close>

definition pad_start2 :: "string \<Rightarrow> string" where
  "pad_start2 s = replicate (2 - length s) (CHR ''0'') @ s"

definition render_piastres :: "int \<Rightarrow> string" where
  "render_piastres p =
     (if p < 0 then ''-'' else []) @ show_nat (nat \<bar>p\<bar> div 100) @ ''.''
     @ pad_start2 (show_nat (nat \<bar>p\<bar> mod 100))"

definition from_piastres :: "int \<Rightarrow> exn + string" where
  "from_piastres p =
     (if \<not> is_safe_integer p then Inl (MoneyEx ''amount'' ''is not a whole number of piastres'')
      else Inr (render_piastres p))"

text \<open>The text a decimal column's object renders: no trailing zeros after the dot.\<close>

definition decimal_text :: "int \<Rightarrow> string" where
  "decimal_text p =
     (let n = nat \<bar>p\<bar>; f = n mod 100 in
      (if p < 0 then ''-'' else []) @ show_nat (n div 100)
      @ (if f = 0 then []
         else if f mod 10 = 0 then ''.'' @ show_nat (f div 10)
         else ''.'' @ pad_start2 (show_nat f)))"

definition to_egp_number :: "int \<Rightarrow> rat" where
  "to_egp_number p = of_int p / 100"

section \<open>Percentages\<close>

definition percent_text :: "money_value \<Rightarrow> string" where
  "percent_text v = (case v of MNum t \<Rightarrow> t | MStr s \<Rightarrow> js_trim s | _ \<Rightarrow> [])"

definition to_basis_points :: "money_value \<Rightarrow> string \<Rightarrow> exn + int" where
  "to_basis_points value field =
     (let text = percent_text value in
      if \<not> is_amount_text text then Inl (MoneyEx field ''must be a percentage between 0 and 100'')
      else
        (let bp = amount_of_text text in
         if bp > 10000 then Inl (MoneyEx field ''must be between 0 and 100'') else Inr bp))"

definition from_basis_points :: "int \<Rightarrow> rat" where
  "from_basis_points bp = of_int bp / 100"

definition percent_of :: "int \<Rightarrow> int \<Rightarrow> int" where
  "percent_of piastres bp = (piastres * bp + 5000) div 10000"

section \<open>What the parser accepts\<close>

lemma amount_of_text_nonneg [simp]: "0 \<le> amount_of_text t"
  by (simp add: amount_of_text_def)

lemma to_piastres_bounds: "to_piastres v f = Inr p \<Longrightarrow> 0 \<le> p \<and> p \<le> max_piastres"
  by (auto simp: to_piastres_def Let_def split: if_splits)

lemma to_basis_points_bounds: "to_basis_points v f = Inr bp \<Longrightarrow> 0 \<le> bp \<and> bp \<le> 10000"
  by (auto simp: to_basis_points_def Let_def split: if_splits)

lemma to_piastres_error: "to_piastres v f = Inl e \<Longrightarrow> \<exists>problem. e = MoneyEx f problem"
  by (auto simp: to_piastres_def Let_def split: if_splits)

lemma to_basis_points_error: "to_basis_points v f = Inl e \<Longrightarrow> \<exists>problem. e = MoneyEx f problem"
  by (auto simp: to_basis_points_def Let_def split: if_splits)

lemma as_validation_Inr_iff [result_simps]: "as_validation r = Inr x \<longleftrightarrow> r = Inr x"
  by (auto simp: as_validation_def split: sum.splits exn.splits)

lemma as_validation_simps [simp]:
  "as_validation (Inr x) = Inr x"
  "as_validation (Inl (MoneyEx f p)) = Inl (validation [(f, [p])])"
  "as_validation (Inl (AppEx c fs)) = Inl (AppEx c fs)"
  by (simp_all add: as_validation_def)

lemma parse_amount_bounds: "parse_amount v f = Inr p \<Longrightarrow> 0 \<le> p \<and> p \<le> max_piastres"
  by (simp add: parse_amount_def result_simps to_piastres_bounds)

lemma parse_amount_Inl:
  assumes "parse_amount v f = Inl e"
  shows "\<exists>problem. e = AppEx VALIDATION_ERROR [(f, [problem])]"
proof (cases "to_piastres v f")
  case (Inl e')
  then obtain problem where "e' = MoneyEx f problem" using to_piastres_error by blast
  with Inl assms show ?thesis by (auto simp: parse_amount_def validation_def)
qed (use assms in \<open>simp add: parse_amount_def\<close>)

lemma max_piastres_safe: "\<bar>p\<bar> \<le> max_piastres \<Longrightarrow> is_safe_integer p"
  by (simp add: is_safe_integer_def max_piastres_def max_money_egp_def)

section \<open>Text of an amount\<close>

lemma span_digits:
  assumes "\<And>c. c \<in> set w \<Longrightarrow> is_digit c" "rest = [] \<or> \<not> is_digit (hd rest)"
  shows "takeWhile is_digit (w @ rest) = w" "dropWhile is_digit (w @ rest) = rest"
proof -
  have *: "takeWhile is_digit rest = []" "dropWhile is_digit rest = rest"
    using assms(2) by (cases rest; simp)+
  show "takeWhile is_digit (w @ rest) = w" "dropWhile is_digit (w @ rest) = rest"
    using assms(1) * by (induction w) auto
qed

lemma not_digit_dot [simp]: "\<not> is_digit (CHR ''.'')"
  by (simp add: is_digit_def)

lemma pad_start2_props:
  assumes "n < 100"
  shows "length (pad_start2 (show_nat n)) = 2"
    and "c \<in> set (pad_start2 (show_nat n)) \<Longrightarrow> is_digit c"
    and "number_of_digits (pad_start2 (show_nat n)) = n"
proof -
  have split: "show_nat n = (if n < 10 then [digit_char n] else [digit_char (n div 10), digit_char (n mod 10)])"
    using assms by (subst show_nat.simps, subst show_nat.simps) auto
  have zero: "is_digit (CHR ''0'')" "digit_val (CHR ''0'') = 0"
    by (simp_all add: is_digit_def digit_val_def)
  have m: "n div 10 < 10" "n mod 10 < 10" "10 * (n div 10) + n mod 10 = n" using assms by simp_all
  show "length (pad_start2 (show_nat n)) = 2"
    by (simp add: split pad_start2_def)
  show "c \<in> set (pad_start2 (show_nat n)) \<Longrightarrow> is_digit c"
    using zero m by (auto simp: split pad_start2_def split: if_splits)
  show "number_of_digits (pad_start2 (show_nat n)) = n"
    using zero m by (simp add: split pad_start2_def number_of_digits_def numeral_2_eq_2)
qed

lemma render_accepted:
  assumes "0 \<le> p"
  shows "is_amount_text (render_piastres p)" "amount_of_text (render_piastres p) = p"
proof -
  define w f where "w = show_nat (nat p div 100)" and "f = pad_start2 (show_nat (nat p mod 100))"
  have shape: "render_piastres p = w @ CHR ''.'' # f"
    using assms by (simp add: render_piastres_def w_def f_def)
  have w: "\<And>c. c \<in> set w \<Longrightarrow> is_digit c" "w \<noteq> []" "number_of_digits w = nat p div 100"
    by (auto simp: w_def dest: show_nat_digits)
  have f: "length f = 2" "\<And>c. c \<in> set f \<Longrightarrow> is_digit c" "number_of_digits f = nat p mod 100"
    using pad_start2_props [of "nat p mod 100"] by (auto simp: f_def)
  have span: "takeWhile is_digit (render_piastres p) = w"
      "dropWhile is_digit (render_piastres p) = CHR ''.'' # f"
    unfolding shape using span_digits [of w "CHR ''.'' # f"] w(1) by auto
  show "is_amount_text (render_piastres p)"
    using w(2) f by (auto simp: is_amount_text_def whole_part_def span list_all_iff)
  have "amount_of_text (render_piastres p) = int (nat p div 100) * 100 + int (nat p mod 100)"
    using w(3) f by (simp add: amount_of_text_def whole_part_def fraction_part_def span pad_end2_def)
  also have "\<dots> = int (nat p)"
    by (metis div_mult_mod_eq of_nat_add of_nat_mult of_nat_numeral)
  finally show "amount_of_text (render_piastres p) = p" using assms by simp
qed

lemma decimal_accepted:
  assumes "0 \<le> p"
  shows "is_amount_text (decimal_text p)" "amount_of_text (decimal_text p) = p"
proof -
  define n f w where "n = nat p" and "f = n mod 100" and "w = show_nat (n div 100)"
  define tail where "tail = (if f = 0 then [] else if f mod 10 = 0 then ''.'' @ show_nat (f div 10)
    else ''.'' @ pad_start2 (show_nat f))"
  have shape: "decimal_text p = w @ tail"
    using assms by (simp add: decimal_text_def Let_def w_def tail_def f_def n_def)
  have w: "\<And>c. c \<in> set w \<Longrightarrow> is_digit c" "w \<noteq> []" "number_of_digits w = n div 100"
    by (auto simp: w_def dest: show_nat_digits)
  have f100: "f < 100" by (simp add: f_def)
  have hd: "tail = [] \<or> \<not> is_digit (hd tail)" by (simp add: tail_def)
  have span: "takeWhile is_digit (decimal_text p) = w" "dropWhile is_digit (decimal_text p) = tail"
    unfolding shape using span_digits [of w tail, OF w(1) hd] by simp_all
  have one: "show_nat (f div 10) = [digit_char (f div 10)]" "is_digit (digit_char (f div 10))"
      "digit_val (digit_char (f div 10)) = f div 10"
    using f100 by (subst show_nat.simps, auto)
  have zero: "digit_val (CHR ''0'') = 0" by (simp add: digit_val_def)
  note two = pad_start2_props [OF f100]
  show "is_amount_text (decimal_text p)"
    using w(2) one two by (auto simp: is_amount_text_def whole_part_def span list_all_iff tail_def)
  have fr: "number_of_digits (pad_end2 (fraction_part (decimal_text p))) = f"
  proof -
    have "10 * (f div 10) = f" if "f mod 10 = 0" using that by presburger
    then show ?thesis
      using one two zero
      by (auto simp: fraction_part_def span tail_def pad_end2_def number_of_digits_def
          numeral_2_eq_2 split: if_splits)
  qed
  have "amount_of_text (decimal_text p) = int (n div 100) * 100 + int f"
    by (simp add: amount_of_text_def whole_part_def span w(3) fr)
  also have "\<dots> = int n"
    by (metis f_def div_mult_mod_eq of_nat_add of_nat_mult of_nat_numeral)
  finally show "amount_of_text (decimal_text p) = p" using assms by (simp add: n_def)
qed


section \<open>Interface: a money codec\<close>

text \<open>
  A column stores the text an amount renders to and reads it back with the parser. The contract
  is that rendering a valid amount is read back exactly; the client facts are that two amounts
  with the same text are the same amount, and that storing what was read changes nothing.
\<close>

locale money_codec =
  fixes valid :: "int \<Rightarrow> bool"
    and render :: "int \<Rightarrow> string"
    and parse :: "string \<Rightarrow> exn + int"
  assumes parse_render: "valid p \<Longrightarrow> parse (render p) = Inr p"
    and parse_valid: "parse t = Inr p \<Longrightarrow> valid p"
begin

lemma render_inj: "valid p \<Longrightarrow> valid q \<Longrightarrow> render p = render q \<Longrightarrow> p = q"
  by (metis parse_render sum.inject(2))

lemma store_idem: "parse t = Inr p \<Longrightarrow> parse (render p) = Inr p"
  by (rule parse_render) (rule parse_valid)

end

abbreviation valid_piastres :: "int \<Rightarrow> bool" where
  "valid_piastres p \<equiv> 0 \<le> p \<and> p \<le> max_piastres"

lemma to_piastres_accepts:
  "is_amount_text (amount_text v) \<Longrightarrow> amount_of_text (amount_text v) = p \<Longrightarrow>
   valid_piastres p \<Longrightarrow> to_piastres v f = Inr p"
  using max_piastres_safe [of p] by (simp add: to_piastres_def Let_def)

lemma js_trim_digits:
  assumes "list_all (\<lambda>c. \<not> is_ws c) s"
  shows "js_trim s = s"
proof -
  have *: "dropWhile is_ws xs = xs" if "list_all (\<lambda>c. \<not> is_ws c) xs" for xs
    using that by (cases xs) auto
  show ?thesis
    using assms by (simp add: js_trim_def *)
qed

lemma digit_not_ws: "is_digit c \<Longrightarrow> \<not> is_ws c"
proof -
  have "48 \<le> n \<and> n \<le> 57 \<Longrightarrow> n \<notin> {9, 10, 11, 12, 13, 32, 160}" for n :: nat by auto
  then show "is_digit c \<Longrightarrow> \<not> is_ws c" unfolding is_digit_def is_ws_def by blast
qed

lemma render_no_ws: "list_all (\<lambda>c. \<not> is_ws c) (render_piastres p)"
proof -
  have s: "\<not> is_ws (CHR ''.'')" "\<not> is_ws (CHR ''-'')" by (simp_all add: is_ws_def)
  have d: "list_all (\<lambda>c. \<not> is_ws c) (show_nat n)" for n
    by (simp add: list_all_iff digit_not_ws show_nat_digits)
  have "list_all (\<lambda>c. \<not> is_ws c) (pad_start2 (show_nat (nat \<bar>p\<bar> mod 100)))"
    using pad_start2_props(2) [of "nat \<bar>p\<bar> mod 100"] by (simp add: list_all_iff digit_not_ws)
  with d s show ?thesis by (simp add: render_piastres_def)
qed

lemma decimal_no_ws: "list_all (\<lambda>c. \<not> is_ws c) (decimal_text p)"
proof -
  have s: "\<not> is_ws (CHR ''.'')" "\<not> is_ws (CHR ''-'')" by (simp_all add: is_ws_def)
  have d: "list_all (\<lambda>c. \<not> is_ws c) (show_nat n)" for n
    by (simp add: list_all_iff digit_not_ws show_nat_digits)
  have "list_all (\<lambda>c. \<not> is_ws c) (pad_start2 (show_nat (n mod 100)))" for n
    using pad_start2_props(2) [of "n mod 100"] by (simp add: list_all_iff digit_not_ws)
  with d s show ?thesis by (simp add: decimal_text_def Let_def)
qed

interpretation text_codec: money_codec valid_piastres render_piastres "\<lambda>t. to_piastres (MStr t) f"
proof
  fix p assume "valid_piastres p"
  then show "to_piastres (MStr (render_piastres p)) f = Inr p"
    using render_accepted [of p] by (intro to_piastres_accepts) (simp_all add: amount_text_def js_trim_digits render_no_ws)
next
  fix t p assume "to_piastres (MStr t) f = Inr p"
  then show "valid_piastres p" by (rule to_piastres_bounds)
qed

interpretation column_codec: money_codec valid_piastres decimal_text "\<lambda>t. to_piastres (MObj t) f"
proof
  fix p assume "valid_piastres p"
  then show "to_piastres (MObj (decimal_text p)) f = Inr p"
    using decimal_accepted [of p] by (intro to_piastres_accepts) (simp_all add: amount_text_def)
next
  fix t p assume "to_piastres (MObj t) f = Inr p"
  then show "valid_piastres p" by (rule to_piastres_bounds)
qed

lemma decimal_string_read:
  "valid_piastres p \<Longrightarrow> to_piastres (MStr (decimal_text p)) f = Inr p"
  "0 \<le> bp \<Longrightarrow> bp \<le> 10000 \<Longrightarrow> to_basis_points (MStr (decimal_text bp)) f = Inr bp"
  using decimal_accepted [of p] decimal_accepted [of bp] max_piastres_safe [of p]
  by (simp_all add: to_piastres_def to_basis_points_def amount_text_def percent_text_def
      js_trim_digits decimal_no_ws Let_def)

text \<open>
  Reading a money column. The column holds the piastres themselves (a decimal with two places);
  the read goes through the text of the decimal object, so a negative column or one above the
  platform maximum is a \<open>MoneyError\<close>.
\<close>

definition read_column :: "int \<Rightarrow> string \<Rightarrow> exn + int" where
  "read_column p field = to_piastres (MObj (decimal_text p)) field"

lemma decimal_text_negative: "p < 0 \<Longrightarrow> \<not> is_amount_text (decimal_text p)"
  by (simp add: decimal_text_def Let_def is_amount_text_def whole_part_def is_digit_def)

lemma read_column_Inr_iff [result_simps]: "read_column p f = Inr q \<longleftrightarrow> q = p \<and> valid_piastres p"
proof
  assume r: "read_column p f = Inr q"
  have "0 \<le> p"
  proof (rule ccontr)
    assume "\<not> 0 \<le> p"
    then have "\<not> is_amount_text (decimal_text p)" by (simp add: decimal_text_negative)
    with r show False by (simp add: read_column_def to_piastres_def amount_text_def)
  qed
  then have "amount_of_text (decimal_text p) = p" by (rule decimal_accepted)
  with r have "q = p"
    by (auto simp: read_column_def to_piastres_def amount_text_def Let_def split: if_splits)
  with r show "q = p \<and> valid_piastres p"
    using to_piastres_bounds [of _ f q] by (simp add: read_column_def)
next
  assume "q = p \<and> valid_piastres p"
  then show "read_column p f = Inr q"
    using column_codec.parse_render [of p f] by (simp add: read_column_def)
qed

lemma read_column_valid [simp]: "valid_piastres p \<Longrightarrow> read_column p f = Inr p"
  by (simp add: read_column_Inr_iff)

lemma read_column_Inl_iff: "(\<exists>e. read_column p f = Inl e) \<longleftrightarrow> \<not> valid_piastres p"
  by (cases "read_column p f") (use read_column_Inr_iff in auto)

text \<open>C1: every amount the platform accepts survives its text. Rendering an amount between zero and
  the platform maximum gives a text the parser reads back as the same amount, both for the
  two-decimal text written by \<open>fromPiastres\<close> and for the shorter text a decimal column's
  object renders.\<close>

theorem money_text_roundtrip:
  assumes "0 \<le> p" "p \<le> max_piastres"
  shows "\<exists>t. from_piastres p = Inr t \<and> to_piastres (MStr t) field = Inr p
           \<and> to_piastres (MObj (decimal_text p)) field = Inr p"
  using assms text_codec.parse_render [of p field] column_codec.parse_render [of p field]
    max_piastres_safe [of p]
  by (simp add: from_piastres_def)

theorem money_text_roundtrip_witness:
  "\<exists>t. from_piastres 1005 = Inr t \<and> to_piastres (MStr t) ''amount'' = Inr 1005
     \<and> to_piastres (MObj (decimal_text 1005)) ''amount'' = Inr 1005"
  by (rule money_text_roundtrip) (simp_all add: max_piastres_def max_money_egp_def)

text \<open>Evaluating the parser on a literal.\<close>

lemmas parse_simps = to_piastres_def to_basis_points_def amount_text_def percent_text_def Let_def
  is_amount_text_def whole_part_def fraction_part_def amount_of_text_def number_of_digits_def
  digit_val_def pad_end2_def is_digit_def is_safe_integer_def max_piastres_def max_money_egp_def
  js_trim_def is_ws_def numeral_2_eq_2

section \<open>Percentages round half up\<close>

lemma percent_of_0 [simp]: "percent_of p 0 = 0" "percent_of 0 bp = 0"
  by (simp_all add: percent_of_def)

lemma percent_of_full [simp]: "percent_of p 10000 = p"
  by (simp add: percent_of_def)

lemma percent_of_nonneg: "0 \<le> p \<Longrightarrow> 0 \<le> bp \<Longrightarrow> 0 \<le> percent_of p bp"
  by (simp add: percent_of_def pos_imp_zdiv_nonneg_iff)

lemma percent_of_half_up:
  "10000 * percent_of p bp \<le> p * bp + 5000 \<and> p * bp - 5000 < 10000 * percent_of p bp"
  using div_mult_mod_eq [of "p * bp + 5000" 10000] pos_mod_bound [of 10000 "p * bp + 5000"]
    pos_mod_sign [of 10000 "p * bp + 5000"]
  unfolding percent_of_def by linarith

lemma percent_of_mono: "0 \<le> p \<Longrightarrow> bp \<le> bp' \<Longrightarrow> percent_of p bp \<le> percent_of p bp'"
  unfolding percent_of_def by (intro zdiv_mono1) (auto intro: mult_left_mono)

lemma percent_of_le: "0 \<le> p \<Longrightarrow> bp \<le> 10000 \<Longrightarrow> percent_of p bp \<le> p"
  using percent_of_mono [of p bp 10000] by simp

end
