(* ===== verification/Discount.thy ===== *)
theory Discount
  imports Money Schema
begin

text \<open>
  What a recharge card is worth (\<open>modules/wallet/discount.ts\<close>): the amount paid is the face
  value less the discount, and the wallet is credited exactly what was paid.
\<close>

record discount_input =
  di_face :: money_value
  di_type :: "discount_type option"
  di_percent :: "money_value option"
  di_amount :: "money_value option"

record discount_result =
  dr_face :: int
  dr_discount :: int
  dr_paid :: int
  dr_credit :: int
  dr_face_text :: string
  dr_discount_text :: string
  dr_paid_text :: string
  dr_credit_text :: string
  dr_type :: discount_type
  dr_percent :: "rat option"

text \<open>The discount in piastres, and the percentage it came from.\<close>

definition discount_of :: "discount_input \<Rightarrow> int \<Rightarrow> exn + (int \<times> rat option)" where
  "discount_of input face =
     (case (case di_type input of None \<Rightarrow> D_NONE | Some t \<Rightarrow> t) of
        D_NONE \<Rightarrow> Inr (0, None)
      | D_PERCENTAGE \<Rightarrow>
          (case di_percent input of
             None \<Rightarrow> Inl (MoneyEx ''discountPercent'' ''is required for a percentage discount'')
           | Some v \<Rightarrow>
               bind_r (to_basis_points v ''discountPercent'')
                 (\<lambda>bp. Inr (percent_of face bp, Some (from_basis_points bp))))
      | D_FIXED \<Rightarrow>
          (case di_amount input of
             None \<Rightarrow> Inl (MoneyEx ''discountAmount'' ''is required for a fixed discount'')
           | Some v \<Rightarrow> bind_r (to_piastres v ''discountAmount'') (\<lambda>p. Inr (p, None))))"

definition resolve_discount :: "discount_input \<Rightarrow> exn + discount_result" where
  "resolve_discount input = as_validation (
     bind_r (to_piastres (di_face input) ''faceValue'') (\<lambda>face.
     bind_r (discount_of input face) (\<lambda>(disc, pct).
     bind_r (require (disc \<le> face) (MoneyEx ''discountAmount'' ''cannot exceed the face value'')) (\<lambda>_.
     let paid = face - disc in
     bind_r (from_piastres face) (\<lambda>face_text.
     bind_r (from_piastres disc) (\<lambda>disc_text.
     bind_r (from_piastres paid) (\<lambda>paid_text.
     bind_r (from_piastres paid) (\<lambda>credit_text.
     Inr \<lparr>dr_face = face, dr_discount = disc, dr_paid = paid, dr_credit = paid,
          dr_face_text = face_text, dr_discount_text = disc_text,
          dr_paid_text = paid_text, dr_credit_text = credit_text,
          dr_type = (case di_type input of None \<Rightarrow> D_NONE | Some t \<Rightarrow> t),
          dr_percent = pct\<rparr>))))))))"

record discount_summary =
  ds_face :: rat
  ds_type :: discount_type
  ds_percent :: "rat option"
  ds_discount :: rat
  ds_paid :: rat
  ds_credit :: rat

definition summary_of_discount :: "discount_result \<Rightarrow> discount_summary" where
  "summary_of_discount r =
     \<lparr>ds_face = to_egp_number (dr_face r), ds_type = dr_type r, ds_percent = dr_percent r,
      ds_discount = to_egp_number (dr_discount r), ds_paid = to_egp_number (dr_paid r),
      ds_credit = to_egp_number (dr_credit r)\<rparr>"

section \<open>What a resolved discount guarantees\<close>

lemma from_piastres_Inr_iff [result_simps]:
  "from_piastres p = Inr t \<longleftrightarrow> is_safe_integer p \<and> t = render_piastres p"
  by (auto simp: from_piastres_def)

lemma resolve_discount_Inr:
  assumes "resolve_discount input = Inr r"
  obtains face pct where "to_piastres (di_face input) ''faceValue'' = Inr face"
    and "discount_of input face = Inr (dr_discount r, pct)"
    and "dr_discount r \<le> face" "dr_face r = face" "dr_paid r = face - dr_discount r"
    and "dr_credit r = dr_paid r" "dr_credit_text r = render_piastres (dr_credit r)"
    and "dr_paid_text r = render_piastres (dr_paid r)"
  using assms by (auto simp: resolve_discount_def result_simps Let_def split_beta)

lemma discount_of_bounds:
  assumes "discount_of input face = Inr (disc, pct)" "0 \<le> face"
  shows "0 \<le> disc"
  using assms
  by (auto simp: discount_of_def result_simps split: option.splits discount_type.splits
      dest!: to_piastres_bounds to_basis_points_bounds intro: percent_of_nonneg)

lemma resolve_percentage:
  assumes "to_piastres (di_face input) ''faceValue'' = Inr face"
    and "di_type input = Some D_PERCENTAGE" "di_percent input = Some v"
    and "to_basis_points v ''discountPercent'' = Inr bp"
  shows "\<exists>r. resolve_discount input = Inr r \<and> dr_discount r = percent_of face bp
    \<and> dr_credit r = face - percent_of face bp"
proof -
  have f: "0 \<le> face" "face \<le> max_piastres" using to_piastres_bounds [OF assms(1)] by auto
  have bp: "0 \<le> bp" "bp \<le> 10000" using to_basis_points_bounds [OF assms(4)] by auto
  have d: "0 \<le> percent_of face bp" "percent_of face bp \<le> face"
    using f bp by (simp_all add: percent_of_nonneg percent_of_le)
  have safe: "is_safe_integer face" "is_safe_integer (percent_of face bp)"
    "is_safe_integer (face - percent_of face bp)"
    using f d by (auto intro!: max_piastres_safe)
  show ?thesis
    using assms d safe by (simp add: resolve_discount_def discount_of_def from_piastres_def Let_def)
qed

text \<open>a resolved recharge card balances: what is paid plus the discount is the face value, the wallet
  is credited exactly what is paid, nothing is negative or above the face value, and the frozen
  text of the credit is read back as that credit when the card is redeemed.\<close>

theorem resolve_discount_balances:
  assumes "resolve_discount input = Inr r"
  shows "dr_paid r + dr_discount r = dr_face r \<and> dr_credit r = dr_paid r
    \<and> 0 \<le> dr_discount r \<and> 0 \<le> dr_credit r \<and> dr_credit r \<le> dr_face r
    \<and> dr_face r \<le> max_piastres \<and> to_piastres (MStr (dr_credit_text r)) field = Inr (dr_credit r)"
  using assms
proof (rule resolve_discount_Inr)
  fix face pct
  assume a: "to_piastres (di_face input) ''faceValue'' = Inr face"
    "discount_of input face = Inr (dr_discount r, pct)" "dr_discount r \<le> face" "dr_face r = face"
    "dr_paid r = face - dr_discount r" "dr_credit r = dr_paid r"
    "dr_credit_text r = render_piastres (dr_credit r)"
  have f: "0 \<le> face" "face \<le> max_piastres" using to_piastres_bounds [OF a(1)] by auto
  from a(2) f(1) have "0 \<le> dr_discount r" by (rule discount_of_bounds)
  with a f show ?thesis
    using text_codec.parse_render [of "dr_credit r" field] by simp
qed

theorem resolve_discount_balances_witness:
  "\<exists>r. resolve_discount \<lparr>di_face = MNum ''1000'', di_type = Some D_PERCENTAGE,
          di_percent = Some (MNum ''20''), di_amount = None\<rparr> = Inr r
     \<and> dr_credit r = 80000 \<and> dr_paid r + dr_discount r = dr_face r"
proof -
  let ?i = "\<lparr>di_face = MNum ''1000'', di_type = Some D_PERCENTAGE,
          di_percent = Some (MNum ''20''), di_amount = None\<rparr>"
  have p: "to_piastres (MNum ''1000'') ''faceValue'' = Inr 100000"
    "to_basis_points (MNum ''20'') ''discountPercent'' = Inr 2000"
    by (simp_all add: parse_simps)
  obtain r where "resolve_discount ?i = Inr r" "dr_credit r = 80000"
    using resolve_percentage [of ?i 100000 "MNum ''20''" 2000] p by (auto simp: percent_of_def)
  then show ?thesis using resolve_discount_balances [of ?i r "[]"] by blast
qed

text \<open>a percentage discount never exceeds the face value, so a percentage between 0 and 100 on an
  acceptable face value is never refused.\<close>

theorem percentage_discount_accepted:
  assumes "to_piastres (di_face input) ''faceValue'' = Inr face"
    and "di_type input = Some D_PERCENTAGE" "di_percent input = Some v"
    and "to_basis_points v ''discountPercent'' = Inr bp"
  shows "\<exists>r. resolve_discount input = Inr r \<and> dr_discount r = percent_of face bp
    \<and> (bp = 10000 \<longrightarrow> dr_credit r = 0)"
  using resolve_percentage [OF assms] by force

theorem percentage_discount_accepted_witness:
  "\<exists>r. resolve_discount \<lparr>di_face = MNum ''50'', di_type = Some D_PERCENTAGE,
          di_percent = Some (MNum ''100''), di_amount = None\<rparr> = Inr r
     \<and> dr_discount r = percent_of 5000 10000 \<and> ((10000::int) = 10000 \<longrightarrow> dr_credit r = 0)"
proof (rule percentage_discount_accepted)
  show "to_piastres (di_face \<lparr>di_face = MNum ''50'', di_type = Some D_PERCENTAGE,
          di_percent = Some (MNum ''100''), di_amount = None\<rparr>) ''faceValue'' = Inr 5000"
    by (simp add: parse_simps)
  show "to_basis_points (MNum ''100'') ''discountPercent'' = Inr 10000"
    by (simp add: parse_simps)
qed simp_all

end
