(* ===== verification/PartPricing.thy ===== *)
theory PartPricing
  imports Money Schema "HOL-Library.Product_Lexorder"
begin

text \<open>
  What every part of a course costs (\<open>modules/course-parts/part-pricing.ts\<close>) and the guard that
  loads a course's sellable parts (\<open>part-allocation.guard.ts\<close>). Percentages are apportioned by
  largest remainder, fixed amounts must add up exactly, and a part's price is split between teacher
  and platform without losing a piastre. Numbers interpolated into an error text are left out of
  it; the field and the fixed wording are kept. A field named by a part is the text of its id.
\<close>

record priced_part =
  q_id :: id
  q_title :: string
  q_sort :: int
  q_model :: part_pricing_model
  q_percent :: "money_value option"
  q_amount :: "money_value option"

record part_allocation =
  al_id :: id
  al_title :: string
  al_sort :: int
  al_model :: part_pricing_model
  al_percent :: "rat option"
  al_piastres :: int
  al_amount :: string
  al_egp :: rat

record allocation_result =
  ar_model :: part_pricing_model
  ar_parts :: "part_allocation list"
  ar_course_price :: int
  ar_allocated :: int

section \<open>Reading the entered percentages and amounts\<close>

definition entered_percent :: "priced_part \<Rightarrow> string + int" where
  "entered_percent p =
     (case q_percent p of
        None \<Rightarrow> Inl ''a percentage-priced part needs a percentage''
      | Some v \<Rightarrow>
          (case to_basis_points v (show_nat (q_id p)) of
             Inl (MoneyEx _ problem) \<Rightarrow> Inl problem
           | Inl _ \<Rightarrow> Inl ''is not a valid percentage''
           | Inr bp \<Rightarrow> Inr bp))"

definition entered_amount :: "priced_part \<Rightarrow> string + int" where
  "entered_amount p =
     (case q_amount p of
        None \<Rightarrow> Inl ''a fixed-price part needs an amount''
      | Some v \<Rightarrow>
          (case to_piastres v (show_nat (q_id p)) of
             Inl (MoneyEx _ problem) \<Rightarrow> Inl problem
           | Inl _ \<Rightarrow> Inl ''is not a valid amount''
           | Inr a \<Rightarrow> Inr a))"

definition entry_problems :: "(priced_part \<Rightarrow> string + int) \<Rightarrow> priced_part list \<Rightarrow> (string \<times> string list) list" where
  "entry_problems entered ps =
     concat (map (\<lambda>p. case entered p of Inl problem \<Rightarrow> [(show_nat (q_id p), [problem])] | Inr _ \<Rightarrow> []) ps)"

definition entry_values :: "(priced_part \<Rightarrow> string + int) \<Rightarrow> priced_part list \<Rightarrow> int list" where
  "entry_values entered ps = map (\<lambda>p. case entered p of Inl _ \<Rightarrow> 0 | Inr x \<Rightarrow> x) ps"

section \<open>Largest-remainder apportionment\<close>

text \<open>The leftover piastres go one each to the parts in the given order.\<close>

fun hand_out :: "nat list \<Rightarrow> int \<Rightarrow> int list \<Rightarrow> int list" where
  "hand_out [] leftover ps = ps"
| "hand_out (i # order) leftover ps =
     (if leftover \<le> 0 then ps else hand_out order (leftover - 1) (ps[i := ps ! i + 1]))"

definition floors :: "int \<Rightarrow> int list \<Rightarrow> int list" where
  "floors price bps = map (\<lambda>bp. (price * bp) div 10000) bps"

definition remainders :: "int \<Rightarrow> int list \<Rightarrow> int list" where
  "remainders price bps = map (\<lambda>bp. price * bp - 10000 * ((price * bp) div 10000)) bps"

text \<open>Largest remainder first, ties towards the earlier part.\<close>

definition remainder_order :: "int list \<Rightarrow> nat list" where
  "remainder_order rs = sort_key (\<lambda>i. (- (rs ! i), i)) [0..<length rs]"

definition apportion :: "int \<Rightarrow> int list \<Rightarrow> int list" where
  "apportion price bps =
     hand_out (remainder_order (remainders price bps)) (price - sum_list (floors price bps))
       (floors price bps)"

definition allocation_line :: "part_pricing_model \<Rightarrow> priced_part \<times> rat option \<times> int \<Rightarrow> exn + part_allocation" where
  "allocation_line model = (\<lambda>(p, pct, piastres).
     bind_r (from_piastres piastres) (\<lambda>amount.
       Inr \<lparr>al_id = q_id p, al_title = q_title p, al_sort = q_sort p, al_model = model,
            al_percent = pct, al_piastres = piastres, al_amount = amount,
            al_egp = to_egp_number piastres\<rparr>))"

definition allocate_by_percentage :: "priced_part list \<Rightarrow> int \<Rightarrow> exn + allocation_result" where
  "allocate_by_percentage ps price =
     (let bps = entry_values entered_percent ps; total_bp = sum_list bps in
      bind_r (require (entry_problems entered_percent ps = [])
                (validation (entry_problems entered_percent ps))) (\<lambda>_.
      bind_r (require (total_bp = 10000)
                (validation [(''pricePercent'',
                   [if total_bp > 10000 then ''part percentages total over 100%''
                    else ''part percentages total short of 100%''])])) (\<lambda>_.
      let piastres = apportion price bps in
      bind_r (map_r (allocation_line PERCENTAGE)
               (zip ps (zip (map (\<lambda>bp. Some (from_basis_points bp)) bps) piastres))) (\<lambda>lines.
      Inr \<lparr>ar_model = PERCENTAGE, ar_parts = lines, ar_course_price = price,
           ar_allocated = sum_list piastres\<rparr>))))"

definition allocate_by_fixed_amount :: "priced_part list \<Rightarrow> int \<Rightarrow> exn + allocation_result" where
  "allocate_by_fixed_amount ps price =
     (let piastres = entry_values entered_amount ps; allocated = sum_list piastres in
      bind_r (require (entry_problems entered_amount ps = [])
                (validation (entry_problems entered_amount ps))) (\<lambda>_.
      bind_r (require (allocated = price)
                (validation [(''priceAmount'',
                   [if allocated > price then ''part prices total more than the course price''
                    else ''part prices total less than the course price''])])) (\<lambda>_.
      bind_r (map_r (allocation_line FIXED) (zip ps (zip (map (\<lambda>_. None) ps) piastres))) (\<lambda>lines.
      Inr \<lparr>ar_model = FIXED, ar_parts = lines, ar_course_price = price,
           ar_allocated = allocated\<rparr>))))"

definition allocate_part_prices :: "priced_part list \<Rightarrow> money_value \<Rightarrow> exn + allocation_result" where
  "allocate_part_prices ps course_price =
     (case ps of
        [] \<Rightarrow> Inl (validation [(''parts'', [''a course with parts must have at least one''])])
      | first # _ \<Rightarrow>
          bind_r (as_validation (to_piastres course_price ''coursePrice'')) (\<lambda>price.
          bind_r (require (List.find (\<lambda>p. q_model p \<noteq> q_model first) ps = None)
                    (validation [(''pricingModel'',
                       [''every part of a course must use the same pricing model''])])) (\<lambda>_.
          let ordered = sort_key q_sort ps in
          if q_model first = PERCENTAGE then allocate_by_percentage ordered price
          else allocate_by_fixed_amount ordered price)))"

section \<open>Teacher and platform\<close>

record share_split =
  sh_teacher :: int
  sh_platform :: int
  sh_percent :: "rat option"

definition split_teacher_share :: "int \<Rightarrow> money_value option \<Rightarrow> share_split" where
  "split_teacher_share price share =
     (case share of
        None \<Rightarrow> \<lparr>sh_teacher = 0, sh_platform = price, sh_percent = None\<rparr>
      | Some v \<Rightarrow>
          (case to_basis_points v ''sharePercent'' of
             Inl _ \<Rightarrow> \<lparr>sh_teacher = 0, sh_platform = price, sh_percent = None\<rparr>
           | Inr bp \<Rightarrow>
               (let teacher = min (percent_of price bp) price in
                \<lparr>sh_teacher = teacher, sh_platform = price - teacher,
                 sh_percent = Some (from_basis_points bp)\<rparr>)))"

section \<open>The allocation guard\<close>

text \<open>
  A course's sellable parts, and the check run before a course price changes. A decimal column is
  handed over as its text.
\<close>

definition sellable_parts :: "id \<Rightarrow> db \<Rightarrow> part_row list" where
  "sellable_parts course s =
     sort_key cpt_sort
       (filter (\<lambda>p. cpt_course p = course \<and> cpt_deleted_at p = None \<and> cpt_active p
          \<and> cpt_status p \<noteq> CT_ARCHIVED) (parts s))"

definition priced_part_of :: "part_row \<Rightarrow> priced_part" where
  "priced_part_of p =
     \<lparr>q_id = cpt_id p, q_title = cpt_title p, q_sort = cpt_sort p, q_model = cpt_pricing p,
      q_percent = map_option (\<lambda>bp. MStr (decimal_text bp)) (cpt_percent p),
      q_amount = map_option (\<lambda>a. MStr (decimal_text a)) (cpt_amount p)\<rparr>"

definition load_part_allocation :: "id \<Rightarrow> money_value \<Rightarrow> allocation_result option dbtx" where
  "load_part_allocation course price =
     bind_tx (get_tx (sellable_parts course)) (\<lambda>rows.
     if rows = [] then ret_tx None
     else bind_tx (lift_tx (allocate_part_prices (map priced_part_of rows) price)) (\<lambda>r.
          ret_tx (Some r)))"

definition assert_price_change_keeps_allocation_valid :: "id \<Rightarrow> money_value \<Rightarrow> unit dbtx" where
  "assert_price_change_keeps_allocation_valid course new_price =
     bind_tx (load_part_allocation course new_price) (\<lambda>_. ret_tx ())"

section \<open>Apportionment adds up and is fair\<close>

lemma length_hand_out [simp]: "length (hand_out order l ps) = length ps"
  by (induction order l ps rule: hand_out.induct) auto

lemma hand_out_nth:
  assumes "distinct order" "set order \<subseteq> {..<length ps}" "i < length ps"
  shows "hand_out order l ps ! i = ps ! i + (if i \<in> set (take (nat l) order) then 1 else 0)"
  using assms
proof (induction order l ps rule: hand_out.induct)
  case (2 j order l ps)
  show ?case
  proof (cases "l \<le> 0")
    case False
    then have "nat l = Suc (nat (l - 1))" by simp
    then have t: "take (nat l) (j # order) = j # take (nat (l - 1)) order" by simp
    have "j \<notin> set (take (nat (l - 1)) order)" using "2.prems" by (auto dest: in_set_takeD)
    with 2 False show ?thesis by (auto simp: t nth_list_update)
  qed simp
qed simp

lemma sum_list_update_int:
  "k < length xs \<Longrightarrow> sum_list (xs[k := x]) = sum_list xs + x - (xs ! k :: int)"
  by (induction xs arbitrary: k) (auto split: nat.split)

lemma sum_hand_out:
  assumes "set order \<subseteq> {..<length ps}" "0 \<le> l" "nat l \<le> length order"
  shows "sum_list (hand_out order l ps) = sum_list ps + l"
  using assms
proof (induction order l ps rule: hand_out.induct)
  case (2 j order l ps)
  show ?case
  proof (cases "l \<le> 0")
    case False
    with 2 have "sum_list (hand_out order (l - 1) (ps[j := ps ! j + 1])) = sum_list (ps[j := ps ! j + 1]) + (l - 1)"
      by auto
    moreover have "sum_list (ps[j := ps ! j + 1]) = sum_list ps + 1"
      using "2.prems" by (simp add: sum_list_update_int)
    ultimately show ?thesis using False by simp
  qed (use "2.prems" in simp)
qed simp

lemma remainder_order_props:
  shows "set (remainder_order rs) = {..<length rs}" "distinct (remainder_order rs)"
    "length (remainder_order rs) = length rs"
    "sorted (map (\<lambda>i. (- (rs ! i), i)) (remainder_order rs))"
  by (simp_all add: remainder_order_def atLeast0LessThan)

lemma remainder_order_descending:
  assumes "a \<le> b" "b < length rs"
  shows "rs ! (remainder_order rs ! b) \<le> rs ! (remainder_order rs ! a)"
proof -
  have "map (\<lambda>i. (- (rs ! i), i)) (remainder_order rs) ! a \<le> map (\<lambda>i. (- (rs ! i), i)) (remainder_order rs) ! b"
    by (rule sorted_nth_mono [OF remainder_order_props(4) assms(1)])
      (simp add: remainder_order_props assms(2))
  then show ?thesis
    using assms by (auto simp: remainder_order_props(3) less_eq_prod_def)
qed

lemma remainders_mod: "remainders price bps = map (\<lambda>bp. (price * bp) mod 10000) bps"
  by (simp add: remainders_def minus_div_mult_eq_mod [symmetric] mult.commute)

lemma leftover_remainders:
  assumes "sum_list bps = 10000"
  shows "10000 * (price - sum_list (floors price bps)) = sum_list (remainders price bps)"
proof -
  have "sum_list (remainders price bps) = price * sum_list bps - 10000 * sum_list (floors price bps)"
    by (simp add: remainders_def floors_def sum_list_subtractf sum_list_const_mult)
  with assms show ?thesis by (simp add: algebra_simps)
qed

lemma sum_le_count_pos:
  assumes "\<And>r. r \<in> set rs \<Longrightarrow> 0 \<le> r \<and> r < (10000 :: int)"
  shows "0 \<le> sum_list rs" "sum_list rs \<le> 9999 * int (length (filter (\<lambda>r. 0 < r) rs))"
  using assms by (induction rs) force+

lemma le_of_scaled: "10000 * l \<le> 9999 * n \<Longrightarrow> 0 \<le> n \<Longrightarrow> l \<le> (n :: int)"
  by linarith

lemma leftover_bounds:
  assumes "sum_list bps = 10000"
  shows "0 \<le> price - sum_list (floors price bps)"
    "nat (price - sum_list (floors price bps)) \<le> length (filter (\<lambda>r. 0 < r) (remainders price bps))"
proof -
  let ?l = "price - sum_list (floors price bps)"
  have r: "r \<in> set (remainders price bps) \<Longrightarrow> 0 \<le> r \<and> r < 10000" for r
    by (auto simp: remainders_mod)
  note b = sum_le_count_pos [of "remainders price bps", OF r]
  have e: "10000 * ?l = sum_list (remainders price bps)" by (rule leftover_remainders [OF assms])
  show "0 \<le> ?l" using b(1) e by simp
  have "10000 * ?l \<le> 9999 * int (length (filter (\<lambda>r. 0 < r) (remainders price bps)))"
    using b(2) e by simp
  then show "nat ?l \<le> length (filter (\<lambda>r. 0 < r) (remainders price bps))"
    unfolding nat_le_iff by (rule le_of_scaled) simp
qed

lemma takers_have_remainder:
  assumes "nat l \<le> length (filter (\<lambda>r. 0 < r) rs)" "\<And>r. r \<in> set rs \<Longrightarrow> 0 \<le> (r :: int)"
    and "i \<in> set (take (nat l) (remainder_order rs))"
  shows "0 < rs ! i"
proof (rule ccontr)
  let ?o = "remainder_order rs"
  have len: "length ?o = length rs" by (simp add: remainder_order_props)
  assume "\<not> 0 < rs ! i"
  from assms(3) obtain m where m: "m < nat l" "m < length rs" "i = ?o ! m"
    by (auto simp: in_set_conv_nth len)
  have zero: "\<not> 0 < rs ! (?o ! b)" if "m \<le> b" "b < length rs" for b
    using remainder_order_descending [OF that] \<open>\<not> 0 < rs ! i\<close> m by simp
  have "{j. j < length rs \<and> 0 < rs ! j} \<subseteq> set (take m ?o)"
  proof
    fix j assume j: "j \<in> {j. j < length rs \<and> 0 < rs ! j}"
    then have "j \<in> set ?o" by (simp add: remainder_order_props)
    then obtain b where b: "b < length rs" "?o ! b = j" by (auto simp: in_set_conv_nth len)
    with j zero [of b] have "b < m" by (cases "m \<le> b") auto
    with b show "j \<in> set (take m ?o)" by (auto simp: in_set_conv_nth len)
  qed
  then have "card {j. j < length rs \<and> 0 < rs ! j} \<le> card (set (take m ?o))"
    by (rule card_mono [OF finite_set])
  also have "\<dots> \<le> m" using card_length [of "take m ?o"] by simp
  finally have "length (filter (\<lambda>r. 0 < r) rs) \<le> m" by (simp add: length_filter_conv_card)
  with m(1) assms(1) show False by simp
qed

lemma apportion_sum:
  assumes "sum_list bps = 10000"
  shows "sum_list (apportion price bps) = price"
proof -
  note b = leftover_bounds [OF assms, of price]
  have "nat (price - sum_list (floors price bps)) \<le> length (remainders price bps)"
    using b(2) length_filter_le order_trans by blast
  with b(1) show ?thesis
    unfolding apportion_def
    by (subst sum_hand_out) (simp_all add: remainder_order_props floors_def remainders_def)
qed

lemma length_apportion [simp]: "length (apportion price bps) = length bps"
  by (simp add: apportion_def floors_def)

definition topped_up :: "int \<Rightarrow> int list \<Rightarrow> nat \<Rightarrow> bool" where
  "topped_up price bps i \<longleftrightarrow>
     i \<in> set (take (nat (price - sum_list (floors price bps))) (remainder_order (remainders price bps)))"

lemma apportion_nth:
  assumes "i < length bps"
  shows "apportion price bps ! i = (price * bps ! i) div 10000 + (if topped_up price bps i then 1 else 0)"
  using assms unfolding apportion_def topped_up_def
  by (subst hand_out_nth) (auto simp: remainder_order_props floors_def remainders_def)

lemma near_share:
  "x = 10000 * q + m \<Longrightarrow> 0 \<le> m \<Longrightarrow> m < 10000 \<Longrightarrow> (b \<Longrightarrow> 0 < m) \<Longrightarrow>
   \<bar>10000 * (q + (if b then 1 else 0)) - x\<bar> < (10000 :: int)"
  by (cases b) simp_all

lemma apportion_near:
  assumes "sum_list bps = 10000" "i < length bps"
  shows "\<bar>10000 * apportion price bps ! i - price * bps ! i\<bar> < 10000"
  unfolding apportion_nth [OF assms(2)]
proof (rule near_share)
  show "price * bps ! i = 10000 * (price * bps ! i div 10000) + price * bps ! i mod 10000"
    by (rule mult_div_mod_eq [symmetric])
  show "0 \<le> price * bps ! i mod 10000" "price * bps ! i mod 10000 < 10000" by simp_all
  show "0 < price * bps ! i mod 10000" if t: "topped_up price bps i"
  proof -
    have nn: "0 \<le> r" if "r \<in> set (remainders price bps)" for r
      using that unfolding remainders_mod by fastforce
    have "0 < remainders price bps ! i"
      by (rule takers_have_remainder [OF leftover_bounds(2) [OF assms(1), of price] nn
            t [unfolded topped_up_def]])
    then show ?thesis by (simp only: remainders_mod nth_map [OF assms(2)])
  qed
qed

lemma apportion_fair:
  assumes "topped_up price bps i" "\<not> topped_up price bps j" "j < length bps"
  shows "(price * bps ! j) mod 10000 \<le> (price * bps ! i) mod 10000"
proof -
  let ?o = "remainder_order (remainders price bps)"
  have len: "length ?o = length bps" by (simp add: remainder_order_props remainders_def)
  from assms(1) obtain a where a: "a < length bps" "?o ! a = i"
      "a < nat (price - sum_list (floors price bps))"
    by (auto simp: topped_up_def in_set_conv_nth len)
  have "j \<in> set ?o" using assms(3) by (simp add: remainder_order_props remainders_def)
  then obtain b where b: "b < length bps" "?o ! b = j" by (auto simp: in_set_conv_nth len)
  have "\<not> b < nat (price - sum_list (floors price bps))"
    using assms(2) b len by (auto simp: topped_up_def in_set_conv_nth)
  with a have "a \<le> b" by simp
  have i: "i < length bps"
  proof -
    have "i \<in> set ?o" using a len nth_mem by metis
    then show ?thesis by (simp add: remainder_order_props remainders_def)
  qed
  show ?thesis
    using remainder_order_descending [OF \<open>a \<le> b\<close>, of "remainders price bps"] a(2) b i assms(3)
    by (simp add: remainders_mod)
qed

lemma apportion_nonneg:
  assumes "0 \<le> price" "\<And>bp. bp \<in> set bps \<Longrightarrow> 0 \<le> bp" "i < length bps"
  shows "0 \<le> apportion price bps ! i"
  using assms by (auto simp: apportion_nth pos_imp_zdiv_nonneg_iff)

section \<open>What an allocation guarantees\<close>

lemma entry_problems_Nil_iff:
  "entry_problems f ps = [] \<longleftrightarrow> (\<forall>p \<in> set ps. \<exists>x. f p = Inr x)"
  by (induction ps) (auto simp: entry_problems_def split: sum.splits)

lemma length_entry_values [simp]: "length (entry_values f ps) = length ps"
  by (simp add: entry_values_def)

lemma entered_percent_bounds: "entered_percent p = Inr bp \<Longrightarrow> 0 \<le> bp \<and> bp \<le> 10000"
  by (auto simp: entered_percent_def split: option.splits sum.splits exn.splits
      dest: to_basis_points_bounds)

lemma entered_amount_bounds: "entered_amount p = Inr a \<Longrightarrow> 0 \<le> a \<and> a \<le> max_piastres"
  by (auto simp: entered_amount_def split: option.splits sum.splits exn.splits
      dest: to_piastres_bounds)

lemma entry_percents_nonneg: "bp \<in> set (entry_values entered_percent ps) \<Longrightarrow> 0 \<le> bp"
  by (auto simp: entry_values_def split: sum.splits dest: entered_percent_bounds)

lemma apportion_entries_nonneg:
  assumes "0 \<le> price" "x \<in> set (apportion price (entry_values entered_percent ps))"
  shows "0 \<le> x"
proof -
  from assms(2) obtain i where i: "i < length ps" "x = apportion price (entry_values entered_percent ps) ! i"
    by (auto simp: in_set_conv_nth)
  show ?thesis
    unfolding i(2) by (rule apportion_nonneg [OF assms(1) entry_percents_nonneg]) (simp_all add: i)
qed

lemma entry_amounts_nonneg: "a \<in> set (entry_values entered_amount ps) \<Longrightarrow> 0 \<le> a"
  by (auto simp: entry_values_def split: sum.splits dest: entered_amount_bounds)

lemma elem_le_sum_list_int:
  "x \<in> set xs \<Longrightarrow> (\<And>y. y \<in> set xs \<Longrightarrow> (0::int) \<le> y) \<Longrightarrow> x \<le> sum_list xs"
proof (induction xs)
  case (Cons a xs)
  then show ?case using sum_list_nonneg [of xs] by fastforce
qed simp

lemma allocation_line_Inr_iff:
  "allocation_line model (p, pct, x) = Inr l \<longleftrightarrow>
     is_safe_integer x \<and> l = \<lparr>al_id = q_id p, al_title = q_title p, al_sort = q_sort p,
       al_model = model, al_percent = pct, al_piastres = x, al_amount = render_piastres x,
       al_egp = to_egp_number x\<rparr>"
  by (auto simp: allocation_line_def from_piastres_def)

lemma allocation_lines:
  assumes "map_r (allocation_line model) (zip ps (zip pcts xs)) = Inr lines"
    and "length pcts = length ps" "length xs = length ps"
  shows "map al_id lines = map q_id ps" "map al_piastres lines = xs" "map al_percent lines = pcts"
proof -
  have l: "list_all2 (\<lambda>x y. allocation_line model x = Inr y) (zip ps (zip pcts xs)) lines"
    using assms(1) by (simp add: map_r_Inr_iff)
  then have len: "length lines = length ps"
    using assms by (simp add: list_all2_lengthD [symmetric])
  have nth: "allocation_line model (ps ! i, pcts ! i, xs ! i) = Inr (lines ! i)" if "i < length ps" for i
    using list_all2_nthD [OF l, of i] that assms by simp
  show "map al_id lines = map q_id ps" "map al_piastres lines = xs" "map al_percent lines = pcts"
    using nth len assms(2,3) by (auto simp: allocation_line_Inr_iff intro!: nth_equalityI)
qed

lemma allocate_by_percentage_Inr:
  assumes "allocate_by_percentage ps price = Inr r"
  shows "sum_list (entry_values entered_percent ps) = 10000"
    and "\<forall>p \<in> set ps. \<exists>bp. entered_percent p = Inr bp"
    and "map al_id (ar_parts r) = map q_id ps"
    and "map al_piastres (ar_parts r) = apportion price (entry_values entered_percent ps)"
    and "ar_model r = PERCENTAGE" "ar_course_price r = price" "ar_allocated r = price"
  using assms allocation_lines
  by (auto simp: allocate_by_percentage_def Let_def result_simps entry_problems_Nil_iff apportion_sum)

lemma allocate_by_fixed_Inr:
  assumes "allocate_by_fixed_amount ps price = Inr r"
  shows "sum_list (entry_values entered_amount ps) = price"
    and "\<forall>p \<in> set ps. \<exists>a. entered_amount p = Inr a"
    and "map al_id (ar_parts r) = map q_id ps"
    and "map al_piastres (ar_parts r) = entry_values entered_amount ps"
    and "ar_model r = FIXED" "ar_course_price r = price" "ar_allocated r = price"
  using assms allocation_lines
  by (auto simp: allocate_by_fixed_amount_def Let_def result_simps entry_problems_Nil_iff)

lemma allocate_by_percentage_accepts:
  assumes "sum_list (entry_values entered_percent ps) = 10000"
    and "\<forall>p \<in> set ps. \<exists>bp. entered_percent p = Inr bp" "0 \<le> price" "price \<le> max_piastres"
  shows "\<exists>r. allocate_by_percentage ps price = Inr r"
proof -
  let ?bps = "entry_values entered_percent ps"
  have nn: "0 \<le> x" if "x \<in> set (apportion price ?bps)" for x
    using that by (rule apportion_entries_nonneg [OF assms(3)])
  have safe: "is_safe_integer x" if "x \<in> set (apportion price ?bps)" for x
    using elem_le_sum_list_int [OF that nn] nn [OF that] assms
    by (intro max_piastres_safe) (simp add: apportion_sum)
  let ?line = "\<lambda>(p, pct, x). \<lparr>al_id = q_id p, al_title = q_title p, al_sort = q_sort p,
       al_model = PERCENTAGE, al_percent = pct, al_piastres = x, al_amount = render_piastres x,
       al_egp = to_egp_number x\<rparr>"
  have "map_r (allocation_line PERCENTAGE)
          (zip ps (zip (map (\<lambda>bp. Some (from_basis_points bp)) ?bps) (apportion price ?bps)))
        = Inr (map ?line (zip ps (zip (map (\<lambda>bp. Some (from_basis_points bp)) ?bps) (apportion price ?bps))))"
    by (rule map_r_total) (auto simp: allocation_line_Inr_iff safe dest!: set_zip_rightD)
  with assms show ?thesis
    by (simp add: allocate_by_percentage_def Let_def entry_problems_Nil_iff)
qed

lemma allocate_part_prices_Inr:
  assumes "allocate_part_prices ps cp = Inr r"
  obtains price where "to_piastres cp ''coursePrice'' = Inr price" "ps \<noteq> []"
    and "\<forall>p \<in> set ps. q_model p = ar_model r"
    and "(if ar_model r = PERCENTAGE then allocate_by_percentage (sort_key q_sort ps) price
          else allocate_by_fixed_amount (sort_key q_sort ps) price) = Inr r"
proof (cases ps)
  case (Cons first rest)
  with assms obtain price where p: "to_piastres cp ''coursePrice'' = Inr price"
    and m: "\<forall>p \<in> set ps. q_model p = q_model first"
    and a: "(if q_model first = PERCENTAGE then allocate_by_percentage (sort_key q_sort ps) price
          else allocate_by_fixed_amount (sort_key q_sort ps) price) = Inr r"
    by (auto simp: allocate_part_prices_def result_simps find_None_iff Let_def
        simp del: sort_key_simps)
  have "ar_model r = q_model first"
    using a allocate_by_percentage_Inr(5) allocate_by_fixed_Inr(5)
    by (cases "q_model first") (auto split: if_splits)
  with p m a Cons show ?thesis by (intro that [of price]) auto
qed (use assms in \<open>simp add: allocate_part_prices_def\<close>)

text \<open>an accepted allocation charges exactly the course price. The lines are the course's parts in
  sort order, no part has a negative price, and the part prices add up to the price that was
  parsed, whichever pricing model the parts use.\<close>

theorem allocation_adds_up:
  assumes "allocate_part_prices ps course_price = Inr r"
  shows "map al_id (ar_parts r) = map q_id (sort_key q_sort ps)
    \<and> sum_list (map al_piastres (ar_parts r)) = ar_course_price r
    \<and> ar_allocated r = ar_course_price r
    \<and> to_piastres course_price field = Inr (ar_course_price r)
    \<and> (\<forall>l \<in> set (ar_parts r). 0 \<le> al_piastres l)"
  using assms
proof (rule allocate_part_prices_Inr)
  fix price
  assume p: "to_piastres course_price ''coursePrice'' = Inr price"
    and a: "(if ar_model r = PERCENTAGE then allocate_by_percentage (sort_key q_sort ps) price
          else allocate_by_fixed_amount (sort_key q_sort ps) price) = Inr r"
  from p have f: "to_piastres course_price field = Inr price" "0 \<le> price"
    using to_piastres_bounds [OF p] by (auto simp: to_piastres_def Let_def split: if_splits)
  have nonneg: "(\<forall>l \<in> set (ar_parts r). 0 \<le> al_piastres l) \<longleftrightarrow>
      (\<forall>x \<in> set (map al_piastres (ar_parts r)). 0 \<le> x)" by auto
  show ?thesis
  proof (cases "ar_model r = PERCENTAGE")
    case True
    with a have a': "allocate_by_percentage (sort_key q_sort ps) price = Inr r" by simp
    note c = allocate_by_percentage_Inr [OF a']
    show ?thesis unfolding nonneg
      using c f apportion_entries_nonneg [OF f(2)] by (auto simp: apportion_sum)
  next
    case False
    with a have a': "allocate_by_fixed_amount (sort_key q_sort ps) price = Inr r" by simp
    note c = allocate_by_fixed_Inr [OF a']
    show ?thesis unfolding nonneg
      using c f entry_amounts_nonneg by auto
  qed
qed

lemma allocate_percentage_parts:
  assumes "to_piastres cp ''coursePrice'' = Inr price" "ps \<noteq> []"
    and "\<forall>p \<in> set ps. q_model p = PERCENTAGE" "\<forall>p \<in> set ps. \<exists>bp. entered_percent p = Inr bp"
    and "sum_list (entry_values entered_percent (sort_key q_sort ps)) = 10000"
  shows "\<exists>r. allocate_part_prices ps cp = Inr r \<and> ar_model r = PERCENTAGE"
proof -
  from assms(2) obtain first rest where ps: "ps = first # rest" by (cases ps) auto
  have f: "0 \<le> price" "price \<le> max_piastres" using to_piastres_bounds [OF assms(1)] by auto
  obtain r where r: "allocate_by_percentage (sort_key q_sort ps) price = Inr r"
    using allocate_by_percentage_accepts [of "sort_key q_sort ps" price] assms f by auto
  have "List.find (\<lambda>p. q_model p \<noteq> q_model first) ps = None"
    using assms(3) ps by (auto simp: find_None_iff)
  then have "allocate_part_prices ps cp = Inr r"
    using assms ps r
    by (simp add: allocate_part_prices_def Let_def del: sort_key_simps)
  then show ?thesis using allocate_by_percentage_Inr(5) [OF r] by blast
qed

definition two_parts :: "priced_part list" where
  "two_parts = [\<lparr>q_id = 8, q_title = ''After Mid'', q_sort = 2, q_model = PERCENTAGE,
       q_percent = Some (MStr ''40''), q_amount = None\<rparr>,
     \<lparr>q_id = 7, q_title = ''Before Mid'', q_sort = 1, q_model = PERCENTAGE,
       q_percent = Some (MStr ''60''), q_amount = None\<rparr>]"

lemma two_parts_allocation: "\<exists>r. allocate_part_prices two_parts (MNum ''999.99'') = Inr r \<and> ar_model r = PERCENTAGE"
proof (rule allocate_percentage_parts)
  show "to_piastres (MNum ''999.99'') ''coursePrice'' = Inr 99999" by (simp add: parse_simps)
qed (auto simp: two_parts_def entered_percent_def entry_values_def parse_simps)

theorem allocation_adds_up_witness:
  "\<exists>r. allocate_part_prices two_parts (MNum ''999.99'') = Inr r
     \<and> map al_id (ar_parts r) = [7, 8] \<and> sum_list (map al_piastres (ar_parts r)) = 99999"
proof -
  obtain r where r: "allocate_part_prices two_parts (MNum ''999.99'') = Inr r"
    using two_parts_allocation by blast
  have "map q_id (sort_key q_sort two_parts) = [7, 8]" by (simp add: two_parts_def)
  moreover have "to_piastres (MNum ''999.99'') [] = Inr 99999" by (simp add: parse_simps)
  ultimately show ?thesis
    using allocation_adds_up [OF r, of "[]"] r by auto
qed

text \<open>no percentage part is a whole piastre off its exact share. Every line of an accepted
  percentage allocation carries the percentage that was entered for its part, and differs from
  the exact share of the course price by less than one piastre.\<close>

theorem percentage_allocation_near:
  assumes "allocate_part_prices ps course_price = Inr r" "ar_model r = PERCENTAGE"
    and "i < length ps"
  shows "\<exists>bp. entered_percent (sort_key q_sort ps ! i) = Inr bp
    \<and> \<bar>10000 * al_piastres (ar_parts r ! i) - ar_course_price r * bp\<bar> < 10000"
  using assms(1)
proof (rule allocate_part_prices_Inr)
  fix price
  assume "(if ar_model r = PERCENTAGE then allocate_by_percentage (sort_key q_sort ps) price
          else allocate_by_fixed_amount (sort_key q_sort ps) price) = Inr r"
  with assms have a: "allocate_by_percentage (sort_key q_sort ps) price = Inr r" by simp
  note c = allocate_by_percentage_Inr [OF a]
  let ?bps = "entry_values entered_percent (sort_key q_sort ps)"
  have i: "i < length ?bps" using assms(3) by simp
  obtain bp where bp: "entered_percent (sort_key q_sort ps ! i) = Inr bp"
    using c(2) assms(3) by (metis length_sort nth_mem)
  then have "?bps ! i = bp" using assms(3) by (simp add: entry_values_def)
  moreover have "length (ar_parts r) = length ps" using c(4) by (metis length_apportion length_entry_values length_map length_sort)
  then have "al_piastres (ar_parts r ! i) = apportion price ?bps ! i"
    using c(4) assms(3) by (metis nth_map)
  ultimately show ?thesis
    using apportion_near [OF c(1) i, of price] bp c(6) by auto
qed

theorem percentage_allocation_near_witness:
  "\<exists>r bp. allocate_part_prices two_parts (MNum ''999.99'') = Inr r
     \<and> entered_percent (sort_key q_sort two_parts ! 0) = Inr bp
     \<and> \<bar>10000 * al_piastres (ar_parts r ! 0) - ar_course_price r * bp\<bar> < 10000"
proof -
  obtain r where r: "allocate_part_prices two_parts (MNum ''999.99'') = Inr r" "ar_model r = PERCENTAGE"
    using two_parts_allocation by blast
  have "0 < length two_parts" by (simp add: two_parts_def)
  from percentage_allocation_near [OF r this] r show ?thesis by blast
qed

text \<open>leftover piastres go to the largest remainders. When the basis points total 100%, each
  share is its floor or one piastre more, and a part that was topped up never has a smaller
  discarded remainder than a part that was not.\<close>

theorem apportion_largest_remainder:
  assumes "sum_list bps = 10000" "i < length bps" "j < length bps"
    and "apportion price bps ! i \<noteq> (price * bps ! i) div 10000"
    and "apportion price bps ! j = (price * bps ! j) div 10000"
  shows "apportion price bps ! i = (price * bps ! i) div 10000 + 1
    \<and> remainders price bps ! j \<le> remainders price bps ! i"
proof -
  have t: "topped_up price bps i" "\<not> topped_up price bps j"
    using assms apportion_nth [of i bps price] apportion_nth [of j bps price] by (auto split: if_splits)
  from apportion_fair [OF t assms(3)] assms t show ?thesis
    by (simp add: remainders_mod apportion_nth)
qed

theorem apportion_largest_remainder_witness:
  "apportion 100 [3333, 6667] ! 1 = (100 * [3333, 6667] ! 1) div 10000 + 1
    \<and> remainders 100 [3333, 6667] ! 0 \<le> remainders 100 [3333, 6667] ! 1"
proof (rule apportion_largest_remainder)
  show "sum_list [3333, 6667 :: int] = 10000" by simp
  show "apportion 100 [3333, 6667] ! 1 \<noteq> (100 * [3333, 6667] ! 1) div 10000" by code_simp
  show "apportion 100 [3333, 6667] ! 0 = (100 * [3333, 6667] ! 0) div 10000" by code_simp
qed simp_all

section \<open>Price changes\<close>

lemma load_part_allocation_Inr:
  assumes "load_part_allocation course price s = Inr (res, t)"
  shows "t = s \<and> (case res of None \<Rightarrow> sellable_parts course s = []
    | Some r \<Rightarrow> sellable_parts course s \<noteq> []
        \<and> allocate_part_prices (map priced_part_of (sellable_parts course s)) price = Inr r)"
  using assms by (auto simp: load_part_allocation_def result_simps split: if_splits)

lemma price_change_iff:
  "(\<exists>t. assert_price_change_keeps_allocation_valid course price s = Inr ((), t)) \<longleftrightarrow>
     sellable_parts course s = []
     \<or> (\<exists>r. allocate_part_prices (map priced_part_of (sellable_parts course s)) price = Inr r)"
  by (auto simp: assert_price_change_keeps_allocation_valid_def load_part_allocation_def result_simps)

text \<open>percentage parts float with the course price: once a course's parts form an accepted
  percentage allocation at one price, the guard accepts any other valid price.\<close>

theorem percentage_parts_accept_every_price:
  assumes "load_part_allocation course price s = Inr (Some r, s)" "ar_model r = PERCENTAGE"
    and "to_piastres new_price ''coursePrice'' = Inr x"
  shows "\<exists>t. assert_price_change_keeps_allocation_valid course new_price s = Inr ((), t)"
proof -
  let ?ps = "map priced_part_of (sellable_parts course s)"
  from load_part_allocation_Inr [OF assms(1)]
  have a: "allocate_part_prices ?ps price = Inr r" by simp
  then obtain p where ne: "?ps \<noteq> []" and m: "\<forall>q \<in> set ?ps. q_model q = PERCENTAGE"
    and b: "allocate_by_percentage (sort_key q_sort ?ps) p = Inr r"
    using assms(2) by (elim allocate_part_prices_Inr) auto
  from allocate_percentage_parts [OF assms(3) ne m] allocate_by_percentage_Inr(1,2) [OF b]
  show ?thesis unfolding price_change_iff by auto
qed

definition sample_part :: "id \<Rightarrow> part_pricing_model \<Rightarrow> int \<Rightarrow> part_row" where
  "sample_part i model x =
     \<lparr>cpt_id = i, cpt_course = 5, cpt_title = ''part'', cpt_sort = int i, cpt_status = CT_PUBLISHED,
      cpt_active = True, cpt_pricing = model, cpt_percent = Some x, cpt_amount = Some x, cpt_thumbnail = None,
      cpt_deleted_at = None\<rparr>"

definition sample_parts_db :: "part_pricing_model \<Rightarrow> int \<Rightarrow> int \<Rightarrow> db" where
  "sample_parts_db model x y = empty_db\<lparr>parts := [sample_part 3 model x, sample_part 2 model y]\<rparr>"

lemma sample_sellable: "sellable_parts 5 (sample_parts_db model x y) = [sample_part 2 model y, sample_part 3 model x]"
  by (simp add: sellable_parts_def sample_parts_db_def sample_part_def)

lemma sample_entries:
  "0 \<le> x \<Longrightarrow> x \<le> 10000 \<Longrightarrow> entered_percent (priced_part_of (sample_part i model x)) = Inr x"
  "valid_piastres x \<Longrightarrow> entered_amount (priced_part_of (sample_part i model x)) = Inr x"
  by (simp_all add: entered_percent_def entered_amount_def priced_part_of_def sample_part_def decimal_string_read)

lemma sample_fields [simp]:
  "q_model (priced_part_of (sample_part i model x)) = model"
  "q_sort (priced_part_of (sample_part i model x)) = int i"
  by (simp_all add: priced_part_of_def sample_part_def)

theorem percentage_parts_accept_every_price_witness:
  "\<exists>t. assert_price_change_keeps_allocation_valid 5 (MNum ''250'') (sample_parts_db PERCENTAGE 4000 6000) = Inr ((), t)"
proof -
  let ?s = "sample_parts_db PERCENTAGE 4000 6000"
  have p: "to_piastres (MNum ''100'') ''coursePrice'' = Inr 10000" by (simp add: parse_simps)
  obtain r where "allocate_part_prices (map priced_part_of (sellable_parts 5 ?s)) (MNum ''100'') = Inr r"
    "ar_model r = PERCENTAGE"
    using allocate_percentage_parts [OF p, of "map priced_part_of (sellable_parts 5 ?s)"]
    by (auto simp: sample_sellable sample_entries entry_values_def)
  then have r: "load_part_allocation 5 (MNum ''100'') ?s = Inr (Some r, ?s)" "ar_model r = PERCENTAGE"
    by (simp_all add: load_part_allocation_def sample_sellable)
  have "to_piastres (MNum ''250'') ''coursePrice'' = Inr 25000" by (simp add: parse_simps)
  from percentage_parts_accept_every_price [OF r this] show ?thesis .
qed

text \<open>fixed-price parts pin the course price: when the sellable parts form an accepted
  fixed-amount allocation at one price, the guard accepts a new price exactly when it parses to
  that same amount, and otherwise answers a validation error.\<close>

theorem fixed_parts_pin_the_price:
  assumes "load_part_allocation course price s = Inr (Some r, s)" "ar_model r = FIXED"
    and "to_piastres new_price ''coursePrice'' = Inr x"
  shows "(\<exists>t. assert_price_change_keeps_allocation_valid course new_price s = Inr ((), t))
    \<longleftrightarrow> x = ar_course_price r"
proof -
  let ?ps = "map priced_part_of (sellable_parts course s)"
  from load_part_allocation_Inr [OF assms(1)]
  have a: "allocate_part_prices ?ps price = Inr r" and ns: "sellable_parts course s \<noteq> []" by auto
  from a obtain p where ne: "?ps \<noteq> []" and m: "\<forall>q \<in> set ?ps. q_model q = FIXED"
    and b: "allocate_by_fixed_amount (sort_key q_sort ?ps) p = Inr r"
    using assms(2) by (elim allocate_part_prices_Inr) auto
  note c = allocate_by_fixed_Inr [OF b]
  have new: "allocate_part_prices ?ps new_price = allocate_by_fixed_amount (sort_key q_sort ?ps) x"
  proof -
    obtain first rest where ps: "?ps = first # rest" using ne by (cases ?ps) auto
    have "List.find (\<lambda>p. q_model p \<noteq> q_model first) ?ps = None" "q_model first = FIXED"
      using m ps by (auto simp: find_None_iff)
    then show ?thesis
      using assms(3) ps by (simp add: allocate_part_prices_def Let_def del: sort_key_simps)
  qed
  have "(\<exists>r'. allocate_by_fixed_amount (sort_key q_sort ?ps) x = Inr r') \<longleftrightarrow> x = ar_course_price r"
  proof
    assume "\<exists>r'. allocate_by_fixed_amount (sort_key q_sort ?ps) x = Inr r'"
    then show "x = ar_course_price r" using allocate_by_fixed_Inr(1) c(1,6) by metis
  next
    assume "x = ar_course_price r"
    then show "\<exists>r'. allocate_by_fixed_amount (sort_key q_sort ?ps) x = Inr r'" using b c(6) by blast
  qed
  then show ?thesis unfolding price_change_iff using new ns by auto
qed

theorem fixed_parts_pin_the_price_witness:
  "\<not> (\<exists>t. assert_price_change_keeps_allocation_valid 5 (MNum ''250'') (sample_parts_db FIXED 4000 6000) = Inr ((), t))"
proof -
  let ?s = "sample_parts_db FIXED 4000 6000"
  have p: "to_piastres (MNum ''100'') ''coursePrice'' = Inr 10000" by (simp add: parse_simps)
  have v: "valid_piastres 4000" "valid_piastres 6000" by (simp_all add: max_piastres_def max_money_egp_def)
  have "\<exists>r. allocate_part_prices (map priced_part_of (sellable_parts 5 ?s)) (MNum ''100'') = Inr r
      \<and> ar_model r = FIXED \<and> ar_course_price r = 10000"
    using p v by (simp add: sample_sellable allocate_part_prices_def allocate_by_fixed_amount_def
        entry_values_def entry_problems_def sample_entries allocation_line_def from_piastres_def
        is_safe_integer_def Let_def)
  then obtain r where r: "load_part_allocation 5 (MNum ''100'') ?s = Inr (Some r, ?s)" "ar_model r = FIXED"
      "ar_course_price r = 10000"
    by (auto simp: load_part_allocation_def sample_sellable)
  have "to_piastres (MNum ''250'') ''coursePrice'' = Inr 25000" by (simp add: parse_simps)
  from fixed_parts_pin_the_price [OF r(1,2) this] r(3) show ?thesis by simp
qed

section \<open>The teacher share\<close>

text \<open>the two halves of a part's price always add back to it, neither is negative, and a missing
  or malformed share gives everything to the platform.\<close>

theorem split_teacher_share_exact:
  assumes "0 \<le> price"
  shows "sh_teacher (split_teacher_share price share) + sh_platform (split_teacher_share price share) = price
    \<and> 0 \<le> sh_teacher (split_teacher_share price share)
    \<and> 0 \<le> sh_platform (split_teacher_share price share)
    \<and> (sh_percent (split_teacher_share price share) = None \<longrightarrow> sh_teacher (split_teacher_share price share) = 0)"
  using assms
  by (auto simp: split_teacher_share_def Let_def split: option.splits sum.splits
      dest!: to_basis_points_bounds intro: percent_of_nonneg)

theorem split_teacher_share_exact_witness:
  "sh_teacher (split_teacher_share 333 (Some (MStr ''33.33'')))
   + sh_platform (split_teacher_share 333 (Some (MStr ''33.33''))) = 333"
  using split_teacher_share_exact [of 333 "Some (MStr ''33.33'')"] by simp

end
