(* ===== verification/Retry.thy ===== *)
theory Retry
  imports Complex_Main Errors
begin

text \<open>
  Bounded retry of serializable transactions (\<open>database/serializable-retry.ts\<close>). The database is
  the environment: before attempt \<open>k\<close> other transactions may have committed (\<open>env k\<close> changes the
  state), and the database may abort attempt \<open>k\<close> with a write conflict (\<open>conflict k\<close>). An attempt
  that is not aborted runs the body; a body that throws is rolled back, so its exception carries no
  state. \<open>jitter k\<close> is the value \<open>Math.random()\<close> returns for the wait after attempt \<open>k\<close>.
\<close>

definition is_write_conflict :: "exn \<Rightarrow> bool" where
  "is_write_conflict e = (case e of PrismaKnown code _ \<Rightarrow> code = ''P2034'' | _ \<Rightarrow> False)"

record retry_options =
  ro_attempts :: nat
  ro_base_delay :: rat
  ro_max_delay :: rat

definition default_options :: retry_options where
  "default_options = \<lparr>ro_attempts = 3, ro_base_delay = 25, ro_max_delay = 400\<rparr>"

record 's world =
  w_env :: "nat \<Rightarrow> 's \<Rightarrow> 's"
  w_conflict :: "nat \<Rightarrow> bool"
  w_jitter :: "nat \<Rightarrow> rat"

text \<open>One \<open>prisma.$transaction(body)\<close>.\<close>

definition run_attempt :: "'s world \<Rightarrow> nat \<Rightarrow> ('s, exn, 'a) tx \<Rightarrow> ('s, exn, 'a) tx" where
  "run_attempt w k body = (\<lambda>s. if w_conflict w k then Inl write_conflict else body s)"

definition backoff :: "retry_options \<Rightarrow> nat \<Rightarrow> rat" where
  "backoff opts attempt = min (ro_base_delay opts * 2 ^ (attempt - 1)) (ro_max_delay opts)"

record ('s, 'a) retried =
  rt_result :: "exn + 'a"
  rt_state :: 's
  rt_waits :: "rat list"

text \<open>The loop, from attempt \<open>k\<close> on, with the last conflict seen.\<close>

function retry_loop ::
  "retry_options \<Rightarrow> 's world \<Rightarrow> ('s, exn, 'a) tx \<Rightarrow> nat \<Rightarrow> exn \<Rightarrow> 's \<Rightarrow> ('s, 'a) retried" where
  "retry_loop opts w body k last_conflict s =
     (if ro_attempts opts < k
      then \<lparr>rt_result = Inl last_conflict, rt_state = s, rt_waits = []\<rparr>
      else
        (let s' = w_env w k s in
         case run_attempt w k body s' of
           Inr (x, t) \<Rightarrow> \<lparr>rt_result = Inr x, rt_state = t, rt_waits = []\<rparr>
         | Inl e \<Rightarrow>
             if \<not> is_write_conflict e then \<lparr>rt_result = Inl e, rt_state = s', rt_waits = []\<rparr>
             else if k = ro_attempts opts then \<lparr>rt_result = Inl e, rt_state = s', rt_waits = []\<rparr>
             else
               (let r = retry_loop opts w body (Suc k) e s' in
                r\<lparr>rt_waits := w_jitter w k * backoff opts k # rt_waits r\<rparr>)))"
  by pat_completeness auto
termination
  by (relation "measure (\<lambda>(opts, w, body, k, e, s). Suc (ro_attempts opts) - k)") auto

declare retry_loop.simps [simp del]

definition with_serializable_retry ::
  "retry_options \<Rightarrow> 's world \<Rightarrow> ('s, exn, 'a) tx \<Rightarrow> 's \<Rightarrow> ('s, 'a) retried" where
  "with_serializable_retry opts w body s = retry_loop opts w body 1 OtherEx s"

text \<open>The state once the other transactions before attempts \<open>k\<close> to \<open>m\<close> have committed.\<close>

fun env_between :: "'s world \<Rightarrow> nat \<Rightarrow> nat \<Rightarrow> 's \<Rightarrow> 's" where
  "env_between w k 0 s = s"
| "env_between w k (Suc n) s = env_between w (Suc k) n (w_env w k s)"

text \<open>A body whose own exceptions are never write conflicts; closed under composition.\<close>

definition conflict_free :: "('s, exn, 'a) tx \<Rightarrow> bool" where
  "conflict_free m \<longleftrightarrow> (\<forall>s e. m s = Inl e \<longrightarrow> \<not> is_write_conflict e)"

named_theorems conflict_free_intros "composition of conflict-free bodies"

lemma conflict_free_bind [conflict_free_intros]:
  "conflict_free m \<Longrightarrow> (\<And>x. conflict_free (f x)) \<Longrightarrow> conflict_free (bind_tx m f)"
  by (auto simp: conflict_free_def bind_tx_Inl_iff)

lemma conflict_free_basic [conflict_free_intros]:
  "conflict_free (ret_tx x)" "conflict_free (get_tx q)" "conflict_free (modify_tx g)"
  "\<not> is_write_conflict e \<Longrightarrow> conflict_free (throw_tx e)"
  "\<not> is_write_conflict e \<Longrightarrow> conflict_free (require_tx ok e)"
  "(\<And>e. r = Inl e \<Longrightarrow> \<not> is_write_conflict e) \<Longrightarrow> conflict_free (lift_tx r)"
  by (auto simp: conflict_free_def require_tx_def lift_tx_def split: sum.splits if_splits)

lemma conflict_free_branch [conflict_free_intros]:
  "conflict_free m1 \<Longrightarrow> conflict_free m2 \<Longrightarrow> conflict_free (if c then m1 else m2)"
  "conflict_free n \<Longrightarrow> (\<And>x. conflict_free (g x)) \<Longrightarrow> conflict_free (case v of None \<Rightarrow> n | Some x \<Rightarrow> g x)"
  "conflict_free n \<Longrightarrow> (\<And>x xs. conflict_free (h x xs)) \<Longrightarrow> conflict_free (case l of [] \<Rightarrow> n | x # xs \<Rightarrow> h x xs)"
  "conflict_free (b v') \<Longrightarrow> conflict_free (let y = v' in b y)"
  by (simp_all add: Let_def split: option.splits list.splits)

lemma app_errors_no_conflict [simp]:
  "\<not> is_write_conflict (AppEx c fs)" "\<not> is_write_conflict (app_error c)" "\<not> is_write_conflict (validation fs)"
  "\<not> is_write_conflict not_found" "\<not> is_write_conflict conflict" "\<not> is_write_conflict (MoneyEx f p)"
  "\<not> is_write_conflict (unique_violation x)"
  by (simp_all add: is_write_conflict_def exn_defs)

section \<open>What the retry guarantees\<close>

lemma write_conflict_is [simp]: "is_write_conflict write_conflict"
  by (simp add: is_write_conflict_def)

lemma retry_loop_outcome:
  assumes "k \<le> ro_attempts opts" "\<forall>s e. body s = Inl e \<longrightarrow> \<not> is_write_conflict e"
  shows "\<exists>n. k + n \<le> ro_attempts opts \<and> (\<forall>j < n. w_conflict w (k + j))
    \<and> (let r = retry_loop opts w body k e s; s' = env_between w k (Suc n) s in
       if w_conflict w (k + n)
       then k + n = ro_attempts opts \<and> rt_result r = Inl write_conflict \<and> rt_state r = s'
       else (case body s' of Inl e' \<Rightarrow> rt_result r = Inl e' \<and> rt_state r = s'
             | Inr (x, t) \<Rightarrow> rt_result r = Inr x \<and> rt_state r = t))"
  using assms
proof (induction opts w body k e s rule: retry_loop.induct)
  case (1 opts w body k e s)
  let ?s = "w_env w k s"
  note unfold = retry_loop.simps [of opts w body k e s]
  show ?case
  proof (cases "w_conflict w k")
    case False
    have "\<exists>r. retry_loop opts w body k e s = r \<and> (case body ?s of Inl e' \<Rightarrow> rt_result r = Inl e' \<and> rt_state r = ?s
             | Inr (x, t) \<Rightarrow> rt_result r = Inr x \<and> rt_state r = t)"
      using False 1(2) 1(3) by (auto simp: unfold run_attempt_def Let_def split: sum.splits)
    then show ?thesis using False 1(2) by (intro exI [of _ 0]) simp
  next
    case True
    then have att: "run_attempt w k body ?s = Inl write_conflict" by (simp add: run_attempt_def)
    show ?thesis
    proof (cases "k = ro_attempts opts")
      case last: True
      have "retry_loop opts w body k e s = \<lparr>rt_result = Inl write_conflict, rt_state = ?s, rt_waits = []\<rparr>"
        unfolding unfold using att last by (simp add: Let_def)
      then show ?thesis using True last by (intro exI [of _ 0]) (simp add: Let_def)
    next
      case False
      with 1(2) have more: "Suc k \<le> ro_attempts opts" by simp
      define r where "r = retry_loop opts w body (Suc k) write_conflict ?s"
      have loop: "retry_loop opts w body k e s = r\<lparr>rt_waits := w_jitter w k * backoff opts k # rt_waits r\<rparr>"
        using att False 1(2) by (simp add: unfold r_def Let_def)
      obtain n where "Suc k + n \<le> ro_attempts opts" "\<forall>j < n. w_conflict w (Suc k + j)"
        "(let s' = env_between w (Suc k) (Suc n) ?s in
           if w_conflict w (Suc k + n)
           then Suc k + n = ro_attempts opts \<and> rt_result r = Inl write_conflict \<and> rt_state r = s'
           else (case body s' of Inl e' \<Rightarrow> rt_result r = Inl e' \<and> rt_state r = s'
                 | Inr (x, t) \<Rightarrow> rt_result r = Inr x \<and> rt_state r = t))"
        using 1(1) [OF _ refl att _ False more 1(3)] 1(2) unfolding r_def by (auto simp: Let_def)
      then show ?thesis
        using True less_Suc_eq_0_disj by (intro exI [of _ "Suc n"]) (auto simp: loop Let_def split: sum.splits)
    qed
  qed
qed

lemma retry_once:
  assumes "1 \<le> ro_attempts opts" "conflict_free body"
  shows "\<exists>n. 1 + n \<le> ro_attempts opts \<and> (\<forall>j < n. w_conflict w (1 + j))
    \<and> (let r = with_serializable_retry opts w body s; s' = env_between w 1 (Suc n) s in
       if w_conflict w (1 + n)
       then 1 + n = ro_attempts opts \<and> rt_result r = Inl write_conflict \<and> rt_state r = s'
       else (case body s' of Inl e' \<Rightarrow> rt_result r = Inl e' \<and> rt_state r = s'
             | Inr (x, t) \<Rightarrow> rt_result r = Inr x \<and> rt_state r = t))"
  unfolding with_serializable_retry_def
  by (rule retry_loop_outcome [OF assms(1) assms(2) [unfolded conflict_free_def]])

text \<open>C28: a retried body takes effect at most once, and only write conflicts are retried. For a body
  whose own exceptions are not write conflicts, the retry stops at some attempt within the limit
  with every earlier attempt aborted by the database: either that attempt ran and the outcome and
  the final state are exactly the body's on the state it read fresh, or it was the last one
  allowed, the write conflict itself is rethrown, and the body changed nothing.\<close>

theorem retry_runs_body_once:
  assumes "1 \<le> ro_attempts opts" "conflict_free body"
  shows "\<exists>n. 1 + n \<le> ro_attempts opts \<and> (\<forall>j < n. w_conflict w (1 + j))
    \<and> (let r = with_serializable_retry opts w body s; s' = env_between w 1 (Suc n) s in
       if w_conflict w (1 + n)
       then 1 + n = ro_attempts opts \<and> rt_result r = Inl write_conflict \<and> rt_state r = s'
       else (case body s' of Inl e' \<Rightarrow> rt_result r = Inl e' \<and> rt_state r = s'
             | Inr (x, t) \<Rightarrow> rt_result r = Inr x \<and> rt_state r = t))"
  by (rule retry_once [OF assms])

definition busy_world :: "nat world" where
  "busy_world = \<lparr>w_env = (\<lambda>k s. s + 10), w_conflict = (\<lambda>k. k = 1), w_jitter = (\<lambda>_. 1 / 2)\<rparr>"

theorem retry_runs_body_once_witness:
  "rt_state (with_serializable_retry default_options busy_world (\<lambda>s. Inr ((), Suc s)) 0) = 21"
proof -
  let ?r = "with_serializable_retry default_options busy_world (\<lambda>s. Inr ((), Suc s)) 0"
  have c: "w_conflict busy_world n \<longleftrightarrow> n = 1" for n by (simp add: busy_world_def)
  obtain n where n: "n \<le> 2" "\<forall>j < n. j = 0" "0 < n"
    "rt_state ?r = Suc (env_between busy_world (Suc (Suc 0)) n (w_env busy_world (Suc 0) 0))"
    using retry_runs_body_once [of default_options "\<lambda>s. Inr ((), Suc s)" busy_world 0]
    by (auto simp: conflict_free_def c default_options_def [THEN arg_cong, of ro_attempts] Let_def split: if_splits)
  have "n = 1" using n(1,3) spec [OF n(2), of 1] by linarith
  with n(4) show ?thesis by (simp add: busy_world_def)
qed

text \<open>A value returned by a retried call was returned by its body, run on some state once.\<close>

lemma retry_loop_success:
  "rt_result (retry_loop opts w body k e s) = Inr x \<Longrightarrow>
   \<exists>s'. body s' = Inr (x, rt_state (retry_loop opts w body k e s))"
proof (induction opts w body k e s rule: retry_loop.induct)
  case (1 opts w body k e s)
  note unfold = retry_loop.simps [of opts w body k e s]
  show ?case
  proof (cases "k \<le> ro_attempts opts")
    case False
    with 1(2) show ?thesis by (simp add: unfold)
  next
    case True
    show ?thesis
    proof (cases "run_attempt w k body (w_env w k s)")
      case (Inr r)
      then show ?thesis using 1(2) True
        by (cases r) (auto simp: unfold Let_def run_attempt_def split: if_splits)
    next
      case (Inl err)
      then show ?thesis using 1 True
        by (auto simp: unfold Let_def split: if_splits)
    qed
  qed
qed

lemma retry_success:
  assumes "rt_result (with_serializable_retry opts w body s) = Inr x"
  obtains s' where "body s' = Inr (x, rt_state (with_serializable_retry opts w body s))"
  using retry_loop_success [OF assms [unfolded with_serializable_retry_def]]
  unfolding with_serializable_retry_def by (elim exE)

text \<open>
  An invariant that every other transaction keeps and the body keeps on success holds after the
  whole retried call, however it ends.
\<close>

lemma retry_keeps:
  assumes "conflict_free body" "\<And>k s. Q s \<Longrightarrow> Q (w_env w k s)"
    and "\<And>s x t. Q s \<Longrightarrow> body s = Inr (x, t) \<Longrightarrow> Q t" "Q s"
  shows "Q (rt_state (with_serializable_retry default_options w body s))"
proof -
  have env: "Q s \<Longrightarrow> Q (env_between w k n s)" for k n s
    by (induction n arbitrary: k s) (simp_all add: assms(2))
  obtain n where n: "let r = with_serializable_retry default_options w body s; s' = env_between w 1 (Suc n) s in
       if w_conflict w (1 + n)
       then 1 + n = ro_attempts default_options \<and> rt_result r = Inl write_conflict \<and> rt_state r = s'
       else (case body s' of Inl e' \<Rightarrow> rt_result r = Inl e' \<and> rt_state r = s'
             | Inr (x, t) \<Rightarrow> rt_result r = Inr x \<and> rt_state r = t)"
    using retry_once [of default_options body w s] assms(1) by (auto simp: default_options_def)
  from n env [OF assms(4), of 1 "Suc n"] assms(3) [of "env_between w 1 (Suc n) s"] show ?thesis
    by (auto simp: Let_def split: if_splits sum.splits)
qed

lemma backoff_bounds:
  assumes "0 \<le> ro_base_delay opts" "0 \<le> ro_max_delay opts"
  shows "0 \<le> backoff opts k" "backoff opts k \<le> ro_max_delay opts"
  using assms by (simp_all add: backoff_def)

lemma retry_loop_waits:
  assumes "\<And>k. 0 \<le> w_jitter w k \<and> w_jitter w k \<le> 1"
    and "0 \<le> ro_base_delay opts" "0 \<le> ro_max_delay opts" "1 \<le> k"
  shows "let ws = rt_waits (retry_loop opts w body k e s) in
      sum_list ws \<le> (\<Sum>j = k..<ro_attempts opts. backoff opts j)
      \<and> (\<forall>x \<in> set ws. 0 \<le> x \<and> x \<le> ro_max_delay opts)"
  using assms
proof (induction opts w body k e s rule: retry_loop.induct)
  case (1 opts w body k e s)
  note unfold = retry_loop.simps [of opts w body k e s]
  let ?s = "w_env w k s"
  note bb = backoff_bounds [OF 1(3,4)]
  have nonneg: "0 \<le> (\<Sum>j = k..<ro_attempts opts. backoff opts j)"
    using bb by (intro sum_nonneg) auto
  have wait: "w_jitter w k * backoff opts k \<le> backoff opts k" "0 \<le> w_jitter w k * backoff opts k"
    using 1(2) [of k] bb [of k] by (auto intro: mult_left_le_one_le)
  show ?case
  proof (cases "rt_waits (retry_loop opts w body k e s) = []")
    case True
    then show ?thesis using nonneg by (simp add: Let_def)
  next
    case False
    then obtain e' where e': "run_attempt w k body ?s = Inl e'" "is_write_conflict e'"
        "k < ro_attempts opts"
      and loop: "rt_waits (retry_loop opts w body k e s)
        = w_jitter w k * backoff opts k # rt_waits (retry_loop opts w body (Suc k) e' ?s)"
      by (auto simp: unfold Let_def split: if_splits sum.splits)
    have IH: "let ws = rt_waits (retry_loop opts w body (Suc k) e' ?s) in
      sum_list ws \<le> (\<Sum>j = Suc k..<ro_attempts opts. backoff opts j)
      \<and> (\<forall>x \<in> set ws. 0 \<le> x \<and> x \<le> ro_max_delay opts)"
      using e' 1(5) by (intro 1(1) [OF _ refl e'(1) _ _ 1(2,3,4)]) auto
    show ?thesis
      using IH wait bb(2) [of k] e'(3)
      by (auto simp: loop Let_def sum.atLeast_Suc_lessThan [of k "ro_attempts opts"])
  qed
qed

text \<open>the waits are bounded. With the default options every single wait is between zero and
  400 ms, and a call waits at most 75 ms in all, whatever the jitter.\<close>

theorem default_waits_bounded:
  assumes "\<And>k. 0 \<le> w_jitter w k \<and> w_jitter w k \<le> 1"
  shows "sum_list (rt_waits (with_serializable_retry default_options w body s)) \<le> 75
    \<and> (\<forall>x \<in> set (rt_waits (with_serializable_retry default_options w body s)). 0 \<le> x \<and> x \<le> 400)"
proof -
  have d: "1 \<le> (1::nat)" "0 \<le> ro_base_delay default_options" "0 \<le> ro_max_delay default_options"
    by (simp_all add: default_options_def)
  have "(\<Sum>j = 1..<ro_attempts default_options. backoff default_options j) = 75"
    by (simp add: default_options_def backoff_def numeral_3_eq_3)
  with retry_loop_waits [OF assms d(2,3,1), of body OtherEx s] show ?thesis
    by (auto simp: with_serializable_retry_def Let_def default_options_def)
qed

theorem default_waits_bounded_witness:
  "sum_list (rt_waits (with_serializable_retry default_options busy_world (\<lambda>s. Inr ((), Suc s)) 0)) \<le> 75"
  using default_waits_bounded [of busy_world "\<lambda>s. Inr ((), Suc s)" 0] by (simp add: busy_world_def)

end
