(* ===== verification/Wallet.thy ===== *)
theory Wallet
  imports Schema Money Retry
begin

text \<open>
  The wallet and its ledger (\<open>modules/wallet/wallet.service.ts\<close>): a movement of credit with replay
  protection, redemption of a recharge card, the administrative adjustment, the history query and
  the integrity check. Every method that moves credit is a transaction body; the two that open
  their own transaction are wrapped in the serializable retry. The clock is the argument \<open>now\<close>.
  Notes, metadata, currencies and log lines are left out.
\<close>

section \<open>Requests and entries\<close>

record ledger_request =
  lr_user :: id
  lr_amount :: money_value
  lr_type :: wallet_tx_type
  lr_source :: wallet_tx_source
  lr_code :: "id option"
  lr_reference :: "(string \<times> id) option"
  lr_admin :: "id option"
  lr_key :: "idem_key option"

record ledger_entry =
  en_id :: id
  en_wallet :: id
  en_amount :: rat
  en_before :: rat
  en_after :: rat
  en_direction :: wallet_tx_direction
  en_type :: wallet_tx_type
  en_created :: time
  en_replayed :: bool

definition entry_of_row :: "wallet_tx_row \<Rightarrow> bool \<Rightarrow> ledger_entry" where
  "entry_of_row t replayed =
     \<lparr>en_id = wt_id t, en_wallet = wt_wallet t, en_amount = to_egp_number (wt_amount t),
      en_before = to_egp_number (wt_before t), en_after = to_egp_number (wt_after t),
      en_direction = wt_direction t, en_type = wt_type t, en_created = wt_created t,
      en_replayed = replayed\<rparr>"

section \<open>Moving credit\<close>

text \<open>The upsert on the unique \<open>userId\<close>.\<close>

definition ensure_wallet :: "id \<Rightarrow> wallet_row dbtx" where
  "ensure_wallet user =
     bind_tx (get_tx (\<lambda>s. find_by w_user user (wallets s))) (\<lambda>found.
     case found of
       Some w \<Rightarrow> ret_tx w
     | None \<Rightarrow>
         bind_tx fresh_id (\<lambda>i.
         let w = \<lparr>w_id = i, w_user = user, w_balance = 0, w_recharged = 0, w_spent = 0, w_version = 0\<rparr> in
         bind_tx (modify_tx (\<lambda>s. s\<lparr>wallets := wallets s @ [w]\<rparr>)) (\<lambda>_.
         ret_tx w)))"

text \<open>The single statement that checks and moves: the updated balances it returns.\<close>

definition may_move :: "wallet_tx_direction \<Rightarrow> id \<Rightarrow> int \<Rightarrow> wallet_row \<Rightarrow> bool" where
  "may_move dir wallet p w \<longleftrightarrow> w_id w = wallet \<and> (dir = W_DEBIT \<longrightarrow> p \<le> w_balance w)"

definition moved :: "wallet_tx_direction \<Rightarrow> int \<Rightarrow> wallet_row \<Rightarrow> wallet_row" where
  "moved dir p w =
     (case dir of
        W_CREDIT \<Rightarrow> w\<lparr>w_balance := w_balance w + p, w_recharged := w_recharged w + p, w_version := Suc (w_version w)\<rparr>
      | W_DEBIT \<Rightarrow> w\<lparr>w_balance := w_balance w - p, w_spent := w_spent w + p, w_version := Suc (w_version w)\<rparr>)"

definition update_balance :: "wallet_tx_direction \<Rightarrow> id \<Rightarrow> int \<Rightarrow> int list dbtx" where
  "update_balance dir wallet p =
     bind_tx (get_tx (\<lambda>s. map (\<lambda>w. w_balance (moved dir p w)) (filter (may_move dir wallet p) (wallets s)))) (\<lambda>balances.
     bind_tx (modify_tx (\<lambda>s. s\<lparr>wallets := upd_where (may_move dir wallet p) (moved dir p) (wallets s)\<rparr>)) (\<lambda>_.
     ret_tx balances))"

definition find_replay :: "idem_key option \<Rightarrow> db \<Rightarrow> wallet_tx_row option" where
  "find_replay key s =
     (case key of None \<Rightarrow> None | Some k \<Rightarrow> List.find (\<lambda>t. wt_key t = Some k) (wallet_txs s))"

definition move_credit :: "wallet_tx_direction \<Rightarrow> ledger_request \<Rightarrow> time \<Rightarrow> ledger_entry dbtx" where
  "move_credit dir r now =
     bind_tx (lift_tx (parse_amount (lr_amount r) ''amount'')) (\<lambda>p.
     bind_tx (require_tx (0 < p) (validation [(''amount'', [''must be greater than zero''])])) (\<lambda>_.
     bind_tx (lift_tx (from_piastres p)) (\<lambda>_.
     bind_tx (get_tx (find_replay (lr_key r))) (\<lambda>existing.
     case existing of
       Some row \<Rightarrow> ret_tx (entry_of_row row True)
     | None \<Rightarrow>
         bind_tx (ensure_wallet (lr_user r)) (\<lambda>w.
         bind_tx (update_balance dir (w_id w) p) (\<lambda>balances.
         case balances of
           [] \<Rightarrow> throw_tx (app_error (if dir = W_DEBIT then INSUFFICIENT_CREDIT else SERVER_ERROR))
         | b # _ \<Rightarrow>
             bind_tx (lift_tx (to_piastres (MStr (render_piastres b)) ''balance'')) (\<lambda>after.
             let before = (if dir = W_CREDIT then after - p else after + p) in
             bind_tx (lift_tx (from_piastres before)) (\<lambda>_.
             bind_tx (lift_tx (from_piastres after)) (\<lambda>_.
             bind_tx fresh_id (\<lambda>i.
             let row = \<lparr>wt_id = i, wt_wallet = w_id w, wt_user = lr_user r, wt_type = lr_type r,
                        wt_direction = dir, wt_source = lr_source r, wt_amount = p,
                        wt_before = before, wt_after = after, wt_code = lr_code r,
                        wt_reference = lr_reference r, wt_admin = lr_admin r, wt_key = lr_key r,
                        wt_created = now\<rparr> in
             bind_tx (modify_tx (\<lambda>s. s\<lparr>wallet_txs := wallet_txs s @ [row]\<rparr>)) (\<lambda>_.
             ret_tx (entry_of_row row False))))))))))))"

definition wallet_credit :: "ledger_request \<Rightarrow> time \<Rightarrow> ledger_entry dbtx" where
  "wallet_credit r now = move_credit W_CREDIT r now"

definition wallet_debit :: "ledger_request \<Rightarrow> time \<Rightarrow> ledger_entry dbtx" where
  "wallet_debit r now = move_credit W_DEBIT r now"

record wallet_summary =
  ws_balance :: rat
  ws_recharged :: rat
  ws_spent :: rat
  ws_count :: nat

definition wallet_summary_of :: "id \<Rightarrow> wallet_summary dbtx" where
  "wallet_summary_of user =
     bind_tx (ensure_wallet user) (\<lambda>w0.
     bind_tx (get_tx (\<lambda>s. find_by w_id (w_id w0) (wallets s))) (\<lambda>row.
     bind_tx (the_or (PrismaKnown ''P2025'' []) row) (\<lambda>w.
     bind_tx (get_tx (\<lambda>s. count_where (\<lambda>t. wt_wallet t = w_id w) (wallet_txs s))) (\<lambda>n.
     ret_tx \<lparr>ws_balance = to_egp_number (w_balance w), ws_recharged = to_egp_number (w_recharged w),
             ws_spent = to_egp_number (w_spent w), ws_count = n\<rparr>))))"

section \<open>The ledger invariant\<close>

definition signed_amount :: "wallet_tx_row \<Rightarrow> int" where
  "signed_amount t = (if wt_direction t = W_CREDIT then wt_amount t else - wt_amount t)"

definition entries_of :: "id \<Rightarrow> db \<Rightarrow> wallet_tx_row list" where
  "entries_of wallet s = filter (\<lambda>t. wt_wallet t = wallet) (wallet_txs s)"

text \<open>Replaying entries from a balance: every entry starts where the previous one ended.\<close>

fun replay_ledger :: "int \<Rightarrow> wallet_tx_row list \<Rightarrow> int option" where
  "replay_ledger b [] = Some b"
| "replay_ledger b (t # ts) =
     (if wt_before t = b \<and> wt_after t = b + signed_amount t \<and> 0 < wt_amount t
         \<and> valid_piastres (wt_after t)
      then replay_ledger (wt_after t) ts else None)"

definition credited :: "id \<Rightarrow> db \<Rightarrow> int" where
  "credited wallet s = sum_where (\<lambda>t. wt_wallet t = wallet \<and> wt_direction t = W_CREDIT) wt_amount (wallet_txs s)"

definition debited :: "id \<Rightarrow> db \<Rightarrow> int" where
  "debited wallet s = sum_where (\<lambda>t. wt_wallet t = wallet \<and> wt_direction t = W_DEBIT) wt_amount (wallet_txs s)"

definition wallet_ok :: "db \<Rightarrow> wallet_row \<Rightarrow> bool" where
  "wallet_ok s w \<longleftrightarrow>
     w_id w < db_next s \<and> replay_ledger 0 (entries_of (w_id w) s) = Some (w_balance w)
     \<and> w_recharged w = credited (w_id w) s \<and> w_spent w = debited (w_id w) s"

definition keyed :: "wallet_tx_row list \<Rightarrow> idem_key option list" where
  "keyed ts = filter (\<lambda>k. k \<noteq> None) (map wt_key ts)"

definition ledger_inv :: "db \<Rightarrow> bool" where
  "ledger_inv s \<longleftrightarrow>
     unique_on w_id (wallets s) \<and> unique_on w_user (wallets s)
     \<and> (\<forall>w \<in> set (wallets s). wallet_ok s w)
     \<and> (\<forall>t \<in> set (wallet_txs s). \<exists>w \<in> set (wallets s). w_id w = wt_wallet t \<and> w_user w = wt_user t)
     \<and> distinct (keyed (wallet_txs s))"

lemma replay_append: "replay_ledger b (xs @ ys) = Option.bind (replay_ledger b xs) (\<lambda>c. replay_ledger c ys)"
  by (induction b xs rule: replay_ledger.induct) auto

lemma replay_valid: "replay_ledger b ts = Some c \<Longrightarrow> valid_piastres b \<Longrightarrow> valid_piastres c"
  by (induction b ts rule: replay_ledger.induct) (auto split: if_splits)

lemma replay_sum:
  "replay_ledger b ts = Some c \<Longrightarrow>
   c = b + sum_where (\<lambda>t. wt_direction t = W_CREDIT) wt_amount ts
         - sum_where (\<lambda>t. wt_direction t = W_DEBIT) wt_amount ts"
proof (induction b ts rule: replay_ledger.induct)
  case (2 b t ts)
  then show ?case by (cases "wt_direction t") (auto simp: signed_amount_def split: if_splits)
qed simp

lemma sum_entries_of:
  "sum_where p wt_amount (entries_of i s) = sum_where (\<lambda>t. wt_wallet t = i \<and> p t) wt_amount (wallet_txs s)"
  by (simp add: entries_of_def sum_where_def conj_commute)

lemma wallet_ok_balance:
  "wallet_ok s w \<Longrightarrow> valid_piastres (w_balance w) \<and> w_balance w = credited (w_id w) s - debited (w_id w) s"
  using replay_valid [of 0 "entries_of (w_id w) s"] replay_sum [of 0 "entries_of (w_id w) s"]
  by (simp add: wallet_ok_def credited_def debited_def sum_entries_of max_piastres_def max_money_egp_def)

lemma ledger_inv_empty: "wallets s = [] \<Longrightarrow> wallet_txs s = [] \<Longrightarrow> ledger_inv s"
  by (simp add: ledger_inv_def keyed_def)

text \<open>An operation on other tables keeps the ledger.\<close>

lemma ledger_inv_frame:
  "ledger_inv s \<Longrightarrow> wallets t = wallets s \<Longrightarrow> wallet_txs t = wallet_txs s \<Longrightarrow> db_next s \<le> db_next t \<Longrightarrow>
   ledger_inv t"
  by (auto simp: ledger_inv_def wallet_ok_def entries_of_def credited_def debited_def)

section \<open>Every movement keeps the ledger\<close>

lemma moved_simps [simp]:
  "w_id (moved dir p w) = w_id w" "w_user (moved dir p w) = w_user w"
  "w_balance (moved dir p w) = (if dir = W_CREDIT then w_balance w + p else w_balance w - p)"
  "w_recharged (moved dir p w) = (if dir = W_CREDIT then w_recharged w + p else w_recharged w)"
  "w_spent (moved dir p w) = (if dir = W_DEBIT then w_spent w + p else w_spent w)"
  by (cases dir; simp add: moved_def)+

interpretation by_id: keyed_update w_id "moved dir p"
  by unfold_locales simp

interpretation by_user: keyed_update w_user "moved dir p"
  by unfold_locales simp

lemma ensure_wallet_Inr:
  assumes "ensure_wallet u s = Inr (w, t)"
  obtains (found) "find_by w_user u (wallets s) = Some w" "t = s"
    | (created) "find_by w_user u (wallets s) = None"
      "w = \<lparr>w_id = db_next s, w_user = u, w_balance = 0, w_recharged = 0, w_spent = 0, w_version = 0\<rparr>"
      "t = s\<lparr>wallets := wallets s @ [w], db_next := Suc (db_next s)\<rparr>"
  using assms by (auto simp: ensure_wallet_def Let_def split: option.splits)

lemma ensure_wallet_props:
  assumes "ensure_wallet u s = Inr (w, t)"
  shows "w \<in> set (wallets t)" "w_user w = u" "wallet_txs t = wallet_txs s" "db_next s \<le> db_next t"
    "\<exists>ws n. t = s\<lparr>wallets := ws, db_next := n\<rparr>"
proof -
  show "w \<in> set (wallets t)" "w_user w = u" "wallet_txs t = wallet_txs s" "db_next s \<le> db_next t"
    using assms by (cases rule: ensure_wallet_Inr; auto dest: find_by_Some)+
  show "\<exists>ws n. t = s\<lparr>wallets := ws, db_next := n\<rparr>"
    using assms
    by (cases rule: ensure_wallet_Inr) (rule exI [of _ "wallets t"], rule exI [of _ "db_next t"], simp)+
qed

lemma ensure_wallet_inv:
  assumes "ensure_wallet u s = Inr (w, t)" "ledger_inv s"
  shows "ledger_inv t"
  using assms(1)
proof (cases rule: ensure_wallet_Inr)
  case created
  have new: "u \<notin> w_user ` set (wallets s)" using created(1) by (auto simp: find_by_None_iff)
  have old: "w_id v < db_next s" if "v \<in> set (wallets s)" for v
    using assms(2) that by (auto simp: ledger_inv_def wallet_ok_def)
  have no: "wt_wallet x \<noteq> db_next s" if "x \<in> set (wallet_txs s)" for x
    using assms(2) that old by (fastforce simp: ledger_inv_def)
  have ok: "wallet_ok t v" if "v \<in> set (wallets s)" for v
    using assms(2) that unfolding created
    by (auto simp: ledger_inv_def wallet_ok_def entries_of_def credited_def debited_def)
  have "entries_of (db_next s) t = []" "credited (db_next s) t = 0" "debited (db_next s) t = 0"
    using no unfolding created
    by (auto simp: entries_of_def credited_def debited_def sum_where_def filter_empty_conv)
  then have "wallet_ok t w" by (simp add: wallet_ok_def created)
  with ok new old assms(2) show ?thesis
    unfolding created by (fastforce simp: ledger_inv_def table_simps)
qed (use assms in simp)

text \<open>The state after a movement: one wallet row updated, one entry appended.\<close>

definition after_move :: "wallet_tx_direction \<Rightarrow> wallet_row \<Rightarrow> wallet_tx_row \<Rightarrow> db \<Rightarrow> db" where
  "after_move dir w row s =
     s\<lparr>wallets := upd_where (may_move dir (w_id w) (wt_amount row)) (moved dir (wt_amount row)) (wallets s),
       db_next := Suc (db_next s), wallet_txs := wallet_txs s @ [row]\<rparr>"

lemma upd_may_move:
  assumes "unique_on w_id (wallets s)" "w \<in> set (wallets s)" "may_move dir (w_id w) p w"
  shows "upd_where (may_move dir (w_id w) p) (moved dir p) (wallets s)
    = map (\<lambda>v. if v = w then moved dir p v else v) (wallets s)"
    and "filter (may_move dir (w_id w) p) (wallets s) = [w]"
proof -
  have *: "may_move dir (w_id w) p v \<longleftrightarrow> v = w" if "v \<in> set (wallets s)" for v
    using unique_onD [OF assms(1) that assms(2)] assms(3) by (auto simp: may_move_def)
  show "upd_where (may_move dir (w_id w) p) (moved dir p) (wallets s)
    = map (\<lambda>v. if v = w then moved dir p v else v) (wallets s)"
    using * by (auto simp: upd_where_def)
  have "filter (may_move dir (w_id w) p) (wallets s) = filter (\<lambda>v. v = w) (wallets s)"
    using * by (intro filter_cong) auto
  also have "\<dots> = [w]"
    using assms(1,2) by (intro filter_eq_single) (auto simp: unique_on_def distinct_map)
  finally show "filter (may_move dir (w_id w) p) (wallets s) = [w]" .
qed

lemma after_move_inv:
  assumes inv: "ledger_inv s" and w: "w \<in> set (wallets s)"
    and row: "wt_wallet row = w_id w" "wt_user row = w_user w" "0 < wt_amount row"
      "wt_before row = w_balance w" "wt_after row = w_balance w + signed_amount row" "valid_piastres (wt_after row)"
    and key: "wt_key row = None \<or> wt_key row \<notin> set (map wt_key (wallet_txs s))"
    and may: "may_move (wt_direction row) (w_id w) (wt_amount row) w"
  shows "ledger_inv (after_move (wt_direction row) w row s)"
proof -
  let ?t = "after_move (wt_direction row) w row s"
  let ?w = "moved (wt_direction row) (wt_amount row) w"
  have u: "unique_on w_id (wallets s)" "unique_on w_user (wallets s)"
    using inv by (simp_all add: ledger_inv_def)
  have ws: "wallets ?t = map (\<lambda>v. if v = w then ?w else v) (wallets s)"
    using upd_may_move(1) [OF u(1) w may] by (simp add: after_move_def)
  have bal: "w_balance ?w = wt_after row" using row by (simp add: signed_amount_def)
  have ok: "wallet_ok s v" if "v \<in> set (wallets s)" for v using inv that by (simp add: ledger_inv_def)
  have same: "wallet_ok ?t v" if "v \<in> set (wallets s)" "v \<noteq> w" for v
  proof -
    have "w_id v \<noteq> wt_wallet row" using unique_onD [OF u(1) that(1) w] that(2) row(1) by auto
    with ok [OF that(1)] show ?thesis
      by (auto simp: wallet_ok_def after_move_def entries_of_def credited_def debited_def table_simps)
  qed
  have "wallet_ok ?t ?w"
    using ok [OF w] row bal
    by (auto simp: wallet_ok_def after_move_def entries_of_def credited_def debited_def table_simps
        replay_append)
  with same have "\<forall>v \<in> set (wallets ?t). wallet_ok ?t v" by (auto simp: ws)
  moreover have "unique_on w_id (wallets ?t)" "unique_on w_user (wallets ?t)"
    using u by (simp_all add: after_move_def)
  moreover have "\<exists>v \<in> set (wallets ?t). w_id v = wt_wallet x \<and> w_user v = wt_user x"
    if "x \<in> set (wallet_txs ?t)" for x
  proof -
    from that inv row w obtain v where "v \<in> set (wallets s)" "w_id v = wt_wallet x" "w_user v = wt_user x"
      by (auto simp: after_move_def ledger_inv_def)
    then show ?thesis by (intro bexI [of _ "if v = w then ?w else v"]) (auto simp: ws)
  qed
  moreover have "distinct (keyed (wallet_txs ?t))"
    using inv key by (auto simp: ledger_inv_def keyed_def after_move_def)
  ultimately show ?thesis by (auto simp: ledger_inv_def)
qed

definition balance_of :: "id \<Rightarrow> db \<Rightarrow> int" where
  "balance_of user s = (case find_by w_user user (wallets s) of None \<Rightarrow> 0 | Some w \<Rightarrow> w_balance w)"

lemma balance_of_valid: "ledger_inv s \<Longrightarrow> valid_piastres (balance_of u s)"
  using wallet_ok_balance
  by (auto simp: balance_of_def ledger_inv_def max_piastres_def max_money_egp_def split: option.splits
      dest!: find_by_Some)

lemma ensure_wallet_total: "\<exists>w t. ensure_wallet u s = Inr (w, t)"
  by (cases "find_by w_user u (wallets s)") (simp_all add: ensure_wallet_def Let_def)

lemma ensure_wallet_balance:
  assumes "ensure_wallet u s = Inr (w, t)"
  shows "w_balance w = balance_of u s" "balance_of v t = balance_of v s"
  using assms by (cases rule: ensure_wallet_Inr; auto simp: balance_of_def table_simps split: option.splits)+

text \<open>What \<open>move_credit\<close> does once the amount is accepted and the key is new.\<close>

lemma render_negative: "p < 0 \<Longrightarrow> \<not> is_amount_text (render_piastres p)"
  by (simp add: render_piastres_def is_amount_text_def whole_part_def is_digit_def)

lemma read_rendered: "to_piastres (MStr (render_piastres b)) f = Inr q \<longleftrightarrow> q = b \<and> valid_piastres b"
proof (cases "valid_piastres b")
  case True
  then show ?thesis using text_codec.parse_render [of b f] by auto
next
  case False
  have t: "amount_text (MStr (render_piastres b)) = render_piastres b"
    by (simp add: amount_text_def js_trim_digits render_no_ws)
  show ?thesis
  proof (cases "b < 0")
    case True
    then show ?thesis by (simp add: to_piastres_def t render_negative)
  next
    case nonneg: False
    then have "amount_of_text (render_piastres b) = b" by (intro render_accepted) simp
    with False nonneg show ?thesis by (auto simp: to_piastres_def t Let_def)
  qed
qed

definition ledger_row :: "wallet_tx_direction \<Rightarrow> ledger_request \<Rightarrow> time \<Rightarrow> int \<Rightarrow> wallet_row \<Rightarrow> id \<Rightarrow> wallet_tx_row" where
  "ledger_row dir r now p w i =
     \<lparr>wt_id = i, wt_wallet = w_id w, wt_user = lr_user r, wt_type = lr_type r, wt_direction = dir,
      wt_source = lr_source r, wt_amount = p, wt_before = w_balance w,
      wt_after = w_balance w + (if dir = W_CREDIT then p else - p), wt_code = lr_code r,
      wt_reference = lr_reference r, wt_admin = lr_admin r, wt_key = lr_key r, wt_created = now\<rparr>"

lemma move_credit_fresh:
  assumes inv: "ledger_inv s" and p: "parse_amount (lr_amount r) ''amount'' = Inr p" "0 < p"
    and new: "find_replay (lr_key r) s = None" and w: "ensure_wallet (lr_user r) s = Inr (w, s1)"
  shows "move_credit dir r now s =
    (if dir = W_DEBIT \<and> w_balance w < p then Inl (app_error INSUFFICIENT_CREDIT)
     else if dir = W_CREDIT \<and> max_piastres < w_balance w + p
     then Inl (MoneyEx ''balance'' ''must not exceed 1000000'')
     else Inr (entry_of_row (ledger_row dir r now p w (db_next s1)) False,
               after_move dir w (ledger_row dir r now p w (db_next s1)) s1))"
proof -
  have inv1: "ledger_inv s1" by (rule ensure_wallet_inv [OF w inv])
  then have u: "unique_on w_id (wallets s1)" by (simp add: ledger_inv_def)
  note wp = ensure_wallet_props [OF w]
  have bal: "valid_piastres (w_balance w)"
    using inv1 wp(1) wallet_ok_balance by (auto simp: ledger_inv_def)
  have pb: "p \<le> max_piastres" using parse_amount_bounds [OF p(1)] by simp
  have fp: "from_piastres p = Inr (render_piastres p)"
    using p(2) pb max_piastres_safe [of p] by (simp add: from_piastres_def)
  have fb: "from_piastres b = Inr (render_piastres b)" if "valid_piastres b" for b
    using that max_piastres_safe [of b] by (simp add: from_piastres_def)
  note start = move_credit_def bind_tx_step [where m = "ensure_wallet (lr_user r)", OF w] p(1) p(2) fp new
  show ?thesis
  proof (cases "may_move dir (w_id w) p w")
    case False
    then have "dir = W_DEBIT" "w_balance w < p" by (auto simp: may_move_def)
    moreover have "filter (may_move dir (w_id w) p) (wallets s1) = []"
      using False unique_onD [OF u _ wp(1)] by (auto simp: filter_empty_conv may_move_def)
    ultimately show ?thesis by (simp add: start update_balance_def)
  next
    case True
    then have nd: "\<not> (dir = W_DEBIT \<and> w_balance w < p)" by (auto simp: may_move_def)
    have f: "filter (may_move dir (w_id w) p) (wallets s1) = [w]"
      by (rule upd_may_move(2) [OF u wp(1) True])
    let ?b = "if dir = W_CREDIT then w_balance w + p else w_balance w - p"
    show ?thesis
    proof (cases "valid_piastres ?b")
      case valid: True
      then have "to_piastres (MStr (render_piastres ?b)) ''balance'' = Inr ?b" by (simp add: read_rendered)
      with valid show ?thesis
        using nd f bal fb [of "w_balance w"] fb [OF valid]
        by (cases dir) (simp_all add: start update_balance_def Let_def ledger_row_def after_move_def)
    next
      case over: False
      with nd bal p(2) have c: "dir = W_CREDIT" "max_piastres < w_balance w + p"
        by (cases dir; auto)+
      have "to_piastres (MStr (render_piastres (w_balance w + p))) ''balance''
          = Inl (MoneyEx ''balance'' ''must not exceed 1000000'')"
        using render_accepted [of "w_balance w + p"] c(2) bal p(2)
        by (simp add: to_piastres_def amount_text_def js_trim_digits render_no_ws Let_def)
      with c f show ?thesis by (simp add: start update_balance_def Let_def)
    qed
  qed
qed

lemma move_credit_Inr:
  assumes "move_credit dir r now s = Inr (e, t)" "ledger_inv s"
  obtains (replayed) row where "find_replay (lr_key r) s = Some row" "t = s" "e = entry_of_row row True"
    | (moved) p w s1 where "parse_amount (lr_amount r) ''amount'' = Inr p" "0 < p"
      "find_replay (lr_key r) s = None" "ensure_wallet (lr_user r) s = Inr (w, s1)"
      "dir = W_DEBIT \<longrightarrow> p \<le> w_balance w" "dir = W_CREDIT \<longrightarrow> w_balance w + p \<le> max_piastres"
      "t = after_move dir w (ledger_row dir r now p w (db_next s1)) s1"
      "e = entry_of_row (ledger_row dir r now p w (db_next s1)) False"
proof (cases "find_replay (lr_key r) s")
  case (Some row)
  with assms(1) show ?thesis
    by (intro replayed) (auto simp: move_credit_def result_simps)
next
  case None
  from assms(1) obtain p where p: "parse_amount (lr_amount r) ''amount'' = Inr p" "0 < p"
    unfolding move_credit_def by (auto simp: result_simps)
  obtain w s1 where w: "ensure_wallet (lr_user r) s = Inr (w, s1)" using ensure_wallet_total by blast
  show ?thesis
    using assms(1) unfolding move_credit_fresh [OF assms(2) p None w]
    by (intro moved [OF p None w]) (auto split: if_splits)
qed

lemma find_replay_None: "find_replay k s = None \<longleftrightarrow> k = None \<or> k \<notin> set (map wt_key (wallet_txs s))"
proof (cases k)
  case (Some i)
  have "find_replay k s = None \<longleftrightarrow> (\<forall>t \<in> set (wallet_txs s). wt_key t \<noteq> k)"
    by (simp add: Some find_replay_def find_None_iff)
  with Some show ?thesis by (force simp: image_iff)
qed (simp add: find_replay_def)

lemma move_credit_inv:
  assumes "move_credit dir r now s = Inr (e, t)" "ledger_inv s"
  shows "ledger_inv t"
  using assms
proof (cases rule: move_credit_Inr)
  case (moved p w s1)
  let ?row = "ledger_row dir r now p w (db_next s1)"
  have inv1: "ledger_inv s1" by (rule ensure_wallet_inv [OF moved(4) assms(2)])
  note wp = ensure_wallet_props [OF moved(4)]
  have "valid_piastres (w_balance w)"
    using inv1 wp(1) wallet_ok_balance by (auto simp: ledger_inv_def)
  then have "ledger_inv (after_move (wt_direction ?row) w ?row s1)"
    using moved wp find_replay_None [of "lr_key r" s]
    by (intro after_move_inv [OF inv1]) (cases dir; auto simp: ledger_row_def signed_amount_def may_move_def)+
  then show ?thesis by (simp add: moved ledger_row_def)
qed (use assms(2) in simp)

lemma move_credit_frame:
  assumes "move_credit dir r now s = Inr (e, t)" "ledger_inv s"
  shows "\<exists>ws ts n. t = s\<lparr>wallets := ws, wallet_txs := ts, db_next := n\<rparr> \<and> db_next s \<le> n"
  using assms
proof (cases rule: move_credit_Inr)
  case replayed
  then show ?thesis
    by (intro exI [of _ "wallets s"] exI [of _ "wallet_txs s"] exI [of _ "db_next s"]) simp
next
  case (moved p w s1)
  from ensure_wallet_props(3,4,5) [OF moved(4)] obtain ws n where
    s1: "s1 = s\<lparr>wallets := ws, db_next := n\<rparr>" "db_next s \<le> n" by force
  then have "t = s\<lparr>wallets := wallets t, wallet_txs := wallet_txs t, db_next := db_next t\<rparr>"
      "db_next s \<le> db_next t"
    by (simp_all add: moved(7) after_move_def)
  then show ?thesis by blast
qed

lemma after_move_balance:
  assumes "unique_on w_id (wallets s)" "unique_on w_user (wallets s)" "w \<in> set (wallets s)"
    and "may_move dir (w_id w) (wt_amount row) w"
  shows "balance_of v (after_move dir w row s)
    = (if v = w_user w then w_balance (moved dir (wt_amount row) w) else balance_of v s)"
proof (cases "find_by w_user v (wallets s)")
  case None
  then have "v \<noteq> w_user w" using assms(3) by (auto simp: find_by_None_iff)
  with None show ?thesis by (simp add: balance_of_def after_move_def by_user.find_upd)
next
  case (Some x)
  then have x: "x \<in> set (wallets s)" "w_user x = v" by (auto dest: find_by_Some)
  have "may_move dir (w_id w) (wt_amount row) x \<longleftrightarrow> x = w"
    using unique_onD [OF assms(1) x(1) assms(3)] assms(4) by (auto simp: may_move_def)
  moreover have "v = w_user w \<longleftrightarrow> x = w" using unique_onD [OF assms(2) x(1) assms(3)] x(2) by auto
  ultimately show ?thesis
    using Some by (simp add: balance_of_def after_move_def by_user.find_upd)
qed

lemma move_credit_balance:
  assumes "move_credit dir r now s = Inr (e, t)" "ledger_inv s" "find_replay (lr_key r) s = None"
    and "parse_amount (lr_amount r) ''amount'' = Inr p"
  shows "balance_of v t = (if v = lr_user r then balance_of v s + (if dir = W_CREDIT then p else - p)
    else balance_of v s)"
  using assms(1,2)
proof (cases rule: move_credit_Inr)
  case (moved q w s1)
  then have "q = p" using assms(4) by simp
  have inv1: "ledger_inv s1" by (rule ensure_wallet_inv [OF moved(4) assms(2)])
  note wp = ensure_wallet_props [OF moved(4)] and wb = ensure_wallet_balance [OF moved(4)]
  have "may_move dir (w_id w) (wt_amount (ledger_row dir r now p w (db_next s1))) w"
    using moved \<open>q = p\<close> by (auto simp: may_move_def ledger_row_def)
  then show ?thesis
    using inv1 wp wb \<open>q = p\<close>
    by (cases dir) (simp_all add: moved(7) after_move_balance ledger_inv_def ledger_row_def)
qed (use assms in simp)

section \<open>Interface: a ledger provider\<close>

text \<open>
  What a purchase relies on: a debit keeps the invariant, touches nothing but the ledger's own
  tables, pays exactly the amount, and balances are never negative. A client body that follows
  the debit and leaves the ledger's view alone then costs the user exactly the amount.
\<close>

locale ledger_provider =
  fixes debit :: "ledger_request \<Rightarrow> time \<Rightarrow> ledger_entry dbtx"
    and inv :: "db \<Rightarrow> bool"
    and balance :: "id \<Rightarrow> db \<Rightarrow> int"
    and used :: "idem_key \<Rightarrow> db \<Rightarrow> bool"
  assumes debit_inv: "debit r now s = Inr (e, t) \<Longrightarrow> inv s \<Longrightarrow> inv t"
    and debit_pays: "debit r now s = Inr (e, t) \<Longrightarrow> inv s \<Longrightarrow> lr_key r = Some k \<Longrightarrow> \<not> used k s \<Longrightarrow>
        lr_amount r = MStr (render_piastres p) \<Longrightarrow>
        balance v t = (if v = lr_user r then balance v s - p else balance v s)"
    and debit_uses: "debit r now s = Inr (e, t) \<Longrightarrow> inv s \<Longrightarrow> lr_key r = Some k \<Longrightarrow> used k t"
    and balance_nonneg: "inv s \<Longrightarrow> 0 \<le> balance v s"
begin

lemma spend_then:
  assumes "bind_tx (debit r now) k s = Inr (x, t)" "inv s" "lr_key r = Some i" "\<not> used i s"
    and "lr_amount r = MStr (render_piastres p)"
    and "\<And>e s' y t'. k e s' = Inr (y, t') \<Longrightarrow> inv s' \<Longrightarrow>
           inv t' \<and> (\<forall>v. balance v t' = balance v s') \<and> (used i s' \<longrightarrow> used i t')"
  shows "inv t \<and> (\<forall>v. balance v t = (if v = lr_user r then balance v s - p else balance v s))
    \<and> used i t \<and> p \<le> balance (lr_user r) s"
proof -
  obtain e s' where d: "debit r now s = Inr (e, s')" and k: "k e s' = Inr (x, t)"
    using assms(1) by (auto simp: bind_tx_Inr_iff)
  have i: "inv s'" by (rule debit_inv [OF d assms(2)])
  note client = assms(6) [OF k i] and pays = debit_pays [OF d assms(2,3,4,5)]
  show ?thesis
    using client pays debit_uses [OF d assms(2,3)] balance_nonneg [OF i, of "lr_user r"] by simp
qed

end

definition key_used :: "idem_key \<Rightarrow> db \<Rightarrow> bool" where
  "key_used k s \<longleftrightarrow> Some k \<in> set (map wt_key (wallet_txs s))"

interpretation wallet: ledger_provider wallet_debit ledger_inv balance_of key_used
proof
  fix r now s e t k p v
  assume d: "wallet_debit r now s = Inr (e, t)" and i: "ledger_inv s"
  then show "ledger_inv t" unfolding wallet_debit_def by (rule move_credit_inv)
  assume k: "lr_key r = Some k"
  show "key_used k t"
    using d i unfolding wallet_debit_def
  proof (cases rule: move_credit_Inr)
    case (replayed row)
    then show ?thesis using k by (auto simp: find_replay_def key_used_def dest!: find_Some intro!: rev_image_eqI)
  next
    case (moved p w s1)
    then show ?thesis using k by (simp add: key_used_def after_move_def ledger_row_def)
  qed
  assume n: "\<not> key_used k s" and a: "lr_amount r = MStr (render_piastres p)"
  have f: "find_replay (lr_key r) s = None" using n k by (simp add: find_replay_None key_used_def)
  obtain q where q: "parse_amount (lr_amount r) ''amount'' = Inr q"
    using d by (auto simp: wallet_debit_def move_credit_def result_simps)
  then have "q = p" by (simp add: a parse_amount_def result_simps read_rendered)
  then show "balance_of v t = (if v = lr_user r then balance_of v s - p else balance_of v s)"
    using move_credit_balance [OF d [unfolded wallet_debit_def] i f q, of v] by simp
qed (simp add: balance_of_valid)

section \<open>Redeeming a recharge card\<close>

text \<open>
  Codes are normalized before the lookup. Upper-casing is that of ASCII letters, the only letters
  of the code alphabet.
\<close>

definition to_upper :: "char \<Rightarrow> char" where
  "to_upper c = (if 97 \<le> (of_char c :: nat) \<and> (of_char c :: nat) \<le> 122 then char_of ((of_char c :: nat) - 32) else c)"

definition normalize_code :: "string \<Rightarrow> string" where
  "normalize_code raw = filter (\<lambda>c. \<not> is_ws c) (map to_upper (js_trim raw))"

definition find_redemption :: "id \<Rightarrow> id \<Rightarrow> db \<Rightarrow> redemption_row option" where
  "find_redemption code user s = List.find (\<lambda>r. rd_code r = code \<and> rd_user r = user) (redemptions s)"

text \<open>The row's unique indexes are \<open>(codeId, userId)\<close> and \<open>walletTransactionId\<close>.\<close>

definition create_redemption :: "redemption_row \<Rightarrow> unit dbtx" where
  "create_redemption r =
     bind_tx (get_tx (find_redemption (rd_code r) (rd_user r))) (\<lambda>dup.
     bind_tx (require_tx (dup = None) (unique_violation ''codeId'')) (\<lambda>_.
     bind_tx (get_tx (\<lambda>s. rd_wallet_tx r \<noteq> None \<and> rd_wallet_tx r \<in> set (map rd_wallet_tx (redemptions s)))) (\<lambda>clash.
     bind_tx (require_tx (\<not> clash) (unique_violation ''walletTransactionId'')) (\<lambda>_.
     modify_tx (\<lambda>s. s\<lparr>redemptions := redemptions s @ [r]\<rparr>)))))"

definition use_code :: "id \<Rightarrow> id \<Rightarrow> time \<Rightarrow> code_row \<Rightarrow> unit dbtx" where
  "use_code i user now code =
     modify_tx (\<lambda>s. s\<lparr>codes := upd_where (\<lambda>k. k_id k = i)
       (\<lambda>k. k\<lparr>k_count := Suc (k_count code),
             k_status := (if k_max code \<le> Suc (k_count code) then KS_EXHAUSTED else k_status code),
             k_redeemed_at := Some now, k_redeemed_by := Some user\<rparr>) (codes s)\<rparr>)"

definition create_recharge_revenue :: "recharge_row \<Rightarrow> unit dbtx" where
  "create_recharge_revenue r =
     bind_tx (get_tx (\<lambda>s. rr_code r \<in> set (map rr_code (recharges s)))) (\<lambda>dup.
     bind_tx (require_tx (\<not> dup) (unique_violation ''accessCodeId'')) (\<lambda>_.
     modify_tx (\<lambda>s. s\<lparr>recharges := recharges s @ [r]\<rparr>)))"

record recharge_outcome =
  rx_code :: id
  rx_credited :: rat
  rx_balance :: rat
  rx_transaction :: "id option"

definition invalid_code :: exn where
  "invalid_code = app_error INVALID_CODE"

text \<open>The checks on the card, in the order the code makes them.\<close>

definition check_recharge_card :: "code_row \<Rightarrow> id \<Rightarrow> time \<Rightarrow> unit dbtx" where
  "check_recharge_card code user now =
     bind_tx (require_tx (k_kind code = K_RECHARGE) (app_error CODE_NOT_RECHARGEABLE)) (\<lambda>_.
     bind_tx (require_tx (k_status code \<noteq> KS_REVOKED) invalid_code) (\<lambda>_.
     bind_tx (require_tx (k_status code \<noteq> KS_EXPIRED) invalid_code) (\<lambda>_.
     bind_tx (require_tx (case k_expires code of None \<Rightarrow> True | Some t \<Rightarrow> now < t) invalid_code) (\<lambda>_.
     bind_tx (require_tx (case k_reserved_for code of None \<Rightarrow> True | Some u \<Rightarrow> u = user) invalid_code) (\<lambda>_.
     bind_tx (require_tx (k_count code < k_max code) (app_error CODE_ALREADY_USED)) (\<lambda>_.
     bind_tx (get_tx (find_redemption (k_id code) user)) (\<lambda>already.
     bind_tx (require_tx (already = None) (app_error CODE_ALREADY_USED)) (\<lambda>_.
     require_tx (k_credit code \<noteq> None \<and> k_actual_paid code \<noteq> None \<and> k_face code \<noteq> None) invalid_code))))))))"

definition recharge_request :: "code_row \<Rightarrow> id \<Rightarrow> ledger_request" where
  "recharge_request code user =
     \<lparr>lr_user = user, lr_amount = MStr (decimal_text (the (k_credit code))),
      lr_type = WT_CREDIT_RECHARGE, lr_source = WS_PAYMENT_CODE, lr_code = Some (k_id code),
      lr_reference = Some (''ACCESS_CODE'', k_id code), lr_admin = None,
      lr_key = Some (RechargeKey (k_id code) user)\<rparr>"

text \<open>A card whose amounts are there but unreadable is refused as an invalid code.\<close>

definition card_credit :: "code_row \<Rightarrow> exn + int" where
  "card_credit code =
     (case read_column (the (k_credit code)) ''creditAmount'' of
        Inl _ \<Rightarrow> Inl invalid_code | Inr p \<Rightarrow> Inr p)"

text \<open>A fully discounted card credits nothing, so it has no ledger entry.\<close>

definition credit_card_amount :: "code_row \<Rightarrow> id \<Rightarrow> time \<Rightarrow> int \<Rightarrow> id option dbtx" where
  "credit_card_amount code user now credit =
     (if 0 < credit
      then bind_tx (wallet_credit (recharge_request code user) now) (\<lambda>e. ret_tx (Some (en_id e)))
      else ret_tx None)"

definition recharge_redemption :: "code_row \<Rightarrow> id \<Rightarrow> time \<Rightarrow> id option \<Rightarrow> redemption_row" where
  "recharge_redemption code user now entry =
     \<lparr>rd_code = k_id code, rd_user = user, rd_enrollment = None, rd_course = None, rd_at = now,
      rd_wallet_tx = entry, rd_credited = k_credit code\<rparr>"

definition recharge_revenue :: "code_row \<Rightarrow> id \<Rightarrow> time \<Rightarrow> recharge_row" where
  "recharge_revenue code user now =
     \<lparr>rr_code = k_id code, rr_batch = k_batch code, rr_user = user, rr_face = the (k_face code),
      rr_discount = (case k_discount code of None \<Rightarrow> 0 | Some d \<Rightarrow> d),
      rr_actual_paid = the (k_actual_paid code), rr_credit = the (k_credit code),
      rr_discount_type = k_discount_type code, rr_discount_percent = k_discount_percent code,
      rr_code_text = k_text code, rr_recognized = now\<rparr>"

definition redeem_recharge_body :: "string \<Rightarrow> id \<Rightarrow> time \<Rightarrow> recharge_outcome dbtx" where
  "redeem_recharge_body raw user now =
     bind_tx (get_tx (\<lambda>s. find_by k_text (normalize_code raw) (codes s))) (\<lambda>found.
     bind_tx (the_or invalid_code found) (\<lambda>code.
     bind_tx (check_recharge_card code user now) (\<lambda>_.
     bind_tx (lift_tx (card_credit code)) (\<lambda>credit.
     bind_tx (credit_card_amount code user now credit) (\<lambda>entry.
     bind_tx (create_redemption (recharge_redemption code user now entry)) (\<lambda>_.
     bind_tx (use_code (k_id code) user now code) (\<lambda>_.
     bind_tx (create_recharge_revenue (recharge_revenue code user now)) (\<lambda>_.
     bind_tx (get_tx (\<lambda>s. find_by w_user user (wallets s))) (\<lambda>wallet.
     bind_tx (the_or (PrismaKnown ''P2025'' []) wallet) (\<lambda>w.
     ret_tx \<lparr>rx_code = k_id code, rx_credited = to_egp_number (the (k_credit code)),
             rx_balance = to_egp_number (w_balance w), rx_transaction = entry\<rparr>))))))))))"

text \<open>
  The endpoint: the retried transaction, then the audit record outside it. \<open>audit_with\<close> appends
  a record after a success.
\<close>

definition audit_with :: "audit_row \<Rightarrow> db \<Rightarrow> db" where
  "audit_with row s = s\<lparr>audit := audit s @ [row]\<rparr>"

definition redeem_recharge_code ::
  "db world \<Rightarrow> string \<Rightarrow> id \<Rightarrow> time \<Rightarrow> db \<Rightarrow> (exn + recharge_outcome) \<times> db" where
  "redeem_recharge_code w raw user now s =
     (let r = with_serializable_retry default_options w (redeem_recharge_body raw user now) s in
      case rt_result r of
        Inl e \<Rightarrow> (Inl e, rt_state r)
      | Inr o1 \<Rightarrow>
          (Inr o1, audit_with \<lparr>au_actor = Some user, au_action = ''CODE_REDEEM'',
             au_entity = ''wallet_recharge'', au_entity_id = rx_code o1, au_note = []\<rparr> (rt_state r)))"

section \<open>Administrative adjustment\<close>

definition adjust_request :: "id \<Rightarrow> money_value \<Rightarrow> id \<Rightarrow> ledger_request" where
  "adjust_request user amount actor =
     \<lparr>lr_user = user, lr_amount = amount, lr_type = WT_ADMIN_ADJUSTMENT, lr_source = WS_ADMIN,
      lr_code = None, lr_reference = None, lr_admin = Some actor, lr_key = None\<rparr>"

definition find_student :: "id \<Rightarrow> db \<Rightarrow> user_row option" where
  "find_student user s =
     List.find (\<lambda>u. u_id u = user \<and> u_role u = R_STUDENT \<and> u_deleted_at u = None) (users s)"

definition adjust ::
  "db world \<Rightarrow> id \<Rightarrow> money_value \<Rightarrow> wallet_tx_direction \<Rightarrow> string \<Rightarrow> id \<Rightarrow> time \<Rightarrow> db
     \<Rightarrow> (exn + ledger_entry) \<times> db" where
  "adjust w user amount dir reason actor now s =
     (case find_student user s of
        None \<Rightarrow> (Inl not_found, s)
      | Some _ \<Rightarrow>
          (let r = with_serializable_retry default_options w
                     (if dir = W_CREDIT then wallet_credit (adjust_request user amount actor) now
                      else wallet_debit (adjust_request user amount actor) now) s in
           case rt_result r of
             Inl e \<Rightarrow> (Inl e, rt_state r)
           | Inr e \<Rightarrow>
               (Inr e, audit_with \<lparr>au_actor = Some actor, au_action = ''WALLET_ADJUST'',
                  au_entity = ''wallet'', au_entity_id = en_wallet e, au_note = reason\<rparr> (rt_state r))))"

section \<open>History\<close>

text \<open>
  The free-text search is the database's \<open>contains\<close>, a parameter; the other filters, the order and
  the page are the code's. A view for a student drops the administrator and the card.
\<close>

record history_query =
  hq_page :: nat
  hq_page_size :: nat
  hq_user :: "id option"
  hq_type :: "wallet_tx_type option"
  hq_direction :: "wallet_tx_direction option"
  hq_source :: "wallet_tx_source option"
  hq_from :: "time option"
  hq_to :: "time option"
  hq_text :: "string option"
  hq_ascending :: bool
  hq_include_admin :: bool

record history_line =
  hl_id :: id
  hl_type :: wallet_tx_type
  hl_direction :: wallet_tx_direction
  hl_source :: wallet_tx_source
  hl_amount :: rat
  hl_before :: rat
  hl_after :: rat
  hl_reference :: "(string \<times> id) option"
  hl_created :: time
  hl_admin_view :: "(id \<times> id option \<times> id option) option"

definition opt_matches :: "'a option \<Rightarrow> 'a \<Rightarrow> bool" where
  "opt_matches want x = (case want of None \<Rightarrow> True | Some y \<Rightarrow> x = y)"

definition history_where :: "(bool \<Rightarrow> string \<Rightarrow> wallet_tx_row \<Rightarrow> bool) \<Rightarrow> history_query \<Rightarrow> wallet_tx_row \<Rightarrow> bool" where
  "history_where contains q t \<longleftrightarrow>
     opt_matches (hq_user q) (wt_user t) \<and> opt_matches (hq_type q) (wt_type t)
     \<and> opt_matches (hq_direction q) (wt_direction t) \<and> opt_matches (hq_source q) (wt_source t)
     \<and> (case hq_from q of None \<Rightarrow> True | Some d \<Rightarrow> d \<le> wt_created t)
     \<and> (case hq_to q of None \<Rightarrow> True | Some d \<Rightarrow> wt_created t \<le> d)
     \<and> (case hq_text q of None \<Rightarrow> True | Some x \<Rightarrow> x = [] \<or> contains (hq_include_admin q) x t)"

definition history_line_of :: "bool \<Rightarrow> wallet_tx_row \<Rightarrow> history_line" where
  "history_line_of admin t =
     \<lparr>hl_id = wt_id t, hl_type = wt_type t, hl_direction = wt_direction t, hl_source = wt_source t,
      hl_amount = to_egp_number (wt_amount t), hl_before = to_egp_number (wt_before t),
      hl_after = to_egp_number (wt_after t), hl_reference = wt_reference t, hl_created = wt_created t,
      hl_admin_view = (if admin then Some (wt_user t, wt_admin t, wt_code t) else None)\<rparr>"

definition transactions ::
  "(bool \<Rightarrow> string \<Rightarrow> wallet_tx_row \<Rightarrow> bool) \<Rightarrow> history_query \<Rightarrow> db \<Rightarrow> history_line list \<times> page_meta" where
  "transactions contains q s =
     (let rows = filter (history_where contains q) (wallet_txs s);
          sorted = sort_key (\<lambda>t. if hq_ascending q then wt_created t else - wt_created t) rows in
      (map (history_line_of (hq_include_admin q)) (page_rows (hq_page q) (hq_page_size q) sorted),
       paginated (length rows) (hq_page q) (hq_page_size q)))"

section \<open>Integrity check\<close>

record integrity_report =
  ig_wallet :: id
  ig_ledger :: rat
  ig_cached :: rat
  ig_difference :: rat
  ig_credited :: rat
  ig_debited :: rat
  ig_consistent :: bool

definition verify_integrity :: "id \<Rightarrow> db \<Rightarrow> exn + integrity_report" where
  "verify_integrity user s =
     (case find_by w_user user (wallets s) of
        None \<Rightarrow> Inl not_found
      | Some w \<Rightarrow>
          bind_r (read_column (credited (w_id w) s) ''credits'') (\<lambda>credits.
          bind_r (read_column (debited (w_id w) s) ''debits'') (\<lambda>debits.
          bind_r (read_column (w_balance w) ''balance'') (\<lambda>cached.
          let derived = credits - debits in
          Inr \<lparr>ig_wallet = w_id w, ig_ledger = to_egp_number derived, ig_cached = to_egp_number cached,
               ig_difference = to_egp_number (cached - derived), ig_credited = to_egp_number credits,
               ig_debited = to_egp_number debits, ig_consistent = (derived = cached)\<rparr>))))"

section \<open>What a redemption does\<close>

lemma create_redemption_Inr_iff [result_simps]:
  "create_redemption r s = Inr (u, t) \<longleftrightarrow>
     find_redemption (rd_code r) (rd_user r) s = None
     \<and> \<not> (rd_wallet_tx r \<noteq> None \<and> rd_wallet_tx r \<in> set (map rd_wallet_tx (redemptions s)))
     \<and> t = s\<lparr>redemptions := redemptions s @ [r]\<rparr>"
  by (auto simp: create_redemption_def result_simps)

lemma create_recharge_revenue_Inr_iff [result_simps]:
  "create_recharge_revenue r s = Inr (u, t) \<longleftrightarrow>
     rr_code r \<notin> set (map rr_code (recharges s)) \<and> t = s\<lparr>recharges := recharges s @ [r]\<rparr>"
  by (auto simp: create_recharge_revenue_def result_simps)

lemma check_recharge_card_Inr_iff [result_simps]:
  "check_recharge_card code user now s = Inr (u, t) \<longleftrightarrow>
     k_kind code = K_RECHARGE \<and> k_status code \<noteq> KS_REVOKED \<and> k_status code \<noteq> KS_EXPIRED
     \<and> (case k_expires code of None \<Rightarrow> True | Some x \<Rightarrow> now < x)
     \<and> (case k_reserved_for code of None \<Rightarrow> True | Some v \<Rightarrow> v = user)
     \<and> k_count code < k_max code \<and> find_redemption (k_id code) user s = None
     \<and> k_credit code \<noteq> None \<and> k_actual_paid code \<noteq> None \<and> k_face code \<noteq> None \<and> t = s"
  by (auto simp: check_recharge_card_def result_simps)

definition used_card :: "id \<Rightarrow> time \<Rightarrow> code_row \<Rightarrow> code_row \<Rightarrow> code_row" where
  "used_card user now code k = k\<lparr>k_count := Suc (k_count code),
     k_status := (if k_max code \<le> Suc (k_count code) then KS_EXHAUSTED else k_status code),
     k_redeemed_at := Some now, k_redeemed_by := Some user\<rparr>"

lemma used_card_simps [simp]:
  "k_id (used_card user now code k) = k_id k" "k_text (used_card user now code k) = k_text k"
  "k_max (used_card user now code k) = k_max k"
  "k_count (used_card user now code k) = Suc (k_count code)"
  by (simp_all add: used_card_def)

lemma use_code_simp:
  "use_code i user now code s
     = Inr ((), s\<lparr>codes := upd_where (\<lambda>k. k_id k = i) (used_card user now code) (codes s)\<rparr>)"
  by (simp add: use_code_def used_card_def [abs_def])

lemma card_credit_Inr_iff [result_simps]:
  "card_credit code = Inr p \<longleftrightarrow> p = the (k_credit code) \<and> valid_piastres p"
  by (cases "read_column (the (k_credit code)) ''creditAmount''")
    (auto simp: card_credit_def result_simps dest: read_column_Inr_iff [THEN iffD1])

lemma credit_card_amount_Inr_iff [result_simps]:
  "credit_card_amount code user now credit s = Inr (entry, t) \<longleftrightarrow>
     (if 0 < credit then \<exists>e. wallet_credit (recharge_request code user) now s = Inr (e, t) \<and> entry = Some (en_id e)
      else entry = None \<and> t = s)"
  by (auto simp: credit_card_amount_def result_simps)

lemma recharge_rows [simp]:
  "rd_code (recharge_redemption code user now entry) = k_id code"
  "rd_user (recharge_redemption code user now entry) = user"
  "rd_wallet_tx (recharge_redemption code user now entry) = entry"
  "rd_credited (recharge_redemption code user now entry) = k_credit code"
  "rr_code (recharge_revenue code user now) = k_id code"
  "rr_user (recharge_revenue code user now) = user"
  "rr_credit (recharge_revenue code user now) = the (k_credit code)"
  "rr_actual_paid (recharge_revenue code user now) = the (k_actual_paid code)"
  by (simp_all add: recharge_redemption_def recharge_revenue_def)

text \<open>The facts of a successful redemption.\<close>

definition redeemed_state :: "code_row \<Rightarrow> id \<Rightarrow> time \<Rightarrow> id option \<Rightarrow> db \<Rightarrow> db" where
  "redeemed_state code user now entry s =
     s\<lparr>redemptions := redemptions s @ [recharge_redemption code user now entry],
       codes := upd_where (\<lambda>k. k_id k = k_id code) (used_card user now code) (codes s),
       recharges := recharges s @ [recharge_revenue code user now]\<rparr>"

lemma redeem_recharge_Inr:
  assumes "redeem_recharge_body raw user now s = Inr (out, t)"
  obtains code entry s1 where
    "find_by k_text (normalize_code raw) (codes s) = Some code"
    "check_recharge_card code user now s = Inr ((), s)" "valid_piastres (the (k_credit code))"
    "credit_card_amount code user now (the (k_credit code)) s = Inr (entry, s1)"
    "find_redemption (k_id code) user s1 = None" "k_id code \<notin> set (map rr_code (recharges s1))"
    "t = redeemed_state code user now entry s1"
    "\<exists>w. find_by w_user user (wallets s1) = Some w \<and>
       out = \<lparr>rx_code = k_id code, rx_credited = to_egp_number (the (k_credit code)),
             rx_balance = to_egp_number (w_balance w), rx_transaction = entry\<rparr>"
proof -
  note u = assms [unfolded redeem_recharge_body_def bind_tx_Inr_iff]
  then obtain code s0 s1 entry s2 s3 s4 w where
    c: "find_by k_text (normalize_code raw) (codes s) = Some code"
      "check_recharge_card code user now s = Inr ((), s0)"
      "lift_tx (card_credit code) s0 = Inr (the (k_credit code), s0)"
      "credit_card_amount code user now (the (k_credit code)) s0 = Inr (entry, s1)"
      "create_redemption (recharge_redemption code user now entry) s1 = Inr ((), s2)"
      "use_code (k_id code) user now code s2 = Inr ((), s3)"
      "create_recharge_revenue (recharge_revenue code user now) s3 = Inr ((), s4)"
      "find_by w_user user (wallets s4) = Some w" "t = s4"
      "out = \<lparr>rx_code = k_id code, rx_credited = to_egp_number (the (k_credit code)),
             rx_balance = to_egp_number (w_balance w), rx_transaction = entry\<rparr>"
    by (auto simp: lift_tx_Inr_iff the_or_Inr_iff card_credit_Inr_iff)
  have s0: "s0 = s" using c(2) by (simp add: check_recharge_card_Inr_iff)
  show ?thesis
    by (rule that [of code entry s1]) (use c s0 in \<open>auto simp: create_redemption_Inr_iff use_code_simp
        create_recharge_revenue_Inr_iff lift_tx_Inr_iff card_credit_Inr_iff redeemed_state_def\<close>)
qed

lemma redeemed_state_ledger [simp]:
  "wallets (redeemed_state code user now entry s) = wallets s"
  "wallet_txs (redeemed_state code user now entry s) = wallet_txs s"
  "db_next (redeemed_state code user now entry s) = db_next s"
  by (simp_all add: redeemed_state_def)

lemma credit_card_amount_props:
  assumes "credit_card_amount code user now credit s = Inr (entry, t)" "ledger_inv s"
  shows "ledger_inv t" "redemptions t = redemptions s" "recharges t = recharges s" "codes t = codes s"
proof -
  have "ledger_inv t \<and> redemptions t = redemptions s \<and> recharges t = recharges s \<and> codes t = codes s"
  proof (cases "0 < credit")
    case True
    with assms(1) obtain e where m: "move_credit W_CREDIT (recharge_request code user) now s = Inr (e, t)"
      by (auto simp: credit_card_amount_Inr_iff wallet_credit_def)
    then show ?thesis
      using move_credit_inv [OF m assms(2)] move_credit_frame [OF m assms(2)] by auto
  qed (use assms in \<open>simp add: credit_card_amount_Inr_iff\<close>)
  then show "ledger_inv t" "redemptions t = redemptions s" "recharges t = recharges s" "codes t = codes s"
    by simp_all
qed

lemma redeem_recharge_inv:
  assumes "redeem_recharge_body raw user now s = Inr (out, t)" "ledger_inv s"
  shows "ledger_inv t"
  using assms(1)
proof (rule redeem_recharge_Inr)
  fix code entry s1
  assume "credit_card_amount code user now (the (k_credit code)) s = Inr (entry, s1)"
    and t: "t = redeemed_state code user now entry s1"
  then have "ledger_inv s1" using credit_card_amount_props(1) assms(2) by blast
  then show ?thesis by (rule ledger_inv_frame) (simp_all add: t)
qed

lemma wallet_summary_inv: "wallet_summary_of u s = Inr (x, t) \<Longrightarrow> ledger_inv s \<Longrightarrow> ledger_inv t"
  by (auto simp: wallet_summary_of_def result_simps dest: ensure_wallet_inv)

section \<open>The wallet as a machine\<close>

text \<open>
  Any committed wallet operation may happen at any time, interleaved with operations of the rest
  of the platform, which never write the two wallet tables.
\<close>

inductive wallet_step :: "db \<Rightarrow> db \<Rightarrow> bool" where
  step_credit: "wallet_credit r now s = Inr (e, t) \<Longrightarrow> wallet_step s t"
| step_debit: "wallet_debit r now s = Inr (e, t) \<Longrightarrow> wallet_step s t"
| step_summary: "wallet_summary_of u s = Inr (x, t) \<Longrightarrow> wallet_step s t"
| step_redeem: "redeem_recharge_body raw user now s = Inr (out, t) \<Longrightarrow> wallet_step s t"
| step_other: "wallets t = wallets s \<Longrightarrow> wallet_txs t = wallet_txs s \<Longrightarrow> db_next s \<le> db_next t \<Longrightarrow>
    wallet_step s t"

definition wallet_start :: "db \<Rightarrow> bool" where
  "wallet_start s \<longleftrightarrow> wallets s = [] \<and> wallet_txs s = []"

interpretation wallet_machine: invariant_system wallet_start wallet_step ledger_inv
proof
  show "wallet_start s \<Longrightarrow> ledger_inv s" for s by (simp add: wallet_start_def ledger_inv_empty)
  show "ledger_inv s \<Longrightarrow> wallet_step s t \<Longrightarrow> ledger_inv t" for s t
    by (erule wallet_step.cases)
      (auto simp: wallet_credit_def intro: move_credit_inv wallet.debit_inv wallet_summary_inv
        redeem_recharge_inv ledger_inv_frame)
qed

text \<open>C1: the ledger explains every balance. After any sequence of committed wallet operations, in any
  order and interleaved with the rest of the platform, every wallet's balance is its credits less
  its debits and stays between zero and the platform maximum; its running totals are those sums;
  and its entries, replayed in order from zero, each start at the balance the previous one ended
  with, never pass below zero, and end at the cached balance.\<close>

theorem wallet_ledger_explains_balance:
  assumes "wallet_start s" "wallet_step\<^sup>*\<^sup>* s t" "w \<in> set (wallets t)"
  shows "w_balance w = credited (w_id w) t - debited (w_id w) t
    \<and> 0 \<le> w_balance w \<and> w_balance w \<le> max_piastres
    \<and> w_recharged w = credited (w_id w) t \<and> w_spent w = debited (w_id w) t
    \<and> replay_ledger 0 (entries_of (w_id w) t) = Some (w_balance w)"
proof -
  have "wallet_ok t w"
    using wallet_machine.inv_reachable [OF assms(1,2)] assms(3) by (simp add: ledger_inv_def)
  then show ?thesis using wallet_ok_balance [of t w] by (simp add: wallet_ok_def)
qed

lemma example_credit:
  "\<exists>e t w. wallet_credit (adjust_request 1 (MStr ''100'') 9) 5 empty_db = Inr (e, t)
     \<and> wallets t = [w] \<and> w_balance w = 10000 \<and> w_user w = 1 \<and> map wt_amount (wallet_txs t) = [10000]"
proof -
  let ?r = "adjust_request 1 (MStr ''100'') 9"
  have p: "parse_amount (lr_amount ?r) ''amount'' = Inr 10000"
    by (simp add: adjust_request_def parse_amount_def parse_simps)
  have i: "ledger_inv empty_db" by (rule ledger_inv_empty) (simp_all add: empty_db_def)
  have n: "find_replay (lr_key ?r) empty_db = None" by (simp add: adjust_request_def find_replay_def)
  let ?w = "\<lparr>w_id = 0, w_user = 1, w_balance = 0, w_recharged = 0, w_spent = 0, w_version = 0\<rparr>"
  let ?s = "empty_db\<lparr>wallets := [?w], db_next := 1\<rparr>"
  have w: "ensure_wallet (lr_user ?r) empty_db = Inr (?w, ?s)"
    by (simp add: ensure_wallet_def Let_def empty_db_def adjust_request_def)
  from move_credit_fresh [OF i p _ n w, of W_CREDIT 5] show ?thesis
    by (simp add: wallet_credit_def max_piastres_def max_money_egp_def after_move_def upd_where_def
        may_move_def moved_def ledger_row_def empty_db_def)
qed

theorem wallet_ledger_explains_balance_witness:
  "\<exists>t w. wallet_step\<^sup>*\<^sup>* empty_db t \<and> w \<in> set (wallets t) \<and> w_balance w = 10000
     \<and> credited (w_id w) t - debited (w_id w) t = 10000"
proof -
  obtain e t w where c: "wallet_credit (adjust_request 1 (MStr ''100'') 9) 5 empty_db = Inr (e, t)"
    and w: "wallets t = [w]" "w_balance w = 10000"
    using example_credit by blast
  have st: "wallet_step\<^sup>*\<^sup>* empty_db t" using step_credit [OF c] by blast
  have "wallet_start empty_db" by (simp add: wallet_start_def empty_db_def)
  from wallet_ledger_explains_balance [OF this st, of w] st w show ?thesis by auto
qed

text \<open>C2: a debit never overdraws and is exact. For an acceptable positive amount and a fresh
  idempotency key, a debit is refused with \<open>INSUFFICIENT_CREDIT\<close> precisely when the balance is
  smaller than the amount; otherwise it succeeds, the user's balance drops by exactly the amount,
  nobody else's changes, and the entry reports the new balance.\<close>

theorem debit_exact_or_refused:
  assumes "ledger_inv s" "parse_amount (lr_amount r) ''amount'' = Inr p" "0 < p"
    and "find_replay (lr_key r) s = None"
  shows "if balance_of (lr_user r) s < p
    then wallet_debit r now s = Inl (app_error INSUFFICIENT_CREDIT)
    else \<exists>e t. wallet_debit r now s = Inr (e, t) \<and> \<not> en_replayed e
      \<and> balance_of (lr_user r) t = balance_of (lr_user r) s - p
      \<and> (\<forall>v. v \<noteq> lr_user r \<longrightarrow> balance_of v t = balance_of v s)
      \<and> en_after e = to_egp_number (balance_of (lr_user r) t)"
proof -
  obtain w s1 where w: "ensure_wallet (lr_user r) s = Inr (w, s1)" using ensure_wallet_total by blast
  note f = move_credit_fresh [OF assms w, of W_DEBIT now] and b = ensure_wallet_balance(1) [OF w]
  show ?thesis
  proof (cases "balance_of (lr_user r) s < p")
    case False
    then obtain e t where d: "wallet_debit r now s = Inr (e, t)"
      and e: "e = entry_of_row (ledger_row W_DEBIT r now p w (db_next s1)) False"
      using f b by (auto simp: wallet_debit_def)
    have "balance_of v t = (if v = lr_user r then balance_of v s - p else balance_of v s)" for v
      using move_credit_balance [OF d [unfolded wallet_debit_def] assms(1,4,2), of v] by simp
    then show ?thesis
      using False d b by (auto simp: e entry_of_row_def ledger_row_def)
  qed (use f b in \<open>simp add: wallet_debit_def\<close>)
qed

definition example_debit :: ledger_request where
  "example_debit = \<lparr>lr_user = 4, lr_amount = MStr ''25.50'', lr_type = WT_PURCHASE,
     lr_source = WS_LIBRARY_PART, lr_code = None, lr_reference = None, lr_admin = None,
     lr_key = Some (LibPartKey 3 4)\<rparr>"

theorem debit_exact_or_refused_witness:
  "wallet_debit example_debit 7 empty_db = Inl (app_error INSUFFICIENT_CREDIT)"
proof -
  have i: "ledger_inv empty_db" by (rule ledger_inv_empty) (simp_all add: empty_db_def)
  have p: "parse_amount (lr_amount example_debit) ''amount'' = Inr 2550"
    by (simp add: example_debit_def parse_amount_def parse_simps)
  have n: "find_replay (lr_key example_debit) empty_db = None"
    by (simp add: find_replay_def example_debit_def empty_db_def)
  have "balance_of (lr_user example_debit) empty_db = 0" by (simp add: balance_of_def empty_db_def)
  with debit_exact_or_refused [OF i p _ n, of 7] show ?thesis by simp
qed

section \<open>Entries are only ever appended\<close>

lemma move_credit_appends:
  assumes "move_credit dir r now s = Inr (e, t)" "ledger_inv s"
  shows "wallet_txs t = wallet_txs s \<or>
    (\<exists>row. wallet_txs t = wallet_txs s @ [row] \<and> wt_key row = lr_key r \<and> wt_type row = lr_type r
       \<and> parse_amount (lr_amount r) ''amount'' = Inr (wt_amount row))"
  using assms
proof (cases rule: move_credit_Inr)
  case (moved p w s1)
  then show ?thesis
    using ensure_wallet_props(3) [OF moved(4)] by (simp add: after_move_def ledger_row_def)
qed simp

lemma move_credit_entry:
  assumes "move_credit dir r now s = Inr (e, t)" "ledger_inv s" "lr_key r = Some k"
  shows "\<exists>row \<in> set (wallet_txs t). wt_key row = Some k \<and> en_id e = wt_id row
    \<and> en_amount e = to_egp_number (wt_amount row) \<and> en_direction e = wt_direction row"
  using assms(1,2)
proof (cases rule: move_credit_Inr)
  case (replayed row)
  then have "row \<in> set (wallet_txs s) \<and> wt_key row = Some k"
    using assms(3) by (auto simp: find_replay_def dest: find_Some)
  with replayed show ?thesis by (auto simp: entry_of_row_def)
next
  case (moved p w s1)
  then show ?thesis using assms(3) by (simp add: after_move_def ledger_row_def entry_of_row_def)
qed

lemma find_replay_keyed:
  assumes "ledger_inv s" "row \<in> set (wallet_txs s)" "wt_key row = Some k"
  shows "find_replay (Some k) s = Some row"
proof -
  have "distinct (keyed ts) \<Longrightarrow> row \<in> set ts \<Longrightarrow> List.find (\<lambda>t. wt_key t = Some k) ts = Some row" for ts
    using assms(3)
  proof (induction ts)
    case (Cons x xs)
    have "row \<in> set xs \<Longrightarrow> wt_key x \<noteq> Some k"
      using Cons.prems by (force simp: keyed_def)
    with Cons show ?case by (auto simp: keyed_def split: if_splits)
  qed simp
  with assms show ?thesis by (simp add: find_replay_def ledger_inv_def)
qed

lemma credit_card_amount_appends:
  assumes "credit_card_amount code user now credit s = Inr (entry, t)" "ledger_inv s"
  shows "\<exists>ts. wallet_txs t = wallet_txs s @ ts"
proof (cases "0 < credit")
  case True
  with assms(1) obtain e where "move_credit W_CREDIT (recharge_request code user) now s = Inr (e, t)"
    by (auto simp: credit_card_amount_Inr_iff wallet_credit_def)
  from move_credit_appends [OF this assms(2)] show ?thesis by auto
qed (use assms in \<open>simp add: credit_card_amount_Inr_iff\<close>)

lemma wallet_step_appends:
  assumes "wallet_step s t" "ledger_inv s"
  shows "\<exists>ts. wallet_txs t = wallet_txs s @ ts"
  using assms
proof (cases rule: wallet_step.cases)
  case (step_credit r now e)
  then show ?thesis using move_credit_appends assms(2) unfolding wallet_credit_def by fastforce
next
  case (step_debit r now e)
  then show ?thesis using move_credit_appends assms(2) unfolding wallet_debit_def by fastforce
next
  case (step_summary u x)
  then show ?thesis by (auto simp: wallet_summary_of_def result_simps dest: ensure_wallet_props(3))
next
  case (step_redeem raw user now out)
  then show ?thesis
    by (elim redeem_recharge_Inr) (use credit_card_amount_appends assms(2) in auto)
qed simp

lemma wallet_steps_append:
  assumes "wallet_step\<^sup>*\<^sup>* s t" "ledger_inv s"
  shows "\<exists>ts. wallet_txs t = wallet_txs s @ ts"
  using assms(1)
proof (induction rule: rtranclp_induct)
  case (step t u)
  then show ?case
    using wallet_step_appends [OF step.hyps(2)] wallet_machine.inv_steps [OF step.hyps(1) assms(2)]
    by fastforce
qed simp

text \<open>A repeated idempotency key moves credit once. After a movement with a key, at any later time
  and whatever happened in between, any request that carries the same key (and a well-formed
  positive amount) is answered with the first entry, marked as replayed, and changes nothing.\<close>

theorem replayed_key_moves_nothing:
  assumes "ledger_inv s" "move_credit dir r now s = Inr (e, t)" "lr_key r = Some k"
    and "wallet_step\<^sup>*\<^sup>* t u" "lr_key r' = Some k"
    and "parse_amount (lr_amount r') ''amount'' = Inr p" "0 < p"
  shows "\<exists>e'. move_credit dir' r' now' u = Inr (e', u) \<and> en_id e' = en_id e \<and> en_replayed e'
    \<and> en_amount e' = en_amount e \<and> en_direction e' = en_direction e"
proof -
  have t: "ledger_inv t" by (rule move_credit_inv [OF assms(2,1)])
  have u: "ledger_inv u" by (rule wallet_machine.inv_steps [OF assms(4) t])
  obtain row where row: "row \<in> set (wallet_txs t)" "wt_key row = Some k" "en_id e = wt_id row"
    "en_amount e = to_egp_number (wt_amount row)" "en_direction e = wt_direction row"
    using move_credit_entry [OF assms(2,1,3)] by auto
  from wallet_steps_append [OF assms(4) t] row(1) have "row \<in> set (wallet_txs u)" by auto
  then have f: "find_replay (lr_key r') u = Some row"
    using find_replay_keyed [OF u _ row(2)] assms(5) by simp
  have "from_piastres p = Inr (render_piastres p)"
    using parse_amount_bounds [OF assms(6)] max_piastres_safe [of p] by (simp add: from_piastres_def)
  then have "move_credit dir' r' now' u = Inr (entry_of_row row True, u)"
    using assms(6,7) f by (simp add: move_credit_def)
  then show ?thesis using row by (simp add: entry_of_row_def)
qed

lemma example_keyed_credit:
  "\<exists>e t. move_credit W_CREDIT example_debit 7 empty_db = Inr (e, t)"
proof -
  have i: "ledger_inv empty_db" by (rule ledger_inv_empty) (simp_all add: empty_db_def)
  have p: "parse_amount (lr_amount example_debit) ''amount'' = Inr 2550"
    by (simp add: example_debit_def parse_amount_def parse_simps)
  have n: "find_replay (lr_key example_debit) empty_db = None"
    by (simp add: find_replay_def example_debit_def empty_db_def)
  obtain w s1 where w: "ensure_wallet (lr_user example_debit) empty_db = Inr (w, s1)"
    using ensure_wallet_total by blast
  have "w_balance w = 0" using ensure_wallet_balance(1) [OF w] by (simp add: balance_of_def empty_db_def)
  with move_credit_fresh [OF i p _ n w, of W_CREDIT 7] show ?thesis
    by (simp add: max_piastres_def max_money_egp_def)
qed

theorem replayed_key_moves_nothing_witness:
  "\<exists>e t e'. move_credit W_CREDIT example_debit 7 empty_db = Inr (e, t)
     \<and> move_credit W_CREDIT example_debit 9 t = Inr (e', t) \<and> en_replayed e'"
proof -
  have i: "ledger_inv empty_db" by (rule ledger_inv_empty) (simp_all add: empty_db_def)
  have p: "parse_amount (lr_amount example_debit) ''amount'' = Inr 2550"
    by (simp add: example_debit_def parse_amount_def parse_simps)
  have k: "lr_key example_debit = Some (LibPartKey 3 4)" by (simp add: example_debit_def)
  obtain e t where m: "move_credit W_CREDIT example_debit 7 empty_db = Inr (e, t)"
    using example_keyed_credit by blast
  from replayed_key_moves_nothing [OF i m k rtranclp.rtrancl_refl k p, of W_CREDIT 9] m
  show ?thesis by auto
qed

section \<open>Integrity check\<close>

lemma ledger_inv_wallet:
  assumes "ledger_inv s" "find_by w_user user (wallets s) = Some w"
  shows "wallet_ok s w"
  using assms by (auto simp: ledger_inv_def dest: find_by_Some)

lemma credited_nonneg:
  assumes "ledger_inv s"
  shows "0 \<le> credited i s" "0 \<le> debited i s"
proof -
  have pos: "0 < wt_amount t" if t: "t \<in> set (wallet_txs s)" for t
  proof -
    obtain w where w: "w \<in> set (wallets s)" "w_id w = wt_wallet t"
      using assms t by (auto simp: ledger_inv_def)
    then have r: "replay_ledger 0 (entries_of (w_id w) s) = Some (w_balance w)"
      using assms by (auto simp: ledger_inv_def wallet_ok_def)
    have all: "replay_ledger b ts = Some c \<Longrightarrow> x \<in> set ts \<Longrightarrow> 0 < wt_amount x" for b ts c x
      by (induction b ts rule: replay_ledger.induct) (auto split: if_splits)
    show ?thesis using all [OF r, of t] t w by (simp add: entries_of_def)
  qed
  show "0 \<le> credited i s" "0 \<le> debited i s"
    unfolding credited_def debited_def by (intro sum_where_nonneg; use pos in force)+
qed

lemma verify_integrity_eq:
  assumes "ledger_inv s" "find_by w_user user (wallets s) = Some w"
  shows "verify_integrity user s =
    (if max_piastres < credited (w_id w) s
     then Inl (MoneyEx ''credits'' ''must not exceed 1000000'')
     else Inr \<lparr>ig_wallet = w_id w, ig_ledger = to_egp_number (w_balance w),
        ig_cached = to_egp_number (w_balance w), ig_difference = 0,
        ig_credited = to_egp_number (credited (w_id w) s),
        ig_debited = to_egp_number (debited (w_id w) s), ig_consistent = True\<rparr>)"
proof -
  note b = wallet_ok_balance [OF ledger_inv_wallet [OF assms]]
  note n = credited_nonneg [OF assms(1), of "w_id w"]
  show ?thesis
  proof (cases "max_piastres < credited (w_id w) s")
    case True
    then have "read_column (credited (w_id w) s) ''credits'' = Inl (MoneyEx ''credits'' ''must not exceed 1000000'')"
      using decimal_accepted [OF n(1)] by (simp add: read_column_def to_piastres_def amount_text_def Let_def)
    with True assms(2) show ?thesis by (simp add: verify_integrity_def)
  next
    case False
    with b n have "valid_piastres (credited (w_id w) s)" "valid_piastres (debited (w_id w) s)"
      "valid_piastres (w_balance w)" by auto
    then show ?thesis
      using False b assms(2) by (simp add: verify_integrity_def Let_def to_egp_number_def)
  qed
qed

text \<open>the integrity check agrees with the ledger exactly as long as the lifetime credits fit the
  platform maximum. Under the ledger invariant it reports a consistent wallet when they do; when
  a wallet's lifetime credits exceed 1,000,000 EGP it fails with a bare money error, which the
  filter answers as a server error, although the wallet is sound.\<close>

theorem verify_integrity_outcome:
  assumes "ledger_inv s" "find_by w_user user (wallets s) = Some w"
  shows "if credited (w_id w) s \<le> max_piastres
    then \<exists>g. verify_integrity user s = Inr g \<and> ig_consistent g \<and> ig_difference g = 0
      \<and> ig_cached g = to_egp_number (w_balance w)
    else \<exists>e. verify_integrity user s = Inl e \<and> he_status (resolve_exn e) = 500"
  using verify_integrity_eq [OF assms] by auto

theorem verify_integrity_outcome_witness:
  "\<exists>t g. wallet_step\<^sup>*\<^sup>* empty_db t \<and> verify_integrity 1 t = Inr g \<and> ig_consistent g"
proof -
  obtain e t w where c: "wallet_credit (adjust_request 1 (MStr ''100'') 9) 5 empty_db = Inr (e, t)"
    and w: "wallets t = [w]" "w_balance w = 10000" "w_user w = 1"
    and txs: "map wt_amount (wallet_txs t) = [10000]"
    using example_credit by (elim exE conjE)
  have st: "wallet_step\<^sup>*\<^sup>* empty_db t" using step_credit [OF c] by blast
  have "wallet_start empty_db" by (simp add: wallet_start_def empty_db_def)
  then have i: "ledger_inv t" using wallet_machine.inv_reachable st by blast
  have f: "find_by w_user 1 (wallets t) = Some w" using w by simp
  obtain row where "wallet_txs t = [row]" "wt_amount row = 10000" using txs by (auto simp: map_eq_Cons_conv)
  then have "credited (w_id w) t \<le> max_piastres"
    by (auto simp: credited_def sum_where_def max_piastres_def max_money_egp_def)
  with verify_integrity_outcome [OF i f] st show ?thesis by auto
qed

section \<open>Wallet bodies never raise a write conflict themselves\<close>

lemma conflict_free_schema [conflict_free_intros]:
  "conflict_free fresh_id" "\<not> is_write_conflict e \<Longrightarrow> conflict_free (the_or e r)"
  by (auto simp: conflict_free_def the_or_def split: option.splits)

lemma no_conflict_money:
  "from_piastres p = Inl e \<Longrightarrow> \<not> is_write_conflict e"
  "to_piastres v f = Inl e \<Longrightarrow> \<not> is_write_conflict e"
  "parse_amount v f = Inl e \<Longrightarrow> \<not> is_write_conflict e"
  "read_column c f = Inl e \<Longrightarrow> \<not> is_write_conflict e"
  by (auto simp: from_piastres_def read_column_def split: if_splits
      dest!: to_piastres_error parse_amount_Inl)

lemma conflict_free_move [conflict_free_intros]: "conflict_free (move_credit dir r now)"
  unfolding move_credit_def ensure_wallet_def update_balance_def
  by (intro conflict_free_intros) (auto dest: no_conflict_money)

end
