(* ===== verification/Recharge.thy ===== *)
theory Recharge
  imports Wallet
begin

text \<open>
  Recharge accounting across the wallet, the redemption records and the recharge revenue
  (\<open>modules/wallet/wallet.service.ts\<close>, \<open>redeemRechargeCode\<close>): cash in is credits out, a card pays
  once per student, the retried endpoint keeps the books under interference, and the history a
  student sees. The operations are those of the wallet theory.
\<close>

section \<open>The recharge books\<close>

definition recharge_key_of :: "idem_key option \<Rightarrow> (id \<times> id) option" where
  "recharge_key_of k = (case k of Some (RechargeKey c u) \<Rightarrow> Some (c, u) | _ \<Rightarrow> None)"

definition redeemed_pairs :: "db \<Rightarrow> (id \<times> id) set" where
  "redeemed_pairs s = (\<lambda>r. (rd_code r, rd_user r)) ` set (redemptions s)"

definition recharge_credits :: "db \<Rightarrow> int" where
  "recharge_credits s = sum_where (\<lambda>t. wt_type t = WT_CREDIT_RECHARGE) wt_amount (wallet_txs s)"

definition recharge_booked :: "db \<Rightarrow> int" where
  "recharge_booked s = sum_list (map rr_credit (recharges s))"

definition books_inv :: "db \<Rightarrow> bool" where
  "books_inv s \<longleftrightarrow>
     ledger_inv s
     \<and> (\<forall>t \<in> set (wallet_txs s). \<forall>p. recharge_key_of (wt_key t) = Some p \<longrightarrow> p \<in> redeemed_pairs s)
     \<and> unique_on rr_code (recharges s)
     \<and> recharge_credits s = recharge_booked s"

text \<open>A ledger request of any caller other than the redemption: another type, another key.\<close>

definition foreign_request :: "ledger_request \<Rightarrow> bool" where
  "foreign_request r \<longleftrightarrow> lr_type r \<noteq> WT_CREDIT_RECHARGE \<and> recharge_key_of (lr_key r) = None"

inductive books_step :: "db \<Rightarrow> db \<Rightarrow> bool" where
  bs_redeem: "redeem_recharge_body raw user now s = Inr (out, t) \<Longrightarrow> books_step s t"
| bs_move: "move_credit dir r now s = Inr (e, t) \<Longrightarrow> foreign_request r \<Longrightarrow> books_step s t"
| bs_summary: "wallet_summary_of u s = Inr (x, t) \<Longrightarrow> books_step s t"
| bs_other: "wallets t = wallets s \<Longrightarrow> wallet_txs t = wallet_txs s \<Longrightarrow> recharges t = recharges s \<Longrightarrow>
    redeemed_pairs s \<subseteq> redeemed_pairs t \<Longrightarrow> db_next s \<le> db_next t \<Longrightarrow> books_step s t"

definition books_start :: "db \<Rightarrow> bool" where
  "books_start s \<longleftrightarrow> wallets s = [] \<and> wallet_txs s = [] \<and> recharges s = []"

lemma find_redemption_None: "find_redemption c u s = None \<longleftrightarrow> (c, u) \<notin> redeemed_pairs s"
  by (auto simp: find_redemption_def find_None_iff redeemed_pairs_def)

lemma redeemed_pairs_redeemed:
  "redeemed_pairs (redeemed_state code user now entry s) = insert (k_id code, user) (redeemed_pairs s)"
  by (auto simp: redeemed_pairs_def redeemed_state_def)

lemma recharges_redeemed:
  "recharges (redeemed_state code user now entry s) = recharges s @ [recharge_revenue code user now]"
  by (simp add: redeemed_state_def)

lemma recharge_credits_app:
  "wallet_txs t = wallet_txs s @ ts \<Longrightarrow>
   recharge_credits t = recharge_credits s + sum_where (\<lambda>t. wt_type t = WT_CREDIT_RECHARGE) wt_amount ts"
  by (simp add: recharge_credits_def table_simps)

text \<open>Under the books' invariant the key of a card not yet redeemed is new, so its credit moves.\<close>

lemma fresh_card_key:
  assumes "books_inv s" "find_redemption (k_id code) user s = None"
  shows "find_replay (lr_key (recharge_request code user)) s = None"
proof -
  have "wt_key t \<noteq> Some (RechargeKey (k_id code) user)" if "t \<in> set (wallet_txs s)" for t
  proof
    assume "wt_key t = Some (RechargeKey (k_id code) user)"
    then have "recharge_key_of (wt_key t) = Some (k_id code, user)" by (simp add: recharge_key_of_def)
    with assms that show False by (auto simp: books_inv_def find_redemption_None)
  qed
  then show ?thesis by (force simp: find_replay_None recharge_request_def)
qed

lemma recharge_request_amount:
  "valid_piastres (the (k_credit code)) \<Longrightarrow>
   parse_amount (lr_amount (recharge_request code user)) ''amount'' = Inr (the (k_credit code))"
  by (simp add: recharge_request_def parse_amount_def decimal_string_read)

lemma credit_card_amount_books:
  assumes "credit_card_amount code user now (the (k_credit code)) s = Inr (entry, t)" "books_inv s"
    and "valid_piastres (the (k_credit code))" "find_redemption (k_id code) user s = None"
  shows "balance_of v t = balance_of v s + (if v = user then the (k_credit code) else 0)"
    and "\<exists>ts. wallet_txs t = wallet_txs s @ ts
      \<and> (\<forall>x \<in> set ts. wt_key x = Some (RechargeKey (k_id code) user))
      \<and> sum_where (\<lambda>t. wt_type t = WT_CREDIT_RECHARGE) wt_amount ts = the (k_credit code)"
proof -
  let ?c = "the (k_credit code)" and ?r = "recharge_request code user"
  have i: "ledger_inv s" using assms(2) by (simp add: books_inv_def)
  have *: "balance_of v t = balance_of v s + (if v = user then ?c else 0)
      \<and> (\<exists>ts. wallet_txs t = wallet_txs s @ ts
      \<and> (\<forall>x \<in> set ts. wt_key x = Some (RechargeKey (k_id code) user))
      \<and> sum_where (\<lambda>t. wt_type t = WT_CREDIT_RECHARGE) wt_amount ts = ?c)"
  proof (cases "0 < ?c")
    case True
    with assms(1) obtain e where m: "move_credit W_CREDIT ?r now s = Inr (e, t)"
      by (auto simp: credit_card_amount_Inr_iff wallet_credit_def)
    note f = fresh_card_key [OF assms(2,4)] and p = recharge_request_amount [OF assms(3), of user]
    have u: "lr_user ?r = user" "lr_type ?r = WT_CREDIT_RECHARGE"
      "lr_key ?r = Some (RechargeKey (k_id code) user)"
      by (simp_all add: recharge_request_def)
    have "\<exists>row. wallet_txs t = wallet_txs s @ [row] \<and> wt_key row = lr_key ?r
        \<and> wt_type row = lr_type ?r \<and> wt_amount row = ?c"
      using m i
    proof (cases rule: move_credit_Inr)
      case (moved q w s1)
      then show ?thesis using ensure_wallet_props(3) [OF moved(4)] p
        by (simp add: after_move_def ledger_row_def)
    qed (use f in simp)
    then show ?thesis
      using move_credit_balance [OF m i f p, of v] u by (auto simp: sum_where_def)
  next
    case False
    with assms(3) have "?c = 0" by simp
    with assms(1) show ?thesis by (simp add: credit_card_amount_Inr_iff)
  qed
  then show "balance_of v t = balance_of v s + (if v = user then ?c else 0)" by simp
  from * show "\<exists>ts. wallet_txs t = wallet_txs s @ ts
      \<and> (\<forall>x \<in> set ts. wt_key x = Some (RechargeKey (k_id code) user))
      \<and> sum_where (\<lambda>t. wt_type t = WT_CREDIT_RECHARGE) wt_amount ts = ?c" by blast
qed

lemma redeem_books_inv:
  assumes "redeem_recharge_body raw user now s = Inr (out, t)" "books_inv s"
  shows "books_inv t"
  using assms(1)
proof (rule redeem_recharge_Inr)
  fix code entry s1
  assume c: "check_recharge_card code user now s = Inr ((), s)" "valid_piastres (the (k_credit code))"
    and a: "credit_card_amount code user now (the (k_credit code)) s = Inr (entry, s1)"
    and n: "k_id code \<notin> set (map rr_code (recharges s1))" and t: "t = redeemed_state code user now entry s1"
  have i: "ledger_inv s" using assms(2) by (simp add: books_inv_def)
  have f: "find_redemption (k_id code) user s = None" using c(1) by (simp add: check_recharge_card_Inr_iff)
  note p = credit_card_amount_props [OF a i]
  obtain ts where ts: "wallet_txs s1 = wallet_txs s @ ts"
    "\<forall>x \<in> set ts. wt_key x = Some (RechargeKey (k_id code) user)"
    "sum_where (\<lambda>t. wt_type t = WT_CREDIT_RECHARGE) wt_amount ts = the (k_credit code)"
    using credit_card_amount_books(2) [OF a assms(2) c(2) f] by blast
  have "redeemed_pairs t = insert (k_id code, user) (redeemed_pairs s)"
    using p(2) by (simp add: t redeemed_pairs_redeemed) (simp add: redeemed_pairs_def)
  then have "\<forall>x \<in> set (wallet_txs t). \<forall>q. recharge_key_of (wt_key x) = Some q \<longrightarrow> q \<in> redeemed_pairs t"
    using assms(2) ts(1,2) by (auto simp: t books_inv_def recharge_key_of_def)
  moreover have "recharge_credits t = recharge_booked t"
    using recharge_credits_app [of t s ts] ts assms(2) p(3)
    by (simp add: t recharge_booked_def recharges_redeemed books_inv_def)
  moreover have "unique_on rr_code (recharges t)"
    using n assms(2) p(3) by (auto simp: t recharges_redeemed books_inv_def table_simps)
  moreover have "ledger_inv t" by (rule redeem_recharge_inv [OF assms(1) i])
  ultimately show ?thesis by (simp add: books_inv_def)
qed

lemma move_books_inv:
  assumes "move_credit dir r now s = Inr (e, t)" "foreign_request r" "books_inv s"
  shows "books_inv t"
proof -
  have i: "ledger_inv s" using assms(3) by (simp add: books_inv_def)
  have fr: "recharges t = recharges s" "redemptions t = redemptions s"
    using move_credit_frame [OF assms(1) i] by auto
  have "recharge_credits t = recharge_credits s
    \<and> (\<forall>x \<in> set (wallet_txs t). x \<in> set (wallet_txs s) \<or> recharge_key_of (wt_key x) = None)"
    using move_credit_appends [OF assms(1) i] assms(2)
    by (auto simp: foreign_request_def recharge_credits_def table_simps)
  then show ?thesis
    using assms(3) fr move_credit_inv [OF assms(1) i]
    by (fastforce simp: books_inv_def redeemed_pairs_def recharge_booked_def)
qed

lemma other_books_inv:
  assumes "books_inv s" "wallets t = wallets s" "wallet_txs t = wallet_txs s" "recharges t = recharges s"
    and "redeemed_pairs s \<subseteq> redeemed_pairs t" "db_next s \<le> db_next t"
  shows "books_inv t"
  using assms ledger_inv_frame [of s t]
  by (fastforce simp: books_inv_def recharge_credits_def recharge_booked_def)

lemma summary_books_inv:
  assumes "wallet_summary_of u s = Inr (x, t)" "books_inv s"
  shows "books_inv t"
proof -
  have i: "ledger_inv t" using wallet_summary_inv [OF assms(1)] assms(2) by (simp add: books_inv_def)
  obtain w where "ensure_wallet u s = Inr (w, t)"
    using assms(1) by (auto simp: wallet_summary_of_def result_simps)
  from ensure_wallet_props(3,5) [OF this] assms(2) i show ?thesis
    by (auto simp: books_inv_def redeemed_pairs_def recharge_credits_def recharge_booked_def)
qed

interpretation books_machine: invariant_system books_start books_step books_inv
proof
  show "books_start s \<Longrightarrow> books_inv s" for s
    by (simp add: books_start_def books_inv_def ledger_inv_empty recharge_credits_def recharge_booked_def)
  show "books_inv s \<Longrightarrow> books_step s t \<Longrightarrow> books_inv t" for s t
    by (erule books_step.cases)
      (auto intro: redeem_books_inv move_books_inv summary_books_inv other_books_inv)
qed

text \<open>Cash in is credits out. After any interleaving of redemptions, other ledger movements and
  operations elsewhere, the recharge credits in the ledger add up to the credits booked by the
  recharge revenue rows, and no card has two revenue rows.\<close>

theorem recharge_books_balance:
  assumes "books_start s" "books_step\<^sup>*\<^sup>* s t"
  shows "sum_where (\<lambda>x. wt_type x = WT_CREDIT_RECHARGE) wt_amount (wallet_txs t)
      = sum_list (map rr_credit (recharges t))
    \<and> distinct (map rr_code (recharges t))"
  using books_machine.inv_reachable [OF assms]
  by (simp add: books_inv_def recharge_credits_def recharge_booked_def unique_on_def)

text \<open>A card for 50 EGP, sold at face value.\<close>

definition card_row :: "id \<Rightarrow> int \<Rightarrow> code_row" where
  "card_row i credit =
     \<lparr>k_id = i, k_text = ''ABCD'', k_kind = K_RECHARGE, k_target = T_COURSE, k_status = KS_ACTIVE,
      k_course = None, k_section = None, k_teacher = None, k_part = None, k_sections = [], k_courses = [],
      k_reserved_for = None, k_max = 1, k_count = 0, k_duration_type = None, k_duration_days = None,
      k_access_ends = None, k_expires = None, k_batch = None, k_price = Some credit, k_face = Some 5000,
      k_actual_paid = Some credit, k_credit = Some credit, k_discount = Some (5000 - credit),
      k_discount_type = D_NONE, k_discount_percent = None, k_redeemed_at = None, k_redeemed_by = None,
      k_revoked_at = None, k_revoked_by = None\<rparr>"

definition card_db :: "int \<Rightarrow> db" where
  "card_db credit = empty_db\<lparr>codes := [card_row 7 credit], db_next := 20\<rparr>"

lemma card_lookup: "find_by k_text (normalize_code '' ab cd '') (codes (card_db credit)) = Some (card_row 7 credit)"
proof -
  have "normalize_code '' ab cd '' = ''ABCD''" by code_simp
  then show ?thesis by (simp add: card_db_def card_row_def)
qed

lemma card_checked: "check_recharge_card (card_row 7 credit) user now (card_db credit) = Inr ((), card_db credit)"
  by (simp add: check_recharge_card_Inr_iff card_row_def card_db_def find_redemption_def empty_db_def)

lemma books_card_db: "books_inv (card_db credit)"
  by (rule books_machine.inv_start) (simp add: books_start_def card_db_def empty_db_def)

text \<open>Enough for a redemption to succeed: the checks pass, the credit fits, and there is a wallet.\<close>

lemma redeem_recharge_succeeds:
  assumes "books_inv s" "find_by k_text (normalize_code raw) (codes s) = Some code"
    and "check_recharge_card code user now s = Inr ((), s)" "k_credit code = Some c" "0 < c"
    and "balance_of user s + c \<le> max_piastres" "k_id code \<notin> set (map rr_code (recharges s))"
    and "\<forall>i. Some i \<in> set (map rd_wallet_tx (redemptions s)) \<longrightarrow> i < db_next s"
  shows "\<exists>out t. redeem_recharge_body raw user now s = Inr (out, t)"
proof -
  let ?r = "recharge_request code user"
  have i: "ledger_inv s" using assms(1) by (simp add: books_inv_def)
  have f: "find_redemption (k_id code) user s = None" using assms(3) by (simp add: check_recharge_card_Inr_iff)
  have v: "valid_piastres c" using assms(5,6) balance_of_valid [OF i, of user] by simp
  have p: "parse_amount (lr_amount ?r) ''amount'' = Inr c"
    using recharge_request_amount [of code user] v assms(4) by simp
  obtain w s1 where w: "ensure_wallet (lr_user ?r) s = Inr (w, s1)" using ensure_wallet_total by blast
  have u: "lr_user ?r = user" by (simp add: recharge_request_def)
  have wb: "w_balance w = balance_of user s" using ensure_wallet_balance(1) [OF w] u by simp
  let ?row = "ledger_row W_CREDIT ?r now c w (db_next s1)"
  let ?t = "after_move W_CREDIT w ?row s1"
  have m: "wallet_credit ?r now s = Inr (entry_of_row ?row False, ?t)"
    using move_credit_fresh [OF i p assms(5) fresh_card_key [OF assms(1) f] w, of W_CREDIT now] wb assms(6)
    by (simp add: wallet_credit_def)
  have fr: "redemptions ?t = redemptions s" "recharges ?t = recharges s"
    using move_credit_frame [OF m [unfolded wallet_credit_def] i] by auto
  have "\<exists>x. find_by w_user user (wallets ?t) = Some x"
    using ensure_wallet_props(1,2) [OF w] u
    by (cases "find_by w_user user (wallets ?t)")
      (auto simp: after_move_def by_user.find_upd find_by_None_iff)
  then obtain x where x: "find_by w_user user (wallets ?t) = Some x" by blast
  have cc: "credit_card_amount code user now c s = Inr (Some (db_next s1), ?t)"
    using m assms(5) by (simp add: credit_card_amount_Inr_iff entry_of_row_def ledger_row_def)
  have fresh: "Some (db_next s1) \<notin> set (map rd_wallet_tx (redemptions s))"
    using assms(8) ensure_wallet_props(4) [OF w] by auto
  have cr: "create_redemption (recharge_redemption code user now (Some (db_next s1))) ?t
      = Inr ((), ?t\<lparr>redemptions := redemptions ?t @ [recharge_redemption code user now (Some (db_next s1))]\<rparr>)"
    using f fr fresh by (simp add: create_redemption_Inr_iff find_redemption_def)
  have "card_credit code = Inr c" using v assms(4) by (simp add: card_credit_Inr_iff)
  then show ?thesis
    using assms(2,3) cc cr x fr assms(7)
    by (simp add: redeem_recharge_body_def bind_tx_def use_code_simp create_recharge_revenue_def)
qed

lemma redeem_card_db:
  "\<exists>out t. redeem_recharge_body '' ab cd '' 3 100 (card_db 5000) = Inr (out, t)"
proof -
  have "balance_of v (card_db 5000) = 0" for v by (simp add: balance_of_def card_db_def empty_db_def)
  moreover have "recharges (card_db 5000) = []" "redemptions (card_db 5000) = []"
    by (simp_all add: card_db_def empty_db_def)
  ultimately show ?thesis
    using redeem_recharge_succeeds [OF books_card_db card_lookup card_checked, of 5000 5000 3 100]
    by (simp add: card_row_def max_piastres_def max_money_egp_def)
qed

theorem recharge_books_balance_witness:
  "\<exists>t. books_step (card_db 5000) t
    \<and> sum_where (\<lambda>x. wt_type x = WT_CREDIT_RECHARGE) wt_amount (wallet_txs t) = sum_list (map rr_credit (recharges t))"
proof -
  obtain out t where "redeem_recharge_body '' ab cd '' 3 100 (card_db 5000) = Inr (out, t)"
    using redeem_card_db by blast
  then have step: "books_step (card_db 5000) t" by (rule bs_redeem)
  have "books_start (card_db 5000)" by (simp add: books_start_def card_db_def empty_db_def)
  from recharge_books_balance [OF this r_into_rtranclp [of books_step, OF step]] step show ?thesis by blast
qed

interpretation card_by_id: keyed_update k_id "used_card user now code"
  by unfold_locales simp

text \<open>C3: redeeming a card is exact. When a redemption commits, the card was a recharge card that was
  neither revoked, expired nor used up and not reserved for somebody else; the student's balance
  grew by the credit frozen on the card and nobody else's changed; one revenue row was appended at
  the card's frozen amounts; the redemption is recorded; and the card's counter advanced, the card
  being exhausted when the counter reaches its limit.\<close>

theorem redemption_exact:
  assumes "books_inv s" "unique_on k_id (codes s)"
    and "redeem_recharge_body raw user now s = Inr (out, t)"
  shows "\<exists>code \<in> set (codes s). k_text code = normalize_code raw \<and> k_kind code = K_RECHARGE
    \<and> k_status code \<notin> {KS_REVOKED, KS_EXPIRED}
    \<and> (\<forall>x. k_expires code = Some x \<longrightarrow> now < x) \<and> (\<forall>v. k_reserved_for code = Some v \<longrightarrow> v = user)
    \<and> k_count code < k_max code
    \<and> (\<forall>v. balance_of v t = balance_of v s + (if v = user then the (k_credit code) else 0))
    \<and> recharges t = recharges s @ [recharge_revenue code user now]
    \<and> (k_id code, user) \<notin> redeemed_pairs s \<and> (k_id code, user) \<in> redeemed_pairs t
    \<and> find_by k_id (k_id code) (codes t) = Some (used_card user now code code)"
  using assms(3)
proof (rule redeem_recharge_Inr)
  fix code entry s1
  assume c: "find_by k_text (normalize_code raw) (codes s) = Some code"
    "check_recharge_card code user now s = Inr ((), s)" "valid_piastres (the (k_credit code))"
    and a: "credit_card_amount code user now (the (k_credit code)) s = Inr (entry, s1)"
    and t: "t = redeemed_state code user now entry s1"
  have i: "ledger_inv s" using assms(1) by (simp add: books_inv_def)
  have f: "find_redemption (k_id code) user s = None" using c(2) by (simp add: check_recharge_card_Inr_iff)
  note p = credit_card_amount_props [OF a i]
  have bal: "balance_of v t = balance_of v s + (if v = user then the (k_credit code) else 0)" for v
    using credit_card_amount_books(1) [OF a assms(1) c(3) f, of v] by (simp add: t balance_of_def)
  have code: "code \<in> set (codes s)" "k_text code = normalize_code raw" using find_by_Some [OF c(1)] by auto
  have "find_by k_id (k_id code) (codes s) = Some code" by (rule find_by_unique [OF assms(2) code(1)])
  then have "find_by k_id (k_id code) (codes t) = Some (used_card user now code code)"
    using p(4) by (simp add: t redeemed_state_def card_by_id.find_upd)
  moreover have "(k_id code, user) \<in> redeemed_pairs t" by (simp add: t redeemed_pairs_redeemed)
  ultimately show ?thesis
    using c(2) code bal f p(3)
    by (intro bexI [OF _ code(1)])
      (auto simp: check_recharge_card_Inr_iff find_redemption_None t recharges_redeemed)
qed

theorem redemption_exact_witness:
  "\<exists>out t. redeem_recharge_body '' ab cd '' 3 100 (card_db 5000) = Inr (out, t) \<and> balance_of 3 t = 5000"
proof -
  have u: "unique_on k_id (codes (card_db 5000))" by (simp add: card_db_def)
  have z: "balance_of v (card_db 5000) = 0" for v by (simp add: balance_of_def card_db_def empty_db_def)
  have e: "codes (card_db 5000) = [card_row 7 5000]" "recharges (card_db 5000) = []"
    "redemptions (card_db 5000) = []" by (simp_all add: card_db_def empty_db_def)
  obtain out t where r: "redeem_recharge_body '' ab cd '' 3 100 (card_db 5000) = Inr (out, t)"
    using redeem_recharge_succeeds [OF books_card_db card_lookup card_checked, of 5000 5000 3 100] z e
    by (auto simp: card_row_def max_piastres_def max_money_egp_def)
  from redemption_exact [OF books_card_db u r] r z e show ?thesis by (auto simp: card_row_def)
qed

text \<open>a giveaway card fails for a student who never had a wallet. When a card passes every check and
  credits nothing, and the student has no wallet row, the redemption ends in a record-not-found
  error, answered as 404, and the card stays unused.\<close>

theorem giveaway_needs_wallet:
  assumes "find_by k_text (normalize_code raw) (codes s) = Some code"
    and "check_recharge_card code user now s = Inr ((), s)" "k_credit code = Some 0"
    and "k_id code \<notin> set (map rr_code (recharges s))" "find_by w_user user (wallets s) = None"
  shows "\<exists>e. redeem_recharge_body raw user now s = Inl e \<and> he_status (resolve_exn e) = 404
    \<and> he_code (resolve_exn e) = NOT_FOUND"
proof -
  have f: "find_redemption (k_id code) user s = None" using assms(2) by (simp add: check_recharge_card_Inr_iff)
  have "card_credit code = Inr 0"
    using assms(3) by (simp add: card_credit_Inr_iff max_piastres_def max_money_egp_def)
  then have "redeem_recharge_body raw user now s = Inl (PrismaKnown ''P2025'' [])"
    using assms f
    by (simp add: redeem_recharge_body_def bind_tx_def credit_card_amount_def create_redemption_def
        use_code_simp create_recharge_revenue_def)
  then show ?thesis by (simp add: from_prisma_def)
qed

theorem giveaway_needs_wallet_witness:
  "\<exists>e. redeem_recharge_body '' ab cd '' 3 100 (card_db 0) = Inl e \<and> he_status (resolve_exn e) = 404"
proof -
  have "k_credit (card_row 7 0) = Some 0" by (simp add: card_row_def)
  moreover have "k_id (card_row 7 0) \<notin> set (map rr_code (recharges (card_db 0)))"
    "find_by w_user 3 (wallets (card_db 0)) = None"
    by (simp_all add: card_db_def empty_db_def)
  ultimately show ?thesis
    using giveaway_needs_wallet [OF card_lookup card_checked, of 0 3 100] by blast
qed

section \<open>The retried endpoint under interference\<close>

lemma missing_row_no_conflict: "\<not> is_write_conflict (PrismaKnown ''P2025'' cols)"
  by (simp add: is_write_conflict_def)

lemma conflict_free_redeem [conflict_free_intros]: "conflict_free (redeem_recharge_body raw user now)"
  unfolding redeem_recharge_body_def credit_card_amount_def wallet_credit_def
    check_recharge_card_def create_redemption_def create_recharge_revenue_def use_code_def
  by (intro conflict_free_intros)
    (auto simp: invalid_code_def card_credit_def missing_row_no_conflict split: sum.splits)

text \<open>the redemption endpoint keeps the books whatever races with it. If every transaction that
  commits before one of its attempts keeps the books' invariant, the invariant holds after the
  call, whether it succeeds, is refused, or gives up on write conflicts.\<close>

theorem redeem_endpoint_keeps_books:
  assumes "books_inv s" "\<And>k s. books_inv s \<Longrightarrow> books_inv (w_env w k s)"
  shows "books_inv (snd (redeem_recharge_code w raw user now s))"
proof -
  let ?r = "with_serializable_retry default_options w (redeem_recharge_body raw user now) s"
  have "books_inv (rt_state ?r)"
    by (rule retry_keeps) (auto intro: conflict_free_intros assms redeem_books_inv)
  moreover have "books_inv (audit_with row t)" if "books_inv t" for row t
    by (rule other_books_inv [OF that]) (simp_all add: audit_with_def redeemed_pairs_def)
  ultimately show ?thesis
    by (auto simp: redeem_recharge_code_def Let_def split: sum.splits)
qed

theorem redeem_endpoint_keeps_books_witness:
  "books_inv (snd (redeem_recharge_code
     \<lparr>w_env = (\<lambda>k s. s\<lparr>db_next := Suc (db_next s)\<rparr>), w_conflict = (\<lambda>k. k = 1), w_jitter = (\<lambda>_. 0)\<rparr>
     '' ab cd '' 3 100 (card_db 5000)))"
proof (rule redeem_endpoint_keeps_books [OF books_card_db])
  fix k s assume "books_inv s"
  then have "books_inv (s\<lparr>db_next := Suc (db_next s)\<rparr>)"
    by (rule other_books_inv) (simp_all add: redeemed_pairs_def)
  then show "books_inv (w_env \<lparr>w_env = (\<lambda>k s. s\<lparr>db_next := Suc (db_next s)\<rparr>),
      w_conflict = (\<lambda>k. k = 1), w_jitter = (\<lambda>_. 0)\<rparr> k s)" by simp
qed

section \<open>What a student sees\<close>

text \<open>a student's history shows only their own entries and never who acted on the wallet, and the
  page never has more lines than the page size.\<close>

theorem student_history_private:
  assumes "hq_user q = Some user" "\<not> hq_include_admin q"
  shows "(\<forall>l \<in> set (fst (transactions contains q s)). hl_admin_view l = None
      \<and> (\<exists>t \<in> set (wallet_txs s). wt_user t = user \<and> hl_id l = wt_id t))
    \<and> length (fst (transactions contains q s)) \<le> hq_page_size q"
  using assms
  by (auto simp: transactions_def Let_def history_line_of_def history_where_def opt_matches_def page_rows_def
      dest!: in_set_takeD in_set_dropD)

definition student_query :: history_query where
  "student_query = \<lparr>hq_page = 1, hq_page_size = 20, hq_user = Some 3, hq_type = None, hq_direction = None,
     hq_source = None, hq_from = None, hq_to = None, hq_text = None, hq_ascending = False,
     hq_include_admin = False\<rparr>"

theorem student_history_private_witness:
  "length (fst (transactions (\<lambda>_ _ _. False) student_query (card_db 5000))) \<le> 20"
  using student_history_private [of student_query 3 "\<lambda>_ _ _. False" "card_db 5000"]
  by (simp add: student_query_def)

end
