(* ===== verification/Codes.thy ===== *)
theory Codes
  imports Recharge Discount
begin

text \<open>
  Access cards and recharge cards (\<open>modules/codes/codes.service.ts\<close>): issuing a batch with its
  scope frozen on every card, the preview, the redemption inside the caller's transaction, what a
  card unlocks, cancelling a card or a batch, and the nightly expiry. The random draws of the code
  texts are an argument. The cards' life cycle is a machine that also runs the wallet's operations,
  so its invariant covers every interleaving of the two.
\<close>

section \<open>Issuing access cards\<close>

text \<open>A request that the controller's validation let through; an absent and a null field are both \<open>None\<close>.\<close>

record batch_request =
  bq_target :: "code_target option"
  bq_course :: "id option"
  bq_section :: "id option"
  bq_teacher :: "id option"
  bq_part :: "id option"
  bq_name :: "string option"
  bq_count :: int
  bq_max :: "nat option"
  bq_reserved_for :: "id option"
  bq_duration_type :: "duration_type option"
  bq_duration_days :: "int option"
  bq_access_ends :: "time option"
  bq_price :: "money_value option"
  bq_collected :: "money_value option"
  bq_free :: bool
  bq_expires :: "time option"
  bq_note :: string
  bq_prefix :: string

record issue_target =
  it_name :: string
  it_course :: "id option"
  it_section :: "id option"
  it_teacher :: "id option"
  it_part :: "id option"
  it_sections :: "id list"
  it_courses :: "id list"

text \<open>
  The price of a card. The request fields are numbers, whose text the value holds; a number is
  zero when its text is.
\<close>

definition number_is_zero :: "money_value \<Rightarrow> bool" where
  "number_is_zero v = (case v of MNum t \<Rightarrow> t = ''0'' | _ \<Rightarrow> False)"

definition to_stored :: "money_value \<Rightarrow> string \<Rightarrow> exn + string" where
  "to_stored v field = bind_r (parse_amount v field) from_piastres"

definition price_problem :: "string \<Rightarrow> exn" where
  "price_problem t = validation [(''priceAmount'', [t])]"

definition issued_price :: "batch_request \<Rightarrow> exn + string option" where
  "issued_price req =
     (if bq_free req then
        (if bq_collected req \<noteq> None
            \<or> (case bq_price req of None \<Rightarrow> False | Some v \<Rightarrow> \<not> number_is_zero v)
         then Inl (price_problem ''must be 0 or left out when the cards are free'')
         else bind_r (from_piastres 0) (\<lambda>t. Inr (Some t)))
      else
        (case bq_collected req of
           Some c \<Rightarrow>
             bind_r (to_stored c ''amountCollected'') (\<lambda>alias.
             (case bq_price req of
                None \<Rightarrow> Inr (Some alias)
              | Some v \<Rightarrow>
                  bind_r (to_stored v ''priceAmount'') (\<lambda>t.
                  bind_r (require (t = alias)
                    (price_problem ''conflicts with amountCollected; send priceAmount only'')) (\<lambda>_.
                  Inr (Some alias)))))
         | None \<Rightarrow>
             (case bq_price req of
                None \<Rightarrow> Inr None
              | Some v \<Rightarrow> bind_r (to_stored v ''priceAmount'') (\<lambda>t. Inr (Some t)))))"

definition missing_field :: "string \<Rightarrow> string \<Rightarrow> exn" where
  "missing_field field problem = validation [(field, [problem])]"

text \<open>Sections of a course or part that are not deleted, whatever their status.\<close>

definition live_sections :: "(section_row \<Rightarrow> bool) \<Rightarrow> db \<Rightarrow> section_row list" where
  "live_sections p s = filter (\<lambda>x. p x \<and> s_deleted_at x = None) (sections s)"

definition resolve_part_target :: "id option \<Rightarrow> issue_target dbtx" where
  "resolve_part_target part =
     bind_tx (the_or (missing_field ''coursePartId'' ''is required for a part code'') part) (\<lambda>i.
     bind_tx (get_tx (\<lambda>s. List.find (\<lambda>p. cpt_id p = i \<and> cpt_deleted_at p = None) (parts s))) (\<lambda>found.
     bind_tx (the_or not_found found) (\<lambda>p.
     bind_tx (get_tx (\<lambda>s. sort_key s_sort (live_sections (\<lambda>x. s_part x = Some i) s))) (\<lambda>ss.
     bind_tx (require_tx (ss \<noteq> []) (missing_field ''coursePartId''
       ''this part has no sections yet, so a card for it would unlock nothing'')) (\<lambda>_.
     ret_tx \<lparr>it_name = cpt_title p, it_course = Some (cpt_course p), it_section = None, it_teacher = None,
             it_part = Some i, it_sections = map s_id ss, it_courses = [cpt_course p]\<rparr>)))))"

definition resolve_section_target :: "id option \<Rightarrow> issue_target dbtx" where
  "resolve_section_target section =
     bind_tx (the_or (missing_field ''sectionId'' ''is required for a section code'') section) (\<lambda>i.
     bind_tx (get_tx (\<lambda>s. List.find (\<lambda>x. s_id x = i \<and> s_deleted_at x = None) (sections s))) (\<lambda>found.
     bind_tx (the_or not_found found) (\<lambda>x.
     ret_tx \<lparr>it_name = [], it_course = Some (s_course x), it_section = Some i, it_teacher = None,
             it_part = None, it_sections = [i], it_courses = [s_course x]\<rparr>)))"

definition teacher_courses :: "id \<Rightarrow> db \<Rightarrow> id list" where
  "teacher_courses teacher s =
     map ct_course (filter (\<lambda>a. ct_teacher a = teacher
       \<and> (\<exists>c \<in> set (courses s). c_id c = ct_course a \<and> c_deleted_at c = None \<and> c_status c \<noteq> CS_ARCHIVED))
       (teachers s))"

definition resolve_teacher_target :: "id option \<Rightarrow> issue_target dbtx" where
  "resolve_teacher_target teacher =
     bind_tx (the_or (missing_field ''teacherId'' ''is required for a teacher code'') teacher) (\<lambda>i.
     bind_tx (get_tx (\<lambda>s. List.find (\<lambda>u. u_id u = i \<and> u_role u = R_TEACHER \<and> u_deleted_at u = None)
       (users s))) (\<lambda>found.
     bind_tx (the_or not_found found) (\<lambda>u.
     bind_tx (get_tx (teacher_courses i)) (\<lambda>cs.
     bind_tx (require_tx (cs \<noteq> []) (missing_field ''teacherId'' ''this teacher has no courses to unlock'')) (\<lambda>_.
     ret_tx \<lparr>it_name = u_full_name u, it_course = None, it_section = None, it_teacher = Some i,
             it_part = None, it_sections = [], it_courses = cs\<rparr>)))))"

definition resolve_course_target :: "id option \<Rightarrow> issue_target dbtx" where
  "resolve_course_target course =
     bind_tx (the_or (missing_field ''courseId'' ''is required for a course code'') course) (\<lambda>i.
     bind_tx (get_tx (\<lambda>s. List.find (\<lambda>c. c_id c = i \<and> c_deleted_at c = None) (courses s))) (\<lambda>found.
     bind_tx (the_or not_found found) (\<lambda>c.
     bind_tx (get_tx (live_sections (\<lambda>x. s_course x = i))) (\<lambda>ss.
     ret_tx \<lparr>it_name = c_title c, it_course = Some i, it_section = None, it_teacher = None,
             it_part = None, it_sections = map s_id ss, it_courses = [i]\<rparr>))))"

definition resolve_target :: "code_target \<Rightarrow> batch_request \<Rightarrow> issue_target dbtx" where
  "resolve_target target req =
     (case target of
        T_PART \<Rightarrow> resolve_part_target (bq_part req)
      | T_SECTION \<Rightarrow> resolve_section_target (bq_section req)
      | T_TEACHER \<Rightarrow> resolve_teacher_target (bq_teacher req)
      | T_COURSE \<Rightarrow> resolve_course_target (bq_course req))"

text \<open>
  The code texts. \<open>format_code\<close> turns twelve draws below the size of the alphabet into a text;
  \<open>collect_codes\<close> is the loop that draws until it holds enough distinct texts, over the list of
  draws the random source delivers: \<open>None\<close> means the list ended first.
\<close>

definition code_alphabet :: string where
  "code_alphabet = ''ABCDEFGHJKMNPQRSTUVWXYZ23456789''"

definition code_group :: "nat list \<Rightarrow> string" where
  "code_group ds = map (\<lambda>d. code_alphabet ! d) ds"

definition format_code :: "string \<Rightarrow> nat list \<Rightarrow> string" where
  "format_code prefix ds =
     (if prefix \<noteq> []
      then prefix @ ''-'' @ code_group (take 4 ds) @ ''-'' @ code_group (take 4 (drop 4 ds))
      else code_group (take 4 ds) @ ''-'' @ code_group (take 4 (drop 4 ds)) @ ''-''
           @ code_group (take 4 (drop 8 ds)))"

definition is_code_char :: "char \<Rightarrow> bool" where
  "is_code_char c \<longleftrightarrow> is_digit c \<or> (65 \<le> (of_char c :: nat) \<and> (of_char c :: nat) \<le> 90)"

definition clean_prefix :: "string \<Rightarrow> string" where
  "clean_prefix raw = take 6 (filter is_code_char (map to_upper raw))"

fun collect_codes :: "string \<Rightarrow> nat \<Rightarrow> nat list list \<Rightarrow> string list \<Rightarrow> string list option" where
  "collect_codes prefix n [] cs = (if n \<le> length cs then Some cs else None)"
| "collect_codes prefix n (d # ds) cs =
     (if n \<le> length cs then Some cs
      else collect_codes prefix n ds
        (if format_code prefix d \<in> set cs then cs else cs @ [format_code prefix d]))"

text \<open>\<open>createMany\<close> with \<open>skipDuplicates\<close>: a text already on a card is skipped; the count is returned.\<close>

fun insert_codes :: "(id \<Rightarrow> string \<Rightarrow> code_row) \<Rightarrow> string list \<Rightarrow> nat dbtx" where
  "insert_codes mk [] = ret_tx 0"
| "insert_codes mk (t # ts) =
     bind_tx (get_tx (\<lambda>s. find_by k_text t (codes s))) (\<lambda>dup.
     if dup \<noteq> None then insert_codes mk ts
     else bind_tx fresh_id (\<lambda>i.
          bind_tx (modify_tx (\<lambda>s. s\<lparr>codes := codes s @ [mk i t]\<rparr>)) (\<lambda>_.
          bind_tx (insert_codes mk ts) (\<lambda>n. ret_tx (Suc n)))))"

definition access_batch :: "batch_request \<Rightarrow> code_target \<Rightarrow> issue_target \<Rightarrow> string option \<Rightarrow> id \<Rightarrow> id \<Rightarrow> batch_row" where
  "access_batch req target it price actor i =
     \<lparr>b_id = i, b_name = bq_name req, b_target = target, b_kind = K_ACCESS, b_quantity = bq_count req,
      b_price = map_option amount_of_text price, b_face = None, b_actual_paid = None, b_credit = None,
      b_discount = None, b_discount_type = D_NONE, b_discount_percent = None, b_created_by = actor\<rparr>"

definition access_card ::
  "batch_request \<Rightarrow> code_target \<Rightarrow> issue_target \<Rightarrow> string option \<Rightarrow> id \<Rightarrow> id \<Rightarrow> string \<Rightarrow> code_row" where
  "access_card req target it price batch i text =
     \<lparr>k_id = i, k_text = text, k_kind = K_ACCESS, k_target = target, k_status = KS_ACTIVE,
      k_course = it_course it, k_section = it_section it, k_teacher = it_teacher it, k_part = it_part it,
      k_sections = it_sections it, k_courses = it_courses it, k_reserved_for = bq_reserved_for req,
      k_max = (case bq_max req of None \<Rightarrow> 1 | Some m \<Rightarrow> m), k_count = 0,
      k_duration_type = bq_duration_type req, k_duration_days = bq_duration_days req,
      k_access_ends = bq_access_ends req, k_expires = bq_expires req, k_batch = Some batch,
      k_price = map_option amount_of_text price, k_face = None, k_actual_paid = None, k_credit = None,
      k_discount = None, k_discount_type = D_NONE, k_discount_percent = None,
      k_redeemed_at = None, k_redeemed_by = None, k_revoked_at = None, k_revoked_by = None\<rparr>"

record batch_outcome =
  bo_batch :: id
  bo_target :: code_target
  bo_name :: string
  bo_requested :: int
  bo_created :: nat
  bo_price :: "string option"
  bo_codes :: "string list"

definition count_problem :: exn where
  "count_problem = validation [(''count'', [''must be between 1 and 5000''])]"

definition create_batch ::
  "(id \<Rightarrow> batch_row) \<Rightarrow> (id \<Rightarrow> id \<Rightarrow> string \<Rightarrow> code_row) \<Rightarrow> string list \<Rightarrow> (id \<times> nat) dbtx" where
  "create_batch batch mk_card texts =
     bind_tx fresh_id (\<lambda>b.
     bind_tx (modify_tx (\<lambda>s. s\<lparr>batches := batches s @ [batch b]\<rparr>)) (\<lambda>_.
     bind_tx (insert_codes (mk_card b) texts) (\<lambda>n. ret_tx (b, n))))"

definition issue_audit :: "id \<Rightarrow> string \<Rightarrow> id \<Rightarrow> string \<Rightarrow> unit dbtx" where
  "issue_audit actor entity i note =
     modify_tx (audit_with \<lparr>au_actor = Some actor, au_action = ''CODE_ISSUE'', au_entity = entity,
       au_entity_id = i, au_note = note\<rparr>)"

definition generate_batch :: "nat list list \<Rightarrow> batch_request \<Rightarrow> id \<Rightarrow> (batch_outcome option) dbtx" where
  "generate_batch draws req actor =
     bind_tx (require_tx (1 \<le> bq_count req \<and> bq_count req \<le> 5000) count_problem) (\<lambda>_.
     bind_tx (lift_tx (issued_price req)) (\<lambda>price.
     let target = (case bq_target req of None \<Rightarrow> T_COURSE | Some t \<Rightarrow> t) in
     bind_tx (resolve_target target req) (\<lambda>it.
     case collect_codes (clean_prefix (bq_prefix req)) (nat (bq_count req)) draws [] of
       None \<Rightarrow> ret_tx None
     | Some texts \<Rightarrow>
         bind_tx (create_batch (access_batch req target it price actor)
           (\<lambda>b i t. access_card req target it price b i t) texts) (\<lambda>(b, n).
         bind_tx (issue_audit actor ''access_code_batch'' b (bq_note req)) (\<lambda>_.
         ret_tx (Some \<lparr>bo_batch = b, bo_target = target, bo_name = it_name it, bo_requested = bq_count req,
           bo_created = n, bo_price = price, bo_codes = texts\<rparr>))))))"

section \<open>Issuing recharge cards\<close>

record recharge_bounds =
  rb_minimum :: int
  rb_maximum :: int
  rb_allow_override :: bool

record recharge_batch_request =
  rq_money :: discount_input
  rq_count :: int
  rq_name :: "string option"
  rq_expires :: "time option"
  rq_reserved_for :: "id option"
  rq_note :: string
  rq_prefix :: string
  rq_override_minimum :: bool

definition check_bounds :: "recharge_bounds \<Rightarrow> recharge_batch_request \<Rightarrow> int \<Rightarrow> exn + unit" where
  "check_bounds bounds req face =
     bind_r (require (face \<le> rb_maximum bounds * 100)
       (missing_field ''faceValue'' ''must not exceed the configured maximum'')) (\<lambda>_.
     require (rb_minimum bounds * 100 \<le> face \<or> (rq_override_minimum req \<and> rb_allow_override bounds))
       (AppEx AMOUNT_BELOW_MINIMUM [(''faceValue'', [''must be at least the configured minimum''])]))"

definition financial_batch :: "recharge_batch_request \<Rightarrow> discount_result \<Rightarrow> id \<Rightarrow> id \<Rightarrow> batch_row" where
  "financial_batch req money actor i =
     \<lparr>b_id = i, b_name = rq_name req, b_target = T_COURSE, b_kind = K_RECHARGE, b_quantity = rq_count req,
      b_price = Some (dr_face money), b_face = Some (dr_face money), b_actual_paid = Some (dr_paid money),
      b_credit = Some (dr_credit money), b_discount = Some (dr_discount money),
      b_discount_type = dr_type money,
      b_discount_percent = map_option (\<lambda>r. \<lfloor>r * 100\<rfloor>) (dr_percent money), b_created_by = actor\<rparr>"

definition financial_card ::
  "recharge_batch_request \<Rightarrow> discount_result \<Rightarrow> id \<Rightarrow> id \<Rightarrow> string \<Rightarrow> code_row" where
  "financial_card req money batch i text =
     \<lparr>k_id = i, k_text = text, k_kind = K_RECHARGE, k_target = T_COURSE, k_status = KS_ACTIVE,
      k_course = None, k_section = None, k_teacher = None, k_part = None, k_sections = [], k_courses = [],
      k_reserved_for = rq_reserved_for req, k_max = 1, k_count = 0, k_duration_type = None,
      k_duration_days = None, k_access_ends = None, k_expires = rq_expires req, k_batch = Some batch,
      k_price = Some (dr_face money), k_face = Some (dr_face money), k_actual_paid = Some (dr_paid money),
      k_credit = Some (dr_credit money), k_discount = Some (dr_discount money),
      k_discount_type = dr_type money,
      k_discount_percent = map_option (\<lambda>r. \<lfloor>r * 100\<rfloor>) (dr_percent money),
      k_redeemed_at = None, k_redeemed_by = None, k_revoked_at = None, k_revoked_by = None\<rparr>"

record recharge_batch_outcome =
  ro_batch :: id
  ro_requested :: int
  ro_created :: nat
  ro_money :: discount_summary
  ro_expected_revenue :: rat
  ro_expected_credits :: rat
  ro_codes :: "string list"

definition generate_recharge_batch ::
  "recharge_bounds \<Rightarrow> nat list list \<Rightarrow> recharge_batch_request \<Rightarrow> id \<Rightarrow> (recharge_batch_outcome option) dbtx" where
  "generate_recharge_batch bounds draws req actor =
     bind_tx (require_tx (1 \<le> rq_count req \<and> rq_count req \<le> 5000) count_problem) (\<lambda>_.
     bind_tx (lift_tx (resolve_discount (rq_money req))) (\<lambda>money.
     bind_tx (lift_tx (check_bounds bounds req (dr_face money))) (\<lambda>_.
     case collect_codes (clean_prefix (rq_prefix req)) (nat (rq_count req)) draws [] of
       None \<Rightarrow> ret_tx None
     | Some texts \<Rightarrow>
         bind_tx (create_batch (financial_batch req money actor)
           (\<lambda>b i t. financial_card req money b i t) texts) (\<lambda>(b, n).
         bind_tx (issue_audit actor ''recharge_code_batch'' b (rq_note req)) (\<lambda>_.
         ret_tx (Some \<lparr>ro_batch = b, ro_requested = rq_count req, ro_created = n,
           ro_money = summary_of_discount money,
           ro_expected_revenue = to_egp_number (dr_paid money * int n),
           ro_expected_credits = to_egp_number (dr_credit money * int n), ro_codes = texts\<rparr>))))))"

record recharge_preview =
  rv_money :: discount_summary
  rv_count :: int
  rv_expected_revenue :: rat
  rv_expected_credits :: rat
  rv_minimum :: int
  rv_maximum :: int
  rv_below_minimum :: bool
  rv_override_allowed :: bool

definition preview_recharge ::
  "recharge_bounds \<Rightarrow> discount_input \<Rightarrow> int option \<Rightarrow> exn + recharge_preview" where
  "preview_recharge bounds input count =
     bind_r (resolve_discount input) (\<lambda>money.
     let n = (case count of None \<Rightarrow> 1 | Some c \<Rightarrow> c) in
     Inr \<lparr>rv_money = summary_of_discount money, rv_count = n,
          rv_expected_revenue = to_egp_number (dr_paid money * n),
          rv_expected_credits = to_egp_number (dr_credit money * n),
          rv_minimum = rb_minimum bounds, rv_maximum = rb_maximum bounds,
          rv_below_minimum = dr_face money < rb_minimum bounds * 100,
          rv_override_allowed = rb_allow_override bounds\<rparr>)"

section \<open>Preview and redemption of access cards\<close>

record code_scope =
  sc_target :: code_target
  sc_courses :: "id list"
  sc_sections :: "id list option"

text \<open>What a card unlocks for the course the student stands in front of; \<open>None\<close> is all sections.\<close>

definition resolve_redemption_scope :: "code_row \<Rightarrow> id \<Rightarrow> exn + code_scope" where
  "resolve_redemption_scope code course =
     (let elsewhere = (case k_course code of None \<Rightarrow> False | Some c \<Rightarrow> c \<noteq> course) in
      case k_target code of
        T_SECTION \<Rightarrow>
          (case k_section code of
             None \<Rightarrow> Inl invalid_code
           | Some sec \<Rightarrow>
               if elsewhere then Inl invalid_code
               else Inr \<lparr>sc_target = T_SECTION, sc_courses = [course], sc_sections = Some [sec]\<rparr>)
      | T_PART \<Rightarrow>
          if elsewhere then Inl invalid_code
          else if k_sections code = [] then Inl invalid_code
          else Inr \<lparr>sc_target = T_PART, sc_courses = [course], sc_sections = Some (k_sections code)\<rparr>
      | T_TEACHER \<Rightarrow>
          if course \<notin> set (k_courses code) then Inl invalid_code
          else Inr \<lparr>sc_target = T_TEACHER, sc_courses = k_courses code, sc_sections = None\<rparr>
      | T_COURSE \<Rightarrow>
          if elsewhere then Inl invalid_code
          else Inr \<lparr>sc_target = T_COURSE, sc_courses = [course], sc_sections = None\<rparr>)"

definition not_lapsed :: "time \<Rightarrow> code_row \<Rightarrow> bool" where
  "not_lapsed now code = (case k_expires code of None \<Rightarrow> True | Some x \<Rightarrow> now < x)"

definition reserved_ok :: "id \<Rightarrow> code_row \<Rightarrow> bool" where
  "reserved_ok user code = (case k_reserved_for code of None \<Rightarrow> True | Some v \<Rightarrow> v = user)"

record code_preview =
  cv_course :: "id option"
  cv_target :: code_target
  cv_section :: "id option"
  cv_teacher :: "id option"
  cv_remaining :: int
  cv_duration_type :: "duration_type option"
  cv_duration_days :: "int option"
  cv_expires :: "time option"

definition validate_code :: "string \<Rightarrow> id \<Rightarrow> id option \<Rightarrow> time \<Rightarrow> code_preview dbtx" where
  "validate_code raw user course now =
     bind_tx (get_tx (\<lambda>s. find_by k_text (normalize_code raw) (codes s))) (\<lambda>found.
     bind_tx (the_or invalid_code found) (\<lambda>code.
     bind_tx (require_tx (k_kind code \<noteq> K_RECHARGE) (app_error CODE_NOT_RECHARGEABLE)) (\<lambda>_.
     bind_tx (require_tx (k_status code \<noteq> KS_REVOKED) invalid_code) (\<lambda>_.
     bind_tx (require_tx (not_lapsed now code) invalid_code) (\<lambda>_.
     bind_tx (require_tx (k_count code < k_max code) (app_error CODE_ALREADY_USED)) (\<lambda>_.
     bind_tx (require_tx (reserved_ok user code) invalid_code) (\<lambda>_.
     bind_tx (require_tx (course = None \<or> k_course code = None \<or> k_course code = course) invalid_code) (\<lambda>_.
     bind_tx (get_tx (find_redemption (k_id code) user)) (\<lambda>already.
     bind_tx (require_tx (already = None) (app_error CODE_ALREADY_USED)) (\<lambda>_.
     ret_tx \<lparr>cv_course = k_course code, cv_target = k_target code, cv_section = k_section code,
             cv_teacher = k_teacher code, cv_remaining = int (k_max code) - int (k_count code),
             cv_duration_type = k_duration_type code, cv_duration_days = k_duration_days code,
             cv_expires = k_expires code\<rparr>))))))))))"

definition count_redemption :: "code_row \<Rightarrow> code_row \<Rightarrow> code_row" where
  "count_redemption code k =
     k\<lparr>k_count := Suc (k_count code),
       k_status := (if k_max code \<le> Suc (k_count code) then KS_EXHAUSTED else k_status code)\<rparr>"

definition access_redemption :: "code_row \<Rightarrow> id \<Rightarrow> id \<Rightarrow> id option \<Rightarrow> time \<Rightarrow> redemption_row" where
  "access_redemption code user course enrollment now =
     \<lparr>rd_code = k_id code, rd_user = user, rd_enrollment = enrollment, rd_course = Some course,
      rd_at = now, rd_wallet_tx = None, rd_credited = None\<rparr>"

definition redeem_in_transaction ::
  "string \<Rightarrow> id \<Rightarrow> id \<Rightarrow> id option \<Rightarrow> time \<Rightarrow> (code_row \<times> code_scope) dbtx" where
  "redeem_in_transaction raw user course enrollment now =
     bind_tx (get_tx (\<lambda>s. find_by k_text (normalize_code raw) (codes s))) (\<lambda>found.
     bind_tx (the_or invalid_code found) (\<lambda>code.
     bind_tx (require_tx (k_kind code \<noteq> K_RECHARGE) (app_error CODE_NOT_RECHARGEABLE)) (\<lambda>_.
     bind_tx (require_tx (k_status code \<noteq> KS_REVOKED) invalid_code) (\<lambda>_.
     bind_tx (require_tx (not_lapsed now code) invalid_code) (\<lambda>_.
     bind_tx (require_tx (reserved_ok user code) invalid_code) (\<lambda>_.
     bind_tx (lift_tx (resolve_redemption_scope code course)) (\<lambda>scope.
     bind_tx (require_tx (k_count code < k_max code) (app_error CODE_ALREADY_USED)) (\<lambda>_.
     bind_tx (get_tx (find_redemption (k_id code) user)) (\<lambda>previous.
     bind_tx (require_tx (previous = None) (app_error CODE_ALREADY_USED)) (\<lambda>_.
     bind_tx (create_redemption (access_redemption code user course enrollment now)) (\<lambda>_.
     bind_tx (modify_tx (\<lambda>s. s\<lparr>codes := upd_where (\<lambda>k. k_id k = k_id code) (count_redemption code) (codes s)\<rparr>)) (\<lambda>_.
     ret_tx (code, scope)))))))))))))"

section \<open>Cancelling and expiring\<close>

text \<open>
  \<open>revoke\<close> reads the card, then updates it on the condition that it is still active: the two
  statements run at two states of the database, \<open>seen\<close> and \<open>s\<close>.
\<close>

definition cancelled_card :: "id \<Rightarrow> time \<Rightarrow> code_row \<Rightarrow> code_row" where
  "cancelled_card actor now k = k\<lparr>k_status := KS_REVOKED, k_revoked_at := Some now, k_revoked_by := Some actor\<rparr>"

definition revoke_code :: "id \<Rightarrow> id \<Rightarrow> string \<Rightarrow> time \<Rightarrow> db \<Rightarrow> db \<Rightarrow> (exn + code_status) \<times> db" where
  "revoke_code i actor reason now seen s =
     (case find_by k_id i (codes seen) of
        None \<Rightarrow> (Inl not_found, s)
      | Some code \<Rightarrow>
          if k_status code \<noteq> KS_ACTIVE then (Inl (app_error INVALID_STATE), s)
          else if count_where (\<lambda>k. k_id k = i \<and> k_status k = KS_ACTIVE) (codes s) = 0
          then (Inl (app_error INVALID_STATE), s)
          else (Inr KS_REVOKED,
                audit_with \<lparr>au_actor = Some actor, au_action = ''CODE_REVOKE'', au_entity = ''access_code'',
                    au_entity_id = i, au_note = reason\<rparr>
                  (s\<lparr>codes := upd_where (\<lambda>k. k_id k = i \<and> k_status k = KS_ACTIVE)
                       (cancelled_card actor now) (codes s)\<rparr>)))"

definition revoke_batch :: "id \<Rightarrow> id \<Rightarrow> string \<Rightarrow> time \<Rightarrow> db \<Rightarrow> db \<Rightarrow> (exn + nat) \<times> db" where
  "revoke_batch b actor reason now seen s =
     (case find_by b_id b (batches seen) of
        None \<Rightarrow> (Inl not_found, s)
      | Some _ \<Rightarrow>
          (Inr (count_where (\<lambda>k. k_batch k = Some b \<and> k_status k = KS_ACTIVE) (codes s)),
           audit_with \<lparr>au_actor = Some actor, au_action = ''CODE_REVOKE'', au_entity = ''access_code_batch'',
               au_entity_id = b, au_note = reason\<rparr>
             (s\<lparr>codes := upd_where (\<lambda>k. k_batch k = Some b \<and> k_status k = KS_ACTIVE)
                  (cancelled_card actor now) (codes s)\<rparr>)))"

definition is_due :: "time \<Rightarrow> code_row \<Rightarrow> bool" where
  "is_due now k \<longleftrightarrow> k_status k = KS_ACTIVE \<and> (case k_expires k of None \<Rightarrow> False | Some x \<Rightarrow> x \<le> now)"

definition expire_lapsed_codes :: "time \<Rightarrow> db \<Rightarrow> nat \<times> db" where
  "expire_lapsed_codes now s =
     (count_where (is_due now) (codes s),
      s\<lparr>codes := upd_where (is_due now) (\<lambda>k. k\<lparr>k_status := KS_EXPIRED\<rparr>) (codes s)\<rparr>)"

section \<open>What an issued batch leaves in the database\<close>

text \<open>An untouched card: active, never redeemed, good for at least one redemption.\<close>

definition new_card :: "code_row \<Rightarrow> bool" where
  "new_card k \<longleftrightarrow> k_status k = KS_ACTIVE \<and> k_count k = 0 \<and> 0 < k_max k"

lemma insert_codes_appends:
  assumes "insert_codes mk ts s = Inr (n, t)" "\<And>i x. k_id (mk i x) = i \<and> k_text (mk i x) = x"
  shows "\<exists>ks. t = s\<lparr>codes := codes s @ ks, db_next := db_next s + n\<rparr> \<and> length ks = n
    \<and> (\<forall>k \<in> set ks. db_next s \<le> k_id k \<and> k_id k < db_next t \<and> k = mk (k_id k) (k_text k) \<and> k_text k \<in> set ts)
    \<and> unique_on k_id ks \<and> (unique_on k_text (codes s) \<longrightarrow> unique_on k_text (codes t))"
  using assms(1)
proof (induction ts arbitrary: s n)
  case (Cons x xs)
  show ?case
  proof (cases "find_by k_text x (codes s)")
    case None
    let ?k = "mk (db_next s) x"
    let ?s = "s\<lparr>db_next := Suc (db_next s), codes := codes s @ [?k]\<rparr>"
    obtain m where m: "insert_codes mk xs ?s = Inr (m, t)" "n = Suc m"
      using Cons.prems None by (auto simp: result_simps)
    from Cons.IH [OF m(1)] obtain ks where ks: "t = ?s\<lparr>codes := codes ?s @ ks, db_next := db_next ?s + m\<rparr>"
      "length ks = m"
      "\<forall>k \<in> set ks. db_next ?s \<le> k_id k \<and> k_id k < db_next t \<and> k = mk (k_id k) (k_text k) \<and> k_text k \<in> set xs"
      "unique_on k_id ks" "unique_on k_text (codes ?s) \<longrightarrow> unique_on k_text (codes t)" by blast
    have "unique_on k_text (codes s) \<Longrightarrow> unique_on k_text (codes ?s)"
      using None assms(2) by (auto simp: table_simps find_by_None_iff)
    then show ?thesis
      using ks m(2) assms(2)
      by (intro exI [of _ "?k # ks"]) (auto simp: Suc_le_eq)
  next
    case (Some k)
    with Cons.prems have "insert_codes mk xs s = Inr (n, t)" by simp
    from Cons.IH [OF this] show ?thesis by fastforce
  qed
qed (auto intro: exI [of _ "[]"])

lemma create_batch_appends:
  assumes "create_batch batch mk_card texts s = Inr ((b, n), t)"
    and "\<And>b i x. k_id (mk_card b i x) = i \<and> k_text (mk_card b i x) = x"
  shows "\<exists>ks. t = s\<lparr>batches := batches s @ [batch b], codes := codes s @ ks, db_next := Suc (db_next s + n)\<rparr>
    \<and> length ks = n \<and> b = db_next s
    \<and> (\<forall>k \<in> set ks. db_next s < k_id k \<and> k_id k < db_next t \<and> k = mk_card b (k_id k) (k_text k)
        \<and> k_text k \<in> set texts)
    \<and> unique_on k_id ks \<and> (unique_on k_text (codes s) \<longrightarrow> unique_on k_text (codes t))"
proof -
  let ?s = "s\<lparr>db_next := Suc (db_next s), batches := batches s @ [batch (db_next s)]\<rparr>"
  have i: "insert_codes (mk_card (db_next s)) texts ?s = Inr (n, t)" and b: "b = db_next s"
    using assms(1) by (auto simp: create_batch_def result_simps)
  from insert_codes_appends [OF i, of, OF assms(2)] obtain ks where
    "t = ?s\<lparr>codes := codes ?s @ ks, db_next := db_next ?s + n\<rparr>" "length ks = n"
    "\<forall>k \<in> set ks. db_next ?s \<le> k_id k \<and> k_id k < db_next t
       \<and> k = mk_card (db_next s) (k_id k) (k_text k) \<and> k_text k \<in> set texts"
    "unique_on k_id ks" "unique_on k_text (codes ?s) \<longrightarrow> unique_on k_text (codes t)" by blast
  then show ?thesis using b by (intro exI [of _ ks]) (auto simp: Suc_le_eq)
qed

lemma made_cards [simp]:
  "k_id (access_card req target it price b i x) = i"
  "k_text (access_card req target it price b i x) = x"
  "k_id (financial_card rq money b i x) = i"
  "k_text (financial_card rq money b i x) = x"
  by (simp_all add: access_card_def financial_card_def)

lemma resolve_target_keeps: "resolve_target target req s = Inr (it, t) \<Longrightarrow> t = s"
  by (cases target) (auto simp: resolve_target_def resolve_part_target_def resolve_section_target_def
      resolve_teacher_target_def resolve_course_target_def result_simps)

text \<open>What both generators leave: fresh, untouched cards and nothing else that the cards depend on.\<close>

definition issued :: "(code_row \<Rightarrow> bool) \<Rightarrow> db \<Rightarrow> db \<Rightarrow> bool" where
  "issued good s t \<longleftrightarrow>
     (\<exists>ks. codes t = codes s @ ks \<and> unique_on k_id ks
        \<and> (\<forall>k \<in> set ks. db_next s \<le> k_id k \<and> k_id k < db_next t \<and> new_card k \<and> good k)
        \<and> (unique_on k_text (codes s) \<longrightarrow> unique_on k_text (codes t)))
     \<and> wallets t = wallets s \<and> wallet_txs t = wallet_txs s \<and> recharges t = recharges s
     \<and> redemptions t = redemptions s \<and> db_next s \<le> db_next t"

lemma issued_refl: "issued good s s"
  by (simp add: issued_def)

lemma issued_batch:
  assumes "create_batch batch mk_card texts s = Inr ((b, n), t)"
    and "\<And>b i x. k_id (mk_card b i x) = i \<and> k_text (mk_card b i x) = x"
    and "\<And>b i x. new_card (mk_card b i x) \<and> good (mk_card b i x)"
  shows "issued good s (audit_with row t)"
proof -
  from create_batch_appends [OF assms(1,2)] obtain ks where
    ks: "t = s\<lparr>batches := batches s @ [batch b], codes := codes s @ ks, db_next := Suc (db_next s + n)\<rparr>"
    "\<forall>k \<in> set ks. db_next s < k_id k \<and> k_id k < db_next t \<and> k = mk_card b (k_id k) (k_text k)"
    "unique_on k_id ks" "unique_on k_text (codes s) \<longrightarrow> unique_on k_text (codes t)" by blast
  have "new_card k \<and> good k" if "k \<in> set ks" for k using ks(2) assms(3) that by metis
  with ks show ?thesis by (auto simp: issued_def audit_with_def intro!: exI [of _ ks] less_imp_le)
qed

lemma generate_batch_Inr:
  assumes "generate_batch draws req actor s = Inr (out, t)"
  obtains (waiting) "out = None" "t = s"
  | (made) price target it texts b n t0 where "issued_price req = Inr price"
      "target = (case bq_target req of None \<Rightarrow> T_COURSE | Some x \<Rightarrow> x)"
      "resolve_target target req s = Inr (it, s)"
      "collect_codes (clean_prefix (bq_prefix req)) (nat (bq_count req)) draws [] = Some texts"
      "create_batch (access_batch req target it price actor) (access_card req target it price) texts s
         = Inr ((b, n), t0)"
      "t = audit_with \<lparr>au_actor = Some actor, au_action = ''CODE_ISSUE'', au_entity = ''access_code_batch'',
         au_entity_id = b, au_note = bq_note req\<rparr> t0"
      "out = Some \<lparr>bo_batch = b, bo_target = target, bo_name = it_name it, bo_requested = bq_count req,
         bo_created = n, bo_price = price, bo_codes = texts\<rparr>"
proof -
  define target where "target = (case bq_target req of None \<Rightarrow> T_COURSE | Some x \<Rightarrow> x)"
  from assms obtain price it where p: "issued_price req = Inr price" "resolve_target target req s = Inr (it, s)"
    and rest: "(case collect_codes (clean_prefix (bq_prefix req)) (nat (bq_count req)) draws [] of
       None \<Rightarrow> ret_tx None
     | Some texts \<Rightarrow>
         bind_tx (create_batch (access_batch req target it price actor)
           (\<lambda>b i t. access_card req target it price b i t) texts) (\<lambda>(b, n).
         bind_tx (issue_audit actor ''access_code_batch'' b (bq_note req)) (\<lambda>_.
         ret_tx (Some \<lparr>bo_batch = b, bo_target = target, bo_name = it_name it, bo_requested = bq_count req,
           bo_created = n, bo_price = price, bo_codes = texts\<rparr>)))) s = Inr (out, t)"
    by (auto simp: generate_batch_def Let_def result_simps simp flip: target_def dest: resolve_target_keeps)
  show ?thesis
  proof (cases "collect_codes (clean_prefix (bq_prefix req)) (nat (bq_count req)) draws []")
    case None
    with rest show ?thesis by (auto intro: waiting)
  next
    case (Some texts)
    with rest p show ?thesis
      by (auto simp: result_simps issue_audit_def target_def intro!: made)
  qed
qed

lemma generate_batch_issued:
  assumes "generate_batch draws req actor s = Inr (out, t)" "bq_max req \<noteq> Some 0"
  shows "issued (\<lambda>k. k_kind k = K_ACCESS) s t"
  using assms(1)
proof (cases rule: generate_batch_Inr)
  case made
  then show ?thesis
    using assms(2) by (auto intro!: issued_batch [where row = "\<lparr>au_actor = Some actor, au_action = _,
        au_entity = _, au_entity_id = _, au_note = _\<rparr>"]
        simp: new_card_def access_card_def split: option.splits)
qed (simp add: issued_refl)

text \<open>The frozen amounts of a recharge card agree with each other and fit the wallet's range.\<close>

definition balanced_card :: "code_row \<Rightarrow> bool" where
  "balanced_card k \<longleftrightarrow> k_kind k = K_RECHARGE \<and>
     (\<exists>face paid disc. k_face k = Some face \<and> k_actual_paid k = Some paid \<and> k_discount k = Some disc
        \<and> k_credit k = Some paid \<and> face = paid + disc \<and> 0 \<le> paid \<and> 0 \<le> disc \<and> valid_piastres face)"

lemma resolve_discount_card:
  assumes "resolve_discount input = Inr money"
  shows "balanced_card (financial_card req money b i x)"
proof -
  from assms obtain face pct where "to_piastres (di_face input) ''faceValue'' = Inr face"
    "discount_of input face = Inr (dr_discount money, pct)" "dr_discount money \<le> face"
    "dr_face money = face" "dr_paid money = face - dr_discount money" "dr_credit money = dr_paid money"
    by (rule resolve_discount_Inr)
  then show ?thesis
    using to_piastres_bounds [of "di_face input" "''faceValue''" face]
      discount_of_bounds [of input face "dr_discount money" pct]
    by (auto simp: balanced_card_def financial_card_def)
qed

lemma generate_recharge_issued:
  assumes "generate_recharge_batch bounds draws req actor s = Inr (out, t)"
  shows "issued (\<lambda>k. balanced_card k \<and> (\<forall>f. k_face k = Some f \<longrightarrow> f \<le> rb_maximum bounds * 100)) s t"
    (is "issued ?good s t")
proof -
  from assms obtain money where m: "resolve_discount (rq_money req) = Inr money"
    "check_bounds bounds req (dr_face money) = Inr ()"
    and rest: "(case collect_codes (clean_prefix (rq_prefix req)) (nat (rq_count req)) draws [] of
       None \<Rightarrow> ret_tx None
     | Some texts \<Rightarrow>
         bind_tx (create_batch (financial_batch req money actor)
           (\<lambda>b i t. financial_card req money b i t) texts) (\<lambda>(b, n).
         bind_tx (issue_audit actor ''recharge_code_batch'' b (rq_note req)) (\<lambda>_.
         ret_tx (Some \<lparr>ro_batch = b, ro_requested = rq_count req, ro_created = n,
           ro_money = summary_of_discount money,
           ro_expected_revenue = to_egp_number (dr_paid money * int n),
           ro_expected_credits = to_egp_number (dr_credit money * int n), ro_codes = texts\<rparr>)))) s = Inr (out, t)"
    by (auto simp: generate_recharge_batch_def result_simps)
  have good: "new_card (financial_card req money b i x) \<and> ?good (financial_card req money b i x)" for b i x
    using resolve_discount_card [OF m(1)] m(2)
    by (auto simp: new_card_def financial_card_def check_bounds_def result_simps)
  show ?thesis
  proof (cases "collect_codes (clean_prefix (rq_prefix req)) (nat (rq_count req)) draws []")
    case None
    with rest show ?thesis by (simp add: issued_refl)
  next
    case (Some texts)
    with rest obtain b n t0 row where
      "create_batch (financial_batch req money actor) (financial_card req money) texts s = Inr ((b, n), t0)"
      "t = audit_with row t0"
      by (auto simp: result_simps issue_audit_def)
    then show ?thesis using good by (auto intro: issued_batch)
  qed
qed

section \<open>The life of a card\<close>

definition card_ok :: "time \<Rightarrow> db \<Rightarrow> code_row \<Rightarrow> bool" where
  "card_ok now s k \<longleftrightarrow>
     k_count k = count_where (\<lambda>r. rd_code r = k_id k) (redemptions s) \<and> k_count k \<le> k_max k
     \<and> (k_status k = KS_ACTIVE \<longrightarrow> k_count k < k_max k)
     \<and> (k_status k = KS_EXHAUSTED \<longrightarrow> k_count k = k_max k)
     \<and> (k_status k = KS_EXPIRED \<longrightarrow> \<not> not_lapsed now k)"

definition cards_inv :: "time \<Rightarrow> db \<Rightarrow> bool" where
  "cards_inv now s \<longleftrightarrow>
     unique_on k_id (codes s) \<and> unique_on k_text (codes s)
     \<and> (\<forall>k \<in> set (codes s). k_id k < db_next s \<and> card_ok now s k)
     \<and> (\<forall>r \<in> set (redemptions s). rd_code r < db_next s)
     \<and> unique_on (\<lambda>r. (rd_code r, rd_user r)) (redemptions s)"

lemma not_lapsed_mono: "not_lapsed now' k \<Longrightarrow> now \<le> now' \<Longrightarrow> not_lapsed now k"
  by (auto simp: not_lapsed_def split: option.splits)

lemma cards_inv_later: "cards_inv now s \<Longrightarrow> now \<le> now' \<Longrightarrow> cards_inv now' s"
  by (auto simp: cards_inv_def card_ok_def dest: not_lapsed_mono)

lemma cards_inv_frame:
  "cards_inv now s \<Longrightarrow> codes t = codes s \<Longrightarrow> redemptions t = redemptions s \<Longrightarrow> db_next s \<le> db_next t
   \<Longrightarrow> cards_inv now t"
  by (auto simp: cards_inv_def card_ok_def intro: less_le_trans)

lemma cards_inv_issued:
  assumes "issued good s t" "cards_inv now s"
  shows "cards_inv now t"
proof -
  from assms(1) obtain ks where ks: "codes t = codes s @ ks" "unique_on k_id ks"
    "\<forall>k \<in> set ks. db_next s \<le> k_id k \<and> k_id k < db_next t \<and> new_card k"
    "unique_on k_text (codes s) \<longrightarrow> unique_on k_text (codes t)"
    "redemptions t = redemptions s" "db_next s \<le> db_next t"
    by (auto simp: issued_def)
  have "card_ok now t k" if "k \<in> set ks" for k
  proof -
    have "\<forall>r \<in> set (redemptions s). rd_code r \<noteq> k_id k"
      using assms(2) ks(3) that by (fastforce simp: cards_inv_def)
    then have "count_where (\<lambda>r. rd_code r = k_id k) (redemptions t) = 0"
      using ks(5) by (simp add: count_where_0_iff)
    then show ?thesis using ks(3) that by (simp add: card_ok_def new_card_def)
  qed
  moreover have "unique_on k_id (codes t)"
    using assms(2) ks(1-3) by (force simp: cards_inv_def unique_on_def)
  ultimately show ?thesis
    using assms(2) ks unfolding cards_inv_def
    by (auto simp: card_ok_def intro: less_le_trans)
qed

text \<open>A card that passes the checks of either redemption is active.\<close>

lemma usable_is_active:
  assumes "card_ok now s k" "k_status k \<noteq> KS_REVOKED" "not_lapsed now k" "k_count k < k_max k"
  shows "k_status k = KS_ACTIVE"
  using assms by (cases "k_status k") (auto simp: card_ok_def)

lemma cards_inv_redeemed:
  assumes "cards_inv now s" "code \<in> set (codes s)" "k_status code = KS_ACTIVE"
    and "find_redemption (k_id code) (rd_user r) s = None" "rd_code r = k_id code"
    and "codes t = upd_where (\<lambda>k. k_id k = k_id code) f (codes s)" "redemptions t = redemptions s @ [r]"
    and "db_next s \<le> db_next t"
    and "\<And>k. k_id (f k) = k_id k \<and> k_text (f k) = k_text k" "k_count (f code) = Suc (k_count code)"
    and "k_max (f code) = k_max code"
    and "k_status (f code) = (if k_max code \<le> Suc (k_count code) then KS_EXHAUSTED else KS_ACTIVE)"
  shows "cards_inv now t"
proof -
  have ok: "card_ok now s code" using assms(1,2) by (simp add: cards_inv_def)
  have "card_ok now t (f code)"
    using ok assms(3,5,7,9-12) by (auto simp: card_ok_def table_simps)
  moreover have "card_ok now t k" if "k \<in> set (codes s)" "k_id k \<noteq> k_id code" for k
    using assms(1,5,7) that by (auto simp: cards_inv_def card_ok_def table_simps)
  moreover have "k = code" if "k \<in> set (codes s)" "k_id k = k_id code" for k
    using assms(1,2) that by (auto simp: cards_inv_def dest: unique_onD)
  ultimately have "\<forall>k \<in> set (codes t). k_id k < db_next t \<and> card_ok now t k"
    using assms(1,2,6,8,9) by (auto simp: set_upd_where cards_inv_def intro: less_le_trans)
  moreover have "unique_on (\<lambda>r. (rd_code r, rd_user r)) (redemptions t)"
    using assms(1,4,5,7) by (auto simp: cards_inv_def table_simps find_redemption_def find_None_iff)
  moreover have "\<forall>r \<in> set (redemptions t). rd_code r < db_next t"
    using assms(1,2,5,7,8) by (auto simp: cards_inv_def intro: less_le_trans)
  ultimately show ?thesis
    using assms(1,6,9) by (simp add: cards_inv_def unique_on_def upd_where_def if_distrib [of k_text] if_distrib [of k_id] cong: if_cong map_cong)
qed

lemma redeem_in_transaction_Inr_iff [result_simps]:
  "redeem_in_transaction raw user course enr now s = Inr ((code, scope), t) \<longleftrightarrow>
     find_by k_text (normalize_code raw) (codes s) = Some code
     \<and> k_kind code \<noteq> K_RECHARGE \<and> k_status code \<noteq> KS_REVOKED \<and> not_lapsed now code \<and> reserved_ok user code
     \<and> resolve_redemption_scope code course = Inr scope \<and> k_count code < k_max code
     \<and> find_redemption (k_id code) user s = None
     \<and> t = s\<lparr>redemptions := redemptions s @ [access_redemption code user course enr now],
             codes := upd_where (\<lambda>k. k_id k = k_id code) (count_redemption code) (codes s)\<rparr>"
  by (auto simp: redeem_in_transaction_def result_simps access_redemption_def)

lemma redeem_access_cards_inv:
  assumes "redeem_in_transaction raw user course enr now s = Inr ((code, scope), t)" "cards_inv now s"
  shows "cards_inv now t"
proof -
  have code: "code \<in> set (codes s)" using assms(1) by (auto simp: result_simps dest: find_by_Some)
  moreover have "k_status code = KS_ACTIVE"
    using assms code by (auto simp: result_simps cards_inv_def intro!: usable_is_active)
  ultimately show ?thesis
    using assms(1)
    by (intro cards_inv_redeemed [OF assms(2) code, where r = "access_redemption code user course enr now"
          and f = "count_redemption code"])
      (auto simp: result_simps access_redemption_def count_redemption_def)
qed

lemma redeem_recharge_cards_inv:
  assumes "redeem_recharge_body raw user now s = Inr (out, t)" "cards_inv now s" "ledger_inv s"
  shows "cards_inv now t"
  using assms(1)
proof (rule redeem_recharge_Inr)
  fix code entry s1
  assume c: "find_by k_text (normalize_code raw) (codes s) = Some code"
    "check_recharge_card code user now s = Inr ((), s)"
    and a: "credit_card_amount code user now (the (k_credit code)) s = Inr (entry, s1)"
    and t: "t = redeemed_state code user now entry s1"
  note p = credit_card_amount_props [OF a assms(3)]
  have code: "code \<in> set (codes s)" using find_by_Some [OF c(1)] by simp
  have active: "k_status code = KS_ACTIVE"
    using assms(2) code c(2)
    by (auto simp: check_recharge_card_Inr_iff cards_inv_def not_lapsed_def intro!: usable_is_active)
  have "db_next s \<le> db_next s1"
    using a by (auto simp: credit_card_amount_Inr_iff wallet_credit_def split: if_splits
        dest!: move_credit_frame [OF _ assms(3)])
  then show ?thesis
    using p c(2) active
    by (intro cards_inv_redeemed [OF assms(2) code active, where r = "recharge_redemption code user now entry"
          and f = "used_card user now code"])
      (auto simp: check_recharge_card_Inr_iff t redeemed_state_def used_card_def)
qed

text \<open>A change of status of active cards only, to a dead status.\<close>

lemma cards_inv_killed:
  assumes "cards_inv now s" "codes t = upd_where p f (codes s)" "redemptions t = redemptions s"
    and "db_next t = db_next s" "\<And>k. p k \<Longrightarrow> k_status k = KS_ACTIVE"
    and "\<And>k. k_id (f k) = k_id k \<and> k_text (f k) = k_text k \<and> k_count (f k) = k_count k \<and> k_max (f k) = k_max k"
    and "\<And>k. p k \<Longrightarrow> k_status (f k) = KS_REVOKED \<or> k_status (f k) = KS_EXPIRED \<and> \<not> not_lapsed now (f k)"
  shows "cards_inv now t"
proof -
  have "card_ok now t (f k)" if "k \<in> set (codes s)" "p k" for k
    using assms(1,3,6) assms(7) [OF that(2)] that(1) by (auto simp: cards_inv_def card_ok_def)
  moreover have "card_ok now t k" if "k \<in> set (codes s)" for k
    using assms(1,3) that by (auto simp: cards_inv_def card_ok_def)
  ultimately have "\<forall>k \<in> set (codes t). k_id k < db_next t \<and> card_ok now t k"
    using assms(1,2,4,6) by (auto simp: set_upd_where cards_inv_def)
  then show ?thesis
    using assms(1-4,6) by (simp add: cards_inv_def unique_on_def upd_where_def if_distrib [of k_text]
        if_distrib [of k_id] cong: if_cong map_cong)
qed

lemma revoke_code_cases:
  assumes "revoke_code i actor reason now seen s = (r, t)"
  obtains "\<exists>e. r = Inl e" "t = s"
  | row where "r = Inr KS_REVOKED" "t = audit_with row (s\<lparr>codes := upd_where
      (\<lambda>k. k_id k = i \<and> k_status k = KS_ACTIVE) (cancelled_card actor now) (codes s)\<rparr>)"
  using assms by (auto simp: revoke_code_def split: option.splits if_splits)

lemma revoke_batch_cases:
  assumes "revoke_batch b actor reason now seen s = (r, t)"
  obtains "\<exists>e. r = Inl e" "t = s"
  | row where "t = audit_with row (s\<lparr>codes := upd_where
      (\<lambda>k. k_batch k = Some b \<and> k_status k = KS_ACTIVE) (cancelled_card actor now) (codes s)\<rparr>)"
  using assms by (auto simp: revoke_batch_def split: option.splits)

lemma revoke_code_cards_inv:
  assumes "revoke_code i actor reason now seen s = (r, t)" "cards_inv now s"
  shows "cards_inv now t"
  using assms(1)
proof (rule revoke_code_cases)
  fix row
  assume "t = audit_with row (s\<lparr>codes := upd_where (\<lambda>k. k_id k = i \<and> k_status k = KS_ACTIVE)
    (cancelled_card actor now) (codes s)\<rparr>)"
  then show ?thesis
    by (intro cards_inv_killed [OF assms(2), where f = "cancelled_card actor now"
          and p = "\<lambda>k. k_id k = i \<and> k_status k = KS_ACTIVE"]) (auto simp: audit_with_def cancelled_card_def)
qed (use assms(2) in simp)

lemma revoke_batch_cards_inv:
  assumes "revoke_batch b actor reason now seen s = (r, t)" "cards_inv now s"
  shows "cards_inv now t"
  using assms(1)
proof (rule revoke_batch_cases)
  fix row
  assume "t = audit_with row (s\<lparr>codes := upd_where (\<lambda>k. k_batch k = Some b \<and> k_status k = KS_ACTIVE)
    (cancelled_card actor now) (codes s)\<rparr>)"
  then show ?thesis
    by (intro cards_inv_killed [OF assms(2), where f = "cancelled_card actor now"
          and p = "\<lambda>k. k_batch k = Some b \<and> k_status k = KS_ACTIVE"]) (auto simp: audit_with_def cancelled_card_def)
qed (use assms(2) in simp)

lemma expire_cards_inv:
  assumes "expire_lapsed_codes now s = (n, t)" "cards_inv now s"
  shows "cards_inv now t"
  using assms(1)
  by (intro cards_inv_killed [OF assms(2), where p = "is_due now" and f = "\<lambda>k. k\<lparr>k_status := KS_EXPIRED\<rparr>"])
    (auto simp: expire_lapsed_codes_def is_due_def not_lapsed_def split: option.splits)

section \<open>The cards as a machine\<close>

text \<open>
  A state is the clock and the database; the clock never runs backwards. The last two rules are
  the wallet's other movements and everything that leaves cards, redemptions and ledger alone.
\<close>

inductive codes_step :: "time \<times> db \<Rightarrow> time \<times> db \<Rightarrow> bool" where
  ks_issue: "generate_batch draws req actor s = Inr (out, t) \<Longrightarrow> bq_max req \<noteq> Some 0 \<Longrightarrow> now \<le> now'
    \<Longrightarrow> codes_step (now, s) (now', t)"
| ks_issue_recharge: "generate_recharge_batch bounds draws rreq actor s = Inr (rout, t) \<Longrightarrow> now \<le> now'
    \<Longrightarrow> codes_step (now, s) (now', t)"
| ks_redeem: "redeem_in_transaction raw user course enr now' s = Inr ((code, scope), t) \<Longrightarrow> now \<le> now'
    \<Longrightarrow> codes_step (now, s) (now', t)"
| ks_recharge: "redeem_recharge_body raw user now' s = Inr (xout, t) \<Longrightarrow> now \<le> now'
    \<Longrightarrow> codes_step (now, s) (now', t)"
| ks_revoke: "revoke_code i actor reason now' seen s = (r, t) \<Longrightarrow> now \<le> now' \<Longrightarrow> codes_step (now, s) (now', t)"
| ks_revoke_batch: "revoke_batch i actor reason now' seen s = (rb, t) \<Longrightarrow> now \<le> now'
    \<Longrightarrow> codes_step (now, s) (now', t)"
| ks_expire: "expire_lapsed_codes now' s = (n, t) \<Longrightarrow> now \<le> now' \<Longrightarrow> codes_step (now, s) (now', t)"
| ks_move: "move_credit dir mreq now' s = Inr (e, t) \<Longrightarrow> foreign_request mreq \<Longrightarrow> now \<le> now'
    \<Longrightarrow> codes_step (now, s) (now', t)"
| ks_other: "codes t = codes s \<Longrightarrow> redemptions t = redemptions s \<Longrightarrow> wallets t = wallets s
    \<Longrightarrow> wallet_txs t = wallet_txs s \<Longrightarrow> recharges t = recharges s \<Longrightarrow> db_next s \<le> db_next t \<Longrightarrow> now \<le> now'
    \<Longrightarrow> codes_step (now, s) (now', t)"

definition codes_inv :: "time \<times> db \<Rightarrow> bool" where
  "codes_inv c \<longleftrightarrow> cards_inv (fst c) (snd c) \<and> books_inv (snd c)"

definition codes_start :: "time \<times> db \<Rightarrow> bool" where
  "codes_start c \<longleftrightarrow> books_start (snd c) \<and> codes (snd c) = [] \<and> redemptions (snd c) = []"

lemma issued_books_inv: "issued good s t \<Longrightarrow> books_inv s \<Longrightarrow> books_inv t"
  by (rule other_books_inv) (auto simp: issued_def redeemed_pairs_def)

lemma codes_change_books_inv:
  "books_inv s \<Longrightarrow> books_inv (s\<lparr>codes := ks\<rparr>)"
  "books_inv s \<Longrightarrow> books_inv (audit_with row s)"
  "books_inv s \<Longrightarrow> books_inv (s\<lparr>redemptions := redemptions s @ [r], codes := ks\<rparr>)"
  by (erule other_books_inv; force simp: audit_with_def redeemed_pairs_def)+

lemma codes_step_inv:
  assumes "codes_step c d" "codes_inv c"
  shows "codes_inv d"
  using assms(1)
proof cases
  case (ks_issue draws req actor s out t now now')
  with assms(2) show ?thesis
    using generate_batch_issued [OF ks_issue(3,4)]
    by (auto simp: codes_inv_def intro: cards_inv_issued cards_inv_later issued_books_inv)
next
  case (ks_issue_recharge bounds draws rreq actor s rout t now now')
  with assms(2) show ?thesis
    using generate_recharge_issued [OF ks_issue_recharge(3)]
    by (auto simp: codes_inv_def intro: cards_inv_issued cards_inv_later issued_books_inv)
next
  case (ks_redeem raw user course enr now' s code scope t now)
  with assms(2) have i: "cards_inv now' s" "books_inv s" by (auto simp: codes_inv_def intro: cards_inv_later)
  have "books_inv t" using ks_redeem(3) i(2) by (auto simp: result_simps intro: codes_change_books_inv)
  with redeem_access_cards_inv [OF ks_redeem(3) i(1)] ks_redeem show ?thesis by (simp add: codes_inv_def)
next
  case (ks_recharge raw user now' s xout t now)
  with assms(2) have i: "cards_inv now' s" "books_inv s" "ledger_inv s"
    by (auto simp: codes_inv_def books_inv_def intro: cards_inv_later)
  with ks_recharge show ?thesis
    by (auto simp: codes_inv_def intro: redeem_recharge_cards_inv redeem_books_inv)
next
  case (ks_revoke i actor reason now' seen s r t now)
  with assms(2) have i: "cards_inv now' s" "books_inv s" by (auto simp: codes_inv_def intro: cards_inv_later)
  have "books_inv t" using ks_revoke(3)
    by (rule revoke_code_cases) (use i(2) in \<open>auto intro: codes_change_books_inv\<close>)
  with revoke_code_cards_inv [OF ks_revoke(3) i(1)] ks_revoke show ?thesis by (simp add: codes_inv_def)
next
  case (ks_revoke_batch i actor reason now' seen s rb t now)
  with assms(2) have i: "cards_inv now' s" "books_inv s" by (auto simp: codes_inv_def intro: cards_inv_later)
  have "books_inv t" using ks_revoke_batch(3)
    by (rule revoke_batch_cases) (use i(2) in \<open>auto intro: codes_change_books_inv\<close>)
  with revoke_batch_cards_inv [OF ks_revoke_batch(3) i(1)] ks_revoke_batch show ?thesis by (simp add: codes_inv_def)
next
  case (ks_expire now' s n t now)
  with assms(2) have i: "cards_inv now' s" "books_inv s" by (auto simp: codes_inv_def intro: cards_inv_later)
  have "books_inv t" using ks_expire(3) i(2)
    by (auto simp: expire_lapsed_codes_def intro: codes_change_books_inv)
  with expire_cards_inv [OF ks_expire(3) i(1)] ks_expire show ?thesis by (simp add: codes_inv_def)
next
  case (ks_move dir mreq now' s e t now)
  with assms(2) have i: "cards_inv now' s" "books_inv s" "ledger_inv s"
    by (auto simp: codes_inv_def books_inv_def intro: cards_inv_later)
  have "cards_inv now' t"
    by (rule cards_inv_frame [OF i(1)]) (use move_credit_frame [OF ks_move(3) i(3)] in auto)
  with move_books_inv [OF ks_move(3,4) i(2)] ks_move show ?thesis by (simp add: codes_inv_def)
next
  case (ks_other t s now now')
  with assms(2) have i: "cards_inv now' s" "books_inv s" by (auto simp: codes_inv_def intro: cards_inv_later)
  have "cards_inv now' t" using i(1) ks_other(3,4,8) by (rule cards_inv_frame)
  moreover have "books_inv t" by (rule other_books_inv [OF i(2)]) (use ks_other in \<open>auto simp: redeemed_pairs_def\<close>)
  ultimately show ?thesis using ks_other by (simp add: codes_inv_def)
qed

interpretation cards_machine: invariant_system codes_start codes_step codes_inv
proof
  show "codes_start c \<Longrightarrow> codes_inv c" for c
    by (auto simp: codes_start_def codes_inv_def cards_inv_def intro: books_machine.inv_start)
qed (rule codes_step_inv)

section \<open>What a card says never changes\<close>

definition same_print :: "code_row \<Rightarrow> code_row \<Rightarrow> bool" where
  "same_print k k' \<longleftrightarrow>
     k' = k\<lparr>k_count := k_count k', k_status := k_status k', k_redeemed_at := k_redeemed_at k',
            k_redeemed_by := k_redeemed_by k', k_revoked_at := k_revoked_at k', k_revoked_by := k_revoked_by k'\<rparr>"

text \<open>A dead card is never written again; a live one keeps what is printed on it.\<close>

definition later_card :: "code_row \<Rightarrow> code_row \<Rightarrow> bool" where
  "later_card k k' \<longleftrightarrow> k' = k \<or> k_status k = KS_ACTIVE \<and> same_print k k'"

definition well_issued :: "code_row \<Rightarrow> bool" where
  "well_issued k \<longleftrightarrow> k_kind k = K_ACCESS \<or> balanced_card k"

definition cards_evolve :: "db \<Rightarrow> db \<Rightarrow> bool" where
  "cards_evolve s t \<longleftrightarrow>
     (\<forall>k \<in> set (codes s). \<exists>k' \<in> set (codes t). later_card k k')
     \<and> (\<forall>k' \<in> set (codes t). (\<exists>k \<in> set (codes s). later_card k k') \<or> well_issued k')"

lemma same_print_trans: "same_print k k' \<Longrightarrow> same_print k' k'' \<Longrightarrow> same_print k k''"
  unfolding same_print_def by (erule ssubst) (erule ssubst, simp)

lemma later_card_trans: "later_card k k' \<Longrightarrow> later_card k' k'' \<Longrightarrow> later_card k k''"
  by (auto simp: later_card_def intro: same_print_trans)

lemma same_print_fields:
  assumes "same_print k k'"
  shows "k_id k' = k_id k" "k_text k' = k_text k" "k_kind k' = k_kind k" "k_target k' = k_target k"
    "k_course k' = k_course k" "k_section k' = k_section k" "k_sections k' = k_sections k"
    "k_courses k' = k_courses k" "k_face k' = k_face k" "k_actual_paid k' = k_actual_paid k"
    "k_discount k' = k_discount k" "k_credit k' = k_credit k"
  by (subst assms [unfolded same_print_def], simp)+

lemma later_card_fields:
  assumes "later_card k k'"
  shows "k_id k' = k_id k" "k_text k' = k_text k" "k_kind k' = k_kind k" "k_target k' = k_target k"
    "k_course k' = k_course k" "k_section k' = k_section k" "k_sections k' = k_sections k"
    "k_courses k' = k_courses k"
  using assms by (auto simp: later_card_def dest: same_print_fields)

lemma well_issued_later: "later_card k k' \<Longrightarrow> well_issued k \<Longrightarrow> well_issued k'"
  by (auto simp: later_card_def well_issued_def balanced_card_def same_print_fields)

lemma cards_evolve_upd:
  assumes "codes t = upd_where p f (codes s)" "\<And>k. k \<in> set (codes s) \<Longrightarrow> p k \<Longrightarrow> later_card k (f k)"
  shows "cards_evolve s t"
proof -
  have 1: "later_card k (if p k then f k else k)" if "k \<in> set (codes s)" for k
    using assms(2) [OF that] by (auto simp: later_card_def)
  have 2: "set (codes t) = (\<lambda>k. if p k then f k else k) ` set (codes s)"
    by (simp add: assms(1) upd_where_def)
  show ?thesis unfolding cards_evolve_def 2 using 1 by blast
qed

lemma cards_evolve_same: "codes t = codes s \<Longrightarrow> cards_evolve s t"
  by (auto simp: cards_evolve_def later_card_def)

lemma cards_evolve_issued: "issued good s t \<Longrightarrow> (\<And>k. good k \<Longrightarrow> well_issued k) \<Longrightarrow> cards_evolve s t"
  by (force simp: cards_evolve_def issued_def later_card_def)

lemma cards_evolve_redeemed:
  assumes "cards_inv now s" "code \<in> set (codes s)" "k_status code = KS_ACTIVE"
    and "codes t = upd_where (\<lambda>k. k_id k = k_id code) f (codes s)" "same_print code (f code)"
  shows "cards_evolve s t"
  using assms(4)
proof (rule cards_evolve_upd)
  fix k assume "k \<in> set (codes s)" "k_id k = k_id code"
  then have "k = code" using assms(1,2) by (auto simp: cards_inv_def dest: unique_onD)
  then show "later_card k (f k)" using assms(3,5) by (simp add: later_card_def)
qed

lemma codes_step_evolve:
  assumes "codes_step c d" "codes_inv c"
  shows "cards_evolve (snd c) (snd d)"
  using assms(1)
proof cases
  case (ks_issue draws req actor s out t now now')
  then show ?thesis
    using cards_evolve_issued [OF generate_batch_issued [OF ks_issue(3,4)]] by (simp add: well_issued_def)
next
  case (ks_issue_recharge bounds draws rreq actor s rout t now now')
  then show ?thesis
    using cards_evolve_issued [OF generate_recharge_issued [OF ks_issue_recharge(3)]] by (simp add: well_issued_def)
next
  case (ks_redeem raw user course enr now' s code scope t now)
  then have i: "cards_inv now' s" and code: "code \<in> set (codes s)"
    using assms(2) by (auto simp: codes_inv_def result_simps intro: cards_inv_later dest: find_by_Some)
  moreover have "k_status code = KS_ACTIVE"
    using ks_redeem(3) i code by (auto simp: result_simps cards_inv_def intro!: usable_is_active)
  ultimately show ?thesis
    using ks_redeem
    by (auto simp: result_simps same_print_def count_redemption_def
        intro!: cards_evolve_redeemed [of now' s code _ "count_redemption code"])
next
  case (ks_recharge raw user now' s xout t now)
  then have i: "cards_inv now' s" "ledger_inv s"
    using assms(2) by (auto simp: codes_inv_def books_inv_def intro: cards_inv_later)
  have "cards_evolve s t" using ks_recharge(3)
  proof (rule redeem_recharge_Inr)
    fix code entry s1
    assume c: "find_by k_text (normalize_code raw) (codes s) = Some code"
      "check_recharge_card code user now' s = Inr ((), s)"
      and a: "credit_card_amount code user now' (the (k_credit code)) s = Inr (entry, s1)"
      and t: "t = redeemed_state code user now' entry s1"
    have code: "code \<in> set (codes s)" using find_by_Some [OF c(1)] by simp
    have "k_status code = KS_ACTIVE"
      using i(1) code c(2)
      by (auto simp: check_recharge_card_Inr_iff cards_inv_def not_lapsed_def intro!: usable_is_active)
    then show "cards_evolve s t"
      using credit_card_amount_props(4) [OF a i(2)] t
      by (intro cards_evolve_redeemed [OF i(1) code, where f = "used_card user now' code"])
        (simp_all add: redeemed_state_def same_print_def used_card_def)
  qed
  with ks_recharge show ?thesis by simp
next
  case (ks_revoke i actor reason now' seen s r t now)
  have "cards_evolve s t" using ks_revoke(3)
    by (rule revoke_code_cases) (auto simp: audit_with_def later_card_def same_print_def cancelled_card_def
        intro: cards_evolve_same cards_evolve_upd [where p = "\<lambda>k. k_id k = i \<and> k_status k = KS_ACTIVE"
          and f = "cancelled_card actor now'"])
  with ks_revoke show ?thesis by simp
next
  case (ks_revoke_batch i actor reason now' seen s rb t now)
  have "cards_evolve s t" using ks_revoke_batch(3)
    by (rule revoke_batch_cases) (auto simp: audit_with_def later_card_def same_print_def cancelled_card_def
        intro: cards_evolve_same cards_evolve_upd [where p = "\<lambda>k. k_batch k = Some i \<and> k_status k = KS_ACTIVE"
          and f = "cancelled_card actor now'"])
  with ks_revoke_batch show ?thesis by simp
next
  case (ks_expire now' s n t now)
  have "cards_evolve s t"
    by (rule cards_evolve_upd [where p = "is_due now'" and f = "\<lambda>k. k\<lparr>k_status := KS_EXPIRED\<rparr>"])
      (use ks_expire(3) in \<open>auto simp: expire_lapsed_codes_def is_due_def later_card_def same_print_def\<close>)
  with ks_expire show ?thesis by simp
next
  case (ks_move dir mreq now' s e t now)
  then show ?thesis
    using assms(2) by (auto simp: codes_inv_def books_inv_def intro!: cards_evolve_same
        dest!: move_credit_frame)
next
  case ks_other
  then show ?thesis by (simp add: cards_evolve_same)
qed

lemma cards_evolve_trans: "cards_evolve s t \<Longrightarrow> cards_evolve t u \<Longrightarrow> cards_evolve s u"
  unfolding cards_evolve_def by (meson later_card_trans well_issued_later)

lemma codes_steps_evolve:
  assumes "codes_step\<^sup>*\<^sup>* c d" "codes_inv c"
  shows "cards_evolve (snd c) (snd d)"
  using assms
proof (induction rule: rtranclp_induct)
  case (step d e)
  then show ?case
    using cards_machine.inv_steps [OF step(1)] codes_step_evolve [OF step(2)] cards_evolve_trans by blast
qed (simp add: cards_evolve_same)

text \<open>C26: no card is used more often than it allows, in any interleaving of issuing, redeeming,
  cancelling, expiring and wallet movements: its counter is the number of its redemption records,
  at most its limit, and no student redeems it twice.\<close>

theorem card_uses_bounded:
  assumes "codes_start c" "codes_step\<^sup>*\<^sup>* c (now, s)" "k \<in> set (codes s)"
  shows "k_count k = count_where (\<lambda>r. rd_code r = k_id k) (redemptions s) \<and> k_count k \<le> k_max k
    \<and> distinct (map (\<lambda>r. (rd_code r, rd_user r)) (redemptions s))"
  using cards_machine.inv_reachable [OF assms(1,2)] assms(3)
  by (auto simp: codes_inv_def cards_inv_def card_ok_def unique_on_def)

text \<open>a dead card stays dead. Once a card is exhausted, cancelled or expired its row never changes
  again and it is never redeemed again, whatever operations follow.\<close>

theorem dead_card_stays_dead:
  assumes "codes_start c0" "codes_step\<^sup>*\<^sup>* c0 c" "codes_step\<^sup>*\<^sup>* c d"
    and "k \<in> set (codes (snd c))" "k_status k \<noteq> KS_ACTIVE"
  shows "k \<in> set (codes (snd d))
    \<and> count_where (\<lambda>r. rd_code r = k_id k) (redemptions (snd d))
      = count_where (\<lambda>r. rd_code r = k_id k) (redemptions (snd c))"
proof -
  have i: "codes_inv c" "codes_inv d"
    using cards_machine.inv_reachable [OF assms(1,2)] cards_machine.inv_steps [OF assms(3)] by auto
  have "k \<in> set (codes (snd d))"
    using codes_steps_evolve [OF assms(3) i(1)] assms(4,5) by (auto simp: cards_evolve_def later_card_def)
  moreover from this have "card_ok (fst d) (snd d) k" "card_ok (fst c) (snd c) k"
    using i assms(4) by (auto simp: codes_inv_def cards_inv_def)
  ultimately show ?thesis by (simp add: card_ok_def)
qed

text \<open>a recharge card is always balanced and never opens anything. In every reachable state the
  amounts frozen on a recharge card satisfy face value = paid + discount and credit = paid, inside
  the wallet's range, and redeeming it for a course is refused.\<close>

theorem recharge_cards_carry_money_only:
  assumes "codes_start c" "codes_step\<^sup>*\<^sup>* c (now, s)" "k \<in> set (codes s)" "k_kind k = K_RECHARGE"
  shows "balanced_card k
    \<and> (normalize_code raw = k_text k \<longrightarrow>
        redeem_in_transaction raw user course enr now s = Inl (app_error CODE_NOT_RECHARGEABLE))"
proof -
  have i: "codes_inv c" "codes_inv (now, s)"
    using cards_machine.inv_reachable [OF assms(1,2)] cards_machine.inv_start [OF assms(1)] by auto
  have "well_issued k"
    using codes_steps_evolve [OF assms(2) i(1)] assms(1,3) by (auto simp: cards_evolve_def codes_start_def)
  then have "balanced_card k" using assms(4) by (simp add: well_issued_def)
  moreover have "find_by k_text (k_text k) (codes s) = Some k"
    using i(2) assms(3) by (auto simp: codes_inv_def cards_inv_def intro: find_by_unique)
  ultimately show ?thesis using assms(4) by (simp add: redeem_in_transaction_def)
qed

section \<open>Printed codes can be redeemed\<close>

lemma is_code_char_plain: "is_code_char c \<Longrightarrow> \<not> is_ws c \<and> to_upper c = c"
  by (auto simp: is_code_char_def is_ws_def to_upper_def is_digit_def)

lemma alphabet_plain: "c \<in> set code_alphabet \<Longrightarrow> is_code_char c"
proof -
  have "list_all is_code_char code_alphabet" by code_simp
  then show "c \<in> set code_alphabet \<Longrightarrow> is_code_char c" by (simp add: list_all_iff)
qed

lemma length_alphabet [simp]: "length code_alphabet = 31"
  by (simp add: code_alphabet_def)

lemma normalize_plain:
  assumes "\<forall>c \<in> set x. \<not> is_ws c \<and> to_upper c = c"
  shows "normalize_code x = x"
proof -
  have d: "dropWhile is_ws y = y" if "\<forall>c \<in> set y. \<not> is_ws c" for y
    using that by (cases y) auto
  then have "js_trim x = x" using assms by (simp add: js_trim_def d)
  moreover have "map to_upper x = x" using assms by (simp add: map_idI)
  ultimately show ?thesis using assms by (simp add: normalize_code_def)
qed

lemma code_group_plain: "\<forall>d \<in> set ds. d < 31 \<Longrightarrow> c \<in> set (code_group ds) \<Longrightarrow> is_code_char c"
  by (auto simp: code_group_def intro!: alphabet_plain nth_mem)

lemma format_code_plain:
  assumes "\<forall>c \<in> set prefix. is_code_char c" "\<forall>d \<in> set ds. d < 31"
  shows "\<forall>c \<in> set (format_code prefix ds). \<not> is_ws c \<and> to_upper c = c"
proof
  fix c assume c: "c \<in> set (format_code prefix ds)"
  have g: "is_code_char c" if "c \<in> set (code_group (take 4 (drop n ds)))" for n
    by (rule code_group_plain [OF _ that]) (use assms(2) in \<open>auto dest!: in_set_takeD in_set_dropD\<close>)
  from c g [of 0] g have "c = CHR ''-'' \<or> is_code_char c"
    using assms(1) by (auto simp: format_code_def split: if_splits)
  moreover have "\<not> is_ws (CHR ''-'') \<and> to_upper (CHR ''-'') = CHR ''-''"
    by (auto simp: is_ws_def to_upper_def)
  ultimately show "\<not> is_ws c \<and> to_upper c = c" using is_code_char_plain by blast
qed

lemma clean_prefix_plain: "\<forall>c \<in> set (clean_prefix raw). is_code_char c"
  by (auto simp: clean_prefix_def dest: in_set_takeD)

lemma normalize_format:
  "\<forall>d \<in> set ds. d < 31 \<Longrightarrow>
   normalize_code (format_code (clean_prefix raw) ds) = format_code (clean_prefix raw) ds"
  by (rule normalize_plain [OF format_code_plain [OF clean_prefix_plain]])

lemma collect_codes_props:
  assumes "collect_codes prefix n ds cs = Some xs" "distinct cs" "length cs \<le> n"
  shows "distinct xs \<and> length xs = n \<and> set xs \<subseteq> set cs \<union> format_code prefix ` set ds"
  using assms
proof (induction ds arbitrary: cs)
  case (Cons d ds)
  show ?case
  proof (cases "n \<le> length cs")
    case True
    then show ?thesis using Cons.prems by auto
  next
    case False
    let ?cs = "if format_code prefix d \<in> set cs then cs else cs @ [format_code prefix d]"
    have "collect_codes prefix n ds ?cs = Some xs" "distinct ?cs" "length ?cs \<le> n"
      using Cons.prems False by auto
    from Cons.IH [OF this] show ?thesis by (auto split: if_splits)
  qed
qed (auto split: if_splits)

text \<open>The drawing loop ends as soon as the draws give enough distinct texts.\<close>

lemma collect_codes_ends:
  "n \<le> length cs + card (format_code prefix ` set ds - set cs) \<Longrightarrow> \<exists>xs. collect_codes prefix n ds cs = Some xs"
proof (induction ds arbitrary: cs)
  case (Cons d ds)
  let ?x = "format_code prefix d"
  show ?case
  proof (cases "?x \<in> set cs")
    case True
    then have "format_code prefix ` set (d # ds) - set cs = format_code prefix ` set ds - set cs" by auto
    with Cons True show ?thesis by simp
  next
    case False
    then have "format_code prefix ` set (d # ds) - set cs
        = insert ?x (format_code prefix ` set ds - set (cs @ [?x]))" by auto
    moreover have "?x \<notin> format_code prefix ` set ds - set (cs @ [?x])" by simp
    ultimately have "card (format_code prefix ` set (d # ds) - set cs)
        = Suc (card (format_code prefix ` set ds - set (cs @ [?x])))" by simp
    with Cons.prems have "n \<le> length (cs @ [?x]) + card (format_code prefix ` set ds - set (cs @ [?x]))" by simp
    from Cons.IH [OF this] False show ?thesis by simp
  qed
qed simp

lemma insert_codes_texts:
  assumes "insert_codes mk ts s = Inr (n, t)" "\<And>i x. k_text (mk i x) = x" "distinct ts"
  shows "k_text ` set (codes t) = k_text ` set (codes s) \<union> set ts
    \<and> n = length (filter (\<lambda>x. x \<notin> k_text ` set (codes s)) ts)"
  using assms(1,3)
proof (induction ts arbitrary: s n)
  case (Cons x xs)
  show ?case
  proof (cases "find_by k_text x (codes s)")
    case None
    let ?s = "s\<lparr>db_next := Suc (db_next s), codes := codes s @ [mk (db_next s) x]\<rparr>"
    obtain m where m: "insert_codes mk xs ?s = Inr (m, t)" "n = Suc m"
      using Cons.prems None by (auto simp: result_simps)
    have e: "k_text ` set (codes ?s) = insert x (k_text ` set (codes s))" using assms(2) by auto
    have "filter (\<lambda>y. y \<notin> insert x (k_text ` set (codes s))) xs = filter (\<lambda>y. y \<notin> k_text ` set (codes s)) xs"
      using Cons.prems(2) by (auto intro: filter_cong)
    with Cons.IH [OF m(1)] Cons.prems(2) m(2) None e show ?thesis
      unfolding e by (auto simp: find_by_None_iff)
  next
    case (Some k)
    then have "x \<in> k_text ` set (codes s)" using find_by_Some [OF Some] by auto
    with Some Cons show ?thesis by auto
  qed
qed simp

text \<open>C27: a printed code can be redeemed. A generated batch returns as many distinct texts as were
  asked for; typing one in finds a card; and exactly the texts that no card had before were
  created.\<close>

theorem batch_texts_find_cards:
  assumes "generate_batch draws req actor s = Inr (Some out, t)" "\<forall>ds \<in> set draws. \<forall>d \<in> set ds. d < 31"
  shows "distinct (bo_codes out) \<and> int (length (bo_codes out)) = bq_count req
    \<and> (\<forall>x \<in> set (bo_codes out). \<exists>k. find_by k_text (normalize_code x) (codes t) = Some k)
    \<and> bo_created out = length (filter (\<lambda>x. x \<notin> k_text ` set (codes s)) (bo_codes out))"
  using assms(1)
proof (cases rule: generate_batch_Inr)
  case (made price target it texts b n t0)
  have texts: "distinct texts" "length texts = nat (bq_count req)"
    "set texts \<subseteq> format_code (clean_prefix (bq_prefix req)) ` set draws"
    using collect_codes_props [OF made(4)] by auto
  have "1 \<le> bq_count req" using assms(1) by (auto simp: generate_batch_def result_simps)
  with texts have len: "int (length texts) = bq_count req" by simp
  let ?s = "s\<lparr>db_next := Suc (db_next s), batches := batches s @ [access_batch req target it price actor (db_next s)]\<rparr>"
  have "insert_codes (access_card req target it price (db_next s)) texts ?s = Inr (n, t0)"
    using made(5) by (auto simp: create_batch_def result_simps)
  from insert_codes_texts [OF this _ texts(1)]
  have ins: "k_text ` set (codes t0) = k_text ` set (codes s) \<union> set texts"
    "n = length (filter (\<lambda>x. x \<notin> k_text ` set (codes s)) texts)" by simp_all
  have "\<exists>k. find_by k_text (normalize_code x) (codes t0) = Some k" if x: "x \<in> set texts" for x
  proof -
    obtain ds where "x = format_code (clean_prefix (bq_prefix req)) ds" "ds \<in> set draws"
      using x texts(3) by auto
    then have "normalize_code x = x"
      using assms(2) normalize_format by blast
    moreover have "x \<in> k_text ` set (codes t0)" using ins(1) x by simp
    ultimately show ?thesis by (cases "find_by k_text x (codes t0)") (auto simp: find_by_None_iff)
  qed
  with made texts len ins show ?thesis by (simp add: audit_with_def)
qed simp

section \<open>What a card unlocks\<close>

lemma resolve_part_target_Inr:
  assumes "resolve_target T_PART req s = Inr (it, t)" "bq_part req = Some p"
  obtains row where "row \<in> set (parts s)" "cpt_id row = p" "it_course it = Some (cpt_course row)"
    and "it_sections it = map s_id (sort_key s_sort (live_sections (\<lambda>x. s_part x = Some p) s))"
  using assms by (auto simp: resolve_target_def resolve_part_target_def result_simps dest!: find_Some)

text \<open>a part card unlocks the sections the part had when the card was printed. Take a part card
  created by a batch, and redeem it any time later, after any operations: it unlocks exactly the
  part's sections of the day it was issued, in their order, and only for the part's own course.\<close>

theorem part_card_unlocks_frozen_sections:
  assumes "codes_start c0" "codes_step\<^sup>*\<^sup>* c0 (now, s)"
    and "generate_batch draws req actor s = Inr (Some out, t)" "bq_max req \<noteq> Some 0"
    and "bq_target req = Some T_PART" "bq_part req = Some p" "now \<le> now1"
    and "codes_step\<^sup>*\<^sup>* (now1, t) (now', u)"
    and "normalize_code raw \<in> set (bo_codes out)" "normalize_code raw \<notin> k_text ` set (codes s)"
    and "redeem_in_transaction raw user course enr now' u = Inr ((code, scope), v)"
  shows "sc_sections scope = Some (map s_id (sort_key s_sort (live_sections (\<lambda>x. s_part x = Some p) s)))
    \<and> sc_courses scope = [course] \<and> (\<exists>row \<in> set (parts s). cpt_id row = p \<and> cpt_course row = course)"
  using assms(3)
proof (cases rule: generate_batch_Inr)
  case (made price target it texts b n t0)
  have "codes_step (now, s) (now1, t)" using ks_issue assms(3,4,7) by blast
  then have i: "codes_inv (now, s)" "codes_inv (now1, t)"
    using cards_machine.inv_reachable [OF assms(1,2)] codes_step_inv by blast+
  have iu: "codes_inv (now', u)" using cards_machine.inv_steps [OF assms(8) i(2)] .
  from create_batch_appends [OF made(5)] obtain ks where
    ks: "codes t0 = codes s @ ks" "\<forall>k \<in> set ks. k = access_card req target it price b (k_id k) (k_text k)"
    by auto
  let ?s = "s\<lparr>db_next := Suc (db_next s), batches := batches s @ [access_batch req target it price actor (db_next s)]\<rparr>"
  have "insert_codes (access_card req target it price (db_next s)) texts ?s = Inr (n, t0)"
    using made(5) by (auto simp: create_batch_def result_simps)
  from insert_codes_texts [OF this] collect_codes_props [OF made(4)]
  have "normalize_code raw \<in> k_text ` set (codes t0)" using assms(9) made(7) by simp
  then obtain k0 where k0: "k0 \<in> set (codes t)" "k_text k0 = normalize_code raw"
    "k0 = access_card req target it price b (k_id k0) (k_text k0)"
  proof -
    from \<open>normalize_code raw \<in> k_text ` set (codes t0)\<close> ks(1) assms(10)
    obtain k0 where "k0 \<in> set ks" "k_text k0 = normalize_code raw" by auto
    moreover from this(1) ks(1) made(6) have "k0 \<in> set (codes t)" by (simp add: audit_with_def)
    ultimately show ?thesis using ks(2) by (blast intro: that)
  qed
  obtain k' where k': "k' \<in> set (codes u)" "later_card k0 k'"
    using codes_steps_evolve [OF assms(8) i(2)] k0(1) by (auto simp: cards_evolve_def)
  note r = assms(11) [unfolded redeem_in_transaction_Inr_iff]
  have "k' = code"
    using iu k' k0(2) r by (auto simp: codes_inv_def cards_inv_def later_card_fields
        dest!: find_by_Some intro: unique_onD)
  then have f: "k_target code = k_target k0" "k_course code = k_course k0" "k_sections code = k_sections k0"
    using later_card_fields [OF k'(2)] by simp_all
  have tp: "target = T_PART" using made(2) assms(5) by simp
  obtain row where row: "row \<in> set (parts s)" "cpt_id row = p" "it_course it = Some (cpt_course row)"
    "it_sections it = map s_id (sort_key s_sort (live_sections (\<lambda>x. s_part x = Some p) s))"
    using made(3) assms(6) by (auto simp: tp elim: resolve_part_target_Inr)
  have "k_target k0 = T_PART" "k_course k0 = Some (cpt_course row)" "k_sections k0 = it_sections it"
    using row(3) tp by (subst k0(3), simp add: access_card_def)+
  with r row f show ?thesis
    by (auto simp: resolve_redemption_scope_def Let_def split: if_splits)
qed simp

text \<open>A card as the generators make it: a section card names its section, a part card has sections.\<close>

definition complete_card :: "code_row \<Rightarrow> bool" where
  "complete_card k \<longleftrightarrow> (k_target k = T_SECTION \<longrightarrow> k_section k \<noteq> None) \<and> (k_target k = T_PART \<longrightarrow> k_sections k \<noteq> [])
     \<and> (k_target k = T_TEACHER \<longrightarrow> k_course k = None)"

lemma validate_code_Inr_iff:
  "(\<exists>p. validate_code raw user (Some course) now s = Inr (p, s)) \<longleftrightarrow>
     (\<exists>code. find_by k_text (normalize_code raw) (codes s) = Some code
       \<and> k_kind code \<noteq> K_RECHARGE \<and> k_status code \<noteq> KS_REVOKED \<and> not_lapsed now code \<and> reserved_ok user code
       \<and> k_count code < k_max code \<and> (k_course code = None \<or> k_course code = Some course)
       \<and> find_redemption (k_id code) user s = None)"
  by (auto simp: validate_code_def result_simps)

lemma redeem_in_transaction_possible:
  "(\<exists>r t. redeem_in_transaction raw user course enr now s = Inr (r, t)) \<longleftrightarrow>
     (\<exists>code scope. find_by k_text (normalize_code raw) (codes s) = Some code
       \<and> k_kind code \<noteq> K_RECHARGE \<and> k_status code \<noteq> KS_REVOKED \<and> not_lapsed now code \<and> reserved_ok user code
       \<and> resolve_redemption_scope code course = Inr scope \<and> k_count code < k_max code
       \<and> find_redemption (k_id code) user s = None)"
  by (auto simp: redeem_in_transaction_Inr_iff)

text \<open>the preview decides the redemption, but for teacher cards. A complete card can be redeemed for a
  course exactly when the preview accepts it and, for a teacher card, the course is one of those
  frozen on the card; the preview does not look at those.\<close>

theorem preview_decides_redemption:
  assumes "find_by k_text (normalize_code raw) (codes s) = Some code" "complete_card code"
  shows "(\<exists>r t. redeem_in_transaction raw user course enr now s = Inr (r, t))
    \<longleftrightarrow> (\<exists>p. validate_code raw user (Some course) now s = Inr (p, s))
      \<and> (k_target code = T_TEACHER \<longrightarrow> course \<in> set (k_courses code))"
proof -
  have "(\<exists>scope. resolve_redemption_scope code course = Inr scope)
    \<longleftrightarrow> (k_course code = None \<or> k_course code = Some course)
      \<and> (k_target code = T_TEACHER \<longrightarrow> course \<in> set (k_courses code))"
    using assms(2) by (cases "k_target code")
      (auto simp: complete_card_def resolve_redemption_scope_def Let_def split: option.splits)
  with assms(1) show ?thesis
    unfolding validate_code_Inr_iff redeem_in_transaction_possible by auto
qed

section \<open>Examples\<close>

text \<open>A course with a part of two sections, a request for one part card, and the first draws.\<close>

definition shop_db :: db where
  "shop_db = empty_db\<lparr>db_next := 50,
     courses := [\<lparr>c_id = 11, c_title = [], c_status = CS_PUBLISHED, c_university = None, c_faculty = None,
       c_departments = [], c_methods = [M_CODE], c_is_free = False, c_duration_type = LIFETIME,
       c_duration_days = None, c_access_ends = None, c_student_count = 0,
       c_section_count = 0, c_lesson_count = 0, c_total_duration = 0, c_rule = WATCH_PERCENT, c_threshold = 90, c_contiguous = True, c_deleted_at = None\<rparr>],
     parts := [\<lparr>cpt_id = 21, cpt_course = 11, cpt_title = [], cpt_sort = 1, cpt_status = CT_PUBLISHED,
       cpt_active = True, cpt_pricing = FIXED, cpt_percent = None, cpt_amount = Some 5000,
       cpt_thumbnail = None, cpt_deleted_at = None\<rparr>],
     sections := [\<lparr>s_id = 31, s_course = 11, s_part = Some 21, s_sort = 2, s_status = CT_PUBLISHED, s_unlocks_at = None,
         s_deleted_at = None\<rparr>,
       \<lparr>s_id = 32, s_course = 11, s_part = Some 21, s_sort = 1, s_status = CT_HIDDEN, s_unlocks_at = None, s_deleted_at = None\<rparr>]\<rparr>"

definition part_request :: batch_request where
  "part_request = \<lparr>bq_target = Some T_PART, bq_course = None, bq_section = None, bq_teacher = None,
     bq_part = Some 21, bq_name = None, bq_count = 1, bq_max = None, bq_reserved_for = None,
     bq_duration_type = None, bq_duration_days = None, bq_access_ends = None, bq_price = None,
     bq_collected = None, bq_free = False, bq_expires = None, bq_note = [], bq_prefix = []\<rparr>"

definition zero_draws :: "nat list list" where
  "zero_draws = [replicate 12 0]"

definition part_card :: code_row where
  "part_card = \<lparr>k_id = 51, k_text = ''AAAA-AAAA-AAAA'', k_kind = K_ACCESS, k_target = T_PART,
      k_status = KS_ACTIVE, k_course = Some 11, k_section = None, k_teacher = None, k_part = Some 21,
      k_sections = [32, 31], k_courses = [11], k_reserved_for = None, k_max = 1, k_count = 0,
      k_duration_type = None, k_duration_days = None, k_access_ends = None, k_expires = None,
      k_batch = Some 50, k_price = None, k_face = None, k_actual_paid = None, k_credit = None,
      k_discount = None, k_discount_type = D_NONE, k_discount_percent = None,
      k_redeemed_at = None, k_redeemed_by = None, k_revoked_at = None, k_revoked_by = None\<rparr>"

lemma example_texts: "collect_codes (clean_prefix []) 1 zero_draws [] = Some [''AAAA-AAAA-AAAA'']"
  by code_simp

lemma example_issue:
  "\<exists>out t. generate_batch zero_draws part_request 9 shop_db = Inr (Some out, t)
     \<and> bo_codes out = [''AAAA-AAAA-AAAA''] \<and> codes t = [part_card] \<and> redemptions t = []"
  using example_texts
  by (simp add: generate_batch_def part_request_def issued_price_def resolve_target_def Let_def
      resolve_part_target_def live_sections_def shop_db_def empty_db_def create_batch_def
      issue_audit_def access_card_def part_card_def audit_with_def bind_tx_def)

lemma codes_start_shop: "codes_start (now, shop_db)"
  by (simp add: codes_start_def books_start_def shop_db_def empty_db_def)

lemma normalize_example: "normalize_code ''AAAA-AAAA-AAAA'' = ''AAAA-AAAA-AAAA''"
  by code_simp

lemma example_redeem:
  assumes "codes t = [part_card]" "redemptions t = []"
  shows "\<exists>scope v. redeem_in_transaction ''AAAA-AAAA-AAAA'' 3 11 None now t = Inr ((part_card, scope), v)
    \<and> codes v = [count_redemption part_card part_card]"
  using assms
  by (simp add: redeem_in_transaction_Inr_iff normalize_example part_card_def not_lapsed_def reserved_ok_def
      resolve_redemption_scope_def Let_def find_redemption_def upd_where_Cons)

lemma example_issue_step:
  "generate_batch zero_draws part_request 9 shop_db = Inr (out, t) \<Longrightarrow> codes_step (1, shop_db) (2, t)"
  by (rule ks_issue) (auto simp: part_request_def)

theorem card_uses_bounded_witness:
  "\<exists>t. codes_step (1, shop_db) (2, t) \<and> codes t = [part_card] \<and> k_count part_card \<le> k_max part_card"
proof -
  obtain out t where t: "generate_batch zero_draws part_request 9 shop_db = Inr (Some out, t)"
    "codes t = [part_card]" using example_issue by blast
  from card_uses_bounded [OF codes_start_shop [of 1] r_into_rtranclp [of codes_step, OF example_issue_step [OF t(1)]],
      of part_card] t example_issue_step [OF t(1)]
  show ?thesis by auto
qed

theorem dead_card_stays_dead_witness:
  "\<exists>t u. codes_step\<^sup>*\<^sup>* (1, shop_db) (2, t) \<and> codes_step (2, t) (3, u)
    \<and> count_redemption part_card part_card \<in> set (codes u)"
proof -
  obtain out t0 where t0: "generate_batch zero_draws part_request 9 shop_db = Inr (Some out, t0)"
    "codes t0 = [part_card]" "redemptions t0 = []" using example_issue by blast
  obtain scope t where t: "redeem_in_transaction ''AAAA-AAAA-AAAA'' 3 11 None 2 t0 = Inr ((part_card, scope), t)"
    "codes t = [count_redemption part_card part_card]" using example_redeem [OF t0(2,3)] by blast
  have s: "codes_step\<^sup>*\<^sup>* (1, shop_db) (2, t)"
    using example_issue_step [OF t0(1)] ks_redeem [OF t(1), of 2] by (meson order_refl rtranclp.simps)
  let ?u = "snd (expire_lapsed_codes 3 t)"
  have u: "codes_step (2, t) (3, ?u)" by (rule ks_expire [of _ _ "fst (expire_lapsed_codes 3 t)"]) simp_all
  have "k_status (count_redemption part_card part_card) \<noteq> KS_ACTIVE"
    by (simp add: count_redemption_def part_card_def)
  from dead_card_stays_dead [OF codes_start_shop s r_into_rtranclp [of codes_step, OF u] _ this] t(2) s u
  show ?thesis by auto
qed

theorem batch_texts_find_cards_witness:
  "\<exists>out t. generate_batch zero_draws part_request 9 shop_db = Inr (Some out, t) \<and> distinct (bo_codes out)"
  using example_issue batch_texts_find_cards [of zero_draws part_request 9 shop_db]
  by (fastforce simp: zero_draws_def)

theorem part_card_unlocks_frozen_sections_witness:
  "\<exists>t scope v. redeem_in_transaction ''AAAA-AAAA-AAAA'' 3 11 None 2 t = Inr ((part_card, scope), v)
    \<and> sc_sections scope = Some [32, 31]"
proof -
  obtain out t where t: "generate_batch zero_draws part_request 9 shop_db = Inr (Some out, t)"
    "codes t = [part_card]" "redemptions t = []" "bo_codes out = [''AAAA-AAAA-AAAA'']"
    using example_issue by blast
  obtain scope v where v: "redeem_in_transaction ''AAAA-AAAA-AAAA'' 3 11 None 2 t = Inr ((part_card, scope), v)"
    using example_redeem [OF t(2,3)] by blast
  have "sort_key s_sort (live_sections (\<lambda>x. s_part x = Some 21) shop_db)
      = rev (sections shop_db)"
    by (simp add: live_sections_def shop_db_def empty_db_def)
  moreover have "sc_sections scope
      = Some (map s_id (sort_key s_sort (live_sections (\<lambda>x. s_part x = Some 21) shop_db)))"
    using part_card_unlocks_frozen_sections [OF codes_start_shop rtranclp.rtrancl_refl t(1) _ _ _ order_refl
        rtranclp.rtrancl_refl _ _ v, of 21] t(4)
    by (simp add: part_request_def normalize_example shop_db_def empty_db_def)
  ultimately show ?thesis using v by (auto simp: shop_db_def)
qed

theorem preview_decides_redemption_witness:
  "\<exists>t. (\<exists>r u. redeem_in_transaction ''AAAA-AAAA-AAAA'' 3 11 None 2 t = Inr (r, u))
    \<and> (\<exists>p. validate_code ''AAAA-AAAA-AAAA'' 3 (Some 11) 2 t = Inr (p, t))"
proof -
  obtain out t where t0: "generate_batch zero_draws part_request 9 shop_db = Inr (Some out, t)"
    and t: "codes t = [part_card]" "redemptions t = []" using example_issue by blast
  have "find_by k_text (normalize_code ''AAAA-AAAA-AAAA'') (codes t) = Some part_card"
    using t by (simp add: normalize_example part_card_def)
  from preview_decides_redemption [OF this, of 3 11 None 2] example_redeem [OF t, of 2]
  show ?thesis by (auto simp: complete_card_def part_card_def)
qed

definition recharge_example :: recharge_batch_request where
  "recharge_example = \<lparr>rq_money = \<lparr>di_face = MNum ''100'', di_type = None, di_percent = None, di_amount = None\<rparr>,
     rq_count = 1, rq_name = None, rq_expires = None, rq_reserved_for = None, rq_note = [], rq_prefix = [],
     rq_override_minimum = False\<rparr>"

lemma example_money:
  "\<exists>money. resolve_discount (rq_money recharge_example) = Inr money \<and> dr_face money = 10000"
proof -
  have "to_piastres (MNum ''100'') ''faceValue'' = Inr 10000" by (simp add: parse_simps)
  moreover have "is_safe_integer 10000" "is_safe_integer 0" by (simp_all add: is_safe_integer_def)
  ultimately show ?thesis
    by (simp add: resolve_discount_def discount_of_def recharge_example_def from_piastres_def)
qed

lemma example_recharge_issue:
  "\<exists>out t k. generate_recharge_batch \<lparr>rb_minimum = 50, rb_maximum = 5000, rb_allow_override = False\<rparr>
      zero_draws recharge_example 9 shop_db = Inr (Some out, t)
    \<and> k \<in> set (codes t) \<and> k_kind k = K_RECHARGE \<and> k_text k = ''AAAA-AAAA-AAAA''"
proof -
  have f: "rq_count recharge_example = 1" "rq_prefix recharge_example = []"
    by (simp_all add: recharge_example_def)
  obtain money where "resolve_discount (rq_money recharge_example) = Inr money" "dr_face money = 10000"
    using example_money by blast
  then show ?thesis
    using example_texts
    by (simp add: generate_recharge_batch_def f check_bounds_def create_batch_def
        issue_audit_def financial_card_def audit_with_def shop_db_def empty_db_def bind_tx_def)
qed

theorem recharge_cards_carry_money_only_witness:
  "\<exists>t k. k \<in> set (codes t) \<and> balanced_card k
    \<and> redeem_in_transaction ''AAAA-AAAA-AAAA'' 3 11 None 2 t = Inl (app_error CODE_NOT_RECHARGEABLE)"
proof -
  obtain out t k where t: "generate_recharge_batch \<lparr>rb_minimum = 50, rb_maximum = 5000, rb_allow_override = False\<rparr>
      zero_draws recharge_example 9 shop_db = Inr (Some out, t)"
    and k: "k \<in> set (codes t)" "k_kind k = K_RECHARGE" "k_text k = ''AAAA-AAAA-AAAA''"
    using example_recharge_issue by blast
  have "codes_step (1, shop_db) (2, t)" by (rule ks_issue_recharge [OF t]) simp
  from recharge_cards_carry_money_only [OF codes_start_shop r_into_rtranclp [of codes_step, OF this] k(1,2)]
  show ?thesis using k normalize_example by metis
qed

end
