(* ===== verification/Access.thy ===== *)
theory Access
  imports Schema
begin

text \<open>
  Who may see what (\<open>modules/courses/course-access.service.ts\<close>): the access decision with its
  precedence of archive, revocation, window and stored state; the content gate with its preview
  exception; the join methods offered; the staff checks; the academic group a course is offered to,
  as a predicate and as the filter of the lists; and the sections an enrollment covers. All of it
  reads the database and the clock, so each operation is a function of the two.
\<close>

section \<open>Decisions\<close>

datatype (plugins only: code) access_state =
    A_NOT_ENROLLED | A_PENDING_APPROVAL | A_PENDING_PAYMENT | A_ACTIVE | A_EXPIRED | A_REVOKED | A_ARCHIVED

record access_decision =
  ad_state :: access_state
  ad_can :: bool
  ad_enrollment :: "enrollment_row option"
  ad_expires :: "time option"
  ad_denial :: "error_code option"

definition refusal :: "access_state \<Rightarrow> enrollment_row option \<Rightarrow> time option \<Rightarrow> error_code \<Rightarrow> access_decision" where
  "refusal st e expires code =
     \<lparr>ad_state = st, ad_can = False, ad_enrollment = e, ad_expires = expires, ad_denial = Some code\<rparr>"

definition decide_stored :: "course_status \<Rightarrow> enrollment_row \<Rightarrow> access_decision" where
  "decide_stored status e =
     (case e_state e of
        ES_ACTIVE \<Rightarrow>
          if status = CS_SUSPENDED \<or> status = CS_DRAFT
          then refusal A_ACTIVE (Some e) (e_ends e) COURSE_NOT_AVAILABLE
          else \<lparr>ad_state = A_ACTIVE, ad_can = True, ad_enrollment = Some e, ad_expires = e_ends e, ad_denial = None\<rparr>
      | ES_PENDING_APPROVAL \<Rightarrow> refusal A_PENDING_APPROVAL (Some e) (e_ends e) ENROLLMENT_PENDING
      | ES_PENDING_PAYMENT \<Rightarrow> refusal A_PENDING_PAYMENT (Some e) (e_ends e) PAYMENT_REQUIRED
      | ES_EXPIRED \<Rightarrow> refusal A_EXPIRED (Some e) (e_ends e) ACCESS_EXPIRED
      | ES_ARCHIVED \<Rightarrow> refusal A_ARCHIVED (Some e) (e_ends e) COURSE_ARCHIVED
      | ES_REVOKED \<Rightarrow> refusal A_NOT_ENROLLED (Some e) None NOT_ENROLLED)"

definition window_lapsed :: "time \<Rightarrow> enrollment_row \<Rightarrow> bool" where
  "window_lapsed now e \<longleftrightarrow> (case e_ends e of None \<Rightarrow> False | Some x \<Rightarrow> x \<le> now)"

definition decide :: "course_status \<Rightarrow> enrollment_row option \<Rightarrow> time \<Rightarrow> access_decision" where
  "decide status enrollment now =
     (if status = CS_ARCHIVED
      then refusal A_ARCHIVED enrollment (Option.bind enrollment e_ends) COURSE_ARCHIVED
      else
        (case enrollment of
           None \<Rightarrow> refusal A_NOT_ENROLLED None None NOT_ENROLLED
         | Some e \<Rightarrow>
             if e_state e = ES_REVOKED then refusal A_REVOKED (Some e) (e_ends e) NOT_ENROLLED
             else if window_lapsed now e then refusal A_EXPIRED (Some e) (e_ends e) ACCESS_EXPIRED
             else if now < e_starts e \<and> e_state e = ES_ACTIVE
             then refusal A_PENDING_APPROVAL (Some e) (e_ends e) ENROLLMENT_PENDING
             else decide_stored status e))"

section \<open>Rows the decisions read\<close>

definition find_enrollment :: "id \<Rightarrow> id \<Rightarrow> db \<Rightarrow> enrollment_row option" where
  "find_enrollment user course s = List.find (\<lambda>e. e_user e = user \<and> e_course e = course) (enrollments s)"

definition find_course :: "id \<Rightarrow> db \<Rightarrow> course_row option" where
  "find_course course s = List.find (\<lambda>c. c_id c = course \<and> c_deleted_at c = None) (courses s)"

definition find_assignment :: "id \<Rightarrow> id \<Rightarrow> db \<Rightarrow> teacher_row option" where
  "find_assignment teacher course s = List.find (\<lambda>a. ct_course a = course \<and> ct_teacher a = teacher) (teachers s)"

section \<open>Staff\<close>

text \<open>A lookup by a null identifier is refused by the database client.\<close>

definition staff_may_view_course :: "id option \<Rightarrow> user_role \<Rightarrow> id \<Rightarrow> db \<Rightarrow> exn + bool" where
  "staff_may_view_course user role course s =
     (if role = R_MASTER \<or> role = R_ADMIN then Inr True
      else if role \<noteq> R_TEACHER then Inr False
      else case user of None \<Rightarrow> Inl PrismaValidation | Some u \<Rightarrow> Inr (find_assignment u course s \<noteq> None))"

datatype (plugins only: code) course_capability =
    CAP_CONTENT | CAP_PRICING | CAP_PUBLISH | CAP_STUDENTS | CAP_REVENUE

definition assignment_permits :: "course_capability \<Rightarrow> teacher_row \<Rightarrow> bool" where
  "assignment_permits cap a =
     (case cap of CAP_CONTENT \<Rightarrow> ct_can_content a | CAP_PRICING \<Rightarrow> ct_can_pricing a
      | CAP_PUBLISH \<Rightarrow> ct_can_publish a | CAP_STUDENTS \<Rightarrow> ct_can_students a | CAP_REVENUE \<Rightarrow> ct_can_revenue a)"

definition assert_teacher_capability :: "('c \<Rightarrow> bool) \<Rightarrow> user_role \<Rightarrow> 'c \<Rightarrow> exn + unit" where
  "assert_teacher_capability teacher_may role cap =
     (if role \<noteq> R_TEACHER then Inr () else require (teacher_may cap) (app_error FORBIDDEN))"

definition assert_can_manage_course :: "id \<Rightarrow> user_role \<Rightarrow> id \<Rightarrow> course_capability \<Rightarrow> db \<Rightarrow> exn + unit" where
  "assert_can_manage_course user role course cap s =
     (if role = R_MASTER \<or> role = R_ADMIN then Inr ()
      else if role \<noteq> R_TEACHER then Inl (app_error INSUFFICIENT_ROLE)
      else case find_assignment user course s of
             None \<Rightarrow> Inl (app_error NOT_COURSE_TEACHER)
           | Some a \<Rightarrow> require (assignment_permits cap a) (app_error FORBIDDEN))"

definition assert_course_exists_and_manageable ::
  "id \<Rightarrow> user_role \<Rightarrow> id \<Rightarrow> course_capability \<Rightarrow> db \<Rightarrow> exn + unit" where
  "assert_course_exists_and_manageable user role course cap s =
     (case find_course course s of
        None \<Rightarrow> Inl not_found
      | Some _ \<Rightarrow> assert_can_manage_course user role course cap s)"

definition teacher_course_ids :: "id \<Rightarrow> db \<Rightarrow> id list" where
  "teacher_course_ids teacher s = map ct_course (filter (\<lambda>a. ct_teacher a = teacher) (teachers s))"

text \<open>\<open>None\<close> is unrestricted; the capability is one of students and revenue.\<close>

definition readable_course_ids :: "id \<Rightarrow> user_role \<Rightarrow> course_capability \<Rightarrow> db \<Rightarrow> exn + id list option" where
  "readable_course_ids user role cap s =
     (if role = R_MASTER \<or> role = R_ADMIN then Inr None
      else if role \<noteq> R_TEACHER then Inl (app_error INSUFFICIENT_ROLE)
      else Inr (Some (map ct_course (filter (\<lambda>a. ct_teacher a = user
             \<and> (if cap = CAP_STUDENTS then ct_can_students a else ct_can_revenue a)) (teachers s)))))"

section \<open>The academic group\<close>

definition course_targeting_enabled :: bool where
  "course_targeting_enabled = True"

definition profile_matches :: "course_row \<Rightarrow> profile_row \<Rightarrow> bool" where
  "profile_matches c p =
     (if c_departments c \<noteq> [] \<and> \<not> list_ex (\<lambda>d. Some d = sp_department p) (c_departments c) then False
      else if c_university c \<noteq> None \<and> c_university c \<noteq> sp_university p then False
      else if c_faculty c \<noteq> None \<and> c_faculty c \<noteq> sp_faculty p then False
      else True)"

definition is_targeted_to_student :: "id \<Rightarrow> id \<Rightarrow> user_role \<Rightarrow> db \<Rightarrow> bool" where
  "is_targeted_to_student user course role s =
     (if role \<noteq> R_STUDENT then True
      else case find_course course s of
             None \<Rightarrow> True
           | Some c \<Rightarrow>
               if c_departments c = [] \<and> c_university c = None \<and> c_faculty c = None then True
               else case find_by sp_user user (profiles s) of
                      None \<Rightarrow> False
                    | Some p \<Rightarrow> profile_matches c p)"

definition assert_course_targeting :: "id \<Rightarrow> user_role \<Rightarrow> id \<Rightarrow> db \<Rightarrow> exn + unit" where
  "assert_course_targeting user role course s =
     (if \<not> course_targeting_enabled then Inr ()
      else if role \<noteq> R_STUDENT then Inr ()
      else if is_targeted_to_student user course role s then Inr ()
      else Inl (app_error COURSE_NOT_TARGETED))"

text \<open>
  The filter the lists put on their query, as the set of rows it keeps. A comparison of a column
  with a null value is the test that the column is null.
\<close>

definition student_course_where :: "id option \<Rightarrow> db \<Rightarrow> course_row \<Rightarrow> bool" where
  "student_course_where user s c =
     (case user of
        None \<Rightarrow> True
      | Some u \<Rightarrow>
          (case find_by sp_user u (profiles s) of
             None \<Rightarrow> c_university c = None \<and> c_faculty c = None \<and> c_departments c = []
           | Some p \<Rightarrow>
               (c_university c = None \<or> c_university c = sp_university p)
               \<and> (c_faculty c = None \<or> c_faculty c = sp_faculty p)
               \<and> (c_departments c = []
                  \<or> (\<exists>d \<in> set (c_departments c). Some d = sp_department p))))"

section \<open>Resolving access\<close>

definition resolve :: "id option \<Rightarrow> user_role option \<Rightarrow> id \<Rightarrow> time \<Rightarrow> db \<Rightarrow> exn + access_decision" where
  "resolve user role course now s =
     (case find_course course s of
        None \<Rightarrow> Inr (refusal A_NOT_ENROLLED None None NOT_FOUND)
      | Some c \<Rightarrow>
          bind_r (case role of
                    Some r \<Rightarrow> if r \<noteq> R_STUDENT then staff_may_view_course user r course s else Inr False
                  | None \<Rightarrow> Inr False) (\<lambda>staff.
          if staff then
            Inr \<lparr>ad_state = (if c_status c = CS_ARCHIVED then A_ARCHIVED else A_ACTIVE),
                 ad_can = (c_status c \<noteq> CS_ARCHIVED), ad_enrollment = None, ad_expires = None,
                 ad_denial = (if c_status c = CS_ARCHIVED then Some COURSE_ARCHIVED else None)\<rparr>
          else
            (case user of
               None \<Rightarrow> Inr (refusal A_NOT_ENROLLED None None UNAUTHORIZED)
             | Some u \<Rightarrow>
                 bind_r (assert_course_targeting u (case role of None \<Rightarrow> R_STUDENT | Some r \<Rightarrow> r) course s) (\<lambda>_.
                 Inr (decide (c_status c) (find_enrollment u course s) now)))))"

definition assert_content_access ::
  "id \<Rightarrow> user_role \<Rightarrow> id \<Rightarrow> bool \<Rightarrow> bool \<Rightarrow> time \<Rightarrow> db \<Rightarrow> exn + access_decision" where
  "assert_content_access user role course allow_preview is_preview now s =
     bind_r (resolve (Some user) (Some role) course now s) (\<lambda>d.
     if ad_can d then Inr d
     else if allow_preview \<and> is_preview \<and> ad_state d \<noteq> A_ARCHIVED
             \<and> ad_denial d \<noteq> Some COURSE_NOT_AVAILABLE
     then Inr (d\<lparr>ad_can := True\<rparr>)
     else Inl (app_error (case ad_denial d of None \<Rightarrow> NOT_ENROLLED | Some c \<Rightarrow> c)))"

text \<open>Online payment is switched off for good, so no list of methods offers it.\<close>

definition online_payment_enabled :: bool where
  "online_payment_enabled = False"

definition available_methods ::
  "access_state \<Rightarrow> enrollment_method list \<Rightarrow> course_status \<Rightarrow> enrollment_method list" where
  "available_methods st configured status =
     (if status \<noteq> CS_PUBLISHED then []
      else
        let offerable = (if online_payment_enabled then configured else filter (\<lambda>m. m \<noteq> M_PAYMENT) configured) in
        case st of
          A_NOT_ENROLLED \<Rightarrow> offerable
        | A_EXPIRED \<Rightarrow> offerable
        | A_PENDING_PAYMENT \<Rightarrow> filter (\<lambda>m. m = M_PAYMENT \<or> m = M_CODE) offerable
        | _ \<Rightarrow> [])"

record course_access =
  ca_state :: access_state
  ca_expires :: "time option"
  ca_enrolled :: "time option"
  ca_methods :: "enrollment_method list"

definition to_course_access ::
  "access_decision \<Rightarrow> enrollment_method list \<Rightarrow> course_status \<Rightarrow> course_access" where
  "to_course_access d configured status =
     \<lparr>ca_state = ad_state d, ca_expires = ad_expires d, ca_enrolled = map_option e_created (ad_enrollment d),
      ca_methods = available_methods (ad_state d) configured status\<rparr>"

definition resolve_many ::
  "id option \<Rightarrow> (id \<times> course_status \<times> enrollment_method list) list \<Rightarrow> time \<Rightarrow> db
     \<Rightarrow> id \<rightharpoonup> access_decision \<times> course_access" where
  "resolve_many user cs now s =
     (let found = (case user of None \<Rightarrow> [] | Some u \<Rightarrow>
            filter (\<lambda>e. e_user e = u \<and> e_course e \<in> fst ` set cs) (enrollments s)) in
      map_of (rev (map (\<lambda>(i, status, configured).
        let d = decide status (find_by e_course i found) now in
        (i, (d, to_course_access d configured status))) cs)))"

section \<open>The sections an enrollment covers\<close>

text \<open>\<open>grantedByWholeCourseCard\<close>: a grant names a course card for this course that this student redeemed.\<close>

definition grants_of :: "enrollment_row \<Rightarrow> db \<Rightarrow> grant_row list" where
  "grants_of e s = filter (\<lambda>g. g_enrollment g = e_id e) (grants s)"

definition granted_by_whole_course_card :: "id \<Rightarrow> id \<Rightarrow> grant_row list \<Rightarrow> db \<Rightarrow> bool" where
  "granted_by_whole_course_card user course gs s =
     (let ids = remdups (List.map_filter g_code gs) in
      if ids = [] then False
      else 0 < count_where (\<lambda>r. rd_user r = user \<and> rd_code r \<in> set ids
             \<and> (\<exists>k \<in> set (codes s). k_id k = rd_code r \<and> k_target k = T_COURSE
                  \<and> (k_course k = Some course \<or> k_course k = None))) (redemptions s))"

definition holds_whole_course :: "id \<Rightarrow> id \<Rightarrow> db \<Rightarrow> bool" where
  "holds_whole_course user course s =
     (case find_enrollment user course s of
        None \<Rightarrow> False
      | Some e \<Rightarrow> if e_covers_all e then True else granted_by_whole_course_card user course (grants_of e s) s)"

text \<open>The live sections of the parts the student owns now.\<close>

definition owns_part :: "id \<Rightarrow> id \<Rightarrow> db \<Rightarrow> bool" where
  "owns_part user part s \<longleftrightarrow>
     (\<exists>p \<in> set (parts s). cpt_id p = part \<and> cpt_deleted_at p = None)
     \<and> (\<exists>x \<in> set (entitlements s). pe_part x = part \<and> pe_user x = user \<and> pe_revoked_at x = None)"

definition owned_part_sections :: "id \<Rightarrow> id \<Rightarrow> db \<Rightarrow> id list" where
  "owned_part_sections user course s =
     map s_id (filter (\<lambda>x. s_course x = course \<and> s_deleted_at x = None \<and> s_status x \<noteq> CT_ARCHIVED
       \<and> (case s_part x of None \<Rightarrow> False | Some p \<Rightarrow> owns_part user p s)) (sections s))"

definition allowed_section_ids :: "id \<Rightarrow> id \<Rightarrow> db \<Rightarrow> exn + id list option" where
  "allowed_section_ids user course s =
     bind_r (assert_course_targeting user R_STUDENT course s) (\<lambda>_.
     case find_enrollment user course s of
       None \<Rightarrow> Inr None
     | Some e \<Rightarrow>
         if e_covers_all e then Inr None
         else if granted_by_whole_course_card user course (grants_of e s) s then Inr None
         else Inr (Some (rev (remdups (rev (map g_section (grants_of e s)
                @ owned_part_sections user course s))))))"

definition assert_section_accessible :: "id \<Rightarrow> id \<Rightarrow> id \<Rightarrow> db \<Rightarrow> exn + unit" where
  "assert_section_accessible user course sec s =
     bind_r (allowed_section_ids user course s) (\<lambda>allowed.
     case allowed of
       None \<Rightarrow> Inr ()
     | Some ids \<Rightarrow> require (sec \<in> set ids) (app_error NOT_ENROLLED))"

text \<open>\<open>CoursesService.requirePublishedCourse\<close> and \<open>currentPrice\<close>.\<close>

definition require_published_course :: "id \<Rightarrow> course_row dbtx" where
  "require_published_course course =
     bind_tx (get_tx (find_course course)) (\<lambda>found.
     bind_tx (the_or not_found found) (\<lambda>c.
     bind_tx (require_tx (c_status c \<noteq> CS_ARCHIVED) (app_error COURSE_ARCHIVED)) (\<lambda>_.
     bind_tx (require_tx (c_status c = CS_PUBLISHED) (app_error COURSE_NOT_AVAILABLE)) (\<lambda>_.
     ret_tx c))))"

definition current_price :: "id \<Rightarrow> db \<Rightarrow> price_row option" where
  "current_price course s = List.find (\<lambda>p. cp_course p = course \<and> cp_current p) (prices s)"

section \<open>The content gate\<close>

lemma decide_can:
  "ad_can (decide status e now) \<longleftrightarrow>
     status \<notin> {CS_ARCHIVED, CS_SUSPENDED, CS_DRAFT}
     \<and> (\<exists>x. e = Some x \<and> e_state x = ES_ACTIVE \<and> e_starts x \<le> now \<and> \<not> window_lapsed now x)"
  by (cases e) (auto simp: decide_def decide_stored_def refusal_def split: enrollment_state.splits)

text \<open>C4: what it takes to see protected content. For a student the gate opens, outside previews, exactly
  when the course exists and is neither archived, suspended nor withdrawn to draft, is offered to
  the student's academic group, and the student's enrollment is active inside its access window;
  whatever the stored state says, a lapsed window closes it.\<close>

theorem content_gate_iff:
  "(\<exists>d. assert_content_access user R_STUDENT course False is_preview now s = Inr d) \<longleftrightarrow>
     (\<exists>c. find_course course s = Some c \<and> c_status c \<notin> {CS_ARCHIVED, CS_SUSPENDED, CS_DRAFT})
     \<and> is_targeted_to_student user course R_STUDENT s
     \<and> (\<exists>e. find_enrollment user course s = Some e \<and> e_state e = ES_ACTIVE
          \<and> e_starts e \<le> now \<and> (e_ends e = None \<or> (\<exists>x. e_ends e = Some x \<and> now < x)))"
proof -
  have w: "\<not> window_lapsed now e \<longleftrightarrow> e_ends e = None \<or> (\<exists>x. e_ends e = Some x \<and> now < x)" for e
    by (auto simp: window_lapsed_def split: option.splits)
  show ?thesis
  proof (cases "find_course course s")
    case None
    then show ?thesis by (simp add: assert_content_access_def resolve_def refusal_def)
  next
    case (Some c)
    then show ?thesis
      using decide_can [of "c_status c" "find_enrollment user course s" now]
      by (auto simp: assert_content_access_def resolve_def assert_course_targeting_def
          course_targeting_enabled_def w split: if_splits)
  qed
qed

text \<open>the lists and the gate agree on the academic group. A course a student's lists show is exactly
  one that is offered to them, profile or no profile.\<close>

theorem listed_iff_targeted:
  assumes "find_course course s = Some c"
  shows "student_course_where (Some user) s c \<longleftrightarrow> is_targeted_to_student user course R_STUDENT s"
  using assms
  by (auto simp: student_course_where_def is_targeted_to_student_def profile_matches_def list_ex_iff
      split: option.splits if_splits)

text \<open>A general course, one offered to a single department, and two students.\<close>

definition campus_course :: "id \<Rightarrow> id list \<Rightarrow> course_row" where
  "campus_course i deps = \<lparr>c_id = i, c_title = [], c_status = CS_PUBLISHED, c_university = None,
     c_faculty = None, c_departments = deps, c_methods = [M_FREE, M_PAYMENT, M_CODE], c_is_free = False,
     c_duration_type = LIFETIME, c_duration_days = None, c_access_ends = None, c_student_count = 0,
     c_section_count = 0, c_lesson_count = 0, c_total_duration = 0, c_rule = WATCH_PERCENT, c_threshold = 90, c_contiguous = True,
     c_deleted_at = None\<rparr>"

definition campus_enrollment :: enrollment_row where
  "campus_enrollment = \<lparr>e_id = 40, e_user = 3, e_course = 12, e_state = ES_ACTIVE, e_method = M_CODE,
     e_starts = 0, e_ends = None, e_approved_by = None, e_approved_at = None, e_revoked_by = None,
     e_revoked_at = None, e_revoked_reason = None, e_covers_all = False, e_completed_lessons = 0, e_last_lesson = None,
     e_last_accessed = None, e_created = 0\<rparr>"

definition campus_db :: db where
  "campus_db = empty_db\<lparr>db_next := 90, courses := [campus_course 11 [], campus_course 12 [7]],
     profiles := [\<lparr>sp_user = 3, sp_university = None, sp_faculty = None, sp_department = Some 7, sp_year = None\<rparr>],
     enrollments := [campus_enrollment],
     parts := [\<lparr>cpt_id = 21, cpt_course = 12, cpt_title = [], cpt_sort = 1, cpt_status = CT_PUBLISHED,
       cpt_active = False, cpt_pricing = FIXED, cpt_percent = None, cpt_amount = None, cpt_thumbnail = None, cpt_deleted_at = None\<rparr>],
     entitlements := [\<lparr>pe_id = 60, pe_user = 3, pe_part = 21, pe_course = 12, pe_source = PE_CODE,
       pe_purchase = None, pe_granted = 0, pe_revoked_at = None, pe_revoked_by = None, pe_revoked_reason = None\<rparr>],
     sections := [\<lparr>s_id = 31, s_course = 12, s_part = Some 21, s_sort = 1, s_status = CT_PUBLISHED, s_unlocks_at = None,
       s_deleted_at = None\<rparr>]\<rparr>"

lemma campus_rows:
  "find_course 12 campus_db = Some (campus_course 12 [7])"
  "find_enrollment 3 12 campus_db = Some campus_enrollment"
  "is_targeted_to_student 3 12 R_STUDENT campus_db"
  "\<not> is_targeted_to_student 4 12 R_STUDENT campus_db"
  by (simp_all add: find_course_def find_enrollment_def campus_db_def campus_course_def
      campus_enrollment_def empty_db_def is_targeted_to_student_def profile_matches_def)

theorem listed_iff_targeted_witness:
  "student_course_where (Some 3) campus_db (campus_course 12 [7])
    \<and> \<not> student_course_where (Some 4) campus_db (campus_course 12 [7])"
  using listed_iff_targeted [OF campus_rows(1), of 3] listed_iff_targeted [OF campus_rows(1), of 4]
    campus_rows(3,4) by simp

section \<open>The section gate\<close>

text \<open>The section gate. A student who is enrolled in a course offered to them reaches a section
  exactly when they hold the whole course, were granted that section, or own the part that contains
  it now: ownership of a part is live, so a section added to it is covered at once.\<close>

theorem section_gate_iff:
  assumes "is_targeted_to_student user course R_STUDENT s" "find_enrollment user course s = Some e"
  shows "assert_section_accessible user course sec s = Inr () \<longleftrightarrow>
     holds_whole_course user course s
     \<or> (\<exists>g \<in> set (grants s). g_enrollment g = e_id e \<and> g_section g = sec)
     \<or> (\<exists>x \<in> set (sections s). s_id x = sec \<and> s_course x = course \<and> s_deleted_at x = None
          \<and> s_status x \<noteq> CT_ARCHIVED \<and> (\<exists>p. s_part x = Some p \<and> owns_part user p s))"
proof -
  have "sec \<in> set (map g_section (grants_of e s)) \<longleftrightarrow>
      (\<exists>g \<in> set (grants s). g_enrollment g = e_id e \<and> g_section g = sec)"
    by (auto simp: grants_of_def)
  moreover have "sec \<in> set (owned_part_sections user course s) \<longleftrightarrow>
      (\<exists>x \<in> set (sections s). s_id x = sec \<and> s_course x = course \<and> s_deleted_at x = None
          \<and> s_status x \<noteq> CT_ARCHIVED \<and> (\<exists>p. s_part x = Some p \<and> owns_part user p s))"
    by (auto simp: owned_part_sections_def split: option.splits)
  ultimately show ?thesis
    using assms
    by (auto simp: assert_section_accessible_def allowed_section_ids_def assert_course_targeting_def
        holds_whole_course_def require_def)
qed

theorem section_gate_iff_witness:
  "assert_section_accessible 3 12 31 campus_db = Inr ()
    \<and> assert_section_accessible 3 12 32 campus_db \<noteq> Inr ()"
proof -
  have "grants campus_db = []" "\<not> e_covers_all campus_enrollment"
    by (simp_all add: campus_db_def empty_db_def campus_enrollment_def)
  then have h: "\<not> holds_whole_course 3 12 campus_db"
    by (simp add: holds_whole_course_def campus_rows granted_by_whole_course_card_def grants_of_def
        List.map_filter_def)
  have o: "owns_part 3 21 campus_db" by (simp add: owns_part_def campus_db_def)
  have g: "grants campus_db = []" "map s_id (sections campus_db) = [31]"
    by (simp_all add: campus_db_def empty_db_def)
  have "\<exists>x \<in> set (sections campus_db). s_id x = 31 \<and> s_course x = 12 \<and> s_deleted_at x = None
      \<and> s_status x \<noteq> CT_ARCHIVED \<and> (\<exists>p. s_part x = Some p \<and> owns_part 3 p campus_db)"
    using o by (simp add: campus_db_def)
  moreover have "\<not> (\<exists>x \<in> set (sections campus_db). s_id x = 32)" by (simp add: campus_db_def)
  ultimately show ?thesis
    using section_gate_iff [OF campus_rows(3,2), of 31] section_gate_iff [OF campus_rows(3,2), of 32] h g
    by auto
qed

text \<open>Joining is offered only for published courses and never by online payment.\<close>

lemma offered_methods:
  "m \<in> set (available_methods st configured status) \<Longrightarrow>
   m \<in> set configured \<and> m \<noteq> M_PAYMENT \<and> status = CS_PUBLISHED \<and> st \<in> {A_NOT_ENROLLED, A_EXPIRED, A_PENDING_PAYMENT}"
  by (auto simp: available_methods_def online_payment_enabled_def Let_def
      split: if_splits access_state.splits)

text \<open>The badge of a list and the decision of the gate are the same for a student the course targets.\<close>

lemma badge_is_decision:
  assumes "find_course course s = Some c" "is_targeted_to_student user course R_STUDENT s"
    and "unique_on (\<lambda>e. (e_user e, e_course e)) (enrollments s)"
  shows "map_option (\<lambda>x. Inr (fst x)) (resolve_many (Some user) [(course, c_status c, c_methods c)] now s course)
    = Some (resolve (Some user) (Some R_STUDENT) course now s)"
proof -
  have "find_by e_course course (filter (\<lambda>e. e_user e = user \<and> e_course e = course) es)
      = List.find (\<lambda>e. e_user e = user \<and> e_course e = course) es" for es :: "enrollment_row list"
    by (induction es) auto
  then show ?thesis using assms
    by (simp add: resolve_many_def resolve_def assert_course_targeting_def find_enrollment_def Let_def)
qed

end
