(* ===== verification/Revocation.thy ===== *)
theory Revocation
  imports Access Wallet
begin

text \<open>
  Withdrawing a student's access to one course (\<open>modules/enrollments/revoke-enrollment.ts\<close>), the one
  operation behind \<open>Remove from course\<close> and behind every refund, with the payment log rows and the
  student count it shares with the payment component.
\<close>

section \<open>Shared steps\<close>

definition create_payment_tx ::
  "id \<Rightarrow> string \<Rightarrow> string \<Rightarrow> int option \<Rightarrow> string option \<Rightarrow> refund_payload option \<Rightarrow> time \<Rightarrow> id dbtx" where
  "create_payment_tx payment type status amount reference payload now =
     bind_tx fresh_id (\<lambda>i.
     bind_tx (modify_tx (\<lambda>s. s\<lparr>payment_txs := payment_txs s @
       [\<lparr>pt_id = i, pt_payment = payment, pt_type = type, pt_status = status, pt_amount = amount,
         pt_reference = reference, pt_payload = payload, pt_created = now\<rparr>]\<rparr>)) (\<lambda>_.
     ret_tx i))"

text \<open>An update of a missing row is the database client's record-not-found error.\<close>

definition active_students :: "id \<Rightarrow> db \<Rightarrow> nat" where
  "active_students course s = count_where (\<lambda>e. e_course e = course \<and> e_state e = ES_ACTIVE) (enrollments s)"

definition recount_students :: "id \<Rightarrow> unit dbtx" where
  "recount_students course =
     bind_tx (get_tx (active_students course)) (\<lambda>n.
     bind_tx (get_tx (\<lambda>s. find_by c_id course (courses s))) (\<lambda>c.
     bind_tx (require_tx (c \<noteq> None) (PrismaKnown ''P2025'' [])) (\<lambda>_.
     modify_tx (\<lambda>s. s\<lparr>courses := upd_where (\<lambda>c. c_id c = course) (\<lambda>c. c\<lparr>c_student_count := n\<rparr>) (courses s)\<rparr>))))"

section \<open>Revoking\<close>

record revocation_outcome =
  rvo_enrollment :: enrollment_row
  rvo_already :: bool
  rvo_cancelled :: "id list"
  rvo_parts :: nat
  rvo_grants :: nat
  rvo_tickets :: nat
  rvo_paid_payments :: nat
  rvo_redemptions :: nat

definition retained :: "id \<Rightarrow> db \<Rightarrow> nat \<times> nat" where
  "retained e s =
     (count_where (\<lambda>p. p_enrollment p = Some e \<and> p_status p \<in> {PS_PAID, PS_PARTIALLY_REFUNDED}) (payments s),
      count_where (\<lambda>r. rd_enrollment r = Some e) (redemptions s))"

definition unchanged_revocation :: "enrollment_row \<Rightarrow> revocation_outcome dbtx" where
  "unchanged_revocation e =
     bind_tx (get_tx (retained (e_id e))) (\<lambda>kept.
     ret_tx \<lparr>rvo_enrollment = e, rvo_already = True, rvo_cancelled = [], rvo_parts = 0, rvo_grants = 0,
       rvo_tickets = 0, rvo_paid_payments = fst kept, rvo_redemptions = snd kept\<rparr>)"

definition revoked_row :: "id \<Rightarrow> string \<Rightarrow> time \<Rightarrow> enrollment_row \<Rightarrow> enrollment_row" where
  "revoked_row actor reason now e =
     e\<lparr>e_state := ES_REVOKED, e_revoked_at := Some now, e_revoked_by := Some actor,
       e_revoked_reason := Some reason, e_covers_all := False\<rparr>"

definition is_open_payment :: "id \<Rightarrow> payment_row \<Rightarrow> bool" where
  "is_open_payment e p \<longleftrightarrow> p_enrollment p = Some e \<and> p_status p = PS_PENDING"

definition log_cancellation :: "time \<Rightarrow> payment_row \<Rightarrow> unit dbtx" where
  "log_cancellation now p =
     bind_tx (create_payment_tx (p_id p) ''cancel'' ''enrollment_revoked'' (Some (p_amount p)) None None now)
       (\<lambda>_. ret_tx ())"

definition cancel_pending :: "id \<Rightarrow> time \<Rightarrow> id list dbtx" where
  "cancel_pending e now =
     bind_tx (get_tx (\<lambda>s. filter (is_open_payment e) (payments s))) (\<lambda>pending.
     if pending = [] then ret_tx []
     else
       bind_tx (modify_tx (\<lambda>s. s\<lparr>payments := upd_where
           (\<lambda>p. p_id p \<in> set (map p_id pending) \<and> p_status p = PS_PENDING)
           (\<lambda>p. p\<lparr>p_status := PS_CANCELLED, p_failure := Some ''ENROLLMENT_REVOKED'', p_updated := now\<rparr>) (payments s)\<rparr>)) (\<lambda>_.
       bind_tx (each_tx (log_cancellation now) pending) (\<lambda>_.
       ret_tx (map p_id pending))))"

definition is_live_entitlement :: "id \<Rightarrow> id \<Rightarrow> entitlement_row \<Rightarrow> bool" where
  "is_live_entitlement user course x \<longleftrightarrow> pe_user x = user \<and> pe_course x = course \<and> pe_revoked_at x = None"

definition is_live_ticket :: "id \<Rightarrow> id \<Rightarrow> ticket_row \<Rightarrow> bool" where
  "is_live_ticket user course x \<longleftrightarrow> tk_user x = user \<and> tk_course x = course \<and> tk_status x = TS_ACTIVE"

definition revoke_effects ::
  "enrollment_row \<Rightarrow> id \<Rightarrow> string \<Rightarrow> string \<Rightarrow> time \<Rightarrow> revocation_outcome dbtx" where
  "revoke_effects e actor reason ticket_reason now =
     bind_tx (get_tx (\<lambda>s. count_where (\<lambda>g. g_enrollment g = e_id e) (grants s))) (\<lambda>removed.
     bind_tx (modify_tx (\<lambda>s. s\<lparr>grants := filter (\<lambda>g. g_enrollment g \<noteq> e_id e) (grants s)\<rparr>)) (\<lambda>_.
     bind_tx (cancel_pending (e_id e) now) (\<lambda>cancelled.
     bind_tx (get_tx (\<lambda>s. count_where (is_live_entitlement (e_user e) (e_course e)) (entitlements s))) (\<lambda>ended.
     bind_tx (modify_tx (\<lambda>s. s\<lparr>entitlements := upd_where (is_live_entitlement (e_user e) (e_course e))
         (\<lambda>x. x\<lparr>pe_revoked_at := Some now, pe_revoked_by := Some actor, pe_revoked_reason := Some reason\<rparr>)
         (entitlements s)\<rparr>)) (\<lambda>_.
     bind_tx (get_tx (\<lambda>s. count_where (is_live_ticket (e_user e) (e_course e)) (tickets s))) (\<lambda>stopped.
     bind_tx (modify_tx (\<lambda>s. s\<lparr>tickets := upd_where (is_live_ticket (e_user e) (e_course e))
         (\<lambda>x. x\<lparr>tk_status := TS_REVOKED, tk_revoked_at := Some now, tk_revoked_reason := Some ticket_reason\<rparr>)
         (tickets s)\<rparr>)) (\<lambda>_.
     bind_tx (recount_students (e_course e)) (\<lambda>_.
     bind_tx (get_tx (retained (e_id e))) (\<lambda>kept.
     bind_tx (modify_tx (audit_with \<lparr>au_actor = Some actor, au_action = ''ACCESS_REVOKE'',
         au_entity = ''enrollment'', au_entity_id = e_id e, au_note = reason\<rparr>)) (\<lambda>_.
     ret_tx \<lparr>rvo_enrollment = e, rvo_already = False, rvo_cancelled = cancelled, rvo_parts = ended,
       rvo_grants = removed, rvo_tickets = stopped, rvo_paid_payments = fst kept,
       rvo_redemptions = snd kept\<rparr>))))))))))"

definition revoke_enrollment ::
  "id \<Rightarrow> id \<Rightarrow> string \<Rightarrow> id option \<Rightarrow> string \<Rightarrow> time \<Rightarrow> revocation_outcome dbtx" where
  "revoke_enrollment eid actor reason expected_course ticket_reason now =
     bind_tx (get_tx (\<lambda>s. find_by e_id eid (enrollments s))) (\<lambda>found.
     bind_tx (the_or not_found found) (\<lambda>e.
     bind_tx (require_tx (expected_course = None \<or> expected_course = Some (e_course e)) not_found) (\<lambda>_.
     if e_state e = ES_REVOKED then unchanged_revocation e
     else
       bind_tx (get_tx (\<lambda>s. count_where (\<lambda>p. p_enrollment p = Some eid \<and> p_status p = PS_AUTHORIZED) (payments s))) (\<lambda>held.
       bind_tx (require_tx (held = 0) (app_error INVALID_STATE)) (\<lambda>_.
       bind_tx (get_tx (\<lambda>s. count_where (\<lambda>x. e_id x = eid \<and> e_state x \<noteq> ES_REVOKED) (enrollments s))) (\<lambda>hit.
       bind_tx (modify_tx (\<lambda>s. s\<lparr>enrollments := upd_where (\<lambda>x. e_id x = eid \<and> e_state x \<noteq> ES_REVOKED)
           (revoked_row actor reason now) (enrollments s)\<rparr>)) (\<lambda>_.
       if hit = 0 then unchanged_revocation e
       else revoke_effects e actor reason ticket_reason now)))))))"

section \<open>What a revocation does\<close>

lemma create_payment_tx_Inr_iff [result_simps]:
  "create_payment_tx p ty st am rf pl now s = Inr (i, t) \<longleftrightarrow>
     i = db_next s \<and> t = s\<lparr>db_next := Suc (db_next s), payment_txs := payment_txs s @
       [\<lparr>pt_id = db_next s, pt_payment = p, pt_type = ty, pt_status = st, pt_amount = am,
         pt_reference = rf, pt_payload = pl, pt_created = now\<rparr>]\<rparr>"
  by (auto simp: create_payment_tx_def)

lemma recount_students_Inr_iff [result_simps]:
  "recount_students course s = Inr (u, t) \<longleftrightarrow>
     (\<exists>c \<in> set (courses s). c_id c = course) \<and>
     t = s\<lparr>courses := upd_where (\<lambda>c. c_id c = course) (\<lambda>c. c\<lparr>c_student_count := active_students course s\<rparr>) (courses s)\<rparr>"
  by (cases "find_by c_id course (courses s)")
    (auto simp: recount_students_def result_simps find_by_None_iff dest: find_by_Some)

text \<open>A cancellation's log rows.\<close>

definition cancel_row :: "payment_tx_row \<Rightarrow> bool" where
  "cancel_row r \<longleftrightarrow> pt_type r = ''cancel'' \<and> pt_payload r = None"

lemma log_cancellation_Inr_iff [result_simps]:
  "log_cancellation now p s = Inr (u, t) \<longleftrightarrow>
     t = s\<lparr>db_next := Suc (db_next s), payment_txs := payment_txs s @
       [\<lparr>pt_id = db_next s, pt_payment = p_id p, pt_type = ''cancel'', pt_status = ''enrollment_revoked'',
         pt_amount = Some (p_amount p), pt_reference = None, pt_payload = None, pt_created = now\<rparr>]\<rparr>"
  by (auto simp: log_cancellation_def result_simps)

lemma log_cancellations:
  assumes "each_tx (log_cancellation now) ps s = Inr (u, t)"
  shows "\<exists>rows n. t = s\<lparr>payment_txs := payment_txs s @ rows, db_next := n\<rparr> \<and> db_next s \<le> n
    \<and> (\<forall>r \<in> set rows. cancel_row r \<and> db_next s \<le> pt_id r \<and> pt_id r < n \<and> pt_payment r \<in> p_id ` set ps) \<and> distinct (map pt_id rows)"
  using assms
proof (induction ps arbitrary: s)
  case Nil
  then show ?case by (auto intro!: exI [of _ "[]"] exI [of _ "db_next s"])
next
  case (Cons p ps)
  from Cons.prems obtain s1 where s1: "s1 = s\<lparr>db_next := Suc (db_next s), payment_txs := payment_txs s @
       [\<lparr>pt_id = db_next s, pt_payment = p_id p, pt_type = ''cancel'', pt_status = ''enrollment_revoked'',
         pt_amount = Some (p_amount p), pt_reference = None, pt_payload = None, pt_created = now\<rparr>]\<rparr>"
    "each_tx (log_cancellation now) ps s1 = Inr (u, t)"
    by (auto simp: result_simps)
  from Cons.IH [OF s1(2)] obtain rows n where
    "t = s1\<lparr>payment_txs := payment_txs s1 @ rows, db_next := n\<rparr>" "db_next s1 \<le> n"
    "\<forall>r \<in> set rows. cancel_row r \<and> db_next s1 \<le> pt_id r \<and> pt_id r < n \<and> pt_payment r \<in> p_id ` set ps" "distinct (map pt_id rows)" by blast
  then show ?case
    by (intro exI [of _ "\<lparr>pt_id = db_next s, pt_payment = p_id p, pt_type = ''cancel'',
         pt_status = ''enrollment_revoked'', pt_amount = Some (p_amount p), pt_reference = None,
         pt_payload = None, pt_created = now\<rparr> # rows"] exI [of _ n])
      (auto simp: s1(1) cancel_row_def)
qed

lemma cancel_pending_Inr:
  assumes "cancel_pending e now s = Inr (ids, t)"
  obtains ps rows n where "t = s\<lparr>payments := ps, payment_txs := payment_txs s @ rows, db_next := n\<rparr>"
    and "ids = map p_id (filter (is_open_payment e) (payments s))"
    and "ps = upd_where (\<lambda>p. p_id p \<in> set ids \<and> p_status p = PS_PENDING)
           (\<lambda>p. p\<lparr>p_status := PS_CANCELLED, p_failure := Some ''ENROLLMENT_REVOKED'', p_updated := now\<rparr>) (payments s)"
    and "\<forall>r \<in> set rows. cancel_row r \<and> db_next s \<le> pt_id r \<and> pt_id r < n \<and> pt_payment r \<in> set ids" "distinct (map pt_id rows)"
    and "db_next s \<le> n"
proof (cases "filter (is_open_payment e) (payments s) = []")
  case True
  with assms have "ids = []" "t = s" by (auto simp: cancel_pending_def)
  then show ?thesis
    by (intro that [where ps = "payments s" and rows = "[]" and n = "db_next s"]) (use True in \<open>auto simp: upd_where_def\<close>)
next
  case False
  let ?ps = "upd_where (\<lambda>p. p_id p \<in> set (map p_id (filter (is_open_payment e) (payments s))) \<and> p_status p = PS_PENDING)
           (\<lambda>p. p\<lparr>p_status := PS_CANCELLED, p_failure := Some ''ENROLLMENT_REVOKED'', p_updated := now\<rparr>) (payments s)"
  from False assms obtain u where u: "each_tx (log_cancellation now) (filter (is_open_payment e) (payments s))
      (s\<lparr>payments := ?ps\<rparr>) = Inr (u, t)"
    and ids: "ids = map p_id (filter (is_open_payment e) (payments s))"
    by (auto simp: cancel_pending_def result_simps)
  from log_cancellations [OF u] obtain rows n where
    "t = (s\<lparr>payments := ?ps\<rparr>)\<lparr>payment_txs := payment_txs s @ rows, db_next := n\<rparr>" "db_next s \<le> n"
    "\<forall>r \<in> set rows. cancel_row r \<and> db_next s \<le> pt_id r \<and> pt_id r < n \<and> pt_payment r \<in> set ids" "distinct (map pt_id rows)"
    using ids by auto
  then show ?thesis by (intro that [where ps = ?ps and rows = rows and n = n]) (use ids in simp_all)
qed

text \<open>Everything a revocation of a live enrollment changes, table by table.\<close>

lemma revoke_effects_Inr:
  assumes "revoke_effects e actor reason ticket_reason now s = Inr (out, t)"
  obtains rows where
    "grants t = filter (\<lambda>g. g_enrollment g \<noteq> e_id e) (grants s)"
    "payments t = upd_where (\<lambda>p. p_id p \<in> set (rvo_cancelled out) \<and> p_status p = PS_PENDING)
       (\<lambda>p. p\<lparr>p_status := PS_CANCELLED, p_failure := Some ''ENROLLMENT_REVOKED'', p_updated := now\<rparr>) (payments s)"
    "rvo_cancelled out = map p_id (filter (is_open_payment (e_id e)) (payments s))"
    "entitlements t = upd_where (is_live_entitlement (e_user e) (e_course e))
       (\<lambda>x. x\<lparr>pe_revoked_at := Some now, pe_revoked_by := Some actor, pe_revoked_reason := Some reason\<rparr>)
       (entitlements s)"
    "tickets t = upd_where (is_live_ticket (e_user e) (e_course e))
       (\<lambda>x. x\<lparr>tk_status := TS_REVOKED, tk_revoked_at := Some now, tk_revoked_reason := Some ticket_reason\<rparr>)
       (tickets s)"
    "courses t = upd_where (\<lambda>c. c_id c = e_course e) (\<lambda>c. c\<lparr>c_student_count := active_students (e_course e) s\<rparr>)
       (courses s)"
    "payment_txs t = payment_txs s @ rows" "\<forall>r \<in> set rows. cancel_row r \<and> db_next s \<le> pt_id r \<and> pt_id r < db_next t \<and> pt_payment r \<in> set (rvo_cancelled out)"
    "distinct (map pt_id rows)" "db_next s \<le> db_next t" "\<not> rvo_already out" "rvo_enrollment out = e"
    "enrollments t = enrollments s" "revenue t = revenue s" "redemptions t = redemptions s" "codes t = codes s"
    "wallets t = wallets s" "wallet_txs t = wallet_txs s" "recharges t = recharges s" "plays t = plays s"
    "part_purchases t = part_purchases s" "idem_records t = idem_records s" "users t = users s"
proof -
  let ?g = "\<lambda>g. g_enrollment g = e_id e"
  from assms obtain ids s1 where
    c: "cancel_pending (e_id e) now (s\<lparr>grants := filter (\<lambda>g. \<not> ?g g) (grants s)\<rparr>) = Inr (ids, s1)"
    and t: "t = audit_with \<lparr>au_actor = Some actor, au_action = ''ACCESS_REVOKE'',
         au_entity = ''enrollment'', au_entity_id = e_id e, au_note = reason\<rparr> (s1\<lparr>
        entitlements := upd_where (is_live_entitlement (e_user e) (e_course e))
          (\<lambda>x. x\<lparr>pe_revoked_at := Some now, pe_revoked_by := Some actor, pe_revoked_reason := Some reason\<rparr>)
          (entitlements s1),
        tickets := upd_where (is_live_ticket (e_user e) (e_course e))
          (\<lambda>x. x\<lparr>tk_status := TS_REVOKED, tk_revoked_at := Some now, tk_revoked_reason := Some ticket_reason\<rparr>)
          (tickets s1),
        courses := upd_where (\<lambda>c. c_id c = e_course e)
          (\<lambda>c. c\<lparr>c_student_count := active_students (e_course e) s1\<rparr>) (courses s1)\<rparr>)"
    and out: "rvo_cancelled out = ids" "\<not> rvo_already out" "rvo_enrollment out = e"
    unfolding revoke_effects_def by (auto simp: result_simps active_students_def)
  from c obtain ps rows n where s1: "s1 = s\<lparr>grants := filter (\<lambda>g. \<not> ?g g) (grants s), payments := ps,
      payment_txs := payment_txs s @ rows, db_next := n\<rparr>"
    and ids: "ids = map p_id (filter (is_open_payment (e_id e)) (payments s))"
    and ps: "ps = upd_where (\<lambda>p. p_id p \<in> set ids \<and> p_status p = PS_PENDING)
           (\<lambda>p. p\<lparr>p_status := PS_CANCELLED, p_failure := Some ''ENROLLMENT_REVOKED'', p_updated := now\<rparr>) (payments s)"
    and rows: "\<forall>r \<in> set rows. cancel_row r \<and> db_next s \<le> pt_id r \<and> pt_id r < n \<and> pt_payment r \<in> set ids" "distinct (map pt_id rows)"
      "db_next s \<le> n"
    by (rule cancel_pending_Inr) simp
  show ?thesis
    by (rule that [of rows]) (use out rows ids ps in \<open>simp_all add: t s1 audit_with_def active_students_def\<close>)
qed

lemma revoke_enrollment_Inr:
  assumes "revoke_enrollment eid actor reason course ticket_reason now s = Inr (out, t)"
  obtains (already) e where "find_by e_id eid (enrollments s) = Some e" "e_state e = ES_REVOKED"
      "rvo_already out" "t = s" "course = None \<or> course = Some (e_course e)"
  | (revoked) e where "find_by e_id eid (enrollments s) = Some e" "e_state e \<noteq> ES_REVOKED"
      "course = None \<or> course = Some (e_course e)"
      "\<forall>p \<in> set (payments s). p_enrollment p = Some eid \<longrightarrow> p_status p \<noteq> PS_AUTHORIZED"
      "revoke_effects e actor reason ticket_reason now
         (s\<lparr>enrollments := upd_where (\<lambda>x. e_id x = eid \<and> e_state x \<noteq> ES_REVOKED)
           (revoked_row actor reason now) (enrollments s)\<rparr>) = Inr (out, t)"
proof -
  from assms obtain e where e: "find_by e_id eid (enrollments s) = Some e" "course = None \<or> course = Some (e_course e)"
    by (auto simp: revoke_enrollment_def result_simps)
  show ?thesis
  proof (cases "e_state e = ES_REVOKED")
    case True
    with assms e show ?thesis
      by (intro already [of e]) (auto simp: revoke_enrollment_def result_simps unchanged_revocation_def)
  next
    case False
    have "\<not> (\<forall>x \<in> set (enrollments s). e_id x = eid \<longrightarrow> e_state x = ES_REVOKED)"
      using False find_by_Some [OF e(1)] by auto
    with assms e False have
      "(\<forall>p \<in> set (payments s). p_enrollment p = Some eid \<longrightarrow> p_status p \<noteq> PS_AUTHORIZED)
       \<and> revoke_effects e actor reason ticket_reason now
         (s\<lparr>enrollments := upd_where (\<lambda>x. e_id x = eid \<and> e_state x \<noteq> ES_REVOKED)
           (revoked_row actor reason now) (enrollments s)\<rparr>) = Inr (out, t)"
      by (auto simp: revoke_enrollment_def bind_require count_where_0_iff split: if_splits)
    then show ?thesis using revoked e False by blast
  qed
qed

interpretation revoked_by_id: keyed_update e_id "revoked_row actor reason now"
  by unfold_locales (simp add: revoked_row_def)

text \<open>C20: a revocation is complete and touches nothing else. When it takes effect, the enrollment is revoked
  and no later decision serves its content; no section grant, live part ownership, running playback
  or open payment of it is left; the student count is the number of active enrollments; no other
  enrollment changes; and money records - revenue, wallet, redemptions, purchases, settled
  payments - are as they were.\<close>

theorem revocation_complete:
  assumes "revoke_enrollment eid actor reason course ticket_reason now s = Inr (out, t)" "\<not> rvo_already out"
    and "unique_on e_id (enrollments s)"
  shows "\<exists>e. find_by e_id eid (enrollments s) = Some e
    \<and> find_by e_id eid (enrollments t) = Some (revoked_row actor reason now e)
    \<and> (\<forall>status later. \<not> ad_can (decide status (Some (revoked_row actor reason now e)) later))
    \<and> (\<forall>g \<in> set (grants t). g_enrollment g \<noteq> eid)
    \<and> (\<forall>x \<in> set (entitlements t). \<not> is_live_entitlement (e_user e) (e_course e) x)
    \<and> (\<forall>x \<in> set (tickets t). \<not> is_live_ticket (e_user e) (e_course e) x)
    \<and> (\<forall>p \<in> set (payments t). \<not> is_open_payment eid p)
    \<and> (\<forall>c \<in> set (courses t). c_id c = e_course e \<longrightarrow> c_student_count c = active_students (e_course e) t)
    \<and> {x \<in> set (enrollments t). e_id x \<noteq> eid} = {x \<in> set (enrollments s). e_id x \<noteq> eid}
    \<and> {p \<in> set (payments s). p_status p \<noteq> PS_PENDING} \<subseteq> set (payments t)
    \<and> revenue t = revenue s \<and> wallets t = wallets s \<and> wallet_txs t = wallet_txs s
    \<and> redemptions t = redemptions s \<and> part_purchases t = part_purchases s"
  using assms(1)
proof (cases rule: revoke_enrollment_Inr)
  case (revoked e)
  let ?es = "upd_where (\<lambda>x. e_id x = eid \<and> e_state x \<noteq> ES_REVOKED) (revoked_row actor reason now) (enrollments s)"
  have id: "e_id e = eid" using find_by_Some [OF revoked(1)] by simp
  from revoked(5) obtain rows where f:
    "grants t = filter (\<lambda>g. g_enrollment g \<noteq> e_id e) (grants s)"
    "payments t = upd_where (\<lambda>p. p_id p \<in> set (rvo_cancelled out) \<and> p_status p = PS_PENDING)
       (\<lambda>p. p\<lparr>p_status := PS_CANCELLED, p_failure := Some ''ENROLLMENT_REVOKED'', p_updated := now\<rparr>) (payments s)"
    "rvo_cancelled out = map p_id (filter (is_open_payment (e_id e)) (payments s))"
    "entitlements t = upd_where (is_live_entitlement (e_user e) (e_course e))
       (\<lambda>x. x\<lparr>pe_revoked_at := Some now, pe_revoked_by := Some actor, pe_revoked_reason := Some reason\<rparr>)
       (entitlements s)"
    "tickets t = upd_where (is_live_ticket (e_user e) (e_course e))
       (\<lambda>x. x\<lparr>tk_status := TS_REVOKED, tk_revoked_at := Some now, tk_revoked_reason := Some ticket_reason\<rparr>)
       (tickets s)"
    "courses t = upd_where (\<lambda>c. c_id c = e_course e)
       (\<lambda>c. c\<lparr>c_student_count := active_students (e_course e) (s\<lparr>enrollments := ?es\<rparr>)\<rparr>) (courses s)"
    "enrollments t = ?es" "revenue t = revenue s" "redemptions t = redemptions s"
    "wallets t = wallets s" "wallet_txs t = wallet_txs s" "part_purchases t = part_purchases s"
    by (rule revoke_effects_Inr) simp
  have "find_by e_id eid (enrollments t) = Some (revoked_row actor reason now e)"
    using revoked(1,2) id f(7) by (simp add: revoked_by_id.find_upd)
  moreover have "\<not> ad_can (decide status (Some (revoked_row actor reason now e)) later)" for status later
    by (simp add: decide_can revoked_row_def)
  moreover have "\<forall>g \<in> set (grants t). g_enrollment g \<noteq> eid" using f(1) id by simp
  moreover have "\<forall>x \<in> set (entitlements t). \<not> is_live_entitlement (e_user e) (e_course e) x"
    by (auto simp: f(4) set_upd_where is_live_entitlement_def)
  moreover have "\<forall>x \<in> set (tickets t). \<not> is_live_ticket (e_user e) (e_course e) x"
    by (auto simp: f(5) set_upd_where is_live_ticket_def)
  moreover have "\<forall>p \<in> set (payments t). \<not> is_open_payment eid p"
    by (auto simp: f(2,3) id set_upd_where is_open_payment_def)
  moreover have "active_students (e_course e) t = active_students (e_course e) (s\<lparr>enrollments := ?es\<rparr>)"
    by (simp add: active_students_def f(7))
  then have "\<forall>c \<in> set (courses t). c_id c = e_course e \<longrightarrow> c_student_count c = active_students (e_course e) t"
    by (auto simp: f(6) set_upd_where)
  moreover have "{x \<in> set (enrollments t). e_id x \<noteq> eid} = {x \<in> set (enrollments s). e_id x \<noteq> eid}"
    by (auto simp: f(7) set_upd_where revoked_row_def)
  moreover have "{p \<in> set (payments s). p_status p \<noteq> PS_PENDING} \<subseteq> set (payments t)"
    by (auto simp: f(2) set_upd_where)
  ultimately show ?thesis using revoked(1) f(8-12) by simp
qed (use assms(2) in simp)

lemma revoke_possible:
  assumes "find_by e_id eid (enrollments s) = Some e" "course = None \<or> course = Some (e_course e)"
    and "\<forall>p \<in> set (payments s). p_enrollment p \<noteq> Some eid" "find_by c_id (e_course e) (courses s) \<noteq> None"
  shows "\<exists>out t. revoke_enrollment eid actor reason course ticket_reason now s = Inr (out, t)
    \<and> (e_state e \<noteq> ES_REVOKED \<longrightarrow> \<not> rvo_already out)"
proof (cases "e_state e = ES_REVOKED")
  case True
  with assms show ?thesis by (auto simp: revoke_enrollment_def unchanged_revocation_def bind_require)
next
  case False
  have "filter (is_open_payment eid) (payments s) = []"
    using assms(3) by (auto simp: filter_empty_conv is_open_payment_def)
  moreover have "\<not> (\<forall>x \<in> set (enrollments s). e_id x = eid \<longrightarrow> e_state x = ES_REVOKED)"
    using False find_by_Some [OF assms(1)] by auto
  moreover have "e_id e = eid" using find_by_Some [OF assms(1)] by simp
  ultimately show ?thesis
    using assms False
    by (auto simp: revoke_enrollment_def revoke_effects_def cancel_pending_def recount_students_def
        count_where_0_iff bind_require)
qed

theorem revocation_complete_witness:
  "\<exists>out t. revoke_enrollment 40 9 ''left'' None ''stopped'' 5 campus_db = Inr (out, t)
    \<and> (\<forall>x \<in> set (entitlements t). \<not> is_live_entitlement 3 12 x) \<and> \<not> rvo_already out"
proof -
  have e: "find_by e_id 40 (enrollments campus_db) = Some campus_enrollment"
    by (simp add: campus_db_def campus_enrollment_def)
  have c: "e_course campus_enrollment = 12" "e_user campus_enrollment = 3" "e_state campus_enrollment \<noteq> ES_REVOKED"
    by (simp_all add: campus_enrollment_def)
  have "payments campus_db = []" "find_by c_id 12 (courses campus_db) \<noteq> None"
    "unique_on e_id (enrollments campus_db)"
    by (simp_all add: campus_db_def empty_db_def campus_course_def)
  then obtain out t where r: "revoke_enrollment 40 9 ''left'' None ''stopped'' 5 campus_db = Inr (out, t)"
    "\<not> rvo_already out" using revoke_possible [OF e, of None] c by fastforce
  from revocation_complete [OF this \<open>unique_on e_id (enrollments campus_db)\<close>] e c
  show ?thesis using r by auto
qed

end
