(* ===== verification/Payments.thy ===== *)
theory Payments
  imports Revocation
begin

text \<open>
  Course payments (\<open>modules/payments/payments.service.ts\<close>): the pending payment of a checkout, its
  capture with the revenue line, a provider's failure event, and the refund state derived from a
  payment's own log (\<open>modules/payments/refund-state.ts\<close>). The share of a captured payment is computed
  exactly, rounding a half up; the program's expression is the same over floating-point numbers.
\<close>

section \<open>Checkout\<close>

text \<open>When access ends, for the course's duration setting; a zero or missing number of days is no end.\<close>

definition compute_access_end :: "duration_type \<Rightarrow> int option \<Rightarrow> time option \<Rightarrow> time \<Rightarrow> time option" where
  "compute_access_end kind days ends from =
     (case kind of
        FIXED_DAYS \<Rightarrow> (case days of None \<Rightarrow> None | Some d \<Rightarrow> if d = 0 then None else Some (from + d * 86400000))
      | UNTIL_DATE \<Rightarrow> ends
      | LIFETIME \<Rightarrow> None)"

datatype (plugins only: code) configured_provider = CFG_PAYMOB | CFG_STRIPE | CFG_NONE

definition provider_enum :: "configured_provider \<Rightarrow> payment_provider" where
  "provider_enum p = (case p of CFG_PAYMOB \<Rightarrow> PP_PAYMOB | CFG_STRIPE \<Rightarrow> PP_STRIPE | CFG_NONE \<Rightarrow> PP_MANUAL)"

text \<open>The reference shown for a checkout: a stored one, the payment's id, or \<open>ref_\<close> and the id.\<close>

datatype checkout_reference = StoredRef string | IdRef id | NewRef id

record checkout_session =
  ck_payment :: id
  ck_reference :: checkout_reference
  ck_amount :: rat
  ck_currency :: string
  ck_provider :: payment_provider

definition open_checkouts :: "id \<Rightarrow> id \<Rightarrow> time \<Rightarrow> db \<Rightarrow> payment_row list" where
  "open_checkouts user course now s =
     sort_key (\<lambda>p. - p_created p) (filter (\<lambda>p. p_user p = user \<and> p_course p = course
       \<and> p_status p = PS_PENDING \<and> now - 3600000 \<le> p_created p) (payments s))"

definition pending_row ::
  "id \<Rightarrow> id \<Rightarrow> id \<Rightarrow> id \<Rightarrow> price_row \<Rightarrow> payment_provider \<Rightarrow> idem_key \<Rightarrow> time \<Rightarrow> payment_row" where
  "pending_row i user course enrollment price provider key now =
     \<lparr>p_id = i, p_user = user, p_course = course, p_enrollment = Some enrollment, p_price = Some (cp_id price),
      p_amount = cp_amount price, p_currency = cp_currency price, p_status = PS_PENDING, p_provider = provider,
      p_reference = None, p_key = key, p_paid_at = None, p_failed_at = None, p_failure = None,
      p_refunded = 0, p_refunded_at = None, p_created = now, p_updated = now\<rparr>"

text \<open>The checkout page is permanently disabled, so a new payment never has one.\<close>

definition build_checkout_url :: "id \<Rightarrow> string option" where
  "build_checkout_url payment = None"

definition create_pending_payment ::
  "configured_provider \<Rightarrow> id \<Rightarrow> id \<Rightarrow> id \<Rightarrow> price_row \<Rightarrow> idem_key option \<Rightarrow> nat \<Rightarrow> time \<Rightarrow> checkout_session dbtx" where
  "create_pending_payment cfg user course enrollment price given_key random now =
     bind_tx (get_tx (open_checkouts user course now)) (\<lambda>existing.
     case existing of
       p # _ \<Rightarrow>
         ret_tx \<lparr>ck_payment = p_id p,
           ck_reference = (case p_reference p of Some r \<Rightarrow> StoredRef r | None \<Rightarrow> IdRef (p_id p)),
           ck_amount = to_egp_number (p_amount p), ck_currency = p_currency p, ck_provider = p_provider p\<rparr>
     | [] \<Rightarrow>
         let key = (case given_key of Some k \<Rightarrow> k | None \<Rightarrow> PayKey user course random);
             provider = provider_enum cfg in
         bind_tx (get_tx (\<lambda>s. key \<in> set (map p_key (payments s)))) (\<lambda>dup.
         bind_tx (require_tx (\<not> dup) (unique_violation ''idempotencyKey'')) (\<lambda>_.
         bind_tx fresh_id (\<lambda>i.
         bind_tx (modify_tx (\<lambda>s. s\<lparr>payments := payments s @
           [pending_row i user course enrollment price provider key now]\<rparr>)) (\<lambda>_.
         bind_tx (create_payment_tx i ''create'' ''pending'' (Some (cp_amount price)) None None now) (\<lambda>_.
         ret_tx \<lparr>ck_payment = i, ck_reference = NewRef i, ck_amount = to_egp_number (cp_amount price),
           ck_currency = cp_currency price, ck_provider = provider\<rparr>))))))"

section \<open>Capture\<close>

definition lead_teacher :: "id \<Rightarrow> db \<Rightarrow> teacher_row option" where
  "lead_teacher course s =
     (let ts = filter (\<lambda>a. ct_course a = course) (teachers s) in
      case List.find ct_lead ts of Some a \<Rightarrow> Some a | None \<Rightarrow> (case ts of [] \<Rightarrow> None | a # _ \<Rightarrow> Some a))"

definition share_of :: "int \<Rightarrow> teacher_row option \<Rightarrow> int" where
  "share_of platform_default lead =
     (case lead of
        None \<Rightarrow> 0
      | Some a \<Rightarrow> (case ct_share a of Some x \<Rightarrow> x | None \<Rightarrow>
                   (case ct_profile_share a of Some x \<Rightarrow> x | None \<Rightarrow> 10000 - platform_default)))"

definition capture_line :: "int \<Rightarrow> teacher_row option \<Rightarrow> payment_row \<Rightarrow> time \<Rightarrow> revenue_row" where
  "capture_line platform_default lead p now =
     (let gross = p_amount p; share = share_of platform_default lead;
          teacher = percent_of gross share in
      \<lparr>rl_payment = p_id p, rl_course = p_course p, rl_teacher = map_option ct_teacher lead, rl_gross = gross,
       rl_teacher_amount = teacher, rl_platform = gross - teacher, rl_share = share, rl_recognized = now\<rparr>)"

definition paid_row :: "time \<Rightarrow> string option \<Rightarrow> payment_row \<Rightarrow> payment_row" where
  "paid_row now reference p =
     p\<lparr>p_status := PS_PAID, p_paid_at := Some now,
       p_reference := (case reference of None \<Rightarrow> p_reference p | Some r \<Rightarrow> Some r), p_updated := now\<rparr>"

definition activated_row :: "time \<Rightarrow> time option \<Rightarrow> enrollment_row \<Rightarrow> enrollment_row" where
  "activated_row now ends e =
     e\<lparr>e_state := ES_ACTIVE, e_starts := now, e_ends := ends, e_revoked_at := None,
       e_revoked_reason := None, e_covers_all := True\<rparr>"

definition activate_enrollment :: "id option \<Rightarrow> time \<Rightarrow> time option \<Rightarrow> unit dbtx" where
  "activate_enrollment enrollment now ends =
     (case enrollment of
        None \<Rightarrow> ret_tx ()
      | Some eid \<Rightarrow>
          bind_tx (get_tx (\<lambda>s. find_by e_id eid (enrollments s))) (\<lambda>e.
          bind_tx (require_tx (e \<noteq> None) (PrismaKnown ''P2025'' [])) (\<lambda>_.
          modify_tx (\<lambda>s. s\<lparr>enrollments := upd_where (\<lambda>e. e_id e = eid) (activated_row now ends) (enrollments s)\<rparr>))))"

record capture_result =
  cr_payment :: payment_row
  cr_already :: bool

definition capture_effects :: "int \<Rightarrow> payment_row \<Rightarrow> course_row \<Rightarrow> string option \<Rightarrow> time \<Rightarrow> capture_result dbtx" where
  "capture_effects platform_default p c reference now =
     bind_tx (modify_tx (\<lambda>s. s\<lparr>payments := upd_where (\<lambda>x. p_id x = p_id p) (paid_row now reference) (payments s)\<rparr>)) (\<lambda>_.
     bind_tx (create_payment_tx (p_id p) ''capture'' ''succeeded'' (Some (p_amount p)) reference None now) (\<lambda>_.
     bind_tx (activate_enrollment (p_enrollment p) now
       (compute_access_end (c_duration_type c) (c_duration_days c) (c_access_ends c) now)) (\<lambda>_.
     bind_tx (get_tx (lead_teacher (p_course p))) (\<lambda>lead.
     bind_tx (modify_tx (\<lambda>s. s\<lparr>revenue := revenue s @ [capture_line platform_default lead p now]\<rparr>)) (\<lambda>_.
     bind_tx (recount_students (p_course p)) (\<lambda>_.
     ret_tx \<lparr>cr_payment = paid_row now reference p, cr_already = False\<rparr>))))))"

definition capture_body :: "int \<Rightarrow> id \<Rightarrow> string option \<Rightarrow> time \<Rightarrow> capture_result dbtx" where
  "capture_body platform_default pid reference now =
     bind_tx (get_tx (\<lambda>s. find_by p_id pid (payments s))) (\<lambda>found.
     bind_tx (the_or not_found found) (\<lambda>p.
     if p_status p = PS_PAID then ret_tx \<lparr>cr_payment = p, cr_already = True\<rparr>
     else
       bind_tx (require_tx (p_status p \<notin> {PS_REFUNDED, PS_PARTIALLY_REFUNDED, PS_CANCELLED})
         (app_error INVALID_STATE)) (\<lambda>_.
       bind_tx (get_tx (\<lambda>s. find_by c_id (p_course p) (courses s))) (\<lambda>course.
       bind_tx (the_or OtherEx course) (\<lambda>c.
       capture_effects platform_default p c reference now)))))"

definition capture ::
  "db world \<Rightarrow> int \<Rightarrow> id \<Rightarrow> string option \<Rightarrow> id option \<Rightarrow> string \<Rightarrow> time \<Rightarrow> db \<Rightarrow> (exn + capture_result) \<times> db" where
  "capture w platform_default pid reference actor note now s =
     (let r = with_serializable_retry default_options w (capture_body platform_default pid reference now) s in
      case rt_result r of
        Inl e \<Rightarrow> (Inl e, rt_state r)
      | Inr x \<Rightarrow>
          (Inr x, if cr_already x then rt_state r
                  else audit_with \<lparr>au_actor = actor, au_action = ''PAYMENT_CONFIRM'', au_entity = ''payment'',
                         au_entity_id = pid, au_note = note\<rparr> (rt_state r)))"

text \<open>
  \<open>fail\<close> reads the payment outside its transaction, so it sees the database \<open>seen\<close> and writes to
  \<open>s\<close>.
\<close>

definition failed_row :: "string \<Rightarrow> time \<Rightarrow> payment_row \<Rightarrow> payment_row" where
  "failed_row code now p = p\<lparr>p_status := PS_FAILED, p_failed_at := Some now, p_failure := Some code, p_updated := now\<rparr>"

definition log_payment :: "id \<Rightarrow> string \<Rightarrow> string \<Rightarrow> time \<Rightarrow> db \<Rightarrow> db" where
  "log_payment pid type status now s =
     s\<lparr>db_next := Suc (db_next s), payment_txs := payment_txs s @
       [\<lparr>pt_id = db_next s, pt_payment = pid, pt_type = type, pt_status = status, pt_amount = None,
         pt_reference = None, pt_payload = None, pt_created = now\<rparr>]\<rparr>"

definition fail_payment :: "id \<Rightarrow> string \<Rightarrow> time \<Rightarrow> db \<Rightarrow> db \<Rightarrow> (exn + payment_status) \<times> db" where
  "fail_payment pid code now seen s =
     (case find_by p_id pid (payments seen) of
        None \<Rightarrow> (Inl not_found, s)
      | Some p \<Rightarrow>
          if p_status p \<in> {PS_PAID, PS_PARTIALLY_REFUNDED, PS_REFUNDED}
          then (Inr (p_status p), log_payment pid ''webhook'' ''ignored_after_capture'' now s)
          else if find_by p_id pid (payments s) = None then (Inl (PrismaKnown ''P2025'' []), s)
          else (Inr PS_FAILED,
                log_payment pid ''fail'' code now
                  (s\<lparr>payments := upd_where (\<lambda>x. p_id x = pid) (failed_row code now) (payments s)\<rparr>)))"

section \<open>Refund state of a payment\<close>

definition tx_refund :: string where "tx_refund = ''refund''"
definition tx_request :: string where "tx_request = ''refund_request''"
definition tx_request_failed :: string where "tx_request_failed = ''refund_failed''"

definition refund_tx_types :: "string list" where
  "refund_tx_types = [tx_refund, tx_request, tx_request_failed]"

definition captured_statuses :: "payment_status list" where
  "captured_statuses = [PS_PAID, PS_PARTIALLY_REFUNDED, PS_REFUNDED]"

definition payload_request :: "payment_tx_row \<Rightarrow> id option" where
  "payload_request r = Option.bind (pt_payload r) rp_request"

definition resolution_of :: "payment_tx_row list \<Rightarrow> id \<Rightarrow> payment_tx_row option" where
  "resolution_of rows i =
     List.find (\<lambda>r. (pt_type r = tx_refund \<or> pt_type r = tx_request_failed) \<and> payload_request r = Some i) rows"

definition pending_requests :: "payment_tx_row list \<Rightarrow> payment_tx_row list" where
  "pending_requests rows = filter (\<lambda>r. pt_type r = tx_request \<and> resolution_of rows (pt_id r) = None) rows"

definition row_piastres :: "payment_tx_row \<Rightarrow> exn + int" where
  "row_piastres r = (case pt_amount r of None \<Rightarrow> Inr 0 | Some a \<Rightarrow> read_column a ''amount'')"

definition pending_refund_piastres :: "payment_tx_row list \<Rightarrow> exn + int" where
  "pending_refund_piastres rows = bind_r (map_r row_piastres (pending_requests rows)) (\<lambda>xs. Inr (sum_list xs))"

datatype (plugins only: code) refund_status = RS_NONE | RS_PENDING | RS_PARTIALLY_REFUNDED | RS_REFUNDED

definition refund_state_of :: "payment_status \<Rightarrow> payment_tx_row list \<Rightarrow> exn + (refund_status \<times> rat)" where
  "refund_state_of status rows =
     bind_r (pending_refund_piastres rows) (\<lambda>pending.
     Inr (if 0 < pending then RS_PENDING
          else if status = PS_REFUNDED then RS_REFUNDED
          else if status = PS_PARTIALLY_REFUNDED then RS_PARTIALLY_REFUNDED
          else RS_NONE, to_egp_number pending))"

end
