(* ===== verification/Refunds.thy ===== *)
theory Refunds
  imports Payments
begin

text \<open>
  Refunds of course payments (\<open>modules/payments/refunds.service.ts\<close>): immediate refunds, pending
  requests and their completion or failure, the contra revenue line, the access each refund withdraws
  and the retries recognised by the idempotency key. The request fingerprint (a hash of the request)
  is an argument; a response is the refund's identifier and whether it is a replay, the views of the
  dialog being the queries \<open>describe_refunds\<close> and \<open>refund_summary\<close>.
\<close>

section \<open>Reading a payment\<close>

datatype (plugins only: code) refund_kind = RF_FULL | RF_PARTIAL
datatype (plugins only: code) refund_completion = RC_IMMEDIATE | RC_PENDING

record refund_input =
  ri_kind :: refund_kind
  ri_amount :: "money_value option"
  ri_reason :: "string option"
  ri_key :: string
  ri_completion :: "refund_completion option"
  ri_confirm :: bool

record actor =
  ac_id :: id
  ac_role :: user_role

definition refund_rows :: "id \<Rightarrow> db \<Rightarrow> payment_tx_row list" where
  "refund_rows pid s = sort_key pt_created (filter (\<lambda>r. pt_payment r = pid \<and> pt_type r \<in> set refund_tx_types) (payment_txs s))"

definition revenue_lines :: "id \<Rightarrow> db \<Rightarrow> revenue_row list" where
  "revenue_lines pid s = filter (\<lambda>l. rl_payment l = pid) (revenue s)"

definition load_payment :: "id \<Rightarrow> payment_row dbtx" where
  "load_payment pid =
     bind_tx (get_tx (\<lambda>s. find_by p_id pid (payments s))) (\<lambda>found. the_or not_found found)"

definition payment_enrollment :: "payment_row \<Rightarrow> db \<Rightarrow> enrollment_row option" where
  "payment_enrollment p s =
     (case p_enrollment p of
        Some e \<Rightarrow> find_by e_id e (enrollments s)
      | None \<Rightarrow> find_enrollment (p_user p) (p_course p) s)"

record refund_balance =
  bal_paid :: int
  bal_refunded :: int
  bal_pending :: int
  bal_refundable :: int

definition balance_of_payment :: "payment_row \<Rightarrow> payment_tx_row list \<Rightarrow> exn + refund_balance" where
  "balance_of_payment p rows =
     bind_r (read_column (p_amount p) ''amount'') (\<lambda>paid.
     bind_r (read_column (p_refunded p) ''refundedAmount'') (\<lambda>refunded.
     bind_r (pending_refund_piastres rows) (\<lambda>pending.
     Inr \<lparr>bal_paid = paid, bal_refunded = refunded, bal_pending = pending,
          bal_refundable = max 0 (paid - refunded - pending)\<rparr>)))"

definition row_for_key :: "string \<Rightarrow> payment_tx_row list \<Rightarrow> payment_tx_row option" where
  "row_for_key key rows =
     List.find (\<lambda>r. (pt_type r = tx_request \<or> pt_type r = tx_refund \<and> payload_request r = None)
       \<and> Option.bind (pt_payload r) rp_key = Some key) rows"

definition find_request :: "id \<Rightarrow> payment_tx_row list \<Rightarrow> payment_tx_row option" where
  "find_request i rows = List.find (\<lambda>r. pt_id r = i \<and> pt_type r = tx_request) rows"

datatype (plugins only: code) request_state = RQ_PENDING | RQ_SUCCEEDED | RQ_FAILED

definition request_state_of :: "payment_tx_row list \<Rightarrow> id \<Rightarrow> request_state" where
  "request_state_of rows i =
     (case resolution_of rows i of
        None \<Rightarrow> RQ_PENDING
      | Some r \<Rightarrow> if pt_type r = tx_refund then RQ_SUCCEEDED else RQ_FAILED)"

definition attested_method :: "payment_row \<Rightarrow> completion_method" where
  "attested_method p =
     (if p_provider p = PP_PAYMOB \<or> p_provider p = PP_STRIPE then ADMIN_CONFIRMED_EXTERNAL
      else ADMIN_CONFIRMED_MANUAL)"

section \<open>The contra line\<close>

definition signed_piastres :: "int \<Rightarrow> string \<Rightarrow> exn + int" where
  "signed_piastres v field =
     (if v < 0 then bind_r (read_column (- v) field) (\<lambda>m. Inr (- m)) else read_column v field)"

definition read_share :: "int \<Rightarrow> exn + int" where
  "read_share bp = (if 0 \<le> bp \<and> bp \<le> 10000 then Inr bp else Inl (MoneyEx ''sharePercent'' ''must be between 0 and 100''))"

fun first_positive :: "revenue_row list \<Rightarrow> exn + revenue_row option" where
  "first_positive [] = Inr None"
| "first_positive (l # ls) =
     bind_r (signed_piastres (rl_gross l) ''grossAmount'') (\<lambda>g. if 0 < g then Inr (Some l) else first_positive ls)"

definition teacher_contra :: "revenue_row list \<Rightarrow> revenue_row option \<Rightarrow> int \<Rightarrow> int \<Rightarrow> bool \<Rightarrow> exn + int" where
  "teacher_contra ls original bp amount fully =
     (case original of
        None \<Rightarrow> Inr 0
      | Some _ \<Rightarrow>
          if fully
          then bind_r (map_r (\<lambda>l. signed_piastres (rl_teacher_amount l) ''teacherAmount'') ls) (\<lambda>xs. Inr (sum_list xs))
          else Inr (percent_of amount bp))"

definition contra_line :: "payment_row \<Rightarrow> revenue_row list \<Rightarrow> int \<Rightarrow> bool \<Rightarrow> time \<Rightarrow> exn + revenue_row" where
  "contra_line p ls amount fully now =
     bind_r (first_positive ls) (\<lambda>original.
     bind_r (case original of None \<Rightarrow> Inr 0 | Some l \<Rightarrow> read_share (rl_share l)) (\<lambda>bp.
     bind_r (teacher_contra ls original bp amount fully) (\<lambda>exact.
     let teacher = min (max exact 0) amount in
     Inr \<lparr>rl_payment = p_id p, rl_course = p_course p, rl_teacher = Option.bind original rl_teacher,
          rl_gross = - amount, rl_teacher_amount = - teacher, rl_platform = - (amount - teacher),
          rl_share = (case original of None \<Rightarrow> 0 | Some l \<Rightarrow> rl_share l), rl_recognized = now\<rparr>)))"

section \<open>Writing a refund\<close>

definition assert_admin :: "actor \<Rightarrow> exn + unit" where
  "assert_admin a = require (ac_role a = R_MASTER \<or> ac_role a = R_ADMIN) (app_error INSUFFICIENT_ROLE)"

definition assert_refundable :: "payment_row \<Rightarrow> unit dbtx" where
  "assert_refundable p = require_tx (p_status p = PS_PAID \<or> p_status p = PS_PARTIALLY_REFUNDED) (app_error INVALID_STATE)"

text \<open>Taking the payment row: its \<open>updatedAt\<close> moves forward, on the condition that it is the one read.\<close>

definition claim_payment :: "payment_row \<Rightarrow> time \<Rightarrow> unit dbtx" where
  "claim_payment p now =
     bind_tx (get_tx (\<lambda>s. count_where (\<lambda>x. p_id x = p_id p \<and> p_updated x = p_updated p) (payments s))) (\<lambda>hit.
     bind_tx (modify_tx (\<lambda>s. s\<lparr>payments := upd_where (\<lambda>x. p_id x = p_id p \<and> p_updated x = p_updated p)
       (\<lambda>x. x\<lparr>p_updated := max now (p_updated p + 1)\<rparr>) (payments s)\<rparr>)) (\<lambda>_.
     require_tx (hit \<noteq> 0) (app_error INVALID_STATE)))"

record refund_meta =
  rm_now :: time
  rm_actor :: id
  rm_reason :: "string option"
  rm_key :: "string option"
  rm_fingerprint :: "string option"
  rm_reference :: "string option"
  rm_request :: "id option"
  rm_method :: completion_method

definition refunded_row :: "int \<Rightarrow> bool \<Rightarrow> time \<Rightarrow> payment_row \<Rightarrow> payment_row" where
  "refunded_row after fully now p =
     p\<lparr>p_refunded := after, p_refunded_at := Some now, p_updated := now,
       p_status := (if fully then PS_REFUNDED else PS_PARTIALLY_REFUNDED)\<rparr>"

definition succeeded_payload :: "refund_meta \<Rightarrow> refund_payload" where
  "succeeded_payload m =
     \<lparr>rp_reason = rm_reason m, rp_actor = rm_actor m, rp_key = rm_key m, rp_fingerprint = rm_fingerprint m,
      rp_request = rm_request m, rp_completion = Some (rm_method m)\<rparr>"

definition apply_succeeded_refund :: "payment_row \<Rightarrow> revenue_row list \<Rightarrow> int \<Rightarrow> refund_meta \<Rightarrow> id dbtx" where
  "apply_succeeded_refund p ls amount m =
     bind_tx (lift_tx (read_column (p_amount p) ''amount'')) (\<lambda>paid.
     bind_tx (lift_tx (read_column (p_refunded p) ''refundedAmount'')) (\<lambda>refunded.
     let after = refunded + amount; fully = (after = paid) in
     bind_tx (require_tx (0 < amount \<and> after \<le> paid) (app_error INVALID_STATE)) (\<lambda>_.
     bind_tx (get_tx (\<lambda>s. count_where (\<lambda>x. p_id x = p_id p \<and> p_refunded x = refunded \<and> p_status x = p_status p) (payments s))) (\<lambda>hit.
     bind_tx (modify_tx (\<lambda>s. s\<lparr>payments := upd_where
         (\<lambda>x. p_id x = p_id p \<and> p_refunded x = refunded \<and> p_status x = p_status p)
         (refunded_row after fully (rm_now m)) (payments s)\<rparr>)) (\<lambda>_.
     bind_tx (require_tx (hit \<noteq> 0) (app_error INVALID_STATE)) (\<lambda>_.
     bind_tx (create_payment_tx (p_id p) tx_refund ''succeeded'' (Some amount) (rm_reference m)
         (Some (succeeded_payload m)) (rm_now m)) (\<lambda>i.
     bind_tx (lift_tx (contra_line p ls amount fully (rm_now m))) (\<lambda>line.
     bind_tx (modify_tx (\<lambda>s. s\<lparr>revenue := revenue s @ [line]\<rparr>)) (\<lambda>_.
     ret_tx (case rm_request m of Some q \<Rightarrow> q | None \<Rightarrow> i))))))))))"

definition revoke_access :: "payment_row \<Rightarrow> id \<Rightarrow> string option \<Rightarrow> time \<Rightarrow> revocation_outcome option dbtx" where
  "revoke_access p actor reason now =
     bind_tx (get_tx (payment_enrollment p)) (\<lambda>enrollment.
     case enrollment of
       None \<Rightarrow> ret_tx None
     | Some e \<Rightarrow>
         bind_tx (revoke_enrollment (e_id e) actor
           (case reason of Some r \<Rightarrow> ''Refunded: '' @ r | None \<Rightarrow> ''Refunded'') (Some (p_course p))
           ''Payment refunded'' now) (\<lambda>out. ret_tx (Some out)))"

definition refund_audit :: "id \<Rightarrow> id \<Rightarrow> string option \<Rightarrow> unit dbtx" where
  "refund_audit actor pid note =
     modify_tx (audit_with \<lparr>au_actor = Some actor, au_action = ''PAYMENT_REFUND'', au_entity = ''payment'',
       au_entity_id = pid, au_note = (case note of None \<Rightarrow> [] | Some n \<Rightarrow> n)\<rparr>)"

section \<open>Refunding\<close>

record refund_response =
  rsp_refund :: id
  rsp_replayed :: bool

text \<open>A missing, null or empty amount is \<open>None\<close>.\<close>

definition parse_requested_amount :: "refund_input \<Rightarrow> exn + int option" where
  "parse_requested_amount input =
     (case ri_kind input of
        RF_FULL \<Rightarrow>
          if ri_amount input \<noteq> None
          then Inl (validation [(''amount'', [''is only sent for a partial refund; a full refund returns the whole remaining balance''])])
          else Inr None
      | RF_PARTIAL \<Rightarrow>
          (case ri_amount input of
             None \<Rightarrow> Inl (validation [(''amount'', [''is required for a partial refund''])])
           | Some v \<Rightarrow>
               bind_r (parse_amount v ''amount'') (\<lambda>p.
               bind_r (require (0 < p) (validation [(''amount'', [''must be greater than 0''])])) (\<lambda>_.
               Inr (Some p)))))"

definition key_reused :: exn where
  "key_reused = app_error INVALID_STATE"

definition stored_replay :: "idem_key \<Rightarrow> string \<Rightarrow> db \<Rightarrow> exn + refund_response option" where
  "stored_replay key fp s =
     (case find_by ir_key key (idem_records s) of
        None \<Rightarrow> Inr None
      | Some r \<Rightarrow>
          if ir_fingerprint r \<noteq> fp then Inl key_reused
          else Inr (Some \<lparr>rsp_refund = ir_refund r, rsp_replayed = True\<rparr>))"

definition request_payload :: "id \<Rightarrow> string option \<Rightarrow> string \<Rightarrow> string \<Rightarrow> refund_payload" where
  "request_payload actor reason key fp =
     \<lparr>rp_reason = reason, rp_actor = actor, rp_key = Some key, rp_fingerprint = Some fp,
      rp_request = None, rp_completion = None\<rparr>"

text \<open>The refund itself, once the key is new: the amount against the balance, then the money or the reservation.\<close>

definition record_refund ::
  "payment_row \<Rightarrow> int \<Rightarrow> refund_completion \<Rightarrow> id \<Rightarrow> string option \<Rightarrow> string \<Rightarrow> string \<Rightarrow> time \<Rightarrow> id dbtx" where
  "record_refund p amount completion actor reason key fp now =
     (case completion of
        RC_IMMEDIATE \<Rightarrow>
          bind_tx (get_tx (revenue_lines (p_id p))) (\<lambda>ls.
          apply_succeeded_refund p ls amount
            \<lparr>rm_now = now, rm_actor = actor, rm_reason = reason, rm_key = Some key, rm_fingerprint = Some fp,
             rm_reference = None, rm_request = None, rm_method = attested_method p\<rparr>)
      | RC_PENDING \<Rightarrow>
          create_payment_tx (p_id p) tx_request ''pending'' (Some amount) None
            (Some (request_payload actor reason key fp)) now)"

definition new_refund ::
  "payment_row \<Rightarrow> payment_tx_row list \<Rightarrow> int option \<Rightarrow> refund_completion \<Rightarrow> id \<Rightarrow> string option \<Rightarrow> string \<Rightarrow> string
     \<Rightarrow> time \<Rightarrow> refund_response dbtx" where
  "new_refund p rows requested completion actor reason key fp now =
     bind_tx (assert_refundable p) (\<lambda>_.
     bind_tx (claim_payment p now) (\<lambda>_.
     bind_tx (lift_tx (balance_of_payment p rows)) (\<lambda>bal.
     bind_tx (require_tx (0 < bal_refundable bal) (app_error INVALID_STATE)) (\<lambda>_.
     let amount = (case requested of Some a \<Rightarrow> a | None \<Rightarrow> bal_refundable bal) in
     bind_tx (require_tx (amount \<le> bal_refundable bal)
       (validation [(''amount'', [''must not exceed the refundable balance''])])) (\<lambda>_.
     bind_tx (record_refund p amount completion actor reason key fp now) (\<lambda>i.
     bind_tx (revoke_access p actor reason now) (\<lambda>_.
     bind_tx (refund_audit actor (p_id p) reason) (\<lambda>_.
     bind_tx (get_tx (\<lambda>s. find_by ir_key (RefundKey (p_id p) key) (idem_records s))) (\<lambda>dup.
     bind_tx (require_tx (dup = None) (unique_violation ''key'')) (\<lambda>_.
     bind_tx (modify_tx (\<lambda>s. s\<lparr>idem_records := idem_records s @
       [\<lparr>ir_key = RefundKey (p_id p) key, ir_fingerprint = fp, ir_refund = i, ir_expires = now + 2592000000\<rparr>]\<rparr>)) (\<lambda>_.
     ret_tx \<lparr>rsp_refund = i, rsp_replayed = False\<rparr>)))))))))))"

definition refund_body ::
  "id \<Rightarrow> int option \<Rightarrow> refund_completion \<Rightarrow> id \<Rightarrow> string option \<Rightarrow> string \<Rightarrow> string \<Rightarrow> time \<Rightarrow> refund_response dbtx" where
  "refund_body pid requested completion actor reason key fp now =
     bind_tx (get_tx (stored_replay (RefundKey pid key) fp)) (\<lambda>r.
     bind_tx (lift_tx r) (\<lambda>replay.
     case replay of
       Some x \<Rightarrow> ret_tx x
     | None \<Rightarrow>
         bind_tx (load_payment pid) (\<lambda>p.
         bind_tx (get_tx (refund_rows pid)) (\<lambda>rows.
         case row_for_key key rows of
           Some earlier \<Rightarrow>
             bind_tx (require_tx (Option.bind (pt_payload earlier) rp_fingerprint = Some fp) key_reused) (\<lambda>_.
             ret_tx \<lparr>rsp_refund = pt_id earlier, rsp_replayed = True\<rparr>)
         | None \<Rightarrow> new_refund p rows requested completion actor reason key fp now))))"

text \<open>An optional text, trimmed; a blank one is none.\<close>

definition trim_or_null :: "string option \<Rightarrow> string option" where
  "trim_or_null v =
     (case v of None \<Rightarrow> None | Some t \<Rightarrow> if js_trim t = [] then None else Some (js_trim t))"

text \<open>The endpoint. The loser of two identical requests finds the winner's record and answers with it.\<close>

definition refund ::
  "(id \<Rightarrow> refund_kind \<Rightarrow> int option \<Rightarrow> refund_completion \<Rightarrow> string) \<Rightarrow> db world \<Rightarrow> id \<Rightarrow> refund_input \<Rightarrow> actor \<Rightarrow> time \<Rightarrow> db
     \<Rightarrow> (exn + refund_response) \<times> db" where
  "refund hash w pid input a now s =
     (let completion = (case ri_completion input of None \<Rightarrow> RC_IMMEDIATE | Some c \<Rightarrow> c) in
      case bind_r (assert_admin a) (\<lambda>_.
           bind_r (require (completion = RC_IMMEDIATE \<longrightarrow> ri_confirm input)
             (validation [(''confirmMoneyReturned'', [''Confirm that the money has actually been returned to the student.''])])) (\<lambda>_.
           parse_requested_amount input)) of
        Inl e \<Rightarrow> (Inl e, s)
      | Inr requested \<Rightarrow>
          (let fp = hash pid (ri_kind input) requested completion;
               r = with_serializable_retry default_options w
                     (refund_body pid requested completion (ac_id a) (trim_or_null (ri_reason input)) (ri_key input) fp now) s in
           case rt_result r of
             Inr x \<Rightarrow> (Inr x, rt_state r)
           | Inl e \<Rightarrow>
               (case e of
                  PrismaKnown c _ \<Rightarrow>
                    if c = ''P2002'' then
                      (case stored_replay (RefundKey pid (ri_key input)) fp (rt_state r) of
                         Inl e' \<Rightarrow> (Inl e', rt_state r)
                       | Inr (Some x) \<Rightarrow> (Inr x, rt_state r)
                       | Inr None \<Rightarrow> (Inl e, rt_state r))
                    else (Inl e, rt_state r)
                | _ \<Rightarrow> (Inl e, rt_state r))))"

section \<open>Resolving a pending refund\<close>

definition complete_request_body ::
  "id \<Rightarrow> id \<Rightarrow> string option \<Rightarrow> string option \<Rightarrow> id \<Rightarrow> time \<Rightarrow> refund_response dbtx" where
  "complete_request_body pid rid reference note actor now =
     bind_tx (load_payment pid) (\<lambda>p.
     bind_tx (get_tx (refund_rows pid)) (\<lambda>rows.
     bind_tx (the_or not_found (find_request rid rows)) (\<lambda>request.
     case request_state_of rows rid of
       RQ_SUCCEEDED \<Rightarrow> ret_tx \<lparr>rsp_refund = rid, rsp_replayed = True\<rparr>
     | RQ_FAILED \<Rightarrow> throw_tx (app_error INVALID_STATE)
     | RQ_PENDING \<Rightarrow>
         bind_tx (assert_refundable p) (\<lambda>_.
         bind_tx (claim_payment p now) (\<lambda>_.
         bind_tx (lift_tx (row_piastres request)) (\<lambda>amount.
         bind_tx (get_tx (revenue_lines pid)) (\<lambda>ls.
         bind_tx (apply_succeeded_refund p ls amount
           \<lparr>rm_now = now, rm_actor = actor, rm_reason = note, rm_key = None, rm_fingerprint = None,
            rm_reference = reference, rm_request = Some rid, rm_method = attested_method p\<rparr>) (\<lambda>_.
         bind_tx (refund_audit actor pid note) (\<lambda>_.
         ret_tx \<lparr>rsp_refund = rid, rsp_replayed = False\<rparr>))))))))) "

definition fail_request_body :: "id \<Rightarrow> id \<Rightarrow> string \<Rightarrow> id \<Rightarrow> time \<Rightarrow> refund_response dbtx" where
  "fail_request_body pid rid reason actor now =
     bind_tx (load_payment pid) (\<lambda>p.
     bind_tx (get_tx (refund_rows pid)) (\<lambda>rows.
     bind_tx (the_or not_found (find_request rid rows)) (\<lambda>_.
     case request_state_of rows rid of
       RQ_FAILED \<Rightarrow> ret_tx \<lparr>rsp_refund = rid, rsp_replayed = True\<rparr>
     | RQ_SUCCEEDED \<Rightarrow> throw_tx (app_error INVALID_STATE)
     | RQ_PENDING \<Rightarrow>
         bind_tx (claim_payment p now) (\<lambda>_.
         bind_tx (create_payment_tx pid tx_request_failed ''failed'' None None
           (Some \<lparr>rp_reason = Some (js_trim reason), rp_actor = actor, rp_key = None, rp_fingerprint = None,
             rp_request = Some rid, rp_completion = None\<rparr>) now) (\<lambda>_.
         bind_tx (refund_audit actor pid (Some reason)) (\<lambda>_.
         ret_tx \<lparr>rsp_refund = rid, rsp_replayed = False\<rparr>))))))"

definition complete_request ::
  "db world \<Rightarrow> id \<Rightarrow> id \<Rightarrow> bool \<Rightarrow> string option \<Rightarrow> string option \<Rightarrow> actor \<Rightarrow> time \<Rightarrow> db \<Rightarrow> (exn + refund_response) \<times> db" where
  "complete_request w pid rid confirm reference note a now s =
     (case bind_r (assert_admin a) (\<lambda>_. require confirm
        (validation [(''confirmMoneyReturned'', [''Confirm that the money has actually been returned to the student.''])])) of
        Inl e \<Rightarrow> (Inl e, s)
      | Inr _ \<Rightarrow>
          (let r = with_serializable_retry default_options w
                     (complete_request_body pid rid (trim_or_null reference) (trim_or_null note) (ac_id a) now) s in
           (rt_result r, rt_state r)))"

definition fail_request ::
  "db world \<Rightarrow> id \<Rightarrow> id \<Rightarrow> string \<Rightarrow> actor \<Rightarrow> time \<Rightarrow> db \<Rightarrow> (exn + refund_response) \<times> db" where
  "fail_request w pid rid reason a now s =
     (case assert_admin a of
        Inl e \<Rightarrow> (Inl e, s)
      | Inr _ \<Rightarrow>
          (let r = with_serializable_retry default_options w (fail_request_body pid rid reason (ac_id a) now) s in
           (rt_result r, rt_state r)))"

section \<open>Views\<close>

record refund_view =
  rw_id :: id
  rw_amount :: rat
  rw_status :: request_state
  rw_method :: "completion_method option"
  rw_reference :: "string option"
  rw_reason :: "string option"
  rw_created :: time
  rw_resolved :: "time option"

text \<open>A row without a known completion method is shown as unrecorded.\<close>

definition completion_method_of :: "payment_tx_row \<Rightarrow> completion_method" where
  "completion_method_of r = (case Option.bind (pt_payload r) rp_completion of None \<Rightarrow> UNRECORDED | Some m \<Rightarrow> m)"

definition describe_refund :: "payment_tx_row list \<Rightarrow> payment_tx_row \<Rightarrow> exn + refund_view list" where
  "describe_refund rows r =
     (if pt_type r = tx_request then
        bind_r (row_piastres r) (\<lambda>a.
        let resolution = resolution_of rows (pt_id r); st = request_state_of rows (pt_id r) in
        Inr [\<lparr>rw_id = pt_id r, rw_amount = to_egp_number a, rw_status = st,
              rw_method = (if st = RQ_SUCCEEDED then map_option completion_method_of resolution else None),
              rw_reference = Option.bind resolution pt_reference,
              rw_reason = Option.bind (pt_payload r) rp_reason, rw_created = pt_created r,
              rw_resolved = map_option pt_created resolution\<rparr>])
      else if pt_type r = tx_refund \<and> payload_request r = None then
        bind_r (row_piastres r) (\<lambda>a.
        Inr [\<lparr>rw_id = pt_id r, rw_amount = to_egp_number a, rw_status = RQ_SUCCEEDED,
              rw_method = Some (completion_method_of r), rw_reference = pt_reference r,
              rw_reason = Option.bind (pt_payload r) rp_reason, rw_created = pt_created r,
              rw_resolved = Some (pt_created r)\<rparr>])
      else Inr [])"

definition describe_refunds :: "payment_tx_row list \<Rightarrow> exn + refund_view list" where
  "describe_refunds rows = bind_r (map_r (describe_refund rows) rows) (\<lambda>vs. Inr (concat vs))"

record payment_summary =
  sm_status :: payment_status
  sm_amount :: rat
  sm_refunded :: rat
  sm_pending :: rat
  sm_refundable :: rat
  sm_eligible :: bool
  sm_enrollment :: "(id \<times> enrollment_state) option"
  sm_refunds :: "refund_view list"

definition describe :: "payment_row \<Rightarrow> payment_tx_row list \<Rightarrow> enrollment_row option \<Rightarrow> exn + payment_summary" where
  "describe p rows enrollment =
     bind_r (balance_of_payment p rows) (\<lambda>bal.
     bind_r (describe_refunds rows) (\<lambda>views.
     Inr \<lparr>sm_status = p_status p, sm_amount = to_egp_number (bal_paid bal),
       sm_refunded = to_egp_number (bal_refunded bal), sm_pending = to_egp_number (bal_pending bal),
       sm_refundable = to_egp_number (bal_refundable bal),
       sm_eligible = ((p_status p = PS_PAID \<or> p_status p = PS_PARTIALLY_REFUNDED) \<and> 0 < bal_refundable bal),
       sm_enrollment = map_option (\<lambda>e. (e_id e, e_state e)) enrollment, sm_refunds = views\<rparr>))"

definition refund_summary :: "id \<Rightarrow> actor \<Rightarrow> db \<Rightarrow> exn + payment_summary" where
  "refund_summary pid a s =
     bind_r (assert_admin a) (\<lambda>_.
     case find_by p_id pid (payments s) of
       None \<Rightarrow> Inl not_found
     | Some p \<Rightarrow> describe p (refund_rows pid s) (payment_enrollment p s))"

end
