(* ===== verification/PaymentBooks.thy ===== *)
theory PaymentBooks
  imports Refunds "HOL-Library.Multiset"
begin

text \<open>
  The books of the payments: what the revenue ledger, the payment rows and the refund log say about
  each other after any interleaving of checkouts, captures, provider failures, revocations, refunds
  and refund requests. The order the log is read in does not matter, so the quantities are sums over
  the log itself.
\<close>

section \<open>Quantities\<close>

definition tx_amount :: "payment_tx_row \<Rightarrow> int" where
  "tx_amount r = (case pt_amount r of None \<Rightarrow> 0 | Some a \<Rightarrow> a)"

definition is_resolution :: "id \<Rightarrow> id \<Rightarrow> payment_tx_row \<Rightarrow> bool" where
  "is_resolution pid i r \<longleftrightarrow>
     pt_payment r = pid \<and> (pt_type r = tx_refund \<or> pt_type r = tx_request_failed) \<and> payload_request r = Some i"

definition is_pending :: "payment_tx_row list \<Rightarrow> id \<Rightarrow> payment_tx_row \<Rightarrow> bool" where
  "is_pending txs pid r \<longleftrightarrow>
     pt_payment r = pid \<and> pt_type r = tx_request \<and> (\<forall>q \<in> set txs. \<not> is_resolution pid (pt_id r) q)"

definition reserved :: "payment_tx_row list \<Rightarrow> id \<Rightarrow> int" where
  "reserved txs pid = sum_where (is_pending txs pid) tx_amount txs"

definition refunds_done :: "payment_tx_row list \<Rightarrow> id \<Rightarrow> int" where
  "refunds_done txs pid = sum_where (\<lambda>r. pt_payment r = pid \<and> pt_type r = tx_refund) tx_amount txs"

definition net_revenue :: "revenue_row list \<Rightarrow> id \<Rightarrow> int" where
  "net_revenue ls pid = sum_where (\<lambda>l. rl_payment l = pid) rl_gross ls"

definition is_captured :: "payment_row \<Rightarrow> bool" where
  "is_captured p \<longleftrightarrow> p_status p \<in> set captured_statuses"

lemma is_captured_iff: "is_captured p \<longleftrightarrow> p_status p \<in> {PS_PAID, PS_PARTIALLY_REFUNDED, PS_REFUNDED}"
  by (auto simp: is_captured_def captured_statuses_def)

lemma tx_type_neq [simp]:
  "tx_refund \<noteq> tx_request" "tx_request \<noteq> tx_refund" "tx_request_failed \<noteq> tx_request"
  "tx_request \<noteq> tx_request_failed" "tx_refund \<noteq> tx_request_failed" "tx_request_failed \<noteq> tx_refund"
  "''cancel'' \<noteq> tx_refund" "''cancel'' \<noteq> tx_request" "''cancel'' \<noteq> tx_request_failed"
  "''create'' \<noteq> tx_refund" "''create'' \<noteq> tx_request" "''create'' \<noteq> tx_request_failed"
  "''capture'' \<noteq> tx_refund" "''capture'' \<noteq> tx_request" "''capture'' \<noteq> tx_request_failed"
  "''fail'' \<noteq> tx_refund" "''fail'' \<noteq> tx_request" "''fail'' \<noteq> tx_request_failed"
  "''webhook'' \<noteq> tx_refund" "''webhook'' \<noteq> tx_request" "''webhook'' \<noteq> tx_request_failed"
  by (simp_all add: tx_refund_def tx_request_def tx_request_failed_def)

text \<open>The amount the service computes from the log it loads is the reserved amount.\<close>

lemma resolution_of_refund_rows:
  "resolution_of (refund_rows pid s) i = None \<longleftrightarrow> (\<forall>q \<in> set (payment_txs s). \<not> is_resolution pid i q)"
  by (auto simp: resolution_of_def find_None_iff refund_rows_def refund_tx_types_def is_resolution_def)

lemma row_piastres_Inr_iff: "row_piastres r = Inr x \<longleftrightarrow> x = tx_amount r \<and> (pt_amount r = None \<or> valid_piastres x)"
  by (auto simp: row_piastres_def tx_amount_def read_column_Inr_iff split: option.splits)

lemma sum_list_sort_key: "sum_list (map f (sort_key k xs)) = (sum_list (map f xs) :: int)"
  by (metis mset_map mset_sort sum_mset_sum_list)

lemma pending_refund_reserved:
  assumes "pending_refund_piastres (refund_rows pid s) = Inr x"
  shows "x = reserved (payment_txs s) pid"
proof -
  let ?rows = "refund_rows pid s" and ?p = "is_pending (payment_txs s) pid"
  from assms obtain xs where "map_r row_piastres (pending_requests ?rows) = Inr xs" "x = sum_list xs"
    by (auto simp: pending_refund_piastres_def result_simps)
  moreover from this(1) have "xs = map tx_amount (pending_requests ?rows)"
    by (auto simp: map_r_Inr_iff row_piastres_Inr_iff list_all2_conv_all_nth intro!: nth_equalityI)
  moreover have "pending_requests ?rows = sort_key pt_created (filter ?p (payment_txs s))"
    unfolding pending_requests_def resolution_of_refund_rows
    by (auto simp: refund_rows_def filter_sort [symmetric] refund_tx_types_def is_pending_def
        intro!: arg_cong [of _ _ "sort_key pt_created"] filter_cong)
  ultimately show ?thesis by (simp add: reserved_def sum_where_def sum_list_sort_key)
qed

section \<open>The invariant\<close>

definition status_ok :: "payment_row \<Rightarrow> bool" where
  "status_ok p \<longleftrightarrow>
     (case p_status p of
        PS_PARTIALLY_REFUNDED \<Rightarrow> 0 < p_refunded p \<and> p_refunded p < p_amount p
      | PS_REFUNDED \<Rightarrow> p_refunded p = p_amount p
      | _ \<Rightarrow> p_refunded p = 0)"

text \<open>How often a payment was captured, read from its log, and whether its log is in order: no failure of
  it was recorded after a capture of it.\<close>

definition is_capture_of :: "id \<Rightarrow> payment_tx_row \<Rightarrow> bool" where
  "is_capture_of pid r \<longleftrightarrow> pt_payment r = pid \<and> pt_type r = ''capture''"

definition is_failure_of :: "id \<Rightarrow> payment_tx_row \<Rightarrow> bool" where
  "is_failure_of pid r \<longleftrightarrow> pt_payment r = pid \<and> pt_type r = ''fail''"

definition captures :: "payment_tx_row list \<Rightarrow> id \<Rightarrow> nat" where
  "captures txs pid = length (filter (is_capture_of pid) txs)"

definition orderly :: "payment_tx_row list \<Rightarrow> id \<Rightarrow> bool" where
  "orderly txs pid \<longleftrightarrow> sorted_wrt (\<lambda>q r. \<not> (is_capture_of pid q \<and> is_failure_of pid r)) txs"

definition pay_ok :: "payment_tx_row list \<Rightarrow> revenue_row list \<Rightarrow> payment_row \<Rightarrow> bool" where
  "pay_ok txs ls p \<longleftrightarrow>
     valid_piastres (p_amount p) \<and> 0 \<le> p_refunded p
     \<and> (p_status p = PS_PARTIALLY_REFUNDED \<longrightarrow> 0 < p_refunded p \<and> p_refunded p < p_amount p)
     \<and> (p_status p = PS_REFUNDED \<longrightarrow> p_refunded p = p_amount p)
     \<and> (is_captured p \<longrightarrow> 1 \<le> captures txs (p_id p))
     \<and> (orderly txs (p_id p) \<longrightarrow> status_ok p \<and> captures txs (p_id p) = (if is_captured p then 1 else 0))
     \<and> net_revenue ls (p_id p) = int (captures txs (p_id p)) * p_amount p - p_refunded p
     \<and> refunds_done txs (p_id p) = p_refunded p
     \<and> p_refunded p + reserved txs (p_id p) \<le> p_amount p"

definition log_ok :: "id \<Rightarrow> payment_tx_row \<Rightarrow> bool" where
  "log_ok n r \<longleftrightarrow> pt_id r < n \<and> pt_payment r < n \<and> (\<forall>i. payload_request r = Some i \<longrightarrow> i < n)
     \<and> (pt_type r = tx_request \<longrightarrow> 0 < tx_amount r)"

definition line_ok :: "id \<Rightarrow> revenue_row \<Rightarrow> bool" where
  "line_ok n l \<longleftrightarrow> rl_payment l < n \<and> rl_teacher_amount l + rl_platform l = rl_gross l"

definition pay_inv :: "db \<Rightarrow> bool" where
  "pay_inv s \<longleftrightarrow>
     unique_on p_id (payments s) \<and> unique_on pt_id (payment_txs s)
     \<and> (\<forall>p \<in> set (payments s). p_id p < db_next s \<and> pay_ok (payment_txs s) (revenue s) p)
     \<and> (\<forall>r \<in> set (payment_txs s). log_ok (db_next s) r)
     \<and> (\<forall>l \<in> set (revenue s). line_ok (db_next s) l)"

lemma log_ok_mono: "log_ok n r \<Longrightarrow> n \<le> m \<Longrightarrow> log_ok m r"
  by (auto simp: log_ok_def intro: less_le_trans)

lemma line_ok_mono: "line_ok n l \<Longrightarrow> n \<le> m \<Longrightarrow> line_ok m l"
  by (auto simp: line_ok_def)

section \<open>How the quantities move\<close>

lemma net_revenue_append: "net_revenue (ls @ [l]) pid = net_revenue ls pid + (if rl_payment l = pid then rl_gross l else 0)"
  by (simp add: net_revenue_def table_simps)

lemma refunds_done_append:
  "refunds_done (txs @ [r]) pid = refunds_done txs pid
     + (if pt_payment r = pid \<and> pt_type r = tx_refund then tx_amount r else 0)"
  by (simp add: refunds_done_def table_simps)

text \<open>A log row of no refund type changes neither sum.\<close>

definition plain_row :: "payment_tx_row \<Rightarrow> bool" where
  "plain_row r \<longleftrightarrow> pt_type r \<noteq> tx_refund \<and> pt_type r \<noteq> tx_request \<and> pt_type r \<noteq> tx_request_failed"

lemma plain_rows:
  assumes "\<forall>r \<in> set rows. plain_row r"
  shows "reserved (txs @ rows) pid = reserved txs pid" "refunds_done (txs @ rows) pid = refunds_done txs pid"
proof -
  have "is_pending (txs @ rows) pid = is_pending txs pid"
    by (rule ext) (use assms in \<open>auto simp: is_pending_def is_resolution_def plain_row_def\<close>)
  moreover have "sum_where (is_pending (txs @ rows) pid) tx_amount rows = sum_where (\<lambda>_. False) tx_amount rows"
    using assms by (intro sum_where_cong) (auto simp: is_pending_def plain_row_def)
  moreover have "sum_where (\<lambda>_. False) tx_amount rows = 0" by (induction rows) auto
  moreover have "sum_where (\<lambda>r. pt_payment r = pid \<and> pt_type r = tx_refund) tx_amount rows
      = sum_where (\<lambda>_. False) tx_amount rows"
    using assms by (intro sum_where_cong) (auto simp: plain_row_def)
  ultimately show "reserved (txs @ rows) pid = reserved txs pid" "refunds_done (txs @ rows) pid = refunds_done txs pid"
    by (simp_all add: reserved_def refunds_done_def table_simps)
qed

text \<open>Rows that are neither captures nor failures leave both readings of the log alone.\<close>

definition quiet_row :: "payment_tx_row \<Rightarrow> bool" where
  "quiet_row r \<longleftrightarrow> pt_type r \<noteq> ''capture'' \<and> pt_type r \<noteq> ''fail''"

lemma captures_append: "captures (txs @ rows) pid = captures txs pid + captures rows pid"
  by (simp add: captures_def)

lemma captures_0: "captures txs pid = 0 \<longleftrightarrow> (\<forall>q \<in> set txs. \<not> is_capture_of pid q)"
  by (simp add: captures_def filter_empty_conv)

lemma quiet_rows:
  assumes "\<forall>r \<in> set rows. quiet_row r"
  shows "captures (txs @ rows) pid = captures txs pid" "orderly (txs @ rows) pid = orderly txs pid"
proof -
  have none: "\<forall>r \<in> set rows. \<not> is_capture_of pid r \<and> \<not> is_failure_of pid r"
    using assms by (auto simp: quiet_row_def is_capture_of_def is_failure_of_def)
  then have "captures rows pid = 0" by (simp add: captures_0)
  then show "captures (txs @ rows) pid = captures txs pid" by (simp add: captures_append)
  have "sorted_wrt (\<lambda>q r. \<not> (is_capture_of pid q \<and> is_failure_of pid r)) rows"
    using none by (induction rows) auto
  then show "orderly (txs @ rows) pid = orderly txs pid" using none by (auto simp: orderly_def sorted_wrt_append)
qed

lemma orderly_snoc: "orderly (txs @ [r]) pid \<longleftrightarrow> orderly txs pid \<and> (is_failure_of pid r \<longrightarrow> captures txs pid = 0)"
  by (auto simp: orderly_def sorted_wrt_append captures_0)

lemma refund_rows_quiet [simp]: "pt_type r \<in> {tx_refund, tx_request, tx_request_failed} \<Longrightarrow> quiet_row r"
  by (auto simp: quiet_row_def tx_refund_def tx_request_def tx_request_failed_def)

lemma reserved_nonneg:
  assumes "\<forall>r \<in> set txs. log_ok n r"
  shows "0 \<le> reserved txs pid"
  unfolding reserved_def
  by (rule sum_where_nonneg) (use assms in \<open>auto simp: is_pending_def log_ok_def intro: less_imp_le\<close>)

lemma reserved_request:
  assumes "pt_type r = tx_request" "\<forall>q \<in> set txs. payload_request q \<noteq> Some (pt_id r)" "payload_request r = None"
  shows "reserved (txs @ [r]) pid = reserved txs pid + (if pt_payment r = pid then tx_amount r else 0)"
proof -
  have "is_pending (txs @ [r]) pid = is_pending txs pid"
    by (rule ext) (use assms(1) in \<open>auto simp: is_pending_def is_resolution_def\<close>)
  moreover have "is_pending txs pid r \<longleftrightarrow> pt_payment r = pid"
    using assms by (auto simp: is_pending_def is_resolution_def)
  ultimately show ?thesis by (simp add: reserved_def table_simps)
qed

lemma reserved_direct_refund:
  assumes "pt_type r = tx_refund" "payload_request r = None"
  shows "reserved (txs @ [r]) pid = reserved txs pid"
proof -
  have "is_pending (txs @ [r]) pid = is_pending txs pid"
    by (rule ext) (use assms in \<open>auto simp: is_pending_def is_resolution_def\<close>)
  moreover have "\<not> is_pending txs pid r" using assms(1) by (simp add: is_pending_def)
  ultimately show ?thesis by (simp add: reserved_def table_simps)
qed

lemma sum_where_remove:
  assumes "unique_on key rows" "r \<in> set rows" "P r"
  shows "sum_where (\<lambda>x. P x \<and> key x \<noteq> key r) v rows = sum_where P v rows - v r"
  using assms
proof (induction rows)
  case (Cons x xs)
  have e: "sum_where (\<lambda>y. P y \<and> key y \<noteq> key r) v xs = sum_where P v xs" if "key r \<notin> key ` set xs"
    using that by (intro sum_where_cong) (auto simp: image_iff)
  from Cons.prems have "r = x \<or> r \<in> set xs \<and> key r \<noteq> key x" by (auto simp: image_iff)
  then show ?case
  proof
    assume "r = x"
    with Cons.prems show ?thesis using e by simp
  next
    assume r: "r \<in> set xs \<and> key r \<noteq> key x"
    with Cons show ?thesis by auto
  qed
qed simp

text \<open>Resolving a pending request releases exactly its amount.\<close>

lemma reserved_resolved:
  assumes "unique_on pt_id txs" "q \<in> set txs" "is_pending txs pid q"
    and "pt_payment r = pid" "pt_type r = tx_refund \<or> pt_type r = tx_request_failed" "payload_request r = Some (pt_id q)"
  shows "reserved (txs @ [r]) pid = reserved txs pid - tx_amount q"
    and "pid' \<noteq> pid \<Longrightarrow> reserved (txs @ [r]) pid' = reserved txs pid'"
proof -
  have p: "is_pending (txs @ [r]) pid x \<longleftrightarrow> is_pending txs pid x \<and> pt_id x \<noteq> pt_id q" for x
    using assms(4-6) by (auto simp: is_pending_def is_resolution_def)
  have nr: "\<not> is_pending ys y r" for ys y using assms(5) by (auto simp: is_pending_def)
  have "sum_where (is_pending (txs @ [r]) pid) tx_amount txs
      = sum_where (\<lambda>x. is_pending txs pid x \<and> pt_id x \<noteq> pt_id q) tx_amount txs"
    by (intro sum_where_cong) (simp_all add: p)
  then show "reserved (txs @ [r]) pid = reserved txs pid - tx_amount q"
    using sum_where_remove [where P = "is_pending txs pid" and v = tx_amount, OF assms(1,2,3)] nr by (simp add: reserved_def table_simps)
  assume "pid' \<noteq> pid"
  then have "is_pending (txs @ [r]) pid' = is_pending txs pid'"
    by (intro ext) (use assms(4) in \<open>auto simp: is_pending_def is_resolution_def\<close>)
  then show "reserved (txs @ [r]) pid' = reserved txs pid'"
    using nr by (simp add: reserved_def table_simps)
qed

section \<open>Every operation keeps the books\<close>

lemma pay_inv_step:
  assumes "pay_inv s" "payments t = map g (payments s)" "\<And>x. p_id (g x) = p_id x"
    and "payment_txs t = payment_txs s @ rows" "revenue t = revenue s @ ls" "db_next s \<le> db_next t"
    and "\<forall>r \<in> set rows. db_next s \<le> pt_id r \<and> log_ok (db_next t) r" "distinct (map pt_id rows)"
    and "\<forall>l \<in> set ls. line_ok (db_next t) l"
    and "\<And>x. x \<in> set (payments s) \<Longrightarrow> pay_ok (payment_txs s) (revenue s) x \<Longrightarrow> pay_ok (payment_txs t) (revenue t) (g x)"
  shows "pay_inv t"
proof -
  have "unique_on pt_id (payment_txs t)"
    using assms(1,4,7,8) by (fastforce simp: pay_inv_def unique_on_def log_ok_def)
  moreover have "map p_id (payments t) = map p_id (payments s)" using assms(2,3) by simp
  then have "unique_on p_id (payments t)" using assms(1) by (simp add: pay_inv_def unique_on_def)
  ultimately show ?thesis
    using assms unfolding pay_inv_def
    by (auto intro: less_le_trans log_ok_mono line_ok_mono)
qed

text \<open>A payment whose own money columns and sums stay as they were.\<close>

lemma pay_ok_kept:
  assumes "pay_ok txs ls x" "p_id y = p_id x" "p_amount y = p_amount x" "p_refunded y = p_refunded x"
    and "status_ok y = status_ok x" "is_captured y = is_captured x" "net_revenue ls' (p_id x) = net_revenue ls (p_id x)"
    and "refunds_done txs' (p_id x) = refunds_done txs (p_id x)" "reserved txs' (p_id x) = reserved txs (p_id x)"
    and "p_status y = p_status x" "captures txs' (p_id x) = captures txs (p_id x)" "orderly txs' (p_id x) = orderly txs (p_id x)"
  shows "pay_ok txs' ls' y"
  using assms by (simp add: pay_ok_def)

lemma pay_inv_frame:
  assumes "pay_inv s" "payments t = payments s" "payment_txs t = payment_txs s" "revenue t = revenue s"
    "db_next s \<le> db_next t"
  shows "pay_inv t"
  by (rule pay_inv_step [OF assms(1), where g = "\<lambda>x. x" and rows = "[]" and ls = "[]"]) (use assms in auto)

lemma plain_log_ok: "plain_row r \<Longrightarrow> pt_payload r = None \<Longrightarrow> pt_id r < n \<Longrightarrow> pt_payment r < n \<Longrightarrow> log_ok n r"
  by (simp add: log_ok_def plain_row_def payload_request_def)

text \<open>The row of a payment in a table with unique identifiers.\<close>

lemma pay_inv_row:
  assumes "pay_inv s" "find_by p_id pid (payments s) = Some p" "x \<in> set (payments s)" "p_id x = pid"
  shows "x = p"
  using assms by (auto simp: pay_inv_def dest!: find_by_Some intro: unique_onD)

lemma checkout_pay_inv:
  assumes "create_pending_payment cfg user course enrollment price key random now s = Inr (x, t)"
    and "pay_inv s" "valid_piastres (cp_amount price)"
  shows "pay_inv t"
proof (cases "open_checkouts user course now s")
  case (Cons p ps)
  with assms show ?thesis by (auto simp: create_pending_payment_def)
next
  case Nil
  define k where "k = (case key of Some k \<Rightarrow> k | None \<Rightarrow> PayKey user course random)"
  define row where "row = pending_row (db_next s) user course enrollment price (provider_enum cfg) k now"
  define log where "log = \<lparr>pt_id = Suc (db_next s), pt_payment = db_next s, pt_type = ''create'', pt_status = ''pending'',
     pt_amount = Some (cp_amount price), pt_reference = None, pt_payload = None, pt_created = now\<rparr>"
  from assms(1) Nil have t: "t = s\<lparr>db_next := Suc (Suc (db_next s)), payments := payments s @ [row],
      payment_txs := payment_txs s @ [log]\<rparr>"
    by (auto simp: create_pending_payment_def Let_def result_simps row_def log_def k_def)
  have log: "plain_row log" "quiet_row log" by (simp_all add: plain_row_def quiet_row_def log_def)
  note plain = plain_rows [of "[log]", simplified, OF log(1)] quiet_rows [of "[log]", simplified, OF log(2)]
  have fresh: "net_revenue (revenue s) (db_next s) = 0" "refunds_done (payment_txs s) (db_next s) = 0"
    "reserved (payment_txs s) (db_next s) = 0" "captures (payment_txs s) (db_next s) = 0"
  proof -
    show "captures (payment_txs s) (db_next s) = 0"
      using assms(2) by (auto simp: captures_0 is_capture_of_def pay_inv_def log_ok_def)
    have "net_revenue (revenue s) (db_next s) = sum_where (\<lambda>_. False) rl_gross (revenue s)"
      unfolding net_revenue_def
      by (rule sum_where_cong) (use assms(2) in \<open>auto simp: pay_inv_def line_ok_def\<close>)
    moreover have "refunds_done (payment_txs s) (db_next s) = sum_where (\<lambda>_. False) tx_amount (payment_txs s)"
      unfolding refunds_done_def
      by (rule sum_where_cong) (use assms(2) in \<open>auto simp: pay_inv_def log_ok_def\<close>)
    moreover have "reserved (payment_txs s) (db_next s) = sum_where (\<lambda>_. False) tx_amount (payment_txs s)"
      unfolding reserved_def
      by (rule sum_where_cong) (use assms(2) in \<open>auto simp: pay_inv_def log_ok_def is_pending_def\<close>)
    moreover have "sum_where (\<lambda>_. False) v rows = 0" for v :: "'b \<Rightarrow> int" and rows by (induction rows) auto
    ultimately show "net_revenue (revenue s) (db_next s) = 0" "refunds_done (payment_txs s) (db_next s) = 0"
      "reserved (payment_txs s) (db_next s) = 0" by simp_all
  qed
  have "pay_ok (payment_txs t) (revenue t) row"
    using assms(3) fresh plain
    by (simp add: t row_def pending_row_def pay_ok_def status_ok_def is_captured_iff)
  moreover have "pay_ok (payment_txs t) (revenue t) x" if "x \<in> set (payments s)" for x
    using assms(2) that plain by (simp add: t pay_inv_def pay_ok_def)
  moreover have "log_ok (db_next t) log" using log(1) by (simp add: plain_log_ok log_def t)
  moreover have "p_id row = db_next s" "pt_id log = Suc (db_next s)" by (simp_all add: row_def pending_row_def log_def)
  ultimately show ?thesis
    using assms(2)
    by (auto simp: pay_inv_def t table_simps log_ok_def line_ok_def intro: less_SucI)
qed

lemma activate_enrollment_Inr_iff [result_simps]:
  "activate_enrollment en now ends s = Inr (u, t) \<longleftrightarrow>
     (case en of None \<Rightarrow> t = s
      | Some eid \<Rightarrow> find_by e_id eid (enrollments s) \<noteq> None
          \<and> t = s\<lparr>enrollments := upd_where (\<lambda>e. e_id e = eid) (activated_row now ends) (enrollments s)\<rparr>)"
  by (cases en) (auto simp: activate_enrollment_def result_simps)

lemma capture_effects_rows:
  assumes "capture_effects d p c reference now s = Inr (out, t)"
  obtains log where "payments t = upd_where (\<lambda>x. p_id x = p_id p) (paid_row now reference) (payments s)"
    "payment_txs t = payment_txs s @ [log]" "plain_row log" "pt_payload log = None"
    "pt_id log = db_next s" "pt_payment log = p_id p"
    "revenue t = revenue s @ [capture_line d (lead_teacher (p_course p) s) p now]" "db_next t = Suc (db_next s)"
    "enrollments t = (case p_enrollment p of None \<Rightarrow> enrollments s
       | Some eid \<Rightarrow> upd_where (\<lambda>e. e_id e = eid) (activated_row now
           (compute_access_end (c_duration_type c) (c_duration_days c) (c_access_ends c) now)) (enrollments s))"
    "\<forall>eid. p_enrollment p = Some eid \<longrightarrow> find_by e_id eid (enrollments s) \<noteq> None"
    "courses t = upd_where (\<lambda>x. c_id x = p_course p) (\<lambda>x. x\<lparr>c_student_count := active_students (p_course p) t\<rparr>) (courses s)"
    "out = \<lparr>cr_payment = paid_row now reference p, cr_already = False\<rparr>"
    "wallets t = wallets s" "wallet_txs t = wallet_txs s"
  using assms
  by (cases "p_enrollment p")
    (auto simp: capture_effects_def result_simps lead_teacher_def active_students_def plain_row_def intro!: that)

lemma capture_effects_type:
  assumes "capture_effects d p c reference now s = Inr (out, t)"
  shows "pt_type (last (payment_txs t)) = ''capture''"
  using assms by (cases "p_enrollment p") (auto simp: capture_effects_def result_simps)

lemma capture_effects_Inr:
  assumes "capture_effects d p c reference now s = Inr (out, t)"
  obtains log where "payments t = upd_where (\<lambda>x. p_id x = p_id p) (paid_row now reference) (payments s)"
    "payment_txs t = payment_txs s @ [log]" "plain_row log" "pt_payload log = None"
    "pt_id log = db_next s" "pt_payment log = p_id p" "pt_type log = ''capture''"
    "revenue t = revenue s @ [capture_line d (lead_teacher (p_course p) s) p now]" "db_next t = Suc (db_next s)"
    "enrollments t = (case p_enrollment p of None \<Rightarrow> enrollments s
       | Some eid \<Rightarrow> upd_where (\<lambda>e. e_id e = eid) (activated_row now
           (compute_access_end (c_duration_type c) (c_duration_days c) (c_access_ends c) now)) (enrollments s))"
    "\<forall>eid. p_enrollment p = Some eid \<longrightarrow> find_by e_id eid (enrollments s) \<noteq> None"
    "courses t = upd_where (\<lambda>x. c_id x = p_course p) (\<lambda>x. x\<lparr>c_student_count := active_students (p_course p) t\<rparr>) (courses s)"
    "out = \<lparr>cr_payment = paid_row now reference p, cr_already = False\<rparr>"
    "wallets t = wallets s" "wallet_txs t = wallet_txs s"
  using assms by (rule capture_effects_rows) (rule that, use capture_effects_type [OF assms] in simp_all)

lemma capture_body_Inr:
  assumes "capture_body d pid reference now s = Inr (out, t)"
  obtains (already) p where "find_by p_id pid (payments s) = Some p" "p_status p = PS_PAID" "t = s"
      "out = \<lparr>cr_payment = p, cr_already = True\<rparr>"
  | (captured) p c where "find_by p_id pid (payments s) = Some p"
      "p_status p \<in> {PS_PENDING, PS_AUTHORIZED, PS_FAILED}" "find_by c_id (p_course p) (courses s) = Some c"
      "capture_effects d p c reference now s = Inr (out, t)"
proof -
  from assms obtain p where p: "find_by p_id pid (payments s) = Some p"
    by (auto simp: capture_body_def result_simps)
  show ?thesis
  proof (cases "p_status p = PS_PAID")
    case True
    with assms p show ?thesis by (intro already [of p]) (auto simp: capture_body_def result_simps)
  next
    case False
    with assms p obtain c where "p_status p \<notin> {PS_REFUNDED, PS_PARTIALLY_REFUNDED, PS_CANCELLED}"
      "find_by c_id (p_course p) (courses s) = Some c" "capture_effects d p c reference now s = Inr (out, t)"
      by (auto simp: capture_body_def result_simps)
    with p False show ?thesis by (intro captured [of p c]) (cases "p_status p"; simp)+
  qed
qed

lemma captured_status: "\<not> is_captured p \<Longrightarrow> p_status p \<notin> {PS_PAID, PS_PARTIALLY_REFUNDED, PS_REFUNDED}"
  by (simp add: is_captured_iff)

lemma uncaptured_status:
  "status_ok p \<Longrightarrow> \<not> is_captured p \<Longrightarrow> p_refunded p = 0"
  by (cases "p_status p") (auto simp: status_ok_def is_captured_iff)

lemma capture_pay_inv:
  assumes "capture_body d pid reference now s = Inr (out, t)" "pay_inv s"
  shows "pay_inv t"
  using assms(1)
proof (cases rule: capture_body_Inr)
  case (captured p c)
  have pid: "p_id p = pid" "p \<in> set (payments s)" using find_by_Some [OF captured(1)] by auto
  then have less: "p_id p < db_next s" using assms(2) by (auto simp: pay_inv_def)
  have nc: "\<not> is_captured p" using captured(2) by (auto simp: is_captured_iff)
  from captured(4) obtain log where f: "payments t = upd_where (\<lambda>x. p_id x = p_id p) (paid_row now reference) (payments s)"
    "payment_txs t = payment_txs s @ [log]" "plain_row log" "pt_payload log = None"
    "pt_id log = db_next s" "pt_payment log = p_id p"
    "revenue t = revenue s @ [capture_line d (lead_teacher (p_course p) s) p now]" "db_next t = Suc (db_next s)"
    "pt_type log = ''capture''"
    by (rule capture_effects_Inr) blast
  note plain = plain_rows [of "[log]", simplified, OF f(3)]
  have more: "captures (payment_txs s @ [log]) i = captures (payment_txs s) i + (if i = p_id p then 1 else 0)"
    "orderly (payment_txs s @ [log]) i = orderly (payment_txs s) i" for i
    using f(6,9) by (auto simp: captures_append orderly_snoc captures_def is_capture_of_def is_failure_of_def)
  have line: "rl_payment (capture_line d l p now) = p_id p" "rl_gross (capture_line d l p now) = p_amount p"
    "rl_teacher_amount (capture_line d l p now) + rl_platform (capture_line d l p now) = p_amount p" for l
    by (simp_all add: capture_line_def Let_def)
  show ?thesis
  proof (rule pay_inv_step [OF assms(2) f(1) [unfolded upd_where_def] _ f(2,7)])
    fix x assume x: "x \<in> set (payments s)" "pay_ok (payment_txs s) (revenue s) x"
    show "pay_ok (payment_txs t) (revenue t) (if p_id x = p_id p then paid_row now reference x else x)"
    proof (cases "p_id x = p_id p")
      case True
      then have "x = p" using pay_inv_row [OF assms(2) captured(1) x(1)] pid by simp
      then have ok: "pay_ok (payment_txs s) (revenue s) p" using x(2) by simp
      have "orderly (payment_txs s) (p_id p) \<longrightarrow> p_refunded p = 0 \<and> captures (payment_txs s) (p_id p) = 0"
        using ok nc uncaptured_status [of p] by (auto simp: pay_ok_def)
      then have "pay_ok (payment_txs t) (revenue t) (paid_row now reference p)"
        using ok by (auto simp: f(2,7) plain more pay_ok_def paid_row_def is_captured_iff status_ok_def net_revenue_append line
            algebra_simps)
      then show ?thesis using \<open>x = p\<close> True by simp
    next
      case False
      then show ?thesis using x(2) by (simp add: f(2,7) plain more pay_ok_def net_revenue_append line)
    qed
  qed (use f less line plain_log_ok [OF f(3,4)] in \<open>auto simp: line_ok_def paid_row_def\<close>)
qed (use assms(2) in simp)

text \<open>A failure event may have read the payment at any earlier moment; payments are never deleted.\<close>

lemma fail_pay_inv:
  assumes "fail_payment pid code now seen s = (r, t)" "p_id ` set (payments seen) \<subseteq> p_id ` set (payments s)" "pay_inv s"
  shows "pay_inv t"
proof (cases "find_by p_id pid (payments seen)")
  case (Some p)
  then obtain q where q: "q \<in> set (payments s)" "p_id q = pid" using find_by_Some [OF Some] assms(2) by fastforce
  then have less: "pid < db_next s" using assms(3) by (auto simp: pay_inv_def)
  have here: "find_by p_id pid (payments s) \<noteq> None" using q by (auto simp: find_by_def find_None_iff)
  let ?quiet = "\<lparr>pt_id = db_next s, pt_payment = pid, pt_type = ''webhook'', pt_status = ''ignored_after_capture'',
              pt_amount = None, pt_reference = None, pt_payload = None, pt_created = now\<rparr>"
  let ?row = "\<lparr>pt_id = db_next s, pt_payment = pid, pt_type = ''fail'', pt_status = code,
              pt_amount = None, pt_reference = None, pt_payload = None, pt_created = now\<rparr>"
  have pl: "plain_row ?quiet" "plain_row ?row" "quiet_row ?quiet" by (simp_all add: plain_row_def quiet_row_def)
  show ?thesis
  proof (cases "is_captured p")
    case True
    then have t: "t = log_payment pid ''webhook'' ''ignored_after_capture'' now s"
      using assms(1) Some by (auto simp: fail_payment_def is_captured_iff)
    note plain = plain_rows [of "[?quiet]", simplified, OF pl(1)] quiet_rows [of "[?quiet]", simplified, OF pl(3)]
    show ?thesis
    proof (rule pay_inv_step [OF assms(3), where g = "\<lambda>x. x" and ls = "[]" and rows = "[?quiet]"])
      fix x assume "pay_ok (payment_txs s) (revenue s) x"
      then show "pay_ok (payment_txs t) (revenue t) x" by (simp add: t log_payment_def pay_ok_def plain)
    qed (use less plain_log_ok [OF pl(1)] in \<open>auto simp: t log_payment_def\<close>)
  next
    case False
    then have t: "t = log_payment pid ''fail'' code now
        (s\<lparr>payments := upd_where (\<lambda>x. p_id x = pid) (failed_row code now) (payments s)\<rparr>)"
      using assms(1) Some here by (auto simp: fail_payment_def is_captured_iff)
    note plain = plain_rows [of "[?row]", simplified, OF pl(2)]
    have more: "captures (payment_txs s @ [?row]) i = captures (payment_txs s) i"
      "orderly (payment_txs s @ [?row]) i \<longleftrightarrow> orderly (payment_txs s) i \<and> (i = pid \<longrightarrow> captures (payment_txs s) i = 0)" for i
      by (auto simp: captures_append orderly_snoc captures_def is_capture_of_def is_failure_of_def)
    show ?thesis
    proof (rule pay_inv_step [OF assms(3), where g = "\<lambda>x. if p_id x = pid then failed_row code now x else x"
          and ls = "[]" and rows = "[?row]"])
      fix x assume x: "pay_ok (payment_txs s) (revenue s) x"
      show "pay_ok (payment_txs t) (revenue t) (if p_id x = pid then failed_row code now x else x)"
      proof (cases "p_id x = pid")
        case True
        have "p_refunded x = 0" if "orderly (payment_txs s) pid" "captures (payment_txs s) pid = 0"
          using x that True uncaptured_status [of x] by (auto simp: pay_ok_def split: if_splits)
        then show ?thesis using x True
          by (auto simp: t log_payment_def pay_ok_def plain more failed_row_def is_captured_iff status_ok_def)
      next
        case False
        then show ?thesis using x by (simp add: t log_payment_def pay_ok_def plain more)
      qed
    qed (use less plain_log_ok [OF pl(2)] in \<open>auto simp: t log_payment_def upd_where_def failed_row_def\<close>)
  qed
qed (use assms in \<open>simp add: fail_payment_def\<close>)

text \<open>A failure that reads the payment as it is keeps the log in order.\<close>

lemma current_failure_orderly:
  assumes "fail_payment pid code now s s = (r, t)" "pay_inv s" "orderly (payment_txs s) i"
  shows "orderly (payment_txs t) i"
proof (cases "find_by p_id pid (payments s)")
  case (Some p)
  have p: "p \<in> set (payments s)" "p_id p = pid" using find_by_Some [OF Some] by auto
  then have "pay_ok (payment_txs s) (revenue s) p" using assms(2) by (simp add: pay_inv_def)
  then show ?thesis using assms(1,3) Some p(2)
    by (cases "i = pid")
      (auto simp: fail_payment_def log_payment_def orderly_snoc is_failure_of_def pay_ok_def is_captured_iff split: if_splits)
qed (use assms in \<open>simp add: fail_payment_def\<close>)

lemma revoke_pay_inv:
  assumes "revoke_enrollment eid actor reason course ticket_reason now s = Inr (out, t)" "pay_inv s"
  shows "pay_inv t"
  using assms(1)
proof (cases rule: revoke_enrollment_Inr)
  case (revoked e)
  let ?s = "s\<lparr>enrollments := upd_where (\<lambda>x. e_id x = eid \<and> e_state x \<noteq> ES_REVOKED)
           (revoked_row actor reason now) (enrollments s)\<rparr>"
  let ?f = "\<lambda>p. p\<lparr>p_status := PS_CANCELLED, p_failure := Some ''ENROLLMENT_REVOKED'', p_updated := now\<rparr>"
  from revoked(5) obtain rows where f:
    "payments t = upd_where (\<lambda>p. p_id p \<in> set (rvo_cancelled out) \<and> p_status p = PS_PENDING) ?f (payments s)"
    "payment_txs t = payment_txs s @ rows" "\<forall>r \<in> set rows. cancel_row r \<and> db_next s \<le> pt_id r \<and> pt_id r < db_next t
      \<and> pt_payment r \<in> set (rvo_cancelled out)"
    "distinct (map pt_id rows)" "db_next s \<le> db_next t" "revenue t = revenue s"
    "rvo_cancelled out = map p_id (filter (is_open_payment (e_id e)) (payments s))"
    by (rule revoke_effects_Inr) simp
  have "\<forall>r \<in> set rows. plain_row r \<and> pt_payload r = None"
    using f(3) by (simp add: cancel_row_def plain_row_def)
  then have pl: "\<forall>r \<in> set rows. plain_row r" "\<forall>r \<in> set rows. pt_payload r = None" by blast+
  have quiet: "\<forall>r \<in> set rows. quiet_row r" using f(3) by (auto simp: cancel_row_def quiet_row_def)
  have small: "i < db_next t" if "i \<in> set (rvo_cancelled out)" for i
    using that assms(2) f(5,7) by (auto simp: pay_inv_def intro: less_le_trans)
  show ?thesis
  proof (rule pay_inv_step [OF assms(2) f(1) [unfolded upd_where_def] _ f(2) _ f(5) _ f(4)])
    fix x assume "x \<in> set (payments s)" "pay_ok (payment_txs s) (revenue s) x"
    then have "pay_ok (payment_txs s) (revenue s)
        (if p_id x \<in> set (rvo_cancelled out) \<and> p_status x = PS_PENDING then ?f x else x)"
      by (auto simp: pay_ok_def status_ok_def is_captured_iff)
    then show "pay_ok (payment_txs t) (revenue t)
        (if p_id x \<in> set (rvo_cancelled out) \<and> p_status x = PS_PENDING then ?f x else x)"
      by (simp add: f(2,6) pay_ok_def plain_rows [OF pl(1)] quiet_rows [OF quiet])
  next
    show "revenue t = revenue s @ []" using f(6) by simp
    show "\<forall>r \<in> set rows. db_next s \<le> pt_id r \<and> log_ok (db_next t) r"
      using f(3) pl small by (auto intro: plain_log_ok)
  qed simp_all
qed (use assms(2) in simp)

lemma claim_payment_Inr_iff [result_simps]:
  "claim_payment p now s = Inr (u, t) \<longleftrightarrow>
     count_where (\<lambda>x. p_id x = p_id p \<and> p_updated x = p_updated p) (payments s) \<noteq> 0
     \<and> t = s\<lparr>payments := upd_where (\<lambda>x. p_id x = p_id p \<and> p_updated x = p_updated p)
       (\<lambda>x. x\<lparr>p_updated := max now (p_updated p + 1)\<rparr>) (payments s)\<rparr>"
  by (auto simp: claim_payment_def result_simps)

lemma assert_refundable_Inr_iff [result_simps]:
  "assert_refundable p s = Inr (u, t) \<longleftrightarrow> p_status p \<in> {PS_PAID, PS_PARTIALLY_REFUNDED} \<and> t = s"
  by (auto simp: assert_refundable_def result_simps)

lemma load_payment_Inr_iff [result_simps]:
  "load_payment pid s = Inr (p, t) \<longleftrightarrow> find_by p_id pid (payments s) = Some p \<and> t = s"
  by (auto simp: load_payment_def result_simps)

text \<open>Two rows of one payment that agree in everything the books look at.\<close>

definition same_money :: "payment_row \<Rightarrow> payment_row \<Rightarrow> bool" where
  "same_money x y \<longleftrightarrow> p_id x = p_id y \<and> p_amount x = p_amount y \<and> p_refunded x = p_refunded y
     \<and> p_status x = p_status y"

lemma same_money_ok: "same_money x y \<Longrightarrow> pay_ok txs ls x = pay_ok txs ls y"
  by (cases "p_status y") (simp_all add: same_money_def pay_ok_def status_ok_def is_captured_def)

text \<open>What a claim leaves: the books, and the payment with the same money.\<close>

lemma claim_payment_props:
  assumes "claim_payment p now s = Inr (u, t)" "pay_inv s" "find_by p_id (p_id p) (payments s) = Some p"
  shows "pay_inv t" "\<exists>x \<in> set (payments t). same_money x p" "payment_txs t = payment_txs s"
    "revenue t = revenue s" "enrollments t = enrollments s" "db_next t = db_next s" "idem_records t = idem_records s"
proof -
  let ?g = "\<lambda>x. if p_id x = p_id p \<and> p_updated x = p_updated p then x\<lparr>p_updated := max now (p_updated p + 1)\<rparr> else x"
  from assms(1) have t: "t = s\<lparr>payments := map ?g (payments s)\<rparr>" by (simp add: result_simps upd_where_def)
  have m: "same_money (?g x) x" for x by (simp add: same_money_def)
  have "p \<in> set (payments s)" using find_by_Some [OF assms(3)] by simp
  then show "\<exists>x \<in> set (payments t). same_money x p" using m [of p] by (auto simp: t)
  show "pay_inv t"
  proof (rule pay_inv_step [OF assms(2), where g = ?g and rows = "[]" and ls = "[]"])
    fix x assume "pay_ok (payment_txs s) (revenue s) x"
    then show "pay_ok (payment_txs t) (revenue t) (?g x)" by (subst same_money_ok [OF m]) (simp add: t)
  qed (simp_all add: t)
qed (use assms(1) in \<open>auto simp: result_simps\<close>)

lemma contra_line_Inr:
  assumes "contra_line p ls amount fully now = Inr line" "0 < amount"
  shows "rl_payment line = p_id p" "rl_gross line = - amount"
    "rl_teacher_amount line + rl_platform line = rl_gross line"
  using assms by (auto simp: contra_line_def result_simps Let_def)

lemma apply_succeeded_refund_Inr:
  assumes "apply_succeeded_refund p ls amount m s = Inr (i, t)"
  obtains line where "valid_piastres (p_amount p)" "valid_piastres (p_refunded p)" "0 < amount"
    "p_refunded p + amount \<le> p_amount p"
    "contra_line p ls amount (p_refunded p + amount = p_amount p) (rm_now m) = Inr line"
    "t = s\<lparr>payments := upd_where (\<lambda>x. p_id x = p_id p \<and> p_refunded x = p_refunded p \<and> p_status x = p_status p)
           (refunded_row (p_refunded p + amount) (p_refunded p + amount = p_amount p) (rm_now m)) (payments s),
         db_next := Suc (db_next s),
         payment_txs := payment_txs s @ [\<lparr>pt_id = db_next s, pt_payment = p_id p, pt_type = tx_refund,
           pt_status = ''succeeded'', pt_amount = Some amount, pt_reference = rm_reference m,
           pt_payload = Some (succeeded_payload m), pt_created = rm_now m\<rparr>],
         revenue := revenue s @ [line]\<rparr>"
    "i = (case rm_request m of Some q \<Rightarrow> q | None \<Rightarrow> db_next s)"
  using assms
  by (cases "rm_request m"; (auto simp: apply_succeeded_refund_def result_simps Let_def intro!: that))

lemma apply_refund_pay_inv:
  assumes "apply_succeeded_refund p ls amount m s = Inr (i, t)" "pay_inv s"
    and "x0 \<in> set (payments s)" "same_money x0 p" "p_status p \<in> {PS_PAID, PS_PARTIALLY_REFUNDED}"
    and "rm_request m = None \<Longrightarrow> p_refunded p + amount + reserved (payment_txs s) (p_id p) \<le> p_amount p"
    and "\<And>q. rm_request m = Some q \<Longrightarrow>
      \<exists>r \<in> set (payment_txs s). pt_id r = q \<and> is_pending (payment_txs s) (p_id p) r \<and> tx_amount r = amount"
  shows "pay_inv t"
  using assms(1)
proof (rule apply_succeeded_refund_Inr)
  fix line
  let ?full = "p_refunded p + amount = p_amount p"
  let ?row = "\<lparr>pt_id = db_next s, pt_payment = p_id p, pt_type = tx_refund, pt_status = ''succeeded'',
     pt_amount = Some amount, pt_reference = rm_reference m, pt_payload = Some (succeeded_payload m),
     pt_created = rm_now m\<rparr>"
  let ?g = "\<lambda>x. if p_id x = p_id p \<and> p_refunded x = p_refunded p \<and> p_status x = p_status p
     then refunded_row (p_refunded p + amount) ?full (rm_now m) x else x"
  assume a: "0 < amount" "p_refunded p + amount \<le> p_amount p" "contra_line p ls amount ?full (rm_now m) = Inr line"
    and t: "t = s\<lparr>payments := upd_where (\<lambda>x. p_id x = p_id p \<and> p_refunded x = p_refunded p \<and> p_status x = p_status p)
           (refunded_row (p_refunded p + amount) ?full (rm_now m)) (payments s),
         db_next := Suc (db_next s), payment_txs := payment_txs s @ [?row], revenue := revenue s @ [line]\<rparr>"
  note line = contra_line_Inr [OF a(3,1)]
  note quiet = quiet_rows [of "[?row]" "payment_txs s", simplified]
  have id: "p_id p < db_next s" using assms(2-4) by (auto simp: pay_inv_def same_money_def)
  have uniq: "unique_on pt_id (payment_txs s)" using assms(2) by (simp add: pay_inv_def)
  have pr: "payload_request ?row = rm_request m" by (simp add: payload_request_def succeeded_payload_def)
  have res: "reserved (payment_txs t) (p_id p) + p_refunded p + amount \<le> p_amount p"
    "pid \<noteq> p_id p \<Longrightarrow> reserved (payment_txs t) pid = reserved (payment_txs s) pid" for pid
  proof -
    have "pay_ok (payment_txs s) (revenue s) p"
      using assms(2-4) same_money_ok [OF assms(4)] by (auto simp: pay_inv_def)
    then have le: "p_refunded p + reserved (payment_txs s) (p_id p) \<le> p_amount p" by (simp add: pay_ok_def)
    have "reserved (payment_txs t) (p_id p) + p_refunded p + amount \<le> p_amount p
      \<and> (pid \<noteq> p_id p \<longrightarrow> reserved (payment_txs t) pid = reserved (payment_txs s) pid)"
    proof (cases "rm_request m")
      case None
      then have "reserved (payment_txs t) z = reserved (payment_txs s) z" for z
        using reserved_direct_refund [of ?row] pr by (simp add: t)
      then show ?thesis using assms(6) None by simp
    next
      case (Some q)
      then obtain r where r: "r \<in> set (payment_txs s)" "pt_id r = q" "is_pending (payment_txs s) (p_id p) r"
        "tx_amount r = amount" using assms(7) by blast
      have "reserved (payment_txs t) (p_id p) = reserved (payment_txs s) (p_id p) - amount
          \<and> (pid \<noteq> p_id p \<longrightarrow> reserved (payment_txs t) pid = reserved (payment_txs s) pid)"
        using reserved_resolved [OF uniq r(1,3), of ?row] pr Some r(2,4) by (simp add: t)
      then show ?thesis using le by linarith
    qed
    then show "reserved (payment_txs t) (p_id p) + p_refunded p + amount \<le> p_amount p"
      "pid \<noteq> p_id p \<Longrightarrow> reserved (payment_txs t) pid = reserved (payment_txs s) pid" by blast+
  qed
  show "pay_inv t"
  proof (rule pay_inv_step [OF assms(2), where g = ?g and rows = "[?row]" and ls = "[line]"])
    fix x assume x: "x \<in> set (payments s)" "pay_ok (payment_txs s) (revenue s) x"
    show "pay_ok (payment_txs t) (revenue t) (?g x)"
    proof (cases "p_id x = p_id p")
      case True
      then have "x = x0" using assms(2-4) x(1) by (auto simp: pay_inv_def same_money_def intro: unique_onD)
      then have m: "same_money x p" using assms(4) by simp
      have c: "is_captured x" using m assms(5) by (auto simp: is_captured_iff same_money_def)
      show ?thesis using x(2) m a(1,2) res(1) assms(5) c line
        by (auto simp: pay_ok_def same_money_def refunded_row_def status_ok_def is_captured_iff t quiet
            net_revenue_append refunds_done_append tx_amount_def)
    next
      case False
      then show ?thesis using x(2) res(2) [of "p_id x"] line
        by (simp add: pay_ok_def t quiet net_revenue_append refunds_done_append)
    qed
  next
    show "\<forall>r \<in> set [?row]. db_next s \<le> pt_id r \<and> log_ok (db_next t) r"
    proof -
      have "rm_request m = Some q \<Longrightarrow> q < db_next s" for q
        using assms(2) assms(7) [of q] by (auto simp: pay_inv_def log_ok_def)
      then show ?thesis using id pr by (auto simp: log_ok_def t less_SucI)
    qed
  qed (use id line in \<open>auto simp: t upd_where_def refunded_row_def line_ok_def\<close>)
qed

lemma revoke_access_pay_inv:
  assumes "revoke_access p actor reason now s = Inr (out, t)" "pay_inv s"
  shows "pay_inv t"
  using assms by (auto simp: revoke_access_def result_simps split: option.splits intro: revoke_pay_inv)

lemma find_request_pending:
  assumes "find_request rid (refund_rows pid s) = Some r" "request_state_of (refund_rows pid s) rid = RQ_PENDING"
  shows "r \<in> set (payment_txs s)" "pt_id r = rid" "is_pending (payment_txs s) pid r"
proof -
  have "r \<in> set (refund_rows pid s)" "pt_id r = rid" "pt_type r = tx_request"
    using find_Some [OF assms(1) [unfolded find_request_def]] by auto
  moreover have r: "resolution_of (refund_rows pid s) rid = None"
    using assms(2) by (auto simp: request_state_of_def split: option.splits if_splits)
  moreover from r have "\<forall>q \<in> set (payment_txs s). \<not> is_resolution pid rid q"
    by (simp add: resolution_of_refund_rows)
  ultimately show "r \<in> set (payment_txs s)" "pt_id r = rid" "is_pending (payment_txs s) pid r"
    by (auto simp: refund_rows_def is_pending_def)
qed

text \<open>A new refund, step by step: the claim, the record, the revocation, the audit and the key.\<close>

lemma new_refund_Inr:
  assumes "new_refund p rows requested completion actor reason key fp now s = Inr (out, t)"
  obtains s1 bal amount i s2 rvo s3 where "p_status p \<in> {PS_PAID, PS_PARTIALLY_REFUNDED}"
    "claim_payment p now s = Inr ((), s1)" "balance_of_payment p rows = Inr bal" "0 < bal_refundable bal"
    "amount = (case requested of Some a \<Rightarrow> a | None \<Rightarrow> bal_refundable bal)" "amount \<le> bal_refundable bal"
    "record_refund p amount completion actor reason key fp now s1 = Inr (i, s2)"
    "revoke_access p actor reason now s2 = Inr (rvo, s3)"
    "\<exists>row. t = (audit_with row s3)\<lparr>idem_records := idem_records s3 @
       [\<lparr>ir_key = RefundKey (p_id p) key, ir_fingerprint = fp, ir_refund = i, ir_expires = now + 2592000000\<rparr>]\<rparr>"
    "out = \<lparr>rsp_refund = i, rsp_replayed = False\<rparr>"
  using assms unfolding new_refund_def refund_audit_def
  by (auto simp: bind_tx_Inr_iff assert_refundable_Inr_iff lift_tx_Inr_iff require_tx_Inr_iff Let_def
      audit_with_def intro!: that)

lemma balance_of_payment_Inr:
  assumes "balance_of_payment p (refund_rows pid s) = Inr bal"
  shows "bal_refundable bal = max 0 (p_amount p - p_refunded p - reserved (payment_txs s) pid)"
    "bal_paid bal = p_amount p" "bal_refunded bal = p_refunded p" "bal_pending bal = reserved (payment_txs s) pid"
  using assms by (auto simp: balance_of_payment_def result_simps dest!: pending_refund_reserved)

lemma new_refund_pay_inv:
  assumes "new_refund p (refund_rows (p_id p) s) requested completion actor reason key fp now s = Inr (out, t)"
    and "pay_inv s" "find_by p_id (p_id p) (payments s) = Some p" "\<forall>a. requested = Some a \<longrightarrow> 0 < a"
  shows "pay_inv t"
  using assms(1)
proof (rule new_refund_Inr)
  fix s1 bal amount i s2 rvo s3
  assume h: "p_status p \<in> {PS_PAID, PS_PARTIALLY_REFUNDED}" "claim_payment p now s = Inr ((), s1)"
    "balance_of_payment p (refund_rows (p_id p) s) = Inr bal" "0 < bal_refundable bal"
    "amount = (case requested of Some a \<Rightarrow> a | None \<Rightarrow> bal_refundable bal)" "amount \<le> bal_refundable bal"
    "record_refund p amount completion actor reason key fp now s1 = Inr (i, s2)"
    "revoke_access p actor reason now s2 = Inr (rvo, s3)"
    "\<exists>row. t = (audit_with row s3)\<lparr>idem_records := idem_records s3 @
       [\<lparr>ir_key = RefundKey (p_id p) key, ir_fingerprint = fp, ir_refund = i, ir_expires = now + 2592000000\<rparr>]\<rparr>"
  note c = claim_payment_props [OF h(2) assms(2,3)]
  have pos: "0 < amount" using h(4,5) assms(4) by (cases requested) auto
  have room: "p_refunded p + amount + reserved (payment_txs s1) (p_id p) \<le> p_amount p"
    using balance_of_payment_Inr(1) [OF h(3)] h(4,6) c(3) by simp
  obtain x0 where x0: "x0 \<in> set (payments s1)" "same_money x0 p" using c(2) by blast
  have "pay_inv s2"
  proof (cases completion)
    case RC_IMMEDIATE
    with h(7) have "apply_succeeded_refund p (revenue_lines (p_id p) s1) amount
        \<lparr>rm_now = now, rm_actor = actor, rm_reason = reason, rm_key = Some key, rm_fingerprint = Some fp,
         rm_reference = None, rm_request = None, rm_method = attested_method p\<rparr> s1 = Inr (i, s2)"
      by (simp add: record_refund_def)
    then show ?thesis
      by (rule apply_refund_pay_inv [OF _ c(1) x0 h(1)]) (use room in simp_all)
  next
    case RC_PENDING
    let ?row = "\<lparr>pt_id = db_next s1, pt_payment = p_id p, pt_type = tx_request, pt_status = ''pending'',
       pt_amount = Some amount, pt_reference = None, pt_payload = Some (request_payload actor reason key fp), pt_created = now\<rparr>"
    from RC_PENDING h(7) have s2: "s2 = s1\<lparr>db_next := Suc (db_next s1), payment_txs := payment_txs s1 @ [?row]\<rparr>"
      by (auto simp: record_refund_def result_simps)
    have pl: "payload_request ?row = None" by (simp add: payload_request_def request_payload_def)
    have "\<forall>q \<in> set (payment_txs s1). payload_request q \<noteq> Some (db_next s1)"
      using c(1) by (auto simp: pay_inv_def log_ok_def)
    then have res: "reserved (payment_txs s2) pid = reserved (payment_txs s1) pid + (if p_id p = pid then amount else 0)" for pid
      using reserved_request [of ?row "payment_txs s1" pid] pl by (simp add: s2 tx_amount_def)
    have done_same: "refunds_done (payment_txs s2) pid = refunds_done (payment_txs s1) pid"
      "captures (payment_txs s2) pid = captures (payment_txs s1) pid" "orderly (payment_txs s2) pid = orderly (payment_txs s1) pid" for pid
      using quiet_rows [of "[?row]" "payment_txs s1" pid] by (simp_all add: s2 refunds_done_append)
    show ?thesis
    proof (rule pay_inv_step [OF c(1), where g = "\<lambda>x. x" and rows = "[?row]" and ls = "[]"])
      fix x assume x: "x \<in> set (payments s1)" "pay_ok (payment_txs s1) (revenue s1) x"
      have ls: "revenue s2 = revenue s1" by (simp add: s2)
      show "pay_ok (payment_txs s2) (revenue s2) x"
      proof (cases "p_id x = p_id p")
        case True
        then have "x = x0" using x0 x(1) c(1) by (auto simp: pay_inv_def same_money_def intro: unique_onD)
        then show ?thesis using x(2) x0(2) room by (simp add: pay_ok_def res done_same same_money_def ls)
      next
        case False
        then show ?thesis using x(2) by (simp add: pay_ok_def res done_same ls)
      qed
    next
      have "p_id p < db_next s1" using x0 c(1) by (auto simp: pay_inv_def same_money_def)
      then show "\<forall>r \<in> set [?row]. db_next s1 \<le> pt_id r \<and> log_ok (db_next s2) r"
        using pl pos by (simp add: log_ok_def s2 tx_amount_def)
    qed (simp_all add: s2)
  qed
  with h(8) have "pay_inv s3" by (rule revoke_access_pay_inv)
  then show "pay_inv t" by (rule pay_inv_frame) (use h(9) in \<open>auto simp: audit_with_def\<close>)
qed

lemma refund_body_Inr:
  assumes "refund_body pid requested completion actor reason key fp now s = Inr (out, t)"
  obtains (stored) r where "find_by ir_key (RefundKey pid key) (idem_records s) = Some r" "ir_fingerprint r = fp"
      "out = \<lparr>rsp_refund = ir_refund r, rsp_replayed = True\<rparr>" "t = s"
  | (earlier) p r where "find_by ir_key (RefundKey pid key) (idem_records s) = None"
      "find_by p_id pid (payments s) = Some p" "row_for_key key (refund_rows pid s) = Some r"
      "Option.bind (pt_payload r) rp_fingerprint = Some fp"
      "out = \<lparr>rsp_refund = pt_id r, rsp_replayed = True\<rparr>" "t = s"
  | (new) p where "find_by ir_key (RefundKey pid key) (idem_records s) = None"
      "find_by p_id pid (payments s) = Some p" "row_for_key key (refund_rows pid s) = None"
      "new_refund p (refund_rows pid s) requested completion actor reason key fp now s = Inr (out, t)"
proof (cases "find_by ir_key (RefundKey pid key) (idem_records s)")
  case (Some r)
  with assms show ?thesis
    by (intro stored [of r]) (auto simp: refund_body_def stored_replay_def result_simps split: if_splits)
next
  case None
  with assms obtain p where p: "find_by p_id pid (payments s) = Some p"
    by (auto simp: refund_body_def stored_replay_def result_simps)
  show ?thesis
  proof (cases "row_for_key key (refund_rows pid s)")
    case (Some r)
    with None p assms show ?thesis
      by (intro earlier [of p r]) (auto simp: refund_body_def stored_replay_def result_simps)
  next
    case no_row: None
    with None p assms show ?thesis
      by (intro new [of p]) (auto simp: refund_body_def stored_replay_def result_simps)
  qed
qed

lemma refund_pay_inv:
  assumes "refund_body pid requested completion actor reason key fp now s = Inr (out, t)" "pay_inv s"
    and "\<forall>a. requested = Some a \<longrightarrow> 0 < a"
  shows "pay_inv t"
  using assms(1)
proof (cases rule: refund_body_Inr)
  case (new p)
  then have "p_id p = pid" by (auto dest: find_by_Some)
  with new show ?thesis using new_refund_pay_inv [of p s] assms(2,3) by blast
qed (use assms(2) in simp_all)

lemma complete_request_Inr:
  assumes "complete_request_body pid rid reference note actor now s = Inr (out, t)"
  obtains (resolved) "t = s" "out = \<lparr>rsp_refund = rid, rsp_replayed = True\<rparr>" "request_state_of (refund_rows pid s) rid = RQ_SUCCEEDED"
  | (new) p request amount s1 i s2 where "find_by p_id pid (payments s) = Some p"
      "find_request rid (refund_rows pid s) = Some request" "request_state_of (refund_rows pid s) rid = RQ_PENDING"
      "p_status p \<in> {PS_PAID, PS_PARTIALLY_REFUNDED}" "claim_payment p now s = Inr ((), s1)"
      "row_piastres request = Inr amount"
      "apply_succeeded_refund p (revenue_lines pid s1) amount
           \<lparr>rm_now = now, rm_actor = actor, rm_reason = note, rm_key = None, rm_fingerprint = None,
            rm_reference = reference, rm_request = Some rid, rm_method = attested_method p\<rparr> s1 = Inr (i, s2)"
      "\<exists>row. t = audit_with row s2" "out = \<lparr>rsp_refund = rid, rsp_replayed = False\<rparr>"
proof (cases "request_state_of (refund_rows pid s) rid")
  case RQ_PENDING
  with assms obtain p request s1 amount i s2 where "find_by p_id pid (payments s) = Some p"
      "find_request rid (refund_rows pid s) = Some request"
      "p_status p \<in> {PS_PAID, PS_PARTIALLY_REFUNDED}" "claim_payment p now s = Inr ((), s1)"
      "row_piastres request = Inr amount"
      "apply_succeeded_refund p (revenue_lines pid s1) amount
           \<lparr>rm_now = now, rm_actor = actor, rm_reason = note, rm_key = None, rm_fingerprint = None,
            rm_reference = reference, rm_request = Some rid, rm_method = attested_method p\<rparr> s1 = Inr (i, s2)"
      "t = audit_with \<lparr>au_actor = Some actor, au_action = ''PAYMENT_REFUND'', au_entity = ''payment'',
        au_entity_id = pid, au_note = (case note of None \<Rightarrow> [] | Some n \<Rightarrow> n)\<rparr> s2"
      "out = \<lparr>rsp_refund = rid, rsp_replayed = False\<rparr>"
    unfolding complete_request_body_def
    by (auto simp: bind_tx_Inr_iff load_payment_Inr_iff the_or_Inr_iff assert_refundable_Inr_iff lift_tx_Inr_iff
        refund_audit_def)
  then show ?thesis using RQ_PENDING new by blast
qed (use assms in \<open>auto simp: complete_request_body_def bind_tx_Inr_iff load_payment_Inr_iff the_or_Inr_iff
  intro!: resolved\<close>)

lemma complete_pay_inv:
  assumes "complete_request_body pid rid reference note actor now s = Inr (out, t)" "pay_inv s"
  shows "pay_inv t"
  using assms(1)
proof (cases rule: complete_request_Inr)
  case (new p request amount s1 i s2)
  have id: "p_id p = pid" using new(1) by (auto dest: find_by_Some)
  note c = claim_payment_props [OF new(5) assms(2) new(1) [folded id]]
  obtain x0 where x0: "x0 \<in> set (payments s1)" "same_money x0 p" using c(2) by blast
  note q = find_request_pending [OF new(2,3)]
  have "tx_amount request = amount" using new(6) by (simp add: row_piastres_Inr_iff)
  then have "pay_inv s2"
    by (intro apply_refund_pay_inv [OF new(7) c(1) x0 new(4)]) (use q c(3) id in auto)
  then show ?thesis by (rule pay_inv_frame) (use new(8) in \<open>auto simp: audit_with_def\<close>)
qed (use assms(2) in simp)

lemma fail_request_Inr:
  assumes "fail_request_body pid rid reason actor now s = Inr (out, t)"
  obtains (resolved) "t = s" "request_state_of (refund_rows pid s) rid = RQ_FAILED"
  | (new) p request s1 where "find_by p_id pid (payments s) = Some p"
      "find_request rid (refund_rows pid s) = Some request" "request_state_of (refund_rows pid s) rid = RQ_PENDING"
      "claim_payment p now s = Inr ((), s1)"
      "\<exists>row. t = audit_with row (s1\<lparr>db_next := Suc (db_next s1), payment_txs := payment_txs s1 @
         [\<lparr>pt_id = db_next s1, pt_payment = pid, pt_type = tx_request_failed, pt_status = ''failed'', pt_amount = None,
           pt_reference = None, pt_payload = Some \<lparr>rp_reason = Some (js_trim reason), rp_actor = actor, rp_key = None,
             rp_fingerprint = None, rp_request = Some rid, rp_completion = None\<rparr>, pt_created = now\<rparr>]\<rparr>)"
  using assms unfolding fail_request_body_def
  by (cases "request_state_of (refund_rows pid s) rid")
    (auto simp: bind_tx_Inr_iff load_payment_Inr_iff the_or_Inr_iff create_payment_tx_Inr_iff refund_audit_def)

lemma fail_request_pay_inv:
  assumes "fail_request_body pid rid reason actor now s = Inr (out, t)" "pay_inv s"
  shows "pay_inv t"
  using assms(1)
proof (cases rule: fail_request_Inr)
  case (new p request s1)
  have id: "p_id p = pid" using new(1) by (auto dest: find_by_Some)
  note c = claim_payment_props [OF new(4) assms(2) new(1) [folded id]]
  note q = find_request_pending [OF new(2,3)]
  let ?row = "\<lparr>pt_id = db_next s1, pt_payment = pid, pt_type = tx_request_failed, pt_status = ''failed'', pt_amount = None,
           pt_reference = None, pt_payload = Some \<lparr>rp_reason = Some (js_trim reason), rp_actor = actor, rp_key = None,
             rp_fingerprint = None, rp_request = Some rid, rp_completion = None\<rparr>, pt_created = now\<rparr>"
  let ?t = "s1\<lparr>db_next := Suc (db_next s1), payment_txs := payment_txs s1 @ [?row]\<rparr>"
  have pr: "payload_request ?row = Some rid" by (simp add: payload_request_def)
  have u: "unique_on pt_id (payment_txs s1)" using c(1) by (simp add: pay_inv_def)
  have log: "log_ok (db_next s1) request" using q(1) c(1,3) by (simp add: pay_inv_def)
  have "pt_payment request = pid" using q(3) by (simp add: is_pending_def)
  then have small: "rid < db_next s1" "pid < db_next s1" "0 < tx_amount request"
    using log q(2,3) by (auto simp: log_ok_def is_pending_def)
  have res: "reserved (payment_txs ?t) x \<le> reserved (payment_txs s1) x" for x
    using reserved_resolved [OF u, of request pid ?row] q c(3) pr small(3) by (cases "x = pid") simp_all
  have "pay_inv ?t"
  proof (rule pay_inv_step [OF c(1), where g = "\<lambda>x. x" and rows = "[?row]" and ls = "[]"])
    fix x assume x: "pay_ok (payment_txs s1) (revenue s1) x"
    have "refunds_done (payment_txs ?t) (p_id x) = refunds_done (payment_txs s1) (p_id x)"
      "captures (payment_txs ?t) (p_id x) = captures (payment_txs s1) (p_id x)"
      "orderly (payment_txs ?t) (p_id x) = orderly (payment_txs s1) (p_id x)"
      using quiet_rows [of "[?row]" "payment_txs s1" "p_id x"] by (simp_all add: refunds_done_append)
    then show "pay_ok (payment_txs ?t) (revenue ?t) x"
      using x res [of "p_id x"] unfolding pay_ok_def by auto
  qed (use small pr in \<open>auto simp: log_ok_def\<close>)
  then show ?thesis by (rule pay_inv_frame) (use new(5) in \<open>auto simp: audit_with_def\<close>)
qed (use assms(2) in simp)

section \<open>The payments as a machine\<close>

text \<open>
  One rule per operation, in any order. A failure event reads its payment outside the transaction that
  writes, so it may have seen any earlier state: of that only is required that its payments are still
  there, because payments are never deleted. The last rule is any operation that leaves payments, log and revenue alone.
\<close>

inductive pay_step :: "db \<Rightarrow> db \<Rightarrow> bool" where
  py_checkout: "create_pending_payment cfg user course enrollment price key random now s = Inr (ck, t)
    \<Longrightarrow> valid_piastres (cp_amount price) \<Longrightarrow> pay_step s t"
| py_capture: "capture_body d pid reference now s = Inr (cr, t) \<Longrightarrow> pay_step s t"
| py_fail: "fail_payment pid code now seen s = (r, t) \<Longrightarrow> p_id ` set (payments seen) \<subseteq> p_id ` set (payments s)
    \<Longrightarrow> pay_step s t"
| py_revoke: "revoke_enrollment eid actor reason course ticket_reason now s = Inr (rvo, t) \<Longrightarrow> pay_step s t"
| py_refund: "refund_body pid requested completion actor rreason rkey fp now s = Inr (out, t)
    \<Longrightarrow> \<forall>a. requested = Some a \<longrightarrow> 0 < a \<Longrightarrow> pay_step s t"
| py_complete: "complete_request_body pid rid creference note actor now s = Inr (out, t) \<Longrightarrow> pay_step s t"
| py_fail_request: "fail_request_body pid rid reason actor now s = Inr (out, t) \<Longrightarrow> pay_step s t"
| py_other: "payments t = payments s \<Longrightarrow> payment_txs t = payment_txs s \<Longrightarrow> revenue t = revenue s
    \<Longrightarrow> db_next s \<le> db_next t \<Longrightarrow> pay_step s t"

definition pay_start :: "db \<Rightarrow> bool" where
  "pay_start s \<longleftrightarrow> payments s = [] \<and> payment_txs s = [] \<and> revenue s = []"

interpretation pay_machine: invariant_system pay_start pay_step pay_inv
proof
  show "pay_start s \<Longrightarrow> pay_inv s" for s by (simp add: pay_start_def pay_inv_def)
  show "pay_inv s \<Longrightarrow> pay_step s t \<Longrightarrow> pay_inv t" for s t
    by (erule pay_step.cases)
      (auto intro: checkout_pay_inv capture_pay_inv fail_pay_inv revoke_pay_inv refund_pay_inv complete_pay_inv
        fail_request_pay_inv pay_inv_frame)
qed

text \<open>C5: the books of a payment always balance. After any interleaving of operations, failure events that
  act on an outdated reading included, the net revenue of a payment is its amount once per capture in
  its log less what was refunded, the refunded total is the sum of the completed refunds in the log,
  refunds and reservations together never exceed the amount, a captured payment has a capture on
  record and a refunded one says how much was returned. And as long as no failure was recorded after a
  capture of the payment - the one thing an outdated reading can do - it was captured at most once and
  its status says exactly whether it was and how much was returned.\<close>

theorem payment_books_balance:
  assumes "pay_start s" "pay_step\<^sup>*\<^sup>* s t" "p \<in> set (payments t)"
  shows "net_revenue (revenue t) (p_id p) = int (captures (payment_txs t) (p_id p)) * p_amount p - p_refunded p
    \<and> p_refunded p = refunds_done (payment_txs t) (p_id p) \<and> 0 \<le> p_refunded p
    \<and> 0 \<le> reserved (payment_txs t) (p_id p)
    \<and> p_refunded p + reserved (payment_txs t) (p_id p) \<le> p_amount p
    \<and> (is_captured p \<longrightarrow> 1 \<le> captures (payment_txs t) (p_id p))
    \<and> (p_status p = PS_PARTIALLY_REFUNDED \<longrightarrow> 0 < p_refunded p \<and> p_refunded p < p_amount p)
    \<and> (p_status p = PS_REFUNDED \<longrightarrow> p_refunded p = p_amount p)
    \<and> (orderly (payment_txs t) (p_id p) \<longrightarrow>
        net_revenue (revenue t) (p_id p) = (if is_captured p then p_amount p - p_refunded p else 0)
        \<and> (p_status p = PS_PAID \<longrightarrow> p_refunded p = 0))"
proof -
  have i: "pay_inv t" by (rule pay_machine.inv_reachable [OF assms(1,2)])
  then have ok: "pay_ok (payment_txs t) (revenue t) p" using assms(3) by (simp add: pay_inv_def)
  have "0 \<le> reserved (payment_txs t) (p_id p)"
    by (rule reserved_nonneg [of _ "db_next t"]) (use i in \<open>simp add: pay_inv_def\<close>)
  moreover have "orderly (payment_txs t) (p_id p) \<Longrightarrow>
      net_revenue (revenue t) (p_id p) = (if is_captured p then p_amount p - p_refunded p else 0)
        \<and> (p_status p = PS_PAID \<longrightarrow> p_refunded p = 0)"
  proof -
    assume "orderly (payment_txs t) (p_id p)"
    with ok have o: "status_ok p" "captures (payment_txs t) (p_id p) = (if is_captured p then 1 else 0)"
      "net_revenue (revenue t) (p_id p) = int (captures (payment_txs t) (p_id p)) * p_amount p - p_refunded p"
      unfolding pay_ok_def by blast+
    have "net_revenue (revenue t) (p_id p) = (if is_captured p then p_amount p - p_refunded p else 0)"
      unfolding o(3) unfolding o(2) using uncaptured_status [OF o(1)] by simp
    moreover have "p_status p = PS_PAID \<longrightarrow> p_refunded p = 0" using o(1) by (auto simp: status_ok_def)
    ultimately show ?thesis by blast
  qed
  moreover have "p_refunded p = refunds_done (payment_txs t) (p_id p)" using ok by (simp only: pay_ok_def)
  ultimately show ?thesis using ok unfolding pay_ok_def by blast
qed

text \<open>A capture is exact. When a capture takes effect the payment was pending, authorised or failed;
  it is paid now, its enrollment is active with the access window of the course, one revenue line
  was appended whose teacher and platform parts add up to the amount, and the student count is the
  number of active enrollments. A payment already paid changes nothing.\<close>

theorem capture_exact:
  assumes "capture_body d pid reference now s = Inr (out, t)" "unique_on p_id (payments s)" "unique_on e_id (enrollments s)"
  shows "(cr_already out \<longrightarrow> t = s)
    \<and> (\<not> cr_already out \<longrightarrow> (\<exists>p line. find_by p_id pid (payments s) = Some p
        \<and> p_status p \<in> {PS_PENDING, PS_AUTHORIZED, PS_FAILED}
        \<and> find_by p_id pid (payments t) = Some (paid_row now reference p)
        \<and> revenue t = revenue s @ [line] \<and> rl_payment line = pid \<and> rl_gross line = p_amount p
        \<and> rl_teacher_amount line + rl_platform line = p_amount p
        \<and> (\<forall>c \<in> set (courses t). c_id c = p_course p \<longrightarrow> c_student_count c = active_students (p_course p) t)
        \<and> (\<forall>eid. p_enrollment p = Some eid \<longrightarrow>
             (\<exists>e c. find_by e_id eid (enrollments s) = Some e \<and> find_by c_id (p_course p) (courses s) = Some c
               \<and> find_by e_id eid (enrollments t) = Some (activated_row now
                   (compute_access_end (c_duration_type c) (c_duration_days c) (c_access_ends c) now) e)))))"
  using assms(1)
proof (cases rule: capture_body_Inr)
  case (captured p c)
  have pid: "p_id p = pid" using find_by_Some [OF captured(1)] by simp
  from captured(4) obtain log where f: "payments t = upd_where (\<lambda>x. p_id x = p_id p) (paid_row now reference) (payments s)"
    "revenue t = revenue s @ [capture_line d (lead_teacher (p_course p) s) p now]"
    "enrollments t = (case p_enrollment p of None \<Rightarrow> enrollments s
       | Some eid \<Rightarrow> upd_where (\<lambda>e. e_id e = eid) (activated_row now
           (compute_access_end (c_duration_type c) (c_duration_days c) (c_access_ends c) now)) (enrollments s))"
    "\<forall>eid. p_enrollment p = Some eid \<longrightarrow> find_by e_id eid (enrollments s) \<noteq> None"
    "courses t = upd_where (\<lambda>x. c_id x = p_course p) (\<lambda>x. x\<lparr>c_student_count := active_students (p_course p) t\<rparr>) (courses s)"
    "\<not> cr_already out"
    by (rule capture_effects_Inr) auto
  have k: "keyed_update p_id (paid_row now reference)" "\<And>ends. keyed_update e_id (activated_row now ends)"
    by (simp_all add: keyed_update_def paid_row_def activated_row_def)
  have "find_by p_id pid (payments t) = Some (paid_row now reference p)"
    using captured(1) pid by (simp add: f(1) keyed_update.find_upd [OF k(1)])
  moreover have "\<exists>e. find_by e_id eid (enrollments s) = Some e \<and> find_by e_id eid (enrollments t) = Some (activated_row now
                   (compute_access_end (c_duration_type c) (c_duration_days c) (c_access_ends c) now) e)"
    if en: "p_enrollment p = Some eid" for eid
  proof -
    obtain e where e: "find_by e_id eid (enrollments s) = Some e" using f(4) en by auto
    moreover have "e_id e = eid" using find_by_Some [OF e] by simp
    ultimately show ?thesis using en by (simp add: f(3) keyed_update.find_upd [OF k(2)])
  qed
  moreover have "\<forall>x \<in> set (courses t). c_id x = p_course p \<longrightarrow> c_student_count x = active_students (p_course p) t"
    using f(5) by (auto simp: set_upd_where)
  moreover have "rl_payment (capture_line d l p now) = pid \<and> rl_gross (capture_line d l p now) = p_amount p
      \<and> rl_teacher_amount (capture_line d l p now) + rl_platform (capture_line d l p now) = p_amount p" for l
    by (simp add: capture_line_def Let_def pid)
  ultimately show ?thesis using captured(1,2,3) f(2,6) by blast
qed simp

section \<open>What a refund does\<close>

lemma revoke_access_Inr:
  assumes "revoke_access p actor reason now s = Inr (out, t)"
  obtains (none) "payment_enrollment p s = None" "t = s"
  | (some) e out' where "payment_enrollment p s = Some e"
      "revoke_enrollment (e_id e) actor (case reason of Some r \<Rightarrow> ''Refunded: '' @ r | None \<Rightarrow> ''Refunded'')
         (Some (p_course p)) ''Payment refunded'' now s = Inr (out', t)"
  using assms by (cases "payment_enrollment p s") (auto simp: revoke_access_def result_simps)

text \<open>A revocation leaves the sums of the books and the idempotency records alone.\<close>

lemma revoke_enrollment_books:
  assumes "revoke_enrollment eid actor reason course ticket_reason now s = Inr (out, t)"
  shows "revenue t = revenue s \<and> idem_records t = idem_records s
    \<and> (\<exists>rows. payment_txs t = payment_txs s @ rows \<and> (\<forall>r \<in> set rows. plain_row r))"
  using assms
proof (cases rule: revoke_enrollment_Inr)
  case (revoked e)
  from revoked(5) obtain rows where f: "payment_txs t = payment_txs s @ rows" "revenue t = revenue s"
    "idem_records t = idem_records s"
    "\<forall>r \<in> set rows. cancel_row r \<and> db_next s \<le> pt_id r \<and> pt_id r < db_next t \<and> pt_payment r \<in> set (rvo_cancelled out)"
    by (rule revoke_effects_Inr) simp
  then have "\<forall>r \<in> set rows. plain_row r" by (auto simp: cancel_row_def plain_row_def)
  with f show ?thesis by auto
qed auto

lemma revoke_enrollment_state:
  assumes "revoke_enrollment (e_id e) actor reason course ticket_reason now s = Inr (out, t)"
    and "find_by e_id (e_id e) (enrollments s) = Some e"
  shows "\<exists>e'. find_by e_id (e_id e) (enrollments t) = Some e' \<and> e_state e' = ES_REVOKED"
  using assms(1)
proof (cases rule: revoke_enrollment_Inr)
  case already
  with assms(2) show ?thesis by auto
next
  case (revoked x)
  then have "x = e" using assms(2) by simp
  from revoked(5) have "enrollments t = upd_where (\<lambda>x. e_id x = e_id e \<and> e_state x \<noteq> ES_REVOKED)
           (revoked_row actor reason now) (enrollments s)"
    by (rule revoke_effects_Inr) simp
  then show ?thesis
    using assms(2) revoked(2) \<open>x = e\<close> by (simp add: revoked_by_id.find_upd) (simp add: revoked_row_def)
qed

text \<open>What the record of a refund does to the sums: money out at once, or only reserved.\<close>

lemma record_refund_books:
  assumes "record_refund p amount completion actor reason key fp now s = Inr (i, t)" "pay_inv s" "0 < amount"
  shows "refunds_done (payment_txs t) (p_id p) = refunds_done (payment_txs s) (p_id p) + (if completion = RC_IMMEDIATE then amount else 0)
    \<and> net_revenue (revenue t) (p_id p) = net_revenue (revenue s) (p_id p) - (if completion = RC_IMMEDIATE then amount else 0)
    \<and> reserved (payment_txs t) (p_id p) = reserved (payment_txs s) (p_id p) + (if completion = RC_IMMEDIATE then 0 else amount)
    \<and> enrollments t = enrollments s"
proof (cases completion)
  case RC_IMMEDIATE
  let ?m = "\<lparr>rm_now = now, rm_actor = actor, rm_reason = reason, rm_key = Some key, rm_fingerprint = Some fp,
     rm_reference = None, rm_request = None, rm_method = attested_method p\<rparr>"
  let ?row = "\<lparr>pt_id = db_next s, pt_payment = p_id p, pt_type = tx_refund,
     pt_status = ''succeeded'', pt_amount = Some amount, pt_reference = None,
     pt_payload = Some (succeeded_payload ?m), pt_created = now\<rparr>"
  from RC_IMMEDIATE assms(1) have "apply_succeeded_refund p (revenue_lines (p_id p) s) amount ?m s = Inr (i, t)"
    by (simp add: record_refund_def)
  then obtain line where
    c: "contra_line p (revenue_lines (p_id p) s) amount (p_refunded p + amount = p_amount p) now = Inr line"
    and tx: "payment_txs t = payment_txs s @ [?row]" "revenue t = revenue s @ [line]" "enrollments t = enrollments s"
    by (rule apply_succeeded_refund_Inr) simp
  have "rl_payment line = p_id p" "rl_gross line = - amount" using contra_line_Inr [OF c assms(3)] by auto
  moreover have "payload_request ?row = None" by (simp add: payload_request_def succeeded_payload_def)
  ultimately show ?thesis using RC_IMMEDIATE reserved_direct_refund [of ?row "payment_txs s" "p_id p"]
    by (simp add: tx net_revenue_append refunds_done_append tx_amount_def)
next
  case RC_PENDING
  let ?row = "\<lparr>pt_id = db_next s, pt_payment = p_id p, pt_type = tx_request, pt_status = ''pending'',
     pt_amount = Some amount, pt_reference = None, pt_payload = Some (request_payload actor reason key fp), pt_created = now\<rparr>"
  from RC_PENDING assms(1) have tx: "payment_txs t = payment_txs s @ [?row]" "revenue t = revenue s" "enrollments t = enrollments s"
    by (auto simp: record_refund_def result_simps)
  have "\<forall>q \<in> set (payment_txs s). payload_request q \<noteq> Some (pt_id ?row)"
    using assms(2) by (auto simp: pay_inv_def log_ok_def)
  moreover have "payload_request ?row = None" by (simp add: payload_request_def request_payload_def)
  ultimately show ?thesis using RC_PENDING reserved_request [of ?row "payment_txs s" "p_id p"]
    by (simp add: tx refunds_done_append tx_amount_def)
qed

text \<open>What the revocation of a refund does: the sums stay, the enrollment is revoked.\<close>

lemma payment_enrollment_found:
  "payment_enrollment p s = Some e \<Longrightarrow> e \<in> set (enrollments s)"
  by (cases "p_enrollment p") (auto simp: payment_enrollment_def find_enrollment_def dest: find_by_Some find_Some)

lemma payment_enrollment_cong:
  "enrollments t = enrollments s \<Longrightarrow> payment_enrollment p t = payment_enrollment p s"
  by (simp add: payment_enrollment_def find_enrollment_def split: option.splits)

lemma revoke_access_books:
  assumes "revoke_access p actor reason now s = Inr (out, t)" "unique_on e_id (enrollments s)"
  shows "revenue t = revenue s
    \<and> refunds_done (payment_txs t) pid = refunds_done (payment_txs s) pid
    \<and> reserved (payment_txs t) pid = reserved (payment_txs s) pid
    \<and> (\<forall>e. payment_enrollment p s = Some e \<longrightarrow>
         (\<exists>e'. find_by e_id (e_id e) (enrollments t) = Some e' \<and> e_state e' = ES_REVOKED))"
  using assms(1)
proof (cases rule: revoke_access_Inr)
  case (some e out')
  have "e \<in> set (enrollments s)" using some(1) by (rule payment_enrollment_found)
  then have "find_by e_id (e_id e) (enrollments s) = Some e" using assms(2) by (simp add: find_by_unique)
  then have "\<exists>e'. find_by e_id (e_id e) (enrollments t) = Some e' \<and> e_state e' = ES_REVOKED"
    using revoke_enrollment_state [OF some(2)] by simp
  moreover obtain rows where "revenue t = revenue s" "payment_txs t = payment_txs s @ rows"
    "\<forall>r \<in> set rows. plain_row r"
    using revoke_enrollment_books [OF some(2)] by blast
  ultimately show ?thesis using some(1) plain_rows [of rows "payment_txs s" pid] by simp
qed simp

text \<open>C6: a refund takes exactly its amount, and access with it. A new refund asks for a positive amount
  within what is paid, not yet refunded and not reserved; an immediate one adds it to the completed
  refunds and takes it from the net revenue, a pending one only reserves it; and the enrollment the
  payment paid for is revoked when the transaction ends.\<close>

theorem refund_takes_exactly:
  assumes "refund_body pid requested completion actor reason key fp now s = Inr (out, t)" "\<not> rsp_replayed out"
    and "pay_inv s" "\<forall>a. requested = Some a \<longrightarrow> 0 < a" "unique_on e_id (enrollments s)"
  shows "\<exists>p amount. find_by p_id pid (payments s) = Some p \<and> p_status p \<in> {PS_PAID, PS_PARTIALLY_REFUNDED}
    \<and> amount = (case requested of Some a \<Rightarrow> a | None \<Rightarrow> p_amount p - p_refunded p - reserved (payment_txs s) pid)
    \<and> 0 < amount \<and> amount \<le> p_amount p - p_refunded p - reserved (payment_txs s) pid
    \<and> refunds_done (payment_txs t) pid = refunds_done (payment_txs s) pid + (if completion = RC_IMMEDIATE then amount else 0)
    \<and> net_revenue (revenue t) pid = net_revenue (revenue s) pid - (if completion = RC_IMMEDIATE then amount else 0)
    \<and> reserved (payment_txs t) pid = reserved (payment_txs s) pid + (if completion = RC_IMMEDIATE then 0 else amount)
    \<and> (\<forall>e. payment_enrollment p s = Some e \<longrightarrow>
         (\<exists>e'. find_by e_id (e_id e) (enrollments t) = Some e' \<and> e_state e' = ES_REVOKED))"
  using assms(1)
proof (cases rule: refund_body_Inr)
  case (new p)
  have pid: "p_id p = pid" using find_by_Some [OF new(2)] by simp
  from new(4) show ?thesis
  proof (rule new_refund_Inr)
    fix s1 bal amount i s2 rvo s3
    assume h: "p_status p \<in> {PS_PAID, PS_PARTIALLY_REFUNDED}" "claim_payment p now s = Inr ((), s1)"
      "balance_of_payment p (refund_rows pid s) = Inr bal" "0 < bal_refundable bal"
      "amount = (case requested of Some a \<Rightarrow> a | None \<Rightarrow> bal_refundable bal)" "amount \<le> bal_refundable bal"
      "record_refund p amount completion actor reason key fp now s1 = Inr (i, s2)"
      "revoke_access p actor reason now s2 = Inr (rvo, s3)"
      "\<exists>row. t = (audit_with row s3)\<lparr>idem_records := idem_records s3 @
         [\<lparr>ir_key = RefundKey (p_id p) key, ir_fingerprint = fp, ir_refund = i, ir_expires = now + 2592000000\<rparr>]\<rparr>"
    note c = claim_payment_props [OF h(2) assms(3) new(2) [folded pid]]
    have t: "payment_txs t = payment_txs s3" "revenue t = revenue s3" "enrollments t = enrollments s3"
      using h(9) by (auto simp: audit_with_def)
    have bal: "bal_refundable bal = p_amount p - p_refunded p - reserved (payment_txs s) pid"
      using balance_of_payment_Inr(1) [OF h(3)] h(4) by simp
    have pos: "0 < amount" using h(4,5) assms(4) by (cases requested) auto
    note b = record_refund_books [OF h(7) c(1) pos, unfolded pid c(3-5)]
    then have es: "enrollments s2 = enrollments s" by blast
    with assms(5) have "unique_on e_id (enrollments s2)" by (rule back_subst [of "\<lambda>x. unique_on e_id x", OF _ sym])
    note r = revoke_access_books [OF h(8) this, of pid]
    have en: "payment_enrollment p s2 = payment_enrollment p s" using es by (rule payment_enrollment_cong)
    have rev: "\<exists>e'. find_by e_id (e_id e) (enrollments t) = Some e' \<and> e_state e' = ES_REVOKED"
      if "payment_enrollment p s = Some e" for e
      using r that unfolding en t by blast
    have sums: "refunds_done (payment_txs t) pid = refunds_done (payment_txs s) pid + (if completion = RC_IMMEDIATE then amount else 0)"
      "net_revenue (revenue t) pid = net_revenue (revenue s) pid - (if completion = RC_IMMEDIATE then amount else 0)"
      "reserved (payment_txs t) pid = reserved (payment_txs s) pid + (if completion = RC_IMMEDIATE then 0 else amount)"
      unfolding t using b r by auto
    show ?thesis
      by (rule exI [of _ p], rule exI [of _ amount])
        (intro conjI allI impI new(2) h(1) pos rev sums h(5) [unfolded bal] h(6) [unfolded bal]; assumption)
  qed
qed (use assms(2) in simp_all)

section \<open>A checkout, its capture and a refund\<close>

definition desk_price :: price_row where
  "desk_price = \<lparr>cp_id = 80, cp_course = 12, cp_amount = 50000, cp_currency = ''EGP'', cp_version = 1, cp_current = True\<rparr>"

definition desk_payment :: payment_row where
  "desk_payment = pending_row 90 3 12 40 desk_price PP_MANUAL (PayKey 3 12 7) 1000"

definition desk_log :: "payment_tx_row list" where
  "desk_log = [\<lparr>pt_id = 91, pt_payment = 90, pt_type = ''create'', pt_status = ''pending'', pt_amount = Some 50000,
     pt_reference = None, pt_payload = None, pt_created = 1000\<rparr>,
    \<lparr>pt_id = 92, pt_payment = 90, pt_type = ''capture'', pt_status = ''succeeded'', pt_amount = Some 50000,
     pt_reference = None, pt_payload = None, pt_created = 2000\<rparr>]"

definition checked_out :: db where
  "checked_out = campus_db\<lparr>db_next := 92, payments := [desk_payment], payment_txs := [hd desk_log]\<rparr>"

definition desk_line :: revenue_row where
  "desk_line = \<lparr>rl_payment = 90, rl_course = 12, rl_teacher = None, rl_gross = 50000, rl_teacher_amount = 0,
     rl_platform = 50000, rl_share = 0, rl_recognized = 2000\<rparr>"

definition captured :: db where
  "captured = campus_db\<lparr>db_next := 93, payments := [paid_row 2000 None desk_payment], payment_txs := desk_log,
     revenue := [desk_line], enrollments := [activated_row 2000 None campus_enrollment],
     courses := [campus_course 11 [], (campus_course 12 [7])\<lparr>c_student_count := 1\<rparr>]\<rparr>"

lemma desk_checkout: "\<exists>ck. create_pending_payment CFG_NONE 3 12 40 desk_price None 7 1000 campus_db = Inr (ck, checked_out)"
  by (simp add: create_pending_payment_def open_checkouts_def campus_db_def empty_db_def provider_enum_def
      create_payment_tx_def checked_out_def desk_payment_def desk_log_def desk_price_def Let_def)

lemma desk_capture: "\<exists>cr. capture_body 3000 90 None 2000 checked_out = Inr (cr, captured) \<and> \<not> cr_already cr"
  by (simp add: capture_body_def capture_effects_def create_payment_tx_def activate_enrollment_def recount_students_def
      checked_out_def captured_def campus_db_def empty_db_def desk_payment_def pending_row_def desk_price_def desk_log_def
      campus_enrollment_def campus_course_def lead_teacher_def capture_line_def share_of_def desk_line_def
      compute_access_end_def active_students_def upd_where_Cons percent_of_def activated_row_def paid_row_def Let_def)

lemmas desk_states = captured_def campus_db_def empty_db_def desk_payment_def pending_row_def paid_row_def
  activated_row_def campus_enrollment_def campus_course_def desk_price_def desk_line_def

lemma read_column_ok: "valid_piastres p \<Longrightarrow> read_column p f = Inr p"
  by (simp add: result_simps)

lemma desk_refund:
  "\<exists>out t. refund_body 90 (Some 20000) RC_IMMEDIATE 9 None ''k1'' ''fp'' 3000 captured = Inr (out, t) \<and> \<not> rsp_replayed out
    \<and> find_by p_id 90 (payments t) \<noteq> None"
proof -
  have max: "x \<le> 50000 \<Longrightarrow> x \<le> max_piastres" for x by (simp add: max_piastres_def max_money_egp_def)
  have rows: "refund_rows 90 captured = []"
    by (simp add: refund_rows_def captured_def desk_log_def refund_tx_types_def tx_refund_def tx_request_def tx_request_failed_def)
  have p: "find_by p_id 90 (payments captured) = Some (paid_row 2000 None desk_payment)" "idem_records captured = []"
    by (simp_all add: desk_states)
  have "\<exists>out t. new_refund (paid_row 2000 None desk_payment) [] (Some 20000) RC_IMMEDIATE 9 None ''k1'' ''fp'' 3000 captured
      = Inr (out, t) \<and> \<not> rsp_replayed out \<and> find_by p_id 90 (payments t) \<noteq> None"
    by (simp add: new_refund_def assert_refundable_def claim_payment_def balance_of_payment_def read_column_ok max
       pending_refund_piastres_def pending_requests_def desk_states record_refund_def apply_succeeded_refund_def
       contra_line_def revenue_lines_def signed_piastres_def read_share_def teacher_contra_def percent_of_def
       create_payment_tx_def upd_where_Cons refunded_row_def attested_method_def revoke_access_def
       payment_enrollment_def revoke_enrollment_def revoke_effects_def cancel_pending_def is_open_payment_def
       recount_students_def refund_audit_def audit_with_def revoked_row_def Let_def max_def)
  then show ?thesis
    by (simp add: refund_body_def stored_replay_def load_payment_def row_for_key_def rows p)
qed

lemma desk_unique: "unique_on p_id (payments checked_out)" "unique_on e_id (enrollments checked_out)"
  "unique_on e_id (enrollments captured)" "pay_start campus_db"
  by (simp_all add: checked_out_def desk_states pay_start_def)

lemma desk_steps: "pay_step\<^sup>*\<^sup>* campus_db captured"
proof -
  have "valid_piastres (cp_amount desk_price)" by (simp add: desk_price_def max_piastres_def max_money_egp_def)
  with desk_checkout have "pay_step campus_db checked_out" by (auto intro: py_checkout)
  moreover from desk_capture have "pay_step checked_out captured" by (auto intro: py_capture)
  ultimately show ?thesis by (meson r_into_rtranclp rtranclp.rtrancl_into_rtrancl)
qed

lemma desk_books: "pay_inv captured"
  by (rule pay_machine.inv_reachable [OF desk_unique(4) desk_steps])

theorem payment_books_balance_witness:
  "net_revenue (revenue captured) 90 = 50000 \<and> refunds_done (payment_txs captured) 90 = 0"
proof -
  have "paid_row 2000 None desk_payment \<in> set (payments captured)" by (simp add: captured_def)
  from payment_books_balance [OF desk_unique(4) desk_steps this] show ?thesis
    by (simp add: captures_def is_capture_of_def desk_log_def desk_states)
qed

text \<open>What an outdated reading does: a failure event that read the payment before its capture and writes
  after it marks a paid payment as failed, and the next capture event is taken for its first and books
  the amount a second time.\<close>

definition overtaken :: db where
  "overtaken = snd (fail_payment 90 ''declined'' 2500 checked_out captured)"

lemma late_failure_books_twice:
  "\<exists>cr u. pay_step captured overtaken \<and> capture_body 3000 90 None 2600 overtaken = Inr (cr, u)
     \<and> map p_status (payments overtaken) = [PS_FAILED] \<and> \<not> cr_already cr \<and> net_revenue (revenue u) 90 = 100000"
proof -
  have "find_by p_id 90 (payments checked_out) = Some desk_payment" "find_by p_id 90 (payments captured) \<noteq> None"
    "p_id ` set (payments checked_out) \<subseteq> p_id ` set (payments captured)" "p_status desk_payment = PS_PENDING"
    by (simp_all add: checked_out_def desk_states)
  note read = this
  have fail: "fail_payment 90 ''declined'' 2500 checked_out captured = (Inr PS_FAILED, overtaken)"
    using read by (auto simp: overtaken_def fail_payment_def)
  then have "pay_step captured overtaken" using read(3) by (rule py_fail)
  moreover have o: "overtaken = log_payment 90 ''fail'' ''declined'' 2500
      (captured\<lparr>payments := upd_where (\<lambda>x. p_id x = 90) (failed_row ''declined'' 2500) (payments captured)\<rparr>)"
    using read by (auto simp: overtaken_def fail_payment_def)
  moreover have "\<exists>cr u. capture_body 3000 90 None 2600 overtaken = Inr (cr, u) \<and> \<not> cr_already cr \<and> net_revenue (revenue u) 90 = 100000"
    unfolding o
    by (simp add: capture_body_def capture_effects_def create_payment_tx_def activate_enrollment_def recount_students_def
        log_payment_def failed_row_def captured_def campus_db_def empty_db_def desk_payment_def pending_row_def desk_price_def
        campus_enrollment_def campus_course_def lead_teacher_def capture_line_def share_of_def desk_line_def net_revenue_def
        compute_access_end_def active_students_def upd_where_Cons percent_of_def activated_row_def paid_row_def Let_def)
  moreover have "map p_status (payments overtaken) = [PS_FAILED]"
    unfolding o by (simp add: log_payment_def captured_def failed_row_def upd_where_Cons paid_row_def desk_payment_def pending_row_def)
  ultimately show ?thesis by (elim exE conjE) (intro exI conjI; assumption)
qed

theorem capture_exact_witness:
  "\<exists>cr. capture_body 3000 90 None 2000 checked_out = Inr (cr, captured)
    \<and> (\<exists>line. revenue captured = revenue checked_out @ [line] \<and> rl_gross line = 50000)"
proof -
  obtain cr where c: "capture_body 3000 90 None 2000 checked_out = Inr (cr, captured)" "\<not> cr_already cr"
    using desk_capture by blast
  have "find_by p_id 90 (payments checked_out) = Some desk_payment" "p_amount desk_payment = 50000"
    by (simp_all add: checked_out_def desk_states)
  with capture_exact [OF c(1) desk_unique(1,2)] c show ?thesis by auto
qed

theorem refund_takes_exactly_witness:
  "\<exists>out t. refund_body 90 (Some 20000) RC_IMMEDIATE 9 None ''k1'' ''fp'' 3000 captured = Inr (out, t)
    \<and> net_revenue (revenue t) 90 = 30000"
proof -
  obtain out t where r: "refund_body 90 (Some 20000) RC_IMMEDIATE 9 None ''k1'' ''fp'' 3000 captured = Inr (out, t)"
    "\<not> rsp_replayed out" using desk_refund by blast
  have "net_revenue (revenue captured) 90 = 50000" by (simp add: net_revenue_def captured_def desk_line_def)
  with refund_takes_exactly [OF r desk_books _ desk_unique(3)] r show ?thesis by force
qed

section \<open>A repeated request\<close>

definition is_keyed :: "string \<Rightarrow> payment_tx_row \<Rightarrow> bool" where
  "is_keyed key r \<longleftrightarrow> (pt_type r = tx_request \<or> pt_type r = tx_refund \<and> payload_request r = None)
     \<and> Option.bind (pt_payload r) rp_key = Some key"

lemma find_only: "r \<in> set xs \<Longrightarrow> P r \<Longrightarrow> (\<And>x. x \<in> set xs \<Longrightarrow> P x \<Longrightarrow> x = r) \<Longrightarrow> List.find P xs = Some r"
  by (metis find_None_iff find_Some option.exhaust)

lemma set_refund_rows:
  "set (refund_rows pid s) = {r \<in> set (payment_txs s). pt_payment r = pid \<and> pt_type r \<in> set refund_tx_types}"
  by (auto simp: refund_rows_def)

lemma row_for_key_only:
  assumes "r \<in> set (payment_txs s)" "pt_payment r = pid" "is_keyed key r"
    and "\<And>x. x \<in> set (payment_txs s) \<Longrightarrow> pt_payment x = pid \<Longrightarrow> is_keyed key x \<Longrightarrow> x = r"
  shows "row_for_key key (refund_rows pid s) = Some r"
  unfolding row_for_key_def is_keyed_def [symmetric]
proof (rule find_only)
  show "r \<in> set (refund_rows pid s)"
    using assms(1-3) by (auto simp: set_refund_rows refund_tx_types_def is_keyed_def)
  show "x = r" if "x \<in> set (refund_rows pid s)" "is_keyed key x" for x
    using that by (intro assms(4)) (simp_all add: set_refund_rows)
qed (rule assms(3))

lemma row_for_key_None:
  "row_for_key key (refund_rows pid s) = None \<longleftrightarrow>
     (\<forall>x \<in> set (payment_txs s). pt_payment x = pid \<longrightarrow> \<not> is_keyed key x)"
  by (auto simp: row_for_key_def find_None_iff set_refund_rows refund_tx_types_def is_keyed_def)

lemma record_refund_row:
  assumes "record_refund p amount completion actor reason key fp now s = Inr (i, t)"
  shows "\<exists>row. payment_txs t = payment_txs s @ [row] \<and> pt_payment row = p_id p \<and> pt_id row = i
    \<and> is_keyed key row \<and> Option.bind (pt_payload row) rp_fingerprint = Some fp \<and> idem_records t = idem_records s"
  using assms
  by (cases completion)
    (auto simp: record_refund_def result_simps is_keyed_def payload_request_def succeeded_payload_def
      request_payload_def elim!: apply_succeeded_refund_Inr)

lemma revoke_access_log:
  assumes "revoke_access p actor reason now s = Inr (out, t)"
  shows "idem_records t = idem_records s
    \<and> (\<exists>rows. payment_txs t = payment_txs s @ rows \<and> (\<forall>r \<in> set rows. \<not> is_keyed key r))"
  using assms
proof (cases rule: revoke_access_Inr)
  case (some e out')
  have "plain_row r \<Longrightarrow> \<not> is_keyed key r" for r by (auto simp: plain_row_def is_keyed_def)
  with revoke_enrollment_books [OF some(2)] show ?thesis by blast
qed simp

text \<open>C21: a repeated refund request takes effect once. After a refund succeeded under a key, the same
  request under the same key - in any later state that keeps the payment and its log, whether or not
  the thirty-day idempotency record has been purged meanwhile - answers with the same refund and
  changes nothing.\<close>

theorem refund_key_replays:
  assumes "refund_body pid requested completion actor reason key fp now s = Inr (out, t)" "\<not> rsp_replayed out" "pay_inv s"
    and "payment_txs u = payment_txs t @ later" "\<forall>r \<in> set later. pt_payment r = pid \<longrightarrow> Option.bind (pt_payload r) rp_key \<noteq> Some key"
    and "find_by p_id pid (payments u) \<noteq> None"
    and "find_by ir_key (RefundKey pid key) (idem_records u) \<in> {None, find_by ir_key (RefundKey pid key) (idem_records t)}"
  shows "refund_body pid requested2 completion2 actor2 reason2 key fp now2 u
    = Inr (\<lparr>rsp_refund = rsp_refund out, rsp_replayed = True\<rparr>, u)"
proof -
  obtain p where p: "find_by ir_key (RefundKey pid key) (idem_records s) = None"
    "find_by p_id pid (payments s) = Some p" "row_for_key key (refund_rows pid s) = None"
    "new_refund p (refund_rows pid s) requested completion actor reason key fp now s = Inr (out, t)"
    using assms(1,2) by (auto elim: refund_body_Inr)
  have pid: "p_id p = pid" using find_by_Some [OF p(2)] by simp
  obtain s1 amount i s2 rvo s3 where h: "claim_payment p now s = Inr ((), s1)"
    "record_refund p amount completion actor reason key fp now s1 = Inr (i, s2)"
    "revoke_access p actor reason now s2 = Inr (rvo, s3)" "out = \<lparr>rsp_refund = i, rsp_replayed = False\<rparr>"
    "idem_records t = idem_records s3 @ [\<lparr>ir_key = RefundKey (p_id p) key, ir_fingerprint = fp, ir_refund = i,
       ir_expires = now + 2592000000\<rparr>]" "payment_txs t = payment_txs s3"
    using p(4) by (rule new_refund_Inr) (auto simp: audit_with_def)
  note c = claim_payment_props [OF h(1) assms(3) p(2) [folded pid]]
  obtain row where row: "payment_txs s2 = payment_txs s @ [row]" "pt_payment row = pid" "pt_id row = i"
    "is_keyed key row" "Option.bind (pt_payload row) rp_fingerprint = Some fp" "idem_records s2 = idem_records s"
    using record_refund_row [OF h(2)] c(3,7) pid by auto
  obtain rows where rows: "payment_txs s3 = payment_txs s2 @ rows" "\<forall>r \<in> set rows. \<not> is_keyed key r"
    "idem_records s3 = idem_records s2"
    using revoke_access_log [OF h(3)] by blast
  have u: "payment_txs u = payment_txs s @ row # rows @ later"
    by (simp add: assms(4) h(6) rows(1) row(1))
  have rfk: "row_for_key key (refund_rows pid u) = Some row"
  proof (rule row_for_key_only)
    fix x assume x: "x \<in> set (payment_txs u)" "pt_payment x = pid" "is_keyed key x"
    have "x \<notin> set (payment_txs s)" using x(2,3) p(3) by (auto simp: row_for_key_None)
    moreover have "x \<notin> set rows" using x(3) rows(2) by auto
    moreover have "x \<notin> set later" using x(2,3) assms(5) by (auto simp: is_keyed_def)
    ultimately show "x = row" using x(1) u by auto
  qed (use row u in auto)
  obtain q where q: "find_by p_id pid (payments u) = Some q" using assms(6) by blast
  have t: "find_by ir_key (RefundKey pid key) (idem_records t) = Some \<lparr>ir_key = RefundKey pid key,
      ir_fingerprint = fp, ir_refund = i, ir_expires = now + 2592000000\<rparr>"
    using p(1) by (simp add: h(5) rows(3) row(6) table_simps pid)
  show ?thesis
  proof (cases "find_by ir_key (RefundKey pid key) (idem_records u)")
    case None
    then show ?thesis
      by (simp add: refund_body_def stored_replay_def load_payment_def q rfk row(3,5) h(4))
  next
    case (Some r)
    then show ?thesis using assms(7) t by (simp add: refund_body_def stored_replay_def h(4))
  qed
qed

theorem refund_key_replays_witness:
  "\<exists>out t. refund_body 90 (Some 20000) RC_IMMEDIATE 9 None ''k1'' ''fp'' 3000 captured = Inr (out, t)
    \<and> refund_body 90 (Some 20000) RC_IMMEDIATE 9 None ''k1'' ''fp'' 4000 t
        = Inr (\<lparr>rsp_refund = rsp_refund out, rsp_replayed = True\<rparr>, t)"
proof -
  obtain out t where r: "refund_body 90 (Some 20000) RC_IMMEDIATE 9 None ''k1'' ''fp'' 3000 captured = Inr (out, t)"
    "\<not> rsp_replayed out" "find_by p_id 90 (payments t) \<noteq> None" using desk_refund by blast
  from refund_key_replays [OF r(1,2) desk_books, of t "[]"] r(1,3) show ?thesis by simp
qed

end
