(* ===== verification/Academics.thy ===== *)
theory Academics
  imports Access Wallet "HOL-Library.Product_Lexorder"
begin

text \<open>
  The academic catalogue (\<open>modules/catalog\<close>): which ladder of years or levels governs a unit, which
  system a college uses, the administration of universities, faculties, departments, ladders, pins
  and rungs, and the checks that a course, a material or a student sits coherently in the hierarchy.
  A handler of the administration is one step; the unique indexes that protect handlers against
  each other are part of the writes. The fifteen-minute cache in front of the readers is not modelled.
\<close>

section \<open>Scopes\<close>

record academic_scope =
  sp_of_university :: "id option"
  sp_of_faculty :: "id option"
  sp_of_department :: "id option"

definition no_scope :: academic_scope where
  "no_scope = \<lparr>sp_of_university = None, sp_of_faculty = None, sp_of_department = None\<rparr>"

definition academic_scope_key :: "academic_scope \<Rightarrow> scope_key" where
  "academic_scope_key c =
     (case sp_of_department c of
        Some d \<Rightarrow> DepartmentScope d
      | None \<Rightarrow>
          (case sp_of_faculty c of
             Some f \<Rightarrow> FacultyScope f
           | None \<Rightarrow> (case sp_of_university c of Some u \<Rightarrow> UniversityScope u | None \<Rightarrow> PlatformScope)))"

definition assert_single_owner :: "academic_scope \<Rightarrow> exn + unit" where
  "assert_single_owner c =
     (let owners = filter (\<lambda>x. x \<noteq> None) [sp_of_university c, sp_of_faculty c, sp_of_department c] in
      if 1 < length owners
      then Inl (validation [(''scope'', [''an academic structure belongs to one unit: a university, a faculty or a department''])])
      else Inr ())"

section \<open>The governing ladder\<close>

fun first_hit :: "scope_key list \<Rightarrow> structure_row list \<Rightarrow> structure_row option" where
  "first_hit [] found = None"
| "first_hit (k # ks) found =
     (case find_by sr_scope k found of Some r \<Rightarrow> Some r | None \<Rightarrow> first_hit ks found)"

definition faculty_scopes :: "id \<Rightarrow> db \<Rightarrow> scope_key list" where
  "faculty_scopes f s =
     FacultyScope f # (case find_by fa_id f (faculties s) of None \<Rightarrow> [] | Some x \<Rightarrow> [UniversityScope (fa_university x)])"

definition scope_candidates :: "academic_scope \<Rightarrow> db \<Rightarrow> scope_key list" where
  "scope_candidates c s =
     (case sp_of_department c of
        Some d \<Rightarrow> DepartmentScope d # (case find_by de_id d (departments s) of None \<Rightarrow> [] | Some x \<Rightarrow> faculty_scopes (de_faculty x) s)
      | None \<Rightarrow>
          (case sp_of_faculty c of
             Some f \<Rightarrow> faculty_scopes f s
           | None \<Rightarrow> (case sp_of_university c of Some u \<Rightarrow> [UniversityScope u] | None \<Rightarrow> [])))
     @ [PlatformScope]"

definition override_faculty :: "academic_scope \<Rightarrow> db \<Rightarrow> id option" where
  "override_faculty c s =
     (case sp_of_department c of
        Some d \<Rightarrow> map_option de_faculty (find_by de_id d (departments s))
      | None \<Rightarrow> sp_of_faculty c)"

definition pinned_structure :: "id \<Rightarrow> db \<Rightarrow> structure_row option" where
  "pinned_structure f s =
     (case find_by fp_faculty f (pins s) of
        None \<Rightarrow> None
      | Some p \<Rightarrow>
          (case find_by sr_id (fp_structure p) (structures s) of
             None \<Rightarrow> None
           | Some r \<Rightarrow> if sr_active r then Some r else None))"

text \<open>The structures of a list of scopes, oldest first.\<close>

definition structures_of :: "scope_key list \<Rightarrow> db \<Rightarrow> structure_row list" where
  "structures_of keys s =
     sort_key (\<lambda>r. (sr_created r, sr_id r)) (filter (\<lambda>r. sr_scope r \<in> set keys \<and> sr_active r) (structures s))"

definition resolve_structure :: "academic_scope \<Rightarrow> db \<Rightarrow> exn + structure_row option" where
  "resolve_structure c s =
     bind_r (assert_single_owner c) (\<lambda>_.
     let candidates = scope_candidates c s; found = structures_of candidates s in
     Inr (case Option.bind (sp_of_department c) (\<lambda>d. find_by sr_scope (DepartmentScope d) found) of
            Some r \<Rightarrow> Some r
          | None \<Rightarrow>
              (case Option.bind (override_faculty c s) (\<lambda>f. pinned_structure f s) of
                 Some r \<Rightarrow> Some r
               | None \<Rightarrow> first_hit candidates found)))"

definition structure_years :: "id \<Rightarrow> db \<Rightarrow> year_row list" where
  "structure_years i s = sort_key ay_order (filter (\<lambda>y. ay_structure y = i \<and> ay_active y) (years s))"

definition academic_years :: "academic_scope \<Rightarrow> db \<Rightarrow> exn + (year_row \<times> structure_kind) list" where
  "academic_years c s =
     bind_r (resolve_structure c s) (\<lambda>found.
     Inr (case found of None \<Rightarrow> [] | Some r \<Rightarrow> map (\<lambda>y. (y, sr_kind r)) (structure_years (sr_id r) s)))"

section \<open>The academic system of a college\<close>

datatype (plugins only: code) system_source = COLLEGE_OVERRIDE | UNIVERSITY_DEFAULT

record system_resolution =
  sy_system :: structure_kind
  sy_source :: system_source
  sy_university :: "id option"
  sy_faculty :: "id option"
  sy_default :: "structure_kind option"
  sy_override :: "structure_kind option"

text \<open>\<open>academic-system.ts\<close>: the override, else the default; \<open>None\<close> is the configuration error.\<close>

definition resolve_academic_system ::
  "structure_kind option \<Rightarrow> structure_kind option \<Rightarrow> id option \<Rightarrow> id option \<Rightarrow> system_resolution option" where
  "resolve_academic_system override inherited university faculty =
     (case override of
        Some k \<Rightarrow> Some \<lparr>sy_system = k, sy_source = COLLEGE_OVERRIDE, sy_university = university,
                        sy_faculty = faculty, sy_default = inherited, sy_override = Some k\<rparr>
      | None \<Rightarrow>
          (case inherited of
             None \<Rightarrow> None
           | Some k \<Rightarrow> Some \<lparr>sy_system = k, sy_source = UNIVERSITY_DEFAULT, sy_university = university,
                        sy_faculty = faculty, sy_default = Some k, sy_override = None\<rparr>))"

text \<open>The faculty branch: a configuration error becomes a field error. A faculty without its
  university row cannot occur under the foreign key; the lookup then finds no default.\<close>

definition system_of_faculty :: "faculty_row \<Rightarrow> db \<Rightarrow> exn + system_resolution" where
  "system_of_faculty f s =
     (case resolve_academic_system (fa_system f)
             (map_option un_system (find_by un_id (fa_university f) (universities s)))
             (Some (fa_university f)) (Some (fa_id f)) of
        Some r \<Rightarrow> Inr r
      | None \<Rightarrow> Inl (validation [(''academicSystem'',
          [''no academic system is configured for this college: set its university default, or set an override on the college''])]))"

definition system_of_scope :: "academic_scope \<Rightarrow> db \<Rightarrow> exn + system_resolution" where
  "system_of_scope c s =
     bind_r (assert_single_owner c) (\<lambda>_.
     case sp_of_department c of
       Some d \<Rightarrow>
         (case find_by de_id d (departments s) of
            None \<Rightarrow> Inl not_found
          | Some x \<Rightarrow>
              (case find_by fa_id (de_faculty x) (faculties s) of
                 None \<Rightarrow> Inl not_found
               | Some f \<Rightarrow> system_of_faculty f s))
     | None \<Rightarrow>
         (case sp_of_faculty c of
            Some i \<Rightarrow> (case find_by fa_id i (faculties s) of None \<Rightarrow> Inl not_found | Some f \<Rightarrow> system_of_faculty f s)
          | None \<Rightarrow>
              (case sp_of_university c of
                 Some i \<Rightarrow>
                   (case find_by un_id i (universities s) of
                      None \<Rightarrow> Inl not_found
                    | Some u \<Rightarrow> (case resolve_academic_system None (Some (un_system u)) (Some (un_id u)) None of
                                  Some r \<Rightarrow> Inr r | None \<Rightarrow> Inl OtherEx))
               | None \<Rightarrow> Inl OtherEx)))"

record academic_selection =
  sl_system :: "system_resolution option"
  sl_years :: "(year_row \<times> structure_kind) list"
  sl_ladder :: "structure_kind option"
  sl_matches :: bool

definition is_app_error :: "exn \<Rightarrow> bool" where
  "is_app_error e = (case e of AppEx _ _ \<Rightarrow> True | _ \<Rightarrow> False)"

definition select_academics :: "academic_scope \<Rightarrow> db \<Rightarrow> exn + academic_selection" where
  "select_academics c s =
     bind_r (assert_single_owner c) (\<lambda>_.
     bind_r (case system_of_scope c s of
               Inr r \<Rightarrow> Inr (Some r)
             | Inl e \<Rightarrow> if is_app_error e then Inr None else Inl e) (\<lambda>system.
     bind_r (academic_years c s) (\<lambda>ys.
     let ladder = (case ys of [] \<Rightarrow> None | (_, k) # _ \<Rightarrow> Some k) in
     Inr \<lparr>sl_system = system, sl_years = ys, sl_ladder = ladder,
          sl_matches = (case (system, ladder) of (Some r, Some k) \<Rightarrow> k = sy_system r | _ \<Rightarrow> True)\<rparr>)))"

text \<open>What \<open>academicSystemOverview\<close> reports of one college.\<close>

record college_overview =
  cov_faculty :: id
  cov_effective :: structure_kind
  cov_inherited :: bool
  cov_ladder :: "structure_kind option"
  cov_mismatch :: bool
  cov_redundant :: bool

definition college_overview_of :: "faculty_row \<Rightarrow> db \<Rightarrow> exn + college_overview" where
  "college_overview_of f s =
     (let inherited = map_option un_system (find_by un_id (fa_university f) (universities s)) in
      case resolve_academic_system (fa_system f) inherited (Some (fa_university f)) (Some (fa_id f)) of
        None \<Rightarrow> Inl OtherEx
      | Some r \<Rightarrow>
          bind_r (resolve_structure (no_scope\<lparr>sp_of_faculty := Some (fa_id f)\<rparr>) s) (\<lambda>ladder.
          Inr \<lparr>cov_faculty = fa_id f, cov_effective = sy_system r,
               cov_inherited = (sy_source r = UNIVERSITY_DEFAULT), cov_ladder = map_option sr_kind ladder,
               cov_mismatch = (case ladder of None \<Rightarrow> False | Some l \<Rightarrow> sr_kind l \<noteq> sy_system r),
               cov_redundant = (fa_system f \<noteq> None \<and> fa_system f = inherited)\<rparr>))"

definition academic_system_overview :: "db \<Rightarrow> exn + college_overview list" where
  "academic_system_overview s =
     map_r (\<lambda>f. college_overview_of f s) (filter (\<lambda>f. fa_deleted_at f = None) (faculties s))"

section \<open>Administration of the ladders\<close>

definition assert_structure_kind :: "academic_scope \<Rightarrow> structure_kind \<Rightarrow> db \<Rightarrow> exn + unit" where
  "assert_structure_kind c kind s =
     (if c = no_scope then Inr ()
      else case system_of_scope c s of
             Inl e \<Rightarrow> if e = OtherEx \<or> is_app_error e then Inr () else Inl e
           | Inr r \<Rightarrow>
               if sy_system r = kind then Inr ()
               else Inl (validation [(''kind'', [if sy_source r = COLLEGE_OVERRIDE
                      then ''this college is configured to use the other system''
                      else ''this university is configured to use the other system''])]))"

definition assert_department_structure_kind :: "id \<Rightarrow> structure_kind \<Rightarrow> db \<Rightarrow> exn + unit" where
  "assert_department_structure_kind d kind s =
     (case find_by de_id d (departments s) of
        None \<Rightarrow> Inl not_found
      | Some _ \<Rightarrow> assert_structure_kind (no_scope\<lparr>sp_of_department := Some d\<rparr>) kind s)"

definition catalog_audit :: "id \<Rightarrow> string \<Rightarrow> string \<Rightarrow> id \<Rightarrow> unit dbtx" where
  "catalog_audit actor action entity i =
     modify_tx (audit_with \<lparr>au_actor = Some actor, au_action = action, au_entity = entity, au_entity_id = i, au_note = []\<rparr>)"

text \<open>The partial unique index: one structure per scoped key, any number for the platform.\<close>

definition create_structure :: "academic_scope \<Rightarrow> structure_kind \<Rightarrow> id \<Rightarrow> time \<Rightarrow> structure_row dbtx" where
  "create_structure c kind actor now =
     bind_tx (lift_tx (assert_single_owner c)) (\<lambda>_.
     let key = academic_scope_key c in
     bind_tx (get_tx (\<lambda>s. key \<noteq> PlatformScope \<and> key \<in> set (map sr_scope (structures s)))) (\<lambda>taken.
     bind_tx (require_tx (\<not> taken)
       (validation [(''scope'', [''this unit already has an academic structure; edit that one instead''])])) (\<lambda>_.
     bind_tx (get_tx (\<lambda>s. case sp_of_department c of
                            Some d \<Rightarrow> assert_department_structure_kind d kind s
                          | None \<Rightarrow> assert_structure_kind c kind s)) (\<lambda>r.
     bind_tx (lift_tx r) (\<lambda>_.
     bind_tx fresh_id (\<lambda>i.
     let row = \<lparr>sr_id = i, sr_kind = kind, sr_scope = key, sr_active = True, sr_created = now\<rparr> in
     bind_tx (modify_tx (\<lambda>s. s\<lparr>structures := structures s @ [row]\<rparr>)) (\<lambda>_.
     bind_tx (catalog_audit actor ''CREATE'' ''academic_structure'' i) (\<lambda>_.
     ret_tx row))))))))"

definition scope_of_key :: "scope_key \<Rightarrow> academic_scope" where
  "scope_of_key k =
     (case k of
        PlatformScope \<Rightarrow> no_scope
      | UniversityScope u \<Rightarrow> no_scope\<lparr>sp_of_university := Some u\<rparr>
      | FacultyScope f \<Rightarrow> no_scope\<lparr>sp_of_faculty := Some f\<rparr>
      | DepartmentScope d \<Rightarrow> no_scope\<lparr>sp_of_department := Some d\<rparr>)"

definition assert_new_kind :: "scope_key \<Rightarrow> structure_kind option \<Rightarrow> db \<Rightarrow> exn + unit" where
  "assert_new_kind key kind s =
     (case kind of
        None \<Rightarrow> Inr ()
      | Some k \<Rightarrow>
          (case key of
             DepartmentScope d \<Rightarrow> assert_department_structure_kind d k s
           | _ \<Rightarrow> assert_structure_kind (scope_of_key key) k s))"

definition edited_structure :: "structure_kind option \<Rightarrow> bool option \<Rightarrow> structure_row \<Rightarrow> structure_row" where
  "edited_structure kind active r =
     r\<lparr>sr_kind := (case kind of None \<Rightarrow> sr_kind r | Some k \<Rightarrow> k),
       sr_active := (case active of None \<Rightarrow> sr_active r | Some b \<Rightarrow> b)\<rparr>"

definition update_structure ::
  "id \<Rightarrow> structure_kind option \<Rightarrow> bool option \<Rightarrow> id \<Rightarrow> structure_row dbtx" where
  "update_structure i kind active actor =
     bind_tx (get_tx (\<lambda>s. find_by sr_id i (structures s))) (\<lambda>found.
     bind_tx (the_or not_found found) (\<lambda>before.
     bind_tx (get_tx (assert_new_kind (sr_scope before) kind)) (\<lambda>r.
     bind_tx (lift_tx r) (\<lambda>_.
     bind_tx (modify_tx (\<lambda>s. s\<lparr>structures := upd_where (\<lambda>x. sr_id x = i) (edited_structure kind active) (structures s)\<rparr>)) (\<lambda>_.
     bind_tx (catalog_audit actor ''UPDATE'' ''academic_structure'' i) (\<lambda>_.
     ret_tx (edited_structure kind active before)))))))"

text \<open>The faculties pinned to a structure are replaced in one transaction of three statements.\<close>

definition replace_pins :: "id \<Rightarrow> id list \<Rightarrow> pin_row list \<Rightarrow> pin_row list" where
  "replace_pins i wanted rows =
     filter (\<lambda>p. fp_faculty p \<notin> set wanted) (filter (\<lambda>p. fp_structure p = i \<longrightarrow> fp_faculty p \<in> set wanted) rows)
     @ map (\<lambda>f. \<lparr>fp_structure = i, fp_faculty = f\<rparr>) wanted"

definition set_structure_pins :: "id \<Rightarrow> id list \<Rightarrow> id \<Rightarrow> id list dbtx" where
  "set_structure_pins i faculty_ids actor =
     bind_tx (get_tx (\<lambda>s. find_by sr_id i (structures s))) (\<lambda>found.
     bind_tx (the_or not_found found) (\<lambda>_.
     let wanted = rev (remdups (rev faculty_ids)) in
     bind_tx (get_tx (\<lambda>s. count_where (\<lambda>f. fa_id f \<in> set wanted \<and> fa_deleted_at f = None) (faculties s))) (\<lambda>n.
     bind_tx (require_tx (n = length wanted)
       (validation [(''facultyIds'', [''unknown or deleted faculty''])])) (\<lambda>_.
     bind_tx (modify_tx (\<lambda>s. s\<lparr>pins := replace_pins i wanted (pins s)\<rparr>)) (\<lambda>_.
     bind_tx (catalog_audit actor ''UPDATE'' ''academic_structure'' i) (\<lambda>_.
     ret_tx wanted))))))"

text \<open>The rungs of a ladder, matched by their order: renamed, revived or created; the others retired.\<close>

definition upsert_rung :: "id \<Rightarrow> int \<times> string \<Rightarrow> unit dbtx" where
  "upsert_rung i e =
     bind_tx (get_tx (\<lambda>s. find_by (\<lambda>y. (ay_structure y, ay_order y)) (i, fst e) (years s))) (\<lambda>found.
     if found \<noteq> None then
       modify_tx (\<lambda>s. s\<lparr>years := upd_where (\<lambda>y. (ay_structure y, ay_order y) = (i, fst e))
         (\<lambda>y. y\<lparr>ay_name := snd e, ay_active := True\<rparr>) (years s)\<rparr>)
     else
       bind_tx fresh_id (\<lambda>n.
       modify_tx (\<lambda>s. s\<lparr>years := years s @
         [\<lparr>ay_id = n, ay_structure = i, ay_order = fst e, ay_name = snd e, ay_active = True\<rparr>]\<rparr>)))"

definition retire_rungs :: "id list \<Rightarrow> db \<Rightarrow> db" where
  "retire_rungs ids s = s\<lparr>years := upd_where (\<lambda>y. ay_id y \<in> set ids) (\<lambda>y. y\<lparr>ay_active := False\<rparr>) (years s)\<rparr>"

definition replace_structure_entries :: "id \<Rightarrow> (int \<times> string) list \<Rightarrow> id \<Rightarrow> year_row list dbtx" where
  "replace_structure_entries i entries actor =
     bind_tx (get_tx (\<lambda>s. find_by sr_id i (structures s))) (\<lambda>found.
     bind_tx (the_or not_found found) (\<lambda>_.
     bind_tx (get_tx (\<lambda>s. map ay_id (filter (\<lambda>y. ay_structure y = i \<and> ay_order y \<notin> fst ` set entries) (years s)))) (\<lambda>retire.
     bind_tx (require_tx (distinct (map fst entries)) (validation [(''entries'', [''two entries share the same order''])])) (\<lambda>_.
     bind_tx (require_tx (\<forall>e \<in> set entries. 1 \<le> fst e) (validation [(''entries'', [''order must be a whole number from 1 up''])])) (\<lambda>_.
     bind_tx (each_tx (upsert_rung i) entries) (\<lambda>_.
     bind_tx (modify_tx (retire_rungs retire)) (\<lambda>_.
     bind_tx (catalog_audit actor ''UPDATE'' ''academic_structure_entries'' i) (\<lambda>_.
     get_tx (\<lambda>s. sort_key ay_order (filter (\<lambda>y. ay_structure y = i) (years s)))))))))))"

definition platform_structure :: "db \<Rightarrow> structure_row option" where
  "platform_structure s =
     (case sort_key (\<lambda>r. (sr_created r, sr_id r)) (filter (\<lambda>r. sr_scope r = PlatformScope) (structures s)) of
        [] \<Rightarrow> None | r # _ \<Rightarrow> Some r)"

definition create_academic_year :: "int \<Rightarrow> string \<Rightarrow> id option \<Rightarrow> id \<Rightarrow> year_row dbtx" where
  "create_academic_year order name structure actor =
     bind_tx (case structure of
                Some i \<Rightarrow> ret_tx i
              | None \<Rightarrow>
                  bind_tx (get_tx platform_structure) (\<lambda>r.
                  bind_tx (the_or (validation [(''structureId'', [''no platform academic structure exists; create one first''])]) r) (\<lambda>x.
                  ret_tx (sr_id x)))) (\<lambda>i.
     bind_tx (get_tx (\<lambda>s. i \<in> set (map sr_id (structures s)))) (\<lambda>known.
     bind_tx (require_tx known (PrismaKnown ''P2003'' [])) (\<lambda>_.
     bind_tx (get_tx (\<lambda>s. (i, order) \<in> set (map (\<lambda>y. (ay_structure y, ay_order y)) (years s)))) (\<lambda>dup.
     bind_tx (require_tx (\<not> dup) (unique_violation ''structureId'')) (\<lambda>_.
     bind_tx fresh_id (\<lambda>n.
     let row = \<lparr>ay_id = n, ay_structure = i, ay_order = order, ay_name = name, ay_active = True\<rparr> in
     bind_tx (modify_tx (\<lambda>s. s\<lparr>years := years s @ [row]\<rparr>)) (\<lambda>_.
     bind_tx (catalog_audit actor ''CREATE'' ''academic_year'' n) (\<lambda>_.
     ret_tx row))))))))"

section \<open>Administration of the units\<close>

definition create_university :: "string \<Rightarrow> string option \<Rightarrow> structure_kind option \<Rightarrow> id \<Rightarrow> university_row dbtx" where
  "create_university name code system actor =
     bind_tx (get_tx (\<lambda>s. code \<noteq> None \<and> code \<in> set (map un_code (universities s)))) (\<lambda>dup.
     bind_tx (require_tx (\<not> dup) (unique_violation ''code'')) (\<lambda>_.
     bind_tx fresh_id (\<lambda>n.
     let row = \<lparr>un_id = n, un_active = True, un_name = name, un_code = code,
                un_system = (case system of None \<Rightarrow> SK_YEAR | Some k \<Rightarrow> k), un_deleted_at = None\<rparr> in
     bind_tx (modify_tx (\<lambda>s. s\<lparr>universities := universities s @ [row]\<rparr>)) (\<lambda>_.
     bind_tx (catalog_audit actor ''CREATE'' ''university'' n) (\<lambda>_.
     ret_tx row)))))"

definition given :: "'a option \<Rightarrow> 'a \<Rightarrow> 'a" where
  "given v old = (case v of None \<Rightarrow> old | Some x \<Rightarrow> x)"

definition edited_university ::
  "string option \<Rightarrow> bool option \<Rightarrow> structure_kind option \<Rightarrow> university_row \<Rightarrow> university_row" where
  "edited_university name active system u =
     u\<lparr>un_name := given name (un_name u), un_active := given active (un_active u), un_system := given system (un_system u)\<rparr>"

definition update_university ::
  "id \<Rightarrow> string option \<Rightarrow> bool option \<Rightarrow> structure_kind option \<Rightarrow> id \<Rightarrow> university_row dbtx" where
  "update_university i name active system actor =
     bind_tx (get_tx (\<lambda>s. find_by un_id i (universities s))) (\<lambda>found.
     bind_tx (the_or not_found found) (\<lambda>before.
     bind_tx (modify_tx (\<lambda>s. s\<lparr>universities := upd_where (\<lambda>u. un_id u = i) (edited_university name active system) (universities s)\<rparr>)) (\<lambda>_.
     bind_tx (catalog_audit actor ''UPDATE'' ''university'' i) (\<lambda>_.
     ret_tx (edited_university name active system before)))))"

text \<open>The trigger on the override column: a new or changed override that repeats the university's
  default is refused by the database.\<close>

definition override_allowed :: "faculty_row \<Rightarrow> structure_kind option \<Rightarrow> db \<Rightarrow> bool" where
  "override_allowed f override s \<longleftrightarrow>
     override = None \<or> override = fa_system f
     \<or> holds_some (\<lambda>u. override \<noteq> Some (un_system u)) (find_by un_id (fa_university f) (universities s))"

definition set_faculty_system :: "id \<Rightarrow> structure_kind option \<Rightarrow> id \<Rightarrow> system_resolution dbtx" where
  "set_faculty_system i override actor =
     bind_tx (get_tx (\<lambda>s. List.find (\<lambda>f. fa_id f = i \<and> fa_deleted_at f = None) (faculties s))) (\<lambda>found.
     bind_tx (the_or not_found found) (\<lambda>f.
     bind_tx (get_tx (\<lambda>s. override \<noteq> None \<and> override = map_option un_system (find_by un_id (fa_university f) (universities s)))) (\<lambda>same.
     bind_tx (require_tx (\<not> same)
       (validation [(''academicSystemOverride'', [''this college already inherits the system from its university; clear the override instead of storing the same value''])])) (\<lambda>_.
     bind_tx (get_tx (override_allowed f override)) (\<lambda>ok.
     bind_tx (require_tx ok OtherEx) (\<lambda>_.
     bind_tx (modify_tx (\<lambda>s. s\<lparr>faculties := upd_where (\<lambda>x. fa_id x = i) (\<lambda>x. x\<lparr>fa_system := override\<rparr>) (faculties s)\<rparr>)) (\<lambda>_.
     bind_tx (catalog_audit actor ''UPDATE'' ''faculty'' i) (\<lambda>_.
     bind_tx (get_tx (system_of_scope (no_scope\<lparr>sp_of_faculty := Some i\<rparr>))) (\<lambda>r.
     lift_tx r)))))))))"

definition create_faculty :: "id \<Rightarrow> string \<Rightarrow> id \<Rightarrow> faculty_row dbtx" where
  "create_faculty university name actor =
     bind_tx (get_tx (\<lambda>s. \<exists>u \<in> set (universities s). un_id u = university \<and> un_deleted_at u = None)) (\<lambda>known.
     bind_tx (require_tx known not_found) (\<lambda>_.
     bind_tx (get_tx (\<lambda>s. (university, name) \<in> set (map (\<lambda>f. (fa_university f, fa_name f)) (faculties s)))) (\<lambda>dup.
     bind_tx (require_tx (\<not> dup) (unique_violation ''universityId'')) (\<lambda>_.
     bind_tx fresh_id (\<lambda>n.
     let row = \<lparr>fa_id = n, fa_university = university, fa_name = name, fa_active = True, fa_system = None, fa_deleted_at = None\<rparr> in
     bind_tx (modify_tx (\<lambda>s. s\<lparr>faculties := faculties s @ [row]\<rparr>)) (\<lambda>_.
     bind_tx (catalog_audit actor ''CREATE'' ''faculty'' n) (\<lambda>_.
     ret_tx row)))))))"

definition create_department :: "id \<Rightarrow> study_type option \<Rightarrow> string \<Rightarrow> id \<Rightarrow> department_row dbtx" where
  "create_department faculty study name actor =
     bind_tx (get_tx (\<lambda>s. \<exists>f \<in> set (faculties s). fa_id f = faculty \<and> fa_deleted_at f = None)) (\<lambda>known.
     bind_tx (require_tx known not_found) (\<lambda>_.
     bind_tx (get_tx (\<lambda>s. (faculty, name) \<in> set (map (\<lambda>d. (de_faculty d, de_name d)) (departments s)))) (\<lambda>dup.
     bind_tx (require_tx (\<not> dup) (unique_violation ''facultyId'')) (\<lambda>_.
     bind_tx fresh_id (\<lambda>n.
     let row = \<lparr>de_id = n, de_faculty = faculty, de_name = name, de_study = given study STY_GENERAL,
                de_active = True, de_deleted_at = None\<rparr> in
     bind_tx (modify_tx (\<lambda>s. s\<lparr>departments := departments s @ [row]\<rparr>)) (\<lambda>_.
     bind_tx (catalog_audit actor ''CREATE'' ''department'' n) (\<lambda>_.
     ret_tx row)))))))"

text \<open>An omitted field leaves the column alone; for the override, \<open>Some None\<close> clears it.\<close>

definition edited_faculty ::
  "string option \<Rightarrow> bool option \<Rightarrow> structure_kind option option \<Rightarrow> faculty_row \<Rightarrow> faculty_row" where
  "edited_faculty name active override f =
     f\<lparr>fa_name := given name (fa_name f), fa_active := given active (fa_active f), fa_system := given override (fa_system f)\<rparr>"

definition update_faculty ::
  "id \<Rightarrow> string option \<Rightarrow> bool option \<Rightarrow> structure_kind option option \<Rightarrow> id \<Rightarrow> faculty_row dbtx" where
  "update_faculty i name active override actor =
     bind_tx (get_tx (\<lambda>s. List.find (\<lambda>f. fa_id f = i \<and> fa_deleted_at f = None) (faculties s))) (\<lambda>found.
     bind_tx (the_or not_found found) (\<lambda>before.
     let after = edited_faculty name active override before in
     bind_tx (get_tx (\<lambda>s. \<exists>f \<in> set (faculties s). fa_id f \<noteq> i
       \<and> (fa_university f, fa_name f) = (fa_university after, fa_name after))) (\<lambda>dup.
     bind_tx (require_tx (\<not> dup) (unique_violation ''universityId'')) (\<lambda>_.
     bind_tx (get_tx (override_allowed before (fa_system after))) (\<lambda>ok.
     bind_tx (require_tx ok OtherEx) (\<lambda>_.
     bind_tx (modify_tx (\<lambda>s. s\<lparr>faculties := upd_where (\<lambda>f. fa_id f = i) (edited_faculty name active override) (faculties s)\<rparr>)) (\<lambda>_.
     bind_tx (catalog_audit actor ''UPDATE'' ''faculty'' i) (\<lambda>_.
     ret_tx after))))))))"

definition edited_department :: "string option \<Rightarrow> bool option \<Rightarrow> department_row \<Rightarrow> department_row" where
  "edited_department name active d =
     d\<lparr>de_name := given name (de_name d), de_active := given active (de_active d)\<rparr>"

definition update_department :: "id \<Rightarrow> string option \<Rightarrow> bool option \<Rightarrow> id \<Rightarrow> department_row dbtx" where
  "update_department i name active actor =
     bind_tx (get_tx (\<lambda>s. List.find (\<lambda>d. de_id d = i \<and> de_deleted_at d = None) (departments s))) (\<lambda>found.
     bind_tx (the_or not_found found) (\<lambda>before.
     let after = edited_department name active before in
     bind_tx (get_tx (\<lambda>s. \<exists>d \<in> set (departments s). de_id d \<noteq> i
       \<and> (de_faculty d, de_name d) = (de_faculty after, de_name after))) (\<lambda>dup.
     bind_tx (require_tx (\<not> dup) (unique_violation ''facultyId'')) (\<lambda>_.
     bind_tx (modify_tx (\<lambda>s. s\<lparr>departments := upd_where (\<lambda>d. de_id d = i) (edited_department name active) (departments s)\<rparr>)) (\<lambda>_.
     bind_tx (catalog_audit actor ''UPDATE'' ''department'' i) (\<lambda>_.
     ret_tx after))))))"

datatype (plugins only: code) catalog_entity = CE_UNIVERSITY | CE_FACULTY | CE_DEPARTMENT | CE_YEAR

text \<open>The flag and the soft delete move together; a rung has only the flag.\<close>

definition flag_entity :: "catalog_entity \<Rightarrow> id \<Rightarrow> bool \<Rightarrow> time \<Rightarrow> db \<Rightarrow> db" where
  "flag_entity entity i active now s =
     (let deleted = (if active then None else Some now) in
      case entity of
        CE_UNIVERSITY \<Rightarrow> s\<lparr>universities := upd_where (\<lambda>u. un_id u = i) (\<lambda>u. u\<lparr>un_active := active, un_deleted_at := deleted\<rparr>) (universities s)\<rparr>
      | CE_FACULTY \<Rightarrow> s\<lparr>faculties := upd_where (\<lambda>f. fa_id f = i) (\<lambda>f. f\<lparr>fa_active := active, fa_deleted_at := deleted\<rparr>) (faculties s)\<rparr>
      | CE_DEPARTMENT \<Rightarrow> s\<lparr>departments := upd_where (\<lambda>d. de_id d = i) (\<lambda>d. d\<lparr>de_active := active, de_deleted_at := deleted\<rparr>) (departments s)\<rparr>
      | CE_YEAR \<Rightarrow> s\<lparr>years := upd_where (\<lambda>y. ay_id y = i) (\<lambda>y. y\<lparr>ay_active := active\<rparr>) (years s)\<rparr>)"

definition entity_ids :: "catalog_entity \<Rightarrow> db \<Rightarrow> id list" where
  "entity_ids entity s =
     (case entity of
        CE_UNIVERSITY \<Rightarrow> map un_id (universities s)
      | CE_FACULTY \<Rightarrow> map fa_id (faculties s)
      | CE_DEPARTMENT \<Rightarrow> map de_id (departments s)
      | CE_YEAR \<Rightarrow> map ay_id (years s))"

definition set_active :: "catalog_entity \<Rightarrow> id \<Rightarrow> bool \<Rightarrow> id \<Rightarrow> time \<Rightarrow> unit dbtx" where
  "set_active entity i active actor now =
     bind_tx (get_tx (\<lambda>s. i \<in> set (entity_ids entity s))) (\<lambda>known.
     bind_tx (require_tx known (PrismaKnown ''P2025'' [])) (\<lambda>_.
     bind_tx (modify_tx (flag_entity entity i active now)) (\<lambda>_.
     catalog_audit actor (if active then ''RESTORE'' else ''DELETE'') ''catalog'' i)))"

definition dependents :: "catalog_entity \<Rightarrow> id \<Rightarrow> db \<Rightarrow> nat \<times> nat" where
  "dependents entity i s =
     (case entity of
        CE_UNIVERSITY \<Rightarrow> (count_where (\<lambda>f. fa_university f = i \<and> fa_deleted_at f = None) (faculties s),
                          count_where (\<lambda>p. sp_university p = Some i) (profiles s))
      | CE_FACULTY \<Rightarrow> (count_where (\<lambda>d. de_faculty d = i \<and> de_deleted_at d = None) (departments s),
                       count_where (\<lambda>p. sp_faculty p = Some i) (profiles s))
      | CE_DEPARTMENT \<Rightarrow> (0, count_where (\<lambda>p. sp_department p = Some i) (profiles s))
      | CE_YEAR \<Rightarrow> (0, count_where (\<lambda>p. sp_year p = Some i) (profiles s)))"

section \<open>Placement checks\<close>

text \<open>An assignment to a field of the error record.\<close>

definition put_field :: "string \<Rightarrow> string \<Rightarrow> (string \<times> string list) list \<Rightarrow> (string \<times> string list) list" where
  "put_field k m fs = (if k \<in> fst ` set fs then map (\<lambda>e. if fst e = k then (k, [m]) else e) fs else fs @ [(k, [m])])"

definition put_when :: "bool \<Rightarrow> string \<Rightarrow> string \<Rightarrow> (string \<times> string list) list \<Rightarrow> (string \<times> string list) list" where
  "put_when b k m fs = (if b then put_field k m fs else fs)"

record placement_options =
  po_active :: bool
  po_required :: bool
  po_label :: string

definition course_placement :: placement_options where
  "course_placement = \<lparr>po_active = False, po_required = False, po_label = ''course''\<rparr>"

definition library_placement :: placement_options where
  "library_placement = \<lparr>po_active = True, po_required = True, po_label = ''material''\<rparr>"

record placement =
  pl_university :: "id option"
  pl_faculty :: "id option"
  pl_departments :: "id list"
  pl_year :: "id option"

definition live_university :: "id \<Rightarrow> db \<Rightarrow> university_row option" where
  "live_university i s = List.find (\<lambda>u. un_id u = i \<and> un_deleted_at u = None) (universities s)"

definition live_faculty :: "id \<Rightarrow> db \<Rightarrow> faculty_row option" where
  "live_faculty i s = List.find (\<lambda>f. fa_id f = i \<and> fa_deleted_at f = None) (faculties s)"

definition live_departments :: "id list \<Rightarrow> db \<Rightarrow> department_row list" where
  "live_departments ids s = filter (\<lambda>d. de_id d \<in> set ids \<and> de_deleted_at d = None) (departments s)"

definition university_problem :: "placement_options \<Rightarrow> placement \<Rightarrow> db \<Rightarrow> (string \<times> string list) list \<Rightarrow> (string \<times> string list) list" where
  "university_problem po p s fs =
     (case pl_university p of
        None \<Rightarrow> fs
      | Some u \<Rightarrow>
          if \<not> po_active po then fs
          else case live_university u s of
                 None \<Rightarrow> put_field ''universityId'' ''university not found'' fs
               | Some x \<Rightarrow> put_when (\<not> un_active x) ''universityId'' ''this university is inactive'' fs)"

definition faculty_problem :: "placement_options \<Rightarrow> placement \<Rightarrow> db \<Rightarrow> (string \<times> string list) list \<Rightarrow> (string \<times> string list) list" where
  "faculty_problem po p s fs =
     (case pl_faculty p of
        None \<Rightarrow> fs
      | Some f \<Rightarrow>
          (case live_faculty f s of
             None \<Rightarrow> put_field ''facultyId'' ''college not found'' fs
           | Some x \<Rightarrow>
               if pl_university p \<noteq> None \<and> pl_university p \<noteq> Some (fa_university x)
               then put_field ''facultyId'' ''does not belong to the selected university'' fs
               else put_when (po_active po \<and> \<not> fa_active x) ''facultyId'' ''this college is inactive'' fs))"

definition department_problem :: "placement_options \<Rightarrow> placement \<Rightarrow> db \<Rightarrow> (string \<times> string list) list \<Rightarrow> (string \<times> string list) list" where
  "department_problem po p s fs =
     (let ids = remdups (pl_departments p); found = live_departments ids s in
      if ids = [] then fs
      else case pl_faculty p of
             None \<Rightarrow> put_field ''departmentIds'' ''choose a college before choosing departments'' fs
           | Some f \<Rightarrow>
               let fs1 = put_when (1 < card (de_study ` set found)) ''departmentIds'' ''General and Programs departments cannot be combined'' fs in
               if \<exists>i \<in> set ids. i \<notin> de_id ` set found
               then put_field ''departmentIds'' ''one or more departments do not exist'' fs1
               else if \<exists>d \<in> set found. de_faculty d \<noteq> f
               then put_field ''departmentIds'' ''one or more departments do not belong to the selected college'' fs1
               else put_when (po_active po \<and> (\<exists>d \<in> set found. \<not> de_active d)) ''departmentIds'' ''one or more departments are inactive'' fs1)"

definition check_academic_structure :: "placement_options \<Rightarrow> placement \<Rightarrow> db \<Rightarrow> exn + unit" where
  "check_academic_structure po p s =
     (let fs0 = put_when (po_required po \<and> pl_university p = None) ''universityId'' ''choose a university'' [];
          fs1 = put_when (po_required po \<and> pl_faculty p = None) ''facultyId'' ''choose a college'' fs0;
          fs = department_problem po p s (faculty_problem po p s (university_problem po p s fs1)) in
      require (fs = []) (validation fs))"

text \<open>Every selected department's ladder must hold the rung: the further ones first, each on its own.\<close>

definition rung_of :: "placement_options \<Rightarrow> id \<Rightarrow> structure_row \<Rightarrow> db \<Rightarrow> bool" where
  "rung_of po y r s \<longleftrightarrow>
     (\<exists>x \<in> set (years s). ay_id x = y \<and> ay_structure x = sr_id r \<and> (po_active po \<longrightarrow> ay_active x))"

definition check_own_ladder :: "placement_options \<Rightarrow> placement \<Rightarrow> id \<Rightarrow> id option \<Rightarrow> db \<Rightarrow> exn + unit" where
  "check_own_ladder po p y department s =
     bind_r (resolve_structure
       \<lparr>sp_of_university = (if department \<noteq> None \<or> pl_faculty p \<noteq> None then None else pl_university p),
        sp_of_faculty = (if department \<noteq> None then None else pl_faculty p),
        sp_of_department = department\<rparr> s) (\<lambda>found.
     case found of
       None \<Rightarrow> Inl (validation [(''academicYearId'',
         [''no academic structure covers this '' @ po_label po @ ''; create one first''])])
     | Some r \<Rightarrow>
         require (rung_of po y r s) (validation [(''academicYearId'',
           [(if sr_kind r = SK_LEVEL then ''that level'' else ''that year'')
              @ '' is not part of this '' @ po_label po @ '' academic structure''])]))"

lemma map_r_cong [fundef_cong]:
  "xs = ys \<Longrightarrow> (\<And>x. x \<in> set ys \<Longrightarrow> f x = g x) \<Longrightarrow> map_r f xs = map_r g ys"
  by (induction ys arbitrary: xs) auto

lemma tl_member: "x \<in> set (tl xs) \<Longrightarrow> Suc 0 < length xs"
  by (cases xs; cases "tl xs") auto

function check_year_departments :: "placement_options \<Rightarrow> placement \<Rightarrow> id \<Rightarrow> db \<Rightarrow> id list \<Rightarrow> exn + unit" where
  "check_year_departments po p y s ids =
     bind_r (map_r (\<lambda>d. check_year_departments po p y s [d]) (tl ids)) (\<lambda>_.
     check_own_ladder po p y (case ids of [] \<Rightarrow> None | d # _ \<Rightarrow> Some d) s)"
  by pat_completeness auto

termination
  by (relation "measure (\<lambda>(po, p, y, s, ids). length ids)") (auto dest: tl_member)

declare check_year_departments.simps [simp del]

definition check_year_in_ladder :: "placement_options \<Rightarrow> placement \<Rightarrow> db \<Rightarrow> exn + unit" where
  "check_year_in_ladder po p s =
     (case pl_year p of
        None \<Rightarrow> Inr ()
      | Some y \<Rightarrow> check_year_departments po p y s (sort (remdups (pl_departments p))))"

text \<open>The check of a student's own selection (\<open>users.service.ts\<close>).\<close>

record student_selection =
  ss_university :: id
  ss_faculty :: id
  ss_department :: id
  ss_year :: id
  ss_study :: "study_type option"

definition department_year_problem :: "id \<Rightarrow> id \<Rightarrow> db \<Rightarrow> (string \<times> string list) list \<Rightarrow> exn + (string \<times> string list) list" where
  "department_year_problem d y s fs =
     bind_r (resolve_structure (no_scope\<lparr>sp_of_department := Some d\<rparr>) s) (\<lambda>found.
     Inr (case found of
            None \<Rightarrow> put_field ''academicYearId'' ''no academic structure covers the selected department'' fs
          | Some r \<Rightarrow> put_when (\<not> rung_of library_placement y r s) ''academicYearId''
                        ''does not belong to the selected department'' fs))"

definition assert_selection_coherent :: "student_selection \<Rightarrow> db \<Rightarrow> exn + unit" where
  "assert_selection_coherent v s =
     (let university = List.find (\<lambda>u. un_id u = ss_university v \<and> un_active u \<and> un_deleted_at u = None) (universities s);
          faculty = List.find (\<lambda>f. fa_id f = ss_faculty v \<and> fa_active f \<and> fa_deleted_at f = None) (faculties s);
          department = List.find (\<lambda>d. de_id d = ss_department v \<and> de_active d \<and> de_deleted_at d = None) (departments s);
          year = List.find (\<lambda>y. ay_id y = ss_year v \<and> ay_active y) (years s);
          fs1 = put_when (university = None) ''universityId'' ''unknown or inactive university'' [];
          fs2 = put_when (faculty = None) ''facultyId'' ''unknown or inactive faculty'' fs1;
          fs3 = put_when (department = None) ''departmentId'' ''unknown or inactive department'' fs2;
          fs4 = put_when (year = None) ''academicYearId'' ''unknown or inactive academic year'' fs3;
          fs5 = put_when (holds_some (\<lambda>f. holds_some (\<lambda>u. fa_university f \<noteq> un_id u) university) faculty)
                  ''facultyId'' ''does not belong to the selected university'' fs4;
          fs6 = put_when (holds_some (\<lambda>d. holds_some (\<lambda>f. de_faculty d \<noteq> fa_id f) faculty) department)
                  ''departmentId'' ''does not belong to the selected faculty'' fs5;
          fs7 = put_when (holds_some (\<lambda>d. ss_study v \<noteq> None \<and> ss_study v \<noteq> Some (de_study d)) department)
                  ''departmentId'' ''does not belong to the selected study type'' fs6 in
      bind_r (case (department, year) of
                (Some d, Some y) \<Rightarrow> department_year_problem (de_id d) (ay_id y) s fs7
              | _ \<Rightarrow> Inr fs7) (\<lambda>fs.
      require (fs = []) (validation fs)))"

section \<open>The precedence of ladders\<close>

text \<open>A unit's own ladder is its oldest active one.\<close>

definition own_ladder :: "scope_key \<Rightarrow> db \<Rightarrow> structure_row option" where
  "own_ladder k s = (case structures_of [k] s of [] \<Rightarrow> None | r # _ \<Rightarrow> Some r)"

fun first_some :: "'a option list \<Rightarrow> 'a option" where
  "first_some [] = None"
| "first_some (x # xs) = (case x of Some v \<Rightarrow> Some v | None \<Rightarrow> first_some xs)"

lemma find_hd_filter: "List.find P xs = (case filter P xs of [] \<Rightarrow> None | x # _ \<Rightarrow> Some x)"
  by (induction xs) auto

lemma find_own_ladder:
  assumes "k \<in> set keys"
  shows "find_by sr_scope k (structures_of keys s) = own_ladder k s"
proof -
  have "filter (\<lambda>r. sr_scope r = k) (filter (\<lambda>r. sr_scope r \<in> set keys \<and> sr_active r) (structures s))
      = filter (\<lambda>r. sr_scope r \<in> set [k] \<and> sr_active r) (structures s)"
    using assms by (auto intro: filter_cong)
  then have "filter (\<lambda>r. sr_scope r = k) (structures_of keys s) = structures_of [k] s"
    by (simp add: structures_of_def filter_sort)
  then show ?thesis by (simp add: find_by_def find_hd_filter own_ladder_def)
qed

lemma first_hit_own_ladders:
  "set ks \<subseteq> set keys \<Longrightarrow> first_hit ks (structures_of keys s) = first_some (map (\<lambda>k. own_ladder k s) ks)"
  by (induction ks) (simp_all add: find_own_ladder split: option.split)

text \<open>C24: which ladder governs a department. The first that exists and is active of: the department's own
  ladder, the ladder its college is pinned to, the college's own, its university's own, and the
  oldest platform-wide one; a deactivated pin or ladder is skipped. So a student's department always
  resolves to one definite list of years or levels as long as the platform has a ladder.\<close>

theorem ladder_precedence:
  assumes "find_by de_id d (departments s) = Some x" "find_by fa_id (de_faculty x) (faculties s) = Some f"
  shows "resolve_structure (no_scope\<lparr>sp_of_department := Some d\<rparr>) s = Inr (first_some
    [own_ladder (DepartmentScope d) s, pinned_structure (fa_id f) s, own_ladder (FacultyScope (fa_id f)) s,
     own_ladder (UniversityScope (fa_university f)) s, own_ladder PlatformScope s])"
proof -
  have f: "fa_id f = de_faculty x" using find_by_Some [OF assms(2)] by simp
  let ?keys = "[DepartmentScope d, FacultyScope (fa_id f), UniversityScope (fa_university f), PlatformScope]"
  have k: "scope_candidates (no_scope\<lparr>sp_of_department := Some d\<rparr>) s = ?keys"
    using assms f by (simp add: scope_candidates_def no_scope_def faculty_scopes_def)
  have h: "first_hit ?keys (structures_of ?keys s) = first_some (map (\<lambda>k. own_ladder k s) ?keys)"
    by (rule first_hit_own_ladders) simp
  have o: "override_faculty (no_scope\<lparr>sp_of_department := Some d\<rparr>) s = Some (fa_id f)"
    using assms f by (simp add: override_faculty_def no_scope_def)
  have d: "find_by sr_scope (DepartmentScope d) (structures_of ?keys s) = own_ladder (DepartmentScope d) s"
    by (rule find_own_ladder) simp
  show ?thesis
    unfolding resolve_structure_def Let_def k h o
    by (simp add: assert_single_owner_def no_scope_def d del: first_hit.simps split: option.splits)
qed

section \<open>The catalogue under administration\<close>

definition scoped :: "structure_row list \<Rightarrow> scope_key list" where
  "scoped rs = filter (\<lambda>k. k \<noteq> PlatformScope) (map sr_scope rs)"

definition rung_key :: "year_row \<Rightarrow> id \<times> int" where
  "rung_key y = (ay_structure y, ay_order y)"

text \<open>Identifiers drawn from the counter.\<close>

definition below :: "('r \<Rightarrow> id) \<Rightarrow> id \<Rightarrow> 'r list \<Rightarrow> bool" where
  "below key n rows \<longleftrightarrow> (\<forall>r \<in> set rows. key r < n)"

lemma below_Suc [simp]: "below key n rows \<Longrightarrow> below key (Suc n) rows"
  by (auto simp: below_def intro: less_SucI)

lemma below_new [simp]: "below key n rows \<Longrightarrow> key r = n \<Longrightarrow> below key (Suc n) (rows @ [r])"
  by (auto simp: below_def intro: less_SucI)

lemma unique_below [simp]: "below key n rows \<Longrightarrow> key r = n \<Longrightarrow> unique_on key (rows @ [r]) = unique_on key rows"
  by (auto simp: below_def table_simps)

lemma below_keys: "below key n rows \<longleftrightarrow> (\<forall>k \<in> set (map key rows). k < n)"
  by (simp add: below_def)

lemma below_upd [simp]:
  assumes "\<And>r. key (g r) = key r"
  shows "below key n (upd_where P g rows) = below key n rows"
proof -
  have "map key (upd_where P g rows) = map key rows"
    by (rule keyed_update.map_key_upd) (simp add: keyed_update_def assms)
  then show ?thesis unfolding below_keys by simp
qed

lemma below_mono: "below key n rows \<Longrightarrow> n \<le> m \<Longrightarrow> below key m rows"
  by (auto simp: below_def)

lemma below_notin: "below key n rows \<Longrightarrow> n \<notin> key ` set rows"
  by (auto simp: below_def)

definition catalog_inv :: "db \<Rightarrow> bool" where
  "catalog_inv s \<longleftrightarrow>
     distinct (scoped (structures s)) \<and> unique_on fp_faculty (pins s)
     \<and> unique_on rung_key (years s) \<and> unique_on ay_id (years s) \<and> below ay_id (db_next s) (years s)
     \<and> unique_on fa_id (faculties s) \<and> below fa_id (db_next s) (faculties s)
     \<and> unique_on (\<lambda>f. (fa_university f, fa_name f)) (faculties s)"

lemma scoped_simps [simp]:
  "scoped [] = []"
  "scoped (xs @ ys) = scoped xs @ scoped ys"
  "scoped [r] = (if sr_scope r = PlatformScope then [] else [sr_scope r])"
  by (simp_all add: scoped_def)

lemma set_scoped: "set (scoped rs) = sr_scope ` set rs - {PlatformScope}"
  by (auto simp: scoped_def)

interpretation structure_edit: keyed_update sr_scope "edited_structure kind active"
  by unfold_locales (simp add: edited_structure_def)

lemma scoped_upd [simp]: "scoped (upd_where P (edited_structure kind active) rs) = scoped rs"
  by (simp add: scoped_def structure_edit.map_key_upd)

lemma unique_replace_pins: "distinct wanted \<Longrightarrow> unique_on fp_faculty rows \<Longrightarrow> unique_on fp_faculty (replace_pins i wanted rows)"
  by (auto simp: unique_on_def replace_pins_def comp_def distinct_map_filter intro: distinct_map_filter)

lemma unique_rename:
  assumes "unique_on k rows" "unique_on key rows"
    and "\<And>r x. r \<in> set rows \<Longrightarrow> x \<in> set rows \<Longrightarrow> k x = i \<Longrightarrow> k r \<noteq> i \<Longrightarrow> key r \<noteq> key (g x)"
  shows "unique_on key (upd_where (\<lambda>r. k r = i) g rows)"
  using assms
proof (induction rows)
  case (Cons a rows)
  have u: "unique_on key (upd_where (\<lambda>r. k r = i) g rows)"
    using Cons.prems by (intro Cons.IH) auto
  show ?case
  proof (cases "k a = i")
    case True
    then have n: "\<forall>r \<in> set rows. k r \<noteq> i" using Cons.prems(1) by (auto simp: image_iff)
    then have "upd_where (\<lambda>r. k r = i) g rows = rows" by (auto simp: upd_where_def intro: map_idI)
    moreover have "\<forall>r \<in> set rows. key r \<noteq> key (g a)" using Cons.prems(3) True n by auto
    ultimately show ?thesis using u True by (auto simp: upd_where_Cons)
  next
    case False
    have "key a \<noteq> key (if k r = i then g r else r)" if "r \<in> set rows" for r
      using Cons.prems(2,3) False that by auto
    then have "key a \<notin> key ` set (upd_where (\<lambda>r. k r = i) g rows)"
      unfolding upd_where_def set_map image_image by blast
    then show ?thesis using u False by (simp add: upd_where_Cons)
  qed
qed simp

lemma upd_same_keys:
  "(\<And>r. key (g r) = key r) \<Longrightarrow> unique_on key (upd_where P g rows) = unique_on key rows"
  by (rule keyed_update.unique_upd) (simp add: keyed_update_def)

lemma catalog_inv_frame:
  assumes "catalog_inv s" "structures t = structures s" "pins t = pins s" "years t = years s"
    "faculties t = faculties s" "db_next s \<le> db_next t"
  shows "catalog_inv t"
  using assms unfolding catalog_inv_def by (metis below_mono)

lemma catalog_audit_Inr_iff [result_simps]:
  "catalog_audit actor action entity i s = Inr (u, t) \<longleftrightarrow>
     t = audit_with \<lparr>au_actor = Some actor, au_action = action, au_entity = entity, au_entity_id = i, au_note = []\<rparr> s"
  by (auto simp: catalog_audit_def)

lemma create_structure_inv:
  "create_structure c kind actor now s = Inr (r, t) \<Longrightarrow> catalog_inv s \<Longrightarrow> catalog_inv t"
  by (auto simp: create_structure_def result_simps Let_def catalog_inv_def audit_with_def set_scoped)

lemma update_structure_inv:
  "update_structure i kind active actor s = Inr (r, t) \<Longrightarrow> catalog_inv s \<Longrightarrow> catalog_inv t"
  by (auto simp: update_structure_def result_simps catalog_inv_def audit_with_def)

lemma set_structure_pins_inv:
  "set_structure_pins i wanted actor s = Inr (r, t) \<Longrightarrow> catalog_inv s \<Longrightarrow> catalog_inv t"
  by (auto simp: set_structure_pins_def result_simps Let_def catalog_inv_def audit_with_def unique_replace_pins)

text \<open>A new rung at a free order.\<close>

definition rung_added :: "year_row \<Rightarrow> db \<Rightarrow> db \<Rightarrow> bool" where
  "rung_added y s t \<longleftrightarrow> rung_key y \<notin> rung_key ` set (years s) \<and> ay_id y = db_next s
     \<and> years t = years s @ [y] \<and> db_next t = Suc (db_next s)
     \<and> structures t = structures s \<and> pins t = pins s \<and> faculties t = faculties s"

lemma rung_added_inv: "rung_added y s t \<Longrightarrow> catalog_inv s \<Longrightarrow> catalog_inv t"
  by (simp add: rung_added_def catalog_inv_def unique_on_append1 below_notin)

lemma create_academic_year_added:
  "create_academic_year order name owner actor s = Inr (r, t) \<Longrightarrow> rung_added r s t"
  by (cases owner)
    (auto simp: create_academic_year_def result_simps Let_def audit_with_def rung_added_def rung_key_def image_iff)

lemma upsert_rung_Inr:
  assumes "upsert_rung i e s = Inr (u, t)"
  obtains (edit) "t = s\<lparr>years := upd_where (\<lambda>y. (ay_structure y, ay_order y) = (i, fst e))
         (\<lambda>y. y\<lparr>ay_name := snd e, ay_active := True\<rparr>) (years s)\<rparr>"
      "(i, fst e) \<in> rung_key ` set (years s)"
  | (new) "rung_added \<lparr>ay_id = db_next s, ay_structure = i, ay_order = fst e, ay_name = snd e, ay_active = True\<rparr> s t"
proof (cases "find_by (\<lambda>y. (ay_structure y, ay_order y)) (i, fst e) (years s)")
  case None
  with assms show ?thesis
    by (intro new) (auto simp: upsert_rung_def rung_added_def rung_key_def find_by_None_iff result_simps)
next
  case (Some y)
  then have "(i, fst e) \<in> rung_key ` set (years s)" using find_by_Some [OF Some] by (force simp: rung_key_def)
  with assms Some show ?thesis by (intro edit) (simp_all add: upsert_rung_def)
qed

lemma rung_edit_inv:
  assumes "catalog_inv s" "\<And>y. ay_id (g y) = ay_id y" "\<And>y. rung_key (g y) = rung_key y"
  shows "catalog_inv (s\<lparr>years := upd_where P g (years s)\<rparr>)"
  using assms by (simp add: catalog_inv_def upd_same_keys)

lemma upsert_rung_inv: "upsert_rung i e s = Inr (u, t) \<Longrightarrow> catalog_inv s \<Longrightarrow> catalog_inv t"
  by (erule upsert_rung_Inr) (auto simp: rung_key_def intro: rung_edit_inv rung_added_inv)

lemma replace_structure_entries_Inr:
  assumes "replace_structure_entries i entries actor s = Inr (out, t)"
  obtains s1 retire where "each_tx (upsert_rung i) entries s = Inr ((), s1)"
    "retire = map ay_id (filter (\<lambda>y. ay_structure y = i \<and> ay_order y \<notin> fst ` set entries) (years s))"
    "distinct (map fst entries)" "\<forall>e \<in> set entries. 1 \<le> fst e"
    "years t = years (retire_rungs retire s1)" "structures t = structures s1" "pins t = pins s1"
    "faculties t = faculties s1" "db_next t = db_next s1" "profiles t = profiles s1"
    "out = sort_key ay_order (filter (\<lambda>y. ay_structure y = i) (years t))"
  using assms
  by (auto simp: replace_structure_entries_def result_simps audit_with_def retire_rungs_def intro!: that)

lemma replace_structure_entries_inv:
  assumes "replace_structure_entries i entries actor s = Inr (out, t)" "catalog_inv s"
  shows "catalog_inv t"
  using assms(1)
proof (rule replace_structure_entries_Inr)
  fix s1 retire
  assume h: "each_tx (upsert_rung i) entries s = Inr ((), s1)"
    "years t = years (retire_rungs retire s1)" "structures t = structures s1" "pins t = pins s1"
    "faculties t = faculties s1" "db_next t = db_next s1"
  have "catalog_inv s1" by (rule each_tx_invariant [where Q = catalog_inv, OF h(1) assms(2)]) (auto intro: upsert_rung_inv)
  then have "catalog_inv (retire_rungs retire s1)"
    unfolding retire_rungs_def by (rule rung_edit_inv) (simp_all add: rung_key_def)
  then show ?thesis by (rule catalog_inv_frame) (use h in \<open>simp_all add: retire_rungs_def\<close>)
qed

lemma unit_frames:
  "create_university uname code system actor s = Inr (u, t) \<Longrightarrow> catalog_inv s \<Longrightarrow> catalog_inv t"
  "update_university i uname' active system actor s = Inr (u, t) \<Longrightarrow> catalog_inv s \<Longrightarrow> catalog_inv t"
  "create_department i study dname actor s = Inr (d, t) \<Longrightarrow> catalog_inv s \<Longrightarrow> catalog_inv t"
  "update_department i dname' active actor s = Inr (d, t) \<Longrightarrow> catalog_inv s \<Longrightarrow> catalog_inv t"
  by (rule catalog_inv_frame;
      auto simp: create_university_def update_university_def create_department_def update_department_def
        result_simps Let_def audit_with_def intro: le_SucI)+

lemma create_faculty_inv: "create_faculty u name actor s = Inr (f, t) \<Longrightarrow> catalog_inv s \<Longrightarrow> catalog_inv t"
  by (auto simp: create_faculty_def result_simps Let_def audit_with_def catalog_inv_def unique_on_append1 below_notin)

lemma set_faculty_system_inv: "set_faculty_system i override actor s = Inr (f, t) \<Longrightarrow> catalog_inv s \<Longrightarrow> catalog_inv t"
  by (auto simp: set_faculty_system_def result_simps Let_def audit_with_def catalog_inv_def upd_same_keys)

lemma update_faculty_inv:
  assumes "update_faculty i name active override actor s = Inr (f, t)" "catalog_inv s"
  shows "catalog_inv t"
proof -
  let ?g = "edited_faculty name active override" and ?key = "\<lambda>f. (fa_university f, fa_name f)"
  from assms(1) obtain x where x: "List.find (\<lambda>f. fa_id f = i \<and> fa_deleted_at f = None) (faculties s) = Some x"
    and free: "\<forall>f \<in> set (faculties s). fa_id f \<noteq> i \<longrightarrow> ?key f \<noteq> ?key (?g x)"
    and t: "t = audit_with \<lparr>au_actor = Some actor, au_action = ''UPDATE'', au_entity = ''faculty'', au_entity_id = i, au_note = []\<rparr>
      (s\<lparr>faculties := upd_where (\<lambda>f. fa_id f = i) ?g (faculties s)\<rparr>)"
    by (auto simp: update_faculty_def result_simps Let_def)
  have m: "x \<in> set (faculties s)" "fa_id x = i" using find_Some [OF x] by auto
  have u: "unique_on fa_id (faculties s)" "unique_on ?key (faculties s)" using assms(2) by (simp_all add: catalog_inv_def)
  have "unique_on ?key (upd_where (\<lambda>f. fa_id f = i) ?g (faculties s))"
  proof (rule unique_rename [OF u])
    fix r y assume "r \<in> set (faculties s)" "y \<in> set (faculties s)" "fa_id y = i" "fa_id r \<noteq> i"
    moreover from this have "y = x" using m unique_onD [OF u(1)] by simp
    ultimately show "?key r \<noteq> ?key (?g y)" using free by blast
  qed
  then show ?thesis using assms(2)
    by (simp add: t audit_with_def catalog_inv_def upd_same_keys edited_faculty_def)
qed

lemma set_active_inv: "set_active entity i active actor now s = Inr (u, t) \<Longrightarrow> catalog_inv s \<Longrightarrow> catalog_inv t"
  by (cases entity)
    (auto simp: set_active_def flag_entity_def result_simps Let_def audit_with_def catalog_inv_def upd_same_keys rung_key_def)

inductive catalog_step :: "db \<Rightarrow> db \<Rightarrow> bool" where
  ct_structure: "create_structure c kind actor now s = Inr (r, t) \<Longrightarrow> catalog_step s t"
| ct_edit: "update_structure i ekind active actor s = Inr (r, t) \<Longrightarrow> catalog_step s t"
| ct_pins: "set_structure_pins i wanted actor s = Inr (fs, t) \<Longrightarrow> catalog_step s t"
| ct_rungs: "replace_structure_entries i entries actor s = Inr (ys, t) \<Longrightarrow> catalog_step s t"
| ct_year: "create_academic_year order name owner actor s = Inr (y, t) \<Longrightarrow> catalog_step s t"
| ct_university: "create_university name code system actor s = Inr (u, t) \<Longrightarrow> catalog_step s t"
| ct_edit_university: "update_university i uname active system actor s = Inr (u, t) \<Longrightarrow> catalog_step s t"
| ct_faculty: "create_faculty i name actor s = Inr (f, t) \<Longrightarrow> catalog_step s t"
| ct_edit_faculty: "update_faculty i fname active override actor s = Inr (f, t) \<Longrightarrow> catalog_step s t"
| ct_system: "set_faculty_system i system actor s = Inr (sy, t) \<Longrightarrow> catalog_step s t"
| ct_department: "create_department i study name actor s = Inr (d, t) \<Longrightarrow> catalog_step s t"
| ct_edit_department: "update_department i dname active actor s = Inr (d, t) \<Longrightarrow> catalog_step s t"
| ct_active: "set_active entity i on actor now s = Inr (v, t) \<Longrightarrow> catalog_step s t"

definition catalog_start :: "db \<Rightarrow> bool" where
  "catalog_start s \<longleftrightarrow> structures s = [] \<and> pins s = [] \<and> years s = [] \<and> faculties s = []"

lemmas catalog_invs = create_structure_inv update_structure_inv set_structure_pins_inv
  replace_structure_entries_inv create_academic_year_added [THEN rung_added_inv] unit_frames
  create_faculty_inv update_faculty_inv set_faculty_system_inv set_active_inv

interpretation catalog_machine: invariant_system catalog_start catalog_step catalog_inv
proof
  show "catalog_start s \<Longrightarrow> catalog_inv s" for s by (simp add: catalog_start_def catalog_inv_def below_def)
  show "catalog_inv s \<Longrightarrow> catalog_step s t \<Longrightarrow> catalog_inv t" for s t
    by (erule catalog_step.cases) (auto intro: catalog_invs)
qed

lemma count_where_unique: "unique_on key rows \<Longrightarrow> count_where (\<lambda>r. key r = k) rows \<le> 1"
proof (induction rows)
  case (Cons a rows)
  show ?case
  proof (cases "key a = k")
    case True
    with Cons.prems have "count_where (\<lambda>r. key r = k) rows = 0"
      by (simp add: count_where_0_iff) (metis imageI)
    then show ?thesis by simp
  qed (use Cons in simp)
qed simp

lemma count_scoped:
  "distinct (scoped rs) \<Longrightarrow> k \<noteq> PlatformScope \<Longrightarrow> count_where (\<lambda>r. sr_scope r = k) rs \<le> 1"
proof (induction rs)
  case (Cons a rs)
  show ?case
  proof (cases "sr_scope a = k")
    case True
    with Cons.prems have "k \<notin> set (scoped rs)" by (simp add: scoped_def)
    then have "count_where (\<lambda>r. sr_scope r = k) rs = 0" using Cons.prems(2) by (auto simp: count_where_0_iff set_scoped)
    then show ?thesis by simp
  qed (use Cons in \<open>auto simp: scoped_def split: if_splits\<close>)
qed simp

text \<open>C25: the catalogue stays unambiguous. However it is administered, a university, college or department
  has at most one ladder of its own, a college is pinned to at most one ladder, a ladder has at most
  one rung per order, and a university has at most one college of a name - so the precedence of
  ladders always has one answer, and only the platform may hold several.\<close>

theorem catalog_unambiguous:
  assumes "catalog_start s" "catalog_step\<^sup>*\<^sup>* s t"
  shows "(k \<noteq> PlatformScope \<longrightarrow> count_where (\<lambda>r. sr_scope r = k) (structures t) \<le> 1)
    \<and> count_where (\<lambda>p. fp_faculty p = f) (pins t) \<le> 1
    \<and> count_where (\<lambda>y. rung_key y = (i, num)) (years t) \<le> 1
    \<and> count_where (\<lambda>x. (fa_university x, fa_name x) = (u, n)) (faculties t) \<le> 1"
proof -
  have "catalog_inv t" by (rule catalog_machine.inv_reachable [OF assms])
  then have "distinct (scoped (structures t))" "unique_on fp_faculty (pins t)" "unique_on rung_key (years t)"
    "unique_on (\<lambda>f. (fa_university f, fa_name f)) (faculties t)"
    by (simp_all add: catalog_inv_def)
  then show ?thesis by (intro conjI impI count_scoped count_where_unique [of fp_faculty]
      count_where_unique [of rung_key] count_where_unique [of "\<lambda>f. (fa_university f, fa_name f)"])
qed

section \<open>Editing the rungs\<close>

definition rung_at :: "id \<times> int \<Rightarrow> db \<Rightarrow> year_row option" where
  "rung_at k s = find_by rung_key k (years s)"

lemma rung_at_upsert:
  assumes "upsert_rung i e s = Inr (u, t)"
  shows "k \<noteq> (i, fst e) \<Longrightarrow> rung_at k t = rung_at k s"
    "\<exists>y. rung_at (i, fst e) t = Some y \<and> ay_name y = snd e \<and> ay_active y
       \<and> ay_id y = (case rung_at (i, fst e) s of Some x \<Rightarrow> ay_id x | None \<Rightarrow> db_next s)"
    "db_next s \<le> db_next t"
proof -
  have e: "(\<lambda>y. (ay_structure y, ay_order y)) = rung_key" by (simp add: rung_key_def fun_eq_iff)
  have f: "rung_at k t = map_option (\<lambda>y. if rung_key y = (i, fst e) then y\<lparr>ay_name := snd e, ay_active := True\<rparr> else y) (rung_at k s)"
    if "t = s\<lparr>years := upd_where (\<lambda>y. (ay_structure y, ay_order y) = (i, fst e))
         (\<lambda>y. y\<lparr>ay_name := snd e, ay_active := True\<rparr>) (years s)\<rparr>" for k
    unfolding rung_at_def that
    by (simp add: keyed_update.find_upd keyed_update_def rung_key_def cong: option.map_cong)
  show "rung_at k t = rung_at k s" if "k \<noteq> (i, fst e)"
    using assms
  proof (cases rule: upsert_rung_Inr)
    case edit
    show ?thesis unfolding f [OF edit(1)]
      using that by (cases "rung_at k s") (auto simp: rung_at_def dest: find_by_Some)
  next
    case new
    with that show ?thesis by (simp add: rung_added_def rung_at_def rung_key_def table_simps split: option.splits)
  qed
  show "\<exists>y. rung_at (i, fst e) t = Some y \<and> ay_name y = snd e \<and> ay_active y
       \<and> ay_id y = (case rung_at (i, fst e) s of Some x \<Rightarrow> ay_id x | None \<Rightarrow> db_next s)"
    using assms
  proof (cases rule: upsert_rung_Inr)
    case edit
    then obtain x where x: "rung_at (i, fst e) s = Some x"
      by (cases "rung_at (i, fst e) s") (force simp: rung_at_def find_by_None_iff)+
    have "rung_key x = (i, fst e)" using x by (auto simp: rung_at_def dest: find_by_Some)
    with x show ?thesis unfolding f [OF edit(1)] by simp
  next
    case new
    then have "rung_at (i, fst e) s = None"
      by (auto simp: rung_added_def rung_at_def find_by_None_iff rung_key_def)
    with new show ?thesis by (simp add: rung_added_def rung_at_def rung_key_def table_simps)
  qed
  show "db_next s \<le> db_next t"
    using assms by (cases rule: upsert_rung_Inr) (simp_all add: rung_added_def)
qed

lemma rung_at_upserts:
  assumes "each_tx (upsert_rung i) es s = Inr (u, t)" "distinct (map fst es)"
  shows "(\<forall>k. fst k \<noteq> i \<or> snd k \<notin> fst ` set es \<longrightarrow> rung_at k t = rung_at k s)
    \<and> (\<forall>e \<in> set es. \<exists>y. rung_at (i, fst e) t = Some y \<and> ay_name y = snd e \<and> ay_active y
         \<and> (case rung_at (i, fst e) s of Some x \<Rightarrow> ay_id y = ay_id x | None \<Rightarrow> db_next s \<le> ay_id y))
    \<and> db_next s \<le> db_next t"
  using assms
proof (induction es arbitrary: s)
  case (Cons e es)
  from Cons.prems(1) obtain s1 where a: "upsert_rung i e s = Inr ((), s1)" "each_tx (upsert_rung i) es s1 = Inr (u, t)"
    by (auto simp: result_simps)
  have d: "fst e \<notin> fst ` set es" "distinct (map fst es)" using Cons.prems(2) by simp_all
  note IH = Cons.IH [OF a(2) d(2)]
  note st = rung_at_upsert [OF a(1)]
  have keep: "rung_at (i, fst e) t = rung_at (i, fst e) s1" using IH d(1) by simp
  have "rung_at k t = rung_at k s" if "fst k \<noteq> i \<or> snd k \<notin> fst ` set (e # es)" for k
  proof -
    have "rung_at k t = rung_at k s1" using IH that by (cases k) auto
    also have "\<dots> = rung_at k s" using that by (intro st(1)) auto
    finally show ?thesis .
  qed
  moreover have "\<exists>y. rung_at (i, fst x) t = Some y \<and> ay_name y = snd x \<and> ay_active y
         \<and> (case rung_at (i, fst x) s of Some x \<Rightarrow> ay_id y = ay_id x | None \<Rightarrow> db_next s \<le> ay_id y)"
    if x: "x \<in> set (e # es)" for x
  proof (cases "x = e")
    case True
    then show ?thesis using st(2) keep by (auto split: option.splits)
  next
    case False
    with x have m: "x \<in> set es" by simp
    then have "fst x \<noteq> fst e" using d(1) by (metis imageI)
    then have "rung_at (i, fst x) s1 = rung_at (i, fst x) s" by (intro st(1)) simp
    moreover obtain y where "rung_at (i, fst x) t = Some y" "ay_name y = snd x" "ay_active y"
      "case rung_at (i, fst x) s1 of Some x \<Rightarrow> ay_id y = ay_id x | None \<Rightarrow> db_next s1 \<le> ay_id y"
      using IH m by blast
    ultimately show ?thesis using st(3) by (cases "rung_at (i, fst x) s") auto
  qed
  ultimately show ?case using IH st(3) by (meson order_trans)
qed simp

lemma rung_at_in: "rung_at k s = Some y \<Longrightarrow> y \<in> set (years s) \<and> rung_key y = k"
  by (auto simp: rung_at_def dest: find_by_Some)

text \<open>redefining the rungs of a ladder never loses a placement. Whatever was filed under a rung keeps
  its identifier, ladder and order; the rungs named in the request are active under their new names,
  the ladder's other rungs are retired and not deleted, and other ladders are untouched.\<close>

theorem rung_edit_keeps_placements:
  assumes "replace_structure_entries i entries actor s = Inr (out, t)" "catalog_inv s"
  shows "(\<forall>k y. rung_at k s = Some y \<longrightarrow> (\<exists>z. rung_at k t = Some z \<and> ay_id z = ay_id y))
    \<and> (\<forall>num name. (num, name) \<in> set entries \<longrightarrow> (\<exists>z. rung_at (i, num) t = Some z \<and> ay_active z \<and> ay_name z = name))
    \<and> (\<forall>num y. rung_at (i, num) s = Some y \<and> num \<notin> fst ` set entries \<longrightarrow> rung_at (i, num) t = Some (y\<lparr>ay_active := False\<rparr>))
    \<and> (\<forall>j num. j \<noteq> i \<longrightarrow> rung_at (j, num) t = rung_at (j, num) s)"
  using assms(1)
proof (rule replace_structure_entries_Inr)
  fix s1 retire
  assume h: "each_tx (upsert_rung i) entries s = Inr ((), s1)"
    "retire = map ay_id (filter (\<lambda>y. ay_structure y = i \<and> ay_order y \<notin> fst ` set entries) (years s))"
    "distinct (map fst entries)" "years t = years (retire_rungs retire s1)"
  note U = rung_at_upserts [OF h(1,3)]
  have r: "rung_at k t = map_option (\<lambda>y. if ay_id y \<in> set retire then y\<lparr>ay_active := False\<rparr> else y) (rung_at k s1)" for k
    by (simp add: rung_at_def h(4) retire_rungs_def keyed_update.find_upd keyed_update_def rung_key_def cong: option.map_cong)
  have same: "y = y'" if "y \<in> set (years s)" "y' \<in> set (years s)" "ay_id y = ay_id y'" for y y'
    using assms(2) that by (auto simp: catalog_inv_def intro: unique_onD)
  have small: "j < db_next s" if "j \<in> set retire" for j
    using that assms(2) by (auto simp: h(2) catalog_inv_def below_def)
  have out: "ay_id y \<in> set retire \<longleftrightarrow> ay_structure y = i \<and> ay_order y \<notin> fst ` set entries" if "y \<in> set (years s)" for y
    using that same by (force simp: h(2))
  have other: "rung_at k t = (if fst k = i then map_option (\<lambda>y. y\<lparr>ay_active := False\<rparr>) (rung_at k s) else rung_at k s)"
    if "fst k \<noteq> i \<or> snd k \<notin> fst ` set entries" for k
  proof -
    have k: "rung_at k s1 = rung_at k s" using U that by (cases k) auto
    show ?thesis
    proof (cases "rung_at k s")
      case (Some y)
      have "ay_id y \<in> set retire \<longleftrightarrow> fst k = i"
        using out [of y] rung_at_in [OF Some] that by (cases k) (force simp: rung_key_def)
      then show ?thesis using k Some by (simp add: r)
    qed (use k in \<open>simp add: r\<close>)
  qed
  have named: "\<exists>z. rung_at (i, fst e) t = Some z \<and> ay_active z \<and> ay_name z = snd e
      \<and> (\<forall>x. rung_at (i, fst e) s = Some x \<longrightarrow> ay_id z = ay_id x)" if e: "e \<in> set entries" for e
  proof -
    obtain y where y: "rung_at (i, fst e) s1 = Some y" "ay_name y = snd e" "ay_active y"
      "case rung_at (i, fst e) s of Some x \<Rightarrow> ay_id y = ay_id x | None \<Rightarrow> db_next s \<le> ay_id y"
      using bspec [OF conjunct1 [OF conjunct2 [OF U]] e] by (elim exE conjE)
    have "ay_id y \<notin> set retire"
    proof (cases "rung_at (i, fst e) s")
      case None
      then show ?thesis using y(4) small by fastforce
    next
      case (Some x)
      then show ?thesis using y(4) out [of x] rung_at_in [OF Some] e by (auto simp: rung_key_def)
    qed
    then show ?thesis using y by (auto simp: r split: option.splits)
  qed
  have keep: "\<exists>z. rung_at k t = Some z \<and> ay_id z = ay_id y" if "rung_at k s = Some y" for k y
  proof (cases "fst k \<noteq> i \<or> snd k \<notin> fst ` set entries")
    case True
    then show ?thesis using other [OF True] that by (auto split: if_splits)
  next
    case False
    then obtain e where "e \<in> set entries" "k = (i, fst e)" by (cases k) auto
    then show ?thesis using named that by blast
  qed
  have gone: "rung_at (i, num) t = Some (y\<lparr>ay_active := False\<rparr>)"
    if "rung_at (i, num) s = Some y" "num \<notin> fst ` set entries" for num y
    using other [of "(i, num)"] that by simp
  have free: "rung_at (j, num) t = rung_at (j, num) s" if "j \<noteq> i" for j num
    using other [of "(j, num)"] that by simp
  have there: "\<exists>z. rung_at (i, num) t = Some z \<and> ay_active z \<and> ay_name z = name" if "(num, name) \<in> set entries" for num name
    using named [OF that] by auto
  show ?thesis using keep there gone free by simp
qed

section \<open>Rungs and ladders\<close>

lemma check_year_one: "check_year_departments po p y s [d] = check_own_ladder po p y (Some d) s"
  by (subst check_year_departments.simps) simp

lemma map_r_units: "bind_r (map_r f xs) (\<lambda>_. m) = Inr () \<longleftrightarrow> (\<forall>x \<in> set xs. f x = Inr ()) \<and> m = Inr ()"
  for f :: "'a \<Rightarrow> 'e + unit"
  by (induction xs) (auto simp: bind_r_Inr_iff)

lemma check_year_all:
  "ids \<noteq> [] \<Longrightarrow> check_year_departments po p y s ids = Inr ()
     \<longleftrightarrow> (\<forall>d \<in> set ids. check_own_ladder po p y (Some d) s = Inr ())"
  by (cases ids; subst check_year_departments.simps) (auto simp: map_r_units check_year_one)

lemma check_own_ladder_iff:
  "check_own_ladder po p y (Some d) s = Inr () \<longleftrightarrow>
     (\<exists>r. resolve_structure (no_scope\<lparr>sp_of_department := Some d\<rparr>) s = Inr (Some r) \<and> rung_of po y r s)"
  by (auto simp: check_own_ladder_def no_scope_def result_simps split: option.splits)

text \<open>a year must belong to the ladder of every department. A course or material offered to several
  departments is accepted with a year exactly when each department's governing ladder has that year
  among its rungs, in whatever order the departments were sent and however often.\<close>

theorem year_fits_every_ladder:
  assumes "pl_year p = Some y" "pl_departments p \<noteq> []"
  shows "check_year_in_ladder po p s = Inr () \<longleftrightarrow>
    (\<forall>d \<in> set (pl_departments p). \<exists>r.
       resolve_structure (no_scope\<lparr>sp_of_department := Some d\<rparr>) s = Inr (Some r) \<and> rung_of po y r s)"
proof -
  have "sort (remdups (pl_departments p)) \<noteq> []"
    using assms(2) by (metis remdups_eq_nil_iff set_empty set_sort)
  then show ?thesis
    by (simp add: check_year_in_ladder_def assms(1) check_year_all check_own_ladder_iff)
qed

text \<open>A university with one college, two departments and a level ladder for one of them.\<close>

definition uni_db :: db where
  "uni_db = empty_db\<lparr>db_next := 50,
     universities := [\<lparr>un_id = 8, un_active = True, un_name = ''U'', un_code = None, un_system = SK_YEAR, un_deleted_at = None\<rparr>],
     faculties := [\<lparr>fa_id = 2, fa_university = 8, fa_name = ''F'', fa_active = True, fa_system = None, fa_deleted_at = None\<rparr>],
     departments := [\<lparr>de_id = 3, de_faculty = 2, de_name = ''A'', de_study = STY_GENERAL, de_active = True, de_deleted_at = None\<rparr>,
       \<lparr>de_id = 4, de_faculty = 2, de_name = ''B'', de_study = STY_PROGRAMS, de_active = True, de_deleted_at = None\<rparr>],
     structures := [\<lparr>sr_id = 10, sr_kind = SK_YEAR, sr_scope = PlatformScope, sr_active = True, sr_created = 0\<rparr>,
       \<lparr>sr_id = 11, sr_kind = SK_LEVEL, sr_scope = DepartmentScope 4, sr_active = True, sr_created = 5\<rparr>],
     years := [\<lparr>ay_id = 20, ay_structure = 10, ay_order = 1, ay_name = ''First'', ay_active = True\<rparr>,
       \<lparr>ay_id = 21, ay_structure = 10, ay_order = 2, ay_name = ''Second'', ay_active = True\<rparr>]\<rparr>"

lemma uni_rows:
  "find_by de_id 3 (departments uni_db) = Some \<lparr>de_id = 3, de_faculty = 2, de_name = ''A'', de_study = STY_GENERAL, de_active = True, de_deleted_at = None\<rparr>"
  "find_by de_id 4 (departments uni_db) = Some \<lparr>de_id = 4, de_faculty = 2, de_name = ''B'', de_study = STY_PROGRAMS, de_active = True, de_deleted_at = None\<rparr>"
  "find_by fa_id 2 (faculties uni_db) = Some \<lparr>fa_id = 2, fa_university = 8, fa_name = ''F'', fa_active = True, fa_system = None, fa_deleted_at = None\<rparr>"
  "pinned_structure 2 uni_db = None"
  "own_ladder (DepartmentScope 3) uni_db = None" "own_ladder (FacultyScope 2) uni_db = None"
  "own_ladder (UniversityScope 8) uni_db = None"
  "own_ladder PlatformScope uni_db = Some \<lparr>sr_id = 10, sr_kind = SK_YEAR, sr_scope = PlatformScope, sr_active = True, sr_created = 0\<rparr>"
  "own_ladder (DepartmentScope 4) uni_db = Some \<lparr>sr_id = 11, sr_kind = SK_LEVEL, sr_scope = DepartmentScope 4, sr_active = True, sr_created = 5\<rparr>"
  by (simp_all add: uni_db_def empty_db_def own_ladder_def structures_of_def pinned_structure_def)

lemma uni_ladders:
  "resolve_structure (no_scope\<lparr>sp_of_department := Some 3\<rparr>) uni_db
     = Inr (Some \<lparr>sr_id = 10, sr_kind = SK_YEAR, sr_scope = PlatformScope, sr_active = True, sr_created = 0\<rparr>)"
  "resolve_structure (no_scope\<lparr>sp_of_department := Some 4\<rparr>) uni_db
     = Inr (Some \<lparr>sr_id = 11, sr_kind = SK_LEVEL, sr_scope = DepartmentScope 4, sr_active = True, sr_created = 5\<rparr>)"
  by (simp_all add: resolve_structure_def assert_single_owner_def no_scope_def scope_candidates_def faculty_scopes_def
      structures_of_def override_faculty_def pinned_structure_def uni_db_def empty_db_def Let_def)

lemma uni_rungs:
  "sr_id r = 10 \<Longrightarrow> rung_of course_placement 20 r uni_db" "sr_id r = 11 \<Longrightarrow> \<not> rung_of course_placement 20 r uni_db"
  by (simp_all add: rung_of_def uni_db_def course_placement_def)

theorem ladder_precedence_witness:
  "map_option sr_kind (own_ladder PlatformScope uni_db) = Some SK_YEAR
    \<and> resolve_structure (no_scope\<lparr>sp_of_department := Some 3\<rparr>) uni_db = Inr (own_ladder PlatformScope uni_db)"
  using ladder_precedence [OF uni_rows(1), of "\<lparr>fa_id = 2, fa_university = 8, fa_name = ''F'', fa_active = True, fa_system = None, fa_deleted_at = None\<rparr>"]
  by (simp add: uni_rows)

theorem year_fits_every_ladder_witness:
  "check_year_in_ladder course_placement \<lparr>pl_university = None, pl_faculty = Some 2, pl_departments = [3], pl_year = Some 20\<rparr> uni_db = Inr ()
    \<and> check_year_in_ladder course_placement \<lparr>pl_university = None, pl_faculty = Some 2, pl_departments = [3, 4], pl_year = Some 20\<rparr> uni_db \<noteq> Inr ()"
  using year_fits_every_ladder [of "\<lparr>pl_university = None, pl_faculty = Some 2, pl_departments = [3], pl_year = Some 20\<rparr>" 20 course_placement uni_db]
    year_fits_every_ladder [of "\<lparr>pl_university = None, pl_faculty = Some 2, pl_departments = [3, 4], pl_year = Some 20\<rparr>" 20 course_placement uni_db]
  by (simp add: uni_ladders uni_rungs)

text \<open>A ladder created on an empty catalogue, with one rung.\<close>

definition first_ladder :: db where
  "first_ladder = empty_db\<lparr>db_next := 1,
     structures := [\<lparr>sr_id = 0, sr_kind = SK_LEVEL, sr_scope = PlatformScope, sr_active = True, sr_created = 7\<rparr>],
     audit := [\<lparr>au_actor = Some 9, au_action = ''CREATE'', au_entity = ''academic_structure'', au_entity_id = 0, au_note = []\<rparr>]\<rparr>"

lemma first_ladder_step: "catalog_step empty_db first_ladder"
proof (rule ct_structure)
  show "create_structure no_scope SK_LEVEL 9 7 empty_db
      = Inr (\<lparr>sr_id = 0, sr_kind = SK_LEVEL, sr_scope = PlatformScope, sr_active = True, sr_created = 7\<rparr>, first_ladder)"
    by (simp add: create_structure_def assert_single_owner_def no_scope_def academic_scope_key_def assert_structure_kind_def
        empty_db_def first_ladder_def catalog_audit_def audit_with_def Let_def)
qed

lemma empty_catalog: "catalog_start empty_db"
  by (simp add: catalog_start_def empty_db_def)

theorem catalog_unambiguous_witness:
  "count_where (\<lambda>p. fp_faculty p = 2) (pins first_ladder) \<le> 1 \<and> length (structures first_ladder) = 1"
  using catalog_unambiguous [OF empty_catalog r_into_rtranclp [where r = catalog_step, OF first_ladder_step], of PlatformScope 2]
  by (simp add: first_ladder_def)

theorem rung_edit_keeps_placements_witness:
  "\<exists>out t. replace_structure_entries 10 [(1, ''Freshman''), (3, ''Third'')] 9 uni_db = Inr (out, t)
    \<and> (\<exists>z. rung_at (10, 1) t = Some z \<and> ay_id z = 20)
    \<and> (\<exists>z. rung_at (10, 2) t = Some z \<and> \<not> ay_active z)"
proof -
  obtain out t where r: "replace_structure_entries 10 [(1, ''Freshman''), (3, ''Third'')] 9 uni_db = Inr (out, t)"
    by (simp add: replace_structure_entries_def uni_db_def empty_db_def upsert_rung_def upd_where_Cons catalog_audit_def)
  have inv: "catalog_inv uni_db"
    by (simp add: catalog_inv_def uni_db_def empty_db_def scoped_def rung_key_def below_def)
  have old: "\<exists>y. rung_at (10, 1) uni_db = Some y \<and> ay_id y = 20" "\<exists>y. rung_at (10, 2) uni_db = Some y"
    by (simp_all add: rung_at_def rung_key_def uni_db_def)
  from rung_edit_keeps_placements [OF r inv] old r show ?thesis by force
qed

end
