(* ===== verification/PartGrants.thy ===== *)
theory PartGrants
  imports PartPricing Payments
begin

text \<open>
  Acquiring a course part by its card (\<open>modules/course-parts/grant-part-from-code.ts\<close>): the part
  must be on sale inside a published course, its worth at redemption is read from the live
  allocation and frozen with the teacher's share, and the student's ownership is created or
  reinstated. No wallet, payment or revenue row is written.
\<close>

section \<open>The worth of a part\<close>

definition latest_price :: "id \<Rightarrow> db \<Rightarrow> price_row option" where
  "latest_price course s =
     (case sort_key (\<lambda>p. - int (cp_version p)) (filter (\<lambda>p. cp_course p = course \<and> cp_current p) (prices s)) of
        [] \<Rightarrow> None | p # _ \<Rightarrow> Some p)"

text \<open>A percentage column holds two decimals.\<close>

definition percent_column :: "rat \<Rightarrow> int" where
  "percent_column x = round (x * 100)"

text \<open>A course whose parts no longer add up must not block a card: the worth is then zero.\<close>

definition worth_of_part :: "id \<Rightarrow> id \<Rightarrow> price_row option \<Rightarrow> db \<Rightarrow> int \<times> rat option" where
  "worth_of_part part course price s =
     (case price of
        None \<Rightarrow> (0, None)
      | Some p \<Rightarrow>
          (case load_part_allocation course (MStr (decimal_text (cp_amount p))) s of
             Inl _ \<Rightarrow> (0, None)
           | Inr (None, _) \<Rightarrow> (0, None)
           | Inr (Some a, _) \<Rightarrow>
               (case List.find (\<lambda>l. al_id l = part) (ar_parts a) of
                  None \<Rightarrow> (0, None)
                | Some l \<Rightarrow> (al_piastres l, al_percent l))))"

definition lead_share :: "teacher_row option \<Rightarrow> money_value option" where
  "lead_share lead =
     (case lead of
        None \<Rightarrow> None
      | Some a \<Rightarrow>
          (case ct_share a of
             Some x \<Rightarrow> Some (MStr (decimal_text x))
           | None \<Rightarrow> map_option (\<lambda>x. MStr (decimal_text x)) (ct_profile_share a)))"

section \<open>The grant\<close>

record part_grant =
  pg_entitlement :: id
  pg_acquisition :: "id option"
  pg_value :: rat
  pg_already :: bool

definition part_purchase ::
  "id \<Rightarrow> part_row \<Rightarrow> id \<Rightarrow> id \<Rightarrow> id list \<Rightarrow> price_row option \<Rightarrow> int \<times> rat option \<Rightarrow> teacher_row option \<Rightarrow> share_split \<Rightarrow> time
     \<Rightarrow> part_purchase_row" where
  "part_purchase i part user code secs price worth lead split now =
     \<lparr>pp_id = i, pp_user = user, pp_course = cpt_course part, pp_part = cpt_id part, pp_price = fst worth,
      pp_model = cpt_pricing part, pp_percent = map_option percent_column (snd worth),
      pp_course_price = map_option cp_amount price, pp_teacher = map_option ct_teacher lead,
      pp_share = map_option percent_column (sh_percent split), pp_teacher_amount = sh_teacher split,
      pp_platform = sh_platform split, pp_sections = secs, pp_wallet_tx = None, pp_code = Some code,
      pp_key = PartCodeKey code user, pp_at = now\<rparr>"

definition find_entitlement :: "id \<Rightarrow> id \<Rightarrow> db \<Rightarrow> entitlement_row option" where
  "find_entitlement user part s = List.find (\<lambda>x. pe_user x = user \<and> pe_part x = part) (entitlements s)"

definition reinstated_entitlement :: "part_entitlement_source \<Rightarrow> id \<Rightarrow> entitlement_row \<Rightarrow> entitlement_row" where
  "reinstated_entitlement source purchase x =
     x\<lparr>pe_source := source, pe_purchase := Some purchase, pe_revoked_at := None, pe_revoked_by := None, pe_revoked_reason := None\<rparr>"

text \<open>The ownership row: created, or reinstated after a revocation.\<close>

definition upsert_entitlement :: "id \<Rightarrow> part_row \<Rightarrow> id \<Rightarrow> time \<Rightarrow> id dbtx" where
  "upsert_entitlement user part purchase now =
     bind_tx (get_tx (find_entitlement user (cpt_id part))) (\<lambda>found.
     case found of
       Some x \<Rightarrow>
         bind_tx (modify_tx (\<lambda>s. s\<lparr>entitlements := upd_where (\<lambda>y. pe_user y = user \<and> pe_part y = cpt_id part)
           (reinstated_entitlement PE_CODE purchase) (entitlements s)\<rparr>)) (\<lambda>_. ret_tx (pe_id x))
     | None \<Rightarrow>
         bind_tx fresh_id (\<lambda>i.
         bind_tx (modify_tx (\<lambda>s. s\<lparr>entitlements := entitlements s @
           [\<lparr>pe_id = i, pe_user = user, pe_part = cpt_id part, pe_course = cpt_course part, pe_source = PE_CODE,
             pe_purchase = Some purchase, pe_granted = now, pe_revoked_at = None, pe_revoked_by = None,
             pe_revoked_reason = None\<rparr>]\<rparr>)) (\<lambda>_. ret_tx i)))"

definition acquire_part :: "id \<Rightarrow> part_row \<Rightarrow> id \<Rightarrow> id list \<Rightarrow> time \<Rightarrow> part_grant dbtx" where
  "acquire_part user part code secs now =
     bind_tx (get_tx (latest_price (cpt_course part))) (\<lambda>price.
     bind_tx (get_tx (worth_of_part (cpt_id part) (cpt_course part) price)) (\<lambda>worth.
     bind_tx (get_tx (lead_teacher (cpt_course part))) (\<lambda>lead.
     let split = split_teacher_share (fst worth) (lead_share lead) in
     bind_tx (lift_tx (from_piastres (fst worth))) (\<lambda>_.
     bind_tx (lift_tx (from_piastres (sh_teacher split))) (\<lambda>_.
     bind_tx (lift_tx (from_piastres (sh_platform split))) (\<lambda>_.
     bind_tx (get_tx (\<lambda>s. PartCodeKey code user \<in> set (map pp_key (part_purchases s)))) (\<lambda>dup.
     bind_tx (require_tx (\<not> dup) (unique_violation ''idempotencyKey'')) (\<lambda>_.
     bind_tx fresh_id (\<lambda>i.
     bind_tx (modify_tx (\<lambda>s. s\<lparr>part_purchases := part_purchases s @
       [part_purchase i part user code secs price worth lead split now]\<rparr>)) (\<lambda>_.
     bind_tx (upsert_entitlement user part i now) (\<lambda>e.
     ret_tx \<lparr>pg_entitlement = e, pg_acquisition = Some i, pg_value = to_egp_number (fst worth), pg_already = False\<rparr>)))))))))))"

definition grant_part_from_code :: "id \<Rightarrow> id \<Rightarrow> id \<Rightarrow> id list \<Rightarrow> time \<Rightarrow> part_grant option dbtx" where
  "grant_part_from_code user part_id code secs now =
     bind_tx (get_tx (\<lambda>s. List.find (\<lambda>p. cpt_id p = part_id \<and> cpt_deleted_at p = None) (parts s))) (\<lambda>found.
     case found of
       None \<Rightarrow> ret_tx None
     | Some part \<Rightarrow>
         bind_tx (assert_part_on_sale (cpt_status part) (cpt_active part) (cpt_deleted_at part)) (\<lambda>_.
         bind_tx (get_tx (\<lambda>s. find_by c_id (cpt_course part) (courses s))) (\<lambda>course.
         bind_tx (the_or OtherEx course) (\<lambda>c.
         bind_tx (assert_course_acquirable (c_status c) (c_deleted_at c)) (\<lambda>_.
         bind_tx (get_tx (find_entitlement user part_id)) (\<lambda>existing.
         if holds_some (\<lambda>x. pe_revoked_at x = None) existing then
           ret_tx (Some \<lparr>pg_entitlement = pe_id (the existing), pg_acquisition = None, pg_value = 0, pg_already = True\<rparr>)
         else bind_tx (acquire_part user part code secs now) (\<lambda>g. ret_tx (Some g)))))))) "

section \<open>What a grant does\<close>

definition entitlement_key :: "entitlement_row \<Rightarrow> id \<times> id" where
  "entitlement_key x = (pe_user x, pe_part x)"

lemma split_halves: "sh_teacher (split_teacher_share price share) + sh_platform (split_teacher_share price share) = price"
  by (auto simp: split_teacher_share_def Let_def split: option.splits sum.splits)

text \<open>The ownership row afterwards is live, and no other ownership row has changed.\<close>

lemma upsert_entitlement_Inr:
  assumes "upsert_entitlement user part purchase now s = Inr (i, t)"
  obtains es n where "t = s\<lparr>entitlements := es, db_next := n\<rparr>" "db_next s \<le> n"
    "\<exists>x \<in> set es. pe_id x = i \<and> entitlement_key x = (user, cpt_id part) \<and> pe_revoked_at x = None
       \<and> pe_purchase x = Some purchase \<and> pe_source x = PE_CODE"
    "{x \<in> set es. entitlement_key x \<noteq> (user, cpt_id part)}
       = {x \<in> set (entitlements s). entitlement_key x \<noteq> (user, cpt_id part)}"
proof (cases "find_entitlement user (cpt_id part) s")
  case None
  with assms show ?thesis
    by (intro that [where es = "entitlements t" and n = "Suc (db_next s)"]) (auto simp: upsert_entitlement_def entitlement_key_def)
next
  case (Some x)
  let ?p = "\<lambda>y. pe_user y = user \<and> pe_part y = cpt_id part" and ?f = "reinstated_entitlement PE_CODE purchase"
  have x: "x \<in> set (entitlements s)" "?p x" using Some by (auto simp: find_entitlement_def dest: find_Some)
  from assms Some have t: "t = s\<lparr>entitlements := upd_where ?p ?f (entitlements s)\<rparr>" "i = pe_id x"
    by (auto simp: upsert_entitlement_def)
  have "?f x \<in> set (upd_where ?p ?f (entitlements s))" using x by (auto simp: set_upd_where)
  moreover have "pe_id (?f x) = i \<and> entitlement_key (?f x) = (user, cpt_id part) \<and> pe_revoked_at (?f x) = None
      \<and> pe_purchase (?f x) = Some purchase \<and> pe_source (?f x) = PE_CODE"
    using x(2) t(2) by (simp add: reinstated_entitlement_def entitlement_key_def)
  ultimately have live: "\<exists>z \<in> set (upd_where ?p ?f (entitlements s)). pe_id z = i
      \<and> entitlement_key z = (user, cpt_id part) \<and> pe_revoked_at z = None
      \<and> pe_purchase z = Some purchase \<and> pe_source z = PE_CODE" by blast
  have others: "{y \<in> set (upd_where ?p ?f (entitlements s)). entitlement_key y \<noteq> (user, cpt_id part)}
      = {y \<in> set (entitlements s). entitlement_key y \<noteq> (user, cpt_id part)}"
    by (auto simp: set_upd_where entitlement_key_def reinstated_entitlement_def)
  show ?thesis
    by (rule that [where es = "upd_where ?p ?f (entitlements s)" and n = "db_next s", OF _ _ live others])
      (simp_all add: t(1))
qed

lemma acquire_part_Inr:
  assumes "acquire_part user part code secs now s = Inr (g, t)"
  obtains p es n where
    "t = s\<lparr>part_purchases := part_purchases s @ [p], entitlements := es, db_next := n\<rparr>" "db_next s \<le> n"
    "pp_key p = PartCodeKey code user" "pp_user p = user" "pp_part p = cpt_id part" "pp_sections p = secs"
    "pp_code p = Some code" "pp_wallet_tx p = None" "pp_teacher_amount p + pp_platform p = pp_price p"
    "pg_value g = to_egp_number (pp_price p)" "pg_acquisition g = Some (pp_id p)"
    "PartCodeKey code user \<notin> set (map pp_key (part_purchases s))" "\<not> pg_already g"
    "\<exists>x \<in> set es. pe_id x = pg_entitlement g \<and> entitlement_key x = (user, cpt_id part) \<and> pe_revoked_at x = None"
    "{x \<in> set es. entitlement_key x \<noteq> (user, cpt_id part)}
       = {x \<in> set (entitlements s). entitlement_key x \<noteq> (user, cpt_id part)}"
    "pp_model p = cpt_pricing part"
proof -
  define price where "price = latest_price (cpt_course part) s"
  define worth where "worth = worth_of_part (cpt_id part) (cpt_course part) price s"
  define lead where "lead = lead_teacher (cpt_course part) s"
  define split where "split = split_teacher_share (fst worth) (lead_share lead)"
  define p where "p = part_purchase (db_next s) part user code secs price worth lead split now"
  from assms obtain e where u: "upsert_entitlement user part (db_next s) now
      (s\<lparr>db_next := Suc (db_next s), part_purchases := part_purchases s @ [p]\<rparr>) = Inr (e, t)"
    and g: "g = \<lparr>pg_entitlement = e, pg_acquisition = Some (db_next s), pg_value = to_egp_number (fst worth), pg_already = False\<rparr>"
    and k: "PartCodeKey code user \<notin> set (map pp_key (part_purchases s))"
    unfolding acquire_part_def Let_def
    by (auto simp: result_simps p_def price_def worth_def lead_def split_def)
  from u obtain es n where e: "t = s\<lparr>part_purchases := part_purchases s @ [p], entitlements := es, db_next := n\<rparr>"
    "Suc (db_next s) \<le> n"
    "\<exists>x \<in> set es. pe_id x = e \<and> entitlement_key x = (user, cpt_id part) \<and> pe_revoked_at x = None"
    "{x \<in> set es. entitlement_key x \<noteq> (user, cpt_id part)}
       = {x \<in> set (entitlements s). entitlement_key x \<noteq> (user, cpt_id part)}"
    by (rule upsert_entitlement_Inr) auto
  show ?thesis
    by (rule that [where p = p and es = es and n = n]) (use e g k split_halves in \<open>simp_all add: p_def part_purchase_def split_def\<close>)
qed

lemma grant_part_Inr:
  assumes "grant_part_from_code user i code secs now s = Inr (Some g, t)"
  obtains part c where "part \<in> set (parts s)" "cpt_id part = i" "is_on_sale (cpt_status part) (cpt_active part) (cpt_deleted_at part)"
    "c \<in> set (courses s)" "c_id c = cpt_course part" "is_course_acquirable (c_status c) (c_deleted_at c)"
    "(\<exists>x. find_entitlement user i s = Some x \<and> pe_revoked_at x = None \<and> t = s
        \<and> g = \<lparr>pg_entitlement = pe_id x, pg_acquisition = None, pg_value = 0, pg_already = True\<rparr>)
     \<or> (\<forall>x. find_entitlement user i s = Some x \<longrightarrow> pe_revoked_at x \<noteq> None) \<and> acquire_part user part code secs now s = Inr (g, t)"
proof -
  from assms obtain part c where p: "List.find (\<lambda>p. cpt_id p = i \<and> cpt_deleted_at p = None) (parts s) = Some part"
    "is_on_sale (cpt_status part) (cpt_active part) (cpt_deleted_at part)"
    "find_by c_id (cpt_course part) (courses s) = Some c" "is_course_acquirable (c_status c) (c_deleted_at c)"
    "(if \<exists>x. find_entitlement user i s = Some x \<and> pe_revoked_at x = None
      then ret_tx (Some \<lparr>pg_entitlement = pe_id (the (find_entitlement user i s)), pg_acquisition = None, pg_value = 0, pg_already = True\<rparr>)
      else bind_tx (acquire_part user part code secs now) (\<lambda>g. ret_tx (Some g))) s = Inr (Some g, t)"
    unfolding grant_part_from_code_def by (auto simp: result_simps split: option.splits)
  show ?thesis
  proof (rule that [where part = part and c = c])
    show "part \<in> set (parts s)" "cpt_id part = i" using find_Some [OF p(1)] by auto
    show "c \<in> set (courses s)" "c_id c = cpt_course part" using find_by_Some [OF p(3)] by auto
  qed (use p in \<open>auto simp: result_simps split: if_splits\<close>)
qed

lemma grant_part_frame:
  assumes "grant_part_from_code user i code secs now s = Inr (r, t)"
  obtains pp es n where "t = s\<lparr>part_purchases := pp, entitlements := es, db_next := n\<rparr>" "db_next s \<le> n"
    "{x \<in> set es. entitlement_key x \<noteq> (user, i)} = {x \<in> set (entitlements s). entitlement_key x \<noteq> (user, i)}"
    "set (part_purchases s) \<subseteq> set pp"
proof (cases r)
  case None
  with assms have "t = s" unfolding grant_part_from_code_def by (auto simp: result_simps split: option.splits if_splits)
  then show ?thesis by (intro that [where pp = "part_purchases s" and es = "entitlements s" and n = "db_next s"]) auto
next
  case (Some g)
  with assms have "grant_part_from_code user i code secs now s = Inr (Some g, t)" by simp
  then show ?thesis
  proof (rule grant_part_Inr)
    fix part c
    assume i: "cpt_id part = i"
      and r: "(\<exists>x. find_entitlement user i s = Some x \<and> pe_revoked_at x = None \<and> t = s
        \<and> g = \<lparr>pg_entitlement = pe_id x, pg_acquisition = None, pg_value = 0, pg_already = True\<rparr>)
     \<or> (\<forall>x. find_entitlement user i s = Some x \<longrightarrow> pe_revoked_at x \<noteq> None) \<and> acquire_part user part code secs now s = Inr (g, t)"
    from r show ?thesis
    proof (elim disjE exE conjE)
      assume "t = s"
      then show ?thesis by (intro that [where pp = "part_purchases s" and es = "entitlements s" and n = "db_next s"]) auto
    next
      assume "acquire_part user part code secs now s = Inr (g, t)"
      then show ?thesis
      proof (rule acquire_part_Inr)
        fix p es n
        assume "t = s\<lparr>part_purchases := part_purchases s @ [p], entitlements := es, db_next := n\<rparr>" "db_next s \<le> n"
          "{x \<in> set es. entitlement_key x \<noteq> (user, cpt_id part)}
             = {x \<in> set (entitlements s). entitlement_key x \<noteq> (user, cpt_id part)}"
        then show ?thesis using i by (intro that [where pp = "part_purchases s @ [p]" and es = es and n = n]) auto
      qed
    qed
  qed
qed

text \<open>what redeeming a part card grants. The part is on sale in a course open to new students, and
  afterwards its ownership row is live and no other ownership row has changed. A student who owned
  it already gets no second record of money; otherwise exactly one purchase is added, for the card
  and not the wallet, under a key no earlier purchase has, with the teacher's and the platform's
  share adding up to its price; no wallet, payment or revenue line moves.\<close>

theorem part_grant_exact:
  assumes "grant_part_from_code user i code secs now s = Inr (Some g, t)"
  shows "(\<exists>part \<in> set (parts s). cpt_id part = i \<and> is_on_sale (cpt_status part) (cpt_active part) (cpt_deleted_at part)
      \<and> (\<exists>c \<in> set (courses s). c_id c = cpt_course part \<and> is_course_acquirable (c_status c) (c_deleted_at c)))
    \<and> (\<exists>x \<in> set (entitlements t). pe_id x = pg_entitlement g \<and> entitlement_key x = (user, i) \<and> pe_revoked_at x = None)
    \<and> {x \<in> set (entitlements t). entitlement_key x \<noteq> (user, i)} = {x \<in> set (entitlements s). entitlement_key x \<noteq> (user, i)}
    \<and> (if pg_already g then t = s
       else PartCodeKey code user \<notin> set (map pp_key (part_purchases s))
         \<and> (\<exists>p. part_purchases t = part_purchases s @ [p] \<and> pp_key p = PartCodeKey code user \<and> pp_sections p = secs
              \<and> pp_wallet_tx p = None \<and> pp_teacher_amount p + pp_platform p = pp_price p
              \<and> pg_value g = to_egp_number (pp_price p)))
    \<and> wallets t = wallets s \<and> wallet_txs t = wallet_txs s \<and> payments t = payments s \<and> revenue t = revenue s"
  using assms
proof (rule grant_part_Inr)
  fix part c
  assume on_sale: "part \<in> set (parts s)" "cpt_id part = i"
      "is_on_sale (cpt_status part) (cpt_active part) (cpt_deleted_at part)"
      "c \<in> set (courses s)" "c_id c = cpt_course part" "is_course_acquirable (c_status c) (c_deleted_at c)"
    and r: "(\<exists>x. find_entitlement user i s = Some x \<and> pe_revoked_at x = None \<and> t = s
        \<and> g = \<lparr>pg_entitlement = pe_id x, pg_acquisition = None, pg_value = 0, pg_already = True\<rparr>)
     \<or> (\<forall>x. find_entitlement user i s = Some x \<longrightarrow> pe_revoked_at x \<noteq> None) \<and> acquire_part user part code secs now s = Inr (g, t)"
  from r show ?thesis
  proof (elim disjE exE conjE)
    fix x
    assume x: "find_entitlement user i s = Some x" "pe_revoked_at x = None" "t = s"
      "g = \<lparr>pg_entitlement = pe_id x, pg_acquisition = None, pg_value = 0, pg_already = True\<rparr>"
    then have "x \<in> set (entitlements s)" "entitlement_key x = (user, i)"
      by (auto simp: find_entitlement_def entitlement_key_def dest: find_Some)
    with x on_sale show ?thesis by auto
  next
    assume "acquire_part user part code secs now s = Inr (g, t)"
    then show ?thesis
      by (rule acquire_part_Inr) (use on_sale in auto)
  qed
qed

text \<open>A published course with one part on sale.\<close>

definition shelf_db :: db where
  "shelf_db = empty_db\<lparr>db_next := 90, courses := [campus_course 11 []],
     parts := [\<lparr>cpt_id = 21, cpt_course = 11, cpt_title = [], cpt_sort = 1, cpt_status = CT_PUBLISHED,
       cpt_active = True, cpt_pricing = FIXED, cpt_percent = None, cpt_amount = None, cpt_thumbnail = None, cpt_deleted_at = None\<rparr>]\<rparr>"

lemma shelf_grant:
  "\<exists>g t. grant_part_from_code 3 21 50 [31] 2 shelf_db = Inr (Some g, t) \<and> \<not> pg_already g"
  by (simp add: grant_part_from_code_def shelf_db_def empty_db_def campus_course_def assert_part_on_sale_def
      assert_course_acquirable_def is_on_sale_def is_acquirable_content_def is_course_acquirable_def
      is_acquirable_course_def find_entitlement_def acquire_part_def latest_price_def worth_of_part_def
      lead_teacher_def lead_share_def split_teacher_share_def Let_def upsert_entitlement_def
      from_piastres_def is_safe_integer_def bind_tx_step)

theorem part_grant_exact_witness:
  "\<exists>g t. grant_part_from_code 3 21 50 [31] 2 shelf_db = Inr (Some g, t)
    \<and> (\<exists>x \<in> set (entitlements t). entitlement_key x = (3, 21) \<and> pe_revoked_at x = None)
    \<and> length (part_purchases t) = 1"
proof -
  obtain g t where g: "grant_part_from_code 3 21 50 [31] 2 shelf_db = Inr (Some g, t)" "\<not> pg_already g"
    using shelf_grant by blast
  note r = part_grant_exact [OF g(1)]
  have "part_purchases shelf_db = []" by (simp add: shelf_db_def empty_db_def)
  moreover from r g(2) have "\<exists>p. part_purchases t = part_purchases shelf_db @ [p]" by (simp only: if_False) blast
  ultimately have "length (part_purchases t) = 1" by auto
  moreover from r have "\<exists>x \<in> set (entitlements t). entitlement_key x = (3, 21) \<and> pe_revoked_at x = None" by blast
  ultimately show ?thesis using g(1) by blast
qed

end
