(* ===== verification/Enrollments.thy ===== *)
theory Enrollments
  imports Codes PartGrants Academics
begin

text \<open>
  Joining courses and administering enrollments (\<open>modules/enrollments/enrollments.service.ts\<close>): the
  one place that grants access, the join endpoints, the redemption of a card with its part and its
  extra courses, administrative grants, rejections, removals, transfers and extensions, and the
  nightly sweep. A handler that reads outside its transaction reads the database \<open>seen\<close> and writes to
  \<open>s\<close>. Notifications and best-effort audit entries after a commit are left out.
\<close>

section \<open>Granting access\<close>

record duration_override =
  do_type :: "duration_type option"
  do_days :: "int option"
  do_ends :: "time option"

definition access_end_for :: "course_row \<Rightarrow> duration_override option \<Rightarrow> time \<Rightarrow> time option" where
  "access_end_for c override now =
     compute_access_end
       (case Option.bind override do_type of Some t \<Rightarrow> t | None \<Rightarrow> c_duration_type c)
       (case Option.bind override do_days of Some d \<Rightarrow> Some d | None \<Rightarrow> c_duration_days c)
       (case Option.bind override do_ends of Some x \<Rightarrow> Some x | None \<Rightarrow> c_access_ends c) now"

record access_grant =
  ag_user :: id
  ag_course :: course_row
  ag_method :: enrollment_method
  ag_override :: "duration_override option"
  ag_approver :: "id option"
  ag_scope :: "id list option"
  ag_code :: "id option"
  ag_source :: section_grant_source
  ag_part :: "id option"

definition holds_live_whole_course :: "time \<Rightarrow> enrollment_row option \<Rightarrow> bool" where
  "holds_live_whole_course now e =
     (case e of
        None \<Rightarrow> False
      | Some x \<Rightarrow> e_covers_all x \<and> e_state x = ES_ACTIVE
                  \<and> (case e_ends x of None \<Rightarrow> True | Some t \<Rightarrow> now < t))"

definition new_enrollment :: "id \<Rightarrow> access_grant \<Rightarrow> time \<Rightarrow> time option \<Rightarrow> bool \<Rightarrow> enrollment_row" where
  "new_enrollment i g now ends covers =
     \<lparr>e_id = i, e_user = ag_user g, e_course = c_id (ag_course g), e_state = ES_ACTIVE, e_method = ag_method g,
      e_starts = now, e_ends = ends, e_approved_by = ag_approver g,
      e_approved_at = (if ag_approver g = None then None else Some now), e_revoked_by = None,
      e_revoked_at = None, e_revoked_reason = None, e_covers_all = covers,
      e_completed_lessons = 0, e_last_lesson = None, e_last_accessed = None, e_created = now\<rparr>"

definition granted_again :: "access_grant \<Rightarrow> time \<Rightarrow> time option \<Rightarrow> bool \<Rightarrow> enrollment_row \<Rightarrow> enrollment_row" where
  "granted_again g now ends covers e =
     e\<lparr>e_state := ES_ACTIVE, e_method := ag_method g, e_starts := now, e_ends := ends,
       e_approved_by := (case ag_approver g of Some a \<Rightarrow> Some a | None \<Rightarrow> e_approved_by e),
       e_approved_at := (case ag_approver g of Some _ \<Rightarrow> Some now | None \<Rightarrow> e_approved_at e),
       e_revoked_at := None, e_revoked_by := None, e_revoked_reason := None, e_covers_all := covers\<rparr>"

text \<open>An upsert on the unique index \<open>(userId, courseId)\<close>.\<close>

definition upsert_enrollment ::
  "id \<Rightarrow> id \<Rightarrow> (id \<Rightarrow> enrollment_row) \<Rightarrow> (enrollment_row \<Rightarrow> enrollment_row) \<Rightarrow> enrollment_row dbtx" where
  "upsert_enrollment user course create update =
     bind_tx (get_tx (find_enrollment user course)) (\<lambda>found.
     case found of
       Some e \<Rightarrow>
         bind_tx (modify_tx (\<lambda>s. s\<lparr>enrollments := upd_where (\<lambda>x. e_user x = user \<and> e_course x = course) update (enrollments s)\<rparr>)) (\<lambda>_.
         ret_tx (update e))
     | None \<Rightarrow>
         bind_tx fresh_id (\<lambda>i.
         bind_tx (modify_tx (\<lambda>s. s\<lparr>enrollments := enrollments s @ [create i]\<rparr>)) (\<lambda>_.
         ret_tx (create i))))"

text \<open>A \<open>createMany\<close> that skips rows whose \<open>(enrollmentId, sectionId)\<close> is there already.\<close>

fun insert_grants :: "grant_row list \<Rightarrow> grant_row list \<Rightarrow> grant_row list" where
  "insert_grants [] gs = gs"
| "insert_grants (r # rows) gs =
     insert_grants rows
       (if \<exists>x \<in> set gs. g_enrollment x = g_enrollment r \<and> g_section x = g_section r then gs else gs @ [r])"

definition section_grant :: "access_grant \<Rightarrow> id \<Rightarrow> id \<Rightarrow> grant_row" where
  "section_grant g e sec =
     \<lparr>g_enrollment = e, g_section = sec, g_source = ag_source g, g_code = ag_code g, g_part = ag_part g\<rparr>"

definition grant_access :: "access_grant \<Rightarrow> time \<Rightarrow> enrollment_row dbtx" where
  "grant_access g now =
     (let user = ag_user g; course = c_id (ag_course g);
          ends = access_end_for (ag_course g) (ag_override g) now in
      bind_tx (get_tx (find_enrollment user course)) (\<lambda>existing.
      let covers = (ag_scope g = None \<or> holds_live_whole_course now existing) in
      bind_tx (upsert_enrollment user course (\<lambda>i. new_enrollment i g now ends covers)
        (granted_again g now ends covers)) (\<lambda>e.
      bind_tx (modify_tx (\<lambda>s. s\<lparr>grants :=
        insert_grants (map (section_grant g (e_id e)) (case ag_scope g of None \<Rightarrow> [] | Some secs \<Rightarrow> secs)) (grants s)\<rparr>)) (\<lambda>_.
      bind_tx (recount_students course) (\<lambda>_.
      ret_tx e)))))"

section \<open>Joining\<close>

record join_result =
  jr_state :: enrollment_state
  jr_checkout :: "string option"

definition simple_grant :: "id \<Rightarrow> course_row \<Rightarrow> enrollment_method \<Rightarrow> access_grant" where
  "simple_grant user c m =
     \<lparr>ag_user = user, ag_course = c, ag_method = m, ag_override = None, ag_approver = None, ag_scope = None,
      ag_code = None, ag_source = G_CODE, ag_part = None\<rparr>"

definition requested_enrollment :: "id \<Rightarrow> id \<Rightarrow> enrollment_state \<Rightarrow> enrollment_method \<Rightarrow> time \<Rightarrow> id \<Rightarrow> enrollment_row" where
  "requested_enrollment user course st m now i =
     \<lparr>e_id = i, e_user = user, e_course = course, e_state = st, e_method = m, e_starts = now, e_ends = None,
      e_approved_by = None, e_approved_at = None, e_revoked_by = None, e_revoked_at = None,
      e_revoked_reason = None, e_covers_all = True, e_completed_lessons = 0, e_last_lesson = None,
      e_last_accessed = None, e_created = now\<rparr>"

definition requested_again :: "enrollment_state \<Rightarrow> enrollment_method \<Rightarrow> enrollment_row \<Rightarrow> enrollment_row" where
  "requested_again st m e = e\<lparr>e_state := st, e_method := m, e_revoked_at := None, e_revoked_reason := None\<rparr>"

definition request_enrollment :: "id \<Rightarrow> id \<Rightarrow> enrollment_state \<Rightarrow> enrollment_method \<Rightarrow> time \<Rightarrow> enrollment_row dbtx" where
  "request_enrollment user course st m now =
     upsert_enrollment user course (requested_enrollment user course st m now) (requested_again st m)"

definition create_audit :: "id \<Rightarrow> id \<Rightarrow> db \<Rightarrow> db" where
  "create_audit user enrollment =
     audit_with \<lparr>au_actor = Some user, au_action = ''ENROLLMENT_CREATE'', au_entity = ''enrollment'',
       au_entity_id = enrollment, au_note = []\<rparr>"

definition join_free :: "db world \<Rightarrow> id \<Rightarrow> course_row \<Rightarrow> time \<Rightarrow> db \<Rightarrow> (exn + join_result) \<times> db" where
  "join_free w user c now s =
     (if \<not> c_is_free c then (Inl (app_error PAYMENT_REQUIRED), s)
      else
        (let r = with_serializable_retry default_options w (grant_access (simple_grant user c M_FREE) now) s in
         (bind_r (rt_result r) (\<lambda>e. Inr \<lparr>jr_state = e_state e, jr_checkout = None\<rparr>), rt_state r)))"

definition checkout_body ::
  "configured_provider \<Rightarrow> id \<Rightarrow> course_row \<Rightarrow> price_row \<Rightarrow> nat \<Rightarrow> time \<Rightarrow> (enrollment_row \<times> checkout_session) dbtx" where
  "checkout_body cfg user c price random now =
     bind_tx (request_enrollment user (c_id c) ES_PENDING_PAYMENT M_PAYMENT now) (\<lambda>e.
     bind_tx (create_pending_payment cfg user (c_id c) (e_id e) price None random now) (\<lambda>ck.
     ret_tx (e, ck)))"

definition join_with_payment ::
  "configured_provider \<Rightarrow> db world \<Rightarrow> id \<Rightarrow> course_row \<Rightarrow> nat \<Rightarrow> time \<Rightarrow> db \<Rightarrow> db \<Rightarrow> (exn + join_result) \<times> db" where
  "join_with_payment cfg w user c random now seen s =
     (case current_price (c_id c) seen of
        None \<Rightarrow> (Inl (app_error INVALID_STATE), s)
      | Some price \<Rightarrow>
          if cp_amount price \<le> 0 then (Inl (app_error INVALID_STATE), s)
          else
            (let r = with_serializable_retry default_options w (checkout_body cfg user c price random now) s in
             case rt_result r of
               Inl e \<Rightarrow> (Inl e, rt_state r)
             | Inr (e, ck) \<Rightarrow>
                 (Inr \<lparr>jr_state = ES_PENDING_PAYMENT, jr_checkout = build_checkout_url (ck_payment ck)\<rparr>,
                  create_audit user (e_id e) (rt_state r))))"

definition join_with_approval :: "id \<Rightarrow> course_row \<Rightarrow> time \<Rightarrow> db \<Rightarrow> (exn + join_result) \<times> db" where
  "join_with_approval user c now s =
     (case request_enrollment user (c_id c) ES_PENDING_APPROVAL M_ADMIN_APPROVAL now s of
        Inl e \<Rightarrow> (Inl e, s)
      | Inr (e, t) \<Rightarrow> (Inr \<lparr>jr_state = ES_PENDING_APPROVAL, jr_checkout = None\<rparr>, create_audit user (e_id e) t))"

definition find_published_course :: "id \<Rightarrow> db \<Rightarrow> exn + course_row" where
  "find_published_course course s = bind_r (require_published_course course s) (\<lambda>(c, _). Inr c)"

definition join ::
  "configured_provider \<Rightarrow> db world \<Rightarrow> id \<Rightarrow> user_role \<Rightarrow> id \<Rightarrow> enrollment_method \<Rightarrow> nat \<Rightarrow> time \<Rightarrow> db \<Rightarrow> db
     \<Rightarrow> (exn + join_result) \<times> db" where
  "join cfg w user role course m random now seen s =
     (case bind_r (find_published_course course seen) (\<lambda>c.
           bind_r (assert_course_targeting user role course seen) (\<lambda>_.
           bind_r (require (m \<in> set (c_methods c)) (app_error FORBIDDEN)) (\<lambda>_.
           bind_r (resolve (Some user) None course now seen) (\<lambda>d.
           bind_r (require (ad_state d \<noteq> A_ACTIVE) (app_error ALREADY_ENROLLED)) (\<lambda>_.
           Inr (c, d)))))) of
        Inl e \<Rightarrow> (Inl e, s)
      | Inr (c, d) \<Rightarrow>
          if ad_state d = A_PENDING_APPROVAL \<and> m = M_ADMIN_APPROVAL
          then (Inr \<lparr>jr_state = ES_PENDING_APPROVAL, jr_checkout = None\<rparr>, s)
          else (case m of
                  M_FREE \<Rightarrow> join_free w user c now s
                | M_PAYMENT \<Rightarrow> join_with_payment cfg w user c random now seen s
                | M_ADMIN_APPROVAL \<Rightarrow> join_with_approval user c now s
                | M_CODE \<Rightarrow> (Inl (app_error VALIDATION_ERROR), s)))"

section \<open>Redeeming a card\<close>

definition card_grant :: "code_row \<Rightarrow> id \<Rightarrow> course_row \<Rightarrow> id list option \<Rightarrow> id option \<Rightarrow> access_grant" where
  "card_grant code user c scope part =
     \<lparr>ag_user = user, ag_course = c, ag_method = M_CODE,
      ag_override = Some \<lparr>do_type = k_duration_type code, do_days = k_duration_days code, do_ends = k_access_ends code\<rparr>,
      ag_approver = None, ag_scope = scope, ag_code = Some (k_id code), ag_source = G_CODE, ag_part = part\<rparr>"

text \<open>The part of a part card, the further courses of a teacher card.\<close>

definition grant_card_part :: "code_row \<Rightarrow> code_scope \<Rightarrow> id \<Rightarrow> time \<Rightarrow> unit dbtx" where
  "grant_card_part code scope user now =
     (case k_part code of
        None \<Rightarrow> ret_tx ()
      | Some part \<Rightarrow>
          bind_tx (grant_part_from_code user part (k_id code)
            (case sc_sections scope of None \<Rightarrow> [] | Some secs \<Rightarrow> secs) now) (\<lambda>_. ret_tx ()))"

definition further_courses :: "code_scope \<Rightarrow> id \<Rightarrow> db \<Rightarrow> course_row list" where
  "further_courses scope course s =
     filter (\<lambda>c. c_id c \<in> set (sc_courses scope) \<and> c_id c \<noteq> course \<and> c_deleted_at c = None
       \<and> is_acquirable_course (c_status c)) (courses s)"

definition grant_further :: "code_row \<Rightarrow> id \<Rightarrow> user_role \<Rightarrow> time \<Rightarrow> db \<Rightarrow> course_row \<Rightarrow> unit dbtx" where
  "grant_further code user role now seen c =
     bind_tx (lift_tx (assert_course_targeting user role (c_id c) seen)) (\<lambda>_.
     bind_tx (assert_course_acquirable (c_status c) (c_deleted_at c)) (\<lambda>_.
     bind_tx (grant_access (card_grant code user c None None) now) (\<lambda>_. ret_tx ())))"

definition attach_redemption :: "code_row \<Rightarrow> id \<Rightarrow> id \<Rightarrow> db \<Rightarrow> db" where
  "attach_redemption code user e s =
     s\<lparr>redemptions := upd_where (\<lambda>r. rd_code r = k_id code \<and> rd_user r = user)
         (\<lambda>r. r\<lparr>rd_enrollment := Some e\<rparr>) (redemptions s)\<rparr>"

definition redeem_code_body ::
  "id \<Rightarrow> user_role \<Rightarrow> course_row \<Rightarrow> string \<Rightarrow> time \<Rightarrow> db \<Rightarrow> enrollment_row dbtx" where
  "redeem_code_body user role c raw now seen =
     bind_tx (redeem_in_transaction raw user (c_id c) None now) (\<lambda>(code, scope).
     bind_tx (grant_access (card_grant code user c (sc_sections scope) (k_part code)) now) (\<lambda>e.
     bind_tx (grant_card_part code scope user now) (\<lambda>_.
     bind_tx (get_tx (further_courses scope (c_id c))) (\<lambda>others.
     bind_tx (each_tx (grant_further code user role now seen) others) (\<lambda>_.
     bind_tx (modify_tx (attach_redemption code user (e_id e))) (\<lambda>_.
     bind_tx (modify_tx (audit_with \<lparr>au_actor = Some user, au_action = ''CODE_REDEEM'', au_entity = ''access_code'',
         au_entity_id = k_id code, au_note = []\<rparr>)) (\<lambda>_.
     ret_tx e)))))))"

text \<open>An active student is refused only when nothing is left to buy: their access is to every section.\<close>

definition may_redeem :: "id \<Rightarrow> user_role \<Rightarrow> id \<Rightarrow> time \<Rightarrow> db \<Rightarrow> exn + course_row" where
  "may_redeem user role course now seen =
     bind_r (find_published_course course seen) (\<lambda>c.
     bind_r (assert_course_targeting user role course seen) (\<lambda>_.
     bind_r (require (M_CODE \<in> set (c_methods c)) (app_error FORBIDDEN)) (\<lambda>_.
     bind_r (resolve (Some user) None course now seen) (\<lambda>d.
     bind_r (if ad_state d = A_ACTIVE then allowed_section_ids user course seen else Inr (Some [])) (\<lambda>allowed.
     bind_r (require (allowed \<noteq> None) (app_error ALREADY_ENROLLED)) (\<lambda>_.
     Inr c))))))"

definition redeem_code ::
  "db world \<Rightarrow> id \<Rightarrow> user_role \<Rightarrow> id \<Rightarrow> string \<Rightarrow> time \<Rightarrow> db \<Rightarrow> db \<Rightarrow> (exn + join_result) \<times> db" where
  "redeem_code w user role course raw now seen s =
     (case may_redeem user role course now seen of
        Inl e \<Rightarrow> (Inl e, s)
      | Inr c \<Rightarrow>
          (let r = with_serializable_retry default_options w (redeem_code_body user role c raw now seen) s in
           (bind_r (rt_result r) (\<lambda>e. Inr \<lparr>jr_state = e_state e, jr_checkout = None\<rparr>), rt_state r)))"

section \<open>Administration\<close>

definition assert_administrator :: "user_role \<Rightarrow> exn + unit" where
  "assert_administrator role = require (role = R_ADMIN \<or> role = R_MASTER) (app_error INSUFFICIENT_ROLE)"

definition administrative_grant :: "id \<Rightarrow> course_row \<Rightarrow> int option \<Rightarrow> id \<Rightarrow> access_grant" where
  "administrative_grant user c days actor =
     \<lparr>ag_user = user, ag_course = c, ag_method = M_ADMIN_APPROVAL,
      ag_override = (case days of
          None \<Rightarrow> None
        | Some d \<Rightarrow> if d = 0 then None else Some \<lparr>do_type = Some FIXED_DAYS, do_days = Some d, do_ends = None\<rparr>),
      ag_approver = Some actor, ag_scope = None, ag_code = None, ag_source = G_CODE, ag_part = None\<rparr>"

definition enrollment_note :: "id \<Rightarrow> string \<Rightarrow> id \<Rightarrow> string \<Rightarrow> db \<Rightarrow> db" where
  "enrollment_note actor action e note =
     audit_with \<lparr>au_actor = Some actor, au_action = action, au_entity = ''enrollment'', au_entity_id = e, au_note = note\<rparr>"

definition grant_by_admin ::
  "db world \<Rightarrow> id \<Rightarrow> user_role \<Rightarrow> id \<Rightarrow> id \<Rightarrow> int option \<Rightarrow> string \<Rightarrow> time \<Rightarrow> db \<Rightarrow> db
     \<Rightarrow> (exn + enrollment_row) \<times> db" where
  "grant_by_admin w actor role user course days note now seen s =
     (case bind_r (assert_administrator role) (\<lambda>_.
           bind_r (assert_can_manage_course actor role course CAP_STUDENTS seen) (\<lambda>_.
           case find_course course seen of None \<Rightarrow> Inl not_found | Some c \<Rightarrow> Inr c)) of
        Inl e \<Rightarrow> (Inl e, s)
      | Inr c \<Rightarrow>
          (let r = with_serializable_retry default_options w (grant_access (administrative_grant user c days actor) now) s in
           case rt_result r of
             Inl e \<Rightarrow> (Inl e, rt_state r)
           | Inr e \<Rightarrow> (Inr e, enrollment_note actor ''ACCESS_GRANT'' (e_id e) note (rt_state r))))"

text \<open>An update of one enrollment by its identifier, with the error for a row deleted meanwhile.\<close>

definition update_enrollment :: "id \<Rightarrow> (enrollment_row \<Rightarrow> enrollment_row) \<Rightarrow> enrollment_row dbtx" where
  "update_enrollment i f =
     bind_tx (get_tx (\<lambda>s. find_by e_id i (enrollments s))) (\<lambda>found.
     bind_tx (the_or (PrismaKnown ''P2025'' []) found) (\<lambda>e.
     bind_tx (modify_tx (\<lambda>s. s\<lparr>enrollments := upd_where (\<lambda>x. e_id x = i) f (enrollments s)\<rparr>)) (\<lambda>_.
     ret_tx (f e))))"

definition rejected_row :: "id \<Rightarrow> string \<Rightarrow> time \<Rightarrow> enrollment_row \<Rightarrow> enrollment_row" where
  "rejected_row actor reason now e =
     e\<lparr>e_state := ES_REVOKED, e_revoked_at := Some now, e_revoked_by := Some actor, e_revoked_reason := Some reason\<rparr>"

definition reject_request ::
  "id \<Rightarrow> user_role \<Rightarrow> id \<Rightarrow> string \<Rightarrow> time \<Rightarrow> db \<Rightarrow> db \<Rightarrow> (exn + enrollment_row) \<times> db" where
  "reject_request actor role i reason now seen s =
     (case bind_r (case find_by e_id i (enrollments seen) of None \<Rightarrow> Inl not_found | Some e \<Rightarrow> Inr e) (\<lambda>e.
           bind_r (assert_can_manage_course actor role (e_course e) CAP_STUDENTS seen) (\<lambda>_.
           require (e_state e = ES_PENDING_APPROVAL) (app_error INVALID_STATE))) of
        Inl x \<Rightarrow> (Inl x, s)
      | Inr _ \<Rightarrow>
          (case update_enrollment i (rejected_row actor reason now) s of
             Inl x \<Rightarrow> (Inl x, s)
           | Inr (e, t) \<Rightarrow> (Inr e, enrollment_note actor ''ACCESS_REVOKE'' i reason t)))"

definition revoke ::
  "db world \<Rightarrow> id \<Rightarrow> user_role \<Rightarrow> id \<Rightarrow> string \<Rightarrow> id option \<Rightarrow> time \<Rightarrow> db \<Rightarrow> (exn + revocation_outcome) \<times> db" where
  "revoke w actor role i reason expected now s =
     (if role \<noteq> R_MASTER \<and> role \<noteq> R_ADMIN then (Inl (app_error INSUFFICIENT_ROLE), s)
      else
        (let r = with_serializable_retry default_options w
               (revoke_enrollment i actor reason expected ''Enrollment revoked'' now) s in
         (rt_result r, rt_state r)))"

definition day_ms :: int where
  "day_ms = 86400000"

definition extended_row :: "time \<Rightarrow> enrollment_row \<Rightarrow> enrollment_row" where
  "extended_row ends e = e\<lparr>e_ends := Some ends, e_state := ES_ACTIVE, e_revoked_at := None, e_revoked_reason := None\<rparr>"

definition extension_base :: "enrollment_row \<Rightarrow> time \<Rightarrow> time" where
  "extension_base e now = (case e_ends e of None \<Rightarrow> now | Some x \<Rightarrow> if now < x then x else now)"

definition extend_access ::
  "id \<Rightarrow> user_role \<Rightarrow> id \<Rightarrow> int \<Rightarrow> string \<Rightarrow> time \<Rightarrow> db \<Rightarrow> db \<Rightarrow> (exn + enrollment_row) \<times> db" where
  "extend_access actor role i days note now seen s =
     (case bind_r (assert_administrator role) (\<lambda>_.
           bind_r (case find_by e_id i (enrollments seen) of None \<Rightarrow> Inl not_found | Some e \<Rightarrow> Inr e) (\<lambda>e.
           bind_r (assert_can_manage_course actor role (e_course e) CAP_STUDENTS seen) (\<lambda>_.
           Inr e))) of
        Inl x \<Rightarrow> (Inl x, s)
      | Inr e \<Rightarrow>
          (case update_enrollment i (extended_row (extension_base e now + days * day_ms)) s of
             Inl x \<Rightarrow> (Inl x, s)
           | Inr (y, t) \<Rightarrow> (Inr y, enrollment_note actor ''ENROLLMENT_UPDATE'' i note t)))"

definition lapsed_enrollment :: "time \<Rightarrow> enrollment_row \<Rightarrow> bool" where
  "lapsed_enrollment now e \<longleftrightarrow> e_state e = ES_ACTIVE \<and> (case e_ends e of None \<Rightarrow> False | Some x \<Rightarrow> x \<le> now)"

definition expire_lapsed_enrollments :: "time \<Rightarrow> db \<Rightarrow> nat \<times> db" where
  "expire_lapsed_enrollments now s =
     (count_where (lapsed_enrollment now) (enrollments s),
      s\<lparr>enrollments := upd_where (lapsed_enrollment now) (\<lambda>e. e\<lparr>e_state := ES_EXPIRED\<rparr>) (enrollments s)\<rparr>)"

section \<open>What a grant does\<close>

definition enrollment_key :: "enrollment_row \<Rightarrow> id \<times> id" where
  "enrollment_key e = (e_user e, e_course e)"

lemma find_enrollment_by: "find_enrollment user course s = find_by enrollment_key (user, course) (enrollments s)"
  by (simp add: find_enrollment_def find_by_def enrollment_key_def)

lemma find_enrollment_Some: "find_enrollment user course s = Some e \<Longrightarrow> e \<in> set (enrollments s) \<and> e_user e = user \<and> e_course e = course"
  by (auto simp: find_enrollment_def dest: find_Some)

interpretation regranted: keyed_update enrollment_key "granted_again g now ends covers"
  by unfold_locales (simp add: granted_again_def enrollment_key_def)

interpretation regranted_id: keyed_update e_id "granted_again g now ends covers"
  by unfold_locales (simp add: granted_again_def)

interpretation requested: keyed_update enrollment_key "requested_again st m"
  by unfold_locales (simp add: requested_again_def enrollment_key_def)

lemma upsert_enrollment_Inr:
  assumes "upsert_enrollment user course create update s = Inr (e, t)"
  obtains (updated) x where "find_enrollment user course s = Some x" "e = update x"
      "t = s\<lparr>enrollments := upd_where (\<lambda>x. enrollment_key x = (user, course)) update (enrollments s)\<rparr>"
  | (created) "find_enrollment user course s = None" "e = create (db_next s)"
      "t = s\<lparr>db_next := Suc (db_next s), enrollments := enrollments s @ [create (db_next s)]\<rparr>"
  using assms by (cases "find_enrollment user course s") (auto simp: upsert_enrollment_def enrollment_key_def)

lemma upsert_enrollment_total: "\<exists>e t. upsert_enrollment user course create update s = Inr (e, t)"
  by (cases "find_enrollment user course s") (auto simp: upsert_enrollment_def)

text \<open>The section grants a scope adds.\<close>

definition grant_key :: "grant_row \<Rightarrow> id \<times> id" where
  "grant_key g = (g_enrollment g, g_section g)"

lemma insert_grants_step:
  "insert_grants (r # rows) gs = insert_grants rows (if grant_key r \<in> grant_key ` set gs then gs else gs @ [r])"
  by (auto simp: grant_key_def image_iff)

lemma insert_grants_keys: "grant_key ` set (insert_grants rows gs) = grant_key ` (set rows \<union> set gs)"
proof (induction rows arbitrary: gs)
  case (Cons r rows)
  show ?case
    by (cases "grant_key r \<in> grant_key ` set gs") (simp_all only: insert_grants_step Cons.IH if_True if_False, auto)
qed simp

lemma insert_grants_set: "set (insert_grants rows gs) \<subseteq> set rows \<union> set gs" "set gs \<subseteq> set (insert_grants rows gs)"
proof (induction rows arbitrary: gs)
  case (Cons r rows)
  case 1 show ?case unfolding insert_grants_step using Cons.IH(1) [of gs] Cons.IH(1) [of "gs @ [r]"] by auto
  case 2 show ?case unfolding insert_grants_step using Cons.IH(2) [of gs] Cons.IH(2) [of "gs @ [r]"] by auto
qed simp_all

lemma insert_grants_unique: "unique_on grant_key gs \<Longrightarrow> unique_on grant_key (insert_grants rows gs)"
proof (induction rows arbitrary: gs)
  case (Cons r rows)
  then show ?case by (simp only: insert_grants_step split: if_splits) (simp add: unique_on_append1)
qed simp

definition scope_grants :: "access_grant \<Rightarrow> id \<Rightarrow> grant_row list" where
  "scope_grants g e = map (section_grant g e) (case ag_scope g of None \<Rightarrow> [] | Some secs \<Rightarrow> secs)"

text \<open>A grant writes one enrollment, its section grants and the student count, and nothing else.\<close>

lemma grant_access_Inr:
  assumes "grant_access g now s = Inr (e, t)"
  obtains es n where
    "t = s\<lparr>db_next := n, enrollments := es, grants := insert_grants (scope_grants g (e_id e)) (grants s),
       courses := upd_where (\<lambda>c. c_id c = c_id (ag_course g))
         (\<lambda>c. c\<lparr>c_student_count := active_students (c_id (ag_course g)) (s\<lparr>enrollments := es\<rparr>)\<rparr>) (courses s)\<rparr>"
    "\<exists>c \<in> set (courses s). c_id c = c_id (ag_course g)"
    "case find_enrollment (ag_user g) (c_id (ag_course g)) s of
       Some x \<Rightarrow> n = db_next s \<and> e = granted_again g now (access_end_for (ag_course g) (ag_override g) now)
           (ag_scope g = None \<or> holds_live_whole_course now (Some x)) x
         \<and> es = upd_where (\<lambda>x. enrollment_key x = (ag_user g, c_id (ag_course g)))
              (granted_again g now (access_end_for (ag_course g) (ag_override g) now)
                (ag_scope g = None \<or> holds_live_whole_course now (Some x))) (enrollments s)
     | None \<Rightarrow> n = Suc (db_next s) \<and> e = new_enrollment (db_next s) g now
           (access_end_for (ag_course g) (ag_override g) now) (ag_scope g = None)
         \<and> es = enrollments s @ [e]"
proof -
  let ?u = "ag_user g" and ?c = "c_id (ag_course g)" and ?ends = "access_end_for (ag_course g) (ag_override g) now"
  let ?cov = "ag_scope g = None \<or> holds_live_whole_course now (find_enrollment ?u ?c s)"
  from assms obtain v where
    v: "upsert_enrollment ?u ?c (\<lambda>i. new_enrollment i g now ?ends ?cov) (granted_again g now ?ends ?cov) s = Inr (e, v)"
    and r: "recount_students ?c (v\<lparr>grants := insert_grants (scope_grants g (e_id e)) (grants v)\<rparr>) = Inr ((), t)"
    unfolding grant_access_def Let_def by (auto simp: result_simps scope_grants_def)
  from r have k: "\<exists>c \<in> set (courses v). c_id c = ?c" and t: "t = v\<lparr>grants := insert_grants (scope_grants g (e_id e)) (grants v),
      courses := upd_where (\<lambda>c. c_id c = ?c) (\<lambda>c. c\<lparr>c_student_count := active_students ?c v\<rparr>) (courses v)\<rparr>"
    by (auto simp: recount_students_Inr_iff active_students_def)
  from v show ?thesis
  proof (cases rule: upsert_enrollment_Inr)
    case (updated x)
    show ?thesis
      by (rule that [of "enrollments v" "db_next s"]) (use updated k t in \<open>simp_all add: active_students_def\<close>)
  next
    case created
    show ?thesis
      by (rule that [of "enrollments v" "Suc (db_next s)"])
        (use created k t in \<open>simp_all add: active_students_def holds_live_whole_course_def\<close>)
  qed
qed

lemma grant_access_row:
  assumes "grant_access g now s = Inr (e, t)"
  shows "find_enrollment (ag_user g) (c_id (ag_course g)) t = Some e"
    and "e_state e = ES_ACTIVE" "e_starts e = now" "e_method e = ag_method g"
    and "e_ends e = access_end_for (ag_course g) (ag_override g) now"
    and "e_covers_all e \<longleftrightarrow> ag_scope g = None \<or> holds_live_whole_course now (find_enrollment (ag_user g) (c_id (ag_course g)) s)"
    and "(u, c) \<noteq> (ag_user g, c_id (ag_course g)) \<Longrightarrow> find_enrollment u c t = find_enrollment u c s"
proof -
  from assms obtain es n where r: "enrollments t = es"
    "case find_enrollment (ag_user g) (c_id (ag_course g)) s of
       Some x \<Rightarrow> n = db_next s \<and> e = granted_again g now (access_end_for (ag_course g) (ag_override g) now)
           (ag_scope g = None \<or> holds_live_whole_course now (Some x)) x
         \<and> es = upd_where (\<lambda>x. enrollment_key x = (ag_user g, c_id (ag_course g)))
              (granted_again g now (access_end_for (ag_course g) (ag_override g) now)
                (ag_scope g = None \<or> holds_live_whole_course now (Some x))) (enrollments s)
     | None \<Rightarrow> n = Suc (db_next s) \<and> e = new_enrollment (db_next s) g now
           (access_end_for (ag_course g) (ag_override g) now) (ag_scope g = None)
         \<and> es = enrollments s @ [e]"
    by (rule grant_access_Inr) simp
  have key: "find_by enrollment_key k xs = Some x \<Longrightarrow> enrollment_key x = k" for k x xs
    using find_by_Some by fast
  show "find_enrollment (ag_user g) (c_id (ag_course g)) t = Some e"
    using r by (auto simp: find_enrollment_by regranted.find_upd table_simps new_enrollment_def
        enrollment_key_def dest!: key split: option.splits)
  show "e_state e = ES_ACTIVE" "e_starts e = now" "e_method e = ag_method g"
    "e_ends e = access_end_for (ag_course g) (ag_override g) now"
    "e_covers_all e \<longleftrightarrow> ag_scope g = None \<or> holds_live_whole_course now (find_enrollment (ag_user g) (c_id (ag_course g)) s)"
    using r(2) by (auto simp: new_enrollment_def granted_again_def holds_live_whole_course_def split: option.splits)
  assume "(u, c) \<noteq> (ag_user g, c_id (ag_course g))"
  then have "find_by enrollment_key (u, c) (upd_where (\<lambda>x. enrollment_key x = (ag_user g, c_id (ag_course g)))
      (granted_again g now a b) xs) = find_by enrollment_key (u, c) xs" for a b xs
    by (intro find_by_upd_other) (auto simp: regranted.key_kept)
  moreover have "enrollment_key (new_enrollment i g now a b) = (ag_user g, c_id (ag_course g))" for i a b
    by (simp add: new_enrollment_def enrollment_key_def)
  ultimately show "find_enrollment u c t = find_enrollment u c s"
    using r \<open>(u, c) \<noteq> _\<close> by (auto simp: find_enrollment_by table_simps split: option.splits)
qed

lemma grant_access_total:
  "(\<exists>e t. grant_access g now s = Inr (e, t)) \<longleftrightarrow> (\<exists>c \<in> set (courses s). c_id c = c_id (ag_course g))"
proof
  assume "\<exists>c \<in> set (courses s). c_id c = c_id (ag_course g)"
  moreover obtain e t where "upsert_enrollment (ag_user g) (c_id (ag_course g))
      (\<lambda>i. new_enrollment i g now (access_end_for (ag_course g) (ag_override g) now)
        (ag_scope g = None \<or> holds_live_whole_course now (find_enrollment (ag_user g) (c_id (ag_course g)) s)))
      (granted_again g now (access_end_for (ag_course g) (ag_override g) now)
        (ag_scope g = None \<or> holds_live_whole_course now (find_enrollment (ag_user g) (c_id (ag_course g)) s))) s = Inr (e, t)"
    using upsert_enrollment_total by blast
  moreover from this have "courses t = courses s" by (rule upsert_enrollment_Inr) simp_all
  moreover have "find_by c_id (c_id (ag_course g)) (courses s) \<noteq> None"
    using calculation(1) by (simp only: find_by_None_iff) simp
  ultimately show "\<exists>e t. grant_access g now s = Inr (e, t)"
    unfolding grant_access_def Let_def by (auto simp: bind_tx_step recount_students_def result_simps)
next
  assume "\<exists>e t. grant_access g now s = Inr (e, t)"
  then show "\<exists>c \<in> set (courses s). c_id c = c_id (ag_course g)" by (metis grant_access_Inr)
qed

section \<open>Redeeming grants what the card says\<close>

definition open_enrollment :: "time \<Rightarrow> id \<Rightarrow> id \<Rightarrow> db \<Rightarrow> bool" where
  "open_enrollment now user course s =
     (\<exists>e. find_enrollment user course s = Some e \<and> e_state e = ES_ACTIVE \<and> e_starts e = now \<and> e_covers_all e)"

lemma grant_further_Inr:
  assumes "grant_further code user role now seen c s = Inr (u, t)"
  obtains es n cs where "t = s\<lparr>db_next := n, enrollments := es, courses := cs\<rparr>" "map c_id cs = map c_id (courses s)"
    "assert_course_targeting user role (c_id c) seen = Inr ()" "open_enrollment now user (c_id c) t"
    "\<And>v d. (v, d) \<noteq> (user, c_id c) \<Longrightarrow> find_enrollment v d t = find_enrollment v d s"
proof -
  let ?g = "card_grant code user c None None"
  from assms obtain e where tg: "assert_course_targeting user role (c_id c) seen = Inr ()"
    and g: "grant_access ?g now s = Inr (e, t)"
    by (auto simp: grant_further_def result_simps)
  have none: "scope_grants ?g (e_id e) = []" by (simp add: scope_grants_def card_grant_def)
  have key: "ag_user ?g = user" "c_id (ag_course ?g) = c_id c" "ag_scope ?g = None" by (simp_all add: card_grant_def)
  note row = grant_access_row [OF g, unfolded key]
  from g obtain es n where t: "t = s\<lparr>db_next := n, enrollments := es, grants := grants s,
       courses := upd_where (\<lambda>d. c_id d = c_id c) (\<lambda>d. d\<lparr>c_student_count := active_students (c_id c) (s\<lparr>enrollments := es\<rparr>)\<rparr>) (courses s)\<rparr>"
    by (rule grant_access_Inr) (simp add: none key)
  show ?thesis
  proof (rule that)
    show "t = s\<lparr>db_next := n, enrollments := es, courses := courses t\<rparr>" by (simp add: t)
    show "map c_id (courses t) = map c_id (courses s)" by (simp add: t upd_where_def)
    show "open_enrollment now user (c_id c) t" using row(1-3,6) by (auto simp: open_enrollment_def)
  qed (use tg row(7) in auto)
qed

lemma grant_furthers_Inr:
  assumes "each_tx (grant_further code user role now seen) cs s = Inr (u, t)"
  shows "(\<exists>n es ks. t = s\<lparr>db_next := n, enrollments := es, courses := ks\<rparr>)
    \<and> (\<forall>c \<in> set cs. assert_course_targeting user role (c_id c) seen = Inr () \<and> open_enrollment now user (c_id c) t)
    \<and> (\<forall>v d. \<not> (v = user \<and> d \<in> c_id ` set cs) \<longrightarrow> find_enrollment v d t = find_enrollment v d s)"
  using assms
proof (induction cs arbitrary: s)
  case Nil
  then show ?case by (auto intro!: exI [of _ "db_next s"] exI [of _ "enrollments s"] exI [of _ "courses s"])
next
  case (Cons c cs)
  from Cons.prems obtain s' where s': "grant_further code user role now seen c s = Inr ((), s')"
    "each_tx (grant_further code user role now seen) cs s' = Inr (u, t)"
    by (auto simp: result_simps)
  note IH = Cons.IH [OF s'(2)]
  from s'(1) show ?case
  proof (rule grant_further_Inr)
    fix n es ks
    assume a: "s' = s\<lparr>db_next := n, enrollments := es, courses := ks\<rparr>"
      "assert_course_targeting user role (c_id c) seen = Inr ()" "open_enrollment now user (c_id c) s'"
      "\<And>v d. (v, d) \<noteq> (user, c_id c) \<Longrightarrow> find_enrollment v d s' = find_enrollment v d s"
    have "open_enrollment now user (c_id c) t"
    proof (cases "c_id c \<in> c_id ` set cs")
      case True then show ?thesis using IH by auto
    next
      case False
      then have "find_enrollment user (c_id c) t = find_enrollment user (c_id c) s'" using IH by blast
      then show ?thesis using a(3) by (simp add: open_enrollment_def)
    qed
    moreover have "\<exists>n es ks. t = s\<lparr>db_next := n, enrollments := es, courses := ks\<rparr>"
      using IH a(1) by auto
    ultimately show ?case using IH a(2,4) by auto
  qed
qed

lemma grant_card_part_frame:
  assumes "grant_card_part code scope user now s = Inr (u, t)"
  obtains pp es n where "t = s\<lparr>part_purchases := pp, entitlements := es, db_next := n\<rparr>"
proof (cases "k_part code")
  case None
  with assms show ?thesis
    by (intro that [where pp = "part_purchases s" and es = "entitlements s" and n = "db_next s"])
      (simp add: grant_card_part_def)
next
  case (Some i)
  with assms obtain r where "grant_part_from_code user i (k_id code)
      (case sc_sections scope of None \<Rightarrow> [] | Some secs \<Rightarrow> secs) now s = Inr (r, t)"
    by (auto simp: grant_card_part_def result_simps)
  then show ?thesis by (rule grant_part_frame) (rule that)
qed

text \<open>The body of a redemption, one stage after the other.\<close>

lemma redeem_code_body_Inr:
  assumes "redeem_code_body user role c raw now seen s = Inr (e, t)"
  obtains code scope s1 s2 s3 s4 where
    "redeem_in_transaction raw user (c_id c) None now s = Inr ((code, scope), s1)"
    "grant_access (card_grant code user c (sc_sections scope) (k_part code)) now s1 = Inr (e, s2)"
    "grant_card_part code scope user now s2 = Inr ((), s3)"
    "each_tx (grant_further code user role now seen) (further_courses scope (c_id c) s3) s3 = Inr ((), s4)"
    "t = audit_with \<lparr>au_actor = Some user, au_action = ''CODE_REDEEM'', au_entity = ''access_code'',
         au_entity_id = k_id code, au_note = []\<rparr> (attach_redemption code user (e_id e) s4)"
  using assms unfolding redeem_code_body_def by (auto simp: result_simps split: prod.splits)

lemma find_enrollment_frame: "enrollments t = enrollments s \<Longrightarrow> find_enrollment user course t = find_enrollment user course s"
  by (simp add: find_enrollment_def)

lemma further_courses_kept:
  assumes "\<And>c. c_id (f c) = c_id c" "courses s' = upd_where (\<lambda>c. c_id c = course) f (courses s)"
  shows "further_courses scope course s' = further_courses scope course s"
proof -
  have "filter (\<lambda>c. P c \<and> c_id c \<noteq> course \<and> Q c) (upd_where (\<lambda>c. c_id c = course) f cs)
      = filter (\<lambda>c. P c \<and> c_id c \<noteq> course \<and> Q c) cs" for P Q cs
    by (induction cs) (auto simp: upd_where_Cons assms(1))
  then show ?thesis by (simp add: further_courses_def assms(2))
qed

lemma attached_redemptions:
  assumes "find_redemption (k_id code) user s = None"
  shows "upd_where (\<lambda>r. rd_code r = k_id code \<and> rd_user r = user) (\<lambda>r. r\<lparr>rd_enrollment := Some e\<rparr>)
      (redemptions s @ [access_redemption code user course None now])
    = redemptions s @ [access_redemption code user course (Some e) now]"
  using assms
  by (auto simp: upd_where_append upd_where_Cons access_redemption_def find_redemption_def find_None_iff intro!: upd_where_none)

text \<open>A redeemed card grants what is written on it, to that student, and nothing else. The card was
  usable and covers the course; the student's enrollment is active from now on and covers the whole
  course exactly when the card does or the student held it already; every section of the card is
  granted; each further course of a teacher card that is open to new students and offered to this one is
  open to them; every other enrollment is as it was; the redemption is recorded once and names the
  enrollment; and no wallet, payment or revenue line moves.\<close>

theorem redemption_grants_access:
  assumes "redeem_code_body user role c raw now seen s = Inr (e, t)"
  shows "\<exists>code scope. find_by k_text (normalize_code raw) (codes s) = Some code
    \<and> k_kind code \<noteq> K_RECHARGE \<and> not_lapsed now code \<and> k_count code < k_max code
    \<and> resolve_redemption_scope code (c_id c) = Inr scope
    \<and> find_enrollment user (c_id c) t = Some e \<and> e_state e = ES_ACTIVE
    \<and> (e_covers_all e \<longleftrightarrow> sc_sections scope = None \<or> holds_live_whole_course now (find_enrollment user (c_id c) s))
    \<and> (\<forall>secs. sc_sections scope = Some secs \<longrightarrow>
         (\<forall>sec \<in> set secs. \<exists>g \<in> set (grants t). g_enrollment g = e_id e \<and> g_section g = sec))
    \<and> (\<forall>d \<in> set (further_courses scope (c_id c) s).
         assert_course_targeting user role (c_id d) seen = Inr () \<and> open_enrollment now user (c_id d) t)
    \<and> (\<forall>v d. \<not> (v = user \<and> (d = c_id c \<or> d \<in> c_id ` set (further_courses scope (c_id c) s))) \<longrightarrow>
         find_enrollment v d t = find_enrollment v d s)
    \<and> redemptions t = redemptions s @ [access_redemption code user (c_id c) (Some (e_id e)) now]
    \<and> wallets t = wallets s \<and> wallet_txs t = wallet_txs s \<and> payments t = payments s \<and> revenue t = revenue s"
  using assms
proof (rule redeem_code_body_Inr)
  fix code :: code_row and scope :: code_scope and s1 s2 s3 s4
  let ?g = "card_grant code user c (sc_sections scope) (k_part code)"
  assume r: "redeem_in_transaction raw user (c_id c) None now s = Inr ((code, scope), s1)"
    and g: "grant_access ?g now s1 = Inr (e, s2)"
    and p: "grant_card_part code scope user now s2 = Inr ((), s3)"
    and f: "each_tx (grant_further code user role now seen) (further_courses scope (c_id c) s3) s3 = Inr ((), s4)"
    and t: "t = audit_with \<lparr>au_actor = Some user, au_action = ''CODE_REDEEM'', au_entity = ''access_code'',
         au_entity_id = k_id code, au_note = []\<rparr> (attach_redemption code user (e_id e) s4)"
  note r = r [unfolded redeem_in_transaction_Inr_iff]
  have key: "ag_user ?g = user" "c_id (ag_course ?g) = c_id c" "ag_scope ?g = sc_sections scope"
    by (simp_all add: card_grant_def)
  note row = grant_access_row [OF g, unfolded key]
  have s1: "find_enrollment v d s1 = find_enrollment v d s" for v d
    by (rule find_enrollment_frame) (use r in simp)
  from g obtain n es where s2: "s2 = s1\<lparr>db_next := n, enrollments := es, grants := insert_grants (scope_grants ?g (e_id e)) (grants s1),
       courses := upd_where (\<lambda>d. c_id d = c_id c) (\<lambda>d. d\<lparr>c_student_count := active_students (c_id c) (s1\<lparr>enrollments := es\<rparr>)\<rparr>) (courses s1)\<rparr>"
    by (rule grant_access_Inr) (simp add: key)
  from p obtain pp en n3 where s3: "s3 = s2\<lparr>part_purchases := pp, entitlements := en, db_next := n3\<rparr>"
    by (rule grant_card_part_frame)
  have others: "further_courses scope (c_id c) s3 = further_courses scope (c_id c) s"
    by (rule further_courses_kept) (use r in \<open>simp_all add: s3 s2\<close>)
  note f = grant_furthers_Inr [OF f, unfolded others]
  from f obtain n4 es4 ks where s4: "s4 = s3\<lparr>db_next := n4, enrollments := es4, courses := ks\<rparr>" by blast
  have t4: "find_enrollment v d t = find_enrollment v d s4" for v d
    by (rule find_enrollment_frame) (simp add: t audit_with_def attach_redemption_def)
  have s3e: "find_enrollment v d s3 = find_enrollment v d s2" for v d
    by (rule find_enrollment_frame) (simp add: s3)
  have not_further: "c_id c \<notin> c_id ` set (further_courses scope (c_id c) s)" by (auto simp: further_courses_def)
  have gs: "grants t = insert_grants (scope_grants ?g (e_id e)) (grants s)"
    using r by (simp add: t audit_with_def attach_redemption_def s4 s3 s2)
  have "find_enrollment user (c_id c) t = Some e"
    using f not_further row(1) by (simp add: t4 s3e)
  moreover have "e_covers_all e \<longleftrightarrow> sc_sections scope = None \<or> holds_live_whole_course now (find_enrollment user (c_id c) s)"
    using row(6) by (simp add: s1)
  moreover have "\<exists>x \<in> set (grants t). g_enrollment x = e_id e \<and> g_section x = sec"
    if "sc_sections scope = Some secs" "sec \<in> set secs" for secs sec
  proof -
    have "section_grant ?g (e_id e) sec \<in> set (scope_grants ?g (e_id e))" using that by (auto simp: scope_grants_def card_grant_def)
    then have "grant_key (section_grant ?g (e_id e) sec) \<in> grant_key ` set (grants t)"
      unfolding gs insert_grants_keys by blast
    then show ?thesis by (auto simp: grant_key_def section_grant_def)
  qed
  moreover have "\<forall>d \<in> set (further_courses scope (c_id c) s).
      assert_course_targeting user role (c_id d) seen = Inr () \<and> open_enrollment now user (c_id d) t"
    using f by (simp add: open_enrollment_def t4)
  moreover have "find_enrollment v d t = find_enrollment v d s"
    if "\<not> (v = user \<and> (d = c_id c \<or> d \<in> c_id ` set (further_courses scope (c_id c) s)))" for v d
    using f row(7) [of v d] that by (auto simp: t4 s3e s1)
  moreover have "redemptions t = redemptions s @ [access_redemption code user (c_id c) (Some (e_id e)) now]"
    using r attached_redemptions by (simp add: t audit_with_def attach_redemption_def s4 s3 s2)
  moreover have "wallets t = wallets s" "wallet_txs t = wallet_txs s" "payments t = payments s" "revenue t = revenue s"
    using r by (simp_all add: t audit_with_def attach_redemption_def s4 s3 s2)
  ultimately show ?thesis using r row(2) by (intro exI [of _ code] exI [of _ scope]) blast
qed

text \<open>A teacher card for two courses, redeemed by a student of neither.\<close>

definition two_courses_card :: code_row where
  "two_courses_card = part_card\<lparr>k_target := T_TEACHER, k_course := None, k_part := None, k_sections := [],
     k_courses := [11, 12]\<rparr>"

definition bundle_db :: db where
  "bundle_db = empty_db\<lparr>db_next := 90, courses := [campus_course 11 [], campus_course 12 []], codes := [two_courses_card]\<rparr>"

lemma card_redeemed:
  "case redeem_code_body 3 R_STUDENT (campus_course 11 []) ''AAAA-AAAA-AAAA'' 2 bundle_db bundle_db of
     Inl _ \<Rightarrow> False | Inr (e, t) \<Rightarrow> length (redemptions t) = 1"
  by code_simp

theorem redemption_grants_access_witness:
  "\<exists>e t. redeem_code_body 3 R_STUDENT (campus_course 11 []) ''AAAA-AAAA-AAAA'' 2 bundle_db bundle_db = Inr (e, t)
    \<and> find_enrollment 3 11 t = Some e \<and> e_state e = ES_ACTIVE \<and> wallets t = []"
proof -
  obtain e t where r: "redeem_code_body 3 R_STUDENT (campus_course 11 []) ''AAAA-AAAA-AAAA'' 2 bundle_db bundle_db = Inr (e, t)"
    using card_redeemed by (auto split: sum.splits)
  have "c_id (campus_course 11 []) = 11" "wallets bundle_db = []" by (simp_all add: campus_course_def bundle_db_def empty_db_def)
  with redemption_grants_access [OF r] r show ?thesis by auto
qed

section \<open>Coverage only grows\<close>

lemma granted_by_card_mono:
  assumes "set gs \<subseteq> set hs" "redemptions t = redemptions s" "codes t = codes s"
    and "granted_by_whole_course_card user course gs s"
  shows "granted_by_whole_course_card user course hs t"
proof -
  have "set (List.map_filter g_code gs) \<subseteq> set (List.map_filter g_code hs)"
    using assms(1) by (auto simp: List.map_filter_def)
  with assms(2-4) show ?thesis
    by (auto simp: granted_by_whole_course_card_def Let_def count_where_0_iff neq0_conv [symmetric]
        simp del: neq0_conv split: if_splits)
qed

lemma find_upd_where:
  "(\<And>r. p (f r) = p r) \<Longrightarrow> List.find p (upd_where q f rows) = map_option (\<lambda>r. if q r then f r else r) (List.find p rows)"
  by (induction rows) (auto simp: upd_where_Cons)

text \<open>a grant never takes sections away. For a student with a live enrollment, every section open to
  them before any grant - of a card, a part, an administrator or a free course, to them or to anyone
  else - is open to them after it.\<close>

theorem grant_keeps_sections:
  assumes "grant_access g now s = Inr (e, t)"
    and "find_enrollment user course s = Some x" "e_state x = ES_ACTIVE" "\<not> window_lapsed now x"
    and "assert_section_accessible user course sec s = Inr ()"
  shows "assert_section_accessible user course sec t = Inr ()"
proof -
  from assms(1) obtain es n where
    t: "t = s\<lparr>db_next := n, enrollments := es, grants := insert_grants (scope_grants g (e_id e)) (grants s),
       courses := upd_where (\<lambda>c. c_id c = c_id (ag_course g))
         (\<lambda>c. c\<lparr>c_student_count := active_students (c_id (ag_course g)) (s\<lparr>enrollments := es\<rparr>)\<rparr>) (courses s)\<rparr>"
    and e: "case find_enrollment (ag_user g) (c_id (ag_course g)) s of
       Some x \<Rightarrow> n = db_next s \<and> e = granted_again g now (access_end_for (ag_course g) (ag_override g) now)
           (ag_scope g = None \<or> holds_live_whole_course now (Some x)) x
         \<and> es = upd_where (\<lambda>x. enrollment_key x = (ag_user g, c_id (ag_course g)))
              (granted_again g now (access_end_for (ag_course g) (ag_override g) now)
                (ag_scope g = None \<or> holds_live_whole_course now (Some x))) (enrollments s)
     | None \<Rightarrow> n = Suc (db_next s) \<and> e = new_enrollment (db_next s) g now
           (access_end_for (ag_course g) (ag_override g) now) (ag_scope g = None)
         \<and> es = enrollments s @ [e]"
    by (rule grant_access_Inr)
  note row = grant_access_row [OF assms(1)]
  obtain y where y: "find_enrollment user course t = Some y" "e_id y = e_id x" "e_covers_all x \<longrightarrow> e_covers_all y"
  proof (cases "(user, course) = (ag_user g, c_id (ag_course g))")
    case False
    then show ?thesis using row(7) [OF False] assms(2) by (intro that [of x]) simp_all
  next
    case True
    then have "e_id e = e_id x" using e assms(2) by (simp add: granted_again_def)
    moreover have "e_covers_all x \<longrightarrow> e_covers_all e"
      using row(6) True assms(2-4) by (auto simp: holds_live_whole_course_def window_lapsed_def split: option.splits)
    ultimately show ?thesis using row(1) True by (intro that [of e]) simp_all
  qed
  have gs: "set (grants_of x s) \<subseteq> set (grants_of y t)"
    using insert_grants_set(2) [of "grants s" "scope_grants g (e_id e)"] y(2) by (auto simp: grants_of_def t)
  have frame: "redemptions t = redemptions s" "codes t = codes s" "sections t = sections s" "parts t = parts s"
    "entitlements t = entitlements s" "profiles t = profiles s" by (simp_all add: t)
  have owns: "owned_part_sections user course t = owned_part_sections user course s"
    by (simp add: owned_part_sections_def owns_part_def frame cong: option.case_cong)
  have "find_course course t = map_option (\<lambda>c. if c_id c = c_id (ag_course g)
      then c\<lparr>c_student_count := active_students (c_id (ag_course g)) (s\<lparr>enrollments := es\<rparr>)\<rparr> else c) (find_course course s)"
    by (simp add: find_course_def t find_upd_where)
  then have "is_targeted_to_student user course R_STUDENT t = is_targeted_to_student user course R_STUDENT s"
    by (cases "find_course course s")
      (auto simp: is_targeted_to_student_def profile_matches_def frame split: option.splits)
  then show ?thesis
    using assms(2,5) y gs granted_by_card_mono [OF gs frame(1,2)]
    by (auto simp: assert_section_accessible_def allowed_section_ids_def assert_course_targeting_def owns
        result_simps split: if_splits)
qed

text \<open>A student with one section of a course, and the grant of another.\<close>

definition half_db :: db where
  "half_db = campus_db\<lparr>grants := [\<lparr>g_enrollment = 40, g_section = 35, g_source = G_CODE, g_code = None, g_part = None\<rparr>]\<rparr>"

definition next_section :: access_grant where
  "next_section = (simple_grant 3 (campus_course 12 [7]) M_CODE)\<lparr>ag_scope := Some [36]\<rparr>"

lemma half_rows:
  "find_enrollment 3 12 half_db = Some campus_enrollment" "\<not> window_lapsed 5 campus_enrollment"
  "e_state campus_enrollment = ES_ACTIVE" "assert_section_accessible 3 12 35 half_db = Inr ()"
  "\<not> isl (grant_access next_section 5 half_db)"
  by code_simp+

theorem grant_keeps_sections_witness:
  "\<exists>e t. grant_access next_section 5 half_db = Inr (e, t) \<and> assert_section_accessible 3 12 35 t = Inr ()"
proof -
  obtain r where "grant_access next_section 5 half_db = Inr r"
    using half_rows(5) by (cases "grant_access next_section 5 half_db") auto
  then show ?thesis using grant_keeps_sections [OF _ half_rows(1,3,2,4)] by (cases r) blast
qed

text \<open>
  The window is another matter: a teacher card replaces it on its further courses, here lifetime access
  to a whole course by thirty days.
\<close>

definition month_card :: code_row where
  "month_card = two_courses_card\<lparr>k_duration_type := Some FIXED_DAYS, k_duration_days := Some 30\<rparr>"

definition lifetime_holder :: enrollment_row where
  "lifetime_holder = campus_enrollment\<lparr>e_covers_all := True\<rparr>"

lemma further_grant_shortens_access:
  "\<exists>s t e. find_enrollment 3 12 s = Some lifetime_holder \<and> e_ends lifetime_holder = None
    \<and> grant_further month_card 3 R_STUDENT 5 s (campus_course 12 []) s = Inr ((), t)
    \<and> find_enrollment 3 12 t = Some e \<and> e_ends e = Some (5 + 30 * day_ms)"
proof -
  let ?s = "bundle_db\<lparr>enrollments := [lifetime_holder]\<rparr>"
  have "case grant_further month_card 3 R_STUDENT 5 ?s (campus_course 12 []) ?s of
      Inl _ \<Rightarrow> False | Inr (u, t) \<Rightarrow> (case find_enrollment 3 12 t of None \<Rightarrow> False | Some e \<Rightarrow> e_ends e = Some (5 + 30 * day_ms))"
    by code_simp
  then obtain t e where "grant_further month_card 3 R_STUDENT 5 ?s (campus_course 12 []) ?s = Inr ((), t)"
    "find_enrollment 3 12 t = Some e" "e_ends e = Some (5 + 30 * day_ms)"
    by (auto split: sum.splits option.splits)
  moreover have "find_enrollment 3 12 ?s = Some lifetime_holder" "e_ends lifetime_holder = None" by code_simp+
  ultimately show ?thesis by blast
qed

section \<open>The nightly sweep\<close>

definition verdict :: "access_decision \<Rightarrow> access_state \<times> bool \<times> time option \<times> error_code option" where
  "verdict d = (ad_state d, ad_can d, ad_expires d, ad_denial d)"

definition swept :: "time \<Rightarrow> enrollment_row \<Rightarrow> enrollment_row" where
  "swept now e = (if lapsed_enrollment now e then e\<lparr>e_state := ES_EXPIRED\<rparr> else e)"

lemma find_enrollment_swept:
  "find_enrollment user course (snd (expire_lapsed_enrollments now s)) = map_option (swept now) (find_enrollment user course s)"
  by (simp add: find_enrollment_def expire_lapsed_enrollments_def find_upd_where swept_def [abs_def])

lemma decide_swept:
  assumes "now \<le> later"
  shows "verdict (decide status (map_option (swept now) e) later) = verdict (decide status e later)"
  using assms
  by (cases e) (auto simp: verdict_def decide_def decide_stored_def refusal_def swept_def lapsed_enrollment_def
      window_lapsed_def split: option.splits)

text \<open>The nightly sweep is bookkeeping. From the moment it ran on, every access decision - for anyone
  and any course - and every section decision is the one that would have been taken without it.\<close>

theorem sweep_changes_no_decision:
  assumes "now \<le> later"
  shows "bind_r (resolve user role course later (snd (expire_lapsed_enrollments now s))) (\<lambda>d. Inr (verdict d))
      = bind_r (resolve user role course later s) (\<lambda>d. Inr (verdict d))
    \<and> assert_section_accessible student course sec (snd (expire_lapsed_enrollments now s))
      = assert_section_accessible student course sec s"
proof -
  let ?t = "snd (expire_lapsed_enrollments now s)"
  have frame: "find_course course ?t = find_course course s" "assert_course_targeting u r course ?t = assert_course_targeting u r course s"
    "staff_may_view_course user r course ?t = staff_may_view_course user r course s" for u r
    by (simp_all add: expire_lapsed_enrollments_def find_course_def assert_course_targeting_def
        is_targeted_to_student_def staff_may_view_course_def find_assignment_def cong: option.case_cong)
  have "bind_r (resolve user role course later ?t) (\<lambda>d. Inr (verdict d))
      = bind_r (resolve user role course later s) (\<lambda>d. Inr (verdict d))"
    unfolding resolve_def frame find_enrollment_swept
    using decide_swept [OF assms]
    by (auto simp: bind_r_def split: option.splits sum.splits)
  moreover have "assert_section_accessible student course sec ?t = assert_section_accessible student course sec s"
    unfolding assert_section_accessible_def allowed_section_ids_def frame find_enrollment_swept
    by (cases "find_enrollment student course s")
      (auto simp: swept_def grants_of_def owned_part_sections_def owns_part_def granted_by_whole_course_card_def
        expire_lapsed_enrollments_def cong: option.case_cong)
  ultimately show ?thesis by blast
qed

theorem sweep_changes_no_decision_witness:
  "bind_r (resolve (Some 3) None 12 9 (snd (expire_lapsed_enrollments 8 half_db))) (\<lambda>d. Inr (verdict d))
    = Inr (A_ACTIVE, True, None, None)"
proof -
  have "bind_r (resolve (Some 3) None 12 9 half_db) (\<lambda>d. Inr (verdict d)) = Inr (A_ACTIVE, True, None, None)"
    by code_simp
  then show ?thesis using sweep_changes_no_decision [of 8 9 "Some 3" None 12 half_db] by simp
qed

section \<open>Joining opens only free courses\<close>

lemma create_pending_payment_enrollments:
  "create_pending_payment cfg user course e price key random now s = Inr (ck, t) \<Longrightarrow> enrollments t = enrollments s"
  by (auto simp: create_pending_payment_def Let_def result_simps split: list.splits)

lemma request_enrollment_Inr:
  assumes "request_enrollment user course st m now s = Inr (e, t)"
  shows "find_enrollment user course t = Some e" "e_state e = st"
proof -
  have "find_enrollment user course t = Some e \<and> e_state e = st"
    using assms unfolding request_enrollment_def
  proof (rule upsert_enrollment_Inr)
    fix x
    assume x: "find_enrollment user course s = Some x" "e = requested_again st m x"
      "t = s\<lparr>enrollments := upd_where (\<lambda>x. enrollment_key x = (user, course)) (requested_again st m) (enrollments s)\<rparr>"
    then have "enrollment_key x = (user, course)" by (auto simp: find_enrollment_by dest: find_by_Some)
    then show ?thesis using x by (simp add: find_enrollment_by requested.find_upd) (simp add: requested_again_def)
  qed (simp_all add: find_enrollment_by table_simps requested_enrollment_def enrollment_key_def)
  then show "find_enrollment user course t = Some e" "e_state e = st" by simp_all
qed

text \<open>C39: pressing \<open>Join\<close> never opens a paid course. A join answers with an active enrollment only by the free
  method, offered by a course marked free, to which the student is now enrolled; any other answer is
  pending, and the enrollment it wrote opens no content whatever the course's status and the time.\<close>

theorem join_opens_only_free_courses:
  assumes "join cfg w user role course m random now seen s = (Inr r, t)"
  shows "\<exists>c. find_course course seen = Some c \<and> c_status c = CS_PUBLISHED \<and> m \<in> set (c_methods c)
    \<and> assert_course_targeting user role course seen = Inr ()
    \<and> (if m = M_FREE
       then c_is_free c \<and> jr_state r = ES_ACTIVE \<and> (\<exists>e. find_enrollment user (c_id c) t = Some e \<and> e_state e = ES_ACTIVE)
       else jr_state r \<in> {ES_PENDING_PAYMENT, ES_PENDING_APPROVAL}
         \<and> (t = s \<or> (\<forall>status later. \<not> ad_can (decide status (find_enrollment user (c_id c) t) later))))"
proof -
  from assms obtain c and d :: access_decision where c: "find_course course seen = Some c" "c_status c = CS_PUBLISHED" "m \<in> set (c_methods c)"
    "assert_course_targeting user role course seen = Inr ()"
    and r: "(if ad_state d = A_PENDING_APPROVAL \<and> m = M_ADMIN_APPROVAL
          then (Inr \<lparr>jr_state = ES_PENDING_APPROVAL, jr_checkout = None\<rparr>, s)
          else (case m of
                  M_FREE \<Rightarrow> join_free w user c now s
                | M_PAYMENT \<Rightarrow> join_with_payment cfg w user c random now seen s
                | M_ADMIN_APPROVAL \<Rightarrow> join_with_approval user c now s
                | M_CODE \<Rightarrow> (Inl (app_error VALIDATION_ERROR), s))) = (Inr r, t)"
    unfolding join_def
    by (auto simp: result_simps find_published_course_def require_published_course_def split: sum.splits prod.splits)
  have pending: "\<not> ad_can (decide status (find_enrollment u k v) later)"
    if "find_enrollment u k v = Some e" "e_state e \<noteq> ES_ACTIVE" for u k v e status later
    using that by (simp add: decide_can)
  show ?thesis
  proof (cases m)
    case M_FREE
    with r obtain e where free: "c_is_free c" "jr_state r = e_state e"
      and g: "rt_result (with_serializable_retry default_options w (grant_access (simple_grant user c M_FREE) now) s) = Inr e"
      and t: "t = rt_state (with_serializable_retry default_options w (grant_access (simple_grant user c M_FREE) now) s)"
      by (auto simp: join_free_def Let_def result_simps split: if_splits)
    from retry_success [OF g] obtain s' where "grant_access (simple_grant user c M_FREE) now s' = Inr (e, t)"
      unfolding t by blast
    from grant_access_row [OF this] show ?thesis
      using c M_FREE free by (auto simp: simple_grant_def)
  next
    case M_PAYMENT
    with r obtain price e ck where j: "jr_state r = ES_PENDING_PAYMENT"
      and g: "rt_result (with_serializable_retry default_options w (checkout_body cfg user c price random now) s) = Inr (e, ck)"
      and t: "t = create_audit user (e_id e) (rt_state (with_serializable_retry default_options w (checkout_body cfg user c price random now) s))"
      by (auto simp: join_with_payment_def Let_def split: option.splits if_splits sum.splits prod.splits)
    from retry_success [OF g] obtain s' where b: "checkout_body cfg user c price random now s'
        = Inr ((e, ck), rt_state (with_serializable_retry default_options w (checkout_body cfg user c price random now) s))"
      by blast
    then obtain s'' where q: "request_enrollment user (c_id c) ES_PENDING_PAYMENT M_PAYMENT now s' = Inr (e, s'')"
      and p: "create_pending_payment cfg user (c_id c) (e_id e) price None random now s''
        = Inr (ck, rt_state (with_serializable_retry default_options w (checkout_body cfg user c price random now) s))"
      by (auto simp: checkout_body_def result_simps)
    have "find_enrollment user (c_id c) t = find_enrollment user (c_id c) s''"
      using create_pending_payment_enrollments [OF p] by (intro find_enrollment_frame) (simp add: t create_audit_def audit_with_def)
    then show ?thesis using request_enrollment_Inr [OF q] c M_PAYMENT j pending by simp
  next
    case M_ADMIN_APPROVAL
    show ?thesis
    proof (cases "ad_state d = A_PENDING_APPROVAL")
      case True
      with r M_ADMIN_APPROVAL c show ?thesis by auto
    next
      case False
      with r M_ADMIN_APPROVAL obtain e v where j: "jr_state r = ES_PENDING_APPROVAL"
        and q: "request_enrollment user (c_id c) ES_PENDING_APPROVAL M_ADMIN_APPROVAL now s = Inr (e, v)"
        and t: "t = create_audit user (e_id e) v"
        by (auto simp: join_with_approval_def split: sum.splits prod.splits)
      have "find_enrollment user (c_id c) t = find_enrollment user (c_id c) v"
        by (intro find_enrollment_frame) (simp add: t create_audit_def audit_with_def)
      then show ?thesis using request_enrollment_Inr [OF q] c M_ADMIN_APPROVAL j pending by simp
    qed
  qed (use r c in \<open>simp split: if_splits\<close>)
qed

definition quiet_world :: "db world" where
  "quiet_world = \<lparr>w_env = (\<lambda>k s. s), w_conflict = (\<lambda>k. False), w_jitter = (\<lambda>_. 0)\<rparr>"

definition open_course_db :: db where
  "open_course_db = empty_db\<lparr>db_next := 90, courses := [(campus_course 11 [])\<lparr>c_is_free := True\<rparr>]\<rparr>"

theorem join_opens_only_free_courses_witness:
  "\<exists>r t. join CFG_NONE quiet_world 3 R_STUDENT 11 M_FREE 7 5 open_course_db open_course_db = (Inr r, t)
    \<and> jr_state r = ES_ACTIVE"
proof -
  let ?j = "join CFG_NONE quiet_world 3 R_STUDENT 11 M_FREE 7 5 open_course_db open_course_db"
  have "\<not> isl (fst ?j)" by code_simp
  then obtain r where "fst ?j = Inr r" by (cases "fst ?j") auto
  then have r: "?j = (Inr r, snd ?j)" by (simp add: prod_eq_iff)
  from join_opens_only_free_courses [OF r] show ?thesis using r by (intro exI [of _ r] exI [of _ "snd ?j"]) auto
qed

end
