(* ===== verification/Transfers.thy ===== *)
theory Transfers
  imports Enrollments
begin

text \<open>
  Moving a student's access from one course to another together with the academic profile that decides
  eligibility (\<open>EnrollmentsService.transfer\<close>). The checks read the database \<open>seen\<close>; one serializable
  transaction then re-reads the source, grants the destination, revokes the source and moves the profile.
\<close>

section \<open>What a transfer needs\<close>

record transfer_request =
  tr_enrollment :: id
  tr_destination :: id
  tr_part :: "id option"
  tr_department :: "id option"
  tr_year :: "id option"
  tr_reason :: string

text \<open>A course that targets several departments needs a choice, one that targets none allows no choice.\<close>

definition destination_department :: "id list \<Rightarrow> id option \<Rightarrow> exn + id option" where
  "destination_department targeted chosen =
     (if targeted \<noteq> [] then
        (case chosen of
           None \<Rightarrow>
             if length targeted = 1 then Inr (Some (hd targeted))
             else Inl (validation [(''departmentId'', [''is required: the destination course targets several departments''])])
         | Some d \<Rightarrow>
             if d \<in> set targeted then Inr (Some d)
             else Inl (validation [(''departmentId'', [''is not one of the destination course targeted departments''])]))
      else
        (case chosen of
           None \<Rightarrow> Inr None
         | Some _ \<Rightarrow> Inl (validation [(''departmentId'', [''was sent, but the destination course is not filed under any department''])])))"

text \<open>The sections of the named part, whatever their status; \<open>None\<close> is the whole course.\<close>

definition sections_of_part :: "id \<Rightarrow> db \<Rightarrow> id list" where
  "sections_of_part part s =
     map s_id (sort_key s_sort (filter (\<lambda>x. s_part x = Some part \<and> s_deleted_at x = None) (sections s)))"

definition destination_scope :: "course_row \<Rightarrow> enrollment_row \<Rightarrow> id option \<Rightarrow> db \<Rightarrow> exn + id list option" where
  "destination_scope destination source part seen =
     (case part of
        Some i \<Rightarrow>
          (case List.find (\<lambda>p. cpt_id p = i \<and> cpt_course p = c_id destination \<and> cpt_deleted_at p = None) (parts seen) of
             None \<Rightarrow> Inl not_found
           | Some p \<Rightarrow>
               if sections_of_part (cpt_id p) seen = []
               then Inl (validation [(''destinationPartId'', [''has no sections yet, so transferring into it would unlock nothing''])])
               else Inr (Some (sections_of_part (cpt_id p) seen)))
      | None \<Rightarrow>
          if e_covers_all source then Inr None
          else Inl (validation [(''destinationPartId'', [''is required: the source enrollment is scoped to specific sections''])]))"

text \<open>The academic chain of the destination, as the fields it fails on.\<close>

definition chain_problems :: "id \<Rightarrow> id \<Rightarrow> id \<Rightarrow> db \<Rightarrow> (string \<times> string list) list" where
  "chain_problems u f d seen =
     (let university = List.find (\<lambda>x. un_id x = u \<and> un_active x \<and> un_deleted_at x = None) (universities seen);
          faculty = List.find (\<lambda>x. fa_id x = f \<and> fa_active x \<and> fa_deleted_at x = None) (faculties seen);
          department = List.find (\<lambda>x. de_id x = d \<and> de_active x \<and> de_deleted_at x = None) (departments seen);
          fs1 = put_when (university = None) ''universityId'' ''unknown or inactive university'' [];
          fs2 = put_when (faculty = None) ''facultyId'' ''unknown or inactive faculty'' fs1;
          fs3 = put_when (department = None) ''departmentId'' ''unknown or inactive department'' fs2;
          fs4 = put_when (holds_some (\<lambda>x. holds_some (\<lambda>y. fa_university x \<noteq> un_id y) university) faculty)
                  ''facultyId'' ''does not belong to the destination university'' fs3 in
      put_when (holds_some (\<lambda>x. holds_some (\<lambda>y. de_faculty x \<noteq> fa_id y) faculty) department)
        ''departmentId'' ''does not belong to the destination faculty'' fs4)"

definition rung_problems :: "id \<Rightarrow> id option \<Rightarrow> id option \<Rightarrow> db \<Rightarrow> (string \<times> string list) list \<Rightarrow> exn + (string \<times> string list) list" where
  "rung_problems f department year seen fs =
     (case year of
        None \<Rightarrow> Inr (put_field ''academicYearId'' ''is required: the student has no rung and none was sent'' fs)
      | Some y \<Rightarrow>
          bind_r (resolve_structure
              (case department of Some d \<Rightarrow> no_scope\<lparr>sp_of_department := Some d\<rparr>
                                | None \<Rightarrow> no_scope\<lparr>sp_of_faculty := Some f\<rparr>) seen) (\<lambda>found.
          Inr (case found of
                 None \<Rightarrow> put_field ''academicYearId'' ''no academic structure covers the destination college'' fs
               | Some r \<Rightarrow>
                   put_when (\<not> (\<exists>x \<in> set (years seen). ay_id x = y \<and> ay_structure x = sr_id r \<and> ay_active x))
                     ''academicYearId'' ''does not belong to the destination college ladder'' fs)))"

definition destination_academics :: "id \<Rightarrow> id \<Rightarrow> id option \<Rightarrow> id option \<Rightarrow> db \<Rightarrow> exn + unit" where
  "destination_academics u f department year seen =
     bind_r (rung_problems f department year seen
       (case department of None \<Rightarrow> [] | Some d \<Rightarrow> chain_problems u f d seen)) (\<lambda>fs.
     require (fs = []) (validation fs))"

record transfer_plan =
  tp_source :: enrollment_row
  tp_course :: course_row
  tp_university :: id
  tp_faculty :: id
  tp_department :: "id option"
  tp_year :: "id option"
  tp_scope :: "id list option"
  tp_part :: "id option"

definition transfer_ends :: "transfer_request \<Rightarrow> id \<Rightarrow> user_role \<Rightarrow> db \<Rightarrow> exn + (enrollment_row \<times> course_row \<times> id \<times> id \<times> profile_row)" where
  "transfer_ends q actor role seen =
     bind_r (assert_administrator role) (\<lambda>_.
     case find_by e_id (tr_enrollment q) (enrollments seen) of
       None \<Rightarrow> Inl not_found
     | Some source \<Rightarrow>
         bind_r (assert_can_manage_course actor role (e_course source) CAP_STUDENTS seen) (\<lambda>_.
         bind_r (assert_can_manage_course actor role (tr_destination q) CAP_STUDENTS seen) (\<lambda>_.
         bind_r (require (tr_destination q \<noteq> e_course source)
           (validation [(''destinationCourseId'', [''must differ from the current course of the enrollment''])])) (\<lambda>_.
         case find_course (tr_destination q) seen of
           None \<Rightarrow> Inl not_found
         | Some c \<Rightarrow>
             (case (c_university c, c_faculty c) of
                (Some u, Some f) \<Rightarrow>
                  (case find_by sp_user (e_user source) (profiles seen) of
                     None \<Rightarrow> Inl not_found
                   | Some p \<Rightarrow> Inr (source, c, u, f, p))
              | _ \<Rightarrow> Inl (validation [(''destinationCourseId'',
                  [''a transfer needs a destination course filed under a university and faculty''])]))))))"

definition plan_transfer ::
  "transfer_request \<Rightarrow> enrollment_row \<Rightarrow> course_row \<Rightarrow> id \<Rightarrow> id \<Rightarrow> profile_row \<Rightarrow> time \<Rightarrow> db \<Rightarrow> exn + transfer_plan" where
  "plan_transfer q source c u f p now seen =
     bind_r (destination_department (c_departments c) (tr_department q)) (\<lambda>department.
     bind_r (destination_scope c source (tr_part q) seen) (\<lambda>scope.
     let year = (case tr_year q of Some y \<Rightarrow> Some y | None \<Rightarrow> sp_year p) in
     bind_r (destination_academics u f department year seen) (\<lambda>_.
     bind_r (require (scope = None \<or> \<not> holds_live_whole_course now (find_enrollment (e_user source) (c_id c) seen))
       (app_error INVALID_STATE)) (\<lambda>_.
     Inr \<lparr>tp_source = source, tp_course = c, tp_university = u, tp_faculty = f, tp_department = department,
          tp_year = year, tp_scope = scope, tp_part = tr_part q\<rparr>))))"

section \<open>The transaction\<close>

datatype (plugins only: code) part_bookkeeping = PartUntouched | PartCreated | PartReinstated

definition migrate_entitlement :: "id \<Rightarrow> id \<Rightarrow> id option \<Rightarrow> time \<Rightarrow> part_bookkeeping dbtx" where
  "migrate_entitlement user course part now =
     (case part of
        None \<Rightarrow> ret_tx PartUntouched
      | Some i \<Rightarrow>
          bind_tx (get_tx (find_entitlement user i)) (\<lambda>found.
          case found of
            None \<Rightarrow>
              bind_tx fresh_id (\<lambda>n.
              bind_tx (modify_tx (\<lambda>s. s\<lparr>entitlements := entitlements s @
                [\<lparr>pe_id = n, pe_user = user, pe_part = i, pe_course = course, pe_source = PE_MIGRATION,
                  pe_purchase = None, pe_granted = now, pe_revoked_at = None, pe_revoked_by = None,
                  pe_revoked_reason = None\<rparr>]\<rparr>)) (\<lambda>_.
              ret_tx PartCreated))
          | Some x \<Rightarrow>
              if pe_revoked_at x \<noteq> None then
                bind_tx (modify_tx (\<lambda>s. s\<lparr>entitlements := upd_where (\<lambda>y. pe_id y = pe_id x)
                  (\<lambda>y. y\<lparr>pe_revoked_at := None, pe_revoked_by := None, pe_revoked_reason := None\<rparr>) (entitlements s)\<rparr>)) (\<lambda>_.
                ret_tx PartReinstated)
              else ret_tx PartUntouched))"

definition moved_profile :: "transfer_plan \<Rightarrow> profile_row \<Rightarrow> profile_row" where
  "moved_profile p r =
     r\<lparr>sp_university := Some (tp_university p), sp_faculty := Some (tp_faculty p),
       sp_department := tp_department p, sp_year := tp_year p\<rparr>"

definition move_profile :: "transfer_plan \<Rightarrow> unit dbtx" where
  "move_profile p =
     bind_tx (get_tx (\<lambda>s. find_by sp_user (e_user (tp_source p)) (profiles s))) (\<lambda>found.
     bind_tx (the_or (PrismaKnown ''P2025'' []) found) (\<lambda>_.
     modify_tx (\<lambda>s. s\<lparr>profiles := upd_where (\<lambda>r. sp_user r = e_user (tp_source p)) (moved_profile p) (profiles s)\<rparr>)))"

definition transfer_grant :: "transfer_plan \<Rightarrow> id \<Rightarrow> access_grant" where
  "transfer_grant p actor =
     \<lparr>ag_user = e_user (tp_source p), ag_course = tp_course p, ag_method = M_ADMIN_APPROVAL, ag_override = None,
      ag_approver = Some actor, ag_scope = tp_scope p, ag_code = None, ag_source = G_ADMIN, ag_part = tp_part p\<rparr>"

definition transfer_body ::
  "transfer_plan \<Rightarrow> id \<Rightarrow> string \<Rightarrow> time \<Rightarrow> (enrollment_row \<times> revocation_outcome \<times> part_bookkeeping) dbtx" where
  "transfer_body p actor reason now =
     (let source = tp_source p; user = e_user source in
      bind_tx (get_tx (\<lambda>s. find_by e_id (e_id source) (enrollments s))) (\<lambda>current.
      bind_tx (require_tx (holds_some (\<lambda>x. e_state x = ES_ACTIVE) current) (app_error CONFLICT)) (\<lambda>_.
      bind_tx (grant_access (transfer_grant p actor) now) (\<lambda>e.
      bind_tx (migrate_entitlement user (c_id (tp_course p)) (tp_part p) now) (\<lambda>kept.
      bind_tx (revoke_enrollment (e_id source) actor reason (Some (e_course source)) ''Course access transferred'' now) (\<lambda>out.
      bind_tx (require_tx (\<not> rvo_already out) (app_error CONFLICT)) (\<lambda>_.
      bind_tx (move_profile p) (\<lambda>_.
      bind_tx (modify_tx (enrollment_note actor ''ACCESS_GRANT'' (e_id e) reason)) (\<lambda>_.
      bind_tx (modify_tx (audit_with \<lparr>au_actor = Some actor, au_action = ''UPDATE'', au_entity = ''user'',
          au_entity_id = user, au_note = reason\<rparr>)) (\<lambda>_.
      ret_tx (e, out, kept)))))))))))"

datatype transfer_outcome =
    AlreadyTransferred enrollment_row
  | Transferred transfer_plan enrollment_row revocation_outcome part_bookkeeping

text \<open>A repeat of a completed transfer is answered from the current state and changes nothing.\<close>

definition transfer ::
  "db world \<Rightarrow> transfer_request \<Rightarrow> id \<Rightarrow> user_role \<Rightarrow> time \<Rightarrow> db \<Rightarrow> db \<Rightarrow> (exn + transfer_outcome) \<times> db" where
  "transfer w q actor role now seen s =
     (case transfer_ends q actor role seen of
        Inl x \<Rightarrow> (Inl x, s)
      | Inr (source, c, u, f, p) \<Rightarrow>
          if e_state source = ES_REVOKED then
            (case find_enrollment (e_user source) (tr_destination q) seen of
               Some d \<Rightarrow> if e_state d = ES_ACTIVE then (Inr (AlreadyTransferred d), s)
                         else (Inl (app_error INVALID_STATE), s)
             | None \<Rightarrow> (Inl (app_error INVALID_STATE), s))
          else
            (case plan_transfer q source c u f p now seen of
               Inl x \<Rightarrow> (Inl x, s)
             | Inr plan \<Rightarrow>
                 (let r = with_serializable_retry default_options w (transfer_body plan actor (tr_reason q) now) s in
                  (bind_r (rt_result r) (\<lambda>(e, out, kept). Inr (Transferred plan e out kept)), rt_state r))))"

section \<open>What a transfer does\<close>

lemma transfer_body_Inr:
  assumes "transfer_body p actor reason now s = Inr ((e, out, kept), t)"
  obtains x s1 s2 s3 s4 where "find_by e_id (e_id (tp_source p)) (enrollments s) = Some x" "e_state x = ES_ACTIVE"
    "grant_access (transfer_grant p actor) now s = Inr (e, s1)"
    "migrate_entitlement (e_user (tp_source p)) (c_id (tp_course p)) (tp_part p) now s1 = Inr (kept, s2)"
    "revoke_enrollment (e_id (tp_source p)) actor reason (Some (e_course (tp_source p))) ''Course access transferred'' now s2
       = Inr (out, s3)" "\<not> rvo_already out" "move_profile p s3 = Inr ((), s4)"
    "t = audit_with \<lparr>au_actor = Some actor, au_action = ''UPDATE'', au_entity = ''user'',
          au_entity_id = e_user (tp_source p), au_note = reason\<rparr> (enrollment_note actor ''ACCESS_GRANT'' (e_id e) reason s4)"
  using assms unfolding transfer_body_def Let_def by (auto simp: result_simps)

lemma migrate_entitlement_frame:
  assumes "migrate_entitlement user course part now s = Inr (kept, t)"
  obtains es n where "t = s\<lparr>entitlements := es, db_next := n\<rparr>" "db_next s \<le> n"
proof (cases part)
  case None
  with assms show ?thesis
    by (intro that [where es = "entitlements s" and n = "db_next s"]) (simp_all add: migrate_entitlement_def)
next
  case (Some i)
  show ?thesis
    by (rule that [where es = "entitlements t" and n = "db_next t"])
      (use assms Some in \<open>auto simp: migrate_entitlement_def split: option.splits if_splits\<close>)
qed

lemma move_profile_Inr [result_simps]:
  "move_profile p s = Inr (u, t) \<longleftrightarrow> (\<exists>r. find_by sp_user (e_user (tp_source p)) (profiles s) = Some r)
     \<and> t = s\<lparr>profiles := upd_where (\<lambda>r. sp_user r = e_user (tp_source p)) (moved_profile p) (profiles s)\<rparr>"
  by (auto simp: move_profile_def result_simps)

lemma revoke_effects_frame:
  assumes "revoke_effects e actor reason ticket_reason now s = Inr (out, t)"
  shows "profiles t = profiles s" "parts t = parts s" "sections t = sections s"
  using assms unfolding revoke_effects_def
  by (auto simp: result_simps audit_with_def elim!: cancel_pending_Inr)

interpretation revoked_by_key: keyed_update enrollment_key "revoked_row actor reason now"
  by unfold_locales (simp add: revoked_row_def enrollment_key_def)

interpretation profile_moved: keyed_update sp_user "moved_profile p"
  by unfold_locales (simp add: moved_profile_def)

lemma plan_transfer_Inr:
  assumes "plan_transfer q source c u f pr now seen = Inr p"
  shows "tp_source p = source" "tp_course p = c" "tp_university p = u" "tp_faculty p = f"
    and "c_departments c = [] \<or> (\<exists>d \<in> set (c_departments c). tp_department p = Some d)"
  using assms
  by (auto simp: plan_transfer_def destination_department_def result_simps Let_def split: if_splits option.splits)

text \<open>A granted row is never the row of another enrollment.\<close>

lemma granted_id_other:
  assumes "grant_access g now s = Inr (e, t)" "unique_on e_id (enrollments s)" "below e_id (db_next s) (enrollments s)"
    and "x \<in> set (enrollments s)" "enrollment_key x \<noteq> (ag_user g, c_id (ag_course g))"
  shows "e_id e \<noteq> e_id x"
  using assms(1)
proof (rule grant_access_Inr)
  fix es n
  assume e: "case find_enrollment (ag_user g) (c_id (ag_course g)) s of
       Some x \<Rightarrow> n = db_next s \<and> e = granted_again g now (access_end_for (ag_course g) (ag_override g) now)
           (ag_scope g = None \<or> holds_live_whole_course now (Some x)) x
         \<and> es = upd_where (\<lambda>x. enrollment_key x = (ag_user g, c_id (ag_course g)))
              (granted_again g now (access_end_for (ag_course g) (ag_override g) now)
                (ag_scope g = None \<or> holds_live_whole_course now (Some x))) (enrollments s)
     | None \<Rightarrow> n = Suc (db_next s) \<and> e = new_enrollment (db_next s) g now
           (access_end_for (ag_course g) (ag_override g) now) (ag_scope g = None)
         \<and> es = enrollments s @ [e]"
  show ?thesis
  proof (cases "find_enrollment (ag_user g) (c_id (ag_course g)) s")
    case None
    with e assms(3,4) show ?thesis by (auto simp: new_enrollment_def below_def)
  next
    case (Some y)
    then have "y \<in> set (enrollments s)" "enrollment_key y = (ag_user g, c_id (ag_course g))"
      by (auto simp: find_enrollment_by dest: find_by_Some)
    moreover have "e_id e = e_id y" using e Some by (simp add: granted_again_def)
    ultimately show ?thesis using assms(2,4,5) by (auto dest: unique_onD)
  qed
qed

text \<open>C22: a transfer moves access as one fact. When it commits, the student is active on the destination with
  the planned coverage and every planned section; the source enrollment is revoked, keeps no section
  grant and opens nothing any more; the profile is filed under the destination, so the student is
  in the destination's academic group; nobody else's access and no other course of the student
  changes; and no money record - purchase, redemption, wallet entry, revenue line - is written.\<close>

theorem transfer_moves_access:
  assumes "plan_transfer q source c u f pr now seen = Inr p" "transfer_body p actor reason now s = Inr ((e, out, kept), t)"
    and "unique_on e_id (enrollments s)" "unique_on enrollment_key (enrollments s)" "below e_id (db_next s) (enrollments s)"
    and "x \<in> set (enrollments s)" "e_id x = e_id source" "enrollment_key x = enrollment_key source"
    and "e_course source \<noteq> c_id c" "c_university c = Some u" "c_faculty c = Some f"
    and "find_course (c_id c) s = Some d" "c_departments d = c_departments c" "c_university d = Some u" "c_faculty d = Some f"
  shows "find_enrollment (e_user source) (c_id c) t = Some e \<and> e_state e = ES_ACTIVE
    \<and> (e_covers_all e \<longleftrightarrow> tp_scope p = None \<or> holds_live_whole_course now (find_enrollment (e_user source) (c_id c) s))
    \<and> (\<forall>secs. tp_scope p = Some secs \<longrightarrow> (\<forall>sec \<in> set secs. \<exists>g \<in> set (grants t). g_enrollment g = e_id e \<and> g_section g = sec))
    \<and> find_enrollment (e_user source) (e_course source) t = Some (revoked_row actor reason now x)
    \<and> (\<forall>status later. \<not> ad_can (decide status (find_enrollment (e_user source) (e_course source) t) later))
    \<and> (\<forall>g \<in> set (grants t). g_enrollment g \<noteq> e_id source)
    \<and> is_targeted_to_student (e_user source) (c_id c) R_STUDENT t
    \<and> (\<forall>v k. (v, k) \<notin> {(e_user source, c_id c), (e_user source, e_course source)} \<longrightarrow> find_enrollment v k t = find_enrollment v k s)
    \<and> revenue t = revenue s \<and> wallets t = wallets s \<and> wallet_txs t = wallet_txs s
    \<and> redemptions t = redemptions s \<and> part_purchases t = part_purchases s"
  using assms(2)
proof (rule transfer_body_Inr)
  fix y s1 s2 s3 s4
  let ?g = "transfer_grant p actor" and ?user = "e_user source"
  note plan = plan_transfer_Inr [OF assms(1)]
  assume y: "find_by e_id (e_id (tp_source p)) (enrollments s) = Some y" "e_state y = ES_ACTIVE"
    and g: "grant_access ?g now s = Inr (e, s1)"
    and m: "migrate_entitlement (e_user (tp_source p)) (c_id (tp_course p)) (tp_part p) now s1 = Inr (kept, s2)"
    and r: "revoke_enrollment (e_id (tp_source p)) actor reason (Some (e_course (tp_source p))) ''Course access transferred'' now s2
       = Inr (out, s3)" and live: "\<not> rvo_already out"
    and mv: "move_profile p s3 = Inr ((), s4)"
    and t: "t = audit_with \<lparr>au_actor = Some actor, au_action = ''UPDATE'', au_entity = ''user'',
          au_entity_id = e_user (tp_source p), au_note = reason\<rparr> (enrollment_note actor ''ACCESS_GRANT'' (e_id e) reason s4)"
  have x: "y = x" using find_by_Some [OF y(1)] assms(3,6,7) plan(1) by (auto dest: unique_onD)
  have key: "ag_user ?g = ?user" "c_id (ag_course ?g) = c_id c" "ag_scope ?g = tp_scope p"
    by (simp_all add: transfer_grant_def plan)
  note row = grant_access_row [OF g, unfolded key]
  have "enrollment_key x \<noteq> (?user, c_id c)" using assms(8,9) by (simp add: enrollment_key_def)
  with granted_id_other [OF g assms(3,5,6)] have other: "e_id e \<noteq> e_id source" using assms(7) by (simp add: key)
  from m obtain es n where s2: "s2 = s1\<lparr>entitlements := es, db_next := n\<rparr>" by (rule migrate_entitlement_frame)
  have s1x: "find_enrollment ?user (e_course source) s1 = Some x"
  proof -
    have "find_by enrollment_key (enrollment_key x) (enrollments s) = Some x"
      using assms(4,6) by (rule find_by_unique)
    then show ?thesis using row(7) [of ?user "e_course source"] assms(8,9)
      by (simp add: find_enrollment_by enrollment_key_def)
  qed
  from g obtain es1 n1 where s1: "s1 = s\<lparr>db_next := n1, enrollments := es1, grants := insert_grants (scope_grants ?g (e_id e)) (grants s),
       courses := upd_where (\<lambda>k. c_id k = c_id c)
         (\<lambda>k. k\<lparr>c_student_count := active_students (c_id c) (s\<lparr>enrollments := es1\<rparr>)\<rparr>) (courses s)\<rparr>"
    by (rule grant_access_Inr) (simp add: key)
  let ?hit = "\<lambda>z. e_id z = e_id source \<and> e_state z \<noteq> ES_REVOKED"
  let ?s2' = "s2\<lparr>enrollments := upd_where ?hit (revoked_row actor reason now) (enrollments s2)\<rparr>"
  from r live plan(1) obtain z where z: "find_by e_id (e_id source) (enrollments s2) = Some z"
    and eff: "revoke_effects z actor reason ''Course access transferred'' now ?s2' = Inr (out, s3)"
    by (auto elim: revoke_enrollment_Inr)
  have zid: "e_id z = e_id source" using find_by_Some [OF z] by simp
  from eff obtain ks where f3: "grants s3 = filter (\<lambda>g. g_enrollment g \<noteq> e_id z) (grants s2)"
    "enrollments s3 = enrollments ?s2'" "revenue s3 = revenue s2" "wallets s3 = wallets s2" "wallet_txs s3 = wallet_txs s2"
    "redemptions s3 = redemptions s2" "part_purchases s3 = part_purchases s2"
    "courses s3 = upd_where (\<lambda>k. c_id k = e_course z) (\<lambda>k. k\<lparr>c_student_count := ks\<rparr>) (courses s2)"
    by (rule revoke_effects_Inr) simp
  have t4: "find_enrollment v k t = find_enrollment v k s3" for v k
    by (rule find_enrollment_frame) (use mv in \<open>auto simp: t audit_with_def enrollment_note_def result_simps\<close>)
  have s3: "find_enrollment v k s3 = map_option (\<lambda>z. if ?hit z then revoked_row actor reason now z else z) (find_enrollment v k s1)" for v k
    by (simp add: find_enrollment_by f3(2) s2 revoked_by_key.find_upd)
  have dest: "find_enrollment ?user (c_id c) t = Some e" using row(1) other by (simp add: t4 s3)
  moreover have src: "find_enrollment ?user (e_course source) t = Some (revoked_row actor reason now x)"
    using s1x y(2) x assms(7) by (simp add: t4 s3)
  moreover have "\<not> ad_can (decide status (find_enrollment ?user (e_course source) t) later)" for status later
    by (simp add: src decide_can revoked_row_def)
  moreover have gs: "grants t = filter (\<lambda>g. g_enrollment g \<noteq> e_id source) (insert_grants (scope_grants ?g (e_id e)) (grants s))"
    using mv by (auto simp: t audit_with_def enrollment_note_def result_simps f3 s2 s1 zid)
  then have "\<forall>g \<in> set (grants t). g_enrollment g \<noteq> e_id source" by simp
  moreover have "\<exists>w \<in> set (grants t). g_enrollment w = e_id e \<and> g_section w = sec"
    if "tp_scope p = Some secs" "sec \<in> set secs" for secs sec
  proof -
    have "section_grant ?g (e_id e) sec \<in> set (scope_grants ?g (e_id e))"
      using that by (auto simp: scope_grants_def transfer_grant_def)
    then have "grant_key (section_grant ?g (e_id e) sec) \<in> grant_key ` set (insert_grants (scope_grants ?g (e_id e)) (grants s))"
      unfolding insert_grants_keys by blast
    then show ?thesis using other by (auto simp: gs grant_key_def section_grant_def)
  qed
  moreover have "is_targeted_to_student ?user (c_id c) R_STUDENT t"
  proof -
    have "profiles t = upd_where (\<lambda>r. sp_user r = ?user) (moved_profile p) (profiles s3)"
      and "\<exists>r. find_by sp_user ?user (profiles s3) = Some r"
      using mv by (auto simp: t audit_with_def enrollment_note_def result_simps plan)
    then obtain r0 where "find_by sp_user ?user (profiles t) = Some (moved_profile p r0)"
      using find_by_Some [of sp_user ?user "profiles s3"] by (auto simp: profile_moved.find_upd)
    moreover have "courses t = courses s3" using mv by (auto simp: t audit_with_def enrollment_note_def result_simps)
    then have "\<exists>k. find_course (c_id c) t = Some k \<and> c_departments k = c_departments c \<and> c_university k = Some u \<and> c_faculty k = Some f"
      using assms(12-15) by (auto simp: find_course_def f3 s2 s1 find_upd_where)
    moreover have "c_departments c = [] \<or> list_ex (\<lambda>i. Some i = tp_department p) (c_departments c)"
      using plan(5) by (auto simp: list_ex_iff intro: sym)
    ultimately show ?thesis
      by (auto simp: is_targeted_to_student_def profile_matches_def moved_profile_def plan)
  qed
  moreover have "find_enrollment v k t = find_enrollment v k s"
    if "(v, k) \<notin> {(?user, c_id c), (?user, e_course source)}" for v k
  proof -
    have "find_enrollment v k s1 = find_enrollment v k s" using row(7) that by simp
    moreover have "\<not> ?hit w" if "find_enrollment v k s = Some w" for w
      using find_enrollment_Some [OF that] assms(3,6,7,8) \<open>(v, k) \<notin> _\<close>
      by (auto simp: enrollment_key_def dest: unique_onD)
    ultimately show ?thesis by (cases "find_enrollment v k s") (auto simp: t4 s3)
  qed
  moreover have "revenue t = revenue s" "wallets t = wallets s" "wallet_txs t = wallet_txs s"
    "redemptions t = redemptions s" "part_purchases t = part_purchases s"
    using mv by (auto simp: t audit_with_def enrollment_note_def result_simps f3 s2 s1)
  ultimately show ?thesis using row(2,6) by blast
qed

text \<open>A student of one college holds a course there and is moved to a course of another.\<close>

definition target_course :: course_row where
  "target_course = (campus_course 14 [3])\<lparr>c_university := Some 8, c_faculty := Some 2\<rparr>"

definition moving_enrollment :: enrollment_row where
  "moving_enrollment = campus_enrollment\<lparr>e_covers_all := True\<rparr>"

definition moving_profile :: profile_row where
  "moving_profile = \<lparr>sp_user = 3, sp_university = None, sp_faculty = None, sp_department = Some 7, sp_year = Some 20\<rparr>"

definition moving_db :: db where
  "moving_db = uni_db\<lparr>db_next := 90, courses := [campus_course 12 [7], target_course],
     profiles := [moving_profile], enrollments := [moving_enrollment]\<rparr>"

definition move_request :: transfer_request where
  "move_request = \<lparr>tr_enrollment = 40, tr_destination = 14, tr_part = None, tr_department = None, tr_year = None,
     tr_reason = ''moved''\<rparr>"

definition move_plan :: transfer_plan where
  "move_plan = \<lparr>tp_source = moving_enrollment, tp_course = target_course, tp_university = 8, tp_faculty = 2,
     tp_department = Some 3, tp_year = Some 20, tp_scope = None, tp_part = None\<rparr>"

lemma move_planned:
  "plan_transfer move_request moving_enrollment target_course 8 2 moving_profile 5 moving_db = Inr move_plan"
  "\<not> isl (transfer_body move_plan 9 ''moved'' 5 moving_db)"
  by code_simp+

theorem transfer_moves_access_witness:
  "\<exists>e out kept t. transfer_body move_plan 9 ''moved'' 5 moving_db = Inr ((e, out, kept), t)
    \<and> find_enrollment 3 14 t = Some e \<and> e_covers_all e
    \<and> find_enrollment 3 12 t = Some (revoked_row 9 ''moved'' 5 moving_enrollment)
    \<and> is_targeted_to_student 3 14 R_STUDENT t"
proof -
  obtain r where "transfer_body move_plan 9 ''moved'' 5 moving_db = Inr r"
    using move_planned(2) by (cases "transfer_body move_plan 9 ''moved'' 5 moving_db") auto
  then obtain e out kept t where r: "transfer_body move_plan 9 ''moved'' 5 moving_db = Inr ((e, out, kept), t)"
    by (cases r) (metis prod.collapse)
  have rows: "unique_on e_id (enrollments moving_db)" "unique_on enrollment_key (enrollments moving_db)"
    "below e_id (db_next moving_db) (enrollments moving_db)" "moving_enrollment \<in> set (enrollments moving_db)"
    "e_user moving_enrollment = 3" "e_course moving_enrollment = 12" "c_id target_course = 14"
    "e_course moving_enrollment \<noteq> c_id target_course" "c_university target_course = Some 8" "c_faculty target_course = Some 2"
    "find_course (c_id target_course) moving_db = Some target_course" "tp_scope move_plan = None"
    by (simp_all add: moving_db_def moving_enrollment_def campus_enrollment_def target_course_def campus_course_def
        find_course_def below_def move_plan_def)
  from transfer_moves_access [OF move_planned(1) r rows(1-4) refl refl rows(8-11) refl rows(9,10)] rows(5-7,12) r
  show ?thesis by auto
qed

section \<open>The enrollment tables stay unambiguous\<close>

definition enrollment_books :: "db \<Rightarrow> bool" where
  "enrollment_books s \<longleftrightarrow>
     unique_on e_id (enrollments s) \<and> below e_id (db_next s) (enrollments s)
     \<and> unique_on enrollment_key (enrollments s) \<and> unique_on grant_key (grants s)
     \<and> (\<forall>g \<in> set (grants s). g_enrollment g \<in> e_id ` set (enrollments s))"

lemma enrollment_books_frame:
  "enrollment_books s \<Longrightarrow> enrollments t = enrollments s \<Longrightarrow> grants t = grants s \<Longrightarrow> db_next s \<le> db_next t \<Longrightarrow> enrollment_books t"
  by (auto simp: enrollment_books_def intro: below_mono)

lemma enrollment_books_upd:
  assumes "enrollment_books s" "\<And>x. e_id (f x) = e_id x" "\<And>x. enrollment_key (f x) = enrollment_key x"
    and "enrollments t = upd_where p f (enrollments s)" "set (grants t) \<subseteq> set (grants s)" "unique_on grant_key (grants t)"
    and "db_next s \<le> db_next t"
  shows "enrollment_books t"
proof -
  have keys: "map e_id (enrollments t) = map e_id (enrollments s)"
    "map enrollment_key (enrollments t) = map enrollment_key (enrollments s)"
    using assms(2-4) by (simp_all add: upd_where_def)
  have "e_id ` set (enrollments t) = e_id ` set (enrollments s)"
    using arg_cong [OF keys(1), of set] by simp
  then show ?thesis
    using assms(1,5-7) keys by (auto simp: enrollment_books_def unique_on_def below_keys intro: less_le_trans)
qed

lemma upsert_books:
  assumes "upsert_enrollment user course create update s = Inr (e, t)" "enrollment_books s"
    and "\<And>x. e_id (update x) = e_id x" "\<And>x. enrollment_key (update x) = enrollment_key x"
    and "\<And>i. e_id (create i) = i" "\<And>i. enrollment_key (create i) = (user, course)"
  shows "enrollment_books t \<and> e_id e \<in> e_id ` set (enrollments t)"
  using assms(1)
proof (rule upsert_enrollment_Inr)
  fix x
  assume x: "find_enrollment user course s = Some x" "e = update x"
    "t = s\<lparr>enrollments := upd_where (\<lambda>x. enrollment_key x = (user, course)) update (enrollments s)\<rparr>"
  then have "enrollment_books t"
    by (intro enrollment_books_upd [OF assms(2-4), where t = t and p = "\<lambda>x. enrollment_key x = (user, course)"])
      (use assms(2) in \<open>simp_all add: enrollment_books_def\<close>)
  moreover have "x \<in> set (enrollments s)" "enrollment_key x = (user, course)"
    using x(1) by (auto simp: find_enrollment_by dest: find_by_Some)
  then have "e \<in> set (enrollments t)" using x by (auto simp: set_upd_where)
  ultimately show ?thesis by simp
next
  assume n: "find_enrollment user course s = None" "e = create (db_next s)"
    "t = s\<lparr>db_next := Suc (db_next s), enrollments := enrollments s @ [create (db_next s)]\<rparr>"
  have "db_next s \<notin> e_id ` set (enrollments s)" using assms(2) by (simp add: enrollment_books_def below_notin)
  moreover have "(user, course) \<notin> enrollment_key ` set (enrollments s)"
    using n(1) by (auto simp: find_enrollment_by find_by_None_iff)
  moreover have "e_id e = db_next s" "enrollment_key e = (user, course)" by (simp_all add: n(2) assms(5,6))
  moreover have t: "enrollments t = enrollments s @ [e]" "grants t = grants s" "db_next t = Suc (db_next s)"
    by (simp_all add: n(2,3))
  ultimately show ?thesis
    using assms(2) unfolding enrollment_books_def t by (auto simp: unique_on_append1 below_def simp del: unique_below)
qed

lemma grant_access_books:
  assumes "grant_access g now s = Inr (e, t)" "enrollment_books s"
  shows "enrollment_books t"
proof -
  let ?u = "ag_user g" and ?c = "c_id (ag_course g)" and ?ends = "access_end_for (ag_course g) (ag_override g) now"
  let ?cov = "ag_scope g = None \<or> holds_live_whole_course now (find_enrollment ?u ?c s)"
  from assms(1) obtain v where
    v: "upsert_enrollment ?u ?c (\<lambda>i. new_enrollment i g now ?ends ?cov) (granted_again g now ?ends ?cov) s = Inr (e, v)"
    and r: "recount_students ?c (v\<lparr>grants := insert_grants (scope_grants g (e_id e)) (grants v)\<rparr>) = Inr ((), t)"
    unfolding grant_access_def Let_def by (auto simp: result_simps scope_grants_def)
  have b: "enrollment_books v \<and> e_id e \<in> e_id ` set (enrollments v)"
    by (rule upsert_books [OF v assms(2)])
      (simp_all add: new_enrollment_def granted_again_def enrollment_key_def)
  have "enrollment_books (v\<lparr>grants := insert_grants (scope_grants g (e_id e)) (grants v)\<rparr>)"
  proof -
    have "g_enrollment x \<in> e_id ` set (enrollments v)" if "x \<in> set (insert_grants (scope_grants g (e_id e)) (grants v))" for x
      using subsetD [OF insert_grants_set(1) that] b
      by (auto simp: enrollment_books_def scope_grants_def section_grant_def)
    then show ?thesis using b by (simp add: enrollment_books_def insert_grants_unique)
  qed
  then show ?thesis
    by (rule enrollment_books_frame) (use r in \<open>auto simp: recount_students_Inr_iff\<close>)
qed

lemma grant_furthers_books:
  assumes "each_tx (grant_further code user role now seen) cs s = Inr (u, t)" "enrollment_books s"
  shows "enrollment_books t"
  by (rule each_tx_invariant [where Q = enrollment_books, OF assms])
    (auto simp: grant_further_def result_simps intro: grant_access_books)

lemma redeem_code_books:
  assumes "redeem_code_body user role c raw now seen s = Inr (e, t)" "enrollment_books s"
  shows "enrollment_books t"
  using assms(1)
proof (rule redeem_code_body_Inr)
  fix code :: code_row and scope :: code_scope and s1 s2 s3 s4
  assume r: "redeem_in_transaction raw user (c_id c) None now s = Inr ((code, scope), s1)"
    and g: "grant_access (card_grant code user c (sc_sections scope) (k_part code)) now s1 = Inr (e, s2)"
    and p: "grant_card_part code scope user now s2 = Inr ((), s3)"
    and f: "each_tx (grant_further code user role now seen) (further_courses scope (c_id c) s3) s3 = Inr ((), s4)"
    and t: "t = audit_with \<lparr>au_actor = Some user, au_action = ''CODE_REDEEM'', au_entity = ''access_code'',
         au_entity_id = k_id code, au_note = []\<rparr> (attach_redemption code user (e_id e) s4)"
  have "enrollment_books s1" using assms(2) by (rule enrollment_books_frame) (use r in \<open>auto simp: result_simps\<close>)
  then have "enrollment_books s2" by (rule grant_access_books [OF g])
  moreover have "enrollments s3 = enrollments s2" "grants s3 = grants s2" "db_next s2 \<le> db_next s3"
  proof -
    show "enrollments s3 = enrollments s2" "grants s3 = grants s2" using p by (auto elim: grant_card_part_frame)
    show "db_next s2 \<le> db_next s3"
      using p by (auto simp: grant_card_part_def result_simps split: option.splits elim!: grant_part_frame)
  qed
  ultimately have "enrollment_books s3" by (rule enrollment_books_frame)
  then have "enrollment_books s4" by (rule grant_furthers_books [OF f])
  then show ?thesis by (rule enrollment_books_frame) (simp_all add: t audit_with_def attach_redemption_def)
qed

lemma revoke_books:
  assumes "revoke_enrollment i actor reason course ticket_reason now s = Inr (out, t)" "enrollment_books s"
  shows "enrollment_books t"
  using assms(1)
proof (cases rule: revoke_enrollment_Inr)
  case (revoked e)
  from revoked(5) obtain rows where f: "grants t = filter (\<lambda>g. g_enrollment g \<noteq> e_id e) (grants s)"
    "enrollments t = upd_where (\<lambda>x. e_id x = i \<and> e_state x \<noteq> ES_REVOKED) (revoked_row actor reason now) (enrollments s)"
    "db_next s \<le> db_next t"
    by (rule revoke_effects_Inr) simp
  have "unique_on grant_key (filter P gs)" if "unique_on grant_key gs" for P gs
    using that by (simp add: unique_on_def distinct_map_filter)
  then show ?thesis using f assms(2)
    by (intro enrollment_books_upd [OF assms(2) _ _ f(2)])
      (auto simp: revoked_row_def enrollment_key_def enrollment_books_def)
qed (use assms(2) in simp)

lemma transfer_books:
  assumes "transfer_body p actor reason now s = Inr ((e, out, kept), t)" "enrollment_books s"
  shows "enrollment_books t"
  using assms(1)
proof (rule transfer_body_Inr)
  fix x s1 s2 s3 s4
  assume g: "grant_access (transfer_grant p actor) now s = Inr (e, s1)"
    and m: "migrate_entitlement (e_user (tp_source p)) (c_id (tp_course p)) (tp_part p) now s1 = Inr (kept, s2)"
    and r: "revoke_enrollment (e_id (tp_source p)) actor reason (Some (e_course (tp_source p))) ''Course access transferred'' now s2
       = Inr (out, s3)"
    and mv: "move_profile p s3 = Inr ((), s4)"
    and t: "t = audit_with \<lparr>au_actor = Some actor, au_action = ''UPDATE'', au_entity = ''user'',
          au_entity_id = e_user (tp_source p), au_note = reason\<rparr> (enrollment_note actor ''ACCESS_GRANT'' (e_id e) reason s4)"
  have "enrollment_books s1" by (rule grant_access_books [OF g assms(2)])
  then have "enrollment_books s2" by (rule enrollment_books_frame) (use m in \<open>auto elim: migrate_entitlement_frame\<close>)
  then have "enrollment_books s3" by (rule revoke_books [OF r])
  then show ?thesis
    by (rule enrollment_books_frame) (use mv in \<open>auto simp: t audit_with_def enrollment_note_def result_simps\<close>)
qed

lemma update_enrollment_Inr [result_simps]:
  "update_enrollment i f s = Inr (e, t) \<longleftrightarrow> (\<exists>x. find_by e_id i (enrollments s) = Some x \<and> e = f x
     \<and> t = s\<lparr>enrollments := upd_where (\<lambda>x. e_id x = i) f (enrollments s)\<rparr>)"
  by (auto simp: update_enrollment_def result_simps)

inductive enrollment_step :: "db \<Rightarrow> db \<Rightarrow> bool" where
  es_grant: "grant_access g now s = Inr (e, t) \<Longrightarrow> enrollment_step s t"
| es_request: "request_enrollment user course st m now s = Inr (e, t) \<Longrightarrow> enrollment_step s t"
| es_checkout: "checkout_body cfg user c price random now s = Inr (r, t) \<Longrightarrow> enrollment_step s t"
| es_redeem: "redeem_code_body user role c raw now seen s = Inr (e, t) \<Longrightarrow> enrollment_step s t"
| es_reject: "update_enrollment i (rejected_row actor reason now) s = Inr (e, t) \<Longrightarrow> enrollment_step s t"
| es_extend: "update_enrollment i (extended_row ends) s = Inr (e, t) \<Longrightarrow> enrollment_step s t"
| es_revoke: "revoke_enrollment i actor reason course ticket_reason now s = Inr (out, t) \<Longrightarrow> enrollment_step s t"
| es_sweep: "enrollment_step s (snd (expire_lapsed_enrollments now s))"
| es_transfer: "transfer_body p actor reason now s = Inr ((e, out, kept), t) \<Longrightarrow> enrollment_step s t"

definition enrollment_start :: "db \<Rightarrow> bool" where
  "enrollment_start s \<longleftrightarrow> enrollments s = [] \<and> grants s = []"

lemma request_books:
  assumes "request_enrollment user course st m now s = Inr (e, t)" "enrollment_books s"
  shows "enrollment_books t"
  using upsert_books [OF assms(1) [unfolded request_enrollment_def] assms(2)]
  by (simp add: requested_again_def requested_enrollment_def enrollment_key_def)

lemma checkout_books:
  assumes "checkout_body cfg user c price random now s = Inr (r, t)" "enrollment_books s"
  shows "enrollment_books t"
proof -
  from assms(1) obtain e v ck where q: "request_enrollment user (c_id c) ES_PENDING_PAYMENT M_PAYMENT now s = Inr (e, v)"
    and p: "create_pending_payment cfg user (c_id c) (e_id e) price None random now v = Inr (ck, t)"
    by (auto simp: checkout_body_def result_simps)
  have "grants t = grants v" "db_next v \<le> db_next t"
    using p by (auto simp: create_pending_payment_def Let_def result_simps split: list.splits)
  then show ?thesis
    by (rule enrollment_books_frame [OF request_books [OF q assms(2)] create_pending_payment_enrollments [OF p]])
qed

interpretation enrollment_machine: invariant_system enrollment_start enrollment_step enrollment_books
proof
  show "enrollment_start s \<Longrightarrow> enrollment_books s" for s
    by (simp add: enrollment_start_def enrollment_books_def below_def)
  fix s t
  assume b: "enrollment_books s"
  assume "enrollment_step s t"
  then show "enrollment_books t"
  proof cases
    case (es_reject i actor reason now e)
    then show ?thesis using b
      by (intro enrollment_books_upd [OF b, where f = "rejected_row actor reason now"])
        (auto simp: result_simps rejected_row_def enrollment_key_def enrollment_books_def)
  next
    case (es_extend i ends e)
    then show ?thesis using b
      by (intro enrollment_books_upd [OF b, where f = "extended_row ends"])
        (auto simp: result_simps extended_row_def enrollment_key_def enrollment_books_def)
  next
    case (es_sweep now)
    then show ?thesis using b
      by (intro enrollment_books_upd [OF b, where f = "\<lambda>e. e\<lparr>e_state := ES_EXPIRED\<rparr>" and p = "lapsed_enrollment now"])
        (auto simp: expire_lapsed_enrollments_def enrollment_key_def enrollment_books_def)
  qed (use b in \<open>auto intro: grant_access_books request_books checkout_books redeem_code_books revoke_books transfer_books\<close>)
qed

text \<open>C23: enrollments stay unambiguous. Whatever joins, redemptions, administrative grants, rejections,
  removals, extensions, transfers and sweeps run, in any order: a student has at most one enrollment
  per course, a section is granted to an enrollment at most once, and every section grant belongs to
  an enrollment that exists.\<close>

theorem enrollments_unambiguous:
  assumes "enrollment_start s" "enrollment_step\<^sup>*\<^sup>* s t"
  shows "count_where (\<lambda>e. e_user e = user \<and> e_course e = course) (enrollments t) \<le> 1
    \<and> count_where (\<lambda>g. g_enrollment g = i \<and> g_section g = sec) (grants t) \<le> 1
    \<and> (\<forall>g \<in> set (grants t). \<exists>e \<in> set (enrollments t). e_id e = g_enrollment g)"
proof -
  have b: "enrollment_books t" using enrollment_machine.inv_reachable assms by blast
  then have "count_where (\<lambda>e. enrollment_key e = (user, course)) (enrollments t) \<le> 1"
    "count_where (\<lambda>g. grant_key g = (i, sec)) (grants t) \<le> 1"
    by (simp_all add: enrollment_books_def count_where_unique del: One_nat_def)
  moreover have "\<exists>e \<in> set (enrollments t). e_id e = g_enrollment g" if "g \<in> set (grants t)" for g
    using b that unfolding enrollment_books_def by (metis imageE)
  ultimately show ?thesis by (simp add: enrollment_key_def grant_key_def)
qed

theorem enrollments_unambiguous_witness:
  "\<exists>t. enrollment_step\<^sup>*\<^sup>* empty_db t \<and> length (enrollments t) = 1
    \<and> count_where (\<lambda>e. e_user e = 3 \<and> e_course e = 12) (enrollments t) \<le> 1"
proof -
  obtain e t where r: "request_enrollment 3 12 ES_PENDING_APPROVAL M_ADMIN_APPROVAL 5 empty_db = Inr (e, t)"
    unfolding request_enrollment_def using upsert_enrollment_total by blast
  then have "length (enrollments t) = 1"
    by (auto simp: request_enrollment_def upsert_enrollment_def find_enrollment_def empty_db_def)
  moreover have "enrollment_step\<^sup>*\<^sup>* empty_db t" using es_request [OF r] by blast
  moreover have "enrollment_start empty_db" by (simp add: enrollment_start_def empty_db_def)
  ultimately show ?thesis using enrollments_unambiguous [of empty_db t 3 12] by blast
qed

end
