(* ===== verification/Library.thy ===== *)
theory Library
  imports Wallet "HOL-Library.Product_Lexorder"
begin

text \<open>
  The Library as a student meets it (\<open>modules/library\<close>): the academic audience of a material, as
  the filter of a list and as the test of one loaded row (\<open>library-eligibility.service.ts\<close>); the
  catalogue, the full and the owner's view of a material, and the student's own shelf
  (\<open>library.service.ts\<close>); the gate, the quote and the purchase of a part or a package with wallet
  credit (\<open>library-purchase.service.ts\<close>). The storefront switch is read once at boot and is an
  argument. The text search of the catalogue is the database's, an argument too. Titles, covers and
  thumbnails are left out.
\<close>

section \<open>The academic audience\<close>

record student_scope =
  sc_university :: "id option"
  sc_faculty :: "id option"
  sc_department :: "id option"

record material_audience =
  ma_university :: "id option"
  ma_faculty :: "id option"
  ma_scope :: library_department_scope
  ma_departments :: "id list"

definition to_audience :: "material_row \<Rightarrow> material_audience" where
  "to_audience m = \<lparr>ma_university = lm_university m, ma_faculty = lm_faculty m, ma_scope = lm_scope m,
     ma_departments = lm_departments m\<rparr>"

definition load_student_scope :: "id \<Rightarrow> db \<Rightarrow> student_scope option" where
  "load_student_scope user s =
     map_option (\<lambda>p. \<lparr>sc_university = sp_university p, sc_faculty = sp_faculty p, sc_department = sp_department p\<rparr>)
       (find_by sp_user user (profiles s))"

definition is_published :: "content_status \<Rightarrow> bool \<Rightarrow> time option \<Rightarrow> bool" where
  "is_published st active deleted \<longleftrightarrow> deleted = None \<and> active \<and> st = CT_PUBLISHED"

text \<open>The filter of the list queries: the rows it keeps. An impossible department matches no link.\<close>

definition academic_material_where :: "student_scope option \<Rightarrow> material_row \<Rightarrow> bool" where
  "academic_material_where scope m =
     (case scope of
        None \<Rightarrow> False
      | Some sc \<Rightarrow>
          if sc_university sc = None \<or> sc_faculty sc = None then False
          else lm_university m = sc_university sc \<and> lm_faculty m = sc_faculty sc
            \<and> (lm_scope m = DS_FACULTY
               \<or> (lm_scope m = DS_DEPARTMENTS
                  \<and> list_ex (\<lambda>d. sc_department sc = Some d) (lm_departments m))))"

text \<open>The same rule on one loaded material.\<close>

definition is_academically_visible :: "student_scope option \<Rightarrow> material_audience \<Rightarrow> bool" where
  "is_academically_visible scope a =
     (case scope of
        None \<Rightarrow> False
      | Some sc \<Rightarrow>
          if sc_university sc = None \<or> sc_faculty sc = None then False
          else if ma_university a = None \<or> ma_faculty a = None then False
          else if ma_university a \<noteq> sc_university sc then False
          else if ma_faculty a \<noteq> sc_faculty sc then False
          else if ma_scope a = DS_FACULTY then True
          else case sc_department sc of None \<Rightarrow> False | Some d \<Rightarrow> d \<in> set (ma_departments a))"

section \<open>Rows\<close>

definition find_material :: "id \<Rightarrow> db \<Rightarrow> material_row option" where
  "find_material i s = find_by lm_id i (materials s)"

definition find_lib_part :: "id \<Rightarrow> db \<Rightarrow> lib_part_row option" where
  "find_lib_part i s = List.find (\<lambda>p. lp_id p = i \<and> lp_deleted_at p = None) (lib_parts s)"

definition find_lib_package :: "id \<Rightarrow> db \<Rightarrow> lib_package_row option" where
  "find_lib_package i s = List.find (\<lambda>k. lk_id k = i \<and> lk_deleted_at k = None) (lib_packages s)"

definition package_parts :: "lib_package_row \<Rightarrow> id list" where
  "package_parts k = map fst (sort_key snd (lk_items k))"

definition published_material :: "material_row \<Rightarrow> bool" where
  "published_material m \<longleftrightarrow> is_published (lm_status m) (lm_active m) (lm_deleted_at m)"

definition published_parts :: "id \<Rightarrow> db \<Rightarrow> lib_part_row list" where
  "published_parts material s =
     sort_key lp_sort (filter (\<lambda>p. lp_material p = material \<and> is_published (lp_status p) (lp_active p) (lp_deleted_at p))
       (lib_parts s))"

definition owns :: "id \<Rightarrow> db \<Rightarrow> id \<Rightarrow> bool" where
  "owns user s part \<longleftrightarrow>
     list_ex (\<lambda>e. le_user e = user \<and> le_part e = part \<and> le_revoked_at e = None) (lib_entitlements s)"

definition lost :: "id \<Rightarrow> db \<Rightarrow> id \<Rightarrow> bool" where
  "lost user s part \<longleftrightarrow>
     list_ex (\<lambda>e. le_user e = user \<and> le_part e = part \<and> le_revoked_at e \<noteq> None) (lib_entitlements s)"

definition owns_any_part_of :: "id \<Rightarrow> id \<Rightarrow> db \<Rightarrow> bool" where
  "owns_any_part_of user material s \<longleftrightarrow>
     list_ex (\<lambda>e. le_user e = user \<and> le_revoked_at e = None
       \<and> list_ex (\<lambda>p. lp_id p = le_part e \<and> lp_material p = material \<and> lp_deleted_at p = None) (lib_parts s))
       (lib_entitlements s)"

section \<open>The catalogue\<close>

record browse_query =
  bw_page :: nat
  bw_page_size :: nat
  bw_text :: "(material_row \<Rightarrow> bool) option"
  bw_year :: "id option"
  bw_subject :: "id option"

record browse_line =
  bl_material :: id
  bl_parts :: nat
  bl_packages :: nat
  bl_owned :: nat
  bl_price_from :: "rat option"
  bl_price_total :: "rat option"

definition browse_where :: "student_scope option \<Rightarrow> browse_query \<Rightarrow> material_row \<Rightarrow> bool" where
  "browse_where scope q m \<longleftrightarrow>
     published_material m \<and> academic_material_where scope m
     \<and> (bw_year q = None \<or> lm_year m = bw_year q)
     \<and> (bw_subject q = None \<or> lm_subject m = bw_subject q)
     \<and> (case bw_text q of None \<Rightarrow> True | Some p \<Rightarrow> p m)"

text \<open>Newer materials come first within one sort order: a later row has a greater identifier.\<close>

definition browse_order :: "material_row list \<Rightarrow> material_row list" where
  "browse_order = sort_key (\<lambda>m. (lm_sort m, - int (lm_id m)))"

definition live_packages :: "id \<Rightarrow> db \<Rightarrow> lib_package_row list" where
  "live_packages material s =
     sort_key lk_sort (filter (\<lambda>k. lk_material k = material \<and> is_published (lk_status k) (lk_active k) (lk_deleted_at k))
       (lib_packages s))"

definition browse_line_of :: "id \<Rightarrow> db \<Rightarrow> material_row \<Rightarrow> browse_line" where
  "browse_line_of user s m =
     (let ps = published_parts (lm_id m) s; prices = map lp_price ps in
      \<lparr>bl_material = lm_id m, bl_parts = length ps, bl_packages = length (live_packages (lm_id m) s),
       bl_owned = length (filter (\<lambda>p. owns user s (lp_id p)) ps),
       bl_price_from = (if prices = [] then None else Some (to_egp_number (Min (set prices)))),
       bl_price_total = (if prices = [] then None else Some (to_egp_number (sum_list prices)))\<rparr>)"

definition browse :: "bool \<Rightarrow> id \<Rightarrow> browse_query \<Rightarrow> db \<Rightarrow> browse_line list \<times> page_meta" where
  "browse storefront user q s =
     (if \<not> storefront then ([], paginated 0 (bw_page q) (bw_page_size q))
      else
        let found = browse_order (filter (browse_where (load_student_scope user s) q) (materials s)) in
        (map (browse_line_of user s) (page_rows (bw_page q) (bw_page_size q) found),
         paginated (length found) (bw_page q) (bw_page_size q)))"

section \<open>One material\<close>

datatype (plugins only: code) lib_access = LA_OWNED | LA_REVOKED | LA_PREVIEW | LA_PURCHASABLE | LA_UNAVAILABLE

datatype (plugins only: code) lib_ownership = LO_OWNED | LO_REVOKED | LO_NONE

record part_line =
  pl_part :: id
  pl_price :: "rat option"
  pl_access :: lib_access
  pl_ownership :: lib_ownership

record package_line =
  pk_package :: id
  pk_parts :: "id list"
  pk_price :: rat
  pk_owned :: nat
  pk_access :: lib_access

datatype material_view =
    FullView bool "part_line list" "package_line list"
  | OwnerView "part_line list"

definition ownership_of :: "id \<Rightarrow> db \<Rightarrow> id \<Rightarrow> lib_ownership" where
  "ownership_of user s i = (if owns user s i then LO_OWNED else if lost user s i then LO_REVOKED else LO_NONE)"

definition access_of :: "id \<Rightarrow> db \<Rightarrow> lib_part_row \<Rightarrow> lib_access" where
  "access_of user s p =
     (if owns user s (lp_id p) then LA_OWNED
      else if lp_preview p then LA_PREVIEW
      else if lost user s (lp_id p) then LA_REVOKED
      else if 0 < lp_price p then LA_PURCHASABLE
      else LA_UNAVAILABLE)"

definition package_line_of :: "id \<Rightarrow> db \<Rightarrow> id list \<Rightarrow> lib_package_row \<Rightarrow> package_line" where
  "package_line_of user s shown k =
     (let items = package_parts k;
          included = filter (\<lambda>i. i \<in> set shown) items;
          complete = (items \<noteq> [] \<and> length included = length items);
          any_lost = list_ex (lost user s) included;
          all_owned = (complete \<and> list_all (owns user s) included) in
      \<lparr>pk_package = lk_id k, pk_parts = included, pk_price = to_egp_number (lk_price k),
       pk_owned = length (filter (owns user s) included),
       pk_access = (if all_owned then LA_OWNED
                    else if complete \<and> \<not> any_lost \<and> 0 < lk_price k then LA_PURCHASABLE
                    else LA_UNAVAILABLE)\<rparr>)"

definition full_view :: "id \<Rightarrow> id \<Rightarrow> db \<Rightarrow> material_view" where
  "full_view user material s =
     (let ps = published_parts material s; ids = map lp_id ps in
      FullView (ids \<noteq> [] \<and> list_all (owns user s) ids)
        (map (\<lambda>p. \<lparr>pl_part = lp_id p, pl_price = Some (to_egp_number (lp_price p)), pl_access = access_of user s p,
                   pl_ownership = ownership_of user s (lp_id p)\<rparr>) ps)
        (map (package_line_of user s ids) (live_packages material s)))"

text \<open>The owner's view has its own query: only the parts the student holds, no price, no package.\<close>

definition owner_view :: "id \<Rightarrow> id \<Rightarrow> db \<Rightarrow> material_view" where
  "owner_view user material s =
     OwnerView (map (\<lambda>p. \<lparr>pl_part = lp_id p, pl_price = None, pl_access = LA_OWNED, pl_ownership = LO_OWNED\<rparr>)
       (filter (\<lambda>p. owns user s (lp_id p)) (published_parts material s)))"

definition material_for_student :: "bool \<Rightarrow> id \<Rightarrow> id \<Rightarrow> db \<Rightarrow> exn + material_view" where
  "material_for_student storefront material user s =
     (case find_material material s of
        None \<Rightarrow> Inl not_found
      | Some m \<Rightarrow>
          if \<not> published_material m then Inl not_found
          else if storefront \<and> is_academically_visible (load_student_scope user s) (to_audience m)
          then Inr (full_view user material s)
          else if owns_any_part_of user material s then Inr (owner_view user material s)
          else Inl not_found)"

record shelf_line =
  sh_part :: id
  sh_material :: id
  sh_source :: library_entitlement_source
  sh_granted :: time
  sh_withdrawn :: bool

definition shelf_line_of :: "db \<Rightarrow> lib_entitlement_row \<Rightarrow> shelf_line option" where
  "shelf_line_of s e =
     (case find_lib_part (le_part e) s of
        None \<Rightarrow> None
      | Some p \<Rightarrow>
          (case find_material (lp_material p) s of
             None \<Rightarrow> None
           | Some m \<Rightarrow>
               Some \<lparr>sh_part = lp_id p, sh_material = lm_id m, sh_source = le_source e, sh_granted = le_granted e,
                 sh_withdrawn = (lp_status p = CT_ARCHIVED \<or> lm_status m = CT_ARCHIVED \<or> lm_deleted_at m \<noteq> None)\<rparr>))"

definition my_library :: "id \<Rightarrow> nat \<Rightarrow> nat \<Rightarrow> db \<Rightarrow> shelf_line list \<times> page_meta" where
  "my_library user page pageSize s =
     (let found = sort_key (\<lambda>l. - sh_granted l)
            (List.map_filter (shelf_line_of s)
              (filter (\<lambda>e. le_user e = user \<and> le_revoked_at e = None) (lib_entitlements s))) in
      (page_rows page pageSize found, paginated (length found) page pageSize))"

section \<open>The gate of an acquisition\<close>

text \<open>
  The material, the parts and the preview flag of a target. The material of a part or a package is
  there by its foreign key.
\<close>

definition acquire_target :: "library_purchase_kind \<Rightarrow> id \<Rightarrow> db \<Rightarrow> (material_row \<times> id list \<times> bool) option" where
  "acquire_target kind target s =
     (case kind of
        LK_PART \<Rightarrow>
          (case find_lib_part target s of
             None \<Rightarrow> None
           | Some p \<Rightarrow> map_option (\<lambda>m. (m, [lp_id p], lp_preview p)) (find_material (lp_material p) s))
      | LK_PACKAGE \<Rightarrow>
          (case find_lib_package target s of
             None \<Rightarrow> None
           | Some k \<Rightarrow> map_option (\<lambda>m. (m, map fst (lk_items k), False)) (find_material (lk_material k) s)))"

definition assert_may_acquire :: "bool \<Rightarrow> id \<Rightarrow> library_purchase_kind \<Rightarrow> id \<Rightarrow> db \<Rightarrow> exn + unit" where
  "assert_may_acquire storefront user kind target s =
     (if \<not> storefront then Inl not_found
      else case acquire_target kind target s of
        None \<Rightarrow> Inl not_found
      | Some (m, ids, preview) \<Rightarrow>
          if \<not> published_material m then Inl not_found
          else if \<not> is_academically_visible (load_student_scope user s) (to_audience m)
          then Inl (if owns_any_part_of user (lm_id m) s then app_error LIBRARY_NOT_AVAILABLE else not_found)
          else if list_ex (lost user s) ids then Inl (app_error LIBRARY_ENTITLEMENT_REVOKED)
          else if preview then Inl (app_error INVALID_STATE)
          else Inr ())"

section \<open>What is bought\<close>

record lib_target =
  lt_price :: int
  lt_parts :: "id list"
  lt_count :: nat

definition price_column :: "int \<Rightarrow> exn + int" where
  "price_column p = parse_amount (MStr (decimal_text p)) ''price''"

definition load_part :: "id \<Rightarrow> lib_target dbtx" where
  "load_part target =
     bind_tx (get_tx (find_lib_part target)) (\<lambda>found.
     bind_tx (the_or not_found found) (\<lambda>p.
     bind_tx (assert_library_item_on_sale (lp_status p) (lp_active p) None) (\<lambda>_.
     bind_tx (get_tx (find_material (lp_material p))) (\<lambda>owner.
     bind_tx (the_or not_found owner) (\<lambda>m.
     bind_tx (assert_material_on_sale m) (\<lambda>_.
     bind_tx (lift_tx (price_column (lp_price p))) (\<lambda>price.
     ret_tx \<lparr>lt_price = price, lt_parts = [lp_id p], lt_count = 1\<rparr>)))))))"

definition item_available :: "lib_package_row \<Rightarrow> db \<Rightarrow> id \<Rightarrow> bool" where
  "item_available k s i \<longleftrightarrow>
     (case find_by lp_id i (lib_parts s) of
        None \<Rightarrow> False
      | Some p \<Rightarrow> is_on_sale (lp_status p) (lp_active p) (lp_deleted_at p) \<and> lp_material p = lk_material k)"

definition load_package :: "id \<Rightarrow> lib_target dbtx" where
  "load_package target =
     bind_tx (get_tx (find_lib_package target)) (\<lambda>found.
     bind_tx (the_or not_found found) (\<lambda>k.
     bind_tx (assert_library_item_on_sale (lk_status k) (lk_active k) (lk_deleted_at k)) (\<lambda>_.
     bind_tx (get_tx (find_material (lk_material k))) (\<lambda>owner.
     bind_tx (the_or not_found owner) (\<lambda>m.
     bind_tx (assert_material_on_sale m) (\<lambda>_.
     bind_tx (get_tx (\<lambda>s. package_parts k \<noteq> [] \<and> list_all (item_available k s) (package_parts k))) (\<lambda>complete.
     bind_tx (require_tx complete (app_error INVALID_STATE)) (\<lambda>_.
     bind_tx (lift_tx (price_column (lk_price k))) (\<lambda>price.
     ret_tx \<lparr>lt_price = price, lt_parts = package_parts k, lt_count = length (lk_items k)\<rparr>)))))))))"

definition load_target :: "library_purchase_kind \<Rightarrow> id \<Rightarrow> lib_target dbtx" where
  "load_target kind target = (case kind of LK_PART \<Rightarrow> load_part target | LK_PACKAGE \<Rightarrow> load_package target)"

definition owned_part_ids :: "id \<Rightarrow> id list \<Rightarrow> db \<Rightarrow> id list" where
  "owned_part_ids user ids s = remdups (filter (owns user s) ids)"

section \<open>The purchase\<close>

record lib_outcome =
  lx_purchase :: id
  lx_kind :: library_purchase_kind
  lx_target :: id
  lx_price :: rat
  lx_balance :: rat
  lx_granted :: nat
  lx_owned :: nat
  lx_at :: time
  lx_already :: bool

definition library_key :: "library_purchase_kind \<Rightarrow> id \<Rightarrow> id \<Rightarrow> idem_key" where
  "library_key kind target user = (case kind of LK_PART \<Rightarrow> LibPartKey target user | LK_PACKAGE \<Rightarrow> LibPkgKey target user)"

definition library_debit :: "id \<Rightarrow> library_purchase_kind \<Rightarrow> id \<Rightarrow> int \<Rightarrow> ledger_request" where
  "library_debit user kind target price =
     \<lparr>lr_user = user, lr_amount = MStr (render_piastres price), lr_type = WT_PURCHASE,
      lr_source = (case kind of LK_PART \<Rightarrow> WS_LIBRARY_PART | LK_PACKAGE \<Rightarrow> WS_LIBRARY_PACKAGE), lr_code = None,
      lr_reference = Some (case kind of LK_PART \<Rightarrow> ''LIBRARY_PART'' | LK_PACKAGE \<Rightarrow> ''LIBRARY_PACKAGE'', target),
      lr_admin = None, lr_key = Some (library_key kind target user)\<rparr>"

definition lib_purchase :: "id \<Rightarrow> id \<Rightarrow> library_purchase_kind \<Rightarrow> id \<Rightarrow> lib_target \<Rightarrow> id \<Rightarrow> time \<Rightarrow> lib_purchase_row" where
  "lib_purchase i user kind target t entry now =
     \<lparr>lu_id = i, lu_user = user, lu_kind = kind, lu_part = (if kind = LK_PART then Some target else None),
      lu_package = (if kind = LK_PACKAGE then Some target else None), lu_price = lt_price t, lu_parts = lt_parts t,
      lu_wallet_tx = entry, lu_key = library_key kind target user, lu_at = now\<rparr>"

text \<open>The insert, under the unique indexes on the wallet transaction and on the key.\<close>

definition insert_lib_purchase :: "lib_purchase_row \<Rightarrow> unit dbtx" where
  "insert_lib_purchase row =
     bind_tx (get_tx (\<lambda>s. lu_wallet_tx row \<in> set (map lu_wallet_tx (lib_purchases s)))) (\<lambda>paid.
     bind_tx (require_tx (\<not> paid) (unique_violation ''walletTransactionId'')) (\<lambda>_.
     bind_tx (get_tx (\<lambda>s. lu_key row \<in> set (map lu_key (lib_purchases s)))) (\<lambda>keyed.
     bind_tx (require_tx (\<not> keyed) (unique_violation ''idempotencyKey'')) (\<lambda>_.
     modify_tx (\<lambda>s. s\<lparr>lib_purchases := lib_purchases s @ [row]\<rparr>)))))"

text \<open>\<open>createMany\<close> with \<open>skipDuplicates\<close>: a part already in the student's rows is skipped.\<close>

definition grant_parts :: "id \<Rightarrow> library_entitlement_source \<Rightarrow> id \<Rightarrow> time \<Rightarrow> id list \<Rightarrow> lib_entitlement_row list \<Rightarrow> lib_entitlement_row list" where
  "grant_parts user source purchase now ids es =
     fold (\<lambda>i es. if list_ex (\<lambda>e. le_user e = user \<and> le_part e = i) es then es
                 else es @ [\<lparr>le_user = user, le_part = i, le_source = source, le_purchase = Some purchase,
                             le_granted = now, le_revoked_at = None\<rparr>]) ids es"

definition pay_and_grant :: "id \<Rightarrow> library_purchase_kind \<Rightarrow> id \<Rightarrow> lib_target \<Rightarrow> id list \<Rightarrow> time \<Rightarrow> lib_outcome dbtx" where
  "pay_and_grant user kind target t owned now =
     bind_tx (wallet_debit (library_debit user kind target (lt_price t)) now) (\<lambda>entry.
     bind_tx fresh_id (\<lambda>i.
     bind_tx (insert_lib_purchase (lib_purchase i user kind target t (en_id entry) now)) (\<lambda>_.
     let to_grant = filter (\<lambda>p. p \<notin> set owned) (lt_parts t) in
     bind_tx (modify_tx (\<lambda>s. s\<lparr>lib_entitlements :=
       grant_parts user (if kind = LK_PART then LS_PURCHASE else LS_PACKAGE) i now to_grant (lib_entitlements s)\<rparr>)) (\<lambda>_.
     ret_tx \<lparr>lx_purchase = i, lx_kind = kind, lx_target = target, lx_price = to_egp_number (lt_price t),
             lx_balance = en_after entry, lx_granted = length to_grant, lx_owned = length owned, lx_at = now,
             lx_already = False\<rparr>))))"

definition assert_active_account :: "id \<Rightarrow> unit dbtx" where
  "assert_active_account user =
     bind_tx (get_tx (\<lambda>s. List.find (\<lambda>u. u_id u = user \<and> u_deleted_at u = None) (users s))) (\<lambda>found.
     bind_tx (the_or not_found found) (\<lambda>u.
     require_tx (u_status u = AS_ACTIVE) (app_error ACCOUNT_DISABLED)))"

definition library_purchase_body :: "bool \<Rightarrow> id \<Rightarrow> library_purchase_kind \<Rightarrow> id \<Rightarrow> time \<Rightarrow> lib_outcome dbtx" where
  "library_purchase_body storefront user kind target now =
     bind_tx (get_tx (assert_may_acquire storefront user kind target)) (\<lambda>gate.
     bind_tx (lift_tx gate) (\<lambda>_.
     bind_tx (load_target kind target) (\<lambda>t.
     bind_tx (require_tx (lt_parts t \<noteq> []) (app_error INVALID_STATE)) (\<lambda>_.
     bind_tx (require_tx (0 < lt_price t) (app_error INVALID_STATE)) (\<lambda>_.
     bind_tx (assert_active_account user) (\<lambda>_.
     bind_tx (get_tx (owned_part_ids user (lt_parts t))) (\<lambda>owned.
     bind_tx (require_tx (length owned \<noteq> length (lt_parts t)) conflict) (\<lambda>_.
     pay_and_grant user kind target t owned now))))))))"

text \<open>The original purchase, with today's balance; reading it makes sure the wallet exists.\<close>

definition find_existing :: "idem_key \<Rightarrow> lib_outcome option dbtx" where
  "find_existing key =
     bind_tx (get_tx (\<lambda>s. find_by lu_key key (lib_purchases s))) (\<lambda>found.
     case found of
       None \<Rightarrow> ret_tx None
     | Some row \<Rightarrow>
         bind_tx (wallet_summary_of (lu_user row)) (\<lambda>w.
         ret_tx (Some \<lparr>lx_purchase = lu_id row, lx_kind = lu_kind row,
                      lx_target = (case lu_part row of Some i \<Rightarrow> i | None \<Rightarrow> the (lu_package row)),
                      lx_price = to_egp_number (lu_price row), lx_balance = ws_balance w,
                      lx_granted = length (lu_parts row), lx_owned = 0, lx_at = lu_at row, lx_already = True\<rparr>)))"

text \<open>
  The endpoint: the gate, the replay, the retried transaction, and the winner of a race in place of
  a unique violation; then the audit record.
\<close>

definition library_winner :: "idem_key \<Rightarrow> exn \<Rightarrow> db \<Rightarrow> (exn + lib_outcome) \<times> db" where
  "library_winner key e s =
     (case e of
        PrismaKnown code _ \<Rightarrow>
          if code = ''P2002'' then
            (case find_existing key s of
               Inl e' \<Rightarrow> (Inl e', s)
             | Inr (None, t) \<Rightarrow> (Inl e, t)
             | Inr (Some won, t) \<Rightarrow> (Inr won, t))
          else (Inl e, s)
      | _ \<Rightarrow> (Inl e, s))"

definition library_purchase_call ::
  "bool \<Rightarrow> db world \<Rightarrow> id \<Rightarrow> library_purchase_kind \<Rightarrow> id \<Rightarrow> time \<Rightarrow> db \<Rightarrow> (exn + lib_outcome) \<times> db" where
  "library_purchase_call storefront w user kind target now s =
     (case assert_may_acquire storefront user kind target s of
        Inl e \<Rightarrow> (Inl e, s)
      | Inr _ \<Rightarrow>
          (case find_existing (library_key kind target user) s of
             Inl e \<Rightarrow> (Inl e, s)
           | Inr (Some x, t) \<Rightarrow> (Inr x, t)
           | Inr (None, t) \<Rightarrow>
               (let r = with_serializable_retry default_options w (library_purchase_body storefront user kind target now) t;
                    out = (case rt_result r of
                             Inl e \<Rightarrow> library_winner (library_key kind target user) e (rt_state r)
                           | Inr x \<Rightarrow> (Inr x, rt_state r)) in
                case fst out of
                  Inl e \<Rightarrow> out
                | Inr x \<Rightarrow>
                    if lx_already x then out
                    else (Inr x, audit_with \<lparr>au_actor = Some user, au_action = ''WALLET_DEBIT'',
                            au_entity = ''library_purchase'', au_entity_id = lx_purchase x, au_note = []\<rparr> (snd out)))))"

section \<open>The quote\<close>

record lib_quote =
  lq_price :: rat
  lq_balance :: rat
  lq_sufficient :: bool
  lq_shortfall :: rat
  lq_parts :: nat
  lq_owned :: nat
  lq_fully_owned :: bool
  lq_purchasable :: bool
  lq_count :: nat
  lq_withdrawn :: nat

definition library_quote :: "bool \<Rightarrow> id \<Rightarrow> library_purchase_kind \<Rightarrow> id \<Rightarrow> lib_quote dbtx" where
  "library_quote storefront user kind target =
     bind_tx (get_tx (assert_may_acquire storefront user kind target)) (\<lambda>gate.
     bind_tx (lift_tx gate) (\<lambda>_.
     bind_tx (wallet_summary_of user) (\<lambda>w.
     bind_tx (load_target kind target) (\<lambda>t.
     bind_tx (get_tx (owned_part_ids user (lt_parts t))) (\<lambda>owned.
     let price = to_egp_number (lt_price t) in
     ret_tx \<lparr>lq_price = price, lq_balance = ws_balance w, lq_sufficient = (price \<le> ws_balance w),
             lq_shortfall = max 0 (price - ws_balance w), lq_parts = length (lt_parts t), lq_owned = length owned,
             lq_fully_owned = (lt_parts t \<noteq> [] \<and> length owned = length (lt_parts t)),
             lq_purchasable = (0 < lt_price t \<and> lt_parts t \<noteq> []), lq_count = lt_count t,
             lq_withdrawn = lt_count t - length (lt_parts t)\<rparr>)))))"

section \<open>Purchase history\<close>

definition my_library_purchases :: "id \<Rightarrow> nat \<Rightarrow> nat \<Rightarrow> db \<Rightarrow> lib_purchase_row list \<times> page_meta" where
  "my_library_purchases user page pageSize s =
     (let found = sort_key (\<lambda>u. - lu_at u) (filter (\<lambda>u. lu_user u = user) (lib_purchases s)) in
      (page_rows page pageSize found, paginated (length found) page pageSize))"

end
