(* ===== verification/LibraryBooks.thy ===== *)
theory LibraryBooks
  imports Library
begin

text \<open>
  What the Library's purchases guarantee. The list filter and the test of one material are the same
  rule; a purchase costs exactly its price and grants exactly its parts; and over any sequence of
  purchases and other wallet movements every purchase is paid by its own ledger entry, every
  entitlement by a purchase, and the credits spent are the sum of the recorded prices.
\<close>

section \<open>The audience\<close>

lemma academic_filter: "academic_material_where scope m = is_academically_visible scope (to_audience m)"
proof (cases scope)
  case (Some sc)
  then show ?thesis
    by (cases "lm_scope m"; cases "sc_department sc")
      (auto simp: academic_material_where_def is_academically_visible_def to_audience_def list_ex_iff)
qed (simp add: academic_material_where_def is_academically_visible_def)

lemma owns_iff: "owns u s i \<longleftrightarrow> (\<exists>e \<in> set (lib_entitlements s). le_user e = u \<and> le_part e = i \<and> le_revoked_at e = None)"
  by (simp add: owns_def list_ex_iff)

lemma lost_iff: "lost u s i \<longleftrightarrow> (\<exists>e \<in> set (lib_entitlements s). le_user e = u \<and> le_part e = i \<and> le_revoked_at e \<noteq> None)"
  by (simp add: lost_def list_ex_iff)

lemma library_reads_frame:
  "lib_entitlements t = lib_entitlements s \<Longrightarrow> owns u t = owns u s"
  "lib_entitlements t = lib_entitlements s \<Longrightarrow> lost u t = lost u s"
  by (simp_all add: owns_def lost_def fun_eq_iff)

section \<open>Loading a target\<close>

lemma price_column_Inr_iff [result_simps]: "price_column p = Inr q \<longleftrightarrow> q = p \<and> valid_piastres p"
proof
  assume r: "price_column p = Inr q"
  show "q = p \<and> valid_piastres p"
  proof (cases "valid_piastres p")
    case True
    then show ?thesis using r decimal_string_read(1) [OF True] by (simp add: price_column_def parse_amount_def)
  next
    case False
    have "amount_text (MStr (decimal_text p)) = amount_text (MObj (decimal_text p))"
      by (simp add: amount_text_def js_trim_digits decimal_no_ws)
    then have "to_piastres (MStr (decimal_text p)) f = to_piastres (MObj (decimal_text p)) f" for f
      by (simp add: to_piastres_def)
    with r False show ?thesis
      using read_column_Inr_iff [of p "''price''" q] by (simp add: price_column_def parse_amount_def read_column_def as_validation_Inr_iff)
  qed
next
  assume "q = p \<and> valid_piastres p"
  then show "price_column p = Inr q"
    by (simp add: price_column_def parse_amount_def decimal_string_read)
qed

lemma load_part_Inr_iff:
  "load_part i s = Inr (t, s') \<longleftrightarrow> s' = s \<and>
     (\<exists>p m. find_lib_part i s = Some p \<and> find_material (lp_material p) s = Some m
        \<and> is_on_sale (lp_status p) (lp_active p) None \<and> is_on_sale (lm_status m) (lm_active m) (lm_deleted_at m)
        \<and> valid_piastres (lp_price p) \<and> t = \<lparr>lt_price = lp_price p, lt_parts = [lp_id p], lt_count = 1\<rparr>)"
  by (auto simp: load_part_def result_simps)

lemma load_package_Inr_iff:
  "load_package i s = Inr (t, s') \<longleftrightarrow> s' = s \<and>
     (\<exists>k m. find_lib_package i s = Some k \<and> find_material (lk_material k) s = Some m
        \<and> is_on_sale (lk_status k) (lk_active k) (lk_deleted_at k)
        \<and> is_on_sale (lm_status m) (lm_active m) (lm_deleted_at m)
        \<and> package_parts k \<noteq> [] \<and> list_all (item_available k s) (package_parts k) \<and> valid_piastres (lk_price k)
        \<and> t = \<lparr>lt_price = lk_price k, lt_parts = package_parts k, lt_count = length (lk_items k)\<rparr>)"
  by (auto simp: load_package_def result_simps)

lemma load_target_state: "load_target kind i s = Inr (t, s') \<Longrightarrow> s' = s \<and> valid_piastres (lt_price t)"
  by (cases kind) (auto simp: load_target_def load_part_Inr_iff load_package_Inr_iff)

lemma set_package_parts [simp]: "set (package_parts k) = fst ` set (lk_items k)"
  by (simp add: package_parts_def)

text \<open>The gate and the loader speak of the same parts.\<close>

lemma gate_parts:
  assumes "assert_may_acquire sf user kind i s = Inr ()" "load_target kind i s = Inr (t, s')" "p \<in> set (lt_parts t)"
  shows "\<not> lost user s p"
proof -
  obtain m ids pre where a: "acquire_target kind i s = Some (m, ids, pre)" "\<not> list_ex (lost user s) ids"
    using assms(1) by (auto simp: assert_may_acquire_def split: if_splits option.splits)
  have "p \<in> set ids"
  proof (cases kind)
    case LK_PART
    with a assms(2,3) show ?thesis by (auto simp: acquire_target_def load_target_def load_part_Inr_iff)
  next
    case LK_PACKAGE
    with a assms(2,3) show ?thesis
      by (force simp: acquire_target_def load_target_def load_package_Inr_iff)
  qed
  with a(2) show ?thesis by (auto simp: list_ex_iff)
qed

section \<open>Granting\<close>

definition lib_key :: "lib_entitlement_row \<Rightarrow> id \<times> id" where
  "lib_key e = (le_user e, le_part e)"

lemma grant_parts_props:
  obtains new where "grant_parts user src i now ids es = es @ new"
    "\<And>e. e \<in> set new \<Longrightarrow> le_user e = user \<and> le_part e \<in> set ids \<and> le_source e = src \<and> le_purchase e = Some i
       \<and> le_granted e = now \<and> le_revoked_at e = None"
    "\<And>p. p \<in> set ids \<Longrightarrow> \<exists>e \<in> set (es @ new). lib_key e = (user, p)"
    "unique_on lib_key es \<Longrightarrow> unique_on lib_key (es @ new)"
proof (induction ids arbitrary: es thesis)
  case Nil
  show ?case by (rule Nil.prems [of "[]"]) (simp_all add: grant_parts_def)
next
  case (Cons p ids)
  let ?e = "\<lparr>le_user = user, le_part = p, le_source = src, le_purchase = Some i, le_granted = now, le_revoked_at = None\<rparr>"
  let ?had = "list_ex (\<lambda>e. le_user e = user \<and> le_part e = p) es"
  define es1 where "es1 = (if ?had then es else es @ [?e])"
  obtain new where n: "grant_parts user src i now ids es1 = es1 @ new"
    "\<And>e. e \<in> set new \<Longrightarrow> le_user e = user \<and> le_part e \<in> set ids \<and> le_source e = src \<and> le_purchase e = Some i
       \<and> le_granted e = now \<and> le_revoked_at e = None"
    "\<And>q. q \<in> set ids \<Longrightarrow> \<exists>e \<in> set (es1 @ new). lib_key e = (user, q)"
    "unique_on lib_key es1 \<Longrightarrow> unique_on lib_key (es1 @ new)"
    using Cons.IH [of es1] by blast
  let ?new = "(if ?had then [] else [?e]) @ new"
  have es1: "es1 @ new = es @ ?new" by (simp add: es1_def)
  have g: "grant_parts user src i now (p # ids) es = es @ ?new"
    using n(1) es1 by (simp add: grant_parts_def es1_def)
  have u: "unique_on lib_key es \<Longrightarrow> unique_on lib_key es1"
    by (auto simp: es1_def table_simps lib_key_def list_ex_iff)
  have p: "\<exists>e \<in> set es1. lib_key e = (user, p)"
    by (auto simp: es1_def lib_key_def list_ex_iff)
  show ?case
  proof (rule Cons.prems [OF g])
    fix e assume "e \<in> set ?new"
    then show "le_user e = user \<and> le_part e \<in> set (p # ids) \<and> le_source e = src \<and> le_purchase e = Some i
       \<and> le_granted e = now \<and> le_revoked_at e = None" using n(2) by (auto split: if_splits)
  next
    fix q assume "q \<in> set (p # ids)"
    then show "\<exists>e \<in> set (es @ ?new). lib_key e = (user, q)"
      using n(3) p unfolding es1 [symmetric] by auto
  next
    assume "unique_on lib_key es"
    then show "unique_on lib_key (es @ ?new)" using n(4) u unfolding es1 [symmetric] by blast
  qed
qed

section \<open>The purchase\<close>

lemma insert_lib_purchase_Inr_iff [result_simps]:
  "insert_lib_purchase row s = Inr (u, t) \<longleftrightarrow>
     lu_wallet_tx row \<notin> set (map lu_wallet_tx (lib_purchases s)) \<and> lu_key row \<notin> set (map lu_key (lib_purchases s))
     \<and> t = s\<lparr>lib_purchases := lib_purchases s @ [row]\<rparr>"
  by (auto simp: insert_lib_purchase_def result_simps)

lemma assert_active_account_Inr_iff [result_simps]:
  "assert_active_account user s = Inr (u, t) \<longleftrightarrow> t = s \<and>
     (\<exists>r. List.find (\<lambda>u. u_id u = user \<and> u_deleted_at u = None) (users s) = Some r \<and> u_status r = AS_ACTIVE)"
  by (auto simp: assert_active_account_def result_simps)

definition bought :: "id \<Rightarrow> library_purchase_kind \<Rightarrow> id \<Rightarrow> lib_target \<Rightarrow> ledger_entry \<Rightarrow> time \<Rightarrow> db \<Rightarrow> db" where
  "bought user kind target t e now s =
     s\<lparr>db_next := Suc (db_next s),
       lib_purchases := lib_purchases s @ [lib_purchase (db_next s) user kind target t (en_id e) now],
       lib_entitlements := grant_parts user (if kind = LK_PART then LS_PURCHASE else LS_PACKAGE) (db_next s) now
         (filter (\<lambda>p. p \<notin> set (owned_part_ids user (lt_parts t) s)) (lt_parts t)) (lib_entitlements s)\<rparr>"

lemma pay_and_grant_Inr:
  assumes "pay_and_grant user kind target tgt (owned_part_ids user (lt_parts tgt) s) now s = Inr (x, t)" "ledger_inv s"
  obtains e s1 where "wallet_debit (library_debit user kind target (lt_price tgt)) now s = Inr (e, s1)"
    "lib_entitlements s1 = lib_entitlements s" "lib_purchases s1 = lib_purchases s"
    "en_id e \<notin> set (map lu_wallet_tx (lib_purchases s))"
    "library_key kind target user \<notin> set (map lu_key (lib_purchases s))"
    "t = bought user kind target tgt e now s1" "lx_price x = to_egp_number (lt_price tgt)" "lx_balance x = en_after e"
proof -
  from assms(1) obtain e s1 where d: "wallet_debit (library_debit user kind target (lt_price tgt)) now s = Inr (e, s1)"
    by (auto simp: pay_and_grant_def bind_tx_Inr_iff)
  have f: "lib_entitlements s1 = lib_entitlements s" "lib_purchases s1 = lib_purchases s"
    using move_credit_frame [OF d [unfolded wallet_debit_def] assms(2)] by auto
  have o: "owned_part_ids user (lt_parts tgt) s1 = owned_part_ids user (lt_parts tgt) s"
    by (simp add: owned_part_ids_def library_reads_frame(1) [OF f(1)])
  from assms(1) show ?thesis
    unfolding pay_and_grant_def bind_tx_step [where m = "wallet_debit r now" for r, OF d] Let_def
    by (intro that [OF d f]) (auto simp: result_simps bought_def f o lib_purchase_def)
qed

lemma library_purchase_body_Inr:
  assumes "library_purchase_body sf user kind target now s = Inr (x, t)" "ledger_inv s"
  obtains tgt e s1 where "assert_may_acquire sf user kind target s = Inr ()" "load_target kind target s = Inr (tgt, s)"
    "valid_piastres (lt_price tgt)" "0 < lt_price tgt" "lt_parts tgt \<noteq> []"
    "length (owned_part_ids user (lt_parts tgt) s) \<noteq> length (lt_parts tgt)"
    "wallet_debit (library_debit user kind target (lt_price tgt)) now s = Inr (e, s1)"
    "lib_entitlements s1 = lib_entitlements s" "lib_purchases s1 = lib_purchases s"
    "en_id e \<notin> set (map lu_wallet_tx (lib_purchases s))"
    "library_key kind target user \<notin> set (map lu_key (lib_purchases s))"
    "t = bought user kind target tgt e now s1" "lx_price x = to_egp_number (lt_price tgt)" "lx_balance x = en_after e"
proof -
  from assms(1) obtain tgt where g: "assert_may_acquire sf user kind target s = Inr ()"
      "load_target kind target s = Inr (tgt, s)" "0 < lt_price tgt" "lt_parts tgt \<noteq> []"
      "length (owned_part_ids user (lt_parts tgt) s) \<noteq> length (lt_parts tgt)"
      "pay_and_grant user kind target tgt (owned_part_ids user (lt_parts tgt) s) now s = Inr (x, t)"
    by (auto simp: library_purchase_body_def bind_tx_Inr_iff lift_tx_Inr_iff require_tx_Inr_iff
        assert_active_account_Inr_iff dest: load_target_state)
  have v: "valid_piastres (lt_price tgt)" using load_target_state [OF g(2)] by blast
  from g(6) assms(2) show ?thesis
    by (rule pay_and_grant_Inr) (rule that [OF g(1,2) v g(3,4,5)])
qed

section \<open>The Library's books\<close>

definition library_source :: "wallet_tx_source \<Rightarrow> bool" where
  "library_source x \<longleftrightarrow> x = WS_LIBRARY_PART \<or> x = WS_LIBRARY_PACKAGE"

definition is_library_key :: "idem_key option \<Rightarrow> bool" where
  "is_library_key k \<longleftrightarrow> (case k of Some (LibPartKey _ _) \<Rightarrow> True | Some (LibPkgKey _ _) \<Rightarrow> True | _ \<Rightarrow> False)"

text \<open>The ledger entry that paid for a purchase.\<close>

definition pays :: "wallet_tx_row \<Rightarrow> lib_purchase_row \<Rightarrow> bool" where
  "pays x u \<longleftrightarrow> wt_id x = lu_wallet_tx u \<and> wt_user x = lu_user u \<and> wt_direction x = W_DEBIT
     \<and> wt_amount x = lu_price u \<and> wt_key x = Some (lu_key u)"

definition spent_in_library :: "id \<Rightarrow> db \<Rightarrow> int" where
  "spent_in_library v s = sum_where (\<lambda>x. wt_user x = v \<and> library_source (wt_source x)) wt_amount (wallet_txs s)"

definition library_sales :: "id \<Rightarrow> db \<Rightarrow> int" where
  "library_sales v s = sum_where (\<lambda>u. lu_user u = v) lu_price (lib_purchases s)"

definition bought_part :: "lib_entitlement_row \<Rightarrow> lib_purchase_row \<Rightarrow> bool" where
  "bought_part e u \<longleftrightarrow> le_purchase e = Some (lu_id u) \<and> le_user e = lu_user u \<and> le_part e \<in> set (lu_parts u)"

definition library_books :: "db \<Rightarrow> bool" where
  "library_books s \<longleftrightarrow>
     ledger_inv s
     \<and> (\<forall>x \<in> set (wallet_txs s). wt_id x < db_next s)
     \<and> unique_on lu_wallet_tx (lib_purchases s) \<and> unique_on lu_key (lib_purchases s)
     \<and> (\<forall>u \<in> set (lib_purchases s). \<exists>x \<in> set (wallet_txs s). pays x u)
     \<and> (\<forall>x \<in> set (wallet_txs s). is_library_key (wt_key x) \<longrightarrow> (\<exists>u \<in> set (lib_purchases s). pays x u))
     \<and> (\<forall>v. spent_in_library v s = library_sales v s)
     \<and> (\<forall>e \<in> set (lib_entitlements s). \<exists>u \<in> set (lib_purchases s). bought_part e u)
     \<and> unique_on lib_key (lib_entitlements s)
     \<and> (\<forall>u \<in> set (lib_purchases s). \<forall>p \<in> set (lu_parts u). (lu_user u, p) \<in> lib_key ` set (lib_entitlements s))
     \<and> (\<forall>u \<in> set (lib_purchases s). \<forall>i v. lu_key u = LibPartKey i v \<longrightarrow> lu_user u = v \<and> lu_parts u = [i])"

definition library_start :: "db \<Rightarrow> bool" where
  "library_start s \<longleftrightarrow> wallets s = [] \<and> wallet_txs s = [] \<and> lib_purchases s = [] \<and> lib_entitlements s = []"

inductive library_step :: "db \<Rightarrow> db \<Rightarrow> bool" where
  lib_buys: "library_purchase_body sf user kind target now s = Inr (x, t) \<Longrightarrow> library_step s t"
| lib_adjusted: "move_credit dir (adjust_request user amount actor) now s = Inr (e, t) \<Longrightarrow> library_step s t"
| lib_recharged: "redeem_recharge_body raw user now s = Inr (out, t) \<Longrightarrow> library_step s t"
| lib_summary: "wallet_summary_of u s = Inr (x, t) \<Longrightarrow> library_step s t"
| lib_other: "wallets t = wallets s \<Longrightarrow> wallet_txs t = wallet_txs s \<Longrightarrow> lib_purchases t = lib_purchases s \<Longrightarrow>
    lib_entitlements t = lib_entitlements s \<Longrightarrow> db_next s \<le> db_next t \<Longrightarrow> library_step s t"

text \<open>What a movement appends.\<close>

lemma move_credit_row:
  assumes "move_credit dir r now s = Inr (e, t)" "ledger_inv s"
  obtains (replayed) row where "t = s" "row \<in> set (wallet_txs s)" "wt_key row = lr_key r" "lr_key r \<noteq> None"
      "e = entry_of_row row True"
    | (moved) row ws n where "t = s\<lparr>wallets := ws, wallet_txs := wallet_txs s @ [row], db_next := n\<rparr>"
      "db_next s \<le> wt_id row" "wt_id row < n" "wt_user row = lr_user r" "wt_direction row = dir"
      "wt_source row = lr_source r" "wt_key row = lr_key r" "e = entry_of_row row False"
      "parse_amount (lr_amount r) ''amount'' = Inr (wt_amount row)" "lr_key r = None \<or> lr_key r \<notin> wt_key ` set (wallet_txs s)"
  using assms
proof (cases rule: move_credit_Inr)
  case (replayed row)
  then show ?thesis
    by (intro that(1)) (auto simp: find_replay_def split: option.splits dest!: find_Some)
next
  case (moved p w s1)
  let ?row = "ledger_row dir r now p w (db_next s1)"
  obtain ws n where s1: "s1 = s\<lparr>wallets := ws, db_next := n\<rparr>" "db_next s \<le> n"
    using ensure_wallet_props(4,5) [OF moved(4)] by auto
  show ?thesis
    by (rule that(2) [where row = ?row and ws = "wallets t" and n = "db_next t"])
      (use moved s1 find_replay_None [of "lr_key r" s] in \<open>auto simp: after_move_def ledger_row_def\<close>)
qed

lemma library_books_frame:
  assumes "library_books s" "ledger_inv t" "db_next s \<le> db_next t"
    and "wallet_txs t = wallet_txs s @ ts" "lib_purchases t = lib_purchases s" "lib_entitlements t = lib_entitlements s"
    and "\<And>x. x \<in> set ts \<Longrightarrow> wt_id x < db_next t \<and> \<not> library_source (wt_source x) \<and> \<not> is_library_key (wt_key x)"
  shows "library_books t"
proof -
  have "spent_in_library v t = spent_in_library v s" for v
  proof -
    have "sum_where (\<lambda>x. wt_user x = v \<and> library_source (wt_source x)) wt_amount ts = 0"
      using assms(7) by (induction ts) auto
    then show ?thesis by (simp add: spent_in_library_def assms(4) table_simps)
  qed
  moreover have "library_sales v t = library_sales v s" for v by (simp add: library_sales_def assms(5))
  ultimately show ?thesis
    using assms unfolding library_books_def by auto
qed

lemma move_library_books:
  assumes "move_credit dir r now s = Inr (e, t)" "library_books s"
    and "\<not> library_source (lr_source r)" "\<not> is_library_key (lr_key r)"
  shows "library_books t"
proof -
  have i: "ledger_inv s" using assms(2) by (simp add: library_books_def)
  note it = move_credit_inv [OF assms(1) i]
  from assms(1) i show ?thesis
  proof (cases rule: move_credit_row)
    case (moved row ws n)
    show ?thesis
      by (rule library_books_frame [OF assms(2) it, of "[row]"]) (use moved assms(3,4) in auto)
  qed (use assms(2) in simp)
qed

lemma redeem_library_books:
  assumes "redeem_recharge_body raw user now s = Inr (out, t)" "library_books s"
  shows "library_books t"
  using assms(1)
proof (rule redeem_recharge_Inr)
  fix code entry s1
  assume c: "credit_card_amount code user now (the (k_credit code)) s = Inr (entry, s1)"
    and t: "t = redeemed_state code user now entry s1"
  have "library_books s1"
  proof (cases "0 < the (k_credit code)")
    case True
    with c obtain e where "move_credit W_CREDIT (recharge_request code user) now s = Inr (e, s1)"
      by (auto simp: credit_card_amount_Inr_iff wallet_credit_def)
    then show ?thesis
      by (rule move_library_books) (use assms(2) in \<open>simp_all add: recharge_request_def library_source_def is_library_key_def\<close>)
  qed (use c assms(2) in \<open>simp add: credit_card_amount_Inr_iff\<close>)
  then show ?thesis
    by (rule library_books_frame [where ts = "[]"])
      (use \<open>library_books s1\<close> in \<open>auto simp: t redeemed_state_def library_books_def intro: ledger_inv_frame\<close>)
qed

lemma library_debit_fields [simp]:
  "lr_user (library_debit user kind target p) = user"
  "lr_key (library_debit user kind target p) = Some (library_key kind target user)"
  "lr_amount (library_debit user kind target p) = MStr (render_piastres p)"
  "library_source (lr_source (library_debit user kind target p))"
  by (cases kind; simp add: library_debit_def library_source_def)+

lemma library_key_is [simp]: "is_library_key (Some (library_key kind target user))"
  by (cases kind) (simp_all add: library_key_def is_library_key_def)

lemma parse_rendered: "valid_piastres p \<Longrightarrow> parse_amount (MStr (render_piastres p)) f = Inr p"
  by (simp add: parse_amount_def result_simps read_rendered)

text \<open>Under the books an unused purchase key is an unused ledger key.\<close>

lemma library_key_unused:
  assumes "library_books s" "library_key kind target user \<notin> set (map lu_key (lib_purchases s))"
  shows "\<not> key_used (library_key kind target user) s"
proof
  assume "key_used (library_key kind target user) s"
  then obtain x where x: "x \<in> set (wallet_txs s)" "wt_key x = Some (library_key kind target user)"
    by (auto simp: key_used_def)
  with assms(1) obtain u where "u \<in> set (lib_purchases s)" "pays x u" by (fastforce simp: library_books_def)
  with x assms(2) show False by (auto simp: pays_def)
qed

text \<open>The state after a purchase, table by table.\<close>

lemma library_purchase_state:
  assumes "library_purchase_body sf user kind target now s = Inr (x, t)" "library_books s"
  obtains tgt row u new where "assert_may_acquire sf user kind target s = Inr ()"
    "load_target kind target s = Inr (tgt, s)" "0 < lt_price tgt" "ledger_inv t" "db_next s < db_next t"
    "wallet_txs t = wallet_txs s @ [row]" "db_next s \<le> wt_id row" "wt_id row < db_next t" "library_source (wt_source row)"
    "lib_purchases t = lib_purchases s @ [u]" "pays row u" "lu_user u = user" "lu_price u = lt_price tgt"
    "lu_parts u = lt_parts tgt" "lu_key u = library_key kind target user" "lu_key u \<notin> set (map lu_key (lib_purchases s))"
    "lu_wallet_tx u \<notin> set (map lu_wallet_tx (lib_purchases s))" "lib_entitlements t = lib_entitlements s @ new"
    "\<And>e. e \<in> set new \<Longrightarrow> bought_part e u \<and> le_revoked_at e = None"
    "\<And>p. p \<in> set (lt_parts tgt) \<Longrightarrow> owns user t p" "unique_on lib_key (lib_entitlements t)"
    "\<And>v. balance_of v t = (if v = user then balance_of v s - lt_price tgt else balance_of v s)"
    "lt_price tgt \<le> balance_of user s" "lx_price x = to_egp_number (lt_price tgt)"
proof -
  have i: "ledger_inv s" using assms(2) by (simp add: library_books_def)
  from assms(1) i show ?thesis
  proof (rule library_purchase_body_Inr)
    fix tgt e s1
    assume b: "assert_may_acquire sf user kind target s = Inr ()" "load_target kind target s = Inr (tgt, s)"
        "valid_piastres (lt_price tgt)" "0 < lt_price tgt"
      and d: "wallet_debit (library_debit user kind target (lt_price tgt)) now s = Inr (e, s1)"
      and f: "lib_entitlements s1 = lib_entitlements s" "lib_purchases s1 = lib_purchases s"
      and n: "en_id e \<notin> set (map lu_wallet_tx (lib_purchases s))"
        "library_key kind target user \<notin> set (map lu_key (lib_purchases s))"
      and t: "t = bought user kind target tgt e now s1" and x: "lx_price x = to_egp_number (lt_price tgt)"
    note ku = library_key_unused [OF assms(2) n(2)]
    have i1: "ledger_inv s1" by (rule wallet.debit_inv [OF d i])
    have bal: "balance_of v s1 = (if v = user then balance_of v s - lt_price tgt else balance_of v s)" for v
      using wallet.debit_pays [OF d i _ ku] by simp
    obtain row ws k where r: "s1 = s\<lparr>wallets := ws, wallet_txs := wallet_txs s @ [row], db_next := k\<rparr>"
        "db_next s \<le> wt_id row" "wt_id row < k" "wt_user row = user" "wt_direction row = W_DEBIT"
        "library_source (wt_source row)" "wt_key row = Some (library_key kind target user)"
        "e = entry_of_row row False" "wt_amount row = lt_price tgt"
      using d [unfolded wallet_debit_def] i
    proof (cases rule: move_credit_row)
      case (replayed y)
      then have "wt_key y = Some (library_key kind target user)" by simp
      with replayed(2) ku show ?thesis by (force simp: key_used_def)
    next
      case (moved y ws n)
      have p: "wt_amount y = lt_price tgt" using moved(9) parse_rendered [OF b(3)] by simp
      show ?thesis
        by (rule that [OF moved(1,2,3) _ moved(5) _ _ moved(8) p]) (simp_all add: moved(4,6,7))
    qed
    let ?u = "lib_purchase (db_next s1) user kind target tgt (en_id e) now"
    let ?g = "filter (\<lambda>p. p \<notin> set (owned_part_ids user (lt_parts tgt) s1)) (lt_parts tgt)"
    have le: "lib_entitlements t = grant_parts user (if kind = LK_PART then LS_PURCHASE else LS_PACKAGE) (db_next s1) now ?g
        (lib_entitlements s)"
      by (simp add: t bought_def f)
    obtain new where g: "lib_entitlements t = lib_entitlements s @ new"
        "\<And>e. e \<in> set new \<Longrightarrow> le_user e = user \<and> le_part e \<in> set ?g \<and> le_purchase e = Some (db_next s1) \<and> le_revoked_at e = None"
        "\<And>p. p \<in> set ?g \<Longrightarrow> \<exists>e \<in> set (lib_entitlements s @ new). lib_key e = (user, p)"
        "unique_on lib_key (lib_entitlements s) \<Longrightarrow> unique_on lib_key (lib_entitlements s @ new)"
      unfolding le by (rule grant_parts_props) blast
    have own: "owns user t p" if p: "p \<in> set (lt_parts tgt)" for p
    proof (cases "owns user s p")
      case True
      then show ?thesis by (auto simp: owns_iff g(1))
    next
      case False
      then have "p \<in> set ?g" using p by (auto simp: owned_part_ids_def library_reads_frame(1) [OF f(1)])
      with g(3) obtain y where "y \<in> set (lib_entitlements t)" "lib_key y = (user, p)" unfolding g(1) by blast
      then show ?thesis
        using gate_parts [OF b(1,2) p] g(2) by (auto simp: owns_iff lost_iff lib_key_def g(1))
    qed
    show ?thesis
    proof (rule that [OF b(1,2,4), where row = row and u = ?u and new = new])
      show "ledger_inv t" by (rule ledger_inv_frame [OF i1]) (simp_all add: t bought_def)
      show "balance_of v t = (if v = user then balance_of v s - lt_price tgt else balance_of v s)" for v
        using bal [of v] by (simp add: balance_of_def t bought_def)
      show "lt_price tgt \<le> balance_of user s"
        using bal [of user] balance_of_valid [OF i1, of user] by simp
      show "unique_on lib_key (lib_entitlements t)" using g(1,4) assms(2) by (simp add: library_books_def)
      show "bought_part y ?u \<and> le_revoked_at y = None" if "y \<in> set new" for y
        using g(2) [OF that] by (simp add: bought_part_def lib_purchase_def)
    qed (use r n own g(1) x f in \<open>auto simp: t bought_def lib_purchase_def pays_def entry_of_row_def\<close>)
  qed
qed

lemma purchase_library_books:
  assumes "library_purchase_body sf user kind target now s = Inr (x, t)" "library_books s"
  shows "library_books t"
proof (rule library_purchase_state [OF assms])
  fix tgt row u new
  assume l: "load_target kind target s = Inr (tgt, s)" "lu_parts u = lt_parts tgt" "lu_user u = user"
      "lu_key u = library_key kind target user" "\<And>p. p \<in> set (lt_parts tgt) \<Longrightarrow> owns user t p"
    and r: "wallet_txs t = wallet_txs s @ [row]" "db_next s \<le> wt_id row" "wt_id row < db_next t" "library_source (wt_source row)"
    and u: "lib_purchases t = lib_purchases s @ [u]" "pays row u"
    and k: "lu_key u \<notin> set (map lu_key (lib_purchases s))" "lu_wallet_tx u \<notin> set (map lu_wallet_tx (lib_purchases s))"
    and e: "lib_entitlements t = lib_entitlements s @ new" "\<And>e. e \<in> set new \<Longrightarrow> bought_part e u \<and> le_revoked_at e = None"
    and o: "ledger_inv t" "unique_on lib_key (lib_entitlements t)" "db_next s < db_next t"
  have "spent_in_library v t = library_sales v t" for v
    using assms(2) r(4) u(2) by (auto simp: library_books_def spent_in_library_def library_sales_def r(1) u(1) table_simps pays_def)
  moreover have "unique_on lu_wallet_tx (lib_purchases t)" "unique_on lu_key (lib_purchases t)"
    using assms(2) k by (simp_all add: library_books_def u(1) table_simps)
  moreover have "\<forall>x \<in> set (wallet_txs t). wt_id x < db_next t"
    using assms(2) r(3) o(3) by (auto simp: library_books_def r(1))
  moreover have "\<forall>y \<in> set (lib_purchases t). \<exists>x \<in> set (wallet_txs t). pays x y"
    using assms(2) u(2) by (auto simp: library_books_def r(1) u(1))
  moreover have "\<forall>x \<in> set (wallet_txs t). is_library_key (wt_key x) \<longrightarrow> (\<exists>y \<in> set (lib_purchases t). pays x y)"
    using assms(2) u(2) by (auto simp: library_books_def r(1) u(1))
  moreover have "\<forall>y \<in> set (lib_entitlements t). \<exists>z \<in> set (lib_purchases t). bought_part y z"
    using assms(2) e(2) by (auto simp: library_books_def e(1) u(1))
  moreover have "\<forall>y \<in> set (lib_purchases t). \<forall>p \<in> set (lu_parts y). (lu_user y, p) \<in> lib_key ` set (lib_entitlements t)"
  proof -
    have "(user, p) \<in> lib_key ` set (lib_entitlements t)" if "p \<in> set (lt_parts tgt)" for p
      using l(5) [OF that] by (force simp: owns_iff lib_key_def)
    with assms(2) l(2,3) show ?thesis by (auto simp: library_books_def u(1) e(1) image_Un)
  qed
  moreover have "\<forall>y \<in> set (lib_purchases t). \<forall>i v. lu_key y = LibPartKey i v \<longrightarrow> lu_user y = v \<and> lu_parts y = [i]"
  proof -
    have "lu_key u = LibPartKey i v \<longrightarrow> lu_user u = v \<and> lu_parts u = [i]" for i v
      using l by (cases kind)
        (auto simp: library_key_def load_target_def load_part_Inr_iff find_lib_part_def dest!: find_Some)
    with assms(2) show ?thesis by (auto simp: library_books_def u(1))
  qed
  ultimately show ?thesis using o(1,2) by (simp add: library_books_def)
qed

lemma summary_library_books:
  assumes "wallet_summary_of u s = Inr (x, t)" "library_books s"
  shows "library_books t"
proof -
  have i: "ledger_inv t" using wallet_summary_inv [OF assms(1)] assms(2) by (simp add: library_books_def)
  obtain w where "ensure_wallet u s = Inr (w, t)"
    using assms(1) by (auto simp: wallet_summary_of_def result_simps)
  from ensure_wallet_props(4,5) [OF this] show ?thesis
    by (intro library_books_frame [OF assms(2) i, of "[]"]) auto
qed

interpretation library_machine: invariant_system library_start library_step library_books
proof
  show "library_start s \<Longrightarrow> library_books s" for s
    by (simp add: library_start_def library_books_def ledger_inv_empty spent_in_library_def library_sales_def)
  show "library_books s \<Longrightarrow> library_step s t \<Longrightarrow> library_books t" for s t
  proof (erule library_step.cases)
    fix sf user kind target now s' x t' assume "s = s'" "t = t'" "library_purchase_body sf user kind target now s' = Inr (x, t')"
      and "library_books s"
    then show "library_books t" using purchase_library_books by blast
  next
    fix dir user amount actor now s' e t'
    assume "s = s'" "t = t'" "move_credit dir (adjust_request user amount actor) now s' = Inr (e, t')" "library_books s"
    then show "library_books t"
      using move_library_books [of dir "adjust_request user amount actor" now s e t]
      by (simp add: adjust_request_def library_source_def is_library_key_def)
  next
    fix raw user now s' out t'
    assume "s = s'" "t = t'" "redeem_recharge_body raw user now s' = Inr (out, t')" "library_books s"
    then show "library_books t" using redeem_library_books by blast
  next
    fix u s' x t' assume "s = s'" "t = t'" "wallet_summary_of u s' = Inr (x, t')" "library_books s"
    then show "library_books t" using summary_library_books by blast
  next
    fix t' s' assume "s = s'" "t = t'" "library_books s" "wallets t' = wallets s'" "wallet_txs t' = wallet_txs s'"
      "lib_purchases t' = lib_purchases s'" "lib_entitlements t' = lib_entitlements s'" "db_next s' \<le> db_next t'"
    then show "library_books t"
      by (intro library_books_frame [of s t "[]"]) (auto simp: library_books_def intro: ledger_inv_frame)
  qed
qed

text \<open>A purchase that passes every check and is affordable goes through.\<close>

lemma library_purchase_possible:
  assumes "library_books s" "assert_may_acquire sf user kind target s = Inr ()"
    and "load_target kind target s = Inr (tgt, s)" "0 < lt_price tgt" "lt_parts tgt \<noteq> []"
    and "List.find (\<lambda>u. u_id u = user \<and> u_deleted_at u = None) (users s) = Some r" "u_status r = AS_ACTIVE"
    and "length (owned_part_ids user (lt_parts tgt) s) \<noteq> length (lt_parts tgt)"
    and "library_key kind target user \<notin> set (map lu_key (lib_purchases s))" "lt_price tgt \<le> balance_of user s"
  shows "\<exists>x t. library_purchase_body sf user kind target now s = Inr (x, t)"
proof -
  let ?r = "library_debit user kind target (lt_price tgt)"
  have i: "ledger_inv s" using assms(1) by (simp add: library_books_def)
  have v: "valid_piastres (lt_price tgt)" using load_target_state [OF assms(3)] by blast
  have p: "parse_amount (lr_amount ?r) ''amount'' = Inr (lt_price tgt)" using parse_rendered [OF v] by simp
  have n: "find_replay (lr_key ?r) s = None"
    using library_key_unused [OF assms(1,9)] by (auto simp: find_replay_None key_used_def)
  obtain w s1 where w: "ensure_wallet (lr_user ?r) s = Inr (w, s1)" using ensure_wallet_total by blast
  let ?row = "ledger_row W_DEBIT ?r now (lt_price tgt) w (db_next s1)"
  have "w_balance w = balance_of user s" using ensure_wallet_balance(1) [OF w] by simp
  then have m: "wallet_debit ?r now s = Inr (entry_of_row ?row False, after_move W_DEBIT w ?row s1)"
    using move_credit_fresh [OF i p assms(4) n w, of W_DEBIT now] assms(10) by (simp add: wallet_debit_def)
  have f: "lib_purchases s1 = lib_purchases s" "db_next s \<le> db_next s1"
    using ensure_wallet_props(4,5) [OF w] by auto
  have "db_next s1 \<notin> set (map lu_wallet_tx (lib_purchases s))"
  proof
    assume "db_next s1 \<in> set (map lu_wallet_tx (lib_purchases s))"
    then obtain u where u: "u \<in> set (lib_purchases s)" "lu_wallet_tx u = db_next s1" by auto
    then obtain x where "x \<in> set (wallet_txs s)" "wt_id x = db_next s1"
      using assms(1) by (fastforce simp: library_books_def pays_def)
    then show False using assms(1) f(2) by (fastforce simp: library_books_def)
  qed
  then have "\<exists>x t. pay_and_grant user kind target tgt (owned_part_ids user (lt_parts tgt) s) now s = Inr (x, t)"
    unfolding pay_and_grant_def bind_tx_step [where m = "wallet_debit r now" for r, OF m] Let_def
    using assms(9) by (simp add: insert_lib_purchase_def after_move_def f lib_purchase_def entry_of_row_def ledger_row_def)
  then show ?thesis
    using assms(4,5,6,7,8) by (simp add: library_purchase_body_def bind_tx_step [where m = "load_target kind target", OF assms(3)]
        assms(2) assert_active_account_def)
qed

section \<open>The books and the purchase\<close>

text \<open>A small Library: one material of two parts and the package of both, and a reader with 100 EGP.\<close>

definition lecture_notes :: material_row where
  "lecture_notes = \<lparr>lm_id = 50, lm_title = [], lm_status = CT_PUBLISHED, lm_active = True, lm_university = Some 2,
     lm_faculty = Some 3, lm_year = None, lm_subject = None, lm_scope = DS_FACULTY, lm_departments = [], lm_sort = 0,
     lm_published_at = Some 0, lm_deleted_at = None\<rparr>"

definition notes_part :: "id \<Rightarrow> int \<Rightarrow> lib_part_row" where
  "notes_part i price = \<lparr>lp_id = i, lp_material = 50, lp_title = [], lp_status = CT_PUBLISHED, lp_active = True,
     lp_sort = int i, lp_price = price, lp_preview = False, lp_key = [], lp_size = None, lp_deleted_at = None\<rparr>"

definition notes_package :: "(id \<times> int) list \<Rightarrow> lib_package_row" where
  "notes_package items = \<lparr>lk_id = 60, lk_material = 50, lk_title = [], lk_status = CT_PUBLISHED, lk_active = True,
     lk_sort = 0, lk_price = 4000, lk_items = items, lk_deleted_at = None\<rparr>"

definition reader :: "id \<Rightarrow> user_row" where
  "reader i = \<lparr>u_id = i, u_role = R_STUDENT, u_status = AS_ACTIVE, u_full_name = [], u_phone = [], u_password = [],
     u_failed_logins = 0, u_locked_until = None, u_credentials_changed = 0, u_last_login = None, u_deleted_at = None\<rparr>"

definition notes_db :: db where
  "notes_db = empty_db\<lparr>db_next := 70, users := [reader 7],
     profiles := [\<lparr>sp_user = 7, sp_university = Some 2, sp_faculty = Some 3, sp_department = None, sp_year = None\<rparr>],
     materials := [lecture_notes], lib_parts := [notes_part 51 2000, notes_part 52 3000],
     lib_packages := [notes_package [(51, 0), (52, 1)]]\<rparr>"

definition top_up :: ledger_request where
  "top_up = adjust_request 7 (MStr ''100'') 2"

definition reader_wallet :: wallet_row where
  "reader_wallet = \<lparr>w_id = 70, w_user = 7, w_balance = 0, w_recharged = 0, w_spent = 0, w_version = 0\<rparr>"

definition funded_db :: db where
  "funded_db = after_move W_CREDIT reader_wallet (ledger_row W_CREDIT top_up 0 10000 reader_wallet 71)
     (notes_db\<lparr>wallets := [reader_wallet], db_next := 71\<rparr>)"

lemma notes_start: "library_start notes_db"
  by (simp add: library_start_def notes_db_def empty_db_def)

lemma funded: "\<exists>e. move_credit W_CREDIT top_up 0 notes_db = Inr (e, funded_db)"
proof -
  have p: "parse_amount (lr_amount top_up) ''amount'' = Inr 10000"
    by (simp add: top_up_def adjust_request_def parse_amount_def parse_simps)
  have i: "ledger_inv notes_db" by (rule ledger_inv_empty) (simp_all add: notes_db_def empty_db_def)
  have n: "find_replay (lr_key top_up) notes_db = None" by (simp add: top_up_def adjust_request_def find_replay_def)
  have w: "ensure_wallet (lr_user top_up) notes_db = Inr (reader_wallet, notes_db\<lparr>wallets := [reader_wallet], db_next := 71\<rparr>)"
    by (simp add: ensure_wallet_def Let_def notes_db_def empty_db_def top_up_def adjust_request_def reader_wallet_def)
  from move_credit_fresh [OF i p _ n w, of W_CREDIT 0] show ?thesis
    by (simp add: max_piastres_def max_money_egp_def funded_db_def reader_wallet_def)
qed

lemma funded_books: "library_books funded_db"
  using funded library_machine.inv_start [OF notes_start]
  by (auto simp: top_up_def adjust_request_def library_source_def is_library_key_def intro: move_library_books)

lemma funded_rows [simp]:
  "balance_of 7 funded_db = 10000" "users funded_db = [reader 7]" "lib_purchases funded_db = []"
  "lib_parts funded_db = [notes_part 51 2000, notes_part 52 3000]" "materials funded_db = [lecture_notes]"
  "lib_packages funded_db = [notes_package [(51, 0), (52, 1)]]" "lib_entitlements funded_db = []"
  "load_student_scope 7 funded_db = Some \<lparr>sc_university = Some 2, sc_faculty = Some 3, sc_department = None\<rparr>"
  by (simp_all add: funded_db_def after_move_def notes_db_def empty_db_def balance_of_def reader_wallet_def
      ledger_row_def upd_where_def may_move_def moved_def load_student_scope_def)

lemmas notes_defs = lecture_notes_def notes_part_def notes_package_def find_lib_part_def find_lib_package_def
  find_material_def published_material_def is_published_def is_academically_visible_def to_audience_def
  owns_def lost_def is_on_sale_def is_acquirable_content_def package_parts_def max_piastres_def max_money_egp_def

lemma funded_gate:
  "assert_may_acquire True 7 LK_PACKAGE 60 funded_db = Inr ()"
  "load_target LK_PACKAGE 60 funded_db = Inr (\<lparr>lt_price = 4000, lt_parts = [51, 52], lt_count = 2\<rparr>, funded_db)"
  by (simp_all add: assert_may_acquire_def acquire_target_def load_target_def load_package_Inr_iff item_available_def notes_defs)

lemma reader_active: "List.find (\<lambda>u. u_id u = 7 \<and> u_deleted_at u = None) (users funded_db) = Some (reader 7)"
    "u_status (reader 7) = AS_ACTIVE"
  by (simp_all add: reader_def)

lemma bundle_bought: "\<exists>x t. library_purchase_body True 7 LK_PACKAGE 60 5 funded_db = Inr (x, t)"
  by (rule library_purchase_possible [OF funded_books funded_gate _ _ reader_active])
    (simp_all add: owned_part_ids_def owns_def)

text \<open>C7: the Library's books balance. After any sequence of purchases, recharges, adjustments and
  operations elsewhere, what each student's ledger shows as spent in the Library is the sum of the
  prices recorded by their purchases; every purchase is paid by a ledger entry of its own, of that
  student and that amount; and every part a student holds was bought by a purchase that lists it.\<close>

theorem library_books_balance:
  assumes "library_start s" "library_step\<^sup>*\<^sup>* s t"
  shows "spent_in_library v t = library_sales v t
    \<and> distinct (map lu_wallet_tx (lib_purchases t))
    \<and> (\<forall>u \<in> set (lib_purchases t). \<exists>x \<in> set (wallet_txs t). pays x u)
    \<and> (\<forall>e \<in> set (lib_entitlements t). \<exists>u \<in> set (lib_purchases t). bought_part e u)"
  using library_machine.inv_reachable [OF assms] by (simp add: library_books_def unique_on_def)

theorem library_books_balance_witness:
  "\<exists>s t. library_start s \<and> library_step\<^sup>*\<^sup>* s t \<and> spent_in_library 7 t = 4000 \<and> library_sales 7 t = 4000"
proof -
  obtain x t where b: "library_purchase_body True 7 LK_PACKAGE 60 5 funded_db = Inr (x, t)" using bundle_bought by blast
  have "library_step notes_db funded_db" using funded unfolding top_up_def by (auto intro: lib_adjusted)
  then have st: "library_step\<^sup>*\<^sup>* notes_db t" using lib_buys [OF b] by (meson converse_rtranclp_into_rtranclp r_into_rtranclp)
  have "library_sales 7 t = 4000"
    by (rule library_purchase_state [OF b funded_books]) (use funded_gate(2) in \<open>auto simp: library_sales_def\<close>)
  with library_books_balance [OF notes_start st, of 7] notes_start st show ?thesis by metis
qed

text \<open>C8: a purchase costs its price and grants its parts. The debit is exactly the price read in the
  transaction and was covered by the balance; nobody else's balance moves; afterwards the student
  owns every part of the target, and no other ownership of anybody has changed.\<close>

theorem library_purchase_exact:
  assumes "library_books s" "library_purchase_body sf user kind target now s = Inr (x, t)"
  shows "\<exists>tgt. load_target kind target s = Inr (tgt, s) \<and> 0 < lt_price tgt \<and> lt_price tgt \<le> balance_of user s
    \<and> (\<forall>v. balance_of v t = (if v = user then balance_of v s - lt_price tgt else balance_of v s))
    \<and> (\<forall>v p. owns v t p \<longleftrightarrow> owns v s p \<or> (v = user \<and> p \<in> set (lt_parts tgt)))"
proof (rule library_purchase_state [OF assms(2,1)])
  fix tgt row u new
  assume l: "load_target kind target s = Inr (tgt, s)" "0 < lt_price tgt" "lt_price tgt \<le> balance_of user s"
    and b: "\<And>v. balance_of v t = (if v = user then balance_of v s - lt_price tgt else balance_of v s)"
    and u: "lu_user u = user" "lu_parts u = lt_parts tgt"
    and e: "lib_entitlements t = lib_entitlements s @ new" "\<And>e. e \<in> set new \<Longrightarrow> bought_part e u \<and> le_revoked_at e = None"
      "\<And>p. p \<in> set (lt_parts tgt) \<Longrightarrow> owns user t p"
  have "owns v t p \<longleftrightarrow> owns v s p \<or> (v = user \<and> p \<in> set (lt_parts tgt))" for v p
    using e u by (fastforce simp: owns_iff bought_part_def)
  with l b show ?thesis by blast
qed

theorem library_purchase_exact_witness:
  "\<exists>x t. library_purchase_body True 7 LK_PACKAGE 60 5 funded_db = Inr (x, t)
     \<and> balance_of 7 t = 6000 \<and> owns 7 t 51 \<and> owns 7 t 52 \<and> \<not> owns 8 t 51"
proof -
  obtain x t where b: "library_purchase_body True 7 LK_PACKAGE 60 5 funded_db = Inr (x, t)" using bundle_bought by blast
  have n: "\<not> owns 8 funded_db 51" by (simp add: owns_def)
  from library_purchase_exact [OF funded_books b] funded_gate(2) n b show ?thesis by auto
qed

section \<open>What a student sees is what a student can do\<close>

lemma published_is_on_sale:
  "is_published st a d \<longleftrightarrow> is_on_sale st a d" "is_on_sale st a d \<Longrightarrow> is_on_sale st a None"
  by (auto simp: is_published_def is_on_sale_def is_acquirable_content_def)

lemma material_full_view:
  "material_for_student sf i user s = Inr (FullView a ps ks) \<longleftrightarrow>
     (\<exists>m. find_material i s = Some m \<and> published_material m \<and> sf
        \<and> is_academically_visible (load_student_scope user s) (to_audience m) \<and> full_view user i s = FullView a ps ks)"
  by (auto simp: material_for_student_def owner_view_def split: option.splits if_splits)

lemma opens_in_full:
  assumes "unique_on lm_id (materials s)" "m \<in> set (materials s)"
  shows "(\<exists>a ps ks. material_for_student sf (lm_id m) user s = Inr (FullView a ps ks)) \<longleftrightarrow>
    sf \<and> published_material m \<and> academic_material_where (load_student_scope user s) m"
proof -
  have "find_material (lm_id m) s = Some m" using find_by_unique [OF assms] by (simp add: find_material_def)
  then show ?thesis by (simp add: material_full_view academic_filter full_view_def Let_def) blast
qed

lemma page_rows_subset: "set (page_rows p n xs) \<subseteq> set xs"
  by (auto simp: page_rows_def dest!: in_set_takeD in_set_dropD)

text \<open>the catalogue lists exactly what opens. A material is listed for a student, on a page that
  holds everything and without narrowing, exactly when it opens for them in full; and however the
  list is narrowed and paged, what it lists opens in full.\<close>

theorem catalogue_lists_what_opens:
  assumes "unique_on lm_id (materials s)" "m \<in> set (materials s)"
  shows "(lm_id m \<in> bl_material ` set (fst (browse sf user q s)) \<longrightarrow>
        (\<exists>a ps ks. material_for_student sf (lm_id m) user s = Inr (FullView a ps ks)))
    \<and> (bw_page q = 1 \<and> bw_page_size q = length (materials s) \<and> bw_text q = None \<and> bw_year q = None \<and> bw_subject q = None \<longrightarrow>
        lm_id m \<in> bl_material ` set (fst (browse sf user q s)) \<longleftrightarrow>
        (\<exists>a ps ks. material_for_student sf (lm_id m) user s = Inr (FullView a ps ks)))"
proof -
  let ?w = "browse_where (load_student_scope user s) q"
  let ?f = "browse_order (filter ?w (materials s))"
  have f: "set ?f = {m \<in> set (materials s). ?w m}" by (auto simp: browse_order_def)
  have b: "bl_material ` set (fst (browse sf user q s)) = (if sf then lm_id ` set (page_rows (bw_page q) (bw_page_size q) ?f) else {})"
    by (simp add: browse_def Let_def image_image browse_line_of_def)
  have "length ?f \<le> length (materials s)" by (simp add: browse_order_def)
  then have all: "bw_page q = 1 \<Longrightarrow> bw_page_size q = length (materials s) \<Longrightarrow> page_rows (bw_page q) (bw_page_size q) ?f = ?f"
    by (simp add: page_rows_def)
  let ?p = "page_rows (bw_page q) (bw_page_size q) ?f"
  have p: "set ?p \<subseteq> {m \<in> set (materials s). ?w m}"
    using page_rows_subset [of "bw_page q" "bw_page_size q" ?f] unfolding f .
  have i: "lm_id m \<in> lm_id ` set ?p \<longleftrightarrow> m \<in> set ?p"
  proof
    assume "lm_id m \<in> lm_id ` set ?p"
    then obtain n where n: "n \<in> set ?p" "lm_id n = lm_id m" by auto
    then have "n = m" using p unique_onD [OF assms(1) _ assms(2)] by blast
    with n(1) show "m \<in> set ?p" by simp
  qed simp
  have listed: "lm_id m \<in> bl_material ` set (fst (browse sf user q s)) \<longleftrightarrow> sf \<and> m \<in> set ?p"
    unfolding b using i by simp
  have w: "m \<in> set ?p \<Longrightarrow> published_material m \<and> academic_material_where (load_student_scope user s) m"
    using p by (auto simp: browse_where_def)
  have c: "m \<in> set ?p \<longleftrightarrow> published_material m \<and> academic_material_where (load_student_scope user s) m"
    if "bw_page q = 1 \<and> bw_page_size q = length (materials s) \<and> bw_text q = None \<and> bw_year q = None \<and> bw_subject q = None"
    using all that f assms(2) by (simp add: browse_where_def)
  show ?thesis
    unfolding listed opens_in_full [OF assms] using w c by blast
qed

theorem catalogue_lists_what_opens_witness:
  "50 \<in> bl_material ` set (fst (browse True 7 \<lparr>bw_page = 1, bw_page_size = 1, bw_text = None, bw_year = None,
      bw_subject = None\<rparr> funded_db))"
proof -
  have u: "unique_on lm_id (materials funded_db)" "lecture_notes \<in> set (materials funded_db)" by simp_all
  have "\<exists>a ps ks. material_for_student True (lm_id lecture_notes) 7 funded_db = Inr (FullView a ps ks)"
    unfolding opens_in_full [OF u] by (simp add: academic_filter notes_defs)
  with catalogue_lists_what_opens [OF u, of True 7 "\<lparr>bw_page = 1, bw_page_size = 1, bw_text = None, bw_year = None,
      bw_subject = None\<rparr>"] show ?thesis by (simp add: lecture_notes_def)
qed

lemma find_unique:
  "unique_on key rows \<Longrightarrow> r \<in> set rows \<Longrightarrow> P r \<Longrightarrow> List.find (\<lambda>x. key x = key r \<and> P x) rows = Some r"
proof (induction rows)
  case (Cons x xs)
  then show ?case by (cases "x = r") auto
qed simp

lemma part_line_of:
  assumes "full_view user i s = FullView a ps ks" "l \<in> set ps"
  obtains p where "p \<in> set (lib_parts s)" "lp_material p = i" "is_published (lp_status p) (lp_active p) (lp_deleted_at p)"
    "l = \<lparr>pl_part = lp_id p, pl_price = Some (to_egp_number (lp_price p)), pl_access = access_of user s p,
          pl_ownership = ownership_of user s (lp_id p)\<rparr>"
proof -
  have "ps = map (\<lambda>p. \<lparr>pl_part = lp_id p, pl_price = Some (to_egp_number (lp_price p)), pl_access = access_of user s p,
      pl_ownership = ownership_of user s (lp_id p)\<rparr>) (published_parts i s)"
    using assms(1) by (simp add: full_view_def Let_def)
  then obtain p where "p \<in> set (published_parts i s)" "l = \<lparr>pl_part = lp_id p, pl_price = Some (to_egp_number (lp_price p)),
      pl_access = access_of user s p, pl_ownership = ownership_of user s (lp_id p)\<rparr>"
    using assms(2) by auto
  then show thesis by (intro that [of p]) (simp_all add: published_parts_def)
qed

text \<open>a part is shown as purchasable exactly when it would be sold, money permitting. For a student
  with an active account who sees a material in full, the purchase of any part shown there succeeds
  if and only if the view says it is purchasable and the balance covers the price shown.\<close>

theorem purchasable_part_is_sold:
  assumes "library_books s" "unique_on lp_id (lib_parts s)" "\<forall>p \<in> set (lib_parts s). valid_piastres (lp_price p)"
    and "List.find (\<lambda>u. u_id u = user \<and> u_deleted_at u = None) (users s) = Some r" "u_status r = AS_ACTIVE"
    and "material_for_student sf i user s = Inr (FullView a ps ks)" "l \<in> set ps"
  shows "\<exists>price. pl_price l = Some (to_egp_number price)
    \<and> ((\<exists>x t. library_purchase_body sf user LK_PART (pl_part l) now s = Inr (x, t))
        \<longleftrightarrow> pl_access l = LA_PURCHASABLE \<and> price \<le> balance_of user s)"
proof -
  from assms(6) obtain m where m: "find_material i s = Some m" "published_material m" sf
      "is_academically_visible (load_student_scope user s) (to_audience m)" "full_view user i s = FullView a ps ks"
    by (auto simp: material_full_view)
  obtain p where p: "p \<in> set (lib_parts s)" "lp_material p = i" "is_published (lp_status p) (lp_active p) (lp_deleted_at p)"
    and l: "l = \<lparr>pl_part = lp_id p, pl_price = Some (to_egp_number (lp_price p)), pl_access = access_of user s p,
          pl_ownership = ownership_of user s (lp_id p)\<rparr>"
    using m(5) assms(7) by (rule part_line_of)
  have fp: "find_lib_part (lp_id p) s = Some p"
    using find_unique [OF assms(2) p(1), of "\<lambda>p. lp_deleted_at p = None"] p(3)
    by (simp add: find_lib_part_def is_published_def)
  have gate: "assert_may_acquire sf user LK_PART (lp_id p) s
      = (if lost user s (lp_id p) then Inl (app_error LIBRARY_ENTITLEMENT_REVOKED)
         else if lp_preview p then Inl (app_error INVALID_STATE) else Inr ())"
    using m(2,3,4) by (simp add: assert_may_acquire_def acquire_target_def fp p(2) m(1))
  have load: "load_target LK_PART (lp_id p) s = Inr (\<lparr>lt_price = lp_price p, lt_parts = [lp_id p], lt_count = 1\<rparr>, s)"
    using m(2) p(3) assms(3) p(1)
    by (auto simp: load_target_def load_part_Inr_iff fp p(2) m(1) published_material_def published_is_on_sale)
  have owned: "length (owned_part_ids user [lp_id p] s) \<noteq> length [lp_id p] \<longleftrightarrow> \<not> owns user s (lp_id p)"
    by (simp add: owned_part_ids_def)
  show ?thesis
  proof (intro exI conjI)
    show "pl_price l = Some (to_egp_number (lp_price p))" by (simp add: l)
    show "(\<exists>x t. library_purchase_body sf user LK_PART (pl_part l) now s = Inr (x, t))
        \<longleftrightarrow> pl_access l = LA_PURCHASABLE \<and> lp_price p \<le> balance_of user s"
    proof
      assume "\<exists>x t. library_purchase_body sf user LK_PART (pl_part l) now s = Inr (x, t)"
      then obtain x t where b: "library_purchase_body sf user LK_PART (lp_id p) now s = Inr (x, t)" by (auto simp: l)
      have "ledger_inv s" using assms(1) by (simp add: library_books_def)
      with b have "assert_may_acquire sf user LK_PART (lp_id p) s = Inr () \<and> 0 < lp_price p
          \<and> length (owned_part_ids user [lp_id p] s) \<noteq> length [lp_id p]"
        by (rule library_purchase_body_Inr) (use load in \<open>auto simp: load\<close>)
      moreover have "lp_price p \<le> balance_of user s"
        by (rule library_purchase_state [OF b assms(1)]) (use load in auto)
      ultimately show "pl_access l = LA_PURCHASABLE \<and> lp_price p \<le> balance_of user s"
        using owned by (auto simp: l access_of_def gate split: if_splits)
    next
      assume "pl_access l = LA_PURCHASABLE \<and> lp_price p \<le> balance_of user s"
      then have c: "\<not> owns user s (lp_id p)" "\<not> lp_preview p" "\<not> lost user s (lp_id p)" "0 < lp_price p"
          "lp_price p \<le> balance_of user s"
        by (auto simp: l access_of_def split: if_splits)
      have k: "library_key LK_PART (lp_id p) user \<notin> set (map lu_key (lib_purchases s))"
      proof
        assume "library_key LK_PART (lp_id p) user \<in> set (map lu_key (lib_purchases s))"
        then obtain u where "u \<in> set (lib_purchases s)" "lu_key u = LibPartKey (lp_id p) user"
          by (auto simp: library_key_def)
        then have "(user, lp_id p) \<in> lib_key ` set (lib_entitlements s)"
          using assms(1) by (fastforce simp: library_books_def)
        then show False using c(1,3) by (auto simp: owns_iff lost_iff lib_key_def)
      qed
      have "\<exists>x t. library_purchase_body sf user LK_PART (lp_id p) now s = Inr (x, t)"
        by (rule library_purchase_possible [OF assms(1) _ load _ _ assms(4,5) _ k]) (use c gate owned in simp_all)
      then show "\<exists>x t. library_purchase_body sf user LK_PART (pl_part l) now s = Inr (x, t)" by (simp add: l)
    qed
  qed
qed

theorem purchasable_part_is_sold_witness:
  "\<exists>x t. library_purchase_body True 7 LK_PART 52 5 funded_db = Inr (x, t)"
proof -
  let ?p = "notes_part 52 3000"
  let ?l = "\<lparr>pl_part = 52, pl_price = Some (to_egp_number 3000), pl_access = access_of 7 funded_db ?p,
      pl_ownership = ownership_of 7 funded_db 52\<rparr>"
  obtain a ps ks where f: "full_view 7 50 funded_db = FullView a ps ks" by (cases "full_view 7 50 funded_db") (auto simp: full_view_def Let_def)
  have m: "material_for_student True 50 7 funded_db = Inr (FullView a ps ks)"
    by (simp add: material_full_view f notes_defs)
  have "?l \<in> set ps" using f by (auto simp: full_view_def Let_def published_parts_def notes_defs)
  then have "\<exists>price. Some (to_egp_number 3000) = Some (to_egp_number price)
      \<and> ((\<exists>x t. library_purchase_body True 7 LK_PART 52 5 funded_db = Inr (x, t))
        \<longleftrightarrow> access_of 7 funded_db ?p = LA_PURCHASABLE \<and> price \<le> balance_of 7 funded_db)"
    using purchasable_part_is_sold [OF funded_books _ _ reader_active m, of ?l 5] by (auto simp: notes_defs)
  then show ?thesis by (auto simp: access_of_def notes_defs to_egp_number_def)
qed

text \<open>a purchase happens once. After a student has bought a target, another purchase of it is answered
  with the first one, whatever the target contains by then: nobody's balance, no purchase and no
  ownership changes. (So a package that has gained a part since stays without it for its buyers.)\<close>

theorem repeated_purchase_changes_nothing:
  assumes "library_books s" "u \<in> set (lib_purchases s)" "lu_key u = library_key kind target user"
    and "library_purchase_call sf w user kind target now s = (r, t)"
  shows "(\<forall>x. r = Inr x \<longrightarrow> lx_already x \<and> lx_purchase x = lu_id u \<and> lx_price x = to_egp_number (lu_price u))
    \<and> (\<forall>v. balance_of v t = balance_of v s) \<and> lib_purchases t = lib_purchases s
    \<and> lib_entitlements t = lib_entitlements s"
proof -
  have un: "unique_on lu_key (lib_purchases s)" using assms(1) by (simp add: library_books_def)
  have f: "find_by lu_key (library_key kind target user) (lib_purchases s) = Some u"
    using find_by_unique [OF un assms(2)] assms(3) by simp
  show ?thesis
  proof (cases "assert_may_acquire sf user kind target s")
    case (Inl e)
    with assms(4) show ?thesis by (auto simp: library_purchase_call_def)
  next
    case (Inr y)
    obtain v t1 where v: "ensure_wallet (lu_user u) s = Inr (v, t1)" using ensure_wallet_total by blast
    note ep = ensure_wallet_props [OF v]
    have b: "balance_of a t1 = balance_of a s" for a
      using v by (cases rule: ensure_wallet_Inr) (auto simp: balance_of_def table_simps split: option.splits)
    have fr: "lib_purchases t1 = lib_purchases s" "lib_entitlements t1 = lib_entitlements s"
      using ep(5) by auto
    have i1: "ledger_inv t1"
      by (rule ensure_wallet_inv [OF v]) (use assms(1) in \<open>simp add: library_books_def\<close>)
    have fw: "find_by w_id (w_id v) (wallets t1) = Some v"
      using find_by_unique [of w_id "wallets t1" v] i1 ep(1) by (simp add: ledger_inv_def)
    have "\<exists>x. find_existing (library_key kind target user) s = Inr (Some x, t1)
        \<and> lx_already x \<and> lx_purchase x = lu_id u \<and> lx_price x = to_egp_number (lu_price u)"
      by (simp add: find_existing_def f wallet_summary_of_def bind_tx_step [where m = "ensure_wallet (lu_user u)", OF v] fw)
    then obtain x where x: "find_existing (library_key kind target user) s = Inr (Some x, t1)"
        "lx_already x" "lx_purchase x = lu_id u" "lx_price x = to_egp_number (lu_price u)" by blast
    have "r = Inr x \<and> t = t1" using assms(4) Inr x(1) by (auto simp: library_purchase_call_def)
    with x b fr show ?thesis by simp
  qed
qed

theorem repeated_purchase_changes_nothing_witness:
  "\<exists>x t. library_purchase_body True 7 LK_PACKAGE 60 5 funded_db = Inr (x, t)
     \<and> (\<forall>w. lib_entitlements (snd (library_purchase_call True w 7 LK_PACKAGE 60 9 t)) = lib_entitlements t)"
proof -
  obtain x t where b: "library_purchase_body True 7 LK_PACKAGE 60 5 funded_db = Inr (x, t)" using bundle_bought by blast
  obtain u where u: "u \<in> set (lib_purchases t)" "lu_key u = library_key LK_PACKAGE 60 7"
    by (rule library_purchase_state [OF b funded_books]) auto
  from repeated_purchase_changes_nothing [OF purchase_library_books [OF b funded_books] u surjective_pairing, of True _ 9] b
  show ?thesis by blast
qed

end
