(* ===== verification/LibraryAdmin.thy ===== *)
theory LibraryAdmin
  imports LibraryBooks Academics
begin

text \<open>
  The administration of the Library (\<open>modules/library/library.service.ts\<close>): the audience of a
  material and its validation, creating, editing and removing materials, parts and packages, and the
  sales report. The size of an uploaded document is what the object store answers, an argument. The
  step relation takes the calls one after another: the code checks and writes in separate statements,
  so its invariant (whatever has been sold, or is in a package, is never deleted) speaks of calls
  whose checks still hold when they write. The removal of a document is also defined as its two
  halves, and the last section shows what a purchase or a new package in between does.
\<close>

section \<open>Audience\<close>

record audience =
  an_university :: "id option"
  an_faculty :: "id option"
  an_scope :: library_department_scope
  an_departments :: "id list"
  an_year :: "id option"

definition audience_placement :: "audience \<Rightarrow> placement" where
  "audience_placement a = \<lparr>pl_university = an_university a, pl_faculty = an_faculty a,
     pl_departments = an_departments a, pl_year = an_year a\<rparr>"

definition assert_audience :: "audience \<Rightarrow> db \<Rightarrow> exn + unit" where
  "assert_audience a s =
     (if an_scope a = DS_FACULTY \<and> an_departments a \<noteq> []
      then Inl (validation [(''departmentIds'', [''a faculty-wide material has no department selection''])])
      else if an_scope a = DS_DEPARTMENTS \<and> an_departments a = []
      then Inl (validation [(''departmentIds'', [''choose at least one department''])])
      else bind_r (check_academic_structure library_placement (audience_placement a) s) (\<lambda>_.
        check_year_in_ladder library_placement (audience_placement a) s))"

definition check_db :: "(db \<Rightarrow> exn + 'a) \<Rightarrow> 'a dbtx" where
  "check_db q = bind_tx (get_tx q) lift_tx"

definition library_audit :: "id \<Rightarrow> string \<Rightarrow> string \<Rightarrow> id \<Rightarrow> unit dbtx" where
  "library_audit actor action entity i =
     modify_tx (audit_with \<lparr>au_actor = Some actor, au_action = action, au_entity = entity, au_entity_id = i, au_note = []\<rparr>)"

section \<open>Materials\<close>

record material_request =
  mq_title :: string
  mq_university :: "id option"
  mq_faculty :: "id option"
  mq_scope :: "library_department_scope option"
  mq_departments :: "id list option"
  mq_year :: "id option"
  mq_subject :: "id option"

definition requested_audience :: "material_request \<Rightarrow> audience" where
  "requested_audience q =
     \<lparr>an_university = mq_university q, an_faculty = mq_faculty q,
      an_scope = (case mq_scope q of None \<Rightarrow> DS_FACULTY | Some x \<Rightarrow> x),
      an_departments = remdups (case mq_departments q of None \<Rightarrow> [] | Some ids \<Rightarrow> ids), an_year = mq_year q\<rparr>"

definition create_material :: "material_request \<Rightarrow> id \<Rightarrow> id dbtx" where
  "create_material q actor =
     (let a = requested_audience q in
      bind_tx (check_db (assert_audience a)) (\<lambda>_.
      bind_tx fresh_id (\<lambda>i.
      bind_tx (modify_tx (\<lambda>s. s\<lparr>materials := materials s @
        [\<lparr>lm_id = i, lm_title = mq_title q, lm_status = CT_DRAFT, lm_active = True, lm_university = an_university a,
          lm_faculty = an_faculty a, lm_year = an_year a, lm_subject = mq_subject q, lm_scope = an_scope a,
          lm_departments = an_departments a, lm_sort = 0, lm_published_at = None, lm_deleted_at = None\<rparr>]\<rparr>)) (\<lambda>_.
      bind_tx (library_audit actor ''CREATE'' ''library_material'' i) (\<lambda>_.
      ret_tx i)))))"

text \<open>An edit: \<open>None\<close> is a field that was not sent, \<open>Some None\<close> one sent as null.\<close>

record material_patch =
  mp_title :: "string option"
  mp_status :: "content_status option"
  mp_active :: "bool option"
  mp_sort :: "int option"
  mp_subject :: "id option option"
  mp_university :: "id option option"
  mp_faculty :: "id option option"
  mp_scope :: "library_department_scope option"
  mp_departments :: "id list option"
  mp_year :: "id option option"

definition live_material :: "id \<Rightarrow> db \<Rightarrow> material_row option" where
  "live_material i s = List.find (\<lambda>m. lm_id m = i \<and> lm_deleted_at m = None) (materials s)"

definition untouched_audience :: "material_patch \<Rightarrow> string list" where
  "untouched_audience p =
     (if mp_university p = None then [''universityId''] else [])
     @ (if mp_faculty p = None then [''facultyId''] else [])
     @ (if mp_scope p = None then [''departmentScope''] else [])
     @ (if mp_departments p = None then [''departmentIds''] else [])
     @ (if mp_year p = None then [''academicYearId''] else [])"

definition stored_audience :: "material_row \<Rightarrow> audience" where
  "stored_audience m = \<lparr>an_university = lm_university m, an_faculty = lm_faculty m, an_scope = lm_scope m,
     an_departments = lm_departments m, an_year = lm_year m\<rparr>"

text \<open>The whole audience or none of it.\<close>

definition next_audience :: "material_patch \<Rightarrow> exn + audience option" where
  "next_audience p =
     (case untouched_audience p of
        [] \<Rightarrow> Inr (Some \<lparr>an_university = the (mp_university p), an_faculty = the (mp_faculty p), an_scope = the (mp_scope p),
                an_departments = remdups (the (mp_departments p)), an_year = the (mp_year p)\<rparr>)
      | missing \<Rightarrow>
          if length missing = 5 then Inr None
          else Inl (validation (map (\<lambda>k. (k, [''send the whole audience when changing any part of it''])) missing)))"

definition going_live :: "material_patch \<Rightarrow> material_row \<Rightarrow> bool" where
  "going_live p m \<longleftrightarrow>
     (mp_status p = Some CT_PUBLISHED \<and> lm_status m \<noteq> CT_PUBLISHED) \<or> (mp_active p = Some True \<and> \<not> lm_active m)"

text \<open>
  The department links: those kept stay in place unless the faculty changes, then the new ones are
  added, duplicates skipped.
\<close>

definition relinked :: "audience \<Rightarrow> material_row \<Rightarrow> id list" where
  "relinked a m =
     (let kept = filter (\<lambda>d. an_faculty a = lm_faculty m \<and> d \<in> set (an_departments a)) (lm_departments m) in
      kept @ filter (\<lambda>d. d \<notin> set kept) (an_departments a))"

definition opt_or :: "'a option \<Rightarrow> 'a \<Rightarrow> 'a" where
  "opt_or p x = (case p of None \<Rightarrow> x | Some y \<Rightarrow> y)"

definition patched_material :: "material_patch \<Rightarrow> audience option \<Rightarrow> time \<Rightarrow> material_row \<Rightarrow> material_row" where
  "patched_material p a now m =
     (let n = m\<lparr>lm_title := opt_or (mp_title p) (lm_title m), lm_status := opt_or (mp_status p) (lm_status m),
                lm_active := opt_or (mp_active p) (lm_active m), lm_sort := opt_or (mp_sort p) (lm_sort m),
                lm_subject := opt_or (mp_subject p) (lm_subject m),
                lm_published_at := (if mp_status p = Some CT_PUBLISHED \<and> lm_published_at m = None then Some now
                                    else lm_published_at m)\<rparr> in
      case a of
        None \<Rightarrow> n
      | Some x \<Rightarrow> n\<lparr>lm_university := an_university x, lm_faculty := an_faculty x, lm_scope := an_scope x,
                    lm_year := an_year x, lm_departments := relinked x m\<rparr>)"

definition update_material :: "id \<Rightarrow> material_patch \<Rightarrow> id \<Rightarrow> time \<Rightarrow> unit dbtx" where
  "update_material i p actor now =
     bind_tx (get_tx (live_material i)) (\<lambda>found.
     bind_tx (the_or not_found found) (\<lambda>m.
     bind_tx (lift_tx (next_audience p)) (\<lambda>a.
     bind_tx (case a of
                Some x \<Rightarrow> check_db (assert_audience x)
              | None \<Rightarrow> if going_live p m then check_db (assert_audience (stored_audience m)) else ret_tx ()) (\<lambda>_.
     bind_tx (modify_tx (\<lambda>s. s\<lparr>materials := upd_where (\<lambda>x. lm_id x = i) (patched_material p a now) (materials s)\<rparr>)) (\<lambda>_.
     library_audit actor ''UPDATE'' ''library_material'' i)))))"

definition deleted_material :: "time \<Rightarrow> material_row \<Rightarrow> material_row" where
  "deleted_material now m = m\<lparr>lm_deleted_at := Some now, lm_active := False\<rparr>"

definition held_in_material :: "id \<Rightarrow> db \<Rightarrow> nat" where
  "held_in_material i s =
     count_where (\<lambda>e. list_ex (\<lambda>p. lp_id p = le_part e \<and> lp_material p = i) (lib_parts s)) (lib_entitlements s)"

definition remove_material :: "id \<Rightarrow> id \<Rightarrow> time \<Rightarrow> unit dbtx" where
  "remove_material i actor now =
     bind_tx (get_tx (live_material i)) (\<lambda>found.
     bind_tx (the_or not_found found) (\<lambda>_.
     bind_tx (get_tx (held_in_material i)) (\<lambda>sold.
     bind_tx (require_tx (sold = 0) conflict) (\<lambda>_.
     bind_tx (modify_tx (\<lambda>s. s\<lparr>materials := upd_where (\<lambda>x. lm_id x = i) (deleted_material now) (materials s)\<rparr>)) (\<lambda>_.
     library_audit actor ''DELETE'' ''library_material'' i)))))"

section \<open>Parts\<close>

definition library_prefix :: string where
  "library_prefix = ''library/''"

definition assert_key_in_namespace :: "string \<Rightarrow> string \<Rightarrow> exn + unit" where
  "assert_key_in_namespace key namespace =
     require (take (length namespace) key = namespace) (app_error VALIDATION_ERROR)"

text \<open>The keys a client sends back must come from the namespaces they were issued from; an empty key is none.\<close>

definition thumbnail_namespace :: "id \<Rightarrow> string" where
  "thumbnail_namespace material = ''thumbnails/library/'' @ show_nat material @ ''/''"

definition assert_library_part_keys :: "string option \<Rightarrow> string option \<Rightarrow> id \<Rightarrow> exn + unit" where
  "assert_library_part_keys object thumbnail material =
     bind_r (case object of
               Some k \<Rightarrow> if k = [] then Inr () else assert_key_in_namespace k library_prefix
             | None \<Rightarrow> Inr ()) (\<lambda>_.
     case thumbnail of
       Some k \<Rightarrow> if k = [] then Inr () else assert_key_in_namespace k (thumbnail_namespace material)
     | None \<Rightarrow> Inr ())"

definition max_document_bytes :: int where
  "max_document_bytes = 200 * 1024 * 1024"

text \<open>\<open>None\<close>: the object store does not know the key.\<close>

definition assert_upload_within_limit :: "(string \<Rightarrow> int option) \<Rightarrow> string \<Rightarrow> string \<Rightarrow> exn + int" where
  "assert_upload_within_limit store key field =
     (case store key of
        None \<Rightarrow> Inl (AppEx UPLOAD_FAILED [(field, [''not found in storage''])])
      | Some n \<Rightarrow>
          if max_document_bytes < n then Inl (AppEx VALIDATION_ERROR [(field, [''over the byte limit''])]) else Inr n)"

record part_request =
  tq_title :: string
  tq_price :: int
  tq_object :: string
  tq_thumbnail :: "string option"
  tq_preview :: "bool option"
  tq_sort :: "int option"

definition last_sort :: "id \<Rightarrow> db \<Rightarrow> int" where
  "last_sort material s =
     (case filter (\<lambda>p. lp_material p = material \<and> lp_deleted_at p = None) (lib_parts s) of
        [] \<Rightarrow> 0 | ps \<Rightarrow> Max (lp_sort ` set ps))"

text \<open>The unique index on the material and the sort order spans the deleted parts.\<close>

definition create_part :: "(string \<Rightarrow> int option) \<Rightarrow> id \<Rightarrow> part_request \<Rightarrow> id \<Rightarrow> id dbtx" where
  "create_part store material q actor =
     bind_tx (get_tx (live_material material)) (\<lambda>found.
     bind_tx (the_or not_found found) (\<lambda>_.
     bind_tx (lift_tx (assert_library_part_keys (Some (tq_object q)) (tq_thumbnail q) material)) (\<lambda>_.
     bind_tx (lift_tx (assert_upload_within_limit store (tq_object q) ''sizeBytes'')) (\<lambda>size.
     bind_tx (get_tx (last_sort material)) (\<lambda>highest.
     let sort = opt_or (tq_sort q) (highest + 1) in
     bind_tx (get_tx (\<lambda>s. list_ex (\<lambda>p. lp_material p = material \<and> lp_sort p = sort) (lib_parts s))) (\<lambda>taken.
     bind_tx (require_tx (\<not> taken) (unique_violation ''sortOrder'')) (\<lambda>_.
     bind_tx fresh_id (\<lambda>i.
     bind_tx (modify_tx (\<lambda>s. s\<lparr>lib_parts := lib_parts s @
       [\<lparr>lp_id = i, lp_material = material, lp_title = tq_title q, lp_status = CT_PUBLISHED, lp_active = True,
         lp_sort = sort, lp_price = tq_price q, lp_preview = opt_or (tq_preview q) False, lp_key = tq_object q,
         lp_size = Some size, lp_deleted_at = None\<rparr>]\<rparr>)) (\<lambda>_.
     bind_tx (library_audit actor ''CREATE'' ''library_part'' i) (\<lambda>_.
     ret_tx i))))))))))"

record part_patch =
  tp_title :: "string option"
  tp_price :: "int option"
  tp_status :: "content_status option"
  tp_active :: "bool option"
  tp_preview :: "bool option"
  tp_object :: "string option"
  tp_size :: "int option option"
  tp_thumbnail :: "string option"

definition patched_part :: "part_patch \<Rightarrow> int option \<Rightarrow> lib_part_row \<Rightarrow> lib_part_row" where
  "patched_part q verified p =
     p\<lparr>lp_title := opt_or (tp_title q) (lp_title p), lp_price := opt_or (tp_price q) (lp_price p),
       lp_status := opt_or (tp_status q) (lp_status p), lp_active := opt_or (tp_active q) (lp_active p),
       lp_preview := opt_or (tp_preview q) (lp_preview p), lp_key := opt_or (tp_object q) (lp_key p),
       lp_size := (case verified of Some n \<Rightarrow> Some n | None \<Rightarrow> opt_or (tp_size q) (lp_size p))\<rparr>"

text \<open>A replaced document is measured again; the verified size outranks the one sent.\<close>

definition verified_size :: "(string \<Rightarrow> int option) \<Rightarrow> part_patch \<Rightarrow> lib_part_row \<Rightarrow> exn + int option" where
  "verified_size store q p =
     bind_r (assert_library_part_keys (tp_object q) (tp_thumbnail q) (lp_material p)) (\<lambda>_.
     case tp_object q of
       None \<Rightarrow> Inr None
     | Some key \<Rightarrow>
         if key = [] \<or> key = lp_key p then Inr None
         else bind_r (assert_upload_within_limit store key ''objectKey'') (\<lambda>n. Inr (Some n)))"

definition update_part :: "(string \<Rightarrow> int option) \<Rightarrow> id \<Rightarrow> part_patch \<Rightarrow> id \<Rightarrow> unit dbtx" where
  "update_part store i q actor =
     bind_tx (get_tx (find_lib_part i)) (\<lambda>found.
     bind_tx (the_or not_found found) (\<lambda>p.
     bind_tx (lift_tx (verified_size store q p)) (\<lambda>size.
     bind_tx (modify_tx (\<lambda>s. s\<lparr>lib_parts := upd_where (\<lambda>x. lp_id x = i) (patched_part q size) (lib_parts s)\<rparr>)) (\<lambda>_.
     library_audit actor ''UPDATE'' ''library_part'' i))))"

definition deleted_part :: "time \<Rightarrow> lib_part_row \<Rightarrow> lib_part_row" where
  "deleted_part now p = p\<lparr>lp_deleted_at := Some now, lp_active := False\<rparr>"

definition packages_with :: "id \<Rightarrow> db \<Rightarrow> nat" where
  "packages_with i s = count_where (\<lambda>k. i \<in> fst ` set (lk_items k)) (lib_packages s)"

text \<open>The removal is two halves, reads and then a write, with no transaction around them.\<close>

definition check_part_removal :: "id \<Rightarrow> unit dbtx" where
  "check_part_removal i =
     bind_tx (get_tx (find_lib_part i)) (\<lambda>found.
     bind_tx (the_or not_found found) (\<lambda>_.
     bind_tx (get_tx (\<lambda>s. count_where (\<lambda>e. le_part e = i) (lib_entitlements s))) (\<lambda>holders.
     bind_tx (require_tx (holders = 0) conflict) (\<lambda>_.
     bind_tx (get_tx (packages_with i)) (\<lambda>inside.
     require_tx (inside = 0) conflict)))))"

definition write_part_removal :: "id \<Rightarrow> id \<Rightarrow> time \<Rightarrow> unit dbtx" where
  "write_part_removal i actor now =
     bind_tx (modify_tx (\<lambda>s. s\<lparr>lib_parts := upd_where (\<lambda>x. lp_id x = i) (deleted_part now) (lib_parts s)\<rparr>)) (\<lambda>_.
     library_audit actor ''DELETE'' ''library_part'' i)"

definition remove_part :: "id \<Rightarrow> id \<Rightarrow> time \<Rightarrow> unit dbtx" where
  "remove_part i actor now = bind_tx (check_part_removal i) (\<lambda>_. write_part_removal i actor now)"

section \<open>Packages\<close>

definition assert_package_items :: "id \<Rightarrow> id list \<Rightarrow> db \<Rightarrow> exn + unit" where
  "assert_package_items material ids s =
     (let found = filter (\<lambda>p. lp_id p \<in> set ids \<and> lp_deleted_at p = None) (lib_parts s) in
      if \<not> list_all (\<lambda>i. i \<in> lp_id ` set found) ids
      then Inl (validation [(''partIds'', [''these documents do not exist''])])
      else if list_ex (\<lambda>p. lp_material p \<noteq> material) found
      then Inl (validation [(''partIds'', [''these documents belong to another material''])])
      else Inr ())"

text \<open>\<open>createMany\<close> with \<open>skipDuplicates\<close>: the first row of a part stands, at its own position.\<close>

fun add_items :: "int \<Rightarrow> id list \<Rightarrow> (id \<times> int) list \<Rightarrow> (id \<times> int) list" where
  "add_items n [] items = items"
| "add_items n (i # ids) items =
     add_items (n + 1) ids (if i \<in> fst ` set items then items else items @ [(i, n)])"

record package_request =
  kq_material :: id
  kq_title :: string
  kq_price :: int
  kq_parts :: "id list"
  kq_sort :: "int option"

definition create_package :: "package_request \<Rightarrow> id \<Rightarrow> id dbtx" where
  "create_package q actor =
     bind_tx (require_tx (kq_parts q \<noteq> []) (validation [(''partIds'', [''a package must contain at least one document''])])) (\<lambda>_.
     bind_tx (get_tx (live_material (kq_material q))) (\<lambda>found.
     bind_tx (the_or not_found found) (\<lambda>_.
     bind_tx (check_db (assert_package_items (kq_material q) (kq_parts q))) (\<lambda>_.
     bind_tx fresh_id (\<lambda>i.
     bind_tx (modify_tx (\<lambda>s. s\<lparr>lib_packages := lib_packages s @
       [\<lparr>lk_id = i, lk_material = kq_material q, lk_title = kq_title q, lk_status = CT_PUBLISHED, lk_active = True,
         lk_sort = opt_or (kq_sort q) 0, lk_price = kq_price q, lk_items = add_items 0 (kq_parts q) [],
         lk_deleted_at = None\<rparr>]\<rparr>)) (\<lambda>_.
     bind_tx (library_audit actor ''CREATE'' ''library_package'' i) (\<lambda>_.
     ret_tx i)))))))"

record package_patch =
  kp_title :: "string option"
  kp_price :: "int option"
  kp_status :: "content_status option"
  kp_active :: "bool option"
  kp_sort :: "int option"
  kp_parts :: "id list option"

definition patched_package :: "package_patch \<Rightarrow> lib_package_row \<Rightarrow> lib_package_row" where
  "patched_package q k =
     k\<lparr>lk_title := opt_or (kp_title q) (lk_title k), lk_price := opt_or (kp_price q) (lk_price k),
       lk_status := opt_or (kp_status q) (lk_status k), lk_active := opt_or (kp_active q) (lk_active k),
       lk_sort := opt_or (kp_sort q) (lk_sort k),
       lk_items := (case kp_parts q of
                      None \<Rightarrow> lk_items k
                    | Some ids \<Rightarrow> add_items 0 ids (filter (\<lambda>(i, _). i \<in> set ids) (lk_items k)))\<rparr>"

definition update_package :: "id \<Rightarrow> package_patch \<Rightarrow> id \<Rightarrow> unit dbtx" where
  "update_package i q actor =
     bind_tx (get_tx (find_lib_package i)) (\<lambda>found.
     bind_tx (the_or not_found found) (\<lambda>k.
     bind_tx (require_tx (kp_parts q \<noteq> Some []) (validation [(''partIds'', [''a package must contain at least one document''])])) (\<lambda>_.
     bind_tx (case kp_parts q of None \<Rightarrow> ret_tx () | Some ids \<Rightarrow> check_db (assert_package_items (lk_material k) ids)) (\<lambda>_.
     bind_tx (modify_tx (\<lambda>s. s\<lparr>lib_packages := upd_where (\<lambda>x. lk_id x = i) (patched_package q) (lib_packages s)\<rparr>)) (\<lambda>_.
     library_audit actor ''UPDATE'' ''library_package'' i)))))"

definition deleted_package :: "time \<Rightarrow> lib_package_row \<Rightarrow> lib_package_row" where
  "deleted_package now k = k\<lparr>lk_deleted_at := Some now, lk_active := False\<rparr>"

definition remove_package :: "id \<Rightarrow> id \<Rightarrow> time \<Rightarrow> unit dbtx" where
  "remove_package i actor now =
     bind_tx (get_tx (find_lib_package i)) (\<lambda>found.
     bind_tx (the_or not_found found) (\<lambda>_.
     bind_tx (get_tx (\<lambda>s. count_where (\<lambda>u. lu_package u = Some i) (lib_purchases s))) (\<lambda>sold.
     bind_tx (require_tx (sold = 0) conflict) (\<lambda>_.
     bind_tx (modify_tx (\<lambda>s. s\<lparr>lib_packages := upd_where (\<lambda>x. lk_id x = i) (deleted_package now) (lib_packages s)\<rparr>)) (\<lambda>_.
     library_audit actor ''DELETE'' ''library_package'' i)))))"

section \<open>The sales report\<close>

record sales_query =
  sq_page :: nat
  sq_page_size :: nat
  sq_user :: "id option"
  sq_from :: "time option"
  sq_to :: "time option"

definition sales_where :: "sales_query \<Rightarrow> lib_purchase_row \<Rightarrow> bool" where
  "sales_where q u \<longleftrightarrow>
     (sq_user q = None \<or> sq_user q = Some (lu_user u))
     \<and> (case sq_from q of None \<Rightarrow> True | Some a \<Rightarrow> a \<le> lu_at u)
     \<and> (case sq_to q of None \<Rightarrow> True | Some b \<Rightarrow> lu_at u \<le> b)"

definition purchase_report :: "sales_query \<Rightarrow> db \<Rightarrow> lib_purchase_row list \<times> page_meta \<times> rat \<times> nat" where
  "purchase_report q s =
     (let found = sort_key (\<lambda>u. - lu_at u) (filter (sales_where q) (lib_purchases s)) in
      (page_rows (sq_page q) (sq_page_size q) found, paginated (length found) (sq_page q) (sq_page_size q),
       to_egp_number (sum_where (sales_where q) lu_price (lib_purchases s)), length found))"

section \<open>The shelf\<close>

text \<open>A part that is there, undeleted, in this material.\<close>

definition live_in :: "id \<Rightarrow> id \<Rightarrow> lib_part_row list \<Rightarrow> bool" where
  "live_in i material ps \<longleftrightarrow> (\<exists>p \<in> set ps. lp_id p = i \<and> lp_material p = material \<and> lp_deleted_at p = None)"

definition package_ok :: "lib_part_row list \<Rightarrow> lib_package_row \<Rightarrow> bool" where
  "package_ok ps k \<longleftrightarrow> lk_items k \<noteq> [] \<and> distinct (map fst (lk_items k))
     \<and> (\<forall>i \<in> fst ` set (lk_items k). live_in i (lk_material k) ps)"

definition held_ok :: "lib_part_row list \<Rightarrow> material_row list \<Rightarrow> lib_entitlement_row \<Rightarrow> bool" where
  "held_ok ps ms e \<longleftrightarrow> (\<exists>m \<in> set ms. lm_deleted_at m = None \<and> live_in (le_part e) (lm_id m) ps)"

definition shelf_slot :: "lib_part_row \<Rightarrow> id \<times> int" where
  "shelf_slot p = (lp_material p, lp_sort p)"

definition shelf_inv :: "db \<Rightarrow> bool" where
  "shelf_inv s \<longleftrightarrow>
     unique_on lp_id (lib_parts s) \<and> unique_on lm_id (materials s) \<and> unique_on lk_id (lib_packages s)
     \<and> unique_on shelf_slot (lib_parts s) \<and> (\<forall>k \<in> set (lib_packages s). lk_id k < db_next s)
     \<and> (\<forall>p \<in> set (lib_parts s). lp_id p < db_next s) \<and> (\<forall>m \<in> set (materials s). lm_id m < db_next s)
     \<and> (\<forall>k \<in> set (lib_packages s). package_ok (lib_parts s) k)
     \<and> (\<forall>e \<in> set (lib_entitlements s). held_ok (lib_parts s) (materials s) e)"

inductive shelf_step :: "db \<Rightarrow> db \<Rightarrow> bool" where
  sf_material: "create_material mq actor s = Inr (i, t) \<Longrightarrow> shelf_step s t"
| sf_edit_material: "update_material i mp actor now s = Inr (u, t) \<Longrightarrow> shelf_step s t"
| sf_drop_material: "remove_material i actor now s = Inr (u, t) \<Longrightarrow> shelf_step s t"
| sf_part: "create_part store i tq actor s = Inr (j, t) \<Longrightarrow> shelf_step s t"
| sf_edit_part: "update_part store i tp actor s = Inr (u, t) \<Longrightarrow> shelf_step s t"
| sf_drop_part: "remove_part i actor now s = Inr (u, t) \<Longrightarrow> shelf_step s t"
| sf_package: "create_package kq actor s = Inr (i, t) \<Longrightarrow> shelf_step s t"
| sf_edit_package: "update_package i kp actor s = Inr (u, t) \<Longrightarrow> shelf_step s t"
| sf_drop_package: "remove_package i actor now s = Inr (u, t) \<Longrightarrow> shelf_step s t"
| sf_buys: "library_purchase_body sf user kind target now s = Inr (x, t) \<Longrightarrow> shelf_step s t"
| sf_other: "library_step s t \<Longrightarrow> materials t = materials s \<Longrightarrow> lib_parts t = lib_parts s \<Longrightarrow>
    lib_packages t = lib_packages s \<Longrightarrow> lib_entitlements t = lib_entitlements s \<Longrightarrow> db_next s \<le> db_next t \<Longrightarrow>
    shelf_step s t"

definition shelf_start :: "db \<Rightarrow> bool" where
  "shelf_start s \<longleftrightarrow> library_start s \<and> shelf_inv s"

text \<open>What each operation leaves behind.\<close>

lemma check_db_Inr_iff [result_simps]: "check_db q s = Inr (x, t) \<longleftrightarrow> q s = Inr x \<and> t = s"
  by (auto simp: check_db_def result_simps)

lemma library_audit_simp [simp]:
  "library_audit actor a e i s = Inr ((), audit_with \<lparr>au_actor = Some actor, au_action = a, au_entity = e, au_entity_id = i, au_note = []\<rparr> s)"
  by (simp add: library_audit_def)

lemma audit_with_frame [simp]:
  "materials (audit_with r s) = materials s" "lib_parts (audit_with r s) = lib_parts s"
  "lib_packages (audit_with r s) = lib_packages s" "lib_entitlements (audit_with r s) = lib_entitlements s"
  "lib_purchases (audit_with r s) = lib_purchases s" "wallets (audit_with r s) = wallets s"
  "wallet_txs (audit_with r s) = wallet_txs s" "db_next (audit_with r s) = db_next s"
  by (simp_all add: audit_with_def)

lemma patched_fields [simp]:
  "lp_id (patched_part q v p) = lp_id p" "lp_material (patched_part q v p) = lp_material p"
  "lp_sort (patched_part q v p) = lp_sort p" "lp_deleted_at (patched_part q v p) = lp_deleted_at p"
  "lp_id (deleted_part now p) = lp_id p" "lp_material (deleted_part now p) = lp_material p" "lp_sort (deleted_part now p) = lp_sort p"
  "lm_id (patched_material mp a now m) = lm_id m" "lm_deleted_at (patched_material mp a now m) = lm_deleted_at m"
  "lm_id (deleted_material now m) = lm_id m"
  "lk_id (patched_package kp k) = lk_id k" "lk_material (patched_package kp k) = lk_material k"
  "lk_id (deleted_package now k) = lk_id k"
  "lk_items (deleted_package now k) = lk_items k" "lk_material (deleted_package now k) = lk_material k"
  by (cases a; simp add: patched_part_def deleted_part_def patched_material_def deleted_material_def
      patched_package_def deleted_package_def Let_def)+

interpretation part_edit: keyed_update lp_id "patched_part q v"
  by unfold_locales simp

interpretation part_slot_edit: keyed_update shelf_slot "patched_part q v"
  by unfold_locales (simp add: shelf_slot_def)

interpretation part_drop: keyed_update lp_id "deleted_part now"
  by unfold_locales simp

interpretation part_slot_drop: keyed_update shelf_slot "deleted_part now"
  by unfold_locales (simp add: shelf_slot_def)

interpretation material_edit: keyed_update lm_id "patched_material mp a now"
  by unfold_locales simp

interpretation material_drop: keyed_update lm_id "deleted_material now"
  by unfold_locales simp

interpretation package_edit: keyed_update lk_id "patched_package q"
  by unfold_locales simp

interpretation package_drop: keyed_update lk_id "deleted_package now"
  by unfold_locales simp

lemma live_in_kept:
  assumes "\<And>p. lp_id (f p) = lp_id p" "\<And>p. lp_material (f p) = lp_material p" "\<And>p. lp_deleted_at (f p) = lp_deleted_at p"
  shows "live_in i m (upd_where P f ps) \<longleftrightarrow> live_in i m ps"
proof -
  have "lp_id (if P p then f p else p) = lp_id p" "lp_material (if P p then f p else p) = lp_material p"
    "lp_deleted_at (if P p then f p else p) = lp_deleted_at p" for p
    using assms by simp_all
  then show ?thesis by (simp only: live_in_def upd_where_def list.set_map bex_simps)
qed

lemma live_in_dropped: "i \<noteq> j \<Longrightarrow> live_in i m ps \<Longrightarrow> live_in i m (upd_where (\<lambda>p. lp_id p = j) f ps)"
  by (auto simp: live_in_def set_upd_where)

lemma live_in_append: "live_in i m ps \<Longrightarrow> live_in i m (ps @ qs)"
  by (auto simp: live_in_def)

lemma package_ok_mono:
  "package_ok ps k \<Longrightarrow> (\<And>i. i \<in> fst ` set (lk_items k) \<Longrightarrow> live_in i (lk_material k) ps \<Longrightarrow> live_in i (lk_material k) qs) \<Longrightarrow>
   package_ok qs k"
  by (auto simp: package_ok_def)

lemma held_ok_mono:
  "held_ok ps ms e \<Longrightarrow> (\<And>m. live_in (le_part e) m ps \<Longrightarrow> live_in (le_part e) m qs) \<Longrightarrow>
   (\<And>m. m \<in> set ms \<Longrightarrow> lm_deleted_at m = None \<Longrightarrow> live_in (le_part e) (lm_id m) ps \<Longrightarrow>
      \<exists>n \<in> set ns. lm_id n = lm_id m \<and> lm_deleted_at n = None) \<Longrightarrow> held_ok qs ns e"
  by (fastforce simp: held_ok_def)

text \<open>An operation that adds a material, and the others on the materials' table.\<close>

lemma material_ops_inv:
  assumes "shelf_inv s" "lib_parts t = lib_parts s" "lib_packages t = lib_packages s" "lib_entitlements t = lib_entitlements s"
    and "db_next s \<le> db_next t" "unique_on lm_id (materials t)" "\<forall>m \<in> set (materials t). lm_id m < db_next t"
    and "\<And>m e. m \<in> set (materials s) \<Longrightarrow> lm_deleted_at m = None \<Longrightarrow> e \<in> set (lib_entitlements s) \<Longrightarrow>
      live_in (le_part e) (lm_id m) (lib_parts s) \<Longrightarrow> \<exists>n \<in> set (materials t). lm_id n = lm_id m \<and> lm_deleted_at n = None"
  shows "shelf_inv t"
proof -
  have "\<forall>e \<in> set (lib_entitlements t). held_ok (lib_parts t) (materials t) e"
  proof
    fix e assume "e \<in> set (lib_entitlements t)"
    then have e: "e \<in> set (lib_entitlements s)" "held_ok (lib_parts s) (materials s) e"
      using assms(1,4) by (auto simp: shelf_inv_def)
    from e(2) show "held_ok (lib_parts t) (materials t) e"
      unfolding assms(2) by (rule held_ok_mono) (use assms(8) e(1) in blast)+
  qed
  with assms(1-7) show ?thesis by (fastforce simp: shelf_inv_def)
qed

lemma create_material_inv:
  assumes "create_material q actor s = Inr (i, t)" "shelf_inv s"
  shows "shelf_inv t"
proof -
  from assms(1) obtain m where m: "materials t = materials s @ [m]" "lm_id m = db_next s" "db_next t = Suc (db_next s)"
      "lib_parts t = lib_parts s" "lib_packages t = lib_packages s" "lib_entitlements t = lib_entitlements s"
    by (auto simp: create_material_def Let_def result_simps)
  from assms(2) have "\<forall>x \<in> set (materials s). lm_id x < db_next s" by (simp add: shelf_inv_def)
  with m assms(2) show ?thesis
    by (intro material_ops_inv [OF assms(2)]) (auto simp: shelf_inv_def table_simps less_Suc_eq)
qed

lemma update_material_inv:
  assumes "update_material i mp actor now s = Inr (u, t)" "shelf_inv s"
  shows "shelf_inv t"
proof -
  from assms(1) obtain a where m: "materials t = upd_where (\<lambda>x. lm_id x = i) (patched_material mp a now) (materials s)"
      "db_next t = db_next s" "lib_parts t = lib_parts s" "lib_packages t = lib_packages s" "lib_entitlements t = lib_entitlements s"
    by (auto simp: update_material_def result_simps split: option.splits if_splits)
  have "\<exists>n \<in> set (materials t). lm_id n = lm_id x \<and> lm_deleted_at n = None"
    if "x \<in> set (materials s)" "lm_deleted_at x = None" for x
    by (rule bexI [where x = "if lm_id x = i then patched_material mp a now x else x"])
      (use that in \<open>auto simp: m(1) upd_where_def\<close>)
  then show ?thesis
    by (intro material_ops_inv [OF assms(2)]) (use assms(2) m in \<open>auto simp: shelf_inv_def set_upd_where\<close>)
qed

lemma remove_material_inv:
  assumes "remove_material i actor now s = Inr (u, t)" "shelf_inv s"
  shows "shelf_inv t"
proof -
  from assms(1) have m: "materials t = upd_where (\<lambda>x. lm_id x = i) (deleted_material now) (materials s)"
      "db_next t = db_next s" "lib_parts t = lib_parts s" "lib_packages t = lib_packages s" "lib_entitlements t = lib_entitlements s"
    and n: "held_in_material i s = 0"
    by (auto simp: remove_material_def result_simps)
  have free: "\<not> live_in (le_part e) i (lib_parts s)" if "e \<in> set (lib_entitlements s)" for e
    using n that by (auto simp: held_in_material_def count_where_0_iff live_in_def list_ex_iff)
  show ?thesis
    by (rule material_ops_inv [OF assms(2)]) (use assms(2) m free in \<open>auto simp: shelf_inv_def set_upd_where\<close>)
qed

text \<open>The operations on the parts' table: no live part is lost that something refers to.\<close>

lemma part_ops_inv:
  assumes "shelf_inv s" "materials t = materials s" "lib_packages t = lib_packages s" "lib_entitlements t = lib_entitlements s"
    and "db_next s \<le> db_next t" "unique_on lp_id (lib_parts t)" "unique_on shelf_slot (lib_parts t)"
    and "\<forall>p \<in> set (lib_parts t). lp_id p < db_next t"
    and "\<And>i m. (\<exists>k \<in> set (lib_packages s). i \<in> fst ` set (lk_items k)) \<or> (\<exists>e \<in> set (lib_entitlements s). le_part e = i) \<Longrightarrow>
      live_in i m (lib_parts s) \<Longrightarrow> live_in i m (lib_parts t)"
  shows "shelf_inv t"
proof -
  have "\<forall>k \<in> set (lib_packages t). package_ok (lib_parts t) k"
  proof
    fix k assume "k \<in> set (lib_packages t)"
    then have k: "k \<in> set (lib_packages s)" "package_ok (lib_parts s) k" using assms(1,3) by (auto simp: shelf_inv_def)
    from k(2) show "package_ok (lib_parts t) k"
      by (rule package_ok_mono) (use assms(9) k(1) in blast)
  qed
  moreover have "\<forall>e \<in> set (lib_entitlements t). held_ok (lib_parts t) (materials t) e"
  proof
    fix e assume "e \<in> set (lib_entitlements t)"
    then have e: "e \<in> set (lib_entitlements s)" "held_ok (lib_parts s) (materials s) e" using assms(1,4) by (auto simp: shelf_inv_def)
    from e(2) show "held_ok (lib_parts t) (materials t) e"
      unfolding assms(2) by (rule held_ok_mono) (use assms(9) e(1) in blast)+
  qed
  moreover have "unique_on lm_id (materials s)" "unique_on lk_id (lib_packages s)"
      "\<forall>m \<in> set (materials s). lm_id m < db_next t" "\<forall>k \<in> set (lib_packages s). lk_id k < db_next t"
    using assms(1,5) by (auto simp: shelf_inv_def)
  ultimately show ?thesis
    using assms(6,7,8) unfolding shelf_inv_def by (simp only: assms(2,3))
qed

lemma create_part_inv:
  assumes "create_part store i tq actor s = Inr (j, t)" "shelf_inv s"
  shows "shelf_inv t"
proof -
  from assms(1) obtain p where p: "lib_parts t = lib_parts s @ [p]" "lp_id p = db_next s" "db_next t = Suc (db_next s)"
      "shelf_slot p \<notin> shelf_slot ` set (lib_parts s)" "materials t = materials s" "lib_packages t = lib_packages s"
      "lib_entitlements t = lib_entitlements s"
    by (fastforce simp: create_part_def Let_def result_simps list_ex_iff shelf_slot_def)
  have n: "\<forall>x \<in> set (lib_parts s). lp_id x < db_next s" using assms(2) by (simp add: shelf_inv_def)
  show ?thesis
  proof (rule part_ops_inv [OF assms(2)])
    show "unique_on lp_id (lib_parts t)" using assms(2) n p(2) by (auto simp: p(1) table_simps shelf_inv_def)
    show "unique_on shelf_slot (lib_parts t)" using assms(2) p(4) by (simp add: p(1) table_simps shelf_inv_def)
    show "\<forall>x \<in> set (lib_parts t). lp_id x < db_next t" using n p(2,3) by (auto simp: p(1))
    show "live_in k m (lib_parts t)" if "live_in k m (lib_parts s)" for k m
      unfolding p(1) using that by (rule live_in_append)
  qed (use p in simp_all)
qed

lemma update_part_inv:
  assumes "update_part store i tp actor s = Inr (u, t)" "shelf_inv s"
  shows "shelf_inv t"
proof -
  from assms(1) obtain v where p: "lib_parts t = upd_where (\<lambda>x. lp_id x = i) (patched_part tp v) (lib_parts s)"
      "db_next t = db_next s" "materials t = materials s" "lib_packages t = lib_packages s" "lib_entitlements t = lib_entitlements s"
    by (auto simp: update_part_def result_simps)
  have l: "live_in k m (lib_parts t) = live_in k m (lib_parts s)" for k m
    unfolding p(1) by (rule live_in_kept) simp_all
  show ?thesis
    by (rule part_ops_inv [OF assms(2)]) (use assms(2) p l in \<open>auto simp: shelf_inv_def set_upd_where\<close>)
qed

lemma remove_part_inv:
  assumes "remove_part i actor now s = Inr (u, t)" "shelf_inv s"
  shows "shelf_inv t"
proof -
  from assms(1) have p: "lib_parts t = upd_where (\<lambda>x. lp_id x = i) (deleted_part now) (lib_parts s)"
      "db_next t = db_next s" "materials t = materials s" "lib_packages t = lib_packages s" "lib_entitlements t = lib_entitlements s"
    and n: "\<forall>e \<in> set (lib_entitlements s). le_part e \<noteq> i" "\<forall>k \<in> set (lib_packages s). i \<notin> fst ` set (lk_items k)"
    by (auto simp: remove_part_def check_part_removal_def write_part_removal_def result_simps packages_with_def count_where_0_iff)
  show ?thesis
  proof (rule part_ops_inv [OF assms(2)])
    show "live_in k m (lib_parts t)"
      if "(\<exists>x \<in> set (lib_packages s). k \<in> fst ` set (lk_items x)) \<or> (\<exists>e \<in> set (lib_entitlements s). le_part e = k)"
        "live_in k m (lib_parts s)" for k m
      unfolding p(1) by (rule live_in_dropped) (use that n in auto)
  qed (use assms(2) p in \<open>auto simp: shelf_inv_def set_upd_where\<close>)
qed

text \<open>The operations on the packages.\<close>

lemma fst_add_items: "fst ` set (add_items n ids items) = fst ` set items \<union> set ids"
  by (induction ids arbitrary: n items) auto

lemma distinct_add_items: "distinct (map fst items) \<Longrightarrow> distinct (map fst (add_items n ids items))"
proof (induction ids arbitrary: n items)
  case (Cons i ids)
  then show ?case by (cases "i \<in> fst ` set items") simp_all
qed simp

lemma assert_package_items_ok:
  assumes "assert_package_items m ids s = Inr u" "i \<in> set ids"
  shows "live_in i m (lib_parts s)"
proof -
  from assms obtain p where p: "p \<in> set (lib_parts s)" "lp_id p = i" "lp_deleted_at p = None"
    by (auto simp: assert_package_items_def Let_def list_all_iff split: if_splits)
  moreover from this assms have "lp_material p = m"
    by (auto simp: assert_package_items_def Let_def list_ex_iff split: if_splits)
  ultimately show ?thesis by (auto simp: live_in_def)
qed

lemma patched_package_ok:
  assumes "package_ok (lib_parts s) k" "kp_parts q \<noteq> Some []"
    and "\<And>ids. kp_parts q = Some ids \<Longrightarrow> assert_package_items (lk_material k) ids s = Inr ()"
  shows "package_ok (lib_parts s) (patched_package q k)"
proof (cases "kp_parts q")
  case (Some ids)
  let ?items = "add_items 0 ids (filter (\<lambda>(i, _). i \<in> set ids) (lk_items k))"
  have i: "lk_items (patched_package q k) = ?items" by (simp add: patched_package_def Some)
  have f: "fst ` set ?items = set ids" by (auto simp: fst_add_items)
  have "distinct (map fst (filter (\<lambda>(i, _). i \<in> set ids) (lk_items k)))"
    using assms(1) by (simp add: package_ok_def distinct_map_filter)
  then have "distinct (map fst ?items)" by (rule distinct_add_items)
  moreover have "?items \<noteq> []" using f assms(2) Some by auto
  ultimately show ?thesis
    using assert_package_items_ok [OF assms(3) [OF Some]] by (simp add: package_ok_def i f)
qed (use assms(1) in \<open>simp add: package_ok_def patched_package_def\<close>)

lemma package_ops_inv:
  assumes "shelf_inv s" "materials t = materials s" "lib_parts t = lib_parts s" "lib_entitlements t = lib_entitlements s"
    and "db_next s \<le> db_next t" "\<forall>k \<in> set (lib_packages t). package_ok (lib_parts s) k"
    and "unique_on lk_id (lib_packages t)" "\<forall>k \<in> set (lib_packages t). lk_id k < db_next t"
  shows "shelf_inv t"
  using assms by (fastforce simp: shelf_inv_def)

lemma create_package_inv:
  assumes "create_package kq actor s = Inr (i, t)" "shelf_inv s"
  shows "shelf_inv t"
proof -
  from assms(1) obtain k where k: "lib_packages t = lib_packages s @ [k]" "lk_material k = kq_material kq" "lk_id k = db_next s"
      "lk_items k = add_items 0 (kq_parts kq) []" "db_next t = Suc (db_next s)" "materials t = materials s"
      "lib_parts t = lib_parts s" "lib_entitlements t = lib_entitlements s"
    and c: "kq_parts kq \<noteq> []" "assert_package_items (kq_material kq) (kq_parts kq) s = Inr ()"
    by (auto simp: create_package_def result_simps)
  have "package_ok (lib_parts s) k"
    using assert_package_items_ok [OF c(2)] c(1) fst_add_items [of 0 "kq_parts kq" "[]"]
    by (auto simp: package_ok_def k(2,4) distinct_add_items)
  then show ?thesis
    by (intro package_ops_inv [OF assms(2)]) (use assms(2) k in \<open>auto simp: shelf_inv_def table_simps less_Suc_eq\<close>)
qed

lemma update_package_inv:
  assumes "update_package i kp actor s = Inr (u, t)" "shelf_inv s"
  shows "shelf_inv t"
proof -
  from assms(1) obtain k where k: "find_lib_package i s = Some k" "kp_parts kp \<noteq> Some []"
      "\<And>ids. kp_parts kp = Some ids \<Longrightarrow> assert_package_items (lk_material k) ids s = Inr ()"
    and t: "lib_packages t = upd_where (\<lambda>x. lk_id x = i) (patched_package kp) (lib_packages s)" "db_next t = db_next s"
      "materials t = materials s" "lib_parts t = lib_parts s" "lib_entitlements t = lib_entitlements s"
    by (auto simp: update_package_def result_simps split: option.splits)
  have u: "unique_on lk_id (lib_packages s)" using assms(2) by (simp add: shelf_inv_def)
  have "package_ok (lib_parts s) (patched_package kp x)" if "x \<in> set (lib_packages s)" "lk_id x = i" for x
  proof -
    have "k \<in> set (lib_packages s)" "lk_id k = i" using k(1) by (auto simp: find_lib_package_def dest!: find_Some)
    then have "x = k" using unique_onD [OF u that(1)] that(2) by simp
    with assms(2) that(1) k(2,3) show ?thesis by (auto simp: shelf_inv_def intro!: patched_package_ok)
  qed
  with assms(2) t show ?thesis
    by (intro package_ops_inv [OF assms(2)]) (auto simp: shelf_inv_def set_upd_where)
qed

lemma remove_package_inv:
  assumes "remove_package i actor now s = Inr (u, t)" "shelf_inv s"
  shows "shelf_inv t"
proof -
  from assms(1) have t: "lib_packages t = upd_where (\<lambda>x. lk_id x = i) (deleted_package now) (lib_packages s)" "db_next t = db_next s"
      "materials t = materials s" "lib_parts t = lib_parts s" "lib_entitlements t = lib_entitlements s"
    by (auto simp: remove_package_def result_simps)
  have "package_ok (lib_parts s) (deleted_package now k)" if "k \<in> set (lib_packages s)" for k
    using assms(2) that by (simp add: shelf_inv_def package_ok_def)
  with assms(2) t show ?thesis
    by (intro package_ops_inv [OF assms(2)]) (auto simp: shelf_inv_def set_upd_where)
qed

text \<open>A purchase touches neither materials nor parts nor packages, and what it grants is on the shelf.\<close>

lemma purchase_shelf_frame:
  assumes "library_purchase_body sf user kind target now s = Inr (x, t)" "ledger_inv s"
  shows "materials t = materials s \<and> lib_parts t = lib_parts s \<and> lib_packages t = lib_packages s"
  using assms
proof (rule library_purchase_body_Inr)
  fix tgt e s1
  assume d: "wallet_debit (library_debit user kind target (lt_price tgt)) now s = Inr (e, s1)" and t: "t = bought user kind target tgt e now s1"
  from d [unfolded wallet_debit_def] assms(2) show ?thesis
    by (cases rule: move_credit_row) (auto simp: t bought_def)
qed

lemma target_on_shelf:
  assumes "load_target kind target s = Inr (tgt, s')" "shelf_inv s" "p \<in> set (lt_parts tgt)"
  shows "\<exists>m \<in> set (materials s). lm_deleted_at m = None \<and> live_in p (lm_id m) (lib_parts s)"
proof (cases kind)
  case LK_PART
  with assms(1,3) obtain q m where q: "find_lib_part target s = Some q" "p = lp_id q"
      and m: "find_material (lp_material q) s = Some m" "lm_deleted_at m = None"
    by (auto simp: load_target_def load_part_Inr_iff is_on_sale_def)
  have "q \<in> set (lib_parts s)" "lp_deleted_at q = None" using q(1) by (auto simp: find_lib_part_def dest: find_Some)
  moreover have "m \<in> set (materials s)" "lm_id m = lp_material q"
    using m(1) by (auto simp: find_material_def dest: find_by_Some)
  ultimately show ?thesis using q(2) m(2) unfolding live_in_def by (intro bexI [of _ m] conjI bexI [of _ q]) simp_all
next
  case LK_PACKAGE
  with assms(1,3) obtain k m where k: "find_lib_package target s = Some k" "p \<in> fst ` set (lk_items k)"
      and m: "find_material (lk_material k) s = Some m" "lm_deleted_at m = None"
    by (auto simp: load_target_def load_package_Inr_iff is_on_sale_def)
  have "k \<in> set (lib_packages s)" using k(1) by (auto simp: find_lib_package_def dest: find_Some)
  then have "package_ok (lib_parts s) k" using assms(2) by (simp add: shelf_inv_def)
  with k(2) have "live_in p (lk_material k) (lib_parts s)" by (auto simp: package_ok_def)
  moreover have "m \<in> set (materials s)" "lm_id m = lk_material k"
    using m(1) by (auto simp: find_material_def dest: find_by_Some)
  ultimately show ?thesis using m(2) by (intro bexI [of _ m]) simp_all
qed

lemma purchase_shelf_inv:
  assumes "library_purchase_body sf user kind target now s = Inr (x, t)" "library_books s" "shelf_inv s"
  shows "shelf_inv t"
proof (rule library_purchase_state [OF assms(1,2)])
  fix tgt row u new
  assume l: "load_target kind target s = Inr (tgt, s)" "db_next s < db_next t" "lib_entitlements t = lib_entitlements s @ new"
      "\<And>e. e \<in> set new \<Longrightarrow> bought_part e u \<and> le_revoked_at e = None" "lu_parts u = lt_parts tgt"
  have "ledger_inv s" using assms(2) by (simp add: library_books_def)
  note f = purchase_shelf_frame [OF assms(1) this]
  have "held_ok (lib_parts s) (materials s) e" if "e \<in> set new" for e
    using target_on_shelf [OF l(1) assms(3), of "le_part e"] l(4) [OF that] l(5) by (simp add: bought_part_def held_ok_def)
  with assms(3) f l(2,3) show ?thesis by (auto simp: shelf_inv_def)
qed

text \<open>Every administrative operation is a step of the Library's books that moves no money.\<close>

lemma shelf_is_library_step: "shelf_step s t \<Longrightarrow> library_step s t"
proof (erule shelf_step.cases)
  fix mq actor s' i t' assume "s = s'" "t = t'" "create_material mq actor s' = Inr (i, t')"
  then show "library_step s t" by (intro lib_other) (auto simp: create_material_def Let_def result_simps)
next
  fix i mp actor now s' u t' assume "s = s'" "t = t'" "update_material i mp actor now s' = Inr (u, t')"
  then show "library_step s t" by (intro lib_other) (auto simp: update_material_def result_simps split: option.splits if_splits)
next
  fix i actor now s' u t' assume "s = s'" "t = t'" "remove_material i actor now s' = Inr (u, t')"
  then show "library_step s t" by (intro lib_other) (auto simp: remove_material_def result_simps)
next
  fix store i tq actor s' j t' assume "s = s'" "t = t'" "create_part store i tq actor s' = Inr (j, t')"
  then show "library_step s t" by (intro lib_other) (auto simp: create_part_def Let_def result_simps)
next
  fix store i tp actor s' u t' assume "s = s'" "t = t'" "update_part store i tp actor s' = Inr (u, t')"
  then show "library_step s t" by (intro lib_other) (auto simp: update_part_def result_simps)
next
  fix i actor now s' u t' assume "s = s'" "t = t'" "remove_part i actor now s' = Inr (u, t')"
  then show "library_step s t" by (intro lib_other) (auto simp: remove_part_def check_part_removal_def write_part_removal_def result_simps)
next
  fix kq actor s' i t' assume "s = s'" "t = t'" "create_package kq actor s' = Inr (i, t')"
  then show "library_step s t" by (intro lib_other) (auto simp: create_package_def result_simps)
next
  fix i kp actor s' u t' assume "s = s'" "t = t'" "update_package i kp actor s' = Inr (u, t')"
  then show "library_step s t" by (intro lib_other) (auto simp: update_package_def result_simps split: option.splits)
next
  fix i actor now s' u t' assume "s = s'" "t = t'" "remove_package i actor now s' = Inr (u, t')"
  then show "library_step s t" by (intro lib_other) (auto simp: remove_package_def result_simps)
qed (auto intro: lib_buys)

lemma shelf_other_inv:
  assumes "shelf_inv s" "materials t = materials s" "lib_parts t = lib_parts s" "lib_packages t = lib_packages s"
    and "lib_entitlements t = lib_entitlements s" "db_next s \<le> db_next t"
  shows "shelf_inv t"
  using assms by (intro package_ops_inv [of s t]) (auto simp: shelf_inv_def)

lemmas shelf_ops_inv = create_material_inv update_material_inv remove_material_inv create_part_inv update_part_inv
  remove_part_inv create_package_inv update_package_inv remove_package_inv shelf_other_inv

interpretation shelf_machine: invariant_system shelf_start shelf_step "\<lambda>s. library_books s \<and> shelf_inv s"
proof
  show "shelf_start s \<Longrightarrow> library_books s \<and> shelf_inv s" for s
    by (simp add: shelf_start_def library_machine.inv_start)
  show "library_books s \<and> shelf_inv s \<Longrightarrow> shelf_step s t \<Longrightarrow> library_books t \<and> shelf_inv t" for s t
  proof (intro conjI)
    assume i: "library_books s \<and> shelf_inv s" and st: "shelf_step s t"
    show "library_books t" using library_machine.inv_step shelf_is_library_step [OF st] i by blast
    from st i show "shelf_inv t"
      by (cases rule: shelf_step.cases) (auto elim: shelf_ops_inv purchase_shelf_inv)
  qed
qed

text \<open>C9: what has been sold stays, as long as the calls come one after another (each call's checks
  still hold when it writes). After any such sequence of purchases, of creating, editing and removing
  materials, parts and packages, and of operations elsewhere, every document a student holds is there,
  undeleted, in an undeleted material; and every package, whatever was done to it, is a non-empty
  list of distinct, undeleted documents of its own material. A removal that a purchase or a package
  overtakes between its reads and its write is outside this property: it breaks it
  (\<open>removal_overtaken_by_purchase\<close>, \<open>removal_overtaken_by_package\<close>).\<close>

theorem sold_documents_stay:
  assumes "shelf_start s" "shelf_step\<^sup>*\<^sup>* s t"
  shows "(\<forall>e \<in> set (lib_entitlements t). \<exists>p \<in> set (lib_parts t). lp_id p = le_part e \<and> lp_deleted_at p = None
        \<and> (\<exists>m \<in> set (materials t). lm_id m = lp_material p \<and> lm_deleted_at m = None))
    \<and> (\<forall>k \<in> set (lib_packages t). lk_items k \<noteq> [] \<and> distinct (map fst (lk_items k))
        \<and> (\<forall>i \<in> fst ` set (lk_items k). \<exists>p \<in> set (lib_parts t). lp_id p = i \<and> lp_deleted_at p = None
              \<and> lp_material p = lk_material k))"
proof -
  have "shelf_inv t" using shelf_machine.inv_reachable [OF assms] by blast
  then have h: "\<forall>e \<in> set (lib_entitlements t). held_ok (lib_parts t) (materials t) e"
    and k: "\<forall>k \<in> set (lib_packages t). package_ok (lib_parts t) k"
    by (simp_all add: shelf_inv_def)
  show ?thesis
  proof
    show "\<forall>e \<in> set (lib_entitlements t). \<exists>p \<in> set (lib_parts t). lp_id p = le_part e \<and> lp_deleted_at p = None
        \<and> (\<exists>m \<in> set (materials t). lm_id m = lp_material p \<and> lm_deleted_at m = None)"
      using h unfolding held_ok_def live_in_def by metis
    show "\<forall>k \<in> set (lib_packages t). lk_items k \<noteq> [] \<and> distinct (map fst (lk_items k))
        \<and> (\<forall>i \<in> fst ` set (lk_items k). \<exists>p \<in> set (lib_parts t). lp_id p = i \<and> lp_deleted_at p = None
              \<and> lp_material p = lk_material k)"
      using k unfolding package_ok_def live_in_def by metis
  qed
qed

lemma notes_shelf: "shelf_start notes_db"
proof -
  have "shelf_inv notes_db"
    by (simp add: shelf_inv_def notes_db_def empty_db_def package_ok_def live_in_def shelf_slot_def notes_defs)
  then show ?thesis using notes_start by (simp add: shelf_start_def)
qed

theorem sold_documents_stay_witness:
  "\<exists>t. shelf_step\<^sup>*\<^sup>* notes_db t \<and> (\<exists>p \<in> set (lib_parts t). lp_id p = 51 \<and> lp_deleted_at p = None)"
proof -
  obtain x t where b: "library_purchase_body True 7 LK_PACKAGE 60 5 funded_db = Inr (x, t)" using bundle_bought by blast
  have "owns 7 t 51"
    by (rule library_purchase_state [OF b funded_books]) (use funded_gate(2) in auto)
  then obtain e where e: "e \<in> set (lib_entitlements t)" "le_part e = 51" by (auto simp: owns_iff)
  have "library_step notes_db funded_db" using funded unfolding top_up_def by (auto intro: lib_adjusted)
  then have "shelf_step notes_db funded_db"
    by (rule sf_other) (simp_all add: notes_db_def empty_db_def funded_db_def after_move_def ledger_row_def)
  then have st: "shelf_step\<^sup>*\<^sup>* notes_db t" using sf_buys [OF b] by (meson converse_rtranclp_into_rtranclp r_into_rtranclp)
  from sold_documents_stay [OF notes_shelf st] e st show ?thesis by metis
qed

section \<open>Calls that overlap\<close>

lemma write_part_removal_Inr:
  "\<exists>u. write_part_removal i actor later t = Inr ((), u) \<and> lib_entitlements u = lib_entitlements t
    \<and> lib_packages u = lib_packages t \<and> (\<forall>p \<in> set (lib_parts u). lp_id p = i \<longrightarrow> lp_deleted_at p = Some later)"
proof -
  have "lp_deleted_at p = Some later" if "p \<in> set (upd_where (\<lambda>x. lp_id x = i) (deleted_part later) rows)" "lp_id p = i" for p rows
  proof -
    from that(1) obtain q where "p = (if lp_id q = i then deleted_part later q else q)" unfolding upd_where_def set_map by blast
    with that(2) show ?thesis by (cases "lp_id q = i") (simp_all add: deleted_part_def)
  qed
  then have gone: "\<forall>p \<in> set (upd_where (\<lambda>x. lp_id x = i) (deleted_part later) (lib_parts t)). lp_id p = i \<longrightarrow> lp_deleted_at p = Some later"
    by blast
  define u where "u = audit_with \<lparr>au_actor = Some actor, au_action = ''DELETE'', au_entity = ''library_part'', au_entity_id = i, au_note = []\<rparr>
    (t\<lparr>lib_parts := upd_where (\<lambda>x. lp_id x = i) (deleted_part later) (lib_parts t)\<rparr>)"
  have "write_part_removal i actor later t = Inr ((), u)" by (simp add: write_part_removal_def bind_tx_def modify_tx_def u_def)
  moreover have "lib_entitlements u = lib_entitlements t" "lib_packages u = lib_packages t"
    "lib_parts u = upd_where (\<lambda>x. lp_id x = i) (deleted_part later) (lib_parts t)" by (simp_all add: u_def)
  ultimately show ?thesis using gone by (intro exI [of _ u]) (simp only: simp_thms)
qed

text \<open>The removal's reads pass, then a student buys the document, then the removal writes: the student
  has paid for a document that is deleted.\<close>

lemma removal_overtaken_by_purchase:
  assumes "check_part_removal i s = Inr ((), s)" "library_books s" "shelf_inv s"
    and "library_purchase_body sf user LK_PART i now s = Inr (x, t)"
  shows "\<exists>u. write_part_removal i actor later t = Inr ((), u) \<and> owns user u i
    \<and> (\<forall>p \<in> set (lib_parts u). lp_id p = i \<longrightarrow> lp_deleted_at p = Some later)"
proof -
  have "owns user t i"
  proof (rule library_purchase_state [OF assms(4,2)])
    fix tgt
    assume "load_target LK_PART i s = Inr (tgt, s)" and o: "\<And>p. p \<in> set (lt_parts tgt) \<Longrightarrow> owns user t p"
    then have "lt_parts tgt = [i]" by (auto simp: load_target_def load_part_Inr_iff find_lib_part_def dest!: find_Some)
    then show ?thesis using o by simp
  qed
  then show ?thesis using write_part_removal_Inr [of i actor later t] by (auto simp: owns_def)
qed

text \<open>The same with a new package in between: the package sells a deleted document.\<close>

lemma removal_overtaken_by_package:
  assumes "check_part_removal i s = Inr ((), s)" "create_package kq staff s = Inr (j, t)" "i \<in> set (kq_parts kq)"
  shows "\<exists>u. write_part_removal i actor later t = Inr ((), u)
    \<and> (\<exists>k \<in> set (lib_packages u). i \<in> fst ` set (lk_items k))
    \<and> (\<forall>p \<in> set (lib_parts u). lp_id p = i \<longrightarrow> lp_deleted_at p = Some later)"
proof -
  obtain k where "lib_packages t = lib_packages s @ [k]" "lk_items k = add_items 0 (kq_parts kq) []"
    using assms(2) by (auto simp: create_package_def result_simps)
  then have "\<exists>k \<in> set (lib_packages t). i \<in> fst ` set (lk_items k)" using assms(3) fst_add_items by fastforce
  moreover obtain u where "write_part_removal i actor later t = Inr ((), u)" "lib_packages u = lib_packages t"
    "\<forall>p \<in> set (lib_parts u). lp_id p = i \<longrightarrow> lp_deleted_at p = Some later"
    using write_part_removal_Inr by blast
  ultimately show ?thesis by (intro exI [of _ u]) (simp only: simp_thms)
qed

text \<open>The reads do pass: the reader's first document is unsold and, without the bundle, in no package.\<close>

lemma unsold_part_may_go:
  "check_part_removal 51 (funded_db\<lparr>lib_packages := []\<rparr>) = Inr ((), funded_db\<lparr>lib_packages := []\<rparr>)"
  by (simp add: check_part_removal_def bind_tx_step find_lib_part_def notes_part_def packages_with_def count_where_def)

section \<open>A concrete behaviour behind a finding\<close>

text \<open>A removed document keeps its place. After the last document of a material has been removed,
  adding one without an explicit position is refused as a duplicate: the position computed, the next
  after the undeleted ones, is the one the removed row still occupies under the unique index.\<close>

lemma removed_part_blocks_the_next:
  assumes "live_material i s = Some m" "p \<in> set (lib_parts s)" "lp_material p = i" "lp_deleted_at p \<noteq> None"
    and "lp_sort p = last_sort i s + 1" "tq_sort tq = None"
    and "assert_library_part_keys (Some (tq_object tq)) (tq_thumbnail tq) i = Inr ()"
    and "store (tq_object tq) = Some n" "n \<le> max_document_bytes"
  shows "create_part store i tq actor s = Inl (unique_violation ''sortOrder'')"
proof -
  have "list_ex (\<lambda>q. lp_material q = i \<and> lp_sort q = last_sort i s + 1) (lib_parts s)"
    using assms(2,3,5) by (auto simp: list_ex_iff)
  then show ?thesis
    using assms
    by (simp add: create_part_def opt_or_def assert_upload_within_limit_def the_or_def Let_def bind_tx_def require_tx_def)
qed

end
