(* ===== verification/Calls.thy ===== *)
theory Calls
  imports Schema
begin

text \<open>
  Service calls that are not one transaction. Each statement commits by itself, so what was written
  before an exception stays: a call answers with an exception or a value and the state it leaves. A
  transaction inside a call either commits or leaves the state alone. The predicates \<open>keeps\<close> and
  \<open>keeps_tx\<close> say that a call, or a transaction, keeps a condition on the state; their rules follow
  the structure of the definitions.
\<close>

type_synonym ('s, 'e, 'a) call = "'s \<Rightarrow> ('e + 'a) \<times> 's"

type_synonym 'a db_call = "(db, exn, 'a) call"

definition ret_c :: "'a \<Rightarrow> ('s, 'e, 'a) call" where
  "ret_c x = (\<lambda>s. (Inr x, s))"

definition fail_c :: "'e \<Rightarrow> ('s, 'e, 'a) call" where
  "fail_c e = (\<lambda>s. (Inl e, s))"

definition bind_c :: "('s, 'e, 'a) call \<Rightarrow> ('a \<Rightarrow> ('s, 'e, 'b) call) \<Rightarrow> ('s, 'e, 'b) call" where
  "bind_c m f = (\<lambda>s. case m s of (Inl e, t) \<Rightarrow> (Inl e, t) | (Inr x, t) \<Rightarrow> f x t)"

definition read_c :: "('s \<Rightarrow> 'a) \<Rightarrow> ('s, 'e, 'a) call" where
  "read_c q = (\<lambda>s. (Inr (q s), s))"

definition write_c :: "('s \<Rightarrow> 's) \<Rightarrow> ('s, 'e, unit) call" where
  "write_c f = (\<lambda>s. (Inr (), f s))"

definition require_c :: "bool \<Rightarrow> 'e \<Rightarrow> ('s, 'e, unit) call" where
  "require_c ok e = (\<lambda>s. (if ok then Inr () else Inl e, s))"

definition the_c :: "'e \<Rightarrow> 'a option \<Rightarrow> ('s, 'e, 'a) call" where
  "the_c e r = (\<lambda>s. (case r of None \<Rightarrow> Inl e | Some x \<Rightarrow> Inr x, s))"

definition commit_c :: "('s, 'e, 'a) tx \<Rightarrow> ('s, 'e, 'a) call" where
  "commit_c m = (\<lambda>s. case m s of Inl e \<Rightarrow> (Inl e, s) | Inr (x, t) \<Rightarrow> (Inr x, t))"

lemma call_simps [simp]:
  "ret_c x s = (Inr x, s)"
  "fail_c e s = (Inl e, s)"
  "read_c q s = (Inr (q s), s)"
  "write_c f s = (Inr (), f s)"
  "require_c True e s = (Inr (), s)"
  "require_c False e s = (Inl e, s)"
  "the_c e (Some x) s = (Inr x, s)"
  "the_c e None s = (Inl e, s)"
  by (simp_all add: ret_c_def fail_c_def read_c_def write_c_def require_c_def the_c_def)

lemma bind_c_simps [simp]:
  "bind_c (ret_c x1) f1 = f1 x1"
  "bind_c (fail_c e2) f2 = fail_c e2"
  "bind_c (read_c q) f3 s3 = f3 (q s3) s3"
  "bind_c (write_c g) f4 s4 = f4 () (g s4)"
  "bind_c (require_c True e5) f5 = f5 ()"
  "bind_c (require_c False e6) f6 = fail_c e6"
  "bind_c (the_c e7 (Some x7)) f7 = f7 x7"
  "bind_c (the_c e8 None) f8 = fail_c e8"
  by (auto simp: bind_c_def fun_eq_iff ret_c_def fail_c_def require_c_def the_c_def)

lemma bind_require_c: "bind_c (require_c ok e) f s = (if ok then f () s else (Inl e, s))"
  by simp

lemma bind_c_step: "m s = (Inr x, t) \<Longrightarrow> bind_c m f s = f x t"
  by (simp add: bind_c_def)

lemma bind_c_fail: "m s = (Inl e, t) \<Longrightarrow> bind_c m f s = (Inl e, t)"
  by (simp add: bind_c_def)

lemma bind_c_Inr_iff [result_simps]:
  "bind_c m f s = (Inr y, t) \<longleftrightarrow> (\<exists>x s'. m s = (Inr x, s') \<and> f x s' = (Inr y, t))"
  by (auto simp: bind_c_def split: prod.splits sum.splits)

lemma require_c_Inr_iff [result_simps]: "require_c ok e s = (Inr u, t) \<longleftrightarrow> ok \<and> t = s"
  by (auto simp: require_c_def)

lemma the_c_Inr_iff [result_simps]: "the_c e r s = (Inr x, t) \<longleftrightarrow> r = Some x \<and> t = s"
  by (cases r) (auto simp: the_c_def)

lemma commit_c_Inr_iff [result_simps]: "commit_c m s = (Inr x, t) \<longleftrightarrow> m s = Inr (x, t)"
  by (auto simp: commit_c_def split: sum.splits)

lemma commit_c_Inl_iff [result_simps]: "commit_c m s = (Inl e, t) \<longleftrightarrow> m s = Inl e \<and> t = s"
  by (auto simp: commit_c_def split: sum.splits)

section \<open>Keeping a condition\<close>

definition keeps_tx :: "('s \<Rightarrow> bool) \<Rightarrow> ('s, 'e, 'a) tx \<Rightarrow> bool" where
  "keeps_tx Q m \<longleftrightarrow> (\<forall>s x t. Q s \<longrightarrow> m s = Inr (x, t) \<longrightarrow> Q t)"

definition keeps :: "('s \<Rightarrow> bool) \<Rightarrow> ('s, 'e, 'a) call \<Rightarrow> bool" where
  "keeps Q m \<longleftrightarrow> (\<forall>s. Q s \<longrightarrow> Q (snd (m s)))"

named_theorems keeping "rules that carry a condition through a definition"

lemma keeps_txD: "keeps_tx Q m \<Longrightarrow> m s = Inr (x, t) \<Longrightarrow> Q s \<Longrightarrow> Q t"
  by (auto simp: keeps_tx_def)

lemma keepsD: "keeps Q m \<Longrightarrow> m s = (r, t) \<Longrightarrow> Q s \<Longrightarrow> Q t"
  by (metis keeps_def snd_conv)

lemma keeps_tx_basic [keeping]:
  "keeps_tx Q (ret_tx x)"
  "keeps_tx Q (throw_tx e)"
  "keeps_tx Q (get_tx q)"
  "keeps_tx Q (lift_tx r)"
  "keeps_tx Q (require_tx ok e)"
  "keeps_tx Q' (the_or e' r')"
  by (simp_all add: keeps_tx_def the_or_def lift_tx_def require_tx_def split: option.splits sum.splits)

lemma keeps_tx_modify: "(\<And>s. Q s \<Longrightarrow> Q (f s)) \<Longrightarrow> keeps_tx Q (modify_tx f)"
  by (auto simp: keeps_tx_def)

lemma keeps_tx_bind [keeping]: "keeps_tx Q m \<Longrightarrow> (\<And>x. keeps_tx Q (f x)) \<Longrightarrow> keeps_tx Q (bind_tx m f)"
  unfolding keeps_tx_def bind_tx_Inr_iff by blast

lemma keeps_tx_if [keeping]: "keeps_tx Q m \<Longrightarrow> keeps_tx Q n \<Longrightarrow> keeps_tx Q (if b then m else n)"
  by simp

lemma keeps_tx_option [keeping]:
  "keeps_tx Q m \<Longrightarrow> (\<And>x. keeps_tx Q (f x)) \<Longrightarrow> keeps_tx Q (case r of None \<Rightarrow> m | Some x \<Rightarrow> f x)"
  by (cases r) simp_all

lemma keeps_basic [keeping]:
  "keeps Q (ret_c x)"
  "keeps Q (fail_c e)"
  "keeps Q (read_c q)"
  "keeps Q (require_c ok e)"
  "keeps Q (the_c e r)"
  by (auto simp: keeps_def require_c_def the_c_def)

lemma keeps_write: "(\<And>s. Q s \<Longrightarrow> Q (f s)) \<Longrightarrow> keeps Q (write_c f)"
  by (auto simp: keeps_def)

lemma keeps_bind [keeping]: "keeps Q m \<Longrightarrow> (\<And>x. keeps Q (f x)) \<Longrightarrow> keeps Q (bind_c m f)"
  unfolding keeps_def bind_c_def by (simp split: prod.splits sum.splits) (metis snd_conv)

lemma keeps_commit [keeping]: "keeps_tx Q m \<Longrightarrow> keeps Q (commit_c m)"
  by (auto simp: keeps_def keeps_tx_def commit_c_def split: sum.splits)

lemma keeps_if [keeping]: "keeps Q m \<Longrightarrow> keeps Q n \<Longrightarrow> keeps Q (if b then m else n)"
  by simp

lemma keeps_option [keeping]:
  "keeps Q m \<Longrightarrow> (\<And>x. keeps Q (f x)) \<Longrightarrow> keeps Q (case r of None \<Rightarrow> m | Some x \<Rightarrow> f x)"
  by (cases r) simp_all

end
