(* ===== verification/Devices.thy ===== *)
theory Devices
  imports Wallet
begin

text \<open>
  Device binding (\<open>modules/devices/devices.service.ts\<close>): what a sign-in does with the device it comes
  from, the gate of protected content, the student's request to move to another device, and the
  administrator's decisions. The limit is read from the settings and is an argument, as is the clock.
  Every operation is one step; the sign-in of an unknown device, which reads a count and then writes
  outside a transaction, is also given as its two halves. Security events are telemetry that never
  fails and are left out, as are the descriptors (model, versions) of a device.
\<close>

section \<open>Ending what a device or a session may still do\<close>

definition end_sessions :: "(session_row \<Rightarrow> bool) \<Rightarrow> time \<Rightarrow> string \<Rightarrow> db \<Rightarrow> db" where
  "end_sessions p now why s =
     s\<lparr>sessions := upd_where (\<lambda>x. p x \<and> ss_status x = SS_ACTIVE)
       (\<lambda>x. x\<lparr>ss_status := SS_REVOKED, ss_revoked_at := Some now, ss_revoked_reason := Some why\<rparr>) (sessions s)\<rparr>"

definition end_refresh :: "(refresh_row \<Rightarrow> bool) \<Rightarrow> time \<Rightarrow> string \<Rightarrow> db \<Rightarrow> db" where
  "end_refresh p now why s =
     s\<lparr>refresh_tokens := upd_where (\<lambda>x. p x \<and> rt_revoked_at x = None)
       (\<lambda>x. x\<lparr>rt_revoked_at := Some now, rt_revoked_reason := Some why\<rparr>) (refresh_tokens s)\<rparr>"

definition end_tickets :: "(ticket_row \<Rightarrow> bool) \<Rightarrow> time \<Rightarrow> string \<Rightarrow> db \<Rightarrow> db" where
  "end_tickets p now why s =
     s\<lparr>tickets := upd_where (\<lambda>x. p x \<and> tk_status x = TS_ACTIVE)
       (\<lambda>x. x\<lparr>tk_status := TS_REVOKED, tk_revoked_at := Some now, tk_revoked_reason := Some why\<rparr>) (tickets s)\<rparr>"

definition mute_pushes :: "(push_row \<Rightarrow> bool) \<Rightarrow> db \<Rightarrow> db" where
  "mute_pushes p s = s\<lparr>push_tokens := upd_where (\<lambda>x. p x \<and> ph_active x) (\<lambda>x. x\<lparr>ph_active := False\<rparr>) (push_tokens s)\<rparr>"

section \<open>The sign-in\<close>

record device_context =
  cx_key :: "string option"
  cx_platform :: "string option"
  cx_name :: "string option"
  cx_suspect :: bool

record device_config =
  cf_limit :: nat
  cf_auto_bind :: bool
  cf_block :: bool

datatype (plugins only: code) device_reason =
    DR_NOT_AUTHORIZED | DR_LIMIT_REACHED | DR_CHANGE_PENDING | DR_REVOKED | DR_INTEGRITY | DR_NO_DEVICE_HEADER

record device_resolution =
  rs_device :: "id option"
  rs_status :: "device_status option"
  rs_registered :: bool
  rs_authorized :: bool
  rs_reason :: "device_reason option"

definition find_device :: "id \<Rightarrow> string \<Rightarrow> db \<Rightarrow> device_row option" where
  "find_device user key s = List.find (\<lambda>d. dv_user d = user \<and> dv_key d = key) (devices s)"

definition device_name :: "device_context \<Rightarrow> string" where
  "device_name cx =
     (case cx_name cx of
        Some n \<Rightarrow> n
      | None \<Rightarrow> (case cx_platform cx of Some p \<Rightarrow> p | None \<Rightarrow> ''Unknown'') @ '' device'')"

definition seen_device :: "device_context \<Rightarrow> time \<Rightarrow> device_row \<Rightarrow> device_row" where
  "seen_device cx now d =
     d\<lparr>dv_last_seen := now, dv_name := (case cx_name cx of Some n \<Rightarrow> n | None \<Rightarrow> dv_name d), dv_suspect := cx_suspect cx\<rparr>"

definition handle_known_device :: "device_config \<Rightarrow> device_row \<Rightarrow> device_context \<Rightarrow> time \<Rightarrow> device_resolution dbtx" where
  "handle_known_device cf d cx now =
     bind_tx (modify_tx (\<lambda>s. s\<lparr>devices := upd_where (\<lambda>x. dv_id x = dv_id d) (seen_device cx now) (devices s)\<rparr>)) (\<lambda>_.
     ret_tx
       (if dv_status d = DV_ACTIVE
        then if cx_suspect cx \<and> cf_block cf
             then \<lparr>rs_device = Some (dv_id d), rs_status = Some DV_ACTIVE, rs_registered = False, rs_authorized = False,
                   rs_reason = Some DR_INTEGRITY\<rparr>
             else \<lparr>rs_device = Some (dv_id d), rs_status = Some DV_ACTIVE, rs_registered = False, rs_authorized = True,
                   rs_reason = None\<rparr>
        else \<lparr>rs_device = Some (dv_id d), rs_status = Some (dv_status d), rs_registered = False, rs_authorized = False,
              rs_reason = Some (if dv_status d = DV_PENDING_APPROVAL then DR_CHANGE_PENDING else DR_REVOKED)\<rparr>))"

text \<open>One pending request per student, pointed at the device they are holding.\<close>

definition retarget_change :: "device_row \<Rightarrow> string option \<Rightarrow> device_change_row \<Rightarrow> device_change_row" where
  "retarget_change d reason c =
     c\<lparr>dc_device := Some (dv_id d), dc_key := dv_key d, dc_name := dv_name d,
       dc_reason := (case reason of Some r \<Rightarrow> Some r | None \<Rightarrow> dc_reason c)\<rparr>"

definition ensure_change_request :: "id \<Rightarrow> device_row \<Rightarrow> string option \<Rightarrow> device_change_row dbtx" where
  "ensure_change_request user d reason =
     bind_tx (get_tx (\<lambda>s. List.find (\<lambda>c. dc_user c = user \<and> dc_status c = DC_PENDING) (device_changes s))) (\<lambda>found.
     case found of
       Some c \<Rightarrow>
         bind_tx (modify_tx (\<lambda>s. s\<lparr>device_changes := upd_where (\<lambda>x. dc_id x = dc_id c) (retarget_change d reason) (device_changes s)\<rparr>)) (\<lambda>_.
         ret_tx (retarget_change d reason c))
     | None \<Rightarrow>
         bind_tx fresh_id (\<lambda>i.
         let c = \<lparr>dc_id = i, dc_user = user, dc_device = Some (dv_id d), dc_key = dv_key d, dc_name = dv_name d,
                  dc_reason = reason, dc_status = DC_PENDING, dc_reviewed_by = None, dc_reviewed_at = None, dc_note = None\<rparr> in
         bind_tx (modify_tx (\<lambda>s. s\<lparr>device_changes := device_changes s @ [c]\<rparr>)) (\<lambda>_. ret_tx c)))"

definition active_devices :: "id \<Rightarrow> db \<Rightarrow> nat" where
  "active_devices user s = count_where (\<lambda>d. dv_user d = user \<and> dv_status d = DV_ACTIVE) (devices s)"

definition should_auto_bind :: "device_config \<Rightarrow> id \<Rightarrow> db \<Rightarrow> bool" where
  "should_auto_bind cf user s \<longleftrightarrow>
     (let n = active_devices user s in n < cf_limit cf \<and> (if n = 0 then cf_auto_bind cf else True))"

text \<open>The second half: the row is written with what the first half decided.\<close>

definition register_device :: "device_config \<Rightarrow> id \<Rightarrow> string \<Rightarrow> device_context \<Rightarrow> bool \<Rightarrow> time \<Rightarrow> device_resolution dbtx" where
  "register_device cf user key cx bind now =
     bind_tx (get_tx (find_device user key)) (\<lambda>taken.
     bind_tx (require_tx (taken = None) (unique_violation ''deviceKey'')) (\<lambda>_.
     bind_tx fresh_id (\<lambda>i.
     let d = \<lparr>dv_id = i, dv_user = user, dv_key = key, dv_name = device_name cx,
              dv_status = (if bind then DV_ACTIVE else DV_PENDING_APPROVAL), dv_suspect = cx_suspect cx, dv_last_seen = now,
              dv_approved_at = (if bind then Some now else None), dv_approved_by = None, dv_revoked_at = None,
              dv_revoked_reason = None\<rparr> in
     bind_tx (modify_tx (\<lambda>s. s\<lparr>devices := devices s @ [d]\<rparr>)) (\<lambda>_.
     if bind
     then ret_tx \<lparr>rs_device = Some i, rs_status = Some DV_ACTIVE, rs_registered = True,
                  rs_authorized = (\<not> (cx_suspect cx \<and> cf_block cf)),
                  rs_reason = (if cx_suspect cx \<and> cf_block cf then Some DR_INTEGRITY else None)\<rparr>
     else bind_tx (ensure_change_request user d (Some ''Automatic: sign-in from an unbound device'')) (\<lambda>_.
          ret_tx \<lparr>rs_device = Some i, rs_status = Some DV_PENDING_APPROVAL, rs_registered = True, rs_authorized = False,
                  rs_reason = Some DR_LIMIT_REACHED\<rparr>)))))"

definition handle_unknown_device :: "device_config \<Rightarrow> id \<Rightarrow> string \<Rightarrow> device_context \<Rightarrow> time \<Rightarrow> device_resolution dbtx" where
  "handle_unknown_device cf user key cx now =
     bind_tx (get_tx (should_auto_bind cf user)) (\<lambda>bind. register_device cf user key cx bind now)"

definition resolve_on_login :: "device_config \<Rightarrow> id \<Rightarrow> user_role \<Rightarrow> device_context \<Rightarrow> time \<Rightarrow> device_resolution dbtx" where
  "resolve_on_login cf user role cx now =
     (if role \<noteq> R_STUDENT
      then ret_tx \<lparr>rs_device = None, rs_status = None, rs_registered = False, rs_authorized = True, rs_reason = None\<rparr>
      else case cx_key cx of
        None \<Rightarrow> ret_tx \<lparr>rs_device = None, rs_status = None, rs_registered = False, rs_authorized = False,
                        rs_reason = Some DR_NO_DEVICE_HEADER\<rparr>
      | Some key \<Rightarrow>
          bind_tx (get_tx (find_device user key)) (\<lambda>found.
          case found of
            Some d \<Rightarrow> handle_known_device cf d cx now
          | None \<Rightarrow> handle_unknown_device cf user key cx now))"

section \<open>The gate of protected content\<close>

definition assert_device_authorized ::
  "device_config \<Rightarrow> id \<Rightarrow> user_role \<Rightarrow> string option \<Rightarrow> id option \<Rightarrow> bool \<Rightarrow> db \<Rightarrow> exn + id option" where
  "assert_device_authorized cf user role key session_device suspect s =
     (if role \<noteq> R_STUDENT then Inr None
      else case key of
        None \<Rightarrow> Inl (app_error DEVICE_NOT_AUTHORIZED)
      | Some k \<Rightarrow>
          if suspect \<and> cf_block cf then Inl (app_error DEVICE_INTEGRITY_FAILED)
          else case find_device user k s of
            None \<Rightarrow> Inl (app_error DEVICE_NOT_AUTHORIZED)
          | Some d \<Rightarrow>
              if session_device \<noteq> None \<and> session_device \<noteq> Some (dv_id d) then Inl (app_error DEVICE_NOT_AUTHORIZED)
              else if dv_status d = DV_ACTIVE then Inr (Some (dv_id d))
              else if dv_status d = DV_PENDING_APPROVAL then Inl (app_error DEVICE_CHANGE_PENDING)
              else Inl (app_error DEVICE_NOT_AUTHORIZED))"

section \<open>The student's request\<close>

definition touch_device :: "time \<Rightarrow> device_row \<Rightarrow> device_row" where
  "touch_device now d = d\<lparr>dv_last_seen := now\<rparr>"

definition request_change :: "id \<Rightarrow> device_context \<Rightarrow> string option \<Rightarrow> time \<Rightarrow> device_change_row dbtx" where
  "request_change user cx reason now =
     bind_tx (the_or (app_error VALIDATION_ERROR) (cx_key cx)) (\<lambda>key.
     bind_tx (get_tx (find_device user key)) (\<lambda>found.
     case found of
       Some d \<Rightarrow>
         bind_tx (modify_tx (\<lambda>s. s\<lparr>devices := upd_where (\<lambda>x. dv_id x = dv_id d) (touch_device now) (devices s)\<rparr>)) (\<lambda>_.
         ensure_change_request user (touch_device now d) reason)
     | None \<Rightarrow>
         bind_tx fresh_id (\<lambda>i.
         let d = \<lparr>dv_id = i, dv_user = user, dv_key = key, dv_name = device_name cx, dv_status = DV_PENDING_APPROVAL,
                  dv_suspect = False, dv_last_seen = now, dv_approved_at = None, dv_approved_by = None,
                  dv_revoked_at = None, dv_revoked_reason = None\<rparr> in
         bind_tx (modify_tx (\<lambda>s. s\<lparr>devices := devices s @ [d]\<rparr>)) (\<lambda>_.
         ensure_change_request user d reason))))"

section \<open>The administrator's decisions\<close>

definition device_audit :: "id \<Rightarrow> string \<Rightarrow> string \<Rightarrow> id \<Rightarrow> unit dbtx" where
  "device_audit actor action entity i =
     modify_tx (audit_with \<lparr>au_actor = Some actor, au_action = action, au_entity = entity, au_entity_id = i, au_note = []\<rparr>)"

definition revoked_device :: "time \<Rightarrow> string \<Rightarrow> device_row \<Rightarrow> device_row" where
  "revoked_device now why d = d\<lparr>dv_status := DV_REVOKED, dv_revoked_at := Some now, dv_revoked_reason := Some why\<rparr>"

definition approved_device :: "id \<Rightarrow> time \<Rightarrow> device_row \<Rightarrow> device_row" where
  "approved_device actor now d =
     d\<lparr>dv_status := DV_ACTIVE, dv_approved_at := Some now, dv_approved_by := Some actor, dv_revoked_at := None,
       dv_revoked_reason := None\<rparr>"

definition reviewed_change :: "device_change_status \<Rightarrow> id \<Rightarrow> time \<Rightarrow> string option \<Rightarrow> device_change_row \<Rightarrow> device_change_row" where
  "reviewed_change st actor now note c =
     c\<lparr>dc_status := st, dc_reviewed_by := Some actor, dc_reviewed_at := Some now, dc_note := note\<rparr>"

definition pending_change :: "id \<Rightarrow> device_change_row dbtx" where
  "pending_change i =
     bind_tx (get_tx (\<lambda>s. find_by dc_id i (device_changes s))) (\<lambda>found.
     bind_tx (the_or not_found found) (\<lambda>c.
     bind_tx (require_tx (dc_status c = DC_PENDING) (app_error INVALID_STATE)) (\<lambda>_. ret_tx c)))"

text \<open>The upsert of the device that takes over; its identifier.\<close>

definition install_device :: "device_change_row \<Rightarrow> id \<Rightarrow> time \<Rightarrow> id dbtx" where
  "install_device c actor now =
     bind_tx (get_tx (find_device (dc_user c) (dc_key c))) (\<lambda>found.
     case found of
       Some d \<Rightarrow>
         bind_tx (modify_tx (\<lambda>s. s\<lparr>devices := upd_where (\<lambda>x. dv_id x = dv_id d) (approved_device actor now) (devices s)\<rparr>)) (\<lambda>_.
         ret_tx (dv_id d))
     | None \<Rightarrow>
         bind_tx fresh_id (\<lambda>i.
         bind_tx (modify_tx (\<lambda>s. s\<lparr>devices := devices s @
           [\<lparr>dv_id = i, dv_user = dc_user c, dv_key = dc_key c, dv_name = dc_name c, dv_status = DV_ACTIVE, dv_suspect = False,
             dv_last_seen = now, dv_approved_at = Some now, dv_approved_by = Some actor, dv_revoked_at = None,
             dv_revoked_reason = None\<rparr>]\<rparr>)) (\<lambda>_.
         ret_tx i)))"

text \<open>
  A swap: the other active devices go in the same transaction. A session without a device is not
  matched by the condition on the device, which the database evaluates to unknown.
\<close>

definition approve_change :: "id \<Rightarrow> id \<Rightarrow> string option \<Rightarrow> time \<Rightarrow> id dbtx" where
  "approve_change i actor note now =
     bind_tx (pending_change i) (\<lambda>c.
     bind_tx (modify_tx (\<lambda>s. s\<lparr>devices :=
       upd_where (\<lambda>d. dv_user d = dc_user c \<and> dv_status d = DV_ACTIVE \<and> dv_key d \<noteq> dc_key c)
         (revoked_device now (''Replaced by device change request '' @ show_nat i)) (devices s)\<rparr>)) (\<lambda>_.
     bind_tx (install_device c actor now) (\<lambda>dev.
     bind_tx (modify_tx (\<lambda>s. s\<lparr>device_changes :=
       upd_where (\<lambda>x. dc_id x = i) (reviewed_change DC_APPROVED actor now note) (device_changes s)\<rparr>)) (\<lambda>_.
     bind_tx (modify_tx (end_sessions (\<lambda>x. ss_user x = dc_user c \<and> ss_device x \<noteq> None \<and> ss_device x \<noteq> Some dev)
       now ''Device change approved'')) (\<lambda>_.
     bind_tx (device_audit actor ''DEVICE_APPROVE'' ''device_change_request'' i) (\<lambda>_.
     ret_tx dev))))))"

definition reject_change :: "id \<Rightarrow> id \<Rightarrow> string option \<Rightarrow> time \<Rightarrow> unit dbtx" where
  "reject_change i actor note now =
     bind_tx (pending_change i) (\<lambda>c.
     bind_tx (modify_tx (\<lambda>s. s\<lparr>device_changes :=
       upd_where (\<lambda>x. dc_id x = i) (reviewed_change DC_REJECTED actor now note) (device_changes s)\<rparr>)) (\<lambda>_.
     device_audit actor ''DEVICE_REVOKE'' ''device_change_request'' i))"

definition session_on :: "id \<Rightarrow> db \<Rightarrow> id \<Rightarrow> bool" where
  "session_on dev s i \<longleftrightarrow> list_ex (\<lambda>x. ss_id x = i \<and> ss_device x = Some dev) (sessions s)"

definition revoke_device :: "id \<Rightarrow> id \<Rightarrow> string \<Rightarrow> time \<Rightarrow> unit dbtx" where
  "revoke_device dev actor why now =
     bind_tx (get_tx (\<lambda>s. find_by dv_id dev (devices s))) (\<lambda>found.
     bind_tx (the_or not_found found) (\<lambda>d.
     bind_tx (modify_tx (\<lambda>s. s\<lparr>devices := upd_where (\<lambda>x. dv_id x = dev) (revoked_device now why) (devices s)\<rparr>)) (\<lambda>_.
     bind_tx (modify_tx (end_sessions (\<lambda>x. ss_device x = Some dev) now (''Device revoked: '' @ why))) (\<lambda>_.
     bind_tx (modify_tx (end_tickets (\<lambda>x. tk_device x = Some dev) now ''Device revoked'')) (\<lambda>_.
     bind_tx (modify_tx (\<lambda>s. end_refresh (\<lambda>x. session_on dev s (rt_session x)) now (''Device revoked: '' @ why) s)) (\<lambda>_.
     bind_tx (modify_tx (mute_pushes (\<lambda>x. ph_user x = dv_user d \<and> ph_device_key x = Some (dv_key d)))) (\<lambda>_.
     device_audit actor ''DEVICE_REVOKE'' ''device'' dev)))))))"

text \<open>
  The reset deletes the rows: every reference to a deleted device becomes null. Returned: how many
  devices went and how many pending requests were cancelled.
\<close>

definition unreference :: "id list \<Rightarrow> id option \<Rightarrow> id option" where
  "unreference gone r = (case r of None \<Rightarrow> None | Some i \<Rightarrow> if i \<in> set gone then None else Some i)"

definition delete_devices :: "id \<Rightarrow> db \<Rightarrow> db" where
  "delete_devices user s =
     (let gone = map dv_id (filter (\<lambda>d. dv_user d = user) (devices s)) in
      s\<lparr>devices := filter (\<lambda>d. dv_user d \<noteq> user) (devices s),
        sessions := map (\<lambda>x. x\<lparr>ss_device := unreference gone (ss_device x)\<rparr>) (sessions s),
        tickets := map (\<lambda>x. x\<lparr>tk_device := unreference gone (tk_device x)\<rparr>) (tickets s),
        device_changes := map (\<lambda>x. x\<lparr>dc_device := unreference gone (dc_device x)\<rparr>) (device_changes s)\<rparr>)"

definition reset_binding :: "id \<Rightarrow> id \<Rightarrow> string \<Rightarrow> time \<Rightarrow> (nat \<times> nat) dbtx" where
  "reset_binding user actor why now =
     bind_tx (get_tx (\<lambda>s. (count_where (\<lambda>d. dv_user d = user) (devices s),
       count_where (\<lambda>c. dc_user c = user \<and> dc_status c = DC_PENDING) (device_changes s)))) (\<lambda>counts.
     bind_tx (modify_tx (delete_devices user)) (\<lambda>_.
     bind_tx (modify_tx (\<lambda>s. s\<lparr>device_changes :=
       upd_where (\<lambda>c. dc_user c = user \<and> dc_status c = DC_PENDING)
         (reviewed_change DC_CANCELLED actor now (Some (''Cancelled by device binding reset: '' @ why))) (device_changes s)\<rparr>)) (\<lambda>_.
     bind_tx (modify_tx (end_sessions (\<lambda>x. ss_user x = user) now ''Device binding reset'')) (\<lambda>_.
     bind_tx (modify_tx (end_tickets (\<lambda>x. tk_user x = user) now ''Device binding reset'')) (\<lambda>_.
     bind_tx (modify_tx (end_refresh (\<lambda>x. rt_user x = user) now ''Device binding reset'')) (\<lambda>_.
     bind_tx (modify_tx (mute_pushes (\<lambda>x. ph_user x = user))) (\<lambda>_.
     bind_tx (device_audit actor ''DEVICE_REVOKE'' ''user'' user) (\<lambda>_.
     ret_tx counts))))))))"

end
