(* ===== verification/Sessions.thy ===== *)
theory Sessions
  imports Calls Devices Academics
begin

text \<open>
  Sign-in and sessions: the phone number as the account identifier (\<open>users.service.ts\<close>), the guard
  of every request (\<open>jwt-auth.guard.ts\<close>, \<open>roles.guard.ts\<close>), sign-in with lockout, registration, the
  rotation of refresh tokens and sign-out (\<open>auth.service.ts\<close>), and the staff's session management
  (\<open>sessions.service.ts\<close>). Signatures, hashes and random texts belong to libraries and are
  arguments: a token arrives as what its verification says, a new token as the hash of its text.
  Instants are milliseconds. Addresses, user agents and security events are left out.
\<close>

section \<open>The phone number\<close>

definition phone_noise :: "char \<Rightarrow> bool" where
  "phone_noise c \<longleftrightarrow> is_ws c \<or> c \<in> set ''()+-''"

text \<open>\<open>1[0125]\d{8}\<close>, the whole of the text.\<close>

definition local_number :: "string \<Rightarrow> bool" where
  "local_number r \<longleftrightarrow> length r = 10 \<and> r ! 0 = CHR ''1'' \<and> r ! 1 \<in> set ''0125'' \<and> list_all is_digit (drop 2 r)"

definition strip_country :: "string \<Rightarrow> string" where
  "strip_country d =
     (if take 4 d = ''0020'' \<and> local_number (drop 4 d) then drop 4 d
      else if take 2 d = ''20'' \<and> local_number (drop 2 d) then drop 2 d
      else d)"

definition normalize_phone :: "string \<Rightarrow> string" where
  "normalize_phone raw =
     (let stripped = strip_country (filter (\<lambda>c. \<not> phone_noise c) raw) in
      if take 1 stripped = ''0'' then stripped else CHR ''0'' # stripped)"

definition is_valid_mobile :: "string \<Rightarrow> bool" where
  "is_valid_mobile p \<longleftrightarrow> take 1 p = ''0'' \<and> local_number (drop 1 p)"

section \<open>The guard of a request\<close>

record access_claims =
  at_user :: id
  at_session :: id
  at_iat :: int

text \<open>What the library says of an access token.\<close>

datatype access_verdict = TokenExpired | TokenInvalid | TokenOk access_claims

record principal =
  pr_user :: id
  pr_role :: user_role
  pr_status :: account_status
  pr_session :: id
  pr_device :: "id option"
  pr_key :: "string option"

definition account_barred :: "user_row \<Rightarrow> bool" where
  "account_barred u \<longleftrightarrow> u_deleted_at u \<noteq> None \<or> u_status u = AS_DISABLED \<or> u_status u = AS_SUSPENDED"

definition attach :: "access_verdict \<Rightarrow> string option \<Rightarrow> time \<Rightarrow> db \<Rightarrow> exn + principal" where
  "attach v key now s =
     (case v of
        TokenExpired \<Rightarrow> Inl (app_error SESSION_EXPIRED)
      | TokenInvalid \<Rightarrow> Inl (app_error UNAUTHORIZED)
      | TokenOk c \<Rightarrow>
          (case find_by ss_id (at_session c) (sessions s) of
             None \<Rightarrow> Inl (app_error SESSION_EXPIRED)
           | Some x \<Rightarrow>
               if ss_status x \<noteq> SS_ACTIVE then Inl (app_error SESSION_EXPIRED)
               else if ss_expires x \<le> now then Inl (app_error SESSION_EXPIRED)
               else case find_by u_id (ss_user x) (users s) of
                 None \<Rightarrow> Inl not_found
               | Some u \<Rightarrow>
                   if account_barred u then Inl (app_error ACCOUNT_DISABLED)
                   else if at_iat c * 1000 < u_credentials_changed u - 1000 then Inl (app_error SESSION_EXPIRED)
                   else Inr \<lparr>pr_user = u_id u, pr_role = u_role u, pr_status = u_status u, pr_session = ss_id x,
                             pr_device = ss_device x, pr_key = key\<rparr>))"

definition see_session :: "id \<Rightarrow> time \<Rightarrow> db \<Rightarrow> db" where
  "see_session i now s = s\<lparr>sessions := upd_where (\<lambda>x. ss_id x = i) (\<lambda>x. x\<lparr>ss_last_seen := now\<rparr>) (sessions s)\<rparr>"

definition authenticate :: "access_verdict \<Rightarrow> string option \<Rightarrow> time \<Rightarrow> principal db_call" where
  "authenticate v key now =
     bind_c (read_c (attach v key now)) (\<lambda>r.
     case r of
       Inl e \<Rightarrow> fail_c e
     | Inr p \<Rightarrow> bind_c (write_c (see_session (pr_session p) now)) (\<lambda>_. ret_c p))"

text \<open>A public route still learns who asks, and never refuses for it.\<close>

definition can_activate :: "bool \<Rightarrow> access_verdict option \<Rightarrow> string option \<Rightarrow> time \<Rightarrow> principal option db_call" where
  "can_activate public token key now =
     (if public
      then case token of
             None \<Rightarrow> ret_c None
           | Some v \<Rightarrow> (\<lambda>s. case authenticate v key now s of (Inl e, t) \<Rightarrow> (Inr None, t) | (Inr p, t) \<Rightarrow> (Inr (Some p), t))
      else case token of
             None \<Rightarrow> fail_c (app_error UNAUTHORIZED)
           | Some v \<Rightarrow> bind_c (authenticate v key now) (\<lambda>p. ret_c (Some p)))"

definition roles_allow :: "bool \<Rightarrow> user_role list \<Rightarrow> principal option \<Rightarrow> exn + unit" where
  "roles_allow public required user =
     (if public \<or> required = [] then Inr ()
      else case user of
        None \<Rightarrow> Inl (app_error UNAUTHORIZED)
      | Some p \<Rightarrow> if pr_role p \<in> set required then Inr () else Inl (app_error INSUFFICIENT_ROLE))"

section \<open>Sign-in\<close>

record auth_config =
  ac_refresh_ttl :: int
  ac_grace :: int
  ac_max_failed :: nat
  ac_lockout_minutes :: int

text \<open>The password library: the hash of a password, its verification, and whether the parameters were raised since.\<close>

record password_lib =
  pw_hash :: "string \<Rightarrow> string"
  pw_verify :: "string \<Rightarrow> string \<Rightarrow> bool"
  pw_outdated :: "string \<Rightarrow> bool"

definition failed_login :: "auth_config \<Rightarrow> nat \<Rightarrow> time option \<Rightarrow> time \<Rightarrow> nat \<times> time option" where
  "failed_login cf count locked now =
     (let previous = (if (case locked of None \<Rightarrow> False | Some t \<Rightarrow> t \<le> now) then 0 else count); next = previous + 1 in
      (next, if ac_max_failed cf \<le> next then Some (now + ac_lockout_minutes cf * 60000) else None))"

text \<open>The count is the one read before the password was verified.\<close>

definition register_failed_attempt :: "auth_config \<Rightarrow> id \<Rightarrow> nat \<Rightarrow> time option \<Rightarrow> time \<Rightarrow> unit db_call" where
  "register_failed_attempt cf user count locked now =
     (let (n, lock) = failed_login cf count locked now in
      write_c (\<lambda>s. s\<lparr>users := upd_where (\<lambda>u. u_id u = user) (\<lambda>u. u\<lparr>u_failed_logins := n, u_locked_until := lock\<rparr>) (users s)\<rparr>))"

definition is_locked :: "user_row \<Rightarrow> time \<Rightarrow> bool" where
  "is_locked u now \<longleftrightarrow> (case u_locked_until u of None \<Rightarrow> False | Some t \<Rightarrow> now < t)"

definition verify_credentials :: "auth_config \<Rightarrow> password_lib \<Rightarrow> string \<Rightarrow> string \<Rightarrow> time \<Rightarrow> user_row db_call" where
  "verify_credentials cf lib phone password now =
     bind_c (read_c (\<lambda>s. find_by u_phone (normalize_phone phone) (users s))) (\<lambda>found.
     case found of
       None \<Rightarrow> fail_c (app_error INVALID_CREDENTIALS)
     | Some u \<Rightarrow>
         if u_deleted_at u \<noteq> None then fail_c (app_error INVALID_CREDENTIALS)
         else if is_locked u now then fail_c (app_error RATE_LIMITED)
         else if \<not> pw_verify lib (u_password u) password
         then bind_c (register_failed_attempt cf (u_id u) (u_failed_logins u) (u_locked_until u) now) (\<lambda>_.
              fail_c (app_error INVALID_CREDENTIALS))
         else ret_c u)"

record device_answer =
  da_authorized :: bool
  da_status :: "device_status option"
  da_reason :: "device_reason option"

record auth_result =
  ar_user :: id
  ar_session :: id
  ar_hash :: string
  ar_family :: string
  ar_device :: device_answer

text \<open>A freshly minted pair: the hash of the refresh token, and the family when a new one starts.\<close>

record minted =
  mt_hash :: string
  mt_family :: string

definition insert_refresh :: "refresh_row \<Rightarrow> unit dbtx" where
  "insert_refresh row =
     bind_tx (get_tx (\<lambda>s. rt_hash row \<in> set (map rt_hash (refresh_tokens s)))) (\<lambda>taken.
     bind_tx (require_tx (\<not> taken) (unique_violation ''tokenHash'')) (\<lambda>_.
     modify_tx (\<lambda>s. s\<lparr>refresh_tokens := refresh_tokens s @ [row]\<rparr>)))"

definition refresh_row_of :: "auth_config \<Rightarrow> id \<Rightarrow> id \<Rightarrow> id \<Rightarrow> string \<Rightarrow> string \<Rightarrow> time \<Rightarrow> refresh_row" where
  "refresh_row_of cf i user session h family now =
     \<lparr>rt_id = i, rt_user = user, rt_session = session, rt_hash = h, rt_family = family, rt_replaced_by = None,
      rt_used_at = None, rt_revoked_at = None, rt_revoked_reason = None, rt_created = now,
      rt_expires = now + ac_refresh_ttl cf * 1000\<rparr>"

definition new_session :: "auth_config \<Rightarrow> id \<Rightarrow> id option \<Rightarrow> time \<Rightarrow> id dbtx" where
  "new_session cf user dev now =
     bind_tx fresh_id (\<lambda>i.
     bind_tx (modify_tx (\<lambda>s. s\<lparr>sessions := sessions s @
       [\<lparr>ss_id = i, ss_user = user, ss_device = dev, ss_status = SS_ACTIVE, ss_created = now, ss_last_seen = now,
         ss_expires = now + ac_refresh_ttl cf * 1000, ss_revoked_at = None, ss_revoked_reason = None\<rparr>]\<rparr>)) (\<lambda>_.
     ret_tx i))"

definition establish_session ::
  "auth_config \<Rightarrow> device_config \<Rightarrow> id \<Rightarrow> device_context \<Rightarrow> minted \<Rightarrow> time \<Rightarrow> auth_result db_call" where
  "establish_session cf dcf user cx m now =
     bind_c (read_c (\<lambda>s. find_by u_id user (users s))) (\<lambda>found.
     bind_c (the_c not_found found) (\<lambda>u.
     bind_c (commit_c (resolve_on_login dcf user (u_role u) cx now)) (\<lambda>r.
     bind_c (commit_c (new_session cf user (rs_device r) now)) (\<lambda>i.
     bind_c (commit_c (bind_tx fresh_id (\<lambda>j. insert_refresh (refresh_row_of cf j user i (mt_hash m) (mt_family m) now)))) (\<lambda>_.
     ret_c \<lparr>ar_user = user, ar_session = i, ar_hash = mt_hash m, ar_family = mt_family m,
            ar_device = \<lparr>da_authorized = rs_authorized r, da_status = rs_status r, da_reason = rs_reason r\<rparr>\<rparr>)))))"

definition login_barred :: "user_row \<Rightarrow> db \<Rightarrow> error_code option" where
  "login_barred u s =
     (if u_status u = AS_DISABLED \<or> u_status u = AS_SUSPENDED then Some ACCOUNT_DISABLED
      else if u_status u = AS_PENDING then Some ACCOUNT_PENDING
      else if list_ex (\<lambda>d. dr_user d = u_id u \<and> (dr_status d = DL_PENDING \<or> dr_status d = DL_PROCESSING)) (deletion_requests s)
      then Some ACCOUNT_DELETION_PENDING
      else None)"

definition signed_in :: "password_lib \<Rightarrow> string \<Rightarrow> time \<Rightarrow> user_row \<Rightarrow> user_row" where
  "signed_in lib password now u =
     u\<lparr>u_password := (if pw_outdated lib (u_password u) then pw_hash lib password else u_password u),
       u_failed_logins := 0, u_locked_until := None, u_last_login := Some now\<rparr>"

definition login ::
  "auth_config \<Rightarrow> device_config \<Rightarrow> password_lib \<Rightarrow> string \<Rightarrow> string \<Rightarrow> device_context \<Rightarrow> minted \<Rightarrow> time \<Rightarrow> auth_result db_call" where
  "login cf dcf lib phone password cx m now =
     bind_c (verify_credentials cf lib phone password now) (\<lambda>u.
     bind_c (read_c (login_barred u)) (\<lambda>barred.
     case barred of
       Some e \<Rightarrow> fail_c (app_error e)
     | None \<Rightarrow>
         bind_c (write_c (\<lambda>s. s\<lparr>users := upd_where (\<lambda>x. u_id x = u_id u) (signed_in lib password now) (users s)\<rparr>)) (\<lambda>_.
         establish_session cf dcf (u_id u) cx m now)))"

section \<open>Registration\<close>

fun squeeze :: "bool \<Rightarrow> string \<Rightarrow> string" where
  "squeeze gap [] = []"
| "squeeze gap (c # cs) =
     (if is_ws c then squeeze True cs else (if gap then CHR '' '' # c # squeeze False cs else c # squeeze False cs))"

text \<open>\<open>trim\<close>, then every run of white space becomes one space.\<close>

definition clean_name :: "string \<Rightarrow> string" where
  "clean_name n = squeeze False (js_trim n)"

record register_request =
  rq_name :: string
  rq_phone :: string
  rq_password :: string
  rq_selection :: student_selection

definition register ::
  "auth_config \<Rightarrow> device_config \<Rightarrow> password_lib \<Rightarrow> register_request \<Rightarrow> device_context \<Rightarrow> minted \<Rightarrow> time \<Rightarrow> auth_result db_call" where
  "register cf dcf lib q cx m now =
     (let phone = normalize_phone (rq_phone q); sel = rq_selection q in
      bind_c (read_c (\<lambda>s. find_by u_phone phone (users s))) (\<lambda>existing.
      bind_c (require_c (existing = None) (AppEx PHONE_ALREADY_REGISTERED [(''phone'', [''already registered''])])) (\<lambda>_.
      bind_c (read_c (assert_selection_coherent sel)) (\<lambda>coherent.
      bind_c (commit_c (lift_tx coherent)) (\<lambda>_.
      bind_c (commit_c
        (bind_tx (get_tx (\<lambda>s. phone \<in> set (map u_phone (users s)))) (\<lambda>taken.
         bind_tx (require_tx (\<not> taken) (unique_violation ''phone'')) (\<lambda>_.
         bind_tx fresh_id (\<lambda>i.
         bind_tx (modify_tx (\<lambda>s. s\<lparr>
           users := users s @ [\<lparr>u_id = i, u_role = R_STUDENT, u_status = AS_ACTIVE, u_full_name = clean_name (rq_name q),
             u_phone = phone, u_password = pw_hash lib (rq_password q), u_failed_logins = 0, u_locked_until = None,
             u_credentials_changed = now, u_last_login = None, u_deleted_at = None\<rparr>],
           profiles := profiles s @ [\<lparr>sp_user = i, sp_university = Some (ss_university sel), sp_faculty = Some (ss_faculty sel),
             sp_department = Some (ss_department sel), sp_year = Some (ss_year sel)\<rparr>]\<rparr>)) (\<lambda>_.
         bind_tx (modify_tx (audit_with \<lparr>au_actor = Some i, au_action = ''CREATE'', au_entity = ''user'', au_entity_id = i,
           au_note = ''Self-registration''\<rparr>)) (\<lambda>_.
         ret_tx i))))))) (\<lambda>i.
      establish_session cf dcf i cx m now))))))"

section \<open>The rotation of a refresh token\<close>

record refresh_claims =
  rc_user :: id
  rc_session :: id
  rc_family :: string

text \<open>A presented token: what its verification says and the hash of its text.\<close>

record presented =
  pt_claims :: "refresh_claims option"
  pt_hash :: string

definition current_device_status :: "id \<Rightarrow> string option \<Rightarrow> db \<Rightarrow> device_answer" where
  "current_device_status user key s =
     (case key of
        None \<Rightarrow> \<lparr>da_authorized = False, da_status = None, da_reason = Some DR_NO_DEVICE_HEADER\<rparr>
      | Some k \<Rightarrow>
          (case find_device user k s of
             None \<Rightarrow> \<lparr>da_authorized = False, da_status = None, da_reason = Some DR_NOT_AUTHORIZED\<rparr>
           | Some d \<Rightarrow> \<lparr>da_authorized = (dv_status d = DV_ACTIVE), da_status = Some (dv_status d),
                        da_reason = (if dv_status d = DV_ACTIVE then None else Some DR_NOT_AUTHORIZED)\<rparr>))"

text \<open>The live tokens of a family are read first; then the family and their sessions end in one transaction.\<close>

definition revoke_family :: "string \<Rightarrow> time \<Rightarrow> string \<Rightarrow> db \<Rightarrow> db" where
  "revoke_family family now why s =
     (let ids = map rt_session (filter (\<lambda>x. rt_family x = family \<and> rt_revoked_at x = None) (refresh_tokens s)) in
      end_sessions (\<lambda>x. ss_id x \<in> set ids) now why (end_refresh (\<lambda>x. rt_family x = family) now why s))"

definition slide_session :: "id \<Rightarrow> time \<Rightarrow> time \<Rightarrow> unit dbtx" where
  "slide_session i now expires =
     bind_tx (get_tx (\<lambda>s. find_by ss_id i (sessions s))) (\<lambda>found.
     bind_tx (require_tx (found \<noteq> None) (PrismaKnown ''P2025'' [])) (\<lambda>_.
     modify_tx (\<lambda>s. s\<lparr>sessions := upd_where (\<lambda>x. ss_id x = i)
       (\<lambda>x. x\<lparr>ss_last_seen := now, ss_expires := expires\<rparr>) (sessions s)\<rparr>)))"

text \<open>The new row of the chain, and the sliding expiry of the session.\<close>

definition add_successor :: "auth_config \<Rightarrow> refresh_row \<Rightarrow> string \<Rightarrow> time \<Rightarrow> bool dbtx" where
  "add_successor cf stored new now =
     bind_tx fresh_id (\<lambda>j.
     bind_tx (insert_refresh (refresh_row_of cf j (rt_user stored) (rt_session stored) new (rt_family stored) now)) (\<lambda>_.
     bind_tx (modify_tx (\<lambda>s. s\<lparr>refresh_tokens := upd_where (\<lambda>x. rt_id x = rt_id stored)
       (\<lambda>x. x\<lparr>rt_replaced_by := Some j\<rparr>) (refresh_tokens s)\<rparr>)) (\<lambda>_.
     bind_tx (slide_session (rt_session stored) now (now + ac_refresh_ttl cf * 1000)) (\<lambda>_.
     ret_tx True))))"

definition claim_token :: "id \<Rightarrow> time \<Rightarrow> db \<Rightarrow> db" where
  "claim_token i now s =
     s\<lparr>refresh_tokens := upd_where (\<lambda>x. rt_id x = i \<and> rt_used_at x = None \<and> rt_revoked_at x = None)
       (\<lambda>x. x\<lparr>rt_used_at := Some now\<rparr>) (refresh_tokens s)\<rparr>"

text \<open>The compare-and-set of a rotation: it claims the row only while it is unused and unrevoked.\<close>

definition commit_rotation :: "auth_config \<Rightarrow> refresh_row \<Rightarrow> string \<Rightarrow> time \<Rightarrow> bool dbtx" where
  "commit_rotation cf stored new now =
     bind_tx (get_tx (\<lambda>s. list_ex (\<lambda>x. rt_id x = rt_id stored \<and> rt_used_at x = None \<and> rt_revoked_at x = None) (refresh_tokens s))) (\<lambda>free.
     if \<not> free then ret_tx False
     else bind_tx (modify_tx (claim_token (rt_id stored) now)) (\<lambda>_. add_successor cf stored new now))"

definition commit_reissue :: "auth_config \<Rightarrow> refresh_row \<Rightarrow> string \<Rightarrow> time \<Rightarrow> unit dbtx" where
  "commit_reissue cf spent new now =
     bind_tx fresh_id (\<lambda>j.
     bind_tx (insert_refresh (refresh_row_of cf j (rt_user spent) (rt_session spent) new (rt_family spent) now)) (\<lambda>_.
     slide_session (rt_session spent) now (now + ac_refresh_ttl cf * 1000)))"

text \<open>What both paths check of the stored token before they mint: its expiry, its session, its account, the credentials.\<close>

definition refresh_refusal :: "refresh_row \<Rightarrow> time \<Rightarrow> db \<Rightarrow> error_code option" where
  "refresh_refusal x now s =
     (if rt_expires x \<le> now then Some SESSION_EXPIRED
      else if \<not> holds_some (\<lambda>y. ss_status y = SS_ACTIVE) (find_by ss_id (rt_session x) (sessions s)) then Some SESSION_EXPIRED
      else case find_by u_id (rt_user x) (users s) of
        None \<Rightarrow> Some ACCOUNT_DISABLED
      | Some u \<Rightarrow>
          if account_barred u then Some ACCOUNT_DISABLED
          else if rt_created x < u_credentials_changed u - 1000 then Some SESSION_EXPIRED
          else None)"

datatype rotation = Rotated auth_result | Reissued auth_result | Refused exn | Lost

text \<open>One attempt: the hash of the pair it mints, what other requests commit between its read and its transaction, its instant.\<close>

record attempt =
  ap_hash :: string
  ap_gap :: "db \<Rightarrow> db"
  ap_now :: time

definition granted :: "refresh_row \<Rightarrow> string \<Rightarrow> string option \<Rightarrow> db \<Rightarrow> auth_result" where
  "granted x new key s =
     \<lparr>ar_user = rt_user x, ar_session = rt_session x, ar_hash = new, ar_family = rt_family x,
      ar_device = current_device_status (rt_user x) key s\<rparr>"

definition reissue_from_successor :: "auth_config \<Rightarrow> refresh_row \<Rightarrow> attempt \<Rightarrow> string option \<Rightarrow> db \<Rightarrow> rotation \<times> db" where
  "reissue_from_successor cf x a key s =
     (case refresh_refusal x (ap_now a) s of
        Some e \<Rightarrow> (Refused (app_error e), s)
      | None \<Rightarrow>
          (case commit_reissue cf x (ap_hash a) (ap_now a) (ap_gap a s) of
             Inl e \<Rightarrow> (Refused e, ap_gap a s)
           | Inr (_, t) \<Rightarrow> (Reissued (granted x (ap_hash a) key t), t)))"

definition rotate_once :: "auth_config \<Rightarrow> presented \<Rightarrow> attempt \<Rightarrow> string option \<Rightarrow> db \<Rightarrow> rotation \<times> db" where
  "rotate_once cf p a key s =
     (case pt_claims p of
        None \<Rightarrow> (Refused (app_error SESSION_EXPIRED), s)
      | Some c \<Rightarrow>
          (case find_by rt_hash (pt_hash p) (refresh_tokens s) of
             None \<Rightarrow> (Refused (app_error SESSION_EXPIRED),
                      revoke_family (rc_family c) (ap_now a) ''Unknown refresh token presented'' s)
           | Some x \<Rightarrow>
               if rt_revoked_at x \<noteq> None then (Refused (app_error SESSION_EXPIRED), s)
               else case rt_used_at x of
                 Some used \<Rightarrow>
                   if ap_now a - used \<le> ac_grace cf * 1000 then reissue_from_successor cf x a key s
                   else (Refused (app_error SESSION_EXPIRED),
                         revoke_family (rt_family x) (ap_now a) ''Refresh token reuse detected'' s)
               | None \<Rightarrow>
                   (case refresh_refusal x (ap_now a) s of
                      Some e \<Rightarrow> (Refused (app_error e), s)
                    | None \<Rightarrow>
                        (case commit_rotation cf x (ap_hash a) (ap_now a) (ap_gap a s) of
                           Inl e \<Rightarrow> (Refused e, ap_gap a s)
                         | Inr (ok, t) \<Rightarrow> if ok then (Rotated (granted x (ap_hash a) key t), t) else (Lost, t)))))"

text \<open>The rotation: a lost race is retried once, and reads the token again.\<close>

function rotate_refresh ::
  "auth_config \<Rightarrow> presented \<Rightarrow> (bool \<Rightarrow> attempt) \<Rightarrow> string option \<Rightarrow> bool \<Rightarrow> db \<Rightarrow> (exn + auth_result) \<times> db" where
  "rotate_refresh cf p env key retry s =
     (case rotate_once cf p (env retry) key s of
        (Rotated r, t) \<Rightarrow> (Inr r, t)
      | (Reissued r, t) \<Rightarrow> (Inr r, t)
      | (Refused e, t) \<Rightarrow> (Inl e, t)
      | (Lost, t) \<Rightarrow> if retry then (Inl (app_error SESSION_EXPIRED), t) else rotate_refresh cf p env key True t)"
  by pat_completeness auto

termination
  by (relation "measure (\<lambda>(cf, p, env, key, retry, s). if retry then 0 else 1)") auto

declare rotate_refresh.simps [simp del]

definition refresh :: "auth_config \<Rightarrow> presented \<Rightarrow> (bool \<Rightarrow> attempt) \<Rightarrow> string option \<Rightarrow> db \<Rightarrow> (exn + auth_result) \<times> db" where
  "refresh cf p env key s = rotate_refresh cf p env key False s"

section \<open>Sign-out and the password\<close>

definition logged_out :: "time \<Rightarrow> session_row \<Rightarrow> session_row" where
  "logged_out now x = x\<lparr>ss_status := SS_REVOKED, ss_revoked_at := Some now, ss_revoked_reason := Some ''User logout''\<rparr>"

definition release_tickets :: "(ticket_row \<Rightarrow> bool) \<Rightarrow> time \<Rightarrow> db \<Rightarrow> db" where
  "release_tickets p now s =
     s\<lparr>tickets := upd_where (\<lambda>x. p x \<and> tk_status x = TS_ACTIVE)
       (\<lambda>x. x\<lparr>tk_status := TS_RELEASED, tk_released_at := Some now\<rparr>) (tickets s)\<rparr>"

text \<open>Signing out everywhere and deleting an account revoke the tickets and stamp them as released.\<close>

definition close_tickets :: "(ticket_row \<Rightarrow> bool) \<Rightarrow> time \<Rightarrow> string \<Rightarrow> db \<Rightarrow> db" where
  "close_tickets p now why s =
     s\<lparr>tickets := upd_where (\<lambda>x. p x \<and> tk_status x = TS_ACTIVE)
       (\<lambda>x. x\<lparr>tk_status := TS_REVOKED, tk_released_at := Some now, tk_revoked_reason := Some why\<rparr>) (tickets s)\<rparr>"

definition logout :: "id \<Rightarrow> id \<Rightarrow> string option \<Rightarrow> time \<Rightarrow> unit dbtx" where
  "logout user i key now =
     bind_tx (modify_tx (\<lambda>s. s\<lparr>sessions := upd_where (\<lambda>x. ss_id x = i \<and> ss_user x = user) (logged_out now) (sessions s)\<rparr>)) (\<lambda>_.
     bind_tx (modify_tx (end_refresh (\<lambda>x. rt_session x = i) now ''User logout'')) (\<lambda>_.
     bind_tx (modify_tx (release_tickets (\<lambda>x. tk_session x = Some i) now)) (\<lambda>_.
     modify_tx (\<lambda>s. s\<lparr>push_tokens := upd_where
       (\<lambda>x. ph_user x = user \<and> ph_device_key x = Some (case key of Some k \<Rightarrow> k | None \<Rightarrow> ''__none__''))
       (\<lambda>x. x\<lparr>ph_active := False\<rparr>) (push_tokens s)\<rparr>))))"

definition live_sessions :: "id \<Rightarrow> db \<Rightarrow> nat" where
  "live_sessions user s = count_where (\<lambda>x. ss_user x = user \<and> ss_status x = SS_ACTIVE) (sessions s)"

definition logout_all :: "id \<Rightarrow> string \<Rightarrow> time \<Rightarrow> nat dbtx" where
  "logout_all user why now =
     bind_tx (get_tx (live_sessions user)) (\<lambda>n.
     bind_tx (modify_tx (end_sessions (\<lambda>x. ss_user x = user) now why)) (\<lambda>_.
     bind_tx (modify_tx (end_refresh (\<lambda>x. rt_user x = user) now why)) (\<lambda>_.
     bind_tx (modify_tx (close_tickets (\<lambda>x. tk_user x = user) now why)) (\<lambda>_.
     bind_tx (modify_tx (mute_pushes (\<lambda>x. ph_user x = user))) (\<lambda>_.
     ret_tx n)))))"

definition set_password :: "id \<Rightarrow> string \<Rightarrow> time \<Rightarrow> db \<Rightarrow> db" where
  "set_password user h now s =
     s\<lparr>users := upd_where (\<lambda>u. u_id u = user) (\<lambda>u. u\<lparr>u_password := h, u_credentials_changed := now\<rparr>) (users s)\<rparr>"

definition account_audit :: "id \<Rightarrow> string \<Rightarrow> string \<Rightarrow> id \<Rightarrow> string \<Rightarrow> unit dbtx" where
  "account_audit actor action entity i note =
     modify_tx (audit_with \<lparr>au_actor = Some actor, au_action = action, au_entity = entity, au_entity_id = i, au_note = note\<rparr>)"

definition change_password :: "password_lib \<Rightarrow> id \<Rightarrow> string \<Rightarrow> string \<Rightarrow> time \<Rightarrow> unit dbtx" where
  "change_password lib user current new now =
     bind_tx (get_tx (\<lambda>s. find_by u_id user (users s))) (\<lambda>found.
     bind_tx (the_or (PrismaKnown ''P2025'' []) found) (\<lambda>u.
     bind_tx (require_tx (u_role u \<noteq> R_STUDENT) (app_error INSUFFICIENT_ROLE)) (\<lambda>_.
     bind_tx (require_tx (pw_verify lib (u_password u) current)
       (AppEx INVALID_CREDENTIALS [(''currentPassword'', [''incorrect''])])) (\<lambda>_.
     bind_tx (modify_tx (set_password user (pw_hash lib new) now)) (\<lambda>_.
     bind_tx (modify_tx (end_refresh (\<lambda>x. rt_user x = user) now ''Password changed'')) (\<lambda>_.
     bind_tx (modify_tx (end_sessions (\<lambda>x. ss_user x = user) now ''Password changed'')) (\<lambda>_.
     account_audit user ''PASSWORD_RESET'' ''user'' user ''Self-service password change'')))))))"

section \<open>The staff's session management\<close>

text \<open>Whether the session had already ended.\<close>

definition revoke_session :: "id \<Rightarrow> id \<Rightarrow> string \<Rightarrow> time \<Rightarrow> bool dbtx" where
  "revoke_session i actor why now =
     bind_tx (get_tx (\<lambda>s. find_by ss_id i (sessions s))) (\<lambda>found.
     bind_tx (the_or not_found found) (\<lambda>x.
     if ss_status x \<noteq> SS_ACTIVE then ret_tx True
     else
       bind_tx (get_tx (\<lambda>s. case ss_device x of None \<Rightarrow> None | Some d \<Rightarrow> map_option dv_key (find_by dv_id d (devices s)))) (\<lambda>key.
       bind_tx (modify_tx (end_sessions (\<lambda>y. ss_id y = i) now why)) (\<lambda>_.
       bind_tx (modify_tx (end_refresh (\<lambda>y. rt_session y = i) now why)) (\<lambda>_.
       bind_tx (modify_tx (end_tickets (\<lambda>y. tk_session y = Some i) now why)) (\<lambda>_.
       bind_tx (case key of
                  None \<Rightarrow> ret_tx ()
                | Some k \<Rightarrow> modify_tx (mute_pushes (\<lambda>y. ph_user y = ss_user x \<and> ph_device_key y = Some k))) (\<lambda>_.
       bind_tx (account_audit actor ''ACCESS_REVOKE'' ''Session'' i why) (\<lambda>_.
       ret_tx False))))))))"

definition live_session_ids :: "id \<Rightarrow> db \<Rightarrow> id list" where
  "live_session_ids user s = map ss_id (filter (\<lambda>x. ss_user x = user \<and> ss_status x = SS_ACTIVE) (sessions s))"

definition revoke_all_for_user :: "id \<Rightarrow> id \<Rightarrow> string \<Rightarrow> time \<Rightarrow> nat dbtx" where
  "revoke_all_for_user user actor why now =
     bind_tx (get_tx (live_session_ids user)) (\<lambda>ids.
     bind_tx (if ids = [] then ret_tx ()
       else
         bind_tx (modify_tx (end_sessions (\<lambda>x. ss_id x \<in> set ids) now why)) (\<lambda>_.
         bind_tx (modify_tx (end_refresh (\<lambda>x. rt_session x \<in> set ids) now why)) (\<lambda>_.
         bind_tx (modify_tx (end_tickets (\<lambda>x. holds_some (\<lambda>i. i \<in> set ids) (tk_session x)) now why)) (\<lambda>_.
         modify_tx (mute_pushes (\<lambda>x. ph_user x = user)))))) (\<lambda>_.
     bind_tx (account_audit actor ''ACCESS_REVOKE'' ''User'' user why) (\<lambda>_.
     ret_tx (length ids))))"

definition revoke_playback_for_user :: "id \<Rightarrow> id \<Rightarrow> string \<Rightarrow> time \<Rightarrow> nat dbtx" where
  "revoke_playback_for_user user actor why now =
     bind_tx (get_tx (\<lambda>s. count_where (\<lambda>x. tk_user x = user \<and> tk_status x = TS_ACTIVE) (tickets s))) (\<lambda>n.
     bind_tx (modify_tx (end_tickets (\<lambda>x. tk_user x = user) now why)) (\<lambda>_.
     bind_tx (account_audit actor ''ACCESS_REVOKE'' ''PlaybackTicket'' user why) (\<lambda>_.
     ret_tx n)))"

end
