(* ===== verification/Accounts.thy ===== *)
theory Accounts
  imports Sessions
begin

text \<open>
  The administration of accounts (\<open>modules/users/users.service.ts\<close>): who may manage whom, staff
  accounts, edits, password resets, deletions, and the student's own profile. The columns of a
  teacher's profile, the contact columns and the lists are left out.
\<close>

definition assert_can_manage :: "user_role \<Rightarrow> user_role \<Rightarrow> exn + unit" where
  "assert_can_manage actor target =
     (if target = R_MASTER then Inl (app_error CANNOT_MODIFY_MASTER)
      else if actor = R_MASTER then Inr ()
      else if actor = R_ADMIN \<and> target \<noteq> R_ADMIN then Inr ()
      else Inl (app_error INSUFFICIENT_ROLE))"

definition managed_user :: "id \<Rightarrow> db \<Rightarrow> user_row option" where
  "managed_user i s = List.find (\<lambda>u. u_id u = i \<and> u_deleted_at u = None) (users s)"

record staff_request =
  sr_phone :: string
  sr_password :: string
  sr_name :: string
  sr_role :: user_role

definition create_staff :: "password_lib \<Rightarrow> staff_request \<Rightarrow> id \<Rightarrow> user_role \<Rightarrow> time \<Rightarrow> id dbtx" where
  "create_staff lib q actor actor_role now =
     (let phone = normalize_phone (sr_phone q) in
      bind_tx (require_tx (sr_role q \<noteq> R_MASTER) (app_error CANNOT_MODIFY_MASTER)) (\<lambda>_.
      bind_tx (require_tx (\<not> (sr_role q = R_ADMIN \<and> actor_role \<noteq> R_MASTER)) (app_error INSUFFICIENT_ROLE)) (\<lambda>_.
      bind_tx (require_tx (is_valid_mobile phone) (validation [(''phone'', [''invalid mobile number''])])) (\<lambda>_.
      bind_tx (get_tx (\<lambda>s. phone \<in> set (map u_phone (users s)))) (\<lambda>taken.
      bind_tx (require_tx (\<not> taken) (app_error PHONE_ALREADY_REGISTERED)) (\<lambda>_.
      bind_tx fresh_id (\<lambda>i.
      bind_tx (modify_tx (\<lambda>s. s\<lparr>users := users s @ [\<lparr>u_id = i, u_role = sr_role q, u_status = AS_ACTIVE,
        u_full_name = clean_name (sr_name q), u_phone = phone, u_password = pw_hash lib (sr_password q), u_failed_logins = 0,
        u_locked_until = None, u_credentials_changed = now, u_last_login = None, u_deleted_at = None\<rparr>]\<rparr>)) (\<lambda>_.
      bind_tx (account_audit actor ''CREATE'' ''user'' i []) (\<lambda>_.
      ret_tx i)))))))))"

record account_patch =
  up_name :: "string option"
  up_status :: "account_status option"
  up_university :: "id option"
  up_faculty :: "id option"
  up_department :: "id option"
  up_year :: "id option"

definition moves_student :: "account_patch \<Rightarrow> user_row \<Rightarrow> bool" where
  "moves_student p u \<longleftrightarrow>
     u_role u = R_STUDENT \<and> (up_university p \<noteq> None \<or> up_faculty p \<noteq> None \<or> up_department p \<noteq> None \<or> up_year p \<noteq> None)"

text \<open>
  The selection after the edit: what was sent, else what the profile has. What neither has is sent to
  the check as the empty text, which names no row; here, an identifier not given yet.
\<close>

definition first_id :: "id option \<Rightarrow> id option \<Rightarrow> id \<Rightarrow> id" where
  "first_id sent stored none = (case sent of Some i \<Rightarrow> i | None \<Rightarrow> (case stored of Some i \<Rightarrow> i | None \<Rightarrow> none))"

definition edited_selection :: "account_patch \<Rightarrow> id \<Rightarrow> db \<Rightarrow> student_selection" where
  "edited_selection p i s =
     (let q = find_by sp_user i (profiles s); stored = (\<lambda>col. case q of None \<Rightarrow> None | Some r \<Rightarrow> col r) in
      \<lparr>ss_university = first_id (up_university p) (stored sp_university) (db_next s),
       ss_faculty = first_id (up_faculty p) (stored sp_faculty) (db_next s),
       ss_department = first_id (up_department p) (stored sp_department) (db_next s),
       ss_year = first_id (up_year p) (stored sp_year) (db_next s), ss_study = None\<rparr>)"

definition patched_user :: "account_patch \<Rightarrow> user_row \<Rightarrow> user_row" where
  "patched_user p u =
     u\<lparr>u_full_name := (case up_name p of Some n \<Rightarrow> clean_name n | None \<Rightarrow> u_full_name u),
       u_status := (case up_status p of Some st \<Rightarrow> st | None \<Rightarrow> u_status u)\<rparr>"

definition patched_profile :: "account_patch \<Rightarrow> profile_row \<Rightarrow> profile_row" where
  "patched_profile p r =
     r\<lparr>sp_university := (case up_university p of Some i \<Rightarrow> Some i | None \<Rightarrow> sp_university r),
       sp_faculty := (case up_faculty p of Some i \<Rightarrow> Some i | None \<Rightarrow> sp_faculty r),
       sp_department := (case up_department p of Some i \<Rightarrow> Some i | None \<Rightarrow> sp_department r),
       sp_year := (case up_year p of Some i \<Rightarrow> Some i | None \<Rightarrow> sp_year r)\<rparr>"

definition barred_status :: "account_status option \<Rightarrow> bool" where
  "barred_status st \<longleftrightarrow> st = Some AS_SUSPENDED \<or> st = Some AS_DISABLED"

definition bar_reason :: "account_status option \<Rightarrow> string" where
  "bar_reason st = (if st = Some AS_SUSPENDED then ''Account suspended'' else ''Account disabled'')"

text \<open>A suspension takes effect at once.\<close>

definition update_by_admin :: "id \<Rightarrow> account_patch \<Rightarrow> id \<Rightarrow> user_role \<Rightarrow> time \<Rightarrow> unit dbtx" where
  "update_by_admin i p actor actor_role now =
     bind_tx (get_tx (managed_user i)) (\<lambda>found.
     bind_tx (the_or not_found found) (\<lambda>u.
     bind_tx (lift_tx (assert_can_manage actor_role (u_role u))) (\<lambda>_.
     bind_tx (get_tx (\<lambda>s. if moves_student p u then assert_selection_coherent (edited_selection p i s) s else Inr ())) (\<lambda>coherent.
     bind_tx (lift_tx coherent) (\<lambda>_.
     bind_tx (modify_tx (\<lambda>s. s\<lparr>users := upd_where (\<lambda>x. u_id x = i) (patched_user p) (users s)\<rparr>)) (\<lambda>_.
     bind_tx (if moves_student p u
       then bind_tx (get_tx (\<lambda>s. find_by sp_user i (profiles s))) (\<lambda>profile.
            bind_tx (require_tx (profile \<noteq> None) (PrismaKnown ''P2025'' [])) (\<lambda>_.
            modify_tx (\<lambda>s. s\<lparr>profiles := upd_where (\<lambda>r. sp_user r = i) (patched_profile p) (profiles s)\<rparr>)))
       else ret_tx ()) (\<lambda>_.
     bind_tx (if barred_status (up_status p)
       then bind_tx (modify_tx (end_sessions (\<lambda>x. ss_user x = i) now (bar_reason (up_status p)))) (\<lambda>_.
            bind_tx (modify_tx (end_refresh (\<lambda>x. rt_user x = i) now (bar_reason (up_status p)))) (\<lambda>_.
            modify_tx (end_tickets (\<lambda>x. tk_user x = i) now ''Account suspended'')))
       else ret_tx ()) (\<lambda>_.
     account_audit actor ''UPDATE'' ''user'' i []))))))))"

definition reset_user :: "string \<Rightarrow> time \<Rightarrow> user_row \<Rightarrow> user_row" where
  "reset_user h now u =
     u\<lparr>u_password := h, u_credentials_changed := now, u_failed_logins := 0, u_locked_until := None\<rparr>"

definition reset_password_by_admin :: "password_lib \<Rightarrow> id \<Rightarrow> string \<Rightarrow> id \<Rightarrow> user_role \<Rightarrow> string option \<Rightarrow> time \<Rightarrow> unit dbtx" where
  "reset_password_by_admin lib i new actor actor_role note now =
     bind_tx (get_tx (managed_user i)) (\<lambda>found.
     bind_tx (the_or not_found found) (\<lambda>u.
     bind_tx (lift_tx (assert_can_manage actor_role (u_role u))) (\<lambda>_.
     bind_tx (modify_tx (\<lambda>s. s\<lparr>users := upd_where (\<lambda>x. u_id x = i) (reset_user (pw_hash lib new) now) (users s)\<rparr>)) (\<lambda>_.
     bind_tx (modify_tx (end_refresh (\<lambda>x. rt_user x = i) now ''Administrative password reset'')) (\<lambda>_.
     bind_tx (modify_tx (end_sessions (\<lambda>x. ss_user x = i) now ''Administrative password reset'')) (\<lambda>_.
     account_audit actor ''PASSWORD_RESET'' ''user'' i (case note of Some n \<Rightarrow> n | None \<Rightarrow> ''Administrative reset'')))))))"

text \<open>The courses that would be left without a teacher.\<close>

definition stranded_courses :: "id \<Rightarrow> db \<Rightarrow> id list" where
  "stranded_courses teacher s =
     map c_id (filter (\<lambda>c. c_deleted_at c = None \<and> c_status c \<noteq> CS_ARCHIVED
         \<and> list_ex (\<lambda>x. ct_course x = c_id c \<and> ct_teacher x = teacher) (teachers s)
         \<and> count_where (\<lambda>x. ct_course x = c_id c) (teachers s) \<le> 1) (courses s))"

definition tombstone :: "time \<Rightarrow> user_row \<Rightarrow> user_row" where
  "tombstone now u =
     u\<lparr>u_deleted_at := Some now, u_status := AS_DISABLED,
       u_phone := ''deleted:'' @ u_phone u @ '':'' @ show_nat (nat now)\<rparr>"

definition soft_delete :: "id \<Rightarrow> id \<Rightarrow> user_role \<Rightarrow> string \<Rightarrow> time \<Rightarrow> unit dbtx" where
  "soft_delete i actor actor_role why now =
     bind_tx (get_tx (managed_user i)) (\<lambda>found.
     bind_tx (the_or not_found found) (\<lambda>u.
     bind_tx (require_tx (u_role u \<noteq> R_MASTER) (app_error CANNOT_MODIFY_MASTER)) (\<lambda>_.
     bind_tx (lift_tx (assert_can_manage actor_role (u_role u))) (\<lambda>_.
     bind_tx (require_tx (i \<noteq> actor) (app_error INVALID_STATE)) (\<lambda>_.
     bind_tx (get_tx (\<lambda>s. if u_role u = R_TEACHER then stranded_courses i s else [])) (\<lambda>stranded.
     bind_tx (require_tx (stranded = []) (app_error INVALID_STATE)) (\<lambda>_.
     bind_tx (modify_tx (\<lambda>s. s\<lparr>users := upd_where (\<lambda>x. u_id x = i) (tombstone now) (users s)\<rparr>)) (\<lambda>_.
     bind_tx (modify_tx (end_sessions (\<lambda>x. ss_user x = i) now why)) (\<lambda>_.
     bind_tx (modify_tx (end_refresh (\<lambda>x. rt_user x = i) now why)) (\<lambda>_.
     bind_tx (modify_tx (close_tickets (\<lambda>x. tk_user x = i) now ''Account deleted'')) (\<lambda>_.
     bind_tx (modify_tx (mute_pushes (\<lambda>x. ph_user x = i))) (\<lambda>_.
     account_audit actor ''DELETE'' ''user'' i why))))))))))))"

section \<open>The student's own profile\<close>

text \<open>The parts of a name between spaces; empty ones are not counted.\<close>

fun name_parts :: "bool \<Rightarrow> string \<Rightarrow> nat" where
  "name_parts inside [] = 0"
| "name_parts inside (c # cs) =
     (if c = CHR '' '' then name_parts False cs else (if inside then 0 else 1) + name_parts True cs)"

definition assert_full_name :: "string \<Rightarrow> exn + string" where
  "assert_full_name n =
     (if name_parts False (clean_name n) < 3 then Inl (validation [(''fullName'', [''must contain at least three parts''])])
      else Inr (clean_name n))"

definition assert_own_year :: "bool \<Rightarrow> id \<Rightarrow> id \<Rightarrow> db \<Rightarrow> exn + unit" where
  "assert_own_year allowed user year s =
     (if \<not> allowed then Inl (app_error FORBIDDEN)
      else if \<not> list_ex (\<lambda>y. ay_id y = year \<and> ay_active y) (years s)
      then Inl (validation [(''academicYearId'', [''unknown academic year''])])
      else case find_by sp_user user (profiles s) of
        None \<Rightarrow> Inl (validation [(''academicYearId'', [''student profile required''])])
      | Some r \<Rightarrow>
          (case (sp_university r, sp_faculty r, sp_department r) of
             (Some u, Some f, Some d) \<Rightarrow>
               assert_selection_coherent \<lparr>ss_university = u, ss_faculty = f, ss_department = d, ss_year = year, ss_study = None\<rparr> s
           | _ \<Rightarrow> Inl (validation [(''academicYearId'', [''student profile required''])])))"

text \<open>
  The name is checked before the year is written, and written after it: a refused year leaves the
  name alone, and the two writes are not one transaction.
\<close>

definition update_own_profile :: "bool \<Rightarrow> id \<Rightarrow> string option \<Rightarrow> id option \<Rightarrow> unit db_call" where
  "update_own_profile allowed user name year =
     bind_c (commit_c (lift_tx (case name of None \<Rightarrow> Inr None | Some n \<Rightarrow> bind_r (assert_full_name n) (\<lambda>c. Inr (Some c))))) (\<lambda>cleaned.
     bind_c (case year of
               None \<Rightarrow> ret_c ()
             | Some y \<Rightarrow>
                 bind_c (read_c (assert_own_year allowed user y)) (\<lambda>ok.
                 bind_c (commit_c (lift_tx ok)) (\<lambda>_.
                 write_c (\<lambda>s. s\<lparr>profiles := upd_where (\<lambda>r. sp_user r = user) (\<lambda>r. r\<lparr>sp_year := Some y\<rparr>) (profiles s)\<rparr>)))) (\<lambda>_.
     case cleaned of
       None \<Rightarrow> ret_c ()
     | Some c \<Rightarrow> write_c (\<lambda>s. s\<lparr>users := upd_where (\<lambda>u. u_id u = user) (\<lambda>u. u\<lparr>u_full_name := c\<rparr>) (users s)\<rparr>)))"

end
