(* ===== verification/SessionSafety.thy ===== *)
theory SessionSafety
  imports Accounts
begin

text \<open>
  What sign-in, devices and account administration guarantee together: a machine whose steps are the
  operations, and conditions on the state that no step breaks. A condition on the sessions and the
  refresh tokens need not look at the operations: five laws on the elementary writes suffice.
\<close>

section \<open>The machine\<close>

text \<open>
  A rotation reads and then commits: the commit is a step of its own, on whatever row was read before,
  so every interleaving of refreshes is a sequence of steps.
\<close>

inductive auth_step :: "device_config \<Rightarrow> db \<Rightarrow> db \<Rightarrow> bool" for dcf where
  au_guard: "authenticate v key now s = (r, t) \<Longrightarrow> auth_step dcf s t"
| au_login: "login cf dcf lib phone password cx m now s = (r, t) \<Longrightarrow> auth_step dcf s t"
| au_register: "register cf dcf lib q cx m now s = (r, t) \<Longrightarrow> auth_step dcf s t"
| au_rotate: "commit_rotation cf x new now s = Inr (ok, t) \<Longrightarrow> auth_step dcf s t"
| au_reissue: "commit_reissue cf x new now s = Inr (u, t) \<Longrightarrow> auth_step dcf s t"
| au_replay: "t = revoke_family family now why s \<Longrightarrow> auth_step dcf s t"
| au_logout: "logout user i key now s = Inr (u, t) \<Longrightarrow> auth_step dcf s t"
| au_logout_all: "logout_all user why now s = Inr (n, t) \<Longrightarrow> auth_step dcf s t"
| au_password: "change_password lib user current new now s = Inr (u, t) \<Longrightarrow> auth_step dcf s t"
| au_revoke: "revoke_session i actor why now s = Inr (b, t) \<Longrightarrow> auth_step dcf s t"
| au_revoke_all: "revoke_all_for_user user actor why now s = Inr (n, t) \<Longrightarrow> auth_step dcf s t"
| au_playback: "revoke_playback_for_user user actor why now s = Inr (n, t) \<Longrightarrow> auth_step dcf s t"
| au_request: "request_change user cx reason now s = Inr (c, t) \<Longrightarrow> auth_step dcf s t"
| au_approve: "approve_change i actor note now s = Inr (d, t) \<Longrightarrow> auth_step dcf s t"
| au_reject: "reject_change i actor note now s = Inr (u, t) \<Longrightarrow> auth_step dcf s t"
| au_unbind: "revoke_device dev actor why now s = Inr (u, t) \<Longrightarrow> auth_step dcf s t"
| au_reset: "reset_binding user actor why now s = Inr (p, t) \<Longrightarrow> auth_step dcf s t"
| au_staff: "create_staff lib sq actor role now s = Inr (i, t) \<Longrightarrow> auth_step dcf s t"
| au_update: "update_by_admin i up actor role now s = Inr (u, t) \<Longrightarrow> auth_step dcf s t"
| au_new_password: "reset_password_by_admin lib i new actor role note now s = Inr (u, t) \<Longrightarrow> auth_step dcf s t"
| au_delete: "soft_delete i actor role why now s = Inr (u, t) \<Longrightarrow> auth_step dcf s t"
| au_profile: "update_own_profile allowed user name year s = (r, t) \<Longrightarrow> auth_step dcf s t"
| au_other: "sessions t = sessions s \<Longrightarrow> refresh_tokens t = refresh_tokens s \<Longrightarrow> devices t = devices s \<Longrightarrow>
    db_next s \<le> db_next t \<Longrightarrow> auth_step dcf s t"

section \<open>Conditions the machine keeps\<close>

definition session_quiet :: "(session_row \<Rightarrow> session_row) \<Rightarrow> bool" where
  "session_quiet f \<longleftrightarrow> (\<forall>x. ss_id (f x) = ss_id x \<and> ss_user (f x) = ss_user x \<and> (ss_status (f x) = SS_ACTIVE \<longrightarrow> ss_status x = SS_ACTIVE))"

definition token_quiet :: "(refresh_row \<Rightarrow> refresh_row) \<Rightarrow> bool" where
  "token_quiet f \<longleftrightarrow> (\<forall>x. rt_id (f x) = rt_id x \<and> rt_hash (f x) = rt_hash x \<and> rt_session (f x) = rt_session x
     \<and> (rt_used_at x \<noteq> None \<longrightarrow> rt_used_at (f x) \<noteq> None) \<and> (rt_revoked_at x \<noteq> None \<longrightarrow> rt_revoked_at (f x) \<noteq> None))"

locale table_condition =
  fixes Q :: "db \<Rightarrow> bool"
  assumes frame: "Q s \<Longrightarrow> sessions t = sessions s \<Longrightarrow> refresh_tokens t = refresh_tokens s \<Longrightarrow> devices t = devices s \<Longrightarrow>
      db_next s \<le> db_next t \<Longrightarrow> Q t"
    and sessions_kept: "Q s \<Longrightarrow> session_quiet f \<Longrightarrow> Q (s\<lparr>sessions := map f (sessions s)\<rparr>)"
    and tokens_kept: "Q s \<Longrightarrow> token_quiet g \<Longrightarrow> Q (s\<lparr>refresh_tokens := map g (refresh_tokens s)\<rparr>)"
    and new_session: "Q s \<Longrightarrow> ss_id x = db_next s \<Longrightarrow> Q (s\<lparr>db_next := Suc (db_next s), sessions := sessions s @ [x]\<rparr>)"
    and new_token: "Q s \<Longrightarrow> rt_id y = db_next s \<Longrightarrow> Q (s\<lparr>db_next := Suc (db_next s), refresh_tokens := refresh_tokens s @ [y]\<rparr>)"
begin

lemma upd_sessions_kept:
  "Q s \<Longrightarrow> session_quiet f \<Longrightarrow> Q (s\<lparr>sessions := upd_where p f (sessions s)\<rparr>)"
  unfolding upd_where_def by (rule sessions_kept) (auto simp: session_quiet_def)

lemma upd_tokens_kept:
  "Q s \<Longrightarrow> token_quiet g \<Longrightarrow> Q (s\<lparr>refresh_tokens := upd_where p g (refresh_tokens s)\<rparr>)"
  unfolding upd_where_def by (rule tokens_kept) (auto simp: token_quiet_def)

lemma ends_kept:
  "Q s \<Longrightarrow> Q (end_sessions p now why s)"
  "Q s \<Longrightarrow> Q (end_refresh p' now why s)"
  by (auto simp: end_sessions_def end_refresh_def session_quiet_def token_quiet_def intro: upd_sessions_kept upd_tokens_kept)

lemma elsewhere_kept:
  "Q s \<Longrightarrow> Q (end_tickets p now why s)"
  "Q s \<Longrightarrow> Q (release_tickets p now s)"
  "Q s \<Longrightarrow> Q (close_tickets p now why s)"
  "Q s \<Longrightarrow> Q (mute_pushes p' s)"
  "Q s \<Longrightarrow> Q (audit_with row s)"
  "Q s \<Longrightarrow> Q (s\<lparr>users := us\<rparr>)"
  "Q s \<Longrightarrow> Q (s\<lparr>profiles := ps\<rparr>)"
  "Q s \<Longrightarrow> Q (s\<lparr>device_changes := cs\<rparr>)"
  "Q s \<Longrightarrow> Q (s\<lparr>push_tokens := ph\<rparr>)"
  by (auto simp: end_tickets_def release_tickets_def close_tickets_def mute_pushes_def audit_with_def elim: frame)

lemma fresh_kept: "keeps_tx Q fresh_id"
  by (auto simp: keeps_tx_def elim: frame)

lemmas writes_kept = ends_kept elsewhere_kept

lemma audits_kept:
  "keeps_tx Q (device_audit a b c d)"
  "keeps_tx Q (account_audit a b c d e)"
  by (auto simp: device_audit_def account_audit_def intro!: keeps_tx_modify writes_kept)

lemma slide_kept: "keeps_tx Q (slide_session i now expires)"
  unfolding slide_session_def
  by (intro keeping keeps_tx_modify upd_sessions_kept) (auto simp: session_quiet_def)

lemma new_session_kept: "keeps_tx Q (new_session cf user dev now)"
  by (auto simp: keeps_tx_def new_session_def result_simps intro: new_session)

lemma insert_token_kept: "keeps_tx Q (bind_tx fresh_id (\<lambda>j. insert_refresh (refresh_row_of cf j user i h family now)))"
  by (auto simp: keeps_tx_def insert_refresh_def refresh_row_of_def result_simps intro: new_token)

lemma insert_then_kept:
  assumes "\<And>j. keeps_tx Q (f j)"
  shows "keeps_tx Q (bind_tx fresh_id (\<lambda>j. bind_tx (insert_refresh (refresh_row_of cf j user i h family now)) (\<lambda>_. f j)))"
proof (unfold keeps_tx_def, intro allI impI)
  fix s t :: db and x
  let ?s = "s\<lparr>db_next := Suc (db_next s), refresh_tokens := refresh_tokens s @ [refresh_row_of cf (db_next s) user i h family now]\<rparr>"
  assume "Q s" and "bind_tx fresh_id (\<lambda>j. bind_tx (insert_refresh (refresh_row_of cf j user i h family now)) (\<lambda>_. f j)) s = Inr (x, t)"
  then have "f (db_next s) ?s = Inr (x, t)" by (auto simp: insert_refresh_def result_simps)
  moreover have "Q ?s" using \<open>Q s\<close> by (rule new_token) (simp add: refresh_row_of_def)
  ultimately show "Q t" using assms by (blast intro: keeps_txD)
qed

lemma successor_kept: "keeps_tx Q (add_successor cf x new now)"
  unfolding add_successor_def
  by (intro keeping keeps_tx_modify upd_tokens_kept insert_then_kept slide_kept) (auto simp: token_quiet_def)

lemma rotation_kept: "keeps_tx Q (commit_rotation cf x new now)"
  unfolding commit_rotation_def claim_token_def
  by (intro keeping keeps_tx_modify upd_tokens_kept successor_kept) (auto simp: token_quiet_def)

lemma reissue_kept: "keeps_tx Q (commit_reissue cf x new now)"
  unfolding commit_reissue_def by (rule insert_then_kept) (rule slide_kept)

lemma family_kept: "Q s \<Longrightarrow> Q (revoke_family family now why s)"
  by (simp add: revoke_family_def Let_def ends_kept)

end

text \<open>A condition that may speak of the devices as well: the operations on them keep it.\<close>

locale auth_condition = table_condition Q for Q :: "db \<Rightarrow> bool" +
  fixes dcf :: device_config
  assumes sign_in_kept: "keeps_tx Q (resolve_on_login dcf user role cx now)"
    and request_kept: "keeps_tx Q (request_change user cx reason now)"
    and approve_kept: "keeps_tx Q (approve_change i actor note now)"
    and unbind_kept: "keeps_tx Q (revoke_device dev actor why now)"
    and reset_kept: "keeps_tx Q (reset_binding user actor why now)"
begin

lemma guard_kept: "keeps Q (authenticate v key now)"
proof -
  have "Q s \<Longrightarrow> Q (see_session i now s)" for s i
    unfolding see_session_def by (rule upd_sessions_kept) (auto simp: session_quiet_def)
  then show ?thesis
    unfolding authenticate_def by (intro keeping) (auto intro!: keeping keeps_write split: sum.split)
qed

lemma establish_kept: "keeps Q (establish_session cf dcf user cx m now)"
  unfolding establish_session_def
  by (intro keeping sign_in_kept new_session_kept insert_token_kept)

lemma credentials_kept: "keeps Q (verify_credentials cf lib phone password now)"
  unfolding verify_credentials_def register_failed_attempt_def
  by (intro keeping) (auto intro!: keeping keeps_write elsewhere_kept split: prod.split)

lemma login_kept: "keeps Q (login cf dcf lib phone password cx m now)"
  unfolding login_def
  by (intro keeping credentials_kept keeps_write elsewhere_kept establish_kept)

lemma new_user_kept:
  "Q s \<Longrightarrow> Q (s\<lparr>users := us, profiles := ps\<rparr>)"
  by (auto elim: frame)

lemma register_kept: "keeps Q (register cf dcf lib q cx m now)"
  unfolding register_def Let_def
  by (intro keeping keeps_tx_modify new_user_kept elsewhere_kept fresh_kept establish_kept)

lemma logout_kept: "keeps_tx Q (logout user i key now)"
  unfolding logout_def
  by (intro keeping keeps_tx_modify upd_sessions_kept writes_kept) (auto simp: session_quiet_def logged_out_def)

lemma logout_all_kept: "keeps_tx Q (logout_all user why now)"
  unfolding logout_all_def by (intro keeping keeps_tx_modify writes_kept)

lemma revoke_all_kept: "keeps_tx Q (revoke_all_for_user user actor why now)"
  unfolding revoke_all_for_user_def by (intro keeping keeps_tx_modify writes_kept audits_kept)

lemma revoke_playback_kept: "keeps_tx Q (revoke_playback_for_user user actor why now)"
  unfolding revoke_playback_for_user_def by (intro keeping keeps_tx_modify writes_kept audits_kept)

lemma password_kept: "keeps_tx Q (change_password lib user current new now)"
  unfolding change_password_def set_password_def
  by (intro keeping keeps_tx_modify writes_kept audits_kept)

lemma revoke_session_kept: "keeps_tx Q (revoke_session i actor why now)"
  unfolding revoke_session_def
  by (intro keeping keeps_tx_modify writes_kept audits_kept)

lemma reject_kept: "keeps_tx Q (reject_change i actor note now)"
  unfolding reject_change_def pending_change_def
  by (intro keeping keeps_tx_modify writes_kept audits_kept)

lemma staff_kept: "keeps_tx Q (create_staff lib sq actor role now)"
  unfolding create_staff_def Let_def by (intro keeping keeps_tx_modify writes_kept audits_kept fresh_kept)

lemma update_kept: "keeps_tx Q (update_by_admin i up actor role now)"
  unfolding update_by_admin_def by (intro keeping keeps_tx_modify writes_kept audits_kept)

lemma new_password_kept: "keeps_tx Q (reset_password_by_admin lib i new actor role note now)"
  unfolding reset_password_by_admin_def by (intro keeping keeps_tx_modify writes_kept audits_kept)

lemma delete_kept: "keeps_tx Q (soft_delete i actor role why now)"
  unfolding soft_delete_def by (intro keeping keeps_tx_modify writes_kept audits_kept)

lemma profile_kept: "keeps Q (update_own_profile allowed user name year)"
  unfolding update_own_profile_def
  by (intro keeping keeps_write writes_kept)

lemmas tx_ops_kept = rotation_kept reissue_kept logout_kept logout_all_kept revoke_all_kept revoke_playback_kept
  password_kept revoke_session_kept request_kept approve_kept reject_kept unbind_kept reset_kept staff_kept update_kept
  new_password_kept delete_kept

lemma step_kept: "auth_step dcf s t \<Longrightarrow> Q s \<Longrightarrow> Q t"
  by (induction rule: auth_step.induct)
    (auto intro: tx_ops_kept [THEN keeps_txD] guard_kept [THEN keepsD] login_kept [THEN keepsD] register_kept [THEN keepsD]
      profile_kept [THEN keepsD] family_kept frame)

lemma steps_kept: "(auth_step dcf)\<^sup>*\<^sup>* s t \<Longrightarrow> Q s \<Longrightarrow> Q t"
  by (induction rule: rtranclp_induct) (auto intro: step_kept)

end

text \<open>A condition that does not speak of the devices: every operation on them keeps it.\<close>

locale session_condition = table_condition Q for Q :: "db \<Rightarrow> bool" +
  assumes devices_free: "Q s \<Longrightarrow> Q (s\<lparr>devices := ds\<rparr>)"
begin

lemma change_request_kept: "keeps_tx Q (ensure_change_request user d reason)"
  unfolding ensure_change_request_def Let_def by (intro keeping keeps_tx_modify writes_kept fresh_kept)

lemma register_device_kept: "keeps_tx Q (register_device cf user key cx bind now)"
  unfolding register_device_def Let_def
  by (intro keeping keeps_tx_modify devices_free fresh_kept change_request_kept)

lemma known_device_kept: "keeps_tx Q (handle_known_device cf d cx now)"
  unfolding handle_known_device_def by (intro keeping keeps_tx_modify devices_free)

lemma resolve_kept: "keeps_tx Q (resolve_on_login cf user role cx now)"
  unfolding resolve_on_login_def handle_unknown_device_def by (intro keeping register_device_kept known_device_kept)

lemma request_change_kept: "keeps_tx Q (request_change user cx reason now)"
  unfolding request_change_def Let_def
  by (intro keeping keeps_tx_modify devices_free fresh_kept change_request_kept)

lemma approve_change_kept: "keeps_tx Q (approve_change i actor note now)"
  unfolding approve_change_def pending_change_def install_device_def Let_def
  by (intro keeping keeps_tx_modify devices_free fresh_kept writes_kept audits_kept)

lemma revoke_device_kept: "keeps_tx Q (revoke_device dev actor why now)"
  unfolding revoke_device_def by (intro keeping keeps_tx_modify devices_free writes_kept audits_kept)

lemma delete_devices_kept: "Q s \<Longrightarrow> Q (delete_devices user s)"
proof -
  assume "Q s"
  let ?gone = "map dv_id (filter (\<lambda>d. dv_user d = user) (devices s))"
  let ?f = "\<lambda>x. x\<lparr>ss_device := unreference ?gone (ss_device x)\<rparr>"
  have "Q (s\<lparr>sessions := map ?f (sessions s)\<rparr>)"
    using \<open>Q s\<close> by (rule sessions_kept) (simp add: session_quiet_def)
  then have "Q (s\<lparr>sessions := map ?f (sessions s), devices := filter (\<lambda>d. dv_user d \<noteq> user) (devices s)\<rparr>)"
    by (rule devices_free)
  then show ?thesis by (rule frame) (simp_all add: delete_devices_def Let_def)
qed

lemma reset_binding_kept: "keeps_tx Q (reset_binding user actor why now)"
  unfolding reset_binding_def by (intro keeping keeps_tx_modify delete_devices_kept writes_kept audits_kept)

end

sublocale session_condition \<subseteq> auth_condition Q dcf for dcf
  by unfold_locales (rule resolve_kept request_change_kept approve_change_kept revoke_device_kept reset_binding_kept)+

section \<open>An ended session stays ended\<close>

definition session_ids :: "db \<Rightarrow> bool" where
  "session_ids s \<longleftrightarrow> unique_on ss_id (sessions s) \<and> (\<forall>x \<in> set (sessions s). ss_id x < db_next s)
     \<and> unique_on rt_id (refresh_tokens s) \<and> (\<forall>x \<in> set (refresh_tokens s). rt_id x < db_next s)"

definition ended :: "id \<Rightarrow> db \<Rightarrow> bool" where
  "ended i s \<longleftrightarrow> i < db_next s \<and> (\<forall>x \<in> set (sessions s). ss_id x = i \<longrightarrow> ss_status x \<noteq> SS_ACTIVE)"

definition spent :: "id \<Rightarrow> db \<Rightarrow> bool" where
  "spent j s \<longleftrightarrow> j < db_next s \<and> (\<forall>x \<in> set (refresh_tokens s). rt_id x = j \<longrightarrow> rt_used_at x \<noteq> None)"

lemma map_quiet_ids:
  "session_quiet f \<Longrightarrow> map (ss_id \<circ> f) xs = map ss_id xs"
  "token_quiet g \<Longrightarrow> map (rt_id \<circ> g) ys = map rt_id ys"
  by (simp_all add: session_quiet_def token_quiet_def)

interpretation ids: session_condition session_ids
proof unfold_locales
  fix s :: db and f assume q: "session_ids s" "session_quiet f"
  then show "session_ids (s\<lparr>sessions := map f (sessions s)\<rparr>)"
    by (auto simp: session_ids_def unique_on_def session_quiet_def map_quiet_ids(1) [OF q(2)])
next
  fix s :: db and g assume q: "session_ids s" "token_quiet g"
  then show "session_ids (s\<lparr>refresh_tokens := map g (refresh_tokens s)\<rparr>)"
    by (auto simp: session_ids_def unique_on_def token_quiet_def map_quiet_ids(2) [OF q(2)])
qed (auto simp: session_ids_def token_quiet_def table_simps less_Suc_eq)

interpretation ended: session_condition "ended i" for i
  by unfold_locales (fastforce simp: ended_def session_quiet_def less_Suc_eq)+

interpretation spent: session_condition "spent j" for j
  by unfold_locales (fastforce simp: spent_def token_quiet_def less_Suc_eq)+


text \<open>A session that has ended opens nothing: the guard refuses, and so does every refresh of its tokens.\<close>

lemma ended_refuses:
  assumes "ended i s"
  shows "at_session c = i \<Longrightarrow> attach (TokenOk c) key now s = Inl (app_error SESSION_EXPIRED)"
    and "find_by rt_hash (pt_hash p) (refresh_tokens s) = Some x \<Longrightarrow> rt_session x = i \<Longrightarrow>
      \<exists>e t. rotate_once cf p a dk s = (Refused e, t)"
proof -
  have none: "find_by ss_id i (sessions s) = None \<or> (\<exists>x. find_by ss_id i (sessions s) = Some x \<and> ss_status x \<noteq> SS_ACTIVE)"
    using assms by (cases "find_by ss_id i (sessions s)") (auto simp: ended_def dest: find_by_Some)
  show "at_session c = i \<Longrightarrow> attach (TokenOk c) key now s = Inl (app_error SESSION_EXPIRED)"
    using none by (auto simp: attach_def)
  assume x: "find_by rt_hash (pt_hash p) (refresh_tokens s) = Some x" "rt_session x = i"
  have "\<exists>e. refresh_refusal x (ap_now a) s = Some e" using none x(2) by (auto simp: refresh_refusal_def)
  then obtain e where e: "refresh_refusal x (ap_now a) s = Some e" by blast
  show "\<exists>e t. rotate_once cf p a dk s = (Refused e, t)"
    by (cases "pt_claims p"; cases "rt_used_at x"; cases "rt_revoked_at x")
      (simp_all add: rotate_once_def reissue_from_successor_def x(1) e)
qed

text \<open>What signs a student out everywhere.\<close>

inductive signs_out :: "id \<Rightarrow> db \<Rightarrow> db \<Rightarrow> bool" where
  so_everywhere: "logout_all user why now s = Inr (n, t) \<Longrightarrow> signs_out user s t"
| so_password: "change_password lib user current new now s = Inr (u, t) \<Longrightarrow> signs_out user s t"
| so_reset: "reset_password_by_admin lib user new actor role note now s = Inr (u, t) \<Longrightarrow> signs_out user s t"
| so_suspended: "update_by_admin user up actor role now s = Inr (u, t) \<Longrightarrow> barred_status (up_status up) \<Longrightarrow> signs_out user s t"
| so_deleted: "soft_delete user actor role why now s = Inr (u, t) \<Longrightarrow> signs_out user s t"
| so_staff: "revoke_all_for_user user actor why now s = Inr (n, t) \<Longrightarrow> signs_out user s t"
| so_device: "reset_binding user actor why now s = Inr (p, t) \<Longrightarrow> signs_out user s t"

lemma ended_all: "x \<in> set (sessions (end_sessions (\<lambda>x. ss_user x = user) now why s)) \<Longrightarrow> ss_user x = user \<Longrightarrow> ss_status x \<noteq> SS_ACTIVE"
  by (simp add: end_sessions_def upd_where_def, elim disjE conjE imageE) simp_all

lemma sessions_frames [simp]:
  "sessions (end_refresh p now why s) = sessions s"
  "sessions (end_tickets q now why s) = sessions s"
  "sessions (close_tickets q now why s) = sessions s"
  "sessions (mute_pushes r s) = sessions s"
  "sessions (audit_with row s) = sessions s"
  "sessions (set_password user h now s) = sessions s"
  by (simp_all add: end_refresh_def end_tickets_def close_tickets_def mute_pushes_def audit_with_def set_password_def)

lemma signs_out_ends:
  assumes "signs_out user s t" "session_ids s" "x \<in> set (sessions t)" "ss_user x = user"
  shows "ended (ss_id x) t"
proof -
  have ids: "session_ids t"
    using assms(1)
  proof cases
    case (so_everywhere why now n)
    then show ?thesis using assms(2) ids.logout_all_kept [THEN keeps_txD] by blast
  next
    case (so_password lib current new now u)
    then show ?thesis using assms(2) ids.password_kept [THEN keeps_txD] by blast
  next
    case (so_reset lib new actor role memo now u)
    then show ?thesis using assms(2) ids.new_password_kept [THEN keeps_txD] by blast
  next
    case (so_suspended up actor role now u)
    then show ?thesis using assms(2) ids.update_kept [THEN keeps_txD] by blast
  next
    case (so_deleted actor role why now u)
    then show ?thesis using assms(2) ids.delete_kept [THEN keeps_txD] by blast
  next
    case (so_staff actor why now n)
    then show ?thesis using assms(2) ids.revoke_all_kept [THEN keeps_txD] by blast
  next
    case (so_device actor why now p)
    then show ?thesis using assms(2) ids.reset_binding_kept [THEN keeps_txD] by blast
  qed
  have dead: "\<forall>y \<in> set (sessions t). ss_user y = user \<longrightarrow> ss_status y \<noteq> SS_ACTIVE"
    using assms(1)
  proof cases
    case (so_staff actor why now n)
    have "sessions (end_sessions (\<lambda>x. ss_id x \<in> set (live_session_ids user s)) now why s)
        = sessions (end_sessions (\<lambda>x. ss_user x = user) now why s)"
      using assms(2) unique_onD [of ss_id "sessions s"]
      by (auto simp: end_sessions_def upd_where_def live_session_ids_def session_ids_def)
    moreover have "live_session_ids user s = [] \<Longrightarrow> sessions s = sessions (end_sessions (\<lambda>x. ss_user x = user) now why s)"
      by (auto simp: end_sessions_def live_session_ids_def filter_empty_conv intro!: upd_where_none [symmetric])
    ultimately have "sessions t = sessions (end_sessions (\<lambda>x. ss_user x = user) now why s)"
      using so_staff by (auto simp: revoke_all_for_user_def account_audit_def result_simps split: if_splits)
    then show ?thesis using ended_all by metis
  qed (auto simp: logout_all_def change_password_def reset_password_by_admin_def update_by_admin_def soft_delete_def
      reset_binding_def account_audit_def device_audit_def result_simps split: if_splits dest: ended_all)
  show ?thesis
    using ids assms(3,4) dead unique_onD [of ss_id "sessions t"] by (fastforce simp: ended_def session_ids_def)
qed

definition auth_start :: "db \<Rightarrow> bool" where
  "auth_start s \<longleftrightarrow> sessions s = [] \<and> refresh_tokens s = [] \<and> devices s = []"

interpretation auth_machine: invariant_system auth_start "auth_step dcf" session_ids for dcf
proof unfold_locales
  show "auth_start s \<Longrightarrow> session_ids s" for s by (simp add: auth_start_def session_ids_def)
  show "session_ids s \<Longrightarrow> auth_step dcf s t \<Longrightarrow> session_ids t" for s t using ids.step_kept by blast
qed

text \<open>C10: signed out means signed out. After a sign-out everywhere, a password change or reset, a suspension, a
  deletion, an administrator's sign-out or a device reset, and then any sequence of sign-ins,
  refreshes (interleaved in any way), device decisions and account edits, no access token and no
  refresh token of any session the student had opens anything: every request and every refresh with
  it is refused.\<close>

theorem signed_out_for_good:
  assumes "auth_start s0" "(auth_step dcf)\<^sup>*\<^sup>* s0 s" "signs_out user s t" "(auth_step dcf)\<^sup>*\<^sup>* t u"
    and "x \<in> set (sessions t)" "ss_user x = user"
  shows "(at_session c = ss_id x \<longrightarrow> attach (TokenOk c) key now u = Inl (app_error SESSION_EXPIRED))
    \<and> (find_by rt_hash (pt_hash p) (refresh_tokens u) = Some y \<and> rt_session y = ss_id x \<longrightarrow>
        (\<exists>e v. rotate_once cf p a dk u = (Refused e, v)))"
proof -
  have "session_ids s" using auth_machine.inv_reachable [OF assms(1,2)] .
  then have "ended (ss_id x) t" using signs_out_ends assms(3,5,6) by blast
  then have "ended (ss_id x) u" using ended.steps_kept [OF assms(4)] by blast
  then show ?thesis using ended_refuses by blast
qed

text \<open>C11: a refresh token is rotated once. Whatever other requests do between the reads and the commits, once a
  rotation of a token has committed no other rotation of the same token ever does.\<close>

theorem refresh_rotates_once:
  assumes "auth_start s0" "(auth_step dcf)\<^sup>*\<^sup>* s0 s" "commit_rotation cf x new now s = Inr (True, t)"
    and "(auth_step dcf)\<^sup>*\<^sup>* t u" "rt_id y = rt_id x" "commit_rotation cf' y new' now' u = Inr (ok, v)"
  shows "\<not> ok \<and> v = u"
proof -
  have ids: "session_ids s" using auth_machine.inv_reachable [OF assms(1,2)] .
  from assms(3) have free: "list_ex (\<lambda>z. rt_id z = rt_id x \<and> rt_used_at z = None \<and> rt_revoked_at z = None) (refresh_tokens s)"
    by (auto simp: commit_rotation_def result_simps split: if_splits)
  then have i: "rt_id x < db_next s" using ids by (auto simp: session_ids_def list_ex_iff)
  have c: "spent (rt_id x) (claim_token (rt_id x) now s)"
    using i free ids unique_onD [of rt_id "refresh_tokens s"]
    by (fastforce simp: spent_def claim_token_def upd_where_def session_ids_def list_ex_iff)
  from assms(3) have "add_successor cf x new now (claim_token (rt_id x) now s) = Inr (True, t)"
    by (auto simp: commit_rotation_def result_simps split: if_splits)
  then have "spent (rt_id x) t" using spent.successor_kept [THEN keeps_txD] c by blast
  then have "spent (rt_id x) u" using spent.steps_kept [OF assms(4)] by blast
  then have "\<not> list_ex (\<lambda>z. rt_id z = rt_id y \<and> rt_used_at z = None \<and> rt_revoked_at z = None) (refresh_tokens u)"
    using assms(5) by (auto simp: spent_def list_ex_iff)
  with assms(6) show ?thesis by (auto simp: commit_rotation_def result_simps split: if_splits)
qed

section \<open>The limit of devices\<close>

definition device_slot :: "device_row \<Rightarrow> id \<times> string" where
  "device_slot d = (dv_user d, dv_key d)"

definition within_limit :: "nat \<Rightarrow> db \<Rightarrow> bool" where
  "within_limit n s \<longleftrightarrow> unique_on dv_id (devices s) \<and> unique_on device_slot (devices s)
     \<and> (\<forall>d \<in> set (devices s). dv_id d < db_next s) \<and> (\<forall>u. active_devices u s \<le> n)"

lemma count_where_mono:
  "(\<And>r. r \<in> set rows \<Longrightarrow> q r \<Longrightarrow> p (f r) \<Longrightarrow> p r) \<Longrightarrow> count_where p (upd_where q f rows) \<le> count_where p rows"
  by (induction rows) (auto simp: upd_where_Cons intro: le_SucI)

lemma count_where_key:
  assumes "unique_on key rows" "\<And>r. r \<in> set rows \<Longrightarrow> p r \<Longrightarrow> key r = k"
  shows "count_where p rows \<le> 1"
proof -
  have "filter p rows = filter p (filter (\<lambda>r. key r = k) rows)"
    using assms(2) by (induction rows) auto
  then have "count_where p rows \<le> count_where (\<lambda>r. key r = k) rows"
    unfolding count_where_def by (metis length_filter_le)
  also have "\<dots> \<le> 1" using assms(1) by (rule count_where_unique)
  finally show ?thesis .
qed

lemma filter_unique: "unique_on key rows \<Longrightarrow> r \<in> set rows \<Longrightarrow> filter (\<lambda>x. key x = key r) rows = [r]"
proof (induction rows)
  case (Cons x rows)
  show ?case
  proof (cases "r = x")
    case True
    have "filter (\<lambda>y. key y = key x) rows = []"
      using Cons.prems(1) by (auto simp: filter_empty_conv image_iff)
    then show ?thesis using True by simp
  next
    case False
    then have "r \<in> set rows" using Cons.prems(2) by simp
    moreover from this have "key x \<noteq> key r" using Cons.prems(1) by (auto simp: image_iff)
    ultimately show ?thesis using Cons by simp
  qed
qed simp

lemma count_where_filter: "count_where p (filter q rows) \<le> count_where p rows"
  by (induction rows) auto

text \<open>An update of the devices that keeps who and which they are, and activates none.\<close>

lemma unique_upd_where: "(\<And>r. key (f r) = key r) \<Longrightarrow> unique_on key (upd_where p f rows) = unique_on key rows"
  by (rule keyed_update.unique_upd) (rule keyed_update.intro)

lemma within_limit_upd:
  assumes "within_limit n s" "\<And>d. dv_id (f d) = dv_id d" "\<And>d. device_slot (f d) = device_slot d"
    and "\<And>d. dv_status (f d) = DV_ACTIVE \<Longrightarrow> dv_status d = DV_ACTIVE"
  shows "within_limit n (s\<lparr>devices := upd_where p f (devices s)\<rparr>)"
proof -
  have "dv_user (f d) = dv_user d" for d using assms(3) [of d] by (simp add: device_slot_def)
  then have "active_devices u (s\<lparr>devices := upd_where p f (devices s)\<rparr>) \<le> active_devices u s" for u
    unfolding active_devices_def by (simp, intro count_where_mono) (use assms(4) in auto)
  then have "\<forall>u. active_devices u (s\<lparr>devices := upd_where p f (devices s)\<rparr>) \<le> n"
    using assms(1) le_trans unfolding within_limit_def by blast
  then show ?thesis
    using assms(1-3) by (auto simp: within_limit_def unique_upd_where set_upd_where)
qed

lemma within_limit_frame:
  "within_limit n s \<Longrightarrow> devices t = devices s \<Longrightarrow> db_next s \<le> db_next t \<Longrightarrow> within_limit n t"
  by (fastforce simp: within_limit_def active_devices_def)

text \<open>A new row under a free key; an active one only below the limit.\<close>

lemma within_limit_new:
  assumes "within_limit n s" "find_device (dv_user d) (dv_key d) s = None" "dv_id d = db_next s"
    and "dv_status d = DV_ACTIVE \<Longrightarrow> active_devices (dv_user d) s < n"
  shows "within_limit n (s\<lparr>db_next := Suc (db_next s), devices := devices s @ [d]\<rparr>)"
proof -
  let ?t = "s\<lparr>db_next := Suc (db_next s), devices := devices s @ [d]\<rparr>"
  have "active_devices u ?t \<le> n" for u
    using assms(1,4) by (cases "dv_status d = DV_ACTIVE \<and> dv_user d = u")
      (auto simp: active_devices_def table_simps within_limit_def)
  moreover have "device_slot d \<notin> device_slot ` set (devices s)"
    using assms(2) by (auto simp: find_device_def find_None_iff device_slot_def)
  ultimately show ?thesis using assms(1,3) by (auto simp: within_limit_def table_simps less_Suc_eq)
qed

lemma change_request_limit: "keeps_tx (within_limit n) (ensure_change_request user d reason)"
  unfolding ensure_change_request_def Let_def
  by (intro keeping keeps_tx_modify) (auto simp: keeps_tx_def elim: within_limit_frame)

lemma register_limit:
  assumes "within_limit n s" "bind \<Longrightarrow> active_devices user s < n" "register_device cf user key cx bind now s = Inr (r, t)"
  shows "within_limit n t"
proof -
  let ?d = "\<lparr>dv_id = db_next s, dv_user = user, dv_key = key, dv_name = device_name cx,
      dv_status = (if bind then DV_ACTIVE else DV_PENDING_APPROVAL), dv_suspect = cx_suspect cx, dv_last_seen = now,
      dv_approved_at = (if bind then Some now else None), dv_approved_by = None, dv_revoked_at = None, dv_revoked_reason = None\<rparr>"
  let ?s = "s\<lparr>db_next := Suc (db_next s), devices := devices s @ [?d]\<rparr>"
  from assms(3) have "find_device user key s = None"
    by (auto simp: register_device_def result_simps)
  then have s: "within_limit n ?s"
    using assms(1,2) by (intro within_limit_new) (auto split: if_splits)
  show ?thesis
  proof (cases bind)
    case True
    then have "t = ?s" using assms(3) by (auto simp: register_device_def Let_def result_simps)
    with s show ?thesis by simp
  next
    case False
    then obtain c where "ensure_change_request user ?d (Some ''Automatic: sign-in from an unbound device'') ?s = Inr (c, t)"
      using assms(3) by (auto simp: register_device_def Let_def result_simps)
    with s change_request_limit show ?thesis by (blast intro: keeps_txD)
  qed
qed

lemma sign_in_limit:
  assumes "cf_limit dcf \<le> n"
  shows "keeps_tx (within_limit n) (resolve_on_login dcf user role cx now)"
proof (unfold keeps_tx_def, intro allI impI)
  fix s t :: db and r
  assume w: "within_limit n s" and r: "resolve_on_login dcf user role cx now s = Inr (r, t)"
  show "within_limit n t"
  proof (cases "role = R_STUDENT \<and> cx_key cx \<noteq> None")
    case False
    with r w show ?thesis by (auto simp: resolve_on_login_def split: option.splits if_splits)
  next
    case True
    then obtain key where k: "cx_key cx = Some key" by blast
    show ?thesis
    proof (cases "find_device user key s")
      case None
      with r True k have "register_device dcf user key cx (should_auto_bind dcf user s) now s = Inr (r, t)"
        by (simp add: resolve_on_login_def handle_unknown_device_def)
      then show ?thesis
        using assms by (intro register_limit [OF w, of "should_auto_bind dcf user s"]) (auto simp: should_auto_bind_def Let_def)
    next
      case (Some d)
      with r True k have "t = s\<lparr>devices := upd_where (\<lambda>x. dv_id x = dv_id d) (seen_device cx now) (devices s)\<rparr>"
        by (simp add: resolve_on_login_def handle_known_device_def)
      with w show ?thesis by (auto simp: seen_device_def device_slot_def intro: within_limit_upd)
    qed
  qed
qed

lemma request_limit: "keeps_tx (within_limit n) (request_change user cx reason now)"
proof (unfold keeps_tx_def, intro allI impI)
  fix s t :: db and c
  assume w: "within_limit n s" and r: "request_change user cx reason now s = Inr (c, t)"
  from r obtain key where k: "cx_key cx = Some key" by (auto simp: request_change_def result_simps the_or_def split: option.splits)
  show "within_limit n t"
  proof (cases "find_device user key s")
    case None
    let ?d = "\<lparr>dv_id = db_next s, dv_user = user, dv_key = key, dv_name = device_name cx, dv_status = DV_PENDING_APPROVAL,
      dv_suspect = False, dv_last_seen = now, dv_approved_at = None, dv_approved_by = None, dv_revoked_at = None,
      dv_revoked_reason = None\<rparr>"
    let ?s = "s\<lparr>db_next := Suc (db_next s), devices := devices s @ [?d]\<rparr>"
    have "within_limit n ?s" using w None by (intro within_limit_new) auto
    moreover have "ensure_change_request user ?d reason ?s = Inr (c, t)"
      using r k None by (auto simp: request_change_def Let_def result_simps the_or_def)
    ultimately show ?thesis using change_request_limit by (blast intro: keeps_txD)
  next
    case (Some d)
    let ?s = "s\<lparr>devices := upd_where (\<lambda>x. dv_id x = dv_id d) (touch_device now) (devices s)\<rparr>"
    have "within_limit n ?s" using w by (rule within_limit_upd) (simp_all add: touch_device_def device_slot_def)
    moreover have "ensure_change_request user (touch_device now d) reason ?s = Inr (c, t)"
      using r k Some by (auto simp: request_change_def result_simps the_or_def)
    ultimately show ?thesis using change_request_limit by (blast intro: keeps_txD)
  qed
qed

text \<open>An approval swaps: afterwards the one active device of the student is the approved one.\<close>

lemma within_limit_one:
  assumes "unique_on dv_id (devices t)" "unique_on device_slot (devices t)" "\<forall>d \<in> set (devices t). dv_id d < db_next t"
    and "\<And>u. u \<noteq> user \<Longrightarrow> active_devices u t \<le> n" "0 < n"
    and "\<And>d. d \<in> set (devices t) \<Longrightarrow> dv_user d = user \<Longrightarrow> dv_status d = DV_ACTIVE \<Longrightarrow> dv_key d = key"
  shows "within_limit n t"
proof -
  have "active_devices user t \<le> 1"
    unfolding active_devices_def using assms(2)
    by (rule count_where_key [of _ _ _ "(user, key)"]) (use assms(6) in \<open>auto simp: device_slot_def\<close>)
  then have "active_devices u t \<le> n" for u using assms(4) [of u] \<open>0 < n\<close> by (cases "u = user") auto
  then show ?thesis using assms(1-3) by (simp add: within_limit_def)
qed

lemma install_limit:
  assumes w: "within_limit n s" and "0 < n" and r: "install_device c actor now s = Inr (i, t)"
    and alone: "\<And>d. d \<in> set (devices s) \<Longrightarrow> dv_user d = dc_user c \<Longrightarrow> dv_status d = DV_ACTIVE \<Longrightarrow> dv_key d = dc_key c"
  shows "within_limit n t"
proof (cases "find_device (dc_user c) (dc_key c) s")
  case None
  let ?d = "\<lparr>dv_id = db_next s, dv_user = dc_user c, dv_key = dc_key c, dv_name = dc_name c, dv_status = DV_ACTIVE, dv_suspect = False,
      dv_last_seen = now, dv_approved_at = Some now, dv_approved_by = Some actor, dv_revoked_at = None, dv_revoked_reason = None\<rparr>"
  have t: "t = s\<lparr>db_next := Suc (db_next s), devices := devices s @ [?d]\<rparr>"
    using r None by (auto simp: install_device_def result_simps)
  have fresh: "device_slot ?d \<notin> device_slot ` set (devices s)"
    using None by (auto simp: find_device_def find_None_iff device_slot_def)
  show ?thesis
  proof (rule within_limit_one [of _ "dc_user c" _ "dc_key c"])
    show "unique_on dv_id (devices t)" "unique_on device_slot (devices t)" "\<forall>d \<in> set (devices t). dv_id d < db_next t"
      using w fresh by (auto simp: t within_limit_def table_simps less_Suc_eq)
    show "u \<noteq> dc_user c \<Longrightarrow> active_devices u t \<le> n" for u
      using w by (simp add: t active_devices_def table_simps within_limit_def)
  qed (use alone \<open>0 < n\<close> in \<open>auto simp: t\<close>)
next
  case (Some d)
  let ?u = "upd_where (\<lambda>x. dv_id x = dv_id d) (approved_device actor now) (devices s)"
  have t: "t = s\<lparr>devices := ?u\<rparr>" using r Some by (auto simp: install_device_def result_simps)
  from Some have d: "d \<in> set (devices s)" "dv_user d = dc_user c" "dv_key d = dc_key c"
    by (auto simp: find_device_def dest: find_Some)
  have same: "x \<in> set (devices s) \<Longrightarrow> dv_id x = dv_id d \<Longrightarrow> x = d" for x
    using w d(1) unique_onD [of dv_id "devices s"] by (auto simp: within_limit_def)
  have slot: "device_slot (approved_device actor now x) = device_slot x" "dv_id (approved_device actor now x) = dv_id x"
    "dv_user (approved_device actor now x) = dv_user x" "dv_key (approved_device actor now x) = dv_key x" for x
    by (simp_all add: device_slot_def approved_device_def)
  show ?thesis
  proof (rule within_limit_one [of _ "dc_user c" _ "dc_key c"])
    show "unique_on dv_id (devices t)" "unique_on device_slot (devices t)" "\<forall>d \<in> set (devices t). dv_id d < db_next t"
      using w by (auto simp: t within_limit_def unique_upd_where slot set_upd_where)
    show "active_devices u t \<le> n" if "u \<noteq> dc_user c" for u
    proof -
      have "active_devices u t \<le> active_devices u s"
        unfolding active_devices_def t using that d(2) same slot
        by (simp, intro count_where_mono) auto
      then show ?thesis using w by (meson le_trans within_limit_def)
    qed
    show "dv_key x = dc_key c" if "x \<in> set (devices t)" "dv_user x = dc_user c" "dv_status x = DV_ACTIVE" for x
    proof -
      from that(1) obtain y where y: "y \<in> set (devices s)" "x = (if dv_id y = dv_id d then approved_device actor now y else y)"
        by (auto simp: t set_upd_where)
      then show ?thesis using that(2,3) alone [of y] same [OF y(1)] slot d(3) by (cases "dv_id y = dv_id d") auto
    qed
  qed (rule \<open>0 < n\<close>)
qed

lemma approve_limit:
  assumes "0 < n"
  shows "keeps_tx (within_limit n) (approve_change i actor note now)"
proof (unfold keeps_tx_def, intro allI impI)
  fix s t :: db and dev
  assume w: "within_limit n s" and r: "approve_change i actor note now s = Inr (dev, t)"
  from r obtain c where "pending_change i s = Inr (c, s)"
    by (auto simp: approve_change_def pending_change_def result_simps the_or_def split: option.splits if_splits)
  define s1 where "s1 = s\<lparr>devices :=
       upd_where (\<lambda>d. dv_user d = dc_user c \<and> dv_status d = DV_ACTIVE \<and> dv_key d \<noteq> dc_key c)
         (revoked_device now (''Replaced by device change request '' @ show_nat i)) (devices s)\<rparr>"
  from r \<open>pending_change i s = Inr (c, s)\<close> obtain s2 where
    s2: "install_device c actor now s1 = Inr (dev, s2)" and t: "devices t = devices s2" "db_next t = db_next s2"
    by (auto simp: approve_change_def device_audit_def end_sessions_def audit_with_def result_simps s1_def)
  have "within_limit n s1"
    unfolding s1_def using w by (rule within_limit_upd) (simp_all add: revoked_device_def device_slot_def)
  moreover have "d \<in> set (devices s1) \<Longrightarrow> dv_user d = dc_user c \<Longrightarrow> dv_status d = DV_ACTIVE \<Longrightarrow> dv_key d = dc_key c" for d
    by (auto simp: s1_def set_upd_where revoked_device_def split: if_splits)
  ultimately have "within_limit n s2" using install_limit s2 \<open>0 < n\<close> by blast
  with t show "within_limit n t" by (simp add: within_limit_frame)
qed

lemma revoke_device_limit: "keeps_tx (within_limit n) (revoke_device dev actor why now)"
  unfolding revoke_device_def
  by (intro keeping keeps_tx_modify)
    (auto simp: revoked_device_def device_slot_def end_sessions_def end_tickets_def end_refresh_def mute_pushes_def device_audit_def
      audit_with_def keeps_tx_def intro: within_limit_upd elim: within_limit_frame)

lemma delete_devices_limit: "within_limit n s \<Longrightarrow> within_limit n (delete_devices user s)"
proof -
  assume w: "within_limit n s"
  have "unique_on key (devices s) \<Longrightarrow> unique_on key (filter q (devices s))" for key :: "device_row \<Rightarrow> 'k" and q
    by (auto simp: unique_on_def distinct_map_filter)
  moreover have "active_devices u (delete_devices user s) \<le> active_devices u s" for u
    by (simp add: active_devices_def delete_devices_def Let_def count_where_filter)
  then have "active_devices u (delete_devices user s) \<le> n" for u
    using w le_trans unfolding within_limit_def by blast
  ultimately show ?thesis
    using w by (auto simp: within_limit_def delete_devices_def Let_def unique_on_def distinct_map_filter)
qed

lemma reset_limit: "keeps_tx (within_limit n) (reset_binding user actor why now)"
  unfolding reset_binding_def
  by (intro keeping keeps_tx_modify)
    (auto simp: end_sessions_def end_tickets_def end_refresh_def mute_pushes_def device_audit_def audit_with_def keeps_tx_def
      intro: delete_devices_limit elim: within_limit_frame)

lemma sign_in_limit_of: "keeps_tx (within_limit (max 1 (cf_limit dcf))) (resolve_on_login dcf user role cx now)"
  by (rule sign_in_limit) simp

lemma approve_limit_of: "keeps_tx (within_limit (max 1 (cf_limit dcf))) (approve_change i actor note now)"
  by (rule approve_limit) simp

interpretation limit: auth_condition "within_limit (max 1 (cf_limit dcf))" dcf for dcf
proof unfold_locales
  show "within_limit (max 1 (cf_limit dcf)) s \<Longrightarrow> sessions t = sessions s \<Longrightarrow> refresh_tokens t = refresh_tokens s \<Longrightarrow>
    devices t = devices s \<Longrightarrow> db_next s \<le> db_next t \<Longrightarrow> within_limit (max 1 (cf_limit dcf)) t" for s t
    by (rule within_limit_frame)
qed (rule sign_in_limit_of request_limit approve_limit_of revoke_device_limit reset_limit |
    (erule within_limit_frame; simp))+

interpretation limit_machine: invariant_system auth_start "auth_step dcf" "within_limit (max 1 (cf_limit dcf))" for dcf
proof unfold_locales
  show "auth_start s \<Longrightarrow> within_limit (max 1 (cf_limit dcf)) s" for s
    by (simp add: auth_start_def within_limit_def active_devices_def)
  show "within_limit (max 1 (cf_limit dcf)) s \<Longrightarrow> auth_step dcf s t \<Longrightarrow> within_limit (max 1 (cf_limit dcf)) t" for s t
    using limit.step_kept by blast
qed

text \<open>What the gate lets through.\<close>

lemma gate_opens:
  assumes "assert_device_authorized cf user R_STUDENT key sd suspect s = Inr r"
  obtains d where "d \<in> set (devices s)" "r = Some (dv_id d)" "dv_user d = user" "key = Some (dv_key d)" "dv_status d = DV_ACTIVE"
    "sd = None \<or> sd = Some (dv_id d)" "\<not> (suspect \<and> cf_block cf)"
  using assms
  by (auto simp: assert_device_authorized_def find_device_def split: option.splits if_splits dest: find_Some)

text \<open>C14: the limit of devices. After any sequence of sign-ins, requests, decisions and resets a student has at most
  the configured number of active devices (one, where the setting is zero and an administrator approved
  one), one row per device key, and the gate of protected content opens only on an active device of
  their own, the one their session was opened on.\<close>

theorem device_limit_holds:
  assumes "auth_start s0" "(auth_step dcf)\<^sup>*\<^sup>* s0 s"
  shows "active_devices user s \<le> max 1 (cf_limit dcf)
    \<and> (assert_device_authorized dcf user R_STUDENT key sd suspect s = Inr r \<longrightarrow>
      (\<exists>d. filter (\<lambda>d. dv_user d = user \<and> Some (dv_key d) = key) (devices s) = [d] \<and> r = Some (dv_id d)
        \<and> dv_status d = DV_ACTIVE \<and> (sd = None \<or> sd = r) \<and> \<not> (suspect \<and> cf_block dcf)))"
proof -
  have w: "within_limit (max 1 (cf_limit dcf)) s" using limit_machine.inv_reachable [OF assms] .
  show ?thesis
  proof (intro conjI impI)
  show "active_devices user s \<le> max 1 (cf_limit dcf)" using w by (simp add: within_limit_def)
  assume "assert_device_authorized dcf user R_STUDENT key sd suspect s = Inr r"
  then obtain d where d: "d \<in> set (devices s)" "r = Some (dv_id d)" "dv_user d = user" "key = Some (dv_key d)"
    "dv_status d = DV_ACTIVE" "sd = None \<or> sd = Some (dv_id d)" "\<not> (suspect \<and> cf_block dcf)" by (rule gate_opens)
  have slots: "unique_on device_slot (devices s)" using w by (simp add: within_limit_def)
  have "filter (\<lambda>x. device_slot x = device_slot d) (devices s) = [d]"
    using slots d(1) by (rule filter_unique)
  moreover have "(\<lambda>x. dv_user x = user \<and> Some (dv_key x) = key) = (\<lambda>x. device_slot x = device_slot d)"
    using d(3,4) by (auto simp: device_slot_def)
  ultimately show "\<exists>d. filter (\<lambda>d. dv_user d = user \<and> Some (dv_key d) = key) (devices s) = [d] \<and> r = Some (dv_id d)
      \<and> dv_status d = DV_ACTIVE \<and> (sd = None \<or> sd = r) \<and> \<not> (suspect \<and> cf_block dcf)"
    using d by auto
  qed
qed

section \<open>A student signs in\<close>

definition door_db :: db where
  "door_db = empty_db\<lparr>db_next := 10, users := [\<lparr>u_id = 1, u_role = R_STUDENT, u_status = AS_ACTIVE, u_full_name = ''Mona Ali'',
     u_phone = ''01012345678'', u_password = ''pw'', u_failed_logins = 2, u_locked_until = None, u_credentials_changed = 0,
     u_last_login = None, u_deleted_at = None\<rparr>]\<rparr>"

definition door_lib :: password_lib where
  "door_lib = \<lparr>pw_hash = (\<lambda>p. p), pw_verify = (\<lambda>h p. h = p), pw_outdated = (\<lambda>_. False)\<rparr>"

definition door_config :: auth_config where
  "door_config = \<lparr>ac_refresh_ttl = 2592000, ac_grace = 30, ac_max_failed = 3, ac_lockout_minutes = 15\<rparr>"

definition door_devices :: device_config where
  "door_devices = \<lparr>cf_limit = 1, cf_auto_bind = True, cf_block = True\<rparr>"

definition door_login :: "string \<Rightarrow> string \<Rightarrow> time \<Rightarrow> db \<Rightarrow> (exn + auth_result) \<times> db" where
  "door_login key h now = login door_config door_devices door_lib ''+20 101 234 5678'' ''pw''
     \<lparr>cx_key = Some key, cx_platform = Some ''ios'', cx_name = None, cx_suspect = False\<rparr> \<lparr>mt_hash = h, mt_family = ''f1''\<rparr> now"

definition door_in :: db where
  "door_in = snd (door_login ''k1'' ''h1'' 1000 door_db)"

lemma door_start: "auth_start door_db"
  by (simp add: auth_start_def door_db_def empty_db_def)

lemma door_step: "auth_step door_devices door_db door_in"
  unfolding door_in_def door_login_def by (rule au_login [OF prod.collapse [symmetric]])

lemma door_steps: "(auth_step door_devices)\<^sup>*\<^sup>* door_db door_in"
  using door_step by (rule r_into_rtranclp)

lemma door_rows:
  "map ss_id (sessions door_in) = [11]" "map ss_user (sessions door_in) = [1]"
  "map rt_id (refresh_tokens door_in) = [12]" "active_devices 1 door_in = 1"
  by code_simp+

definition door_out :: db where
  "door_out = (case logout_all 1 ''lost phone'' 2000 door_in of Inr (_, t) \<Rightarrow> t | Inl _ \<Rightarrow> door_in)"

lemma door_signed_out: "signs_out 1 door_in door_out"
proof (rule so_everywhere)
  show "logout_all 1 ''lost phone'' 2000 door_in = Inr (1, door_out)" by code_simp
qed

lemma signed_out_for_good_witness:
  "attach (TokenOk \<lparr>at_user = 1, at_session = 11, at_iat = 1\<rparr>) (Some ''k1'') 3000 door_out = Inl (app_error SESSION_EXPIRED)
   \<and> (\<exists>e v. rotate_once door_config \<lparr>pt_claims = Some \<lparr>rc_user = 1, rc_session = 11, rc_family = ''f1''\<rparr>, pt_hash = ''h1''\<rparr>
       \<lparr>ap_hash = ''h2'', ap_gap = (\<lambda>s. s), ap_now = 3000\<rparr> (Some ''k1'') door_out = (Refused e, v))"
proof -
  obtain x where x: "x \<in> set (sessions door_out)" "ss_id x = 11" "ss_user x = 1"
  proof
    show "hd (sessions door_out) \<in> set (sessions door_out)" "ss_id (hd (sessions door_out)) = 11" "ss_user (hd (sessions door_out)) = 1"
      by code_simp+
  qed
  have y: "find_by rt_hash ''h1'' (refresh_tokens door_out) = Some (hd (refresh_tokens door_out))"
    "rt_session (hd (refresh_tokens door_out)) = 11" by code_simp+
  note goal = signed_out_for_good [OF door_start door_steps door_signed_out rtranclp.rtrancl_refl x(1,3)]
  show ?thesis
    using goal [of "\<lparr>at_user = 1, at_session = 11, at_iat = 1\<rparr>" "Some ''k1''" 3000
      "\<lparr>pt_claims = Some \<lparr>rc_user = 1, rc_session = 11, rc_family = ''f1''\<rparr>, pt_hash = ''h1''\<rparr>"
      "hd (refresh_tokens door_out)" door_config "\<lparr>ap_hash = ''h2'', ap_gap = (\<lambda>s. s), ap_now = 3000\<rparr>" "Some ''k1''"] x(2) y
    by simp
qed

definition door_rotated :: db where
  "door_rotated = (case commit_rotation door_config (hd (refresh_tokens door_in)) ''h2'' 2000 door_in of Inr (_, t) \<Rightarrow> t | Inl _ \<Rightarrow> door_in)"

lemma refresh_rotates_once_witness:
  "commit_rotation door_config (hd (refresh_tokens door_in)) ''h3'' 2001 door_rotated = Inr (False, door_rotated)"
proof -
  let ?x = "hd (refresh_tokens door_in)"
  have first: "commit_rotation door_config ?x ''h2'' 2000 door_in = Inr (True, door_rotated)" by code_simp
  have returns: "commit_rotation door_config ?x ''h3'' 2001 door_rotated
      = Inr (fst (projr (commit_rotation door_config ?x ''h3'' 2001 door_rotated)), snd (projr (commit_rotation door_config ?x ''h3'' 2001 door_rotated)))"
    by code_simp
  show ?thesis
    using refresh_rotates_once [OF door_start door_steps first rtranclp.rtrancl_refl refl returns] returns
    by simp
qed

lemma device_limit_holds_witness:
  "active_devices 1 (snd (door_login ''k2'' ''h2'' 2000 door_in)) \<le> 1
   \<and> (\<exists>d. filter (\<lambda>d. dv_user d = 1 \<and> Some (dv_key d) = Some ''k1'') (devices door_in) = [d] \<and> dv_status d = DV_ACTIVE)"
proof -
  have "auth_step door_devices door_in (snd (door_login ''k2'' ''h2'' 2000 door_in))"
    unfolding door_login_def by (rule au_login [OF prod.collapse [symmetric]])
  with door_steps have second: "(auth_step door_devices)\<^sup>*\<^sup>* door_db (snd (door_login ''k2'' ''h2'' 2000 door_in))"
    by (rule rtranclp.rtrancl_into_rtrancl)
  have opens: "assert_device_authorized door_devices 1 R_STUDENT (Some ''k1'') (Some 10) False door_in = Inr (Some 10)" by code_simp
  show ?thesis
  proof
    have one: "max 1 (cf_limit door_devices) = 1" by (simp add: door_devices_def)
    show "active_devices 1 (snd (door_login ''k2'' ''h2'' 2000 door_in)) \<le> 1"
      using device_limit_holds [OF door_start second, of 1, THEN conjunct1] unfolding one .
    show "\<exists>d. filter (\<lambda>d. dv_user d = 1 \<and> Some (dv_key d) = Some ''k1'') (devices door_in) = [d] \<and> dv_status d = DV_ACTIVE"
    proof -
      from device_limit_holds [OF door_start door_steps, THEN conjunct2, rule_format, OF opens]
      obtain d where "filter (\<lambda>d. dv_user d = 1 \<and> Some (dv_key d) = Some ''k1'') (devices door_in) = [d]" "dv_status d = DV_ACTIVE"
        by (elim exE conjE)
      then show ?thesis by (intro exI conjI)
    qed
  qed
qed

end
