(* ===== verification/SignIn.thy ===== *)
theory SignIn
  imports SessionSafety
begin

text \<open>
  Properties of the single operations of sign-in: one account per phone number however it is written,
  the lockout after wrong passwords, the replay of a spent refresh token, and the refresh that loses
  the race against its twin.
\<close>

section \<open>One account per phone number\<close>

text \<open>The spellings of a local number: bare, with the trunk zero, with the country code, with the international prefix.\<close>

definition spellings :: "string \<Rightarrow> string set" where
  "spellings d = {d, ''0'' @ d, ''20'' @ d, ''0020'' @ d}"

lemma local_number_head: "local_number d \<Longrightarrow> \<exists>e. d = CHR ''1'' # e \<and> e \<noteq> []"
  by (cases d) (auto simp: local_number_def)

lemma local_number_chars: "local_number d \<Longrightarrow> list_all is_digit d"
proof -
  assume l: "local_number d"
  then obtain a b e where d: "d = a # b # e" by (cases d; cases "tl d") (auto simp: local_number_def)
  then show ?thesis using l by (auto simp: local_number_def is_digit_def)
qed

lemma digit_not_noise: "is_digit c \<Longrightarrow> \<not> phone_noise c"
  by (auto simp: is_digit_def phone_noise_def is_ws_def)

lemma normalize_spelling:
  assumes "local_number d" "filter (\<lambda>c. \<not> phone_noise c) raw \<in> spellings d"
  shows "normalize_phone raw = CHR ''0'' # d"
proof -
  obtain e where d: "d = CHR ''1'' # e" "e \<noteq> []" using local_number_head assms(1) by blast
  then show ?thesis
    using assms by (auto simp: normalize_phone_def spellings_def strip_country_def Let_def)
qed

text \<open>one account per number. Whatever separators a student types and whichever of the four spellings of a mobile
  number they use, the account identifier is the same eleven digits, valid, and stable under a second
  normalisation; numbers that differ never meet.\<close>

theorem phone_spellings:
  assumes "local_number d" "filter (\<lambda>c. \<not> phone_noise c) raw \<in> spellings d"
    and "local_number d'" "filter (\<lambda>c. \<not> phone_noise c) raw' \<in> spellings d'"
  shows "normalize_phone raw = CHR ''0'' # d \<and> is_valid_mobile (normalize_phone raw)
    \<and> normalize_phone (normalize_phone raw) = normalize_phone raw
    \<and> (normalize_phone raw = normalize_phone raw' \<longleftrightarrow> d = d')"
proof -
  have n: "normalize_phone raw = CHR ''0'' # d" "normalize_phone raw' = CHR ''0'' # d'"
    using normalize_spelling assms by blast+
  have "filter (\<lambda>c. \<not> phone_noise c) (CHR ''0'' # d) = CHR ''0'' # d"
    using local_number_chars [OF assms(1)] digit_not_noise
    by (auto simp: list_all_iff phone_noise_def is_ws_def intro!: filter_True)
  then have "normalize_phone (CHR ''0'' # d) = CHR ''0'' # d"
    using assms(1) by (intro normalize_spelling) (auto simp: spellings_def)
  then show ?thesis using n assms(1) by (auto simp: is_valid_mobile_def)
qed

lemma phone_spellings_witness:
  "normalize_phone ''+20 (101) 234-5678'' = ''01012345678'' \<and> normalize_phone ''0020 101 234 5678'' = ''01012345678''"
proof -
  have l: "local_number ''1012345678''" by code_simp
  have "filter (\<lambda>c. \<not> phone_noise c) ''+20 (101) 234-5678'' = ''20'' @ ''1012345678''"
    "filter (\<lambda>c. \<not> phone_noise c) ''0020 101 234 5678'' = ''0020'' @ ''1012345678''" by code_simp+
  then have s: "filter (\<lambda>c. \<not> phone_noise c) ''+20 (101) 234-5678'' \<in> spellings ''1012345678''"
    "filter (\<lambda>c. \<not> phone_noise c) ''0020 101 234 5678'' \<in> spellings ''1012345678''" by (simp_all add: spellings_def)
  show ?thesis using phone_spellings [OF l s(1) l s(2)] by metis
qed

section \<open>Lockout\<close>

text \<open>A run of sign-in attempts on one number: the answers, and the state they leave.\<close>

primrec guesses :: "auth_config \<Rightarrow> password_lib \<Rightarrow> string \<Rightarrow> (string \<times> time) list \<Rightarrow> db \<Rightarrow> (exn + user_row) list \<times> db" where
  "guesses cf lib phone [] s = ([], s)"
| "guesses cf lib phone (g # gs) s =
     (let (r, t) = verify_credentials cf lib phone (fst g) (snd g) s; (rs, u) = guesses cf lib phone gs t in (r # rs, u))"

abbreviation account_of :: "string \<Rightarrow> db \<Rightarrow> user_row option" where
  "account_of phone s \<equiv> find_by u_phone (normalize_phone phone) (users s)"

lemma guesses_append:
  "guesses cf lib phone (gs @ hs) s =
     (let (rs, t) = guesses cf lib phone gs s; (rs', u) = guesses cf lib phone hs t in (rs @ rs', u))"
  by (induction gs arbitrary: s) (simp_all add: split_beta Let_def)

lemma wrong_guess:
  assumes "account_of phone s = Some u" "u_deleted_at u = None" "\<not> is_locked u now" "\<not> pw_verify lib (u_password u) pw"
    and "failed_login cf (u_failed_logins u) (u_locked_until u) now = (n, lock)"
  shows "\<exists>t. verify_credentials cf lib phone pw now s = (Inl (app_error INVALID_CREDENTIALS), t)
    \<and> account_of phone t = Some (u\<lparr>u_failed_logins := n, u_locked_until := lock\<rparr>)"
proof -
  let ?f = "\<lambda>v. v\<lparr>u_failed_logins := n, u_locked_until := lock\<rparr>"
  let ?t = "s\<lparr>users := upd_where (\<lambda>v. u_id v = u_id u) ?f (users s)\<rparr>"
  have "find_by u_phone (normalize_phone phone) (upd_where (\<lambda>v. u_id v = u_id u) ?f (users s)) = Some (?f u)"
    using assms(1) by (subst keyed_update.find_upd) (simp_all add: keyed_update_def)
  then have "account_of phone ?t = Some (?f u)" by simp
  moreover have "verify_credentials cf lib phone pw now s = (Inl (app_error INVALID_CREDENTIALS), ?t)"
    using assms by (simp add: verify_credentials_def register_failed_attempt_def)
  ultimately show ?thesis by blast
qed

lemma locked_guess:
  assumes "account_of phone s = Some u" "u_deleted_at u = None" "is_locked u now"
  shows "verify_credentials cf lib phone pw now s = (Inl (app_error RATE_LIMITED), s)"
  using assms by (simp add: verify_credentials_def)

lemma locked_guesses:
  assumes "account_of phone s = Some u" "u_deleted_at u = None" "\<forall>g \<in> set gs. is_locked u (snd g)"
  shows "guesses cf lib phone gs s = (replicate (length gs) (Inl (app_error RATE_LIMITED)), s)"
  using assms by (induction gs) (simp_all add: locked_guess)

text \<open>Below the limit every wrong password is counted; the one that reaches it locks.\<close>

lemma counted_guesses:
  assumes "account_of phone s = Some u" "u_deleted_at u = None" "u_locked_until u = None"
    and "\<forall>g \<in> set gs. \<not> pw_verify lib (u_password u) (fst g)" "u_failed_logins u + length gs \<le> ac_max_failed cf"
    and "u_failed_logins u < ac_max_failed cf"
  shows "\<exists>t. guesses cf lib phone gs s = (replicate (length gs) (Inl (app_error INVALID_CREDENTIALS)), t)
    \<and> account_of phone t = Some (u\<lparr>u_failed_logins := u_failed_logins u + length gs,
        u_locked_until := (if u_failed_logins u + length gs = ac_max_failed cf
          then Some (snd (last gs) + ac_lockout_minutes cf * 60000) else None)\<rparr>)"
  using assms
proof (induction gs arbitrary: s u)
  case Nil
  then show ?case by simp
next
  case (Cons g gs)
  let ?n = "Suc (u_failed_logins u)"
  let ?lock = "if ac_max_failed cf \<le> ?n then Some (snd g + ac_lockout_minutes cf * 60000) else None"
  have "failed_login cf (u_failed_logins u) (u_locked_until u) (snd g) = (?n, ?lock)"
    using Cons.prems(3) by (simp add: failed_login_def)
  moreover have "\<not> is_locked u (snd g)" using Cons.prems(3) by (simp add: is_locked_def)
  ultimately obtain t where t: "verify_credentials cf lib phone (fst g) (snd g) s = (Inl (app_error INVALID_CREDENTIALS), t)"
    "account_of phone t = Some (u\<lparr>u_failed_logins := ?n, u_locked_until := ?lock\<rparr>)"
    using wrong_guess [of phone s u "snd g" lib "fst g" cf ?n ?lock] Cons.prems by auto
  show ?case
  proof (cases "gs = []")
    case True
    then show ?thesis using t Cons.prems by (auto simp: Let_def)
  next
    case False
    then have below: "?n < ac_max_failed cf" using Cons.prems(5) by (cases gs) auto
    then have "account_of phone t = Some (u\<lparr>u_failed_logins := ?n, u_locked_until := None\<rparr>)" using t(2) by simp
    from Cons.IH [OF this] Cons.prems below False t(1) show ?thesis by (auto simp: Let_def)
  qed
qed

text \<open>C5: the lockout. An account with \<open>k\<close> failures below the limit answers every wrong password with the same
  refusal until the limit is reached; from then on, for the configured time, every attempt is
  refused without looking at the password, the right one included, and changes nothing. The first
  wrong password after the lock has expired is counted as the first.\<close>

theorem wrong_passwords_lock:
  assumes "account_of phone s = Some u" "u_deleted_at u = None" "u_locked_until u = None"
    and "u_failed_logins u + length before = ac_max_failed cf" "before \<noteq> []"
    and "\<forall>g \<in> set before. \<not> pw_verify lib (u_password u) (fst g)"
    and "\<forall>g \<in> set after. snd g < snd (last before) + ac_lockout_minutes cf * 60000"
    and "\<not> pw_verify lib (u_password u) pw" "snd (last before) + ac_lockout_minutes cf * 60000 \<le> now" "1 < ac_max_failed cf"
  shows "\<exists>t. guesses cf lib phone (before @ after) s =
      (replicate (length before) (Inl (app_error INVALID_CREDENTIALS)) @ replicate (length after) (Inl (app_error RATE_LIMITED)), t)
    \<and> account_of phone t = Some (u\<lparr>u_failed_logins := ac_max_failed cf,
        u_locked_until := Some (snd (last before) + ac_lockout_minutes cf * 60000)\<rparr>)
    \<and> (\<exists>v. verify_credentials cf lib phone pw now t = (Inl (app_error INVALID_CREDENTIALS), v)
        \<and> account_of phone v = Some (u\<lparr>u_failed_logins := 1, u_locked_until := None\<rparr>))"
proof -
  let ?until = "snd (last before) + ac_lockout_minutes cf * 60000"
  let ?u = "u\<lparr>u_failed_logins := ac_max_failed cf, u_locked_until := Some ?until\<rparr>"
  have "u_failed_logins u < ac_max_failed cf" using assms(4,5) by (cases before) auto
  then obtain t where t: "guesses cf lib phone before s = (replicate (length before) (Inl (app_error INVALID_CREDENTIALS)), t)"
    "account_of phone t = Some ?u"
    using counted_guesses [OF assms(1-3,6), of cf] assms(4) by auto
  have "\<forall>g \<in> set after. is_locked ?u (snd g)" using assms(7) by (simp add: is_locked_def)
  then have a: "guesses cf lib phone after t = (replicate (length after) (Inl (app_error RATE_LIMITED)), t)"
    using locked_guesses [OF t(2)] assms(2) by simp
  have "\<exists>v. verify_credentials cf lib phone pw now t = (Inl (app_error INVALID_CREDENTIALS), v)
      \<and> account_of phone v = Some (?u\<lparr>u_failed_logins := 1, u_locked_until := None\<rparr>)"
    using assms(2,8-10) by (intro wrong_guess [OF t(2)]) (simp_all add: is_locked_def failed_login_def)
  then show ?thesis using t a by (auto simp: guesses_append)
qed

lemma wrong_passwords_lock_witness:
  "fst (guesses door_config door_lib ''01012345678'' ([(''guess'', 5000)] @ [(''other'', 6000), (''pw'', 7000)]) door_db)
     = [Inl (app_error INVALID_CREDENTIALS), Inl (app_error RATE_LIMITED), Inl (app_error RATE_LIMITED)]"
proof -
  have u: "account_of ''01012345678'' door_db = Some (hd (users door_db))" by code_simp
  have h: "u_deleted_at (hd (users door_db)) = None" "u_locked_until (hd (users door_db)) = None"
    "u_failed_logins (hd (users door_db)) + length [(''guess'', 5000 :: time)] = ac_max_failed door_config"
    "\<forall>g \<in> set [(''guess'', 5000 :: time)]. \<not> pw_verify door_lib (u_password (hd (users door_db))) (fst g)"
    "\<forall>g \<in> set [(''other'', 6000 :: time), (''pw'', 7000)]. snd g < snd (last [(''guess'', 5000 :: time)]) + ac_lockout_minutes door_config * 60000"
    "\<not> pw_verify door_lib (u_password (hd (users door_db))) ''x''"
    "snd (last [(''guess'', 5000 :: time)]) + ac_lockout_minutes door_config * 60000 \<le> 905000" "1 < ac_max_failed door_config"
    by (simp_all add: door_db_def door_config_def door_lib_def)
  from wrong_passwords_lock [OF u h(1-3) _ h(4-8)] show ?thesis by (auto simp: numeral_2_eq_2)
qed

section \<open>A spent token comes back\<close>

lemma revoke_family_effect:
  "y \<in> set (refresh_tokens (revoke_family f now why s)) \<Longrightarrow> rt_family y = f \<Longrightarrow> rt_revoked_at y \<noteq> None"
  "filter (\<lambda>y. rt_family y \<noteq> f) (refresh_tokens (revoke_family f now why s)) = filter (\<lambda>y. rt_family y \<noteq> f) (refresh_tokens s)"
proof -
  show "rt_revoked_at y \<noteq> None" if y: "y \<in> set (refresh_tokens (revoke_family f now why s))" "rt_family y = f"
  proof -
    let ?g = "\<lambda>x. x\<lparr>rt_revoked_at := Some now, rt_revoked_reason := Some why\<rparr>"
    from y(1) have "y \<in> set (upd_where (\<lambda>x. rt_family x = f \<and> rt_revoked_at x = None) ?g (refresh_tokens s))"
      by (simp add: revoke_family_def Let_def end_sessions_def end_refresh_def)
    then obtain w where w: "y = (if rt_family w = f \<and> rt_revoked_at w = None then ?g w else w)"
      by (blast dest: upd_where_elem)
    show ?thesis using y(2) unfolding w by (cases "rt_family w = f \<and> rt_revoked_at w = None") auto
  qed
  have "filter (\<lambda>y. rt_family y \<noteq> f) (upd_where (\<lambda>x. rt_family x = f \<and> rt_revoked_at x = None)
      (\<lambda>x. x\<lparr>rt_revoked_at := Some now, rt_revoked_reason := Some why\<rparr>) xs) = filter (\<lambda>y. rt_family y \<noteq> f) xs" for xs
    by (induction xs) (simp_all add: upd_where_Cons)
  then show "filter (\<lambda>y. rt_family y \<noteq> f) (refresh_tokens (revoke_family f now why s)) = filter (\<lambda>y. rt_family y \<noteq> f) (refresh_tokens s)"
    by (simp add: revoke_family_def Let_def end_sessions_def end_refresh_def)
qed

lemma revoke_family_ends:
  assumes "session_ids s" "z \<in> set (sessions s)" "y \<in> set (refresh_tokens s)" "rt_family y = f" "rt_revoked_at y = None" "rt_session y = ss_id z"
  shows "ended (ss_id z) (revoke_family f now why s)"
proof -
  let ?ids = "map rt_session (filter (\<lambda>x. rt_family x = f \<and> rt_revoked_at x = None) (refresh_tokens s))"
  have "ss_id z \<in> set ?ids"
    using assms(3-5) by (simp add: assms(6) [symmetric])
  then have "ss_status w \<noteq> SS_ACTIVE" if "w \<in> set (sessions (revoke_family f now why s))" "ss_id w = ss_id z" for w
  proof -
    let ?g = "\<lambda>x. x\<lparr>ss_status := SS_REVOKED, ss_revoked_at := Some now, ss_revoked_reason := Some why\<rparr>"
    from that(1) have "w \<in> set (upd_where (\<lambda>x. ss_id x \<in> set ?ids \<and> ss_status x = SS_ACTIVE) ?g (sessions s))"
      by (simp add: revoke_family_def Let_def end_sessions_def end_refresh_def)
    then obtain v where w: "w = (if ss_id v \<in> set ?ids \<and> ss_status v = SS_ACTIVE then ?g v else v)"
      by (blast dest: upd_where_elem)
    show ?thesis using that(2) \<open>ss_id z \<in> set ?ids\<close> unfolding w by (cases "ss_id v \<in> set ?ids \<and> ss_status v = SS_ACTIVE") auto
  qed
  then show ?thesis
    using assms(1,2) by (auto simp: ended_def session_ids_def revoke_family_def Let_def end_sessions_def end_refresh_def)
qed

text \<open>C12: a replay ends the family. A refresh token presented again after the grace period is refused, every token of
  its family is revoked, other families are left alone, and the sessions the family served never
  open anything again, whatever requests follow.\<close>

theorem replay_ends_the_family:
  assumes "auth_start s0" "(auth_step dcf)\<^sup>*\<^sup>* s0 s"
    and "pt_claims p = Some c" "find_by rt_hash (pt_hash p) (refresh_tokens s) = Some x" "rt_revoked_at x = None"
    and "rt_used_at x = Some used" "ac_grace cf * 1000 < ap_now (env retry) - used"
    and "rotate_refresh cf p env key retry s = (r, t)" "(auth_step dcf)\<^sup>*\<^sup>* t u"
    and "y \<in> set (refresh_tokens s)" "rt_family y = rt_family x" "rt_revoked_at y = None" "z \<in> set (sessions s)" "ss_id z = rt_session y"
  shows "r = Inl (app_error SESSION_EXPIRED)
    \<and> list_all (\<lambda>y. rt_family y \<noteq> rt_family x \<or> rt_revoked_at y \<noteq> None) (refresh_tokens t)
    \<and> filter (\<lambda>y. rt_family y \<noteq> rt_family x) (refresh_tokens t) = filter (\<lambda>y. rt_family y \<noteq> rt_family x) (refresh_tokens s)
    \<and> attach (TokenOk \<lparr>at_user = ss_user z, at_session = rt_session y, at_iat = iat\<rparr>) dk now u = Inl (app_error SESSION_EXPIRED)"
proof -
  let ?t = "revoke_family (rt_family x) (ap_now (env retry)) ''Refresh token reuse detected'' s"
  have "rotate_once cf p (env retry) key s = (Refused (app_error SESSION_EXPIRED), ?t)"
    using assms(3-7) by (simp add: rotate_once_def)
  then have rt: "r = Inl (app_error SESSION_EXPIRED)" "t = ?t"
    using assms(8) by (simp_all add: rotate_refresh.simps [of cf p env key retry s])
  have "session_ids s" using auth_machine.inv_reachable [OF assms(1,2)] .
  then have "ended (ss_id z) ?t" using assms(10-14) by (intro revoke_family_ends) simp_all
  then have "ended (rt_session y) u" using ended.steps_kept [OF assms(9)] rt(2) assms(14) by simp
  then have "attach (TokenOk \<lparr>at_user = ss_user z, at_session = rt_session y, at_iat = iat\<rparr>) dk now u = Inl (app_error SESSION_EXPIRED)"
    by (rule ended_refuses) simp
  then show ?thesis
    using rt revoke_family_effect by (auto simp: list_all_iff)
qed

lemma replay_ends_the_family_witness:
  "attach (TokenOk \<lparr>at_user = 1, at_session = 11, at_iat = 1\<rparr>) None 99000
     (snd (rotate_refresh door_config \<lparr>pt_claims = Some \<lparr>rc_user = 1, rc_session = 11, rc_family = ''f1''\<rparr>, pt_hash = ''h1''\<rparr>
       (\<lambda>_. \<lparr>ap_hash = ''h9'', ap_gap = (\<lambda>s. s), ap_now = 50000\<rparr>) None False door_rotated)) = Inl (app_error SESSION_EXPIRED)"
proof -
  let ?p = "\<lparr>pt_claims = Some \<lparr>rc_user = 1, rc_session = 11, rc_family = ''f1''\<rparr>, pt_hash = ''h1''\<rparr>"
  let ?env = "\<lambda>_ :: bool. \<lparr>ap_hash = ''h9'', ap_gap = (\<lambda>s :: db. s), ap_now = 50000\<rparr>"
  let ?x = "hd (refresh_tokens door_rotated)" and ?y = "last (refresh_tokens door_rotated)" and ?z = "hd (sessions door_rotated)"
  have "commit_rotation door_config (hd (refresh_tokens door_in)) ''h2'' 2000 door_in = Inr (True, door_rotated)" by code_simp
  then have "auth_step door_devices door_in door_rotated" by (rule au_rotate)
  with door_steps have steps: "(auth_step door_devices)\<^sup>*\<^sup>* door_db door_rotated" by (rule rtranclp.rtrancl_into_rtrancl)
  have x: "find_by rt_hash (pt_hash ?p) (refresh_tokens door_rotated) = Some ?x" "rt_revoked_at ?x = None" "rt_used_at ?x = Some 2000"
    by code_simp+
  have y: "?y \<in> set (refresh_tokens door_rotated)" "rt_family ?y = rt_family ?x" "rt_revoked_at ?y = None"
    "?z \<in> set (sessions door_rotated)" "ss_id ?z = rt_session ?y" "rt_session ?y = 11" "ss_user ?z = 1"
    by code_simp+
  have late: "ac_grace door_config * 1000 < ap_now (?env False) - 2000" by (simp add: door_config_def)
  have claims: "pt_claims ?p = Some \<lparr>rc_user = 1, rc_session = 11, rc_family = ''f1''\<rparr>" by simp
  show ?thesis
    using replay_ends_the_family [where env = ?env and retry = False and iat = 1 and dk = None and now = 99000,
      OF door_start steps claims x late prod.collapse [symmetric] rtranclp.rtrancl_refl y(1-5)]
    by (simp only: y(6,7))
qed

section \<open>The refresh that loses the race\<close>

lemma rotation_commits:
  assumes "commit_rotation cf x h n s = Inr (True, t)" "find_by rt_hash k (refresh_tokens s) = Some x"
  shows "find_by rt_hash k (refresh_tokens t) = Some (x\<lparr>rt_used_at := (if rt_used_at x = None \<and> rt_revoked_at x = None then Some n else rt_used_at x),
      rt_replaced_by := Some (db_next s)\<rparr>)"
    and "users t = users s" "set (map rt_hash (refresh_tokens t)) = insert h (set (map rt_hash (refresh_tokens s)))"
    and "find_by ss_id i (sessions t) = map_option
      (\<lambda>y. if i = rt_session x then y\<lparr>ss_last_seen := n, ss_expires := n + ac_refresh_ttl cf * 1000\<rparr> else y) (find_by ss_id i (sessions s))"
    and "rt_id x < db_next s \<Longrightarrow> \<not> list_ex (\<lambda>y. rt_id y = rt_id x \<and> rt_used_at y = None \<and> rt_revoked_at y = None) (refresh_tokens t)"
proof -
  let ?row = "refresh_row_of cf (db_next s) (rt_user x) (rt_session x) h (rt_family x) n"
  let ?rows = "upd_where (\<lambda>y. rt_id y = rt_id x) (\<lambda>y. y\<lparr>rt_replaced_by := Some (db_next s)\<rparr>) (refresh_tokens (claim_token (rt_id x) n s) @ [?row])"
  let ?ses = "upd_where (\<lambda>y. ss_id y = rt_session x) (\<lambda>y. y\<lparr>ss_last_seen := n, ss_expires := n + ac_refresh_ttl cf * 1000\<rparr>) (sessions s)"
  from assms(1) have t: "refresh_tokens t = ?rows" "users t = users s" "sessions t = ?ses"
    by (auto simp: commit_rotation_def add_successor_def insert_refresh_def slide_session_def claim_token_def result_simps
        refresh_row_of_def split: if_splits)
  have f: "find_by rt_hash k (upd_where p g rows) = map_option (\<lambda>r. if p r then g r else r) (find_by rt_hash k rows)"
    if "\<And>r. rt_hash (g r) = rt_hash r" for p g rows
    using that by (intro keyed_update.find_upd) (simp add: keyed_update_def)
  show "find_by rt_hash k (refresh_tokens t) = Some (x\<lparr>rt_used_at := (if rt_used_at x = None \<and> rt_revoked_at x = None then Some n else rt_used_at x),
      rt_replaced_by := Some (db_next s)\<rparr>)"
    using assms(2) by (simp add: t(1) f find_by_append claim_token_def)
  show "users t = users s" by (rule t(2))
  show "set (map rt_hash (refresh_tokens t)) = insert h (set (map rt_hash (refresh_tokens s)))"
  proof -
    have h: "rt_hash ` set (upd_where q g rows) = rt_hash ` set rows" if "\<And>r. rt_hash (g r) = rt_hash r" for q g rows
      using that unfolding upd_where_def by (induction rows) auto
    show ?thesis by (simp add: t(1) h claim_token_def image_Un) (simp add: refresh_row_of_def)
  qed
  show "find_by ss_id i (sessions t) = map_option
      (\<lambda>y. if i = rt_session x then y\<lparr>ss_last_seen := n, ss_expires := n + ac_refresh_ttl cf * 1000\<rparr> else y) (find_by ss_id i (sessions s))"
    unfolding t(3) by (subst keyed_update.find_upd)
      (auto simp: keyed_update_def dest: find_by_Some split: option.split intro: option.map_cong)
  have spent: "\<not> (rt_id y = k \<and> rt_used_at y = None \<and> rt_revoked_at y = None)"
    if "y \<in> set (upd_where (\<lambda>y. rt_id y = k) (\<lambda>y. y\<lparr>rt_replaced_by := r\<rparr>) (refresh_tokens (claim_token k n s) @ [row]))" "rt_id row \<noteq> k" for y row r k
  proof -
    from upd_where_elem [OF that(1)] obtain w where w: "w \<in> set (refresh_tokens (claim_token k n s)) \<or> w = row"
      "y = (if rt_id w = k then w\<lparr>rt_replaced_by := r\<rparr> else w)" by auto
    from w(1) show ?thesis
    proof
      assume "w \<in> set (refresh_tokens (claim_token k n s))"
      then have "w \<in> set (upd_where (\<lambda>x. rt_id x = k \<and> rt_used_at x = None \<and> rt_revoked_at x = None) (\<lambda>x. x\<lparr>rt_used_at := Some n\<rparr>) (refresh_tokens s))"
        by (simp add: claim_token_def)
      then obtain v where v: "w = (if rt_id v = k \<and> rt_used_at v = None \<and> rt_revoked_at v = None then v\<lparr>rt_used_at := Some n\<rparr> else v)"
        by (blast dest: upd_where_elem)
      have "\<not> (rt_id w = k \<and> rt_used_at w = None \<and> rt_revoked_at w = None)"
        unfolding v by (cases "rt_id v = k \<and> rt_used_at v = None \<and> rt_revoked_at v = None") simp_all
      then show ?thesis unfolding w(2) by (cases "rt_id w = k") simp_all
    next
      assume "w = row"
      then show ?thesis using that(2) unfolding w(2) by simp
    qed
  qed
  show "rt_id x < db_next s \<Longrightarrow> \<not> list_ex (\<lambda>y. rt_id y = rt_id x \<and> rt_used_at y = None \<and> rt_revoked_at y = None) (refresh_tokens t)"
  proof
    assume "rt_id x < db_next s" "list_ex (\<lambda>y. rt_id y = rt_id x \<and> rt_used_at y = None \<and> rt_revoked_at y = None) (refresh_tokens t)"
    then obtain y where "y \<in> set ?rows" "rt_id y = rt_id x \<and> rt_used_at y = None \<and> rt_revoked_at y = None"
      unfolding list_ex_iff t(1) by blast
    moreover have "rt_id ?row \<noteq> rt_id x" using \<open>rt_id x < db_next s\<close> by (simp add: refresh_row_of_def)
    ultimately show False using spent by blast
  qed
qed

lemma reissue_commits:
  assumes "h \<notin> rt_hash ` set (refresh_tokens s)" "find_by ss_id (rt_session x) (sessions s) \<noteq> None"
  shows "\<exists>t. commit_reissue cf x h now s = Inr ((), t)
    \<and> list_ex (\<lambda>y. rt_hash y = h \<and> rt_session y = rt_session x \<and> rt_used_at y = None \<and> rt_revoked_at y = None) (refresh_tokens t)"
  using assms by (simp add: commit_reissue_def insert_refresh_def slide_session_def result_simps refresh_row_of_def)

text \<open>C13: a refresh always answers, after at most two attempts, and the one that loses the race against its twin still
  signs in. When another request rotates the same live token between the read and the commit, the
  second attempt, inside the grace period, finds the token spent and issues one more successor of
  the same session and family.\<close>

theorem lost_race_still_signs_in:
  assumes "pt_claims p = Some c" "find_by rt_hash (pt_hash p) (refresh_tokens s) = Some x" "rt_revoked_at x = None" "rt_used_at x = None"
    and "refresh_refusal x (ap_now (env False)) s = None" "rt_id x < db_next s"
    and "commit_rotation cf x h n s = Inr (True, ap_gap (env False) s)"
    and "ap_gap (env True) = (\<lambda>s. s)" "ap_now (env True) < rt_expires x" "ap_now (env True) - n \<le> ac_grace cf * 1000"
    and "ap_hash (env True) \<noteq> h" "ap_hash (env True) \<notin> rt_hash ` set (refresh_tokens s)"
  shows "\<exists>r t. refresh cf p env key s = (Inr r, t) \<and> ar_session r = rt_session x \<and> ar_family r = rt_family x \<and> ar_hash r = ap_hash (env True)
    \<and> list_ex (\<lambda>y. rt_hash y = ap_hash (env True) \<and> rt_session y = rt_session x \<and> rt_used_at y = None \<and> rt_revoked_at y = None) (refresh_tokens t)"
proof -
  define t where "t = ap_gap (env False) s"
  let ?x = "x\<lparr>rt_used_at := Some n, rt_replaced_by := Some (db_next s)\<rparr>"
  note after = rotation_commits [OF assms(7) assms(2), folded t_def]
  have x: "find_by rt_hash (pt_hash p) (refresh_tokens t) = Some ?x" using after(1) assms(3,4) by simp
  obtain y where y: "find_by ss_id (rt_session x) (sessions s) = Some y" "ss_status y = SS_ACTIVE"
    using assms(5) by (auto simp: refresh_refusal_def holds_some_def split: if_splits option.splits)
  have live: "refresh_refusal ?x (ap_now (env True)) t = None"
    using assms(5,9) y by (auto simp: refresh_refusal_def after(2,4) holds_some_def split: if_splits option.splits)
  have lost: "commit_rotation cf x (ap_hash (env False)) (ap_now (env False)) t = Inr (False, t)"
    using after(5) [OF assms(6)] by (simp add: commit_rotation_def result_simps)
  have "ap_hash (env True) \<notin> rt_hash ` set (refresh_tokens t)" using after(3) assms(11,12) by simp
  moreover have "find_by ss_id (rt_session ?x) (sessions t) \<noteq> None" using after(4) y(1) by simp
  ultimately obtain v where v: "commit_reissue cf ?x (ap_hash (env True)) (ap_now (env True)) t = Inr ((), v)"
    "list_ex (\<lambda>y. rt_hash y = ap_hash (env True) \<and> rt_session y = rt_session ?x \<and> rt_used_at y = None \<and> rt_revoked_at y = None) (refresh_tokens v)"
    using reissue_commits by blast
  have "rotate_once cf p (env False) key s = (Lost, t)"
    using assms(1-5) lost by (simp add: rotate_once_def t_def)
  moreover have "rotate_once cf p (env True) key t = (Reissued (granted ?x (ap_hash (env True)) key v), v)"
    using assms(1,3,8,10) x live v(1) by (simp add: rotate_once_def reissue_from_successor_def)
  ultimately have "refresh cf p env key s = (Inr (granted ?x (ap_hash (env True)) key v), v)"
    by (simp add: refresh_def rotate_refresh.simps)
  then show ?thesis using v(2) by (simp add: granted_def)
qed

lemma lost_race_still_signs_in_witness:
  "\<exists>r t. refresh door_config \<lparr>pt_claims = Some \<lparr>rc_user = 1, rc_session = 11, rc_family = ''f1''\<rparr>, pt_hash = ''h1''\<rparr>
     (\<lambda>retry. if retry then \<lparr>ap_hash = ''h7'', ap_gap = (\<lambda>s. s), ap_now = 2600\<rparr> else \<lparr>ap_hash = ''h8'', ap_gap = (\<lambda>_. door_rotated), ap_now = 1900\<rparr>)
     (Some ''k1'') door_in = (Inr r, t) \<and> ar_session r = 11"
proof -
  let ?p = "\<lparr>pt_claims = Some \<lparr>rc_user = 1, rc_session = 11, rc_family = ''f1''\<rparr>, pt_hash = ''h1''\<rparr>"
  let ?env = "\<lambda>retry. if retry then \<lparr>ap_hash = ''h7'', ap_gap = (\<lambda>s. s), ap_now = 2600\<rparr>
    else \<lparr>ap_hash = ''h8'', ap_gap = (\<lambda>_. door_rotated), ap_now = 1900\<rparr>"
  let ?x = "hd (refresh_tokens door_in)"
  have x: "find_by rt_hash (pt_hash ?p) (refresh_tokens door_in) = Some ?x" "rt_revoked_at ?x = None" "rt_used_at ?x = None"
    "rt_id ?x < db_next door_in" "rt_session ?x = 11" "2600 < rt_expires ?x" "map rt_hash (refresh_tokens door_in) = [''h1'']" by code_simp+
  have live: "refresh_refusal ?x 1900 door_in = None" by code_simp
  have first: "commit_rotation door_config ?x ''h2'' 2000 door_in = Inr (True, door_rotated)" by code_simp
  have env: "ap_gap (?env True) = (\<lambda>s. s)" "ap_now (?env True) < rt_expires ?x" "ap_now (?env True) - 2000 \<le> ac_grace door_config * 1000"
    "ap_hash (?env True) \<noteq> ''h2''" "ap_hash (?env True) \<notin> rt_hash ` set (refresh_tokens door_in)"
    using x(6) arg_cong [OF x(7), of set] by (simp_all add: door_config_def)
  have claims: "pt_claims ?p = Some \<lparr>rc_user = 1, rc_session = 11, rc_family = ''f1''\<rparr>" by simp
  have live': "refresh_refusal ?x (ap_now (?env False)) door_in = None" using live by simp
  have first': "commit_rotation door_config ?x ''h2'' 2000 door_in = Inr (True, ap_gap (?env False) door_in)" using first by simp
  from lost_race_still_signs_in [OF claims x(1-3) live' x(4) first' env, of "Some ''k1''"] x(5)
  show ?thesis by metis
qed

end
