(* ===== verification/Playback.thy ===== *)
theory Playback
  imports Sessions Access "HOL-Library.AList"
begin

text \<open>
  Protected playback (\<open>modules/playback/playback.service.ts\<close>): the chain of checks before a ticket
  is minted, the allowance of plays, the slots of concurrent streams, the heartbeat with its rotation,
  release, revocation and maintenance. The slots and the issuance counter live in Redis, beside the
  database; whether Redis answers is an argument, as are the clock and the verdict of the DRM
  verification. Signed addresses, watermarks, security events and watch events are left out.
\<close>

section \<open>State\<close>

record play_config =
  pl_ttl :: int
  pl_window :: int
  pl_min_counted :: int
  pl_max_plays :: nat
  pl_per_hour :: nat
  pl_max_streams :: nat
  pl_grace :: int
  pl_interval :: int
  pl_strikes :: nat
  pl_drm :: bool

text \<open>A sorted set of sessions with the instant of their last sign of life, and the expiry of its key.\<close>

record slot_set =
  sl_user :: id
  sl_expires :: "time option"
  sl_members :: "(id \<times> time) list"

record rate_row =
  rw_user :: id
  rw_count :: nat
  rw_until :: time

record stage =
  live :: db
  slots :: "slot_set list"
  rates :: "rate_row list"

type_synonym 'a play_call = "(stage, exn, 'a) call"

definition on_db :: "(db \<Rightarrow> db) \<Rightarrow> unit play_call" where
  "on_db f = write_c (\<lambda>s. s\<lparr>live := f (live s)\<rparr>)"

definition of_db :: "(db \<Rightarrow> 'a) \<Rightarrow> 'a play_call" where
  "of_db q = read_c (\<lambda>s. q (live s))"

definition in_db :: "'a db_call \<Rightarrow> 'a play_call" where
  "in_db m = (\<lambda>s. case m (live s) of (r, t) \<Rightarrow> (r, s\<lparr>live := t\<rparr>))"

definition lift_c :: "'e + 'a \<Rightarrow> ('s, 'e, 'a) call" where
  "lift_c r = (\<lambda>s. (r, s))"

section \<open>Rate and slots\<close>

text \<open>The counter of a window that has lapsed starts again.\<close>

definition window_count :: "id \<Rightarrow> time \<Rightarrow> stage \<Rightarrow> nat \<times> time" where
  "window_count user now s =
     (case find_by rw_user user (rates s) of
        None \<Rightarrow> (0, now + 3600 * 1000)
      | Some r \<Rightarrow> if rw_until r \<le> now then (0, now + 3600 * 1000) else (rw_count r, rw_until r))"

definition increment_window :: "id \<Rightarrow> time \<Rightarrow> stage \<Rightarrow> stage" where
  "increment_window user now s =
     (let (n, until) = window_count user now s in
      s\<lparr>rates := \<lparr>rw_user = user, rw_count = Suc n, rw_until = until\<rparr> # filter (\<lambda>r. rw_user r \<noteq> user) (rates s)\<rparr>)"

text \<open>Without Redis the increment throws: no ticket is issued.\<close>

definition enforce_issuance_rate :: "play_config \<Rightarrow> bool \<Rightarrow> id \<Rightarrow> time \<Rightarrow> unit play_call" where
  "enforce_issuance_rate cf up user now =
     (if \<not> up then fail_c OtherEx
      else
        bind_c (write_c (increment_window user now)) (\<lambda>_.
        bind_c (read_c (window_count user now)) (\<lambda>(n, _).
        require_c (n \<le> pl_per_hour cf) (app_error RATE_LIMITED))))"

definition slot_row :: "id \<Rightarrow> time \<Rightarrow> stage \<Rightarrow> slot_set option" where
  "slot_row user now s =
     (case find_by sl_user user (slots s) of
        None \<Rightarrow> None
      | Some r \<Rightarrow> (case sl_expires r of None \<Rightarrow> Some r | Some x \<Rightarrow> if x \<le> now then None else Some r))"

definition slot_members :: "id \<Rightarrow> time \<Rightarrow> stage \<Rightarrow> (id \<times> time) list" where
  "slot_members user now s = (case slot_row user now s of None \<Rightarrow> [] | Some r \<Rightarrow> sl_members r)"

definition slot_expiry :: "id \<Rightarrow> time \<Rightarrow> stage \<Rightarrow> time option" where
  "slot_expiry user now s = (case slot_row user now s of None \<Rightarrow> None | Some r \<Rightarrow> sl_expires r)"

text \<open>An empty set has no key.\<close>

definition put_slots :: "id \<Rightarrow> time option \<Rightarrow> (id \<times> time) list \<Rightarrow> stage \<Rightarrow> stage" where
  "put_slots user expires members s =
     s\<lparr>slots := (if members = [] then [] else [\<lparr>sl_user = user, sl_expires = expires, sl_members = members\<rparr>])
        @ filter (\<lambda>r. sl_user r \<noteq> user) (slots s)\<rparr>"

definition drop_lapsed_slots :: "play_config \<Rightarrow> id \<Rightarrow> time \<Rightarrow> stage \<Rightarrow> stage" where
  "drop_lapsed_slots cf user now s =
     put_slots user (slot_expiry user now s)
       (filter (\<lambda>m. \<not> (0 \<le> snd m \<and> snd m \<le> now - pl_grace cf * 1000)) (slot_members user now s)) s"

text \<open>The key expires four graces after the last acquisition; a sign of life does not extend it.\<close>

definition acquire_stream_slot :: "play_config \<Rightarrow> bool \<Rightarrow> id \<Rightarrow> id \<Rightarrow> time \<Rightarrow> unit play_call" where
  "acquire_stream_slot cf up user session now =
     (if \<not> up then ret_c ()
      else
        bind_c (write_c (drop_lapsed_slots cf user now)) (\<lambda>_.
        bind_c (read_c (slot_members user now)) (\<lambda>members.
        bind_c (require_c (length members < pl_max_streams cf \<or> session \<in> fst ` set members) (app_error CONCURRENT_STREAM_LIMIT)) (\<lambda>_.
        write_c (put_slots user (Some (now + pl_grace cf * 4 * 1000)) (AList.update session now members))))))"

definition touch_stream_slot :: "bool \<Rightarrow> id \<Rightarrow> id \<Rightarrow> time \<Rightarrow> unit play_call" where
  "touch_stream_slot up user session now =
     (if up then write_c (\<lambda>s. put_slots user (slot_expiry user now s) (AList.update session now (slot_members user now s)) s)
      else ret_c ())"

definition release_stream_slot :: "bool \<Rightarrow> id \<Rightarrow> id \<Rightarrow> time \<Rightarrow> unit play_call" where
  "release_stream_slot up user session now =
     (if up then write_c (\<lambda>s. put_slots user (slot_expiry user now s) (filter (\<lambda>m. fst m \<noteq> session) (slot_members user now s)) s)
      else ret_c ())"

section \<open>The allowance of plays\<close>

definition plays_of :: "id \<Rightarrow> id \<Rightarrow> db \<Rightarrow> play_row list" where
  "plays_of user video s = filter (\<lambda>p. vp_user p = user \<and> vp_video p = video) (plays s)"

fun latest_play :: "play_row list \<Rightarrow> play_row option" where
  "latest_play [] = None"
| "latest_play (p # ps) =
     (case latest_play ps of
        None \<Rightarrow> Some p
      | Some q \<Rightarrow> Some (if vp_attempt p < vp_attempt q then q else p))"

definition open_play :: "play_config \<Rightarrow> id \<Rightarrow> id \<Rightarrow> time \<Rightarrow> db \<Rightarrow> play_row option" where
  "open_play cf user video now s =
     latest_play (filter (\<lambda>p. vp_closed p = None \<and> now - pl_window cf * 1000 \<le> vp_activity p) (plays_of user video s))"

definition touch_play :: "id \<Rightarrow> time \<Rightarrow> db \<Rightarrow> db" where
  "touch_play i now s = s\<lparr>plays := upd_where (\<lambda>p. vp_id p = i) (\<lambda>p. p\<lparr>vp_activity := now\<rparr>) (plays s)\<rparr>"

definition close_plays :: "id \<Rightarrow> id \<Rightarrow> time \<Rightarrow> db \<Rightarrow> db" where
  "close_plays user video now s =
     s\<lparr>plays := upd_where (\<lambda>p. vp_user p = user \<and> vp_video p = video \<and> vp_closed p = None)
       (\<lambda>p. p\<lparr>vp_closed := Some now\<rparr>) (plays s)\<rparr>"

definition counts :: "play_config \<Rightarrow> play_row \<Rightarrow> bool" where
  "counts cf p \<longleftrightarrow> vp_closed p = None \<or> pl_min_counted cf \<le> vp_watched p"

definition counted_plays :: "play_config \<Rightarrow> id \<Rightarrow> id \<Rightarrow> db \<Rightarrow> nat" where
  "counted_plays cf user video s = length (filter (counts cf) (plays_of user video s))"

definition highest_attempt :: "id \<Rightarrow> id \<Rightarrow> db \<Rightarrow> nat" where
  "highest_attempt user video s = Max (insert 0 (vp_attempt ` set (plays_of user video s)))"

definition new_play :: "id \<Rightarrow> id \<Rightarrow> nat \<Rightarrow> time \<Rightarrow> id \<Rightarrow> play_row" where
  "new_play user video n now i =
     \<lparr>vp_id = i, vp_user = user, vp_video = video, vp_attempt = n, vp_started = now, vp_activity = now, vp_watched = 0,
      vp_closed = None\<rparr>"

text \<open>The unique index on student, video and attempt: a row, or nothing when the number is taken.\<close>

definition create_play :: "id \<Rightarrow> id \<Rightarrow> nat \<Rightarrow> time \<Rightarrow> (db, exn, play_row option) call" where
  "create_play user video n now s =
     (if list_ex (\<lambda>p. vp_attempt p = n) (plays_of user video s) then (Inr None, s)
      else (Inr (Some (new_play user video n now (db_next s))),
            s\<lparr>db_next := Suc (db_next s), plays := plays s @ [new_play user video n now (db_next s)]\<rparr>))"

text \<open>What other requests commit between the statements of one attempt.\<close>

record claim_gaps =
  cg_now :: time
  cg_close :: "db \<Rightarrow> db"
  cg_count :: "db \<Rightarrow> db"
  cg_highest :: "db \<Rightarrow> db"
  cg_create :: "db \<Rightarrow> db"

definition no_gaps :: "time \<Rightarrow> claim_gaps" where
  "no_gaps now = \<lparr>cg_now = now, cg_close = (\<lambda>s. s), cg_count = (\<lambda>s. s), cg_highest = (\<lambda>s. s), cg_create = (\<lambda>s. s)\<rparr>"

text \<open>One attempt: a play, or nothing when the race for its number was lost.\<close>

definition claim_once :: "play_config \<Rightarrow> id \<Rightarrow> id \<Rightarrow> claim_gaps \<Rightarrow> (db, exn, play_row option) call" where
  "claim_once cf user video g =
     bind_c (read_c (open_play cf user video (cg_now g))) (\<lambda>found.
     case found of
       Some p \<Rightarrow> bind_c (write_c (touch_play (vp_id p) (cg_now g))) (\<lambda>_. ret_c (Some p))
     | None \<Rightarrow>
         bind_c (write_c (\<lambda>s. close_plays user video (cg_now g) (cg_close g s))) (\<lambda>_.
         bind_c (write_c (cg_count g)) (\<lambda>_.
         bind_c (read_c (counted_plays cf user video)) (\<lambda>used.
         bind_c (require_c (used < pl_max_plays cf) (app_error VIDEO_WATCH_LIMIT_REACHED)) (\<lambda>_.
         bind_c (write_c (cg_highest g)) (\<lambda>_.
         bind_c (read_c (highest_attempt user video)) (\<lambda>n.
         bind_c (write_c (cg_create g)) (\<lambda>_.
         create_play user video (Suc n) (cg_now g)))))))))"

text \<open>
  The loser of the race starts again. The list holds the disturbed attempts; the one after them runs
  alone, and then the race cannot be lost (\<open>undisturbed_claim\<close>): the last exception is not reached.
\<close>

fun claim_play :: "play_config \<Rightarrow> id \<Rightarrow> id \<Rightarrow> claim_gaps list \<Rightarrow> time \<Rightarrow> play_row db_call" where
  "claim_play cf user video [] now =
     bind_c (claim_once cf user video (no_gaps now)) (\<lambda>r. case r of Some p \<Rightarrow> ret_c p | None \<Rightarrow> fail_c OtherEx)"
| "claim_play cf user video (g # gs) now =
     bind_c (claim_once cf user video g) (\<lambda>r. case r of Some p \<Rightarrow> ret_c p | None \<Rightarrow> claim_play cf user video gs now)"

definition play_allowance :: "play_config \<Rightarrow> id \<Rightarrow> id \<Rightarrow> db \<Rightarrow> nat \<times> nat \<times> nat" where
  "play_allowance cf user video s =
     (let used = counted_plays cf user video s in (used, pl_max_plays cf, pl_max_plays cf - used))"

section \<open>The lecture a video is played as\<close>

definition authorize_lesson :: "principal \<Rightarrow> lesson_row \<Rightarrow> time \<Rightarrow> db \<Rightarrow> exn + unit" where
  "authorize_lesson p l now s =
     (let sec = find_by s_id (ls_section l) (sections s); student = (pr_role p = R_STUDENT) in
      bind_r (require (student \<longrightarrow> ls_status l = CT_PUBLISHED \<and> holds_some (\<lambda>x. s_status x = CT_PUBLISHED) sec)
        (app_error VIDEO_UNAVAILABLE)) (\<lambda>_.
      bind_r (assert_content_access (pr_user p) (pr_role p) (ls_course l) True (ls_preview l) now s) (\<lambda>_.
      bind_r (if student \<and> \<not> ls_preview l then assert_section_accessible (pr_user p) (ls_course l) (ls_section l) s else Inr ()) (\<lambda>_.
      require (\<not> (holds_some (\<lambda>x. holds_some (\<lambda>u. now < u) (s_unlocks_at x)) sec \<and> \<not> ls_preview l \<and> student))
        (app_error PLAYBACK_DENIED)))))"

text \<open>The live lectures of a video, the oldest attachment first.\<close>

definition video_lessons :: "id \<Rightarrow> db \<Rightarrow> lesson_row list" where
  "video_lessons video s =
     filter (\<lambda>l. ls_deleted_at l = None)
       (List.map_filter (\<lambda>x. find_by ls_id (lv_lesson x) (lessons s))
         (sort_key lv_created (filter (\<lambda>x. lv_video x = video) (lesson_videos s))))"

definition full_access :: "principal \<Rightarrow> time \<Rightarrow> db \<Rightarrow> id \<Rightarrow> bool" where
  "full_access p now s course =
     (case resolve (Some (pr_user p)) (Some (pr_role p)) course now s of Inl _ \<Rightarrow> False | Inr d \<Rightarrow> ad_can d)"

definition order_shared_candidates :: "('l \<Rightarrow> bool) \<Rightarrow> ('l \<Rightarrow> bool) \<Rightarrow> 'l list \<Rightarrow> 'l list" where
  "order_shared_candidates origin full candidates =
     (let first = filter origin candidates @ filter (\<lambda>c. \<not> origin c) candidates in
      filter full first @ filter (\<lambda>c. \<not> full c) first)"

definition authorized :: "principal \<Rightarrow> time \<Rightarrow> db \<Rightarrow> lesson_row \<Rightarrow> bool" where
  "authorized p now s l \<longleftrightarrow> (case authorize_lesson p l now s of Inl _ \<Rightarrow> False | Inr _ \<Rightarrow> True)"

definition choose_lesson :: "principal \<Rightarrow> video_row \<Rightarrow> id option \<Rightarrow> time \<Rightarrow> db \<Rightarrow> exn + lesson_row" where
  "choose_lesson p v named now s =
     (let atts = video_lessons (vd_id v) s in
      if atts = [] then Inl (app_error VIDEO_UNAVAILABLE)
      else case named of
        Some i \<Rightarrow>
          (case find_by ls_id i atts of
             None \<Rightarrow> Inl (app_error PLAYBACK_DENIED)
           | Some l \<Rightarrow> bind_r (authorize_lesson p l now s) (\<lambda>_. Inr l))
      | None \<Rightarrow>
          if length atts = 1 then bind_r (authorize_lesson p (hd atts) now s) (\<lambda>_. Inr (hd atts))
          else
            (let ordered = order_shared_candidates (\<lambda>l. Some (ls_id l) = vd_lesson v) (\<lambda>l. full_access p now s (ls_course l)) atts in
             case List.find (authorized p now s) ordered of
               Some l \<Rightarrow> Inr l
             | None \<Rightarrow> bind_r (authorize_lesson p (hd ordered) now s) (\<lambda>_. Inr (hd ordered))))"

definition playable_video :: "id \<Rightarrow> db \<Rightarrow> exn + video_row" where
  "playable_video video s =
     (case find_by vd_id video (videos s) of
        None \<Rightarrow> Inl (app_error VIDEO_UNAVAILABLE)
      | Some v \<Rightarrow>
          if vd_deleted_at v \<noteq> None then Inl (app_error VIDEO_UNAVAILABLE)
          else if vd_status v \<in> {VS_PROCESSING, VS_QUEUED, VS_UPLOADING} then Inl (app_error VIDEO_NOT_READY)
          else if vd_status v = VS_FAILED then Inl (app_error VIDEO_PROCESSING_FAILED)
          else if vd_status v \<noteq> VS_READY then Inl (app_error VIDEO_UNAVAILABLE)
          else Inr v)"

section \<open>Minting\<close>

definition assert_strict_drm_gate :: "play_config \<Rightarrow> bool \<Rightarrow> video_row \<Rightarrow> exn + unit" where
  "assert_strict_drm_gate cf verified v =
     (if \<not> pl_drm cf then Inl (app_error PLAYBACK_DENIED)
      else if verified then Inr ()
      else if vd_gumlet_status v \<in> Some ` {''processing'', ''queued'', ''pre-queued'', ''upload-pending''}
      then Inl (app_error VIDEO_NOT_READY)
      else Inl (app_error VIDEO_UNAVAILABLE))"

record grant_request =
  gq_lesson :: id
  gq_course :: id
  gq_device :: "id option"
  gq_rotated :: "id option"
  gq_play :: "id option"

definition start_position :: "id \<Rightarrow> id \<Rightarrow> db \<Rightarrow> int" where
  "start_position user lesson s =
     (case List.find (\<lambda>w. wp_user w = user \<and> wp_lesson w = lesson) (progress s) of
        None \<Rightarrow> 0
      | Some w \<Rightarrow> if wp_completed w then 0 else wp_position w)"

definition new_ticket :: "play_config \<Rightarrow> principal \<Rightarrow> id \<Rightarrow> grant_request \<Rightarrow> time \<Rightarrow> db \<Rightarrow> ticket_row" where
  "new_ticket cf p video q now s =
     \<lparr>tk_id = db_next s, tk_user = pr_user p, tk_video = video, tk_lesson = gq_lesson q, tk_course = gq_course q,
      tk_session = Some (pr_session p), tk_device = gq_device q, tk_play = gq_play q, tk_status = TS_ACTIVE, tk_issued = now,
      tk_expires = now + pl_ttl cf * 1000, tk_heartbeat = now, tk_start = start_position (pr_user p) (gq_lesson q) s,
      tk_position = start_position (pr_user p) (gq_lesson q) s, tk_watched = 0, tk_captures = 0, tk_rotated_from = gq_rotated q,
      tk_released_at = None, tk_revoked_at = None, tk_revoked_reason = None\<rparr>"

definition insert_ticket :: "ticket_row \<Rightarrow> db \<Rightarrow> db" where
  "insert_ticket t s = s\<lparr>db_next := Suc (db_next s), tickets := tickets s @ [t]\<rparr>"

text \<open>The gate comes first: nothing is written for a video it refuses.\<close>

definition mint_ticket :: "play_config \<Rightarrow> bool \<Rightarrow> principal \<Rightarrow> video_row \<Rightarrow> grant_request \<Rightarrow> time \<Rightarrow> ticket_row db_call" where
  "mint_ticket cf verified p v q now =
     bind_c (lift_c (assert_strict_drm_gate cf verified v)) (\<lambda>_.
     bind_c (read_c (\<lambda>s. find_by u_id (pr_user p) (users s))) (\<lambda>u.
     bind_c (require_c (u \<noteq> None) (PrismaKnown ''P2025'' [])) (\<lambda>_.
     bind_c (read_c (new_ticket cf p (vd_id v) q now)) (\<lambda>t.
     bind_c (write_c (insert_ticket t)) (\<lambda>_.
     ret_c t)))))"

section \<open>Issuing\<close>

record play_request =
  iq_video :: id
  iq_lesson :: "id option"
  iq_suspect :: bool

text \<open>The world of one request: the clock, Redis, the DRM verdict and the disturbed attempts to claim a play.\<close>

record play_world =
  pw_now :: time
  pw_redis :: bool
  pw_drm :: bool
  pw_gaps :: "claim_gaps list"

definition issue_ticket :: "play_config \<Rightarrow> device_config \<Rightarrow> play_world \<Rightarrow> principal \<Rightarrow> play_request \<Rightarrow> ticket_row play_call" where
  "issue_ticket cf dcf w p q =
     bind_c (enforce_issuance_rate cf (pw_redis w) (pr_user p) (pw_now w)) (\<lambda>_.
     bind_c (of_db (playable_video (iq_video q))) (\<lambda>found.
     bind_c (lift_c found) (\<lambda>v.
     bind_c (of_db (choose_lesson p v (iq_lesson q) (pw_now w))) (\<lambda>chosen.
     bind_c (lift_c chosen) (\<lambda>l.
     bind_c (of_db (assert_device_authorized dcf (pr_user p) (pr_role p) (pr_key p) (pr_device p) (iq_suspect q))) (\<lambda>dev.
     bind_c (lift_c dev) (\<lambda>device.
     bind_c (acquire_stream_slot cf (pw_redis w) (pr_user p) (pr_session p) (pw_now w)) (\<lambda>_.
     bind_c (if pr_role p = R_STUDENT \<and> \<not> ls_preview l
             then bind_c (in_db (claim_play cf (pr_user p) (iq_video q) (pw_gaps w) (pw_now w))) (\<lambda>x. ret_c (Some (vp_id x)))
             else ret_c None) (\<lambda>play.
     in_db (mint_ticket cf (pw_drm w) p v
       \<lparr>gq_lesson = ls_id l, gq_course = ls_course l, gq_device = device, gq_rotated = None, gq_play = play\<rparr> (pw_now w)))))))))))"

section \<open>The heartbeat\<close>

datatype stop_reason = StopText string | StopCode error_code

datatype beat_answer = BeatOk | BeatRotated ticket_row | BeatStop stop_reason

record beat =
  bt_ticket :: id
  bt_position :: int
  bt_delta :: int
  bt_capture :: bool

definition set_ticket :: "id \<Rightarrow> (ticket_row \<Rightarrow> ticket_row) \<Rightarrow> db \<Rightarrow> db" where
  "set_ticket i f s = s\<lparr>tickets := upd_where (\<lambda>t. tk_id t = i) f (tickets s)\<rparr>"

definition revoked_ticket :: "string \<Rightarrow> time \<Rightarrow> ticket_row \<Rightarrow> ticket_row" where
  "revoked_ticket why now t = t\<lparr>tk_status := TS_REVOKED, tk_revoked_at := Some now, tk_revoked_reason := Some why\<rparr>"

definition released_ticket :: "time \<Rightarrow> ticket_row \<Rightarrow> ticket_row" where
  "released_ticket now t = t\<lparr>tk_status := TS_RELEASED, tk_released_at := Some now\<rparr>"

definition revoke_ticket :: "id \<Rightarrow> string \<Rightarrow> time \<Rightarrow> db \<Rightarrow> db" where
  "revoke_ticket i why now = set_ticket i (revoked_ticket why now)"

definition own_ticket :: "id \<Rightarrow> id \<Rightarrow> db \<Rightarrow> ticket_row option" where
  "own_ticket i user s = List.find (\<lambda>t. tk_id t = i \<and> tk_user t = user) (tickets s)"

definition stop_playback :: "play_world \<Rightarrow> principal \<Rightarrow> id \<Rightarrow> string \<Rightarrow> stop_reason \<Rightarrow> beat_answer play_call" where
  "stop_playback w p i why reason =
     bind_c (on_db (revoke_ticket i why (pw_now w))) (\<lambda>_.
     bind_c (release_stream_slot (pw_redis w) (pr_user p) (pr_session p) (pw_now w)) (\<lambda>_.
     ret_c (BeatStop reason)))"

definition is_app :: "exn \<Rightarrow> bool" where
  "is_app e \<longleftrightarrow> (case e of AppEx _ _ \<Rightarrow> True | _ \<Rightarrow> False)"

text \<open>What a beat writes: the position on the ticket, the seconds on the play.\<close>

definition beat_ticket :: "int \<Rightarrow> int \<Rightarrow> time \<Rightarrow> ticket_row \<Rightarrow> ticket_row" where
  "beat_ticket position delta now t = t\<lparr>tk_heartbeat := now, tk_position := position, tk_watched := tk_watched t + delta\<rparr>"

definition beat_delta :: "beat \<Rightarrow> int" where
  "beat_delta b = max 0 (min (bt_delta b) 600)"

definition beat_play :: "id option \<Rightarrow> int \<Rightarrow> time \<Rightarrow> db \<Rightarrow> db" where
  "beat_play play delta now s =
     (case play of
        None \<Rightarrow> s
      | Some i \<Rightarrow> s\<lparr>plays := upd_where (\<lambda>x. vp_id x = i) (\<lambda>x. x\<lparr>vp_activity := now, vp_watched := vp_watched x + delta\<rparr>) (plays s)\<rparr>)"

text \<open>
  The rotation: the device again, the gate again, then the old ticket goes and a new one of the same
  play and lecture is minted. \<open>gap\<close> is what others commit after the ticket was read.
\<close>

definition rotate_ticket :: "play_config \<Rightarrow> device_config \<Rightarrow> play_world \<Rightarrow> principal \<Rightarrow> ticket_row \<Rightarrow> video_row \<Rightarrow> beat_answer play_call" where
  "rotate_ticket cf dcf w p t v =
     bind_c (of_db (assert_device_authorized dcf (pr_user p) (pr_role p) (pr_key p) (pr_device p) False)) (\<lambda>dev.
     if pr_role p = R_STUDENT \<and> \<not> (case dev of Inl _ \<Rightarrow> False | Inr d \<Rightarrow> d \<noteq> None \<and> (tk_device t = None \<or> d = tk_device t))
     then stop_playback w p (tk_id t) ''Device not authorized for this playback grant'' (StopCode DEVICE_NOT_AUTHORIZED)
     else
       bind_c (lift_c (assert_strict_drm_gate cf (pw_drm w) v)) (\<lambda>_.
       bind_c (on_db (set_ticket (tk_id t) (released_ticket (pw_now w)))) (\<lambda>_.
       bind_c (in_db (mint_ticket cf (pw_drm w) p v
         \<lparr>gq_lesson = tk_lesson t, gq_course = tk_course t, gq_device = tk_device t, gq_rotated = Some (tk_id t), gq_play = tk_play t\<rparr>
         (pw_now w))) (\<lambda>n.
       ret_c (BeatRotated n)))))"

definition reauthorize :: "principal \<Rightarrow> ticket_row \<Rightarrow> time \<Rightarrow> db \<Rightarrow> exn + (string \<times> stop_reason) option" where
  "reauthorize p t now s =
     bind_r (resolve (Some (pr_user p)) (Some (pr_role p)) (tk_course t) now s) (\<lambda>d.
     if \<not> ad_can d
     then Inr (Some (''Access lost mid-playback'', StopCode (case ad_denial d of Some c \<Rightarrow> c | None \<Rightarrow> PLAYBACK_DENIED)))
     else case find_by ls_id (tk_lesson t) (lessons s) of
       None \<Rightarrow> Inr None
     | Some l \<Rightarrow>
         if pr_role p = R_STUDENT \<and> \<not> ls_preview l
         then case assert_section_accessible (pr_user p) (tk_course t) (ls_section l) s of
                Inr _ \<Rightarrow> Inr None
              | Inl e \<Rightarrow> if is_app e then Inr (Some (''Section access lost mid-playback'', StopCode NOT_ENROLLED)) else Inl e
         else Inr None)"

text \<open>A beat on the ticket it names.\<close>

definition beat_on ::
  "play_config \<Rightarrow> device_config \<Rightarrow> play_world \<Rightarrow> (db \<Rightarrow> db) \<Rightarrow> principal \<Rightarrow> beat \<Rightarrow> ticket_row \<Rightarrow> beat_answer play_call" where
  "beat_on cf dcf w gap p b t =
     (if tk_status t = TS_REVOKED
      then bind_c (release_stream_slot (pw_redis w) (pr_user p) (pr_session p) (pw_now w)) (\<lambda>_.
           ret_c (BeatStop (StopText (case tk_revoked_reason t of Some r \<Rightarrow> r | None \<Rightarrow> ''Playback authorization revoked''))))
      else if tk_status t = TS_RELEASED then ret_c (BeatStop (StopText ''Playback session already ended''))
      else if tk_status t = TS_EXPIRED \<or> tk_expires t + pl_interval cf * 2 * 1000 < pw_now w
      then bind_c (release_stream_slot (pw_redis w) (pr_user p) (pr_session p) (pw_now w)) (\<lambda>_.
           ret_c (BeatStop (StopCode PLAYBACK_TICKET_EXPIRED)))
      else if bt_capture b
      then stop_playback w p (tk_id t) ''Capture surface active during playback'' (StopText ''CAPTURE_DETECTED'')
      else
        bind_c (of_db (reauthorize p t (pw_now w))) (\<lambda>checked.
        bind_c (lift_c checked) (\<lambda>lost.
        case lost of
          Some (why, reason) \<Rightarrow> stop_playback w p (tk_id t) why reason
        | None \<Rightarrow>
            bind_c (on_db gap) (\<lambda>_.
            bind_c (on_db (set_ticket (tk_id t) (beat_ticket (max 0 (bt_position b)) (beat_delta b) (pw_now w)))) (\<lambda>_.
            bind_c (touch_stream_slot (pw_redis w) (pr_user p) (pr_session p) (pw_now w)) (\<lambda>_.
            bind_c (on_db (beat_play (tk_play t) (beat_delta b) (pw_now w))) (\<lambda>_.
            if tk_expires t - pw_now w < pl_interval cf * 2 * 1000
            then bind_c (of_db (\<lambda>s. find_by vd_id (tk_video t) (videos s))) (\<lambda>v.
                 bind_c (the_c OtherEx v) (\<lambda>video. rotate_ticket cf dcf w p t video))
            else ret_c BeatOk)))))))"

definition heartbeat ::
  "play_config \<Rightarrow> device_config \<Rightarrow> play_world \<Rightarrow> (db \<Rightarrow> db) \<Rightarrow> principal \<Rightarrow> beat \<Rightarrow> beat_answer play_call" where
  "heartbeat cf dcf w gap p b =
     bind_c (of_db (own_ticket (bt_ticket b) (pr_user p))) (\<lambda>found.
     case found of
       None \<Rightarrow> fail_c (app_error PLAYBACK_TICKET_EXPIRED)
     | Some t \<Rightarrow> beat_on cf dcf w gap p b t)"

section \<open>Release, revocation, maintenance\<close>

definition release :: "play_world \<Rightarrow> principal \<Rightarrow> id \<Rightarrow> unit play_call" where
  "release w p i =
     bind_c (of_db (own_ticket i (pr_user p))) (\<lambda>found.
     case found of
       None \<Rightarrow> ret_c ()
     | Some t \<Rightarrow>
         bind_c (if tk_status t = TS_ACTIVE then on_db (set_ticket i (released_ticket (pw_now w))) else ret_c ()) (\<lambda>_.
         bind_c (release_stream_slot (pw_redis w) (pr_user p) (pr_session p) (pw_now w)) (\<lambda>_.
         on_db (beat_play (tk_play t) 0 (pw_now w)))))"

definition revoke_all_tickets :: "id \<Rightarrow> string \<Rightarrow> time \<Rightarrow> bool \<Rightarrow> stage \<Rightarrow> nat \<times> stage" where
  "revoke_all_tickets user why now up s =
     (count_where (\<lambda>t. tk_user t = user \<and> tk_status t = TS_ACTIVE) (tickets (live s)),
      s\<lparr>live := end_tickets (\<lambda>t. tk_user t = user) now why (live s),
        slots := (if up then filter (\<lambda>r. sl_user r \<noteq> user) (slots s) else slots s)\<rparr>)"

definition is_capture :: "string \<Rightarrow> bool" where
  "is_capture threat \<longleftrightarrow> threat \<in> {''SCREENSHOT'', ''RECORDING_STARTED'', ''EXTERNAL_DISPLAY''}"

fun newest_ticket :: "ticket_row list \<Rightarrow> ticket_row option" where
  "newest_ticket [] = None"
| "newest_ticket (t # ts) =
     (case newest_ticket ts of None \<Rightarrow> Some t | Some u \<Rightarrow> Some (if tk_issued t < tk_issued u then u else t))"

text \<open>Whether the report stopped the playback.\<close>

definition record_security_event :: "play_config \<Rightarrow> play_world \<Rightarrow> principal \<Rightarrow> string \<Rightarrow> id option \<Rightarrow> id option \<Rightarrow> bool play_call" where
  "record_security_event cf w p threat video ticket =
     (if \<not> is_capture threat then ret_c False
      else
        bind_c (of_db (\<lambda>s. case ticket of
            Some i \<Rightarrow> own_ticket i (pr_user p) s
          | None \<Rightarrow> newest_ticket (filter (\<lambda>t. tk_user t = pr_user p \<and> tk_status t = TS_ACTIVE
              \<and> (case video of None \<Rightarrow> True | Some v \<Rightarrow> tk_video t = v)) (tickets s)))) (\<lambda>found.
        case found of
          None \<Rightarrow> ret_c False
        | Some t \<Rightarrow>
            bind_c (on_db (set_ticket (tk_id t) (\<lambda>x. x\<lparr>tk_captures := tk_captures t + 1\<rparr>))) (\<lambda>_.
            if pl_strikes cf \<le> tk_captures t + 1
            then bind_c (on_db (revoke_ticket (tk_id t) ''Capture attempts in one playback session'' (pw_now w))) (\<lambda>_.
                 bind_c (release_stream_slot (pw_redis w) (pr_user p) (pr_session p) (pw_now w)) (\<lambda>_. ret_c True))
            else ret_c False)))"

definition expire_lapsed_tickets :: "time \<Rightarrow> db \<Rightarrow> nat \<times> db" where
  "expire_lapsed_tickets now s =
     (count_where (\<lambda>t. tk_status t = TS_ACTIVE \<and> tk_expires t \<le> now) (tickets s),
      s\<lparr>tickets := upd_where (\<lambda>t. tk_status t = TS_ACTIVE \<and> tk_expires t \<le> now) (\<lambda>t. t\<lparr>tk_status := TS_EXPIRED\<rparr>) (tickets s)\<rparr>)"

definition reclaim_one :: "play_world \<Rightarrow> ticket_row \<Rightarrow> unit play_call" where
  "reclaim_one w t =
     bind_c (on_db (set_ticket (tk_id t) (\<lambda>x. x\<lparr>tk_status := TS_EXPIRED, tk_revoked_reason := Some ''Heartbeat stopped''\<rparr>))) (\<lambda>_.
     case tk_session t of
       None \<Rightarrow> ret_c ()
     | Some i \<Rightarrow> release_stream_slot (pw_redis w) (tk_user t) i (pw_now w))"

fun each_c :: "('a \<Rightarrow> ('s, 'e, unit) call) \<Rightarrow> 'a list \<Rightarrow> ('s, 'e, unit) call" where
  "each_c f [] = ret_c ()"
| "each_c f (x # xs) = bind_c (f x) (\<lambda>_. each_c f xs)"

definition reclaim_stale_slots :: "play_config \<Rightarrow> play_world \<Rightarrow> nat play_call" where
  "reclaim_stale_slots cf w =
     bind_c (of_db (\<lambda>s. take 500 (filter (\<lambda>t. tk_status t = TS_ACTIVE \<and> tk_heartbeat t < pw_now w - pl_grace cf * 1000) (tickets s)))) (\<lambda>stale.
     bind_c (each_c (reclaim_one w) stale) (\<lambda>_.
     ret_c (length stale)))"

end
