(* ===== verification/MediaGate.thy ===== *)
theory MediaGate
  imports Playback Library
begin

text \<open>
  The liveness of signed media addresses: what the edge asks on every range request
  (\<open>ticketLiveness\<close>, \<open>edgeTicketState\<close> in \<open>playback.service.ts\<close>), beside the two services that issue
  document tickets (\<open>library-documents.service.ts\<close>, \<open>attachments.service.ts\<close>). A ticket id carries its
  kind as a prefix, here a constructor; the address itself is signed by the storage and left out.
\<close>

section \<open>Tickets and probes\<close>

datatype media_ticket = VideoTicket id | OwnedDocument id | PreviewDocument id | AttachedDocument id

text \<open>An identifier of a probe: not sent, sent but not of the shape of an identifier, or an identifier.\<close>

datatype probe_id = Absent | Unclean | Clean id

record probe =
  pb_user :: "id option"
  pb_session :: probe_id
  pb_device :: probe_id

record media_config =
  mc_play :: play_config
  mc_enforce :: bool
  mc_storefront :: bool

definition clean_probe_id :: "probe_id \<Rightarrow> id option" where
  "clean_probe_id x = (case x of Clean i \<Rightarrow> Some i | _ \<Rightarrow> None)"

definition live_account :: "id \<Rightarrow> db \<Rightarrow> bool" where
  "live_account user s \<longleftrightarrow> holds_some (\<lambda>u. \<not> account_barred u) (find_by u_id user (users s))"

definition live_library_session :: "probe_id \<Rightarrow> id \<Rightarrow> time \<Rightarrow> db \<Rightarrow> session_row option" where
  "live_library_session sid user now s =
     (case clean_probe_id sid of
        None \<Rightarrow> None
      | Some i \<Rightarrow> List.find (\<lambda>x. ss_id x = i \<and> ss_user x = user \<and> ss_status x = SS_ACTIVE \<and> now < ss_expires x
          \<and> live_account user s) (sessions s))"

section \<open>Video\<close>

definition video_ticket_live :: "play_config \<Rightarrow> id \<Rightarrow> id \<Rightarrow> time \<Rightarrow> db \<Rightarrow> bool" where
  "video_ticket_live cf i user now s =
     (case own_ticket i user s of
        None \<Rightarrow> False
      | Some t \<Rightarrow>
          tk_status t = TS_ACTIVE \<and> now < tk_expires t
          \<and> (case Option.bind (tk_session t) (\<lambda>j. find_by ss_id j (sessions s)) of None \<Rightarrow> True | Some x \<Rightarrow> ss_status x = SS_ACTIVE)
          \<and> (case Option.bind (tk_device t) (\<lambda>j. find_by dv_id j (devices s)) of None \<Rightarrow> True | Some d \<Rightarrow> dv_status d = DV_ACTIVE)
          \<and> now - tk_heartbeat t \<le> (pl_grace cf + pl_interval cf) * 1000)"

section \<open>Library documents\<close>

definition part_entitlement :: "id \<Rightarrow> id \<Rightarrow> db \<Rightarrow> lib_entitlement_row option" where
  "part_entitlement user part s = List.find (\<lambda>e. le_user e = user \<and> le_part e = part) (lib_entitlements s)"

definition withdrawn :: "lib_part_row \<Rightarrow> db \<Rightarrow> bool" where
  "withdrawn x s \<longleftrightarrow> lp_status x = CT_ARCHIVED
     \<or> \<not> holds_some (\<lambda>m. lm_deleted_at m = None \<and> lm_status m \<noteq> CT_ARCHIVED) (find_material (lp_material x) s)"

definition some_session :: "id \<Rightarrow> db \<Rightarrow> bool" where
  "some_session user s \<longleftrightarrow> list_ex (\<lambda>x. ss_user x = user \<and> ss_status x = SS_ACTIVE) (sessions s)"

definition library_ticket_live :: "id \<Rightarrow> id \<Rightarrow> probe_id \<Rightarrow> probe_id \<Rightarrow> bool \<Rightarrow> time \<Rightarrow> db \<Rightarrow> bool" where
  "library_ticket_live part user sid did legacy now s =
     (case find_lib_part part s of
        None \<Rightarrow> False
      | Some x \<Rightarrow>
          \<not> withdrawn x s
          \<and> holds_some (\<lambda>e. le_revoked_at e = None) (part_entitlement user part s)
          \<and> (if legacy then some_session user s \<and> (lp_preview x \<or> 0 < active_devices user s)
             else case live_library_session sid user now s of
               None \<Rightarrow> False
             | Some y \<Rightarrow>
                 lp_preview x
                 \<or> (case clean_probe_id did of
                      None \<Rightarrow> False
                    | Some d \<Rightarrow> (ss_device y = None \<or> ss_device y = Some d)
                        \<and> list_ex (\<lambda>v. dv_id v = d \<and> dv_user v = user \<and> dv_status v = DV_ACTIVE) (devices s))))"

text \<open>Published, and the student of the academic audience of the material.\<close>

definition material_in_scope :: "id \<Rightarrow> lib_part_row \<Rightarrow> db \<Rightarrow> bool" where
  "material_in_scope user x s \<longleftrightarrow>
     holds_some (\<lambda>m. published_material m \<and> is_academically_visible (load_student_scope user s) (to_audience m))
       (find_material (lp_material x) s)"

definition published_part :: "lib_part_row \<Rightarrow> bool" where
  "published_part x \<longleftrightarrow> is_published (lp_status x) (lp_active x) (lp_deleted_at x)"

definition preview_ticket_live :: "bool \<Rightarrow> id \<Rightarrow> id \<Rightarrow> probe_id \<Rightarrow> bool \<Rightarrow> time \<Rightarrow> db \<Rightarrow> bool" where
  "preview_ticket_live storefront part user sid legacy now s =
     (storefront \<and>
      (case find_lib_part part s of
         None \<Rightarrow> False
       | Some x \<Rightarrow>
           lp_preview x \<and> published_part x \<and> material_in_scope user x s
           \<and> (if legacy then some_session user s else live_library_session sid user now s \<noteq> None)))"

section \<open>Attached documents\<close>

definition find_attachment :: "id \<Rightarrow> db \<Rightarrow> attachment_row option" where
  "find_attachment i s = List.find (\<lambda>a. at_id a = i \<and> at_deleted_at a = None) (attachments s)"

definition attachment_lesson :: "attachment_row \<Rightarrow> db \<Rightarrow> lesson_row option" where
  "attachment_lesson a s = Option.bind (at_lesson a) (\<lambda>i. find_by ls_id i (lessons s))"

definition section_status :: "id \<Rightarrow> db \<Rightarrow> content_status option" where
  "section_status i s = map_option s_status (find_by s_id i (sections s))"

text \<open>A document on a section reads that section's status over its lecture's.\<close>

definition attachment_published :: "attachment_row \<Rightarrow> db \<Rightarrow> bool" where
  "attachment_published a s =
     (let lesson = attachment_lesson a s;
          sec = (case at_section a of
                   Some i \<Rightarrow> section_status i s
                 | None \<Rightarrow> Option.bind lesson (\<lambda>l. section_status (ls_section l) s)) in
      (case lesson of None \<Rightarrow> True | Some l \<Rightarrow> ls_status l = CT_PUBLISHED)
      \<and> (case sec of None \<Rightarrow> True | Some st \<Rightarrow> st = CT_PUBLISHED))"

definition attachment_scope :: "attachment_row \<Rightarrow> db \<Rightarrow> id option" where
  "attachment_scope a s =
     (case at_section a of Some i \<Rightarrow> Some i | None \<Rightarrow> map_option ls_section (attachment_lesson a s))"

text \<open>An access lookup that throws makes the probe throw; the edge takes anything but a clear yes as dead.\<close>

definition attachment_ticket_live :: "id \<Rightarrow> id \<Rightarrow> time \<Rightarrow> db \<Rightarrow> exn + bool" where
  "attachment_ticket_live i user now s =
     (case find_attachment i s of
        None \<Rightarrow> Inr False
      | Some a \<Rightarrow>
          if \<not> attachment_published a s then Inr False
          else
            bind_r (if at_preview a then Inr True
                    else bind_r (resolve (Some user) (Some R_STUDENT) (at_course a) now s) (\<lambda>d.
                         if \<not> ad_can d then Inr False
                         else case attachment_scope a s of
                           None \<Rightarrow> Inr True
                         | Some sec \<Rightarrow>
                             bind_r (allowed_section_ids user (at_course a) s) (\<lambda>allowed.
                             Inr (case allowed of None \<Rightarrow> True | Some ids \<Rightarrow> sec \<in> set ids)))) (\<lambda>entitled.
            Inr (entitled \<and> some_session user s \<and> (at_protected a \<longrightarrow> 0 < active_devices user s))))"

section \<open>The probe\<close>

definition ticket_liveness :: "media_config \<Rightarrow> media_ticket \<Rightarrow> id option \<Rightarrow> probe_id \<Rightarrow> probe_id \<Rightarrow> bool \<Rightarrow> time \<Rightarrow> db \<Rightarrow> exn + bool" where
  "ticket_liveness cf t uid sid did legacy now s =
     (case uid of
        None \<Rightarrow> Inr False
      | Some user \<Rightarrow>
          (case t of
             PreviewDocument part \<Rightarrow> Inr (preview_ticket_live (mc_storefront cf) part user sid legacy now s)
           | OwnedDocument part \<Rightarrow> Inr (library_ticket_live part user sid did legacy now s)
           | AttachedDocument i \<Rightarrow> attachment_ticket_live i user now s
           | VideoTicket i \<Rightarrow> Inr (video_ticket_live (mc_play cf) i user now s)))"

definition edge_ticket_state :: "media_config \<Rightarrow> bool \<Rightarrow> media_ticket \<Rightarrow> probe \<Rightarrow> time \<Rightarrow> db \<Rightarrow> exn + bool" where
  "edge_ticket_state cf authenticated t q now s =
     (if mc_enforce cf \<and> \<not> authenticated then Inl (app_error UNAUTHORIZED)
      else ticket_liveness cf t (pb_user q) (pb_session q) (pb_device q)
        (\<not> authenticated \<and> \<not> mc_enforce cf \<and> pb_session q = Absent \<and> pb_device q = Absent) now s)"

section \<open>Issuing document tickets\<close>

text \<open>What a signed address carries.\<close>

record document_grant =
  dg_ticket :: media_ticket
  dg_user :: id
  dg_session :: id
  dg_device :: "id option"
  dg_expires :: time

definition document_grant_of :: "play_config \<Rightarrow> principal \<Rightarrow> media_ticket \<Rightarrow> id option \<Rightarrow> time \<Rightarrow> document_grant" where
  "document_grant_of cf p t device now =
     \<lparr>dg_ticket = t, dg_user = pr_user p, dg_session = pr_session p, dg_device = device, dg_expires = now + pl_ttl cf * 1000\<rparr>"

definition issue_library_ticket ::
  "media_config \<Rightarrow> device_config \<Rightarrow> principal \<Rightarrow> id \<Rightarrow> bool \<Rightarrow> time \<Rightarrow> db \<Rightarrow> exn + document_grant" where
  "issue_library_ticket cf dcf p part suspect now s =
     (case find_lib_part part s of
        None \<Rightarrow> Inl not_found
      | Some x \<Rightarrow>
          (let entitlement = part_entitlement (pr_user p) part s;
               open_material = mc_storefront cf \<and> material_in_scope (pr_user p) x s in
           if holds_some (\<lambda>e. le_revoked_at e = None) entitlement
           then if withdrawn x s then Inl (app_error COURSE_ARCHIVED)
                else if lp_preview x then Inr (document_grant_of (mc_play cf) p (OwnedDocument part) (pr_device p) now)
                else bind_r (assert_device_authorized dcf (pr_user p) (pr_role p) (pr_key p) (pr_device p) suspect s) (\<lambda>device.
                     Inr (document_grant_of (mc_play cf) p (OwnedDocument part) device now))
           else if lp_preview x \<and> open_material \<and> published_part x
           then Inr (document_grant_of (mc_play cf) p (PreviewDocument part) (pr_device p) now)
           else if entitlement \<noteq> None then Inl (app_error LIBRARY_ENTITLEMENT_REVOKED)
           else if (open_material \<and> \<not> lp_preview x) \<or> owns_any_part_of (pr_user p) (lp_material x) s
           then Inl (app_error PAYMENT_REQUIRED)
           else Inl not_found))"

definition issue_attachment_ticket ::
  "media_config \<Rightarrow> device_config \<Rightarrow> principal \<Rightarrow> id \<Rightarrow> bool \<Rightarrow> time \<Rightarrow> db \<Rightarrow> exn + document_grant" where
  "issue_attachment_ticket cf dcf p i suspect now s =
     (case find_attachment i s of
        None \<Rightarrow> Inl not_found
      | Some a \<Rightarrow>
          bind_r (assert_content_access (pr_user p) (pr_role p) (at_course a) True (at_preview a) now s) (\<lambda>_.
          bind_r (require (pr_role p = R_STUDENT \<longrightarrow> attachment_published a s) not_found) (\<lambda>_.
          bind_r (if pr_role p = R_STUDENT \<and> \<not> at_preview a
                  then (case attachment_scope a s of
                          None \<Rightarrow> Inr ()
                        | Some sec \<Rightarrow> assert_section_accessible (pr_user p) (at_course a) sec s)
                  else Inr ()) (\<lambda>_.
          bind_r (if at_protected a
                  then bind_r (assert_device_authorized dcf (pr_user p) (pr_role p) (pr_key p) (pr_device p) suspect s) (\<lambda>_. Inr ())
                  else Inr ()) (\<lambda>_.
          Inr (document_grant_of (mc_play cf) p (AttachedDocument i) (pr_device p) now))))))"

end
