(* ===== verification/MediaSafety.thy ===== *)
theory MediaSafety
  imports MediaGate SignIn
begin

text \<open>
  The two halves of a document address agree: what the issuing services mint is live at the edge, what
  is live at the edge would be minted again, and the addresses of a session die with it.
\<close>

lemma find_first: "find_by key k rows = Some x \<Longrightarrow> P x \<Longrightarrow> List.find (\<lambda>r. key r = k \<and> P r) rows = Some x"
  by (induction rows) (auto split: if_splits)

definition probe_of :: "id option \<Rightarrow> probe_id" where
  "probe_of x = (case x of None \<Rightarrow> Absent | Some i \<Rightarrow> Clean i)"

definition grant_live :: "media_config \<Rightarrow> document_grant \<Rightarrow> time \<Rightarrow> db \<Rightarrow> bool" where
  "grant_live cf g now s \<longleftrightarrow>
     ticket_liveness cf (dg_ticket g) (Some (dg_user g)) (Clean (dg_session g)) (probe_of (dg_device g)) False now s = Inr True"

section \<open>A principal the guard let in\<close>

lemma attach_cases:
  assumes "attach (TokenOk c) key now s = Inr p"
  obtains x u where "find_by ss_id (at_session c) (sessions s) = Some x" "ss_status x = SS_ACTIVE" "now < ss_expires x"
    "find_by u_id (ss_user x) (users s) = Some u" "\<not> account_barred u"
    "p = \<lparr>pr_user = u_id u, pr_role = u_role u, pr_status = u_status u, pr_session = ss_id x, pr_device = ss_device x, pr_key = key\<rparr>"
  using assms by (auto simp: attach_def split: option.splits if_splits)

lemma attached_session:
  assumes "attach (TokenOk c) key now s = Inr p"
  obtains x where "live_library_session (Clean (pr_session p)) (pr_user p) now s = Some x" "ss_device x = pr_device p"
    "some_session (pr_user p) s"
proof -
  from assms obtain x u where x: "find_by ss_id (at_session c) (sessions s) = Some x" "ss_status x = SS_ACTIVE" "now < ss_expires x"
    "find_by u_id (ss_user x) (users s) = Some u" "\<not> account_barred u"
    "p = \<lparr>pr_user = u_id u, pr_role = u_role u, pr_status = u_status u, pr_session = ss_id x, pr_device = ss_device x, pr_key = key\<rparr>"
    by (rule attach_cases)
  from x(1,4) have ids: "ss_id x = at_session c" "u_id u = ss_user x" "x \<in> set (sessions s)" by (auto dest: find_by_Some)
  let ?P = "\<lambda>y. ss_user y = u_id u \<and> ss_status y = SS_ACTIVE \<and> now < ss_expires y \<and> live_account (u_id u) s"
  have "?P x" using x ids by (simp add: live_account_def)
  with x(1) have "List.find (\<lambda>y. ss_id y = at_session c \<and> ?P y) (sessions s) = Some x" by (rule find_first)
  then have "live_library_session (Clean (pr_session p)) (pr_user p) now s = Some x"
    using ids by (simp add: live_library_session_def clean_probe_id_def x(6))
  moreover have "some_session (pr_user p) s"
    using ids x(2) by (auto simp: some_session_def list_ex_iff x(6))
  ultimately show ?thesis using that x(6) by simp
qed

lemma authorized_device:
  assumes "assert_device_authorized dcf user R_STUDENT key sd suspect s = Inr r"
  obtains d where "r = Some d" "sd = None \<or> sd = Some d" "list_ex (\<lambda>v. dv_id v = d \<and> dv_user v = user \<and> dv_status v = DV_ACTIVE) (devices s)"
    "0 < active_devices user s"
proof -
  from assms obtain d where d: "d \<in> set (devices s)" "r = Some (dv_id d)" "dv_user d = user" "dv_status d = DV_ACTIVE" "sd = None \<or> sd = Some (dv_id d)"
    by (rule gate_opens)
  have "count_where (\<lambda>v. dv_user v = user \<and> dv_status v = DV_ACTIVE) (devices s) \<noteq> 0"
    using d(1,3,4) unfolding count_where_0_iff by blast
  then show ?thesis using that [of "dv_id d"] d by (auto simp: list_ex_iff active_devices_def)
qed

section \<open>Minted is live\<close>

lemma library_grant_live:
  assumes "attach (TokenOk c) key now s = Inr p" "pr_role p = R_STUDENT" "issue_library_ticket cf dcf p part suspect now s = Inr g"
  shows "grant_live cf g now s"
proof -
  obtain y where y: "live_library_session (Clean (pr_session p)) (pr_user p) now s = Some y" "ss_device y = pr_device p"
    using assms(1) by (rule attached_session)
  from assms(3) obtain x where x: "find_lib_part part s = Some x" by (auto simp: issue_library_ticket_def split: option.splits)
  show ?thesis
  proof (cases "holds_some (\<lambda>e. le_revoked_at e = None) (part_entitlement (pr_user p) part s)")
    case False
    then have g: "g = document_grant_of (mc_play cf) p (PreviewDocument part) (pr_device p) now" "lp_preview x" "mc_storefront cf"
      "material_in_scope (pr_user p) x s" "published_part x"
      using assms(3) x by (auto simp: issue_library_ticket_def Let_def split: if_splits)
    then show ?thesis
      using x y(1) by (simp add: grant_live_def ticket_liveness_def preview_ticket_live_def document_grant_of_def)
  next
    case own: True
    then have w: "\<not> withdrawn x s" using assms(3) x by (auto simp: issue_library_ticket_def Let_def split: if_splits)
    show ?thesis
    proof (cases "lp_preview x")
      case True
      then have "g = document_grant_of (mc_play cf) p (OwnedDocument part) (pr_device p) now"
        using assms(3) x own w by (auto simp: issue_library_ticket_def Let_def)
      then show ?thesis using x y(1) own w True
        by (auto simp: grant_live_def ticket_liveness_def library_ticket_live_def document_grant_of_def)
    next
      case False
      then obtain r where r: "assert_device_authorized dcf (pr_user p) R_STUDENT (pr_key p) (pr_device p) suspect s = Inr r"
        "g = document_grant_of (mc_play cf) p (OwnedDocument part) r now"
        using assms(2,3) x own w by (auto simp: issue_library_ticket_def Let_def result_simps)
      from r(1) obtain d where "r = Some d" "pr_device p = None \<or> pr_device p = Some d"
        "list_ex (\<lambda>v. dv_id v = d \<and> dv_user v = pr_user p \<and> dv_status v = DV_ACTIVE) (devices s)"
        by (rule authorized_device)
      then show ?thesis using x y own w False r(2)
        by (auto simp: grant_live_def ticket_liveness_def library_ticket_live_def document_grant_of_def probe_of_def clean_probe_id_def)
    qed
  qed
qed

lemma attachment_grant_live:
  assumes "attach (TokenOk c) key now s = Inr p" "pr_role p = R_STUDENT" "issue_attachment_ticket cf dcf p i suspect now s = Inr g"
  shows "grant_live cf g now s"
proof -
  have ses: "some_session (pr_user p) s" using assms(1) by (rule attached_session)
  from assms(2,3) obtain a where a: "find_attachment i s = Some a" "attachment_published a s"
    "g = document_grant_of (mc_play cf) p (AttachedDocument i) (pr_device p) now"
    by (auto simp: issue_attachment_ticket_def result_simps split: option.splits)
  have dev: "at_protected a \<longrightarrow> 0 < active_devices (pr_user p) s"
  proof
    assume "at_protected a"
    then obtain r where "assert_device_authorized dcf (pr_user p) R_STUDENT (pr_key p) (pr_device p) suspect s = Inr r"
      using assms(2,3) a(1) by (auto simp: issue_attachment_ticket_def result_simps)
    then show "0 < active_devices (pr_user p) s" by (rule authorized_device)
  qed
  show ?thesis
  proof (cases "at_preview a")
    case True
    then show ?thesis using a ses dev
      by (simp add: grant_live_def ticket_liveness_def attachment_ticket_live_def document_grant_of_def)
  next
    case False
    from assms(2,3) a(1) False obtain d where d: "resolve (Some (pr_user p)) (Some R_STUDENT) (at_course a) now s = Inr d" "ad_can d"
      by (auto simp: issue_attachment_ticket_def assert_content_access_def result_simps split: if_splits)
    have "case attachment_scope a s of None \<Rightarrow> True
      | Some sec \<Rightarrow> assert_section_accessible (pr_user p) (at_course a) sec s = Inr ()"
      using assms(2,3) a(1) False by (auto simp: issue_attachment_ticket_def result_simps split: option.splits)
    then have "(case attachment_scope a s of None \<Rightarrow> Inr True
      | Some sec \<Rightarrow> bind_r (allowed_section_ids (pr_user p) (at_course a) s) (\<lambda>allowed.
          Inr (case allowed of None \<Rightarrow> True | Some ids \<Rightarrow> sec \<in> set ids))) = Inr True"
      by (auto simp: assert_section_accessible_def result_simps split: option.splits)
    then show ?thesis using a ses dev d False
      by (simp add: grant_live_def ticket_liveness_def attachment_ticket_live_def document_grant_of_def)
  qed
qed

text \<open>A document address is live when it is minted. Whatever the guard let in and the Library or the attachments
  service signed for it, the edge answers yes to the probe that carries the session and the device
  of the address.\<close>

theorem minted_documents_are_live:
  assumes "attach (TokenOk c) key now s = Inr p" "pr_role p = R_STUDENT"
    and "issue_library_ticket cf dcf p i suspect now s = Inr g \<or> issue_attachment_ticket cf dcf p i suspect now s = Inr g"
  shows "ticket_liveness cf (dg_ticket g) (Some (dg_user g)) (Clean (dg_session g)) (probe_of (dg_device g)) False now s = Inr True"
  using library_grant_live [OF assms(1,2)] attachment_grant_live [OF assms(1,2)] assms(3) unfolding grant_live_def by blast

section \<open>Live is mintable\<close>

text \<open>C19: the edge and the issuing service decide alike. For a student on a device their session may act as, the edge
  serves an owned document exactly when the Library would mint its address again, and a preview
  exactly when it would mint that, the document not being owned.\<close>

theorem edge_mirrors_library:
  assumes "attach (TokenOk c) (Some k) now s = Inr p" "pr_role p = R_STUDENT" "unique_on dv_id (devices s)"
    and "find_device (pr_user p) k s = Some d" "\<not> (suspect \<and> cf_block dcf)"
  shows "(ticket_liveness cf (OwnedDocument i) (Some (pr_user p)) (Clean (pr_session p)) (Clean (dv_id d)) False now s = Inr True
      \<longleftrightarrow> (\<exists>g. issue_library_ticket cf dcf p i suspect now s = Inr g \<and> dg_ticket g = OwnedDocument i))
    \<and> (\<not> holds_some (\<lambda>e. le_revoked_at e = None) (part_entitlement (pr_user p) i s) \<longrightarrow>
      (ticket_liveness cf (PreviewDocument i) (Some (pr_user p)) (Clean (pr_session p)) Absent False now s = Inr True
        \<longleftrightarrow> (\<exists>g. issue_library_ticket cf dcf p i suspect now s = Inr g \<and> dg_ticket g = PreviewDocument i)))"
proof -
  obtain y where y: "live_library_session (Clean (pr_session p)) (pr_user p) now s = Some y" "ss_device y = pr_device p"
    using assms(1) by (rule attached_session)
  have key: "pr_key p = Some k" using assms(1) by (auto elim: attach_cases)
  have d: "d \<in> set (devices s)" "dv_user d = pr_user p"
    using assms(4) by (auto simp: find_device_def dest: find_Some)
  then have row: "list_ex (\<lambda>v. dv_id v = dv_id d \<and> dv_user v = pr_user p \<and> dv_status v = DV_ACTIVE) (devices s) \<longleftrightarrow> dv_status d = DV_ACTIVE"
    using unique_onD [OF assms(3)] by (auto simp: list_ex_iff)
  have gate: "(\<exists>r. assert_device_authorized dcf (pr_user p) R_STUDENT (Some k) (pr_device p) suspect s = Inr r)
      \<longleftrightarrow> (pr_device p = None \<or> pr_device p = Some (dv_id d)) \<and> dv_status d = DV_ACTIVE"
    using assms(4,5) by (auto simp: assert_device_authorized_def)
  show ?thesis
  proof (cases "find_lib_part i s")
    case None
    then show ?thesis
      by (simp add: ticket_liveness_def library_ticket_live_def preview_ticket_live_def issue_library_ticket_def)
  next
    case (Some x)
    let ?own = "holds_some (\<lambda>e. le_revoked_at e = None) (part_entitlement (pr_user p) i s)"
    have "ticket_liveness cf (OwnedDocument i) (Some (pr_user p)) (Clean (pr_session p)) (Clean (dv_id d)) False now s = Inr True
      \<longleftrightarrow> \<not> withdrawn x s \<and> ?own \<and> (lp_preview x \<or> (pr_device p = None \<or> pr_device p = Some (dv_id d)) \<and> dv_status d = DV_ACTIVE)"
      using Some y row by (simp add: ticket_liveness_def library_ticket_live_def clean_probe_id_def del: holds_some_iff)
    also have "\<dots> \<longleftrightarrow> (\<exists>g. issue_library_ticket cf dcf p i suspect now s = Inr g \<and> dg_ticket g = OwnedDocument i)"
    proof (cases "?own \<and> \<not> withdrawn x s")
      case True
      then show ?thesis
        using Some gate assms(2) key
        by (cases "lp_preview x") (auto simp: issue_library_ticket_def Let_def document_grant_of_def result_simps simp del: holds_some_iff)
    next
      case False
      then show ?thesis
        using Some by (auto simp: issue_library_ticket_def Let_def document_grant_of_def simp del: holds_some_iff split: if_splits)
    qed
    finally have owned: "ticket_liveness cf (OwnedDocument i) (Some (pr_user p)) (Clean (pr_session p)) (Clean (dv_id d)) False now s = Inr True
      \<longleftrightarrow> (\<exists>g. issue_library_ticket cf dcf p i suspect now s = Inr g \<and> dg_ticket g = OwnedDocument i)" .
    have preview: "ticket_liveness cf (PreviewDocument i) (Some (pr_user p)) (Clean (pr_session p)) Absent False now s = Inr True
        \<longleftrightarrow> (\<exists>g. issue_library_ticket cf dcf p i suspect now s = Inr g \<and> dg_ticket g = PreviewDocument i)" if "\<not> ?own"
      using that Some y(1)
      by (auto simp: ticket_liveness_def preview_ticket_live_def issue_library_ticket_def Let_def document_grant_of_def
          simp del: holds_some_iff split: if_splits)
    show ?thesis using owned preview by blast
  qed
qed

section \<open>The addresses of a session die with it\<close>

text \<open>Signing out ends the documents too. After whatever signs a student out everywhere, and any requests after
  that, the edge refuses every owned and preview document address of every session they had, also
  while they are signed in again.\<close>

theorem signed_out_documents_die:
  assumes "auth_start s0" "(auth_step dcf)\<^sup>*\<^sup>* s0 s" "signs_out user s t" "(auth_step dcf)\<^sup>*\<^sup>* t u"
    and "x \<in> set (sessions t)" "ss_user x = user"
  shows "ticket_liveness cf (OwnedDocument i) (Some user) (Clean (ss_id x)) did False now u = Inr False
    \<and> ticket_liveness cf (PreviewDocument i) (Some user) (Clean (ss_id x)) did False now u = Inr False"
proof -
  have "session_ids s" using auth_machine.inv_reachable [OF assms(1,2)] .
  then have "ended (ss_id x) t" using signs_out_ends assms(3,5,6) by blast
  then have "ended (ss_id x) u" using ended.steps_kept [OF assms(4)] by blast
  then have "live_library_session (Clean (ss_id x)) user now u = None"
    by (auto simp: ended_def live_library_session_def clean_probe_id_def find_None_iff)
  then show ?thesis
    by (simp add: ticket_liveness_def library_ticket_live_def preview_ticket_live_def split: option.split)
qed

section \<open>A student reads\<close>

definition shelf_part :: "id \<Rightarrow> bool \<Rightarrow> lib_part_row" where
  "shelf_part i preview = \<lparr>lp_id = i, lp_material = 20, lp_title = ''Notes'', lp_status = CT_PUBLISHED, lp_active = True, lp_sort = 1,
     lp_price = 5000, lp_preview = preview, lp_key = ''library/notes.pdf'', lp_size = None, lp_deleted_at = None\<rparr>"

definition reading_db :: db where
  "reading_db = door_in\<lparr>profiles := [\<lparr>sp_user = 1, sp_university = Some 2, sp_faculty = Some 3, sp_department = Some 4, sp_year = Some 5\<rparr>],
     materials := [\<lparr>lm_id = 20, lm_title = ''Circuits'', lm_status = CT_PUBLISHED, lm_active = True, lm_university = Some 2, lm_faculty = Some 3,
       lm_year = None, lm_subject = None, lm_scope = DS_FACULTY, lm_departments = [], lm_sort = 1, lm_published_at = Some 1, lm_deleted_at = None\<rparr>],
     lib_parts := [shelf_part 30 False, shelf_part 31 True],
     lib_entitlements := [\<lparr>le_user = 1, le_part = 30, le_source = LS_PURCHASE, le_purchase = None, le_granted = 5, le_revoked_at = None\<rparr>]\<rparr>"

definition reading_config :: media_config where
  "reading_config = \<lparr>mc_play = \<lparr>pl_ttl = 300, pl_window = 2700, pl_min_counted = 30, pl_max_plays = 3, pl_per_hour = 60,
     pl_max_streams = 1, pl_grace = 90, pl_interval = 30, pl_strikes = 3, pl_drm = True\<rparr>, mc_enforce = True, mc_storefront = True\<rparr>"

definition reader :: principal where
  "reader = \<lparr>pr_user = 1, pr_role = R_STUDENT, pr_status = AS_ACTIVE, pr_session = 11, pr_device = Some 10, pr_key = Some ''k1''\<rparr>"

lemma reader_attached: "attach (TokenOk \<lparr>at_user = 1, at_session = 11, at_iat = 1\<rparr>) (Some ''k1'') 2000 reading_db = Inr reader"
  by code_simp

lemma minted_documents_are_live_witness:
  "ticket_liveness reading_config (OwnedDocument 30) (Some 1) (Clean 11) (Clean 10) False 2000 reading_db = Inr True"
proof -
  let ?g = "\<lparr>dg_ticket = OwnedDocument 30, dg_user = 1, dg_session = 11, dg_device = Some 10, dg_expires = 302000\<rparr>"
  have m: "issue_library_ticket reading_config door_devices reader 30 False 2000 reading_db = Inr ?g" by code_simp
  have r: "pr_role reader = R_STUDENT" by (simp add: reader_def)
  from minted_documents_are_live [OF reader_attached r disjI1 [OF m]] show ?thesis by (simp add: probe_of_def)
qed

lemma edge_mirrors_library_witness:
  "ticket_liveness reading_config (PreviewDocument 31) (Some 1) (Clean 11) Absent False 2000 reading_db = Inr True"
proof -
  let ?d = "hd (devices reading_db)"
  have h: "pr_role reader = R_STUDENT" "find_device (pr_user reader) ''k1'' reading_db = Some ?d" "pr_user reader = 1" "pr_session reader = 11"
    "part_entitlement 1 31 reading_db = None"
    by code_simp+
  have "map dv_id (devices reading_db) = [10]" by code_simp
  then have ids: "unique_on dv_id (devices reading_db)" by (simp add: unique_on_def)
  have "issue_library_ticket reading_config door_devices reader 31 False 2000 reading_db
      = Inr \<lparr>dg_ticket = PreviewDocument 31, dg_user = 1, dg_session = 11, dg_device = Some 10, dg_expires = 302000\<rparr>" by code_simp
  then have "\<exists>g. issue_library_ticket reading_config door_devices reader 31 False 2000 reading_db = Inr g \<and> dg_ticket g = PreviewDocument 31"
    by simp
  with edge_mirrors_library [OF reader_attached h(1) ids h(2), of False door_devices reading_config 31] h(3-5)
  show ?thesis by simp
qed

lemma signed_out_documents_die_witness:
  "ticket_liveness reading_config (OwnedDocument 30) (Some 1) (Clean 11) (Clean 10) False 3000 door_out = Inr False"
proof -
  have x: "hd (sessions door_out) \<in> set (sessions door_out)" "ss_id (hd (sessions door_out)) = 11" "ss_user (hd (sessions door_out)) = 1"
    by code_simp+
  from signed_out_documents_die [OF door_start door_steps door_signed_out rtranclp.rtrancl_refl x(1,3)] x(2) show ?thesis by simp
qed

end
