(* ===== verification/PlaybackSafety.thy ===== *)
theory PlaybackSafety
  imports Playback
begin

text \<open>
  What playback guarantees: the play allowance as an invariant of every sequence of requests, what a
  ticket and a beat prove about the student's access at that moment, and which lecture a shared video
  is played as. Calls that are not transactions keep what they wrote when they throw, so the
  invariants are carried by triples with a postcondition for each of the two outcomes.
\<close>

section \<open>Triples\<close>

definition triple :: "('s \<Rightarrow> bool) \<Rightarrow> ('s, 'e, 'a) call \<Rightarrow> ('a \<Rightarrow> 's \<Rightarrow> bool) \<Rightarrow> ('s \<Rightarrow> bool) \<Rightarrow> bool" where
  "triple P m Q R \<longleftrightarrow> (\<forall>s. P s \<longrightarrow> (case m s of (Inr x, t) \<Rightarrow> Q x t | (Inl _, t) \<Rightarrow> R t))"

named_theorems triples "rules that carry assertions through a call"

lemma tripleI: "(\<And>s x t. P s \<Longrightarrow> m s = (Inr x, t) \<Longrightarrow> Q x t) \<Longrightarrow> (\<And>s e t. P s \<Longrightarrow> m s = (Inl e, t) \<Longrightarrow> R t) \<Longrightarrow> triple P m Q R"
  by (auto simp: triple_def split: prod.splits sum.splits)

lemma tripleD:
  "triple P m Q R \<Longrightarrow> P s \<Longrightarrow> m s = (Inr x, t) \<Longrightarrow> Q x t"
  "triple P m Q R \<Longrightarrow> P s \<Longrightarrow> m s = (Inl e, t) \<Longrightarrow> R t"
  by (force simp: triple_def)+

lemma triple_bind [triples]:
  "triple P m Q' R \<Longrightarrow> (\<And>x. triple (Q' x) (f x) Q R) \<Longrightarrow> triple P (bind_c m f) Q R"
  unfolding triple_def bind_c_def by (fastforce split: prod.splits sum.splits)

lemma triple_weaken:
  "triple P' m Q' R' \<Longrightarrow> (\<And>s. P s \<Longrightarrow> P' s) \<Longrightarrow> (\<And>x s. Q' x s \<Longrightarrow> Q x s) \<Longrightarrow> (\<And>s. R' s \<Longrightarrow> R s) \<Longrightarrow> triple P m Q R"
  unfolding triple_def by (fastforce split: prod.splits sum.splits)

lemma triple_ret: "(\<And>s. P s \<Longrightarrow> Q x s) \<Longrightarrow> triple P (ret_c x) Q R"
  by (simp add: triple_def)

lemma triple_fail: "(\<And>s. P s \<Longrightarrow> R s) \<Longrightarrow> triple P (fail_c e) Q R"
  by (simp add: triple_def)

lemma triple_read: "(\<And>s. P s \<Longrightarrow> Q (q s) s) \<Longrightarrow> triple P (read_c q) Q R"
  by (simp add: triple_def)

lemma triple_write: "(\<And>s. P s \<Longrightarrow> Q () (f s)) \<Longrightarrow> triple P (write_c f) Q R"
  by (simp add: triple_def)

lemma triple_require: "(\<And>s. P s \<Longrightarrow> ok \<Longrightarrow> Q () s) \<Longrightarrow> (\<And>s. P s \<Longrightarrow> \<not> ok \<Longrightarrow> R s) \<Longrightarrow> triple P (require_c ok e) Q R"
  by (cases ok) (simp_all add: triple_def)

lemma triple_the: "(\<And>s x. P s \<Longrightarrow> r = Some x \<Longrightarrow> Q x s) \<Longrightarrow> (\<And>s. P s \<Longrightarrow> r = None \<Longrightarrow> R s) \<Longrightarrow> triple P (the_c e r) Q R"
  by (cases r) (simp_all add: triple_def)

lemma triple_lift: "(\<And>s x. P s \<Longrightarrow> r = Inr x \<Longrightarrow> Q x s) \<Longrightarrow> (\<And>s. P s \<Longrightarrow> R s) \<Longrightarrow> triple P (lift_c r) Q R"
  by (cases r) (simp_all add: triple_def lift_c_def)

lemma triple_of_db: "(\<And>s. P s \<Longrightarrow> Q (q (live s)) s) \<Longrightarrow> triple P (of_db q) Q R"
  by (simp add: of_db_def triple_read)

lemma triple_on_db: "(\<And>s. P s \<Longrightarrow> Q () (s\<lparr>live := f (live s)\<rparr>)) \<Longrightarrow> triple P (on_db f) Q R"
  by (simp add: on_db_def triple_write)

lemma triple_in_db:
  "triple P m Q R \<Longrightarrow> triple (\<lambda>s. P (live s)) (in_db m) (\<lambda>x s. Q x (live s)) (\<lambda>s. R (live s))"
  unfolding triple_def in_db_def by (fastforce split: prod.splits sum.splits)

lemma triple_if [triples]: "(b \<Longrightarrow> triple P m Q R) \<Longrightarrow> (\<not> b \<Longrightarrow> triple P n Q R) \<Longrightarrow> triple P (if b then m else n) Q R"
  by simp

section \<open>The allowance\<close>

text \<open>Every active ticket of a play was issued no later than its last activity, and long before it was closed.\<close>

definition ticket_fits :: "play_config \<Rightarrow> db \<Rightarrow> ticket_row \<Rightarrow> bool" where
  "ticket_fits cf s t \<longleftrightarrow> tk_expires t = tk_issued t + pl_ttl cf * 1000
     \<and> (\<forall>i. tk_play t = Some i \<longrightarrow>
         (\<exists>p \<in> set (plays s). vp_id p = i \<and> tk_issued t \<le> vp_activity p
            \<and> (\<forall>c. vp_closed p = Some c \<longrightarrow> tk_issued t + pl_window cf * 1000 < c)))"

definition play_times :: "time \<Rightarrow> play_row \<Rightarrow> bool" where
  "play_times now p \<longleftrightarrow> vp_activity p \<le> now \<and> (\<forall>c. vp_closed p = Some c \<longrightarrow> c \<le> now)"

definition allowance :: "play_config \<Rightarrow> time \<Rightarrow> db \<Rightarrow> bool" where
  "allowance cf now s \<longleftrightarrow> unique_on vp_id (plays s) \<and> (\<forall>p \<in> set (plays s). vp_id p < db_next s \<and> play_times now p)
     \<and> (\<forall>t \<in> set (tickets s). tk_status t = TS_ACTIVE \<longrightarrow> ticket_fits cf s t)
     \<and> (\<forall>user video. counted_plays cf user video s \<le> pl_max_plays cf)"

lemma allowance_later: "allowance cf clk s \<Longrightarrow> clk \<le> now \<Longrightarrow> allowance cf now s"
  by (fastforce simp: allowance_def play_times_def)

text \<open>A change that touches neither plays nor the active tickets, but to end them.\<close>

definition tickets_only_end :: "db \<Rightarrow> db \<Rightarrow> bool" where
  "tickets_only_end s t \<longleftrightarrow> plays t = plays s \<and> db_next s \<le> db_next t
     \<and> (\<forall>x \<in> set (tickets t). tk_status x = TS_ACTIVE \<longrightarrow>
         (\<exists>y \<in> set (tickets s). tk_status y = TS_ACTIVE \<and> tk_play y = tk_play x \<and> tk_issued y = tk_issued x \<and> tk_expires y = tk_expires x))"

lemma allowance_frame:
  assumes "allowance cf now s" "tickets_only_end s t"
  shows "allowance cf now t"
proof -
  have p: "plays t = plays s" and n: "db_next s \<le> db_next t" using assms(2) by (simp_all add: tickets_only_end_def)
  have "ticket_fits cf t x" if x: "x \<in> set (tickets t)" "tk_status x = TS_ACTIVE" for x
  proof -
    obtain y where "y \<in> set (tickets s)" "tk_status y = TS_ACTIVE" "tk_play y = tk_play x" "tk_issued y = tk_issued x" "tk_expires y = tk_expires x"
      using assms(2) x unfolding tickets_only_end_def by blast
    moreover from this(1,2) have "ticket_fits cf s y" using assms(1) by (simp add: allowance_def)
    ultimately show ?thesis by (simp add: ticket_fits_def p)
  qed
  then show ?thesis using assms(1) n by (fastforce simp: allowance_def counted_plays_def plays_of_def p)
qed

lemma tickets_only_end_map:
  assumes "\<And>t. tk_status (f t) = TS_ACTIVE \<Longrightarrow> tk_status t = TS_ACTIVE"
    and "\<And>t. tk_play (f t) = tk_play t" "\<And>t. tk_issued (f t) = tk_issued t" "\<And>t. tk_expires (f t) = tk_expires t"
  shows "tickets_only_end s (s\<lparr>tickets := upd_where p f (tickets s)\<rparr>)"
  unfolding tickets_only_end_def upd_where_def using assms by (auto split: if_splits) metis+

text \<open>A play that is open, and was touched at the instant given.\<close>

definition open_at :: "time \<Rightarrow> id option \<Rightarrow> db \<Rightarrow> bool" where
  "open_at now i s \<longleftrightarrow> (\<forall>j. i = Some j \<longrightarrow> (\<exists>p \<in> set (plays s). vp_id p = j \<and> vp_closed p = None \<and> vp_activity p = now))"

lemma upd_play_parts:
  assumes "\<And>p. vp_id (f p) = vp_id p" "\<And>p. vp_user (f p) = vp_user p" "\<And>p. vp_video (f p) = vp_video p"
  shows "unique_on vp_id (upd_where q f ps) = unique_on vp_id ps"
    and "(\<And>p. p \<in> set ps \<Longrightarrow> q p \<Longrightarrow> counts cf (f p) \<Longrightarrow> counts cf p) \<Longrightarrow>
      counted_plays cf user video (s\<lparr>plays := upd_where q f ps\<rparr>) \<le> counted_plays cf user video (s\<lparr>plays := ps\<rparr>)"
proof -
  show "unique_on vp_id (upd_where q f ps) = unique_on vp_id ps"
    by (rule keyed_update.unique_upd) (simp add: keyed_update_def assms(1))
  show "(\<And>p. p \<in> set ps \<Longrightarrow> q p \<Longrightarrow> counts cf (f p) \<Longrightarrow> counts cf p) \<Longrightarrow>
      counted_plays cf user video (s\<lparr>plays := upd_where q f ps\<rparr>) \<le> counted_plays cf user video (s\<lparr>plays := ps\<rparr>)"
    by (induction ps) (auto simp: counted_plays_def plays_of_def upd_where_Cons assms intro: le_SucI)
qed

lemma allowance_upd_plays:
  assumes a: "allowance cf now s"
    and keys: "\<And>p. vp_id (f p) = vp_id p" "\<And>p. vp_user (f p) = vp_user p" "\<And>p. vp_video (f p) = vp_video p"
    and counted: "\<And>p. p \<in> set (plays s) \<Longrightarrow> q p \<Longrightarrow> counts cf (f p) \<Longrightarrow> counts cf p"
    and times: "\<And>p. p \<in> set (plays s) \<Longrightarrow> q p \<Longrightarrow> play_times now p \<Longrightarrow> play_times now (f p) \<and> vp_activity p \<le> vp_activity (f p)"
    and closed: "\<And>p. p \<in> set (plays s) \<Longrightarrow> q p \<Longrightarrow> vp_closed (f p) = vp_closed p
      \<or> vp_closed (f p) = Some now \<and> vp_activity p + pl_window cf * 1000 < now"
  shows "allowance cf now (s\<lparr>plays := upd_where q f (plays s)\<rparr>)"
proof -
  let ?s = "s\<lparr>plays := upd_where q f (plays s)\<rparr>"
  let ?g = "\<lambda>p. if q p then f p else p"
  have plays: "plays ?s = map ?g (plays s)" by (simp add: upd_where_def)
  have pt: "\<And>p. p \<in> set (plays s) \<Longrightarrow> play_times now p \<and> vp_id p < db_next s" using a by (simp add: allowance_def)
  have fits: "ticket_fits cf ?s x" if x: "x \<in> set (tickets s)" "tk_status x = TS_ACTIVE" for x
    unfolding ticket_fits_def
  proof (intro conjI allI impI)
    have fx: "ticket_fits cf s x" using a x by (simp add: allowance_def)
    then show "tk_expires x = tk_issued x + pl_ttl cf * 1000" by (simp add: ticket_fits_def)
    fix i assume "tk_play x = Some i"
    with fx obtain p where p: "p \<in> set (plays s)" "vp_id p = i" "tk_issued x \<le> vp_activity p"
      "\<forall>c. vp_closed p = Some c \<longrightarrow> tk_issued x + pl_window cf * 1000 < c" unfolding ticket_fits_def by blast
    have "tk_issued x \<le> vp_activity (?g p)" using p times pt by fastforce
    moreover have "\<forall>c. vp_closed (?g p) = Some c \<longrightarrow> tk_issued x + pl_window cf * 1000 < c"
      using p(3,4) closed [OF p(1)] by (cases "q p") auto
    moreover have "?g p \<in> set (plays ?s)" "vp_id (?g p) = i" using p(1,2) keys(1) by (auto simp: plays)
    ultimately show "\<exists>p \<in> set (plays ?s). vp_id p = i \<and> tk_issued x \<le> vp_activity p
        \<and> (\<forall>c. vp_closed p = Some c \<longrightarrow> tk_issued x + pl_window cf * 1000 < c)" by blast
  qed
  have mono: "counted_plays cf user video ?s \<le> counted_plays cf user video (s\<lparr>plays := plays s\<rparr>)" for user video
    using keys counted by (rule upd_play_parts(2))
  have le: "counted_plays cf user video ?s \<le> pl_max_plays cf" for user video
  proof -
    have "counted_plays cf user video (s\<lparr>plays := plays s\<rparr>) \<le> pl_max_plays cf" using a by (simp add: allowance_def)
    with mono [of user video] show ?thesis by (rule le_trans)
  qed
  have "unique_on vp_id (plays ?s)" using a upd_play_parts(1) [OF keys] by (simp add: allowance_def)
  moreover have "\<forall>p \<in> set (plays ?s). vp_id p < db_next ?s \<and> play_times now p"
  proof
    fix x assume "x \<in> set (plays ?s)"
    then obtain p where p: "p \<in> set (plays s)" "x = ?g p" by (auto simp: plays)
    with pt [OF p(1)] times [OF p(1)] keys(1) [of p] show "vp_id x < db_next ?s \<and> play_times now x" by (cases "q p") auto
  qed
  ultimately show ?thesis using fits le by (simp add: allowance_def)
qed

lemma open_upd:
  assumes "open_at clk i s" "\<And>p. vp_id (f p) = vp_id p" "\<And>p. vp_closed (f p) = vp_closed p"
    and "\<And>p. vp_activity (f p) = vp_activity p"
  shows "open_at clk i (s\<lparr>plays := upd_where q f (plays s)\<rparr>)"
  unfolding open_at_def
proof (intro allI impI)
  fix j assume "i = Some j"
  with assms(1) obtain p where p: "p \<in> set (plays s)" "vp_id p = j" "vp_closed p = None" "vp_activity p = clk" unfolding open_at_def by blast
  let ?p = "if q p then f p else p"
  have "?p \<in> set (upd_where q f (plays s))" using p(1) by (simp add: upd_where_def)
  moreover have "vp_id ?p = j \<and> vp_closed ?p = None \<and> vp_activity ?p = clk" using p assms(2-4) by simp
  ultimately show "\<exists>p \<in> set (plays (s\<lparr>plays := upd_where q f (plays s)\<rparr>)). vp_id p = j \<and> vp_closed p = None \<and> vp_activity p = clk"
    by auto
qed

section \<open>Claiming a play\<close>

lemma latest_play_mem: "latest_play ps = Some p \<Longrightarrow> p \<in> set ps"
  by (induction ps arbitrary: p) (auto split: option.splits if_splits)

lemma latest_play_None: "latest_play ps = None \<longleftrightarrow> ps = []"
  by (cases ps) (auto split: option.splits)

lemma allowance_touch:
  assumes "allowance cf now s"
  shows "allowance cf now (touch_play i now s)"
  unfolding touch_play_def using assms
  by (rule allowance_upd_plays) (auto simp: counts_def play_times_def)

lemma allowance_close:
  assumes "allowance cf now s" "open_play cf user video now s = None"
  shows "allowance cf now (close_plays user video now s)"
  unfolding close_plays_def using assms(1)
proof (rule allowance_upd_plays)
  show "vp_closed (p\<lparr>vp_closed := Some now\<rparr>) = vp_closed p \<or> vp_closed (p\<lparr>vp_closed := Some now\<rparr>) = Some now \<and> vp_activity p + pl_window cf * 1000 < now"
    if "p \<in> set (plays s)" "vp_user p = user \<and> vp_video p = video \<and> vp_closed p = None" for p
    using assms(2) that by (auto simp: open_play_def latest_play_None plays_of_def filter_empty_conv)
qed (auto simp: counts_def play_times_def)

lemma highest_attempt_free: "\<not> list_ex (\<lambda>p. vp_attempt p = Suc (highest_attempt user video s)) (plays_of user video s)"
proof -
  have "vp_attempt p \<le> highest_attempt user video s" if "p \<in> set (plays_of user video s)" for p
    unfolding highest_attempt_def using that by (intro Max_ge) auto
  then show ?thesis by (fastforce simp: list_ex_iff)
qed

text \<open>Undisturbed, an attempt settles: a play, or the refusal.\<close>

lemma undisturbed_claim: "claim_once cf user video (no_gaps now) s \<noteq> (Inr None, t)"
  using highest_attempt_free
  by (auto simp: claim_once_def no_gaps_def create_play_def bind_require_c split: option.splits if_splits)

lemma allowance_create:
  assumes "allowance cf now s" "counted_plays cf user video s < pl_max_plays cf"
    and "create_play user video n now s = (Inr (Some p), t)"
  shows "allowance cf now t \<and> open_at now (Some (vp_id p)) t"
proof -
  let ?p = "new_play user video n now (db_next s)"
  from assms(3) have t: "t = s\<lparr>db_next := Suc (db_next s), plays := plays s @ [?p]\<rparr>" "p = ?p"
    by (auto simp: create_play_def split: if_splits)
  have "counted_plays cf u v t \<le> pl_max_plays cf" for u v
  proof (cases "u = user \<and> v = video")
    case True
    then have "counted_plays cf u v t = Suc (counted_plays cf user video s)"
      by (simp add: t(1) counted_plays_def plays_of_def new_play_def counts_def)
    then show ?thesis using assms(2) by simp
  next
    case False
    then have "counted_plays cf u v t = counted_plays cf u v s"
      by (auto simp: t(1) counted_plays_def plays_of_def new_play_def)
    then show ?thesis using assms(1) by (simp add: allowance_def)
  qed
  moreover have "ticket_fits cf t x" if "x \<in> set (tickets s)" "tk_status x = TS_ACTIVE" for x
  proof -
    have "ticket_fits cf s x" using assms(1) that by (simp add: allowance_def)
    then show ?thesis by (auto simp: ticket_fits_def t(1))
  qed
  moreover have "unique_on vp_id (plays t)"
    using assms(1) by (auto simp: t(1) allowance_def new_play_def table_simps)
  ultimately have "allowance cf now t"
    using assms(1) by (auto simp: allowance_def t(1) new_play_def play_times_def less_Suc_eq)
  moreover have "open_at now (Some (vp_id p)) t" by (simp add: open_at_def t new_play_def)
  ultimately show ?thesis ..
qed

lemma claim_once_keeps:
  "triple (allowance cf now) (claim_once cf user video (no_gaps now))
     (\<lambda>r s. allowance cf now s \<and> (\<forall>p. r = Some p \<longrightarrow> open_at now (Some (vp_id p)) s)) (allowance cf now)"
proof (unfold triple_def, intro allI impI)
  fix s assume a: "allowance cf now s"
  show "case claim_once cf user video (no_gaps now) s of
      (Inl e, t) \<Rightarrow> allowance cf now t
    | (Inr r, t) \<Rightarrow> allowance cf now t \<and> (\<forall>p. r = Some p \<longrightarrow> open_at now (Some (vp_id p)) t)"
  proof (cases "open_play cf user video now s")
    case (Some p)
    then have p: "p \<in> set (plays s)" "vp_closed p = None"
      by (auto simp: open_play_def plays_of_def dest: latest_play_mem)
    then have "p\<lparr>vp_activity := now\<rparr> \<in> set (plays (touch_play (vp_id p) now s))"
      by (auto simp: touch_play_def upd_where_def)
    then have "open_at now (Some (vp_id p)) (touch_play (vp_id p) now s)"
      unfolding open_at_def using p(2) by (intro allI impI bexI) auto
    then show ?thesis using Some a by (simp add: claim_once_def no_gaps_def allowance_touch)
  next
    case None
    let ?s = "close_plays user video now s"
    have s: "allowance cf now ?s" using a None by (rule allowance_close)
    show ?thesis
    proof (cases "counted_plays cf user video ?s < pl_max_plays cf")
      case True
      obtain r t where r: "create_play user video (Suc (highest_attempt user video ?s)) now ?s = (Inr r, t)"
        unfolding create_play_def by (metis (no_types, lifting))
      have "allowance cf now t \<and> (\<forall>p. r = Some p \<longrightarrow> open_at now (Some (vp_id p)) t)"
      proof (cases r)
        case None
        then have "t = ?s" using r by (auto simp: create_play_def split: if_splits)
        with s None show ?thesis by simp
      next
        case (Some p)
        with allowance_create [OF s True] r show ?thesis by blast
      qed
      then show ?thesis using None True r by (simp add: claim_once_def no_gaps_def)
    qed (use None s in \<open>simp add: claim_once_def no_gaps_def bind_require_c\<close>)
  qed
qed

lemma claim_play_keeps:
  "triple (allowance cf now) (claim_play cf user video [] now)
     (\<lambda>p s. allowance cf now s \<and> open_at now (Some (vp_id p)) s) (allowance cf now)"
  unfolding claim_play.simps
proof (rule triple_bind [OF claim_once_keeps])
  fix r show "triple (\<lambda>s. allowance cf now s \<and> (\<forall>p. r = Some p \<longrightarrow> open_at now (Some (vp_id p)) s))
      (case r of None \<Rightarrow> fail_c OtherEx | Some p \<Rightarrow> ret_c p) (\<lambda>p s. allowance cf now s \<and> open_at now (Some (vp_id p)) s) (allowance cf now)"
    by (cases r) (auto intro: triple_fail triple_ret)
qed

section \<open>Tickets\<close>

lemma mint_keeps:
  "triple (\<lambda>s. allowance cf now s \<and> open_at now (gq_play q) s) (mint_ticket cf verified p v q now)
     (\<lambda>_. allowance cf now) (allowance cf now)"
proof -
  have insert: "allowance cf now (insert_ticket (new_ticket cf p (vd_id v) q now s) s)"
    if a: "allowance cf now s" and o: "open_at now (gq_play q) s" for s
  proof -
    let ?t = "new_ticket cf p (vd_id v) q now s"
    let ?s = "insert_ticket ?t s"
    have "ticket_fits cf ?s ?t"
      using o by (fastforce simp: ticket_fits_def new_ticket_def insert_ticket_def open_at_def)
    moreover have "ticket_fits cf ?s x" if "x \<in> set (tickets s)" "tk_status x = TS_ACTIVE" for x
      using a that by (simp add: allowance_def ticket_fits_def insert_ticket_def)
    ultimately show ?thesis
      using a by (auto simp: allowance_def insert_ticket_def counted_plays_def plays_of_def less_Suc_eq)
  qed
  show ?thesis
    unfolding triple_def using insert
    by (auto simp: mint_ticket_def bind_c_def lift_c_def read_c_def require_c_def write_c_def ret_c_def split: sum.splits)
qed

definition leaves_db :: "'a play_call \<Rightarrow> bool" where
  "leaves_db m \<longleftrightarrow> (\<forall>s. live (snd (m s)) = live s)"

lemma triple_leaves: "leaves_db m \<Longrightarrow> (\<And>s. P s \<Longrightarrow> R s) \<Longrightarrow> triple (\<lambda>s. P (live s)) m (\<lambda>_ s. P (live s)) (\<lambda>s. R (live s))"
  unfolding leaves_db_def triple_def by (auto split: prod.splits sum.splits) (metis snd_conv)+

lemma leaves_bind: "leaves_db m \<Longrightarrow> (\<And>x. leaves_db (f x)) \<Longrightarrow> leaves_db (bind_c m f)"
  unfolding leaves_db_def bind_c_def by (auto split: prod.splits sum.splits) (metis snd_conv)+

lemma leaves_basic:
  "leaves_db (ret_c r)" "leaves_db (fail_c e')" "leaves_db (read_c q)" "leaves_db (require_c ok e)"
  "leaves_db (write_c (put_slots u x m))" "leaves_db (write_c (increment_window u now))"
  "leaves_db (write_c (drop_lapsed_slots cf u now))"
  "leaves_db (write_c (\<lambda>s. put_slots u (f s) (g s) s))"
  by (auto simp: leaves_db_def require_c_def put_slots_def increment_window_def drop_lapsed_slots_def split: prod.splits)

lemma redis_leaves_db:
  "leaves_db (enforce_issuance_rate cf up u now)"
  "leaves_db (acquire_stream_slot cf up u i now)"
  "leaves_db (touch_stream_slot up u i now)"
  "leaves_db (release_stream_slot up u i now)"
  unfolding enforce_issuance_rate_def acquire_stream_slot_def touch_stream_slot_def release_stream_slot_def
  by (auto intro!: leaves_bind leaves_basic split: prod.split)

abbreviation fair :: "play_config \<Rightarrow> time \<Rightarrow> stage \<Rightarrow> bool" where
  "fair cf now s \<equiv> allowance cf now (live s)"

lemma read_keeps:
  "triple P (of_db q) (\<lambda>_. P) P"
  "triple P (lift_c r) (\<lambda>_. P) P"
  "triple P (the_c e x) (\<lambda>_. P) P"
  by (auto intro!: triple_of_db triple_lift triple_the)

lemma issue_keeps:
  assumes "pw_gaps w = []"
  shows "triple (fair cf (pw_now w)) (issue_ticket cf dcf w p q) (\<lambda>_. fair cf (pw_now w)) (fair cf (pw_now w))"
proof -
  let ?A = "allowance cf (pw_now w)"
  have claim: "triple (fair cf (pw_now w))
      (if c then bind_c (in_db (claim_play cf (pr_user p) (iq_video q) [] (pw_now w))) (\<lambda>x. ret_c (Some (vp_id x))) else ret_c None)
      (\<lambda>play s. ?A (live s) \<and> open_at (pw_now w) play (live s)) (fair cf (pw_now w))" for c
    by (intro triple_if triple_bind [OF triple_in_db [OF claim_play_keeps]] triple_ret) (simp_all add: open_at_def)
  have mint: "triple (\<lambda>s. ?A (live s) \<and> open_at (pw_now w) play (live s))
      (in_db (mint_ticket cf (pw_drm w) p v \<lparr>gq_lesson = a, gq_course = b, gq_device = d, gq_rotated = None, gq_play = play\<rparr> (pw_now w)))
      (\<lambda>_. fair cf (pw_now w)) (fair cf (pw_now w))" for play v a b d
    using triple_in_db [OF mint_keeps [of cf "pw_now w" "\<lparr>gq_lesson = a, gq_course = b, gq_device = d, gq_rotated = None, gq_play = play\<rparr>"]] by simp
  have redis: "leaves_db m \<Longrightarrow> triple (fair cf (pw_now w)) m (\<lambda>_. fair cf (pw_now w)) (fair cf (pw_now w))" for m :: "unit play_call"
    by (rule triple_leaves)
  show ?thesis
    unfolding issue_ticket_def assms
    by (rule triple_bind, rule redis [OF redis_leaves_db(1)],
        (rule triple_bind, rule read_keeps)+,
        rule triple_bind, rule redis [OF redis_leaves_db(2)], rule triple_bind, rule claim, rule mint)
qed

section \<open>Beats\<close>

lemma set_ticket_keeps:
  assumes "allowance cf now s" "\<And>t. tk_status (f t) = TS_ACTIVE \<Longrightarrow> tk_status t = TS_ACTIVE"
    and "\<And>t. tk_play (f t) = tk_play t" "\<And>t. tk_issued (f t) = tk_issued t" "\<And>t. tk_expires (f t) = tk_expires t"
  shows "allowance cf now (set_ticket i f s)"
  unfolding set_ticket_def using assms(1) by (rule allowance_frame) (rule tickets_only_end_map [OF assms(2-5)])

lemma revoke_ticket_keeps: "allowance cf now s \<Longrightarrow> allowance cf now (revoke_ticket i why n s)"
  unfolding revoke_ticket_def by (erule set_ticket_keeps) (simp_all add: revoked_ticket_def)

lemma stop_keeps:
  "(\<And>s. P s \<Longrightarrow> fair cf now s) \<Longrightarrow> triple P (stop_playback w p i why r) (\<lambda>_. fair cf now) (fair cf now)"
  unfolding stop_playback_def
proof (rule triple_bind [where Q' = "\<lambda>_. fair cf now"])
  assume "\<And>s. P s \<Longrightarrow> fair cf now s"
  then show "triple P (on_db (revoke_ticket i why (pw_now w))) (\<lambda>_. fair cf now) (fair cf now)"
    by (intro triple_on_db) (simp add: revoke_ticket_keeps)
  show "triple (fair cf now) (bind_c (release_stream_slot (pw_redis w) (pr_user p) (pr_session p) (pw_now w)) (\<lambda>_. ret_c (BeatStop r)))
      (\<lambda>_. fair cf now) (fair cf now)"
    by (rule triple_bind [OF triple_leaves [where P = "allowance cf now"]], rule redis_leaves_db, assumption, rule triple_ret, assumption)
qed

definition play_open :: "id option \<Rightarrow> db \<Rightarrow> bool" where
  "play_open i s \<longleftrightarrow> (\<forall>j. i = Some j \<longrightarrow> (\<exists>p \<in> set (plays s). vp_id p = j \<and> vp_closed p = None))"

text \<open>
  Where the resume window is at least a ticket's life and its grace, the play of a ticket that still
  beats is open.\<close>

lemma beating_play_open:
  assumes "allowance cf now s" "own_ticket i user s = Some t" "tk_status t = TS_ACTIVE"
    and "now \<le> tk_expires t + pl_interval cf * 2 * 1000" "pl_ttl cf + pl_interval cf * 2 \<le> pl_window cf"
  shows "play_open (tk_play t) s"
  unfolding play_open_def
proof (intro allI impI)
  fix j assume j: "tk_play t = Some j"
  have t: "t \<in> set (tickets s)" using assms(2) by (auto simp: own_ticket_def dest: find_Some)
  then have f: "ticket_fits cf s t" using assms(1,3) by (simp add: allowance_def)
  then obtain p where p: "p \<in> set (plays s)" "vp_id p = j" "\<forall>c. vp_closed p = Some c \<longrightarrow> tk_issued t + pl_window cf * 1000 < c"
    using j unfolding ticket_fits_def by blast
  have "vp_closed p = None"
  proof (rule ccontr)
    assume "vp_closed p \<noteq> None"
    then obtain c where c: "vp_closed p = Some c" by blast
    then have "c \<le> now" using assms(1) p(1) by (auto simp: allowance_def play_times_def)
    moreover have "tk_issued t + pl_window cf * 1000 < c" using p(3) c by blast
    moreover have "tk_expires t = tk_issued t + pl_ttl cf * 1000" using f by (simp add: ticket_fits_def)
    ultimately show False using assms(4,5) by linarith
  qed
  with p show "\<exists>p \<in> set (plays s). vp_id p = j \<and> vp_closed p = None" by blast
qed

lemma beat_play_keeps:
  assumes "allowance cf now s" "play_open i s"
  shows "allowance cf now (beat_play i delta now s) \<and> open_at now i (beat_play i delta now s)"
proof (cases i)
  case None
  then show ?thesis using assms(1) by (simp add: beat_play_def open_at_def)
next
  case (Some j)
  let ?f = "\<lambda>x. x\<lparr>vp_activity := now, vp_watched := vp_watched x + delta\<rparr>"
  from assms(2) Some obtain p where p: "p \<in> set (plays s)" "vp_id p = j" "vp_closed p = None" unfolding play_open_def by blast
  have unique: "unique_on vp_id (plays s)" using assms(1) by (simp add: allowance_def)
  have "allowance cf now (s\<lparr>plays := upd_where (\<lambda>x. vp_id x = j) ?f (plays s)\<rparr>)"
    using assms(1)
  proof (rule allowance_upd_plays)
    fix x assume "x \<in> set (plays s)" "vp_id x = j"
    then have "x = p" using unique_onD [OF unique] p by blast
    then show "counts cf x" using p(3) by (simp add: counts_def)
  qed (auto simp: play_times_def)
  moreover have "?f p \<in> set (upd_where (\<lambda>x. vp_id x = j) ?f (plays s))" using p by (auto simp: upd_where_def)
  then have "open_at now i (s\<lparr>plays := upd_where (\<lambda>x. vp_id x = j) ?f (plays s)\<rparr>)"
    unfolding open_at_def using Some p by (intro allI impI bexI [of _ "?f p"]) auto
  ultimately show ?thesis by (simp add: beat_play_def Some)
qed

lemma rotate_keeps:
  "triple (\<lambda>s. allowance cf (pw_now w) (live s) \<and> open_at (pw_now w) (tk_play t) (live s)) (rotate_ticket cf dcf w p t v)
    (\<lambda>_. fair cf (pw_now w)) (fair cf (pw_now w))"
proof -
  define now where "now = pw_now w"
  let ?B = "\<lambda>s. allowance cf now (live s) \<and> open_at now (tk_play t) (live s)"
  let ?q = "\<lparr>gq_lesson = tk_lesson t, gq_course = tk_course t, gq_device = tk_device t, gq_rotated = Some (tk_id t), gq_play = tk_play t\<rparr>"
  have mint: "triple ?B (in_db (mint_ticket cf (pw_drm w) p v ?q now)) (\<lambda>_. fair cf now) (fair cf now)"
    using triple_in_db [OF mint_keeps [of cf now ?q]] by simp
  have released: "?B s \<Longrightarrow> ?B (s\<lparr>live := set_ticket (tk_id t) (released_ticket now) (live s)\<rparr>)" for s
    by (auto intro!: set_ticket_keeps simp: released_ticket_def) (simp add: open_at_def set_ticket_def)
  have last: "triple (fair cf now) (ret_c (BeatRotated n)) (\<lambda>_. fair cf now) (fair cf now)" for n
    by (rule triple_ret)
  have weak: "triple ?B (lift_c r) (\<lambda>_. ?B) (fair cf now)" for r :: "exn + unit"
    by (rule triple_lift) simp_all
  have read: "triple ?B (of_db g) (\<lambda>_. ?B) (fair cf now)" for g :: "db \<Rightarrow> exn + id option"
    by (rule triple_of_db)
  have store: "triple ?B (on_db (set_ticket (tk_id t) (released_ticket now))) (\<lambda>_. ?B) (fair cf now)"
    by (rule triple_on_db) (rule released)
  show ?thesis
    unfolding rotate_ticket_def now_def [symmetric]
    by (rule triple_bind [OF read], rule triple_if, rule stop_keeps, simp,
        rule triple_bind [OF weak], rule triple_bind [OF store], rule triple_bind [OF mint], rule last)
qed

lemma redis_keeps: "leaves_db m \<Longrightarrow> triple (\<lambda>s. P (live s)) m (\<lambda>_ s. P (live s)) (\<lambda>s. P (live s))"
  by (rule triple_leaves)

lemma redis_then_ret:
  "leaves_db m \<Longrightarrow> (\<And>s. P s \<Longrightarrow> fair cf now s) \<Longrightarrow> triple P (bind_c m (\<lambda>_. ret_c x)) (\<lambda>_. fair cf now) (fair cf now)"
  by (rule triple_weaken [where P' = "fair cf now"])
    (rule triple_bind [OF redis_keeps], assumption, rule triple_ret, assumption+)

lemma beating_keeps:
  assumes "pw_now w = now"
  shows "triple (\<lambda>s. allowance cf now (live s) \<and> play_open (tk_play t) (live s))
    (bind_c (on_db (\<lambda>s. s)) (\<lambda>_.
     bind_c (on_db (set_ticket (tk_id t) (beat_ticket position delta now))) (\<lambda>_.
     bind_c (touch_stream_slot (pw_redis w) (pr_user p) (pr_session p) now) (\<lambda>_.
     bind_c (on_db (beat_play (tk_play t) delta now)) (\<lambda>_.
     if tk_expires t - now < pl_interval cf * 2 * 1000
     then bind_c (of_db (\<lambda>s. find_by vd_id (tk_video t) (videos s))) (\<lambda>v.
          bind_c (the_c OtherEx v) (\<lambda>video. rotate_ticket cf dcf w p t video))
     else ret_c BeatOk)))))
    (\<lambda>_. fair cf now) (fair cf now)"
proof -
  let ?B = "\<lambda>s. allowance cf now (live s) \<and> play_open (tk_play t) (live s)"
  let ?C = "\<lambda>s. allowance cf now (live s) \<and> open_at now (tk_play t) (live s)"
  have skip: "triple ?B (on_db (\<lambda>s. s)) (\<lambda>_. ?B) (fair cf now)"
    by (rule triple_on_db) simp
  have mark: "triple ?B (on_db (set_ticket (tk_id t) (beat_ticket position delta now))) (\<lambda>_. ?B) (fair cf now)"
    by (rule triple_on_db) (auto intro!: set_ticket_keeps simp: beat_ticket_def, simp add: play_open_def set_ticket_def)
  have touch: "triple ?B (touch_stream_slot (pw_redis w) (pr_user p) (pr_session p) now) (\<lambda>_. ?B) (fair cf now)"
    using triple_leaves [OF redis_leaves_db(3), of "\<lambda>d. allowance cf now d \<and> play_open (tk_play t) d" "allowance cf now"] by simp
  have count: "triple ?B (on_db (beat_play (tk_play t) delta now)) (\<lambda>_. ?C) (fair cf now)"
    by (rule triple_on_db) (use beat_play_keeps in auto)
  have read: "triple ?C (of_db (\<lambda>s. find_by vd_id (tk_video t) (videos s))) (\<lambda>_. ?C) (fair cf now)"
    by (rule triple_of_db)
  have found: "triple ?C (the_c OtherEx v) (\<lambda>_. ?C) (fair cf now)" for v :: "video_row option"
    by (rule triple_the) simp_all
  have ok: "triple ?C (ret_c BeatOk) (\<lambda>_. fair cf now) (fair cf now)" by (rule triple_ret) simp
  have turn: "triple ?C (rotate_ticket cf dcf w p t v) (\<lambda>_. fair cf now) (fair cf now)" for v
    using rotate_keeps [of cf w t] unfolding assms .
  show ?thesis
    by (rule triple_bind [OF skip], rule triple_bind [OF mark], rule triple_bind [OF touch], rule triple_bind [OF count],
        rule triple_if, rule triple_bind [OF read], rule triple_bind [OF found], rule turn, rule ok)
qed

lemma beat_on_keeps:
  assumes "pl_ttl cf + pl_interval cf * 2 \<le> pl_window cf" "\<And>s. P s \<Longrightarrow> fair cf (pw_now w) s \<and> own_ticket i user (live s) = Some t"
  shows "triple P (beat_on cf dcf w (\<lambda>s. s) p b t) (\<lambda>_. fair cf (pw_now w)) (fair cf (pw_now w))"
proof -
  let ?now = "pw_now w"
  let ?B = "\<lambda>s. allowance cf ?now (live s) \<and> play_open (tk_play t) (live s)"
  have stop: "triple P (stop_playback w p (tk_id t) why r) (\<lambda>_. fair cf ?now) (fair cf ?now)" for why r
    by (rule stop_keeps) (use assms(2) in blast)
  have slot: "triple P (bind_c (release_stream_slot (pw_redis w) (pr_user p) (pr_session p) ?now) (\<lambda>_. ret_c r)) (\<lambda>_. fair cf ?now) (fair cf ?now)" for r
    by (rule redis_then_ret [OF redis_leaves_db(4)]) (use assms(2) in blast)
  have ended: "triple P (ret_c r) (\<lambda>_. fair cf ?now) (fair cf ?now)" for r by (rule triple_ret) (use assms(2) in blast)
  have check: "triple P (of_db g) (\<lambda>_. P) (fair cf ?now)" for g :: "db \<Rightarrow> exn + (string \<times> stop_reason) option"
    by (rule triple_of_db)
  have lift: "triple P (lift_c r) (\<lambda>_. P) (fair cf ?now)" for r :: "exn + (string \<times> stop_reason) option"
    by (rule triple_lift) (use assms(2) in blast)+
  have beating: "?B s" if "P s" "tk_status t = TS_ACTIVE" "\<not> tk_expires t + pl_interval cf * 2 * 1000 < ?now" for s
    using assms(2) [OF that(1)] beating_play_open [OF _ _ that(2) _ assms(1)] that(3) by (auto simp: not_less)
  have go: "triple P m (\<lambda>_. fair cf ?now) (fair cf ?now)"
    if "triple ?B m (\<lambda>_. fair cf ?now) (fair cf ?now)" "tk_status t = TS_ACTIVE" "\<not> tk_expires t + pl_interval cf * 2 * 1000 < ?now" for m :: "beat_answer play_call"
    using that(1) by (rule triple_weaken) (use beating that(2,3) in auto)
  show ?thesis
    unfolding beat_on_def
  proof (intro triple_if)
    assume open_ticket: "tk_status t \<noteq> TS_REVOKED" "tk_status t \<noteq> TS_RELEASED"
      "\<not> (tk_status t = TS_EXPIRED \<or> tk_expires t + pl_interval cf * 2 * 1000 < ?now)"
    then have active: "tk_status t = TS_ACTIVE" "\<not> tk_expires t + pl_interval cf * 2 * 1000 < ?now" by (cases "tk_status t"; simp)+
    show "triple P (bind_c (of_db (reauthorize p t ?now)) (\<lambda>checked. bind_c (lift_c checked) (\<lambda>lost.
        case lost of
          Some (why, reason) \<Rightarrow> stop_playback w p (tk_id t) why reason
        | None \<Rightarrow>
            bind_c (on_db (\<lambda>s. s)) (\<lambda>_.
            bind_c (on_db (set_ticket (tk_id t) (beat_ticket (max 0 (bt_position b)) (beat_delta b) ?now))) (\<lambda>_.
            bind_c (touch_stream_slot (pw_redis w) (pr_user p) (pr_session p) ?now) (\<lambda>_.
            bind_c (on_db (beat_play (tk_play t) (beat_delta b) ?now)) (\<lambda>_.
            if tk_expires t - ?now < pl_interval cf * 2 * 1000
            then bind_c (of_db (\<lambda>s. find_by vd_id (tk_video t) (videos s))) (\<lambda>v.
                 bind_c (the_c OtherEx v) (\<lambda>video. rotate_ticket cf dcf w p t video))
            else ret_c BeatOk)))))))
      (\<lambda>_. fair cf ?now) (fair cf ?now)"
    proof (rule triple_bind [OF check], rule triple_bind [OF lift])
      fix checked and lost :: "(string \<times> stop_reason) option"
      show "triple P (case lost of Some (why, reason) \<Rightarrow> stop_playback w p (tk_id t) why reason
        | None \<Rightarrow>
            bind_c (on_db (\<lambda>s. s)) (\<lambda>_.
            bind_c (on_db (set_ticket (tk_id t) (beat_ticket (max 0 (bt_position b)) (beat_delta b) ?now))) (\<lambda>_.
            bind_c (touch_stream_slot (pw_redis w) (pr_user p) (pr_session p) ?now) (\<lambda>_.
            bind_c (on_db (beat_play (tk_play t) (beat_delta b) ?now)) (\<lambda>_.
            if tk_expires t - ?now < pl_interval cf * 2 * 1000
            then bind_c (of_db (\<lambda>s. find_by vd_id (tk_video t) (videos s))) (\<lambda>v.
                 bind_c (the_c OtherEx v) (\<lambda>video. rotate_ticket cf dcf w p t video))
            else ret_c BeatOk))))) (\<lambda>_. fair cf ?now) (fair cf ?now)"
      proof (cases lost)
        case None
        show ?thesis unfolding None option.case by (rule go [OF beating_keeps [OF refl]]) (rule active)+
      next
        case (Some reason)
        then show ?thesis by (cases reason) (simp add: stop)
      qed
    qed
  qed (rule slot ended stop)+
qed

lemma heartbeat_keeps:
  assumes "pl_ttl cf + pl_interval cf * 2 \<le> pl_window cf"
  shows "triple (fair cf (pw_now w)) (heartbeat cf dcf w (\<lambda>s. s) p b) (\<lambda>_. fair cf (pw_now w)) (fair cf (pw_now w))"
  unfolding heartbeat_def
proof (rule triple_bind [OF triple_of_db [where Q = "\<lambda>x s. fair cf (pw_now w) s \<and> own_ticket (bt_ticket b) (pr_user p) (live s) = x"]])
  fix x
  show "triple (\<lambda>s. fair cf (pw_now w) s \<and> own_ticket (bt_ticket b) (pr_user p) (live s) = x)
      (case x of None \<Rightarrow> fail_c (app_error PLAYBACK_TICKET_EXPIRED) | Some t \<Rightarrow> beat_on cf dcf w (\<lambda>s. s) p b t)
      (\<lambda>_. fair cf (pw_now w)) (fair cf (pw_now w))"
  proof (cases x)
    case None
    then show ?thesis unfolding None option.case by (intro triple_fail) simp
  next
    case (Some t)
    then show ?thesis unfolding Some option.case by (intro beat_on_keeps [OF assms]) auto
  qed
qed simp

section \<open>The other requests\<close>

lemma touch_only_keeps: "allowance cf now s \<Longrightarrow> allowance cf now (beat_play i 0 now s)"
  unfolding beat_play_def
  by (cases i) (auto intro!: allowance_upd_plays simp: counts_def play_times_def)

lemma slot_release_keeps:
  "triple (fair cf now) (release_stream_slot up u i n) (\<lambda>_. fair cf now) (fair cf now)"
  by (rule redis_keeps) (rule redis_leaves_db)

lemma on_db_keeps: "(\<And>s. allowance cf now s \<Longrightarrow> allowance cf now (f s)) \<Longrightarrow> triple (fair cf now) (on_db f) (\<lambda>_. fair cf now) (fair cf now)"
  by (rule triple_on_db) simp

lemma skip_keeps: "triple (fair cf now) (ret_c x) (\<lambda>_. fair cf now) (fair cf now)"
  by (rule triple_ret)

lemma release_keeps: "triple (fair cf (pw_now w)) (release w p i) (\<lambda>_. fair cf (pw_now w)) (fair cf (pw_now w))"
  unfolding release_def
proof (rule triple_bind [OF read_keeps(1)])
  fix x
  have released: "triple (fair cf (pw_now w)) (on_db (set_ticket i (released_ticket (pw_now w)))) (\<lambda>_. fair cf (pw_now w)) (fair cf (pw_now w))"
    by (rule on_db_keeps, erule set_ticket_keeps) (simp_all add: released_ticket_def)
  have touched: "triple (fair cf (pw_now w)) (on_db (beat_play j 0 (pw_now w))) (\<lambda>_. fair cf (pw_now w)) (fair cf (pw_now w))" for j
    by (rule on_db_keeps) (rule touch_only_keeps)
  show "triple (fair cf (pw_now w))
      (case x of None \<Rightarrow> ret_c ()
       | Some t \<Rightarrow>
         bind_c (if tk_status t = TS_ACTIVE then on_db (set_ticket i (released_ticket (pw_now w))) else ret_c ()) (\<lambda>_.
         bind_c (release_stream_slot (pw_redis w) (pr_user p) (pr_session p) (pw_now w)) (\<lambda>_.
         on_db (beat_play (tk_play t) 0 (pw_now w)))))
      (\<lambda>_. fair cf (pw_now w)) (fair cf (pw_now w))"
  proof (cases x)
    case None
    show ?thesis unfolding None option.case by (rule skip_keeps)
  next
    case (Some t)
    show ?thesis
      unfolding Some option.case
      by (rule triple_bind, rule triple_if, rule released, rule skip_keeps, rule triple_bind, rule slot_release_keeps, rule touched)
  qed
qed

lemma event_keeps:
  "triple (fair cf (pw_now w)) (record_security_event cf' w p threat video ticket) (\<lambda>_. fair cf (pw_now w)) (fair cf (pw_now w))"
  unfolding record_security_event_def
proof (rule triple_if [OF skip_keeps], rule triple_bind [OF read_keeps(1)])
  fix x
  have strike: "triple (fair cf (pw_now w)) (on_db (set_ticket i (\<lambda>x. x\<lparr>tk_captures := n\<rparr>))) (\<lambda>_. fair cf (pw_now w)) (fair cf (pw_now w))" for i n
    by (rule on_db_keeps, erule set_ticket_keeps) simp_all
  have revoked: "triple (fair cf (pw_now w)) (on_db (revoke_ticket i why (pw_now w))) (\<lambda>_. fair cf (pw_now w)) (fair cf (pw_now w))" for i why
    by (rule on_db_keeps) (rule revoke_ticket_keeps)
  show "triple (fair cf (pw_now w))
      (case x of None \<Rightarrow> ret_c False
       | Some t \<Rightarrow>
         bind_c (on_db (set_ticket (tk_id t) (\<lambda>x. x\<lparr>tk_captures := tk_captures t + 1\<rparr>))) (\<lambda>_.
         if pl_strikes cf' \<le> tk_captures t + 1
         then bind_c (on_db (revoke_ticket (tk_id t) ''Capture attempts in one playback session'' (pw_now w))) (\<lambda>_.
              bind_c (release_stream_slot (pw_redis w) (pr_user p) (pr_session p) (pw_now w)) (\<lambda>_. ret_c True))
         else ret_c False))
      (\<lambda>_. fair cf (pw_now w)) (fair cf (pw_now w))"
  proof (cases x)
    case None
    show ?thesis unfolding None option.case by (rule skip_keeps)
  next
    case (Some t)
    show ?thesis
      unfolding Some option.case
      by (rule triple_bind, rule strike, rule triple_if, rule triple_bind, rule revoked, rule triple_bind, rule slot_release_keeps,
          rule skip_keeps, rule skip_keeps)
  qed
qed

lemma reclaim_keeps: "triple (fair cf (pw_now w)) (reclaim_stale_slots cf' w) (\<lambda>_. fair cf (pw_now w)) (fair cf (pw_now w))"
proof -
  have one: "triple (fair cf (pw_now w)) (reclaim_one w t) (\<lambda>_. fair cf (pw_now w)) (fair cf (pw_now w))" for t
    unfolding reclaim_one_def
  proof (rule triple_bind)
    show "triple (fair cf (pw_now w)) (on_db (set_ticket (tk_id t) (\<lambda>x. x\<lparr>tk_status := TS_EXPIRED, tk_revoked_reason := Some ''Heartbeat stopped''\<rparr>)))
        (\<lambda>_. fair cf (pw_now w)) (fair cf (pw_now w))"
      by (rule on_db_keeps, erule set_ticket_keeps) simp_all
    show "triple (fair cf (pw_now w)) (case tk_session t of None \<Rightarrow> ret_c () | Some i \<Rightarrow> release_stream_slot (pw_redis w) (tk_user t) i (pw_now w))
        (\<lambda>_. fair cf (pw_now w)) (fair cf (pw_now w))"
      by (cases "tk_session t") (simp_all only: option.case skip_keeps slot_release_keeps)
  qed
  have each: "triple (fair cf (pw_now w)) (each_c (reclaim_one w) ts) (\<lambda>_. fair cf (pw_now w)) (fair cf (pw_now w))" for ts
  proof (induction ts)
    case Nil
    show ?case unfolding each_c.simps by (rule skip_keeps)
  next
    case (Cons t ts)
    show ?case unfolding each_c.simps by (rule triple_bind [OF one Cons.IH])
  qed
  show ?thesis
    unfolding reclaim_stale_slots_def by (rule triple_bind [OF read_keeps(1)], rule triple_bind [OF each], rule skip_keeps)
qed

section \<open>The allowance is never exceeded\<close>

text \<open>
  A run of requests, one after the other, with the clock. Anything else may happen to the database as
  long as it makes no play and no active ticket.
\<close>

inductive playback_step :: "play_config \<Rightarrow> device_config \<Rightarrow> time \<times> stage \<Rightarrow> time \<times> stage \<Rightarrow> bool" for cf dcf where
  pb_issue: "clk \<le> pw_now w \<Longrightarrow> pw_gaps w = [] \<Longrightarrow> issue_ticket cf dcf w p q s = (r, t) \<Longrightarrow> playback_step cf dcf (clk, s) (pw_now w, t)"
| pb_beat: "clk \<le> pw_now w \<Longrightarrow> heartbeat cf dcf w (\<lambda>s. s) p b s = (r', t) \<Longrightarrow> playback_step cf dcf (clk, s) (pw_now w, t)"
| pb_release: "clk \<le> pw_now w \<Longrightarrow> release w p i s = (r'', t) \<Longrightarrow> playback_step cf dcf (clk, s) (pw_now w, t)"
| pb_event: "clk \<le> pw_now w \<Longrightarrow> record_security_event cf w p threat video ticket s = (r3, t) \<Longrightarrow> playback_step cf dcf (clk, s) (pw_now w, t)"
| pb_reclaim: "clk \<le> pw_now w \<Longrightarrow> reclaim_stale_slots cf w s = (r4, t) \<Longrightarrow> playback_step cf dcf (clk, s) (pw_now w, t)"
| pb_revoke: "clk \<le> now \<Longrightarrow> revoke_all_tickets user why now up s = (n, t) \<Longrightarrow> playback_step cf dcf (clk, s) (now, t)"
| pb_expire: "clk \<le> now \<Longrightarrow> expire_lapsed_tickets now (live s) = (n, d) \<Longrightarrow> playback_step cf dcf (clk, s) (now, s\<lparr>live := d\<rparr>)"
| pb_other: "clk \<le> now \<Longrightarrow> tickets_only_end (live s) (live t) \<Longrightarrow> playback_step cf dcf (clk, s) (now, t)"

definition playback_start :: "time \<times> stage \<Rightarrow> bool" where
  "playback_start x \<longleftrightarrow> plays (live (snd x)) = [] \<and> tickets (live (snd x)) = []"

definition fair_at :: "play_config \<Rightarrow> time \<times> stage \<Rightarrow> bool" where
  "fair_at cf x \<longleftrightarrow> fair cf (fst x) (snd x)"

lemma fair_step:
  assumes "pl_ttl cf + pl_interval cf * 2 \<le> pl_window cf" "playback_step cf dcf x y" "fair_at cf x"
  shows "fair_at cf y"
proof -
  have by_triple: "fair cf now t" if "triple (fair cf now) m (\<lambda>_. fair cf now) (fair cf now)" "m s = (r, t)" "fair cf clk s" "clk \<le> now"
    for m :: "'r play_call" and s t r and clk now
    using tripleD [OF that(1)] that(2) allowance_later [OF that(3,4)] by (cases r) blast+
  from assms(2,3) show ?thesis
  proof (cases rule: playback_step.cases)
    case (pb_issue clk w p q s r t)
    with by_triple [OF issue_keeps pb_issue(5) _ pb_issue(3)] assms(3) show ?thesis by (simp add: fair_at_def)
  next
    case (pb_beat clk w p b s r t)
    with by_triple [OF heartbeat_keeps [OF assms(1)] pb_beat(4) _ pb_beat(3)] assms(3) show ?thesis by (simp add: fair_at_def)
  next
    case (pb_release clk w p i s r t)
    with by_triple [OF release_keeps pb_release(4) _ pb_release(3)] assms(3) show ?thesis by (simp add: fair_at_def)
  next
    case (pb_event clk w p threat video ticket s r t)
    with by_triple [OF event_keeps pb_event(4) _ pb_event(3)] assms(3) show ?thesis by (simp add: fair_at_def)
  next
    case (pb_reclaim clk w s r t)
    with by_triple [OF reclaim_keeps pb_reclaim(4) _ pb_reclaim(3)] assms(3) show ?thesis by (simp add: fair_at_def)
  next
    case (pb_revoke clk now user why up s n t)
    have "tickets_only_end (live s) (live t)"
      using pb_revoke(4) unfolding revoke_all_tickets_def end_tickets_def
      by (auto intro!: tickets_only_end_map)
    with pb_revoke assms(3) show ?thesis
      by (auto simp: fair_at_def intro: allowance_frame allowance_later)
  next
    case (pb_expire clk now s n d)
    have "tickets_only_end (live s) d"
      using pb_expire(4) unfolding expire_lapsed_tickets_def by (auto intro!: tickets_only_end_map)
    with pb_expire assms(3) show ?thesis
      by (auto simp: fair_at_def intro: allowance_frame allowance_later)
  next
    case (pb_other clk now s t)
    with assms(3) show ?thesis by (auto simp: fair_at_def intro: allowance_frame allowance_later)
  qed
qed

text \<open>C18: the allowance of plays is never exceeded. Where the resume window is at least the life of a ticket and its
  grace, no sequence of issued tickets, beats, rotations, releases, reports and revocations, in any
  order and with any sign-ins and administration between them, leaves a student with more plays of a
  video that count than the limit, however they reopen, abandon and resume it.\<close>

theorem allowance_never_exceeded:
  assumes "pl_ttl cf + pl_interval cf * 2 \<le> pl_window cf" "playback_start x" "(playback_step cf dcf)\<^sup>*\<^sup>* x y"
  shows "counted_plays cf user video (live (snd y)) \<le> pl_max_plays cf"
proof -
  have "fair_at cf x"
    using assms(2) by (simp add: playback_start_def fair_at_def allowance_def counted_plays_def plays_of_def)
  with assms(3) have "fair_at cf y" by (induction rule: rtranclp_induct) (auto intro: fair_step [OF assms(1)])
  then show ?thesis by (simp add: fair_at_def allowance_def)
qed

end
