(* ===== verification/PlaybackGate.thy ===== *)
theory PlaybackGate
  imports PlaybackSafety MediaGate
begin

text \<open>
  What a ticket, a beat and a chosen lecture prove about the access of the student at that moment, and
  what the race of two requests for the last play does.
\<close>

lemma stage_call_iffs [result_simps]:
  "of_db q s = (Inr x, t) \<longleftrightarrow> x = q (live s) \<and> t = s"
  "lift_c r s' = (Inr y, t') \<longleftrightarrow> r = Inr y \<and> t' = s'"
  "on_db f u = (Inr z, v) \<longleftrightarrow> v = u\<lparr>live := f (live u)\<rparr>"
  "in_db m u' = (Inr x', v') \<longleftrightarrow> (\<exists>d. m (live u') = (Inr x', d) \<and> v' = u'\<lparr>live := d\<rparr>)"
  "read_c g k = (Inr a, k') \<longleftrightarrow> a = g k \<and> k' = k"
  "write_c h l = (Inr c, l') \<longleftrightarrow> l' = h l"
  "ret_c d' i = (Inr e, i') \<longleftrightarrow> e = d' \<and> i' = i"
  "fail_c er j = (Inr fr, j') \<longleftrightarrow> False"
  by (auto simp: of_db_def lift_c_def on_db_def in_db_def read_c_def write_c_def ret_c_def fail_c_def split: prod.splits)

lemma redis_live:
  "acquire_stream_slot cf up u i now s = (r, t) \<Longrightarrow> live t = live s"
  "enforce_issuance_rate cf up u now s = (r, t) \<Longrightarrow> live t = live s"
  "touch_stream_slot up u i now s = (r, t) \<Longrightarrow> live t = live s"
  "release_stream_slot up u i now s = (r, t) \<Longrightarrow> live t = live s"
  using redis_leaves_db [unfolded leaves_db_def] by (metis snd_conv)+

section \<open>The lecture of a video\<close>

lemma order_shared_set: "set (order_shared_candidates origin full cs) = set cs"
  by (auto simp: order_shared_candidates_def Let_def)

lemma find_append: "List.find P (xs @ ys) = (case List.find P xs of None \<Rightarrow> List.find P ys | Some x \<Rightarrow> Some x)"
  by (induction xs) auto

lemma authorized_iff: "authorized p now s l \<longleftrightarrow> authorize_lesson p l now s = Inr ()"
  by (auto simp: authorized_def split: sum.splits)

lemma chosen_lesson:
  assumes "choose_lesson p v named now s = Inr l"
  shows "l \<in> set (video_lessons (vd_id v) s) \<and> authorize_lesson p l now s = Inr () \<and> (\<forall>i. named = Some i \<longrightarrow> ls_id l = i)"
proof (cases named)
  case (Some i)
  then show ?thesis
    using assms by (auto simp: choose_lesson_def Let_def result_simps split: if_splits option.splits dest: find_by_Some)
next
  case None
  let ?atts = "video_lessons (vd_id v) s"
  let ?ord = "order_shared_candidates (\<lambda>l. Some (ls_id l) = vd_lesson v) (\<lambda>l. full_access p now s (ls_course l)) ?atts"
  have ne: "?atts \<noteq> []" using assms by (auto simp: choose_lesson_def)
  then have hd: "hd ?ord \<in> set ?atts" by (metis hd_in_set order_shared_set set_empty)
  show ?thesis
    using assms None ne hd
    by (auto simp: choose_lesson_def Let_def result_simps order_shared_set split: if_splits option.splits
        dest!: find_Some simp: authorized_iff)
qed

text \<open>a shared video is played as a lecture of the student's own. A request that names no lecture succeeds exactly
  when some live lecture of the video would let the student in, the lecture used is one of those, and
  a lecture of a course the student has full access to comes before every preview elsewhere.\<close>

theorem shared_video_lecture:
  assumes "2 \<le> length (video_lessons (vd_id v) s)"
  shows "((\<exists>l. choose_lesson p v None now s = Inr l) \<longleftrightarrow> (\<exists>l \<in> set (video_lessons (vd_id v) s). authorize_lesson p l now s = Inr ()))
    \<and> (\<forall>l k. choose_lesson p v None now s = Inr l \<longrightarrow> k \<in> set (video_lessons (vd_id v) s) \<longrightarrow> authorize_lesson p k now s = Inr () \<longrightarrow>
        full_access p now s (ls_course k) \<longrightarrow> full_access p now s (ls_course l))"
proof -
  let ?atts = "video_lessons (vd_id v) s"
  let ?full = "\<lambda>l. full_access p now s (ls_course l)"
  let ?origin = "\<lambda>l. Some (ls_id l) = vd_lesson v"
  let ?first = "filter ?origin ?atts @ filter (\<lambda>c. \<not> ?origin c) ?atts"
  let ?ord = "order_shared_candidates ?origin ?full ?atts"
  have ne: "?atts \<noteq> []" "length ?atts \<noteq> 1" using assms by auto
  have unfolded: "choose_lesson p v None now s = (case List.find (authorized p now s) ?ord of Some l \<Rightarrow> Inr l
      | None \<Rightarrow> bind_r (authorize_lesson p (hd ?ord) now s) (\<lambda>_. Inr (hd ?ord)))"
    using ne by (simp add: choose_lesson_def Let_def)
  have some: "\<exists>l. choose_lesson p v None now s = Inr l" if "k \<in> set ?atts" "authorize_lesson p k now s = Inr ()" for k
  proof -
    have "List.find (authorized p now s) ?ord \<noteq> None"
      using that unfolding find_None_iff order_shared_set authorized_iff by blast
    then show ?thesis unfolding unfolded by auto
  qed
  have own: "?full l" if c: "choose_lesson p v None now s = Inr l" and k: "k \<in> set ?atts" "authorize_lesson p k now s = Inr ()" "?full k" for l k
  proof -
    have "k \<in> set (filter ?full ?first)" using k by auto
    then have "List.find (authorized p now s) (filter ?full ?first) \<noteq> None"
      using k(2) unfolding find_None_iff authorized_iff by blast
    then obtain m where m: "List.find (authorized p now s) (filter ?full ?first) = Some m" by blast
    then have "List.find (authorized p now s) ?ord = Some m"
      by (simp only: order_shared_candidates_def Let_def find_append m option.case)
    then have "l = m" using c unfolding unfolded by simp
    then show ?thesis using find_Some [OF m] by auto
  qed
  show ?thesis using some own chosen_lesson by blast
qed

section \<open>What a ticket proves\<close>

lemma claim_once_live: "claim_once cf user video (no_gaps now) s = (Inr (Some x), t) \<Longrightarrow>
    vp_user x = user \<and> vp_video x = video \<and> users t = users s \<and> tickets t = tickets s"
  by (auto simp: claim_once_def no_gaps_def create_play_def new_play_def touch_play_def close_plays_def open_play_def plays_of_def
      bind_require_c split: option.splits if_splits dest!: latest_play_mem)

lemma claim_play_live: "claim_play cf user video [] now s = (Inr x, t) \<Longrightarrow>
    vp_user x = user \<and> vp_video x = video \<and> users t = users s \<and> tickets t = tickets s"
  by (auto simp: result_simps split: option.splits dest: claim_once_live)

lemma mint_effect:
  "mint_ticket cf verified p v q now s = (Inr t, u) \<Longrightarrow>
     assert_strict_drm_gate cf verified v = Inr () \<and> t = new_ticket cf p (vd_id v) q now s \<and> u = insert_ticket t s"
  by (auto simp: mint_ticket_def result_simps)

text \<open>C16: what a ticket proves. A ticket is issued only for a finished, undeleted video that the DRM gate passes, in a
  live lecture it is attached to (the one named, if one was), whose publication, course, section and
  release checks all pass at that moment for that student, on a device of theirs bound to the
  session; it is new, active, theirs, and belongs to a play of theirs unless the lecture is a free
  preview.\<close>

theorem ticket_proves_access:
  assumes "issue_ticket cf dcf w p q s = (Inr t, u)" "pw_gaps w = []" "pr_role p = R_STUDENT"
  shows "(\<exists>v l d. playable_video (iq_video q) (live s) = Inr v \<and> tk_video t = vd_id v
      \<and> l \<in> set (video_lessons (vd_id v) (live s)) \<and> (\<forall>i. iq_lesson q = Some i \<longrightarrow> ls_id l = i)
      \<and> tk_lesson t = ls_id l \<and> tk_course t = ls_course l \<and> authorize_lesson p l (pw_now w) (live s) = Inr ()
      \<and> assert_device_authorized dcf (pr_user p) R_STUDENT (pr_key p) (pr_device p) (iq_suspect q) (live s) = Inr (Some d) \<and> tk_device t = Some d
      \<and> assert_strict_drm_gate cf (pw_drm w) v = Inr () \<and> (tk_play t = None \<longleftrightarrow> ls_preview l))
    \<and> tk_status t = TS_ACTIVE \<and> tk_user t = pr_user p \<and> tk_session t = Some (pr_session p) \<and> tk_expires t = pw_now w + pl_ttl cf * 1000
    \<and> tickets (live u) = tickets (live s) @ [t]"
proof -
  let ?now = "pw_now w"
  from assms(1) obtain a s1 v l dev a' s2 play s3 where
    s1: "enforce_issuance_rate cf (pw_redis w) (pr_user p) ?now s = (Inr a, s1)"
    and v: "playable_video (iq_video q) (live s1) = Inr v"
    and l: "choose_lesson p v (iq_lesson q) ?now (live s1) = Inr l"
    and dev: "assert_device_authorized dcf (pr_user p) (pr_role p) (pr_key p) (pr_device p) (iq_suspect q) (live s1) = Inr dev"
    and s2: "acquire_stream_slot cf (pw_redis w) (pr_user p) (pr_session p) ?now s1 = (Inr a', s2)"
    and play: "(if pr_role p = R_STUDENT \<and> \<not> ls_preview l
             then bind_c (in_db (claim_play cf (pr_user p) (iq_video q) (pw_gaps w) ?now)) (\<lambda>x. ret_c (Some (vp_id x)))
             else ret_c None) s2 = (Inr play, s3)"
    and mint: "in_db (mint_ticket cf (pw_drm w) p v
       \<lparr>gq_lesson = ls_id l, gq_course = ls_course l, gq_device = dev, gq_rotated = None, gq_play = play\<rparr> ?now) s3 = (Inr t, u)"
    unfolding issue_ticket_def bind_c_Inr_iff stage_call_iffs by blast
  have live1: "live s1 = live s" "live s2 = live s" using redis_live s1 s2 by metis+
  have p3: "tickets (live s3) = tickets (live s)" "(play = None \<longleftrightarrow> ls_preview l)"
    using play assms(2,3) live1
    by (auto simp: result_simps simp del: claim_play.simps split: if_splits dest!: claim_play_live)
  from dev obtain d where d: "dev = Some d" using assms(3) by (auto simp: assert_device_authorized_def split: option.splits if_splits)
  from mint obtain m where m: "mint_ticket cf (pw_drm w) p v
      \<lparr>gq_lesson = ls_id l, gq_course = ls_course l, gq_device = dev, gq_rotated = None, gq_play = play\<rparr> ?now (live s3) = (Inr t, m)" "u = s3\<lparr>live := m\<rparr>"
    by (auto simp: result_simps)
  note t = mint_effect [OF m(1)]
  show ?thesis
    using v l dev d t p3 chosen_lesson [OF l [unfolded live1]] assms(3) m(2)
    by (auto simp: live1 new_ticket_def insert_ticket_def)
qed

section \<open>What a beat proves\<close>

lemma stop_answer: "stop_playback w p i why r s = (Inr a, t) \<Longrightarrow> a = BeatStop r"
  by (auto simp: stop_playback_def result_simps)

lemma rotation_effect:
  assumes "rotate_ticket cf dcf w p x v s = (Inr (BeatRotated n), u)" "pr_role p = R_STUDENT"
  shows "assert_strict_drm_gate cf (pw_drm w) v = Inr () \<and> tk_rotated_from n = Some (tk_id x) \<and> tk_user n = pr_user p
    \<and> tk_lesson n = tk_lesson x \<and> tk_course n = tk_course x \<and> tk_play n = tk_play x \<and> tk_device n = tk_device x \<and> tk_status n = TS_ACTIVE
    \<and> (\<exists>d. assert_device_authorized dcf (pr_user p) R_STUDENT (pr_key p) (pr_device p) False (live s) = Inr (Some d)
        \<and> (tk_device x = None \<or> tk_device x = Some d))
    \<and> (\<forall>y \<in> set (tickets (live u)). tk_id y = tk_id x \<longrightarrow> y = n \<or> tk_status y = TS_RELEASED)"
proof -
  let ?dev = "assert_device_authorized dcf (pr_user p) R_STUDENT (pr_key p) (pr_device p) False (live s)"
  let ?q = "\<lparr>gq_lesson = tk_lesson x, gq_course = tk_course x, gq_device = tk_device x, gq_rotated = Some (tk_id x), gq_play = tk_play x\<rparr>"
  have ok: "case ?dev of Inl _ \<Rightarrow> False | Inr d \<Rightarrow> d \<noteq> None \<and> (tk_device x = None \<or> d = tk_device x)"
    using assms stop_answer by (fastforce simp: rotate_ticket_def result_simps split: if_splits)
  then obtain d where d: "?dev = Inr (Some d)" "tk_device x = None \<or> tk_device x = Some d"
    by (auto split: sum.splits dest: sym)
  from assms ok obtain m where gate: "assert_strict_drm_gate cf (pw_drm w) v = Inr ()"
    and m: "mint_ticket cf (pw_drm w) p v ?q (pw_now w) (set_ticket (tk_id x) (released_ticket (pw_now w)) (live s)) = (Inr n, m)" "live u = m"
    by (auto simp: rotate_ticket_def result_simps)
  from mint_effect [OF m(1)] m(2)
  have n: "n = new_ticket cf p (vd_id v) ?q (pw_now w) (set_ticket (tk_id x) (released_ticket (pw_now w)) (live s))"
    "tickets (live u) = upd_where (\<lambda>t. tk_id t = tk_id x) (released_ticket (pw_now w)) (tickets (live s)) @ [n]"
    by (simp_all add: insert_ticket_def set_ticket_def)
  have "y = n \<or> tk_status y = TS_RELEASED" if "y \<in> set (tickets (live u))" "tk_id y = tk_id x" for y
    using that unfolding n(2) by (auto dest!: upd_where_elem simp: released_ticket_def split: if_splits)
  then show ?thesis using gate d n(1) by (auto simp: new_ticket_def)
qed

lemma device_authorized_student:
  assumes "assert_device_authorized dcf user R_STUDENT key session_device suspect s = Inr (Some d)"
  shows "\<exists>dev \<in> set (devices s). dv_id dev = d \<and> dv_user dev = user \<and> key = Some (dv_key dev) \<and> dv_status dev = DV_ACTIVE
    \<and> session_device \<in> {None, Some d}"
  using assms by (auto simp: assert_device_authorized_def find_device_def split: option.splits if_splits dest!: find_Some)

lemma of_db_bind: "bind_c (of_db f) g s = g (f (live s)) s"
  by (simp add: bind_c_def of_db_def)

lemma lift_bind: "bind_c (lift_c (Inr x)) g s = g x s"
  by (simp add: bind_c_def lift_c_def)

text \<open>What a beat writes before it rotates does not touch the devices.\<close>

lemma beat_keeps_devices:
  assumes "bind_c (on_db gap) (\<lambda>_. bind_c (on_db (set_ticket i f)) (\<lambda>_. bind_c (touch_stream_slot up user session now) (\<lambda>_.
     bind_c (on_db (beat_play play k now)) m))) s = (Inr a, u)"
  shows "\<exists>s'. m () s' = (Inr a, u) \<and> devices (live s') = devices (gap (live s))"
  using assms
  by (cases play) (auto simp: result_simps set_ticket_def beat_play_def dest!: redis_live)

text \<open>C17: what a beat proves. A beat that lets playback go on, or rotates the ticket, proves that the ticket was the
  student's, active and not expired beyond the grace, that no capture was reported, and that at that
  moment the course and the section were open to the student. A rotation also proves that the DRM gate
  passed again and that the device of the request is an active device of that student, the one the
  session is bound to and the ticket was issued on. The new ticket stays in the lecture, course, play
  and device of the old one, which is released: a ticket id cannot be kept alive past its access.\<close>

theorem beat_proves_access:
  assumes "heartbeat cf dcf w gap p b s = (Inr a, u)" "a = BeatOk \<or> a = BeatRotated n" "pr_role p = R_STUDENT"
  shows "\<exists>x. own_ticket (bt_ticket b) (pr_user p) (live s) = Some x \<and> tk_status x = TS_ACTIVE
    \<and> pw_now w \<le> tk_expires x + pl_interval cf * 2 * 1000 \<and> \<not> bt_capture b
    \<and> (\<exists>d. resolve (Some (pr_user p)) (Some R_STUDENT) (tk_course x) (pw_now w) (live s) = Inr d \<and> ad_can d)
    \<and> (\<forall>l. find_by ls_id (tk_lesson x) (lessons (live s)) = Some l \<and> \<not> ls_preview l \<longrightarrow>
        assert_section_accessible (pr_user p) (tk_course x) (ls_section l) (live s) = Inr ())
    \<and> (a = BeatRotated n \<longrightarrow> pl_drm cf \<and> pw_drm w
        \<and> (\<exists>dev \<in> set (devices (gap (live s))). dv_user dev = pr_user p \<and> pr_key p = Some (dv_key dev) \<and> dv_status dev = DV_ACTIVE
            \<and> pr_device p \<in> {None, Some (dv_id dev)} \<and> tk_device x \<in> {None, Some (dv_id dev)})
        \<and> tk_rotated_from n = Some (tk_id x) \<and> tk_user n = pr_user p
        \<and> tk_lesson n = tk_lesson x \<and> tk_course n = tk_course x \<and> tk_play n = tk_play x \<and> tk_device n = tk_device x \<and> tk_status n = TS_ACTIVE
        \<and> (\<forall>y \<in> set (tickets (live u)). tk_id y = tk_id x \<longrightarrow> y = n \<or> tk_status y = TS_RELEASED))"
proof -
  from assms(1) obtain x where x: "own_ticket (bt_ticket b) (pr_user p) (live s) = Some x" "beat_on cf dcf w gap p b x s = (Inr a, u)"
    by (auto simp: heartbeat_def result_simps split: option.splits)
  have go: "a \<noteq> BeatStop r" for r using assms(2) by auto
  have open_ticket: "tk_status x \<noteq> TS_REVOKED" "tk_status x \<noteq> TS_RELEASED" "tk_status x \<noteq> TS_EXPIRED"
    "\<not> tk_expires x + pl_interval cf * 2 * 1000 < pw_now w" "\<not> bt_capture b"
    using x(2) go by (auto simp: beat_on_def result_simps dest: stop_answer split: if_splits)
  then have active: "tk_status x = TS_ACTIVE" by (cases "tk_status x") auto
  obtain lost where lost: "reauthorize p x (pw_now w) (live s) = Inr lost"
    using x(2) open_ticket by (auto simp: beat_on_def result_simps)
  have re: "reauthorize p x (pw_now w) (live s) = Inr None"
  proof (cases lost)
    case (Some reason)
    then have "stop_playback w p (tk_id x) (fst reason) (snd reason) s = (Inr a, u)"
      using x(2) open_ticket lost by (cases reason) (auto simp: beat_on_def result_simps)
    then show ?thesis using stop_answer go by blast
  qed (use lost in simp)
  then have can: "\<exists>d. resolve (Some (pr_user p)) (Some R_STUDENT) (tk_course x) (pw_now w) (live s) = Inr d \<and> ad_can d"
    "\<forall>l. find_by ls_id (tk_lesson x) (lessons (live s)) = Some l \<and> \<not> ls_preview l \<longrightarrow>
        assert_section_accessible (pr_user p) (tk_course x) (ls_section l) (live s) = Inr ()"
    using assms(3) by (auto simp: reauthorize_def result_simps split: if_splits option.splits sum.splits)
  have rot: "\<exists>v s'. rotate_ticket cf dcf w p x v s' = (Inr (BeatRotated n), u) \<and> devices (live s') = devices (gap (live s))"
    if "a = BeatRotated n"
  proof -
    let ?m = "\<lambda>_ :: unit. if tk_expires x - pw_now w < pl_interval cf * 2 * 1000
            then bind_c (of_db (\<lambda>s. find_by vd_id (tk_video x) (videos s))) (\<lambda>v.
                 bind_c (the_c OtherEx v) (\<lambda>video. rotate_ticket cf dcf w p x video))
            else ret_c BeatOk"
    have "\<exists>s'. ?m () s' = (Inr a, u) \<and> devices (live s') = devices (gap (live s))"
      by (rule beat_keeps_devices) (use x(2) open_ticket re in \<open>simp add: beat_on_def of_db_bind lift_bind\<close>)
    then show ?thesis using that by (auto simp: result_simps split: if_splits)
  qed
  have "pl_drm cf \<and> pw_drm w
        \<and> (\<exists>dev \<in> set (devices (gap (live s))). dv_user dev = pr_user p \<and> pr_key p = Some (dv_key dev) \<and> dv_status dev = DV_ACTIVE
            \<and> pr_device p \<in> {None, Some (dv_id dev)} \<and> tk_device x \<in> {None, Some (dv_id dev)})
        \<and> tk_rotated_from n = Some (tk_id x) \<and> tk_user n = pr_user p
        \<and> tk_lesson n = tk_lesson x \<and> tk_course n = tk_course x \<and> tk_play n = tk_play x \<and> tk_device n = tk_device x \<and> tk_status n = TS_ACTIVE
        \<and> (\<forall>y \<in> set (tickets (live u)). tk_id y = tk_id x \<longrightarrow> y = n \<or> tk_status y = TS_RELEASED)"
    if rotated: "a = BeatRotated n"
  proof -
    obtain v s' where r: "rotate_ticket cf dcf w p x v s' = (Inr (BeatRotated n), u)" "devices (live s') = devices (gap (live s))"
      using rot [OF rotated] by blast
    note e = rotation_effect [OF r(1) assms(3)]
    then have "pl_drm cf \<and> pw_drm w" by (auto simp: assert_strict_drm_gate_def split: if_splits)
    moreover have "\<exists>dev \<in> set (devices (gap (live s))). dv_user dev = pr_user p \<and> pr_key p = Some (dv_key dev) \<and> dv_status dev = DV_ACTIVE
            \<and> pr_device p \<in> {None, Some (dv_id dev)} \<and> tk_device x \<in> {None, Some (dv_id dev)}"
      using e r(2) by (fastforce dest!: device_authorized_student)
    ultimately show ?thesis using e by blast
  qed
  with x(1) active open_ticket(4,5) can show ?thesis by (metis not_less)
qed

text \<open>access lost is playback ended. The first beat after the course closed to the student revokes the ticket and says
  so, and from then on the edge serves no segment for it.\<close>

theorem lost_access_ends_playback:
  assumes "own_ticket (bt_ticket b) (pr_user p) (live s) = Some x" "tk_status x = TS_ACTIVE"
    and "pw_now w \<le> tk_expires x + pl_interval cf * 2 * 1000" "\<not> bt_capture b"
    and "resolve (Some (pr_user p)) (Some (pr_role p)) (tk_course x) (pw_now w) (live s) = Inr d" "\<not> ad_can d"
  shows "\<exists>u. heartbeat cf dcf w gap p b s = (Inr (BeatStop (StopCode (case ad_denial d of Some c \<Rightarrow> c | None \<Rightarrow> PLAYBACK_DENIED))), u)
    \<and> (\<forall>y \<in> set (tickets (live u)). tk_id y = bt_ticket b \<longrightarrow> tk_status y = TS_REVOKED)
    \<and> \<not> video_ticket_live cf (bt_ticket b) (pr_user p) now (live u)"
proof -
  have i: "tk_id x = bt_ticket b" using assms(1) by (auto simp: own_ticket_def dest: find_Some)
  define m where "m = s\<lparr>live := revoke_ticket (tk_id x) ''Access lost mid-playback'' (pw_now w) (live s)\<rparr>"
  obtain u where u: "release_stream_slot (pw_redis w) (pr_user p) (pr_session p) (pw_now w) m = (Inr (), u)"
    by (cases "pw_redis w") (simp_all add: release_stream_slot_def)
  have "reauthorize p x (pw_now w) (live s)
      = Inr (Some (''Access lost mid-playback'', StopCode (case ad_denial d of Some c \<Rightarrow> c | None \<Rightarrow> PLAYBACK_DENIED)))"
    using assms(5,6) by (simp add: reauthorize_def)
  then have h: "heartbeat cf dcf w gap p b s = (Inr (BeatStop (StopCode (case ad_denial d of Some c \<Rightarrow> c | None \<Rightarrow> PLAYBACK_DENIED))), u)"
    using assms(1-4) u
    by (auto simp: heartbeat_def beat_on_def stop_playback_def result_simps m_def not_less)
  have "live u = revoke_ticket (tk_id x) ''Access lost mid-playback'' (pw_now w) (live s)"
    using redis_live(4) [OF u] by (simp add: m_def)
  then have revoked: "\<forall>y \<in> set (tickets (live u)). tk_id y = bt_ticket b \<longrightarrow> tk_status y = TS_REVOKED"
    using i by (auto simp: revoke_ticket_def set_ticket_def dest!: upd_where_elem simp: revoked_ticket_def split: if_splits)
  have "\<not> video_ticket_live cf (bt_ticket b) (pr_user p) now (live u)"
    using revoked by (auto simp: video_ticket_live_def own_ticket_def split: option.splits dest!: find_Some)
  with h revoked show ?thesis by blast
qed

section \<open>The race for the last play\<close>

text \<open>
  Two first requests at the same instant. Where they collide on the number, the loser finds the
  winner's play and resumes it. Where the winner commits between the loser's count and its read of the
  highest number, nothing collides: both create a play, and the allowance is exceeded.
\<close>

definition race_config :: play_config where
  "race_config = \<lparr>pl_ttl = 300, pl_window = 2700, pl_min_counted = 30, pl_max_plays = 1, pl_per_hour = 60,
     pl_max_streams = 1, pl_grace = 90, pl_interval = 30, pl_strikes = 3, pl_drm = True\<rparr>"

definition rival :: "db \<Rightarrow> db" where
  "rival s = snd (claim_play race_config 1 5 [] 1000 s)"

lemma collision_shares_the_play:
  "counted_plays race_config 1 5 (snd (claim_play race_config 1 5
     [\<lparr>cg_now = 1000, cg_close = (\<lambda>s. s), cg_count = (\<lambda>s. s), cg_highest = (\<lambda>s. s), cg_create = rival\<rparr>] 1001 empty_db)) = 1"
  by code_simp

lemma race_exceeds_allowance:
  "counted_plays race_config 1 5 (snd (claim_play race_config 1 5
     [\<lparr>cg_now = 1000, cg_close = (\<lambda>s. s), cg_count = (\<lambda>s. s), cg_highest = rival, cg_create = (\<lambda>s. s)\<rparr>] 1001 empty_db)) = 2"
  by code_simp

text \<open>The key of the slots lapses four graces after the acquisition, though the stream beats on.\<close>

lemma slots_lapse_while_beating:
  "slot_members 1 361000 (snd (touch_stream_slot True 1 7 350000
     (snd (acquire_stream_slot race_config True 1 7 1000 \<lparr>live = empty_db, slots = [], rates = []\<rparr>)))) = []"
  by code_simp

section \<open>A student watches\<close>

definition hall_lesson :: "id \<Rightarrow> id \<Rightarrow> id \<Rightarrow> bool \<Rightarrow> lesson_row" where
  "hall_lesson i sec course preview = \<lparr>ls_id = i, ls_section = sec, ls_course = course, ls_status = CT_PUBLISHED,
     ls_sort = 1, ls_preview = preview, ls_duration = 0, ls_rule = None, ls_threshold = None, ls_contiguous = None, ls_deleted_at = None\<rparr>"

definition hall_db :: db where
  "hall_db = campus_db\<lparr>
     users := [\<lparr>u_id = 3, u_role = R_STUDENT, u_status = AS_ACTIVE, u_full_name = ''Mona Ali'', u_phone = ''01012345678'', u_password = ''pw'',
       u_failed_logins = 0, u_locked_until = None, u_credentials_changed = 0, u_last_login = None, u_deleted_at = None\<rparr>],
     devices := [\<lparr>dv_id = 70, dv_user = 3, dv_key = ''d'', dv_name = ''phone'', dv_status = DV_ACTIVE, dv_suspect = False, dv_last_seen = 0,
       dv_approved_at = Some 0, dv_approved_by = None, dv_revoked_at = None, dv_revoked_reason = None\<rparr>],
     sections := sections campus_db @ [\<lparr>s_id = 32, s_course = 11, s_part = None, s_sort = 1, s_status = CT_PUBLISHED, s_unlocks_at = None,
       s_deleted_at = None\<rparr>],
     lessons := [hall_lesson 50 31 12 False, hall_lesson 51 32 11 True],
     videos := [(blank_video 80 11 (Some 51) 0)\<lparr>vd_status := VS_READY, vd_gumlet_status := Some ''ready''\<rparr>],
     lesson_videos := [\<lparr>lv_lesson = 51, lv_video = 80, lv_sort = 0, lv_created_by = None, lv_created = 1\<rparr>,
       \<lparr>lv_lesson = 50, lv_video = 80, lv_sort = 0, lv_created_by = None, lv_created = 2\<rparr>]\<rparr>"

definition hall :: stage where
  "hall = \<lparr>live = hall_db, slots = [], rates = []\<rparr>"

definition watcher :: principal where
  "watcher = \<lparr>pr_user = 3, pr_role = R_STUDENT, pr_status = AS_ACTIVE, pr_session = 11, pr_device = Some 70, pr_key = Some ''d''\<rparr>"

definition hall_devices :: device_config where
  "hall_devices = \<lparr>cf_limit = 1, cf_auto_bind = True, cf_block = True\<rparr>"

definition hall_world :: "time \<Rightarrow> play_world" where
  "hall_world now = \<lparr>pw_now = now, pw_redis = True, pw_drm = True, pw_gaps = []\<rparr>"

definition hall_issue :: "(exn + ticket_row) \<times> stage" where
  "hall_issue = issue_ticket race_config hall_devices (hall_world 1000) watcher \<lparr>iq_video = 80, iq_lesson = None, iq_suspect = False\<rparr> hall"

definition hall_beat :: beat where
  "hall_beat = \<lparr>bt_ticket = 91, bt_position = 20, bt_delta = 20, bt_capture = False\<rparr>"

lemma shared_video_lecture_witness:
  "\<exists>l. choose_lesson watcher (hd (videos hall_db)) None 1000 hall_db = Inr l \<and> full_access watcher 1000 hall_db (ls_course l)"
proof -
  have two: "2 \<le> length (video_lessons (vd_id (hd (videos hall_db))) hall_db)" by code_simp
  have own: "hall_lesson 50 31 12 False \<in> set (video_lessons (vd_id (hd (videos hall_db))) hall_db)"
    "authorize_lesson watcher (hall_lesson 50 31 12 False) 1000 hall_db = Inr ()"
    "full_access watcher 1000 hall_db (ls_course (hall_lesson 50 31 12 False))" by code_simp+
  show ?thesis using shared_video_lecture [OF two, of watcher 1000] own by blast
qed

lemma ticket_proves_access_witness:
  "case hall_issue of (Inr t, u) \<Rightarrow> tk_user t = 3 \<and> tickets (live u) = [t] | _ \<Rightarrow> False"
proof -
  obtain t u where i: "hall_issue = (Inr t, u)"
  proof
    show "hall_issue = (Inr (projr (fst hall_issue)), snd hall_issue)" by code_simp
  qed
  have h: "pw_gaps (hall_world 1000) = []" "pr_role watcher = R_STUDENT" "tickets (live hall) = []" "pr_user watcher = 3" by code_simp+
  show ?thesis using ticket_proves_access [OF i [unfolded hall_issue_def] h(1,2)] by (simp add: i h(3,4))
qed

lemma beat_proves_access_witness:
  "case heartbeat race_config hall_devices (hall_world 250000) (\<lambda>s. s) watcher hall_beat (snd hall_issue) of
     (Inr (BeatRotated n), u) \<Rightarrow> tk_rotated_from n = Some 91 \<and> (\<exists>dev \<in> set (devices (live (snd hall_issue))). dv_user dev = 3 \<and> dv_status dev = DV_ACTIVE)
   | _ \<Rightarrow> False"
proof -
  let ?h = "heartbeat race_config hall_devices (hall_world 250000) (\<lambda>s. s) watcher hall_beat (snd hall_issue)"
  let ?n = "case fst ?h of Inr (BeatRotated n) \<Rightarrow> n"
  have ok: "?h = (Inr (BeatRotated ?n), snd ?h)" by code_simp
  have h: "pr_role watcher = R_STUDENT" "pr_user watcher = 3" "bt_ticket hall_beat = 91" by code_simp+
  obtain x where x: "own_ticket 91 3 (live (snd hall_issue)) = Some x" "tk_rotated_from ?n = Some (tk_id x)"
    "\<exists>dev \<in> set (devices (live (snd hall_issue))). dv_user dev = 3 \<and> dv_status dev = DV_ACTIVE"
    using beat_proves_access [OF ok disjI2 [OF refl] h(1)] unfolding h by blast
  have "tk_id x = 91" using x(1) by (auto simp: own_ticket_def dest: find_Some)
  then show ?thesis by (subst ok) (simp add: x(2,3))
qed

lemma lost_access_ends_playback_witness:
  "\<not> video_ticket_live race_config 91 3 22000 (live (snd (heartbeat race_config hall_devices (hall_world 21000) (\<lambda>s. s) watcher hall_beat
     ((snd hall_issue)\<lparr>live := (live (snd hall_issue))\<lparr>enrollments := [campus_enrollment\<lparr>e_state := ES_REVOKED\<rparr>]\<rparr>\<rparr>))))"
proof -
  let ?s = "(snd hall_issue)\<lparr>live := (live (snd hall_issue))\<lparr>enrollments := [campus_enrollment\<lparr>e_state := ES_REVOKED\<rparr>]\<rparr>\<rparr>"
  let ?x = "hd (tickets (live ?s))" and ?d = "projr (resolve (Some 3) (Some R_STUDENT) 12 21000 (live ?s))"
  have h: "pr_user watcher = 3" "bt_ticket hall_beat = 91" "tk_course ?x = 12" "pr_role watcher = R_STUDENT"
    "pw_now (hall_world 21000) = 21000" by code_simp+
  have x: "own_ticket (bt_ticket hall_beat) (pr_user watcher) (live ?s) = Some ?x" "tk_status ?x = TS_ACTIVE"
    "pw_now (hall_world 21000) \<le> tk_expires ?x + pl_interval race_config * 2 * 1000" "\<not> bt_capture hall_beat"
    "resolve (Some (pr_user watcher)) (Some (pr_role watcher)) (tk_course ?x) (pw_now (hall_world 21000)) (live ?s) = Inr ?d" "\<not> ad_can ?d"
    by code_simp+
  obtain u where u: "heartbeat race_config hall_devices (hall_world 21000) (\<lambda>s. s) watcher hall_beat ?s
      = (Inr (BeatStop (StopCode (case ad_denial ?d of Some c \<Rightarrow> c | None \<Rightarrow> PLAYBACK_DENIED))), u)"
    "\<not> video_ticket_live race_config (bt_ticket hall_beat) (pr_user watcher) 22000 (live u)"
    using lost_access_ends_playback [OF x, of hall_devices "\<lambda>s. s" 22000] by blast
  show ?thesis using u(2) unfolding u(1) h snd_conv .
qed

lemma allowance_never_exceeded_witness:
  "counted_plays race_config 3 80 (live (snd hall_issue)) \<le> 1"
proof -
  have step: "playback_step race_config hall_devices (0, hall) (pw_now (hall_world 1000), snd hall_issue)"
    unfolding hall_issue_def by (rule pb_issue [OF _ _ prod.collapse [symmetric]]) (simp_all add: hall_world_def)
  have start: "playback_start (0, hall)" by (simp add: playback_start_def hall_def hall_db_def campus_db_def empty_db_def)
  have window: "pl_ttl race_config + pl_interval race_config * 2 \<le> pl_window race_config" "pl_max_plays race_config = 1"
    by (simp_all add: race_config_def)
  from step have steps: "(playback_step race_config hall_devices)\<^sup>*\<^sup>* (0, hall) (pw_now (hall_world 1000), snd hall_issue)"
    by (rule r_into_rtranclp)
  show ?thesis using allowance_never_exceeded [OF window(1) start steps, of 3 80] unfolding window(2) snd_conv .
qed

end
