(* ===== verification/CallRules.thy ===== *)
theory CallRules
  imports Calls
begin

text \<open>
  Rules that follow a service call statement by statement to the state it leaves. Where \<open>keeps\<close> asks that
  every statement keeps a condition, \<open>leaves\<close> lets a condition be broken by one statement and be restored
  by a later one.
\<close>

text \<open>
  \<open>leaves Q m s\<close> says that the state the call leaves satisfies \<open>Q\<close>, whatever it answers. The rules
  follow a call statement by statement.
\<close>

definition leaves :: "('s \<Rightarrow> bool) \<Rightarrow> ('s, 'e, 'a) call \<Rightarrow> 's \<Rightarrow> bool" where
  "leaves Q m s \<longleftrightarrow> Q (snd (m s))"

named_theorems leaving "rules that follow a call to the state it leaves"

lemma leaves_read [leaving]: "leaves Q (f (q s)) s \<Longrightarrow> leaves Q (bind_c (read_c q) f) s"
  by (simp add: leaves_def)

lemma leaves_ret [leaving]: "Q s \<Longrightarrow> leaves Q (ret_c x) s"
  by (simp add: leaves_def)

lemma leaves_ret_bind [leaving]: "leaves Q (f x) s \<Longrightarrow> leaves Q (bind_c (ret_c x) f) s"
  by simp

lemma leaves_the [leaving]: "Q s \<Longrightarrow> (\<And>x. r = Some x \<Longrightarrow> leaves Q (f x) s) \<Longrightarrow> leaves Q (bind_c (the_c e r) f) s"
  by (cases r) (simp_all add: leaves_def)

lemma leaves_require [leaving]: "Q s \<Longrightarrow> (ok \<Longrightarrow> leaves Q (f ()) s) \<Longrightarrow> leaves Q (bind_c (require_c ok e) f) s"
  by (cases ok) (simp_all add: leaves_def)

lemma leaves_commit [leaving]:
  "Q s \<Longrightarrow> (\<And>x t. m s = Inr (x, t) \<Longrightarrow> leaves Q (f x) t) \<Longrightarrow> leaves Q (bind_c (commit_c m) f) s"
  by (auto simp: leaves_def bind_c_def commit_c_def split: sum.splits)

lemma leavesD: "leaves Q m s \<Longrightarrow> Q (snd (m s))"
  by (simp add: leaves_def)

lemma leaves_write [leaving]: "leaves Q (f ()) (g s) \<Longrightarrow> leaves Q (bind_c (write_c g) f) s"
  by (simp add: leaves_def)

lemma leaves_write_last [leaving]: "Q (g s) \<Longrightarrow> leaves Q (write_c g) s"
  by (simp add: leaves_def)

lemma leaves_read_last [leaving]: "Q s \<Longrightarrow> leaves Q (read_c q) s"
  by (simp add: leaves_def)

lemma leaves_commit_last [leaving]:
  "Q s \<Longrightarrow> (\<And>x t. m s = Inr (x, t) \<Longrightarrow> Q t) \<Longrightarrow> leaves Q (commit_c m) s"
  by (auto simp: leaves_def commit_c_def split: sum.splits)

lemma leaves_fail [leaving]: "Q s \<Longrightarrow> leaves Q (fail_c e) s"
  by (simp add: leaves_def)

lemma leaves_if [leaving]:
  "(b \<Longrightarrow> leaves Q (bind_c m f) s) \<Longrightarrow> (\<not> b \<Longrightarrow> leaves Q (bind_c n f) s) \<Longrightarrow> leaves Q (bind_c (if b then m else n) f) s"
  by simp

text \<open>A call whose condition holds on the way runs on into the next.\<close>

lemma leaves_then:
  assumes "leaves Q m s" "\<And>x t. m s = (Inr x, t) \<Longrightarrow> leaves Q (f x) t"
  shows "leaves Q (bind_c m f) s"
  using assms by (auto simp: leaves_def bind_c_def split: prod.splits sum.splits)

end
