(* ===== verification/CourseParts.thy ===== *)
theory CourseParts
  imports PartGrants Access Calls
begin

text \<open>
  Dividing a course into parts (\<open>modules/course-parts/course-parts.service.ts\<close>), the parts a
  student holds (\<open>course-part-purchase.service.ts\<close>) and the price change of a course
  (\<open>CoursesAdminService.changePrice\<close>). A structural write is a call: its checks and its
  transaction are separate statements, and every write ends by listing the parts again, which can
  refuse although the write stands. Prices and percentages come as numbers of at most two
  decimals, which the request schema enforces, and are held in hundredths. Arabic titles,
  descriptions, currencies, section titles and image addresses are not modelled.
\<close>

section \<open>The price of a course\<close>

definition course_price :: "id \<Rightarrow> db \<Rightarrow> int option" where
  "course_price course s = map_option cp_amount (latest_price course s)"

definition price_text :: "int \<Rightarrow> money_value" where
  "price_text a = MStr (decimal_text a)"

section \<open>What staff see\<close>

record part_admin_view =
  pw_part :: part_row
  pw_effective :: "rat option"
  pw_sections :: "section_row list"
  pw_entitlements :: nat
  pw_purchases :: nat

record parts_admin_view =
  pa_course :: id
  pa_price :: "rat option"
  pa_error :: "string option"
  pa_parts :: "part_admin_view list"

fun join_texts :: "string list \<Rightarrow> string" where
  "join_texts [] = []"
| "join_texts [t] = t"
| "join_texts (t # ts) = t @ ''; '' @ join_texts ts"

text \<open>The developer message stands for an exception without field errors.\<close>

definition allocation_error_text :: "exn \<Rightarrow> string" where
  "allocation_error_text e =
     (case e of
        AppEx c fs \<Rightarrow>
          (let t = join_texts (concat (map snd fs)) in if t = [] then ''refused'' else t)
      | _ \<Rightarrow> ''the part prices do not add up'')"

definition parts_of_course :: "id \<Rightarrow> db \<Rightarrow> part_row list" where
  "parts_of_course course s =
     sort_key cpt_sort (filter (\<lambda>p. cpt_course p = course \<and> cpt_deleted_at p = None) (parts s))"

definition part_section_rows :: "id \<Rightarrow> db \<Rightarrow> section_row list" where
  "part_section_rows part s =
     sort_key s_sort (filter (\<lambda>x. s_part x = Some part \<and> s_deleted_at x = None) (sections s))"

definition allocated_price :: "allocation_result option \<Rightarrow> id \<Rightarrow> part_allocation option" where
  "allocated_price a part = Option.bind a (\<lambda>r. find_by al_id part (ar_parts r))"

definition admin_view :: "id \<Rightarrow> db \<Rightarrow> parts_admin_view" where
  "admin_view course s =
     (let rows = parts_of_course course s;
          price = course_price course s;
          outcome = (case price of
              None \<Rightarrow> Inr None
            | Some a \<Rightarrow> if rows = [] then Inr None
                else (case load_part_allocation course (price_text a) s of Inl e \<Rightarrow> Inl e | Inr (r, _) \<Rightarrow> Inr r));
          allocation = (case outcome of Inl _ \<Rightarrow> None | Inr r \<Rightarrow> r) in
      \<lparr>pa_course = course,
       pa_price = map_option to_egp_number price,
       pa_error = (case outcome of Inl e \<Rightarrow> Some (allocation_error_text e) | Inr _ \<Rightarrow> None),
       pa_parts = map (\<lambda>p. \<lparr>pw_part = p,
           pw_effective = map_option al_egp (allocated_price allocation (cpt_id p)),
           pw_sections = part_section_rows (cpt_id p) s,
           pw_entitlements = count_where (\<lambda>x. pe_part x = cpt_id p) (entitlements s),
           pw_purchases = count_where (\<lambda>x. pp_part x = cpt_id p) (part_purchases s)\<rparr>) rows\<rparr>)"

definition may_manage :: "id \<Rightarrow> user_role \<Rightarrow> id \<Rightarrow> course_capability \<Rightarrow> unit db_call" where
  "may_manage actor role course cap =
     commit_c (\<lambda>s. lift_tx (assert_can_manage_course actor role course cap s) s)"

definition list_for_admin :: "id \<Rightarrow> id \<Rightarrow> user_role \<Rightarrow> parts_admin_view db_call" where
  "list_for_admin course actor role =
     bind_c (may_manage actor role course CAP_CONTENT) (\<lambda>_. read_c (admin_view course))"

section \<open>What a student sees\<close>

datatype (plugins only: code) owned_via = PART_PURCHASE | FULL_COURSE

record part_view =
  pv_part :: part_row
  pv_price :: "rat option"
  pv_percent :: "rat option"
  pv_owned :: bool
  pv_since :: "time option"
  pv_via :: "owned_via option"
  pv_purchasable :: bool
  pv_sections :: "(section_row \<times> bool) list"

record parts_view =
  vw_has_parts :: bool
  vw_price :: "rat option"
  vw_owns_all :: bool
  vw_parts :: "part_view list"

definition published_course_parts :: "id \<Rightarrow> db \<Rightarrow> part_row list" where
  "published_course_parts course s =
     sort_key cpt_sort (filter (\<lambda>p. cpt_course p = course \<and> cpt_deleted_at p = None \<and> cpt_active p
       \<and> cpt_status p = CT_PUBLISHED) (parts s))"

definition published_sections :: "id \<Rightarrow> db \<Rightarrow> section_row list" where
  "published_sections part s =
     sort_key s_sort (filter (\<lambda>x. s_part x = Some part \<and> s_deleted_at x = None
       \<and> s_status x = CT_PUBLISHED) (sections s))"

text \<open>An invalid split shows the parts without a price. The map keeps the last row of a part.\<close>

definition student_allocation :: "id \<Rightarrow> db \<Rightarrow> allocation_result option" where
  "student_allocation course s =
     (case course_price course s of
        None \<Rightarrow> None
      | Some a \<Rightarrow>
          (case allocate_part_prices (map priced_part_of (published_course_parts course s)) (price_text a) of
             Inl _ \<Rightarrow> None
           | Inr r \<Rightarrow> Some r))"

definition owned_since :: "id \<Rightarrow> id \<Rightarrow> db \<Rightarrow> id \<rightharpoonup> time" where
  "owned_since user course s =
     map_of (rev (map (\<lambda>x. (pe_part x, pe_granted x))
       (filter (\<lambda>x. pe_user x = user \<and> pe_course x = course \<and> pe_revoked_at x = None) (entitlements s))))"

definition covers_everything :: "id \<Rightarrow> id \<Rightarrow> db \<Rightarrow> bool" where
  "covers_everything user course s =
     (case find_enrollment user course s of
        None \<Rightarrow> False
      | Some e \<Rightarrow> e_state e = ES_ACTIVE \<and> (e_covers_all e \<or> holds_whole_course user course s))"

definition course_part_line :: "id \<Rightarrow> id \<Rightarrow> db \<Rightarrow> part_row \<Rightarrow> part_view" where
  "course_part_line user course s p =
     (let everything = covers_everything user course s;
          since = owned_since user course s (cpt_id p);
          owned = (everything \<or> since \<noteq> None);
          line = allocated_price (student_allocation course s) (cpt_id p) in
      \<lparr>pv_part = p,
       pv_price = map_option al_egp line,
       pv_percent = Option.bind line al_percent,
       pv_owned = owned,
       pv_since = since,
       pv_via = (if since \<noteq> None then Some PART_PURCHASE else if everything then Some FULL_COURSE else None),
       pv_purchasable = (\<not> owned \<and> line \<noteq> None),
       pv_sections = map (\<lambda>x. (x, \<not> owned)) (published_sections (cpt_id p) s)\<rparr>)"

definition list_for_student :: "id \<Rightarrow> id \<Rightarrow> db \<Rightarrow> exn + parts_view" where
  "list_for_student course user s =
     (case find_course course s of
        None \<Rightarrow> Inl not_found
      | Some c \<Rightarrow>
          bind_r (require (c_status c = CS_PUBLISHED) not_found) (\<lambda>_.
          let ps = published_course_parts course s; price = map_option to_egp_number (course_price course s) in
          Inr (if ps = [] then \<lparr>vw_has_parts = False, vw_price = price, vw_owns_all = False, vw_parts = []\<rparr>
               else \<lparr>vw_has_parts = True, vw_price = price,
                     vw_owns_all = (covers_everything user course s
                        \<or> list_all (\<lambda>p. owned_since user course s (cpt_id p) \<noteq> None) ps),
                     vw_parts = map (course_part_line user course s) ps\<rparr>)))"

text \<open>The join sheet. Of the ways to pay, only the access card is ever offered.\<close>

record join_sheet =
  js_price :: "rat option"
  js_free :: bool
  js_owned :: bool
  js_purchasable :: bool
  js_has_parts :: bool
  js_owns_all :: bool
  js_parts :: "part_view list"
  js_access_code :: bool
  js_wallet :: bool
  js_online_payment :: bool
  js_methods :: "enrollment_method list"

definition join_options :: "id \<Rightarrow> id \<Rightarrow> time \<Rightarrow> db \<Rightarrow> exn + join_sheet" where
  "join_options course user now s =
     bind_r (list_for_student course user s) (\<lambda>v.
     case find_course course s of
       None \<Rightarrow> Inl not_found
     | Some c \<Rightarrow>
         (let whole = covers_everything user course s in
          Inr \<lparr>js_price = (if c_is_free c then Some 0 else vw_price v), js_free = c_is_free c, js_owned = whole,
               js_purchasable = (\<not> whole \<and> (c_is_free c \<or> vw_price v \<noteq> None)),
               js_has_parts = vw_has_parts v, js_owns_all = vw_owns_all v, js_parts = vw_parts v,
               js_access_code = True, js_wallet = False, js_online_payment = False,
               js_methods = ca_methods (to_course_access (decide (c_status c) (find_enrollment user course s) now)
                 (c_methods c) (c_status c))\<rparr>))"

section \<open>Rules of a structural write\<close>

definition assert_price_matches_model :: "part_pricing_model \<Rightarrow> int option \<Rightarrow> int option \<Rightarrow> exn + unit" where
  "assert_price_matches_model model percent amount =
     (if model = PERCENTAGE
      then require (percent \<noteq> None) (validation [(''pricePercent'', [''is required for a percentage part''])])
      else require (amount \<noteq> None) (validation [(''priceAmount'', [''is required for a fixed-price part''])]))"

definition assert_object_key_in_namespace :: "string \<Rightarrow> string \<Rightarrow> exn + unit" where
  "assert_object_key_in_namespace key namespace =
     require (take (length namespace) key = namespace) (app_error VALIDATION_ERROR)"

definition assert_part_thumbnail_key :: "string option \<Rightarrow> string \<Rightarrow> exn + unit" where
  "assert_part_thumbnail_key key namespace =
     (case key of None \<Rightarrow> Inr () | Some k \<Rightarrow> assert_object_key_in_namespace k namespace)"

definition course_thumbnails :: "id \<Rightarrow> string" where
  "course_thumbnails course = ''thumbnails/courses/'' @ show_nat course @ ''/''"

definition part_thumbnails :: "id \<Rightarrow> id \<Rightarrow> string" where
  "part_thumbnails course part = course_thumbnails course @ ''parts/'' @ show_nat part @ ''/''"

definition revalidate :: "id \<Rightarrow> unit dbtx" where
  "revalidate course =
     bind_tx (get_tx (course_price course)) (\<lambda>price.
     case price of
       None \<Rightarrow> ret_tx ()
     | Some a \<Rightarrow> bind_tx (load_part_allocation course (price_text a)) (\<lambda>_. ret_tx ()))"

definition attach_sections :: "id \<Rightarrow> id \<Rightarrow> id list \<Rightarrow> unit dbtx" where
  "attach_sections course part ids =
     bind_tx (get_tx (\<lambda>s. filter (\<lambda>x. s_id x \<in> set ids \<and> s_course x = course \<and> s_deleted_at x = None)
       (sections s))) (\<lambda>found.
     bind_tx (require_tx (length found = length ids)
       (validation [(''sectionIds'', [''these sections do not belong to this course''])])) (\<lambda>_.
     modify_tx (\<lambda>s. s\<lparr>sections := upd_where (\<lambda>x. s_id x \<in> set ids) (\<lambda>x. x\<lparr>s_part := Some part\<rparr>)
       (sections s)\<rparr>)))"

definition find_part :: "id \<Rightarrow> db \<Rightarrow> part_row option" where
  "find_part part s = List.find (\<lambda>p. cpt_id p = part \<and> cpt_deleted_at p = None) (parts s)"

definition require_part :: "id \<Rightarrow> part_row db_call" where
  "require_part part = bind_c (read_c (find_part part)) (\<lambda>p. the_c not_found p)"

text \<open>No two parts of a course share a sort order, removed parts included: the index has no condition.\<close>

definition sort_taken :: "id \<Rightarrow> id \<Rightarrow> int \<Rightarrow> db \<Rightarrow> bool" where
  "sort_taken part course v s = list_ex (\<lambda>p. cpt_id p \<noteq> part \<and> cpt_course p = course \<and> cpt_sort p = v) (parts s)"

definition sort_violation :: exn where
  "sort_violation = PrismaKnown ''P2002'' [''courseId'', ''sortOrder'']"

definition insert_part ::
  "id \<Rightarrow> string \<Rightarrow> int \<Rightarrow> part_pricing_model \<Rightarrow> int option \<Rightarrow> int option \<Rightarrow> string option \<Rightarrow> id dbtx" where
  "insert_part course title v model percent amount key =
     bind_tx fresh_id (\<lambda>i.
     bind_tx (get_tx (sort_taken i course v)) (\<lambda>taken.
     bind_tx (require_tx (\<not> taken) sort_violation) (\<lambda>_.
     bind_tx (modify_tx (\<lambda>s. s\<lparr>parts := parts s @
       [\<lparr>cpt_id = i, cpt_course = course, cpt_title = title, cpt_sort = v, cpt_status = CT_PUBLISHED,
         cpt_active = True, cpt_pricing = model, cpt_percent = percent, cpt_amount = amount,
         cpt_thumbnail = key, cpt_deleted_at = None\<rparr>]\<rparr>)) (\<lambda>_. ret_tx i))))"

definition part_audit :: "id \<Rightarrow> string \<Rightarrow> string \<Rightarrow> id \<Rightarrow> unit db_call" where
  "part_audit actor action entity i =
     write_c (\<lambda>s. s\<lparr>audit := audit s @
       [\<lparr>au_actor = Some actor, au_action = action, au_entity = entity, au_entity_id = i, au_note = []\<rparr>]\<rparr>)"

section \<open>The writes\<close>

text \<open>The default structure, 60/40. The dash of the two titles is written as a hyphen.\<close>

definition default_part_structure :: "(string \<times> int) list" where
  "default_part_structure =
     [(''Part 1 - Before Mid + Revision'', 6000), (''Part 2 - After Mid + Revision'', 4000)]"

definition default_parts_tx :: "id \<Rightarrow> unit dbtx" where
  "default_parts_tx course =
     each_tx (\<lambda>(k, title, percent).
       bind_tx (insert_part course title (int k + 1) PERCENTAGE (Some percent) None None) (\<lambda>_. ret_tx ()))
       (enumerate 0 default_part_structure)"

definition create_default_structure :: "id \<Rightarrow> id \<Rightarrow> user_role \<Rightarrow> parts_admin_view db_call" where
  "create_default_structure course actor role =
     bind_c (may_manage actor role course CAP_PRICING) (\<lambda>_.
     bind_c (read_c (find_course course)) (\<lambda>c.
     bind_c (the_c not_found c) (\<lambda>_.
     bind_c (read_c (parts_of_course course)) (\<lambda>existing.
     bind_c (require_c (existing = []) conflict) (\<lambda>_.
     bind_c (commit_c (default_parts_tx course)) (\<lambda>_.
     bind_c (part_audit actor ''CREATE'' ''course_part_structure'' course) (\<lambda>_.
     list_for_admin course actor role)))))))"

record part_input =
  pi_title :: string
  pi_model :: part_pricing_model
  pi_percent :: "int option"
  pi_amount :: "int option"
  pi_sort :: "int option"
  pi_sections :: "id list"
  pi_thumbnail :: "string option"

definition next_sort :: "id \<Rightarrow> db \<Rightarrow> int" where
  "next_sort course s = (case rev (parts_of_course course s) of [] \<Rightarrow> 1 | p # _ \<Rightarrow> cpt_sort p + 1)"

definition price_columns :: "part_pricing_model \<Rightarrow> int option \<Rightarrow> int option \<Rightarrow> int option \<times> int option" where
  "price_columns model percent amount =
     (if model = PERCENTAGE then (Some (case percent of None \<Rightarrow> 0 | Some x \<Rightarrow> x), None)
      else (None, Some (case amount of None \<Rightarrow> 0 | Some x \<Rightarrow> x)))"

definition create_course_part_tx :: "id \<Rightarrow> part_input \<Rightarrow> id dbtx" where
  "create_course_part_tx course input =
     bind_tx (get_tx (next_sort course)) (\<lambda>last.
     bind_tx (insert_part course (pi_title input) (case pi_sort input of None \<Rightarrow> last | Some v \<Rightarrow> v) (pi_model input)
       (fst (price_columns (pi_model input) (pi_percent input) (pi_amount input)))
       (snd (price_columns (pi_model input) (pi_percent input) (pi_amount input))) (pi_thumbnail input)) (\<lambda>i.
     bind_tx (if pi_sections input = [] then ret_tx () else attach_sections course i (pi_sections input)) (\<lambda>_.
     bind_tx (revalidate course) (\<lambda>_. ret_tx i))))"

definition create_course_part :: "id \<Rightarrow> part_input \<Rightarrow> id \<Rightarrow> user_role \<Rightarrow> parts_admin_view db_call" where
  "create_course_part course input actor role =
     bind_c (may_manage actor role course CAP_PRICING) (\<lambda>_.
     bind_c (read_c (find_course course)) (\<lambda>c.
     bind_c (the_c not_found c) (\<lambda>_.
     bind_c (commit_c (lift_tx (assert_price_matches_model (pi_model input) (pi_percent input) (pi_amount input)))) (\<lambda>_.
     bind_c (commit_c (lift_tx (assert_part_thumbnail_key (pi_thumbnail input) (course_thumbnails course)))) (\<lambda>_.
     bind_c (commit_c (create_course_part_tx course input)) (\<lambda>i.
     bind_c (part_audit actor ''CREATE'' ''course_part'' i) (\<lambda>_.
     list_for_admin course actor role)))))))"

text \<open>An absent field is \<open>None\<close>; the image may also be set to null.\<close>

record part_edit =
  ed_title :: "string option"
  ed_model :: "part_pricing_model option"
  ed_percent :: "int option"
  ed_amount :: "int option"
  ed_active :: "bool option"
  ed_status :: "content_status option"
  ed_thumbnail :: "string option option"

definition touches_price :: "part_edit \<Rightarrow> bool" where
  "touches_price e \<longleftrightarrow> ed_model e \<noteq> None \<or> ed_percent e \<noteq> None \<or> ed_amount e \<noteq> None"

definition new_model :: "part_edit \<Rightarrow> part_row \<Rightarrow> part_pricing_model" where
  "new_model e p = (case ed_model e of None \<Rightarrow> cpt_pricing p | Some m \<Rightarrow> m)"

definition or_else :: "'a option \<Rightarrow> 'a option \<Rightarrow> 'a option" where
  "or_else a b = (case a of None \<Rightarrow> b | Some x \<Rightarrow> Some x)"

definition edited_part :: "part_edit \<Rightarrow> part_row \<Rightarrow> part_row \<Rightarrow> part_row" where
  "edited_part e old p =
     (let prices = price_columns (new_model e old) (or_else (ed_percent e) (cpt_percent old))
            (or_else (ed_amount e) (cpt_amount old)) in
      p\<lparr>cpt_title := (case ed_title e of None \<Rightarrow> cpt_title p | Some t \<Rightarrow> t),
        cpt_thumbnail := (case ed_thumbnail e of None \<Rightarrow> cpt_thumbnail p | Some k \<Rightarrow> k),
        cpt_active := (case ed_active e of None \<Rightarrow> cpt_active p | Some a \<Rightarrow> a),
        cpt_status := (case ed_status e of None \<Rightarrow> cpt_status p | Some st \<Rightarrow> st),
        cpt_pricing := (if touches_price e then new_model e old else cpt_pricing p),
        cpt_percent := (if touches_price e then fst prices else cpt_percent p),
        cpt_amount := (if touches_price e then snd prices else cpt_amount p)\<rparr>)"

definition sold_count :: "id \<Rightarrow> db \<Rightarrow> nat" where
  "sold_count part s = count_where (\<lambda>x. pp_part x = part) (part_purchases s)"

definition update_course_part_tx :: "part_row \<Rightarrow> part_edit \<Rightarrow> unit dbtx" where
  "update_course_part_tx old e =
     bind_tx (lift_tx (case ed_thumbnail e of None \<Rightarrow> Inr ()
       | Some k \<Rightarrow> assert_part_thumbnail_key k (part_thumbnails (cpt_course old) (cpt_id old)))) (\<lambda>_.
     bind_tx (modify_tx (\<lambda>s. s\<lparr>parts := upd_where (\<lambda>p. cpt_id p = cpt_id old) (edited_part e old) (parts s)\<rparr>)) (\<lambda>_.
     revalidate (cpt_course old)))"

definition update_course_part :: "id \<Rightarrow> part_edit \<Rightarrow> id \<Rightarrow> user_role \<Rightarrow> parts_admin_view db_call" where
  "update_course_part part e actor role =
     bind_c (require_part part) (\<lambda>old.
     bind_c (may_manage actor role (cpt_course old) CAP_PRICING) (\<lambda>_.
     bind_c (if new_model e old \<noteq> cpt_pricing old
             then bind_c (read_c (sold_count part)) (\<lambda>sold. require_c (sold = 0) conflict)
             else ret_c ()) (\<lambda>_.
     bind_c (commit_c (lift_tx (if touches_price e
             then assert_price_matches_model (new_model e old) (or_else (ed_percent e) (cpt_percent old))
               (or_else (ed_amount e) (cpt_amount old))
             else Inr ()))) (\<lambda>_.
     bind_c (commit_c (update_course_part_tx old e)) (\<lambda>_.
     bind_c (part_audit actor ''UPDATE'' ''course_part'' part) (\<lambda>_.
     list_for_admin (cpt_course old) actor role))))))"

definition remove_course_part_tx :: "part_row \<Rightarrow> time \<Rightarrow> unit dbtx" where
  "remove_course_part_tx old now =
     bind_tx (modify_tx (\<lambda>s. s\<lparr>sections := upd_where (\<lambda>x. s_part x = Some (cpt_id old)) (\<lambda>x. x\<lparr>s_part := None\<rparr>) (sections s)\<rparr>)) (\<lambda>_.
     bind_tx (modify_tx (\<lambda>s. s\<lparr>parts := upd_where (\<lambda>p. cpt_id p = cpt_id old)
       (\<lambda>p. p\<lparr>cpt_deleted_at := Some now, cpt_active := False\<rparr>) (parts s)\<rparr>)) (\<lambda>_.
     revalidate (cpt_course old)))"

definition remove_course_part :: "id \<Rightarrow> time \<Rightarrow> id \<Rightarrow> user_role \<Rightarrow> parts_admin_view db_call" where
  "remove_course_part part now actor role =
     bind_c (require_part part) (\<lambda>old.
     bind_c (may_manage actor role (cpt_course old) CAP_PRICING) (\<lambda>_.
     bind_c (read_c (sold_count part)) (\<lambda>sold.
     bind_c (require_c (sold = 0) conflict) (\<lambda>_.
     bind_c (commit_c (remove_course_part_tx old now)) (\<lambda>_.
     bind_c (part_audit actor ''DELETE'' ''course_part'' part) (\<lambda>_.
     list_for_admin (cpt_course old) actor role))))))"

definition set_sections_tx :: "part_row \<Rightarrow> id list \<Rightarrow> unit dbtx" where
  "set_sections_tx old ids =
     bind_tx (modify_tx (\<lambda>s. s\<lparr>sections := upd_where (\<lambda>x. s_part x = Some (cpt_id old) \<and> s_id x \<notin> set ids)
       (\<lambda>x. x\<lparr>s_part := None\<rparr>) (sections s)\<rparr>)) (\<lambda>_.
     if ids = [] then ret_tx () else attach_sections (cpt_course old) (cpt_id old) ids)"

definition set_part_sections :: "id \<Rightarrow> id list \<Rightarrow> id \<Rightarrow> user_role \<Rightarrow> parts_admin_view db_call" where
  "set_part_sections part ids actor role =
     bind_c (require_part part) (\<lambda>old.
     bind_c (may_manage actor role (cpt_course old) CAP_CONTENT) (\<lambda>_.
     bind_c (commit_c (set_sections_tx old ids)) (\<lambda>_.
     bind_c (part_audit actor ''UPDATE'' ''course_part_sections'' part) (\<lambda>_.
     list_for_admin (cpt_course old) actor role))))"

text \<open>Reordering parks every part below zero first, because the sort orders are unique.\<close>

definition set_part_sort :: "id \<Rightarrow> int \<Rightarrow> unit dbtx" where
  "set_part_sort part v =
     bind_tx (get_tx (\<lambda>s. find_by cpt_id part (parts s))) (\<lambda>found.
     bind_tx (the_or (PrismaKnown ''P2025'' []) found) (\<lambda>p.
     bind_tx (get_tx (sort_taken part (cpt_course p) v)) (\<lambda>taken.
     bind_tx (require_tx (\<not> taken) sort_violation) (\<lambda>_.
     modify_tx (\<lambda>s. s\<lparr>parts := upd_where (\<lambda>q. cpt_id q = part) (\<lambda>q. q\<lparr>cpt_sort := v\<rparr>) (parts s)\<rparr>)))))"

definition reorder_tx :: "id list \<Rightarrow> unit dbtx" where
  "reorder_tx ids =
     bind_tx (each_tx (\<lambda>(k, i). set_part_sort i (- (int k + 1))) (enumerate 0 ids)) (\<lambda>_.
     each_tx (\<lambda>(k, i). set_part_sort i (int k + 1)) (enumerate 0 ids))"

definition reorder_parts :: "id \<Rightarrow> id list \<Rightarrow> id \<Rightarrow> user_role \<Rightarrow> parts_admin_view db_call" where
  "reorder_parts course ids actor role =
     bind_c (may_manage actor role course CAP_CONTENT) (\<lambda>_.
     bind_c (read_c (\<lambda>s. remdups (map cpt_id (parts_of_course course s)))) (\<lambda>known.
     bind_c (require_c (length ids = length known \<and> list_all (\<lambda>i. i \<in> set known) ids)
       (validation [(''partIds'', [''must list every part of this course exactly once''])])) (\<lambda>_.
     bind_c (commit_c (reorder_tx ids)) (\<lambda>_.
     list_for_admin course actor role))))"

section \<open>Changing the price\<close>

definition change_price_tx :: "id \<Rightarrow> int \<Rightarrow> string option \<Rightarrow> unit dbtx" where
  "change_price_tx course amount currency =
     bind_tx (assert_price_change_keeps_allocation_valid course (MNum (decimal_text amount))) (\<lambda>_.
     bind_tx (get_tx (latest_price course)) (\<lambda>current.
     let version = (case current of None \<Rightarrow> 1 | Some p \<Rightarrow> cp_version p + 1) in
     bind_tx (case current of None \<Rightarrow> ret_tx ()
       | Some p \<Rightarrow> modify_tx (\<lambda>s. s\<lparr>prices := upd_where (\<lambda>q. cp_id q = cp_id p) (\<lambda>q. q\<lparr>cp_current := False\<rparr>) (prices s)\<rparr>)) (\<lambda>_.
     bind_tx (get_tx (\<lambda>s. list_ex (\<lambda>q. cp_course q = course \<and> cp_version q = version) (prices s))) (\<lambda>taken.
     bind_tx (require_tx (\<not> taken) (PrismaKnown ''P2002'' [''courseId'', ''version''])) (\<lambda>_.
     bind_tx fresh_id (\<lambda>i.
     bind_tx (modify_tx (\<lambda>s. s\<lparr>prices := prices s @
       [\<lparr>cp_id = i, cp_course = course, cp_amount = amount,
         cp_currency = (case or_else currency (map_option cp_currency current) of None \<Rightarrow> ''EGP'' | Some c \<Rightarrow> c),
         cp_version = version, cp_current = True\<rparr>]\<rparr>)) (\<lambda>_.
     bind_tx (get_tx (\<lambda>s. find_by c_id course (courses s))) (\<lambda>c.
     bind_tx (the_or (PrismaKnown ''P2025'' []) c) (\<lambda>_.
     modify_tx (\<lambda>s. s\<lparr>courses := upd_where (\<lambda>c. c_id c = course) (\<lambda>c. c\<lparr>c_is_free := (amount \<le> 0)\<rparr>) (courses s)\<rparr>))))))))))"

definition change_price ::
  "(string \<Rightarrow> bool) \<Rightarrow> id \<Rightarrow> int \<Rightarrow> string option \<Rightarrow> id \<Rightarrow> user_role \<Rightarrow> unit db_call" where
  "change_price teacher_may course amount currency actor role =
     bind_c (may_manage actor role course CAP_PRICING) (\<lambda>_.
     bind_c (commit_c (lift_tx (assert_teacher_capability teacher_may role ''editCoursePrices''))) (\<lambda>_.
     bind_c (require_c (0 \<le> amount) (validation [(''amount'', [''must not be negative''])])) (\<lambda>_.
     bind_c (commit_c (change_price_tx course amount currency)) (\<lambda>_.
     part_audit actor ''PRICE_CHANGE'' ''course'' course))))"

section \<open>Reports\<close>

definition section_ids_of_part :: "id \<Rightarrow> db \<Rightarrow> id list" where
  "section_ids_of_part part s =
     map s_id (sort_key s_sort (filter (\<lambda>x. s_part x = Some part \<and> s_deleted_at x = None
       \<and> s_status x \<noteq> CT_ARCHIVED) (sections s)))"

definition assert_course_sellable :: "course_status \<Rightarrow> time option \<Rightarrow> exn + unit" where
  "assert_course_sellable status deleted =
     (if deleted \<noteq> None then Inl (app_error COURSE_NOT_AVAILABLE)
      else if status = CS_ARCHIVED then Inl (app_error COURSE_ARCHIVED)
      else if status = CS_DRAFT \<or> status = CS_SUSPENDED then Inl (app_error COURSE_NOT_AVAILABLE)
      else Inr ())"

record report_filter =
  rf_course :: "id option"
  rf_part :: "id option"
  rf_user :: "id option"
  rf_from :: "time option"
  rf_to :: "time option"
  rf_ascending :: bool

definition report_where :: "report_filter \<Rightarrow> part_purchase_row \<Rightarrow> bool" where
  "report_where f x \<longleftrightarrow>
     (rf_course f = None \<or> rf_course f = Some (pp_course x))
     \<and> (rf_part f = None \<or> rf_part f = Some (pp_part x))
     \<and> (rf_user f = None \<or> rf_user f = Some (pp_user x))
     \<and> (case rf_from f of None \<Rightarrow> True | Some a \<Rightarrow> a \<le> pp_at x)
     \<and> (case rf_to f of None \<Rightarrow> True | Some b \<Rightarrow> pp_at x \<le> b)"

record report_line =
  rn_row :: part_purchase_row
  rn_price :: rat
  rn_teacher :: rat
  rn_platform :: rat
  rn_sections :: nat

record parts_report =
  rq_items :: "report_line list"
  rq_total :: nat
  rq_pages :: nat
  rq_next :: bool
  rq_previous :: bool
  rq_value :: rat
  rq_teacher_share :: rat
  rq_platform_share :: rat

definition report_line_of :: "part_purchase_row \<Rightarrow> report_line" where
  "report_line_of x =
     \<lparr>rn_row = x, rn_price = to_egp_number (pp_price x), rn_teacher = to_egp_number (pp_teacher_amount x),
      rn_platform = to_egp_number (pp_platform x), rn_sections = length (pp_sections x)\<rparr>"

definition course_parts_report :: "nat \<Rightarrow> nat \<Rightarrow> report_filter \<Rightarrow> db \<Rightarrow> parts_report" where
  "course_parts_report page per f s =
     (let rows = filter (report_where f) (part_purchases s);
          ordered = sort_key (\<lambda>x. if rf_ascending f then pp_at x else - pp_at x) rows in
      \<lparr>rq_items = map report_line_of (page_rows page per ordered), rq_total = length rows,
       rq_pages = max 1 (ceil_div (length rows) (max 1 per)), rq_next = page * per < length rows,
       rq_previous = 1 < page,
       rq_value = to_egp_number (sum_list (map pp_price rows)),
       rq_teacher_share = to_egp_number (sum_list (map pp_teacher_amount rows)),
       rq_platform_share = to_egp_number (sum_list (map pp_platform rows))\<rparr>)"

datatype (plugins only: code) acquired_via = VIA_CODE | VIA_WALLET

definition my_purchases :: "id \<Rightarrow> nat \<Rightarrow> nat \<Rightarrow> db \<Rightarrow> (part_purchase_row \<times> rat \<times> acquired_via) list \<times> nat" where
  "my_purchases user page per s =
     (let rows = filter (\<lambda>x. pp_user x = user) (part_purchases s) in
      (map (\<lambda>x. (x, to_egp_number (pp_price x), if pp_code x \<noteq> None then VIA_CODE else VIA_WALLET))
         (page_rows page per (sort_key (\<lambda>x. - pp_at x) rows)), length rows))"

end
