(* ===== verification/PartSafety.thy ===== *)
theory PartSafety
  imports CourseParts CallRules "HOL-Library.Multiset"
begin

text \<open>
  What holds of a course's parts whatever staff do. The price split of a course is abstracted to
  its \<open>shares\<close>: the multiset of the sellable parts' models and figures. Revalidation passes exactly
  for the splits that \<open>split_ok\<close> accepts, and every operation but the default structure changes at
  most one share. Part operations, price changes and card redemptions form a machine whose
  invariant says that every split adds up and every sold part is still there.
\<close>

section \<open>When a split adds up\<close>

definition share_figure :: "part_row \<Rightarrow> int option" where
  "share_figure p = (if cpt_pricing p = PERCENTAGE then cpt_percent p else cpt_amount p)"

definition sellable :: "id \<Rightarrow> part_row \<Rightarrow> bool" where
  "sellable course p \<longleftrightarrow> cpt_course p = course \<and> cpt_deleted_at p = None \<and> cpt_active p \<and> cpt_status p \<noteq> CT_ARCHIVED"

definition shares_in :: "id \<Rightarrow> part_row list \<Rightarrow> (part_pricing_model \<times> int option) multiset" where
  "shares_in course ps = mset (map (\<lambda>p. (cpt_pricing p, share_figure p)) (filter (sellable course) ps))"

abbreviation shares :: "id \<Rightarrow> db \<Rightarrow> (part_pricing_model \<times> int option) multiset" where
  "shares course s \<equiv> shares_in course (parts s)"

definition figure_max :: "part_pricing_model \<Rightarrow> int" where
  "figure_max m = (if m = PERCENTAGE then 10000 else max_piastres)"

definition good_share :: "part_pricing_model \<Rightarrow> part_pricing_model \<times> int option \<Rightarrow> bool" where
  "good_share m v \<longleftrightarrow> fst v = m \<and> (\<exists>x. snd v = Some x \<and> 0 \<le> x \<and> x \<le> figure_max m)"

definition split_sum :: "(part_pricing_model \<times> int option) multiset \<Rightarrow> int" where
  "split_sum V = (\<Sum>v\<in>#V. the (snd v))"

definition split_of :: "part_pricing_model \<Rightarrow> int \<Rightarrow> (part_pricing_model \<times> int option) multiset \<Rightarrow> bool" where
  "split_of m a V \<longleftrightarrow> (\<forall>v\<in>#V. good_share m v) \<and> split_sum V = (if m = PERCENTAGE then 10000 else a)"

definition split_ok :: "int \<Rightarrow> (part_pricing_model \<times> int option) multiset \<Rightarrow> bool" where
  "split_ok a V \<longleftrightarrow> V = {#} \<or> (\<exists>m. split_of m a V)"

lemma shares_sellable: "shares course s = mset (map (\<lambda>p. (cpt_pricing p, share_figure p)) (sellable_parts course s))"
  unfolding shares_in_def sellable_parts_def sellable_def mset_map mset_sort by simp

lemma shares_empty_iff: "shares course s = {#} \<longleftrightarrow> sellable_parts course s = []"
  by (simp add: shares_sellable)

lemma text_value:
  "to_piastres (MStr (decimal_text x)) f = Inr y \<longleftrightarrow> valid_piastres x \<and> y = x"
  "to_basis_points (MStr (decimal_text x)) f = Inr y \<longleftrightarrow> 0 \<le> x \<and> x \<le> 10000 \<and> y = x"
proof -
  have neg: "\<not> is_amount_text (decimal_text x)" if "x < 0" using that by (rule decimal_text_negative)
  show "to_piastres (MStr (decimal_text x)) f = Inr y \<longleftrightarrow> valid_piastres x \<and> y = x"
    using decimal_accepted [of x] neg max_piastres_safe [of x]
    by (cases "x < 0") (auto simp: to_piastres_def amount_text_def js_trim_digits decimal_no_ws Let_def)
  show "to_basis_points (MStr (decimal_text x)) f = Inr y \<longleftrightarrow> 0 \<le> x \<and> x \<le> 10000 \<and> y = x"
    using decimal_accepted [of x] neg
    by (cases "x < 0") (auto simp: to_basis_points_def percent_text_def js_trim_digits decimal_no_ws Let_def)
qed

lemma number_value: "to_piastres (MNum (decimal_text x)) f = Inr y \<longleftrightarrow> valid_piastres x \<and> y = x"
  using text_value(1) [of x f y] by (simp add: to_piastres_def amount_text_def js_trim_digits decimal_no_ws)

lemma entered_value:
  "entered_percent (priced_part_of p) = Inr y \<longleftrightarrow> cpt_percent p = Some y \<and> 0 \<le> y \<and> y \<le> 10000"
  "entered_amount (priced_part_of p) = Inr y \<longleftrightarrow> cpt_amount p = Some y \<and> valid_piastres y"
  by (auto simp: entered_percent_def entered_amount_def priced_part_of_def text_value
      split: option.splits sum.splits exn.splits)
    (metis sum.distinct(1) text_value)+

lemma entry_sum:
  assumes "\<And>p. p \<in> set rows \<Longrightarrow> f (priced_part_of p) = Inr (g p)"
  shows "sum_list (entry_values f (sort_key q_sort (map priced_part_of rows))) = (\<Sum>p\<in>#mset rows. g p)"
proof -
  let ?v = "\<lambda>q. case f q of Inl _ \<Rightarrow> 0 | Inr x \<Rightarrow> x"
  have "sum_list (entry_values f (sort_key q_sort (map priced_part_of rows)))
      = sum_mset (mset (map ?v (sort_key q_sort (map priced_part_of rows))))"
    by (simp only: entry_values_def sum_mset_sum_list)
  also have "\<dots> = sum_mset (image_mset ?v (mset (map priced_part_of rows)))"
    by (simp only: mset_map mset_sort)
  also have "\<dots> = sum_mset (image_mset (\<lambda>p. ?v (priced_part_of p)) (mset rows))"
    by (simp add: image_mset.compositionality o_def)
  also have "\<dots> = (\<Sum>p\<in>#mset rows. g p)"
    by (rule arg_cong [where f = sum_mset], rule image_mset_cong) (simp add: assms)
  finally show ?thesis .
qed

lemma allocate_by_fixed_accepts:
  assumes "sum_list (entry_values entered_amount ps) = price" "\<forall>p \<in> set ps. \<exists>a. entered_amount p = Inr a"
  shows "\<exists>r. allocate_by_fixed_amount ps price = Inr r"
proof -
  let ?xs = "entry_values entered_amount ps"
  have safe: "is_safe_integer x" if x: "x \<in> set ?xs" for x
  proof -
    obtain p where p: "p \<in> set ps" "x = (case entered_amount p of Inl _ \<Rightarrow> 0 | Inr x \<Rightarrow> x)"
      using x by (auto simp: entry_values_def)
    with assms(2) obtain a where "entered_amount p = Inr a" by blast
    with p entered_amount_bounds [OF this] show ?thesis by (simp add: max_piastres_safe)
  qed
  let ?line = "\<lambda>(p, pct, x). \<lparr>al_id = q_id p, al_title = q_title p, al_sort = q_sort p,
       al_model = FIXED, al_percent = pct, al_piastres = x, al_amount = render_piastres x,
       al_egp = to_egp_number x\<rparr>"
  have "map_r (allocation_line FIXED) (zip ps (zip (map (\<lambda>_. None) ps) ?xs))
      = Inr (map ?line (zip ps (zip (map (\<lambda>_. None) ps) ?xs)))"
    by (rule map_r_total) (auto simp: allocation_line_Inr_iff safe dest!: set_zip_rightD)
  with assms show ?thesis
    by (simp add: allocate_by_fixed_amount_def Let_def entry_problems_Nil_iff)
qed

lemma allocate_fixed_parts:
  assumes "to_piastres cp ''coursePrice'' = Inr price" "ps \<noteq> []"
    and "\<forall>p \<in> set ps. q_model p = FIXED" "\<forall>p \<in> set ps. \<exists>a. entered_amount p = Inr a"
    and "sum_list (entry_values entered_amount (sort_key q_sort ps)) = price"
  shows "\<exists>r. allocate_part_prices ps cp = Inr r"
proof -
  from assms(2) obtain first rest where ps: "ps = first # rest" by (cases ps) auto
  obtain r where r: "allocate_by_fixed_amount (sort_key q_sort ps) price = Inr r"
    using allocate_by_fixed_accepts [of "sort_key q_sort ps" price] assms by auto
  have "List.find (\<lambda>p. q_model p \<noteq> q_model first) ps = None" "q_model first = FIXED"
    using assms(3) ps by (auto simp: find_None_iff)
  then have "allocate_part_prices ps cp = Inr r"
    using assms ps r by (simp add: allocate_part_prices_def Let_def del: sort_key_simps)
  then show ?thesis by blast
qed

definition split_view :: "part_row list \<Rightarrow> (part_pricing_model \<times> int option) multiset" where
  "split_view rows = mset (map (\<lambda>p. (cpt_pricing p, share_figure p)) rows)"

lemma split_of_view:
  "split_of m a (split_view rows) \<longleftrightarrow>
     (\<forall>p \<in> set rows. cpt_pricing p = m \<and> (\<exists>x. share_figure p = Some x \<and> 0 \<le> x \<and> x \<le> figure_max m))
     \<and> (\<Sum>p\<in>#mset rows. the (share_figure p)) = (if m = PERCENTAGE then 10000 else a)"
  by (auto simp: split_of_def split_view_def good_share_def split_sum_def image_mset.compositionality o_def)

lemma percent_entries:
  assumes "\<forall>p \<in> set rows. cpt_pricing p = PERCENTAGE \<and> (\<exists>x. share_figure p = Some x \<and> 0 \<le> x \<and> x \<le> 10000)"
  shows "sum_list (entry_values entered_percent (sort_key q_sort (map priced_part_of rows)))
      = (\<Sum>p\<in>#mset rows. the (share_figure p))"
  by (rule entry_sum) (use assms in \<open>auto simp: entered_value share_figure_def dest!: bspec\<close>)

lemma amount_entries:
  assumes "\<forall>p \<in> set rows. cpt_pricing p = FIXED \<and> (\<exists>x. share_figure p = Some x \<and> valid_piastres x)"
  shows "sum_list (entry_values entered_amount (sort_key q_sort (map priced_part_of rows)))
      = (\<Sum>p\<in>#mset rows. the (share_figure p))"
  by (rule entry_sum) (use assms in \<open>auto simp: entered_value share_figure_def dest!: bspec\<close>)

lemma pricing_of_part: "q_model (priced_part_of p) = cpt_pricing p"
  by (simp add: priced_part_of_def)

lemma allocate_iff_split:
  assumes "rows \<noteq> []" "to_piastres v ''coursePrice'' = Inr a"
  shows "(\<exists>r. allocate_part_prices (map priced_part_of rows) v = Inr r) \<longleftrightarrow> (\<exists>m. split_of m a (split_view rows))"
proof
  assume "\<exists>r. allocate_part_prices (map priced_part_of rows) v = Inr r"
  then obtain r where "allocate_part_prices (map priced_part_of rows) v = Inr r" by blast
  then show "\<exists>m. split_of m a (split_view rows)"
  proof (rule allocate_part_prices_Inr)
    fix price
    assume p: "to_piastres v ''coursePrice'' = Inr price"
      and m: "\<forall>q \<in> set (map priced_part_of rows). q_model q = ar_model r"
      and al: "(if ar_model r = PERCENTAGE then allocate_by_percentage (sort_key q_sort (map priced_part_of rows)) price
          else allocate_by_fixed_amount (sort_key q_sort (map priced_part_of rows)) price) = Inr r"
    have price: "price = a" using p assms(2) by simp
    have m': "\<forall>q \<in> set rows. cpt_pricing q = ar_model r" using m by (simp add: priced_part_of_def)
    show ?thesis
    proof (cases "ar_model r")
      case PERCENTAGE
      with al have b: "allocate_by_percentage (sort_key q_sort (map priced_part_of rows)) price = Inr r" by simp
      have ok: "\<forall>p \<in> set rows. cpt_pricing p = PERCENTAGE \<and> (\<exists>x. share_figure p = Some x \<and> 0 \<le> x \<and> x \<le> 10000)"
        using allocate_by_percentage_Inr(2) [OF b] m' PERCENTAGE by (auto simp: entered_value share_figure_def)
      from allocate_by_percentage_Inr(1) [OF b] ok have "split_of PERCENTAGE a (split_view rows)"
        by (simp add: split_of_view percent_entries figure_max_def)
      then show ?thesis by blast
    next
      case FIXED
      with al have b: "allocate_by_fixed_amount (sort_key q_sort (map priced_part_of rows)) price = Inr r" by simp
      have ok: "\<forall>p \<in> set rows. cpt_pricing p = FIXED \<and> (\<exists>x. share_figure p = Some x \<and> valid_piastres x)"
        using allocate_by_fixed_Inr(2) [OF b] m' FIXED by (auto simp: entered_value share_figure_def)
      from allocate_by_fixed_Inr(1) [OF b] ok have "split_of FIXED a (split_view rows)"
        by (simp add: split_of_view amount_entries figure_max_def price)
      then show ?thesis by blast
    qed
  qed
next
  assume "\<exists>m. split_of m a (split_view rows)"
  then obtain m where m: "split_of m a (split_view rows)" by blast
  have ne: "map priced_part_of rows \<noteq> []" using assms(1) by simp
  show "\<exists>r. allocate_part_prices (map priced_part_of rows) v = Inr r"
  proof (cases m)
    case PERCENTAGE
    with m have ok: "\<forall>p \<in> set rows. cpt_pricing p = PERCENTAGE \<and> (\<exists>x. share_figure p = Some x \<and> 0 \<le> x \<and> x \<le> 10000)"
      and s: "(\<Sum>p\<in>#mset rows. the (share_figure p)) = 10000" by (auto simp: split_of_view figure_max_def)
    have "\<exists>r. allocate_part_prices (map priced_part_of rows) v = Inr r \<and> ar_model r = PERCENTAGE"
      by (rule allocate_percentage_parts [OF assms(2) ne])
        (use ok s percent_entries [OF ok] in \<open>auto simp: entered_value share_figure_def pricing_of_part\<close>)
    then show ?thesis by blast
  next
    case FIXED
    with m have ok: "\<forall>p \<in> set rows. cpt_pricing p = FIXED \<and> (\<exists>x. share_figure p = Some x \<and> valid_piastres x)"
      and s: "(\<Sum>p\<in>#mset rows. the (share_figure p)) = a" by (auto simp: split_of_view figure_max_def)
    show ?thesis
      by (rule allocate_fixed_parts [OF assms(2) ne])
        (use ok s amount_entries [OF ok] in \<open>auto simp: entered_value share_figure_def pricing_of_part\<close>)
  qed
qed

text \<open>Revalidation accepts a priced course exactly when its shares add up.\<close>

definition price_ok :: "int option \<Rightarrow> bool" where
  "price_ok a \<longleftrightarrow> (case a of None \<Rightarrow> True | Some x \<Rightarrow> valid_piastres x)"

definition prices_split :: "int option \<Rightarrow> (part_pricing_model \<times> int option) multiset \<Rightarrow> bool" where
  "prices_split a V \<longleftrightarrow> (case a of None \<Rightarrow> True | Some x \<Rightarrow> split_ok x V)"

lemma load_allocation_iff:
  assumes "to_piastres v ''coursePrice'' = Inr a"
  shows "(\<exists>r t. load_part_allocation course v s = Inr (r, t)) \<longleftrightarrow> split_ok a (shares course s)"
  using allocate_iff_split [OF _ assms, of "sellable_parts course s"]
  by (auto simp: load_part_allocation_def result_simps split_ok_def shares_empty_iff shares_sellable split_view_def)

lemma load_allocation_keeps: "load_part_allocation course v s = Inr (r, t) \<Longrightarrow> t = s"
  by (auto dest: load_part_allocation_Inr)

lemma revalidate_iff:
  assumes "price_ok (course_price course s)"
  shows "revalidate course s = Inr (u, t) \<longleftrightarrow> t = s \<and> prices_split (course_price course s) (shares course s)"
proof (cases "course_price course s")
  case (Some a)
  then have a: "to_piastres (price_text a) ''coursePrice'' = Inr a"
    using assms by (simp add: price_text_def text_value price_ok_def)
  show ?thesis
    using Some load_allocation_iff [OF a, of course s]
    by (auto simp: revalidate_def prices_split_def result_simps dest: load_allocation_keeps)
qed (auto simp: revalidate_def prices_split_def)

section \<open>One part at a time\<close>

definition price_in :: "id \<Rightarrow> price_row list \<Rightarrow> int option" where
  "price_in course ps =
     (case sort_key (\<lambda>p. - int (cp_version p)) (filter (\<lambda>p. cp_course p = course \<and> cp_current p) ps) of
        [] \<Rightarrow> None | p # _ \<Rightarrow> Some (cp_amount p))"

lemma course_price_in: "course_price course s = price_in course (prices s)"
  by (simp add: course_price_def latest_price_def price_in_def split: list.splits)

text \<open>Two states of a split that differ in at most one share.\<close>

definition one_share :: "'a multiset \<Rightarrow> 'a multiset \<Rightarrow> bool" where
  "one_share V V' \<longleftrightarrow> (\<exists>W X X'. V = W + X \<and> V' = W + X' \<and> size X \<le> 1 \<and> size X' \<le> 1)"

lemma one_share_refl [simp]: "one_share V V"
  unfolding one_share_def by (intro exI [of _ V] exI [of _ "{#}"]) simp

lemma shares_in_append [table_simps]: "shares_in course (xs @ ys) = shares_in course xs + shares_in course ys"
  by (simp add: shares_in_def)

lemma shares_in_simps [simp]:
  "shares_in course [] = {#}"
  "shares_in course (p # ps) = (if sellable course p then {#(cpt_pricing p, share_figure p)#} else {#}) + shares_in course ps"
  by (simp_all add: shares_in_def)

lemma upd_where_single:
  assumes "unique_on key rows" "r \<in> set rows"
  obtains xs ys where "rows = xs @ r # ys" "upd_where (\<lambda>q. key q = key r) f rows = xs @ f r # ys"
proof -
  from assms(2) obtain xs ys where r: "rows = xs @ r # ys" by (meson split_list)
  have k: "key r \<notin> key ` set xs" "key r \<notin> key ` set ys" using assms(1) r by (auto simp: unique_on_def)
  have "upd_where (\<lambda>q. key q = key r) f xs = xs" by (rule upd_where_none) (use k(1) in \<open>metis imageI\<close>)
  moreover have "upd_where (\<lambda>q. key q = key r) f ys = ys" by (rule upd_where_none) (use k(2) in \<open>metis imageI\<close>)
  ultimately show ?thesis by (intro that [of xs ys]) (simp_all add: r upd_where_append upd_where_Cons)
qed

lemma one_share_upd:
  assumes "unique_on cpt_id ps" "old \<in> set ps" "cpt_course (f old) = cpt_course old"
  shows "one_share (shares_in course ps) (shares_in course (upd_where (\<lambda>q. cpt_id q = cpt_id old) f ps))"
    and "course \<noteq> cpt_course old \<Longrightarrow> shares_in course (upd_where (\<lambda>q. cpt_id q = cpt_id old) f ps) = shares_in course ps"
proof -
  obtain xs ys where p: "ps = xs @ old # ys" "upd_where (\<lambda>q. cpt_id q = cpt_id old) f ps = xs @ f old # ys"
    by (rule upd_where_single [OF assms(1,2)])
  let ?W = "shares_in course xs + shares_in course ys"
  let ?X = "\<lambda>p. if sellable course p then {#(cpt_pricing p, share_figure p)#} else {#}"
  have "shares_in course ps = ?W + ?X old" by (simp add: p(1) shares_in_append)
  moreover have "shares_in course (upd_where (\<lambda>q. cpt_id q = cpt_id old) f ps) = ?W + ?X (f old)"
    by (simp only: p(2)) (simp add: shares_in_append)
  ultimately show "one_share (shares_in course ps) (shares_in course (upd_where (\<lambda>q. cpt_id q = cpt_id old) f ps))"
    unfolding one_share_def by (intro exI [of _ ?W] exI [of _ "?X old"] exI [of _ "?X (f old)"]) simp
  show "shares_in course (upd_where (\<lambda>q. cpt_id q = cpt_id old) f ps) = shares_in course ps" if "course \<noteq> cpt_course old"
    using that assms(3) by (simp only: p(2)) (simp add: p(1) shares_in_append sellable_def)
qed

lemma one_share_snoc: "one_share (shares_in course ps) (shares_in course (ps @ [p]))"
  unfolding one_share_def
  by (intro exI [of _ "shares_in course ps"] exI [of _ "{#}"] exI [of _ "shares_in course [p]"]) (simp add: shares_in_append)

text \<open>The shares worth something.\<close>

definition paid_shares :: "(part_pricing_model \<times> int option) multiset \<Rightarrow> (part_pricing_model \<times> int option) multiset" where
  "paid_shares V = filter_mset (\<lambda>v. 0 < the (snd v)) V"

lemma split_sum_union [simp]: "split_sum (V + W) = split_sum V + split_sum W"
  by (simp add: split_sum_def)

lemma good_share_eq: "good_share m v \<Longrightarrow> good_share m w \<Longrightarrow> the (snd v) = the (snd w) \<Longrightarrow> v = w"
  by (auto simp: good_share_def prod_eq_iff)

lemma small_multiset: "size X \<le> 1 \<Longrightarrow> X = {#} \<or> (\<exists>x. X = {#x#})"
  by (cases "size X") (auto simp: size_1_singleton_mset)

lemma paid_one_share:
  assumes "size X \<le> 1" "size X' \<le> 1" "\<forall>v\<in>#X. good_share m v" "\<forall>v\<in>#X'. good_share m v"
    and "split_sum X = split_sum X'"
  shows "paid_shares X = paid_shares X'"
  using small_multiset [OF assms(1)] small_multiset [OF assms(2)] assms(3-5) good_share_eq
  by (auto simp: paid_shares_def split_sum_def good_share_def)

lemma frozen_split:
  assumes "one_share V V'" "split_of m a V" "split_ok a V'" "2 \<le> size (paid_shares V)"
  shows "paid_shares V' = paid_shares V \<and> split_of m a V'"
proof -
  from assms(1) obtain W X X' where w: "V = W + X" "V' = W + X'" "size X \<le> 1" "size X' \<le> 1"
    unfolding one_share_def by blast
  have "size (paid_shares X) \<le> 1" using w(3) size_filter_mset_lesseq [of _ X] unfolding paid_shares_def by (metis order_trans)
  then have "paid_shares W \<noteq> {#}" using assms(4) w(1) unfolding paid_shares_def by (intro notI) simp
  then obtain v where v: "v \<in># W" unfolding paid_shares_def by fastforce
  then have "V' \<noteq> {#}" using w(2) by auto
  then obtain m' where m': "split_of m' a V'" using assms(3) by (auto simp: split_ok_def)
  have mm: "m' = m" using m' assms(2) v w by (auto simp: split_of_def good_share_def)
  have "split_sum X = split_sum X'"
    using m' [unfolded mm] assms(2) w by (simp add: split_of_def)
  moreover have "\<forall>v\<in>#X. good_share m v" "\<forall>v\<in>#X'. good_share m v"
    using m' [unfolded mm] assms(2) w by (auto simp: split_of_def)
  ultimately have "paid_shares X = paid_shares X'" using paid_one_share [OF w(3,4)] by blast
  then show ?thesis using m' mm w by (simp add: paid_shares_def)
qed

section \<open>What each transaction writes\<close>

lemma revalidate_state: "revalidate course s = Inr (u, t) \<Longrightarrow> t = s"
  by (auto simp: revalidate_def result_simps split: option.splits dest: load_allocation_keeps)

lemma insert_part_Inr:
  assumes "insert_part course title v model percent amount key s = Inr (i, t)"
  shows "i = db_next s \<and> t = s\<lparr>db_next := Suc (db_next s), parts := parts s @
      [\<lparr>cpt_id = db_next s, cpt_course = course, cpt_title = title, cpt_sort = v, cpt_status = CT_PUBLISHED,
         cpt_active = True, cpt_pricing = model, cpt_percent = percent, cpt_amount = amount,
         cpt_thumbnail = key, cpt_deleted_at = None\<rparr>]\<rparr>"
  using assms by (auto simp: insert_part_def result_simps)

lemma attach_sections_Inr:
  "attach_sections course part ids s = Inr (u, t) \<Longrightarrow> \<exists>xs. t = s\<lparr>sections := xs\<rparr>"
  by (auto simp: attach_sections_def result_simps)

lemma create_part_tx_Inr:
  assumes "create_course_part_tx course input s = Inr (i, t)"
  obtains p xs where "t = s\<lparr>db_next := Suc (db_next s), parts := parts s @ [p], sections := xs\<rparr>"
    "cpt_id p = db_next s" "cpt_course p = course" "revalidate course t = Inr ((), t)"
proof -
  let ?cols = "price_columns (pi_model input) (pi_percent input) (pi_amount input)"
  let ?v = "case pi_sort input of None \<Rightarrow> next_sort course s | Some v \<Rightarrow> v"
  from assms obtain s1 s2 s3 u1 u2 where
    a: "insert_part course (pi_title input) ?v (pi_model input) (fst ?cols) (snd ?cols) (pi_thumbnail input) s = Inr (i, s1)"
    and b: "(if pi_sections input = [] then ret_tx () else attach_sections course i (pi_sections input)) s1 = Inr (u1, s2)"
    and c: "revalidate course s2 = Inr (u2, s3)" and t: "t = s3"
    unfolding create_course_part_tx_def by (auto simp: result_simps)
  note i = insert_part_Inr [OF a]
  from b obtain xs where s2: "s2 = s1\<lparr>sections := xs\<rparr>"
    by (cases "pi_sections input = []") (auto dest: attach_sections_Inr intro: that [of "sections s1"])
  have t2: "t = s2" using revalidate_state [OF c] t by simp
  show ?thesis
    by (rule that [where xs = xs]) (use i s2 t2 c t in auto)
qed

lemma update_part_tx_Inr:
  assumes "update_course_part_tx old e s = Inr (u, t)"
  shows "t = s\<lparr>parts := upd_where (\<lambda>p. cpt_id p = cpt_id old) (edited_part e old) (parts s)\<rparr>
    \<and> revalidate (cpt_course old) t = Inr ((), t)"
  using assms revalidate_state by (auto simp: update_course_part_tx_def result_simps)

lemma remove_part_tx_Inr:
  assumes "remove_course_part_tx old now s = Inr (u, t)"
  shows "\<exists>xs. t = s\<lparr>sections := xs, parts := upd_where (\<lambda>p. cpt_id p = cpt_id old)
      (\<lambda>p. p\<lparr>cpt_deleted_at := Some now, cpt_active := False\<rparr>) (parts s)\<rparr>
    \<and> revalidate (cpt_course old) t = Inr ((), t)"
  using assms revalidate_state by (auto simp: remove_course_part_tx_def result_simps)

lemma set_sections_tx_Inr:
  "set_sections_tx old ids s = Inr (u, t) \<Longrightarrow> \<exists>xs. t = s\<lparr>sections := xs\<rparr>"
  by (auto simp: set_sections_tx_def result_simps split: if_splits dest!: attach_sections_Inr)

definition unsorted :: "part_row \<Rightarrow> part_row" where
  "unsorted p = p\<lparr>cpt_sort := 0\<rparr>"

lemma set_part_sort_Inr:
  assumes "set_part_sort part v s = Inr (u, t)"
  shows "t = s\<lparr>parts := upd_where (\<lambda>q. cpt_id q = part) (\<lambda>q. q\<lparr>cpt_sort := v\<rparr>) (parts s)\<rparr>"
  using assms by (auto simp: set_part_sort_def result_simps)

lemma unsorted_upd: "map unsorted (upd_where P (\<lambda>q. q\<lparr>cpt_sort := v\<rparr>) ps) = map unsorted ps"
  by (simp add: upd_where_def unsorted_def o_def if_distrib cong: if_cong)

lemma reorder_tx_Inr:
  assumes "reorder_tx ids s = Inr (u, t)"
  shows "\<exists>ps. t = s\<lparr>parts := ps\<rparr> \<and> map unsorted ps = map unsorted (parts s)"
proof -
  let ?Q = "\<lambda>x. \<exists>ps. x = s\<lparr>parts := ps\<rparr> \<and> map unsorted ps = map unsorted (parts s)"
  have step: "?Q y" if "?Q x" "set_part_sort i v x = Inr ((), y)" for x y i v
    using that unsorted_upd by (auto dest!: set_part_sort_Inr)
  from assms obtain s1 u1 u2 where a: "each_tx (\<lambda>(k, i). set_part_sort i (- (int k + 1))) (enumerate 0 ids) s = Inr (u1, s1)"
    and b: "each_tx (\<lambda>(k, i). set_part_sort i (int k + 1)) (enumerate 0 ids) s1 = Inr (u2, t)"
    unfolding reorder_tx_def by (auto simp: result_simps)
  have q0: "?Q s" by (rule exI [of _ "parts s"]) simp
  have q1: "?Q s1" by (rule each_tx_invariant [OF a, where Q = ?Q, OF q0]) (use step in fastforce)
  show ?thesis by (rule each_tx_invariant [OF b, where Q = ?Q, OF q1]) (use step in fastforce)
qed

lemma unsorted_shares:
  assumes "map unsorted ps = map unsorted qs"
  shows "shares_in course ps = shares_in course qs"
proof -
  have "shares_in course (map unsorted xs) = shares_in course xs" for xs
    by (induction xs) (simp_all add: unsorted_def sellable_def share_figure_def)
  then show ?thesis using assms by metis
qed

lemma default_parts_Inr:
  assumes "default_parts_tx course s = Inr (u, t)"
  obtains p q where "t = s\<lparr>db_next := Suc (Suc (db_next s)), parts := parts s @ [p, q]\<rparr>"
    "cpt_id p = db_next s" "cpt_id q = Suc (db_next s)" "cpt_course p = course" "cpt_course q = course"
    "shares_in course [p, q] = {#(PERCENTAGE, Some 6000), (PERCENTAGE, Some 4000)#}"
  using assms that
  by (auto simp: default_parts_tx_def default_part_structure_def result_simps sellable_def share_figure_def
      dest!: insert_part_Inr)

lemma filter_upd_where_other:
  "(\<And>r. r \<in> set rows \<Longrightarrow> P r \<Longrightarrow> \<not> Q r \<and> \<not> Q (f r)) \<Longrightarrow> filter Q (upd_where P f rows) = filter Q rows"
  by (induction rows) (auto simp: upd_where_Cons)

lemma price_in_top:
  assumes "p \<in> set ps" "cp_course p = course" "cp_current p"
    and "\<And>q. q \<in> set ps \<Longrightarrow> cp_course q = course \<Longrightarrow> cp_current q \<Longrightarrow> q \<noteq> p \<Longrightarrow> cp_version q < cp_version p"
  shows "price_in course ps = Some (cp_amount p)"
proof -
  let ?L = "filter (\<lambda>p. cp_course p = course \<and> cp_current p) ps"
  obtain x xs where x: "sort_key (\<lambda>p. - int (cp_version p)) ?L = x # xs"
    using assms(1-3) by (cases "sort_key (\<lambda>p. - int (cp_version p)) ?L")
      (auto dest!: arg_cong [where f = set] simp: filter_empty_conv)
  have "x \<in> set ?L" using arg_cong [OF x, of set] by auto
  moreover have "p = x \<or> p \<in> set xs" using arg_cong [OF x, of set] assms(1-3) by auto
  moreover have "sorted (map (\<lambda>p. - int (cp_version p)) (x # xs))"
    using sorted_sort_key [of "\<lambda>p. - int (cp_version p)" ?L] by (simp only: x)
  ultimately have "x = p" using assms(4) [of x] by fastforce
  then show ?thesis unfolding price_in_def x by simp
qed

lemma latest_price_top:
  assumes "latest_price course s = Some p"
  shows "p \<in> set (prices s) \<and> cp_course p = course \<and> cp_current p
    \<and> (\<forall>q \<in> set (prices s). cp_course q = course \<and> cp_current q \<longrightarrow> cp_version q \<le> cp_version p)"
proof -
  let ?L = "filter (\<lambda>p. cp_course p = course \<and> cp_current p) (prices s)"
  from assms obtain xs where x: "sort_key (\<lambda>p. - int (cp_version p)) ?L = p # xs"
    by (auto simp: latest_price_def split: list.splits)
  have "set (p # xs) = set ?L" using arg_cong [OF x, of set] by simp
  moreover have "sorted (map (\<lambda>p. - int (cp_version p)) (p # xs))"
    using sorted_sort_key [of "\<lambda>p. - int (cp_version p)" ?L] by (simp only: x)
  ultimately show ?thesis by fastforce
qed

lemma latest_price_None:
  "latest_price course s = None \<Longrightarrow> q \<in> set (prices s) \<Longrightarrow> cp_course q = course \<Longrightarrow> \<not> cp_current q"
  by (auto simp: latest_price_def filter_empty_conv split: list.splits dest!: arg_cong [where f = set])

lemma change_price_tx_Inr:
  assumes "change_price_tx course amount currency s = Inr (u, t)"
    and ids: "unique_on cp_id (prices s)" "\<forall>p \<in> set (prices s). cp_id p < db_next s"
  obtains qs cs p where "t = s\<lparr>db_next := Suc (db_next s), prices := qs @ [p], courses := cs\<rparr>"
    "cp_id p = db_next s" "cp_amount p = amount" "map cp_id qs = map cp_id (prices s)"
    "map cp_amount qs = map cp_amount (prices s)"
    "price_in course (qs @ [p]) = Some amount"
    "\<And>c. c \<noteq> course \<Longrightarrow> price_in c (qs @ [p]) = price_in c (prices s)"
    "\<exists>r x. load_part_allocation course (MNum (decimal_text amount)) s = Inr (r, x)"
proof -
  define version where "version = (case latest_price course s of None \<Rightarrow> 1 | Some p \<Rightarrow> cp_version p + 1)"
  define qs where "qs = (case latest_price course s of None \<Rightarrow> prices s
    | Some p \<Rightarrow> upd_where (\<lambda>q. cp_id q = cp_id p) (\<lambda>q. q\<lparr>cp_current := False\<rparr>) (prices s))"
  define p where "p = \<lparr>cp_id = db_next s, cp_course = course, cp_amount = amount,
    cp_currency = (case or_else currency (map_option cp_currency (latest_price course s)) of None \<Rightarrow> ''EGP'' | Some c \<Rightarrow> c),
    cp_version = version, cp_current = True\<rparr>"
  from assms(1) have al: "\<exists>r x. load_part_allocation course (MNum (decimal_text amount)) s = Inr (r, x)"
    and t: "\<exists>cs. t = s\<lparr>db_next := Suc (db_next s), prices := qs @ [p], courses := cs\<rparr>"
    unfolding change_price_tx_def assert_price_change_keeps_allocation_valid_def Let_def
    by (auto simp: result_simps qs_def p_def version_def dest!: load_allocation_keeps split: option.splits)
  then obtain cs where t: "t = s\<lparr>db_next := Suc (db_next s), prices := qs @ [p], courses := cs\<rparr>" by blast
  have m: "map cp_id qs = map cp_id (prices s)" "map cp_amount qs = map cp_amount (prices s)"
    by (auto simp: qs_def upd_where_def split: option.splits)
  have old: "cp_version q < version" if "q \<in> set qs" "cp_course q = course" "cp_current q" for q
  proof (cases "latest_price course s")
    case None
    with that latest_price_None [OF None] show ?thesis by (auto simp: qs_def)
  next
    case (Some l)
    from that(1) Some obtain w where w: "w \<in> set (prices s)"
        "q = (if cp_id w = cp_id l then w\<lparr>cp_current := False\<rparr> else w)"
      unfolding qs_def by (auto dest!: upd_where_elem)
    with that latest_price_top [OF Some] show ?thesis by (auto simp: version_def Some split: if_splits)
  qed
  have top: "price_in course (qs @ [p]) = Some (cp_amount p)"
    by (rule price_in_top) (use old in \<open>auto simp: p_def\<close>)
  have other: "price_in c (qs @ [p]) = price_in c (prices s)" if c: "c \<noteq> course" for c
  proof -
    have "filter (\<lambda>p. cp_course p = c \<and> cp_current p) qs = filter (\<lambda>p. cp_course p = c \<and> cp_current p) (prices s)"
    proof (cases "latest_price course s")
      case (Some l)
      show ?thesis unfolding qs_def Some option.case
        by (rule filter_upd_where_other)
          (use c latest_price_top [OF Some] unique_onD [OF ids(1)] in auto)
    qed (simp add: qs_def)
    then show ?thesis using c by (simp add: price_in_def p_def)
  qed
  show ?thesis by (rule that [OF t _ _ m _ other al]) (use top in \<open>simp_all add: p_def\<close>)
qed

section \<open>The machine\<close>

definition parts_valid :: "part_row list \<Rightarrow> price_row list \<Rightarrow> part_purchase_row list \<Rightarrow> id \<Rightarrow> bool" where
  "parts_valid ps qs sold n \<longleftrightarrow>
     unique_on cpt_id ps \<and> (\<forall>p \<in> set ps. cpt_id p < n)
     \<and> unique_on cp_id qs \<and> (\<forall>q \<in> set qs. cp_id q < n \<and> valid_piastres (cp_amount q))
     \<and> (\<forall>c. prices_split (price_in c qs) (shares_in c ps))
     \<and> (\<forall>x \<in> set sold. \<exists>p \<in> set ps. cpt_id p = pp_part x \<and> cpt_deleted_at p = None \<and> cpt_pricing p = pp_model x)"

abbreviation catalogue_valid :: "db \<Rightarrow> bool" where
  "catalogue_valid s \<equiv> parts_valid (parts s) (prices s) (part_purchases s) (db_next s)"

lemma price_in_ok: "\<forall>q \<in> set qs. valid_piastres (cp_amount q) \<Longrightarrow> price_ok (price_in c qs)"
proof (cases "sort_key (\<lambda>p. - int (cp_version p)) (filter (\<lambda>p. cp_course p = c \<and> cp_current p) qs)")
  case (Cons x xs)
  have "x \<in> set (sort_key (\<lambda>p. - int (cp_version p)) (filter (\<lambda>p. cp_course p = c \<and> cp_current p) qs))"
    by (simp only: Cons list.set_intros)
  then have "x \<in> set qs" by simp
  then show "\<forall>q \<in> set qs. valid_piastres (cp_amount q) \<Longrightarrow> price_ok (price_in c qs)"
    by (simp add: price_ok_def price_in_def Cons)
qed (simp add: price_ok_def price_in_def)

lemma valid_price_ok: "catalogue_valid s \<Longrightarrow> price_ok (course_price c s)"
  unfolding course_price_in parts_valid_def by (blast intro: price_in_ok)

lemma valid_revalidates: "catalogue_valid s \<Longrightarrow> revalidate c s = Inr ((), s)"
  by (simp add: revalidate_iff valid_price_ok) (simp add: parts_valid_def course_price_in)

inductive parts_step :: "db \<Rightarrow> db \<Rightarrow> bool" where
  default_structure: "parts_step s (snd (create_default_structure course actor role s))"
| create: "parts_step s (snd (create_course_part course input actor role s))"
| update: "parts_step s (snd (update_course_part part e actor role s))"
| remove: "parts_step s (snd (remove_course_part part now actor role s))"
| set_sections: "parts_step s (snd (set_part_sections part ids actor role s))"
| reorder: "parts_step s (snd (reorder_parts course ids actor role s))"
| change_price: "amount \<le> max_piastres \<Longrightarrow>
    parts_step s (snd (change_price teacher_may course amount currency actor role s))"
| redeem: "grant_part_from_code user part code secs now s = Inr (g, t) \<Longrightarrow> parts_step s t"

text \<open>The checks, audit entries and lists of a call keep a condition that does not read the audit table.\<close>

lemma leaves_manage [leaving]: "Q s \<Longrightarrow> leaves Q (f ()) s \<Longrightarrow> leaves Q (bind_c (may_manage actor role course cap) f) s"
  by (auto simp: leaves_def may_manage_def bind_c_def commit_c_def lift_tx_def split: sum.splits prod.splits)

lemma leaves_audit [leaving]: "leaves Q (f ()) (s\<lparr>audit := audit s @
    [\<lparr>au_actor = Some actor, au_action = a, au_entity = e, au_entity_id = i, au_note = []\<rparr>]\<rparr>)
  \<Longrightarrow> leaves Q (bind_c (part_audit actor a e i) f) s"
  by (simp add: leaves_def part_audit_def)

lemma leaves_audit_last [leaving]: "Q (s\<lparr>audit := audit s @
    [\<lparr>au_actor = Some actor, au_action = a, au_entity = e, au_entity_id = i, au_note = []\<rparr>]\<rparr>)
  \<Longrightarrow> leaves Q (part_audit actor a e i) s"
  by (simp add: leaves_def part_audit_def)

lemma leaves_list [leaving]: "Q s \<Longrightarrow> leaves Q (list_for_admin course actor role) s"
  unfolding list_for_admin_def by (rule leaves_manage) (simp_all add: leaves_def)

lemma leaves_require_part [leaving]:
  "Q s \<Longrightarrow> (\<And>p. find_part part s = Some p \<Longrightarrow> leaves Q (f p) s) \<Longrightarrow> leaves Q (bind_c (require_part part) f) s"
  by (cases "find_part part s") (simp_all add: leaves_def require_part_def bind_c_def)

lemma default_structure_leaves:
  assumes "Q s" "\<And>u t rows. parts_of_course course s = [] \<Longrightarrow> default_parts_tx course s = Inr (u, t) \<Longrightarrow> Q (t\<lparr>audit := rows\<rparr>)"
  shows "leaves Q (create_default_structure course actor role) s"
  unfolding create_default_structure_def by (intro leaving assms(1)) (auto intro: assms(2))

lemma create_part_leaves:
  assumes "Q s" "\<And>i t rows. create_course_part_tx course input s = Inr (i, t) \<Longrightarrow> Q (t\<lparr>audit := rows\<rparr>)"
  shows "leaves Q (create_course_part course input actor role) s"
  unfolding create_course_part_def by (intro leaving assms(1)) (auto simp: result_simps intro: assms)

lemma update_part_leaves:
  assumes "Q s" "\<And>old u t rows. find_part part s = Some old \<Longrightarrow> (new_model e old \<noteq> cpt_pricing old \<Longrightarrow> sold_count part s = 0) \<Longrightarrow>
      update_course_part_tx old e s = Inr (u, t) \<Longrightarrow> Q (t\<lparr>audit := rows\<rparr>)"
  shows "leaves Q (update_course_part part e actor role) s"
proof -
  have after: "leaves Q (bind_c (commit_c (lift_tx r)) (\<lambda>_. bind_c (commit_c (update_course_part_tx old e)) (\<lambda>_.
      bind_c (part_audit actor ''UPDATE'' ''course_part'' part) (\<lambda>_. list_for_admin (cpt_course old) actor role)))) s"
    if "find_part part s = Some old" "new_model e old \<noteq> cpt_pricing old \<Longrightarrow> sold_count part s = 0" for old and r :: "exn + unit"
    by (intro leaving assms(1)) (auto simp: result_simps intro: assms that)
  show ?thesis
    unfolding update_course_part_def
  proof (intro leaves_require_part leaves_manage assms(1))
    fix old
    assume old: "find_part part s = Some old"
    show "leaves Q (bind_c (if new_model e old \<noteq> cpt_pricing old
             then bind_c (read_c (sold_count part)) (\<lambda>sold. require_c (sold = 0) conflict)
             else ret_c ()) (\<lambda>_. bind_c (commit_c (lift_tx (if touches_price e
             then assert_price_matches_model (new_model e old) (or_else (ed_percent e) (cpt_percent old))
               (or_else (ed_amount e) (cpt_amount old))
             else Inr ()))) (\<lambda>_.
     bind_c (commit_c (update_course_part_tx old e)) (\<lambda>_.
     bind_c (part_audit actor ''UPDATE'' ''course_part'' part) (\<lambda>_.
     list_for_admin (cpt_course old) actor role))))) s"
    proof (cases "new_model e old \<noteq> cpt_pricing old")
      case True
      then show ?thesis
        using after [OF old] assms(1) by (cases "sold_count part s = 0") (simp_all add: leaves_def bind_c_def)
    next
      case False
      then show ?thesis using after [OF old] by simp
    qed
  qed
qed

lemma remove_part_leaves:
  assumes "Q s" "\<And>old u t rows. find_part part s = Some old \<Longrightarrow> sold_count part s = 0 \<Longrightarrow>
      remove_course_part_tx old now s = Inr (u, t) \<Longrightarrow> Q (t\<lparr>audit := rows\<rparr>)"
  shows "leaves Q (remove_course_part part now actor role) s"
  unfolding remove_course_part_def by (intro leaving assms(1)) (auto intro: assms)

lemma set_sections_leaves:
  assumes "Q s" "\<And>old u t rows. find_part part s = Some old \<Longrightarrow> set_sections_tx old ids s = Inr (u, t) \<Longrightarrow> Q (t\<lparr>audit := rows\<rparr>)"
  shows "leaves Q (set_part_sections part ids actor role) s"
  unfolding set_part_sections_def by (intro leaving assms(1)) (auto intro: assms)

lemma reorder_leaves:
  assumes "Q s" "\<And>u t. reorder_tx ids s = Inr (u, t) \<Longrightarrow> Q t"
  shows "leaves Q (reorder_parts course ids actor role) s"
  unfolding reorder_parts_def by (intro leaving assms(1)) (auto intro: assms)

lemma change_price_leaves:
  assumes "Q s" "\<And>u t rows. 0 \<le> amount \<Longrightarrow> change_price_tx course amount currency s = Inr (u, t) \<Longrightarrow> Q (t\<lparr>audit := rows\<rparr>)"
  shows "leaves Q (change_price teacher_may course amount currency actor role) s"
  unfolding change_price_def by (intro leaving assms(1)) (auto simp: result_simps intro: assms)


section \<open>The invariant\<close>

lemma valid_audit [simp]: "catalogue_valid (t\<lparr>audit := rows\<rparr>) = catalogue_valid t"
  by simp

lemma revalidated_split:
  assumes "revalidate course t = Inr ((), t)" "\<forall>q \<in> set (prices t). valid_piastres (cp_amount q)"
  shows "prices_split (price_in course (prices t)) (shares course t)"
  using revalidate_iff [of course t "()" t] assms by (simp add: course_price_in price_in_ok)

text \<open>Writing one course's parts: the split of that course was checked, no other course is touched.\<close>

lemma valid_new_parts:
  assumes v: "parts_valid ps qs sold n" and "n \<le> m"
    and u: "unique_on cpt_id ps'" and below: "\<forall>p \<in> set ps'. cpt_id p < m"
    and chk: "prices_split (price_in course qs) (shares_in course ps')"
    and other: "\<And>c. c \<noteq> course \<Longrightarrow> shares_in c ps' = shares_in c ps"
    and kept: "\<And>p. p \<in> set ps \<Longrightarrow> cpt_deleted_at p = None \<Longrightarrow> (\<exists>x \<in> set sold. pp_part x = cpt_id p) \<Longrightarrow>
      \<exists>p' \<in> set ps'. cpt_id p' = cpt_id p \<and> cpt_deleted_at p' = None \<and> cpt_pricing p' = cpt_pricing p"
  shows "parts_valid ps' qs sold m"
  unfolding parts_valid_def
proof (intro conjI ballI allI)
  show "unique_on cpt_id ps'" by (rule u)
  show "cpt_id p < m" if "p \<in> set ps'" for p using that below by blast
  show "unique_on cp_id qs" using v by (simp add: parts_valid_def)
  show "cp_id q < m" if "q \<in> set qs" for q using that v \<open>n \<le> m\<close> by (fastforce simp: parts_valid_def)
  show "0 \<le> cp_amount q" "cp_amount q \<le> max_piastres" if "q \<in> set qs" for q
    using that v by (auto simp: parts_valid_def)
  show "prices_split (price_in c qs) (shares_in c ps')" for c
    using chk other [of c] v by (cases "c = course") (auto simp: parts_valid_def)
  show "\<exists>p \<in> set ps'. cpt_id p = pp_part x \<and> cpt_deleted_at p = None \<and> cpt_pricing p = pp_model x" if x: "x \<in> set sold" for x
  proof -
    from v x obtain p where "p \<in> set ps" "cpt_id p = pp_part x" "cpt_deleted_at p = None" "cpt_pricing p = pp_model x"
      by (auto simp: parts_valid_def)
    with kept [of p] x show ?thesis by metis
  qed
qed

lemma find_part_Some: "find_part i s = Some p \<Longrightarrow> p \<in> set (parts s) \<and> cpt_id p = i \<and> cpt_deleted_at p = None"
  by (auto simp: find_part_def dest: find_Some)

lemma unique_on_upd_id:
  "(\<And>p. cpt_id (f p) = cpt_id p) \<Longrightarrow> unique_on cpt_id (upd_where P f ps) = unique_on cpt_id ps"
  by (simp add: unique_on_def upd_where_def o_def if_distrib cong: if_cong)

lemma ids_below_upd:
  "(\<And>p. cpt_id (f p) = cpt_id p) \<Longrightarrow> \<forall>p \<in> set ps. cpt_id p < n \<Longrightarrow> p \<in> set (upd_where P f ps) \<Longrightarrow> cpt_id p < (n :: nat)"
  by (auto dest!: upd_where_elem)

lemma upd_where_mem: "p \<in> set ps \<Longrightarrow> (if P p then f p else p) \<in> set (upd_where P f ps)"
  by (auto simp: upd_where_def)

lemma valid_edited_part:
  assumes v: "catalogue_valid s" and old: "old \<in> set (parts s)"
    and id: "\<And>p. cpt_id (f p) = cpt_id p" and crs: "\<And>p. cpt_course (f p) = cpt_course p"
    and t: "parts t = upd_where (\<lambda>q. cpt_id q = cpt_id old) f (parts s)" "prices t = prices s"
      "part_purchases t = part_purchases s" "db_next t = db_next s"
    and chk: "revalidate (cpt_course old) t = Inr ((), t)"
    and kept: "\<exists>x \<in> set (part_purchases s). pp_part x = cpt_id old \<Longrightarrow> cpt_deleted_at old = None \<Longrightarrow>
      cpt_deleted_at (f old) = None \<and> cpt_pricing (f old) = cpt_pricing old"
  shows "catalogue_valid t"
  unfolding t
proof (rule valid_new_parts [OF v order_refl])
  have uniq: "unique_on cpt_id (parts s)" using v by (simp add: parts_valid_def)
  show "unique_on cpt_id (upd_where (\<lambda>q. cpt_id q = cpt_id old) f (parts s))" using uniq id by (simp add: unique_on_upd_id)
  show "\<forall>p \<in> set (upd_where (\<lambda>q. cpt_id q = cpt_id old) f (parts s)). cpt_id p < db_next s"
    using v id by (auto simp: parts_valid_def dest!: upd_where_elem)
  show "prices_split (price_in (cpt_course old) (prices s))
      (shares_in (cpt_course old) (upd_where (\<lambda>q. cpt_id q = cpt_id old) f (parts s)))"
    using revalidated_split [OF chk] v by (simp add: t parts_valid_def)
  show "shares_in c (upd_where (\<lambda>q. cpt_id q = cpt_id old) f (parts s)) = shares_in c (parts s)" if "c \<noteq> cpt_course old" for c
    by (rule one_share_upd(2) [where f = f, OF uniq old crs that])
  fix p
  assume p: "p \<in> set (parts s)" "cpt_deleted_at p = None" "\<exists>x \<in> set (part_purchases s). pp_part x = cpt_id p"
  let ?q = "if cpt_id p = cpt_id old then f p else p"
  have "?q \<in> set (upd_where (\<lambda>q. cpt_id q = cpt_id old) f (parts s))" by (rule upd_where_mem [OF p(1)])
  moreover have "cpt_id ?q = cpt_id p \<and> cpt_deleted_at ?q = None \<and> cpt_pricing ?q = cpt_pricing p"
  proof (cases "cpt_id p = cpt_id old")
    case True
    then have "p = old" using unique_onD [OF uniq p(1) old] by simp
    then show ?thesis using kept p(2,3) id by simp
  qed (use p in simp)
  ultimately show "\<exists>p' \<in> set (upd_where (\<lambda>q. cpt_id q = cpt_id old) f (parts s)).
      cpt_id p' = cpt_id p \<and> cpt_deleted_at p' = None \<and> cpt_pricing p' = cpt_pricing p" by blast
qed

lemma sold_count_0: "sold_count i s = 0 \<Longrightarrow> \<not> (\<exists>x \<in> set (part_purchases s). pp_part x = i)"
  by (auto simp: sold_count_def count_where_0_iff)

lemma edited_part_fields [simp]:
  "cpt_id (edited_part e old p) = cpt_id p" "cpt_course (edited_part e old p) = cpt_course p"
  "cpt_deleted_at (edited_part e old p) = cpt_deleted_at p"
  by (simp_all add: edited_part_def Let_def)

lemma update_valid:
  assumes v: "catalogue_valid s" and old: "find_part i s = Some old"
    and free: "new_model e old \<noteq> cpt_pricing old \<Longrightarrow> sold_count i s = 0"
    and tx: "update_course_part_tx old e s = Inr (u, t)"
  shows "catalogue_valid t"
proof -
  note o = find_part_Some [OF old] and w = update_part_tx_Inr [OF tx]
  show ?thesis
  proof (rule valid_edited_part [OF v, of old "edited_part e old"])
    show "cpt_deleted_at (edited_part e old old) = None \<and> cpt_pricing (edited_part e old old) = cpt_pricing old"
      if "\<exists>x \<in> set (part_purchases s). pp_part x = cpt_id old" "cpt_deleted_at old = None"
      using that free sold_count_0 o by (auto simp: edited_part_def Let_def)
  qed (use o w in auto)
qed

lemma remove_valid:
  assumes v: "catalogue_valid s" and old: "find_part i s = Some old" and free: "sold_count i s = 0"
    and tx: "remove_course_part_tx old now s = Inr (u, t)"
  shows "catalogue_valid t"
proof -
  note o = find_part_Some [OF old]
  from remove_part_tx_Inr [OF tx] obtain xs where w: "t = s\<lparr>sections := xs, parts := upd_where (\<lambda>p. cpt_id p = cpt_id old)
      (\<lambda>p. p\<lparr>cpt_deleted_at := Some now, cpt_active := False\<rparr>) (parts s)\<rparr>" "revalidate (cpt_course old) t = Inr ((), t)"
    by blast
  show ?thesis
    by (rule valid_edited_part [OF v, of old "\<lambda>p. p\<lparr>cpt_deleted_at := Some now, cpt_active := False\<rparr>"])
      (use o w sold_count_0 [OF free] in auto)
qed

lemma create_valid:
  assumes v: "catalogue_valid s" and tx: "create_course_part_tx course input s = Inr (i, t)"
  shows "catalogue_valid t"
  using tx
proof (rule create_part_tx_Inr)
  fix p xs
  assume t: "t = s\<lparr>db_next := Suc (db_next s), parts := parts s @ [p], sections := xs\<rparr>"
    and p: "cpt_id p = db_next s" "cpt_course p = course" and chk: "revalidate course t = Inr ((), t)"
  have "parts_valid (parts s @ [p]) (prices s) (part_purchases s) (Suc (db_next s))"
  proof (rule valid_new_parts [OF v, where course = course])
    show "prices_split (price_in course (prices s)) (shares_in course (parts s @ [p]))"
      using revalidated_split [OF chk] v by (simp add: t parts_valid_def)
  qed (use v p in \<open>auto simp: parts_valid_def unique_on_append1 shares_in_append sellable_def\<close>)
  then show ?thesis by (simp add: t)
qed

lemma default_valid:
  assumes v: "catalogue_valid s" and none: "parts_of_course course s = []" and tx: "default_parts_tx course s = Inr (u, t)"
  shows "catalogue_valid t"
  using tx
proof (rule default_parts_Inr)
  fix p q
  assume t: "t = s\<lparr>db_next := Suc (Suc (db_next s)), parts := parts s @ [p, q]\<rparr>"
    and id: "cpt_id p = db_next s" "cpt_id q = Suc (db_next s)" and crs: "cpt_course p = course" "cpt_course q = course"
    and sh: "shares_in course [p, q] = {#(PERCENTAGE, Some 6000), (PERCENTAGE, Some 4000)#}"
  have "filter (\<lambda>p. cpt_course p = course \<and> cpt_deleted_at p = None) (parts s) = []"
    using arg_cong [OF none, of set] by (auto simp: parts_of_course_def filter_empty_conv)
  then have "filter (sellable course) (parts s) = []" by (auto simp: filter_empty_conv sellable_def)
  then have "shares_in course (parts s) = {#}" by (simp add: shares_in_def)
  with sh have new: "shares_in course (parts s @ [p, q]) = {#(PERCENTAGE, Some 6000), (PERCENTAGE, Some 4000)#}"
    by (simp only: shares_in_append) simp
  have "split_of PERCENTAGE a {#(PERCENTAGE, Some 6000), (PERCENTAGE, Some 4000)#}" for a
    by (simp add: split_of_def good_share_def figure_max_def split_sum_def)
  then have ok: "prices_split (price_in course (prices s)) (shares_in course (parts s @ [p, q]))"
    unfolding new prices_split_def split_ok_def by (auto split: option.splits)
  have "parts_valid (parts s @ [p, q]) (prices s) (part_purchases s) (Suc (Suc (db_next s)))"
  proof (rule valid_new_parts [OF v, where course = course, OF _ _ _ ok])
    have below: "\<forall>x \<in> set (parts s). cpt_id x < db_next s" using v by (simp add: parts_valid_def)
    show "unique_on cpt_id (parts s @ [p, q])"
      using v id below by (fastforce simp: parts_valid_def unique_on_def)
    show "\<forall>x \<in> set (parts s @ [p, q]). cpt_id x < Suc (Suc (db_next s))" using below id by fastforce
  qed (use crs in \<open>auto simp: shares_in_append sellable_def\<close>)
  then show ?thesis by (simp add: t)
qed

lemma reorder_valid:
  assumes v: "catalogue_valid s" and tx: "reorder_tx ids s = Inr (u, t)"
  shows "catalogue_valid t"
proof -
  from reorder_tx_Inr [OF tx] obtain ps where t: "t = s\<lparr>parts := ps\<rparr>" and m: "map unsorted ps = map unsorted (parts s)" by blast
  have ids: "map cpt_id ps = map cpt_id (parts s)"
    using arg_cong [OF m, of "map cpt_id"] by (simp add: o_def unsorted_def)
  have same: "\<exists>p' \<in> set ps. cpt_id p' = cpt_id p \<and> cpt_deleted_at p' = cpt_deleted_at p \<and> cpt_pricing p' = cpt_pricing p"
    if "p \<in> set (parts s)" for p
  proof -
    have "unsorted p \<in> unsorted ` set ps" using that arg_cong [OF m, of set] by auto
    then obtain q where "q \<in> set ps" "unsorted q = unsorted p" by auto
    then show ?thesis unfolding unsorted_def by (metis part_row.ext_inject part_row.surjective part_row.update_convs(4))
  qed
  have "cpt_id ` set ps = cpt_id ` set (parts s)" using arg_cong [OF ids, of set] by simp
  moreover have "\<forall>p \<in> set (parts s). cpt_id p < db_next s" using v by (simp add: parts_valid_def)
  ultimately have below: "\<forall>p \<in> set ps. cpt_id p < db_next s" by (metis imageE imageI)
  have "parts_valid ps (prices s) (part_purchases s) (db_next s)"
  proof (rule valid_new_parts [OF v order_refl, where course = 0])
    show "\<exists>p' \<in> set ps. cpt_id p' = cpt_id p \<and> cpt_deleted_at p' = None \<and> cpt_pricing p' = cpt_pricing p"
      if "p \<in> set (parts s)" "cpt_deleted_at p = None" for p
      using same [OF that(1)] that(2) by simp
  qed (use v below unsorted_shares [OF m] ids in \<open>simp_all add: parts_valid_def unique_on_def\<close>)
  then show ?thesis by (simp add: t)
qed

lemma change_price_valid:
  assumes v: "catalogue_valid s" and tx: "change_price_tx course amount currency s = Inr (u, t)"
    and amount: "0 \<le> amount" "amount \<le> max_piastres"
  shows "catalogue_valid t"
proof -
  have ids: "unique_on cp_id (prices s)" "\<forall>p \<in> set (prices s). cp_id p < db_next s" using v by (auto simp: parts_valid_def)
  show ?thesis
    using tx ids
  proof (rule change_price_tx_Inr)
    fix qs cs p
    assume t: "t = s\<lparr>db_next := Suc (db_next s), prices := qs @ [p], courses := cs\<rparr>"
      and p: "cp_id p = db_next s" "cp_amount p = amount" and qid: "map cp_id qs = map cp_id (prices s)"
      and qam: "map cp_amount qs = map cp_amount (prices s)"
      and new: "price_in course (qs @ [p]) = Some amount"
      and other: "\<And>c. c \<noteq> course \<Longrightarrow> price_in c (qs @ [p]) = price_in c (prices s)"
      and al: "\<exists>r x. load_part_allocation course (MNum (decimal_text amount)) s = Inr (r, x)"
    have a: "to_piastres (MNum (decimal_text amount)) ''coursePrice'' = Inr amount" using amount by (simp add: number_value)
    have ok: "split_ok amount (shares course s)" using load_allocation_iff [OF a, of course s] al by blast
    have "set (map cp_id qs) = set (map cp_id (prices s))" by (simp only: qid)
    moreover have "set (map cp_amount qs) = set (map cp_amount (prices s))" by (simp only: qam)
    ultimately have q: "cp_id r < db_next s \<and> valid_piastres (cp_amount r)" if "r \<in> set qs" for r
      using v that unfolding parts_valid_def by (metis image_eqI imageE list.set_map)
    have "prices_split (price_in c (qs @ [p])) (shares c s)" for c
      using ok new other [of c] v by (cases "c = course") (auto simp: prices_split_def parts_valid_def)
    moreover have "unique_on cp_id (qs @ [p])"
      using ids(1) qid p(1) q by (auto simp: unique_on_append1) (auto simp: unique_on_def)
    ultimately show ?thesis
      using v q p amount by (auto simp: t parts_valid_def less_Suc_eq)
  qed
qed

lemma redeem_valid:
  assumes v: "catalogue_valid s" and tx: "grant_part_from_code user i code secs now s = Inr (g, t)"
  shows "catalogue_valid t"
proof -
  have bigger: "parts_valid ps qs sold m" if "parts_valid ps qs sold n" "n \<le> m" for ps qs sold n m
    using that by (fastforce simp: parts_valid_def)
  from grant_part_frame [OF tx] obtain pp es n where f: "t = s\<lparr>part_purchases := pp, entitlements := es, db_next := n\<rparr>" "db_next s \<le> n"
    by blast
  have "\<forall>x \<in> set pp. x \<in> set (part_purchases s) \<or> (\<exists>p \<in> set (parts s). cpt_id p = pp_part x \<and> cpt_deleted_at p = None \<and> cpt_pricing p = pp_model x)"
  proof (cases g)
    case None
    then have "t = s" using tx unfolding grant_part_from_code_def by (auto simp: result_simps split: option.splits if_splits)
    moreover have "part_purchases t = pp" by (simp add: f(1))
    ultimately show ?thesis by simp
  next
    case (Some h)
    with tx have "grant_part_from_code user i code secs now s = Inr (Some h, t)" by simp
    then show ?thesis
    proof (rule grant_part_Inr)
      fix part
      assume p: "part \<in> set (parts s)" "cpt_id part = i" "is_on_sale (cpt_status part) (cpt_active part) (cpt_deleted_at part)"
        and r: "(\<exists>x. find_entitlement user i s = Some x \<and> pe_revoked_at x = None \<and> t = s
            \<and> h = \<lparr>pg_entitlement = pe_id x, pg_acquisition = None, pg_value = 0, pg_already = True\<rparr>)
          \<or> (\<forall>x. find_entitlement user i s = Some x \<longrightarrow> pe_revoked_at x \<noteq> None) \<and> acquire_part user part code secs now s = Inr (h, t)"
      have pp: "part_purchases t = pp" by (simp add: f(1))
      from r have "part_purchases t = part_purchases s \<or> (\<exists>x. part_purchases t = part_purchases s @ [x] \<and> pp_part x = cpt_id part \<and> pp_model x = cpt_pricing part)"
      proof (elim disjE conjE)
        assume "acquire_part user part code secs now s = Inr (h, t)"
        then show ?thesis by (rule acquire_part_Inr) auto
      qed auto
      then show ?thesis using p pp by (auto simp: is_on_sale_def)
    qed
  qed
  then have "parts_valid (parts s) (prices s) pp (db_next s)" using v unfolding parts_valid_def by blast
  then have "parts_valid (parts s) (prices s) pp n" using f(2) by (rule bigger)
  then show ?thesis by (simp add: f(1))
qed

lemma parts_step_valid:
  assumes "parts_step s t" "catalogue_valid s"
  shows "catalogue_valid t"
  using assms
proof cases
  case (default_structure course actor role)
  show ?thesis unfolding default_structure
    by (rule leavesD, rule default_structure_leaves) (use assms(2) default_valid in auto)
next
  case (create course input actor role)
  show ?thesis unfolding create
    by (rule leavesD, rule create_part_leaves) (use assms(2) create_valid in auto)
next
  case (update part e actor role)
  show ?thesis unfolding update
  proof (rule leavesD, rule update_part_leaves)
    fix old u t' rows
    assume "find_part part s = Some old" "new_model e old \<noteq> cpt_pricing old \<Longrightarrow> sold_count part s = 0"
      "update_course_part_tx old e s = Inr (u, t')"
    from update_valid [OF assms(2) this] show "catalogue_valid (t'\<lparr>audit := rows\<rparr>)" by simp
  qed (rule assms(2))
next
  case (remove part now actor role)
  show ?thesis unfolding remove
    by (rule leavesD, rule remove_part_leaves) (use assms(2) remove_valid in auto)
next
  case (set_sections part ids actor role)
  show ?thesis unfolding set_sections
    by (rule leavesD, rule set_sections_leaves) (use assms(2) in \<open>auto dest!: set_sections_tx_Inr\<close>)
next
  case (reorder course ids actor role)
  show ?thesis unfolding reorder
    by (rule leavesD, rule reorder_leaves) (use assms(2) reorder_valid in auto)
next
  case (change_price amount teacher_may course currency actor role)
  show ?thesis unfolding change_price(1)
    by (rule leavesD, rule change_price_leaves) (use assms(2) change_price_valid change_price(2) in auto)
next
  case (redeem user part code secs now g)
  then show ?thesis using redeem_valid assms(2) by blast
qed

text \<open>A catalogue before anything is divided or sold.\<close>

definition undivided :: "db \<Rightarrow> bool" where
  "undivided s \<longleftrightarrow> parts s = [] \<and> part_purchases s = [] \<and> unique_on cp_id (prices s)
     \<and> (\<forall>q \<in> set (prices s). cp_id q < db_next s \<and> valid_piastres (cp_amount q))"

lemma undivided_valid: "undivided s \<Longrightarrow> catalogue_valid s"
  by (auto simp: undivided_def parts_valid_def prices_split_def split_ok_def split: option.splits)

interpretation parts_machine: invariant_system undivided parts_step catalogue_valid
  by unfold_locales (auto intro: undivided_valid parts_step_valid)

end
