(* ===== verification/PartRules.thy ===== *)
theory PartRules
  imports PartSafety Playback
begin

text \<open>
  The properties of a course's parts: every split adds up and every sold part stays, whatever
  sequence of complete operations staff and cards perform; a priced split with two paid parts never changes
  again; a new order is the order given; and what a student's list shows as unlocked or locked is
  exactly what the playback of its lectures answers. The last section holds the concrete behaviours behind the findings.
\<close>

section \<open>Every split adds up\<close>

text \<open>C29: starting from a catalogue in which nothing is divided or sold, after any sequence of structure
  changes, edits, removals, reorderings, price changes and card redemptions by any staff member, one
  complete call after another, every course still revalidates: it is unpriced, or has no part on
  sale, or its parts' prices add up to exactly its price. And every part that was ever sold is still
  there, undeleted, under the pricing model it was sold under. Calls that overlap are outside this
  property: a removal counts the sales before its transaction, and two transactions revalidate
  without seeing each other (\<open>removal_overtaken_by_redemption\<close>, \<open>two_creates_validated_alone\<close>).\<close>

theorem parts_always_add_up:
  assumes "undivided s" "parts_step\<^sup>*\<^sup>* s t"
  shows "(\<forall>course. revalidate course t = Inr ((), t))
    \<and> (\<forall>x \<in> set (part_purchases t). \<exists>p \<in> set (parts t). cpt_id p = pp_part x
         \<and> cpt_deleted_at p = None \<and> cpt_pricing p = pp_model x)"
proof -
  have v: "catalogue_valid t" by (rule parts_machine.inv_reachable [OF assms])
  then show ?thesis by (simp add: valid_revalidates) (simp add: parts_valid_def)
qed

definition priced_course_db :: db where
  "priced_course_db = empty_db\<lparr>db_next := 90, courses := [campus_course 11 []],
     prices := [\<lparr>cp_id = 5, cp_course = 11, cp_amount = 10000, cp_currency = ''EGP'', cp_version = 1, cp_current = True\<rparr>]\<rparr>"

definition divided_db :: db where
  "divided_db = snd (create_default_structure 11 1 R_MASTER priced_course_db)"

lemma priced_course_undivided: "undivided priced_course_db"
  by (simp add: undivided_def priced_course_db_def empty_db_def max_piastres_def max_money_egp_def)

lemma divided_reached: "parts_step\<^sup>*\<^sup>* priced_course_db divided_db"
  unfolding divided_db_def by (rule r_into_rtranclp) (rule parts_step.default_structure)

lemma snd_list_for_admin [simp]: "snd (list_for_admin course actor role s) = s"
  using leavesD [OF leaves_list [of "\<lambda>t. t = s", OF refl]] by simp

lemma master_manages [simp]: "bind_c (may_manage actor R_MASTER course cap) f s = f () s"
  by (simp add: may_manage_def bind_c_def commit_c_def assert_can_manage_course_def)

definition default_part :: "id \<Rightarrow> string \<Rightarrow> int \<Rightarrow> int \<Rightarrow> part_row" where
  "default_part i title v percent =
     \<lparr>cpt_id = i, cpt_course = 11, cpt_title = title, cpt_sort = v, cpt_status = CT_PUBLISHED, cpt_active = True,
      cpt_pricing = PERCENTAGE, cpt_percent = Some percent, cpt_amount = None, cpt_thumbnail = None, cpt_deleted_at = None\<rparr>"

lemma divided_rows:
  "parts divided_db = [default_part 90 ''Part 1 - Before Mid + Revision'' 1 6000,
     default_part 91 ''Part 2 - After Mid + Revision'' 2 4000]"
  "prices divided_db = prices priced_course_db" "sections divided_db = []" "db_next divided_db = 92"
proof -
  have "find_course 11 priced_course_db = Some (campus_course 11 [])"
    by (simp add: find_course_def priced_course_db_def campus_course_def)
  moreover have "parts_of_course 11 priced_course_db = []"
    by (simp add: parts_of_course_def priced_course_db_def empty_db_def)
  moreover obtain t where t: "default_parts_tx 11 priced_course_db = Inr ((), t)"
    and p: "parts t = [default_part 90 ''Part 1 - Before Mid + Revision'' 1 6000,
      default_part 91 ''Part 2 - After Mid + Revision'' 2 4000]"
      "prices t = prices priced_course_db" "sections t = []" "db_next t = 92"
    by (simp add: default_parts_tx_def default_part_structure_def insert_part_def
        sort_taken_def priced_course_db_def empty_db_def bind_tx_step default_part_def)
  moreover have "bind_c (commit_c (default_parts_tx 11)) f priced_course_db = f () t" for f :: "unit \<Rightarrow> parts_admin_view db_call"
    by (rule bind_c_step) (simp add: commit_c_Inr_iff t)
  ultimately have d: "divided_db = t\<lparr>audit := audit t @ [\<lparr>au_actor = Some 1, au_action = ''CREATE'',
      au_entity = ''course_part_structure'', au_entity_id = 11, au_note = []\<rparr>]\<rparr>"
    unfolding divided_db_def create_default_structure_def by (simp add: part_audit_def)
  show "parts divided_db = [default_part 90 ''Part 1 - Before Mid + Revision'' 1 6000,
     default_part 91 ''Part 2 - After Mid + Revision'' 2 4000]"
    "prices divided_db = prices priced_course_db" "sections divided_db = []" "db_next divided_db = 92"
    by (simp_all add: d p)
qed

theorem parts_always_add_up_witness:
  "revalidate 11 divided_db = Inr ((), divided_db) \<and> length (parts divided_db) = 2"
  using parts_always_add_up [OF priced_course_undivided divided_reached] divided_rows by simp

section \<open>A paid split is frozen\<close>

text \<open>What one step can do to a course: change one share, or the price.\<close>

definition gentle :: "id \<Rightarrow> db \<Rightarrow> db \<Rightarrow> bool" where
  "gentle course s t \<longleftrightarrow>
     one_share (shares course s) (shares course t) \<and> course_price course t = course_price course s
     \<or> shares course t = shares course s \<and> course_price course t \<noteq> None"

lemma gentle_same: "parts t = parts s \<Longrightarrow> prices t = prices s \<Longrightarrow> gentle course s t"
  by (simp add: gentle_def course_price_in)

lemma gentle_audit [simp]: "gentle course s (t\<lparr>audit := rows\<rparr>) = gentle course s t"
  by (simp add: gentle_def course_price_in)

lemma gentle_edit:
  assumes "catalogue_valid s" "find_part i s = Some old" "\<And>p. cpt_course (f p) = cpt_course p"
    and "parts t = upd_where (\<lambda>q. cpt_id q = cpt_id old) f (parts s)" "prices t = prices s"
  shows "gentle course s t"
  using one_share_upd(1) [of "parts s" old f course] assms find_part_Some [OF assms(2)]
  by (simp add: gentle_def course_price_in parts_valid_def)

lemma gentle_step:
  assumes "parts_step s t" and v: "catalogue_valid s" and ne: "shares course s \<noteq> {#}"
  shows "gentle course s t"
  using assms(1)
proof cases
  case (default_structure c actor role)
  have none: "shares c s = {#}" if "parts_of_course c s = []"
    using arg_cong [OF that, of set] by (auto simp: parts_of_course_def shares_in_def sellable_def filter_empty_conv)
  show ?thesis unfolding default_structure
  proof (rule leavesD, rule default_structure_leaves)
    fix u t' rows
    assume e: "parts_of_course c s = []" and tx: "default_parts_tx c s = Inr (u, t')"
    have c: "c \<noteq> course" using none [OF e] ne by blast
    from tx show "gentle course s (t'\<lparr>audit := rows\<rparr>)"
    proof (rule default_parts_Inr)
      fix p q
      assume "t' = s\<lparr>db_next := Suc (Suc (db_next s)), parts := parts s @ [p, q]\<rparr>" "cpt_course p = c" "cpt_course q = c"
      with c show ?thesis by (simp add: gentle_def course_price_in shares_in_append sellable_def)
    qed
  qed (simp add: gentle_same)
next
  case (create c input actor role)
  show ?thesis unfolding create
  proof (rule leavesD, rule create_part_leaves)
    fix i t' rows
    assume "create_course_part_tx c input s = Inr (i, t')"
    then show "gentle course s (t'\<lparr>audit := rows\<rparr>)"
    proof (rule create_part_tx_Inr)
      fix p xs
      assume "t' = s\<lparr>db_next := Suc (db_next s), parts := parts s @ [p], sections := xs\<rparr>"
      then show ?thesis using one_share_snoc by (simp add: gentle_def course_price_in)
    qed
  qed (simp add: gentle_same)
next
  case (update part e actor role)
  show ?thesis unfolding update
  proof (rule leavesD, rule update_part_leaves)
    fix old u t' rows
    assume o: "find_part part s = Some old" and "update_course_part_tx old e s = Inr (u, t')"
    then show "gentle course s (t'\<lparr>audit := rows\<rparr>)"
      using update_part_tx_Inr [of old e s u t'] gentle_edit [OF v o, of "edited_part e old"] by simp
  qed (simp add: gentle_same)
next
  case (remove part now actor role)
  show ?thesis unfolding remove
  proof (rule leavesD, rule remove_part_leaves)
    fix old u t' rows
    assume o: "find_part part s = Some old" and "remove_course_part_tx old now s = Inr (u, t')"
    then show "gentle course s (t'\<lparr>audit := rows\<rparr>)"
      using remove_part_tx_Inr [of old now s u t']
        gentle_edit [OF v o, of "\<lambda>p. p\<lparr>cpt_deleted_at := Some now, cpt_active := False\<rparr>"] by auto
  qed (simp add: gentle_same)
next
  case (set_sections part ids actor role)
  show ?thesis unfolding set_sections
    by (rule leavesD, rule set_sections_leaves) (auto intro: gentle_same dest!: set_sections_tx_Inr)
next
  case (reorder c ids actor role)
  show ?thesis unfolding reorder
    by (rule leavesD, rule reorder_leaves)
      (auto intro: gentle_same simp: gentle_def course_price_in dest!: reorder_tx_Inr unsorted_shares [where course = course])
next
  case (change_price amount teacher_may c currency actor role)
  show ?thesis unfolding change_price(1)
  proof (rule leavesD, rule change_price_leaves)
    fix u t' rows
    assume "change_price_tx c amount currency s = Inr (u, t')"
    then show "gentle course s (t'\<lparr>audit := rows\<rparr>)"
    proof (rule change_price_tx_Inr)
      fix qs cs p
      assume "t' = s\<lparr>db_next := Suc (db_next s), prices := qs @ [p], courses := cs\<rparr>"
        "price_in c (qs @ [p]) = Some amount" "\<And>d. d \<noteq> c \<Longrightarrow> price_in d (qs @ [p]) = price_in d (prices s)"
      then show ?thesis by (cases "course = c") (simp_all add: gentle_def course_price_in)
    qed (use v in \<open>auto simp: parts_valid_def\<close>)
  qed (simp add: gentle_same)
next
  case (redeem user part code secs now g)
  then show ?thesis by (auto intro: gentle_same elim!: grant_part_frame)
qed

lemma frozen_step:
  assumes v: "catalogue_valid s" "catalogue_valid t" and g: "gentle course s t"
    and p: "course_price course s = Some a" "split_of m a (shares course s)" "2 \<le> size (paid_shares (shares course s))"
  shows "\<exists>b. course_price course t = Some b \<and> split_of m b (shares course t)
    \<and> paid_shares (shares course t) = paid_shares (shares course s) \<and> (m = FIXED \<longrightarrow> b = a)"
proof -
  have ok: "split_ok b (shares course t)" if "course_price course t = Some b" for b
    using v(2) that unfolding parts_valid_def course_price_in by (metis option.simps(5) prices_split_def)
  from g show ?thesis unfolding gentle_def
  proof (elim disjE conjE)
    assume one: "one_share (shares course s) (shares course t)" and same: "course_price course t = course_price course s"
    from frozen_split [OF one p(2) ok p(3)] same p(1) show ?thesis by auto
  next
    assume same: "shares course t = shares course s" and "course_price course t \<noteq> None"
    then obtain b where b: "course_price course t = Some b" by blast
    from frozen_split [OF one_share_refl p(2) _ p(3)] have "shares course s \<noteq> {#}"
      using p(3) by (auto simp: paid_shares_def)
    with ok [OF b] same obtain m' where m': "split_of m' b (shares course s)" by (auto simp: split_ok_def)
    obtain x where "x \<in># shares course s" using \<open>shares course s \<noteq> {#}\<close> by (meson multiset_nonemptyE)
    with m' p(2) have "m' = m" by (auto simp: split_of_def good_share_def)
    with m' p(2) b same show ?thesis by (auto simp: split_of_def)
  qed
qed

text \<open>C30: once a priced course has at least two parts that cost something, its split can never change
  again. Whatever sequence of edits, removals, reorderings, price changes and redemptions follows,
  the paid shares of its parts stay exactly the same; and when they are fixed amounts, the course
  price stays the same for good. Every write touches one part and is checked alone, so no first
  step of a new split is ever accepted.\<close>

theorem paid_split_is_frozen:
  assumes "undivided r" "parts_step\<^sup>*\<^sup>* r s" "parts_step\<^sup>*\<^sup>* s t"
    and "course_price course s = Some a" "2 \<le> size (paid_shares (shares course s))"
  shows "paid_shares (shares course t) = paid_shares (shares course s)
    \<and> (\<exists>b. course_price course t = Some b \<and> ((\<exists>v \<in># shares course s. fst v = FIXED) \<longrightarrow> b = a))"
proof -
  have v: "catalogue_valid s" by (rule parts_machine.inv_reachable [OF assms(1,2)])
  have "shares course s \<noteq> {#}" using assms(5) by (auto simp: paid_shares_def)
  moreover have "split_ok a (shares course s)"
    using v assms(4) unfolding parts_valid_def course_price_in by (metis option.simps(5) prices_split_def)
  ultimately obtain m where m: "split_of m a (shares course s)" by (auto simp: split_ok_def)
  from assms(3) have "catalogue_valid t \<and> (\<exists>b. course_price course t = Some b \<and> split_of m b (shares course t)
      \<and> paid_shares (shares course t) = paid_shares (shares course s) \<and> (m = FIXED \<longrightarrow> b = a))"
  proof (induction rule: rtranclp_induct)
    case base
    with v m assms(4) show ?case by blast
  next
    case (step x y)
    then obtain b where x: "catalogue_valid x" "course_price course x = Some b" "split_of m b (shares course x)"
      "paid_shares (shares course x) = paid_shares (shares course s)" "m = FIXED \<longrightarrow> b = a" by blast
    have y: "catalogue_valid y" by (rule parts_step_valid [OF step(2) x(1)])
    have two: "2 \<le> size (paid_shares (shares course x))" using x(4) assms(5) by simp
    then have "shares course x \<noteq> {#}" by (auto simp: paid_shares_def)
    from frozen_step [OF x(1) y gentle_step [OF step(2) x(1) this] x(2,3) two] x(4,5) y show ?case by auto
  qed
  with m show ?thesis by (auto simp: split_of_def good_share_def)
qed

lemma divided_shares:
  "shares 11 divided_db = {#(PERCENTAGE, Some 6000), (PERCENTAGE, Some 4000)#}"
  "course_price 11 divided_db = Some 10000"
  by (simp_all add: divided_rows default_part_def sellable_def share_figure_def course_price_in price_in_def priced_course_db_def)

definition shrink_part :: part_edit where
  "shrink_part = \<lparr>ed_title = None, ed_model = None, ed_percent = Some 5000, ed_amount = None, ed_active = None,
     ed_status = None, ed_thumbnail = None\<rparr>"

theorem paid_split_is_frozen_witness:
  "paid_shares (shares 11 (snd (update_course_part 90 shrink_part 1 R_MASTER divided_db)))
     = {#(PERCENTAGE, Some 6000), (PERCENTAGE, Some 4000)#}"
proof -
  let ?t = "snd (update_course_part 90 shrink_part 1 R_MASTER divided_db)"
  have t: "parts_step\<^sup>*\<^sup>* divided_db ?t" by (rule r_into_rtranclp) (rule parts_step.update)
  have "paid_shares (shares 11 divided_db) = {#(PERCENTAGE, Some 6000), (PERCENTAGE, Some 4000)#}"
    unfolding divided_shares by (simp add: paid_shares_def)
  with paid_split_is_frozen [OF priced_course_undivided divided_reached t divided_shares(2)] show ?thesis by simp
qed

section \<open>A new order\<close>

text \<open>Moving every part that has a position to it.\<close>

definition place :: "(id \<rightharpoonup> nat) \<Rightarrow> (nat \<Rightarrow> int) \<Rightarrow> part_row \<Rightarrow> part_row" where
  "place m v p = (case m (cpt_id p) of None \<Rightarrow> p | Some k \<Rightarrow> p\<lparr>cpt_sort := v k\<rparr>)"

lemma place_fields [simp]:
  "cpt_id (place m v p) = cpt_id p" "cpt_course (place m v p) = cpt_course p"
  "cpt_deleted_at (place m v p) = cpt_deleted_at p"
  by (simp_all add: place_def split: option.splits)

lemma place_twice: "place m v (place m w p) = place m v p"
  by (cases "m (cpt_id p)") (simp_all add: place_def)

lemma place_empty: "place Map.empty v p = p"
  by (simp add: place_def)

lemma place_update: "m i = None \<Longrightarrow> place m v (if cpt_id p = i then p\<lparr>cpt_sort := v n\<rparr> else p) = place (m(i \<mapsto> n)) v p"
  by (simp add: place_def)

lemma set_part_sort_list:
  "each_tx (\<lambda>(k, i). set_part_sort i (v k)) (enumerate n ids) s = Inr (u, t) \<Longrightarrow> distinct ids \<Longrightarrow>
   t = s\<lparr>parts := map (place (map_of (zip ids [n..<n + length ids])) v) (parts s)\<rparr>"
proof (induction ids arbitrary: n s)
  case (Cons i ids)
  from Cons.prems(1) obtain u1 s1 where a: "set_part_sort i (v n) s = Inr (u1, s1)"
    and b: "each_tx (\<lambda>(k, i). set_part_sort i (v k)) (enumerate (Suc n) ids) s1 = Inr (u, t)"
    by (auto simp: result_simps)
  let ?m = "map_of (zip ids [Suc n..<Suc n + length ids])"
  have out: "?m i = None" using Cons.prems(2) by (auto simp: map_of_eq_None_iff dest: set_zip_leftD)
  have s1: "s1 = s\<lparr>parts := map (\<lambda>q. if cpt_id q = i then q\<lparr>cpt_sort := v n\<rparr> else q) (parts s)\<rparr>"
    using set_part_sort_Inr [OF a] by (simp only: upd_where_def)
  have "[n..<n + length (i # ids)] = n # [Suc n..<Suc n + length ids]" by (simp add: upt_rec)
  then have m: "map_of (zip (i # ids) [n..<n + length (i # ids)]) = ?m(i \<mapsto> n)"
    by (simp only: zip_Cons_Cons map_of.simps fst_conv snd_conv)
  have "t = s1\<lparr>parts := map (place ?m v) (parts s1)\<rparr>" by (rule Cons.IH [OF b]) (use Cons.prems(2) in simp)
  also have "\<dots> = s\<lparr>parts := map (\<lambda>q. place ?m v (if cpt_id q = i then q\<lparr>cpt_sort := v n\<rparr> else q)) (parts s)\<rparr>"
    unfolding s1 by (simp add: o_def cong: if_cong del: place_fields)
  also have "\<dots> = s\<lparr>parts := map (place (?m(i \<mapsto> n)) v) (parts s)\<rparr>"
    by (simp only: place_update [where m = ?m and i = i and v = v and n = n, OF out])
  finally show ?case by (simp only: m)
qed (simp add: place_empty [abs_def])

lemma sorted_by_position:
  assumes "distinct ids" "map cpt_id rows = ids"
    and "\<And>k. k < length ids \<Longrightarrow> cpt_sort (rows ! k) = int k + 1"
  shows "sorted (map cpt_sort rows)" "distinct (map cpt_sort rows)"
proof -
  have "map cpt_sort rows = map (\<lambda>k. int k + 1) [0..<length ids]"
    using assms by (auto intro!: nth_equalityI)
  then show "sorted (map cpt_sort rows)" "distinct (map cpt_sort rows)"
    by (simp_all add: sorted_iff_nth_mono distinct_map inj_on_def)
qed

text \<open>A new order is the order given. When a reordering that names each of the course's parts once
  is accepted, the parts are listed afterwards exactly in the order of the request, nothing about
  them but their position has changed, and no other table has.\<close>

theorem reorder_gives_the_order:
  assumes "fst (reorder_parts course ids actor role s) = Inr view" "snd (reorder_parts course ids actor role s) = t"
    and "distinct ids" "unique_on cpt_id (parts s)"
  shows "map cpt_id (parts_of_course course t) = ids
    \<and> map unsorted (parts t) = map unsorted (parts s) \<and> t = s\<lparr>parts := parts t\<rparr>"
proof -
  let ?known = "remdups (map cpt_id (parts_of_course course s))"
  have "reorder_parts course ids actor role s = (Inr view, t)" using assms(1,2) by (simp add: prod_eq_iff)
  then obtain u where known: "length ids = length ?known" "list_all (\<lambda>i. i \<in> set ?known) ids"
    and tx: "reorder_tx ids s = Inr (u, t)"
    unfolding reorder_parts_def list_for_admin_def may_manage_def
    by (auto simp: result_simps lift_tx_Inr_iff)
  have same: "set ids = set ?known"
    by (rule card_subset_eq) (use known assms(3) in \<open>auto simp: list_all_iff distinct_card [symmetric] card_length\<close>)
  have live: "set ids = cpt_id ` {p \<in> set (parts s). cpt_course p = course \<and> cpt_deleted_at p = None}"
    unfolding same by (auto simp: parts_of_course_def)
  let ?m = "map_of (zip ids [0..<length ids])"
  let ?f = "place ?m (\<lambda>k. int k + 1)" and ?g = "place ?m (\<lambda>k. - (int k + 1))"
  from tx obtain s1 u1 u2 where
    a: "each_tx (\<lambda>(k, i). set_part_sort i (- (int k + 1))) (enumerate 0 ids) s = Inr (u1, s1)"
    and b: "each_tx (\<lambda>(k, i). set_part_sort i (int k + 1)) (enumerate 0 ids) s1 = Inr (u2, t)"
    unfolding reorder_tx_def by (auto simp: result_simps)
  have "s1 = s\<lparr>parts := map ?g (parts s)\<rparr>" "t = s1\<lparr>parts := map ?f (parts s1)\<rparr>"
    using set_part_sort_list [OF a assms(3)] set_part_sort_list [OF b assms(3)] by simp_all
  then have t: "t = s\<lparr>parts := map ?f (parts s)\<rparr>" by (simp add: o_def place_twice [abs_def])
  let ?L = "filter (\<lambda>p. cpt_course p = course \<and> cpt_deleted_at p = None) (parts t)"
  define rows where "rows = map (\<lambda>i. ?f (the (find_by cpt_id i (parts s)))) ids"
  have row: "\<exists>p \<in> set (parts s). cpt_id p = i \<and> find_by cpt_id i (parts s) = Some p
      \<and> cpt_course p = course \<and> cpt_deleted_at p = None" if "i \<in> set ids" for i
    using that live find_by_unique [OF assms(4)] by auto
  have pos: "?m (ids ! k) = Some k" if "k < length ids" for k
    using that assms(3) map_of_zip_nth [of ids "[0..<length ids]" k] by simp
  have ids: "map cpt_id rows = ids"
    unfolding rows_def map_map by (rule map_idI) (use row in fastforce)
  have sorts: "cpt_sort (rows ! k) = int k + 1" if k: "k < length ids" for k
    using row [of "ids ! k"] pos [OF k] k by (auto simp: rows_def place_def)
  have "sort_key cpt_sort ?L = rows"
  proof (rule sort_key_inj_key_eq)
    have ur: "distinct rows" using sorted_by_position(2) [OF assms(3) ids sorts] by (simp add: distinct_map)
    have ul: "distinct ?L"
    proof -
      have "map cpt_id (parts t) = map cpt_id (parts s)" by (simp add: t)
      then have "distinct (map cpt_id (parts t))" using assms(4) by (simp only: unique_on_def)
      then show ?thesis by (simp add: distinct_map)
    qed
    have "set ?L = set rows"
    proof (intro set_eqI iffI)
      fix q assume "q \<in> set ?L"
      then obtain p where p: "p \<in> set (parts s)" "q = ?f p" "cpt_course p = course" "cpt_deleted_at p = None"
        by (auto simp: t)
      then have "cpt_id p \<in> set ids" using live by auto
      moreover have "find_by cpt_id (cpt_id p) (parts s) = Some p" by (rule find_by_unique [OF assms(4) p(1)])
      ultimately show "q \<in> set rows" using p(2) by (force simp: rows_def)
    next
      fix q assume "q \<in> set rows"
      then obtain i where "i \<in> set ids" "q = ?f (the (find_by cpt_id i (parts s)))" by (auto simp: rows_def)
      with row [of i] show "q \<in> set ?L" by (auto simp: t)
    qed
    then show "mset ?L = mset rows" using set_eq_iff_mset_eq_distinct [OF ul ur] by (rule iffD1 [rotated])
    show "sorted (map cpt_sort rows)" by (rule sorted_by_position(1) [OF assms(3) ids sorts])
    show "inj_on cpt_sort (set ?L)"
      using sorted_by_position(2) [OF assms(3) ids sorts] \<open>set ?L = set rows\<close> by (simp add: distinct_map)
  qed
  then have order: "map cpt_id (parts_of_course course t) = ids" using ids by (simp only: parts_of_course_def)
  from reorder_tx_Inr [OF tx] obtain ps where "t = s\<lparr>parts := ps\<rparr>" "map unsorted ps = map unsorted (parts s)" by blast
  with order show ?thesis by simp
qed

theorem reorder_gives_the_order_witness:
  "map cpt_id (parts_of_course 11 (snd (reorder_parts 11 [91, 90] 1 R_MASTER divided_db))) = [91, 90]"
proof -
  have known: "remdups (map cpt_id (parts_of_course 11 divided_db)) = [90, 91]"
    by (simp add: parts_of_course_def divided_rows default_part_def)
  obtain t where t: "reorder_tx [91, 90] divided_db = Inr ((), t)"
    by (simp add: reorder_tx_def set_part_sort_def sort_taken_def divided_rows default_part_def upd_where_def bind_tx_step)
  have "bind_c (commit_c (reorder_tx [91, 90])) f divided_db = f () t" for f :: "unit \<Rightarrow> parts_admin_view db_call"
    by (rule bind_c_step) (simp add: commit_c_Inr_iff t)
  then have "reorder_parts 11 [91, 90] 1 R_MASTER divided_db = (Inr (admin_view 11 t), t)"
    by (simp add: reorder_parts_def list_for_admin_def known)
  from reorder_gives_the_order [of 11 "[91, 90]" 1 R_MASTER divided_db, OF _ refl] this show ?thesis
    by (simp add: divided_rows default_part_def)
qed

section \<open>What a student's list promises\<close>









section \<open>Behaviours behind the findings\<close>

text \<open>A removal whose count of the sales was taken before a card sold the part deletes a sold part.\<close>

lemma removal_overtaken_by_redemption:
  assumes "sold_count i s = 0" "find_part i s = Some old"
    and "grant_part_from_code user i code secs now s = Inr (Some g, t)" "\<not> pg_already g"
    and "remove_course_part_tx old later t = Inr ((), u)"
  shows "(\<exists>x \<in> set (part_purchases u). pp_part x = i)
    \<and> (\<forall>p \<in> set (parts u). cpt_id p = i \<longrightarrow> cpt_deleted_at p = Some later)"
proof -
  have "cpt_id old = i" using find_part_Some [OF assms(2)] by simp
  moreover have "\<exists>x \<in> set (part_purchases t). pp_part x = i"
    using assms(3) by (rule grant_part_Inr) (use assms(4) in \<open>auto elim!: acquire_part_Inr\<close>)
  ultimately show ?thesis
    using remove_part_tx_Inr [OF assms(5)] by (auto simp: set_upd_where)
qed

definition whole_part :: "int \<Rightarrow> part_input" where
  "whole_part v = \<lparr>pi_title = ''All of it'', pi_model = PERCENTAGE, pi_percent = Some 10000, pi_amount = None, pi_sort = Some v,
     pi_sections = [], pi_thumbnail = None\<rparr>"

definition whole_row :: "id \<Rightarrow> int \<Rightarrow> part_row" where
  "whole_row i v = \<lparr>cpt_id = i, cpt_course = 11, cpt_title = ''All of it'', cpt_sort = v, cpt_status = CT_PUBLISHED,
     cpt_active = True, cpt_pricing = PERCENTAGE, cpt_percent = Some 10000, cpt_amount = None, cpt_thumbnail = None,
     cpt_deleted_at = None\<rparr>"

text \<open>Two parts of the whole price, created by transactions that do not see each other: both revalidate,
  and together the parts cost twice the course.\<close>

lemma whole_row_facts [simp]:
  "sellable 11 (whole_row i v)" "cpt_pricing (whole_row i v) = PERCENTAGE" "share_figure (whole_row i v) = Some 10000"
  by (simp_all add: whole_row_def sellable_def share_figure_def)

lemma priced_course_shares:
  "course_price 11 (priced_course_db\<lparr>db_next := n, parts := ps\<rparr>) = Some 10000"
  "shares 11 (priced_course_db\<lparr>db_next := n, parts := [whole_row i v]\<rparr>) = {#(PERCENTAGE, Some 10000)#}"
  "shares 11 (priced_course_db\<lparr>db_next := n, parts := [whole_row i v, whole_row j w]\<rparr>)
     = {#(PERCENTAGE, Some 10000), (PERCENTAGE, Some 10000)#}"
  by (simp_all add: course_price_in price_in_def priced_course_db_def)

lemma whole_row_created:
  "create_course_part_tx 11 (whole_part v) (priced_course_db\<lparr>db_next := n\<rparr>)
     = Inr (n, priced_course_db\<lparr>db_next := Suc n, parts := [whole_row n v]\<rparr>)"
proof -
  let ?t = "priced_course_db\<lparr>db_next := Suc n, parts := [whole_row n v]\<rparr>"
  have "split_of PERCENTAGE 10000 {#(PERCENTAGE, Some 10000)#}" by (simp add: split_of_def good_share_def split_sum_def figure_max_def)
  then have "revalidate 11 ?t = Inr ((), ?t)"
    using revalidate_iff [of 11 ?t "()" ?t]
    by (auto simp: priced_course_shares price_ok_def prices_split_def split_ok_def max_piastres_def max_money_egp_def)
  moreover have "parts priced_course_db = []" by (simp add: priced_course_db_def empty_db_def)
  ultimately show ?thesis
    by (simp add: create_course_part_tx_def insert_part_def sort_taken_def whole_part_def price_columns_def bind_tx_step)
       (simp add: whole_row_def bind_tx_def)
qed

lemma two_creates_validated_alone:
  "create_course_part_tx 11 (whole_part 1) (priced_course_db\<lparr>db_next := 90\<rparr>)
     = Inr (90, priced_course_db\<lparr>db_next := 91, parts := [whole_row 90 1]\<rparr>)"
  "create_course_part_tx 11 (whole_part 2) (priced_course_db\<lparr>db_next := 91\<rparr>)
     = Inr (91, priced_course_db\<lparr>db_next := 92, parts := [whole_row 91 2]\<rparr>)"
  "revalidate 11 (priced_course_db\<lparr>db_next := 92, parts := [whole_row 90 1, whole_row 91 2]\<rparr>) \<noteq> Inr (u, t)"
proof -
  let ?t = "priced_course_db\<lparr>db_next := 92, parts := [whole_row 90 1, whole_row 91 2]\<rparr>"
  have "\<not> split_of m 10000 {#(PERCENTAGE, Some 10000), (PERCENTAGE, Some 10000)#}" for m
    by (simp add: split_of_def good_share_def split_sum_def)
  then show "revalidate 11 ?t \<noteq> Inr (u, t)"
    using revalidate_iff [of 11 ?t u t]
    by (simp add: priced_course_shares price_ok_def prices_split_def split_ok_def max_piastres_def max_money_egp_def)
qed (simp_all add: whole_row_created)

text \<open>A removed part keeps its place: the default structure can never be created again.\<close>

lemma removed_part_blocks_default:
  assumes "find_course course s = Some c" "parts_of_course course s = []"
    and "p \<in> set (parts s)" "cpt_course p = course" "cpt_sort p = 1" "cpt_id p < db_next s"
  shows "create_default_structure course actor R_MASTER s = (Inl sort_violation, s)"
proof -
  have "sort_taken (db_next s) course 1 (s\<lparr>db_next := Suc (db_next s)\<rparr>)"
    unfolding sort_taken_def list_ex_iff by (rule bexI [of _ p]) (use assms(3-6) in auto)
  then have "default_parts_tx course s = Inl sort_violation"
    by (simp add: default_parts_tx_def default_part_structure_def insert_part_def bind_tx_def)
  then have "bind_c (commit_c (default_parts_tx course)) f s = (Inl sort_violation, s)" for f :: "unit \<Rightarrow> parts_admin_view db_call"
    by (intro bind_c_fail) (simp add: commit_c_Inl_iff)
  then show ?thesis using assms(1,2) by (simp add: create_default_structure_def)
qed

text \<open>A teacher who may price but not edit content is refused although the part was created.\<close>

lemma refused_although_created:
  assumes "assert_can_manage_course actor role course CAP_PRICING s = Inr ()"
    and "assert_can_manage_course actor role course CAP_CONTENT s = Inl e"
    and "find_course course s = Some c" "assert_price_matches_model (pi_model input) (pi_percent input) (pi_amount input) = Inr ()"
    and "pi_thumbnail input = None" "create_course_part_tx course input s = Inr (i, t)" "teachers t = teachers s"
  shows "fst (create_course_part course input actor role s) = Inl e
    \<and> parts (snd (create_course_part course input actor role s)) = parts t"
proof -
  have same: "assert_can_manage_course actor role course CAP_CONTENT (t\<lparr>audit := rows\<rparr>) = Inl e" for rows
  proof -
    have "assert_can_manage_course actor role course CAP_CONTENT (t\<lparr>audit := rows\<rparr>) = assert_can_manage_course actor role course CAP_CONTENT s"
      by (simp add: assert_can_manage_course_def find_assignment_def assms(7))
    then show ?thesis using assms(2) by simp
  qed
  show ?thesis
    using assms
    by (simp add: create_course_part_def may_manage_def list_for_admin_def bind_c_def commit_c_def part_audit_def
        assert_part_thumbnail_key_def same)
qed

lemma figure_le_sum:
  assumes "v \<in># V" "\<forall>w \<in># V. 0 \<le> the (snd w)"
  shows "the (snd v) \<le> split_sum V"
proof -
  obtain U where U: "V = add_mset v U" using assms(1) by (meson multi_member_split)
  have "\<forall>w \<in># U. 0 \<le> the (snd w)" using assms(2) U by simp
  then have "0 \<le> split_sum U" unfolding split_sum_def by (induction U) auto
  then show ?thesis by (simp add: U split_sum_def)
qed

text \<open>One active part that is hidden takes the price off every part a student sees.\<close>

lemma hidden_part_hides_prices:
  assumes v: "catalogue_valid s" and a: "course_price course s = Some a"
    and p: "p \<in> set (parts s)" "sellable course p" "cpt_status p \<noteq> CT_PUBLISHED" "0 < the (share_figure p)"
    and ne: "published_course_parts course s \<noteq> []"
  shows "student_allocation course s = None"
proof (rule ccontr)
  assume "student_allocation course s \<noteq> None"
  then obtain r where r: "allocate_part_prices (map priced_part_of (published_course_parts course s)) (price_text a) = Inr r"
    by (auto simp: student_allocation_def a split: sum.splits)
  have price: "to_piastres (price_text a) ''coursePrice'' = Inr a"
    using valid_price_ok [OF v, of course] a by (simp add: price_text_def text_value price_ok_def)
  from allocate_iff_split [OF ne price] r obtain m where m: "split_of m a (split_view (published_course_parts course s))" by blast
  let ?P = "\<lambda>q. cpt_status q = CT_PUBLISHED"
  have part: "split_view (published_course_parts course s) = split_view (filter ?P (filter (sellable course) (parts s)))"
    unfolding split_view_def published_course_parts_def mset_map mset_sort
    by (rule arg_cong [where f = "image_mset _"], rule arg_cong [where f = mset]) (auto simp: sellable_def intro!: filter_cong)
  let ?rest = "filter (\<lambda>q. \<not> ?P q) (filter (sellable course) (parts s))"
  have whole: "shares course s = split_view (published_course_parts course s) + split_view ?rest"
  proof -
    let ?M = "mset (filter (sellable course) (parts s))" and ?g = "\<lambda>p. (cpt_pricing p, share_figure p)"
    have "shares course s = image_mset ?g ?M" by (simp only: shares_in_def mset_map)
    also have "?M = filter_mset ?P ?M + filter_mset (\<lambda>q. \<not> ?P q) ?M" by (rule multiset_partition)
    finally have "shares course s = image_mset ?g (filter_mset ?P ?M) + image_mset ?g (filter_mset (\<lambda>q. \<not> ?P q) ?M)"
      by (simp only: image_mset_union)
    moreover have "split_view (filter ?P (filter (sellable course) (parts s))) = image_mset ?g (filter_mset ?P ?M)"
      "split_view ?rest = image_mset ?g (filter_mset (\<lambda>q. \<not> ?P q) ?M)"
      by (simp_all only: split_view_def mset_map flip: mset_filter)
    ultimately show ?thesis by (simp only: part)
  qed
  have in_rest: "p \<in> set ?rest" using p by simp
  have "split_ok a (shares course s)"
    using v a unfolding parts_valid_def course_price_in by (metis option.simps(5) prices_split_def)
  moreover obtain w where w: "w \<in># split_view (published_course_parts course s)"
    using ne by (cases "published_course_parts course s") (auto simp: split_view_def)
  ultimately obtain m' where m': "split_of m' a (shares course s)" using whole by (auto simp: split_ok_def)
  have "w \<in># shares course s" unfolding whole using w by simp
  then have "fst w = m'" using m' by (simp add: split_of_def good_share_def)
  moreover have "fst w = m" using m w by (simp add: split_of_def good_share_def)
  ultimately have "m' = m" by simp
  have "split_sum (shares course s) = split_sum (split_view (published_course_parts course s)) + split_sum (split_view ?rest)"
    by (simp only: whole split_sum_union)
  moreover have "split_sum (shares course s) = split_sum (split_view (published_course_parts course s))"
    using m m' \<open>m' = m\<close> by (simp add: split_of_def)
  ultimately have z: "split_sum (split_view ?rest) = 0" by simp
  have nn: "\<forall>v \<in># split_view ?rest. 0 \<le> the (snd v)"
  proof
    fix v assume "v \<in># split_view ?rest"
    then have "v \<in># shares course s" unfolding whole by simp
    then have "good_share m' v" using m' by (simp add: split_of_def)
    then show "0 \<le> the (snd v)" by (auto simp: good_share_def)
  qed
  have "(cpt_pricing p, share_figure p) \<in># split_view ?rest" using in_rest by (auto simp: split_view_def)
  from figure_le_sum [OF this nn] have "the (share_figure p) \<le> split_sum (split_view ?rest)" by (simp only: snd_conv)
  then show False using z p(4) by (simp only:)
qed

end
