(* ===== verification/Calendar.thy ===== *)
theory Calendar
  imports Money
begin

text \<open>
  The calendar arithmetic behind schedules: the proleptic Gregorian calendar of the language's
  \<open>Date.UTC\<close> and the \<open>getUTC\<close> readers, with days counted from 1 January 1970. A date is turned into
  its day number by the formula of the language standard, and a day number into its date by walking
  from a year to the year that contains the day and then through the months. Both directions are
  shown to be inverse to each other, so that stepping through day numbers is stepping through dates.
\<close>

definition leap :: "int \<Rightarrow> bool" where
  "leap y \<longleftrightarrow> 4 dvd y \<and> (\<not> 100 dvd y \<or> 400 dvd y)"

definition jan1 :: "int \<Rightarrow> int" where
  "jan1 y = 365 * (y - 1970) + (y - 1969) div 4 - (y - 1901) div 100 + (y - 1601) div 400"

definition month_lengths :: "int \<Rightarrow> int list" where
  "month_lengths y = [31, if leap y then 29 else 28, 31, 30, 31, 30, 31, 31, 30, 31, 30, 31]"

definition length_of_month :: "int \<Rightarrow> nat \<Rightarrow> int" where
  "length_of_month y m = month_lengths y ! (m - 1)"

definition before_month :: "int \<Rightarrow> nat \<Rightarrow> int" where
  "before_month y m = sum_list (take (m - 1) (month_lengths y))"

record date =
  year :: int
  month :: nat
  day :: int

definition real_date :: "date \<Rightarrow> bool" where
  "real_date d \<longleftrightarrow> 1 \<le> month d \<and> month d \<le> 12 \<and> 1 \<le> day d \<and> day d \<le> length_of_month (year d) (month d)"

text \<open>\<open>Date.UTC\<close>: the day may lie outside its month and is then counted on.\<close>

definition day_number :: "date \<Rightarrow> int" where
  "day_number d = jan1 (year d) + before_month (year d) (month d) + day d - 1"

lemma div_step:
  fixes c x :: int
  assumes "0 < c"
  shows "(x + 1) div c = x div c + (if c dvd x + 1 then 1 else 0)"
proof -
  have r: "0 \<le> x mod c" "x mod c < c" using assms by simp_all
  have x: "c * (x div c) + x mod c = x" by simp
  show ?thesis
  proof (cases "x mod c + 1 = c")
    case True
    have "x + 1 = (x div c + 1) * c" using True x by (simp only: distrib_right mult.commute [of "x div c"])
    moreover from this have "c dvd x + 1" by simp
    ultimately show ?thesis using assms by simp
  next
    case False
    with r have small: "0 \<le> x mod c + 1" "x mod c + 1 < c" by auto
    have "(x + 1) div c = x div c"
      by (rule int_div_pos_eq [where r = "x mod c + 1"]) (use small x in linarith)+
    moreover have "(x + 1) mod c = x mod c + 1" 
      by (rule int_mod_pos_eq [where q = "x div c"]) (use small x in linarith)+
    ultimately show ?thesis using r by (auto simp: dvd_eq_mod_eq_0)
  qed
qed

lemma jan1_step: "jan1 (y + 1) = jan1 y + (if leap y then 366 else 365)"
proof -
  have d: "4 dvd y - 1968 \<longleftrightarrow> 4 dvd y" "100 dvd y - 1900 \<longleftrightarrow> 100 dvd y" "400 dvd y - 1600 \<longleftrightarrow> 400 dvd y"
    using dvd_add_times_triv_right_iff [of 4 y "- 492"] dvd_add_times_triv_right_iff [of 100 y "- 19"]
      dvd_add_times_triv_right_iff [of 400 y "- 4"] by simp_all
  have fours: "(y + 1 - 1969) div 4 = (y - 1969) div 4 + (if 4 dvd y then 1 else 0)"
    using div_step [of 4 "y - 1969"] d by simp
  have hundreds: "(y + 1 - 1901) div 100 = (y - 1901) div 100 + (if 100 dvd y then 1 else 0)"
    using div_step [of 100 "y - 1901"] d by simp
  have longer: "(y + 1 - 1601) div 400 = (y - 1601) div 400 + (if 400 dvd y then 1 else 0)"
    using div_step [of 400 "y - 1601"] d by simp
  have linear: "365 * (y + 1 - 1970) + a' - b' + c' = 365 * (y - 1970) + a - b + c + (if p \<and> (\<not> q \<or> r) then 366 else 365)"
    if "a' = a + (if p then 1 else 0)" "b' = b + (if q then 1 else 0)" "c' = c + (if r then 1 else 0)"
      "r \<longrightarrow> q" "q \<longrightarrow> p" for a b c a' b' c' :: int and p q r
    using that by (cases p; cases q; cases r) simp_all
  show ?thesis unfolding jan1_def leap_def
    by (rule linear [OF fours hundreds longer])
      (use dvd_trans [of 100 400 y] dvd_trans [of 4 100 y] in simp_all)
qed

lemma sum_month_lengths: "sum_list (month_lengths y) = (if leap y then 366 else 365)"
  by (simp add: month_lengths_def)

lemma length_month_lengths [simp]: "length (month_lengths y) = 12"
  by (simp add: month_lengths_def)

lemma month_length_bounds:
  assumes "1 \<le> m" "m \<le> 12"
  shows "28 \<le> length_of_month y m" "length_of_month y m \<le> 31"
proof -
  have "m - 1 < length (month_lengths y)" using assms by simp
  then have "month_lengths y ! (m - 1) \<in> set (month_lengths y)" by (rule nth_mem)
  then show "28 \<le> length_of_month y m" "length_of_month y m \<le> 31"
    by (auto simp: length_of_month_def month_lengths_def)
qed

lemma before_month_simps [simp]:
  "before_month y (Suc 0) = 0"
  "before_month y 1 = 0"
  by (simp_all add: before_month_def)

lemma before_month_Suc:
  assumes "1 \<le> m" "m \<le> 11"
  shows "before_month y (Suc m) = before_month y m + length_of_month y m"
proof -
  have "take (Suc (m - 1)) (month_lengths y) = take (m - 1) (month_lengths y) @ [month_lengths y ! (m - 1)]"
    by (rule take_Suc_conv_app_nth) (use assms in simp)
  then show ?thesis using assms by (simp add: before_month_def length_of_month_def)
qed

lemma after_december: "before_month y 12 + length_of_month y 12 = (if leap y then 366 else 365)"
  by (simp add: before_month_def length_of_month_def month_lengths_def)

section \<open>Reading a day number\<close>

text \<open>The year that contains a day, found by walking from a given year.\<close>

function year_from :: "int \<Rightarrow> int \<Rightarrow> int" where
  "year_from y n =
     (if n < jan1 y then year_from (y - 1) n
      else if jan1 (y + 1) \<le> n then year_from (y + 1) n
      else y)"
  by pat_completeness auto

termination
proof (relation "measure (\<lambda>(y, n). nat (if n < jan1 y then jan1 y - n
    else if jan1 (y + 1) \<le> n then n - jan1 (y + 1) + 1 else 0))", goal_cases)
  case 1
  show ?case by simp
next
  case (2 y n)
  have "jan1 y = jan1 (y - 1) + (if leap (y - 1) then 366 else 365)" using jan1_step [of "y - 1"] by simp
  with 2 show ?case by (auto split: if_splits)
next
  case (3 y n)
  have "jan1 (y + 2) = jan1 (y + 1) + (if leap (y + 1) then 366 else 365)"
    using jan1_step [of "y + 1"] by (simp add: add.commute)
  moreover have "jan1 (y + 1) = jan1 y + (if leap y then 366 else 365)" by (rule jan1_step)
  ultimately show ?case using 3 by (auto split: if_splits simp: add.assoc)
qed

declare year_from.simps [simp del]

fun month_of :: "int \<Rightarrow> nat \<Rightarrow> int list \<Rightarrow> nat \<times> int" where
  "month_of n m [] = (m, n + 1)"
| "month_of n m (l # ls) = (if n < l \<or> ls = [] then (m, n + 1) else month_of (n - l) (Suc m) ls)"

text \<open>\<open>getUTCFullYear\<close>, \<open>getUTCMonth\<close> and \<open>getUTCDate\<close> of a day.\<close>

definition date_of :: "int \<Rightarrow> date" where
  "date_of n = (let y = year_from 1970 n; (m, d) = month_of (n - jan1 y) 1 (month_lengths y)
                in \<lparr>year = y, month = m, day = d\<rparr>)"

lemma year_from_contains: "jan1 (year_from y n) \<le> n \<and> n < jan1 (year_from y n + 1)"
proof (induction y n rule: year_from.induct)
  case (1 y n)
  then show ?case by (subst (1 2) year_from.simps) (auto simp: not_less not_le)
qed

lemma jan1_mono: "y \<le> z \<Longrightarrow> jan1 y \<le> jan1 z"
proof (induction "nat (z - y)" arbitrary: z)
  case (Suc k)
  then have "jan1 y \<le> jan1 (z - 1)" by simp
  also have "\<dots> \<le> jan1 z" using jan1_step [of "z - 1"] by (simp split: if_splits)
  finally show ?case .
qed simp

lemma year_contains_unique:
  assumes "jan1 y \<le> n" "n < jan1 (y + 1)" "jan1 z \<le> n" "n < jan1 (z + 1)"
  shows "y = z"
  using assms jan1_mono [of "y + 1" z] jan1_mono [of "z + 1" y] by (cases y z rule: linorder_cases) auto

lemma month_of_walk:
  assumes "0 \<le> n" "n < sum_list ls" "\<forall>l \<in> set ls. 0 < l"
  shows "\<exists>k < length ls. month_of n m ls = (m + k, n - sum_list (take k ls) + 1)
    \<and> 0 \<le> n - sum_list (take k ls) \<and> n - sum_list (take k ls) < ls ! k"
  using assms
proof (induction ls arbitrary: n m)
  case (Cons l ls)
  show ?case
  proof (cases "n < l \<or> ls = []")
    case True
    with Cons.prems show ?thesis by (intro exI [of _ 0]) auto
  next
    case False
    then obtain k where "k < length ls" "month_of (n - l) (Suc m) ls = (Suc m + k, n - l - sum_list (take k ls) + 1)"
      "0 \<le> n - l - sum_list (take k ls)" "n - l - sum_list (take k ls) < ls ! k"
      using Cons.IH [of "n - l" "Suc m"] Cons.prems by auto
    with False show ?thesis by (intro exI [of _ "Suc k"]) (simp add: algebra_simps)
  qed
qed simp

lemma positive_lengths: "\<forall>l \<in> set (month_lengths y). 0 < l"
  by (simp add: month_lengths_def)

lemma date_of_real: "real_date (date_of n) \<and> day_number (date_of n) = n"
proof -
  let ?y = "year_from 1970 n"
  have n: "0 \<le> n - jan1 ?y" "n - jan1 ?y < sum_list (month_lengths ?y)"
    using year_from_contains [of 1970 n] jan1_step [of ?y] by (simp_all add: sum_month_lengths)
  obtain k where k: "k < 12" "month_of (n - jan1 ?y) 1 (month_lengths ?y)
      = (1 + k, n - jan1 ?y - sum_list (take k (month_lengths ?y)) + 1)"
    "0 \<le> n - jan1 ?y - sum_list (take k (month_lengths ?y))"
    "n - jan1 ?y - sum_list (take k (month_lengths ?y)) < month_lengths ?y ! k"
    using month_of_walk [OF n positive_lengths, of 1] by auto
  then show ?thesis
    by (simp add: date_of_def Let_def real_date_def day_number_def before_month_def length_of_month_def)
qed

lemma before_month_grows:
  assumes "1 \<le> m" "m < k" "k \<le> 12"
  shows "before_month y m + length_of_month y m \<le> before_month y k"
  using assms(2,3)
proof (induction k)
  case (Suc k)
  have "before_month y (Suc k) = before_month y k + length_of_month y k"
    using before_month_Suc [of k y] Suc.prems assms(1) by simp
  moreover have "0 \<le> length_of_month y k" using month_length_bounds(1) [of k y] Suc.prems assms(1) by simp
  ultimately show ?case using Suc by (cases "m = k") auto
qed simp

lemma day_in_year:
  assumes "real_date d"
  shows "jan1 (year d) \<le> day_number d" "day_number d < jan1 (year d + 1)"
proof -
  have "0 \<le> before_month (year d) (month d)"
    using assms before_month_grows [of 1 "month d" "year d"] month_length_bounds(1) [of 1 "year d"]
    by (cases "month d = 1") (auto simp: real_date_def)
  then show "jan1 (year d) \<le> day_number d" using assms by (simp add: real_date_def day_number_def)
  have "before_month (year d) (month d) + length_of_month (year d) (month d) \<le> (if leap (year d) then 366 else 365)"
  proof (cases "month d = 12")
    case True
    then show ?thesis using after_december [of "year d"] by simp
  next
    case False
    then show ?thesis
      using assms before_month_grows [of "month d" 12 "year d"] after_december [of "year d"]
        month_length_bounds(1) [of 12 "year d"]
      by (auto simp: real_date_def)
  qed
  then show "day_number d < jan1 (year d + 1)"
    using assms jan1_step [of "year d"] by (auto simp: real_date_def day_number_def)
qed

lemma day_number_inject:
  assumes "real_date d" "real_date e" "day_number d = day_number e"
  shows "d = e"
proof -
  have y: "year d = year e"
    using year_contains_unique [OF day_in_year [OF assms(1)]] day_in_year [OF assms(2)] assms(3) by simp
  have "month d = month e"
  proof (rule ccontr)
    assume "month d \<noteq> month e"
    then consider "month d < month e" | "month e < month d" by linarith
    then show False
      by cases (use assms y before_month_grows [of "month d" "month e" "year e"]
          before_month_grows [of "month e" "month d" "year e"]
          in \<open>auto simp: real_date_def day_number_def\<close>)
  qed
  with y assms show ?thesis by (simp add: day_number_def)
qed

lemma date_of_day_number: "real_date d \<Longrightarrow> date_of (day_number d) = d"
  using day_number_inject date_of_real by blast

text \<open>\<open>addDays\<close>, \<open>daysInMonth\<close> and \<open>isoWeekday\<close>. 1 January 1970 was a Thursday.\<close>

definition add_days :: "date \<Rightarrow> int \<Rightarrow> date" where
  "add_days d k = date_of (day_number (d\<lparr>day := day d + k\<rparr>))"

definition days_in_month :: "int \<Rightarrow> nat \<Rightarrow> int" where
  "days_in_month y m =
     day (date_of (day_number \<lparr>year = (if m = 12 then y + 1 else y), month = (if m = 12 then 1 else Suc m), day = 0\<rparr>))"

definition iso_weekday :: "date \<Rightarrow> int" where
  "iso_weekday d = (let w = (day_number d + 4) mod 7 in if w = 0 then 7 else w)"

lemma day_number_shift: "day_number (d\<lparr>day := day d + k\<rparr>) = day_number d + k"
  by (simp add: day_number_def)

lemma add_days_number [simp]: "day_number (add_days d k) = day_number d + k"
  by (simp add: add_days_def date_of_real day_number_shift)

lemma add_days_real: "real_date (add_days d k)"
  by (simp add: add_days_def date_of_real)

lemma days_in_month_length:
  assumes "1 \<le> m" "m \<le> 12"
  shows "days_in_month y m = length_of_month y m"
proof -
  let ?last = "\<lparr>year = y, month = m, day = length_of_month y m\<rparr>"
  have "real_date ?last" using assms month_length_bounds(1) [OF assms, of y] by (simp add: real_date_def)
  moreover have "day_number \<lparr>year = (if m = 12 then y + 1 else y), month = (if m = 12 then 1 else Suc m), day = 0\<rparr>
      = day_number ?last"
    using assms before_month_Suc [of m y] after_december [of y] jan1_step [of y] by (simp add: day_number_def)
  ultimately show ?thesis
    unfolding days_in_month_def using date_of_day_number by (metis date.select_convs(3))
qed

text \<open>adding days and reading the date back are exact: every real date is the date of its day
  number, every day number is that of a real date, and adding \<open>j\<close> and then \<open>k\<close> days is adding \<open>j + k\<close>.\<close>

theorem calendar_roundtrip:
  "real_date (date_of n) \<and> day_number (date_of n) = n
    \<and> (real_date d \<longrightarrow> date_of (day_number d) = d)
    \<and> add_days (add_days d j) k = add_days d (j + k)"
proof -
  have "add_days (add_days d j) k = date_of (day_number (add_days d j) + k)"
    by (simp only: add_days_def [of "add_days d j"] day_number_shift)
  then show ?thesis
    using date_of_real date_of_day_number by (simp add: add_days_def day_number_shift add.assoc)
qed

end
