(* ===== verification/Recurrence.thy ===== *)
theory Recurrence
  imports Calendar
begin

text \<open>
  When a scheduled announcement fires next (\<open>notifications/recurrence.ts\<close>). Instants are milliseconds
  since 1970; a time zone is a function from instants to the wall clock shown there, in the same unit,
  which the platform's time zone database supplies. The search walks at most 400 local days from the
  later of the given instant and the start of the schedule.

  Shown: what the search returns lies strictly after the given instant and the start of the schedule,
  not after its end, and shows the time asked for on a wall clock of the zone, on a day the schedule
  is due; no earlier instant does; and a valid schedule that is not exhausted always has one within
  the 400 days. What the schedule promises is stated of the zone's wall clock alone, without the
  computation of \<open>zoned_wall_time\<close>.
\<close>

datatype (plugins only: code) frequency =
    ONCE | DAILY | WEEKLY | MONTHLY

record recurrence_spec =
  rc_frequency :: frequency
  rc_send_at :: string
  rc_timezone :: string
  rc_weekdays :: "int list option"
  rc_day_of_month :: "int option"
  rc_starts_on :: "int option"
  rc_ends_on :: "int option"
  rc_max :: "int option"
  rc_count :: "int option"

definition max_search_days :: nat where
  "max_search_days = 400"

section \<open>Validation\<close>

text \<open>The pattern \<open>HH:MM\<close> of a 24-hour clock.\<close>

fun is_hhmm :: "string \<Rightarrow> bool" where
  "is_hhmm [a, b, c, d, e] \<longleftrightarrow>
     is_digit a \<and> is_digit b \<and> c = CHR '':'' \<and> is_digit d \<and> is_digit e
     \<and> (digit_val a \<le> 1 \<or> digit_val a = 2 \<and> digit_val b \<le> 3) \<and> digit_val d \<le> 5"
| "is_hhmm _ \<longleftrightarrow> False"

definition recurrence_problems :: "(string \<Rightarrow> bool) \<Rightarrow> recurrence_spec \<Rightarrow> (string \<times> string list) list" where
  "recurrence_problems known spec =
     (if is_hhmm (rc_send_at spec) then [] else [(''sendAtLocal'', [''Must be HH:MM in 24-hour form''])])
   @ (if known (rc_timezone spec) then [] else [(''timezone'', [''Unknown timezone''])])
   @ (if rc_frequency spec = WEEKLY
      then (let days = case rc_weekdays spec of None \<Rightarrow> [] | Some ds \<Rightarrow> ds
            in if days = [] then [(''weekdays'', [''A weekly schedule needs at least one weekday.''])]
               else if list_ex (\<lambda>d. d < 1 \<or> 7 < d) days
               then [(''weekdays'', [''ISO weekdays only: 1 = Monday, 7 = Sunday.''])] else [])
      else [])
   @ (if rc_frequency spec = MONTHLY
      then (case rc_day_of_month spec of
              None \<Rightarrow> [(''dayOfMonth'', [''A monthly schedule needs a day of month between 1 and 31.''])]
            | Some d \<Rightarrow> if d < 1 \<or> 31 < d
                then [(''dayOfMonth'', [''A monthly schedule needs a day of month between 1 and 31.''])] else [])
      else [])
   @ (case (rc_starts_on spec, rc_ends_on spec) of
        (Some a, Some b) \<Rightarrow> if b \<le> a then [(''endsOn'', [''Must be after startsOn.''])] else []
      | _ \<Rightarrow> [])
   @ (case rc_max spec of
        Some n \<Rightarrow> if n < 1 then [(''maxOccurrences'', [''Must be at least 1, or omitted for unlimited.''])] else []
      | None \<Rightarrow> [])"

definition assert_valid_recurrence :: "(string \<Rightarrow> bool) \<Rightarrow> recurrence_spec \<Rightarrow> exn + unit" where
  "assert_valid_recurrence known spec =
     (let problems = recurrence_problems known spec
      in require (problems = []) (validation problems))"

section \<open>Wall clocks\<close>

type_synonym zone = "int \<Rightarrow> int"

abbreviation day_length :: int where
  "day_length \<equiv> 86400000"

text \<open>\<open>localPartsOf\<close>: the calendar date an instant falls on in the zone.\<close>

definition local_date :: "zone \<Rightarrow> int \<Rightarrow> date" where
  "local_date zone instant = date_of (zone instant div day_length)"

text \<open>\<open>offsetMs\<close>.\<close>

definition zone_offset :: "zone \<Rightarrow> int \<Rightarrow> int" where
  "zone_offset zone instant = zone instant - instant"

definition naive_instant :: "date \<Rightarrow> int \<Rightarrow> int \<Rightarrow> int" where
  "naive_instant d hour minute = ((day_number d * 24 + hour) * 60 + minute) * 60000"

definition zoned_wall_time :: "zone \<Rightarrow> date \<Rightarrow> int \<Rightarrow> int \<Rightarrow> int" where
  "zoned_wall_time zone d hour minute =
     (let naive = naive_instant d hour minute;
          guess = naive - zone_offset zone naive
      in naive - zone_offset zone guess)"

section \<open>The search\<close>

definition matches_pattern :: "recurrence_spec \<Rightarrow> date \<Rightarrow> bool" where
  "matches_pattern spec d =
     (case rc_frequency spec of
        ONCE \<Rightarrow> True
      | DAILY \<Rightarrow> True
      | WEEKLY \<Rightarrow> iso_weekday d \<in> set (case rc_weekdays spec of None \<Rightarrow> [] | Some ds \<Rightarrow> ds)
      | MONTHLY \<Rightarrow> day d = min (case rc_day_of_month spec of None \<Rightarrow> 1 | Some k \<Rightarrow> k) (days_in_month (year d) (month d)))"

definition effective_day :: "recurrence_spec \<Rightarrow> date \<Rightarrow> int" where
  "effective_day spec d =
     (if rc_frequency spec \<noteq> MONTHLY then day d
      else min (case rc_day_of_month spec of None \<Rightarrow> 1 | Some k \<Rightarrow> k) (days_in_month (year d) (month d)))"

definition send_hour :: "recurrence_spec \<Rightarrow> int" where
  "send_hour spec = int (number_of_digits (take 2 (rc_send_at spec)))"

definition send_minute :: "recurrence_spec \<Rightarrow> int" where
  "send_minute spec = int (number_of_digits (drop 3 (rc_send_at spec)))"

definition occurrence_on :: "recurrence_spec \<Rightarrow> zone \<Rightarrow> date \<Rightarrow> int" where
  "occurrence_on spec zone d =
     zoned_wall_time zone (d\<lparr>day := effective_day spec d\<rparr>) (send_hour spec) (send_minute spec)"

text \<open>The loop over the days: the remaining days are its fuel, and it stops at the first instant
  after the floor.\<close>

fun search_days :: "nat \<Rightarrow> recurrence_spec \<Rightarrow> zone \<Rightarrow> int \<Rightarrow> date \<Rightarrow> int option" where
  "search_days 0 spec zone since cursor = None"
| "search_days (Suc n) spec zone since cursor =
     (if matches_pattern spec cursor \<and> since < occurrence_on spec zone cursor
      then (case rc_ends_on spec of
              Some e \<Rightarrow> if e < occurrence_on spec zone cursor then None else Some (occurrence_on spec zone cursor)
            | None \<Rightarrow> Some (occurrence_on spec zone cursor))
      else search_days n spec zone since (add_days cursor 1))"

definition search_floor :: "recurrence_spec \<Rightarrow> int \<Rightarrow> int" where
  "search_floor spec after = (case rc_starts_on spec of Some a \<Rightarrow> if after < a then a else after | None \<Rightarrow> after)"

definition exhausted :: "recurrence_spec \<Rightarrow> bool" where
  "exhausted spec \<longleftrightarrow>
     (let count = case rc_count spec of None \<Rightarrow> 0 | Some n \<Rightarrow> n
      in (case rc_max spec of Some n \<Rightarrow> n \<le> count | None \<Rightarrow> False)
         \<or> rc_frequency spec = ONCE \<and> 0 < count)"

definition next_occurrence :: "(string \<Rightarrow> bool) \<Rightarrow> (string \<Rightarrow> zone) \<Rightarrow> recurrence_spec \<Rightarrow> int \<Rightarrow> exn + int option" where
  "next_occurrence known zones spec after =
     bind_r (assert_valid_recurrence known spec) (\<lambda>_.
       if exhausted spec then Inr None
       else (let zone = zones (rc_timezone spec); since = search_floor spec after
             in Inr (search_days max_search_days spec zone since (local_date zone since))))"

section \<open>What the search finds\<close>

text \<open>A side condition of the theorems: the offset of the zone from UTC stays within fourteen hours, and no
  two of its offsets are ever more than three hours apart. It holds for \<open>Africa/Cairo\<close>, the platform's
  default, and for most zones, but not for every zone of the database: one that crossed the date line,
  such as \<open>Pacific/Apia\<close>, is not steady.\<close>

definition steady_zone :: "zone \<Rightarrow> bool" where
  "steady_zone zone \<longleftrightarrow> (\<forall>i. \<bar>zone_offset zone i\<bar> \<le> 14 * 3600000)
     \<and> (\<forall>i j. zone_offset zone i - zone_offset zone j \<le> 3 * 3600000)"

lemma zoned_wall_time_near:
  "zoned_wall_time zone d h m = naive_instant d h m
     - zone_offset zone (naive_instant d h m - zone_offset zone (naive_instant d h m))"
  by (simp add: zoned_wall_time_def Let_def)

lemma effective_day_matches: "matches_pattern spec d \<Longrightarrow> d\<lparr>day := effective_day spec d\<rparr> = d"
  by (cases "rc_frequency spec") (simp_all add: matches_pattern_def effective_day_def)

lemma naive_instant_days: "naive_instant d h m = day_number d * day_length + (h * 60 + m) * 60000"
  by (simp add: naive_instant_def algebra_simps)

lemma occurrence_on_day:
  "matches_pattern spec d \<Longrightarrow> occurrence_on spec zone d = zoned_wall_time zone d (send_hour spec) (send_minute spec)"
  by (simp add: occurrence_on_def effective_day_matches)

lemma occurrences_in_order:
  assumes "steady_zone zone" "matches_pattern spec d" "matches_pattern spec e" "day_number d < day_number e"
  shows "occurrence_on spec zone d < occurrence_on spec zone e"
proof -
  have "day_number d * day_length + day_length \<le> day_number e * day_length" using assms(4) by simp
  then show ?thesis
    using assms(1) unfolding steady_zone_def
    by (simp add: occurrence_on_day assms(2,3) zoned_wall_time_near naive_instant_days) (smt (verit))
qed

lemma add_day: "add_days (date_of n) 1 = date_of (n + 1)"
  by (simp add: add_days_def day_number_shift date_of_real)

lemma search_days_Some:
  assumes "search_days n spec zone since (date_of first) = Some t"
  shows "\<exists>k. first \<le> k \<and> k < first + int n \<and> matches_pattern spec (date_of k) \<and> t = occurrence_on spec zone (date_of k)
    \<and> since < t \<and> (\<forall>e. rc_ends_on spec = Some e \<longrightarrow> t \<le> e)
    \<and> (\<forall>j. first \<le> j \<longrightarrow> j < k \<longrightarrow> matches_pattern spec (date_of j) \<longrightarrow> occurrence_on spec zone (date_of j) \<le> since)"
  using assms
proof (induction n arbitrary: first)
  case (Suc n)
  show ?case
  proof (cases "matches_pattern spec (date_of first) \<and> since < occurrence_on spec zone (date_of first)")
    case True
    with Suc.prems show ?thesis
      by (intro exI [of _ first]) (auto split: option.splits if_splits)
  next
    case False
    with Suc.prems have "search_days n spec zone since (date_of (first + 1)) = Some t" by (auto simp: add_day)
    from Suc.IH [OF this] obtain k where k: "first + 1 \<le> k" "k < first + 1 + int n" "matches_pattern spec (date_of k)"
      "t = occurrence_on spec zone (date_of k)" "since < t" "\<forall>e. rc_ends_on spec = Some e \<longrightarrow> t \<le> e"
      "\<forall>j. first + 1 \<le> j \<longrightarrow> j < k \<longrightarrow> matches_pattern spec (date_of j) \<longrightarrow> occurrence_on spec zone (date_of j) \<le> since"
      by blast
    have "\<forall>j. first \<le> j \<longrightarrow> j < k \<longrightarrow> matches_pattern spec (date_of j) \<longrightarrow> occurrence_on spec zone (date_of j) \<le> since"
      using k(7) False by (metis linorder_not_le order_le_less zless_imp_add1_zle)
    with k show ?thesis by (intro exI [of _ k]) auto
  qed
qed simp

lemma search_days_finds:
  assumes "first \<le> k" "k < first + int n" "matches_pattern spec (date_of k)" "since < occurrence_on spec zone (date_of k)"
    and "rc_ends_on spec = None"
  shows "\<exists>t. search_days n spec zone since (date_of first) = Some t"
  using assms
proof (induction n arbitrary: first)
  case (Suc n)
  then show ?case by (cases "k = first") (auto simp: add_day)
qed simp

lemma occurrence_after_floor:
  assumes "steady_zone zone" "matches_pattern spec (date_of k)" "zone since div day_length + 2 \<le> k"
  shows "since < occurrence_on spec zone (date_of k)"
proof -
  have "zone since < (zone since div day_length + 1) * day_length"
    by (metis add.commute distrib_right mult_1 div_mult_mod_eq pos_mod_bound zero_less_numeral add_less_cancel_left)
  moreover have "(zone since div day_length + 2) * day_length \<le> k * day_length" using assms(3) by simp
  moreover have "0 \<le> send_hour spec" "0 \<le> send_minute spec" by (simp_all add: send_hour_def send_minute_def)
  ultimately show ?thesis
    using assms(1) unfolding steady_zone_def zone_offset_def
    by (simp add: occurrence_on_day assms(2) zoned_wall_time_near naive_instant_days date_of_real zone_offset_def
        distrib_right) (smt (verit))
qed

text \<open>Every valid pattern matches a day within any 64 days.\<close>

lemma weekly_match:
  assumes "1 \<le> w" "w \<le> 7"
  shows "\<exists>k. first \<le> k \<and> k < first + 7 \<and> iso_weekday (date_of k) = w"
proof (intro exI conjI)
  let ?k = "first + (w - 4 - first) mod 7"
  show "first \<le> ?k" "?k < first + 7" by simp_all
  have "(?k + 4) mod 7 = ((w - 4 - first) mod 7 + (first + 4)) mod 7" by (simp add: ac_simps)
  also have "\<dots> = (w - 4 - first + (first + 4)) mod 7" by (rule mod_add_left_eq)
  finally have "(?k + 4) mod 7 = w mod 7" by simp
  moreover have "w mod 7 = (if w = 7 then 0 else w)" using assms by (auto simp: mod_pos_pos_trivial)
  ultimately show "iso_weekday (date_of ?k) = w" using assms by (auto simp: iso_weekday_def Let_def date_of_real)
qed

lemma monthly_match:
  assumes "1 \<le> w"
  shows "\<exists>k. first \<le> k \<and> k < first + 62 \<and> day (date_of k) = min w (days_in_month (year (date_of k)) (month (date_of k)))"
proof -
  let ?d = "date_of first"
  let ?y = "if month ?d = 12 then year ?d + 1 else year ?d"
  let ?m = "if month ?d = 12 then 1 else Suc (month ?d)"
  let ?w = "min w (length_of_month ?y ?m)"
  let ?e = "\<lparr>year = ?y, month = ?m, day = ?w\<rparr>"
  have d: "real_date ?d" "day_number ?d = first" using date_of_real by blast+
  then have m: "1 \<le> month ?d" "month ?d \<le> 12" by (auto simp: real_date_def)
  have len: "28 \<le> length_of_month ?y ?m" "length_of_month ?y ?m \<le> 31"
    using month_length_bounds [of ?m ?y] m by auto
  have e: "real_date ?e" using assms len m by (auto simp: real_date_def)
  have "jan1 ?y + before_month ?y ?m = jan1 (year ?d) + before_month (year ?d) (month ?d) + length_of_month (year ?d) (month ?d)"
    using m before_month_Suc [of "month ?d" "year ?d"] after_december [of "year ?d"] jan1_step [of "year ?d"] by auto
  then have "day_number ?e = first - day ?d + length_of_month (year ?d) (month ?d) + ?w"
    using d(2) by (simp add: day_number_def)
  moreover have "1 \<le> day ?d" "day ?d \<le> length_of_month (year ?d) (month ?d)" "length_of_month (year ?d) (month ?d) \<le> 31"
    using d(1) month_length_bounds(2) [OF m, of "year ?d"] by (auto simp: real_date_def)
  ultimately have "first \<le> day_number ?e" "day_number ?e < first + 62" using assms len by (auto simp: min_def)
  moreover have "date_of (day_number ?e) = ?e" by (rule date_of_day_number [OF e])
  moreover have "days_in_month ?y ?m = length_of_month ?y ?m" by (rule days_in_month_length) (use m in auto)
  ultimately show ?thesis by (intro exI [of _ "day_number ?e"]) simp
qed

lemma valid_pattern_matches:
  assumes "assert_valid_recurrence known spec = Inr ()"
  shows "\<exists>k. first \<le> k \<and> k < first + 62 \<and> matches_pattern spec (date_of k)"
proof (cases "rc_frequency spec")
  case WEEKLY
  with assms obtain ds where ds: "rc_weekdays spec = Some ds" "ds \<noteq> []" "\<forall>w \<in> set ds. 1 \<le> w \<and> w \<le> 7"
    by (auto simp: assert_valid_recurrence_def recurrence_problems_def Let_def list_ex_iff not_less split: if_splits option.splits)
  then obtain w where "w \<in> set ds" "1 \<le> w" "w \<le> 7" by (cases ds) auto
  with weekly_match [of w first] ds WEEKLY show ?thesis by (fastforce simp: matches_pattern_def)
next
  case MONTHLY
  with assms obtain w where "rc_day_of_month spec = Some w" "1 \<le> w"
    by (auto simp: assert_valid_recurrence_def recurrence_problems_def Let_def split: if_splits option.splits)
  with monthly_match [of w first] MONTHLY show ?thesis by (fastforce simp: matches_pattern_def)
qed (auto simp: matches_pattern_def intro: exI [of _ first])

lemma next_occurrence_search:
  "next_occurrence known zones spec after = Inr (Some t) \<longleftrightarrow>
     assert_valid_recurrence known spec = Inr () \<and> \<not> exhausted spec
     \<and> search_days max_search_days spec (zones (rc_timezone spec)) (search_floor spec after)
         (date_of (zones (rc_timezone spec) (search_floor spec after) div day_length)) = Some t"
  by (auto simp: next_occurrence_def local_date_def Let_def bind_r_Inr_iff)

lemma search_days_least:
  assumes "search_days n spec zone since (date_of first) = Some t" "steady_zone zone"
    and "first \<le> k" "matches_pattern spec (date_of k)" "since < occurrence_on spec zone (date_of k)"
  shows "t \<le> occurrence_on spec zone (date_of k)"
proof -
  obtain j where j: "matches_pattern spec (date_of j)" "t = occurrence_on spec zone (date_of j)"
    "\<forall>i. first \<le> i \<longrightarrow> i < j \<longrightarrow> matches_pattern spec (date_of i) \<longrightarrow> occurrence_on spec zone (date_of i) \<le> since"
    using search_days_Some [OF assms(1)] by blast
  have "j \<le> k" using j(3) assms(3-5) by (metis linorder_not_le)
  then show ?thesis
    using occurrences_in_order [OF assms(2) j(1) assms(4)] j(2) by (cases "j = k") (auto simp: date_of_real)
qed

lemma hhmm_bounds:
  assumes "is_hhmm s"
  shows "number_of_digits (take 2 s) \<le> 23" "number_of_digits (drop 3 s) \<le> 59"
proof -
  obtain a b c d e where s: "s = [a, b, c, d, e]" using assms by (cases s rule: is_hhmm.cases) auto
  have digit: "x \<le> 9" if "is_digit c" "x = digit_val c" for c x using that by (auto simp: is_digit_def digit_val_def)
  show "number_of_digits (take 2 s) \<le> 23" "number_of_digits (drop 3 s) \<le> 59"
    using assms digit [of b] digit [of e] unfolding s by (auto simp: number_of_digits_def)
qed

lemma occurrence_before:
  assumes "steady_zone zone" "is_hhmm (rc_send_at spec)" "matches_pattern spec (date_of k)" "k \<le> zone since div day_length + 63"
  shows "occurrence_on spec zone (date_of k) \<le> since + 66 * day_length"
proof -
  have "zone since div day_length * day_length \<le> zone since"
    by (metis add.commute div_mult_mod_eq le_add_same_cancel1 pos_mod_sign zero_less_numeral add_le_cancel_left
        add.right_neutral)
  moreover have "k * day_length \<le> (zone since div day_length + 63) * day_length" using assms(4) by simp
  moreover have "send_hour spec \<le> 23" "send_minute spec \<le> 59"
    using hhmm_bounds [OF assms(2)] by (simp_all add: send_hour_def send_minute_def)
  ultimately show ?thesis
    using assms(1) unfolding steady_zone_def
    by (simp add: occurrence_on_day assms(3) zoned_wall_time_near naive_instant_days date_of_real zone_offset_def
        distrib_right) (smt (verit))
qed

section \<open>What a schedule promises\<close>

text \<open>The send time in milliseconds after midnight, and the days a schedule is due on: the first of
  January 1970 was a Thursday, and a month too short for its day is due on its last.\<close>

fun time_of_day :: "string \<Rightarrow> int" where
  "time_of_day [a, b, c, d, e] =
     int ((10 * digit_val a + digit_val b) * 60 + (10 * digit_val d + digit_val e)) * 60000"
| "time_of_day _ = 0"

definition due_day :: "recurrence_spec \<Rightarrow> date \<Rightarrow> bool" where
  "due_day spec d \<longleftrightarrow> real_date d \<and>
     (rc_frequency spec = WEEKLY \<longrightarrow> (\<exists>ws. rc_weekdays spec = Some ws \<and> (day_number d + 3) mod 7 + 1 \<in> set ws))
     \<and> (rc_frequency spec = MONTHLY \<longrightarrow> (\<exists>k. rc_day_of_month spec = Some k
          \<and> (day d = k \<or> day d < k \<and> day d = length_of_month (year d) (month d))))"

definition wall_clock :: "recurrence_spec \<Rightarrow> date \<Rightarrow> int" where
  "wall_clock spec d = day_number d * day_length + time_of_day (rc_send_at spec)"

text \<open>Within a day of the instant the clocks of the zone are changed at most once.\<close>

definition one_switch :: "zone \<Rightarrow> int \<Rightarrow> bool" where
  "one_switch zone i \<longleftrightarrow>
     (\<exists>change before later. \<forall>j. \<bar>j - i\<bar> \<le> day_length \<longrightarrow> zone_offset zone j = (if j < change then before else later))"

lemma send_time:
  assumes "is_hhmm (rc_send_at spec)"
  shows "(send_hour spec * 60 + send_minute spec) * 60000 = time_of_day (rc_send_at spec)"
proof -
  obtain a b c d e where "rc_send_at spec = [a, b, c, d, e]" using assms by (cases "rc_send_at spec" rule: is_hhmm.cases) auto
  then show ?thesis by (simp add: send_hour_def send_minute_def number_of_digits_def)
qed

lemma matches_due:
  assumes "assert_valid_recurrence known spec = Inr ()" "real_date d"
  shows "matches_pattern spec d \<longleftrightarrow> due_day spec d"
proof -
  have week: "iso_weekday d = (day_number d + 3) mod 7 + 1"
  proof -
    have "(day_number d + 4) mod 7 = ((day_number d + 3) mod 7 + 1) mod 7" by (simp add: mod_add_left_eq add.assoc)
    moreover have "0 \<le> (day_number d + 3) mod 7" "(day_number d + 3) mod 7 < 7" by simp_all
    ultimately show ?thesis
      by (cases "(day_number d + 3) mod 7 = 6") (simp_all add: iso_weekday_def Let_def mod_pos_pos_trivial)
  qed
  have month: "days_in_month (year d) (month d) = length_of_month (year d) (month d)" "day d \<le> length_of_month (year d) (month d)"
    using assms(2) by (auto simp: real_date_def days_in_month_length)
  show ?thesis
  proof (cases "rc_frequency spec")
    case WEEKLY
    with assms(1) obtain ws where "rc_weekdays spec = Some ws"
      by (cases "rc_weekdays spec") (simp_all add: assert_valid_recurrence_def recurrence_problems_def Let_def require_def)
    with WEEKLY assms(2) week show ?thesis by (simp add: matches_pattern_def due_day_def)
  next
    case MONTHLY
    with assms(1) obtain k where "rc_day_of_month spec = Some k"
      by (cases "rc_day_of_month spec") (simp_all add: assert_valid_recurrence_def recurrence_problems_def Let_def require_def)
    with MONTHLY assms(2) month show ?thesis unfolding matches_pattern_def due_day_def by (simp add: min_def) linarith
  qed (simp_all add: matches_pattern_def due_day_def assms(2))
qed

lemma occurrence_wall:
  assumes "is_hhmm (rc_send_at spec)" "matches_pattern spec d"
  shows "occurrence_on spec zone d = wall_clock spec d - zone_offset zone (wall_clock spec d - zone_offset zone (wall_clock spec d))"
  using send_time [OF assms(1)]
  by (simp add: occurrence_on_day [OF assms(2)] zoned_wall_time_near naive_instant_days wall_clock_def)

text \<open>The two passes find the instant that shows the wall-clock time, when there is one.\<close>

lemma two_passes_hit:
  fixes wall :: int
  assumes "steady_zone zone" "one_switch zone wall" "zone u = wall"
  shows "zone (wall - zone_offset zone (wall - zone_offset zone wall)) = wall"
proof -
  from assms(2) obtain c a b where o: "\<bar>j - wall\<bar> \<le> day_length \<Longrightarrow> zone_offset zone j = (if j < c then a else b)" for j
    unfolding one_switch_def by blast
  have small: "\<bar>zone_offset zone j\<bar> \<le> 14 * 3600000" for j using assms(1) by (simp add: steady_zone_def)
  have near: "\<bar>wall - zone_offset zone j - wall\<bar> \<le> day_length" for j using small [of j] by simp
  have wall: "zone_offset zone wall = (if wall < c then a else b)" by (rule o) simp
  have guess: "zone_offset zone (wall - zone_offset zone wall) = (if wall - zone_offset zone wall < c then a else b)"
    by (rule o [OF near])
  have hit: "zone_offset zone (wall - zone_offset zone (wall - zone_offset zone wall))
      = (if wall - zone_offset zone (wall - zone_offset zone wall) < c then a else b)"
    by (rule o [OF near])
  have u: "u = wall - zone_offset zone u" using assms(3) by (simp add: zone_offset_def)
  have "\<bar>u - wall\<bar> \<le> day_length" using u small [of u] by simp
  then have "zone_offset zone u = (if u < c then a else b)" by (rule o)
  with u have "u = wall - (if u < c then a else b)" by simp
  moreover have "zone_offset zone (wall - zone_offset zone (wall - zone_offset zone wall))
      = zone_offset zone (wall - zone_offset zone wall)"
    using hit guess wall calculation by (simp split: if_splits)
  ultimately show ?thesis by (simp add: zone_offset_def)
qed

text \<open>A wall-clock time that is shown once comes after every earlier instant's local midnight.\<close>

lemma later_reading_later_day:
  assumes "steady_zone zone" "one_switch zone (zone u)" "\<And>v. zone v = zone u \<Longrightarrow> v = u" "since < u"
  shows "zone since \<le> zone u"
proof (rule ccontr)
  assume "\<not> zone since \<le> zone u"
  then have less: "zone u < zone since" by simp
  from assms(2) obtain c a b where o: "\<bar>j - zone u\<bar> \<le> day_length \<Longrightarrow> zone_offset zone j = (if j < c then a else b)" for j
    unfolding one_switch_def by blast
  have small: "\<bar>zone_offset zone j\<bar> \<le> 14 * 3600000" for j using assms(1) by (simp add: steady_zone_def)
  have step: "zone_offset zone i - zone_offset zone j \<le> 3 * 3600000" for i j using assms(1) by (simp add: steady_zone_def)
  have near: "\<bar>u - zone u\<bar> \<le> 14 * 3600000" using small [of u] by (simp add: zone_offset_def)
  have "u - since \<le> 3 * 3600000" using step [of since u] less by (simp add: zone_offset_def)
  then have "\<bar>since - zone u\<bar> \<le> day_length" "\<bar>u - zone u\<bar> \<le> day_length" using near assms(4) by simp_all
  then have o1: "zone_offset zone since = (if since < c then a else b)" and o2: "zone_offset zone u = (if u < c then a else b)"
    by (simp_all only: o)
  have c: "since < c" "c \<le> u" and zs: "zone since = since + a" and zu: "zone u = u + b"
    using o1 o2 less assms(4) by (auto simp: zone_offset_def split: if_splits)
  let ?v = "zone u - a"
  have "?v < c" using zs less c by simp
  moreover have "\<bar>?v - zone u\<bar> \<le> day_length" using small [of since] o1 c by simp
  ultimately have "zone ?v = zone u" using o [of ?v] by (simp add: zone_offset_def)
  then have "?v = u" by (rule assms(3))
  with \<open>?v < c\<close> c show False by simp
qed

text \<open>C32: the next occurrence is the earliest instant the schedule allows. In a steady zone (offsets within
  fourteen hours of UTC and three hours of each other) it lies strictly after the given instant and
  after the start of the schedule, and not after its end. Its wall clock shows the send time of a day
  the schedule is due on: exactly, when some instant shows that time and the clocks change at most
  once within a day of it, and never more than three hours off. And no earlier instant after both
  shows the send time of a due day, times the clocks show twice apart.\<close>

theorem next_occurrence_is_earliest:
  assumes "next_occurrence known zones spec after = Inr (Some t)" "steady_zone (zones (rc_timezone spec))"
  defines "zone \<equiv> zones (rc_timezone spec)"
  shows "after < t \<and> (\<forall>a. rc_starts_on spec = Some a \<longrightarrow> a < t) \<and> (\<forall>e. rc_ends_on spec = Some e \<longrightarrow> t \<le> e)
    \<and> (\<exists>d. due_day spec d \<and> \<bar>zone t - wall_clock spec d\<bar> \<le> 3 * 3600000
        \<and> ((\<exists>u. zone u = wall_clock spec d) \<and> one_switch zone (wall_clock spec d) \<longrightarrow> zone t = wall_clock spec d))
    \<and> (\<forall>u d. due_day spec d \<longrightarrow> zone u = wall_clock spec d \<longrightarrow> after < u \<longrightarrow> (\<forall>a. rc_starts_on spec = Some a \<longrightarrow> a < u)
        \<longrightarrow> one_switch zone (zone u) \<longrightarrow> (\<forall>v. zone v = zone u \<longrightarrow> v = u) \<longrightarrow> t \<le> u)"
proof -
  let ?since = "search_floor spec after"
  have found: "search_days max_search_days spec zone ?since (date_of (zone ?since div day_length)) = Some t"
    and valid: "assert_valid_recurrence known spec = Inr ()"
    using assms(1) by (simp_all add: next_occurrence_search zone_def)
  have steady: "steady_zone zone" using assms(2) by (simp add: zone_def)
  have time: "is_hhmm (rc_send_at spec)"
    using valid by (auto simp: assert_valid_recurrence_def recurrence_problems_def Let_def split: if_splits)
  have floor: "?since < u \<longleftrightarrow> after < u \<and> (\<forall>a. rc_starts_on spec = Some a \<longrightarrow> a < u)" for u
    by (auto simp: search_floor_def split: option.splits)
  obtain k where k: "matches_pattern spec (date_of k)" "t = occurrence_on spec zone (date_of k)"
    "?since < t" "\<forall>e. rc_ends_on spec = Some e \<longrightarrow> t \<le> e"
    using search_days_Some [OF found] by blast
  have due: "due_day spec (date_of k)" using k(1) matches_due [OF valid] date_of_real by blast
  let ?wall = "wall_clock spec (date_of k)"
  have t: "t = ?wall - zone_offset zone (?wall - zone_offset zone ?wall)" using k(2) occurrence_wall [OF time k(1)] by simp
  then have "zone t - ?wall = zone_offset zone t - zone_offset zone (?wall - zone_offset zone ?wall)" by (simp add: zone_offset_def)
  then have off: "\<bar>zone t - ?wall\<bar> \<le> 3 * 3600000" using steady unfolding steady_zone_def by (smt (verit))
  have hit: "zone t = ?wall" if "zone u = ?wall" "one_switch zone ?wall" for u
    using two_passes_hit [OF steady that(2,1)] t by simp
  have least: "t \<le> u" if d: "due_day spec d" "zone u = wall_clock spec d" and u: "?since < u" "one_switch zone (zone u)"
      "\<And>v. zone v = zone u \<Longrightarrow> v = u" for u d
  proof -
    have d': "real_date d" "matches_pattern spec d" using d(1) matches_due [OF valid] by (auto simp: due_day_def)
    have "zone (occurrence_on spec zone d) = zone u"
      using two_passes_hit [OF steady u(2) refl] occurrence_wall [OF time d'(2)] d(2) by simp
    then have o: "occurrence_on spec zone d = u" by (rule u(3))
    have "send_hour spec \<le> 23" "send_minute spec \<le> 59" "0 \<le> send_hour spec" "0 \<le> send_minute spec"
      using hhmm_bounds [OF time] by (simp_all add: send_hour_def send_minute_def)
    then have "0 \<le> time_of_day (rc_send_at spec)" "time_of_day (rc_send_at spec) < day_length"
      using send_time [OF time] by simp_all
    then have "zone u div day_length = day_number d" unfolding d(2) wall_clock_def by simp
    moreover have "zone ?since div day_length \<le> zone u div day_length"
      by (rule zdiv_mono1) (use later_reading_later_day [OF steady u(2) _ u(1)] u(3) in auto)
    ultimately show ?thesis
      using search_days_least [OF found steady, of "day_number d"] d' o u(1) by (simp add: date_of_day_number)
  qed
  show ?thesis
    using k(3,4) due off hit least unfolding floor by blast
qed

text \<open>C33: a valid schedule always fires. When its occurrences are not used up and it has no end, the
  search of 400 days always finds the next one, and never further than 66 days ahead.\<close>

theorem valid_schedule_fires:
  assumes "assert_valid_recurrence known spec = Inr ()" "\<not> exhausted spec" "rc_ends_on spec = None"
    and "steady_zone (zones (rc_timezone spec))"
  shows "\<exists>t. next_occurrence known zones spec after = Inr (Some t) \<and> t \<le> search_floor spec after + 66 * day_length"
proof -
  let ?zone = "zones (rc_timezone spec)" and ?since = "search_floor spec after"
  let ?first = "?zone ?since div day_length"
  obtain k where k: "?first + 2 \<le> k" "k < ?first + 64" "matches_pattern spec (date_of k)"
    using valid_pattern_matches [OF assms(1), of "?first + 2"] by auto
  have after: "?since < occurrence_on spec ?zone (date_of k)" by (rule occurrence_after_floor [OF assms(4) k(3,1)])
  obtain t where t: "search_days max_search_days spec ?zone ?since (date_of ?first) = Some t"
    using search_days_finds [OF _ _ k(3) after assms(3), of ?first max_search_days] k by (auto simp: max_search_days_def)
  then have "next_occurrence known zones spec after = Inr (Some t)"
    using assms(1,2) by (simp add: next_occurrence_search)
  moreover have "t \<le> occurrence_on spec ?zone (date_of k)"
    by (rule search_days_least [OF t assms(4) _ k(3) after]) (use k(1) in simp)
  moreover have "is_hhmm (rc_send_at spec)"
    using assms(1) by (auto simp: assert_valid_recurrence_def recurrence_problems_def Let_def split: if_splits)
  then have "occurrence_on spec ?zone (date_of k) \<le> ?since + 66 * day_length"
    by (rule occurrence_before [OF assms(4) _ k(3)]) (use k(2) in simp)
  ultimately show ?thesis by (intro exI [of _ t]) linarith
qed

section \<open>Schedules in Cairo\<close>

text \<open>Cairo in the autumn of 2024: three hours ahead until 21:00 UTC on 31 October, two afterwards.\<close>

definition cairo :: zone where
  "cairo i = i + (if i < 1730408400000 then 10800000 else 7200000)"

definition lesson_reminder :: recurrence_spec where
  "lesson_reminder = \<lparr>rc_frequency = WEEKLY, rc_send_at = ''19:00'', rc_timezone = ''Africa/Cairo'',
     rc_weekdays = Some [1, 4], rc_day_of_month = None, rc_starts_on = None, rc_ends_on = None,
     rc_max = None, rc_count = None\<rparr>"

lemma cairo_steady: "steady_zone cairo"
  by (auto simp: steady_zone_def zone_offset_def cairo_def)

text \<open>From Wednesday, 30 October 2024, noon UTC, the reminder for Mondays and Thursdays fires on Thursday
  at 16:00 UTC; from there on Monday, one hour of UTC later.\<close>

lemma reminder_fires:
  "next_occurrence (\<lambda>_. True) (\<lambda>_. cairo) lesson_reminder 1730289600000 = Inr (Some 1730390400000)"
  "next_occurrence (\<lambda>_. True) (\<lambda>_. cairo) lesson_reminder 1730390400000 = Inr (Some 1730739600000)"
  by code_simp+

lemma cairo_shows_everything: "\<exists>u. cairo u = w"
proof (cases "w - 10800000 < 1730408400000")
  case True
  then show ?thesis by (intro exI [of _ "w - 10800000"]) (simp add: cairo_def)
next
  case False
  then show ?thesis by (intro exI [of _ "w - 7200000"]) (simp add: cairo_def)
qed

lemma cairo_one_switch: "one_switch cairo i"
  unfolding one_switch_def
  by (rule exI [of _ 1730408400000], rule exI [of _ 10800000], rule exI [of _ 7200000]) (simp add: zone_offset_def cairo_def)

theorem next_occurrence_is_earliest_witness:
  "1730289600000 < (1730390400000 :: int)
    \<and> (\<exists>d. due_day lesson_reminder d \<and> cairo 1730390400000 = wall_clock lesson_reminder d)"
proof -
  note earliest = next_occurrence_is_earliest [OF reminder_fires(1) cairo_steady]
  obtain d where "due_day lesson_reminder d" "cairo 1730390400000 = wall_clock lesson_reminder d"
    using earliest cairo_shows_everything cairo_one_switch by blast
  then show ?thesis by auto
qed

theorem valid_schedule_fires_witness:
  "\<exists>t. next_occurrence (\<lambda>_. True) (\<lambda>_. cairo) lesson_reminder 1730289600000 = Inr (Some t)
    \<and> t \<le> 1730289600000 + 66 * day_length"
proof -
  have "assert_valid_recurrence (\<lambda>_. True) lesson_reminder = Inr ()" "\<not> exhausted lesson_reminder"
    "rc_ends_on lesson_reminder = None" "search_floor lesson_reminder 1730289600000 = 1730289600000"
    by code_simp+
  with valid_schedule_fires [of "\<lambda>_. True" lesson_reminder "\<lambda>_. cairo" 1730289600000] cairo_steady
  show ?thesis by simp
qed

text \<open>The hour the clocks repeat: 23:30 on 31 October is shown at 20:30 and at 21:30 UTC. The file says that
  the first of the two is used; the computation yields the second.\<close>

lemma repeated_time_uses_the_second:
  "let d = \<lparr>year = 2024, month = 10, day = 31\<rparr>; wall = naive_instant d 23 30
   in cairo 1730406600000 = wall \<and> cairo 1730410200000 = wall \<and> zoned_wall_time cairo d 23 30 = 1730410200000"
  by code_simp

text \<open>A schedule that starts exactly at its first send: the search is strict, and a one-off is sent a day late.\<close>

lemma start_instant_is_skipped:
  "occurrence_on (lesson_reminder\<lparr>rc_frequency := ONCE\<rparr>) cairo \<lparr>year = 2024, month = 11, day = 4\<rparr> = 1730739600000"
  "next_occurrence (\<lambda>_. True) (\<lambda>_. cairo)
     (lesson_reminder\<lparr>rc_frequency := ONCE, rc_starts_on := Some 1730739600000\<rparr>) 1730289600000
   = Inr (Some (1730739600000 + day_length))"
  by code_simp+

end
