(* ===== verification/GumletRules.thy ===== *)
theory GumletRules
  imports Schema Money Retry "HOL-Library.Multiset"
begin

text \<open>
  The pure rules around the media provider: what a provider failure means (\<open>videos/gumlet-failure.ts\<close>),
  which of them are worth repeating, the bounded retries of provider and database calls
  (\<open>DrmVerificationService.withRetry\<close>, \<open>database/transient-db-error.ts\<close>), the lifetime of an ingestion
  address (\<open>gumlet-ingest-url-ttl.ts\<close>) and the planning of a migration (\<open>gumlet-migration.plan.ts\<close>).
  The provider's answers and the state of the database connection are arguments. The texts shown to
  administrators are left out, except where a later decision reads them.

  Shown: retries end after the attempts they are given and repeat only failures that may pass; a
  migration plan creates an asset only for a video that has none, and its order and limit never
  drop a cheaper action for a dearer one.
\<close>

section \<open>Texts\<close>

definition lower_char :: "char \<Rightarrow> char" where
  "lower_char c = (if 65 \<le> (of_char c :: nat) \<and> of_char c \<le> (90 :: nat) then char_of (of_char c + 32 :: nat) else c)"

fun text_includes :: "string \<Rightarrow> string \<Rightarrow> bool" where
  "text_includes [] needle \<longleftrightarrow> needle = []"
| "text_includes (c # cs) needle \<longleftrightarrow> take (length needle) (c # cs) = needle \<or> text_includes cs needle"

text \<open>An optional text as a condition: absent and empty are false.\<close>

definition given_text :: "string option \<Rightarrow> bool" where
  "given_text t \<longleftrightarrow> (case t of None \<Rightarrow> False | Some s \<Rightarrow> s \<noteq> [])"

definition or_empty :: "string option \<Rightarrow> string" where
  "or_empty t = (case t of None \<Rightarrow> [] | Some s \<Rightarrow> s)"

section \<open>What a provider failure means\<close>

datatype (plugins only: code) failure_kind =
    QUOTA_EXCEEDED | ACCOUNT_OR_CREDENTIALS | SOURCE_UNREACHABLE | TRANSIENT | UNKNOWN

record gumlet_failure =
  gf_kind :: failure_kind
  gf_retryable :: bool
  gf_operator :: bool
  gf_reingest :: bool

definition terminal_failure_statuses :: "string list" where
  "terminal_failure_statuses = [''errored'', ''failed'', ''deleted'']"

definition is_terminal_failure :: "string option \<Rightarrow> bool" where
  "is_terminal_failure status \<longleftrightarrow> (case status of None \<Rightarrow> False | Some s \<Rightarrow> s \<in> set terminal_failure_statuses)"

definition haystack :: "string option \<Rightarrow> string option \<Rightarrow> string" where
  "haystack code message = map lower_char (or_empty code @ '' '' @ or_empty message)"

definition mentions :: "string \<Rightarrow> string list \<Rightarrow> bool" where
  "mentions hay needles \<longleftrightarrow> list_ex (text_includes hay) needles"

definition transient_failure :: gumlet_failure where
  "transient_failure = \<lparr>gf_kind = TRANSIENT, gf_retryable = True, gf_operator = False, gf_reingest = False\<rparr>"

definition classify_failure :: "string option \<Rightarrow> string option \<Rightarrow> int option \<Rightarrow> gumlet_failure" where
  "classify_failure code message status =
     (let hay = haystack code message in
      if status = Some 429 \<or> mentions hay [''rate limit'', ''too many requests''] then transient_failure
      else if mentions hay [''quota'', ''storage minutes'', ''exceeds the'', ''upgrade your account'',
             ''insufficient funds'', ''payment'', ''unpaid'', ''subscription'']
      then \<lparr>gf_kind = QUOTA_EXCEEDED, gf_retryable = False, gf_operator = True, gf_reingest = False\<rparr>
      else if mentions hay [''unauthorized'', ''forbidden'', ''invalid api key'', ''invalid_api_key'', ''api key'',
             ''credential'', ''permission'', ''workspace'', ''account is'', ''not found on this account'']
      then \<lparr>gf_kind = ACCOUNT_OR_CREDENTIALS, gf_retryable = False, gf_operator = True, gf_reingest = False\<rparr>
      else if mentions hay [''err_asset_not_found'', ''trouble downloading'', ''could not download'',
             ''failed to download'', ''input video'', ''input file'', ''source url'']
      then \<lparr>gf_kind = SOURCE_UNREACHABLE, gf_retryable = False, gf_operator = False, gf_reingest = True\<rparr>
      else if mentions hay [''timeout'', ''timed out'', ''temporarily'', ''econnreset'', ''etimedout'',
             ''socket hang up'', ''network'', ''service unavailable'', ''internal server error'']
      then transient_failure
      else if (case status of None \<Rightarrow> False | Some n \<Rightarrow> 500 \<le> n) then transient_failure
      else \<lparr>gf_kind = UNKNOWN, gf_retryable = False, gf_operator = False, gf_reingest = False\<rparr>)"

text \<open>A failed provider call: classified by the client of the provider, or anything else that was thrown.\<close>

datatype provider_error =
    GumletError bool string
  | OtherError exn string

fun error_text :: "provider_error \<Rightarrow> string" where
  "error_text (GumletError transient m) = m"
| "error_text (OtherError e m) = m"

fun is_transient_provider_error :: "provider_error \<Rightarrow> bool" where
  "is_transient_provider_error (GumletError transient m) = transient"
| "is_transient_provider_error (OtherError e m) = True"

definition is_transient_manifest_status :: "int \<Rightarrow> bool" where
  "is_transient_manifest_status n \<longleftrightarrow> n = 408 \<or> n = 425 \<or> n = 429 \<or> 500 \<le> n"

definition is_transient_http_status :: "int \<Rightarrow> bool" where
  "is_transient_http_status n \<longleftrightarrow> n = 401 \<or> n = 403 \<or> n = 408 \<or> n = 425 \<or> n = 429 \<or> 500 \<le> n"

definition is_retryable_provider_failure :: "provider_error \<Rightarrow> bool" where
  "is_retryable_provider_failure e =
     (let kind = gf_kind (classify_failure None (Some (error_text e)) None)
      in if kind = QUOTA_EXCEEDED \<or> kind = ACCOUNT_OR_CREDENTIALS then False
         else is_transient_provider_error e)"

section \<open>Bounded retries\<close>

text \<open>\<open>withRetry\<close>: the answer of attempt \<open>k\<close> is \<open>op k\<close>; the result carries the number of attempts made.\<close>

function with_retry :: "nat \<Rightarrow> (nat \<Rightarrow> provider_error + 'a) \<Rightarrow> nat \<Rightarrow> (provider_error + 'a) \<times> nat" where
  "with_retry attempts op k =
     (case op k of
        Inr x \<Rightarrow> (Inr x, k)
      | Inl e \<Rightarrow> if attempts \<le> k \<or> \<not> is_transient_provider_error e then (Inl e, k)
                 else with_retry attempts op (Suc k))"
  by pat_completeness auto
termination
  by (relation "measure (\<lambda>(attempts, op, k). attempts - k)") auto

declare with_retry.simps [simp del]

definition transient_db_codes :: "string list" where
  "transient_db_codes = [''P1001'', ''P1002'', ''P1008'', ''P1017'', ''P2024'']"

definition is_transient_database_error :: "exn \<Rightarrow> bool" where
  "is_transient_database_error e =
     (case e of PrismaKnown code _ \<Rightarrow> code \<in> set transient_db_codes | _ \<Rightarrow> False)"

text \<open>
  \<open>withDatabaseRetry\<close>: every attempt runs on the state the earlier ones left (a write may have been
  committed before its acknowledgement was lost). The result carries the waits, each the jitter of
  its attempt rounded to a millisecond.
\<close>

function database_retry_loop ::
  "nat \<Rightarrow> rat \<Rightarrow> rat \<Rightarrow> (nat \<Rightarrow> rat) \<Rightarrow> (nat \<Rightarrow> 's \<Rightarrow> (exn + 'a) \<times> 's) \<Rightarrow> nat \<Rightarrow> 's \<Rightarrow> (exn + 'a) \<times> 's \<times> int list" where
  "database_retry_loop attempts base cap jitter op k s =
     (case op k s of
        (Inr x, t) \<Rightarrow> (Inr x, t, [])
      | (Inl e, t) \<Rightarrow>
          if \<not> is_transient_database_error e \<or> attempts \<le> k then (Inl e, t, [])
          else (let window = min (base * 2 ^ (k - 1)) cap; wait = round (jitter k * window);
                    (r, u, waits) = database_retry_loop attempts base cap jitter op (Suc k) t
                in (r, u, wait # waits)))"
  by pat_completeness auto
termination
  by (relation "measure (\<lambda>(attempts, base, cap, jitter, op, k, s). attempts - k)") auto

declare database_retry_loop.simps [simp del]

definition with_database_retry ::
  "nat \<Rightarrow> rat \<Rightarrow> rat \<Rightarrow> (nat \<Rightarrow> rat) \<Rightarrow> (nat \<Rightarrow> 's \<Rightarrow> (exn + 'a) \<times> 's) \<Rightarrow> 's \<Rightarrow> (exn + 'a) \<times> 's \<times> int list" where
  "with_database_retry attempts base cap jitter op s =
     database_retry_loop (max 1 attempts) base cap jitter op 1 s"

abbreviation default_database_retry :: "(nat \<Rightarrow> rat) \<Rightarrow> (nat \<Rightarrow> 's \<Rightarrow> (exn + 'a) \<times> 's) \<Rightarrow> 's \<Rightarrow> (exn + 'a) \<times> 's \<times> int list" where
  "default_database_retry \<equiv> with_database_retry 5 500 8000"

section \<open>The lifetime of an ingestion address\<close>

definition ingest_ttl_default :: int where "ingest_ttl_default = 6 * 60 * 60"
definition ingest_ttl_min :: int where "ingest_ttl_min = 60 * 60"
definition ingest_ttl_max :: int where "ingest_ttl_max = 24 * 60 * 60"

text \<open>The raw value, read as a number where it is one.\<close>

definition resolve_ingest_ttl :: "rat option \<Rightarrow> int" where
  "resolve_ingest_ttl raw =
     (case raw of
        None \<Rightarrow> ingest_ttl_default
      | Some x \<Rightarrow>
          if x \<le> 0 then ingest_ttl_default
          else (let seconds = \<lfloor>x\<rfloor>
                in if seconds < ingest_ttl_min then ingest_ttl_min
                   else if ingest_ttl_max < seconds then ingest_ttl_max
                   else seconds))"

section \<open>Planning a migration\<close>

datatype (plugins only: code) migration_action =
    ADOPT | VERIFY | REPLACE | SKIP

datatype (plugins only: code) plan_reason =
    ALREADY_MIGRATED_READY | SOFT_DELETED | NO_SOURCE_OBJECT | NO_LEGACY_PLAYBACK | ALREADY_PROCESSING
  | UNKNOWN_PROVIDER | NOT_SAFE_TO_MIGRATE | REPLACE_FAILED_GUMLET_ASSET | REPAIR_FAILED_GUMLET_ASSET
  | CANDIDATE_LEGACY_READY | CANDIDATE_GUMLET_PENDING

record migration_plan =
  mp_video :: id
  mp_action :: migration_action
  mp_reason :: plan_reason
  mp_noop :: bool

record plan_options =
  po_replace :: bool
  po_repair :: bool

fun action_priority :: "migration_action \<Rightarrow> nat" where
  "action_priority VERIFY = 0"
| "action_priority ADOPT = 1"
| "action_priority REPLACE = 2"
| "action_priority SKIP = 3"

definition skip_video :: "video_row \<Rightarrow> plan_reason \<Rightarrow> migration_plan" where
  "skip_video v r = \<lparr>mp_video = vd_id v, mp_action = SKIP, mp_reason = r, mp_noop = True\<rparr>"

definition plan_video :: "plan_options \<Rightarrow> video_row \<Rightarrow> migration_plan" where
  "plan_video opts v =
     (if vd_deleted_at v \<noteq> None then skip_video v SOFT_DELETED
      else if vd_asset v \<noteq> None then
        (let on_gumlet = vd_provider v = Some ''gumlet'';
             ready = on_gumlet \<and> vd_status v = VS_READY;
             terminal = vd_gumlet_status v = Some ''errored'' \<or> vd_gumlet_status v = Some ''failed'';
             sourced = given_text (vd_source v)
         in if po_replace opts \<and> \<not> on_gumlet \<and> vd_status v = VS_READY \<and> sourced \<and> terminal
            then \<lparr>mp_video = vd_id v, mp_action = REPLACE, mp_reason = REPLACE_FAILED_GUMLET_ASSET, mp_noop = False\<rparr>
            else if po_repair opts \<and> on_gumlet \<and> sourced \<and> terminal
            then \<lparr>mp_video = vd_id v, mp_action = REPLACE, mp_reason = REPAIR_FAILED_GUMLET_ASSET, mp_noop = False\<rparr>
            else \<lparr>mp_video = vd_id v, mp_action = VERIFY,
                   mp_reason = (if ready then ALREADY_MIGRATED_READY else CANDIDATE_GUMLET_PENDING), mp_noop = ready\<rparr>)
      else if vd_provider v = Some ''gumlet'' then skip_video v NOT_SAFE_TO_MIGRATE
      else if vd_provider v \<noteq> None then skip_video v UNKNOWN_PROVIDER
      else if \<not> given_text (vd_source v) then skip_video v NO_SOURCE_OBJECT
      else if vd_status v \<in> {VS_PROCESSING, VS_QUEUED, VS_UPLOADING} then skip_video v ALREADY_PROCESSING
      else if \<not> given_text (vd_playlist v) \<and> vd_status v \<noteq> VS_READY then skip_video v NO_LEGACY_PLAYBACK
      else \<lparr>mp_video = vd_id v, mp_action = ADOPT, mp_reason = CANDIDATE_LEGACY_READY, mp_noop = False\<rparr>)"

definition plan_order :: "migration_plan \<Rightarrow> nat \<times> id" where
  "plan_order p = (action_priority (mp_action p), mp_video p)"

definition before_in_plan :: "migration_plan \<Rightarrow> migration_plan \<Rightarrow> bool" where
  "before_in_plan p q \<longleftrightarrow> action_priority (mp_action p) < action_priority (mp_action q)
     \<or> action_priority (mp_action p) = action_priority (mp_action q) \<and> mp_video p \<le> mp_video q"

definition plan_batch :: "plan_options \<Rightarrow> int option \<Rightarrow> video_row list \<Rightarrow> migration_plan list" where
  "plan_batch opts limit rows =
     (let plans = sort_key (\<lambda>p. action_priority (mp_action p)) (sort_key mp_video (map (plan_video opts) rows))
      in case limit of Some n \<Rightarrow> if 0 < n then take (nat n) plans else plans | None \<Rightarrow> plans)"

definition summarize :: "migration_plan list \<Rightarrow> plan_reason \<Rightarrow> nat" where
  "summarize plans r = count_where (\<lambda>p. mp_reason p = r) plans"

section \<open>Retries end\<close>

lemma with_retry_outcome:
  assumes "with_retry attempts op k = (r, n)"
  shows "k \<le> n \<and> n \<le> max k attempts \<and> r = op n
    \<and> (\<forall>j. k \<le> j \<longrightarrow> j < n \<longrightarrow> (\<exists>e. op j = Inl e \<and> is_transient_provider_error e))
    \<and> (n < attempts \<longrightarrow> (\<forall>e. op n = Inl e \<longrightarrow> \<not> is_transient_provider_error e))"
  using assms
proof (induction attempts op k rule: with_retry.induct)
  case (1 attempts op k)
  show ?case
  proof (cases "op k")
    case (Inr x)
    with "1.prems" show ?thesis by (subst (asm) with_retry.simps) auto
  next
    case (Inl e)
    show ?thesis
    proof (cases "attempts \<le> k \<or> \<not> is_transient_provider_error e")
      case True
      with "1.prems" Inl show ?thesis by (subst (asm) with_retry.simps) auto
    next
      case False
      then have "with_retry attempts op (Suc k) = (r, n)"
        using "1.prems" Inl by (subst (asm) with_retry.simps) auto
      from "1.IH" [OF Inl False this] False Inl show ?thesis
        by (auto simp: less_Suc_eq_le le_Suc_eq dest: Suc_le_lessD) (metis le_antisym not_less_eq_eq)+
    qed
  qed
qed

lemma round_share_le:
  assumes "0 \<le> j" "j \<le> (1 :: rat)" "0 \<le> w" "w \<le> of_int b"
  shows "round (j * w) \<le> b"
proof -
  have "j * w \<le> 1 * w" by (rule mult_right_mono) (use assms in auto)
  then have "j * w \<le> of_int b" using assms by simp
  then show ?thesis by (metis round_mono round_of_int)
qed

lemma database_retry_waits:
  assumes "database_retry_loop attempts (of_int b) cap jitter op k s = (r, t, waits)"
    and "1 \<le> k" "k \<le> attempts" "0 \<le> b" "0 \<le> cap" "\<forall>j. 0 \<le> jitter j \<and> jitter j \<le> 1"
  shows "length waits \<le> attempts - k \<and> sum_list waits \<le> b * (2 ^ (attempts - 1) - 2 ^ (k - 1))"
  using assms
proof (induction attempts "of_int b :: rat" cap jitter op k s arbitrary: r t waits rule: database_retry_loop.induct)
  case (1 attempts cap jitter op k s)
  have grow: "(2 :: int) ^ (k - 1) \<le> 2 ^ (attempts - 1)" by (rule power_increasing) (use "1.prems"(3) in auto)
  show ?case
  proof (cases "op k s")
    case (Pair res u)
    show ?thesis
    proof (cases res)
      case (Inr x)
      with "1.prems"(1) Pair grow "1.prems"(4) show ?thesis
        by (subst (asm) database_retry_loop.simps) auto
    next
      case (Inl e)
      show ?thesis
      proof (cases "\<not> is_transient_database_error e \<or> attempts \<le> k")
        case True
        with "1.prems"(1) Pair Inl grow "1.prems"(4) show ?thesis
          by (subst (asm) database_retry_loop.simps) auto
      next
        case False
        let ?wait = "round (jitter k * min (of_int b * 2 ^ (k - 1)) cap)"
        obtain ws where ws: "database_retry_loop attempts (of_int b) cap jitter op (Suc k) u = (r, t, ws)" "waits = ?wait # ws"
          using "1.prems"(1) Pair Inl False
          by (subst (asm) database_retry_loop.simps) (auto simp: Let_def split: prod.splits)
        have rest: "length ws \<le> attempts - Suc k \<and> sum_list ws \<le> b * (2 ^ (attempts - 1) - 2 ^ k)"
          using "1.hyps" [OF Pair [symmetric] Inl False refl refl] ws(1) False "1.prems"(2-6) Pair by (simp add: Inl)
        have "?wait \<le> b * 2 ^ (k - 1)"
          by (rule round_share_le) (use "1.prems"(4-6) in \<open>auto simp: min_def\<close>)
        moreover have "(2 :: int) ^ k = 2 * 2 ^ (k - 1)" using "1.prems"(2) by (cases k) auto
        ultimately show ?thesis using rest ws(2) False by (auto simp: algebra_simps)
      qed
    qed
  qed
qed

text \<open>Retried calls come to an end. A provider call is made at most as often as it has attempts, its
  answer is that of the last call, and every earlier call failed in a way that may pass; a database
  write with the default options waits at most four times and 7.5 seconds in all.\<close>

theorem retries_end:
  assumes "with_retry attempts op 1 = (r, n)"
    and "default_database_retry jitter save s = (x, t, waits)" "\<forall>j. 0 \<le> jitter j \<and> jitter j \<le> 1"
  shows "1 \<le> n \<and> n \<le> max 1 attempts \<and> r = op n
      \<and> (\<forall>j. 1 \<le> j \<longrightarrow> j < n \<longrightarrow> (\<exists>e. op j = Inl e \<and> is_transient_provider_error e))
      \<and> (n < attempts \<longrightarrow> (\<forall>e. r = Inl e \<longrightarrow> \<not> is_transient_provider_error e))
      \<and> length waits \<le> 4 \<and> sum_list waits \<le> 7500"
  using with_retry_outcome [OF assms(1)] database_retry_waits [of 5 500 8000 jitter save 1 s x t waits] assms(2,3)
  by (auto simp: with_database_retry_def)

text \<open>A call that times out once and then answers, and a write whose first acknowledgement is lost.\<close>

definition slow_answer :: "nat \<Rightarrow> provider_error + string" where
  "slow_answer k = (if k = 1 then Inl (GumletError True ''timed out'') else Inr ''ready'')"

definition lost_once :: "nat \<Rightarrow> id \<Rightarrow> (exn + unit) \<times> id" where
  "lost_once k s = (if k = 1 then (Inl (PrismaKnown ''P1017'' []), 7) else (Inr (), 7))"

lemma slow_answer_retried: "with_retry 2 slow_answer 1 = (Inr ''ready'', 2)"
  by (simp add: with_retry.simps slow_answer_def)

lemma lost_once_retried: "default_database_retry (\<lambda>_. 1) lost_once 0 = (Inr (), 7, [500])"
  by (simp add: with_database_retry_def database_retry_loop.simps lost_once_def is_transient_database_error_def
      transient_db_codes_def Let_def)

theorem retries_end_witness:
  "with_retry 2 slow_answer 1 = (Inr ''ready'', 2) \<and> (\<exists>e. slow_answer 1 = Inl e \<and> is_transient_provider_error e)
    \<and> default_database_retry (\<lambda>_. 1) lost_once 0 = (Inr (), 7, [500]) \<and> length [500 :: int] \<le> 4"
  using retries_end [OF slow_answer_retried lost_once_retried] slow_answer_retried lost_once_retried by simp

section \<open>What a plan does\<close>

lemma plan_adopts:
  "mp_action (plan_video opts v) = ADOPT \<longleftrightarrow>
     vd_deleted_at v = None \<and> vd_asset v = None \<and> vd_provider v = None \<and> given_text (vd_source v)
     \<and> vd_status v \<notin> {VS_PROCESSING, VS_QUEUED, VS_UPLOADING} \<and> (given_text (vd_playlist v) \<or> vd_status v = VS_READY)"
  by (simp add: plan_video_def skip_video_def Let_def)

lemma plan_replaces:
  "mp_action (plan_video opts v) = REPLACE \<longleftrightarrow>
     vd_deleted_at v = None \<and> vd_asset v \<noteq> None \<and> given_text (vd_source v)
     \<and> (vd_gumlet_status v = Some ''errored'' \<or> vd_gumlet_status v = Some ''failed'')
     \<and> (if vd_provider v = Some ''gumlet'' then po_repair opts else po_replace opts \<and> vd_status v = VS_READY)"
  by (auto simp: plan_video_def skip_video_def Let_def)

lemma plan_video_id [simp]: "mp_video (plan_video opts v) = vd_id v"
  by (simp add: plan_video_def skip_video_def Let_def)

lemma stable_insort:
  assumes "sorted_wrt (\<lambda>x y. f x < f y \<or> f x = f y \<and> R x y) ys" "\<forall>y \<in> set ys. R x y"
  shows "sorted_wrt (\<lambda>x y. f x < f y \<or> f x = f y \<and> R x y) (insort_key f x ys)" (is "sorted_wrt ?Q _")
  using assms
proof (induction ys)
  case (Cons y ys)
  show ?case
  proof (cases "f x \<le> f y")
    case True
    with Cons.prems show ?thesis by (auto dest: order.strict_trans1)
  next
    case False
    with Cons show ?thesis by (auto simp: set_insort_key)
  qed
qed simp

lemma stable_sort:
  "sorted_wrt R xs \<Longrightarrow> sorted_wrt (\<lambda>x y. f x < f y \<or> f x = f y \<and> R x y) (sort_key f xs)"
  by (induction xs) (auto intro!: stable_insort)

text \<open>C37: a plan never duplicates an asset. It creates one exactly for the undeleted videos that have none,
  are not routed to any provider, have a stored source, are not in flight and can be played today. It
  replaces one exactly for the undeleted videos whose asset the provider has given up and that have a
  stored source: a video served by the provider only under the option to repair, any other only under
  the option to replace and while it is ready. A batch plans only the given videos, cheaper actions
  first and then by identifier, and a limit keeps the first ones.\<close>

theorem plan_never_duplicates:
  assumes "p \<in> set (plan_batch opts limit rows)"
  shows "(\<exists>v \<in> set rows. p = plan_video opts v
      \<and> (mp_action p = ADOPT \<longleftrightarrow> vd_asset v = None \<and> vd_provider v = None \<and> vd_deleted_at v = None \<and> given_text (vd_source v)
          \<and> vd_status v \<notin> {VS_PROCESSING, VS_QUEUED, VS_UPLOADING} \<and> (given_text (vd_playlist v) \<or> vd_status v = VS_READY))
      \<and> (mp_action p = REPLACE \<longleftrightarrow> vd_asset v \<noteq> None \<and> vd_deleted_at v = None \<and> given_text (vd_source v)
          \<and> vd_gumlet_status v \<in> {Some ''errored'', Some ''failed''}
          \<and> (if vd_provider v = Some ''gumlet'' then po_repair opts else po_replace opts \<and> vd_status v = VS_READY)))
    \<and> sorted_wrt before_in_plan (plan_batch opts limit rows)
    \<and> (\<exists>rest. mset (plan_batch opts limit rows @ rest) = mset (map (plan_video opts) rows)
        \<and> (\<forall>q \<in> set rest. before_in_plan p q))"
proof (intro conjI)
  let ?all = "sort_key (\<lambda>p. action_priority (mp_action p)) (sort_key mp_video (map (plan_video opts) rows))"
  let ?n = "case limit of Some n \<Rightarrow> if 0 < n then nat n else length ?all | None \<Rightarrow> length ?all"
  have batch: "plan_batch opts limit rows = take ?n ?all"
    by (auto simp: plan_batch_def Let_def split: option.splits)
  have "sorted_wrt (\<lambda>p q. mp_video p \<le> mp_video q) (sort_key mp_video (map (plan_video opts) rows))"
    using sorted_sort_key [of mp_video] by (simp add: sorted_map)
  then have all: "sorted_wrt before_in_plan ?all"
    using stable_sort [of "\<lambda>p q. mp_video p \<le> mp_video q" _ "\<lambda>p. action_priority (mp_action p)"]
    by (simp add: before_in_plan_def [abs_def])
  then show "sorted_wrt before_in_plan (plan_batch opts limit rows)" unfolding batch by (rule sorted_wrt_take)
  have "p \<in> set ?all" using assms unfolding batch by (rule in_set_takeD)
  then obtain v where v: "v \<in> set rows" "p = plan_video opts v" by auto
  then show "\<exists>v \<in> set rows. p = plan_video opts v
      \<and> (mp_action p = ADOPT \<longleftrightarrow> vd_asset v = None \<and> vd_provider v = None \<and> vd_deleted_at v = None \<and> given_text (vd_source v)
          \<and> vd_status v \<notin> {VS_PROCESSING, VS_QUEUED, VS_UPLOADING} \<and> (given_text (vd_playlist v) \<or> vd_status v = VS_READY))
      \<and> (mp_action p = REPLACE \<longleftrightarrow> vd_asset v \<noteq> None \<and> vd_deleted_at v = None \<and> given_text (vd_source v)
          \<and> vd_gumlet_status v \<in> {Some ''errored'', Some ''failed''}
          \<and> (if vd_provider v = Some ''gumlet'' then po_repair opts else po_replace opts \<and> vd_status v = VS_READY))"
    by (intro bexI [of _ v]) (auto simp: plan_adopts plan_replaces)
  have "sorted_wrt before_in_plan (take ?n ?all @ drop ?n ?all)" using all by (simp only: append_take_drop_id)
  then have "\<forall>q \<in> set (drop ?n ?all). before_in_plan p q"
    using assms unfolding batch sorted_wrt_append by blast
  moreover have "mset (plan_batch opts limit rows @ drop ?n ?all) = mset (map (plan_video opts) rows)"
    unfolding batch append_take_drop_id by simp
  ultimately show "\<exists>rest. mset (plan_batch opts limit rows @ rest) = mset (map (plan_video opts) rows)
        \<and> (\<forall>q \<in> set rest. before_in_plan p q)" by blast
qed

definition legacy_video :: video_row where
  "legacy_video = (blank_video 7 11 None 0)\<lparr>vd_status := VS_READY, vd_source := Some ''source/videos/7/a.mp4''\<rparr>"

definition dead_video :: video_row where
  "dead_video = legacy_video\<lparr>vd_id := 8, vd_asset := Some 5, vd_gumlet_status := Some ''errored''\<rparr>"

theorem plan_never_duplicates_witness:
  "plan_video \<lparr>po_replace = True, po_repair = False\<rparr> dead_video
      \<in> set (plan_batch \<lparr>po_replace = True, po_repair = False\<rparr> None [dead_video, legacy_video])
    \<and> sorted_wrt before_in_plan (plan_batch \<lparr>po_replace = True, po_repair = False\<rparr> None [dead_video, legacy_video])
    \<and> mp_action (plan_video \<lparr>po_replace = True, po_repair = False\<rparr> dead_video) = REPLACE"
proof -
  have p: "plan_video \<lparr>po_replace = True, po_repair = False\<rparr> dead_video
      \<in> set (plan_batch \<lparr>po_replace = True, po_repair = False\<rparr> None [dead_video, legacy_video])"
    by (simp add: plan_batch_def)
  moreover have "mp_action (plan_video \<lparr>po_replace = True, po_repair = False\<rparr> dead_video) = REPLACE" by code_simp
  ultimately show ?thesis using plan_never_duplicates [OF p] by blast
qed

text \<open>An asset that was deleted at the provider: the recovery counts it as failed for good, but the plan
  tests the other two statuses only, so it is synchronised again and again and never replaced.\<close>

lemma deleted_asset_is_never_replaced:
  "is_terminal_failure (Some ''deleted'')"
  "mp_action (plan_video opts (legacy_video\<lparr>vd_asset := Some 5, vd_gumlet_status := Some ''deleted''\<rparr>)) = VERIFY"
  by (simp_all add: is_terminal_failure_def terminal_failure_statuses_def plan_video_def legacy_video_def blank_video_def Let_def)

end
