(* ===== verification/DrmVerification.thy ===== *)
theory DrmVerification
  imports GumletRules Calls Money "HOL-Library.AList"
begin

text \<open>
  The proof that a video is encrypted (\<open>playback/drm-verification.service.ts\<close>) and its renewal
  (\<open>drm-verification-sweep.service.ts\<close>). A check reads the row, claims it by the instant it started,
  asks the provider and settles: its result is written only while the row still holds the asset and
  the claim. Claim and settlement are separate steps, so that checks, adoptions and replacements can
  be interleaved between them; \<open>verify\<close> runs them in a row. The provider's answers, attempt by
  attempt, and the clock are arguments. Logging and the sharing of one check by concurrent requests of
  one process are left out; the memory of unreachable videos and the sorted set of sweep attempts are
  part of the state.
\<close>

record drm_config =
  dm_enabled :: bool
  dm_provider :: string
  dm_signing :: bool
  dm_ttl :: int
  dm_grace :: int

datatype (plugins only: code) drm_reason =
    NO_GUMLET_ASSET | DRM_NOT_REQUESTED | ASSET_NOT_READY | ASSET_FAILED | NOT_VERIFIED
  | VERIFICATION_STALE | VERIFICATION_UNAVAILABLE | DRM_DISABLED_ON_PLATFORM | SIGNING_UNAVAILABLE

datatype drm_verdict = Playable | Refused drm_reason string

fun is_playable :: "drm_verdict \<Rightarrow> bool" where
  "is_playable Playable \<longleftrightarrow> True"
| "is_playable (Refused r d) \<longleftrightarrow> False"

fun reason_of :: "drm_verdict \<Rightarrow> drm_reason option" where
  "reason_of Playable = None"
| "reason_of (Refused r d) = Some r"

definition is_platform_usable :: "drm_config \<Rightarrow> bool" where
  "is_platform_usable cf \<longleftrightarrow> dm_enabled cf \<and> dm_provider cf = ''gumlet'' \<and> dm_signing cf"

section \<open>Judging a stored row\<close>

definition evaluate :: "drm_config \<Rightarrow> time \<Rightarrow> video_row \<Rightarrow> drm_verdict" where
  "evaluate cf now v =
     (if \<not> dm_enabled cf then Refused DRM_DISABLED_ON_PLATFORM ''DRM is disabled on this platform.''
      else if dm_provider cf \<noteq> ''gumlet'' then Refused DRM_DISABLED_ON_PLATFORM ''The DRM provider is not gumlet.''
      else if \<not> dm_signing cf then Refused SIGNING_UNAVAILABLE ''Gumlet signing is not configured, so no licence can be issued.''
      else if vd_provider v \<noteq> Some ''gumlet'' then Refused NO_GUMLET_ASSET ''This video is not assigned to the Gumlet delivery path.''
      else if vd_asset v = None then Refused NO_GUMLET_ASSET ''No Gumlet asset has been created for this video.''
      else if \<not> vd_requested v then Refused DRM_NOT_REQUESTED ''This asset was not requested with DRM protection enabled.''
      else if vd_gumlet_status v \<noteq> Some ''ready''
      then Refused (if is_terminal_failure (vd_gumlet_status v) then ASSET_FAILED else ASSET_NOT_READY)
             ''The Gumlet asset is not ready.''
      else case vd_verified_at v of
             None \<Rightarrow> Refused NOT_VERIFIED (case vd_blocked v of Some d \<Rightarrow> d
                        | None \<Rightarrow> ''DRM has not been verified against the live manifest yet.'')
           | Some since \<Rightarrow>
               if dm_ttl cf * 1000 < now - since then Refused VERIFICATION_STALE ''The last DRM verification is too old.''
               else Playable)"

definition live_video :: "id \<Rightarrow> db \<Rightarrow> video_row option" where
  "live_video video s = List.find (\<lambda>v. vd_id v = video \<and> vd_deleted_at v = None) (videos s)"

definition video_missing :: drm_verdict where
  "video_missing = Refused NO_GUMLET_ASSET ''Video not found.''"

definition evaluate_video :: "drm_config \<Rightarrow> time \<Rightarrow> id \<Rightarrow> db \<Rightarrow> drm_verdict" where
  "evaluate_video cf now video s =
     (case live_video video s of None \<Rightarrow> video_missing | Some v \<Rightarrow> evaluate cf now v)"

section \<open>A check\<close>

record asset_answer =
  as_asset :: id
  as_status :: string
  as_error :: "string option"
  as_code :: "string option"
  as_systems :: "string list option"
  as_duration :: "int option"
  as_width :: "int option"
  as_height :: "int option"

record manifest_answer =
  mn_status :: int
  mn_ok :: bool
  mn_text :: string

text \<open>The provider during one check: its answer to every attempt at the asset and at the manifest.\<close>

record provider_answers =
  pv_asset :: "nat \<Rightarrow> provider_error + asset_answer"
  pv_manifest :: "nat \<Rightarrow> provider_error + manifest_answer"

definition is_asset_playable :: "string \<Rightarrow> bool" where
  "is_asset_playable status \<longleftrightarrow> status = ''ready''"

definition asset_has_drm :: "string \<Rightarrow> bool" where
  "asset_has_drm manifest \<longleftrightarrow>
     text_includes manifest ''schemeIdUri=\"urn:mpeg:dash:mp4protection:2011\"''
     \<and> text_includes manifest ''cenc:default_KID=\"''"

record drm_check =
  ck_row :: video_row
  ck_started :: time

definition begin_check :: "id \<Rightarrow> time \<Rightarrow> db \<Rightarrow> drm_check option" where
  "begin_check video now s = map_option (\<lambda>v. \<lparr>ck_row = v, ck_started = now\<rparr>) (live_video video s)"

definition update_videos :: "(video_row \<Rightarrow> bool) \<Rightarrow> (video_row \<Rightarrow> video_row) \<Rightarrow> db \<Rightarrow> db" where
  "update_videos P f s = s\<lparr>videos := upd_where P f (videos s)\<rparr>"

definition any_video :: "(video_row \<Rightarrow> bool) \<Rightarrow> db \<Rightarrow> bool" where
  "any_video P s \<longleftrightarrow> list_ex P (videos s)"

text \<open>The claim: conditional on the asset the check read.\<close>

definition same_asset :: "drm_check \<Rightarrow> video_row \<Rightarrow> bool" where
  "same_asset ck v \<longleftrightarrow> vd_id v = vd_id (ck_row ck) \<and> vd_asset v = vd_asset (ck_row ck)"

definition claim_check :: "drm_check \<Rightarrow> db \<Rightarrow> db" where
  "claim_check ck = update_videos (same_asset ck) (\<lambda>v. v\<lparr>vd_checked_at := Some (ck_started ck), vd_updated := ck_started ck\<rparr>)"

definition owned_by :: "drm_check \<Rightarrow> video_row \<Rightarrow> bool" where
  "owned_by ck v \<longleftrightarrow> same_asset ck v \<and> vd_checked_at v = Some (ck_started ck)"

datatype check_result =
    Failed drm_reason string "(string \<times> string option) option"
  | Proved string
  | Unreachable string
  | Thrown provider_error

definition manifest_read :: "provider_answers \<Rightarrow> nat \<Rightarrow> provider_error + manifest_answer" where
  "manifest_read pv k =
     (case pv_manifest pv k of
        Inl e \<Rightarrow> Inl e
      | Inr m \<Rightarrow> if \<not> mn_ok m \<and> is_transient_manifest_status (mn_status m)
                 then Inl (GumletError True ''Manifest read failed'') else Inr m)"

text \<open>The part of a check after the manifest was read.\<close>

definition judge_manifest :: "drm_check \<Rightarrow> asset_answer \<Rightarrow> manifest_answer \<Rightarrow> check_result" where
  "judge_manifest ck asset m =
     (if \<not> mn_ok m then Failed NOT_VERIFIED ''The DASH manifest is not served; this asset cannot be played.'' None
      else if \<not> asset_has_drm (mn_text m)
      then Failed NOT_VERIFIED ''Gumlet reported the asset ready but its manifest is not CENC-encrypted.'' None
      else if \<not> vd_requested (ck_row ck)
           \<and> (case as_systems asset of None \<Rightarrow> True | Some xs \<Rightarrow> ''widevine'' \<notin> set xs)
      then Failed DRM_NOT_REQUESTED ''DRM was never requested for this asset.'' None
      else Proved (as_status asset))"

definition check_outcome :: "drm_config \<Rightarrow> time \<Rightarrow> nat \<Rightarrow> drm_check \<Rightarrow> provider_answers \<Rightarrow> check_result" where
  "check_outcome cf now attempts ck pv =
     (let pre = evaluate cf now ((ck_row ck)\<lparr>vd_verified_at := None, vd_requested := True, vd_gumlet_status := Some ''ready''\<rparr>);
          tries = max 1 (min attempts 3)
      in case pre of
           Refused r d \<Rightarrow>
             if r \<noteq> NOT_VERIFIED \<and> r \<noteq> VERIFICATION_STALE \<or> vd_asset (ck_row ck) = None then Failed r d None
             else (case fst (with_retry tries (pv_asset pv) 1) of
                     Inl e \<Rightarrow>
                       if is_transient_provider_error e then Unreachable (''Could not read the Gumlet asset: '' @ error_text e)
                       else Failed NO_GUMLET_ASSET (''Gumlet has no usable asset for this video: '' @ error_text e) None
                   | Inr asset \<Rightarrow>
                       if \<not> is_asset_playable (as_status asset)
                       then Failed (if is_terminal_failure (Some (as_status asset)) then ASSET_FAILED else ASSET_NOT_READY)
                              (case as_error asset of Some m \<Rightarrow> m | None \<Rightarrow> ''Gumlet reports the asset as not ready.'')
                              (Some (as_status asset, as_error asset))
                       else (case fst (with_retry tries (manifest_read pv) 1) of
                               Inl e \<Rightarrow>
                                 if is_transient_provider_error e
                                 then Unreachable (''Could not read the DASH manifest: '' @ error_text e) else Thrown e
                             | Inr m \<Rightarrow> judge_manifest ck asset m))
         | Playable \<Rightarrow> Failed NO_GUMLET_ASSET ''No Gumlet asset has been created for this video.'' None)"

definition unproved_row :: "string \<Rightarrow> (string \<times> string option) option \<Rightarrow> time \<Rightarrow> video_row \<Rightarrow> video_row" where
  "unproved_row detail observed now v =
     (case observed of
        None \<Rightarrow> v\<lparr>vd_verified_at := None, vd_blocked := Some detail, vd_updated := now\<rparr>
      | Some (status, err) \<Rightarrow> v\<lparr>vd_verified_at := None, vd_blocked := Some detail, vd_gumlet_status := Some status,
          vd_gumlet_error := err, vd_gumlet_updated := Some now, vd_updated := now\<rparr>)"

definition proved_row :: "string \<Rightarrow> time \<Rightarrow> video_row \<Rightarrow> video_row" where
  "proved_row status now v = v\<lparr>vd_verified_at := Some now, vd_requested := True, vd_blocked := None,
     vd_gumlet_status := Some status, vd_gumlet_error := None, vd_gumlet_updated := Some now, vd_updated := now\<rparr>"

fun provider_exn :: "provider_error \<Rightarrow> exn" where
  "provider_exn (GumletError transient m) = app_error VIDEO_UNAVAILABLE"
| "provider_exn (OtherError e m) = e"

text \<open>A call that may also fail with what the provider threw.\<close>

type_synonym 'a provider_call = "(db, provider_error, 'a) call"

text \<open>The settlement of a check: one conditional write, or the stored verdict when the claim was lost.\<close>

definition settle_check :: "drm_config \<Rightarrow> time \<Rightarrow> drm_check \<Rightarrow> check_result \<Rightarrow> drm_verdict provider_call" where
  "settle_check cf now ck outcome =
     (case outcome of
        Failed r d observed \<Rightarrow>
          bind_c (read_c (any_video (owned_by ck))) (\<lambda>owned.
            if owned then bind_c (write_c (update_videos (owned_by ck) (unproved_row d observed now))) (\<lambda>_. ret_c (Refused r d))
            else read_c (evaluate_video cf now (vd_id (ck_row ck))))
      | Proved status \<Rightarrow>
          bind_c (read_c (any_video (owned_by ck))) (\<lambda>owned.
            if owned then bind_c (write_c (update_videos (owned_by ck) (proved_row status now))) (\<lambda>_.
              ret_c (evaluate cf now ((ck_row ck)\<lparr>vd_requested := True, vd_verified_at := Some now, vd_blocked := None,
                vd_gumlet_status := Some status\<rparr>)))
            else read_c (evaluate_video cf now (vd_id (ck_row ck))))
      | Unreachable d \<Rightarrow> ret_c (Refused VERIFICATION_UNAVAILABLE d)
      | Thrown e \<Rightarrow> fail_c e)"

text \<open>The whole check, undisturbed: it starts at one instant and settles at another.\<close>

record check_world =
  cw_start :: time
  cw_end :: time
  cw_provider :: provider_answers

definition verify :: "drm_config \<Rightarrow> check_world \<Rightarrow> nat \<Rightarrow> id \<Rightarrow> drm_verdict provider_call" where
  "verify cf w attempts video =
     bind_c (read_c (begin_check video (cw_start w))) (\<lambda>found.
       case found of
         None \<Rightarrow> ret_c video_missing
       | Some ck \<Rightarrow>
           bind_c (write_c (claim_check ck)) (\<lambda>_.
             settle_check cf (cw_end w) ck (check_outcome cf (cw_start w) attempts ck (cw_provider w))))"

section \<open>The gate of the playback path\<close>

definition refreshable :: "drm_reason \<Rightarrow> bool" where
  "refreshable r \<longleftrightarrow> r \<in> {NOT_VERIFIED, VERIFICATION_STALE, DRM_NOT_REQUESTED, ASSET_NOT_READY}"

definition unavailable_backoff :: int where
  "unavailable_backoff = 60000"

record drm_state =
  dg_db :: db
  dg_unreachable :: "(id \<times> time) list"
  dg_attempts :: "(id \<times> time) list"

definition on_dg :: "'a provider_call \<Rightarrow> (drm_state, exn, 'a) call" where
  "on_dg m = (\<lambda>s. case m (dg_db s) of (r, t) \<Rightarrow> (map_sum provider_exn id r, s\<lparr>dg_db := t\<rparr>))"

definition within_grace :: "drm_config \<Rightarrow> time \<Rightarrow> video_row \<Rightarrow> bool" where
  "within_grace cf now v \<longleftrightarrow>
     (case vd_verified_at v of
        None \<Rightarrow> False
      | Some since \<Rightarrow>
          vd_requested v \<and> \<not> given_text (vd_blocked v)
          \<and> is_playable (evaluate cf now (v\<lparr>vd_verified_at := Some now\<rparr>))
          \<and> now - since \<le> (dm_ttl cf + dm_grace cf) * 1000)"

definition recently_unreachable :: "id \<Rightarrow> time \<Rightarrow> drm_state \<Rightarrow> bool" where
  "recently_unreachable video now s =
     ((case map_of (dg_unreachable s) video of None \<Rightarrow> 0 | Some t \<Rightarrow> t) > now - unavailable_backoff)"

text \<open>\<open>singleFlight\<close>: one attempt, and the memory of an unreachable provider is updated.\<close>

definition flight :: "drm_config \<Rightarrow> check_world \<Rightarrow> id \<Rightarrow> (drm_state, exn, drm_verdict) call" where
  "flight cf w video =
     bind_c (on_dg (verify cf w 1 video)) (\<lambda>verdict.
     bind_c (write_c (\<lambda>s. s\<lparr>dg_unreachable :=
         (if reason_of verdict = Some VERIFICATION_UNAVAILABLE then AList.update video (cw_end w) (dg_unreachable s)
          else AList.delete video (dg_unreachable s))\<rparr>)) (\<lambda>_.
     ret_c verdict))"

definition ensure_playable :: "drm_config \<Rightarrow> check_world \<Rightarrow> id \<Rightarrow> (drm_state, exn, drm_verdict) call" where
  "ensure_playable cf w video =
     bind_c (read_c (\<lambda>s. live_video video (dg_db s))) (\<lambda>found.
       case found of
         None \<Rightarrow> ret_c video_missing
       | Some v \<Rightarrow>
           (let current = evaluate cf (cw_start w) v in
            case current of
              Playable \<Rightarrow> ret_c Playable
            | Refused r d \<Rightarrow>
                if \<not> refreshable r then ret_c current
                else if given_text (vd_blocked v) then ret_c current
                else
                  bind_c (read_c (recently_unreachable video (cw_start w))) (\<lambda>recent.
                  bind_c (if recent then ret_c (Refused VERIFICATION_UNAVAILABLE ''Provider recently unreachable.'')
                          else flight cf w video) (\<lambda>refreshed.
                    if reason_of refreshed \<noteq> Some VERIFICATION_UNAVAILABLE then ret_c refreshed
                    else if within_grace cf (cw_end w) v then ret_c Playable
                    else ret_c current))))"

section \<open>The sweep\<close>

definition sweep_window :: nat where "sweep_window = 1000"
definition sweep_attempts :: nat where "sweep_attempts = 2"

definition default_margin :: "int \<Rightarrow> int" where
  "default_margin ttl = max 60 (ttl div 3)"

definition select_candidates :: "int \<Rightarrow> int \<Rightarrow> time \<Rightarrow> video_row list \<Rightarrow> id list" where
  "select_candidates ttl margin now rows =
     (let cutoff = now - (ttl - margin) * 1000
      in map vd_id (filter (\<lambda>v. case vd_verified_at v of None \<Rightarrow> True | Some since \<Rightarrow> since \<le> cutoff) rows))"

text \<open>Ordered by the instant of the proof, missing proofs first, then by identifier.\<close>

definition sweep_candidates :: "db \<Rightarrow> video_row list" where
  "sweep_candidates s =
     (let rows = filter (\<lambda>v. vd_deleted_at v = None \<and> vd_provider v = Some ''gumlet'' \<and> vd_asset v \<noteq> None
                         \<and> vd_status v = VS_READY) (videos s);
          by_id = sort_key vd_id rows
      in take sweep_window
           (filter (\<lambda>v. vd_verified_at v = None) by_id
            @ sort_key (\<lambda>v. the (vd_verified_at v)) (filter (\<lambda>v. vd_verified_at v \<noteq> None) by_id)))"

definition last_attempt :: "drm_state \<Rightarrow> id \<Rightarrow> int" where
  "last_attempt s video = (case map_of (dg_attempts s) video of None \<Rightarrow> -1 | Some t \<Rightarrow> t)"

definition choose_batch :: "bool \<Rightarrow> time \<Rightarrow> id list \<Rightarrow> nat \<Rightarrow> drm_state \<Rightarrow> id list \<times> drm_state" where
  "choose_batch redis_up now due quota s =
     (if length due \<le> quota then (due, s)
      else if \<not> redis_up then (take quota due, s)
      else (let chosen = take quota (sort_key (last_attempt s) due);
                kept = filter (\<lambda>p. fst p \<in> set due) (dg_attempts s)
            in (chosen, s\<lparr>dg_attempts := foldl (\<lambda>al i. AList.update i now al) kept chosen\<rparr>)))"

record sweep_result =
  sr_fresh :: nat
  sr_checked :: nat
  sr_refreshed :: nat
  sr_failed :: nat
  sr_errored :: nat
  sr_platform :: nat

definition no_sweep :: sweep_result where
  "no_sweep = \<lparr>sr_fresh = 0, sr_checked = 0, sr_refreshed = 0, sr_failed = 0, sr_errored = 0, sr_platform = 0\<rparr>"

fun sweep_batch :: "drm_config \<Rightarrow> (id \<Rightarrow> check_world) \<Rightarrow> id list \<Rightarrow> sweep_result \<Rightarrow> drm_state \<Rightarrow> sweep_result \<times> drm_state" where
  "sweep_batch cf worlds [] r s = (r, s)"
| "sweep_batch cf worlds (i # is) r s =
     (case on_dg (verify cf (worlds i) sweep_attempts i) s of
        (Inl e, t) \<Rightarrow> sweep_batch cf worlds is (r\<lparr>sr_checked := Suc (sr_checked r), sr_errored := Suc (sr_errored r)\<rparr>) t
      | (Inr Playable, t) \<Rightarrow>
          sweep_batch cf worlds is (r\<lparr>sr_checked := Suc (sr_checked r), sr_refreshed := Suc (sr_refreshed r)\<rparr>) t
      | (Inr (Refused q d), t) \<Rightarrow>
          sweep_batch cf worlds is
            (if q = VERIFICATION_UNAVAILABLE
             then r\<lparr>sr_checked := Suc (sr_checked r), sr_errored := Suc (sr_errored r)\<rparr>
             else r\<lparr>sr_checked := Suc (sr_checked r), sr_failed := Suc (sr_failed r)\<rparr>) t)"

definition sweep :: "drm_config \<Rightarrow> bool \<Rightarrow> time \<Rightarrow> (id \<Rightarrow> check_world) \<Rightarrow> nat \<Rightarrow> drm_state \<Rightarrow> sweep_result \<times> drm_state" where
  "sweep cf redis_up now worlds batch s =
     (if \<not> is_platform_usable cf then (no_sweep\<lparr>sr_platform := 1\<rparr>, s)
      else (let candidates = sweep_candidates (dg_db s);
                due = select_candidates (dm_ttl cf) (default_margin (dm_ttl cf)) now candidates;
                (chosen, t) = choose_batch redis_up now due (max 1 (min batch 100)) s
            in sweep_batch cf worlds chosen (no_sweep\<lparr>sr_fresh := length candidates - length due\<rparr>) t))"

end
