(* ===== verification/LessonVideos.thy ===== *)
theory LessonVideos
  imports Playback
begin

text \<open>
  The videos attached to lectures (\<open>videos/lesson-video.service.ts\<close>) and the counters of a course
  (\<open>CoursesService.recountCourse\<close>). A lecture owns at most one video and may play one that was
  uploaded to another lecture; a row of the table links the two. Lengths travel from a video to every
  lecture that plays it, and from the lectures to their course.
\<close>

section \<open>Counters of a course\<close>

definition count_sections :: "id \<Rightarrow> db \<Rightarrow> nat" where
  "count_sections course s =
     count_where (\<lambda>x. s_course x = course \<and> s_deleted_at x = None \<and> s_status x = CT_PUBLISHED) (sections s)"

definition counted_lesson :: "id \<Rightarrow> lesson_row \<Rightarrow> bool" where
  "counted_lesson course l \<longleftrightarrow> ls_course l = course \<and> ls_deleted_at l = None \<and> ls_status l = CT_PUBLISHED"

definition count_lessons :: "id \<Rightarrow> db \<Rightarrow> nat" where
  "count_lessons course s = count_where (counted_lesson course) (lessons s)"

definition total_duration :: "id \<Rightarrow> db \<Rightarrow> int" where
  "total_duration course s = sum_where (counted_lesson course) ls_duration (lessons s)"

definition recount_course :: "id \<Rightarrow> unit db_call" where
  "recount_course course =
     bind_c (read_c (\<lambda>s. (count_sections course s, count_lessons course s, total_duration course s))) (\<lambda>(n, m, d).
     bind_c (read_c (\<lambda>s. find_by c_id course (courses s))) (\<lambda>found.
     bind_c (require_c (found \<noteq> None) (PrismaKnown ''P2025'' [])) (\<lambda>_.
     write_c (\<lambda>s. s\<lparr>courses := upd_where (\<lambda>c. c_id c = course)
       (\<lambda>c. c\<lparr>c_section_count := n, c_lesson_count := m, c_total_duration := d\<rparr>) (courses s)\<rparr>))))"

text \<open>A recount whose failure is only logged.\<close>

definition try_c :: "('s, 'e, unit) call \<Rightarrow> ('s, 'e, unit) call" where
  "try_c m = (\<lambda>s. (Inr (), snd (m s)))"

section \<open>Links\<close>

definition is_link :: "id \<Rightarrow> id \<Rightarrow> lesson_video_row \<Rightarrow> bool" where
  "is_link lesson video x \<longleftrightarrow> lv_lesson x = lesson \<and> lv_video x = video"

definition video_live :: "id \<Rightarrow> db \<Rightarrow> bool" where
  "video_live video s \<longleftrightarrow> list_ex (\<lambda>v. vd_id v = video \<and> vd_deleted_at v = None) (videos s)"

definition lesson_live :: "id \<Rightarrow> db \<Rightarrow> bool" where
  "lesson_live lesson s \<longleftrightarrow> list_ex (\<lambda>l. ls_id l = lesson \<and> ls_deleted_at l = None) (lessons s)"

definition links_of_video :: "id \<Rightarrow> db \<Rightarrow> lesson_video_row list" where
  "links_of_video video s = filter (\<lambda>x. lv_video x = video) (lesson_videos s)"

definition links_of_lesson :: "id \<Rightarrow> db \<Rightarrow> lesson_video_row list" where
  "links_of_lesson lesson s = filter (\<lambda>x. lv_lesson x = lesson) (lesson_videos s)"

text \<open>The first link in order decides; the flag says whether the lecture owns the video.\<close>

definition resolve_attached_video :: "id \<Rightarrow> db \<Rightarrow> (video_row \<times> bool) option" where
  "resolve_attached_video lesson s =
     (case sort_key lv_sort (sort_key lv_created (links_of_lesson lesson s)) of
        [] \<Rightarrow> None
      | x # _ \<Rightarrow> map_option (\<lambda>v. (v, vd_lesson v = Some lesson)) (find_by vd_id (lv_video x) (videos s)))"

definition course_of_lesson :: "db \<Rightarrow> id \<Rightarrow> id option" where
  "course_of_lesson s lesson = map_option ls_course (find_by ls_id lesson (lessons s))"

definition courses_of_links :: "id \<Rightarrow> lesson_video_row list \<Rightarrow> db \<Rightarrow> id list" where
  "courses_of_links owner links s = remdups (owner # List.map_filter (\<lambda>x. course_of_lesson s (lv_lesson x)) links)"

definition set_durations :: "id list \<Rightarrow> int \<Rightarrow> db \<Rightarrow> db" where
  "set_durations ids d s = s\<lparr>lessons := upd_where (\<lambda>l. ls_id l \<in> set ids) (\<lambda>l. l\<lparr>ls_duration := d\<rparr>) (lessons s)\<rparr>"

text \<open>\<open>propagateDurationToAttachedLessons\<close>, with the given length or the stored one.\<close>

definition propagate_duration :: "id \<Rightarrow> int option \<Rightarrow> nat db_call" where
  "propagate_duration video override =
     bind_c (read_c (\<lambda>s. find_by vd_id video (videos s))) (\<lambda>found.
       case found of
         None \<Rightarrow> ret_c 0
       | Some v \<Rightarrow>
           (let d = (case override of Some d \<Rightarrow> d | None \<Rightarrow> vd_duration v) in
            if d \<le> 0 then ret_c 0
            else
              bind_c (read_c (links_of_video video)) (\<lambda>links.
              if links = [] then ret_c 0
              else
                bind_c (write_c (set_durations (map lv_lesson links) d)) (\<lambda>_.
                bind_c (read_c (courses_of_links (vd_course v) links)) (\<lambda>touched.
                bind_c (each_c (\<lambda>c. try_c (recount_course c)) touched) (\<lambda>_.
                ret_c (length links)))))))"

definition attach_video :: "id \<Rightarrow> id \<Rightarrow> id \<Rightarrow> time \<Rightarrow> (bool \<times> video_row) db_call" where
  "attach_video lesson video actor now =
     bind_c (read_c (\<lambda>s. (lesson_live lesson s, video_live video s))) (\<lambda>(lesson_ok, video_ok).
     bind_c (require_c lesson_ok (HttpEx 404 [])) (\<lambda>_.
     bind_c (require_c video_ok (HttpEx 404 [])) (\<lambda>_.
     bind_c (read_c (\<lambda>s. list_ex (is_link lesson video) (lesson_videos s))) (\<lambda>existing.
     bind_c (if existing then ret_c ()
             else
               bind_c (read_c (\<lambda>s. list_ex (\<lambda>x. lv_video x \<noteq> video \<and> video_live (lv_video x) s) (links_of_lesson lesson s))) (\<lambda>occupied.
               bind_c (require_c (\<not> occupied) conflict) (\<lambda>_.
               bind_c (write_c (\<lambda>s. s\<lparr>lesson_videos := lesson_videos s @
                 [\<lparr>lv_lesson = lesson, lv_video = video, lv_sort = 0, lv_created_by = Some actor, lv_created = now\<rparr>]\<rparr>)) (\<lambda>_.
               bind_c (propagate_duration video None) (\<lambda>_. ret_c ()))))) (\<lambda>_.
     bind_c (read_c (resolve_attached_video lesson)) (\<lambda>attached.
     bind_c (the_c (HttpEx 404 []) attached) (\<lambda>(v, owned).
     ret_c (\<not> existing, v))))))))"

definition detach_video :: "id \<Rightarrow> id \<Rightarrow> nat db_call" where
  "detach_video lesson video =
     bind_c (write_c (\<lambda>s. s\<lparr>lesson_videos := filter (\<lambda>x. \<not> is_link lesson video x) (lesson_videos s)\<rparr>)) (\<lambda>_.
     read_c (\<lambda>s. length (links_of_video video s)))"

definition count_live_attachments :: "id \<Rightarrow> db \<Rightarrow> nat" where
  "count_live_attachments video s = count_where (\<lambda>x. lv_video x = video \<and> lesson_live (lv_lesson x) s) (lesson_videos s)"

section \<open>What stands behind a course card\<close>

definition counters_true :: "db \<Rightarrow> bool" where
  "counters_true s \<longleftrightarrow> (\<forall>c \<in> set (courses s). c_section_count c = count_sections (c_id c) s
     \<and> c_lesson_count c = count_lessons (c_id c) s \<and> c_total_duration c = total_duration (c_id c) s)"

end
