(* ===== verification/Authoring.thy ===== *)
theory Authoring
  imports LessonVideos
begin

text \<open>
  Sections and lectures of a course as staff edit them (\<open>sections/sections.service.ts\<close>,
  \<open>lessons/lessons.service.ts\<close>). Positions are unique per course and per section, and the index also
  covers soft-deleted rows. A raw statement moves many rows at once; the database checks the index at
  each row it moves, in the order of the table, and the statement fails as a whole at the first
  position that is taken. Titles, descriptions and kinds are left out; \<open>watched\<close> counts in answers
  are kept.
\<close>

section \<open>Statements that move positions\<close>

text \<open>\<open>moved_rows key P f done todo\<close>: the rows after \<open>UPDATE ... SET f WHERE P\<close> under a unique key.\<close>

fun moved_rows :: "('r \<Rightarrow> 'k) \<Rightarrow> ('r \<Rightarrow> bool) \<Rightarrow> ('r \<Rightarrow> 'r) \<Rightarrow> 'r list \<Rightarrow> 'r list \<Rightarrow> 'r list option" where
  "moved_rows key P f passed [] = Some passed"
| "moved_rows key P f passed (r # rs) =
     (if \<not> P r then moved_rows key P f (passed @ [r]) rs
      else if list_ex (\<lambda>x. key x = key (f r)) (passed @ rs) then None
      else moved_rows key P f (passed @ [f r]) rs)"

definition raw_violation :: exn where
  "raw_violation = PrismaKnown ''P2010'' []"

definition section_place :: "section_row \<Rightarrow> id \<times> int" where
  "section_place x = (s_course x, s_sort x)"

definition lesson_place :: "lesson_row \<Rightarrow> id \<times> int" where
  "lesson_place l = (ls_section l, ls_sort l)"

definition move_sections :: "(section_row \<Rightarrow> bool) \<Rightarrow> (int \<Rightarrow> int) \<Rightarrow> unit dbtx" where
  "move_sections P f =
     bind_tx (get_tx (\<lambda>s. moved_rows section_place P (\<lambda>x. x\<lparr>s_sort := f (s_sort x)\<rparr>) [] (sections s))) (\<lambda>r.
     case r of None \<Rightarrow> throw_tx raw_violation
             | Some xs \<Rightarrow> modify_tx (\<lambda>s. s\<lparr>sections := xs\<rparr>))"

definition move_lessons :: "(lesson_row \<Rightarrow> bool) \<Rightarrow> (int \<Rightarrow> int) \<Rightarrow> unit dbtx" where
  "move_lessons P f =
     bind_tx (get_tx (\<lambda>s. moved_rows lesson_place P (\<lambda>l. l\<lparr>ls_sort := f (ls_sort l)\<rparr>) [] (lessons s))) (\<lambda>r.
     case r of None \<Rightarrow> throw_tx raw_violation
             | Some ls \<Rightarrow> modify_tx (\<lambda>s. s\<lparr>lessons := ls\<rparr>))"

definition place_taken :: "exn" where
  "place_taken = PrismaKnown ''P2002'' [''sortOrder'']"

text \<open>One row is given a position by its identifier.\<close>

definition place_section :: "id \<Rightarrow> int \<Rightarrow> unit dbtx" where
  "place_section i v =
     bind_tx (get_tx (\<lambda>s. find_by s_id i (sections s))) (\<lambda>found.
     bind_tx (the_or (PrismaKnown ''P2025'' []) found) (\<lambda>x.
     bind_tx (get_tx (\<lambda>s. list_ex (\<lambda>y. s_id y \<noteq> i \<and> section_place y = (s_course x, v)) (sections s))) (\<lambda>taken.
     bind_tx (require_tx (\<not> taken) place_taken) (\<lambda>_.
     modify_tx (\<lambda>s. s\<lparr>sections := upd_where (\<lambda>y. s_id y = i) (\<lambda>y. y\<lparr>s_sort := v\<rparr>) (sections s)\<rparr>)))))"

definition place_lesson :: "id \<Rightarrow> int \<Rightarrow> unit dbtx" where
  "place_lesson i v =
     bind_tx (get_tx (\<lambda>s. find_by ls_id i (lessons s))) (\<lambda>found.
     bind_tx (the_or (PrismaKnown ''P2025'' []) found) (\<lambda>l.
     bind_tx (get_tx (\<lambda>s. list_ex (\<lambda>y. ls_id y \<noteq> i \<and> lesson_place y = (ls_section l, v)) (lessons s))) (\<lambda>taken.
     bind_tx (require_tx (\<not> taken) place_taken) (\<lambda>_.
     modify_tx (\<lambda>s. s\<lparr>lessons := upd_where (\<lambda>y. ls_id y = i) (\<lambda>y. y\<lparr>ls_sort := v\<rparr>) (lessons s)\<rparr>)))))"

definition content_audit :: "id \<Rightarrow> string \<Rightarrow> string \<Rightarrow> id \<Rightarrow> unit db_call" where
  "content_audit actor action entity i =
     write_c (\<lambda>s. s\<lparr>audit := audit s @
       [\<lparr>au_actor = Some actor, au_action = action, au_entity = entity, au_entity_id = i, au_note = []\<rparr>]\<rparr>)"

definition manages_content :: "id \<Rightarrow> user_role \<Rightarrow> id \<Rightarrow> unit db_call" where
  "manages_content actor role course = (\<lambda>s. (assert_can_manage_course actor role course CAP_CONTENT s, s))"

definition check_c :: "'e + 'a \<Rightarrow> ('s, 'e, 'a) call" where
  "check_c r = (\<lambda>s. (r, s))"

section \<open>Sections\<close>

definition live_section :: "id \<Rightarrow> section_row \<Rightarrow> bool" where
  "live_section course x \<longleftrightarrow> s_course x = course \<and> s_deleted_at x = None"

definition require_section :: "id \<Rightarrow> section_row db_call" where
  "require_section i =
     bind_c (read_c (\<lambda>s. List.find (\<lambda>x. s_id x = i \<and> s_deleted_at x = None) (sections s))) (\<lambda>found. the_c not_found found)"

definition last_place :: "int list \<Rightarrow> int option" where
  "last_place xs = (if xs = [] then None else Some (Max (set xs)))"

definition next_place :: "int list \<Rightarrow> int" where
  "next_place xs = (case last_place xs of None \<Rightarrow> 0 | Some v \<Rightarrow> v) + 1"

record section_input =
  si_sort :: "int option"
  si_status :: "content_status option"
  si_unlocks :: "time option"

definition section_row_of :: "id \<Rightarrow> id \<Rightarrow> int \<Rightarrow> section_input \<Rightarrow> section_row" where
  "section_row_of i course v q =
     \<lparr>s_id = i, s_course = course, s_part = None, s_sort = v,
      s_status = (case si_status q of None \<Rightarrow> CT_PUBLISHED | Some st \<Rightarrow> st), s_unlocks_at = si_unlocks q, s_deleted_at = None\<rparr>"

text \<open>A given position is freed in two statements, through negative space.\<close>

definition free_section_place :: "id \<Rightarrow> int option \<Rightarrow> unit dbtx" where
  "free_section_place course wanted =
     (case wanted of
        None \<Rightarrow> ret_tx ()
      | Some v \<Rightarrow>
          bind_tx (move_sections (\<lambda>x. live_section course x \<and> v \<le> s_sort x) (\<lambda>k. - (k + 1))) (\<lambda>_.
          move_sections (\<lambda>x. s_course x = course \<and> s_sort x < 0) (\<lambda>k. - k)))"

definition create_section_tx :: "id \<Rightarrow> section_input \<Rightarrow> section_row dbtx" where
  "create_section_tx course q =
     bind_tx (get_tx (\<lambda>s. next_place (map s_sort (filter (live_section course) (sections s))))) (\<lambda>appended.
     let target = (case si_sort q of Some v \<Rightarrow> v | None \<Rightarrow> appended) in
     bind_tx (free_section_place course (si_sort q)) (\<lambda>_.
     bind_tx fresh_id (\<lambda>i.
     bind_tx (get_tx (\<lambda>s. list_ex (\<lambda>y. section_place y = (course, target)) (sections s))) (\<lambda>taken.
     bind_tx (require_tx (\<not> taken) place_taken) (\<lambda>_.
     bind_tx (modify_tx (\<lambda>s. s\<lparr>sections := sections s @ [section_row_of i course target q]\<rparr>)) (\<lambda>_.
     ret_tx (section_row_of i course target q)))))))"

definition create_section :: "id \<Rightarrow> section_input \<Rightarrow> id \<Rightarrow> user_role \<Rightarrow> section_row db_call" where
  "create_section course q actor role =
     bind_c (manages_content actor role course) (\<lambda>_.
     bind_c (commit_c (create_section_tx course q)) (\<lambda>x.
     bind_c (recount_course course) (\<lambda>_.
     bind_c (content_audit actor ''CREATE'' ''course_section'' (s_id x)) (\<lambda>_.
     ret_c x))))"

record section_edit =
  sx_status :: "content_status option"
  sx_unlocks :: "time option option"

definition edited_section :: "section_edit \<Rightarrow> section_row \<Rightarrow> section_row" where
  "edited_section q x =
     x\<lparr>s_status := (case sx_status q of None \<Rightarrow> s_status x | Some st \<Rightarrow> st),
       s_unlocks_at := (case sx_unlocks q of None \<Rightarrow> s_unlocks_at x | Some u \<Rightarrow> u)\<rparr>"

definition update_section :: "id \<Rightarrow> section_edit \<Rightarrow> id \<Rightarrow> user_role \<Rightarrow> section_row db_call" where
  "update_section i q actor role =
     bind_c (require_section i) (\<lambda>x.
     bind_c (manages_content actor role (s_course x)) (\<lambda>_.
     bind_c (write_c (\<lambda>s. s\<lparr>sections := upd_where (\<lambda>y. s_id y = i) (edited_section q) (sections s)\<rparr>)) (\<lambda>_.
     bind_c (if sx_status q = None then ret_c () else recount_course (s_course x)) (\<lambda>_.
     bind_c (content_audit actor ''UPDATE'' ''course_section'' i) (\<lambda>_.
     ret_c (edited_section q x))))))"

definition reorder_sections_tx :: "id \<Rightarrow> id list \<Rightarrow> unit dbtx" where
  "reorder_sections_tx course ids =
     bind_tx (move_sections (live_section course) (\<lambda>v. - v - 1000)) (\<lambda>_.
     each_tx (\<lambda>(k, i). place_section i (int k + 1)) (enumerate 0 ids))"

definition sections_in_order :: "id \<Rightarrow> db \<Rightarrow> section_row list" where
  "sections_in_order course s = sort_key s_sort (filter (live_section course) (sections s))"

definition lessons_in_order :: "id \<Rightarrow> db \<Rightarrow> lesson_row list" where
  "lessons_in_order sec s = sort_key ls_sort (filter (\<lambda>l. ls_section l = sec \<and> ls_deleted_at l = None) (lessons s))"

text \<open>The authoring view: every undeleted lecture with the video it shows and whether it is reused.\<close>

record lesson_view =
  lw_lesson :: lesson_row
  lw_video :: "video_row option"
  lw_reused :: bool
  lw_attachments :: nat

definition shown_video :: "lesson_row \<Rightarrow> db \<Rightarrow> (video_row \<times> bool) option" where
  "shown_video l s =
     (case List.find (\<lambda>v. vd_lesson v = Some (ls_id l) \<and> vd_deleted_at v = None) (videos s) of
        Some v \<Rightarrow> Some (v, False)
      | None \<Rightarrow>
          (case List.find (\<lambda>x. lv_lesson x \<noteq> ls_id l) (filter (\<lambda>x. video_live (lv_video x) s) (links_of_lesson (ls_id l) s)) of
             None \<Rightarrow> None
           | Some x \<Rightarrow> map_option (\<lambda>v. (v, True)) (find_by vd_id (lv_video x) (videos s))))"

definition section_view :: "db \<Rightarrow> section_row \<Rightarrow> section_row \<times> lesson_view list" where
  "section_view s x =
     (x, map (\<lambda>l. \<lparr>lw_lesson = l, lw_video = map_option fst (shown_video l s),
          lw_reused = (case shown_video l s of None \<Rightarrow> False | Some (v, r) \<Rightarrow> r),
          lw_attachments = count_where (\<lambda>a. at_lesson a = Some (ls_id l) \<and> at_deleted_at a = None) (attachments s)\<rparr>)
        (lessons_in_order (s_id x) s))"

definition list_for_course :: "id \<Rightarrow> (id \<times> user_role) option \<Rightarrow> (section_row \<times> lesson_view list) list db_call" where
  "list_for_course course actor =
     bind_c (read_c (\<lambda>s. case actor of None \<Rightarrow> Inr True | Some (u, r) \<Rightarrow> staff_may_view_course (Some u) r course s)) (\<lambda>may.
     bind_c (check_c may) (\<lambda>ok.
     bind_c (require_c ok (app_error NOT_COURSE_TEACHER)) (\<lambda>_.
     read_c (\<lambda>s. map (section_view s) (sections_in_order course s)))))"

definition reorder_sections :: "id \<Rightarrow> id list \<Rightarrow> id \<Rightarrow> user_role \<Rightarrow> (section_row \<times> lesson_view list) list db_call" where
  "reorder_sections course ids actor role =
     bind_c (manages_content actor role course) (\<lambda>_.
     bind_c (read_c (\<lambda>s. remdups (map s_id (filter (live_section course) (sections s))))) (\<lambda>known.
     bind_c (require_c (length ids = length known \<and> list_all (\<lambda>i. i \<in> set known) ids)
       (validation [(''sectionIds'', [''must contain exactly the current section ids of this course''])])) (\<lambda>_.
     bind_c (commit_c (reorder_sections_tx course ids)) (\<lambda>_.
     bind_c (content_audit actor ''UPDATE'' ''course'' course) (\<lambda>_.
     list_for_course course None)))))"

section \<open>Removing a section\<close>

datatype (plugins only: code) authoring_capability =
    DELETE_LECTURES | DELETE_VIDEOS | EDIT_VIDEO_URLS

definition lessons_of_section :: "id \<Rightarrow> db \<Rightarrow> id list" where
  "lessons_of_section sec s = map ls_id (filter (\<lambda>l. ls_section l = sec) (lessons s))"

text \<open>Videos uploaded to one of the lectures whose links all lead to these lectures.\<close>

definition orphaned_videos :: "id list \<Rightarrow> db \<Rightarrow> id list" where
  "orphaned_videos ids s =
     map vd_id (filter (\<lambda>v. (case vd_lesson v of None \<Rightarrow> False | Some l \<Rightarrow> l \<in> set ids)
       \<and> list_all (\<lambda>x. lv_lesson x \<in> set ids) (links_of_video (vd_id v) s)) (videos s))"

definition archive_videos :: "id list \<Rightarrow> time \<Rightarrow> db \<Rightarrow> db" where
  "archive_videos ids now s =
     s\<lparr>videos := upd_where (\<lambda>v. vd_id v \<in> set ids) (\<lambda>v. v\<lparr>vd_status := VS_ARCHIVED, vd_updated := now\<rparr>) (videos s)\<rparr>"

definition end_lesson_tickets :: "id list \<Rightarrow> string \<Rightarrow> time \<Rightarrow> db \<Rightarrow> db" where
  "end_lesson_tickets ids why now s =
     s\<lparr>tickets := upd_where (\<lambda>t. tk_lesson t \<in> set ids \<and> tk_status t = TS_ACTIVE) (revoked_ticket why now) (tickets s)\<rparr>"

definition archived_lesson :: "time \<Rightarrow> lesson_row \<Rightarrow> lesson_row" where
  "archived_lesson now l = l\<lparr>ls_deleted_at := Some now, ls_status := CT_ARCHIVED\<rparr>"

definition remove_section_tx :: "section_row \<Rightarrow> time \<Rightarrow> unit dbtx" where
  "remove_section_tx x now =
     bind_tx (modify_tx (\<lambda>s. s\<lparr>sections := upd_where (\<lambda>y. s_id y = s_id x)
       (\<lambda>y. y\<lparr>s_deleted_at := Some now, s_status := CT_ARCHIVED\<rparr>) (sections s)\<rparr>)) (\<lambda>_.
     bind_tx (modify_tx (\<lambda>s. s\<lparr>lessons := upd_where (\<lambda>l. ls_section l = s_id x \<and> ls_deleted_at l = None)
       (archived_lesson now) (lessons s)\<rparr>)) (\<lambda>_.
     bind_tx (modify_tx (\<lambda>s. archive_videos (orphaned_videos (lessons_of_section (s_id x) s) s) now s)) (\<lambda>_.
     bind_tx (modify_tx (\<lambda>s. end_lesson_tickets (lessons_of_section (s_id x) s) ''Section deleted'' now s)) (\<lambda>_.
     move_sections (\<lambda>y. live_section (s_course x) y \<and> s_sort x < s_sort y) (\<lambda>v. v - 1)))))"

definition remove_section :: "(authoring_capability \<Rightarrow> bool) \<Rightarrow> time \<Rightarrow> id \<Rightarrow> id \<Rightarrow> user_role \<Rightarrow> nat db_call" where
  "remove_section teacher_may now i actor role =
     bind_c (require_section i) (\<lambda>x.
     bind_c (manages_content actor role (s_course x)) (\<lambda>_.
     bind_c (read_c (\<lambda>s. count_where (\<lambda>l. ls_section l = i \<and> ls_deleted_at l = None) (lessons s))) (\<lambda>live.
     bind_c (if 0 < live then check_c (assert_teacher_capability teacher_may role DELETE_LECTURES) else ret_c ()) (\<lambda>_.
     bind_c (read_c (\<lambda>s. count_where (\<lambda>w. wp_lesson w \<in> set (lessons_of_section i s)) (progress s))) (\<lambda>watched.
     bind_c (commit_c (remove_section_tx x now)) (\<lambda>_.
     bind_c (recount_course (s_course x)) (\<lambda>_.
     bind_c (content_audit actor ''DELETE'' ''course_section'' i) (\<lambda>_.
     ret_c watched))))))))"

section \<open>Lectures\<close>

definition require_lesson :: "id \<Rightarrow> lesson_row db_call" where
  "require_lesson i =
     bind_c (read_c (\<lambda>s. List.find (\<lambda>l. ls_id l = i \<and> ls_deleted_at l = None) (lessons s))) (\<lambda>found. the_c not_found found)"

definition live_lesson :: "id \<Rightarrow> lesson_row \<Rightarrow> bool" where
  "live_lesson sec l \<longleftrightarrow> ls_section l = sec \<and> ls_deleted_at l = None"

record lesson_input =
  li_sort :: "int option"
  li_preview :: "bool option"
  li_duration :: "int option"
  li_status :: "content_status option"
  li_rule :: "completion_rule option"
  li_threshold :: "int option"
  li_contiguous :: "bool option"

definition lesson_row_of :: "id \<Rightarrow> section_row \<Rightarrow> int \<Rightarrow> lesson_input \<Rightarrow> lesson_row" where
  "lesson_row_of i x v q =
     \<lparr>ls_id = i, ls_section = s_id x, ls_course = s_course x,
      ls_status = (case li_status q of None \<Rightarrow> CT_DRAFT | Some st \<Rightarrow> st), ls_sort = v,
      ls_preview = (case li_preview q of None \<Rightarrow> False | Some b \<Rightarrow> b),
      ls_duration = (case li_duration q of None \<Rightarrow> 0 | Some d \<Rightarrow> d), ls_rule = li_rule q,
      ls_threshold = li_threshold q, ls_contiguous = li_contiguous q, ls_deleted_at = None\<rparr>"

definition free_lesson_place :: "id \<Rightarrow> int option \<Rightarrow> unit dbtx" where
  "free_lesson_place sec wanted =
     (case wanted of
        None \<Rightarrow> ret_tx ()
      | Some v \<Rightarrow>
          bind_tx (get_tx (\<lambda>s. list_ex (\<lambda>l. lesson_place l = (sec, v)) (lessons s))) (\<lambda>occupied.
          bind_tx (require_tx (\<not> occupied) conflict) (\<lambda>_.
          bind_tx (move_lessons (\<lambda>l. live_lesson sec l \<and> v \<le> ls_sort l) (\<lambda>k. - (k + 1))) (\<lambda>_.
          move_lessons (\<lambda>l. live_lesson sec l \<and> ls_sort l < 0) (\<lambda>k. - k)))))"

definition create_lesson_tx :: "section_row \<Rightarrow> lesson_input \<Rightarrow> lesson_row dbtx" where
  "create_lesson_tx x q =
     bind_tx (get_tx (\<lambda>s. max (next_place (map ls_sort (filter (\<lambda>l. ls_section l = s_id x) (lessons s)))) 1)) (\<lambda>appended.
     let target = (case li_sort q of Some v \<Rightarrow> v | None \<Rightarrow> appended) in
     bind_tx (free_lesson_place (s_id x) (li_sort q)) (\<lambda>_.
     bind_tx fresh_id (\<lambda>i.
     bind_tx (get_tx (\<lambda>s. list_ex (\<lambda>l. lesson_place l = (s_id x, target)) (lessons s))) (\<lambda>taken.
     bind_tx (require_tx (\<not> taken) place_taken) (\<lambda>_.
     bind_tx (modify_tx (\<lambda>s. s\<lparr>lessons := lessons s @ [lesson_row_of i x target q]\<rparr>)) (\<lambda>_.
     ret_tx (lesson_row_of i x target q)))))))"

definition create_lesson :: "id \<Rightarrow> lesson_input \<Rightarrow> id \<Rightarrow> user_role \<Rightarrow> lesson_row db_call" where
  "create_lesson sec q actor role =
     bind_c (require_section sec) (\<lambda>x.
     bind_c (manages_content actor role (s_course x)) (\<lambda>_.
     bind_c (commit_c (create_lesson_tx x q)) (\<lambda>l.
     bind_c (recount_course (s_course x)) (\<lambda>_.
     bind_c (content_audit actor ''CREATE'' ''lesson'' (ls_id l)) (\<lambda>_.
     ret_c l)))))"

record lesson_edit =
  lx_title :: "string option"
  lx_preview :: "bool option"
  lx_status :: "content_status option"
  lx_duration :: "int option"
  lx_rule :: "completion_rule option"
  lx_threshold :: "int option"
  lx_contiguous :: "bool option"

definition keep_or :: "'a option \<Rightarrow> 'a \<Rightarrow> 'a" where
  "keep_or new old = (case new of None \<Rightarrow> old | Some x \<Rightarrow> x)"

definition edited_lesson :: "lesson_edit \<Rightarrow> lesson_row \<Rightarrow> lesson_row" where
  "edited_lesson q l =
     l\<lparr>ls_preview := keep_or (lx_preview q) (ls_preview l), ls_status := keep_or (lx_status q) (ls_status l),
       ls_duration := keep_or (lx_duration q) (ls_duration l),
       ls_rule := (case lx_rule q of None \<Rightarrow> ls_rule l | Some r \<Rightarrow> Some r),
       ls_threshold := (case lx_threshold q of None \<Rightarrow> ls_threshold l | Some t \<Rightarrow> Some t),
       ls_contiguous := (case lx_contiguous q of None \<Rightarrow> ls_contiguous l | Some b \<Rightarrow> Some b)\<rparr>"

definition edit_action :: "lesson_edit \<Rightarrow> lesson_row \<Rightarrow> string" where
  "edit_action q l =
     (case lx_status q of
        None \<Rightarrow> ''UPDATE''
      | Some st \<Rightarrow>
          if st = ls_status l then ''UPDATE''
          else if st = CT_ARCHIVED then ''ARCHIVE''
          else if ls_status l = CT_ARCHIVED then ''RESTORE''
          else ''UPDATE'')"

fun status_word :: "content_status \<Rightarrow> string" where
  "status_word CT_DRAFT = ''draft''"
| "status_word CT_PUBLISHED = ''published''"
| "status_word CT_HIDDEN = ''hidden''"
| "status_word CT_ARCHIVED = ''archived''"

definition update_lesson :: "time \<Rightarrow> id \<Rightarrow> lesson_edit \<Rightarrow> id \<Rightarrow> user_role \<Rightarrow> lesson_row db_call" where
  "update_lesson now i q actor role =
     bind_c (require_lesson i) (\<lambda>l.
     bind_c (manages_content actor role (ls_course l)) (\<lambda>_.
     bind_c (require_c (case lx_title q of None \<Rightarrow> True | Some t \<Rightarrow> js_trim t \<noteq> [])
       (validation [(''title'', [''title must not be empty''])])) (\<lambda>_.
     bind_c (write_c (\<lambda>s. s\<lparr>lessons := upd_where (\<lambda>y. ls_id y = i) (edited_lesson q) (lessons s)\<rparr>)) (\<lambda>_.
     bind_c (if ls_status l = CT_PUBLISHED \<and> ls_status (edited_lesson q l) \<noteq> CT_PUBLISHED
             then write_c (end_lesson_tickets [i] (''Lecture '' @ status_word (ls_status (edited_lesson q l))) now) else ret_c ()) (\<lambda>_.
     bind_c (recount_course (ls_course l)) (\<lambda>_.
     bind_c (content_audit actor (edit_action q l) ''lesson'' i) (\<lambda>_.
     ret_c (edited_lesson q l))))))))"

definition reorder_lessons_tx :: "id \<Rightarrow> id list \<Rightarrow> unit dbtx" where
  "reorder_lessons_tx sec ids =
     bind_tx (move_lessons (live_lesson sec) (\<lambda>v. - v - 1000)) (\<lambda>_.
     each_tx (\<lambda>(k, i). place_lesson i (int k + 1)) (enumerate 0 ids))"

definition reorder_lessons :: "id \<Rightarrow> id list \<Rightarrow> id \<Rightarrow> user_role \<Rightarrow> unit db_call" where
  "reorder_lessons sec ids actor role =
     bind_c (require_section sec) (\<lambda>x.
     bind_c (manages_content actor role (s_course x)) (\<lambda>_.
     bind_c (read_c (\<lambda>s. remdups (map ls_id (filter (live_lesson sec) (lessons s))))) (\<lambda>known.
     bind_c (require_c (length ids = length known \<and> list_all (\<lambda>i. i \<in> set known) ids)
       (validation [(''lessonIds'', [''must contain exactly the current lesson ids of this section''])])) (\<lambda>_.
     commit_c (reorder_lessons_tx sec ids)))))"

definition remove_lesson_tx :: "lesson_row \<Rightarrow> time \<Rightarrow> unit dbtx" where
  "remove_lesson_tx l now =
     bind_tx (modify_tx (\<lambda>s. s\<lparr>lessons := upd_where (\<lambda>y. ls_id y = ls_id l) (archived_lesson now) (lessons s)\<rparr>)) (\<lambda>_.
     bind_tx (modify_tx (\<lambda>s. archive_videos (orphaned_videos [ls_id l] s) now s)) (\<lambda>_.
     bind_tx (modify_tx (end_lesson_tickets [ls_id l] ''Lecture deleted'' now)) (\<lambda>_.
     move_lessons (\<lambda>y. ls_section y = ls_section l \<and> ls_deleted_at y \<noteq> None \<and> 0 \<le> ls_sort y) (\<lambda>v. - v - 1000))))"

definition remove_lesson :: "(authoring_capability \<Rightarrow> bool) \<Rightarrow> time \<Rightarrow> id \<Rightarrow> id \<Rightarrow> user_role \<Rightarrow> nat db_call" where
  "remove_lesson teacher_may now i actor role =
     bind_c (require_lesson i) (\<lambda>l.
     bind_c (manages_content actor role (ls_course l)) (\<lambda>_.
     bind_c (check_c (assert_teacher_capability teacher_may role DELETE_LECTURES)) (\<lambda>_.
     bind_c (read_c (\<lambda>s. count_where (\<lambda>w. wp_lesson w = i) (progress s))) (\<lambda>watched.
     bind_c (commit_c (remove_lesson_tx l now)) (\<lambda>_.
     bind_c (recount_course (ls_course l)) (\<lambda>_.
     bind_c (content_audit actor ''DELETE'' ''lesson'' i) (\<lambda>_.
     ret_c watched)))))))"

end
