(* ===== verification/AuthoringRules.thy ===== *)
theory AuthoringRules
  imports Authoring CallRules
begin

text \<open>
  Facts about editing a course. The counters on a course always describe its undeleted published
  content, in every sequence of edits; what removing a section or a lecture touches and what it leaves
  alone; and where the positions kept by deleted rows make an edit fail.
\<close>

section \<open>Moved rows\<close>

lemma moved_rows_Some: "moved_rows key P f xs rows = Some ys \<Longrightarrow> ys = xs @ upd_where P f rows"
  by (induction key P f xs rows rule: moved_rows.induct) (auto simp: upd_where_Cons split: if_splits)

lemma moved_rows_blocked:
  assumes "r \<in> set rows" "P r" "z \<in> set xs \<union> set rows" "\<not> P z" "key z = key (f r)"
  shows "moved_rows key P f xs rows = None"
  using assms
proof (induction key P f xs rows rule: moved_rows.induct)
  case (2 key P f xs r' rs)
  show ?case
  proof (cases "P r'")
    case True
    have "r = r' \<Longrightarrow> list_ex (\<lambda>x. key x = key (f r')) (xs @ rs)"
      using "2.prems" True by (auto simp: list_ex_iff)
    moreover have "r \<noteq> r' \<Longrightarrow> \<not> list_ex (\<lambda>x. key x = key (f r')) (xs @ rs) \<Longrightarrow> moved_rows key P f (xs @ [f r']) rs = None"
      using "2.IH"(2) "2.prems" True by auto
    ultimately show ?thesis using True by auto
  next
    case False
    with "2.prems" "2.IH"(1) show ?thesis by (cases "r = r'") auto
  qed
qed simp

lemma move_sections_Inr [result_simps]:
  "move_sections P f s = Inr (u, t) \<longleftrightarrow>
     moved_rows section_place P (\<lambda>x. x\<lparr>s_sort := f (s_sort x)\<rparr>) [] (sections s) \<noteq> None
     \<and> t = s\<lparr>sections := upd_where P (\<lambda>x. x\<lparr>s_sort := f (s_sort x)\<rparr>) (sections s)\<rparr>"
  by (auto simp: move_sections_def result_simps dest: moved_rows_Some split: option.splits)

lemma move_lessons_Inr [result_simps]:
  "move_lessons P f s = Inr (u, t) \<longleftrightarrow>
     moved_rows lesson_place P (\<lambda>x. x\<lparr>ls_sort := f (ls_sort x)\<rparr>) [] (lessons s) \<noteq> None
     \<and> t = s\<lparr>lessons := upd_where P (\<lambda>x. x\<lparr>ls_sort := f (ls_sort x)\<rparr>) (lessons s)\<rparr>"
  by (auto simp: move_lessons_def result_simps dest: moved_rows_Some split: option.splits)

section \<open>A section before another\<close>

lemma find_only_row:
  assumes "r \<in> set rows" "P r" "\<And>q. q \<in> set rows \<Longrightarrow> P q \<Longrightarrow> q = r"
  shows "List.find P rows = Some r"
proof (cases "List.find P rows")
  case None
  then show ?thesis using assms(1,2) by (simp add: find_None_iff)
next
  case (Some q)
  with find_Some [OF Some] assms(3) show ?thesis by blast
qed

lemma require_section_found:
  "require_section i s = (Inr x, t) \<longleftrightarrow> List.find (\<lambda>x. s_id x = i \<and> s_deleted_at x = None) (sections s) = Some x \<and> t = s"
  by (cases "List.find (\<lambda>x. s_id x = i \<and> s_deleted_at x = None) (sections s)") (auto simp: require_section_def)

lemma remove_section_tx_blocked:
  assumes "x \<in> set (sections s)" "y \<in> set (sections s)" "unique_on s_id (sections s)"
    and "live_section (s_course x) y" "s_sort y = s_sort x + 1"
  shows "\<exists>e. remove_section_tx x now s = Inl e"
proof (rule ccontr)
  let ?f = "\<lambda>y. y\<lparr>s_deleted_at := Some now, s_status := CT_ARCHIVED\<rparr>"
  let ?P = "\<lambda>y. live_section (s_course x) y \<and> s_sort x < s_sort y"
  let ?rows = "upd_where (\<lambda>y. s_id y = s_id x) ?f (sections s)"
  assume "\<nexists>e. remove_section_tx x now s = Inl e"
  then obtain u t where "remove_section_tx x now s = Inr (u, t)" by (cases "remove_section_tx x now s") auto
  then have "moved_rows section_place ?P (\<lambda>z. z\<lparr>s_sort := s_sort z - 1\<rparr>) [] ?rows \<noteq> None"
    by (auto simp: remove_section_tx_def result_simps archive_videos_def end_lesson_tickets_def)
  moreover have "s_id y \<noteq> s_id x"
  proof
    assume "s_id y = s_id x"
    then have "y = x" using assms(1-3) by (meson unique_onD)
    with assms(5) show False by simp
  qed
  then have "y \<in> set ?rows" "?f x \<in> set ?rows" using assms(1,2) by (auto simp: set_upd_where)
  then have "moved_rows section_place ?P (\<lambda>z. z\<lparr>s_sort := s_sort z - 1\<rparr>) [] ?rows = None"
    by (intro moved_rows_blocked [of y _ _ "?f x"]) (use assms(4,5) in \<open>auto simp: live_section_def section_place_def\<close>)
  ultimately show False by simp
qed

text \<open>C38: a section that is directly followed by another cannot be removed. The deleted row keeps its
  position, and closing the gap moves the next section onto it: the statement violates the index,
  the request fails and nothing is changed, whoever asks.\<close>

theorem followed_section_cannot_be_removed:
  assumes "x \<in> set (sections s)" "y \<in> set (sections s)" "unique_on s_id (sections s)"
    and "s_deleted_at x = None" "live_section (s_course x) y" "s_sort y = s_sort x + 1"
  shows "\<exists>e. remove_section teacher_may now (s_id x) actor role s = (Inl e, s)"
proof -
  have "List.find (\<lambda>z. s_id z = s_id x \<and> s_deleted_at z = None) (sections s) = Some x"
    by (rule find_only_row) (use assms(1,3,4) in \<open>auto dest: unique_onD\<close>)
  then have "require_section (s_id x) s = (Inr x, s)" by (simp add: require_section_found)
  moreover obtain e where "remove_section_tx x now s = Inl e" using remove_section_tx_blocked [OF assms(1-3,5,6)] by blast
  ultimately show ?thesis
    by (cases "assert_can_manage_course actor role (s_course x) CAP_CONTENT s";
        cases "assert_teacher_capability teacher_may role DELETE_LECTURES")
      (simp_all add: remove_section_def bind_c_step [of "require_section (s_id x)"] bind_c_def manages_content_def
        check_c_def commit_c_def)
qed

section \<open>Content apart from positions\<close>

definition unplaced_section :: "section_row \<Rightarrow> section_row" where
  "unplaced_section x = x\<lparr>s_sort := 0\<rparr>"

definition unplaced_lesson :: "lesson_row \<Rightarrow> lesson_row" where
  "unplaced_lesson l = l\<lparr>ls_sort := 0\<rparr>"

text \<open>Two states whose content differs in positions only.\<close>

definition content_like :: "db \<Rightarrow> db \<Rightarrow> bool" where
  "content_like s t \<longleftrightarrow> map unplaced_section (sections t) = map unplaced_section (sections s)
     \<and> map unplaced_lesson (lessons t) = map unplaced_lesson (lessons s) \<and> courses t = courses s \<and> db_next t = db_next s"

text \<open>The counters a course would get.\<close>

definition course_counts :: "id \<Rightarrow> db \<Rightarrow> nat \<times> nat \<times> int" where
  "course_counts course s = (count_sections course s, count_lessons course s, total_duration course s)"

lemma map_through:
  assumes "map g xs = map g ys" "\<And>x. f (g x) = f x"
  shows "map f xs = map f ys"
proof -
  have "map f zs = map f (map g zs)" for zs by (simp add: assms(2))
  then show ?thesis using assms(1) by metis
qed

lemma count_through:
  assumes "map g xs = map g ys" "\<And>x. P (g x) = P x"
  shows "count_where P xs = count_where P ys"
proof -
  have "count_where P zs = length (filter (\<lambda>b. b) (map P zs))" for zs by (induction zs) auto
  then show ?thesis using map_through [OF assms(1), of P, OF assms(2)] by metis
qed

lemma sum_through:
  assumes "map g xs = map g ys" "\<And>x. P (g x) = P x" "\<And>x. w (g x) = w x"
  shows "sum_where P w xs = sum_where P w ys"
proof -
  have "sum_where P w zs = sum_list (map (\<lambda>x. if P x then w x else 0) zs)" for zs by (induction zs) auto
  then show ?thesis using map_through [OF assms(1), of "\<lambda>x. if P x then w x else 0"] assms(2,3) by simp
qed

lemma content_like_counts: "content_like s t \<Longrightarrow> course_counts course t = course_counts course s"
  unfolding course_counts_def count_sections_def count_lessons_def total_duration_def content_like_def
  using count_through [of unplaced_section "sections t" "sections s" "\<lambda>x. s_course x = course \<and> s_deleted_at x = None \<and> s_status x = CT_PUBLISHED"]
    count_through [of unplaced_lesson "lessons t" "lessons s" "counted_lesson course"]
    sum_through [of unplaced_lesson "lessons t" "lessons s" "counted_lesson course" ls_duration]
  by (simp add: unplaced_section_def unplaced_lesson_def counted_lesson_def)

text \<open>Every lecture is in a section of its course, and identifiers come from the counter.\<close>

definition content_ok :: "db \<Rightarrow> bool" where
  "content_ok s \<longleftrightarrow>
     (\<forall>l \<in> set (lessons s). ls_section l < db_next s \<and> ls_id l < db_next s)
     \<and> unique_on ls_id (lessons s) \<and> unique_on s_id (sections s) \<and> (\<forall>x \<in> set (sections s). s_id x < db_next s)
     \<and> (\<forall>l \<in> set (lessons s). \<forall>x \<in> set (sections s). ls_section l = s_id x \<longrightarrow> ls_course l = s_course x)"

lemma content_like_ok:
  assumes "content_like s t" "content_ok s"
  shows "content_ok t"
proof -
  let ?l = "\<lambda>l. (ls_id l, ls_section l, ls_course l)" and ?x = "\<lambda>x. (s_id x, s_course x)"
  have "map ?l (lessons t) = map ?l (lessons s)" "map ?x (sections t) = map ?x (sections s)"
    "map ls_id (lessons t) = map ls_id (lessons s)" "map s_id (sections t) = map s_id (sections s)"
    using assms(1) map_through [of unplaced_lesson "lessons t" "lessons s" ?l]
      map_through [of unplaced_lesson "lessons t" "lessons s" ls_id]
      map_through [of unplaced_section "sections t" "sections s" ?x]
      map_through [of unplaced_section "sections t" "sections s" s_id]
    by (simp_all add: content_like_def unplaced_section_def unplaced_lesson_def)
  then have l: "?l ` set (lessons t) = ?l ` set (lessons s)" and x: "?x ` set (sections t) = ?x ` set (sections s)"
    and ids: "unique_on ls_id (lessons t) = unique_on ls_id (lessons s)" "unique_on s_id (sections t) = unique_on s_id (sections s)"
    by (simp_all only: unique_on_def list.set_map [symmetric])
  have "db_next t = db_next s" using assms(1) by (simp add: content_like_def)
  moreover have "\<forall>(j, d) \<in> ?x ` set (sections t). j < db_next s"
    unfolding x using assms(2) by (auto simp: content_ok_def)
  moreover have "\<forall>(i, sec, c) \<in> ?l ` set (lessons t). sec < db_next s \<and> i < db_next s
      \<and> (\<forall>(j, d) \<in> ?x ` set (sections t). sec = j \<longrightarrow> c = d)"
    unfolding l x using assms(2) by (auto simp: content_ok_def)
  ultimately show ?thesis using assms(2) ids by (auto simp: content_ok_def)
qed

lemma content_like_refl [simp]: "content_like s s"
  by (simp add: content_like_def)

lemma content_like_trans: "content_like s t \<Longrightarrow> content_like t u \<Longrightarrow> content_like s u"
  by (simp add: content_like_def)

lemma moved_content:
  "move_sections P f s = Inr (u, t) \<Longrightarrow> content_like s t"
  "move_lessons Q f s = Inr (u, t) \<Longrightarrow> content_like s t"
  "place_section i v s = Inr (u, t) \<Longrightarrow> content_like s t"
  "place_lesson i v s = Inr (u, t) \<Longrightarrow> content_like s t"
  by (auto simp: move_sections_Inr move_lessons_Inr place_section_def place_lesson_def result_simps the_or_Inr_iff content_like_def
      unplaced_section_def unplaced_lesson_def upd_where_def)

lemma reordered_content:
  "reorder_sections_tx course ids s = Inr (u, t) \<Longrightarrow> content_like s t"
  "reorder_lessons_tx sec ids s = Inr (u, t) \<Longrightarrow> content_like s t"
  unfolding reorder_sections_tx_def reorder_lessons_tx_def bind_tx_Inr_iff
  by (auto dest!: moved_content elim!: each_tx_invariant [where Q = "content_like s"]
      intro: content_like_trans moved_content split: prod.splits)

section \<open>Counters\<close>

lemma counters_true_counts:
  "counters_true s \<longleftrightarrow> (\<forall>c \<in> set (courses s). (c_section_count c, c_lesson_count c, c_total_duration c) = course_counts (c_id c) s)"
  by (auto simp: counters_true_def course_counts_def)

text \<open>A change of content of some courses, and what is to be recounted after it.\<close>

definition counts_changed :: "id set \<Rightarrow> db \<Rightarrow> db \<Rightarrow> bool" where
  "counts_changed cs s t \<longleftrightarrow> courses t = courses s \<and> (\<forall>c. c \<notin> cs \<longrightarrow> course_counts c t = course_counts c s)"

definition counters_due :: "id set \<Rightarrow> db \<Rightarrow> bool" where
  "counters_due cs s \<longleftrightarrow> (\<forall>c \<in> set (courses s). c_id c \<notin> cs \<longrightarrow>
     (c_section_count c, c_lesson_count c, c_total_duration c) = course_counts (c_id c) s)"

lemma counters_due_none [simp]: "counters_due {} s = counters_true s"
  by (simp add: counters_due_def counters_true_counts)

lemma counters_due_mono: "counters_due cs s \<Longrightarrow> cs \<subseteq> ds \<Longrightarrow> counters_due ds s"
  by (auto simp: counters_due_def)

lemma counts_changed_due: "counters_due cs s \<Longrightarrow> counts_changed ds s t \<Longrightarrow> counters_due (cs \<union> ds) t"
  by (auto simp: counters_due_def counts_changed_def)

lemma counts_frame [simp]:
  "course_counts c (s\<lparr>audit := a\<rparr>) = course_counts c s"
  "course_counts c (s\<lparr>courses := xs\<rparr>) = course_counts c s"
  "course_counts c (s\<lparr>lesson_videos := lvs\<rparr>) = course_counts c s"
  "course_counts c (s\<lparr>videos := vs\<rparr>) = course_counts c s"
  "course_counts c (s\<lparr>tickets := ts\<rparr>) = course_counts c s"
  by (simp_all add: course_counts_def count_sections_def count_lessons_def total_duration_def)

lemma due_frame [simp]: "counters_due cs (s\<lparr>audit := a\<rparr>) = counters_due cs s" "content_ok (s\<lparr>audit := a\<rparr>) = content_ok s"
  by (simp_all add: counters_due_def content_ok_def)

lemma recount_cases:
  "snd (recount_course course s) = s \<and> (\<forall>c \<in> set (courses s). c_id c \<noteq> course)
   \<or> snd (recount_course course s) = s\<lparr>courses := upd_where (\<lambda>c. c_id c = course)
       (\<lambda>c. c\<lparr>c_section_count := count_sections course s, c_lesson_count := count_lessons course s,
          c_total_duration := total_duration course s\<rparr>) (courses s)\<rparr>"
  by (cases "find_by c_id course (courses s)")
    (auto simp: recount_course_def bind_c_def read_c_def require_c_def write_c_def find_by_None_iff)

lemma recount_restores:
  assumes "counters_due cs s"
  shows "counters_due (cs - {course}) (snd (recount_course course s))"
  using recount_cases [of course s]
proof
  let ?f = "\<lambda>c. c\<lparr>c_section_count := count_sections course s, c_lesson_count := count_lessons course s,
      c_total_duration := total_duration course s\<rparr>"
  assume t: "snd (recount_course course s) = s\<lparr>courses := upd_where (\<lambda>c. c_id c = course) ?f (courses s)\<rparr>"
  show ?thesis unfolding counters_due_def
  proof (intro ballI impI)
    fix c
    assume c: "c \<in> set (courses (snd (recount_course course s)))" and other: "c_id c \<notin> cs - {course}"
    from c have "c \<in> set (upd_where (\<lambda>c. c_id c = course) ?f (courses s))" by (simp add: t)
    from upd_where_elem [OF this] obtain w where w: "w \<in> set (courses s)" "c = (if c_id w = course then ?f w else w)"
      by blast
    show "(c_section_count c, c_lesson_count c, c_total_duration c) = course_counts (c_id c) (snd (recount_course course s))"
    proof (cases "c_id w = course")
      case True
      with w(2) show ?thesis by (simp add: t) (simp add: course_counts_def)
    next
      case False
      then have "c = w" "c_id w \<notin> cs" using w(2) other by simp_all
      with w(1) assms show ?thesis by (simp add: t counters_due_def)
    qed
  qed
qed (use assms in \<open>auto simp: counters_due_def\<close>)

lemma recount_content: "content_ok (snd (recount_course course s)) = content_ok s"
  using recount_cases [of course s] by (auto simp: content_ok_def)

definition content_inv :: "db \<Rightarrow> bool" where
  "content_inv s \<longleftrightarrow> counters_true s \<and> content_ok s"

lemma content_inv_audit [simp]: "content_inv (s\<lparr>audit := a\<rparr>) = content_inv s"
  unfolding content_inv_def counters_due_none [symmetric] by simp

text \<open>A commit that changes one course, its recount and what follows.\<close>

lemma leaves_recount [leaving]:
  assumes "counters_due {course} s" "content_ok s" "\<And>t. content_inv t \<Longrightarrow> leaves content_inv (f ()) t"
  shows "leaves content_inv (bind_c (recount_course course) f) s"
proof -
  have inv: "content_inv (snd (recount_course course s))"
    using recount_restores [OF assms(1), of course] assms(2) by (simp add: content_inv_def recount_content)
  obtain r t where r: "recount_course course s = (r, t)" by (cases "recount_course course s")
  then show ?thesis using inv assms(3) [of t] by (cases r) (simp_all add: leaves_def bind_c_def)
qed

lemma leaves_content_audit [leaving]:
  "content_inv s \<Longrightarrow> (\<And>t. content_inv t \<Longrightarrow> leaves content_inv (f ()) t) \<Longrightarrow> leaves content_inv (bind_c (content_audit actor a e i) f) s"
  by (simp add: leaves_def content_audit_def)

lemma leaves_manages [leaving]: "Q s \<Longrightarrow> leaves Q (f ()) s \<Longrightarrow> leaves Q (bind_c (manages_content actor role course) f) s"
  by (auto simp: leaves_def manages_content_def bind_c_def split: sum.splits)

lemma leaves_check [leaving]: "Q s \<Longrightarrow> (\<And>x. r = Inr x \<Longrightarrow> leaves Q (f x) s) \<Longrightarrow> leaves Q (bind_c (check_c r) f) s"
  by (cases r) (simp_all add: leaves_def check_c_def bind_c_def)

lemma leaves_check_last [leaving]: "Q s \<Longrightarrow> leaves Q (check_c r) s"
  by (simp add: leaves_def check_c_def)

lemma leaves_find_section [leaving]:
  "Q s \<Longrightarrow> (\<And>x. x \<in> set (sections s) \<Longrightarrow> s_id x = i \<Longrightarrow> leaves Q (f x) s) \<Longrightarrow> leaves Q (bind_c (require_section i) f) s"
  by (cases "List.find (\<lambda>x. s_id x = i \<and> s_deleted_at x = None) (sections s)")
    (auto simp: leaves_def require_section_def bind_c_def the_c_def read_c_def dest!: find_Some)

lemma leaves_find_lesson [leaving]:
  "Q s \<Longrightarrow> (\<And>l. l \<in> set (lessons s) \<Longrightarrow> ls_id l = i \<Longrightarrow> leaves Q (f l) s) \<Longrightarrow> leaves Q (bind_c (require_lesson i) f) s"
  by (cases "List.find (\<lambda>x. ls_id x = i \<and> ls_deleted_at x = None) (lessons s)")
    (auto simp: leaves_def require_lesson_def bind_c_def the_c_def read_c_def dest!: find_Some)

section \<open>The edits keep the counters\<close>

lemma count_elsewhere:
  "(\<And>r. r \<in> set rows \<Longrightarrow> Q r \<Longrightarrow> \<not> P r \<and> \<not> P (f r)) \<Longrightarrow> count_where P (upd_where Q f rows) = count_where P rows"
  "(\<And>r. r \<in> set rows \<Longrightarrow> Q r \<Longrightarrow> \<not> P r \<and> \<not> P (f r)) \<Longrightarrow> sum_where P w (upd_where Q f rows) = sum_where P w rows"
  by (induction rows) (auto simp: upd_where_Cons)

lemma content_like_changed: "content_like s t \<Longrightarrow> counts_changed cs s t"
  by (simp add: counts_changed_def content_like_counts) (simp add: content_like_def)

lemma counts_changed_trans: "counts_changed cs s t \<Longrightarrow> counts_changed cs t u \<Longrightarrow> counts_changed cs s u"
  by (simp add: counts_changed_def)

lemma sections_changed:
  assumes "\<And>x. x \<in> set (sections s) \<Longrightarrow> Q x \<Longrightarrow> s_course x = course" "\<And>x. s_course (f x) = s_course x"
  shows "counts_changed {course} s (s\<lparr>sections := upd_where Q f (sections s)\<rparr>)"
  using assms by (auto simp: counts_changed_def course_counts_def count_sections_def count_lessons_def total_duration_def
      intro!: count_elsewhere)

lemma lessons_changed:
  assumes "\<And>l. l \<in> set (lessons s) \<Longrightarrow> Q l \<Longrightarrow> ls_course l \<in> cs" "\<And>l. ls_course (f l) = ls_course l"
  shows "counts_changed cs s (s\<lparr>lessons := upd_where Q f (lessons s)\<rparr>)"
  using assms by (auto simp: counts_changed_def course_counts_def count_sections_def count_lessons_def total_duration_def
      counted_lesson_def intro!: count_elsewhere)

lemma rows_added:
  "s_course x = course \<Longrightarrow> counts_changed {course} s (s\<lparr>db_next := n, sections := sections s @ [x]\<rparr>)"
  "ls_course l = course \<Longrightarrow> counts_changed {course} s (s\<lparr>db_next := n, lessons := lessons s @ [l]\<rparr>)"
  by (auto simp: counts_changed_def course_counts_def count_sections_def count_lessons_def total_duration_def
      counted_lesson_def table_simps)

lemma section_edit_ok:
  assumes "content_ok s" "\<And>x. s_id (f x) = s_id x" "\<And>x. s_course (f x) = s_course x"
  shows "content_ok (s\<lparr>sections := upd_where Q f (sections s)\<rparr>)"
proof -
  have "map s_id (upd_where Q f (sections s)) = map s_id (sections s)" by (simp add: upd_where_def assms(2))
  then show ?thesis using assms by (auto simp: content_ok_def unique_on_def dest!: upd_where_elem split: if_splits)
qed

lemma lesson_edit_ok:
  assumes "content_ok s" "\<And>l. ls_id (f l) = ls_id l" "\<And>l. ls_course (f l) = ls_course l" "\<And>l. ls_section (f l) = ls_section l"
  shows "content_ok (s\<lparr>lessons := upd_where Q f (lessons s)\<rparr>)"
proof -
  have "map ls_id (upd_where Q f (lessons s)) = map ls_id (lessons s)" by (simp add: upd_where_def assms(2))
  then show ?thesis using assms by (auto simp: content_ok_def unique_on_def dest!: upd_where_elem split: if_splits)
qed

lemma freed_content:
  "free_section_place course wanted s = Inr (r, t) \<Longrightarrow> content_like s t"
  "free_lesson_place sec wanted s = Inr (r, t) \<Longrightarrow> content_like s t"
  unfolding free_section_place_def free_lesson_place_def
  by (cases wanted; auto simp: bind_tx_Inr_iff require_tx_Inr_iff dest!: moved_content intro: content_like_trans)+

lemma create_section_changes:
  assumes "create_section_tx course q s = Inr (x, t)" "content_ok s"
  shows "counts_changed {course} s t \<and> content_ok t"
proof -
  obtain u v where u: "content_like s u"
    and t: "t = u\<lparr>db_next := Suc (db_next u), sections := sections u @ [section_row_of (db_next u) course v q]\<rparr>"
    using assms(1) unfolding create_section_tx_def Let_def
    by (auto simp: bind_tx_Inr_iff require_tx_Inr_iff dest!: freed_content)
  have ok: "content_ok u" by (rule content_like_ok [OF u assms(2)])
  let ?x = "section_row_of (db_next u) course v q"
  have "counts_changed {course} u t" unfolding t by (rule rows_added(1)) (simp add: section_row_of_def)
  moreover have "content_ok t"
    using ok unfolding t by (auto simp: content_ok_def section_row_of_def unique_on_def less_Suc_eq)
  ultimately show ?thesis using counts_changed_trans [OF content_like_changed [OF u]] by blast
qed

lemma create_lesson_changes:
  assumes "create_lesson_tx x q s = Inr (l, t)" "content_ok s" "x \<in> set (sections s)"
  shows "counts_changed {s_course x} s t \<and> content_ok t"
proof -
  obtain u v where u: "content_like s u"
    and t: "t = u\<lparr>db_next := Suc (db_next u), lessons := lessons u @ [lesson_row_of (db_next u) x v q]\<rparr>"
    using assms(1) unfolding create_lesson_tx_def Let_def
    by (auto simp: bind_tx_Inr_iff require_tx_Inr_iff dest!: freed_content)
  have ok: "content_ok u" by (rule content_like_ok [OF u assms(2)])
  let ?x = "\<lambda>x. (s_id x, s_course x)"
  have "map ?x (sections u) = map ?x (sections s)"
    using u map_through [of unplaced_section "sections u" "sections s" ?x] by (simp add: content_like_def unplaced_section_def)
  then have "?x ` set (sections u) = ?x ` set (sections s)" by (simp only: list.set_map [symmetric])
  moreover have "(s_id x, s_course x) \<in> ?x ` set (sections s)" using assms(3) by blast
  ultimately have "(s_id x, s_course x) \<in> ?x ` set (sections u)" by simp
  then obtain y where y: "y \<in> set (sections u)" "s_id y = s_id x" "s_course y = s_course x" by auto
  have z: "\<forall>z \<in> set (sections u). s_id x = s_id z \<longrightarrow> s_course x = s_course z"
    using ok y unfolding content_ok_def by (metis unique_onD)
  have lt: "s_id x < db_next u" using ok y(1) unfolding content_ok_def by (simp add: y(2) [symmetric])
  have "counts_changed {s_course x} u t" unfolding t by (rule rows_added(2)) (simp add: lesson_row_of_def)
  moreover have "content_ok t"
    using ok z lt unfolding t by (auto simp: content_ok_def lesson_row_of_def unique_on_def less_Suc_eq)
  ultimately show ?thesis using counts_changed_trans [OF content_like_changed [OF u]] by blast
qed

lemma remove_section_changes:
  assumes "remove_section_tx x now s = Inr (u, t)" "content_ok s" "x \<in> set (sections s)"
  shows "counts_changed {s_course x} s t \<and> content_ok t"
proof -
  let ?f = "\<lambda>y. y\<lparr>s_deleted_at := Some now, s_status := CT_ARCHIVED\<rparr>"
  let ?a = "s\<lparr>sections := upd_where (\<lambda>y. s_id y = s_id x) ?f (sections s)\<rparr>"
  let ?b = "?a\<lparr>lessons := upd_where (\<lambda>l. ls_section l = s_id x \<and> ls_deleted_at l = None) (archived_lesson now) (lessons ?a)\<rparr>"
  obtain vs ts where "content_like (?b\<lparr>videos := vs, tickets := ts\<rparr>) t"
    using assms(1) unfolding remove_section_tx_def archive_videos_def end_lesson_tickets_def
    by (auto simp: bind_tx_Inr_iff dest!: moved_content)
  then have bt: "content_like ?b t" by (simp add: content_like_def)
  have "content_ok ?a" by (rule section_edit_ok [OF assms(2)]) simp_all
  then have b: "content_ok ?b" by (rule lesson_edit_ok) (simp_all add: archived_lesson_def)
  have "counts_changed {s_course x} s ?a"
    by (rule sections_changed) (use assms(2,3) in \<open>auto simp: content_ok_def dest: unique_onD\<close>)
  moreover have "counts_changed {s_course x} ?a ?b"
    by (rule lessons_changed) (use assms(2,3) in \<open>auto simp: content_ok_def archived_lesson_def\<close>)
  ultimately show ?thesis
    using content_like_ok [OF bt b] content_like_changed [OF bt] counts_changed_trans by blast
qed

lemma remove_lesson_changes:
  assumes "remove_lesson_tx l now s = Inr (u, t)" "content_ok s" "l \<in> set (lessons s)"
  shows "counts_changed {ls_course l} s t \<and> content_ok t"
proof -
  let ?a = "s\<lparr>lessons := upd_where (\<lambda>y. ls_id y = ls_id l) (archived_lesson now) (lessons s)\<rparr>"
  obtain vs ts where "content_like (?a\<lparr>videos := vs, tickets := ts\<rparr>) t"
    using assms(1) unfolding remove_lesson_tx_def archive_videos_def end_lesson_tickets_def
    by (auto simp: bind_tx_Inr_iff dest!: moved_content)
  then have at: "content_like ?a t" by (simp add: content_like_def)
  have a: "content_ok ?a" by (rule lesson_edit_ok [OF assms(2)]) (simp_all add: archived_lesson_def)
  have "counts_changed {ls_course l} s ?a"
    by (rule lessons_changed) (use assms(2,3) in \<open>auto simp: content_ok_def archived_lesson_def dest: unique_onD\<close>)
  then show ?thesis
    using content_like_ok [OF at a] content_like_changed [OF at] counts_changed_trans by blast
qed

lemma due_after:
  "content_inv s \<Longrightarrow> counts_changed {c} s t \<Longrightarrow> counters_due {c} t"
  using counts_changed_due [of "{}" s "{c}" t] by (simp add: content_inv_def)

lemma create_section_inv: "content_inv s \<Longrightarrow> content_inv (snd (create_section course q actor role s))"
  unfolding create_section_def
  by (rule leavesD) (intro leaving; auto intro: due_after dest!: create_section_changes simp: content_inv_def; fail)

lemma update_section_inv: "content_inv s \<Longrightarrow> content_inv (snd (update_section i q actor role s))"
proof -
  assume s: "content_inv s"
  let ?t = "s\<lparr>sections := upd_where (\<lambda>y. s_id y = i) (edited_section q) (sections s)\<rparr>"
  have ok: "content_ok ?t" by (rule section_edit_ok) (use s in \<open>simp_all add: content_inv_def edited_section_def\<close>)
  have due: "counters_due {s_course x} ?t" if "x \<in> set (sections s)" "s_id x = i" for x
    by (rule due_after [OF s sections_changed]) (use s that in \<open>auto simp: content_inv_def content_ok_def edited_section_def dest: unique_onD\<close>)
  have same: "course_counts c ?t = course_counts c s" if "sx_status q = None" for c
    using that by (auto simp: course_counts_def count_sections_def count_lessons_def total_duration_def edited_section_def
        count_where_def upd_where_def filter_map comp_def intro!: arg_cong [where f = length] filter_cong)
  have "content_inv ?t" if "sx_status q = None"
    using s ok same [OF that] by (simp add: content_inv_def counters_true_counts)
  with ok due s show ?thesis unfolding update_section_def
    by - (rule leavesD, intro leaving; auto)
qed

lemma reorder_inv:
  "content_inv s \<Longrightarrow> content_like s t \<Longrightarrow> content_inv t"
  using content_like_ok [of s t] by (simp add: content_inv_def counters_true_counts content_like_counts) (simp add: content_like_def)

lemma leaves_list_for_course [leaving]: "Q s \<Longrightarrow> leaves Q (list_for_course course actor) s"
  unfolding list_for_course_def by (intro leaving; assumption)

lemma reorder_sections_inv: "content_inv s \<Longrightarrow> content_inv (snd (reorder_sections course ids actor role s))"
  unfolding reorder_sections_def
  by (rule leavesD) (intro leaving; auto intro: reorder_inv dest!: reordered_content; fail)

lemma remove_section_inv: "content_inv s \<Longrightarrow> content_inv (snd (remove_section teacher_may now i actor role s))"
  unfolding remove_section_def
  by (rule leavesD) (intro leaving; auto intro: due_after dest!: remove_section_changes simp: content_inv_def; fail)

lemma create_lesson_inv: "content_inv s \<Longrightarrow> content_inv (snd (create_lesson sec q actor role s))"
  unfolding create_lesson_def
  by (rule leavesD) (intro leaving; auto intro: due_after dest!: create_lesson_changes simp: content_inv_def; fail)

lemma remove_lesson_inv: "content_inv s \<Longrightarrow> content_inv (snd (remove_lesson teacher_may now i actor role s))"
  unfolding remove_lesson_def
  by (rule leavesD) (intro leaving; auto intro: due_after dest!: remove_lesson_changes simp: content_inv_def; fail)

lemma reorder_lessons_inv: "content_inv s \<Longrightarrow> content_inv (snd (reorder_lessons sec ids actor role s))"
  unfolding reorder_lessons_def
  by (rule leavesD) (intro leaving; auto intro: reorder_inv dest!: reordered_content; fail)

lemma tickets_irrelevant [simp]:
  "counters_due cs (end_lesson_tickets ids why now s) = counters_due cs s"
  "content_ok (end_lesson_tickets ids why now s) = content_ok s"
  by (simp_all add: counters_due_def content_ok_def end_lesson_tickets_def)

lemma update_lesson_inv: "content_inv s \<Longrightarrow> content_inv (snd (update_lesson now i q actor role s))"
proof -
  assume s: "content_inv s"
  let ?t = "s\<lparr>lessons := upd_where (\<lambda>y. ls_id y = i) (edited_lesson q) (lessons s)\<rparr>"
  have ok: "content_ok ?t" by (rule lesson_edit_ok) (use s in \<open>simp_all add: content_inv_def edited_lesson_def\<close>)
  have due: "counters_due {ls_course x} ?t" if "x \<in> set (lessons s)" "ls_id x = i" for x
    by (rule due_after [OF s lessons_changed]) (use s that in \<open>auto simp: content_inv_def content_ok_def edited_lesson_def dest: unique_onD\<close>)
  with ok s show ?thesis unfolding update_lesson_def
    by - (rule leavesD, intro leaving; auto)
qed

section \<open>Attached videos keep the counters\<close>

lemma recount_all:
  "counters_due cs s \<Longrightarrow> content_ok s \<Longrightarrow>
     \<exists>t. each_c (\<lambda>c. try_c (recount_course c)) touched s = (Inr (), t) \<and> counters_due (cs - set touched) t \<and> content_ok t"
proof (induction touched arbitrary: cs s)
  case (Cons c touched)
  let ?t = "snd (recount_course c s)"
  have "counters_due (cs - {c}) ?t" "content_ok ?t"
    using recount_restores [OF Cons.prems(1), of c] Cons.prems(2) by (simp_all add: recount_content)
  from Cons.IH [OF this] show ?case by (auto simp: bind_c_def try_c_def Diff_insert2 [symmetric])
qed simp

lemma durations_changed:
  assumes "content_ok s"
  shows "counts_changed (set (courses_of_links owner links s)) s (set_durations (map lv_lesson links) d s)"
  unfolding set_durations_def
proof (rule lessons_changed)
  fix l
  assume l: "l \<in> set (lessons s)" and "ls_id l \<in> set (map lv_lesson links)"
  then obtain x where x: "x \<in> set links" "lv_lesson x = ls_id l" by auto
  have "find_by ls_id (ls_id l) (lessons s) = Some l"
    using assms l by (simp add: content_ok_def find_by_unique)
  then have "course_of_lesson s (lv_lesson x) = Some (ls_course l)" by (simp add: course_of_lesson_def x(2))
  with x(1) show "ls_course l \<in> set (courses_of_links owner links s)"
    by (force simp: courses_of_links_def List.map_filter_def)
qed simp

lemma course_of_lesson_frame: "course_of_lesson (set_durations ids d s) = course_of_lesson s"
proof
  fix lesson
  have "find_by ls_id lesson (upd_where P (\<lambda>l. l\<lparr>ls_duration := d\<rparr>) rows)
      = map_option (\<lambda>l. if P l then l\<lparr>ls_duration := d\<rparr> else l) (find_by ls_id lesson rows)" for P and rows :: "lesson_row list"
    by (induction rows) (auto simp: upd_where_Cons)
  then show "course_of_lesson (set_durations ids d s) lesson = course_of_lesson s lesson"
    by (cases "find_by ls_id lesson (lessons s)") (simp_all add: course_of_lesson_def set_durations_def)
qed

lemma propagate_inv:
  assumes "content_inv s"
  shows "content_inv (snd (propagate_duration video override s))"
proof (cases "find_by vd_id video (videos s)")
  case (Some v)
  define d where "d = (case override of Some d \<Rightarrow> d | None \<Rightarrow> vd_duration v)"
  define links where "links = links_of_video video s"
  show ?thesis
  proof (cases "d \<le> 0 \<or> links = []")
    case False
    define t where "t = set_durations (map lv_lesson links) d s"
    define touched where "touched = courses_of_links (vd_course v) links t"
    have touched: "touched = courses_of_links (vd_course v) links s"
      by (simp add: touched_def courses_of_links_def t_def course_of_lesson_frame)
    have "counts_changed (set touched) s t" unfolding touched t_def
      using assms by (intro durations_changed) (simp add: content_inv_def)
    then have due: "counters_due (set touched) t"
      using counts_changed_due [of "{}" s] assms by (simp add: content_inv_def)
    have ok: "content_ok t" unfolding t_def set_durations_def
      by (rule lesson_edit_ok) (use assms in \<open>simp_all add: content_inv_def\<close>)
    obtain w where w: "each_c (\<lambda>c. try_c (recount_course c)) touched t = (Inr (), w)" "content_inv w"
      using recount_all [OF due ok, of touched] by (auto simp: content_inv_def)
    have "propagate_duration video override s = (Inr (length links), w)"
      using Some False w(1) by (simp add: propagate_duration_def d_def [symmetric] links_def [symmetric] Let_def
          t_def [symmetric] touched_def [symmetric] bind_c_step [of "each_c _ _"])
    with w(2) show ?thesis by simp
  qed (use Some assms in \<open>auto simp: propagate_duration_def d_def links_def Let_def\<close>)
qed (use assms in \<open>simp add: propagate_duration_def\<close>)

lemma links_irrelevant [simp]: "content_inv (s\<lparr>lesson_videos := xs\<rparr>) = content_inv s"
  by (simp add: content_inv_def counters_true_counts content_ok_def)

lemma leaves_propagate [leaving]:
  "content_inv s \<Longrightarrow> (\<And>n t. content_inv t \<Longrightarrow> leaves content_inv (f n) t) \<Longrightarrow> leaves content_inv (bind_c (propagate_duration video override) f) s"
  by (rule leaves_then) (metis leaves_def propagate_inv, metis propagate_inv snd_conv)

lemma leaves_nested: "leaves Q (bind_c m (\<lambda>x. bind_c (k x) f)) s \<Longrightarrow> leaves Q (bind_c (bind_c m k) f) s"
  by (simp add: leaves_def bind_c_def split: prod.splits sum.splits)

lemma attach_inv: "content_inv s \<Longrightarrow> content_inv (snd (attach_video lesson video actor now s))"
  unfolding attach_video_def
  by (rule leavesD, rule leaves_read, simp only: prod.case)
    (intro leaving leaves_nested; simp add: case_prod_beta leaves_def)

lemma detach_inv: "content_inv s \<Longrightarrow> content_inv (snd (detach_video lesson video s))"
  by (simp add: detach_video_def)

section \<open>Every sequence of edits\<close>

text \<open>A request of the staff, run to its end whatever it answers.\<close>

inductive authoring_step :: "db \<Rightarrow> db \<Rightarrow> bool" where
  makes_section: "authoring_step s (snd (create_section course qs actor role s))"
| edits_section: "authoring_step s (snd (update_section i qe actor role s))"
| orders_sections: "authoring_step s (snd (reorder_sections course ids actor role s))"
| drops_section: "authoring_step s (snd (remove_section teacher_may now i actor role s))"
| makes_lesson: "authoring_step s (snd (create_lesson sec ql actor role s))"
| edits_lesson: "authoring_step s (snd (update_lesson now i qx actor role s))"
| orders_lessons: "authoring_step s (snd (reorder_lessons sec ids actor role s))"
| drops_lesson: "authoring_step s (snd (remove_lesson teacher_may now i actor role s))"
| attaches: "authoring_step s (snd (attach_video lesson video actor now s))"
| detaches: "authoring_step s (snd (detach_video lesson video s))"
| measures: "authoring_step s (snd (propagate_duration video override s))"

text \<open>Courses before their first section.\<close>

definition authoring_start :: "db \<Rightarrow> bool" where
  "authoring_start s \<longleftrightarrow> sections s = [] \<and> lessons s = []
     \<and> (\<forall>c \<in> set (courses s). c_section_count c = 0 \<and> c_lesson_count c = 0 \<and> c_total_duration c = 0)"

lemma authoring_start_inv: "authoring_start s \<Longrightarrow> content_inv s"
  by (simp add: authoring_start_def content_inv_def content_ok_def counters_true_def count_sections_def
      count_lessons_def total_duration_def)

lemmas edits_inv = create_section_inv update_section_inv reorder_sections_inv remove_section_inv create_lesson_inv
  update_lesson_inv reorder_lessons_inv remove_lesson_inv attach_inv detach_inv propagate_inv

lemma authoring_step_inv: "authoring_step s t \<Longrightarrow> content_inv s \<Longrightarrow> content_inv t"
  by (induction rule: authoring_step.induct) (auto intro: edits_inv)

interpretation authoring: invariant_system authoring_start authoring_step content_inv
  by unfold_locales (auto intro: authoring_start_inv authoring_step_inv)

text \<open>C39: after every sequence of edits of sections and lectures, attachments and measured lengths, in any
  order, by anyone, whether they succeed or fail, the counters stored on each course are those of its
  undeleted published sections and lectures.\<close>

theorem counters_stay_true:
  assumes "authoring_start s" "authoring_step\<^sup>*\<^sup>* s t" "c \<in> set (courses t)"
  shows "c_section_count c = count_sections (c_id c) t \<and> c_lesson_count c = count_lessons (c_id c) t
    \<and> c_total_duration c = total_duration (c_id c) t"
  using authoring.inv_reachable [OF assms(1,2)] assms(3) by (simp add: content_inv_def counters_true_def)

section \<open>What a removal touches\<close>

lemma recount_frame:
  assumes "recount_course course s = (r, t)"
  shows "lessons t = lessons s \<and> videos t = videos s \<and> tickets t = tickets s \<and> progress t = progress s
    \<and> lesson_videos t = lesson_videos s"
  using recount_cases [of course s] assms by auto

lemma upd_where_all:
  assumes "\<And>r. r \<in> set rows \<Longrightarrow> \<not> P r \<Longrightarrow> Q r" "\<And>r. r \<in> set rows \<Longrightarrow> P r \<Longrightarrow> Q (f r)"
  shows "\<forall>r \<in> set (upd_where P f rows). Q r"
  using assms by (auto simp: upd_where_def)

text \<open>C40: removing a lecture, when it succeeds, deletes that lecture, leaves no ticket on it that plays,
  and keeps every other undeleted lecture, every watch record, and every video that a lecture outside
  still links to.\<close>

theorem removal_is_local:
  assumes "remove_lesson teacher_may now i actor role s = (Inr n, t)"
  shows "(\<forall>l \<in> set (lessons t). ls_id l = i \<longrightarrow> ls_deleted_at l \<noteq> None)
    \<and> (\<forall>k \<in> set (tickets t). tk_lesson k = i \<longrightarrow> tk_status k \<noteq> TS_ACTIVE)
    \<and> (\<forall>l \<in> set (lessons s). ls_id l \<noteq> i \<and> ls_deleted_at l = None \<longrightarrow> l \<in> set (lessons t))
    \<and> (\<forall>v \<in> set (videos s). (\<exists>x \<in> set (lesson_videos s). lv_video x = vd_id v \<and> lv_lesson x \<noteq> i) \<longrightarrow> v \<in> set (videos t))
    \<and> progress t = progress s"
proof -
  obtain l u where l: "ls_id l = i" and tx: "remove_lesson_tx l now s = Inr ((), u)"
    and frame: "lessons t = lessons u" "videos t = videos u" "tickets t = tickets u" "progress t = progress u"
    using assms
    by (auto simp: remove_lesson_def require_lesson_def result_simps manages_content_def check_c_def content_audit_def
        dest!: recount_frame find_Some split: option.splits)
  let ?a = "upd_where (\<lambda>y. ls_id y = i) (archived_lesson now) (lessons s)"
  from tx have u: "lessons u = upd_where (\<lambda>y. ls_section y = ls_section l \<and> ls_deleted_at y \<noteq> None \<and> 0 \<le> ls_sort y)
        (\<lambda>x. x\<lparr>ls_sort := - ls_sort x - 1000\<rparr>) ?a"
    "videos u = upd_where (\<lambda>v. vd_id v \<in> set (orphaned_videos [i] (s\<lparr>lessons := ?a\<rparr>)))
        (\<lambda>v. v\<lparr>vd_status := VS_ARCHIVED, vd_updated := now\<rparr>) (videos s)"
    "tickets u = upd_where (\<lambda>k. tk_lesson k \<in> {i} \<and> tk_status k = TS_ACTIVE) (revoked_ticket ''Lecture deleted'' now) (tickets s)"
    "progress u = progress s"
    by (simp_all add: remove_lesson_tx_def result_simps archive_videos_def end_lesson_tickets_def l)
  have kept: "v \<in> set (videos u)"
    if v: "v \<in> set (videos s)" and x: "x \<in> set (lesson_videos s)" "lv_video x = vd_id v" "lv_lesson x \<noteq> i" for v x
  proof -
    have "vd_id v \<notin> set (orphaned_videos [i] (s\<lparr>lessons := ?a\<rparr>))"
      using x by (auto simp: orphaned_videos_def links_of_video_def list_all_iff)
    with v show ?thesis unfolding u(2) set_upd_where by blast
  qed
  have "\<forall>k \<in> set ?a. ls_id k = i \<longrightarrow> ls_deleted_at k \<noteq> None"
    by (rule upd_where_all) (simp_all add: archived_lesson_def)
  then have gone: "\<forall>k \<in> set (lessons u). ls_id k = i \<longrightarrow> ls_deleted_at k \<noteq> None"
    unfolding u(1) by (intro upd_where_all) simp_all
  have ended: "\<forall>k \<in> set (tickets u). tk_lesson k = i \<longrightarrow> tk_status k \<noteq> TS_ACTIVE"
    unfolding u(3) by (rule upd_where_all) (simp_all add: revoked_ticket_def)
  have others: "k \<in> set (lessons u)" if k: "k \<in> set (lessons s)" "ls_id k \<noteq> i" "ls_deleted_at k = None" for k
  proof -
    have "k \<in> set ?a" using k(1,2) unfolding set_upd_where by blast
    with k(3) show ?thesis unfolding u(1) set_upd_where [of _ _ ?a] by blast
  qed
  have videos_kept: "\<forall>v \<in> set (videos s). (\<exists>x \<in> set (lesson_videos s). lv_video x = vd_id v \<and> lv_lesson x \<noteq> i) \<longrightarrow> v \<in> set (videos u)"
    using kept by blast
  show ?thesis unfolding frame u(4)
    by (intro conjI gone ended videos_kept refl) (blast intro: others)
qed

section \<open>A course being edited\<close>

definition plain_section :: "id \<Rightarrow> int \<Rightarrow> section_row" where
  "plain_section i v = \<lparr>s_id = i, s_course = 11, s_part = None, s_sort = v, s_status = CT_PUBLISHED, s_unlocks_at = None,
     s_deleted_at = None\<rparr>"

definition studio_db :: db where
  "studio_db = empty_db\<lparr>db_next := 90, courses := [campus_course 11 []]\<rparr>"

definition two_sections_db :: db where
  "two_sections_db = studio_db\<lparr>sections := [plain_section 31 1, plain_section 32 2]\<rparr>"

theorem followed_section_cannot_be_removed_witness:
  "\<exists>e. remove_section (\<lambda>_. True) 5 31 1 R_ADMIN two_sections_db = (Inl e, two_sections_db)"
  using followed_section_cannot_be_removed [of "plain_section 31 1" two_sections_db "plain_section 32 2" "\<lambda>_. True" 5 1 R_ADMIN]
  by (simp add: two_sections_db_def plain_section_def unique_on_def live_section_def)

definition first_section :: section_input where
  "first_section = \<lparr>si_sort = None, si_status = None, si_unlocks = None\<rparr>"

definition opened_db :: db where
  "opened_db = snd (create_section 11 first_section 1 R_ADMIN studio_db)"

lemma opened_sections: "sections opened_db = [plain_section 90 1]"
  by (simp add: opened_db_def create_section_def manages_content_def assert_can_manage_course_def commit_c_def create_section_tx_def
      first_section_def free_section_place_def next_place_def last_place_def studio_db_def empty_db_def section_row_of_def
      recount_course_def content_audit_def campus_course_def fresh_id_def bind_c_def bind_tx_def Let_def plain_section_def)

lemma opened_course: "courses opened_db = [(campus_course 11 [])\<lparr>c_section_count := 1\<rparr>]"
  by (simp add: opened_db_def create_section_def manages_content_def assert_can_manage_course_def commit_c_def create_section_tx_def
      first_section_def free_section_place_def next_place_def last_place_def studio_db_def empty_db_def section_row_of_def
      recount_course_def content_audit_def campus_course_def fresh_id_def bind_c_def bind_tx_def Let_def upd_where_Cons
      count_sections_def count_lessons_def total_duration_def)

theorem counters_stay_true_witness: "count_sections 11 opened_db = 1"
proof -
  have "authoring_start studio_db"
    by (simp add: authoring_start_def studio_db_def empty_db_def campus_course_def)
  moreover have "authoring_step\<^sup>*\<^sup>* studio_db opened_db"
    unfolding opened_db_def by (intro r_into_rtranclp makes_section)
  moreover have "(campus_course 11 [])\<lparr>c_section_count := 1\<rparr> \<in> set (courses opened_db)" by (simp add: opened_course)
  ultimately show ?thesis
    using counters_stay_true [of studio_db opened_db "(campus_course 11 [])\<lparr>c_section_count := 1\<rparr>"]
    by (simp add: campus_course_def)
qed

section \<open>Lectures that are removed or reordered\<close>

definition plain_lesson :: "id \<Rightarrow> int \<Rightarrow> lesson_row" where
  "plain_lesson i v = \<lparr>ls_id = i, ls_section = 31, ls_course = 11, ls_status = CT_PUBLISHED, ls_sort = v, ls_preview = False,
     ls_duration = 60, ls_rule = None, ls_threshold = None, ls_contiguous = None, ls_deleted_at = None\<rparr>"

definition lecture_db :: db where
  "lecture_db = studio_db\<lparr>sections := [plain_section 31 1], lessons := [plain_lesson 41 1, plain_lesson 42 2]\<rparr>"

lemma removed_lecture:
  "remove_lesson (\<lambda>_. True) 5 41 1 R_ADMIN lecture_db = (Inr 0, snd (remove_lesson (\<lambda>_. True) 5 41 1 R_ADMIN lecture_db))"
  by (simp add: lecture_db_def studio_db_def empty_db_def plain_lesson_def remove_lesson_def require_lesson_def manages_content_def
      assert_can_manage_course_def assert_teacher_capability_def check_c_def commit_c_def remove_lesson_tx_def archived_lesson_def
      archive_videos_def end_lesson_tickets_def move_lessons_def lesson_place_def recount_course_def content_audit_def
      campus_course_def bind_c_def bind_tx_def upd_where_Cons)

theorem removal_is_local_witness:
  "plain_lesson 42 2 \<in> set (lessons (snd (remove_lesson (\<lambda>_. True) 5 41 1 R_ADMIN lecture_db)))"
  using removal_is_local [OF removed_lecture] by (simp add: lecture_db_def plain_lesson_def)

text \<open>A removed lecture is parked at the negative of its place less a thousand; a reorder moves the live
  lectures through the same places, so a lecture that now has the place the removed one had blocks it.\<close>

lemma parked_lesson_blocks_reorder:
  assumes "l \<in> set (lessons s)" "live_lesson sec l" "z \<in> set (lessons s)" "ls_section z = sec"
    and "ls_deleted_at z \<noteq> None" "ls_sort z = - ls_sort l - 1000"
  shows "\<exists>e. reorder_lessons_tx sec ids s = Inl e"
proof -
  have "moved_rows lesson_place (live_lesson sec) (\<lambda>x. x\<lparr>ls_sort := - ls_sort x - 1000\<rparr>) [] (lessons s) = None"
    by (rule moved_rows_blocked [of l _ _ z]) (use assms in \<open>auto simp: live_lesson_def lesson_place_def\<close>)
  then have "move_lessons (live_lesson sec) (\<lambda>v. - v - 1000) s = Inl raw_violation"
    by (simp add: move_lessons_def)
  then show ?thesis by (simp add: reorder_lessons_tx_def bind_tx_def)
qed

text \<open>A removed last section keeps its place, and the place appended to is computed from the live ones.\<close>

lemma place_of_removed_section_is_offered_again:
  "create_section_tx 11 first_section
     (studio_db\<lparr>sections := [(plain_section 31 1)\<lparr>s_deleted_at := Some 5, s_status := CT_ARCHIVED\<rparr>]\<rparr>) = Inl place_taken"
  by (simp add: create_section_tx_def first_section_def free_section_place_def next_place_def last_place_def studio_db_def
      plain_section_def live_section_def fresh_id_def section_place_def bind_tx_def)

text \<open>The authoring view looks, among the links of a lecture, for a link of another lecture.\<close>

lemma reused_video_is_not_shown: "shown_video l s \<noteq> Some (v, True)"
proof -
  have "List.find (\<lambda>x. lv_lesson x \<noteq> ls_id l) (filter (\<lambda>x. video_live (lv_video x) s) (links_of_lesson (ls_id l) s)) = None"
    by (auto simp: find_None_iff links_of_lesson_def)
  then show ?thesis by (simp add: shown_video_def split: option.splits)
qed

end
