(* ===== verification/GumletIngest.thy ===== *)
theory GumletIngest
  imports DrmVerification LessonVideos
begin

text \<open>
  Videos delivered by the provider (\<open>videos/gumlet-ingest.service.ts\<close>): adoption, the replacement of
  a dead asset, the synchronisation with the provider, the poll of a transcode job and the state shown
  to staff. What the provider, the object storage and the clock answer during a call is a record of
  the call's world; database failures are part of it where the code handles them. The frame rate, the
  log and the texts that quote a number or an identifier are left out or shortened.
\<close>

section \<open>Calls that fail\<close>

text \<open>An asset that exists at the provider and could not be recorded is an error of its own.\<close>

datatype ingest_error =
    Failure provider_error
  | NotRecorded id id exn

type_synonym 'a ingest_call = "(db, ingest_error, 'a) call"

definition fails_as :: "('e \<Rightarrow> 'f) \<Rightarrow> ('s, 'e, 'a) call \<Rightarrow> ('s, 'f, 'a) call" where
  "fails_as f m = (\<lambda>s. case m s of (r, t) \<Rightarrow> (map_sum f id r, t))"

definition answer_c :: "'e + 'a \<Rightarrow> ('s, 'e, 'a) call" where
  "answer_c r = (\<lambda>s. (r, s))"

section \<open>Configuration and world\<close>

record ingest_config =
  ig_drm :: drm_config
  ig_api :: bool
  ig_storage :: bool
  ig_workspace :: "string option"

record created_asset =
  ca_asset :: id
  ca_status :: string

text \<open>\<open>iw_meanwhile\<close>: what other requests committed while the provider was creating an asset for this one.\<close>

record ingest_world =
  iw_now :: time
  iw_meanwhile :: "db \<Rightarrow> db"
  iw_create :: "provider_error + created_asset"
  iw_asset :: "provider_error + asset_answer"
  iw_check :: check_world
  iw_lost :: "nat \<Rightarrow> exn option"
  iw_jitter :: "nat \<Rightarrow> rat"
  iw_quota :: "provider_error + int option \<times> int option"
  iw_source_present :: bool

section \<open>Synchronisation\<close>

record sync_state =
  sy_asset :: id
  sy_status :: string
  sy_playable :: bool

definition not_encrypted_text :: string where
  "not_encrypted_text = ''Gumlet reported the asset ready but the DASH manifest is not CENC-encrypted. ''
     @ ''This video was packaged without DRM and must be reprocessed before it can be played.''"

definition not_judged_text :: string where
  "not_judged_text = ''Gumlet reports the asset ready, but this process is not configured for Gumlet DRM.''"

definition observed_row :: "asset_answer \<Rightarrow> time \<Rightarrow> video_row \<Rightarrow> video_row" where
  "observed_row asset now v = v\<lparr>vd_gumlet_status := Some (as_status asset), vd_gumlet_updated := Some now,
     vd_gumlet_error := (if given_text (as_error asset) then as_error asset else vd_gumlet_error v), vd_updated := now\<rparr>"

definition playable_row :: "video_row \<Rightarrow> asset_answer \<Rightarrow> time \<Rightarrow> video_row \<Rightarrow> video_row" where
  "playable_row seen asset now v = (observed_row asset now v)\<lparr>vd_status := VS_READY, vd_gumlet_error := None, vd_error := None,
     vd_processed := Some now,
     vd_duration := (case as_duration asset of None \<Rightarrow> vd_duration v | Some d \<Rightarrow> d),
     vd_width := (if vd_width seen = None \<and> as_width asset \<noteq> None then as_width asset else vd_width v),
     vd_height := (if vd_height seen = None \<and> as_height asset \<noteq> None then as_height asset else vd_height v)\<rparr>"

definition unproved_video :: "drm_config \<Rightarrow> bool \<Rightarrow> asset_answer \<Rightarrow> time \<Rightarrow> video_row \<Rightarrow> video_row" where
  "unproved_video cf on_path asset now v =
     (let w = (observed_row asset now v)\<lparr>vd_gumlet_error :=
                Some (if is_platform_usable cf then not_encrypted_text else not_judged_text)\<rparr>
      in if on_path then w\<lparr>vd_status := VS_FAILED\<rparr> else w)"

definition failure_text :: "gumlet_failure \<Rightarrow> string" where
  "failure_text f =
     (case gf_kind f of
        QUOTA_EXCEEDED \<Rightarrow> ''The Gumlet account allowance is exhausted.''
      | ACCOUNT_OR_CREDENTIALS \<Rightarrow> ''Gumlet rejected the account or its credentials.''
      | SOURCE_UNREACHABLE \<Rightarrow> ''Gumlet could not read the source file.''
      | TRANSIENT \<Rightarrow> ''Gumlet reported a temporary problem.''
      | UNKNOWN \<Rightarrow> ''Gumlet reported a problem.'')"

definition dead_row :: "bool \<Rightarrow> asset_answer \<Rightarrow> time \<Rightarrow> video_row \<Rightarrow> video_row" where
  "dead_row on_path asset now v =
     (let gone = (as_status asset = ''deleted'');
          w = (observed_row asset now v)\<lparr>vd_gumlet_error := Some (case as_error asset of Some m \<Rightarrow> m
                | None \<Rightarrow> if gone then ''Gumlet reports this asset as deleted.''
                          else ''Gumlet processing ended with status '' @ as_status asset)\<rparr>
      in if on_path
         then w\<lparr>vd_status := VS_FAILED,
                vd_error := Some (if gone then ''The Gumlet asset for this video was deleted at Gumlet.''
                                  else failure_text (classify_failure (as_code asset) (as_error asset) None))\<rparr>
         else w)"

text \<open>What the answer of the provider writes, after the check of a ready asset, and the length it measured.\<close>

definition sync_update ::
  "ingest_config \<Rightarrow> ingest_world \<Rightarrow> video_row \<Rightarrow> asset_answer \<Rightarrow> ((video_row \<Rightarrow> video_row) \<times> int option) provider_call" where
  "sync_update cf w seen asset =
     (let on_path = (vd_provider seen = Some ''gumlet''); now = iw_now w in
      if is_asset_playable (as_status asset)
      then bind_c (verify (ig_drm cf) (iw_check w) 2 (vd_id seen)) (\<lambda>verdict.
             ret_c (if is_playable verdict then (playable_row seen asset now, as_duration asset)
                    else (unproved_video (ig_drm cf) on_path asset now, None)))
      else if is_terminal_failure (Some (as_status asset)) then ret_c (dead_row on_path asset now, None)
      else ret_c (observed_row asset now, None))"

definition sync_video :: "ingest_config \<Rightarrow> ingest_world \<Rightarrow> id \<Rightarrow> sync_state provider_call" where
  "sync_video cf w video =
     bind_c (read_c (live_video video)) (\<lambda>found.
     bind_c (the_c (OtherError (HttpEx 404 []) ''Video not found'') found) (\<lambda>seen.
     bind_c (the_c (OtherError (app_error VIDEO_UNAVAILABLE) ''This video is not backed by a Gumlet asset'') (vd_asset seen)) (\<lambda>observed.
     bind_c (answer_c (iw_asset w)) (\<lambda>asset.
     bind_c (sync_update cf w seen asset) (\<lambda>(f, len).
     bind_c (write_c (update_videos (\<lambda>v. vd_id v = video \<and> vd_asset v = Some observed) f)) (\<lambda>_.
     bind_c (case len of
               None \<Rightarrow> ret_c 0
             | Some d \<Rightarrow> if 0 < d then fails_as (\<lambda>e. OtherError e []) (propagate_duration video (Some d)) else ret_c 0) (\<lambda>_.
     bind_c (read_c (\<lambda>s. find_by vd_id video (videos s))) (\<lambda>final.
     bind_c (the_c (OtherError (PrismaKnown ''P2025'' []) []) final) (\<lambda>v.
     ret_c \<lparr>sy_asset = observed, sy_status = as_status asset,
       sy_playable = (vd_provider seen = Some ''gumlet'' \<and> vd_status v = VS_READY)\<rparr>)))))))))"

section \<open>Adoption\<close>

definition adoption_row :: "ingest_config \<Rightarrow> created_asset \<Rightarrow> time \<Rightarrow> video_row \<Rightarrow> video_row" where
  "adoption_row cf created now v = v\<lparr>vd_provider := Some ''gumlet'', vd_requested := True, vd_verified_at := None,
     vd_blocked := None, vd_asset := Some (ca_asset created), vd_workspace := ig_workspace cf,
     vd_gumlet_status := Some (ca_status created), vd_gumlet_error := None, vd_gumlet_updated := Some now,
     vd_status := VS_PROCESSING, vd_started := None, vd_job := None, vd_updated := now\<rparr>"

text \<open>One attempt at recording the asset: the database may be lost before the write.\<close>

definition update_video_c :: "id \<Rightarrow> (video_row \<Rightarrow> video_row) \<Rightarrow> unit db_call" where
  "update_video_c video f =
     bind_c (read_c (any_video (\<lambda>v. vd_id v = video))) (\<lambda>there.
     bind_c (require_c there (PrismaKnown ''P2025'' [])) (\<lambda>_.
     write_c (update_videos (\<lambda>v. vd_id v = video) f)))"

definition update_attempt :: "(nat \<Rightarrow> exn option) \<Rightarrow> id \<Rightarrow> (video_row \<Rightarrow> video_row) \<Rightarrow> nat \<Rightarrow> unit db_call" where
  "update_attempt lost video f k =
     (case lost k of Some e \<Rightarrow> fail_c e | None \<Rightarrow> update_video_c video f)"

definition mark_adopted :: "ingest_config \<Rightarrow> ingest_world \<Rightarrow> id \<Rightarrow> created_asset \<Rightarrow> unit ingest_call" where
  "mark_adopted cf w video created = (\<lambda>s.
     case default_database_retry (iw_jitter w) (update_attempt (iw_lost w) video (adoption_row cf created (iw_now w))) s of
       (Inr x, t, waits) \<Rightarrow> (Inr x, t)
     | (Inl e, t, waits) \<Rightarrow>
         (Inl (if is_transient_database_error e then NotRecorded video (ca_asset created) e else Failure (OtherError e [])), t))"

definition not_configured :: provider_error where
  "not_configured = OtherError (app_error VIDEO_PROCESSING_FAILED)
     ''Gumlet asset API is not configured (GUMLET_API_KEY / GUMLET_WORKSPACE_ID)''"

definition adopt :: "ingest_config \<Rightarrow> ingest_world \<Rightarrow> id \<Rightarrow> (id \<times> string) ingest_call" where
  "adopt cf w video =
     bind_c (read_c (live_video video)) (\<lambda>found.
     bind_c (the_c (Failure (OtherError (HttpEx 404 []) ''Video not found'')) found) (\<lambda>seen.
     bind_c (require_c (given_text (vd_source seen)) (Failure (OtherError (HttpEx 400 []) ''This video has no uploaded source to hand to Gumlet''))) (\<lambda>_.
       if vd_asset seen \<noteq> None
       then bind_c (fails_as Failure (sync_video cf w video)) (\<lambda>r. ret_c (sy_asset r, sy_status r))
       else
         bind_c (require_c (ig_api cf) (Failure not_configured)) (\<lambda>_.
         bind_c (write_c (iw_meanwhile w)) (\<lambda>_.
         bind_c (answer_c (map_sum Failure id (iw_create w))) (\<lambda>created.
         bind_c (mark_adopted cf w video created) (\<lambda>_.
         ret_c (ca_asset created, ca_status created))))))))"

section \<open>Replacing a dead asset\<close>

definition asset_replacing :: string where
  "asset_replacing = ''replacing''"

text \<open>The allowance is read only when the recorded failure is one of the account.\<close>

definition no_room :: provider_error where
  "no_room = OtherError (app_error VIDEO_PROCESSING_FAILED) ''The storage allowance of the Gumlet account cannot take this video''"

definition assert_account_can_take :: "ingest_world \<Rightarrow> video_row \<Rightarrow> provider_error + unit" where
  "assert_account_can_take w v =
     (let kind = gf_kind (classify_failure None (vd_gumlet_error v) None) in
      if kind \<noteq> QUOTA_EXCEEDED \<and> kind \<noteq> ACCOUNT_OR_CREDENTIALS then Inr ()
      else case iw_quota w of
             Inl e \<Rightarrow> Inr ()
           | Inr (Some quota, Some used) \<Rightarrow>
               (let free = quota - used in
                if free \<le> 0 then Inl no_room
                else require (\<not> (0 < vd_duration v \<and> free < vd_duration v)) no_room)
           | Inr _ \<Rightarrow> Inr ())"

definition platform_can_replace :: "ingest_config \<Rightarrow> provider_error + unit" where
  "platform_can_replace cf =
     bind_r (require (ig_storage cf) (OtherError (app_error STORAGE_UNAVAILABLE)
       ''Object storage is not configured, so no replacement asset can be fetched'')) (\<lambda>_.
     bind_r (require (ig_api cf) not_configured) (\<lambda>_.
     bind_r (require (dm_signing (ig_drm cf)) (OtherError (app_error PLAYBACK_DENIED)
       ''Gumlet signing is not configured, so a replacement could never be played'')) (\<lambda>_.
     require (dm_enabled (ig_drm cf) \<and> dm_provider (ig_drm cf) = ''gumlet'') (OtherError (app_error PLAYBACK_DENIED)
       ''DRM is not enabled with the gumlet provider; refusing to replace an asset''))))"

definition repairing :: "bool \<Rightarrow> video_row \<Rightarrow> bool" where
  "repairing allowed v \<longleftrightarrow> allowed \<and> vd_provider v = Some ''gumlet''"

text \<open>An earlier replacement that left no asset can be resumed.\<close>

definition resumable :: "bool \<Rightarrow> video_row \<Rightarrow> bool" where
  "resumable allowed v \<longleftrightarrow> given_text (vd_source v)
     \<and> (if vd_provider v \<noteq> Some ''gumlet'' then vd_status v = VS_READY
         else repairing allowed v \<and> vd_status v = VS_FAILED)"

definition irreplaceable :: "string \<Rightarrow> provider_error" where
  "irreplaceable m = OtherError (app_error VIDEO_UNAVAILABLE) m"

definition may_replace :: "bool \<Rightarrow> ingest_world \<Rightarrow> video_row \<Rightarrow> provider_error + unit" where
  "may_replace allowed w v =
     bind_r (require (vd_provider v \<noteq> Some ''gumlet'' \<or> repairing allowed v)
       (irreplaceable ''This video is currently served by its Gumlet asset.'')) (\<lambda>_.
     bind_r (require (is_terminal_failure (vd_gumlet_status v))
       (irreplaceable ''Only a terminal failure can be replaced.'')) (\<lambda>_.
     bind_r (require (given_text (vd_source v))
       (irreplaceable ''This video has no stored source object to create a replacement asset from'')) (\<lambda>_.
     bind_r (require (repairing allowed v \<or> vd_status v = VS_READY)
       (irreplaceable ''It is not currently playing, so this is a repair, not a migration recovery.'')) (\<lambda>_.
     bind_r (assert_account_can_take w v) (\<lambda>_.
     require (iw_source_present w)
       (irreplaceable ''The stored R2 source object for this video is missing, so no replacement can be created''))))))"

text \<open>The claim, its restoration and the commit, each one conditional write.\<close>

definition claimable :: "video_row \<Rightarrow> video_row \<Rightarrow> bool" where
  "claimable seen v \<longleftrightarrow> vd_id v = vd_id seen \<and> vd_deleted_at v = None \<and> vd_asset v = vd_asset seen
     \<and> vd_gumlet_status v = vd_gumlet_status seen"

definition claim_replacement :: "video_row \<Rightarrow> time \<Rightarrow> bool ingest_call" where
  "claim_replacement seen now =
     bind_c (read_c (any_video (claimable seen))) (\<lambda>won.
     bind_c (write_c (update_videos (claimable seen)
       (\<lambda>v. v\<lparr>vd_gumlet_status := Some asset_replacing, vd_gumlet_updated := Some now, vd_updated := now\<rparr>))) (\<lambda>_.
     ret_c won))"

definition give_back :: "video_row \<Rightarrow> time \<Rightarrow> db \<Rightarrow> db" where
  "give_back seen now = update_videos (\<lambda>v. vd_id v = vd_id seen \<and> vd_asset v = vd_asset seen)
     (\<lambda>v. v\<lparr>vd_gumlet_status := vd_gumlet_status seen, vd_gumlet_updated := Some now, vd_updated := now\<rparr>)"

definition claimed_row :: "video_row \<Rightarrow> video_row \<Rightarrow> bool" where
  "claimed_row seen v \<longleftrightarrow> vd_id v = vd_id seen \<and> vd_deleted_at v = None \<and> vd_asset v = vd_asset seen
     \<and> vd_gumlet_status v = Some asset_replacing"

definition replaced_row :: "ingest_config \<Rightarrow> created_asset \<Rightarrow> time \<Rightarrow> video_row \<Rightarrow> video_row" where
  "replaced_row cf created now v =
     (adoption_row cf created now v)\<lparr>vd_gumlet_error := Some ''Replaced failed Gumlet asset with a freshly ingested asset.''\<rparr>"

definition commit_replacement ::
  "ingest_config \<Rightarrow> video_row \<Rightarrow> created_asset \<Rightarrow> time \<Rightarrow> id option \<Rightarrow> (id \<times> string) ingest_call" where
  "commit_replacement cf seen created now actor =
     bind_c (read_c (any_video (claimed_row seen))) (\<lambda>committed.
     bind_c (write_c (update_videos (claimed_row seen) (replaced_row cf created now))) (\<lambda>_.
     bind_c (write_c (\<lambda>s. s\<lparr>audit := audit s @ [\<lparr>au_actor = actor, au_action = ''UPDATE'', au_entity = ''video'',
         au_entity_id = vd_id seen,
         au_note = (if committed then ''Gumlet failed-asset replacement committed''
                    else ''Gumlet failed-asset replacement created an asset but the row was already advanced'')\<rparr>]\<rparr>)) (\<lambda>_.
     ret_c (ca_asset created, ca_status created))))"

definition replace_failed_asset ::
  "ingest_config \<Rightarrow> ingest_world \<Rightarrow> bool \<Rightarrow> id option \<Rightarrow> id \<Rightarrow> (id \<times> string) ingest_call" where
  "replace_failed_asset cf w allowed actor video =
     bind_c (read_c (live_video video)) (\<lambda>found.
     bind_c (the_c (Failure (OtherError (HttpEx 404 []) ''Video not found'')) found) (\<lambda>seen.
     bind_c (answer_c (map_sum Failure id (platform_can_replace cf))) (\<lambda>_.
       if vd_asset seen = None
       then (if resumable allowed seen then adopt cf w video
             else fail_c (Failure (irreplaceable ''This video has no Gumlet asset to replace'')))
       else
         bind_c (answer_c (map_sum Failure id (may_replace allowed w seen))) (\<lambda>_.
         bind_c (claim_replacement seen (iw_now w)) (\<lambda>won.
         bind_c (require_c won (Failure (OtherError (app_error VIDEO_PROCESSING_FAILED)
           ''A replacement for this Gumlet asset is already in progress.''))) (\<lambda>_.
         bind_c (write_c (iw_meanwhile w)) (\<lambda>_.
         case iw_create w of
           Inl e \<Rightarrow> bind_c (write_c (give_back seen (iw_now w))) (\<lambda>_. fail_c (Failure e))
         | Inr created \<Rightarrow> commit_replacement cf seen created (iw_now w) actor)))))))"

section \<open>The transcode job\<close>

definition poll_budget :: int where "poll_budget = 20 * 60 * 1000"
definition poll_interval :: int where "poll_interval = 5000"
definition max_transient :: nat where "max_transient = 5"
definition max_db_failures :: nat where "max_db_failures = 6"

text \<open>The wait after a lost database: \<open>jitter\<close> is the random number of the poll.\<close>

definition db_backoff :: "rat \<Rightarrow> nat \<Rightarrow> nat" where
  "db_backoff jitter streak = nat (round (jitter * min (2000 * 2 ^ (streak - 1)) 30000))"

datatype poll_end =
    Answered string bool
  | Out_of_budget string
  | Raised provider_error

definition database_lost :: "provider_error \<Rightarrow> bool" where
  "database_lost e \<longleftrightarrow> (case e of OtherError x m \<Rightarrow> is_transient_database_error x | GumletError b m \<Rightarrow> False)"

text \<open>The polls of a job: the \<open>k\<close>-th takes \<open>took k\<close> milliseconds and answers \<open>ask k\<close>.\<close>

function poll_loop ::
  "bool \<Rightarrow> (nat \<Rightarrow> sync_state provider_call) \<Rightarrow> (nat \<Rightarrow> nat) \<Rightarrow> (nat \<Rightarrow> rat) \<Rightarrow> time \<Rightarrow>
   nat \<Rightarrow> time \<Rightarrow> string \<Rightarrow> nat \<Rightarrow> nat \<Rightarrow> db \<Rightarrow> poll_end \<times> db" where
  "poll_loop usable ask took jitter deadline k now latest streak lost s =
     (if deadline \<le> now then (Out_of_budget latest, s)
      else case ask k s of
        (Inl e, t) \<Rightarrow>
          if database_lost e then
            (if max_db_failures \<le> Suc lost then (Raised e, t)
             else poll_loop usable ask took jitter deadline (Suc k)
                    (now + int (took k) + int (db_backoff (jitter k) (Suc lost))) latest streak (Suc lost) t)
          else if \<not> is_transient_provider_error e then (Raised e, t)
          else if max_transient \<le> Suc streak then (Out_of_budget latest, t)
          else poll_loop usable ask took jitter deadline (Suc k) (now + int (took k) + poll_interval) latest (Suc streak) 0 t
      | (Inr r, t) \<Rightarrow>
          if sy_playable r then (Answered (sy_status r) True, t)
          else if is_terminal_failure (Some (sy_status r)) then (Answered (sy_status r) False, t)
          else if sy_status r = ''ready'' \<and> usable then (Answered (sy_status r) False, t)
          else poll_loop usable ask took jitter deadline (Suc k) (now + int (took k) + poll_interval) (sy_status r) 0 0 t)"
  by pat_completeness auto
termination
  by (relation "(\<lambda>(usable, ask, took, jitter, deadline, k, now, latest, streak, lost, s). nat (deadline - now))
        <*mlex*> measure (\<lambda>(usable, ask, took, jitter, deadline, k, now, latest, streak, lost, s). max_db_failures - lost)")
    (auto simp: mlex_prod_def poll_interval_def max_db_failures_def)

declare poll_loop.simps [simp del]

record job_world =
  jw_adopt :: ingest_world
  jw_polls :: "nat \<Rightarrow> ingest_world"
  jw_gone :: "nat \<Rightarrow> exn option"
  jw_lost :: "nat \<Rightarrow> exn option"
  jw_took :: "nat \<Rightarrow> nat"
  jw_jitter :: "nat \<Rightarrow> rat"
  jw_start :: time
  jw_end :: time

record job_result =
  jr_handled :: bool
  jr_status :: "string option"
  jr_playable :: bool

definition not_handled :: job_result where
  "not_handled = \<lparr>jr_handled = False, jr_status = None, jr_playable = False\<rparr>"

definition job_failed :: job_result where
  "job_failed = \<lparr>jr_handled = True, jr_status = Some ''failed'', jr_playable = False\<rparr>"

definition ask_provider :: "ingest_config \<Rightarrow> job_world \<Rightarrow> id \<Rightarrow> nat \<Rightarrow> sync_state provider_call" where
  "ask_provider cf jw video k =
     (case jw_gone jw k of Some e \<Rightarrow> fail_c (OtherError e []) | None \<Rightarrow> sync_video cf (jw_polls jw k) video)"

definition source_changed_row :: "time \<Rightarrow> video_row \<Rightarrow> video_row" where
  "source_changed_row now v = v\<lparr>vd_status := VS_FAILED, vd_gumlet_error := Some ''Source object changed under this job.'',
     vd_gumlet_updated := Some now, vd_updated := now\<rparr>"

definition refused_row :: "(string \<Rightarrow> string) \<Rightarrow> provider_error \<Rightarrow> time \<Rightarrow> video_row \<Rightarrow> video_row" where
  "refused_row clean e now v = v\<lparr>vd_status := VS_FAILED,
     vd_error := Some (failure_text (classify_failure None (Some (error_text e)) None)),
     vd_gumlet_error := Some (clean (error_text e)), vd_gumlet_updated := Some now, vd_updated := now\<rparr>"

definition budget_row :: "string \<Rightarrow> time \<Rightarrow> video_row \<Rightarrow> video_row" where
  "budget_row latest now v = v\<lparr>vd_status := VS_PROCESSING, vd_gumlet_status := Some latest,
     vd_gumlet_error := Some ''Gumlet processing did not finish within the job budget.'',
     vd_gumlet_updated := Some now, vd_updated := now\<rparr>"

text \<open>The adoption of a job: a refusal that cannot pass is recorded, anything else is thrown on.\<close>

definition job_adopts :: "ingest_config \<Rightarrow> (string \<Rightarrow> string) \<Rightarrow> ingest_world \<Rightarrow> id \<Rightarrow> bool ingest_call" where
  "job_adopts cf clean w video = (\<lambda>s.
     case adopt cf w video s of
       (Inr r, t) \<Rightarrow> (Inr True, t)
     | (Inl (NotRecorded v a e), t) \<Rightarrow> (Inl (NotRecorded v a e), t)
     | (Inl (Failure e), t) \<Rightarrow>
         if database_lost e \<or> is_retryable_provider_failure e then (Inl (Failure e), t)
         else bind_c (fails_as (\<lambda>x. Failure (OtherError x [])) (update_video_c video (refused_row clean e (iw_now w))))
                (\<lambda>_. ret_c False) t)"

definition job_polls :: "ingest_config \<Rightarrow> job_world \<Rightarrow> id \<Rightarrow> job_result ingest_call" where
  "job_polls cf jw video = (\<lambda>s.
     case poll_loop (is_platform_usable (ig_drm cf)) (ask_provider cf jw video) (jw_took jw) (jw_jitter jw)
            (jw_start jw + poll_budget) 0 (jw_start jw) ''unknown'' 0 0 s of
       (Answered status playable, t) \<Rightarrow> (Inr \<lparr>jr_handled = True, jr_status = Some status, jr_playable = playable\<rparr>, t)
     | (Raised e, t) \<Rightarrow> (Inl (Failure e), t)
     | (Out_of_budget latest, t) \<Rightarrow>
         (case default_database_retry (jw_jitter jw)
                 (update_attempt (jw_lost jw) video (budget_row latest (jw_end jw))) t of
            (Inr x, u, waits) \<Rightarrow> (Inr \<lparr>jr_handled = True, jr_status = Some latest, jr_playable = False\<rparr>, u)
          | (Inl e, u, waits) \<Rightarrow> (Inl (Failure (OtherError e [])), u)))"

definition process_from_job ::
  "ingest_config \<Rightarrow> (string \<Rightarrow> string) \<Rightarrow> job_world \<Rightarrow> id \<Rightarrow> string \<Rightarrow> job_result ingest_call" where
  "process_from_job cf clean jw video source =
     bind_c (read_c (live_video video)) (\<lambda>found.
       case found of
         None \<Rightarrow> ret_c not_handled
       | Some v \<Rightarrow>
           if vd_provider v \<noteq> Some ''gumlet'' then ret_c not_handled
           else if vd_source v \<noteq> Some source
           then bind_c (fails_as (\<lambda>x. Failure (OtherError x []))
                  (update_video_c video (source_changed_row (iw_now (jw_adopt jw))))) (\<lambda>_. ret_c job_failed)
           else
             bind_c (job_adopts cf clean (jw_adopt jw) video) (\<lambda>ok.
             if ok then job_polls cf jw video else ret_c job_failed))"

section \<open>What staff see\<close>

datatype (plugins only: code) drm_label =
    READY_DRM_VERIFIED | PENDING_SUBMISSION | PROVIDER_PROCESSING | PROVIDER_FAILED | DRM_NOT_VERIFIABLE

record ingest_view =
  is_asset :: "id option"
  is_gumlet :: "string option"
  is_video :: video_status
  is_error :: "string option"
  is_verified :: bool
  is_label :: drm_label

definition drm_label_of :: "drm_config \<Rightarrow> time \<Rightarrow> video_row \<Rightarrow> drm_label" where
  "drm_label_of cf now v =
     (if is_playable (evaluate cf now v) then READY_DRM_VERIFIED
      else if vd_asset v = None then PENDING_SUBMISSION
      else if is_terminal_failure (vd_gumlet_status v) then PROVIDER_FAILED
      else if given_text (vd_gumlet_status v) then PROVIDER_PROCESSING
      else DRM_NOT_VERIFIABLE)"

definition ingest_status :: "ingest_config \<Rightarrow> time \<Rightarrow> id \<Rightarrow> ingest_view db_call" where
  "ingest_status cf now video =
     bind_c (read_c (live_video video)) (\<lambda>found.
     bind_c (the_c (HttpEx 404 []) found) (\<lambda>v.
     ret_c \<lparr>is_asset = vd_asset v, is_gumlet = vd_gumlet_status v, is_video = vd_status v, is_error = vd_gumlet_error v,
       is_verified = is_playable (evaluate (ig_drm cf) now v), is_label = drm_label_of (ig_drm cf) now v\<rparr>))"

section \<open>Events of the provider\<close>

text \<open>\<open>gumlet-webhook.service.ts\<close>: an event names an asset; what it says of it is not believed.\<close>

datatype (plugins only: code) event_action = EV_IGNORED | EV_VERIFIED | EV_BLOCKED

definition webhook_terminal :: "string list" where
  "webhook_terminal = [''ready'', ''errored'', ''failed'']"

definition webhook_handle ::
  "ingest_config \<Rightarrow> check_world \<Rightarrow> id option \<Rightarrow> string option \<Rightarrow> (bool \<times> event_action) provider_call" where
  "webhook_handle cf w asset status =
     (case asset of
        None \<Rightarrow> ret_c (False, EV_IGNORED)
      | Some a \<Rightarrow>
          bind_c (read_c (\<lambda>s. List.find (\<lambda>v. vd_asset v = Some a \<and> vd_deleted_at v = None) (videos s))) (\<lambda>found.
          case found of
            None \<Rightarrow> ret_c (False, EV_IGNORED)
          | Some v \<Rightarrow>
              if (case status of None \<Rightarrow> True | Some st \<Rightarrow> st \<notin> set webhook_terminal) then ret_c (True, EV_IGNORED)
              else bind_c (verify (ig_drm cf) w 2 (vd_id v)) (\<lambda>verdict.
                   ret_c (True, if is_playable verdict then EV_VERIFIED else EV_BLOCKED))))"
end
