(* ===== verification/GumletMigration.thy ===== *)
theory GumletMigration
  imports GumletIngest
begin

text \<open>
  The migration of the catalogue to the provider (\<open>videos/gumlet-migration.service.ts\<close>): the blockers
  an operator is shown, the run over a planned batch with bounded retries, and its report. The plan
  itself is \<open>plan_video\<close> and \<open>plan_batch\<close>. The world of every attempt at every video is an argument.
\<close>

section \<open>Blockers\<close>

datatype (plugins only: code) blocker =
    NO_STORAGE | NO_ASSET_API | NO_SIGNING | OTHER_PROVIDER | DRM_OFF

definition preflight :: "ingest_config \<Rightarrow> blocker list" where
  "preflight cf =
     (if ig_storage cf then [] else [NO_STORAGE])
     @ (if ig_api cf then [] else [NO_ASSET_API])
     @ (if dm_signing (ig_drm cf) then [] else [NO_SIGNING])
     @ (if dm_provider (ig_drm cf) = ''gumlet'' then [] else [OTHER_PROVIDER])
     @ (if dm_enabled (ig_drm cf) then [] else [DRM_OFF])"

section \<open>Why an attempt failed\<close>

datatype (plugins only: code) migration_failure =
    STORAGE_NOT_CONFIGURED | SOURCE_UNAVAILABLE | NOT_CONFIGURED | RATE_LIMITED | NETWORK_ERROR
  | GUMLET_ASSET_API_ERROR | UNKNOWN_FAILURE

definition migration_reason :: "string \<Rightarrow> migration_failure" where
  "migration_reason message =
     (let m = map lower_char message in
      if mentions m [''object storage'', ''r2_''] then STORAGE_NOT_CONFIGURED
      else if mentions m [''source object is missing'', ''no stored source''] then SOURCE_UNAVAILABLE
      else if mentions m [''not configured'', ''gumlet_asset'', ''gumlet signing''] then NOT_CONFIGURED
      else if mentions m [''429'', ''rate limit'', ''too many requests''] then RATE_LIMITED
      else if mentions m [''fetch failed'', ''econnreset'', ''etimedout'', ''enotfound'', ''network''] then NETWORK_ERROR
      else if mentions m [''gumlet'', ''asset''] then GUMLET_ASSET_API_ERROR
      else UNKNOWN_FAILURE)"

fun ingest_text :: "ingest_error \<Rightarrow> string" where
  "ingest_text (Failure e) = error_text e"
| "ingest_text (NotRecorded video asset e) = ''Gumlet created an asset, but the database could not record it. ''
     @ ''Not retried automatically, because a retry would create a second asset.''"

section \<open>One video\<close>

datatype (plugins only: code) migration_result =
    RESULT_ADOPTED | RESULT_VERIFIED_READY | RESULT_PENDING | RESULT_SKIPPED | RESULT_FAILED

record video_outcome =
  vo_video :: id
  vo_action :: migration_action
  vo_result :: migration_result
  vo_status :: "string option"
  vo_attempts :: nat
  vo_failure :: "migration_failure option"

text \<open>The same methods the dashboard calls.\<close>

definition act_on :: "ingest_config \<Rightarrow> bool \<Rightarrow> migration_plan \<Rightarrow> ingest_world \<Rightarrow> string ingest_call" where
  "act_on cf repair p w =
     (case mp_action p of
        VERIFY \<Rightarrow> bind_c (fails_as Failure (sync_video cf w (mp_video p))) (\<lambda>r. ret_c (sy_status r))
      | REPLACE \<Rightarrow> bind_c (replace_failed_asset cf w repair None (mp_video p)) (\<lambda>r. ret_c (snd r))
      | _ \<Rightarrow> bind_c (adopt cf w (mp_video p)) (\<lambda>r. ret_c (snd r)))"

definition outcome_of :: "migration_plan \<Rightarrow> nat \<Rightarrow> string \<Rightarrow> video_outcome" where
  "outcome_of p attempt status =
     \<lparr>vo_video = mp_video p, vo_action = mp_action p,
      vo_result = (if status = ''ready'' then RESULT_ADOPTED
                   else if status = ''errored'' \<or> status = ''failed'' then RESULT_FAILED else RESULT_PENDING),
      vo_status = Some status, vo_attempts = attempt,
      vo_failure = (if status = ''errored'' \<or> status = ''failed'' then Some GUMLET_ASSET_API_ERROR else None)\<rparr>"

definition failed_outcome :: "migration_plan \<Rightarrow> nat \<Rightarrow> migration_failure \<Rightarrow> video_outcome" where
  "failed_outcome p attempt why = \<lparr>vo_video = mp_video p, vo_action = mp_action p, vo_result = RESULT_FAILED,
     vo_status = None, vo_attempts = attempt, vo_failure = Some why\<rparr>"

text \<open>\<open>left\<close> attempts are still allowed after this one, the \<open>attempt\<close>-th.\<close>

fun run_one ::
  "ingest_config \<Rightarrow> bool \<Rightarrow> (nat \<Rightarrow> ingest_world) \<Rightarrow> migration_plan \<Rightarrow> nat \<Rightarrow> nat \<Rightarrow> db \<Rightarrow> video_outcome \<times> db" where
  "run_one cf repair worlds p attempt left s =
     (case act_on cf repair p (worlds attempt) s of
        (Inr status, t) \<Rightarrow> (outcome_of p attempt status, t)
      | (Inl e, t) \<Rightarrow>
          (let why = migration_reason (ingest_text e) in
           if why = NOT_CONFIGURED \<or> why = STORAGE_NOT_CONFIGURED then (failed_outcome p attempt why, t)
           else case left of
                  0 \<Rightarrow> (failed_outcome p attempt why, t)
                | Suc n \<Rightarrow> run_one cf repair worlds p (Suc attempt) n t))"

section \<open>A run\<close>

record migration_report =
  mr_outcomes :: "video_outcome list"
  mr_planned :: nat
  mr_failures :: "migration_failure list"
  mr_all_playable :: bool

fun run_plans ::
  "ingest_config \<Rightarrow> bool \<Rightarrow> (id \<Rightarrow> nat \<Rightarrow> ingest_world) \<Rightarrow> nat \<Rightarrow> migration_plan list \<Rightarrow> db \<Rightarrow> video_outcome list \<times> db" where
  "run_plans cf repair worlds attempts [] s = ([], s)"
| "run_plans cf repair worlds attempts (p # ps) s =
     (let (o1, t) = (if mp_action p = SKIP
                     then (\<lparr>vo_video = mp_video p, vo_action = SKIP, vo_result = RESULT_SKIPPED, vo_status = None,
                            vo_attempts = 0, vo_failure = None\<rparr>, s)
                     else if attempts = 0 then (failed_outcome p 0 UNKNOWN_FAILURE, s)
                     else run_one cf repair (worlds (mp_video p)) p 1 (attempts - 1) s);
          (os, u) = run_plans cf repair worlds attempts ps t
      in (o1 # os, u))"

definition report_of :: "video_outcome list \<Rightarrow> migration_report" where
  "report_of os =
     (let acted = filter (\<lambda>x. vo_action x \<noteq> SKIP) os
      in \<lparr>mr_outcomes = os, mr_planned = length acted,
          mr_failures = List.map_filter vo_failure (filter (\<lambda>x. vo_result x = RESULT_FAILED) os),
          mr_all_playable = list_all (\<lambda>x. vo_result x = RESULT_ADOPTED \<or> vo_result x = RESULT_VERIFIED_READY) acted\<rparr>)"

definition planned_rows :: "id list \<Rightarrow> db \<Rightarrow> video_row list" where
  "planned_rows only s =
     filter (\<lambda>v. vd_deleted_at v = None \<and> (only = [] \<or> vd_id v \<in> set only)) (videos s)"

definition run_migration ::
  "ingest_config \<Rightarrow> plan_options \<Rightarrow> id list \<Rightarrow> int option \<Rightarrow> nat \<Rightarrow> (id \<Rightarrow> nat \<Rightarrow> ingest_world) \<Rightarrow> db \<Rightarrow>
   (blocker list + migration_report) \<times> db" where
  "run_migration cf opts only limit attempts worlds s =
     (if preflight cf \<noteq> [] then (Inl (preflight cf), s)
      else (let (os, t) = run_plans cf (po_repair opts) worlds attempts (plan_batch opts limit (planned_rows only s)) s
            in (Inr (report_of os), t)))"

definition dry_run :: "plan_options \<Rightarrow> id list \<Rightarrow> int option \<Rightarrow> db \<Rightarrow> video_outcome list" where
  "dry_run opts only limit s =
     map (\<lambda>p. \<lparr>vo_video = mp_video p, vo_action = mp_action p,
          vo_result = (if mp_action p = SKIP then RESULT_SKIPPED else if mp_noop p then RESULT_VERIFIED_READY else RESULT_PENDING),
          vo_status = None, vo_attempts = 0, vo_failure = None\<rparr>)
       (plan_batch opts limit (planned_rows only s))"

end
