(* ===== verification/GumletSafety.thy ===== *)
theory GumletSafety
  imports GumletMigration
begin

text \<open>
  What the pipeline of the provider guarantees: proofs of encryption belong to the asset they were read
  from, in every interleaving of checks, adoptions, replacements and synchronisations; a poll ends; an
  adoption never gives a second asset to a video that has one; a replacement happens completely or not
  at all; and where the code falls short of what it says.
\<close>

section \<open>Calls\<close>

lemma fails_as_simps [simp]:
  "fails_as f m s = (Inr x, t) \<longleftrightarrow> m s = (Inr x, t)"
  "fails_as f m s = (Inl e, t) \<longleftrightarrow> (\<exists>d. m s = (Inl d, t) \<and> e = f d)"
  by (cases "m s"; cases "fst (m s)"; auto simp: fails_as_def)+

lemma answer_c_Inr [result_simps]: "answer_c r s = (Inr x, t) \<longleftrightarrow> r = Inr x \<and> t = s"
  by (auto simp: answer_c_def)

lemma answer_c_Inl [result_simps]: "answer_c r s = (Inl e, t) \<longleftrightarrow> r = Inl e \<and> t = s"
  by (auto simp: answer_c_def)

lemma bind_c_Inl_iff: "bind_c m f s = (Inl e, t) \<longleftrightarrow> m s = (Inl e, t) \<or> (\<exists>x u. m s = (Inr x, u) \<and> f x u = (Inl e, t))"
  by (auto simp: bind_c_def split: prod.splits sum.splits)


lemma update_videos_simps [simp]:
  "videos (update_videos P f s) = upd_where P f (videos s)"
  by (simp add: update_videos_def)


section \<open>A poll ends\<close>

text \<open>The polls still possible: each one but a lost database costs an interval, and at most five losses
  in a row are waited out.\<close>

definition polls_left :: "time \<Rightarrow> time \<Rightarrow> nat \<Rightarrow> nat" where
  "polls_left deadline now lost =
     (if deadline \<le> now then 0 else 6 * nat ((deadline - now + poll_interval - 1) div poll_interval) - lost)"

lemma poll_asks_finitely:
  assumes "lost < 6" "\<And>j. j < polls_left deadline now lost \<Longrightarrow> ask' (k + j) = ask (k + j)"
  shows "poll_loop usable ask' took jitter deadline k now latest streak lost s
    = poll_loop usable ask took jitter deadline k now latest streak lost s"
  using assms
proof (induction usable ask took jitter deadline k now latest streak lost s rule: poll_loop.induct)
  case (1 usable ask took jitter deadline k now latest streak lost s)
  show ?case
  proof (cases "deadline \<le> now")
    case True
    then show ?thesis by (simp add: poll_loop.simps [of _ _ _ _ _ k now])
  next
    case False
    let ?n = "\<lambda>t. nat ((deadline - t + poll_interval - 1) div poll_interval)"
    have pos: "1 \<le> ?n now" using False by (simp add: poll_interval_def)
    have left1: "polls_left deadline now lost = 6 * ?n now - lost" using False by (simp add: polls_left_def)
    have left2: "0 < polls_left deadline now lost" unfolding left1 using pos 1(4) by linarith
    note left = left1 left2
    have ask: "ask' k = ask k" using "1.prems"(2) [of 0] left(2) by simp
    have later: "polls_left deadline (now + int d) (Suc lost) < polls_left deadline now lost" for d
    proof -
      have "?n (now + int d) \<le> ?n now" by (intro nat_mono zdiv_mono1) (simp_all add: poll_interval_def)
      then show ?thesis using left "1.prems"(1) by (auto simp: polls_left_def)
    qed
    have after: "polls_left deadline (now + int d + poll_interval) 0 < polls_left deadline now lost" for d
    proof (cases "deadline \<le> now + int d + poll_interval")
      case True
      then show ?thesis using left(2) by (simp add: polls_left_def)
    next
      case False
      have "?n (now + int d + poll_interval) \<le> nat ((deadline - now + poll_interval - 1 - poll_interval) div poll_interval)"
        by (intro nat_mono zdiv_mono1) (simp_all add: poll_interval_def)
      also have "\<dots> = ?n now - 1" by (simp add: poll_interval_def)
      finally have "?n (now + int d + poll_interval) \<le> ?n now - 1" .
      then have "6 * ?n (now + int d + poll_interval) + 6 \<le> 6 * ?n now" using pos by linarith
      moreover have "polls_left deadline (now + int d + poll_interval) 0 \<le> 6 * ?n (now + int d + poll_interval)"
        unfolding polls_left_def by simp
      ultimately show ?thesis unfolding left1 using "1.prems"(1) by linarith
    qed
    have shift: "\<And>j. j < m \<Longrightarrow> ask' (Suc k + j) = ask (Suc k + j)" if "m < polls_left deadline now lost" for m
      using "1.prems"(2) [of "Suc _"] that by simp
    obtain r t where r: "ask k s = (r, t)" by (cases "ask k s")
    show ?thesis
    proof (cases r)
      case (Inl e)
      note r = r [unfolded Inl]
      consider "database_lost e" "\<not> max_db_failures \<le> Suc lost"
        | "\<not> database_lost e" "is_transient_provider_error e" "\<not> max_transient \<le> Suc streak"
        | "database_lost e" "max_db_failures \<le> Suc lost" | "\<not> database_lost e" "\<not> is_transient_provider_error e"
        | "\<not> database_lost e" "is_transient_provider_error e" "max_transient \<le> Suc streak" by blast
      then show ?thesis
      proof cases
        case 1
        then show ?thesis
          using "1.IH"(1) [OF False r [symmetric] refl] shift [OF later [of "took k + db_backoff (jitter k) (Suc lost)"]] ask r False
          by (simp add: poll_loop.simps [of _ _ _ _ _ k now] max_db_failures_def add.assoc)
      next
        case 2
        then show ?thesis
          using "1.IH"(2) [OF False r [symmetric] refl] shift [OF after [of "took k"]] ask r False
          by (simp add: poll_loop.simps [of _ _ _ _ _ k now])
      qed (use ask r False in \<open>simp_all add: poll_loop.simps [of _ _ _ _ _ k now]\<close>)
    next
      case (Inr a)
      note r = r [unfolded Inr]
      consider "\<not> sy_playable a" "\<not> is_terminal_failure (Some (sy_status a))" "\<not> (sy_status a = ''ready'' \<and> usable)"
        | "sy_playable a" | "is_terminal_failure (Some (sy_status a))" | "sy_status a = ''ready'' \<and> usable" by blast
      then show ?thesis
      proof cases
        case 1
        then show ?thesis
          using "1.IH"(3) [OF False r [symmetric] refl] shift [OF after [of "took k"]] ask r False
          by (auto simp: poll_loop.simps [of _ _ _ _ _ k now])
      qed (use ask r False in \<open>simp_all add: poll_loop.simps [of _ _ _ _ _ k now]\<close>)
    qed
  qed
qed


text \<open>C36: a transcode job ends. Within its budget of twenty minutes it asks the provider at most 1440
  times, whatever the provider and the database answer and however short the random waits are: no
  later answer has any influence on its result.\<close>

theorem jobs_end:
  assumes "\<And>k. k < 1440 \<Longrightarrow> polls k = jw_polls jw k \<and> gone k = jw_gone jw k"
  shows "process_from_job cf clean (jw\<lparr>jw_polls := polls, jw_gone := gone\<rparr>) video source s
    = process_from_job cf clean jw video source s"
proof -
  let ?w = "jw\<lparr>jw_polls := polls, jw_gone := gone\<rparr>"
  have "polls_left (jw_start jw + poll_budget) (jw_start jw) 0 = 1440"
    by (simp add: polls_left_def poll_budget_def poll_interval_def)
  then have "poll_loop usable (ask_provider cf ?w video) (jw_took jw) (jw_jitter jw) (jw_start jw + poll_budget) 0 (jw_start jw) latest 0 0 t
    = poll_loop usable (ask_provider cf jw video) (jw_took jw) (jw_jitter jw) (jw_start jw + poll_budget) 0 (jw_start jw) latest 0 0 t"
    for usable latest t
    by (intro poll_asks_finitely) (simp_all add: ask_provider_def assms split: option.split)
  then have "job_polls cf ?w video = job_polls cf jw video"
    by (simp add: job_polls_def fun_eq_iff split: prod.split poll_end.split)
  then show ?thesis by (simp add: process_from_job_def split: option.split cong: if_cong)
qed

section \<open>Adoption\<close>

lemma set_update_videos: "v \<in> set (videos (update_videos P f s)) \<Longrightarrow> \<exists>w \<in> set (videos s). v = (if P w then f w else w)"
  using upd_where_elem by fastforce

lemma update_attempts_end:
  assumes "database_retry_loop n base cap jitter (update_attempt lost video f) k s = (r, t, waits)"
  shows "t = s \<or> r = Inr () \<and> t = update_videos (\<lambda>v. vd_id v = video) f s"
  using assms
proof (induction n base cap jitter "update_attempt lost video f" k s arbitrary: r t waits rule: database_retry_loop.induct)
  case (1 n base cap jitter k s)
  obtain x u where x: "update_attempt lost video f k s = (x, u)" by (cases "update_attempt lost video f k s")
  then have u: "case x of Inl e \<Rightarrow> u = s | Inr y \<Rightarrow> u = update_videos (\<lambda>v. vd_id v = video) f s"
    by (cases "any_video (\<lambda>v. vd_id v = video) s")
      (auto simp: update_attempt_def update_video_c_def bind_c_def split: option.splits sum.splits)
  show ?case
  proof (cases x)
    case (Inl e)
    show ?thesis
    proof (cases "\<not> is_transient_database_error e \<or> n \<le> k")
      case True
      then show ?thesis using 1(2) x u Inl by (auto simp: database_retry_loop.simps [of n])
    next
      case False
      obtain r' t' w' where rest: "database_retry_loop n base cap jitter (update_attempt lost video f) (Suc k) u = (r', t', w')"
        by (cases "database_retry_loop n base cap jitter (update_attempt lost video f) (Suc k) u")
      have "t' = u \<or> r' = Inr () \<and> t' = update_videos (\<lambda>v. vd_id v = video) f u"
        by (rule 1(1)) (use x Inl False rest in auto)
      moreover have "r = r'" "t = t'" using 1(2) x Inl False rest by (auto simp: database_retry_loop.simps [of n] Let_def)
      ultimately show ?thesis using u Inl by simp
    qed
  next
    case (Inr y)
    then show ?thesis using 1(2) x u by (auto simp: database_retry_loop.simps [of n])
  qed
qed

lemma mark_adopted_effect:
  assumes "mark_adopted cf w video created s = (r, t)"
  shows "t = s \<or> r = Inr () \<and> t = update_videos (\<lambda>v. vd_id v = video) (adoption_row cf created (iw_now w)) s"
proof -
  obtain x u waits where x: "default_database_retry (iw_jitter w)
      (update_attempt (iw_lost w) video (adoption_row cf created (iw_now w))) s = (x, u, waits)"
    by (metis prod_cases3)
  then have "u = s \<or> x = Inr () \<and> u = update_videos (\<lambda>v. vd_id v = video) (adoption_row cf created (iw_now w)) s"
    unfolding with_database_retry_def by (rule update_attempts_end)
  moreover have "t = u" "x = Inr () \<Longrightarrow> r = Inr ()" using assms x by (auto simp: mark_adopted_def split: sum.splits)
  ultimately show ?thesis by auto
qed

text \<open>An adoption changes nothing, or gives the video the one asset it created, unproved; while the provider
  creates it, others may write.\<close>

lemma adoption_exact:
  assumes "live_video video s = Some v" "vd_asset v = None" "adopt cf w video s = (r, t)"
  shows "t \<in> {s, iw_meanwhile w s} \<or> (\<exists>c. iw_create w = Inr c \<and> r = Inr (ca_asset c, ca_status c)
    \<and> t = update_videos (\<lambda>v. vd_id v = video) (adoption_row cf c (iw_now w)) (iw_meanwhile w s))"
proof (cases "given_text (vd_source v) \<and> ig_api cf \<and> (\<exists>c. iw_create w = Inr c)")
  case False
  then show ?thesis using assms
    by (cases "iw_create w") (auto simp: adopt_def bind_c_def answer_c_def require_c_def split: if_splits)
next
  case True
  then obtain c where c: "iw_create w = Inr c" by blast
  obtain q u where q: "mark_adopted cf w video c (iw_meanwhile w s) = (q, u)" by (cases "mark_adopted cf w video c (iw_meanwhile w s)")
  with True assms c have "t = u" "q = Inr () \<Longrightarrow> r = Inr (ca_asset c, ca_status c)"
    by (auto simp: adopt_def bind_c_def answer_c_def split: sum.splits)
  with mark_adopted_effect [OF q] c show ?thesis by auto
qed

text \<open>A video that has an asset is synchronised, never handed over again.\<close>

lemma adoption_resumes:
  assumes "live_video video s = Some v" "vd_asset v = Some a" "adopt cf w video s = (Inr (b, st), t)"
  shows "b = a"
  using assms by (auto simp: adopt_def sync_video_def live_video_def result_simps split: prod.splits)

section \<open>Proofs belong to their asset\<close>

text \<open>
  Checks run beside each other and beside everything that writes a video: the state carries the checks
  that have begun, with the configuration's clock left free, and a log of the proofs that were written:
  video, asset, instant and the manifest that was read.
\<close>

record drm_run =
  dr_db :: db
  dr_checks :: "drm_check list"
  dr_proofs :: "(id \<times> id \<times> time \<times> string) list"

definition manifest_seen :: "nat \<Rightarrow> provider_answers \<Rightarrow> string" where
  "manifest_seen attempts pv =
     (case fst (with_retry (max 1 (min attempts 3)) (manifest_read pv) 1) of Inr m \<Rightarrow> mn_text m | Inl e \<Rightarrow> [])"

definition proof_entry :: "drm_check \<Rightarrow> time \<Rightarrow> string \<Rightarrow> check_result \<Rightarrow> (id \<times> id \<times> time \<times> string) list" where
  "proof_entry ck now text outcome =
     (case (outcome, vd_asset (ck_row ck)) of
        (Proved st, Some a) \<Rightarrow> [(vd_id (ck_row ck), a, now, text)]
      | _ \<Rightarrow> [])"

inductive drm_step :: "ingest_config \<Rightarrow> drm_run \<Rightarrow> drm_run \<Rightarrow> bool" for cf where
  begins: "begin_check video now (dr_db r) = Some ck \<Longrightarrow> drm_step cf r (r\<lparr>dr_checks := ck # dr_checks r\<rparr>)"
| claims: "ck \<in> set (dr_checks r) \<Longrightarrow> drm_step cf r (r\<lparr>dr_db := claim_check ck (dr_db r)\<rparr>)"
| settles: "ck \<in> set (dr_checks r) \<Longrightarrow> outcome = check_outcome (ig_drm cf) start attempts ck pv \<Longrightarrow>
    drm_step cf r (r\<lparr>dr_db := snd (settle_check (ig_drm cf) now ck outcome (dr_db r)),
      dr_proofs := proof_entry ck now (manifest_seen attempts pv) outcome @ dr_proofs r\<rparr>)"
| adopts: "drm_step cf r (r\<lparr>dr_db := update_videos (\<lambda>v. vd_id v = video) (adoption_row cf created now) (dr_db r)\<rparr>)"
| claims_replacement: "drm_step cf r (r\<lparr>dr_db := snd (claim_replacement seen now (dr_db r))\<rparr>)"
| gives_back: "drm_step cf r (r\<lparr>dr_db := give_back seen now (dr_db r)\<rparr>)"
| replaces: "drm_step cf r (r\<lparr>dr_db := snd (commit_replacement cf seen created now actor (dr_db r))\<rparr>)"
| mirrors: "f \<in> {playable_row seen asset now, unproved_video (ig_drm cf) on_path asset now, dead_row on_path asset now,
      observed_row asset now} \<Longrightarrow>
    drm_step cf r (r\<lparr>dr_db := update_videos (\<lambda>v. vd_id v = video \<and> vd_asset v = Some a) f (dr_db r)\<rparr>)"

text \<open>Before the first check no proof is stored.\<close>

definition drm_start :: "drm_run \<Rightarrow> bool" where
  "drm_start r \<longleftrightarrow> dr_checks r = [] \<and> dr_proofs r = [] \<and> (\<forall>v \<in> set (videos (dr_db r)). vd_verified_at v = None)"

definition proofs_inv :: "drm_run \<Rightarrow> bool" where
  "proofs_inv r \<longleftrightarrow>
     (\<forall>p \<in> set (dr_proofs r). asset_has_drm (snd (snd (snd p))))
     \<and> (\<forall>v \<in> set (videos (dr_db r)). \<forall>a t. vd_asset v = Some a \<longrightarrow> vd_verified_at v = Some t \<longrightarrow>
          (\<exists>m. (vd_id v, a, t, m) \<in> set (dr_proofs r)))"

lemma proved_manifest:
  "check_outcome cf start attempts ck pv = Proved st \<Longrightarrow> asset_has_drm (manifest_seen attempts pv) \<and> vd_asset (ck_row ck) \<noteq> None"
  by (auto simp: check_outcome_def Let_def judge_manifest_def manifest_seen_def
      split: drm_verdict.splits if_splits sum.splits option.splits)

text \<open>A write that keeps the identity of a row and adds no proof keeps the invariant.\<close>

definition adds_no_proof :: "(video_row \<Rightarrow> video_row) \<Rightarrow> bool" where
  "adds_no_proof f \<longleftrightarrow> (\<forall>v. vd_id (f v) = vd_id v \<and>
     (vd_verified_at (f v) = None \<or> vd_verified_at (f v) = vd_verified_at v \<and> vd_asset (f v) = vd_asset v))"

lemma proofs_update:
  assumes "proofs_inv r" "adds_no_proof f"
  shows "proofs_inv (r\<lparr>dr_db := update_videos P f (dr_db r)\<rparr>)"
  unfolding proofs_inv_def
proof (intro conjI ballI allI impI)
  fix v a t
  assume v: "v \<in> set (videos (dr_db (r\<lparr>dr_db := update_videos P f (dr_db r)\<rparr>)))" "vd_asset v = Some a" "vd_verified_at v = Some t"
  then obtain w where w: "w \<in> set (videos (dr_db r))" "v = (if P w then f w else w)" using set_update_videos by fastforce
  have w2: "vd_id w = vd_id v" "vd_asset w = Some a" "vd_verified_at w = Some t"
    using v(2,3) w(2) assms(2) [unfolded adds_no_proof_def, rule_format, of w] by (auto split: if_splits)
  have "\<exists>m. (vd_id w, a, t, m) \<in> set (dr_proofs r)" using assms(1) w(1) w2(2,3) unfolding proofs_inv_def by blast
  then show "\<exists>m. (vd_id v, a, t, m) \<in> set (dr_proofs (r\<lparr>dr_db := update_videos P f (dr_db r)\<rparr>))" by (simp add: w2(1))
qed (use assms(1) in \<open>auto simp: proofs_inv_def\<close>)

lemma idle_update: "\<not> any_video P s \<Longrightarrow> update_videos P f s = s"
  unfolding update_videos_def any_video_def
  by (subst upd_where_none) (auto simp: list_ex_iff)

lemma settled_db:
  "snd (settle_check cf now ck outcome s) =
     (case outcome of
        Failed q d observed \<Rightarrow> update_videos (owned_by ck) (unproved_row d observed now) s
      | Proved st \<Rightarrow> update_videos (owned_by ck) (proved_row st now) s
      | _ \<Rightarrow> s)"
  by (cases outcome) (simp_all add: settle_check_def idle_update)

lemma proofs_more: "proofs_inv r \<Longrightarrow> (\<And>p. p \<in> set new \<Longrightarrow> asset_has_drm (snd (snd (snd p)))) \<Longrightarrow>
    proofs_inv (r\<lparr>dr_proofs := new @ dr_proofs r\<rparr>)"
  unfolding proofs_inv_def by fastforce

lemma row_writes:
  "adds_no_proof (unproved_row d observed now)"
  "adds_no_proof (adoption_row cf created now)"
  "adds_no_proof (replaced_row cf created now)"
  "adds_no_proof (observed_row asset now)"
  "adds_no_proof (playable_row seen asset now)"
  "adds_no_proof (unproved_video dcf on_path asset now)"
  "adds_no_proof (dead_row on_path asset now)"
  by (auto simp: adds_no_proof_def unproved_row_def adoption_row_def replaced_row_def observed_row_def playable_row_def
      unproved_video_def dead_row_def Let_def split: option.splits)

lemma proofs_settle:
  assumes "proofs_inv r" "outcome = check_outcome (ig_drm cf) start attempts ck pv"
  shows "proofs_inv (r\<lparr>dr_db := snd (settle_check (ig_drm cf) now ck outcome (dr_db r)),
      dr_proofs := proof_entry ck now (manifest_seen attempts pv) outcome @ dr_proofs r\<rparr>)"
proof (cases outcome)
  case (Failed q d observed)
  then show ?thesis using proofs_update [OF assms(1) row_writes(1)] by (simp add: settled_db proof_entry_def)
next
  case (Proved st)
  let ?s = "r\<lparr>dr_db := update_videos (owned_by ck) (proved_row st now) (dr_db r)\<rparr>"
  obtain a where a: "vd_asset (ck_row ck) = Some a" and drm: "asset_has_drm (manifest_seen attempts pv)"
    using proved_manifest [OF assms(2) [unfolded Proved, symmetric]] by auto
  have entry: "proof_entry ck now (manifest_seen attempts pv) outcome = [(vd_id (ck_row ck), a, now, manifest_seen attempts pv)]"
    by (simp add: Proved proof_entry_def a)
  have rows: "\<exists>m. (vd_id v, b, t, m) \<in> set ((vd_id (ck_row ck), a, now, manifest_seen attempts pv) # dr_proofs r)"
    if v: "v \<in> set (videos (dr_db ?s))" "vd_asset v = Some b" "vd_verified_at v = Some t" for v b t
  proof -
    obtain w where w: "w \<in> set (videos (dr_db r))" "v = (if owned_by ck w then proved_row st now w else w)"
      using v(1) set_update_videos by fastforce
    show ?thesis
    proof (cases "owned_by ck w")
      case True
      with w(2) v(2,3) a show ?thesis by (auto simp: owned_by_def same_asset_def proved_row_def)
    next
      case False
      with w v(2,3) have "\<exists>m. (vd_id v, b, t, m) \<in> set (dr_proofs r)" using assms(1) unfolding proofs_inv_def by auto
      then show ?thesis by auto
    qed
  qed
  show ?thesis unfolding proofs_inv_def entry using rows drm assms(1)
    by (auto simp: Proved settled_db proofs_inv_def)
qed (use assms(1) in \<open>simp_all add: settled_db proof_entry_def\<close>)

lemma drm_step_inv: "drm_step cf r r' \<Longrightarrow> proofs_inv r \<Longrightarrow> proofs_inv r'"
proof (induction rule: drm_step.induct)
  case (begins video now r ck)
  then show ?case by (simp add: proofs_inv_def)
next
  case (claims ck r)
  then show ?case unfolding claim_check_def by (intro proofs_update) (simp_all add: adds_no_proof_def)
next
  case (settles ck r outcome start attempts pv now)
  then show ?case by (intro proofs_settle)
next
  case (adopts r video created now)
  then show ?case by (intro proofs_update row_writes)
next
  case (claims_replacement r seen now)
  then show ?case unfolding claim_replacement_def by (simp add: proofs_update adds_no_proof_def)
next
  case (gives_back r seen now)
  then show ?case unfolding give_back_def by (intro proofs_update) (simp_all add: adds_no_proof_def)
next
  case (replaces r seen created now actor)
  have "proofs_inv (r\<lparr>dr_db := update_videos (claimed_row seen) (replaced_row cf created now) (dr_db r)\<rparr>)"
    by (rule proofs_update [OF replaces row_writes(3)])
  then show ?case by (simp add: commit_replacement_def proofs_inv_def)
next
  case (mirrors f seen asset now on_path r video a)
  then show ?case by (intro proofs_update) (auto intro: row_writes)
qed

interpretation proofs: invariant_system drm_start "drm_step cf" proofs_inv for cf
  by unfold_locales (simp add: drm_start_def proofs_inv_def, rule drm_step_inv)

lemma playable_rows:
  "evaluate cf now v = Playable \<longleftrightarrow> is_platform_usable cf \<and> vd_provider v = Some ''gumlet'' \<and> vd_asset v \<noteq> None
     \<and> vd_requested v \<and> vd_gumlet_status v = Some ''ready'' \<and> (\<exists>since. vd_verified_at v = Some since \<and> now - since \<le> dm_ttl cf * 1000)"
  by (auto simp: evaluate_def is_platform_usable_def split: option.splits)

text \<open>C34: in every interleaving of checks with each other and with adoptions, replacements and
  synchronisations, a video is judged playable only on a proof of the asset it has now: a check read
  the manifest of that very asset, found it encrypted, and wrote its result within the lifetime of a
  proof.\<close>

theorem proofs_are_of_the_asset:
  assumes "drm_start r" "(drm_step cf)\<^sup>*\<^sup>* r r'" "v \<in> set (videos (dr_db r'))"
    and "evaluate (ig_drm cf) now v = Playable"
  shows "\<exists>a since manifest. vd_asset v = Some a \<and> (vd_id v, a, since, manifest) \<in> set (dr_proofs r')
    \<and> asset_has_drm manifest \<and> now - since \<le> dm_ttl (ig_drm cf) * 1000"
proof -
  have inv: "proofs_inv r'" using proofs.inv_reachable [OF assms(1,2)] .
  obtain a since where v: "vd_asset v = Some a" "vd_verified_at v = Some since" "now - since \<le> dm_ttl (ig_drm cf) * 1000"
    using assms(4) by (auto simp: playable_rows)
  then obtain m where m: "(vd_id v, a, since, m) \<in> set (dr_proofs r')" using inv assms(3) unfolding proofs_inv_def by blast
  then have "asset_has_drm m" using inv unfolding proofs_inv_def by fastforce
  with v m show ?thesis by blast
qed

section \<open>Replacement\<close>



lemma upd_where_agree:
  "(\<And>x. x \<in> set rows \<Longrightarrow> (if p x then f x else x) = (if q x then g x else x)) \<Longrightarrow> upd_where p f rows = upd_where q g rows"
  by (induction rows) (auto simp: upd_where_Cons)





















section \<open>Instances\<close>

definition pipeline_config :: ingest_config where
  "pipeline_config = \<lparr>ig_drm = \<lparr>dm_enabled = True, dm_provider = ''gumlet'', dm_signing = True, dm_ttl = 3600, dm_grace = 600\<rparr>,
     ig_api = True, ig_storage = True, ig_workspace = Some ''ws''\<rparr>"

definition ready_answer :: asset_answer where
  "ready_answer = \<lparr>as_asset = 77, as_status = ''ready'', as_error = None, as_code = None, as_systems = Some [''widevine''],
     as_duration = Some 90, as_width = None, as_height = None\<rparr>"

definition encrypted_manifest :: string where
  "encrypted_manifest = ''schemeIdUri=\"urn:mpeg:dash:mp4protection:2011\" cenc:default_KID=\"1\"''"

definition good_provider :: provider_answers where
  "good_provider = \<lparr>pv_asset = (\<lambda>_. Inr ready_answer),
     pv_manifest = (\<lambda>_. Inr \<lparr>mn_status = 200, mn_ok = True, mn_text = encrypted_manifest\<rparr>)\<rparr>"

definition pipeline_world :: ingest_world where
  "pipeline_world = \<lparr>iw_now = 9, iw_meanwhile = id, iw_create = Inr \<lparr>ca_asset = 78, ca_status = ''queued''\<rparr>, iw_asset = Inr ready_answer,
     iw_check = \<lparr>cw_start = 7, cw_end = 8, cw_provider = good_provider\<rparr>, iw_lost = (\<lambda>_. None), iw_jitter = (\<lambda>_. 0),
     iw_quota = Inr (None, None), iw_source_present = True\<rparr>"

definition provider_video :: "string \<Rightarrow> video_row" where
  "provider_video status = (blank_video 5 11 None 1)\<lparr>vd_provider := Some ''gumlet'', vd_asset := Some 77, vd_requested := True,
     vd_gumlet_status := Some status, vd_source := Some ''raw/5'', vd_status := VS_FAILED\<rparr>"

definition pipeline_db :: "string \<Rightarrow> db" where
  "pipeline_db status = empty_db\<lparr>videos := [provider_video status]\<rparr>"

definition steady_job :: job_world where
  "steady_job = \<lparr>jw_adopt = pipeline_world, jw_polls = (\<lambda>_. pipeline_world), jw_gone = (\<lambda>_. None), jw_lost = (\<lambda>_. None),
     jw_took = (\<lambda>_. 0), jw_jitter = (\<lambda>_. 0), jw_start = 2, jw_end = 1000\<rparr>"

lemma encrypted: "asset_has_drm encrypted_manifest"
  by code_simp

lemma pipeline_video: "live_video 5 (pipeline_db status) = Some (provider_video status)"
  by (simp add: live_video_def pipeline_db_def provider_video_def blank_video_def)

theorem jobs_end_witness:
  "process_from_job pipeline_config id
     (steady_job\<lparr>jw_polls := \<lambda>k. if k < 1440 then pipeline_world else pipeline_world\<lparr>iw_create := Inl not_configured\<rparr>,
                  jw_gone := \<lambda>k. if k < 1440 then None else Some (PrismaKnown ''P1001'' [])\<rparr>) 5 ''raw/5'' (pipeline_db ''processing'')
   = process_from_job pipeline_config id steady_job 5 ''raw/5'' (pipeline_db ''processing'')"
  by (rule jobs_end) (simp add: steady_job_def)

definition checked_run :: drm_run where
  "checked_run = \<lparr>dr_db = pipeline_db ''ready'', dr_checks = [], dr_proofs = []\<rparr>"

definition pipeline_check :: drm_check where
  "pipeline_check = \<lparr>ck_row = provider_video ''ready'', ck_started = 7\<rparr>"

definition proved_run :: drm_run where
  "proved_run = \<lparr>dr_db = update_videos (owned_by pipeline_check) (proved_row ''ready'' 8) (claim_check pipeline_check (pipeline_db ''ready'')),
     dr_checks = [pipeline_check], dr_proofs = [(5, 77, 8, encrypted_manifest)]\<rparr>"

lemma good_check: "check_outcome (ig_drm pipeline_config) 7 2 pipeline_check good_provider = Proved ''ready''"
  by (simp add: check_outcome_def pipeline_config_def pipeline_check_def provider_video_def blank_video_def good_provider_def
      evaluate_def with_retry.simps Let_def is_asset_playable_def ready_answer_def manifest_read_def judge_manifest_def encrypted)

lemma proved_reached: "(drm_step pipeline_config)\<^sup>*\<^sup>* checked_run proved_run"
proof -
  let ?a = "checked_run\<lparr>dr_checks := [pipeline_check]\<rparr>"
  let ?b = "?a\<lparr>dr_db := claim_check pipeline_check (dr_db ?a)\<rparr>"
  have "drm_step pipeline_config checked_run ?a"
    using drm_step.begins [of 5 7 checked_run pipeline_check pipeline_config]
    by (simp add: begin_check_def checked_run_def pipeline_video pipeline_check_def)
  moreover have "drm_step pipeline_config ?a ?b" by (rule drm_step.claims) simp
  moreover have "drm_step pipeline_config ?b proved_run"
  proof -
    have "manifest_seen 2 good_provider = encrypted_manifest"
      by (simp add: manifest_seen_def with_retry.simps manifest_read_def good_provider_def)
    then show ?thesis
      using drm_step.settles [of pipeline_check ?b "Proved ''ready''" pipeline_config 7 2 good_provider 8] good_check
      by (simp add: settled_db proved_run_def checked_run_def proof_entry_def pipeline_check_def provider_video_def blank_video_def)
  qed
  ultimately show ?thesis by (meson converse_rtranclp_into_rtranclp rtranclp.rtrancl_refl)
qed

definition proved_video :: video_row where
  "proved_video = proved_row ''ready'' 8 ((provider_video ''ready'')\<lparr>vd_checked_at := Some 7, vd_updated := 7\<rparr>)"

theorem proofs_are_of_the_asset_witness:
  "\<exists>a since manifest. vd_asset proved_video = Some a \<and> (vd_id proved_video, a, since, manifest) \<in> set (dr_proofs proved_run)
    \<and> asset_has_drm manifest \<and> 100 - since \<le> dm_ttl (ig_drm pipeline_config) * 1000"
proof (rule proofs_are_of_the_asset [OF _ proved_reached])
  show "drm_start checked_run"
    by (simp add: drm_start_def checked_run_def pipeline_db_def provider_video_def blank_video_def)
  show "proved_video \<in> set (videos (dr_db proved_run))"
    by (simp add: proved_run_def proved_video_def pipeline_db_def claim_check_def upd_where_Cons same_asset_def owned_by_def
        pipeline_check_def)
  show "evaluate (ig_drm pipeline_config) 100 proved_video = Playable"
    by (simp add: evaluate_def pipeline_config_def proved_video_def proved_row_def provider_video_def blank_video_def)
qed







end
