(* ===== verification/Spec2Isabelle.thy ===== *)
theory Spec2Isabelle
  imports Prelude Errors Schema Money Discount PartPricing Retry Wallet Recharge Codes
    Access Revocation Payments Refunds PaymentBooks Academics PartGrants Enrollments Transfers
    Library LibraryBooks LibraryAdmin Calls Devices Sessions Accounts SessionSafety SignIn
    Playback MediaGate MediaSafety PlaybackSafety PlaybackGate CallRules CourseParts PartSafety PartRules
    Calendar Recurrence GumletRules DrmVerification LessonVideos Authoring AuthoringRules
    GumletIngest GumletMigration GumletSafety
begin

text \<open>
  A model of the backend of a learning platform (NestJS services over Prisma and PostgreSQL) and what
  holds of it. The program sells courses, parts of courses and Library documents to students, takes
  the money through a wallet that is topped up by cards and through a payment provider, decides who may
  open which content on which device, and plays encrypted videos that a media provider packages.

  \<^bold>\<open>How the code is represented.\<close> A table is the list of its rows in insertion order, a row a record with
  the columns the modelled code reads or writes, and the database \<open>Schema.db\<close> the record of all tables
  with a counter for new identifiers (\<open>prisma/schema.prisma\<close>). Identifiers are natural numbers, instants
  integers in milliseconds, money integers in piastres. A body of \<open>$transaction\<close> is a function from the
  database to an exception or a value with the new database (\<open>Prelude\<close>, \<open>Retry\<close>): an exception undoes
  everything. A service call that is not one transaction (\<open>Calls\<close>) returns the state also when it throws,
  because its earlier statements were committed. An \<open>updateMany\<close> with a condition is one conditional
  update, and the number of rows it matched decides as in the code. Exceptions are the values of
  \<open>Errors.exn\<close>: the application errors with their codes, the framework's HTTP exceptions and the errors of
  the database client. The clock, random texts, hashes, the answers of the payment and media providers,
  of object storage and of Redis are arguments. Sequences of requests are step relations. A step is an
  operation or one transaction of it; where the code reads, leaves its transaction and writes later and
  the property has to survive it, the reading is a separate argument or step (the rotation of refresh
  tokens, failure events of payments, checks of encryption, replacements of assets). Elsewhere a call
  is one step, so the property speaks of calls whose checks still hold when they write: the removal of
  Library documents and of course parts, the limit of devices, the count of wrong passwords and the
  claim of a play are checked outside the write in the code, the property says so, and lemmas and
  findings show what an overlap does.

  \<^bold>\<open>Foundations.\<close> \<open>Prelude\<close>: results, transactions, tables and the interface of invariants over step
  relations. \<open>Errors\<close> (\<open>common/errors\<close>, \<open>common/filters/all-exceptions.filter.ts\<close>, \<open>common/types\<close>): the error
  contract. \<open>Schema\<close>: the tables. \<open>Money\<close>, \<open>Discount\<close> (\<open>wallet/money.ts\<close>, \<open>wallet/discount.ts\<close>): exact
  amounts and what a card is worth. \<open>Retry\<close> (\<open>database/serializable-retry.ts\<close>): bounded retry of a
  transaction; a body takes effect at most once. \<open>Calls\<close> and \<open>CallRules\<close>: calls that commit statement by
  statement, and the rules that carry a condition through them.

  \<^bold>\<open>Money.\<close> \<open>Wallet\<close> and \<open>Recharge\<close> (\<open>wallet/wallet.service.ts\<close>): balances, the ledger, recharge cards. The
  lemmas show that the ledger explains every balance, that a debit is exact or refused and that a
  card's revenue is booked once. \<open>Payments\<close>, \<open>Refunds\<close>, \<open>PaymentBooks\<close> (\<open>payments\<close>): checkout, capture,
  failure, refunds and refund requests, and the books over every sequence of them, failure events that
  act on an outdated reading of the payment included. \<open>Codes\<close>
  (\<open>codes/codes.service.ts\<close>): batches of cards and their redemption.

  \<^bold>\<open>Access to courses.\<close> \<open>Access\<close> (\<open>courses/course-access.service.ts\<close>): every gate of students and staff.
  \<open>Enrollments\<close>, \<open>Revocation\<close>, \<open>Transfers\<close> (\<open>enrollments\<close>): joining, granting, revoking and transferring.
  \<open>PartPricing\<close>, \<open>PartGrants\<close>, \<open>CourseParts\<close>, \<open>PartSafety\<close>, \<open>PartRules\<close> (\<open>course-parts\<close>): the division of a
  course into parts, the split of its price in both pricing models, the administration of both, and what
  the student's list of parts says about the lectures that play.
  \<open>Academics\<close> (\<open>catalog\<close>): universities, faculties, departments and the ladder of years that decides what
  is offered to whom.

  \<^bold>\<open>Content.\<close> \<open>LessonVideos\<close> (\<open>videos/lesson-video.service.ts\<close>, \<open>CoursesService.recountCourse\<close>): which video
  a lecture plays and the counters of a course. \<open>Authoring\<close> and \<open>AuthoringRules\<close> (\<open>sections\<close>, \<open>lessons\<close>):
  the editing of sections and lectures, with the raw statements that move positions under a unique
  index; the counters of a course stay true, a removal stays local, and the positions kept by deleted
  rows make some edits fail. \<open>Library\<close>, \<open>LibraryBooks\<close>, \<open>LibraryAdmin\<close> (\<open>library\<close>): documents, packages,
  purchases from the wallet, their administration and their books. \<open>Calendar\<close> and \<open>Recurrence\<close>
  (\<open>notifications/recurrence.ts\<close>): when a scheduled announcement fires, against a description of the
  schedule by the wall clock of its zone. The zone is an argument; its offsets are assumed within
  fourteen hours of UTC and three hours of each other, which holds for the platform's default zone.

  \<^bold>\<open>Accounts and devices.\<close> \<open>Sessions\<close>, \<open>Devices\<close>, \<open>Accounts\<close> (\<open>auth\<close>, \<open>devices\<close>, \<open>users\<close>): sign-in, lockout,
  access and refresh tokens with rotation and replay, the binding of devices, the administration of
  accounts. \<open>SignIn\<close> and \<open>SessionSafety\<close>: what they guarantee one by one and together.

  \<^bold>\<open>Playback.\<close> \<open>Playback\<close>, \<open>PlaybackSafety\<close>, \<open>PlaybackGate\<close> (\<open>playback/playback.service.ts\<close>): tickets,
  heartbeats, the play allowance and stream slots. \<open>MediaGate\<close> and \<open>MediaSafety\<close>: the liveness of signed
  addresses at the edge and the services that mint document addresses. \<open>GumletRules\<close>: what a failure of
  the provider means, the bounded retries and the plan of the migration. \<open>DrmVerification\<close>
  (\<open>drm-verification.service.ts\<close>, \<open>drm-verification-sweep.service.ts\<close>): the proof that a video is encrypted,
  its claim, its settlement and its renewal.
  \<open>GumletIngest\<close> and \<open>GumletMigration\<close> (\<open>gumlet-ingest.service.ts\<close>, \<open>gumlet-webhook.service.ts\<close>,
  \<open>gumlet-migration.service.ts\<close>): adoption, synchronisation, the replacement of a dead asset, the transcode
  job, webhooks and the migration run. \<open>GumletSafety\<close>: proofs belong to their asset in every interleaving,
  a job ends, and adoption and replacement are exact, replacements also under rival attempts.

  \<^bold>\<open>Interfaces.\<close> The laws that components rely on are locales, interpreted on the model. \<open>keyed_update\<close>:
  an update that keeps the key a row is found by. \<open>invariant_system\<close>: a condition that holds at the start
  and survives every step; each property over sequences of operations rests on an interpretation of it.
  \<open>ledger_provider\<close>: what the Library asks of the wallet. \<open>money_codec\<close>: amounts written and read back.
  \<open>table_condition\<close>, \<open>session_condition\<close> and \<open>auth_condition\<close>: the elementary writes a condition on users,
  sessions, tokens and devices has to survive, and then survives every operation.

  \<^bold>\<open>Bounds and fuel.\<close> Every definition is total. The loops of the code whose end is not structural are
  functions with a termination proof: the retries are measured by the attempts left, the day search of a
  schedule by its 400 days (66 suffice for a steady zone, which is proved), the polls of a job by the time left
  and the database failures in a row (at most 1440 polls, which is proved). No fuel
  is used as a bound that the code does not have.

  \<^bold>\<open>Integers.\<close> Amounts are bounded by the checks of \<open>money.ts\<close>; the numbers of the language are exact on the
  ranges these checks leave. Where a number is rounded, \<open>round\<close> and the floor are written out.

  \<^bold>\<open>Not modelled, and why.\<close> Controllers, DTO validation and guards of the framework, configuration,
  logging, metrics and audit texts (glue and pure output); the signing of media addresses, manifests and
  watermarks and the HTTP clients of the providers (cryptography and I/O, taken as arguments); sending of
  notifications and the delivery of announcements, search, home and analytics pages, exports and the
  public catalogue (read queries); uploads of files and the storage client; support tickets, settings,
  subjects and account deletion jobs; the watch progress of students; the seed, migrations and scripts.
  Texts that quote a number, a status or an identifier are
  shortened, and columns no modelled code decides on are left out of the rows.
\<close>

end
